(* ===== verification/Js_Prelude.thy ===== *)
theory Js_Prelude
  imports Main "HOL-Library.List_Lexorder"
begin

text \<open>
  Shared vocabulary of the development: the JavaScript strings and the result type of
  fallible operations.

  A JavaScript string is a sequence of UTF-16 code units, so it is a list of numbers here;
  \<open>js\<close> turns an ASCII literal into one.  \<open>length\<close> on such a list is what the source's
  \<open>.length\<close> counts, and the lexicographic order on it (\<open>HOL-Library.List_Lexorder\<close>) is the
  order \<open>Array.prototype.sort\<close> uses on strings.  Fallible operations return a sum, \<open>Inl\<close> the
  thrown error.
\<close>

section \<open>Strings\<close>

type_synonym jstr = "nat list"

definition js :: "string \<Rightarrow> jstr" where
  "js s = map of_char s"

lemma js_eq_iff [simp]: "js s = js t \<longleftrightarrow> s = t"
  by (simp add: js_def inj_map_eq_map inj_of_char)

lemma js_Nil [simp]: "js [] = []"
  by (simp add: js_def)

lemma js_eq_Nil_iff [simp]: "js s = [] \<longleftrightarrow> s = []" "[] = js s \<longleftrightarrow> s = []"
  by (auto simp: js_def)

text \<open>White space as \<open>String.prototype.trim\<close> knows it, and \<open>trim\<close> itself.\<close>

definition is_space :: "nat \<Rightarrow> bool" where
  "is_space c \<longleftrightarrow> (9 \<le> c \<and> c \<le> 13) \<or> c = 32 \<or> c = 160 \<or> c = 5760 \<or> (8192 \<le> c \<and> c \<le> 8202)
     \<or> c = 8232 \<or> c = 8233 \<or> c = 8239 \<or> c = 8287 \<or> c = 12288 \<or> c = 65279"

definition trim_end :: "jstr \<Rightarrow> jstr" where
  "trim_end s = rev (dropWhile is_space (rev s))"

definition trim :: "jstr \<Rightarrow> jstr" where
  "trim s = trim_end (dropWhile is_space s)"

definition blank :: "jstr \<Rightarrow> bool" where
  "blank s \<longleftrightarrow> trim s = []"

lemma trim_end_Nil_iff: "trim_end s = [] \<longleftrightarrow> (\<forall>c \<in> set s. is_space c)"
  by (simp add: trim_end_def dropWhile_eq_Nil_conv)

lemma blank_iff: "blank s \<longleftrightarrow> (\<forall>c \<in> set s. is_space c)"
proof -
  have "(\<forall>c \<in> set (dropWhile is_space s). is_space c) \<longleftrightarrow> (\<forall>c \<in> set s. is_space c)"
    by (metis dropWhile_eq_Nil_conv hd_dropWhile list.set_sel(1) set_dropWhileD)
  then show ?thesis
    by (simp add: blank_def trim_def trim_end_Nil_iff)
qed

lemma trim_end_idem [simp]: "trim_end (trim_end s) = trim_end s"
  by (simp add: trim_end_def dropWhile_idem)

lemma dropWhile_trim_end: "dropWhile is_space s = s \<Longrightarrow> dropWhile is_space (trim_end s) = trim_end s"
proof (cases s)
  case (Cons c r)
  assume "dropWhile is_space s = s"
  then have c: "\<not> is_space c" using Cons by (metis dropWhile.simps(2) dropWhile_eq_self_iff list.sel(1) list.distinct(1))
  have "rev s = rev r @ [c]" using Cons by simp
  then have "\<exists>t. trim_end s = c # t"
    using c by (simp add: trim_end_def dropWhile_append) (metis rev.simps(2) rev_rev_ident)
  then show ?thesis using c by auto
qed (simp add: trim_end_def)

lemma trim_idem [simp]: "trim (trim s) = trim s"
  by (simp add: trim_def dropWhile_trim_end dropWhile_idem)

lemma trim_idem_length: "length (trim s) \<le> length s"
  by (simp add: trim_def trim_end_def) (metis length_dropWhile_le length_rev order_trans)

definition starts_with :: "jstr \<Rightarrow> jstr \<Rightarrow> bool" where
  "starts_with p s \<longleftrightarrow> take (length p) s = p"

text \<open>Decimal digits: \<open>Number.prototype.toString\<close> and \<open>BigInt.prototype.toString\<close> on
  non-negative integers, and the reading of a digit string.\<close>

definition is_digit :: "nat \<Rightarrow> bool" where
  "is_digit c \<longleftrightarrow> 48 \<le> c \<and> c \<le> 57"

fun dec_of_nat :: "nat \<Rightarrow> jstr" where
  "dec_of_nat n = (if n < 10 then [48 + n] else dec_of_nat (n div 10) @ [48 + n mod 10])"

declare dec_of_nat.simps [simp del]

definition nat_of_dec :: "jstr \<Rightarrow> nat" where
  "nat_of_dec ds = foldl (\<lambda>acc d. 10 * acc + (d - 48)) 0 ds"

definition dec_of_int :: "int \<Rightarrow> jstr" where
  "dec_of_int i = (if i < 0 then 45 # dec_of_nat (nat (- i)) else dec_of_nat (nat i))"

lemma dec_of_nat_digits: "\<forall>c \<in> set (dec_of_nat n). is_digit c"
proof (induction n rule: dec_of_nat.induct)
  case (1 n)
  show ?case
  proof (cases "n < 10")
    case True
    then show ?thesis by (simp add: dec_of_nat.simps [of n] is_digit_def)
  next
    case False
    have "n mod 10 < 10" by simp
    with False 1 show ?thesis
      by (simp add: dec_of_nat.simps [of n] is_digit_def)
  qed
qed

lemma dec_of_nat_not_Nil [simp]: "dec_of_nat n \<noteq> []"
  by (subst dec_of_nat.simps) simp

lemma nat_of_dec_of_nat [simp]: "nat_of_dec (dec_of_nat n) = n"
proof (induction n rule: dec_of_nat.induct)
  case (1 n)
  show ?case
  proof (cases "n < 10")
    case True
    then show ?thesis by (simp add: dec_of_nat.simps [of n] nat_of_dec_def)
  next
    case False
    then have "nat_of_dec (dec_of_nat n) = 10 * nat_of_dec (dec_of_nat (n div 10)) + n mod 10"
      by (simp add: dec_of_nat.simps [of n] nat_of_dec_def)
    with 1 [OF False] show ?thesis by simp
  qed
qed

lemma dec_of_nat_inject [simp]: "dec_of_nat m = dec_of_nat n \<longleftrightarrow> m = n"
  by (metis nat_of_dec_of_nat)

lemma hd_dec_of_nat_pos: "0 < n \<Longrightarrow> hd (dec_of_nat n) \<noteq> 48"
proof (induction n rule: dec_of_nat.induct)
  case (1 n)
  then show ?case
    by (cases "n < 10") (simp_all add: dec_of_nat.simps [of n])
qed

lemma dec_of_nat_zero: "dec_of_nat 0 = [48]"
  by (simp add: dec_of_nat.simps)

lemma dec_of_int_inject [simp]: "dec_of_int i = dec_of_int j \<longleftrightarrow> i = j"
proof
  have no_minus: "45 \<notin> set (dec_of_nat n)" for n
    using dec_of_nat_digits [of n] by (auto simp: is_digit_def)
  assume "dec_of_int i = dec_of_int j"
  then show "i = j"
    using no_minus by (auto simp: dec_of_int_def split: if_splits) (metis list.set_intros(1))+
qed simp

section \<open>Safe integers\<close>

definition max_safe :: int where
  "max_safe = 9007199254740991"

definition safe_int :: "int \<Rightarrow> bool" where
  "safe_int i \<longleftrightarrow> \<bar>i\<bar> \<le> max_safe"

text \<open>\<open>total\<close> when it is a safe integer, \<open>Number.MAX_SAFE_INTEGER\<close> otherwise.\<close>

definition safe_add :: "int \<Rightarrow> int \<Rightarrow> int" where
  "safe_add l r = (if safe_int (l + r) then l + r else max_safe)"

lemma safe_add_bounds:
  "0 \<le> l \<Longrightarrow> 0 \<le> r \<Longrightarrow> 0 \<le> safe_add l r \<and> safe_add l r \<le> max_safe"
  by (auto simp: safe_add_def safe_int_def max_safe_def)

lemma safe_add_min: "0 \<le> l \<Longrightarrow> 0 \<le> r \<Longrightarrow> safe_add l r = min (l + r) max_safe"
  by (auto simp: safe_add_def safe_int_def max_safe_def)

section \<open>Results\<close>

definition bindE :: "'e + 'a \<Rightarrow> ('a \<Rightarrow> 'e + 'b) \<Rightarrow> 'e + 'b" where
  "bindE m f = (case m of Inl e \<Rightarrow> Inl e | Inr x \<Rightarrow> f x)"

definition guardE :: "bool \<Rightarrow> 'e \<Rightarrow> 'e + unit" where
  "guardE b e = (if b then Inr () else Inl e)"

text \<open>\<open>Array.prototype.map\<close> with a callback that may throw: the first error stops it.\<close>

fun mapE :: "('a \<Rightarrow> 'e + 'b) \<Rightarrow> 'a list \<Rightarrow> 'e + 'b list" where
  "mapE f [] = Inr []"
| "mapE f (x # xs) = bindE (f x) (\<lambda>y. bindE (mapE f xs) (\<lambda>ys. Inr (y # ys)))"

text \<open>The same with the element's index.\<close>

fun mapE_idx :: "(nat \<Rightarrow> 'a \<Rightarrow> 'e + 'b) \<Rightarrow> nat \<Rightarrow> 'a list \<Rightarrow> 'e + 'b list" where
  "mapE_idx f i [] = Inr []"
| "mapE_idx f i (x # xs) = bindE (f i x) (\<lambda>y. bindE (mapE_idx f (Suc i) xs) (\<lambda>ys. Inr (y # ys)))"

lemma bindE_simps [simp]:
  "bindE (Inl e) f = Inl e"
  "bindE (Inr x) f = f x"
  by (simp_all add: bindE_def)

lemma bindE_Inr_iff: "bindE m f = Inr y \<longleftrightarrow> (\<exists>x. m = Inr x \<and> f x = Inr y)"
  by (cases m) auto

lemma bindE_Inl_iff: "bindE m f = Inl e \<longleftrightarrow> m = Inl e \<or> (\<exists>x. m = Inr x \<and> f x = Inl e)"
  by (cases m) auto

lemma guardE_simps [simp]:
  "guardE True e = Inr ()"
  "guardE False e = Inl e"
  "guardE b e = Inr u \<longleftrightarrow> b"
  by (simp_all add: guardE_def)

lemma guardE_bind [simp]: "bindE (guardE b e) f = (if b then f () else Inl e)"
  by (simp add: guardE_def)

named_theorems result_elims "facts that take a successful result apart"

declare bindE_Inr_iff [result_elims]

lemma mapE_Inr_iff: "mapE f xs = Inr ys \<longleftrightarrow> list_all2 (\<lambda>x y. f x = Inr y) xs ys"
  by (induction xs arbitrary: ys) (auto simp: bindE_Inr_iff list_all2_Cons1)

lemma mapE_idx_Inr_iff:
  "mapE_idx f i xs = Inr ys \<longleftrightarrow>
     length ys = length xs \<and> (\<forall>k < length xs. f (i + k) (xs ! k) = Inr (ys ! k))"
proof (induction xs arbitrary: i ys)
  case Nil
  then show ?case by auto
next
  case (Cons x xs)
  show ?case
  proof (cases ys)
    case Nil
    then show ?thesis by (auto simp: bindE_Inr_iff)
  next
    case (Cons z zs)
    have "(\<forall>k < Suc (length xs). f (i + k) ((x # xs) ! k) = Inr ((z # zs) ! k)) \<longleftrightarrow>
        f i x = Inr z \<and> (\<forall>k < length xs. f (Suc i + k) (xs ! k) = Inr (zs ! k))"
      by (auto simp: less_Suc_eq_0_disj)
    with Cons Cons.IH [of "Suc i" zs] show ?thesis
      by (auto simp: bindE_Inr_iff)
  qed
qed

lemma mapE_Inr_all: "(\<And>x. x \<in> set xs \<Longrightarrow> f x = Inr (g x)) \<Longrightarrow> mapE f xs = Inr (map g xs)"
  by (induction xs) auto

lemma mapE_idx_Inr_all:
  "(\<And>k x. x \<in> set xs \<Longrightarrow> f k x = Inr (g x)) \<Longrightarrow> mapE_idx f i xs = Inr (map g xs)"
  by (induction xs arbitrary: i) auto

end
