(* ===== verification/Js_Date.thy ===== *)
theory Js_Date
  imports Js_Prelude
begin

text \<open>
  A \<open>Date\<close> is its time value, an integer number of milliseconds since the epoch.  This theory
  has the two renderings the source uses: \<open>Date.prototype.toISOString\<close> and the Beijing wall
  clock of \<open>src/utils/beijing-time.ts\<close> (Asia/Shanghai, a constant offset of eight hours since
  1991, which covers every message time).
\<close>

definition pad_left :: "nat \<Rightarrow> jstr \<Rightarrow> jstr" where
  "pad_left w s = replicate (w - length s) 48 @ s"

text \<open>The proleptic Gregorian calendar date of a day number, day 0 being 1970-01-01.\<close>

text \<open>In an era of 400 years that begins on the first of March, a day lies in one of four centuries (the last
  one a day longer), in a cycle of four years and in a year of that cycle.\<close>

definition civil_of_day :: "int \<Rightarrow> int \<times> int \<times> int" where
  "civil_of_day day =
     (let z = day + 719468;
          era = z div 146097;
          doe = z mod 146097;
          century = min 3 (doe div 36524);
          doc = doe - 36524 * century;
          cycle = doc div 1461;
          doq = doc mod 1461;
          yoq = min 3 (doq div 365);
          doy = doq - 365 * yoq;
          yoe = 100 * century + 4 * cycle + yoq;
          mp = (5 * doy + 2) div 153;
          d = doy - (153 * mp + 2) div 5 + 1;
          m = (if mp < 10 then mp + 3 else mp - 9);
          y = yoe + era * 400 + (if m \<le> 2 then 1 else 0)
      in (y, m, d))"

definition day_ms :: int where
  "day_ms = 86400000"

definition two_digits :: "int \<Rightarrow> jstr" where
  "two_digits i = pad_left 2 (dec_of_int i)"

definition year_str :: "int \<Rightarrow> jstr" where
  "year_str y = (if 0 \<le> y \<and> y \<le> 9999 then pad_left 4 (dec_of_int y)
     else (if y < 0 then [45] else [43]) @ pad_left 6 (dec_of_int \<bar>y\<bar>))"

definition iso_date :: "int \<Rightarrow> jstr" where
  "iso_date ms = (case civil_of_day (ms div day_ms) of (y, m, d) \<Rightarrow>
     year_str y @ [45] @ two_digits m @ [45] @ two_digits d)"

definition iso_minutes :: "int \<Rightarrow> jstr" where
  "iso_minutes ms = (let t = ms mod day_ms in
     two_digits (t div 3600000) @ [58] @ two_digits (t div 60000 mod 60))"

definition iso_seconds :: "int \<Rightarrow> jstr" where
  "iso_seconds ms = (let t = ms mod day_ms in
     two_digits (t div 1000 mod 60) @ [46] @ pad_left 3 (dec_of_int (t mod 1000)))"

definition to_iso_string :: "int \<Rightarrow> jstr" where
  "to_iso_string ms = iso_date ms @ [84] @ iso_minutes ms @ [58] @ iso_seconds ms @ [90]"

definition beijing_shift :: int where
  "beijing_shift = 8 * 3600000"

definition formatBeijingMinuteIso :: "int \<Rightarrow> jstr" where
  "formatBeijingMinuteIso ms = iso_date (ms + beijing_shift) @ [84] @
     iso_minutes (ms + beijing_shift) @ js ''+08:00''"

text \<open>Two wall-clock readings agree whenever the instants fall in the same minute.\<close>

lemma same_minute_div_mod:
  fixes a b :: int
  assumes "a div 60000 = b div 60000"
  shows "a div day_ms = b div day_ms"
    and "a mod day_ms div 3600000 = b mod day_ms div 3600000"
    and "a mod day_ms div 60000 mod 60 = b mod day_ms div 60000 mod 60"
proof -
  have day: "x div day_ms = x div 60000 div 1440" for x :: int
    unfolding day_ms_def by (rule zdiv_zmult2_eq [where b = 60000 and c = 1440 and a = x, simplified])
  have min: "x mod day_ms div 60000 = x div 60000 mod 1440" for x :: int
  proof -
    have "x mod (60000 * 1440) = 60000 * (x div 60000 mod 1440) + x mod 60000"
      by (rule zmod_zmult2_eq) simp
    then show ?thesis by (simp add: day_ms_def)
  qed
  have div60: "y div 3600000 = y div 60000 div 60" for y :: int
    by (rule zdiv_zmult2_eq [where b = 60000 and c = 60 and a = y, simplified])
  have hour: "x mod day_ms div 3600000 = x div 60000 mod 1440 div 60" for x :: int
    by (simp only: div60 min)
  show "a div day_ms = b div day_ms" using day assms by simp
  show "a mod day_ms div 3600000 = b mod day_ms div 3600000" using hour assms by simp
  show "a mod day_ms div 60000 mod 60 = b mod day_ms div 60000 mod 60" using min assms by simp
qed

lemma formatBeijingMinuteIso_same_minute:
  assumes "a div 60000 = b div 60000"
  shows "formatBeijingMinuteIso a = formatBeijingMinuteIso b"
proof -
  have "(x + beijing_shift) div 60000 = x div 60000 + 480" for x
    using div_mult_self4 [of "60000::int" 480 x] by (simp add: beijing_shift_def add.commute)
  then have "(a + beijing_shift) div 60000 = (b + beijing_shift) div 60000"
    using assms by simp
  from same_minute_div_mod [OF this] show ?thesis
    unfolding formatBeijingMinuteIso_def iso_date_def iso_minutes_def Let_def by (simp only:)
qed

end
