(* ===== verification/Js_Json.thy ===== *)
theory Js_Json
  imports Js_Date
begin

text \<open>
  JavaScript values as the source inspects them (\<open>unknown\<close>), \<open>JSON.stringify\<close> and
  \<open>JSON.parse\<close>.

  An object is the list of its own enumerable properties in enumeration order, which is what
  \<open>Object.keys\<close> and \<open>Object.entries\<close> return: integer-like keys first, ascending, then the
  others in the order of insertion (\<open>obj_put\<close>).  A finite number is an integer or a decimal
  fraction; the rounding of decimal literals to doubles is not modelled, which no check of the
  source can observe on the numbers it accepts (safe integers).
\<close>

section \<open>Values\<close>

datatype jnum = NInt int | NFrac int nat | NNaN | NInf bool

datatype jv =
    JUndef
  | JNull
  | JBool bool
  | JNum jnum
  | JStr jstr
  | JArr "jv list"
  | JObj "(jstr \<times> jv) list"
  | JBig int
  | JDate "int option"

type_synonym jobj = "(jstr \<times> jv) list"

abbreviation jint :: "int \<Rightarrow> jv" where
  "jint i \<equiv> JNum (NInt i)"

text \<open>Property access \<open>o[k]\<close>, \<open>Object.hasOwn\<close>, \<open>Object.keys\<close>.\<close>

definition obj_get :: "jobj \<Rightarrow> jstr \<Rightarrow> jv" where
  "obj_get ob k = (case map_of ob k of None \<Rightarrow> JUndef | Some v \<Rightarrow> v)"

definition obj_has :: "jobj \<Rightarrow> jstr \<Rightarrow> bool" where
  "obj_has ob k \<longleftrightarrow> k \<in> set (map fst ob)"

abbreviation obj_keys :: "(jstr \<times> 'v) list \<Rightarrow> jstr list" where
  "obj_keys ob \<equiv> map fst ob"

text \<open>Assignment \<open>o[k] = v\<close>: an existing key keeps its place; a new integer-like key goes to
  its place among the integer-like keys, any other key to the end.\<close>

definition is_index_key :: "jstr \<Rightarrow> bool" where
  "is_index_key k \<longleftrightarrow> k \<noteq> [] \<and> (\<forall>c \<in> set k. is_digit c) \<and> (hd k = 48 \<longrightarrow> k = [48])
     \<and> nat_of_dec k < 4294967295"

fun put_index :: "(jstr \<times> 'v) list \<Rightarrow> jstr \<Rightarrow> 'v \<Rightarrow> (jstr \<times> 'v) list" where
  "put_index [] k v = [(k, v)]"
| "put_index ((k', v') # ps) k v =
     (if is_index_key k' \<and> nat_of_dec k' < nat_of_dec k then (k', v') # put_index ps k v
      else (k, v) # (k', v') # ps)"

definition obj_put :: "(jstr \<times> 'v) list \<Rightarrow> jstr \<Rightarrow> 'v \<Rightarrow> (jstr \<times> 'v) list" where
  "obj_put ob k v =
     (if k \<in> set (map fst ob) then map (\<lambda>(k', v'). if k' = k then (k', v) else (k', v')) ob
      else if is_index_key k then put_index ob k v
      else ob @ [(k, v)])"

definition isSafeInteger :: "jv \<Rightarrow> bool" where
  "isSafeInteger v = (case v of JNum (NInt i) \<Rightarrow> safe_int i | _ \<Rightarrow> False)"

definition isNonNegativeSafeInteger :: "jv \<Rightarrow> bool" where
  "isNonNegativeSafeInteger v = (case v of JNum (NInt i) \<Rightarrow> safe_int i \<and> 0 \<le> i | _ \<Rightarrow> False)"

definition isPositiveSafeInteger :: "jv \<Rightarrow> bool" where
  "isPositiveSafeInteger v = (case v of JNum (NInt i) \<Rightarrow> safe_int i \<and> 0 < i | _ \<Rightarrow> False)"

text \<open>The number a safe-integer test has admitted.\<close>

fun num_of :: "jv \<Rightarrow> int" where
  "num_of (JNum (NInt i)) = i"
| "num_of _ = 0"

lemma isNonNegativeSafeInteger_iff:
  "isNonNegativeSafeInteger v \<longleftrightarrow> (\<exists>i. v = jint i \<and> 0 \<le> i \<and> i \<le> max_safe)"
  by (auto simp: isNonNegativeSafeInteger_def safe_int_def split: jv.splits jnum.splits)

lemma isPositiveSafeInteger_iff:
  "isPositiveSafeInteger v \<longleftrightarrow> (\<exists>i. v = jint i \<and> 0 < i \<and> i \<le> max_safe)"
  by (auto simp: isPositiveSafeInteger_def safe_int_def split: jv.splits jnum.splits)

section \<open>Printing\<close>

definition fmt_decimal :: "jstr \<Rightarrow> int \<Rightarrow> jstr" where
  "fmt_decimal s n =
     (let k = int (length s) in
      if k \<le> n \<and> n \<le> 21 then s @ replicate (nat (n - k)) 48
      else if 0 < n \<and> n \<le> 21 then take (nat n) s @ [46] @ drop (nat n) s
      else if -6 < n \<and> n \<le> 0 then [48, 46] @ replicate (nat (- n)) 48 @ s
      else (if k = 1 then s else take 1 s @ [46] @ drop 1 s) @ [101]
        @ (if 0 < n then [43] else [45]) @ dec_of_int \<bar>n - 1\<bar>)"

definition strip_zeros :: "jstr \<Rightarrow> jstr" where
  "strip_zeros s = rev (dropWhile (\<lambda>c. c = 48) (rev s))"

definition sign_str :: "int \<Rightarrow> jstr" where
  "sign_str i = (if i < 0 then [45] else [])"

fun num_str :: "jnum \<Rightarrow> jstr" where
  "num_str (NInt i) = (if \<bar>i\<bar> < 10 ^ 21 then dec_of_int i
     else (let ds = dec_of_nat (nat \<bar>i\<bar>) in sign_str i @ fmt_decimal (strip_zeros ds) (int (length ds))))"
| "num_str (NFrac m p) = (let ds = dec_of_nat (nat \<bar>m\<bar>) in sign_str m @ fmt_decimal ds (int (length ds) - int p))"
| "num_str NNaN = js ''null''"
| "num_str (NInf _) = js ''null''"

definition hex_digit :: "nat \<Rightarrow> nat" where
  "hex_digit n = (if n < 10 then 48 + n else 87 + n)"

definition unicode_escape :: "nat \<Rightarrow> jstr" where
  "unicode_escape c = [92, 117, hex_digit (c div 4096), hex_digit (c div 256 mod 16),
     hex_digit (c div 16 mod 16), hex_digit (c mod 16)]"

definition escape_unit :: "nat \<Rightarrow> jstr" where
  "escape_unit c =
     (if c = 34 then [92, 34] else if c = 92 then [92, 92]
      else if c = 8 then [92, 98] else if c = 9 then [92, 116] else if c = 10 then [92, 110]
      else if c = 12 then [92, 102] else if c = 13 then [92, 114]
      else if c < 32 then unicode_escape c else [c])"

definition is_high_surrogate :: "nat \<Rightarrow> bool" where
  "is_high_surrogate c \<longleftrightarrow> 55296 \<le> c \<and> c \<le> 56319"

definition is_low_surrogate :: "nat \<Rightarrow> bool" where
  "is_low_surrogate c \<longleftrightarrow> 56320 \<le> c \<and> c \<le> 57343"

text \<open>A surrogate is escaped unless it belongs to a pair.\<close>

fun quote_units :: "jstr \<Rightarrow> jstr" where
  "quote_units [] = []"
| "quote_units [c] =
     (if is_high_surrogate c \<or> is_low_surrogate c then unicode_escape c else escape_unit c)"
| "quote_units (c # d # r) =
     (if is_high_surrogate c \<and> is_low_surrogate d then c # d # quote_units r
      else if is_high_surrogate c \<or> is_low_surrogate c then unicode_escape c @ quote_units (d # r)
      else escape_unit c @ quote_units (d # r))"

definition quote_str :: "jstr \<Rightarrow> jstr" where
  "quote_str s = 34 # quote_units s @ [34]"

text \<open>\<open>JSON.stringify\<close>.  An undefined property is left out, an undefined element prints as
  \<open>null\<close>; the exception for a \<open>bigint\<close> is the predicate \<open>stringify_throws\<close> below.\<close>

fun stringify :: "jv \<Rightarrow> jstr"
  and stringify_elems :: "bool \<Rightarrow> jv list \<Rightarrow> jstr"
  and stringify_props :: "bool \<Rightarrow> (jstr \<times> jv) list \<Rightarrow> jstr" where
  "stringify JUndef = js ''null''"
| "stringify JNull = js ''null''"
| "stringify (JBool b) = (if b then js ''true'' else js ''false'')"
| "stringify (JNum n) = num_str n"
| "stringify (JStr s) = quote_str s"
| "stringify (JArr vs) = 91 # stringify_elems True vs @ [93]"
| "stringify (JObj ps) = 123 # stringify_props True ps @ [125]"
| "stringify (JBig i) = []"
| "stringify (JDate d) = (case d of None \<Rightarrow> js ''null'' | Some ms \<Rightarrow> quote_str (to_iso_string ms))"
| "stringify_elems first [] = []"
| "stringify_elems first (v # vs) = (if first then [] else [44]) @ stringify v @ stringify_elems False vs"
| "stringify_props first [] = []"
| "stringify_props first ((k, v) # ps) =
     (if v = JUndef then stringify_props first ps
      else (if first then [] else [44]) @ quote_str k @ [58] @ stringify v @ stringify_props False ps)"

fun stringify_throws :: "jv \<Rightarrow> bool"
  and elems_throw :: "jv list \<Rightarrow> bool"
  and props_throw :: "(jstr \<times> jv) list \<Rightarrow> bool" where
  "stringify_throws (JBig i) = True"
| "stringify_throws (JArr vs) = elems_throw vs"
| "stringify_throws (JObj ps) = props_throw ps"
| "stringify_throws _ = False"
| "elems_throw [] = False"
| "elems_throw (v # vs) = (stringify_throws v \<or> elems_throw vs)"
| "props_throw [] = False"
| "props_throw ((k, v) # ps) = (stringify_throws v \<or> props_throw ps)"

lemma props_throw_iff: "props_throw ps \<longleftrightarrow> (\<exists>v \<in> snd ` set ps. stringify_throws v)"
  by (induction ps) auto

lemma elems_throw_iff: "elems_throw vs \<longleftrightarrow> (\<exists>v \<in> set vs. stringify_throws v)"
  by (induction vs) auto

section \<open>Parsing\<close>

definition json_space :: "nat \<Rightarrow> bool" where
  "json_space c \<longleftrightarrow> c = 9 \<or> c = 10 \<or> c = 13 \<or> c = 32"

definition skip_space :: "jstr \<Rightarrow> jstr" where
  "skip_space s = dropWhile json_space s"

definition unhex :: "nat \<Rightarrow> nat option" where
  "unhex c = (if is_digit c then Some (c - 48) else if 97 \<le> c \<and> c \<le> 102 then Some (c - 87)
     else if 65 \<le> c \<and> c \<le> 70 then Some (c - 55) else None)"

definition unescape :: "nat \<Rightarrow> nat option" where
  "unescape c = (if c = 34 then Some 34 else if c = 92 then Some 92 else if c = 47 then Some 47
     else if c = 98 then Some 8 else if c = 102 then Some 12 else if c = 110 then Some 10
     else if c = 114 then Some 13 else if c = 116 then Some 9 else None)"

text \<open>The rest of a string literal after its opening quote: the units and what follows the
  closing quote.\<close>

fun parse_string :: "jstr \<Rightarrow> (jstr \<times> jstr) option" where
  "parse_string [] = None"
| "parse_string (c # r) =
     (if c = 34 then Some ([], r)
      else if c = 92 then
        (case r of
           [] \<Rightarrow> None
         | e # r1 \<Rightarrow>
             if e = 117 then
               (case r1 of
                  h1 # h2 # h3 # h4 # r2 \<Rightarrow>
                    (case (unhex h1, unhex h2, unhex h3, unhex h4) of
                       (Some a, Some b, Some c, Some d) \<Rightarrow>
                         map_option (apfst ((#) (4096 * a + 256 * b + 16 * c + d))) (parse_string r2)
                     | _ \<Rightarrow> None)
                | _ \<Rightarrow> None)
             else (case unescape e of
                     None \<Rightarrow> None
                   | Some u \<Rightarrow> map_option (apfst ((#) u)) (parse_string r1)))
      else if c < 32 then None
      else map_option (apfst ((#) c)) (parse_string r))"

fun mk_frac :: "int \<Rightarrow> nat \<Rightarrow> jnum" where
  "mk_frac m 0 = NInt m"
| "mk_frac m (Suc p) = (if m mod 10 = 0 then mk_frac (m div 10) p else NFrac m (Suc p))"

definition mk_num :: "int \<Rightarrow> int \<Rightarrow> jnum" where
  "mk_num m e = (if 0 \<le> e then NInt (m * 10 ^ nat e) else mk_frac m (nat (- e)))"

definition digits_of :: "jstr \<Rightarrow> jstr" where
  "digits_of s = takeWhile is_digit s"

definition after_digits :: "jstr \<Rightarrow> jstr" where
  "after_digits s = dropWhile is_digit s"

text \<open>The exponent part: its value and the rest.\<close>

definition parse_exponent :: "jstr \<Rightarrow> (int \<times> jstr) option" where
  "parse_exponent s =
     (case s of
        [] \<Rightarrow> Some (0, [])
      | c # r \<Rightarrow>
          if c = 101 \<or> c = 69 then
            (let neg = (r \<noteq> [] \<and> hd r = 45);
                 r1 = (if r \<noteq> [] \<and> (hd r = 45 \<or> hd r = 43) then tl r else r)
             in if digits_of r1 = [] then None
                else Some ((if neg then - 1 else 1) * int (nat_of_dec (digits_of r1)), after_digits r1))
          else Some (0, s))"

definition parse_number :: "jstr \<Rightarrow> (jnum \<times> jstr) option" where
  "parse_number s =
     (let neg = (s \<noteq> [] \<and> hd s = 45);
          s1 = (if neg then tl s else s);
          ip = digits_of s1;
          r1 = after_digits s1;
          dot = (r1 \<noteq> [] \<and> hd r1 = 46);
          fp = (if dot then digits_of (tl r1) else []);
          r2 = (if dot then after_digits (tl r1) else r1)
      in if ip = [] \<or> (hd ip = 48 \<and> ip \<noteq> [48]) \<or> (dot \<and> fp = []) then None
         else (case parse_exponent r2 of
                 None \<Rightarrow> None
               | Some (e, r3) \<Rightarrow>
                   Some (mk_num ((if neg then - 1 else 1) * int (nat_of_dec (ip @ fp))) (e - int (length fp)), r3)))"

definition parse_atom :: "jstr \<Rightarrow> (jv \<times> jstr) option" where
  "parse_atom s =
     (if starts_with (js ''null'') s then Some (JNull, drop 4 s)
      else if starts_with (js ''true'') s then Some (JBool True, drop 4 s)
      else if starts_with (js ''false'') s then Some (JBool False, drop 5 s)
      else map_option (apfst JNum) (parse_number s))"

text \<open>A value, the elements after \<open>[\<close> or \<open>,\<close>, and the properties after \<open>{\<close> or \<open>,\<close> with
  the object read so far.  The fuel bounds the calls; \<open>json_parse\<close> gives enough for any
  input of that length (\<open>parse_fuel_enough\<close>).\<close>

fun parse_value :: "nat \<Rightarrow> jstr \<Rightarrow> (jv \<times> jstr) option"
  and parse_elems :: "nat \<Rightarrow> jstr \<Rightarrow> (jv list \<times> jstr) option"
  and parse_props :: "nat \<Rightarrow> jobj \<Rightarrow> jstr \<Rightarrow> (jobj \<times> jstr) option" where
  "parse_value 0 s = None"
| "parse_value (Suc f) s =
     (case skip_space s of
        [] \<Rightarrow> None
      | c # r \<Rightarrow>
          if c = 123 then
            (if skip_space r \<noteq> [] \<and> hd (skip_space r) = 125 then Some (JObj [], tl (skip_space r))
             else map_option (apfst JObj) (parse_props f [] r))
          else if c = 91 then
            (if skip_space r \<noteq> [] \<and> hd (skip_space r) = 93 then Some (JArr [], tl (skip_space r))
             else map_option (apfst JArr) (parse_elems f r))
          else if c = 34 then map_option (apfst JStr) (parse_string r)
          else parse_atom (c # r))"
| "parse_elems 0 s = None"
| "parse_elems (Suc f) s =
     (case parse_value f s of
        None \<Rightarrow> None
      | Some (v, r) \<Rightarrow>
          (case skip_space r of
             [] \<Rightarrow> None
           | c # r1 \<Rightarrow> if c = 44 then map_option (apfst ((#) v)) (parse_elems f r1)
               else if c = 93 then Some ([v], r1) else None))"
| "parse_props 0 ob s = None"
| "parse_props (Suc f) ob s =
     (case skip_space s of
        [] \<Rightarrow> None
      | q # r \<Rightarrow>
          if q \<noteq> 34 then None
          else (case parse_string r of
             None \<Rightarrow> None
           | Some (k, r1) \<Rightarrow>
               (case skip_space r1 of
                  [] \<Rightarrow> None
                | c # r2 \<Rightarrow>
                    if c \<noteq> 58 then None
                    else (case parse_value f r2 of
                       None \<Rightarrow> None
                     | Some (v, r3) \<Rightarrow>
                         (case skip_space r3 of
                            [] \<Rightarrow> None
                          | d # r4 \<Rightarrow> if d = 44 then parse_props f (obj_put ob k v) r4
                              else if d = 125 then Some (obj_put ob k v, r4) else None)))))"

definition json_parse :: "jstr \<Rightarrow> jv option" where
  "json_parse s =
     (case parse_value (2 * length s + 2) s of
        None \<Rightarrow> None
      | Some (v, r) \<Rightarrow> if skip_space r = [] then Some v else None)"

end
