(* ===== verification/Js_Json_Roundtrip.thy ===== *)
theory Js_Json_Roundtrip
  imports Js_Json
begin

text \<open>
  \<open>JSON.parse\<close> reads back what \<open>JSON.stringify\<close> printed, for values whose numbers are
  integers below \<open>10\<^sup>21\<close> and whose objects list their
  properties in enumeration order (\<open>jwf\<close>): strings, numbers and nested values in turn, then
  the fact that the fuel \<open>json_parse\<close> takes is enough for every input.
\<close>

section \<open>Strings\<close>

lemma unhex_hex_digit [simp]: "n < 16 \<Longrightarrow> unhex (hex_digit n) = Some n"
  by (auto simp: unhex_def hex_digit_def is_digit_def)

lemma hex_split:
  fixes c :: nat
  assumes "c < 65536"
  shows "4096 * (c div 4096) + 256 * (c div 256 mod 16) + 16 * (c div 16 mod 16) + c mod 16 = c"
proof -
  have "c div 4096 < 16" using assms by (simp add: less_mult_imp_div_less)
  have 1: "c = 16 * (c div 16) + c mod 16" by simp
  have 2: "c div 16 = 16 * (c div 256) + c div 16 mod 16" by (simp add: div_mult2_eq [of c 16 16, simplified])
  have 3: "c div 256 = 16 * (c div 4096) + c div 256 mod 16" by (simp add: div_mult2_eq [of c 256 16, simplified])
  show ?thesis using 1 2 3 by linarith
qed

lemma parse_unicode_escape:
  assumes "c < 65536"
  shows "parse_string (unicode_escape c @ t) = map_option (apfst ((#) c)) (parse_string t)"
proof -
  have "c div 4096 < 16" using assms by (simp add: less_mult_imp_div_less)
  then show ?thesis
    using hex_split [OF assms] by (simp add: unicode_escape_def)
qed

lemma parse_escape_unit:
  "parse_string (escape_unit c @ t) = map_option (apfst ((#) c)) (parse_string t)"
  using parse_unicode_escape [of c t]
  by (simp add: escape_unit_def unescape_def)

lemma surrogate_bound: "is_high_surrogate c \<or> is_low_surrogate c \<Longrightarrow> c < 65536"
  by (auto simp: is_high_surrogate_def is_low_surrogate_def)

lemma parse_raw_unit:
  assumes "32 \<le> c" "c \<noteq> 34" "c \<noteq> 92"
  shows "parse_string (c # t) = map_option (apfst ((#) c)) (parse_string t)"
  using assms by simp

declare parse_string.simps(2) [simp del]

lemma parse_quote_units: "parse_string (quote_units s @ 34 # r) = Some (s, r)"
proof (induction s rule: quote_units.induct)
  case 1
  then show ?case by (simp add: parse_string.simps)
next
  case (2 c)
  then show ?case
    using parse_unicode_escape [of c "34 # r"] parse_escape_unit [of c "34 # r"] surrogate_bound [of c]
    by (simp add: parse_string.simps(2) [of 34])
next
  case (3 c d t)
  show ?case
  proof (cases "is_high_surrogate c \<and> is_low_surrogate d")
    case True
    then have "32 \<le> c" "c \<noteq> 34" "c \<noteq> 92" "32 \<le> d" "d \<noteq> 34" "d \<noteq> 92"
      by (auto simp: is_high_surrogate_def is_low_surrogate_def)
    with True "3.IH"(1) [OF True] show ?thesis
      by (simp add: parse_raw_unit)
  next
    case False
    then show ?thesis
      using "3.IH"(2,3) surrogate_bound [of c] by (auto simp: parse_unicode_escape parse_escape_unit)
  qed
qed

section \<open>Numbers\<close>

definition num_stop :: "jstr \<Rightarrow> bool" where
  "num_stop r \<longleftrightarrow> r = [] \<or> \<not> is_digit (hd r) \<and> hd r \<noteq> 46 \<and> hd r \<noteq> 101 \<and> hd r \<noteq> 69"

lemma digits_of_append: "(\<forall>c \<in> set ds. is_digit c) \<Longrightarrow> num_stop r \<Longrightarrow> digits_of (ds @ r) = ds"
  by (cases r) (simp_all add: digits_of_def num_stop_def takeWhile_append2)

lemma after_digits_append: "(\<forall>c \<in> set ds. is_digit c) \<Longrightarrow> num_stop r \<Longrightarrow> after_digits (ds @ r) = r"
  by (cases r) (simp_all add: after_digits_def num_stop_def dropWhile_append2)

lemma parse_exponent_stop: "num_stop r \<Longrightarrow> parse_exponent r = Some (0, r)"
  by (cases r) (simp_all add: parse_exponent_def num_stop_def)

lemma dec_of_nat_head:
  assumes "dec_of_nat n = c # ds"
  shows "is_digit c" and "c = 48 \<Longrightarrow> ds = []"
proof -
  show "is_digit c" using dec_of_nat_digits [of n] assms by simp
  show "ds = []" if "c = 48"
  proof (cases "n = 0")
    case True
    then show ?thesis using assms by (simp add: dec_of_nat_zero)
  next
    case False
    then show ?thesis using hd_dec_of_nat_pos [of n] assms that by simp
  qed
qed

lemma parse_number_nat:
  assumes "num_stop r"
  shows "parse_number (dec_of_nat n @ r) = Some (NInt (int n), r)"
    and "parse_number (45 # dec_of_nat n @ r) = Some (NInt (- int n), r)"
proof -
  obtain c ds where cds: "dec_of_nat n = c # ds" by (metis dec_of_nat_not_Nil neq_Nil_conv)
  note hd_ok = dec_of_nat_head [OF cds]
  have c: "c \<noteq> 45" "c = 48 \<longrightarrow> ds = []" using hd_ok by (auto simp: is_digit_def)
  have dot: "\<not> (r \<noteq> [] \<and> hd r = 46)" using assms by (auto simp: num_stop_def)
  have dg: "digits_of (c # ds @ r) = c # ds" "after_digits (c # ds @ r) = r"
    using digits_of_append [OF dec_of_nat_digits assms, of n]
      after_digits_append [OF dec_of_nat_digits assms, of n] cds by simp_all
  have nd: "nat_of_dec (c # ds) = n" using nat_of_dec_of_nat [of n] cds by simp
  show "parse_number (dec_of_nat n @ r) = Some (NInt (int n), r)"
    using c dot dg nd parse_exponent_stop [OF assms]
    by (auto simp: parse_number_def cds Let_def mk_num_def)
  show "parse_number (45 # dec_of_nat n @ r) = Some (NInt (- int n), r)"
    using c dot dg nd parse_exponent_stop [OF assms]
    by (auto simp: parse_number_def cds Let_def mk_num_def)
qed

lemma parse_number_int:
  assumes "num_stop r"
  shows "parse_number (dec_of_int i @ r) = Some (NInt i, r)"
  using parse_number_nat [OF assms] by (auto simp: dec_of_int_def)

lemma dec_of_int_head: "\<exists>c ds. dec_of_int i = c # ds \<and> (is_digit c \<or> c = 45)"
proof -
  obtain c ds where "dec_of_nat (nat i) = c # ds" by (metis dec_of_nat_not_Nil neq_Nil_conv)
  with dec_of_nat_head(1) [OF this] show ?thesis by (auto simp: dec_of_int_def)
qed

section \<open>Nested values\<close>

definition obj_of :: "jobj \<Rightarrow> jobj \<Rightarrow> jobj" where
  "obj_of ob ps = foldl (\<lambda>ob (k, v). obj_put ob k v) ob ps"

definition key_order :: "jobj \<Rightarrow> bool" where
  "key_order ps \<longleftrightarrow> obj_of [] ps = ps"

fun jwf :: "jv \<Rightarrow> bool" where
  "jwf JNull = True"
| "jwf (JBool b) = True"
| "jwf (JNum (NInt i)) = (\<bar>i\<bar> < 10 ^ 21)"
| "jwf (JStr s) = True"
| "jwf (JArr vs) = (\<forall>v \<in> set vs. jwf v)"
| "jwf (JObj ps) = (key_order ps \<and> (\<forall>p \<in> set ps. jwf (snd p)))"
| "jwf _ = False"

lemma jwf_not_undef: "jwf v \<Longrightarrow> v \<noteq> JUndef"
  by auto

lemma stringify_head:
  assumes "jwf v"
  shows "\<exists>c t. stringify v = c # t \<and> \<not> json_space c \<and> c \<noteq> 93 \<and> c \<noteq> 125"
proof (cases v)
  case (JBool b)
  then show ?thesis by (cases b) (simp_all add: js_def json_space_def)
next
  case (JNum n)
  with assms obtain i where i: "n = NInt i" "\<bar>i\<bar> < 10 ^ 21" by (cases n) auto
  obtain c ds where "dec_of_int i = c # ds" "is_digit c \<or> c = 45" using dec_of_int_head by blast
  with JNum i show ?thesis by (auto simp: json_space_def is_digit_def)
qed (use assms in \<open>auto simp: js_def json_space_def quote_str_def\<close>)

lemma skip_space_idem: "\<not> json_space c \<Longrightarrow> skip_space (c # t) = c # t"
  by (simp add: skip_space_def)

lemma skip_stringify: "jwf v \<Longrightarrow> skip_space (stringify v @ r) = stringify v @ r"
  using stringify_head [of v] by (auto simp: skip_space_idem)

lemma parse_value_skip: "skip_space s = s' \<Longrightarrow> skip_space s' = s' \<Longrightarrow> parse_value (Suc f) s = parse_value (Suc f) s'"
  by simp

lemma parse_atom_number:
  assumes "num_stop r" 
  shows "parse_atom (dec_of_int i @ r) = Some (jint i, r)"
proof -
  obtain c ds where c: "dec_of_int i = c # ds" "is_digit c \<or> c = 45" using dec_of_int_head by blast
  have "\<not> starts_with (js ''null'') (dec_of_int i @ r)" "\<not> starts_with (js ''true'') (dec_of_int i @ r)"
    "\<not> starts_with (js ''false'') (dec_of_int i @ r)"
    using c by (auto simp: starts_with_def js_def is_digit_def)
  then show ?thesis
    by (simp add: parse_atom_def parse_number_int [OF assms])
qed

definition val_rt :: "jv \<Rightarrow> bool" where
  "val_rt v \<longleftrightarrow> (\<exists>n. \<forall>f \<ge> n. \<forall>r. num_stop r \<longrightarrow> parse_value f (stringify v @ r) = Some (v, r))"

lemma val_rtE:
  assumes "val_rt v"
  obtains n where "\<And>f r. n \<le> f \<Longrightarrow> num_stop r \<Longrightarrow> parse_value f (stringify v @ r) = Some (v, r)"
  using assms unfolding val_rt_def by blast

lemma num_stop_simps [simp]: "num_stop (44 # r)" "num_stop (93 # r)" "num_stop (125 # r)" "num_stop []"
  by (simp_all add: num_stop_def is_digit_def)

lemma json_space_simps [simp]: "\<not> json_space 44" "\<not> json_space 93" "\<not> json_space 125" "\<not> json_space 58" "\<not> json_space 34"
   "\<not> json_space 91" "\<not> json_space 123"
  by (simp_all add: json_space_def)

lemma elems_rt:
  assumes "vs \<noteq> []" and "\<forall>v \<in> set vs. val_rt v"
  shows "\<exists>n. \<forall>f \<ge> n. \<forall>r. parse_elems f (stringify_elems True vs @ 93 # r) = Some (vs, r)"
  using assms
proof (induction vs)
  case Nil
  then show ?case by simp
next
  case (Cons v vs)
  then have "val_rt v" by simp
  then obtain n where n: "\<And>f r. n \<le> f \<Longrightarrow> num_stop r \<Longrightarrow> parse_value f (stringify v @ r) = Some (v, r)"
    by (rule val_rtE) blast
  show ?case
  proof (cases vs)
    case Nil
    show ?thesis
    proof (intro exI allI impI)
      fix f r assume "Suc n \<le> f"
      then obtain f' where "f = Suc f'" "n \<le> f'" by (cases f) auto
      then show "parse_elems f (stringify_elems True (v # vs) @ 93 # r) = Some (v # vs, r)"
        by (simp add: n Nil skip_space_idem)
    qed
  next
    case (Cons w ws)
    then obtain m where m: "\<And>f r. f \<ge> m \<Longrightarrow> parse_elems f (stringify_elems True vs @ 93 # r) = Some (vs, r)"
      using Cons.IH Cons.prems by auto
    have comma: "stringify_elems False vs = 44 # stringify_elems True vs" using Cons by simp
    show ?thesis
    proof (intro exI allI impI)
      fix f r assume "Suc (max n m) \<le> f"
      then obtain f' where "f = Suc f'" "n \<le> f'" "m \<le> f'" by (cases f) auto
      then show "parse_elems f (stringify_elems True (v # vs) @ 93 # r) = Some (v # vs, r)"
        using m [of f' r] by (simp add: n comma skip_space_idem)
    qed
  qed
qed

lemma props_rt:
  assumes "ps \<noteq> []" and "\<forall>p \<in> set ps. jwf (snd p) \<and> val_rt (snd p)"
  shows "\<exists>n. \<forall>f \<ge> n. \<forall>ob r. parse_props f ob (stringify_props True ps @ 125 # r) = Some (obj_of ob ps, r)"
  using assms
proof (induction ps)
  case Nil
  then show ?case by simp
next
  case (Cons p ps)
  obtain k v where p: "p = (k, v)" by fastforce
  with Cons.prems have "val_rt v" by simp
  then obtain n where n: "\<And>f r. n \<le> f \<Longrightarrow> num_stop r \<Longrightarrow> parse_value f (stringify v @ r) = Some (v, r)"
    by (rule val_rtE) blast
  have kv: "jwf v" using Cons.prems p by auto
  have key: "parse_string (quote_units k @ 34 # t) = Some (k, t)" for t
    by (rule parse_quote_units)
  have shape: "stringify_props True (p # ps) @ 125 # r =
      34 # quote_units k @ 34 # 58 # stringify v @ stringify_props False ps @ 125 # r" for r
    using jwf_not_undef [OF kv] by (simp add: p quote_str_def)
  show ?case
  proof (cases ps)
    case Nil
    show ?thesis
    proof (intro exI allI impI)
      fix f ob r assume "Suc n \<le> f"
      then obtain f' where f: "f = Suc f'" "n \<le> f'" by (cases f) auto
      show "parse_props f ob (stringify_props True (p # ps) @ 125 # r) = Some (obj_of ob (p # ps), r)"
        unfolding shape using f by (simp add: Nil n key skip_space_idem obj_of_def p)
    qed
  next
    case (Cons q qs)
    then obtain m where m: "\<And>f ob r. f \<ge> m \<Longrightarrow>
        parse_props f ob (stringify_props True ps @ 125 # r) = Some (obj_of ob ps, r)"
      using Cons.IH Cons.prems by auto
    have comma: "stringify_props False ps = 44 # stringify_props True ps"
      using Cons Cons.prems jwf_not_undef by (cases q) auto
    show ?thesis
    proof (intro exI allI impI)
      fix f ob r assume "Suc (max n m) \<le> f"
      then obtain f' where f: "f = Suc f'" "n \<le> f'" "m \<le> f'" by (cases f) auto
      show "parse_props f ob (stringify_props True (p # ps) @ 125 # r) = Some (obj_of ob (p # ps), r)"
        unfolding shape using f m [of f' "obj_put ob k v" r]
        by (simp add: comma n key skip_space_idem obj_of_def p)
    qed
  qed
qed

lemma val_rtI: "(\<And>f r. num_stop r \<Longrightarrow> parse_value (Suc f) (stringify v @ r) = Some (v, r)) \<Longrightarrow> val_rt v"
  unfolding val_rt_def by (metis Suc_le_D)

lemma jwf_val_rt: "jwf v \<Longrightarrow> val_rt v"
proof (induction v)
  case (JBool b)
  show ?case
    by (rule val_rtI)
      (cases b; simp add: js_def skip_space_idem json_space_def parse_atom_def starts_with_def)
next
  case (JNum x)
  then obtain i where i: "x = NInt i" "\<bar>i\<bar> < 10 ^ 21" by (cases x) auto
  show ?case
  proof (rule val_rtI)
    fix f r assume r: "num_stop r"
    obtain c ds where c: "dec_of_int i = c # ds" "is_digit c \<or> c = 45" using dec_of_int_head by blast
    then have "\<not> json_space c" "c \<noteq> 123" "c \<noteq> 91" "c \<noteq> 34" by (auto simp: is_digit_def json_space_def)
    then show "parse_value (Suc f) (stringify (JNum x) @ r) = Some (JNum x, r)"
      using i parse_atom_number [OF r, of i] by (simp add: c skip_space_idem)
  qed
next
  case (JStr s)
  then show ?case
    by (intro val_rtI) (simp add: quote_str_def skip_space_idem parse_quote_units)
next
  case (JArr vs)
  show ?case
  proof (cases "vs = []")
    case True
    show ?thesis by (rule val_rtI) (simp add: True skip_space_idem)
  next
    case False
    from JArr have "\<forall>v \<in> set vs. val_rt v" by simp
    from elems_rt [OF False this] obtain n where
      n: "\<And>f r. f \<ge> n \<Longrightarrow> parse_elems f (stringify_elems True vs @ 93 # r) = Some (vs, r)" by blast
    obtain v ws where vs: "vs = v # ws" using False by (cases vs) auto
    then obtain c t where c: "stringify v = c # t" "\<not> json_space c" "c \<noteq> 93"
      using JArr.prems stringify_head [of v] by auto
    show ?thesis unfolding val_rt_def
    proof (intro exI allI impI)
      fix f r assume "Suc n \<le> f"
      then obtain f' where f: "f = Suc f'" "n \<le> f'" by (cases f) auto
      show "parse_value f (stringify (JArr vs) @ r) = Some (JArr vs, r)"
        using n [OF f(2), of r] c by (simp add: f(1) vs skip_space_idem)
    qed
  qed
next
  case (JObj ps)
  show ?case
  proof (cases "ps = []")
    case True
    show ?thesis by (rule val_rtI) (simp add: True skip_space_idem)
  next
    case False
    have "\<forall>p \<in> set ps. jwf (snd p) \<and> val_rt (snd p)"
      using JObj by (metis jwf.simps(6) prod.collapse prod_set_simps(2) singletonI)
    from props_rt [OF False this] obtain n where
      n: "\<And>f ob r. f \<ge> n \<Longrightarrow> parse_props f ob (stringify_props True ps @ 125 # r) = Some (obj_of ob ps, r)"
      by blast
    have "obj_of [] ps = ps" using JObj.prems by (simp add: key_order_def)
    obtain k v qs where ps: "ps = (k, v) # qs" using False by (cases ps) auto
    have "v \<noteq> JUndef" using JObj.prems jwf_not_undef ps by auto
    show ?thesis unfolding val_rt_def
    proof (intro exI allI impI)
      fix f r assume "Suc n \<le> f"
      then obtain f' where f: "f = Suc f'" "n \<le> f'" by (cases f) auto
      show "parse_value f (stringify (JObj ps) @ r) = Some (JObj ps, r)"
        using n [OF f(2), of "[]" r] \<open>v \<noteq> JUndef\<close> \<open>obj_of [] ps = ps\<close>
        by (simp add: f(1) ps quote_str_def skip_space_idem)
    qed
  qed
qed (auto intro!: val_rtI simp: js_def skip_space_idem json_space_def parse_atom_def starts_with_def)

section \<open>Fuel\<close>

lemma length_skip_space: "length (skip_space s) \<le> length s"
  by (simp add: skip_space_def length_dropWhile_le)

lemma length_skip_Cons: "skip_space s = c # r \<Longrightarrow> length r < length s"
  using length_skip_space [of s] by simp

lemma parse_string_consumes: "parse_string s = Some (x, r) \<Longrightarrow> length r < length s"
proof (induction s arbitrary: x r rule: length_induct)
  case (1 s)
  then have IH: "\<And>t x. length t < length s \<Longrightarrow> parse_string t = Some (x, r) \<Longrightarrow> length r < length t"
    by blast
  show ?case
  proof (cases s)
    case (Cons c t)
    with "1.prems" show ?thesis
      by (auto simp: parse_string.simps(2) split: if_splits list.splits option.splits dest!: IH [rotated])
  qed (use "1.prems" in simp)
qed

lemma length_after_digits: "length (after_digits u) \<le> length u"
  by (simp add: after_digits_def length_dropWhile_le)

lemma parse_exponent_consumes: "parse_exponent s = Some (e, r) \<Longrightarrow> length r \<le> length s"
  by (cases s)
    (auto simp: parse_exponent_def Let_def split: if_splits intro!: order_trans [OF length_after_digits])

lemma parse_number_consumes: "parse_number s = Some (n, r) \<Longrightarrow> length r < length s"
proof -
  assume a: "parse_number s = Some (n, r)"
  define s1 where "s1 = (if s \<noteq> [] \<and> hd s = 45 then tl s else s)"
  define r1 where "r1 = after_digits s1"
  define r2 where "r2 = (if r1 \<noteq> [] \<and> hd r1 = 46 then after_digits (tl r1) else r1)"
  have nonempty: "digits_of s1 \<noteq> []" and "\<exists>e. parse_exponent r2 = Some (e, r)"
    using a by (auto simp: parse_number_def Let_def s1_def r1_def r2_def split: if_splits option.splits)
  then have "length r \<le> length r2" using parse_exponent_consumes by blast
  also have "length r2 \<le> length r1"
    by (auto simp: r2_def after_digits_def intro: order_trans [OF length_dropWhile_le])
  also have "length r1 < length s1"
  proof -
    have "length s1 = length (digits_of s1) + length r1"
      unfolding digits_of_def after_digits_def r1_def
      by (metis length_append takeWhile_dropWhile_id)
    with nonempty show ?thesis by simp
  qed
  also have "length s1 \<le> length s" by (simp add: s1_def)
  finally show ?thesis .
qed

lemma starts_with_drop:
  assumes "starts_with w s" "w \<noteq> []"
  shows "length (drop (length w) s) < length s"
proof -
  have "0 < length w" "length w \<le> length s"
    using assms by (auto simp: starts_with_def) (metis length_take min.cobounded1)
  then show ?thesis by (simp only: length_drop)
qed

lemma parse_atom_consumes: "parse_atom s = Some (v, r) \<Longrightarrow> length r < length s"
  using starts_with_drop [of "js ''null''" s] starts_with_drop [of "js ''true''" s]
    starts_with_drop [of "js ''false''" s]
  by (auto simp: parse_atom_def js_def split: if_splits dest: parse_number_consumes)

lemma parse_consumes:
  "parse_value f s = Some (v, r) \<Longrightarrow> length r < length s"
  "parse_elems f s = Some (vs, r) \<Longrightarrow> length r < length s"
  "parse_props f ob s = Some (ob', r) \<Longrightarrow> length r < length s"
proof (induction f arbitrary: s v r vs ob ob')
  case 0
  {
    case 1
    then show ?case by simp
  next
    case 2
    then show ?case by simp
  next
    case 3
    then show ?case by simp
  }
next
  case (Suc f)
  {
    case 1
    then obtain c t where c: "skip_space s = c # t" by (auto split: list.splits)
    have lt: "length t < length s" "Suc (length t) \<le> length s"
      using length_skip_space [of s] c by simp_all
    have tl: "skip_space t \<noteq> [] \<Longrightarrow> length (tl (skip_space t)) < length s"
      using length_skip_space [of t] lt by (cases "skip_space t") auto
    show ?case
      using 1 c lt tl Suc.IH(2) [of t] Suc.IH(3) [of "[]" t] parse_string_consumes [of t]
        parse_atom_consumes [of "c # t"]
      by (auto split: if_splits)
  next
    case 2
    then obtain w t where w: "parse_value f s = Some (w, t)" by (auto split: option.splits)
    with 2 obtain c u where c: "skip_space t = c # u" by (auto split: list.splits)
    have "length t < length s" "length u < length t"
      using Suc.IH(1) [OF w] length_skip_Cons [OF c] by auto
    then show ?case
      using 2 w c Suc.IH(2) [of u] by (auto split: if_splits)
  next
    case 3
    then obtain t where t: "skip_space s = 34 # t" by (auto split: list.splits if_splits)
    with 3 obtain k t1 where k: "parse_string t = Some (k, t1)" by (auto split: option.splits)
    with 3 t obtain t2 where t2: "skip_space t1 = 58 # t2" by (auto split: list.splits if_splits)
    with 3 t k obtain w t3 where w: "parse_value f t2 = Some (w, t3)" by (auto split: option.splits)
    with 3 t k t2 obtain c t4 where c: "skip_space t3 = c # t4" by (auto split: list.splits)
    have "length t4 < length s"
      using length_skip_Cons [OF t] parse_string_consumes [OF k] length_skip_Cons [OF t2]
        Suc.IH(1) [OF w] length_skip_Cons [OF c] by linarith
    then show ?case
      using 3 t k t2 w c Suc.IH(3) [of "obj_put ob k w" t4] by (auto split: if_splits)
  }
qed

lemma parse_fuel_Suc:
  "2 * length s + 1 \<le> f \<Longrightarrow> parse_value (Suc f) s = parse_value f s"
  "2 * length s + 2 \<le> f \<Longrightarrow> parse_elems (Suc f) s = parse_elems f s"
  "2 * length s + 2 \<le> f \<Longrightarrow> parse_props (Suc f) ob s = parse_props f ob s"
proof (induction f arbitrary: s ob)
  case 0
  {
    case 1
    then show ?case by simp
  next
    case 2
    then show ?case by simp
  next
    case 3
    then show ?case by simp
  }
next
  case (Suc f)
  {
    case 1
    show ?case
    proof (cases "skip_space s")
      case (Cons c t)
      then have "2 * length t + 2 \<le> f" using length_skip_Cons [OF Cons] 1 by simp
      then have "parse_elems (Suc f) t = parse_elems f t" "parse_props (Suc f) [] t = parse_props f [] t"
        using Suc.IH(2,3) by blast+
      then show ?thesis by (simp only: parse_value.simps Cons list.case)
    qed simp
  next
    case 2
    then have v: "parse_value (Suc f) s = parse_value f s" using Suc.IH(1) by simp
    show ?case
    proof (cases "parse_value f s")
      case (Some p)
      obtain w t where p: "p = (w, t)" by fastforce
      show ?thesis
      proof (cases "skip_space t")
        case (Cons c u)
        have "length u < length s"
          using length_skip_Cons [OF Cons] parse_consumes(1) [OF Some [unfolded p]] by simp
        with 2 have "2 * length u + 2 \<le> f" by simp
        with Suc.IH(2) have "parse_elems (Suc f) u = parse_elems f u" by simp
        with Some p Cons v show ?thesis
          by (simp only: parse_elems.simps option.case prod.case list.case)
      qed (simp only: Some p v parse_elems.simps option.case prod.case list.case)
    qed (simp only: v parse_elems.simps option.case)
  next
    case 3
    show ?case
    proof (cases "skip_space s")
      case (Cons q t)
      note s = Cons
      show ?thesis
      proof (cases "parse_string t")
        case (Some p)
        obtain k t1 where k: "parse_string t = Some (k, t1)" using Some by (cases p) auto
        show ?thesis
        proof (cases "skip_space t1")
          case (Cons c t2)
          note s1 = Cons
          have l2: "length t2 < length s"
            using length_skip_Cons [OF s] parse_string_consumes [OF k] length_skip_Cons [OF s1] by simp
          then have v: "parse_value (Suc f) t2 = parse_value f t2" using 3 Suc.IH(1) by simp
          show ?thesis
          proof (cases "parse_value f t2")
            case (Some p2)
            obtain w t3 where w: "parse_value f t2 = Some (w, t3)" using Some by (cases p2) auto
            show ?thesis
            proof (cases "skip_space t3")
              case (Cons d t4)
              have "length t4 < length s"
                using l2 parse_consumes(1) [OF w] length_skip_Cons [OF Cons] by simp
              with 3 have "2 * length t4 + 2 \<le> f" by simp
              with Suc.IH(3) have "parse_props (Suc f) (obj_put ob k w) t4 = parse_props f (obj_put ob k w) t4"
                by simp
              with s k s1 v w Cons show ?thesis
                by (simp only: parse_props.simps option.case prod.case list.case)
            qed (simp only: s k s1 v w parse_props.simps option.case prod.case list.case)
          qed (simp only: s k s1 v parse_props.simps option.case prod.case list.case)
        qed (simp only: s k parse_props.simps option.case prod.case list.case)
      qed (simp only: s parse_props.simps option.case prod.case list.case)
    qed (simp only: parse_props.simps list.case)
  }
qed

lemma parse_fuel_enough:
  assumes "2 * length s + 1 \<le> f"
  shows "parse_value f s = parse_value (2 * length s + 1) s"
  using assms by (induction rule: dec_induct) (simp_all add: parse_fuel_Suc(1) del: parse_value.simps)

theorem json_parse_stringify:
  assumes "jwf v"
  shows "json_parse (stringify v) = Some v"
proof -
  let ?s = "stringify v"
  obtain n where n: "\<And>f r. n \<le> f \<Longrightarrow> num_stop r \<Longrightarrow> parse_value f (stringify v @ r) = Some (v, r)"
    using jwf_val_rt [OF assms] by (rule val_rtE) blast
  have "parse_value (2 * length ?s + 2) ?s = parse_value (max n (2 * length ?s + 1)) ?s"
    using parse_fuel_enough [of ?s "2 * length ?s + 2"] parse_fuel_enough [of ?s "max n (2 * length ?s + 1)"]
    by simp
  also have "\<dots> = Some (v, [])"
    using n [of "max n (2 * length ?s + 1)" "[]"] by simp
  finally show ?thesis by (simp add: json_parse_def skip_space_def)
qed

section \<open>Objects with ordinary keys\<close>

lemma obj_put_new:
  "k \<notin> set (obj_keys ob) \<Longrightarrow> \<not> is_index_key k \<Longrightarrow> obj_put ob k v = ob @ [(k, v)]"
  by (simp add: obj_put_def)

lemma obj_of_append:
  assumes "distinct (obj_keys (ob @ ps))" and "\<forall>k \<in> set (obj_keys ps). \<not> is_index_key k"
  shows "obj_of ob ps = ob @ ps"
  using assms
proof (induction ps arbitrary: ob)
  case Nil
  then show ?case by (simp add: obj_of_def)
next
  case (Cons p ps)
  obtain k v where p: "p = (k, v)" by fastforce
  then have "obj_put ob k v = ob @ [(k, v)]"
    using Cons.prems by (intro obj_put_new) auto
  then have "obj_of ob (p # ps) = obj_of (ob @ [(k, v)]) ps"
    by (simp add: obj_of_def p)
  also have "\<dots> = (ob @ [(k, v)]) @ ps"
    using Cons.prems by (intro Cons.IH) (auto simp: p)
  finally show ?case by (simp add: p)
qed

lemma key_orderI:
  "distinct (obj_keys ps) \<Longrightarrow> \<forall>k \<in> set (obj_keys ps). \<not> is_index_key k \<Longrightarrow> key_order ps"
  using obj_of_append [of "[]" ps] by (simp add: key_order_def)

lemma not_index_js [simp]: "\<not> is_digit (of_char c) \<Longrightarrow> \<not> is_index_key (js (c # cs))"
  by (simp add: is_index_key_def js_def)

end
