(* ===== verification/Text_Encoding.thy ===== *)
theory Text_Encoding
  imports Js_Json_Roundtrip
begin

text \<open>
  UTF-16 strings as code points, their UTF-8 length (\<open>Buffer.byteLength\<close>) and
  \<open>encodeURIComponent\<close>, with the fact that the latter is injective.
\<close>

fun code_points :: "jstr \<Rightarrow> nat list" where
  "code_points [] = []"
| "code_points [c] = [c]"
| "code_points (c # d # r) =
     (if is_high_surrogate c \<and> is_low_surrogate d
      then (65536 + (c - 55296) * 1024 + (d - 56320)) # code_points r
      else c # code_points (d # r))"

definition utf8 :: "nat \<Rightarrow> nat list" where
  "utf8 c =
     (if c < 128 then [c]
      else if c < 2048 then [192 + c div 64, 128 + c mod 64]
      else if c < 65536 then [224 + c div 4096, 128 + c div 64 mod 64, 128 + c mod 64]
      else [240 + c div 262144, 128 + c div 4096 mod 64, 128 + c div 64 mod 64, 128 + c mod 64])"

text \<open>A lone surrogate is written as the replacement character, three bytes as well.\<close>

definition byte_length :: "jstr \<Rightarrow> nat" where
  "byte_length s = sum_list (map (\<lambda>c. length (utf8 c)) (code_points s))"

definition unreserved :: "nat \<Rightarrow> bool" where
  "unreserved c \<longleftrightarrow> is_digit c \<or> (65 \<le> c \<and> c \<le> 90) \<or> (97 \<le> c \<and> c \<le> 122)
     \<or> c \<in> {45, 95, 46, 33, 126, 42, 39, 40, 41}"

definition upper_hex :: "nat \<Rightarrow> nat" where
  "upper_hex n = (if n < 10 then 48 + n else 55 + n)"

definition percent_byte :: "nat \<Rightarrow> jstr" where
  "percent_byte b = [37, upper_hex (b div 16), upper_hex (b mod 16)]"

definition encode_point :: "nat \<Rightarrow> jstr" where
  "encode_point c = (if unreserved c then [c] else concat (map percent_byte (utf8 c)))"

text \<open>\<open>None\<close> is the \<open>URIError\<close> a lone surrogate raises.\<close>

definition encodeURIComponent :: "jstr \<Rightarrow> jstr option" where
  "encodeURIComponent s =
     (let cs = code_points s in
      if \<exists>c \<in> set cs. is_high_surrogate c \<or> is_low_surrogate c then None
      else Some (concat (map encode_point cs)))"

section \<open>The UTF-8 length\<close>

lemma byte_length_Nil [simp]: "byte_length [] = 0"
  by (simp add: byte_length_def)

lemma utf8_length_pos: "0 < length (utf8 c)"
  by (simp add: utf8_def)

lemma code_points_not_Nil: "s \<noteq> [] \<Longrightarrow> code_points s \<noteq> []"
  by (cases s rule: code_points.cases) auto

lemma byte_length_pos: "s \<noteq> [] \<Longrightarrow> 0 < byte_length s"
  using code_points_not_Nil [of s] utf8_length_pos
  by (cases "code_points s") (auto simp: byte_length_def)

section \<open>Injectivity\<close>

definition units_of_point :: "nat \<Rightarrow> jstr" where
  "units_of_point c = (if c < 65536 then [c]
     else [55296 + (c - 65536) div 1024, 56320 + (c - 65536) mod 1024])"

text \<open>The units of a JavaScript string are 16-bit numbers.\<close>

definition units_ok :: "jstr \<Rightarrow> bool" where
  "units_ok s \<longleftrightarrow> (\<forall>c \<in> set s. c < 65536)"

lemma units_ok_js [simp]: "units_ok (js s)"
proof -
  have "of_char c < (256 :: nat)" for c by simp
  then have "of_char c < (65536 :: nat)" for c by (rule order_less_trans) simp
  then show ?thesis by (simp add: units_ok_def js_def)
qed

lemma units_of_code_points: "units_ok s \<Longrightarrow> concat (map units_of_point (code_points s)) = s"
proof (induction s rule: code_points.induct)
  case (3 c d r)
  show ?case
  proof (cases "is_high_surrogate c \<and> is_low_surrogate d")
    case True
    then have "c = 55296 + (c - 55296)" "d = 56320 + (d - 56320)" "d - 56320 < 1024"
      by (auto simp: is_high_surrogate_def is_low_surrogate_def)
    then obtain a b where "c = 55296 + a" "d = 56320 + b" "b < 1024" by blast
    with True 3 show ?thesis by (simp add: units_of_point_def units_ok_def)
  next
    case False
    with "3.IH"(2) [OF False] "3.prems" show ?thesis
      unfolding code_points.simps if_not_P [OF False] by (simp add: units_of_point_def units_ok_def)
  qed
qed (auto simp: units_of_point_def units_ok_def)

lemma code_points_inject:
  "units_ok s \<Longrightarrow> units_ok t \<Longrightarrow> code_points s = code_points t \<Longrightarrow> s = t"
  by (metis units_of_code_points)

lemma code_points_bound: "units_ok s \<Longrightarrow> c \<in> set (code_points s) \<Longrightarrow> c < 1114112"
proof (induction s rule: code_points.induct)
  case (3 x y r)
  then show ?case
    by (auto simp: units_ok_def is_high_surrogate_def is_low_surrogate_def split: if_splits)
qed (auto simp: units_ok_def)

lemma upper_hex_inject: "m < 16 \<Longrightarrow> n < 16 \<Longrightarrow> upper_hex m = upper_hex n \<longleftrightarrow> m = n"
  by (auto simp: upper_hex_def)

lemma percent_byte_inject:
  assumes "a < 256" "b < 256" "percent_byte a @ r = percent_byte b @ t"
  shows "a = b \<and> r = t"
proof -
  have "upper_hex (a div 16) = upper_hex (b div 16)" "upper_hex (a mod 16) = upper_hex (b mod 16)" "r = t"
    using assms(3) by (simp_all add: percent_byte_def)
  moreover have "a div 16 < 16" "b div 16 < 16" using assms by (simp_all add: less_mult_imp_div_less)
  ultimately have "a div 16 = b div 16" "a mod 16 = b mod 16" by (simp_all add: upper_hex_inject)
  then show ?thesis using \<open>r = t\<close> by (metis div_mult_mod_eq)
qed

definition utf8_point :: "nat list \<Rightarrow> nat" where
  "utf8_point bs = (case bs of
     [a] \<Rightarrow> a
   | [a, b] \<Rightarrow> (a - 192) * 64 + (b - 128)
   | [a, b, c] \<Rightarrow> (a - 224) * 4096 + (b - 128) * 64 + (c - 128)
   | [a, b, c, d] \<Rightarrow> (a - 240) * 262144 + (b - 128) * 4096 + (c - 128) * 64 + (d - 128)
   | _ \<Rightarrow> 0)"

lemma base64_digits:
  fixes c :: nat
  shows "c div 64 * 64 + c mod 64 = c"
    and "c div 4096 * 4096 + c div 64 mod 64 * 64 + c mod 64 = c"
    and "c div 262144 * 262144 + c div 4096 mod 64 * 4096 + c div 64 mod 64 * 64 + c mod 64 = c"
proof -
  have 1: "c = c div 64 * 64 + c mod 64" by simp
  have 2: "c div 64 = c div 4096 * 64 + c div 64 mod 64"
    using div_mult2_eq [of c 64 64] by simp
  have 3: "c div 4096 = c div 262144 * 64 + c div 4096 mod 64"
    using div_mult2_eq [of c 4096 64] by simp
  show "c div 64 * 64 + c mod 64 = c" by simp
  show "c div 4096 * 4096 + c div 64 mod 64 * 64 + c mod 64 = c" using 1 2 by linarith
  show "c div 262144 * 262144 + c div 4096 mod 64 * 4096 + c div 64 mod 64 * 64 + c mod 64 = c"
    using 1 2 3 by linarith
qed

lemma utf8_point_utf8: "utf8_point (utf8 c) = c"
  using base64_digits [of c] by (simp add: utf8_def utf8_point_def)

text \<open>The lead byte tells the length.\<close>

lemma utf8_length_lead:
  assumes "c < 1114112" "d < 1114112" "hd (utf8 c) = hd (utf8 d)"
  shows "length (utf8 c) = length (utf8 d)"
proof -
  have lead: "hd (utf8 x) = (if x < 128 then x else if x < 2048 then 192 + x div 64
      else if x < 65536 then 224 + x div 4096 else 240 + x div 262144)" for x
    by (simp add: utf8_def)
  have "x < 2048 \<Longrightarrow> x div 64 < 32" "x < 65536 \<Longrightarrow> x div 4096 < 16" for x :: nat
    by (simp_all add: less_mult_imp_div_less)
  then show ?thesis
    using assms(3) unfolding lead by (auto simp: utf8_def split: if_splits)
qed

lemma utf8_bytes: "c < 1114112 \<Longrightarrow> b \<in> set (utf8 c) \<Longrightarrow> b < 256"
proof -
  assume c: "c < 1114112" and b: "b \<in> set (utf8 c)"
  have "c < 2048 \<Longrightarrow> c div 64 < 32" "c < 65536 \<Longrightarrow> c div 4096 < 16" "c div 262144 < 5"
    using c by (simp_all add: less_mult_imp_div_less)
  moreover have "x mod 64 < 64" for x :: nat by simp
  then have "128 + x mod 64 < 256" for x :: nat by (rule order_less_trans [OF add_strict_left_mono]) simp
  ultimately show ?thesis using b by (auto simp: utf8_def split: if_splits)
qed

lemma percent_bytes_prefix:
  assumes "length as = length bs" "\<forall>b \<in> set as. b < 256" "\<forall>b \<in> set bs. b < 256"
    and "concat (map percent_byte as) @ r = concat (map percent_byte bs) @ t"
  shows "as = bs \<and> r = t"
  using assms
proof (induction as bs rule: list_induct2)
  case (Cons a as b bs)
  then have "a = b \<and> concat (map percent_byte as) @ r = concat (map percent_byte bs) @ t"
    by (intro percent_byte_inject) auto
  with Cons show ?case by simp
qed simp

lemma encode_point_prefix:
  assumes "c < 1114112" "d < 1114112" "encode_point c @ r = encode_point d @ t"
  shows "c = d \<and> r = t"
proof -
  have un: "\<not> unreserved 37" by (simp add: unreserved_def is_digit_def)
  have lead: "\<exists>u. concat (map percent_byte (utf8 x)) = 37 # u" for x
    by (cases "utf8 x") (use utf8_length_pos [of x] in \<open>auto simp: percent_byte_def\<close>)
  consider "unreserved c" "unreserved d" | "unreserved c \<noteq> unreserved d" | "\<not> unreserved c" "\<not> unreserved d"
    by blast
  then show ?thesis
  proof cases
    case 1
    then show ?thesis using assms(3) by (simp add: encode_point_def)
  next
    case 2
    then show ?thesis
      using assms(3) un lead [of c] lead [of d] by (auto simp: encode_point_def split: if_splits)
  next
    case 3
    then have eq: "concat (map percent_byte (utf8 c)) @ r = concat (map percent_byte (utf8 d)) @ t"
      using assms(3) by (simp add: encode_point_def)
    obtain b bs where b: "utf8 c = b # bs" using utf8_length_pos [of c] by (cases "utf8 c") auto
    obtain e es where e: "utf8 d = e # es" using utf8_length_pos [of d] by (cases "utf8 d") auto
    have "b < 256" "e < 256" using utf8_bytes assms(1,2) b e by auto
    then have "b = e" using eq percent_byte_inject [of b e] by (simp add: b e)
    then have "length (utf8 c) = length (utf8 d)"
      using utf8_length_lead [OF assms(1,2)] b e by simp
    from percent_bytes_prefix [OF this _ _ eq] utf8_bytes assms(1,2)
    have "utf8 c = utf8 d \<and> r = t" by blast
    then show ?thesis by (metis utf8_point_utf8)
  qed
qed

lemma encode_point_not_Nil: "encode_point c \<noteq> []"
  using utf8_length_pos [of c] by (cases "utf8 c") (auto simp: encode_point_def percent_byte_def)

lemma encode_points_inject:
  assumes "\<forall>c \<in> set cs. c < 1114112" "\<forall>c \<in> set ds. c < 1114112"
    and "concat (map encode_point cs) = concat (map encode_point ds)"
  shows "cs = ds"
  using assms
proof (induction cs arbitrary: ds)
  case Nil
  then show ?case using encode_point_not_Nil by (cases ds) auto
next
  case (Cons c cs)
  obtain d ds' where ds: "ds = d # ds'"
    using Cons.prems(3) encode_point_not_Nil [of c] by (cases ds) auto
  have "c < 1114112" "d < 1114112"
    "encode_point c @ concat (map encode_point cs) = encode_point d @ concat (map encode_point ds')"
    using Cons.prems ds by simp_all
  then have "c = d \<and> concat (map encode_point cs) = concat (map encode_point ds')"
    by (rule encode_point_prefix)
  with Cons.IH [of ds'] Cons.prems(1,2) ds show ?case by simp
qed

lemma encodeURIComponent_inject:
  assumes "units_ok s" "units_ok t" "encodeURIComponent s = Some e" "encodeURIComponent t = Some e"
  shows "s = t"
proof -
  have "concat (map encode_point (code_points s)) = concat (map encode_point (code_points t))"
    using assms(3,4) by (auto simp: encodeURIComponent_def Let_def split: if_splits)
  then have "code_points s = code_points t"
    using code_points_bound [OF assms(1)] code_points_bound [OF assms(2)]
    by (metis encode_points_inject)
  with assms(1,2) show ?thesis by (rule code_points_inject)
qed

lemma encode_point_no_colon: "c < 1114112 \<Longrightarrow> 58 \<notin> set (encode_point c)"
proof -
  assume c: "c < 1114112"
  have uh: "58 \<noteq> upper_hex n" if "n < 16" for n using that by (auto simp: upper_hex_def)
  have "58 \<notin> set (percent_byte b)" if "b < 256" for b
  proof -
    have "b div 16 < 16" "b mod 16 < 16" using that by (simp_all add: less_mult_imp_div_less)
    from this [THEN uh] show ?thesis by (simp add: percent_byte_def)
  qed
  then have "58 \<notin> set (concat (map percent_byte (utf8 c)))"
    using utf8_bytes [OF c] by auto
  moreover have "\<not> unreserved 58" by (simp add: unreserved_def is_digit_def)
  ultimately show ?thesis unfolding encode_point_def by (cases "unreserved c") auto
qed

lemma encodeURIComponent_no_colon:
  assumes "units_ok s" "encodeURIComponent s = Some e"
  shows "58 \<notin> set e"
proof -
  have "e = concat (map encode_point (code_points s))"
    using assms(2) by (simp add: encodeURIComponent_def Let_def split: if_splits)
  moreover have "58 \<notin> set (encode_point c)" if "c \<in> set (code_points s)" for c
    using that by (intro encode_point_no_colon code_points_bound [OF assms(1)])
  ultimately show ?thesis by simp
qed

lemma encodeURIComponent_not_Nil:
  "s \<noteq> [] \<Longrightarrow> encodeURIComponent s = Some e \<Longrightarrow> e \<noteq> []"
proof -
  assume s: "s \<noteq> []" and e: "encodeURIComponent s = Some e"
  show ?thesis
    using e encode_point_not_Nil code_points_not_Nil [OF s]
    by (cases "code_points s") (auto simp: encodeURIComponent_def Let_def split: if_splits)
qed

end
