(* ===== verification/Conversation.thy ===== *)
theory Conversation
  imports Text_Encoding
begin

text \<open>
  \<open>src/chat/conversation.ts\<close> (conversation references and their keys) and the mailbox keys of
  \<open>src/agent/mailbox.ts\<close> and \<open>src/agent/mailbox-handled.ts\<close>.  The lemmas show that the key of a
  conversation is a mailbox key, that distinct conversations have distinct keys, and which keys
  name private mailboxes.
\<close>

section \<open>Conversation references\<close>

datatype chat_platform = Qq | Feishu

datatype conversation_kind = GroupChat | PrivateChat

record conversation_ref =
  platform :: chat_platform
  accountId :: jstr
  ckind :: conversation_kind
  externalId :: jstr

definition platform_str :: "chat_platform \<Rightarrow> jstr" where
  "platform_str p = (case p of Qq \<Rightarrow> js ''qq'' | Feishu \<Rightarrow> js ''feishu'')"

definition kind_str :: "conversation_kind \<Rightarrow> jstr" where
  "kind_str k = (case k of GroupChat \<Rightarrow> js ''group'' | PrivateChat \<Rightarrow> js ''private'')"

definition colon :: nat where
  "colon = 58"

text \<open>\<open>parts.join(':')\<close> and \<open>s.split(':')\<close>.\<close>

fun join_colon :: "jstr list \<Rightarrow> jstr" where
  "join_colon [] = []"
| "join_colon [p] = p"
| "join_colon (p # ps) = p @ colon # join_colon ps"

fun split_colon :: "jstr \<Rightarrow> jstr list" where
  "split_colon [] = [ [] ]"
| "split_colon (c # s) =
     (if c = colon then [] # split_colon s
      else (case split_colon s of [] \<Rightarrow> [ [c] ] | p # ps \<Rightarrow> (c # p) # ps))"

definition conversationKey :: "conversation_ref \<Rightarrow> jstr option" where
  "conversationKey c =
     (case (encodeURIComponent (accountId c), encodeURIComponent (externalId c)) of
        (Some a, Some e) \<Rightarrow> Some (join_colon [platform_str (platform c), a, kind_str (ckind c), e])
      | _ \<Rightarrow> None)"

record participant_ref =
  p_platform :: chat_platform
  p_accountId :: jstr
  p_externalId :: jstr

definition participantKey :: "participant_ref \<Rightarrow> jstr option" where
  "participantKey p =
     (case (encodeURIComponent (p_accountId p), encodeURIComponent (p_externalId p)) of
        (Some a, Some e) \<Rightarrow> Some (join_colon [platform_str (p_platform p), a, e])
      | _ \<Rightarrow> None)"

section \<open>Mailbox keys\<close>

text \<open>\<open>MAILBOX_KEY_PATTERN\<close>: the segments between colons are exactly those the two
  alternatives of the regular expression ask for.\<close>

definition mailbox_key_parts :: "jstr list \<Rightarrow> bool" where
  "mailbox_key_parts ps =
     (case ps of
        [p, d] \<Rightarrow> (p = js ''qq_group'' \<or> p = js ''qq_private'') \<and> d \<noteq> [] \<and> (\<forall>c \<in> set d. is_digit c)
      | [p, a, k, e] \<Rightarrow> (p = js ''qq'' \<or> p = js ''feishu'') \<and> a \<noteq> []
          \<and> (k = js ''group'' \<or> k = js ''private'') \<and> e \<noteq> []
      | _ \<Rightarrow> False)"

definition is_mailbox_key :: "jstr \<Rightarrow> bool" where
  "is_mailbox_key s \<longleftrightarrow> mailbox_key_parts (split_colon s)"

definition isMailboxKey :: "jv \<Rightarrow> bool" where
  "isMailboxKey v = (case v of JStr s \<Rightarrow> is_mailbox_key s | _ \<Rightarrow> False)"

fun includes_str :: "jstr \<Rightarrow> jstr \<Rightarrow> bool" where
  "includes_str p [] = (p = [])"
| "includes_str p (c # s) = (starts_with p (c # s) \<or> includes_str p s)"

definition isPrivateMailbox :: "jstr \<Rightarrow> bool" where
  "isPrivateMailbox m \<longleftrightarrow> starts_with (js ''qq_private:'') m \<or> includes_str (js '':private:'') m"

section \<open>Splitting and joining\<close>

lemma split_colon_not_Nil [simp]: "split_colon s \<noteq> []"
  by (induction s) (auto split: list.splits)

lemma split_colon_no_colon: "colon \<notin> set s \<Longrightarrow> split_colon s = [s]"
  by (induction s) auto

lemma split_colon_Cons: "colon \<notin> set p \<Longrightarrow> split_colon (p @ colon # s) = p # split_colon s"
  by (induction p) auto

lemma split_join_colon:
  "ps \<noteq> [] \<Longrightarrow> \<forall>p \<in> set ps. colon \<notin> set p \<Longrightarrow> split_colon (join_colon ps) = ps"
  by (induction ps rule: join_colon.induct) (auto simp: split_colon_no_colon split_colon_Cons)

lemma join_split_colon: "join_colon (split_colon s) = s"
proof (induction s)
  case (Cons c s)
  obtain p ps where s: "split_colon s = p # ps" by (metis neq_Nil_conv split_colon_not_Nil)
  with Cons show ?case by (cases ps) auto
qed simp

lemma no_colon_literals [simp]:
  "colon \<notin> set (platform_str p)" "colon \<notin> set (kind_str k)"
  by (auto simp: platform_str_def kind_str_def js_def colon_def split: chat_platform.splits conversation_kind.splits)

lemma platform_str_inject [simp]: "platform_str p = platform_str q \<longleftrightarrow> p = q"
  by (auto simp: platform_str_def split: chat_platform.splits)

lemma kind_str_inject [simp]: "kind_str p = kind_str q \<longleftrightarrow> p = q"
  by (auto simp: kind_str_def split: conversation_kind.splits)

definition ref_ok :: "conversation_ref \<Rightarrow> bool" where
  "ref_ok c \<longleftrightarrow> units_ok (accountId c) \<and> units_ok (externalId c)"

lemma conversationKey_split:
  assumes "ref_ok c" "conversationKey c = Some k"
  obtains a e where "encodeURIComponent (accountId c) = Some a" "encodeURIComponent (externalId c) = Some e"
    and "split_colon k = [platform_str (platform c), a, kind_str (ckind c), e]"
    and "k = join_colon [platform_str (platform c), a, kind_str (ckind c), e]"
    and "colon \<notin> set a" "colon \<notin> set e"
proof -
  obtain a e where ae: "encodeURIComponent (accountId c) = Some a" "encodeURIComponent (externalId c) = Some e"
    and k: "k = join_colon [platform_str (platform c), a, kind_str (ckind c), e]"
    using assms(2) by (auto simp: conversationKey_def split: option.splits)
  have nc: "colon \<notin> set a" "colon \<notin> set e"
    using assms(1) ae encodeURIComponent_no_colon unfolding ref_ok_def colon_def by blast+
  have "split_colon k = [platform_str (platform c), a, kind_str (ckind c), e]"
    unfolding k using nc by (intro split_join_colon) auto
  with ae k nc show thesis by (intro that)
qed

lemma conversationKey_is_mailbox_key:
  assumes "ref_ok c" "accountId c \<noteq> []" "externalId c \<noteq> []" "conversationKey c = Some k"
  shows "is_mailbox_key k"
proof -
  obtain a e where ae: "encodeURIComponent (accountId c) = Some a" "encodeURIComponent (externalId c) = Some e"
    and s: "split_colon k = [platform_str (platform c), a, kind_str (ckind c), e]"
    using conversationKey_split [OF assms(1,4)] by metis
  have "a \<noteq> []" "e \<noteq> []" using ae assms(2,3) encodeURIComponent_not_Nil by blast+
  then show ?thesis
    unfolding is_mailbox_key_def s
    by (cases "platform c"; cases "ckind c") (auto simp: mailbox_key_parts_def platform_str_def kind_str_def)
qed

lemma conversationKey_injective:
  assumes "ref_ok c" "ref_ok d" "conversationKey c = Some k" "conversationKey d = Some k"
  shows "c = d"
proof -
  obtain a e where c: "encodeURIComponent (accountId c) = Some a" "encodeURIComponent (externalId c) = Some e"
    "split_colon k = [platform_str (platform c), a, kind_str (ckind c), e]"
    using conversationKey_split [OF assms(1,3)] by metis
  obtain a' e' where d: "encodeURIComponent (accountId d) = Some a'" "encodeURIComponent (externalId d) = Some e'"
    "split_colon k = [platform_str (platform d), a', kind_str (ckind d), e']"
    using conversationKey_split [OF assms(2,4)] by metis
  have eq: "platform c = platform d" "a = a'" "ckind c = ckind d" "e = e'" using c(3) d(3) by auto
  have "accountId c = accountId d" "externalId c = externalId d"
    using assms(1,2) c(1,2) d(1,2) eq encodeURIComponent_inject by (auto simp: ref_ok_def)
  with eq show ?thesis by simp
qed

section \<open>Private mailboxes\<close>

lemma includes_skip: "colon \<notin> set a \<Longrightarrow> includes_str (colon # p) (a @ s) = includes_str (colon # p) s"
  by (induction a) (auto simp: starts_with_def)

lemma includes_segment:
  assumes "colon \<notin> set a" "colon \<notin> set w"
  shows "includes_str (colon # w @ [colon]) (colon # a @ colon # s) \<longleftrightarrow>
    a = w \<or> includes_str (colon # w @ [colon]) (colon # s)"
proof -
  have "starts_with (colon # w @ [colon]) (colon # a @ colon # s) \<longleftrightarrow> a = w"
  proof
    assume "starts_with (colon # w @ [colon]) (colon # a @ colon # s)"
    then have "take (Suc (length w)) (a @ colon # s) = w @ [colon]" by (simp add: starts_with_def)
    then obtain t where "a @ colon # s = w @ colon # t"
      by (metis append_Cons append_assoc append_Nil append_take_drop_id)
    then have "a # split_colon s = w # split_colon t"
      using assms split_colon_Cons by metis
    then show "a = w" by simp
  qed (simp add: starts_with_def)
  then show ?thesis using includes_skip [OF assms(1), of "w @ [colon]" "colon # s"] by simp
qed

lemma includes_last:
  assumes "colon \<notin> set e"
  shows "\<not> includes_str (colon # w @ [colon]) (colon # e)"
proof -
  have "\<not> starts_with (colon # w @ [colon]) (colon # e)"
  proof
    assume "starts_with (colon # w @ [colon]) (colon # e)"
    then have "w @ [colon] = take (Suc (length w)) e" by (simp add: starts_with_def)
    then have "colon \<in> set e" by (metis in_set_conv_decomp in_set_takeD)
    with assms show False ..
  qed
  moreover have "\<not> includes_str (colon # w @ [colon]) e"
    using includes_skip [OF assms, of "w @ [colon]" "[]"] by simp
  ultimately show ?thesis by simp
qed

lemma private_pattern: "js '':private:'' = colon # js ''private'' @ [colon]"
  by (simp add: js_def colon_def)

lemma isPrivateMailbox_parts:
  assumes "colon \<notin> set a" "colon \<notin> set e"
  shows "isPrivateMailbox (join_colon [platform_str p, a, kind_str k, e]) \<longleftrightarrow>
    a = js ''private'' \<or> k = PrivateChat"
proof -
  have np: "colon \<notin> set (js ''private'')" by (simp add: js_def colon_def)
  have "includes_str (js '':private:'') (platform_str p @ colon # a @ colon # kind_str k @ colon # e) \<longleftrightarrow>
    a = js ''private'' \<or> kind_str k = js ''private''"
    unfolding private_pattern
    by (simp add: includes_skip includes_segment [OF assms(1) np] includes_segment [OF _ np]
        includes_last [OF assms(2)] del: includes_str.simps)
  moreover have "kind_str k = js ''private'' \<longleftrightarrow> k = PrivateChat"
    by (cases k) (simp_all add: kind_str_def)
  moreover have "\<not> starts_with (js ''qq_private:'') (platform_str p @ colon # a @ colon # kind_str k @ colon # e)"
    by (cases p) (auto simp: starts_with_def js_def platform_str_def colon_def)
  ultimately show ?thesis by (simp add: isPrivateMailbox_def)
qed

lemma encode_private: "encodeURIComponent (js ''private'') = Some (js ''private'')"
  by (simp add: encodeURIComponent_def js_def is_high_surrogate_def is_low_surrogate_def
      encode_point_def unreserved_def)

lemma conversationKey_private:
  assumes "ref_ok c" "conversationKey c = Some k" "accountId c \<noteq> js ''private''"
  shows "isPrivateMailbox k \<longleftrightarrow> ckind c = PrivateChat"
proof -
  obtain a e where a: "encodeURIComponent (accountId c) = Some a" "colon \<notin> set a" "colon \<notin> set e"
    and k: "k = join_colon [platform_str (platform c), a, kind_str (ckind c), e]"
    using conversationKey_split [OF assms(1,2)] by metis
  have "a \<noteq> js ''private''"
    using a(1) assms(1,3) encode_private encodeURIComponent_inject [OF _ units_ok_js]
    by (auto simp: ref_ok_def)
  then show ?thesis unfolding k isPrivateMailbox_parts [OF a(2,3)] by simp
qed

lemma mailbox_key_not_index: "is_mailbox_key k \<Longrightarrow> \<not> is_index_key k"
proof
  assume k: "is_mailbox_key k" and i: "is_index_key k"
  then have "colon \<notin> set k" by (auto simp: is_index_key_def is_digit_def colon_def)
  then have "split_colon k = [k]" by (rule split_colon_no_colon)
  with k show False by (simp add: is_mailbox_key_def mailbox_key_parts_def)
qed

end
