(* ===== verification/Ledger_Types.thy ===== *)
theory Ledger_Types
  imports Conversation
begin

text \<open>
  The data of \<open>src/agent/agent-context.types.ts\<close> and \<open>src/agent/agent-ledger.types.ts\<close>:
  messages, ledger entries, the runtime singleton, snapshots and projections, and the JSON
  objects they are (\<open>message_jv\<close> and its companions), properties in the order the source
  writes them.
\<close>

section \<open>Messages\<close>

record tool_call =
  tc_id :: jstr
  tc_name :: jstr
  tc_args :: jobj

datatype content_block =
    TextBlock jstr
  | ImageBlock jstr jstr
  | ImageRef (ref_mediaId: jstr) (ref_mediaType: jstr) (ref_width: "int option")
      (ref_height: "int option") (ref_description: "jstr option")

datatype tool_content = TextContent jstr | BlockContent "content_block list"

datatype agent_message =
    UserMsg jstr
  | AssistantMsg jstr "tool_call list" "jobj list option"
  | ToolMsg jstr tool_content

definition snapshot_schema_version :: int where
  "snapshot_schema_version = 6"

record persisted_snapshot =
  ps_schemaVersion :: int
  ps_messages :: "agent_message list"
  ps_focus :: "conversation_ref option"

section \<open>Ledger entries\<close>

datatype compaction_reason = Threshold | Overflow | BehavioralReset

record attention_cursor =
  disclosed :: int
  handled :: int
  highPriority :: "int option"

type_synonym attention_state = "(jstr \<times> attention_cursor) list"

record compaction_payload =
  summary :: jstr
  firstKeptEntryId :: "jstr option"
  tokensBefore :: int
  estimatedTokensAfter :: int
  creason :: compaction_reason
  isSplitTurn :: bool
  previousCompactionEntryId :: "jstr option"
  mailboxAttentionState :: attention_state

definition agent_ledger_schema_version :: int where
  "agent_ledger_schema_version = 1"

datatype ledger_entry =
    MessageEntry (entry_id: int) (entry_message: agent_message) (entry_createdAt: int)
  | CompactionEntry (entry_id: int) (entry_payload: compaction_payload) (entry_createdAt: int)

fun is_message_entry :: "ledger_entry \<Rightarrow> bool" where
  "is_message_entry (MessageEntry _ _ _) = True"
| "is_message_entry (CompactionEntry _ _ _) = False"

definition agent_runtime_state_schema_version :: int where
  "agent_runtime_state_schema_version = 4"

record runtime_state =
  rs_mailboxCursors :: jobj
  rs_inboxReadCursors :: "(jstr \<times> int) list"
  rs_mailboxContinuity :: jobj
  rs_focus :: "conversation_ref option"
  rs_lastWakeAt :: "int option"
  rs_head :: "int option"

record ledger_projection =
  throughEntryId :: "int option"
  activeEntryCount :: nat
  permanentEntryCount :: nat
  proj_snapshot :: persisted_snapshot

section \<open>As JSON objects\<close>

definition opt_prop :: "string \<Rightarrow> ('a \<Rightarrow> jv) \<Rightarrow> 'a option \<Rightarrow> jobj" where
  "opt_prop k f x = (case x of None \<Rightarrow> [] | Some a \<Rightarrow> [(js k, f a)])"

definition null_or :: "('a \<Rightarrow> jv) \<Rightarrow> 'a option \<Rightarrow> jv" where
  "null_or f x = (case x of None \<Rightarrow> JNull | Some a \<Rightarrow> f a)"

definition tool_call_jv :: "tool_call \<Rightarrow> jv" where
  "tool_call_jv c = JObj [(js ''id'', JStr (tc_id c)), (js ''name'', JStr (tc_name c)), (js ''args'', JObj (tc_args c))]"

fun content_block_jv :: "content_block \<Rightarrow> jv" where
  "content_block_jv (TextBlock t) = JObj [(js ''type'', JStr (js ''text'')), (js ''text'', JStr t)]"
| "content_block_jv (ImageBlock mt d) = JObj [(js ''type'', JStr (js ''image'')),
     (js ''source'', JObj [(js ''type'', JStr (js ''base64'')), (js ''media_type'', JStr mt), (js ''data'', JStr d)])]"
| "content_block_jv (ImageRef i mt w h d) = JObj ([(js ''type'', JStr (js ''image_ref'')),
     (js ''mediaId'', JStr i), (js ''mediaType'', JStr mt)]
     @ opt_prop ''width'' jint w @ opt_prop ''height'' jint h @ opt_prop ''description'' JStr d)"

fun tool_content_jv :: "tool_content \<Rightarrow> jv" where
  "tool_content_jv (TextContent t) = JStr t"
| "tool_content_jv (BlockContent bs) = JArr (map content_block_jv bs)"

fun message_jv :: "agent_message \<Rightarrow> jv" where
  "message_jv (UserMsg c) = JObj [(js ''role'', JStr (js ''user'')), (js ''content'', JStr c)]"
| "message_jv (AssistantMsg c calls nb) = JObj ([(js ''role'', JStr (js ''assistant'')), (js ''content'', JStr c),
     (js ''toolCalls'', JArr (map tool_call_jv calls))]
     @ opt_prop ''nativeBlocks'' (\<lambda>bs. JArr (map JObj bs)) nb)"
| "message_jv (ToolMsg i c) = JObj [(js ''role'', JStr (js ''tool'')), (js ''toolCallId'', JStr i),
     (js ''content'', tool_content_jv c)]"

definition focus_jv :: "conversation_ref option \<Rightarrow> jv" where
  "focus_jv = null_or (\<lambda>c. JObj [(js ''platform'', JStr (platform_str (platform c))),
     (js ''accountId'', JStr (accountId c)), (js ''kind'', JStr (kind_str (ckind c))),
     (js ''externalId'', JStr (externalId c))])"

definition snapshot_jv :: "persisted_snapshot \<Rightarrow> jv" where
  "snapshot_jv s = JObj [(js ''schemaVersion'', jint (ps_schemaVersion s)),
     (js ''messages'', JArr (map message_jv (ps_messages s))),
     (js ''conversationFocus'', focus_jv (ps_focus s))]"

definition reason_str :: "compaction_reason \<Rightarrow> jstr" where
  "reason_str r = (case r of Threshold \<Rightarrow> js ''threshold'' | Overflow \<Rightarrow> js ''overflow''
     | BehavioralReset \<Rightarrow> js ''behavioral_reset'')"

definition attention_cursor_jv :: "attention_cursor \<Rightarrow> jv" where
  "attention_cursor_jv c = JObj ([(js ''disclosedThroughRowId'', jint (disclosed c)),
     (js ''handledThroughRowId'', jint (handled c))] @ opt_prop ''highPriorityThroughRowId'' jint (highPriority c))"

definition attention_state_jv :: "attention_state \<Rightarrow> jv" where
  "attention_state_jv st = JObj (map (\<lambda>(m, c). (m, attention_cursor_jv c)) st)"

definition compaction_payload_jv :: "compaction_payload \<Rightarrow> jv" where
  "compaction_payload_jv p = JObj [(js ''schemaVersion'', jint agent_ledger_schema_version),
     (js ''summary'', JStr (summary p)), (js ''firstKeptEntryId'', null_or JStr (firstKeptEntryId p)),
     (js ''tokensBefore'', jint (tokensBefore p)), (js ''estimatedTokensAfter'', jint (estimatedTokensAfter p)),
     (js ''reason'', JStr (reason_str (creason p))), (js ''isSplitTurn'', JBool (isSplitTurn p)),
     (js ''previousCompactionEntryId'', null_or JStr (previousCompactionEntryId p)),
     (js ''mailboxAttentionState'', attention_state_jv (mailboxAttentionState p))]"

definition message_payload_jv :: "agent_message \<Rightarrow> jv" where
  "message_payload_jv m = JObj [(js ''schemaVersion'', jint agent_ledger_schema_version), (js ''message'', message_jv m)]"

fun entry_jv :: "ledger_entry \<Rightarrow> jv" where
  "entry_jv (MessageEntry i m t) = JObj [(js ''id'', JBig i), (js ''entryType'', JStr (js ''message'')),
     (js ''payload'', message_payload_jv m), (js ''createdAt'', JDate (Some t))]"
| "entry_jv (CompactionEntry i p t) = JObj [(js ''id'', JBig i), (js ''entryType'', JStr (js ''compaction'')),
     (js ''payload'', compaction_payload_jv p), (js ''createdAt'', JDate (Some t))]"

definition runtime_state_jv :: "runtime_state \<Rightarrow> jv" where
  "runtime_state_jv s = JObj [(js ''schemaVersion'', jint agent_runtime_state_schema_version),
     (js ''mailboxCursors'', JObj (rs_mailboxCursors s)),
     (js ''inboxReadCursors'', JObj (map (\<lambda>(k, i). (k, jint i)) (rs_inboxReadCursors s))),
     (js ''mailboxContinuity'', JObj (rs_mailboxContinuity s)),
     (js ''conversationFocus'', focus_jv (rs_focus s)),
     (js ''lastWakeAt'', null_or (\<lambda>t. JDate (Some t)) (rs_lastWakeAt s)),
     (js ''ledgerHeadEntryId'', null_or JBig (rs_head s))]"

text \<open>\<open>/^[1-9]\\d*$/\<close> and \<open>BigInt\<close> of such a string.\<close>

definition positive_decimal :: "jstr \<Rightarrow> bool" where
  "positive_decimal s \<longleftrightarrow> s \<noteq> [] \<and> hd s \<noteq> 48 \<and> (\<forall>c \<in> set s. is_digit c)"

definition big_of_dec :: "jstr \<Rightarrow> int" where
  "big_of_dec s = int (nat_of_dec s)"

lemma positive_decimal_dec: "0 < i \<Longrightarrow> positive_decimal (dec_of_int i)"
  using hd_dec_of_nat_pos [of "nat i"] dec_of_nat_digits [of "nat i"]
  by (simp add: positive_decimal_def dec_of_int_def)

lemma big_of_dec_of_int [simp]: "0 \<le> i \<Longrightarrow> big_of_dec (dec_of_int i) = i"
  by (simp add: big_of_dec_def dec_of_int_def)

section \<open>Property lookups\<close>

lemma obj_get_simps [simp]:
  "obj_get [] k = JUndef"
  "obj_get ((k', v) # ps) k = (if k = k' then v else obj_get ps k)"
  by (simp_all add: obj_get_def)

lemma obj_has_simps [simp]:
  "\<not> obj_has [] k"
  "obj_has ((k', v) # ps) k \<longleftrightarrow> k = k' \<or> obj_has ps k"
  by (auto simp: obj_has_def)

lemma obj_get_append: "obj_get (ps @ qs) k = (if obj_has ps k then obj_get ps k else obj_get qs k)"
  by (induction ps) auto

lemma obj_get_opt_prop [simp]:
  "obj_get (opt_prop k f x) k' = (if k' = js k then (case x of None \<Rightarrow> JUndef | Some a \<Rightarrow> f a) else JUndef)"
  by (simp add: opt_prop_def split: option.splits)

lemma obj_has_opt_prop [simp]: "obj_has (opt_prop k f x) k' \<longleftrightarrow> k' = js k \<and> x \<noteq> None"
  by (auto simp: opt_prop_def split: option.splits)

lemma obj_has_append [simp]: "obj_has (ps @ qs) k \<longleftrightarrow> obj_has ps k \<or> obj_has qs k"
  by (auto simp: obj_has_def)

end
