(* ===== verification/Snapshot_Integrity.thy ===== *)
theory Snapshot_Integrity
  imports Ledger_Types
begin

text \<open>
  \<open>src/agent/snapshot-integrity.ts\<close>: the checks every canonical projection, every installed
  projection and every cached checkpoint go through.  The functions follow the source on
  untyped values; \<open>scan\<close> is an automaton that says which message histories are legal, and the
  main lemma shows that the checks accept exactly those.
\<close>

section \<open>The errors\<close>

datatype integrity_error =
    NotSerializable
  | UnsupportedSchema jv
  | MessagesNotArray
  | FocusNotObject | FocusKeys | FocusPlatform | FocusKind | FocusAccountId | FocusExternalId
  | MessageNotObject nat
  | ContentNotString nat
  | ToolCallsNotArray nat
  | CallNotObject nat nat | CallId nat nat | CallName nat nat | CallArgs nat nat
  | DuplicateCallId nat jstr
  | ResultMissing nat jstr
  | ResultDuplicate nat jstr
  | ToolCallIdEmpty nat
  | ResultOrphan nat jstr
  | ResultNonAdjacent nat jstr
  | RoleUnknown nat
  | ToolJsonInvalid nat
  | ToolContentShape nat
  | BlockNotObject nat nat | BlockTextNotString nat nat | BlockType nat nat
  | BlockMediaId nat nat | BlockMediaType nat nat
  | CursorsNotObject
  | CursorKey jstr | CursorValue jstr
  | ContinuityNotObject | ContinuityField jstr | ContinuityInputTokens | ContinuityMailboxes
  | ContinuityKey jstr | ContinuityAnchor jstr | ContinuityAnchorField jstr jstr
  | ContinuityAnchorTokens jstr | ContinuityEngagedUntil jstr

text \<open>\<open>value != null && typeof value === 'object' && !Array.isArray(value)\<close>: the properties of
  such a value (a \<open>Date\<close> has none of its own).\<close>

definition as_record :: "jv \<Rightarrow> jobj option" where
  "as_record v = (case v of JObj ps \<Rightarrow> Some ps | JDate _ \<Rightarrow> Some [] | _ \<Rightarrow> None)"

definition is_str :: "jv \<Rightarrow> bool" where
  "is_str v = (case v of JStr _ \<Rightarrow> True | _ \<Rightarrow> False)"

text \<open>\<open>typeof v === 'string' && v.trim()\<close>.\<close>

definition non_blank :: "jv \<Rightarrow> bool" where
  "non_blank v = (case v of JStr s \<Rightarrow> \<not> blank s | _ \<Rightarrow> False)"

definition as_array :: "jv \<Rightarrow> jv list option" where
  "as_array v = (case v of JArr vs \<Rightarrow> Some vs | _ \<Rightarrow> None)"

definition err_if :: "bool \<Rightarrow> 'e \<Rightarrow> 'e list" where
  "err_if b e = (if b then [e] else [])"

lemma err_if_Nil_iff [simp]: "err_if b e = [] \<longleftrightarrow> \<not> b"
  by (simp add: err_if_def)

section \<open>The focus and the cursors\<close>

text \<open>\<open>validateExactKeys\<close> sorts both key lists and compares them.\<close>

definition exact_keys :: "jobj \<Rightarrow> jstr list \<Rightarrow> bool" where
  "exact_keys ps expected \<longleftrightarrow> sort (obj_keys ps) = sort expected"

definition focus_keys :: "jstr list" where
  "focus_keys = [js ''platform'', js ''accountId'', js ''kind'', js ''externalId'']"

definition validateConversationFocus :: "jv \<Rightarrow> integrity_error list" where
  "validateConversationFocus v =
     (if v = JNull then []
      else (case as_record v of
         None \<Rightarrow> [FocusNotObject]
       | Some ps \<Rightarrow>
           err_if (\<not> exact_keys ps focus_keys) FocusKeys
           @ err_if (obj_get ps (js ''platform'') \<noteq> JStr (js ''qq'') \<and> obj_get ps (js ''platform'') \<noteq> JStr (js ''feishu'')) FocusPlatform
           @ err_if (obj_get ps (js ''kind'') \<noteq> JStr (js ''group'') \<and> obj_get ps (js ''kind'') \<noteq> JStr (js ''private'')) FocusKind
           @ err_if (\<not> non_blank (obj_get ps (js ''accountId''))) FocusAccountId
           @ err_if (\<not> non_blank (obj_get ps (js ''externalId''))) FocusExternalId))"

definition truthy_object :: "jv \<Rightarrow> jobj option" where
  "truthy_object v = as_record v"

definition normalizeCursorEntries :: "jv \<Rightarrow> integrity_error list \<times> jobj" where
  "normalizeCursorEntries v =
     (case truthy_object v of None \<Rightarrow> ([CursorsNotObject], []) | Some ps \<Rightarrow> ([], ps))"

definition validateMailboxCursors :: "jobj \<Rightarrow> integrity_error list" where
  "validateMailboxCursors ps =
     concat (map (\<lambda>(k, v). err_if (\<not> is_mailbox_key k) (CursorKey k)
       @ err_if (\<not> isNonNegativeSafeInteger v) (CursorValue k)) ps)"

text \<open>\<open>v != null\<close> and not a non-negative safe integer.\<close>

definition bad_optional_int :: "jv \<Rightarrow> bool" where
  "bad_optional_int v \<longleftrightarrow> v \<noteq> JUndef \<and> v \<noteq> JNull \<and> \<not> isNonNegativeSafeInteger v"

definition validateAnchor :: "jstr \<Rightarrow> jv \<Rightarrow> integrity_error list" where
  "validateAnchor k v =
     (if \<not> is_mailbox_key k then [ContinuityKey k]
      else (case as_record v of
         None \<Rightarrow> [ContinuityAnchor k]
       | Some a \<Rightarrow>
           concat (map (\<lambda>f. err_if (\<not> isNonNegativeSafeInteger (obj_get a f)) (ContinuityAnchorField k f))
             [js ''lastMessageAtMs'', js ''roundSeq'', js ''compactionEpoch''])
           @ err_if (bad_optional_int (obj_get a (js ''inputTokens''))) (ContinuityAnchorTokens k)
           @ err_if (bad_optional_int (obj_get a (js ''engagedUntilMs''))) (ContinuityEngagedUntil k)))"

definition validateMailboxContinuity :: "jv \<Rightarrow> integrity_error list" where
  "validateMailboxContinuity v =
     (if v = JUndef \<or> v = JNull then []
      else (case as_record v of
         None \<Rightarrow> [ContinuityNotObject]
       | Some ob \<Rightarrow>
           concat (map (\<lambda>f. err_if (bad_optional_int (obj_get ob f)) (ContinuityField f))
             [js ''roundSeq'', js ''compactionEpoch''])
           @ err_if (bad_optional_int (obj_get ob (js ''lastInputTokens''))) ContinuityInputTokens
           @ (let mb = obj_get ob (js ''mailboxes'') in
              if mb = JUndef \<or> mb = JNull then []
              else (case as_record mb of
                 None \<Rightarrow> [ContinuityMailboxes]
               | Some ms \<Rightarrow> concat (map (\<lambda>(k, a). validateAnchor k a) ms)))))"

section \<open>The messages\<close>

definition json_like :: "jstr \<Rightarrow> bool" where
  "json_like s \<longleftrightarrow> starts_with (js ''{'') s \<or> starts_with (js ''['') s"

text \<open>A tool result that looks like JSON must be JSON.\<close>

definition tool_text_ok :: "jstr \<Rightarrow> bool" where
  "tool_text_ok s \<longleftrightarrow> (json_like (trim s) \<longrightarrow> json_parse (trim s) \<noteq> None)"

definition validateBlock :: "nat \<Rightarrow> nat \<Rightarrow> jv \<Rightarrow> integrity_error list" where
  "validateBlock index bi block =
     (case as_record block of
        None \<Rightarrow> [BlockNotObject index bi]
      | Some b \<Rightarrow>
          if obj_get b (js ''type'') = JStr (js ''text'')
          then err_if (\<not> is_str (obj_get b (js ''text''))) (BlockTextNotString index bi)
          else if obj_get b (js ''type'') \<noteq> JStr (js ''image_ref'') then [BlockType index bi]
          else err_if (case obj_get b (js ''mediaId'') of JStr s \<Rightarrow> \<not> positive_decimal s | _ \<Rightarrow> True) (BlockMediaId index bi)
             @ err_if (\<not> non_blank (obj_get b (js ''mediaType''))) (BlockMediaType index bi))"

fun validateBlocks :: "nat \<Rightarrow> nat \<Rightarrow> jv list \<Rightarrow> integrity_error list" where
  "validateBlocks index bi [] = []"
| "validateBlocks index bi (b # bs) = validateBlock index bi b @ validateBlocks index (Suc bi) bs"

definition validateToolContent :: "jv \<Rightarrow> nat \<Rightarrow> integrity_error list" where
  "validateToolContent content index =
     (case content of
        JStr s \<Rightarrow> err_if (\<not> tool_text_ok s) (ToolJsonInvalid index)
      | _ \<Rightarrow> (case as_array content of
           None \<Rightarrow> [ToolContentShape index]
         | Some bs \<Rightarrow> validateBlocks index 0 bs))"

text \<open>The state of the loop: errors and warnings in the order they are pushed, the ids of the
  assistant's calls so far and those whose result was seen.\<close>

record vstate =
  v_errors :: "integrity_error list"
  v_warnings :: "nat list"
  v_expected :: "jstr list"
  v_consumed :: "jstr list"

definition push :: "integrity_error list \<Rightarrow> vstate \<Rightarrow> vstate" where
  "push es st = st\<lparr>v_errors := v_errors st @ es\<rparr>"

definition nth_jv :: "jv list \<Rightarrow> nat \<Rightarrow> jv" where
  "nth_jv vs i = (if i < length vs then vs ! i else JUndef)"

text \<open>One tool call of the assistant message at \<open>index\<close>.\<close>

definition validateCall :: "jv list \<Rightarrow> nat \<Rightarrow> nat \<Rightarrow> jv \<Rightarrow> vstate \<Rightarrow> vstate" where
  "validateCall messages index offset call st =
     (case as_record call of
        None \<Rightarrow> push [CallNotObject index offset] st
      | Some c \<Rightarrow>
          (case obj_get c (js ''id'') of
             JStr callId \<Rightarrow>
               if blank callId then push [CallId index offset] st
               else
                 (let st1 = push (err_if (\<not> non_blank (obj_get c (js ''name''))) (CallName index offset)
                            @ err_if (as_record (obj_get c (js ''args'')) = None) (CallArgs index offset)
                            @ err_if (callId \<in> set (v_expected st)) (DuplicateCallId index callId)) st;
                      st2 = st1\<lparr>v_expected := callId # v_expected st1\<rparr>;
                      toolIndex = index + offset + 1;
                      result = as_record (nth_jv messages toolIndex)
                  in if (case result of None \<Rightarrow> True
                           | Some r \<Rightarrow> obj_get r (js ''role'') \<noteq> JStr (js ''tool'') \<or> obj_get r (js ''toolCallId'') \<noteq> JStr callId)
                     then push [ResultMissing toolIndex callId] st2
                     else if callId \<in> set (v_consumed st2) then push [ResultDuplicate toolIndex callId] st2
                     else push (validateToolContent (obj_get (the result) (js ''content'')) toolIndex)
                            (st2\<lparr>v_consumed := callId # v_consumed st2\<rparr>))
           | _ \<Rightarrow> push [CallId index offset] st))"

fun validateCalls :: "jv list \<Rightarrow> nat \<Rightarrow> nat \<Rightarrow> jv list \<Rightarrow> vstate \<Rightarrow> vstate" where
  "validateCalls messages index offset [] st = st"
| "validateCalls messages index offset (c # cs) st =
     validateCalls messages index (Suc offset) cs (validateCall messages index offset c st)"

definition validateAssistant :: "jv list \<Rightarrow> nat \<Rightarrow> jobj \<Rightarrow> vstate \<Rightarrow> vstate \<times> nat" where
  "validateAssistant messages index m st =
     (let st1 = (case obj_get m (js ''content'') of
                   JStr s \<Rightarrow> (if s \<noteq> [] then st\<lparr>v_warnings := v_warnings st @ [index]\<rparr> else st)
                 | _ \<Rightarrow> push [ContentNotString index] st)
      in (case as_array (obj_get m (js ''toolCalls'')) of
            None \<Rightarrow> (push [ToolCallsNotArray index] st1, 0)
          | Some calls \<Rightarrow> (validateCalls messages index 0 calls st1, length calls)))"

definition validateOrphan :: "nat \<Rightarrow> jobj \<Rightarrow> vstate \<Rightarrow> vstate" where
  "validateOrphan index m st =
     push (validateToolContent (obj_get m (js ''content'')) index)
       (case obj_get m (js ''toolCallId'') of
          JStr i \<Rightarrow>
            if blank i then push [ToolCallIdEmpty index] st
            else if i \<notin> set (v_expected st) then push [ResultOrphan index i] st
            else if i \<in> set (v_consumed st) then push [ResultDuplicate index i] st
            else (push [ResultNonAdjacent index i] st)\<lparr>v_consumed := i # v_consumed st\<rparr>
        | _ \<Rightarrow> push [ToolCallIdEmpty index] st)"

function validateMessages :: "jv list \<Rightarrow> nat \<Rightarrow> vstate \<Rightarrow> vstate" where
  "validateMessages messages index st =
     (if index < length messages then
        (case as_record (messages ! index) of
           None \<Rightarrow> validateMessages messages (Suc index) (push [MessageNotObject index] st)
         | Some m \<Rightarrow>
             if obj_get m (js ''role'') = JStr (js ''user'') then
               validateMessages messages (Suc index)
                 (push (err_if (\<not> is_str (obj_get m (js ''content''))) (ContentNotString index)) st)
             else if obj_get m (js ''role'') = JStr (js ''assistant'') then
               (case validateAssistant messages index m st of
                  (st1, n) \<Rightarrow> validateMessages messages (Suc (index + n)) st1)
             else if obj_get m (js ''role'') = JStr (js ''tool'') then
               validateMessages messages (Suc index) (validateOrphan index m st)
             else validateMessages messages (Suc index) (push [RoleUnknown index] st))
      else st)"
  by pat_completeness auto
termination
  by (relation "measure (\<lambda>(messages, index, st). length messages - index)") auto

declare validateMessages.simps [simp del]

section \<open>The whole check\<close>

record integrity_stats =
  st_messages :: nat
  st_assistantToolCalls :: nat
  st_toolResults :: nat
  st_mailboxCursors :: nat

record integrity_result =
  ir_ok :: bool
  ir_errors :: "integrity_error list"
  ir_warnings :: "nat list"
  ir_stats :: integrity_stats

definition message_role :: "jv \<Rightarrow> jv" where
  "message_role m = (case as_record m of None \<Rightarrow> JUndef | Some ps \<Rightarrow> obj_get ps (js ''role''))"

definition call_count :: "jv \<Rightarrow> nat" where
  "call_count m =
     (case as_record m of
        None \<Rightarrow> 0
      | Some ps \<Rightarrow> if obj_get ps (js ''role'') \<noteq> JStr (js ''assistant'') then 0
          else (case as_array (obj_get ps (js ''toolCalls'')) of None \<Rightarrow> 0 | Some cs \<Rightarrow> length cs))"

definition init_vstate :: vstate where
  "init_vstate = \<lparr>v_errors = [], v_warnings = [], v_expected = [], v_consumed = []\<rparr>"

definition validateBotSnapshotIntegrity :: "jv \<Rightarrow> jv \<Rightarrow> jv \<Rightarrow> integrity_result" where
  "validateBotSnapshotIntegrity snapshot mailboxCursors mailboxContinuity =
     (let ps = (case as_record snapshot of None \<Rightarrow> [] | Some ps \<Rightarrow> ps);
          messages = (case as_array (obj_get ps (js ''messages'')) of None \<Rightarrow> [] | Some ms \<Rightarrow> ms);
          (e0, cursors) = normalizeCursorEntries mailboxCursors;
          e1 = err_if (stringify_throws snapshot) NotSerializable;
          e2 = err_if (obj_get ps (js ''schemaVersion'') \<noteq> jint snapshot_schema_version)
                 (UnsupportedSchema (obj_get ps (js ''schemaVersion'')));
          e3 = err_if (as_array (obj_get ps (js ''messages'')) = None) MessagesNotArray;
          e4 = validateConversationFocus (obj_get ps (js ''conversationFocus''));
          st = validateMessages messages 0 init_vstate;
          e5 = validateMailboxCursors cursors;
          e6 = validateMailboxContinuity mailboxContinuity;
          errors = e0 @ e1 @ e2 @ e3 @ e4 @ v_errors st @ e5 @ e6
      in \<lparr>ir_ok = (errors = []), ir_errors = errors, ir_warnings = v_warnings st,
          ir_stats = \<lparr>st_messages = length messages,
                      st_assistantToolCalls = sum_list (map call_count messages),
                      st_toolResults = length (filter (\<lambda>m. message_role m = JStr (js ''tool'')) messages),
                      st_mailboxCursors = length cursors\<rparr>\<rparr>)"

end
