(* ===== verification/Mailbox_Handled.thy ===== *)
theory Mailbox_Handled
  imports Snapshot_Integrity Js_Json_Roundtrip "HOL-Library.AList"
begin

text \<open>
  \<open>src/agent/mailbox-handled.ts\<close>: what the messages of the context say about each mailbox, up to
  which row it was disclosed, handled and disclosed with high priority.  The capture reads three
  kinds of JSON markers in user messages; the attention-state marker is how a compaction carries
  the summary of dropped markers forward.
\<close>

section \<open>Reading markers\<close>

text \<open>\<open>parseJsonObject\<close>: the object a text is, if it is one.\<close>

definition parseJsonObject :: "jstr \<Rightarrow> jobj option" where
  "parseJsonObject content = (case json_parse content of None \<Rightarrow> None | Some v \<Rightarrow> as_record v)"

definition hasExactKeys :: "jobj \<Rightarrow> jstr list \<Rightarrow> jstr list \<Rightarrow> bool" where
  "hasExactKeys ps expected optional \<longleftrightarrow>
     list_all (obj_has ps) expected \<and> list_all (\<lambda>k. k \<in> set expected \<or> k \<in> set optional) (obj_keys ps)"

definition cursor_keys :: "jstr list" where
  "cursor_keys = [js ''disclosedThroughRowId'', js ''handledThroughRowId'']"

definition cursor_optional_keys :: "jstr list" where
  "cursor_optional_keys = [js ''highPriorityThroughRowId'']"

definition positive_or_none :: "jv \<Rightarrow> int option" where
  "positive_or_none v = (if isPositiveSafeInteger v then Some (num_of v) else None)"

text \<open>One entry of an attention-state marker.\<close>

definition parse_marker_cursor :: "jstr \<Rightarrow> jv \<Rightarrow> attention_cursor option" where
  "parse_marker_cursor mailbox v =
     (case as_record v of
        None \<Rightarrow> None
      | Some c \<Rightarrow>
          if is_mailbox_key mailbox \<and> hasExactKeys c cursor_keys cursor_optional_keys
            \<and> isNonNegativeSafeInteger (obj_get c (js ''disclosedThroughRowId''))
            \<and> isNonNegativeSafeInteger (obj_get c (js ''handledThroughRowId''))
            \<and> (obj_get c (js ''highPriorityThroughRowId'') = JUndef
               \<or> isNonNegativeSafeInteger (obj_get c (js ''highPriorityThroughRowId'')))
          then Some \<lparr>disclosed = num_of (obj_get c (js ''disclosedThroughRowId'')),
                     handled = num_of (obj_get c (js ''handledThroughRowId'')),
                     highPriority = positive_or_none (obj_get c (js ''highPriorityThroughRowId''))\<rparr>
          else None)"

fun parse_marker_cursors :: "jobj \<Rightarrow> jstr list \<Rightarrow> attention_state option" where
  "parse_marker_cursors ms [] = Some []"
| "parse_marker_cursors ms (k # ks) =
     (case parse_marker_cursor k (obj_get ms k) of
        None \<Rightarrow> None
      | Some c \<Rightarrow> map_option ((#) (k, c)) (parse_marker_cursors ms ks))"

definition parseMailboxAttentionStatePayload :: "jobj \<Rightarrow> attention_state option" where
  "parseMailboxAttentionStatePayload payload =
     (if obj_get payload (js ''event'') \<noteq> JStr (js ''mailbox_attention_state'')
         \<or> \<not> hasExactKeys payload [js ''event'', js ''mailboxes''] []
      then None
      else (case as_record (obj_get payload (js ''mailboxes'')) of
              None \<Rightarrow> None
            | Some ms \<Rightarrow> parse_marker_cursors ms (sort (obj_keys ms))))"

record mailbox_disclosure_marker =
  dm_mailbox :: jstr
  dm_throughRowId :: int
  dm_highPriority :: bool

fun str_of :: "jv \<Rightarrow> jstr" where
  "str_of (JStr s) = s"
| "str_of _ = []"

text \<open>The disclosure an object with \<open>mailbox\<close> and \<open>throughRowId\<close> makes, if they are valid.\<close>

definition disclosure_of :: "jobj \<Rightarrow> bool \<Rightarrow> mailbox_disclosure_marker list" where
  "disclosure_of ps high =
     (if isMailboxKey (obj_get ps (js ''mailbox'')) \<and> isPositiveSafeInteger (obj_get ps (js ''throughRowId''))
      then [\<lparr>dm_mailbox = str_of (obj_get ps (js ''mailbox'')),
             dm_throughRowId = num_of (obj_get ps (js ''throughRowId'')), dm_highPriority = high\<rparr>]
      else [])"

definition parseMailboxDisclosures :: "jobj \<Rightarrow> mailbox_disclosure_marker list" where
  "parseMailboxDisclosures payload =
     (case (obj_get payload (js ''event'') = JStr (js ''conversation_deltas''),
            as_array (obj_get payload (js ''mailboxes''))) of
        (True, Some vs) \<Rightarrow>
          concat (map (\<lambda>v. case as_record v of None \<Rightarrow> []
                     | Some m \<Rightarrow> disclosure_of m (obj_get m (js ''priority'') = JStr (js ''high''))) vs)
      | _ \<Rightarrow>
          if obj_get payload (js ''event'') = JStr (js ''inbox_update'')
             \<and> isMailboxKey (obj_get payload (js ''mailbox''))
             \<and> isPositiveSafeInteger (obj_get payload (js ''throughRowId''))
          then disclosure_of payload (isPrivateMailbox (str_of (obj_get payload (js ''mailbox''))))
          else if obj_get payload (js ''event'') \<noteq> JStr (js ''notification'')
             \<or> obj_get payload (js ''kind'') \<noteq> JStr (js ''inbox_update'') then []
          else (case as_record (obj_get payload (js ''data'')) of
                  None \<Rightarrow> []
                | Some d \<Rightarrow> disclosure_of d
                    (obj_get payload (js ''priority'') = JStr (js ''high'')
                     \<and> obj_get payload (js ''delivery'') = JStr (js ''interrupt''))))"

section \<open>Merging\<close>

text \<open>\<open>Map.prototype.set\<close>: an existing key keeps its place.\<close>

definition map_set :: "('k \<times> 'v) list \<Rightarrow> 'k \<Rightarrow> 'v \<Rightarrow> ('k \<times> 'v) list" where
  "map_set m k v = AList.update k v m"

definition or_zero :: "int option \<Rightarrow> int" where
  "or_zero x = (case x of None \<Rightarrow> 0 | Some i \<Rightarrow> i)"

definition no_cursor :: attention_cursor where
  "no_cursor = \<lparr>disclosed = 0, handled = 0, highPriority = None\<rparr>"

definition join_cursor :: "attention_cursor option \<Rightarrow> attention_cursor \<Rightarrow> attention_cursor" where
  "join_cursor current incoming =
     (let cur = (case current of None \<Rightarrow> no_cursor | Some c \<Rightarrow> c);
          hp = max (or_zero (highPriority cur)) (or_zero (highPriority incoming))
      in \<lparr>disclosed = max (disclosed cur) (disclosed incoming),
          handled = max (handled cur) (handled incoming),
          highPriority = (if 0 < hp then Some hp else None)\<rparr>)"

definition mergeMailboxCursors :: "attention_state \<Rightarrow> jstr \<Rightarrow> attention_cursor \<Rightarrow> attention_state" where
  "mergeMailboxCursors merged mailbox incoming =
     (let current = map_of merged mailbox in
      if current = None \<and> disclosed incoming = 0 \<and> handled incoming = 0
         \<and> or_zero (highPriority incoming) = 0
      then merged
      else map_set merged mailbox (join_cursor current incoming))"

definition merge_all :: "attention_state \<Rightarrow> attention_state \<Rightarrow> attention_state" where
  "merge_all merged incoming = foldl (\<lambda>m (k, c). mergeMailboxCursors m k c) merged incoming"

definition disclosure_cursor :: "mailbox_disclosure_marker \<Rightarrow> jstr \<times> attention_cursor" where
  "disclosure_cursor d = (dm_mailbox d,
     \<lparr>disclosed = dm_throughRowId d, handled = 0,
      highPriority = (if dm_highPriority d \<and> \<not> isPrivateMailbox (dm_mailbox d)
                      then Some (dm_throughRowId d) else None)\<rparr>)"

text \<open>What one message contributes, in order.\<close>

definition payload_cursors :: "jobj \<Rightarrow> attention_state" where
  "payload_cursors payload =
     (case parseMailboxAttentionStatePayload payload of
        Some st \<Rightarrow> st
      | None \<Rightarrow>
          (let ds = parseMailboxDisclosures payload in
           if ds \<noteq> [] then map disclosure_cursor ds
           else if obj_get payload (js ''event'') = JStr (js ''mailbox_handled'')
              \<and> isMailboxKey (obj_get payload (js ''mailbox''))
              \<and> isPositiveSafeInteger (obj_get payload (js ''throughRowId''))
           then [(str_of (obj_get payload (js ''mailbox'')),
                  \<lparr>disclosed = 0, handled = num_of (obj_get payload (js ''throughRowId'')), highPriority = None\<rparr>)]
           else []))"

fun message_cursors :: "agent_message \<Rightarrow> attention_state" where
  "message_cursors (UserMsg content) =
     (case parseJsonObject content of None \<Rightarrow> [] | Some payload \<Rightarrow> payload_cursors payload)"
| "message_cursors _ = []"

definition merge_messages :: "attention_state \<Rightarrow> agent_message list \<Rightarrow> attention_state" where
  "merge_messages merged messages = foldl (\<lambda>m msg. merge_all m (message_cursors msg)) merged messages"

text \<open>The result object is filled in the order of the sorted keys.\<close>

definition captureMailboxAttentionState :: "agent_message list \<Rightarrow> attention_state" where
  "captureMailboxAttentionState messages =
     (let merged = merge_messages [] messages
      in map (\<lambda>k. (k, the (map_of merged k))) (sort (map fst merged)))"

section \<open>Queries\<close>

datatype mailbox_error =
    InvalidMailboxKey jstr
  | BadThroughRowId
  | BadAttentionCursors jstr

definition assertMailboxKey :: "jstr \<Rightarrow> mailbox_error + unit" where
  "assertMailboxKey mailbox = guardE (is_mailbox_key mailbox) (InvalidMailboxKey mailbox)"

definition findPendingMailboxThroughRowId :: "agent_message list \<Rightarrow> jstr \<Rightarrow> mailbox_error + int option" where
  "findPendingMailboxThroughRowId messages mailbox =
     bindE (assertMailboxKey mailbox) (\<lambda>_. Inr
       (case map_of (captureMailboxAttentionState messages) mailbox of
          None \<Rightarrow> None
        | Some c \<Rightarrow> if handled c < disclosed c then Some (disclosed c) else None))"

definition pending_attention :: "(jstr \<times> int) list \<Rightarrow> jstr \<times> attention_cursor \<Rightarrow> bool" where
  "pending_attention reads = (\<lambda>(mailbox, c).
     max (handled c) (or_zero (map_of reads mailbox))
       < max (if isPrivateMailbox mailbox then disclosed c else or_zero (highPriority c)) 0)"

definition hasPendingMailboxAttention :: "agent_message list \<Rightarrow> (jstr \<times> int) list \<Rightarrow> bool" where
  "hasPendingMailboxAttention messages inboxReadCursors =
     list_ex (pending_attention inboxReadCursors) (captureMailboxAttentionState messages)"

record inbox_read_defaults =
  rd_afterRowId :: int
  rd_contextBefore :: "int option"

text \<open>The defaults one notification message gives, when it is the one looked for.\<close>

definition read_defaults_of :: "jstr \<Rightarrow> int \<Rightarrow> jobj \<Rightarrow> inbox_read_defaults option" where
  "read_defaults_of mailbox consumed payload =
     (if obj_get payload (js ''event'') \<noteq> JStr (js ''notification'')
         \<or> obj_get payload (js ''kind'') \<noteq> JStr (js ''inbox_update'')
         \<or> obj_get payload (js ''priority'') \<noteq> JStr (js ''high'')
         \<or> obj_get payload (js ''delivery'') \<noteq> JStr (js ''interrupt'') then None
      else (case (as_record (obj_get payload (js ''data'')), as_record (obj_get payload (js ''open''))) of
        (Some d, Some op) \<Rightarrow>
          if obj_get d (js ''mailbox'') \<noteq> JStr mailbox
             \<or> \<not> isPositiveSafeInteger (obj_get d (js ''throughRowId''))
             \<or> num_of (obj_get d (js ''throughRowId'')) \<le> consumed
             \<or> obj_get op (js ''tool'') \<noteq> JStr (js ''inbox'') then None
          else (case as_record (obj_get op (js ''args'')) of
                  None \<Rightarrow> None
                | Some a \<Rightarrow>
                    if obj_get a (js ''action'') \<noteq> JStr (js ''read'')
                       \<or> \<not> isNonNegativeSafeInteger (obj_get a (js ''afterRowId'')) then None
                    else Some \<lparr>rd_afterRowId = max (num_of (obj_get a (js ''afterRowId''))) consumed,
                               rd_contextBefore = positive_or_none (obj_get a (js ''contextBefore''))\<rparr>)
      | _ \<Rightarrow> None))"

fun last_read_defaults :: "jstr \<Rightarrow> int \<Rightarrow> agent_message list \<Rightarrow> inbox_read_defaults option" where
  "last_read_defaults mailbox consumed [] = None"
| "last_read_defaults mailbox consumed (UserMsg content # ms) =
     (case parseJsonObject content of
        None \<Rightarrow> last_read_defaults mailbox consumed ms
      | Some payload \<Rightarrow>
          (case read_defaults_of mailbox consumed payload of
             None \<Rightarrow> last_read_defaults mailbox consumed ms
           | Some d \<Rightarrow> Some d))"
| "last_read_defaults mailbox consumed (m # ms) = last_read_defaults mailbox consumed ms"

definition findPendingHighPriorityInboxReadDefaults ::
  "agent_message list \<Rightarrow> jstr \<Rightarrow> int \<Rightarrow> mailbox_error + inbox_read_defaults option" where
  "findPendingHighPriorityInboxReadDefaults messages mailbox inboxReadCursor =
     bindE (assertMailboxKey mailbox) (\<lambda>_.
       let h = (case map_of (captureMailboxAttentionState messages) mailbox of None \<Rightarrow> 0 | Some c \<Rightarrow> handled c)
       in Inr (last_read_defaults mailbox (max inboxReadCursor h) (rev messages)))"

section \<open>Writing markers\<close>

definition renderMailboxHandledEvent :: "jstr \<Rightarrow> int \<Rightarrow> mailbox_error + jstr" where
  "renderMailboxHandledEvent mailbox throughRowId =
     bindE (assertMailboxKey mailbox) (\<lambda>_.
     bindE (guardE (isPositiveSafeInteger (jint throughRowId)) BadThroughRowId) (\<lambda>_.
       Inr (stringify (JObj [(js ''event'', JStr (js ''mailbox_handled'')), (js ''mailbox'', JStr mailbox),
              (js ''throughRowId'', jint throughRowId)]))))"

text \<open>One entry of the marker: the high-priority cursor only when it is positive.\<close>

definition render_cursor :: "attention_cursor \<Rightarrow> attention_cursor" where
  "render_cursor c = c\<lparr>highPriority := (if 0 < or_zero (highPriority c) then highPriority c else None)\<rparr>"

fun render_cursors :: "attention_state \<Rightarrow> jstr list \<Rightarrow> mailbox_error + attention_state" where
  "render_cursors st [] = Inr []"
| "render_cursors st (k # ks) =
     bindE (assertMailboxKey k) (\<lambda>_.
       (case map_of st k of
          None \<Rightarrow> Inl (BadAttentionCursors k)
        | Some c \<Rightarrow>
            if \<not> isNonNegativeSafeInteger (jint (disclosed c)) \<or> \<not> isNonNegativeSafeInteger (jint (handled c))
            then Inl (BadAttentionCursors k)
            else bindE (render_cursors st ks) (\<lambda>r. Inr ((k, render_cursor c) # r))))"

definition attention_marker_jv :: "attention_state \<Rightarrow> jv" where
  "attention_marker_jv st = JObj [(js ''event'', JStr (js ''mailbox_attention_state'')),
     (js ''mailboxes'', attention_state_jv st)]"

definition renderMailboxAttentionStateEvent :: "attention_state \<Rightarrow> mailbox_error + jstr" where
  "renderMailboxAttentionStateEvent st =
     bindE (render_cursors st (sort (map fst st))) (\<lambda>mailboxes. Inr (stringify (attention_marker_jv mailboxes)))"

fun isMailboxAttentionStateMessage :: "agent_message \<Rightarrow> bool" where
  "isMailboxAttentionStateMessage (UserMsg content) =
     (case parseJsonObject content of
        None \<Rightarrow> False
      | Some payload \<Rightarrow> parseMailboxAttentionStatePayload payload \<noteq> None)"
| "isMailboxAttentionStateMessage _ = False"

end
