(* ===== verification/Mailbox_Attention.thy ===== *)
theory Mailbox_Attention
  imports Mailbox_Handled
begin

text \<open>
  What the capture of \<open>Mailbox_Handled\<close> computes, stated over a lattice: the attention of one
  mailbox is a triple of row ids ordered pointwise, and the state captured from a history stands
  for the supremum of what its messages contribute.  So the order and the repetition of markers do
  not matter, and the marker written for a captured state stands for the messages it replaces.
\<close>

section \<open>The lattice of attention\<close>

datatype attn = Attn (att_disclosed: nat) (att_handled: nat) (att_high: nat)

instantiation attn :: bounded_semilattice_sup_bot
begin

definition bot_attn :: attn where
  "bot_attn = Attn 0 0 0"

definition sup_attn :: "attn \<Rightarrow> attn \<Rightarrow> attn" where
  "sup_attn a b = Attn (max (att_disclosed a) (att_disclosed b)) (max (att_handled a) (att_handled b))
     (max (att_high a) (att_high b))"

definition less_eq_attn :: "attn \<Rightarrow> attn \<Rightarrow> bool" where
  "less_eq_attn a b \<longleftrightarrow> att_disclosed a \<le> att_disclosed b \<and> att_handled a \<le> att_handled b \<and> att_high a \<le> att_high b"

definition less_attn :: "attn \<Rightarrow> attn \<Rightarrow> bool" where
  "less_attn a b \<longleftrightarrow> a \<le> b \<and> \<not> b \<le> (a :: attn)"

instance
  by standard (auto simp: bot_attn_def sup_attn_def less_eq_attn_def less_attn_def attn.expand)

end

instance "fun" :: (type, bounded_semilattice_sup_bot) bounded_semilattice_sup_bot ..

text \<open>What a cursor and a state stand for: an absent mailbox is the bottom element.\<close>

definition abs_cursor :: "attention_cursor \<Rightarrow> attn" where
  "abs_cursor c = Attn (nat (disclosed c)) (nat (handled c)) (nat (or_zero (highPriority c)))"

definition attention_at :: "attention_state \<Rightarrow> jstr \<Rightarrow> attn" where
  "attention_at st k = (case map_of st k of None \<Rightarrow> bot | Some c \<Rightarrow> abs_cursor c)"

definition single_attention :: "jstr \<times> attention_cursor \<Rightarrow> jstr \<Rightarrow> attn" where
  "single_attention p k = (if k = fst p then abs_cursor (snd p) else bot)"

definition attention_sum :: "attention_state \<Rightarrow> jstr \<Rightarrow> attn" where
  "attention_sum st = foldr (\<lambda>p a. sup (single_attention p) a) st bot"

definition valid_cursor :: "attention_cursor \<Rightarrow> bool" where
  "valid_cursor c \<longleftrightarrow> 0 \<le> disclosed c \<and> disclosed c \<le> max_safe \<and> 0 \<le> handled c \<and> handled c \<le> max_safe
     \<and> (case highPriority c of None \<Rightarrow> True | Some h \<Rightarrow> 0 < h \<and> h \<le> max_safe)"

definition valid_entry :: "jstr \<times> attention_cursor \<Rightarrow> bool" where
  "valid_entry p \<longleftrightarrow> is_mailbox_key (fst p) \<and> valid_cursor (snd p)"

definition nonzero :: "attention_cursor \<Rightarrow> bool" where
  "nonzero c \<longleftrightarrow> 0 < disclosed c \<or> 0 < handled c \<or> 0 < or_zero (highPriority c)"

lemma bot_attn_fun: "(bot :: jstr \<Rightarrow> attn) = (\<lambda>_. Attn 0 0 0)"
  by (simp add: fun_eq_iff bot_attn_def)

lemma attention_sum_append: "attention_sum (xs @ ys) = sup (attention_sum xs) (attention_sum ys)"
  by (induction xs) (simp_all add: attention_sum_def sup_assoc)

lemma attention_sum_Cons: "attention_sum (x # xs) = sup (single_attention x) (attention_sum xs)"
  by (simp add: attention_sum_def)

section \<open>Merging\<close>

lemma map_of_map_set [simp]: "map_of (map_set m k v) = (map_of m)(k \<mapsto> v)"
  by (simp add: map_set_def update_conv')

lemma distinct_map_set: "distinct (map fst m) \<Longrightarrow> distinct (map fst (map_set m k v))"
  by (simp add: map_set_def distinct_update)

lemma nat_max_int: "nat (max a b) = max (nat a) (nat b)"
  by (simp add: max_def)

lemma max_zero_bot: "max (nat x) 0 = nat x" "max 0 (nat x) = nat x"
  by simp_all

lemma or_zero_if: "nat (or_zero (if 0 < h then Some h else None)) = nat h"
  by (simp add: or_zero_def)

lemma valid_or_zero: "valid_cursor c \<Longrightarrow> 0 \<le> or_zero (highPriority c) \<and> or_zero (highPriority c) \<le> max_safe"
  by (auto simp: valid_cursor_def or_zero_def max_safe_def split: option.splits)

lemma valid_no_cursor: "valid_cursor no_cursor"
  by (simp add: valid_cursor_def no_cursor_def max_safe_def)

lemma abs_no_cursor: "abs_cursor no_cursor = bot"
  by (simp add: abs_cursor_def no_cursor_def bot_attn_def or_zero_def)

lemma abs_join_cursor:
  "abs_cursor (join_cursor cur i) = sup (case cur of None \<Rightarrow> bot | Some c \<Rightarrow> abs_cursor c) (abs_cursor i)"
proof -
  have "abs_cursor (join_cursor cur i) = sup (abs_cursor (case cur of None \<Rightarrow> no_cursor | Some c \<Rightarrow> c)) (abs_cursor i)"
    by (simp add: abs_cursor_def join_cursor_def Let_def sup_attn_def nat_max_int or_zero_if)
  then show ?thesis by (simp add: abs_no_cursor split: option.splits)
qed

lemma valid_join_cursor:
  assumes "valid_cursor i" "\<forall>c. cur = Some c \<longrightarrow> valid_cursor c"
  shows "valid_cursor (join_cursor cur i)"
proof -
  define d where "d = (case cur of None \<Rightarrow> no_cursor | Some c \<Rightarrow> c)"
  have d: "valid_cursor d" using assms(2) valid_no_cursor by (simp add: d_def split: option.splits)
  define h where "h = max (or_zero (highPriority d)) (or_zero (highPriority i))"
  have j: "join_cursor cur i = \<lparr>disclosed = max (disclosed d) (disclosed i), handled = max (handled d) (handled i),
      highPriority = (if 0 < h then Some h else None)\<rparr>"
    by (simp add: join_cursor_def Let_def d_def h_def)
  have "h \<le> max_safe" using valid_or_zero [OF d] valid_or_zero [OF assms(1)] by (simp add: h_def)
  then show ?thesis
    using d assms(1) by (simp add: j valid_cursor_def le_max_iff_disj)
qed

text \<open>The invariant of the map the capture fills.\<close>

definition merged_inv :: "attention_state \<Rightarrow> bool" where
  "merged_inv m \<longleftrightarrow> distinct (map fst m) \<and> (\<forall>p \<in> set m. valid_entry p \<and> nonzero (snd p))"

lemma merged_inv_get:
  "merged_inv m \<Longrightarrow> map_of m k = Some c \<Longrightarrow> valid_cursor c \<and> nonzero c \<and> is_mailbox_key k"
  by (auto simp: merged_inv_def valid_entry_def dest!: map_of_SomeD)

lemma nonzero_join:
  assumes "nonzero i \<or> (\<exists>c. cur = Some c \<and> nonzero c)"
  shows "nonzero (join_cursor cur i)"
  using assms by (auto simp: nonzero_def join_cursor_def Let_def or_zero_def split: option.splits)

lemma nonzero_iff: "valid_cursor c \<Longrightarrow> nonzero c \<longleftrightarrow> \<not> (disclosed c = 0 \<and> handled c = 0 \<and> or_zero (highPriority c) = 0)"
  by (auto simp: nonzero_def valid_cursor_def or_zero_def split: option.splits)

lemma mergeMailboxCursors_inv:
  assumes "merged_inv m" "valid_entry (k, c)"
  shows "merged_inv (mergeMailboxCursors m k c)"
    and "attention_at (mergeMailboxCursors m k c) = sup (attention_at m) (single_attention (k, c))"
proof -
  have c: "valid_cursor c" "is_mailbox_key k" using assms(2) by (auto simp: valid_entry_def)
  have cur: "\<forall>d. map_of m k = Some d \<longrightarrow> valid_cursor d" using merged_inv_get [OF assms(1)] by auto
  let ?j = "join_cursor (map_of m k) c"
  show "merged_inv (mergeMailboxCursors m k c)"
  proof (cases "map_of m k = None \<and> \<not> nonzero c")
    case True
    with assms(1) nonzero_iff [OF c(1)] show ?thesis by (simp add: mergeMailboxCursors_def Let_def)
  next
    case False
    then have eq: "mergeMailboxCursors m k c = map_set m k ?j"
      using nonzero_iff [OF c(1)] by (auto simp: mergeMailboxCursors_def Let_def)
    have "nonzero ?j" using False merged_inv_get [OF assms(1), of k] by (intro nonzero_join) auto
    moreover have "valid_cursor ?j" by (rule valid_join_cursor [OF c(1) cur])
    ultimately have "valid_entry p \<and> nonzero (snd p)" if "p \<in> set (map_set m k ?j)" for p
    proof -
      have d: "distinct (map fst (map_set m k ?j))" using assms(1) by (simp add: merged_inv_def distinct_map_set)
      with that have "map_of (map_set m k ?j) (fst p) = Some (snd p)" by (metis map_of_is_SomeI prod.collapse)
      then show ?thesis
        using \<open>nonzero ?j\<close> \<open>valid_cursor ?j\<close> c(2) merged_inv_get [OF assms(1), of "fst p" "snd p"]
        by (auto simp: valid_entry_def split: if_splits)
    qed
    with assms(1) show ?thesis by (simp add: eq merged_inv_def distinct_map_set)
  qed
  show "attention_at (mergeMailboxCursors m k c) = sup (attention_at m) (single_attention (k, c))"
  proof
    fix x
    show "attention_at (mergeMailboxCursors m k c) x = sup (attention_at m) (single_attention (k, c)) x"
      using abs_join_cursor [of "map_of m k" c] nonzero_iff [OF c(1)]
      by (auto simp: attention_at_def mergeMailboxCursors_def Let_def single_attention_def sup.commute
          abs_cursor_def bot_attn_def sup_attn_def split: option.splits)
  qed
qed

lemma merge_all_inv:
  assumes "merged_inv m" "\<forall>p \<in> set st. valid_entry p"
  shows "merged_inv (merge_all m st) \<and> attention_at (merge_all m st) = sup (attention_at m) (attention_sum st)"
  using assms
proof (induction st arbitrary: m)
  case (Cons p st)
  obtain k c where p: "p = (k, c)" by fastforce
  with Cons.prems mergeMailboxCursors_inv [of m k c] Cons.IH [of "mergeMailboxCursors m k c"]
  show ?case by (simp add: merge_all_def p attention_sum_Cons sup_assoc)
qed (simp add: merge_all_def attention_sum_def)

section \<open>What messages contribute\<close>

lemma positive_or_none_valid: "positive_or_none v = Some h \<Longrightarrow> 0 < h \<and> h \<le> max_safe"
  by (auto simp: positive_or_none_def isPositiveSafeInteger_iff split: if_splits)

lemma parse_marker_cursor_valid:
  "parse_marker_cursor k v = Some c \<Longrightarrow> valid_entry (k, c)"
  by (auto simp: parse_marker_cursor_def valid_entry_def valid_cursor_def isNonNegativeSafeInteger_iff
      dest: positive_or_none_valid split: option.splits if_splits)

lemma parse_marker_cursors_valid:
  "parse_marker_cursors ms ks = Some st \<Longrightarrow> \<forall>p \<in> set st. valid_entry p"
  by (induction ks arbitrary: st) (auto dest: parse_marker_cursor_valid split: option.splits)

lemma isMailboxKey_str: "isMailboxKey v \<Longrightarrow> is_mailbox_key (str_of v)"
  by (cases v) (auto simp: isMailboxKey_def)

lemma disclosure_of_valid: "d \<in> set (disclosure_of ps h) \<Longrightarrow> valid_entry (disclosure_cursor d)"
  by (auto simp: disclosure_of_def disclosure_cursor_def valid_entry_def valid_cursor_def isPositiveSafeInteger_iff
      max_safe_def dest: isMailboxKey_str split: if_splits)

lemma parseMailboxDisclosures_valid: "d \<in> set (parseMailboxDisclosures ps) \<Longrightarrow> valid_entry (disclosure_cursor d)"
  by (auto simp: parseMailboxDisclosures_def dest: disclosure_of_valid split: option.splits bool.splits if_splits)

lemma handled_marker_valid:
  "isMailboxKey k \<Longrightarrow> isPositiveSafeInteger v \<Longrightarrow>
   valid_entry (str_of k, \<lparr>disclosed = 0, handled = num_of v, highPriority = None\<rparr>)"
  by (auto simp: valid_entry_def valid_cursor_def isPositiveSafeInteger_iff max_safe_def dest: isMailboxKey_str)

lemma payload_valid:
  "parseMailboxAttentionStatePayload ps = Some st \<Longrightarrow> p \<in> set st \<Longrightarrow> valid_entry p"
  by (auto simp: parseMailboxAttentionStatePayload_def dest: parse_marker_cursors_valid split: option.splits if_splits)

lemma message_cursors_valid: "p \<in> set (message_cursors m) \<Longrightarrow> valid_entry p"
  by (cases m) (auto simp: payload_cursors_def Let_def dest: payload_valid parseMailboxDisclosures_valid
      intro: handled_marker_valid split: option.splits if_splits)

definition messages_attention :: "agent_message list \<Rightarrow> jstr \<Rightarrow> attn" where
  "messages_attention ms = foldr (\<lambda>m a. sup (attention_sum (message_cursors m)) a) ms bot"

lemma messages_attention_append: "messages_attention (ms @ ns) = sup (messages_attention ms) (messages_attention ns)"
  by (induction ms) (simp_all add: messages_attention_def sup_assoc)

lemma merge_messages_inv:
  assumes "merged_inv m"
  shows "merged_inv (merge_messages m ms) \<and> attention_at (merge_messages m ms) = sup (attention_at m) (messages_attention ms)"
  using assms
proof (induction ms arbitrary: m)
  case (Cons x ms)
  from merge_all_inv [OF Cons.prems, of "message_cursors x"] message_cursors_valid [of _ x]
    Cons.IH [of "merge_all m (message_cursors x)"]
  show ?case by (simp add: merge_messages_def messages_attention_def sup_assoc)
qed (simp add: merge_messages_def messages_attention_def)

section \<open>The captured state\<close>

text \<open>A captured state lists its mailboxes in order, each with something to say.\<close>

definition captured_form :: "attention_state \<Rightarrow> bool" where
  "captured_form st \<longleftrightarrow> sorted_wrt (<) (map fst st) \<and> (\<forall>p \<in> set st. valid_entry p \<and> nonzero (snd p))"

lemma capture_form: "captured_form (captureMailboxAttentionState ms)"
proof -
  let ?m = "merge_messages [] ms"
  have inv: "merged_inv ?m" using merge_messages_inv [of "[]" ms] by (simp add: merged_inv_def)
  have "sorted_wrt (<) (sort (map fst ?m))"
    using inv by (simp add: strict_sorted_iff merged_inv_def)
  moreover have "valid_entry (k, the (map_of ?m k)) \<and> nonzero (the (map_of ?m k))" if "k \<in> set (map fst ?m)" for k
  proof -
    from that obtain c where "map_of ?m k = Some c" by (metis map_of_eq_None_iff not_None_eq list.set_map)
    with merged_inv_get [OF inv this] show ?thesis by (simp add: valid_entry_def)
  qed
  ultimately show ?thesis
    by (auto simp: captured_form_def captureMailboxAttentionState_def Let_def comp_def)
qed

lemma map_of_keys: "map_of (map (\<lambda>k. (k, f k)) ks) x = (if x \<in> set ks then Some (f x) else None)"
  by (induction ks) auto

lemma capture_attention: "attention_at (captureMailboxAttentionState ms) = messages_attention ms"
proof -
  have e: "attention_at [] = bot" by (simp add: attention_at_def fun_eq_iff)
  have "map_of (captureMailboxAttentionState ms) k = map_of (merge_messages [] ms) k" for k
  proof (cases "map_of (merge_messages [] ms) k")
    case None
    then have "k \<notin> set (sort (map fst (merge_messages [] ms)))"
      by (simp add: map_of_eq_None_iff)
    with None show ?thesis by (simp only: captureMailboxAttentionState_def Let_def map_of_keys if_False)
  next
    case (Some c)
    then have "k \<in> set (sort (map fst (merge_messages [] ms)))"
      by (metis map_of_eq_None_iff not_None_eq set_sort list.set_map)
    with Some show ?thesis by (simp only: captureMailboxAttentionState_def Let_def map_of_keys if_True option.sel)
  qed
  then have "attention_at (captureMailboxAttentionState ms) = attention_at (merge_messages [] ms)"
    by (simp add: attention_at_def fun_eq_iff)
  also have "\<dots> = messages_attention ms"
    using merge_messages_inv [of "[]" ms] by (simp add: merged_inv_def e)
  finally show ?thesis .
qed

lemma abs_cursor_inject:
  "valid_cursor c \<Longrightarrow> valid_cursor d \<Longrightarrow> abs_cursor c = abs_cursor d \<longleftrightarrow> c = d"
  by (cases c; cases d) (auto simp: valid_cursor_def abs_cursor_def or_zero_def split: option.splits)

lemma nonzero_abs: "valid_cursor c \<Longrightarrow> nonzero c \<longleftrightarrow> abs_cursor c \<noteq> bot"
  by (auto simp: nonzero_def abs_cursor_def bot_attn_def valid_cursor_def)

text \<open>States of this form are determined by what they stand for.\<close>

lemma captured_form_eqI:
  assumes "captured_form st" "captured_form st'" "attention_at st = attention_at st'"
  shows "st = st'"
proof -
  have dist: "distinct (map fst x)" if "captured_form x" for x
    using that by (simp add: captured_form_def strict_sorted_iff)
  have mem: "(k, c) \<in> set y" if "captured_form x" "captured_form y" "attention_at x = attention_at y" "(k, c) \<in> set x" for x y k c
  proof -
    have c: "map_of x k = Some c" "valid_cursor c" "nonzero c"
      using that dist [OF that(1)] by (auto simp: captured_form_def valid_entry_def)
    then have "attention_at y k = abs_cursor c" "abs_cursor c \<noteq> bot"
      using that(3) nonzero_abs [OF c(2)] by (auto simp: attention_at_def fun_eq_iff split: option.splits)
    then obtain d where d: "map_of y k = Some d" "abs_cursor d = abs_cursor c"
      by (auto simp: attention_at_def split: option.splits)
    then have "valid_cursor d" using that(2) by (auto simp: captured_form_def valid_entry_def dest!: map_of_SomeD)
    with d c abs_cursor_inject show ?thesis by (metis map_of_SomeD)
  qed
  have "set st = set st'" using mem [OF assms] mem [OF assms(2,1) assms(3) [symmetric]] by auto
  moreover have "map fst st = map fst st'"
    using assms(1,2) \<open>set st = set st'\<close> by (intro strict_sorted_equal) (auto simp: captured_form_def)
  moreover have "x = map (\<lambda>k. (k, the (map_of x k))) (map fst x)" if "captured_form x" for x
  proof -
    have "map (\<lambda>p. (fst p, the (map_of x (fst p)))) x = x"
      by (rule map_idI) (use dist [OF that] in auto)
    then show ?thesis by (simp add: comp_def)
  qed
  moreover have "map_of st = map_of st'"
    using dist assms(1,2) \<open>set st = set st'\<close> by (simp add: map_of_inject_set)
  ultimately show ?thesis by (metis assms(1,2))
qed


section \<open>The attention-state marker\<close>

lemma captured_distinct: "captured_form st \<Longrightarrow> distinct (map fst st)"
  by (simp add: captured_form_def strict_sorted_iff)

lemma captured_sort: "captured_form st \<Longrightarrow> sort (map fst st) = map fst st"
  by (simp add: captured_form_def strict_sorted_iff sorted_sort_id)

lemma captured_reorder:
  assumes "distinct (map fst st)"
  shows "map (\<lambda>k. (k, f (the (map_of st k)))) (map fst st) = map (\<lambda>(k, c). (k, f c)) st"
  using assms by (auto simp: comp_def)

lemma render_cursor_id: "valid_cursor c \<Longrightarrow> render_cursor c = c"
  by (cases c) (auto simp: render_cursor_def valid_cursor_def or_zero_def split: option.splits)

lemma render_cursors_ok:
  assumes "\<forall>p \<in> set st. valid_entry p" "set ks \<subseteq> set (map fst st)"
  shows "render_cursors st ks = Inr (map (\<lambda>k. (k, the (map_of st k))) ks)"
  using assms(2)
proof (induction ks)
  case (Cons k ks)
  then obtain c where c: "map_of st k = Some c" by (metis list.set_intros(1) map_of_eq_None_iff not_None_eq subset_iff list.set_map)
  then have "valid_entry (k, c)" using assms(1) by (auto dest: map_of_SomeD)
  with c Cons show ?case
    by (auto simp: valid_entry_def assertMailboxKey_def valid_cursor_def isNonNegativeSafeInteger_iff render_cursor_id)
qed simp

lemma render_attention_state:
  assumes "captured_form st"
  shows "renderMailboxAttentionStateEvent st = Inr (stringify (attention_marker_jv st))"
proof -
  have "render_cursors st (sort (map fst st)) = Inr st"
    using render_cursors_ok [of st "map fst st"] captured_reorder [OF captured_distinct [OF assms], of "\<lambda>c. c"] assms
    by (simp add: captured_sort captured_form_def)
  then show ?thesis by (simp add: renderMailboxAttentionStateEvent_def)
qed

lemma attention_cursor_jwf: "valid_cursor c \<Longrightarrow> jwf (attention_cursor_jv c)"
proof -
  assume c: "valid_cursor c"
  have "key_order [(js ''disclosedThroughRowId'', a), (js ''handledThroughRowId'', b), (js ''highPriorityThroughRowId'', d)]"
    "key_order [(js ''disclosedThroughRowId'', a), (js ''handledThroughRowId'', b)]" for a b d
    by (rule key_orderI; simp add: is_digit_def)+
  with c show ?thesis
    by (auto simp: attention_cursor_jv_def opt_prop_def valid_cursor_def max_safe_def split: option.splits)
qed

lemma attention_marker_jwf:
  assumes "captured_form st"
  shows "jwf (attention_marker_jv st)"
proof -
  have st: "\<forall>p \<in> set st. valid_entry p" using assms by (simp add: captured_form_def)
  have "key_order (map (\<lambda>(m, c). (m, attention_cursor_jv c)) st)"
    by (rule key_orderI) (use st captured_distinct [OF assms] in
        \<open>auto simp: comp_def case_prod_beta valid_entry_def dest: mailbox_key_not_index\<close>)
  moreover have "key_order [(js ''event'', a), (js ''mailboxes'', b)]" for a b
    by (rule key_orderI) (simp_all add: is_digit_def)
  ultimately show ?thesis
    using st attention_cursor_jwf by (auto simp: attention_marker_jv_def attention_state_jv_def valid_entry_def)
qed

lemma parse_marker_cursor_jv:
  "valid_entry (k, c) \<Longrightarrow> parse_marker_cursor k (attention_cursor_jv c) = Some c"
  by (cases c) (auto simp: parse_marker_cursor_def attention_cursor_jv_def valid_entry_def valid_cursor_def
      hasExactKeys_def cursor_keys_def cursor_optional_keys_def isNonNegativeSafeInteger_iff opt_prop_def
      as_record_def positive_or_none_def isPositiveSafeInteger_iff split: option.splits)

lemma parse_marker_cursors_ok:
  assumes "\<And>k. k \<in> set ks \<Longrightarrow> parse_marker_cursor k (obj_get ms k) = Some (f k)"
  shows "parse_marker_cursors ms ks = Some (map (\<lambda>k. (k, f k)) ks)"
  using assms by (induction ks) auto

lemma parse_attention_marker:
  assumes "captured_form st"
  shows "parseJsonObject (stringify (attention_marker_jv st)) =
      Some [(js ''event'', JStr (js ''mailbox_attention_state'')), (js ''mailboxes'', attention_state_jv st)]"
    and "parseMailboxAttentionStatePayload
      [(js ''event'', JStr (js ''mailbox_attention_state'')), (js ''mailboxes'', attention_state_jv st)] = Some st"
proof -
  show "parseJsonObject (stringify (attention_marker_jv st)) =
      Some [(js ''event'', JStr (js ''mailbox_attention_state'')), (js ''mailboxes'', attention_state_jv st)]"
    using json_parse_stringify [OF attention_marker_jwf [OF assms]]
    by (simp add: parseJsonObject_def attention_marker_jv_def as_record_def)
  let ?ms = "map (\<lambda>(m, c). (m, attention_cursor_jv c)) st"
  have keys: "map fst ?ms = map fst st" by (simp add: comp_def case_prod_beta)
  have d: "distinct (map fst st)" by (rule captured_distinct [OF assms])
  have "parse_marker_cursors ?ms (map fst st) = Some (map (\<lambda>k. (k, the (map_of st k))) (map fst st))"
  proof (rule parse_marker_cursors_ok)
    fix k assume "k \<in> set (map fst st)"
    then obtain c where c: "map_of st k = Some c" by (metis map_of_eq_None_iff not_None_eq list.set_map)
    then have "valid_entry (k, c)" using assms by (auto simp: captured_form_def dest: map_of_SomeD)
    moreover have "obj_get ?ms k = attention_cursor_jv c"
      using c by (simp add: obj_get_def map_of_map)
    ultimately show "parse_marker_cursor k (obj_get ?ms k) = Some (the (map_of st k))"
      using c by (simp add: parse_marker_cursor_jv)
  qed
  then show "parseMailboxAttentionStatePayload
      [(js ''event'', JStr (js ''mailbox_attention_state'')), (js ''mailboxes'', attention_state_jv st)] = Some st"
    using captured_reorder [OF d, of "\<lambda>c. c"] captured_sort [OF assms]
    by (simp add: parseMailboxAttentionStatePayload_def hasExactKeys_def attention_state_jv_def as_record_def keys
        del: map_map)
qed

lemma message_cursors_marker:
  "captured_form st \<Longrightarrow> message_cursors (UserMsg (stringify (attention_marker_jv st))) = st"
  by (simp add: parse_attention_marker payload_cursors_def)

lemma attention_sum_absent: "k \<notin> fst ` set st \<Longrightarrow> attention_sum st k = bot"
  by (induction st) (auto simp: attention_sum_Cons attention_sum_def single_attention_def)

lemma attention_sum_distinct: "distinct (map fst st) \<Longrightarrow> attention_sum st k = attention_at st k"
proof (induction st)
  case (Cons p st)
  show ?case
  proof (cases "k = fst p")
    case True
    with Cons have "attention_sum st k = bot" by (intro attention_sum_absent) simp
    with True show ?thesis
      by (cases p) (simp add: attention_sum_Cons single_attention_def attention_at_def)
  next
    case False
    with Cons show ?thesis
      by (cases p) (simp add: attention_sum_Cons single_attention_def attention_at_def)
  qed
qed (simp add: attention_sum_def attention_at_def)

lemma attention_sum_captured: "captured_form st \<Longrightarrow> attention_sum st = attention_at st"
  by (rule ext) (simp add: attention_sum_distinct captured_distinct)

lemma messages_attention_marker:
  "captured_form st \<Longrightarrow> messages_attention (UserMsg (stringify (attention_marker_jv st)) # ms)
     = sup (attention_at st) (messages_attention ms)"
  by (simp add: messages_attention_def message_cursors_marker attention_sum_captured del: message_cursors.simps)

lemma capture_eqI: "messages_attention ms = messages_attention ns \<Longrightarrow>
   captureMailboxAttentionState ms = captureMailboxAttentionState ns"
  by (rule captured_form_eqI) (simp_all add: capture_form capture_attention)

text \<open>A marker of the captured state stands for the messages it was captured from.\<close>

lemma capture_compacted:
  assumes "renderMailboxAttentionStateEvent (captureMailboxAttentionState ms) = Inr text"
  shows "captureMailboxAttentionState (UserMsg text # ns) = captureMailboxAttentionState (ms @ ns)"
proof (rule capture_eqI)
  have "text = stringify (attention_marker_jv (captureMailboxAttentionState ms))"
    using assms render_attention_state [OF capture_form] by simp
  then show "messages_attention (UserMsg text # ns) = messages_attention (ms @ ns)"
    using messages_attention_marker [OF capture_form] by (simp add: capture_attention messages_attention_append)
qed


section \<open>Pending rows\<close>

lemma captured_cursor:
  assumes "map_of (captureMailboxAttentionState ms) k = Some c"
  shows "disclosed c = int (att_disclosed (messages_attention ms k))"
    "handled c = int (att_handled (messages_attention ms k))"
    "or_zero (highPriority c) = int (att_high (messages_attention ms k))"
proof -
  have "valid_cursor c" using assms capture_form [of ms] by (auto simp: captured_form_def valid_entry_def dest!: map_of_SomeD)
  moreover have "messages_attention ms k = abs_cursor c"
    using assms by (simp add: capture_attention [symmetric] attention_at_def)
  ultimately show "disclosed c = int (att_disclosed (messages_attention ms k))"
    "handled c = int (att_handled (messages_attention ms k))"
    "or_zero (highPriority c) = int (att_high (messages_attention ms k))"
    using valid_or_zero [of c] by (simp_all add: abs_cursor_def valid_cursor_def)
qed

lemma captured_none: "map_of (captureMailboxAttentionState ms) k = None \<Longrightarrow> messages_attention ms k = bot"
  by (simp add: capture_attention [symmetric] attention_at_def)

lemma findPending_spec:
  assumes "is_mailbox_key k"
  shows "findPendingMailboxThroughRowId ms k =
    Inr (if att_handled (messages_attention ms k) < att_disclosed (messages_attention ms k)
         then Some (int (att_disclosed (messages_attention ms k))) else None)"
  using assms captured_cursor [of ms k] captured_none [of ms k]
  by (auto simp: findPendingMailboxThroughRowId_def assertMailboxKey_def bot_attn_def split: option.splits)

section \<open>The handled marker\<close>

lemma handled_marker_cursors:
  assumes "renderMailboxHandledEvent k t = Inr text"
  shows "message_cursors (UserMsg text) = [(k, \<lparr>disclosed = 0, handled = t, highPriority = None\<rparr>)]"
    and "is_mailbox_key k" and "0 < t" and "t \<le> max_safe"
proof -
  let ?ps = "[(js ''event'', JStr (js ''mailbox_handled'')), (js ''mailbox'', JStr k), (js ''throughRowId'', jint t)]"
  have k: "is_mailbox_key k" "isPositiveSafeInteger (jint t)"
    and tx: "text = stringify (JObj ?ps)"
    using assms by (auto simp: renderMailboxHandledEvent_def assertMailboxKey_def split: if_splits)
  then show "is_mailbox_key k" "0 < t" "t \<le> max_safe" by (simp_all add: isPositiveSafeInteger_iff)
  then have "jwf (JObj ?ps)"
    by (auto intro!: key_orderI simp: is_digit_def max_safe_def)
  then have "parseJsonObject text = Some ?ps"
    using json_parse_stringify [of "JObj ?ps"] by (simp add: tx parseJsonObject_def as_record_def)
  then show "message_cursors (UserMsg text) = [(k, \<lparr>disclosed = 0, handled = t, highPriority = None\<rparr>)]"
    using k
    by (simp add: payload_cursors_def parseMailboxAttentionStatePayload_def parseMailboxDisclosures_def
        as_array_def as_record_def isMailboxKey_def)
qed

lemma messages_attention_handled:
  assumes "renderMailboxHandledEvent k t = Inr text"
  shows "messages_attention (ms @ [UserMsg text]) =
    sup (messages_attention ms) (\<lambda>x. if x = k then Attn 0 (nat t) 0 else bot)"
proof -
  have "messages_attention [UserMsg text] = (\<lambda>x. if x = k then Attn 0 (nat t) 0 else bot)"
    unfolding messages_attention_def foldr.simps handled_marker_cursors(1) [OF assms]
    by (simp add: attention_sum_def single_attention_def abs_cursor_def or_zero_def fun_eq_iff)
  then show ?thesis by (simp add: messages_attention_append)
qed

end
