(* ===== verification/Cursor_Store.thy ===== *)
theory Cursor_Store
  imports Js_Prelude
begin

text \<open>
  The contract of a store of cursors, one per mailbox: a cursor only moves forward.  Everything
  that follows from that alone is proved here once: replaying and reordering deliveries changes
  nothing.
\<close>

locale cursor_store =
  fixes cursor_at :: "'s \<Rightarrow> 'k \<Rightarrow> int"
    and advance :: "'s \<Rightarrow> 'k \<Rightarrow> int \<Rightarrow> 's"
    and inv :: "'s \<Rightarrow> bool"
    and ok :: "'k \<Rightarrow> int \<Rightarrow> bool"
  assumes inv_advance: "inv s \<Longrightarrow> ok k t \<Longrightarrow> inv (advance s k t)"
    and at_advance: "inv s \<Longrightarrow> ok k t \<Longrightarrow>
      cursor_at (advance s k t) x = (if x = k then max (cursor_at s x) t else cursor_at s x)"
begin

definition advance_all :: "'s \<Rightarrow> ('k \<times> int) list \<Rightarrow> 's" where
  "advance_all s ts = foldl (\<lambda>s (k, t). advance s k t) s ts"

definition all_ok :: "('k \<times> int) list \<Rightarrow> bool" where
  "all_ok ts \<longleftrightarrow> (\<forall>(k, t) \<in> set ts. ok k t)"

definition rows_of :: "('k \<times> int) list \<Rightarrow> 'k \<Rightarrow> int set" where
  "rows_of ts k = {t. (k, t) \<in> set ts}"

lemma finite_rows: "finite (rows_of ts k)"
proof -
  have "rows_of ts k \<subseteq> snd ` set ts" by (force simp: rows_of_def)
  then show ?thesis by (rule finite_subset) simp
qed

lemma rows_simps [simp]:
  "rows_of [] k = {}"
  "rows_of ((k', t) # ts) k = (if k' = k then insert t (rows_of ts k) else rows_of ts k)"
  by (auto simp: rows_of_def)

lemma monotone: "inv s \<Longrightarrow> ok k t \<Longrightarrow> cursor_at s x \<le> cursor_at (advance s k t) x"
  by (simp add: at_advance)

lemma advance_all_inv: "inv s \<Longrightarrow> all_ok ts \<Longrightarrow> inv (advance_all s ts)"
proof (induction ts arbitrary: s)
  case (Cons p ts)
  then show ?case by (cases p) (auto simp: advance_all_def all_ok_def inv_advance)
qed (simp add: advance_all_def)

lemma advance_all_at:
  "inv s \<Longrightarrow> all_ok ts \<Longrightarrow> cursor_at (advance_all s ts) x = Max (insert (cursor_at s x) (rows_of ts x))"
proof (induction ts arbitrary: s)
  case (Cons p ts)
  obtain k t where p: "p = (k, t)" by fastforce
  with Cons.prems have ok: "ok k t" "all_ok ts" by (auto simp: all_ok_def)
  have "cursor_at (advance_all s (p # ts)) x = Max (insert (cursor_at (advance s k t) x) (rows_of ts x))"
    using Cons.IH [OF inv_advance [OF Cons.prems(1) ok(1)] ok(2)] by (simp add: advance_all_def p)
  also have "\<dots> = Max (insert (cursor_at s x) (rows_of (p # ts) x))"
    using finite_rows [of ts x]
    by (cases "x = k"; cases "rows_of ts x = {}")
      (simp_all add: at_advance [OF Cons.prems(1) ok(1)] p max.assoc)
  finally show ?case .
qed (simp add: advance_all_def)

text \<open>Only the set of deliveries matters: neither their order nor their repetition.\<close>

lemma advance_all_set:
  assumes "inv s" "all_ok ts" "set ts = set us"
  shows "cursor_at (advance_all s ts) x = cursor_at (advance_all s us) x"
proof -
  have "rows_of ts x = rows_of us x" "all_ok us" using assms by (auto simp: rows_of_def all_ok_def)
  then show ?thesis using assms by (simp add: advance_all_at)
qed

lemma replay:
  assumes "inv s" "all_ok ts" "set us \<subseteq> set ts"
  shows "cursor_at (advance_all (advance_all s ts) us) x = cursor_at (advance_all s ts) x"
proof -
  have "all_ok (ts @ us)" "set (ts @ us) = set ts" using assms by (auto simp: all_ok_def)
  then have "cursor_at (advance_all s (ts @ us)) x = cursor_at (advance_all s ts) x"
    using advance_all_set assms(1) by blast
  then show ?thesis by (simp add: advance_all_def)
qed

end

end
