(* ===== verification/Inbox_Read_Cursors.thy ===== *)
theory Inbox_Read_Cursors
  imports Snapshot_Integrity Js_Json_Roundtrip Cursor_Store
begin

text \<open>
  \<open>src/agent/inbox-read-cursors.ts\<close>: the row up to which each mailbox was read by the agent.  The
  cursors are a store in the sense of \<open>Cursor_Store\<close>.
\<close>

datatype cursor_error =
    ReadCursorsNotObject
  | InvalidInboxKey jstr
  | InvalidReadCursor jstr
  | InvalidThroughRowId

type_synonym read_cursors = "(jstr \<times> int) list"

text \<open>The entries are copied in enumeration order into an empty object; mailbox keys are not
  integer-like, so they keep that order.\<close>

definition parse_read_cursor :: "jstr \<times> jv \<Rightarrow> cursor_error + jstr \<times> int" where
  "parse_read_cursor = (\<lambda>(mailbox, v).
     bindE (guardE (is_mailbox_key mailbox) (InvalidInboxKey mailbox)) (\<lambda>_.
     bindE (guardE (isNonNegativeSafeInteger v) (InvalidReadCursor mailbox)) (\<lambda>_.
       Inr (mailbox, num_of v))))"

definition parseInboxReadCursors :: "jv \<Rightarrow> cursor_error + read_cursors" where
  "parseInboxReadCursors v =
     (case as_record v of
        None \<Rightarrow> Inl ReadCursorsNotObject
      | Some ps \<Rightarrow> mapE parse_read_cursor ps)"

definition read_cursor_at :: "read_cursors \<Rightarrow> jstr \<Rightarrow> int" where
  "read_cursor_at cursors mailbox = (case map_of cursors mailbox of None \<Rightarrow> 0 | Some i \<Rightarrow> i)"

definition advanceInboxReadCursor :: "read_cursors \<Rightarrow> jstr \<Rightarrow> int \<Rightarrow> cursor_error + read_cursors" where
  "advanceInboxReadCursor cursors mailbox throughRowId =
     bindE (guardE (is_mailbox_key mailbox) (InvalidInboxKey mailbox)) (\<lambda>_.
     bindE (guardE (isPositiveSafeInteger (jint throughRowId)) InvalidThroughRowId) (\<lambda>_.
       Inr (obj_put cursors mailbox (max (read_cursor_at cursors mailbox) throughRowId))))"

section \<open>Well-formed cursors\<close>

definition read_cursors_ok :: "read_cursors \<Rightarrow> bool" where
  "read_cursors_ok cs \<longleftrightarrow> distinct (map fst cs)
     \<and> (\<forall>(k, i) \<in> set cs. is_mailbox_key k \<and> 0 \<le> i \<and> i \<le> max_safe)"

definition read_cursors_jv :: "read_cursors \<Rightarrow> jv" where
  "read_cursors_jv cs = JObj (map (\<lambda>(k, i). (k, jint i)) cs)"

lemma parse_read_cursor_Inr_iff:
  "parse_read_cursor p = Inr q \<longleftrightarrow>
     is_mailbox_key (fst p) \<and> fst q = fst p \<and> snd p = jint (snd q) \<and> 0 \<le> snd q \<and> snd q \<le> max_safe"
  by (cases p; cases q) (auto simp: parse_read_cursor_def isNonNegativeSafeInteger_iff)

lemma parseInboxReadCursors_Inr:
  assumes "parseInboxReadCursors v = Inr cs"
  shows "as_record v = Some (map (\<lambda>(k, i). (k, jint i)) cs)"
    and "\<forall>(k, i) \<in> set cs. is_mailbox_key k \<and> 0 \<le> i \<and> i \<le> max_safe"
proof -
  obtain ps where ps: "as_record v = Some ps" "list_all2 (\<lambda>p q. parse_read_cursor p = Inr q) ps cs"
    using assms by (auto simp: parseInboxReadCursors_def mapE_Inr_iff split: option.splits)
  from ps(2) have "ps = map (\<lambda>(k, i). (k, jint i)) cs \<and> (\<forall>(k, i) \<in> set cs. is_mailbox_key k \<and> 0 \<le> i \<and> i \<le> max_safe)"
  proof (induction rule: list_all2_induct)
    case (Cons x xs y ys)
    then show ?case by (cases x; cases y) (simp add: parse_read_cursor_Inr_iff)
  qed simp
  with ps(1) show "as_record v = Some (map (\<lambda>(k, i). (k, jint i)) cs)"
    and "\<forall>(k, i) \<in> set cs. is_mailbox_key k \<and> 0 \<le> i \<and> i \<le> max_safe" by simp_all
qed

lemma parseInboxReadCursors_jv:
  assumes "\<forall>(k, i) \<in> set cs. is_mailbox_key k \<and> 0 \<le> i \<and> i \<le> max_safe"
  shows "parseInboxReadCursors (read_cursors_jv cs) = Inr cs"
proof -
  have "parse_read_cursor (k, jint i) = Inr (k, i)" if "(k, i) \<in> set cs" for k i
    using assms that by (auto simp: parse_read_cursor_Inr_iff)
  then have "mapE parse_read_cursor (map (\<lambda>(k, i). (k, jint i)) cs) = Inr cs"
    by (induction cs) auto
  then show ?thesis by (simp add: parseInboxReadCursors_def read_cursors_jv_def as_record_def)
qed

section \<open>A cursor store\<close>

lemma obj_put_get:
  "obj_keys (obj_put ob k v) = (if k \<in> set (obj_keys ob) then obj_keys ob
     else if is_index_key k then obj_keys (put_index ob k v) else obj_keys ob @ [k])"
  by (auto simp: obj_put_def comp_def case_prod_beta)

lemma map_of_replace:
  "map_of (map (\<lambda>(k', v'). if k' = k then (k', v) else (k', v')) ob) x =
     (if x = k \<and> k \<in> set (obj_keys ob) then Some v else map_of ob x)"
proof (induction ob)
  case (Cons p ob)
  then show ?case by (cases p; cases "fst p = k"; cases "x = fst p") simp_all
qed simp

lemma map_of_snoc: "map_of (ob @ [(k, v)]) x = (case map_of ob x of None \<Rightarrow> if x = k then Some v else None | Some w \<Rightarrow> Some w)"
  by (induction ob) auto

lemma map_of_obj_put: "\<not> is_index_key k \<Longrightarrow> map_of (obj_put ob k v) = (map_of ob)(k \<mapsto> v)"
proof (cases "k \<in> set (obj_keys ob)")
  case True
  then show ?thesis by (auto simp: obj_put_def map_of_replace fun_eq_iff)
next
  case False
  assume "\<not> is_index_key k"
  moreover have "map_of (ob @ [(k, v)]) x = ((map_of ob)(k \<mapsto> v)) x" for x
    using False map_of_eq_None_iff [of ob k] by (cases "map_of ob x") (auto simp add: map_of_snoc simp del: map_of_append)
  ultimately show ?thesis using False by (auto simp: obj_put_def fun_eq_iff)
qed


lemma obj_put_keys_set: "set (obj_keys (obj_put ob k v)) = insert k (set (obj_keys ob))"
proof -
  have "set (obj_keys (put_index ob k v)) = insert k (set (obj_keys ob))"
    by (induction ob k v rule: put_index.induct) auto
  then show ?thesis by (auto simp: obj_put_get)
qed

lemma obj_put_distinct: "distinct (obj_keys ob) \<Longrightarrow> \<not> is_index_key k \<Longrightarrow> distinct (obj_keys (obj_put ob k v))"
  by (auto simp: obj_put_get)

definition read_cursors_inv :: "cursor_error + read_cursors \<Rightarrow> bool" where
  "read_cursors_inv r = (case r of Inl _ \<Rightarrow> False | Inr cs \<Rightarrow> read_cursors_ok cs)"

lemma advance_read_cursors_ok:
  assumes "read_cursors_ok cs" "is_mailbox_key k" "0 < t" "t \<le> max_safe"
  shows "\<exists>cs'. advanceInboxReadCursor cs k t = Inr cs' \<and> read_cursors_ok cs'
    \<and> (\<forall>x. read_cursor_at cs' x = (if x = k then max (read_cursor_at cs x) t else read_cursor_at cs x))"
proof -
  have k: "\<not> is_index_key k" by (rule mailbox_key_not_index [OF assms(2)])
  let ?m = "max (read_cursor_at cs k) t"
  let ?cs = "obj_put cs k ?m"
  have "advanceInboxReadCursor cs k t = Inr ?cs"
    using assms by (simp add: advanceInboxReadCursor_def isPositiveSafeInteger_iff)
  moreover have d: "distinct (map fst ?cs)"
    using assms(1) k by (auto simp: read_cursors_ok_def intro: obj_put_distinct)
  have at: "0 \<le> read_cursor_at cs k \<and> read_cursor_at cs k \<le> max_safe"
  proof (cases "map_of cs k")
    case None
    then show ?thesis by (simp add: read_cursor_at_def max_safe_def)
  next
    case (Some i)
    then have "(k, i) \<in> set cs" by (rule map_of_SomeD)
    with assms(1) have "0 \<le> i \<and> i \<le> max_safe" by (auto simp: read_cursors_ok_def)
    with Some show ?thesis by (simp add: read_cursor_at_def)
  qed
  have "is_mailbox_key x \<and> 0 \<le> i \<and> i \<le> max_safe" if "(x, i) \<in> set ?cs" for x i
  proof -
    have i: "map_of ?cs x = Some i" using d that by (rule map_of_is_SomeI)
    show ?thesis
    proof (cases "x = k")
      case True
      with i k have "i = ?m" by (simp add: map_of_obj_put)
      with True at assms(2,3,4) show ?thesis by (simp add: le_max_iff_disj)
    next
      case False
      with i k have "(x, i) \<in> set cs" by (simp add: map_of_obj_put map_of_SomeD)
      with assms(1) show ?thesis by (auto simp: read_cursors_ok_def)
    qed
  qed
  then have "read_cursors_ok ?cs" using d by (auto simp: read_cursors_ok_def)
  moreover have "\<forall>x. read_cursor_at ?cs x = (if x = k then max (read_cursor_at cs x) t else read_cursor_at cs x)"
    using k by (simp add: read_cursor_at_def map_of_obj_put)
  ultimately show ?thesis by blast
qed

text \<open>The advance as a total function on stores: a failed advance stays failed.\<close>

definition read_advance :: "cursor_error + read_cursors \<Rightarrow> jstr \<Rightarrow> int \<Rightarrow> cursor_error + read_cursors" where
  "read_advance r k t = bindE r (\<lambda>cs. advanceInboxReadCursor cs k t)"

definition read_at :: "cursor_error + read_cursors \<Rightarrow> jstr \<Rightarrow> int" where
  "read_at r k = (case r of Inl _ \<Rightarrow> 0 | Inr cs \<Rightarrow> read_cursor_at cs k)"

interpretation reads: cursor_store read_at read_advance read_cursors_inv
    "\<lambda>k t. is_mailbox_key k \<and> 0 < t \<and> t \<le> max_safe"
proof
  fix s :: "cursor_error + read_cursors" and k x :: jstr and t :: int
  assume inv: "read_cursors_inv s" and ok: "is_mailbox_key k \<and> 0 < t \<and> t \<le> max_safe"
  then obtain cs where cs: "s = Inr cs" "read_cursors_ok cs"
    by (auto simp: read_cursors_inv_def split: sum.splits)
  from advance_read_cursors_ok [of cs k t] cs(2) ok
  obtain cs' where cs': "advanceInboxReadCursor cs k t = Inr cs'" "read_cursors_ok cs'"
    "\<And>x. read_cursor_at cs' x = (if x = k then max (read_cursor_at cs x) t else read_cursor_at cs x)"
    by blast
  show "read_cursors_inv (read_advance s k t)"
    using cs cs' by (simp add: read_advance_def read_cursors_inv_def)
  show "read_at (read_advance s k t) x = (if x = k then max (read_at s x) t else read_at s x)"
    using cs cs' by (simp add: read_advance_def read_at_def)
qed

end
