(* ===== verification/Snapshot_Scan.thy ===== *)
theory Snapshot_Scan
  imports Snapshot_Integrity
begin

text \<open>
  What the checks of \<open>Snapshot_Integrity\<close> accept.  \<open>scan\<close> is an automaton over typed messages: its
  state holds the tool call ids used so far and those whose results are due next.  The main lemma
  \<open>integrity_iff\<close> shows that the checks accept a typed snapshot exactly when the automaton runs
  through its messages and ends with no result due.
\<close>

section \<open>Legal histories\<close>

fun block_ok :: "content_block \<Rightarrow> bool" where
  "block_ok (TextBlock _) \<longleftrightarrow> True"
| "block_ok (ImageBlock _ _) \<longleftrightarrow> False"
| "block_ok (ImageRef i mt _ _ _) \<longleftrightarrow> positive_decimal i \<and> \<not> blank mt"

fun tool_content_ok :: "tool_content \<Rightarrow> bool" where
  "tool_content_ok (TextContent s) \<longleftrightarrow> tool_text_ok s"
| "tool_content_ok (BlockContent bs) \<longleftrightarrow> list_all block_ok bs"

definition call_ok :: "tool_call \<Rightarrow> bool" where
  "call_ok c \<longleftrightarrow> \<not> blank (tc_id c) \<and> \<not> blank (tc_name c)"

type_synonym scan_state = "jstr list \<times> jstr list"

fun scan_step :: "scan_state \<Rightarrow> agent_message \<Rightarrow> scan_state option" where
  "scan_step (seen, pending) (UserMsg _) =
     (if pending = [] then Some (seen, []) else None)"
| "scan_step (seen, pending) (AssistantMsg _ calls _) =
     (if pending = [] \<and> list_all call_ok calls \<and> distinct (map tc_id calls)
         \<and> set (map tc_id calls) \<inter> set seen = {}
      then Some (rev (map tc_id calls) @ seen, map tc_id calls) else None)"
| "scan_step (seen, pending) (ToolMsg i content) =
     (if pending \<noteq> [] \<and> hd pending = i \<and> tool_content_ok content
      then Some (seen, tl pending) else None)"

fun scan :: "scan_state \<Rightarrow> agent_message list \<Rightarrow> scan_state option" where
  "scan s [] = Some s"
| "scan s (m # ms) = (case scan_step s m of None \<Rightarrow> None | Some s' \<Rightarrow> scan s' ms)"

definition legal_history :: "agent_message list \<Rightarrow> bool" where
  "legal_history ms \<longleftrightarrow> (case scan ([], []) ms of Some (_, []) \<Rightarrow> True | _ \<Rightarrow> False)"

lemma scan_append: "scan s (ms @ ns) = (case scan s ms of None \<Rightarrow> None | Some s' \<Rightarrow> scan s' ns)"
  by (induction ms arbitrary: s) (auto split: option.splits)

section \<open>Typed messages\<close>

lemma as_record_simps [simp]: "as_record (JObj ps) = Some ps"
  by (simp add: as_record_def)

lemma push_simps [simp]:
  "push [] st = st"
  "v_errors (push es st) = v_errors st @ es"
  "v_expected (push es st) = v_expected st"
  "v_consumed (push es st) = v_consumed st"
  by (simp_all add: push_def)

lemma err_if_simps [simp]: "err_if False e = []" "err_if True e = [e]"
  by (simp_all add: err_if_def)

lemma nth_jv_map: "nth_jv (map f ms) i = (if i < length ms then f (ms ! i) else JUndef)"
  by (simp add: nth_jv_def)

lemma message_record:
  "as_record (message_jv m) \<noteq> None"
  by (cases m) auto

lemma validateBlock_jv: "validateBlock i bi (content_block_jv b) = [] \<longleftrightarrow> block_ok b"
  by (cases b) (auto simp: validateBlock_def is_str_def non_blank_def obj_get_append)

lemma validateBlocks_jv: "validateBlocks i bi (map content_block_jv bs) = [] \<longleftrightarrow> list_all block_ok bs"
  by (induction bs arbitrary: bi) (auto simp: validateBlock_jv)

lemma validateToolContent_jv: "validateToolContent (tool_content_jv c) i = [] \<longleftrightarrow> tool_content_ok c"
  by (cases c) (auto simp: validateToolContent_def validateBlocks_jv as_array_def)

definition synced :: "vstate \<Rightarrow> bool" where
  "synced st \<longleftrightarrow> v_consumed st = v_expected st"

definition advance :: "jstr list \<Rightarrow> vstate \<Rightarrow> vstate" where
  "advance ids st = st\<lparr>v_expected := rev ids @ v_expected st, v_consumed := rev ids @ v_consumed st\<rparr>"

fun calls_ok :: "jstr list \<Rightarrow> tool_call list \<Rightarrow> agent_message list \<Rightarrow> bool" where
  "calls_ok seen [] ms \<longleftrightarrow> True"
| "calls_ok seen (c # cs) (ToolMsg i content # ms) \<longleftrightarrow> call_ok c \<and> tc_id c \<notin> set seen
     \<and> i = tc_id c \<and> tool_content_ok content \<and> calls_ok (tc_id c # seen) cs ms"
| "calls_ok seen (c # cs) _ \<longleftrightarrow> False"

lemma validateCall_errors: "v_errors (validateCall M i k c st) = [] \<Longrightarrow> v_errors st = []"
  by (auto simp: validateCall_def Let_def split: option.splits jv.splits if_splits)

lemma validateCalls_errors: "v_errors (validateCalls M i k cs st) = [] \<Longrightarrow> v_errors st = []"
  by (induction cs arbitrary: k st) (auto dest: validateCall_errors)

lemma tool_message_result:
  "as_record (nth_jv (map message_jv ms) i) = Some r \<and> obj_get r (js ''role'') = JStr (js ''tool'')
     \<and> obj_get r (js ''toolCallId'') = JStr j \<Longrightarrow>
   \<exists>c. i < length ms \<and> ms ! i = ToolMsg j c \<and> obj_get r (js ''content'') = tool_content_jv c"
  apply (simp add: nth_jv_map split: if_splits)
   apply (cases "ms ! i")
     apply (auto simp: obj_get_append as_record_def)
  done

lemma nth_drop_Cons: "i < length ms \<Longrightarrow> drop i ms = ms ! i # drop (Suc i) ms"
  by (simp add: Cons_nth_drop_Suc)

lemma tool_call_record [simp]:
  "as_record (tool_call_jv c) = Some [(js ''id'', JStr (tc_id c)), (js ''name'', JStr (tc_name c)), (js ''args'', JObj (tc_args c))]"
  by (simp add: tool_call_jv_def)

lemma calls_ok_single:
  "calls_ok seen [c] ms \<longleftrightarrow> call_ok c \<and> tc_id c \<notin> set seen
     \<and> (\<exists>content ms'. ms = ToolMsg (tc_id c) content # ms' \<and> tool_content_ok content)"
  by (cases "(seen, [c], ms)" rule: calls_ok.cases) auto

lemma result_message:
  assumes "as_record (nth_jv (map message_jv ms) i) = Some r"
    "obj_get r (js ''role'') = JStr (js ''tool'')" "obj_get r (js ''toolCallId'') = JStr j"
  shows "\<exists>c. drop i ms = ToolMsg j c # drop (Suc i) ms \<and> obj_get r (js ''content'') = tool_content_jv c"
  using tool_message_result [of ms i r j] assms by (auto simp: nth_drop_Cons)

lemma validateCall_jv:
  assumes "synced st"
  shows "v_errors (validateCall (map message_jv ms) i k (tool_call_jv c) st) = [] \<longleftrightarrow>
     v_errors st = [] \<and> calls_ok (v_expected st) [c] (drop (Suc (i + k)) ms)"
proof (cases "\<exists>content ms'. drop (Suc (i + k)) ms = ToolMsg (tc_id c) content # ms'")
  case True
  then obtain content ms' where d: "drop (Suc (i + k)) ms = ToolMsg (tc_id c) content # ms'" by blast
  then have "Suc (i + k) < length ms" "ms ! Suc (i + k) = ToolMsg (tc_id c) content"
    by (metis drop_all list.distinct(1) not_le) (metis d nth_via_drop)
  then have "nth_jv (map message_jv ms) (Suc (i + k)) = message_jv (ToolMsg (tc_id c) content)"
    by (simp add: nth_jv_map)
  with d assms show ?thesis
    by (auto simp: validateCall_def Let_def validateToolContent_jv calls_ok_single call_ok_def synced_def non_blank_def)
next
  case False
  then show ?thesis
    by (auto simp: validateCall_def Let_def calls_ok_single dest: result_message split: option.splits)
qed

lemma validateCall_advance:
  assumes "v_errors (validateCall (map message_jv ms) i k (tool_call_jv c) st) = []"
  shows "validateCall (map message_jv ms) i k (tool_call_jv c) st = advance [tc_id c] st"
  using assms by (auto simp: validateCall_def Let_def advance_def split: if_splits)

lemma advance_simps [simp]:
  "synced st \<Longrightarrow> synced (advance ids st)"
  "v_errors (advance ids st) = v_errors st"
  "v_expected (advance ids st) = rev ids @ v_expected st"
  "advance ids (advance ids' st) = advance (ids' @ ids) st"
  "advance [] st = st"
  by (simp_all add: advance_def synced_def)

lemma calls_ok_Cons: "calls_ok seen (c # cs) ms \<longleftrightarrow> calls_ok seen [c] ms \<and> calls_ok (tc_id c # seen) cs (tl ms)"
  by (cases "(seen, c # cs, ms)" rule: calls_ok.cases) auto

lemma validateCalls_jv:
  assumes "synced st"
  shows "v_errors (validateCalls (map message_jv ms) i k (map tool_call_jv cs) st) = [] \<longleftrightarrow>
     v_errors st = [] \<and> calls_ok (v_expected st) cs (drop (Suc (i + k)) ms)"
  using assms
proof (induction cs arbitrary: k st)
  case (Cons c cs)
  let ?st = "validateCall (map message_jv ms) i k (tool_call_jv c) st"
  show ?case
  proof (cases "v_errors ?st = []")
    case True
    then have st: "?st = advance [tc_id c] st" by (rule validateCall_advance)
    have ok: "v_errors st = []" "calls_ok (v_expected st) [c] (drop (Suc (i + k)) ms)"
      using True validateCall_jv [OF Cons.prems, of ms i k c] by blast+
    have "v_errors (validateCalls (map message_jv ms) i (Suc k) (map tool_call_jv cs) ?st) = [] \<longleftrightarrow>
        calls_ok (tc_id c # v_expected st) cs (tl (drop (Suc (i + k)) ms))"
      using Cons.IH [of ?st "Suc k"] Cons.prems ok by (simp add: st tl_drop drop_Suc)
    with ok show ?thesis by (simp add: calls_ok_Cons [of "v_expected st" c cs])
  next
    case False
    then have "v_errors (validateCalls (map message_jv ms) i k (map tool_call_jv (c # cs)) st) \<noteq> []"
      using validateCalls_errors by auto
    with False validateCall_jv [OF Cons.prems, of ms i k c] show ?thesis
      by (auto simp: calls_ok_Cons [of "v_expected st" c cs])
  qed
qed simp

lemma validateCalls_advance:
  "v_errors (validateCalls (map message_jv ms) i k (map tool_call_jv cs) st) = [] \<Longrightarrow>
   validateCalls (map message_jv ms) i k (map tool_call_jv cs) st = advance (map tc_id cs) st"
proof (induction cs arbitrary: k st)
  case (Cons c cs)
  then have "v_errors (validateCall (map message_jv ms) i k (tool_call_jv c) st) = []"
    by (auto dest: validateCalls_errors)
  from validateCall_advance [OF this] Cons.prems Cons.IH [of "Suc k" "advance [tc_id c] st"]
  show ?case by simp
qed simp

text \<open>The calls of an assistant message and the results after it, on the automaton.\<close>

lemma calls_ok_scan:
  "calls_ok seen cs ms \<longleftrightarrow> list_all call_ok cs \<and> distinct (map tc_id cs)
     \<and> set (map tc_id cs) \<inter> set seen = {} \<and> length cs \<le> length ms
     \<and> scan (x, map tc_id cs) (take (length cs) ms) = Some (x, [])"
proof (induction cs arbitrary: seen ms)
  case (Cons c cs)
  show ?case
  proof (cases "\<exists>i content ms'. ms = ToolMsg i content # ms'")
    case True
    then obtain i content ms' where "ms = ToolMsg i content # ms'" by blast
    with Cons.IH [of "tc_id c # seen" ms'] show ?thesis by auto
  next
    case False
    then have "\<not> calls_ok seen (c # cs) ms"
      by (cases "(seen, c # cs, ms)" rule: calls_ok.cases) auto
    moreover have "scan (x, map tc_id (c # cs)) (take (length (c # cs)) ms) \<noteq> Some (x, [])"
      using False by (cases ms; cases "hd ms") auto
    ultimately show ?thesis by blast
  qed
qed simp


lemma scan_pending:
  "scan (x, p) ms = Some (s, []) \<longleftrightarrow>
     length p \<le> length ms \<and> scan (x, p) (take (length p) ms) = Some (x, [])
     \<and> scan (x, []) (drop (length p) ms) = Some (s, [])"
proof (induction p arbitrary: ms)
  case (Cons i p)
  show ?case
  proof (cases ms)
    case (Cons m ms')
    with Cons.IH [of ms'] show ?thesis by (cases m) auto
  qed simp
qed simp

lemma validateMessages_errors:
  "v_errors (validateMessages M i st) = [] \<Longrightarrow> v_errors st = []"
proof (induction M i st rule: validateMessages.induct)
  case (1 M i st)
  have asst: "v_errors (fst (validateAssistant M i m st)) = [] \<Longrightarrow> v_errors st = []" for m
    by (auto simp: validateAssistant_def as_array_def Let_def split: jv.splits if_splits dest: validateCalls_errors)
  have orph: "v_errors (validateOrphan i m st) = [] \<Longrightarrow> v_errors st = []" for m
    by (auto simp: validateOrphan_def split: jv.splits if_splits)
  show ?case
  proof (cases "i < length M")
    case True
    show ?thesis
    proof (cases "as_record (M ! i)")
      case None
      with True 1 show ?thesis by (simp add: validateMessages.simps [of M i st])
    next
      case (Some m)
      obtain st1 n where va: "validateAssistant M i m st = (st1, n)" by (cases "validateAssistant M i m st")
      consider (u) "obj_get m (js ''role'') = JStr (js ''user'')" | (a) "obj_get m (js ''role'') = JStr (js ''assistant'')"
        | (t) "obj_get m (js ''role'') = JStr (js ''tool'')"
        | (n) "obj_get m (js ''role'') \<notin> {JStr (js ''user''), JStr (js ''assistant''), JStr (js ''tool'')}" by blast
      then show ?thesis
      proof cases
        case u
        with True Some have "validateMessages M i st = validateMessages M (Suc i)
            (push (err_if (\<not> is_str (obj_get m (js ''content''))) (ContentNotString i)) st)"
          by (simp add: validateMessages.simps [of M i st])
        with 1(2) [OF True Some u] 1(6) show ?thesis by simp
      next
        case a
        with True Some va have "validateMessages M i st = validateMessages M (Suc (i + n)) st1"
          by (simp add: validateMessages.simps [of M i st])
        with 1(3) [OF True Some _ a va [symmetric]] 1(6) a asst [of m] va show ?thesis by simp
      next
        case t
        with True Some have "validateMessages M i st = validateMessages M (Suc i) (validateOrphan i m st)"
          by (simp add: validateMessages.simps [of M i st])
        with 1(4) [OF True Some _ _ t] 1(6) t orph [of m] show ?thesis by simp
      next
        case n
        with True Some have "validateMessages M i st = validateMessages M (Suc i) (push [RoleUnknown i] st)"
          by (simp add: validateMessages.simps [of M i st])
        with 1(5) [OF True Some] 1(6) n show ?thesis by simp
      qed
    qed
  qed (use 1 in \<open>simp add: validateMessages.simps [of M i st]\<close>)
qed

lemma validateMessages_jv:
  assumes "synced st"
  shows "v_errors (validateMessages (map message_jv ms) i st) = [] \<longleftrightarrow>
    v_errors st = [] \<and> (\<exists>s. scan (v_expected st, []) (drop i ms) = Some (s, []))"
  using assms
proof (induction "length ms - i" arbitrary: i st rule: less_induct)
  case less
  show ?case
  proof (cases "i < length ms")
    case False
    then show ?thesis by (simp add: validateMessages.simps)
  next
    case True
    then have d: "drop i ms = ms ! i # drop (Suc i) ms" by (rule nth_drop_Cons)
    show ?thesis
    proof (cases "ms ! i")
      case (UserMsg c)
      with True d less(1) [of "Suc i" st] less(2) show ?thesis
        by (simp add: validateMessages.simps [of _ i st] is_str_def)
    next
      case (ToolMsg j c)
      have "v_errors (validateOrphan i ps st) \<noteq> []" if "v_errors st = []" for ps
        using that less(2) by (auto simp: validateOrphan_def synced_def split: jv.splits)
      then have "v_errors (validateOrphan i ps st) \<noteq> []" for ps
        by (auto simp: validateOrphan_def split: jv.splits)
      with True d ToolMsg show ?thesis
        by (auto simp: validateMessages.simps [of _ i st] dest!: validateMessages_errors)
    next
      case (AssistantMsg c cs nb)
      let ?M = "map message_jv ms"
      let ?stw = "if c \<noteq> [] then st\<lparr>v_warnings := v_warnings st @ [i]\<rparr> else st"
      let ?st1 = "validateCalls ?M i 0 (map tool_call_jv cs) ?stw"
      have step: "validateMessages ?M i st = validateMessages ?M (Suc (i + length cs)) ?st1"
        using True AssistantMsg
        by (simp add: validateMessages.simps [of _ i st] validateAssistant_def as_array_def obj_get_append)
      have w: "synced ?stw" "v_errors ?stw = v_errors st" "v_expected ?stw = v_expected st"
        using less(2) by (auto simp: synced_def)
      show ?thesis
      proof (cases "v_errors ?st1 = []")
        case True
        have st1: "?st1 = advance (map tc_id cs) ?stw" by (rule validateCalls_advance [OF True])
        have ok: "v_errors st = []" "calls_ok (v_expected st) cs (drop (Suc i) ms)"
          using True validateCalls_jv [OF w(1), of ms i 0 cs] w by auto
        let ?E = "rev (map tc_id cs) @ v_expected st"
        have "v_errors (validateMessages ?M (Suc (i + length cs)) ?st1) = [] \<longleftrightarrow>
            (\<exists>s. scan (?E, []) (drop (Suc (i + length cs)) ms) = Some (s, []))"
          using less(1) [of "Suc (i + length cs)" ?st1] \<open>i < length ms\<close> True w
          by (simp add: st1)
        moreover have "scan (v_expected st, []) (drop i ms) = scan (?E, map tc_id cs) (drop (Suc i) ms)"
          using ok(2) d AssistantMsg calls_ok_scan [of "v_expected st" cs "drop (Suc i) ms" ?E] by auto
        ultimately show ?thesis
          using ok step calls_ok_scan [of "v_expected st" cs "drop (Suc i) ms" ?E]
            scan_pending [of ?E "map tc_id cs" "drop (Suc i) ms"]
          by (simp add: add.commute)
      next
        case False
        then have "\<not> (v_errors st = [] \<and> calls_ok (v_expected st) cs (drop (Suc i) ms))"
          using validateCalls_jv [OF w(1), of ms i 0 cs] w by auto
        then have "v_errors st = [] \<longrightarrow> \<not> (\<exists>s. scan (v_expected st, []) (drop i ms) = Some (s, []))"
          using d AssistantMsg scan_pending [of "rev (map tc_id cs) @ v_expected st" "map tc_id cs" "drop (Suc i) ms"]
            calls_ok_scan [of "v_expected st" cs "drop (Suc i) ms" "rev (map tc_id cs) @ v_expected st"] by auto
        moreover have "v_errors (validateMessages ?M i st) \<noteq> []"
          using False step by (auto dest: validateMessages_errors)
        ultimately show ?thesis using w(2) by blast
      qed
    qed
  qed
qed

lemma validateMessages_legal:
  "v_errors (validateMessages (map message_jv ms) 0 init_vstate) = [] \<longleftrightarrow> legal_history ms"
  using validateMessages_jv [of init_vstate ms 0]
  by (auto simp: init_vstate_def synced_def legal_history_def split: option.splits prod.splits list.splits)


section \<open>The whole check on typed snapshots\<close>

definition focus_ok :: "conversation_ref option \<Rightarrow> bool" where
  "focus_ok f = (case f of None \<Rightarrow> True | Some c \<Rightarrow> \<not> blank (accountId c) \<and> \<not> blank (externalId c))"

definition cursors_ok :: "jv \<Rightarrow> bool" where
  "cursors_ok v = (case as_record v of None \<Rightarrow> False
     | Some ps \<Rightarrow> \<forall>(k, x) \<in> set ps. is_mailbox_key k \<and> isNonNegativeSafeInteger x)"

lemma platform_value: "JStr (platform_str p) = JStr (js ''qq'') \<or> JStr (platform_str p) = JStr (js ''feishu'')"
  by (cases p) (auto simp: platform_str_def)

lemma kind_value: "JStr (kind_str p) = JStr (js ''group'') \<or> JStr (kind_str p) = JStr (js ''private'')"
  by (cases p) (auto simp: kind_str_def)

lemma validateConversationFocus_jv: "validateConversationFocus (focus_jv f) = [] \<longleftrightarrow> focus_ok f"
proof (cases f)
  case (Some c)
  have "exact_keys [(js ''platform'', x), (js ''accountId'', y), (js ''kind'', z), (js ''externalId'', w)] focus_keys" for x y z w
    by (simp add: exact_keys_def focus_keys_def)
  with Some platform_value [of "platform c"] kind_value [of "ckind c"] show ?thesis
    by (auto simp: validateConversationFocus_def focus_jv_def null_or_def focus_ok_def non_blank_def)
qed (simp add: validateConversationFocus_def focus_jv_def null_or_def focus_ok_def)

lemma cursors_ok_iff:
  "(case normalizeCursorEntries v of (e, ps) \<Rightarrow> e = [] \<and> validateMailboxCursors ps = []) \<longleftrightarrow> cursors_ok v"
  by (auto simp: normalizeCursorEntries_def truthy_object_def cursors_ok_def validateMailboxCursors_def
      split: option.splits)

text \<open>The check accepts a typed snapshot exactly when its history is legal, its schema current,
  its focus and the cursors well formed.\<close>

lemma integrity_iff:
  "ir_ok (validateBotSnapshotIntegrity (snapshot_jv s) cursors continuity) \<longleftrightarrow>
     ps_schemaVersion s = snapshot_schema_version \<and> \<not> stringify_throws (snapshot_jv s)
     \<and> focus_ok (ps_focus s) \<and> legal_history (ps_messages s)
     \<and> cursors_ok cursors \<and> validateMailboxContinuity continuity = []"
proof -
  obtain e0 cs where c: "normalizeCursorEntries cursors = (e0, cs)" by (cases "normalizeCursorEntries cursors")
  have msgs: "obj_get [(js ''schemaVersion'', a), (js ''messages'', b), (js ''conversationFocus'', d)] (js ''messages'') = b" for a b d
    by simp
  show ?thesis
    using cursors_ok_iff [of cursors] c
    by (auto simp: validateBotSnapshotIntegrity_def snapshot_jv_def Let_def as_array_def
        validateConversationFocus_jv validateMessages_legal)
qed

end
