(* ===== verification/Ledger_Projection.thy ===== *)
theory Ledger_Projection
  imports Mailbox_Attention Inbox_Read_Cursors Snapshot_Scan
begin

text \<open>
  \<open>src/agent/agent-ledger-projection.ts\<close>: the permanent ledger is read back as untyped rows, every
  row is parsed and checked, and the messages the model sees are projected from the rows and the
  latest compaction.  Every check of the source is a branch with its own error, in the order the
  source makes them; an error names the place by a path of keys and indices.
\<close>

section \<open>Errors\<close>

datatype path_step = Key jstr | Idx nat

type_synonym path = "path_step list"

datatype parse_reason =
    MustBeObject | IsRequired | NotSupported
  | MustBePositiveBigint | MustBePositiveBigintOrNull | MustBeValidDate | MustBeValidDateOrNull
  | UnknownEntryType jv | UnsupportedSchemaVersion jv | UnsupportedValue jv
  | MustBeNonEmptyString | MustBeString | MustBeArray | MustBeBoolean | MustBeStringOrBlocks
  | MustBeNonNegativeInteger | MustBePositive | MustBePositiveDecimal | MustBePositiveDecimalOrNull
  | MustBeFinite | NotJson | JsonInvalid | BadPlatform | BadKind | BadMailboxKey
  | BadInboxCursors cursor_error

datatype ledger_error =
    ParseError path parse_reason
  | HeadMismatch "int option" "int option"
  | IdsNotIncreasing nat
  | CompactionChainBroken int "jstr option"
  | BoundaryMissing int int
  | BoundaryNotMessage int
  | BoundaryIsToolResult int
  | IntegrityFailed string "integrity_error list"
  | RenderFailed mailbox_error

abbreviation fail :: "path \<Rightarrow> parse_reason \<Rightarrow> ledger_error + 'a" where
  "fail p r \<equiv> Inl (ParseError p r)"

definition require :: "bool \<Rightarrow> path \<Rightarrow> parse_reason \<Rightarrow> ledger_error + unit" where
  "require b p r = (if b then Inr () else fail p r)"

section \<open>Generic checks\<close>

text \<open>\<open>isRecord\<close> of this file asks for a plain object, so a \<open>Date\<close> is none.\<close>

definition requireRecord :: "jv \<Rightarrow> path \<Rightarrow> ledger_error + jobj" where
  "requireRecord v p = (case v of JObj ps \<Rightarrow> Inr ps | _ \<Rightarrow> fail p MustBeObject)"

fun require_keys :: "jobj \<Rightarrow> path \<Rightarrow> jstr list \<Rightarrow> ledger_error + unit" where
  "require_keys ps p [] = Inr ()"
| "require_keys ps p (k # ks) = (if obj_has ps k then require_keys ps p ks else fail (p @ [Key k]) IsRequired)"

fun allow_keys :: "jstr list \<Rightarrow> path \<Rightarrow> jstr list \<Rightarrow> ledger_error + unit" where
  "allow_keys allowed p [] = Inr ()"
| "allow_keys allowed p (k # ks) =
     (if k \<in> set allowed then allow_keys allowed p ks else fail (p @ [Key k]) NotSupported)"

definition requireExactKeys :: "jobj \<Rightarrow> jstr list \<Rightarrow> jstr list \<Rightarrow> path \<Rightarrow> ledger_error + unit" where
  "requireExactKeys ps required optional p =
     bindE (require_keys ps p required) (\<lambda>_. allow_keys (required @ optional) p (obj_keys ps))"

definition requireNonNegativeSafeInteger :: "jv \<Rightarrow> path \<Rightarrow> ledger_error + int" where
  "requireNonNegativeSafeInteger v p =
     bindE (require (isNonNegativeSafeInteger v) p MustBeNonNegativeInteger) (\<lambda>_. Inr (num_of v))"

definition requirePositiveSafeInteger :: "jv \<Rightarrow> path \<Rightarrow> ledger_error + int" where
  "requirePositiveSafeInteger v p =
     bindE (requireNonNegativeSafeInteger v p) (\<lambda>i. bindE (require (i \<noteq> 0) p MustBePositive) (\<lambda>_. Inr i))"

definition requireNonEmptyString :: "jv \<Rightarrow> path \<Rightarrow> ledger_error + jstr" where
  "requireNonEmptyString v p =
     bindE (require (non_blank v) p MustBeNonEmptyString) (\<lambda>_. Inr (str_of v))"

definition requireString :: "jv \<Rightarrow> path \<Rightarrow> ledger_error + jstr" where
  "requireString v p = bindE (require (is_str v) p MustBeString) (\<lambda>_. Inr (str_of v))"

definition requireArray :: "jv \<Rightarrow> path \<Rightarrow> ledger_error + jv list" where
  "requireArray v p = (case v of JArr vs \<Rightarrow> Inr vs | _ \<Rightarrow> fail p MustBeArray)"

definition parseNullableEntryId :: "jv \<Rightarrow> path \<Rightarrow> ledger_error + jstr option" where
  "parseNullableEntryId v p =
     (case v of
        JNull \<Rightarrow> Inr None
      | JStr s \<Rightarrow> if positive_decimal s then Inr (Some s) else fail p MustBePositiveDecimalOrNull
      | _ \<Rightarrow> fail p MustBePositiveDecimalOrNull)"

lemma mapE_cong [fundef_cong]:
  "xs = ys \<Longrightarrow> (\<And>x. x \<in> set ys \<Longrightarrow> f x = g x) \<Longrightarrow> mapE f xs = mapE g ys"
  by (induction xs arbitrary: ys) (auto simp: bindE_def)

lemma mapE_idx_cong [fundef_cong]:
  "i = j \<Longrightarrow> xs = ys \<Longrightarrow> (\<And>k x. x \<in> set ys \<Longrightarrow> f k x = g k x) \<Longrightarrow> mapE_idx f i xs = mapE_idx g j ys"
  by (induction xs arbitrary: i j ys) (auto simp: bindE_def split: sum.splits)

lemma bindE_cong [fundef_cong]:
  "m = m' \<Longrightarrow> (\<And>x. m' = Inr x \<Longrightarrow> f x = g x) \<Longrightarrow> bindE m f = bindE m' g"
  by (cases m') auto

text \<open>\<open>cloneJsonValue\<close> and \<open>cloneJsonRecord\<close>: properties are visited in the order of their
  sorted keys and assigned to an empty object.\<close>

function cloneJsonValue :: "jv \<Rightarrow> path \<Rightarrow> ledger_error + jv" where
  "cloneJsonValue v p =
     (case v of
        JNull \<Rightarrow> Inr v
      | JStr _ \<Rightarrow> Inr v
      | JBool _ \<Rightarrow> Inr v
      | JNum NNaN \<Rightarrow> fail p MustBeFinite
      | JNum (NInf _) \<Rightarrow> fail p MustBeFinite
      | JNum _ \<Rightarrow> Inr v
      | JArr vs \<Rightarrow> bindE (mapE_idx (\<lambda>i x. cloneJsonValue x (p @ [Idx i])) 0 vs) (\<lambda>ws. Inr (JArr ws))
      | JObj ps \<Rightarrow>
          bindE (mapE (\<lambda>q. bindE (cloneJsonValue (snd q) (p @ [Key (fst q)])) (\<lambda>w. Inr (fst q, w))) (sort_key fst ps))
            (\<lambda>qs. Inr (JObj (obj_of [] qs)))
      | _ \<Rightarrow> fail p NotJson)"
  by pat_completeness auto
termination
proof (relation "measure (\<lambda>(v, p). size v)", goal_cases)
  case (2 v p vs i x)
  then show ?case by (auto dest!: size_list_estimation' [of _ _ _ size, OF _ order_refl])
next
  case (3 v p ps q)
  then have "q \<in> set ps" by simp
  then have "size_prod (\<lambda>_. 0) size q \<le> size_list (size_prod (\<lambda>_. 0) size) ps"
    by (rule size_list_estimation') simp
  with 3 show ?case by (cases q) simp
qed simp

declare cloneJsonValue.simps [simp del]

definition cloneJsonObject :: "jv \<Rightarrow> path \<Rightarrow> ledger_error + jobj" where
  "cloneJsonObject v p =
     bindE (requireRecord v p) (\<lambda>ps.
     bindE (cloneJsonValue (JObj ps) p) (\<lambda>w. Inr (case w of JObj qs \<Rightarrow> qs | _ \<Rightarrow> [])))"

section \<open>Messages\<close>

definition parse_call :: "path \<Rightarrow> nat \<Rightarrow> jv \<Rightarrow> ledger_error + tool_call" where
  "parse_call p i v =
     (let cp = p @ [Key (js ''toolCalls''), Idx i] in
      bindE (requireRecord v cp) (\<lambda>r.
      bindE (requireExactKeys r [js ''id'', js ''name'', js ''args''] [] cp) (\<lambda>_.
      bindE (requireNonEmptyString (obj_get r (js ''id'')) (cp @ [Key (js ''id'')])) (\<lambda>ci.
      bindE (requireNonEmptyString (obj_get r (js ''name'')) (cp @ [Key (js ''name'')])) (\<lambda>cn.
      bindE (cloneJsonObject (obj_get r (js ''args'')) (cp @ [Key (js ''args'')])) (\<lambda>ca.
        Inr \<lparr>tc_id = ci, tc_name = cn, tc_args = ca\<rparr>))))))"

definition parse_native_block :: "path \<Rightarrow> nat \<Rightarrow> jv \<Rightarrow> ledger_error + jobj" where
  "parse_native_block p i v =
     (let bp = p @ [Key (js ''nativeBlocks''), Idx i] in
      bindE (cloneJsonObject v bp) (\<lambda>c.
      bindE (require (obj_get c (js ''type'') = JStr (js ''thinking'') \<or> obj_get c (js ''type'') = JStr (js ''redacted_thinking''))
              (bp @ [Key (js ''type'')]) (UnsupportedValue (obj_get c (js ''type'')))) (\<lambda>_. Inr c)))"

definition parse_optional :: "jv \<Rightarrow> (jv \<Rightarrow> ledger_error + 'a) \<Rightarrow> ledger_error + 'a option" where
  "parse_optional v f = (if v = JUndef then Inr None else bindE (f v) (\<lambda>x. Inr (Some x)))"

definition parse_block :: "path \<Rightarrow> nat \<Rightarrow> jv \<Rightarrow> ledger_error + content_block" where
  "parse_block p i v =
     (let bp = p @ [Idx i] in
      bindE (requireRecord v bp) (\<lambda>r.
      if obj_get r (js ''type'') = JStr (js ''text'') then
        bindE (requireExactKeys r [js ''type'', js ''text''] [] bp) (\<lambda>_.
        bindE (requireString (obj_get r (js ''text'')) (bp @ [Key (js ''text'')])) (\<lambda>t. Inr (TextBlock t)))
      else if obj_get r (js ''type'') = JStr (js ''image_ref'') then
        bindE (requireExactKeys r [js ''type'', js ''mediaId'', js ''mediaType'']
                 [js ''width'', js ''height'', js ''description''] bp) (\<lambda>_.
        bindE (require (case obj_get r (js ''mediaId'') of JStr s \<Rightarrow> positive_decimal s | _ \<Rightarrow> False)
                 (bp @ [Key (js ''mediaId'')]) MustBePositiveDecimal) (\<lambda>_.
        bindE (requireNonEmptyString (obj_get r (js ''mediaType'')) (bp @ [Key (js ''mediaType'')])) (\<lambda>mt.
        bindE (parse_optional (obj_get r (js ''width'')) (\<lambda>x. requirePositiveSafeInteger x (bp @ [Key (js ''width'')]))) (\<lambda>w.
        bindE (parse_optional (obj_get r (js ''height'')) (\<lambda>x. requirePositiveSafeInteger x (bp @ [Key (js ''height'')]))) (\<lambda>h.
        bindE (parse_optional (obj_get r (js ''description'')) (\<lambda>x. requireString x (bp @ [Key (js ''description'')]))) (\<lambda>d.
          Inr (ImageRef (str_of (obj_get r (js ''mediaId''))) mt w h d)))))))
      else fail (bp @ [Key (js ''type'')]) (UnsupportedValue (obj_get r (js ''type'')))))"

definition parseToolResultContent :: "jv \<Rightarrow> path \<Rightarrow> ledger_error + tool_content" where
  "parseToolResultContent v p =
     (case v of
        JStr s \<Rightarrow> if tool_text_ok s then Inr (TextContent s) else fail p JsonInvalid
      | JArr vs \<Rightarrow> bindE (mapE_idx (parse_block p) 0 vs) (\<lambda>bs. Inr (BlockContent bs))
      | _ \<Rightarrow> fail p MustBeStringOrBlocks)"

definition parseDurableAgentMessage :: "jv \<Rightarrow> path \<Rightarrow> ledger_error + agent_message" where
  "parseDurableAgentMessage v p =
     bindE (requireRecord v p) (\<lambda>m.
     if obj_get m (js ''role'') = JStr (js ''user'') then
       bindE (requireExactKeys m [js ''role'', js ''content''] [] p) (\<lambda>_.
       bindE (requireString (obj_get m (js ''content'')) (p @ [Key (js ''content'')])) (\<lambda>c. Inr (UserMsg c)))
     else if obj_get m (js ''role'') = JStr (js ''assistant'') then
       bindE (requireExactKeys m [js ''role'', js ''content'', js ''toolCalls''] [js ''nativeBlocks''] p) (\<lambda>_.
       bindE (requireString (obj_get m (js ''content'')) (p @ [Key (js ''content'')])) (\<lambda>c.
       bindE (requireArray (obj_get m (js ''toolCalls'')) (p @ [Key (js ''toolCalls'')])) (\<lambda>vs.
       bindE (mapE_idx (parse_call p) 0 vs) (\<lambda>calls.
       bindE (parse_optional (obj_get m (js ''nativeBlocks'')) (\<lambda>x.
                bindE (requireArray x (p @ [Key (js ''nativeBlocks'')])) (mapE_idx (parse_native_block p) 0))) (\<lambda>nb.
         Inr (AssistantMsg c calls nb))))))
     else if obj_get m (js ''role'') = JStr (js ''tool'') then
       bindE (requireExactKeys m [js ''role'', js ''toolCallId'', js ''content''] [] p) (\<lambda>_.
       bindE (requireNonEmptyString (obj_get m (js ''toolCallId'')) (p @ [Key (js ''toolCallId'')])) (\<lambda>i.
       bindE (parseToolResultContent (obj_get m (js ''content'')) (p @ [Key (js ''content'')])) (\<lambda>c.
         Inr (ToolMsg i c))))
     else fail (p @ [Key (js ''role'')]) (UnsupportedValue (obj_get m (js ''role''))))"

definition parseMessagePayload :: "jv \<Rightarrow> path \<Rightarrow> ledger_error + agent_message" where
  "parseMessagePayload v p =
     bindE (requireRecord v p) (\<lambda>r.
     bindE (requireExactKeys r [js ''schemaVersion'', js ''message''] [] p) (\<lambda>_.
     bindE (require (obj_get r (js ''schemaVersion'') = jint agent_ledger_schema_version) p
              (UnsupportedSchemaVersion (obj_get r (js ''schemaVersion'')))) (\<lambda>_.
       parseDurableAgentMessage (obj_get r (js ''message'')) (p @ [Key (js ''message'')]))))"

section \<open>Compactions\<close>

definition parse_attention_cursor :: "path \<Rightarrow> jobj \<Rightarrow> jstr \<Rightarrow> ledger_error + jstr \<times> attention_cursor" where
  "parse_attention_cursor p r mailbox =
     (let cp = p @ [Key mailbox] in
      bindE (require (is_mailbox_key mailbox) cp BadMailboxKey) (\<lambda>_.
      bindE (requireRecord (obj_get r mailbox) cp) (\<lambda>c.
      bindE (requireExactKeys c cursor_keys cursor_optional_keys cp) (\<lambda>_.
      bindE (requireNonNegativeSafeInteger (obj_get c (js ''disclosedThroughRowId''))
               (cp @ [Key (js ''disclosedThroughRowId'')])) (\<lambda>d.
      bindE (requireNonNegativeSafeInteger (obj_get c (js ''handledThroughRowId''))
               (cp @ [Key (js ''handledThroughRowId'')])) (\<lambda>h.
      bindE (parse_optional (obj_get c (js ''highPriorityThroughRowId''))
               (\<lambda>x. requireNonNegativeSafeInteger x (cp @ [Key (js ''highPriorityThroughRowId'')]))) (\<lambda>hp.
        Inr (mailbox, \<lparr>disclosed = d, handled = h, highPriority = hp\<rparr>))))))))"

definition parseMailboxAttentionState :: "jv \<Rightarrow> path \<Rightarrow> ledger_error + attention_state" where
  "parseMailboxAttentionState v p =
     bindE (requireRecord v p) (\<lambda>r. mapE (parse_attention_cursor p r) (sort (obj_keys r)))"

definition compaction_keys :: "jstr list" where
  "compaction_keys = [js ''schemaVersion'', js ''summary'', js ''firstKeptEntryId'', js ''tokensBefore'',
     js ''estimatedTokensAfter'', js ''reason'', js ''isSplitTurn'', js ''previousCompactionEntryId'',
     js ''mailboxAttentionState'']"

text \<open>The reason \<open>manual\<close> of old rows is read as \<open>threshold\<close>.\<close>

definition parse_reason :: "jv \<Rightarrow> path \<Rightarrow> ledger_error + compaction_reason" where
  "parse_reason v p =
     (if v = JStr (js ''threshold'') \<or> v = JStr (js ''manual'') then Inr Threshold
      else if v = JStr (js ''overflow'') then Inr Overflow
      else if v = JStr (js ''behavioral_reset'') then Inr BehavioralReset
      else fail p (UnsupportedValue v))"

definition requireBoolean :: "jv \<Rightarrow> path \<Rightarrow> ledger_error + bool" where
  "requireBoolean v p = (case v of JBool b \<Rightarrow> Inr b | _ \<Rightarrow> fail p MustBeBoolean)"

definition parseCompactionPayload :: "jv \<Rightarrow> path \<Rightarrow> ledger_error + compaction_payload" where
  "parseCompactionPayload v p =
     bindE (requireRecord v p) (\<lambda>r.
     let at = (\<lambda>k. p @ [Key (js k)]); get = (\<lambda>k. obj_get r (js k)) in
     bindE (requireExactKeys r compaction_keys [js ''manualFocus'', js ''restResumeState''] p) (\<lambda>_.
     bindE (require (get ''schemaVersion'' = jint agent_ledger_schema_version) p
              (UnsupportedSchemaVersion (get ''schemaVersion''))) (\<lambda>_.
     bindE (requireNonEmptyString (get ''summary'') (at ''summary'')) (\<lambda>s.
     bindE (parse_reason (get ''reason'') (at ''reason'')) (\<lambda>re.
     bindE (requireBoolean (get ''isSplitTurn'') (at ''isSplitTurn'')) (\<lambda>sp.
     bindE (parseNullableEntryId (get ''firstKeptEntryId'') (at ''firstKeptEntryId'')) (\<lambda>fk.
     bindE (requireNonNegativeSafeInteger (get ''tokensBefore'') (at ''tokensBefore'')) (\<lambda>tb.
     bindE (requireNonNegativeSafeInteger (get ''estimatedTokensAfter'') (at ''estimatedTokensAfter'')) (\<lambda>ta.
     bindE (parseNullableEntryId (get ''previousCompactionEntryId'') (at ''previousCompactionEntryId'')) (\<lambda>pr.
     bindE (parseMailboxAttentionState (get ''mailboxAttentionState'') (at ''mailboxAttentionState'')) (\<lambda>st.
       Inr \<lparr>summary = s, firstKeptEntryId = fk, tokensBefore = tb, estimatedTokensAfter = ta, creason = re,
            isSplitTurn = sp, previousCompactionEntryId = pr, mailboxAttentionState = st\<rparr>)))))))))))"

section \<open>Entries and the runtime state\<close>

definition parse_entry_id :: "jv \<Rightarrow> path \<Rightarrow> ledger_error + int" where
  "parse_entry_id v p =
     (case v of JBig i \<Rightarrow> if i \<le> 0 then fail p MustBePositiveBigint else Inr i | _ \<Rightarrow> fail p MustBePositiveBigint)"

definition parse_created_at :: "jv \<Rightarrow> path \<Rightarrow> ledger_error + int" where
  "parse_created_at v p = (case v of JDate (Some t) \<Rightarrow> Inr t | _ \<Rightarrow> fail p MustBeValidDate)"

definition parseAgentLedgerEntry :: "jv \<Rightarrow> nat \<Rightarrow> ledger_error + ledger_entry" where
  "parseAgentLedgerEntry v index =
     (let p = [Key (js ''entries''), Idx index] in
      bindE (requireRecord v p) (\<lambda>e.
      bindE (requireExactKeys e [js ''id'', js ''entryType'', js ''payload'', js ''createdAt''] [] p) (\<lambda>_.
      bindE (parse_entry_id (obj_get e (js ''id'')) (p @ [Key (js ''id'')])) (\<lambda>i.
      bindE (parse_created_at (obj_get e (js ''createdAt'')) (p @ [Key (js ''createdAt'')])) (\<lambda>t.
      if obj_get e (js ''entryType'') = JStr (js ''message'') then
        bindE (parseMessagePayload (obj_get e (js ''payload'')) (p @ [Key (js ''payload'')]))
          (\<lambda>m. Inr (MessageEntry i m t))
      else if obj_get e (js ''entryType'') = JStr (js ''compaction'') then
        bindE (parseCompactionPayload (obj_get e (js ''payload'')) (p @ [Key (js ''payload'')]))
          (\<lambda>c. Inr (CompactionEntry i c t))
      else fail p (UnknownEntryType (obj_get e (js ''entryType''))))))))"

definition parseConversationFocus :: "jv \<Rightarrow> path \<Rightarrow> ledger_error + conversation_ref option" where
  "parseConversationFocus v p =
     (if v = JNull then Inr None
      else bindE (requireRecord v p) (\<lambda>f.
        bindE (requireExactKeys f focus_keys [] p) (\<lambda>_.
        bindE (if obj_get f (js ''platform'') = JStr (js ''qq'') then Inr Qq
               else if obj_get f (js ''platform'') = JStr (js ''feishu'') then Inr Feishu
               else fail (p @ [Key (js ''platform'')]) BadPlatform) (\<lambda>pl.
        bindE (if obj_get f (js ''kind'') = JStr (js ''group'') then Inr GroupChat
               else if obj_get f (js ''kind'') = JStr (js ''private'') then Inr PrivateChat
               else fail (p @ [Key (js ''kind'')]) BadKind) (\<lambda>ki.
        bindE (requireNonEmptyString (obj_get f (js ''accountId'')) (p @ [Key (js ''accountId'')])) (\<lambda>ac.
        bindE (requireNonEmptyString (obj_get f (js ''externalId'')) (p @ [Key (js ''externalId'')])) (\<lambda>ex.
          Inr (Some \<lparr>platform = pl, accountId = ac, ckind = ki, externalId = ex\<rparr>))))))))"

definition runtime_keys :: "jstr list" where
  "runtime_keys = [js ''schemaVersion'', js ''mailboxCursors'', js ''inboxReadCursors'', js ''mailboxContinuity'',
     js ''conversationFocus'', js ''lastWakeAt'', js ''ledgerHeadEntryId'']"

definition parse_last_wake :: "jv \<Rightarrow> path \<Rightarrow> ledger_error + int option" where
  "parse_last_wake v p =
     (case v of JNull \<Rightarrow> Inr None | JDate (Some t) \<Rightarrow> Inr (Some t) | _ \<Rightarrow> fail p MustBeValidDateOrNull)"

definition parse_head :: "jv \<Rightarrow> path \<Rightarrow> ledger_error + int option" where
  "parse_head v p =
     (case v of
        JNull \<Rightarrow> Inr None
      | JBig i \<Rightarrow> if 0 < i then Inr (Some i) else fail p MustBePositiveBigintOrNull
      | _ \<Rightarrow> fail p MustBePositiveBigintOrNull)"

definition parse_inbox_cursors :: "jv \<Rightarrow> path \<Rightarrow> ledger_error + read_cursors" where
  "parse_inbox_cursors v p =
     (case parseInboxReadCursors v of Inl e \<Rightarrow> fail p (BadInboxCursors e) | Inr cs \<Rightarrow> Inr cs)"

definition parseAgentRuntimeState :: "jv \<Rightarrow> ledger_error + runtime_state" where
  "parseAgentRuntimeState v =
     (let p = [Key (js ''runtimeState'')]; at = (\<lambda>k. p @ [Key (js k)]) in
      bindE (requireRecord v p) (\<lambda>s.
      let get = (\<lambda>k. obj_get s (js k)) in
      bindE (requireExactKeys s runtime_keys [] p) (\<lambda>_.
      bindE (require (get ''schemaVersion'' = jint agent_runtime_state_schema_version) p
               (UnsupportedSchemaVersion (get ''schemaVersion''))) (\<lambda>_.
      bindE (parse_last_wake (get ''lastWakeAt'') (at ''lastWakeAt'')) (\<lambda>wake.
      bindE (parse_head (get ''ledgerHeadEntryId'') (at ''ledgerHeadEntryId'')) (\<lambda>hd.
      bindE (parse_inbox_cursors (get ''inboxReadCursors'') (at ''inboxReadCursors'')) (\<lambda>rc.
      bindE (cloneJsonObject (get ''mailboxCursors'') (at ''mailboxCursors'')) (\<lambda>mc.
      bindE (cloneJsonObject (get ''mailboxContinuity'') (at ''mailboxContinuity'')) (\<lambda>mn.
      bindE (parseConversationFocus (get ''conversationFocus'') (at ''conversationFocus'')) (\<lambda>f.
        Inr \<lparr>rs_mailboxCursors = mc, rs_inboxReadCursors = rc, rs_mailboxContinuity = mn, rs_focus = f,
             rs_lastWakeAt = wake, rs_head = hd\<rparr>))))))))))"

section \<open>The projection\<close>

fun increasing_from :: "int \<Rightarrow> nat \<Rightarrow> ledger_entry list \<Rightarrow> ledger_error + unit" where
  "increasing_from i index [] = Inr ()"
| "increasing_from i index (e # es) =
     (if entry_id e \<le> i then Inl (IdsNotIncreasing index) else increasing_from (entry_id e) (Suc index) es)"

definition assertStrictlyIncreasingIds :: "ledger_entry list \<Rightarrow> ledger_error + unit" where
  "assertStrictlyIncreasingIds es =
     (case es of [] \<Rightarrow> Inr () | e # rest \<Rightarrow> increasing_from (entry_id e) 1 rest)"

definition last_id :: "ledger_entry list \<Rightarrow> int option" where
  "last_id es = (if es = [] then None else Some (entry_id (last es)))"

fun entry_messages :: "ledger_entry list \<Rightarrow> agent_message list" where
  "entry_messages [] = []"
| "entry_messages (MessageEntry i m t # es) = m # entry_messages es"
| "entry_messages (CompactionEntry i p t # es) = entry_messages es"

fun compaction_chain :: "(int \<times> compaction_payload) option \<Rightarrow> ledger_entry list
    \<Rightarrow> ledger_error + (int \<times> compaction_payload) option" where
  "compaction_chain previous [] = Inr previous"
| "compaction_chain previous (MessageEntry i m t # es) = compaction_chain previous es"
| "compaction_chain previous (CompactionEntry i p t # es) =
     (let expected = map_option (\<lambda>(j, _). dec_of_int j) previous in
      if previousCompactionEntryId p \<noteq> expected then Inl (CompactionChainBroken i expected)
      else compaction_chain (Some (i, p)) es)"

definition validateCompactionChain :: "ledger_entry list \<Rightarrow> ledger_error + (int \<times> compaction_payload) option" where
  "validateCompactionChain es = compaction_chain None es"

fun find_entry :: "int \<Rightarrow> ledger_entry list \<Rightarrow> ledger_entry option" where
  "find_entry i [] = None"
| "find_entry i (e # es) = (if entry_id e = i then Some e else find_entry i es)"

fun is_tool_message :: "agent_message \<Rightarrow> bool" where
  "is_tool_message (ToolMsg _ _) = True"
| "is_tool_message _ = False"

definition check_boundary :: "ledger_entry list \<Rightarrow> int \<Rightarrow> int \<Rightarrow> ledger_error + unit" where
  "check_boundary es cid boundary =
     (case find_entry boundary es of
        None \<Rightarrow> Inl (BoundaryMissing cid boundary)
      | Some (CompactionEntry _ _ _) \<Rightarrow> Inl (BoundaryNotMessage cid)
      | Some (MessageEntry _ m _) \<Rightarrow> if is_tool_message m then Inl (BoundaryIsToolResult cid) else Inr ())"

definition keeps :: "int \<Rightarrow> int option \<Rightarrow> ledger_entry \<Rightarrow> bool" where
  "keeps cid boundary e \<longleftrightarrow> cid < entry_id e \<or> (case boundary of None \<Rightarrow> False | Some b \<Rightarrow> b \<le> entry_id e)"

definition selectActiveMessages :: "ledger_entry list \<Rightarrow> (int \<times> compaction_payload) option
    \<Rightarrow> ledger_error + agent_message list" where
  "selectActiveMessages es latest =
     (case latest of
        None \<Rightarrow> Inr (entry_messages es)
      | Some (cid, p) \<Rightarrow>
          (let boundary = map_option big_of_dec (firstKeptEntryId p) in
           bindE (case boundary of None \<Rightarrow> Inr () | Some b \<Rightarrow> check_boundary es cid b) (\<lambda>_.
             Inr (entry_messages (filter (keeps cid boundary) es)))))"

definition history_summary_prefix :: jstr where
  "history_summary_prefix = [91, 21382, 21490, 25688, 35201, 93, 10]"

definition renderSummaryMessage :: "compaction_payload \<Rightarrow> agent_message" where
  "renderSummaryMessage p = UserMsg (history_summary_prefix @ summary p)"

definition renderMachineStateMessages :: "compaction_payload \<Rightarrow> ledger_error + agent_message list" where
  "renderMachineStateMessages p =
     (if mailboxAttentionState p = [] then Inr []
      else (case renderMailboxAttentionStateEvent (mailboxAttentionState p) of
              Inl e \<Rightarrow> Inl (RenderFailed e)
            | Inr t \<Rightarrow> Inr [UserMsg t]))"

definition snapshot_of :: "agent_message list \<Rightarrow> runtime_state \<Rightarrow> persisted_snapshot" where
  "snapshot_of ms rs = \<lparr>ps_schemaVersion = snapshot_schema_version, ps_messages = ms, ps_focus = rs_focus rs\<rparr>"

definition assertSnapshotIntegrity :: "agent_message list \<Rightarrow> runtime_state \<Rightarrow> string \<Rightarrow> ledger_error + unit" where
  "assertSnapshotIntegrity ms rs label =
     (let r = validateBotSnapshotIntegrity (snapshot_jv (snapshot_of ms rs)) (JObj (rs_mailboxCursors rs))
                (JObj (rs_mailboxContinuity rs))
      in if ir_ok r then Inr () else Inl (IntegrityFailed label (ir_errors r)))"

text \<open>What is projected from entries already parsed.\<close>

definition project_entries :: "ledger_entry list \<Rightarrow> runtime_state \<Rightarrow> ledger_error + ledger_projection" where
  "project_entries es rs =
     bindE (if rs_head rs \<noteq> last_id es then Inl (HeadMismatch (rs_head rs) (last_id es)) else Inr ()) (\<lambda>_.
     bindE (assertSnapshotIntegrity (entry_messages es) rs ''permanent ledger'') (\<lambda>_.
     bindE (validateCompactionChain es) (\<lambda>latest.
     bindE (selectActiveMessages es latest) (\<lambda>active.
     bindE (case latest of
              None \<Rightarrow> Inr active
            | Some (_, p) \<Rightarrow> bindE (renderMachineStateMessages p) (\<lambda>st. Inr (renderSummaryMessage p # st @ active))) (\<lambda>projected.
     bindE (assertSnapshotIntegrity projected rs ''active projection'') (\<lambda>_.
       Inr \<lparr>throughEntryId = last_id es, activeEntryCount = length active, permanentEntryCount = length es,
            proj_snapshot = snapshot_of projected rs\<rparr>))))))"

definition projectAgentLedger :: "jv list \<Rightarrow> jv \<Rightarrow> ledger_error + ledger_projection" where
  "projectAgentLedger entries runtimeState =
     bindE (mapE_idx (\<lambda>i v. parseAgentLedgerEntry v i) 0 entries) (\<lambda>es.
     bindE (assertStrictlyIncreasingIds es) (\<lambda>_.
     bindE (parseAgentRuntimeState runtimeState) (\<lambda>rs. project_entries es rs)))"

end
