(* ===== verification/Ledger_Normal.thy ===== *)
theory Ledger_Normal
  imports Ledger_Projection
begin

text \<open>
  Parsing ledger rows and the runtime state: what a successful parse leaves satisfies a normal form
  (\<open>message_norm\<close>, \<open>compaction_norm\<close>, \<open>entry_norm\<close>, \<open>runtime_norm\<close>), and a value in normal form is
  read back unchanged from the object it is.  So parsing is idempotent, and every later step may
  work on typed entries.
\<close>

section \<open>Copies of JSON values\<close>

lemma put_index_set: "set (put_index ob k v) = insert (k, v) (set ob)"
  by (induction ob k v rule: put_index.induct) auto

lemma obj_put_set: "k \<notin> set (obj_keys ob) \<Longrightarrow> set (obj_put ob k v) = insert (k, v) (set ob)"
  by (auto simp: obj_put_def put_index_set)

lemma put_index_distinct:
  "distinct (obj_keys ob) \<Longrightarrow> k \<notin> set (obj_keys ob) \<Longrightarrow> distinct (obj_keys (put_index ob k v))"
  by (induction ob k v rule: put_index.induct) (auto simp: put_index_set)

lemma obj_put_distinct_keys: "distinct (obj_keys ob) \<Longrightarrow> distinct (obj_keys (obj_put ob k v))"
  by (simp add: obj_put_get put_index_distinct)

definition repl :: "jstr \<Rightarrow> 'v \<Rightarrow> (jstr \<times> 'v) list \<Rightarrow> (jstr \<times> 'v) list" where
  "repl k v ob = map (\<lambda>(k', v'). if k' = k then (k', v) else (k', v')) ob"

lemma repl_simps [simp]:
  "repl k v [] = []"
  "repl k v ((k', v') # ob) = (if k' = k then (k', v) else (k', v')) # repl k v ob"
  by (simp_all add: repl_def)

lemma repl_keys [simp]: "obj_keys (repl k v ob) = obj_keys ob"
  by (induction ob) auto

lemma repl_absent: "k \<notin> set (obj_keys ob) \<Longrightarrow> repl k v ob = ob"
  by (induction ob) auto

lemma repl_twice: "repl k w (repl k v ob) = repl k w ob"
  by (induction ob) auto

lemma repl_append [simp]: "repl k v (xs @ ys) = repl k v xs @ repl k v ys"
  by (simp add: repl_def)

lemma repl_put_index: "k \<notin> set (obj_keys ob) \<Longrightarrow> repl k w (put_index ob k v) = put_index ob k w"
proof (induction ob)
  case (Cons p ob)
  obtain k' v' where "p = (k', v')" by fastforce
  with Cons show ?case by (auto simp: repl_absent)
qed simp

lemma obj_put_repl: "obj_put ob k v = (if k \<in> set (obj_keys ob) then repl k v ob
     else if is_index_key k then put_index ob k v else ob @ [(k, v)])"
  by (simp add: obj_put_def repl_def)

lemma obj_put_twice: "obj_put (obj_put ob k v) k w = obj_put ob k w"
proof -
  have "k \<in> set (obj_keys (obj_put ob k v))" unfolding obj_put_keys_set by simp
  then have "obj_put (obj_put ob k v) k w = repl k w (obj_put ob k v)"
    by (simp only: obj_put_repl [of "obj_put ob k v"] if_True)
  also have "\<dots> = obj_put ob k w"
    by (simp only: obj_put_repl [of ob] repl_twice repl_put_index repl_absent repl_append repl_simps if_cancel
        split: if_split) (simp add: repl_put_index repl_absent)
  finally show ?thesis .
qed

lemma obj_of_Cons: "obj_of ob ((k, v) # qs) = obj_of (obj_put ob k v) qs"
  by (simp add: obj_of_def)

lemma obj_of_strict:
  assumes "sorted (map fst qs)"
  shows "\<exists>qs'. sorted_wrt (<) (map fst qs') \<and> set qs' \<subseteq> set qs \<and> obj_of ob qs' = obj_of ob qs
    \<and> (qs \<noteq> [] \<longrightarrow> qs' \<noteq> [] \<and> fst (hd qs') = fst (hd qs))"
  using assms
proof (induction "length qs" arbitrary: qs ob rule: less_induct)
  case less
  show ?case
  proof (cases qs)
    case Nil
    then show ?thesis by (intro exI [of _ "[]"]) simp
  next
    case (Cons p rs)
    obtain k v where p: "p = (k, v)" by fastforce
    from less.hyps [of rs "obj_put ob k v"] less.prems Cons obtain rs' where
      r: "sorted_wrt (<) (map fst rs')" "set rs' \<subseteq> set rs" "obj_of (obj_put ob k v) rs' = obj_of (obj_put ob k v) rs"
        "rs \<noteq> [] \<longrightarrow> rs' \<noteq> [] \<and> fst (hd rs') = fst (hd rs)" by auto
    show ?thesis
    proof (cases "rs' \<noteq> [] \<and> fst (hd rs') = k")
      case True
      then obtain w ts where rs': "rs' = (k, w) # ts" by (cases rs') auto
      then have "obj_of ob rs' = obj_of ob qs"
        using r(3) by (simp add: Cons p obj_of_Cons obj_put_twice)
      with r rs' Cons p show ?thesis by (intro exI [of _ rs']) auto
    next
      case False
      have "k < x" if "x \<in> set (map fst rs')" for x
      proof -
        have "rs' \<noteq> []" using that by auto
        then have h: "fst (hd rs') \<le> x" using that r(1) by (cases rs') (auto simp: less_imp_le)
        have "hd rs' \<in> set rs" using r(2) \<open>rs' \<noteq> []\<close> by (auto dest: hd_in_set)
        then have "k \<le> fst (hd rs')" using less.prems by (auto simp: Cons p)
        with False \<open>rs' \<noteq> []\<close> have "k < fst (hd rs')" by simp
        with h show ?thesis by simp
      qed
      with r Cons p show ?thesis by (intro exI [of _ "(k, v) # rs'"]) (auto simp: obj_of_Cons)
    qed
  qed
qed

lemma obj_of_set:
  "distinct (map fst qs) \<Longrightarrow> distinct (obj_keys ob) \<Longrightarrow> set (map fst qs) \<inter> set (obj_keys ob) = {} \<Longrightarrow>
   set (obj_of ob qs) = set ob \<union> set qs \<and> distinct (obj_keys (obj_of ob qs))"
proof (induction qs arbitrary: ob)
  case (Cons p qs)
  obtain k v where p: "p = (k, v)" by fastforce
  with Cons.prems Cons.IH [of "obj_put ob k v"] show ?case
    by (auto simp: obj_of_Cons obj_put_keys_set obj_put_set obj_put_distinct_keys)
qed (simp add: obj_of_def)

lemma sorted_pairs_unique:
  assumes "sorted_wrt (<) (map fst xs)" "sorted_wrt (<) (map fst ys)" "set xs = set ys"
  shows "xs = (ys :: ('a :: linorder \<times> 'b) list)"
proof -
  have d: "distinct (map fst xs)" "distinct (map fst ys)" using assms by (simp_all add: strict_sorted_iff)
  have "map fst xs = map fst ys" using assms by (intro strict_sorted_equal) auto
  moreover have "map_of xs = map_of ys" using d assms(3) by (simp add: map_of_inject_set)
  moreover have "zs = map (\<lambda>k. (k, the (map_of zs k))) (map fst zs)" if "distinct (map fst zs)" for zs :: "('a \<times> 'b) list"
  proof -
    have "map (\<lambda>p. (fst p, the (map_of zs (fst p)))) zs = zs"
      by (rule map_idI) (use that in auto)
    then show ?thesis by (simp add: comp_def)
  qed
  ultimately show ?thesis using d by metis
qed

lemma sort_key_obj_of:
  assumes "sorted_wrt (<) (map fst qs)"
  shows "sort_key fst (obj_of [] qs) = qs"
proof (rule sorted_pairs_unique)
  have s: "set (obj_of [] qs) = set qs" "distinct (obj_keys (obj_of [] qs))"
    using obj_of_set [of qs "[]"] assms by (auto simp: strict_sorted_iff)
  then have "distinct (map fst (sort_key fst (obj_of [] qs)))"
    by (metis distinct_map distinct_sort inj_on_cong set_sort)
  then show "sorted_wrt (<) (map fst (sort_key fst (obj_of [] qs)))"
    by (simp add: strict_sorted_iff sorted_sort_key)
  show "sorted_wrt (<) (map fst qs)" by (rule assms)
  show "set (sort_key fst (obj_of [] qs)) = set qs" using s by simp
qed

lemma mapE_fixed: "(\<And>x. x \<in> set xs \<Longrightarrow> f x = Inr x) \<Longrightarrow> mapE f xs = Inr xs"
  by (induction xs) auto

lemma mapE_idx_fixed: "(\<And>k x. x \<in> set xs \<Longrightarrow> f k x = Inr x) \<Longrightarrow> mapE_idx f i xs = Inr xs"
  by (induction xs arbitrary: i) auto

lemma mapE_idx_range: "mapE_idx f i xs = Inr ys \<Longrightarrow> y \<in> set ys \<Longrightarrow> \<exists>x k. x \<in> set xs \<and> f k x = Inr y"
  by (auto simp: mapE_idx_Inr_iff in_set_conv_nth)

lemma mapE_range: "mapE f xs = Inr ys \<Longrightarrow> y \<in> set ys \<Longrightarrow> \<exists>x. x \<in> set xs \<and> f x = Inr y"
  by (auto simp: mapE_Inr_iff list_all2_conv_all_nth in_set_conv_nth)

lemma mapE_keys:
  assumes "mapE f xs = Inr ys" "\<And>x y. f x = Inr y \<Longrightarrow> fst y = fst x"
  shows "map fst xs = map fst ys"
  using assms(1)
proof (induction xs arbitrary: ys)
  case (Cons x xs)
  then obtain y zs where "f x = Inr y" "mapE f xs = Inr zs" "ys = y # zs" by (auto simp: bindE_Inr_iff)
  with Cons.IH assms(2) show ?case by simp
qed simp

text \<open>A copy is a fixed point of copying.\<close>

lemma clone_stable: "cloneJsonValue v p = Inr w \<Longrightarrow> cloneJsonValue w p' = Inr w"
proof (induction v p arbitrary: w p' rule: cloneJsonValue.induct)
  case (1 v p)
  show ?case
  proof (cases v)
    case (JArr vs)
    then obtain ws where ws: "mapE_idx (\<lambda>i x. cloneJsonValue x (p @ [Idx i])) 0 vs = Inr ws" "w = JArr ws"
      using "1.prems" by (auto simp: JArr cloneJsonValue.simps [of "JArr vs"] bindE_Inr_iff)
    have "cloneJsonValue y q = Inr y" if "y \<in> set ws" for y q
      using mapE_idx_range [OF ws(1) that] "1.IH"(1) [OF JArr] by blast
    then show ?thesis by (simp add: ws(2) cloneJsonValue.simps [of "JArr ws"] mapE_idx_fixed)
  next
    case (JObj ps)
    let ?f = "\<lambda>p q. bindE (cloneJsonValue (snd q) (p @ [Key (fst q)])) (\<lambda>w. Inr (fst q, w))"
    obtain qs where qs: "mapE (?f p) (sort_key fst ps) = Inr qs" "w = JObj (obj_of [] qs)"
      using "1.prems" by (auto simp: JObj cloneJsonValue.simps [of "JObj ps"] bindE_Inr_iff)
    have keys: "map fst qs = map fst (sort_key fst ps)"
      by (rule mapE_keys [OF qs(1), symmetric]) (auto simp: bindE_Inr_iff)
    then have "sorted (map fst qs)" by (simp add: sorted_sort_key)
    then obtain qs' where qs': "sorted_wrt (<) (map fst qs')" "set qs' \<subseteq> set qs" "obj_of [] qs' = obj_of [] qs"
      using obj_of_strict [of qs "[]"] by blast
    have st: "cloneJsonValue (snd y) r = Inr (snd y)" if "y \<in> set qs'" for y r
    proof -
      from that qs'(2) have "y \<in> set qs" by blast
      from mapE_range [OF qs(1) this] obtain x where "x \<in> set (sort_key fst ps)" "?f p x = Inr y" by blast
      then show ?thesis using "1.IH"(2) [OF JObj, of x] by (auto simp: bindE_Inr_iff)
    qed
    have "mapE (?f p') qs' = Inr qs'"
      by (rule mapE_fixed) (simp add: st)
    then have "cloneJsonValue (JObj (obj_of [] qs')) p' = Inr (JObj (obj_of [] qs'))"
      by (simp add: cloneJsonValue.simps [of "JObj (obj_of [] qs')"] sort_key_obj_of [OF qs'(1)])
    then show ?thesis by (simp add: qs(2) qs'(3))
  qed (use "1.prems" in \<open>auto simp: cloneJsonValue.simps split: jnum.splits\<close>)
qed


section \<open>Successful checks\<close>

lemma require_bind [simp]: "bindE (require b p r) f = (if b then f () else fail p r)"
  by (simp add: require_def)

lemma require_Inr [result_elims]: "require b p r = Inr u \<longleftrightarrow> b"
  by (simp add: require_def)

lemma requireRecord_Inr [result_elims]: "requireRecord v p = Inr ps \<longleftrightarrow> v = JObj ps"
  by (auto simp: requireRecord_def split: jv.splits)

lemma requireNonEmptyString_Inr [result_elims]: "requireNonEmptyString v p = Inr s \<longleftrightarrow> v = JStr s \<and> \<not> blank s"
  by (cases v) (auto simp: requireNonEmptyString_def non_blank_def)

lemma requireString_Inr [result_elims]: "requireString v p = Inr s \<longleftrightarrow> v = JStr s"
  by (cases v) (auto simp: requireString_def is_str_def)

lemma requireArray_Inr [result_elims]: "requireArray v p = Inr vs \<longleftrightarrow> v = JArr vs"
  by (cases v) (auto simp: requireArray_def)

lemma requireBoolean_Inr [result_elims]: "requireBoolean v p = Inr b \<longleftrightarrow> v = JBool b"
  by (cases v) (auto simp: requireBoolean_def)

lemma requireNonNegative_Inr [result_elims]:
  "requireNonNegativeSafeInteger v p = Inr i \<longleftrightarrow> v = jint i \<and> 0 \<le> i \<and> i \<le> max_safe"
  by (auto simp: requireNonNegativeSafeInteger_def isNonNegativeSafeInteger_iff)

lemma requirePositive_Inr [result_elims]:
  "requirePositiveSafeInteger v p = Inr i \<longleftrightarrow> v = jint i \<and> 0 < i \<and> i \<le> max_safe"
proof -
  have "requirePositiveSafeInteger v p = Inr i \<longleftrightarrow> requireNonNegativeSafeInteger v p = Inr i \<and> i \<noteq> 0"
    by (cases "requireNonNegativeSafeInteger v p") (auto simp: requirePositiveSafeInteger_def)
  then show ?thesis by (auto simp: requireNonNegative_Inr)
qed

lemma parseNullableEntryId_Inr [result_elims]:
  "parseNullableEntryId v p = Inr x \<longleftrightarrow> v = null_or JStr x \<and> (\<forall>s. x = Some s \<longrightarrow> positive_decimal s)"
  by (cases v; cases x) (auto simp: parseNullableEntryId_def null_or_def)

lemma parse_optional_Inr [result_elims]:
  "parse_optional v f = Inr x \<longleftrightarrow> (v = JUndef \<and> x = None) \<or> (v \<noteq> JUndef \<and> (\<exists>y. f v = Inr y \<and> x = Some y))"
  by (auto simp: parse_optional_def bindE_Inr_iff)

lemma clone_object: "cloneJsonValue (JObj ps) p = Inr w \<Longrightarrow> \<exists>qs. w = JObj qs"
  by (auto simp: cloneJsonValue.simps [of "JObj ps"] bindE_Inr_iff)

lemma cloneJsonObject_Inr [result_elims]:
  "cloneJsonObject v p = Inr qs \<longleftrightarrow> (\<exists>ps. v = JObj ps) \<and> cloneJsonValue v p = Inr (JObj qs)"
proof (cases v)
  case (JObj ps)
  show ?thesis
  proof (cases "cloneJsonValue (JObj ps) p")
    case (Inr w)
    then obtain rs where "w = JObj rs" using clone_object by blast
    with Inr JObj show ?thesis by (simp add: cloneJsonObject_def requireRecord_def)
  qed (simp add: JObj cloneJsonObject_def requireRecord_def)
qed (simp_all add: cloneJsonObject_def requireRecord_def)

lemma requireExactKeys_Nil [simp]: "requireExactKeys ps [] opt p = allow_keys opt p (obj_keys ps)"
  by (simp add: requireExactKeys_def)

text \<open>Copied JSON, and what parsing leaves in a message.\<close>

definition json_copy :: "jobj \<Rightarrow> bool" where
  "json_copy ps \<longleftrightarrow> cloneJsonValue (JObj ps) [] = Inr (JObj ps)"

lemma json_copyI: "cloneJsonValue v p = Inr (JObj qs) \<Longrightarrow> json_copy qs"
  by (auto simp: json_copy_def dest: clone_stable)

lemma json_copy_clone: "json_copy ps \<Longrightarrow> cloneJsonObject (JObj ps) p = Inr ps"
  by (auto simp: cloneJsonObject_Inr json_copy_def dest: clone_stable)

definition call_norm :: "tool_call \<Rightarrow> bool" where
  "call_norm c \<longleftrightarrow> call_ok c \<and> json_copy (tc_args c)"

definition native_norm :: "jobj \<Rightarrow> bool" where
  "native_norm b \<longleftrightarrow> json_copy b
     \<and> (obj_get b (js ''type'') = JStr (js ''thinking'') \<or> obj_get b (js ''type'') = JStr (js ''redacted_thinking''))"

definition size_norm :: "int option \<Rightarrow> bool" where
  "size_norm x = (case x of None \<Rightarrow> True | Some i \<Rightarrow> 0 < i \<and> i \<le> max_safe)"

fun block_norm :: "content_block \<Rightarrow> bool" where
  "block_norm (ImageRef i mt w h d) \<longleftrightarrow> positive_decimal i \<and> \<not> blank mt \<and> size_norm w \<and> size_norm h"
| "block_norm (TextBlock t) \<longleftrightarrow> True"
| "block_norm (ImageBlock mt d) \<longleftrightarrow> False"

fun content_norm :: "tool_content \<Rightarrow> bool" where
  "content_norm (TextContent s) \<longleftrightarrow> tool_text_ok s"
| "content_norm (BlockContent bs) \<longleftrightarrow> list_all block_norm bs"

fun message_norm :: "agent_message \<Rightarrow> bool" where
  "message_norm (UserMsg c) \<longleftrightarrow> True"
| "message_norm (AssistantMsg c calls nb) \<longleftrightarrow> list_all call_norm calls
     \<and> (case nb of None \<Rightarrow> True | Some bs \<Rightarrow> list_all native_norm bs)"
| "message_norm (ToolMsg i c) \<longleftrightarrow> \<not> blank i \<and> content_norm c"

lemma mapE_idx_all:
  assumes "\<And>k x y. f k x = Inr y \<Longrightarrow> P y" "mapE_idx f i xs = Inr ys"
  shows "list_all P ys"
  using mapE_idx_range [OF assms(2)] assms(1) by (force simp: list_all_iff)

lemma mapE_idx_map_Inr: "(\<And>k x. x \<in> set xs \<Longrightarrow> f k (g x) = Inr x) \<Longrightarrow> mapE_idx f i (map g xs) = Inr xs"
  by (induction xs arbitrary: i) auto

lemma parse_call_norm: "parse_call p i v = Inr c \<Longrightarrow> call_norm c"
  by (auto simp: parse_call_def Let_def call_norm_def call_ok_def result_elims dest: json_copyI)

lemma parse_native_norm: "parse_native_block p i v = Inr b \<Longrightarrow> native_norm b"
  by (auto simp: parse_native_block_def Let_def native_norm_def result_elims dest: json_copyI split: if_splits)

lemma parse_block_norm: "parse_block p i v = Inr b \<Longrightarrow> block_norm b"
  by (auto simp: parse_block_def Let_def size_norm_def result_elims split: if_splits option.splits jv.splits)

lemma parse_lists_norm:
  "mapE_idx (parse_call p) i vs = Inr cs \<Longrightarrow> list_all call_norm cs"
  "mapE_idx (parse_native_block p) i vs = Inr bs \<Longrightarrow> list_all native_norm bs"
  "mapE_idx (parse_block p) i vs = Inr ds \<Longrightarrow> list_all block_norm ds"
  by (rule mapE_idx_all [rotated], assumption, erule parse_call_norm)
    (rule mapE_idx_all [rotated], assumption, erule parse_native_norm,
     rule mapE_idx_all [rotated], assumption, erule parse_block_norm)

lemma parse_content_norm: "parseToolResultContent v p = Inr c \<Longrightarrow> content_norm c"
  by (auto simp: parseToolResultContent_def bindE_Inr_iff dest: parse_lists_norm(3) split: jv.splits if_splits)

lemma parse_message_norm: "parseDurableAgentMessage v p = Inr m \<Longrightarrow> message_norm m"
  by (auto simp: parseDurableAgentMessage_def result_elims dest: parse_content_norm parse_lists_norm split: if_splits)


section \<open>Reading back what was parsed\<close>

lemma parse_call_jv: "call_norm c \<Longrightarrow> parse_call p i (tool_call_jv c) = Inr c"
  by (cases c) (simp add: parse_call_def Let_def tool_call_jv_def requireRecord_def requireExactKeys_def
      requireNonEmptyString_def non_blank_def call_norm_def call_ok_def json_copy_clone)

lemma parse_native_jv: "native_norm b \<Longrightarrow> parse_native_block p i (JObj b) = Inr b"
  by (simp add: parse_native_block_def Let_def native_norm_def json_copy_clone)

lemma obj_keys_opt [simp]: "obj_keys (opt_prop k f x) = (if x = None then [] else [js k])"
  by (simp add: opt_prop_def split: option.splits)

lemma parse_optional_undef [simp]: "parse_optional JUndef f = Inr None"
  by (simp add: parse_optional_def)

lemma parse_optional_size:
  "size_norm x \<Longrightarrow> parse_optional (case x of None \<Rightarrow> JUndef | Some i \<Rightarrow> jint i) (\<lambda>v. requirePositiveSafeInteger v p) = Inr x"
  by (cases x) (auto simp: parse_optional_def size_norm_def requirePositive_Inr bindE_Inr_iff)

lemma parse_optional_str:
  "parse_optional (case x of None \<Rightarrow> JUndef | Some i \<Rightarrow> JStr i) (\<lambda>v. requireString v p) = Inr x"
  by (cases x) (auto simp: parse_optional_def requireString_Inr bindE_Inr_iff)

lemma parse_block_jv: "block_norm b \<Longrightarrow> parse_block p i (content_block_jv b) = Inr b"
proof (cases b)
  case (ImageRef mi mt w h d)
  assume "block_norm b"
  then have ok: "positive_decimal mi" "\<not> blank mt" "size_norm w" "size_norm h" using ImageRef by simp_all
  have keys: "requireExactKeys ([(js ''type'', JStr (js ''image_ref'')), (js ''mediaId'', JStr mi), (js ''mediaType'', JStr mt)]
      @ opt_prop ''width'' jint w @ opt_prop ''height'' jint h @ opt_prop ''description'' JStr d)
      [js ''type'', js ''mediaId'', js ''mediaType''] [js ''width'', js ''height'', js ''description''] q = Inr ()" for q
    by (simp add: requireExactKeys_def)
  show ?thesis
    using ok keys parse_optional_size [OF ok(3)] parse_optional_size [OF ok(4)] parse_optional_str [of d]
    by (simp add: ImageRef parse_block_def Let_def requireRecord_def requireNonEmptyString_def non_blank_def obj_get_append)
qed (simp_all add: parse_block_def Let_def requireRecord_def requireExactKeys_def requireString_def is_str_def)

lemma parse_content_jv: "content_norm c \<Longrightarrow> parseToolResultContent (tool_content_jv c) p = Inr c"
  by (cases c) (auto simp: parseToolResultContent_def list_all_iff bindE_Inr_iff parse_block_jv intro!: mapE_idx_map_Inr)

lemma parse_message_jv: "message_norm m \<Longrightarrow> parseDurableAgentMessage (message_jv m) p = Inr m"
proof (cases m)
  case (AssistantMsg c calls nb)
  assume m: "message_norm m"
  have calls: "mapE_idx (parse_call p) 0 (map tool_call_jv calls) = Inr calls"
    using m AssistantMsg by (intro mapE_idx_map_Inr) (auto simp: list_all_iff parse_call_jv)
  have nb: "parse_optional (case nb of None \<Rightarrow> JUndef | Some bs \<Rightarrow> JArr (map JObj bs)) (\<lambda>x.
      bindE (requireArray x q) (mapE_idx (parse_native_block p) 0)) = Inr nb" for q
  proof (cases nb)
    case (Some bs)
    then have "mapE_idx (parse_native_block p) 0 (map JObj bs) = Inr bs"
      using m AssistantMsg by (intro mapE_idx_map_Inr) (auto simp: list_all_iff parse_native_jv)
    then show ?thesis by (simp add: Some parse_optional_def requireArray_def)
  qed (simp add: parse_optional_def)
  show ?thesis
    using calls nb
    by (cases nb) (simp_all add: AssistantMsg parseDurableAgentMessage_def requireRecord_def requireExactKeys_def
        requireString_def is_str_def requireArray_def obj_get_append opt_prop_def)
qed (simp_all add: parseDurableAgentMessage_def requireRecord_def requireExactKeys_def requireString_def is_str_def
    requireNonEmptyString_def non_blank_def parse_content_jv)


section \<open>Compactions, entries and the runtime state\<close>

definition id_norm :: "jstr option \<Rightarrow> bool" where
  "id_norm x \<longleftrightarrow> (\<forall>s. x = Some s \<longrightarrow> positive_decimal s)"

definition bounded :: "int \<Rightarrow> bool" where
  "bounded i \<longleftrightarrow> 0 \<le> i \<and> i \<le> max_safe"

definition cursor_norm :: "attention_cursor \<Rightarrow> bool" where
  "cursor_norm c \<longleftrightarrow> bounded (disclosed c) \<and> bounded (handled c) \<and> (\<forall>h. highPriority c = Some h \<longrightarrow> bounded h)"

definition attention_norm :: "attention_state \<Rightarrow> bool" where
  "attention_norm st \<longleftrightarrow> sorted (map fst st)
     \<and> (\<forall>(k, c) \<in> set st. is_mailbox_key k \<and> cursor_norm c \<and> map_of st k = Some c)"

definition compaction_norm :: "compaction_payload \<Rightarrow> bool" where
  "compaction_norm p \<longleftrightarrow> \<not> blank (summary p) \<and> id_norm (firstKeptEntryId p) \<and> bounded (tokensBefore p)
     \<and> bounded (estimatedTokensAfter p) \<and> id_norm (previousCompactionEntryId p)
     \<and> attention_norm (mailboxAttentionState p)"

fun entry_norm :: "ledger_entry \<Rightarrow> bool" where
  "entry_norm (MessageEntry i m t) \<longleftrightarrow> 0 < i \<and> message_norm m"
| "entry_norm (CompactionEntry i p t) \<longleftrightarrow> 0 < i \<and> compaction_norm p"

definition runtime_norm :: "runtime_state \<Rightarrow> bool" where
  "runtime_norm s \<longleftrightarrow> json_copy (rs_mailboxCursors s) \<and> json_copy (rs_mailboxContinuity s)
     \<and> (\<forall>(k, i) \<in> set (rs_inboxReadCursors s). is_mailbox_key k \<and> 0 \<le> i \<and> i \<le> max_safe)
     \<and> focus_ok (rs_focus s) \<and> (\<forall>i. rs_head s = Some i \<longrightarrow> 0 < i)"

lemma parse_attention_cursor_Inr:
  "parse_attention_cursor p r k = Inr q \<Longrightarrow> fst q = k \<and> is_mailbox_key k \<and> cursor_norm (snd q)"
  by (auto simp: parse_attention_cursor_def Let_def cursor_norm_def bounded_def result_elims split: if_splits)

lemma parse_attention_cursor_path:
  "parse_attention_cursor p r k = Inr q \<Longrightarrow> parse_attention_cursor p' r k = Inr q' \<Longrightarrow> q = q'"
  by (auto simp: parse_attention_cursor_def Let_def result_elims split: if_splits)

lemma parse_attention_norm: "parseMailboxAttentionState v p = Inr st \<Longrightarrow> attention_norm st"
proof -
  assume "parseMailboxAttentionState v p = Inr st"
  then obtain r where r: "mapE (parse_attention_cursor p r) (sort (obj_keys r)) = Inr st"
    by (auto simp: parseMailboxAttentionState_def result_elims)
  then have l: "list_all2 (\<lambda>k q. parse_attention_cursor p r k = Inr q) (sort (obj_keys r)) st"
    by (simp add: mapE_Inr_iff)
  then have keys: "map fst st = sort (obj_keys r)"
  proof (induction rule: list_all2_induct)
    case (Cons x xs y ys)
    with parse_attention_cursor_Inr [OF Cons(1)] show ?case by simp
  qed simp
  have each: "parse_attention_cursor p r (fst q) = Inr q" if q: "q \<in> set st" for q
  proof -
    obtain x where x: "parse_attention_cursor p r x = Inr q" using mapE_range [OF r q] by blast
    with parse_attention_cursor_Inr [OF x] show ?thesis by simp
  qed
  have "map_of st (fst q) = Some (snd q)" if q: "q \<in> set st" for q
  proof -
    obtain d where d: "map_of st (fst q) = Some d" using q by (metis map_of_eq_None_iff imageI not_None_eq)
    then have "(fst q, d) \<in> set st" by (rule map_of_SomeD)
    then have "parse_attention_cursor p r (fst q) = Inr (fst q, d)" using each [of "(fst q, d)"] by simp
    with each [OF q] d show ?thesis by (metis Inr_inject snd_conv)
  qed
  moreover have "is_mailbox_key (fst q) \<and> cursor_norm (snd q)" if "q \<in> set st" for q
    using parse_attention_cursor_Inr [OF each [OF that]] by simp
  ultimately show ?thesis using keys by (auto simp: attention_norm_def)
qed

lemma parse_compaction_norm: "parseCompactionPayload v p = Inr c \<Longrightarrow> compaction_norm c"
  by (auto simp: parseCompactionPayload_def Let_def compaction_norm_def id_norm_def bounded_def result_elims
      dest: parse_attention_norm split: if_splits)

lemma parse_entry_id_Inr: "parse_entry_id v p = Inr i \<longleftrightarrow> v = JBig i \<and> 0 < i"
  by (cases v) (auto simp: parse_entry_id_def)

lemma parse_created_at_Inr: "parse_created_at v p = Inr t \<longleftrightarrow> v = JDate (Some t)"
  by (auto simp: parse_created_at_def split: jv.splits option.splits)

lemma parse_entry_norm: "parseAgentLedgerEntry v i = Inr e \<Longrightarrow> entry_norm e"
  by (auto simp: parseAgentLedgerEntry_def Let_def parseMessagePayload_def result_elims
      parse_entry_id_Inr parse_created_at_Inr dest: parse_message_norm parse_compaction_norm split: if_splits)

lemma parse_focus_ok: "parseConversationFocus v p = Inr f \<Longrightarrow> focus_ok f"
  by (auto simp: parseConversationFocus_def focus_ok_def result_elims split: if_splits)

lemma parse_head_Inr: "parse_head v p = Inr h \<longleftrightarrow> v = null_or JBig h \<and> (\<forall>i. h = Some i \<longrightarrow> 0 < i)"
  by (cases v; cases h) (auto simp: parse_head_def null_or_def)

lemma parse_last_wake_Inr: "parse_last_wake v p = Inr w \<longleftrightarrow> v = null_or (\<lambda>t. JDate (Some t)) w"
  by (cases v; cases w) (auto simp: parse_last_wake_def null_or_def split: option.splits)

lemma parse_inbox_Inr: "parse_inbox_cursors v p = Inr cs \<longleftrightarrow> parseInboxReadCursors v = Inr cs"
  by (auto simp: parse_inbox_cursors_def split: sum.splits)

lemma parse_runtime_norm: "parseAgentRuntimeState v = Inr s \<Longrightarrow> runtime_norm s"
  by (auto simp: parseAgentRuntimeState_def Let_def runtime_norm_def result_elims parse_head_Inr parse_inbox_Inr
      dest: parse_focus_ok json_copyI dest!: parseInboxReadCursors_Inr(2) split: if_splits)

lemma mapE_map_Inr: "(\<And>x. x \<in> set xs \<Longrightarrow> f (g x) = Inr x) \<Longrightarrow> mapE f (map g xs) = Inr xs"
  by (induction xs) auto

lemma as_jobj_sorted_keys: "obj_keys (map (\<lambda>(m, c). (m, f c)) st) = map fst st"
  by (induction st) auto

lemma parse_attention_cursor_jv:
  assumes "is_mailbox_key k" "cursor_norm c" "obj_get r k = attention_cursor_jv c"
  shows "parse_attention_cursor p r k = Inr (k, c)"
proof (cases "highPriority c")
  case None
  with assms show ?thesis
    by (cases c) (simp add: parse_attention_cursor_def Let_def attention_cursor_jv_def requireRecord_def opt_prop_def
        requireExactKeys_def cursor_keys_def cursor_optional_keys_def requireNonNegativeSafeInteger_def
        isNonNegativeSafeInteger_iff cursor_norm_def bounded_def)
next
  case (Some h)
  with assms show ?thesis
    by (cases c) (simp add: parse_attention_cursor_def Let_def attention_cursor_jv_def requireRecord_def opt_prop_def
        requireExactKeys_def cursor_keys_def cursor_optional_keys_def requireNonNegativeSafeInteger_def
        isNonNegativeSafeInteger_iff cursor_norm_def bounded_def parse_optional_def)
qed

lemma parse_attention_jv:
  assumes "attention_norm st"
  shows "parseMailboxAttentionState (attention_state_jv st) p = Inr st"
proof -
  let ?r = "map (\<lambda>(m, c). (m, attention_cursor_jv c)) st"
  have keys: "sort (obj_keys ?r) = map fst st"
    using assms by (simp only: as_jobj_sorted_keys) (simp add: attention_norm_def sorted_sort_id)
  have "parse_attention_cursor p ?r (fst q) = Inr q" if "q \<in> set st" for q
  proof -
    obtain k c where q: "q = (k, c)" by fastforce
    with that assms have "is_mailbox_key k" "cursor_norm c" "map_of st k = Some c" by (auto simp: attention_norm_def)
    moreover from this have "obj_get ?r k = attention_cursor_jv c" by (simp add: obj_get_def map_of_map)
    ultimately show ?thesis by (simp add: q parse_attention_cursor_jv)
  qed
  then have "mapE (parse_attention_cursor p ?r) (map fst st) = Inr st"
    by (rule mapE_map_Inr)
  then show ?thesis
    by (simp add: parseMailboxAttentionState_def attention_state_jv_def requireRecord_def keys del: map_map)
qed

lemma parse_reason_jv: "parse_reason (JStr (reason_str r)) p = Inr r"
  by (cases r) (simp_all add: parse_reason_def reason_str_def)

lemma parseNullable_jv: "id_norm x \<Longrightarrow> parseNullableEntryId (null_or JStr x) p = Inr x"
  by (simp add: parseNullableEntryId_Inr id_norm_def)

lemma require_bounded: "bounded i \<Longrightarrow> requireNonNegativeSafeInteger (jint i) p = Inr i"
  by (simp add: requireNonNegative_Inr bounded_def)

lemma parse_compaction_jv: "compaction_norm c \<Longrightarrow> parseCompactionPayload (compaction_payload_jv c) p = Inr c"
proof -
  assume c: "compaction_norm c"
  then have n: "\<not> blank (summary c)" "id_norm (firstKeptEntryId c)" "bounded (tokensBefore c)"
    "bounded (estimatedTokensAfter c)" "id_norm (previousCompactionEntryId c)" "attention_norm (mailboxAttentionState c)"
    by (simp_all add: compaction_norm_def)
  have s: "requireNonEmptyString (JStr (summary c)) q = Inr (summary c)" for q
    using n(1) by (simp add: requireNonEmptyString_Inr)
  show ?thesis
    by (simp add: parseCompactionPayload_def Let_def compaction_payload_jv_def requireRecord_def requireExactKeys_def
        compaction_keys_def s parse_reason_jv requireBoolean_def parseNullable_jv n require_bounded parse_attention_jv)
qed

lemma parse_entry_jv: "entry_norm e \<Longrightarrow> parseAgentLedgerEntry (entry_jv e) i = Inr e"
proof (cases e)
  case (MessageEntry j m t)
  assume "entry_norm e"
  with MessageEntry show ?thesis
    by (simp add: parseAgentLedgerEntry_def Let_def requireRecord_def requireExactKeys_def parse_entry_id_def
        parse_created_at_def parseMessagePayload_def message_payload_jv_def parse_message_jv)
next
  case (CompactionEntry j c t)
  assume "entry_norm e"
  with CompactionEntry show ?thesis
    by (simp add: parseAgentLedgerEntry_def Let_def requireRecord_def requireExactKeys_def parse_entry_id_def
        parse_created_at_def parse_compaction_jv)
qed

lemma parse_entries_jv: "list_all entry_norm es \<Longrightarrow> mapE_idx (\<lambda>i v. parseAgentLedgerEntry v i) k (map entry_jv es) = Inr es"
  by (rule mapE_idx_map_Inr) (simp add: list_all_iff parse_entry_jv)

lemma parse_focus_jv: "focus_ok f \<Longrightarrow> parseConversationFocus (focus_jv f) p = Inr f"
proof (cases f)
  case (Some c)
  assume "focus_ok f"
  with Some have "requireNonEmptyString (JStr (accountId c)) q = Inr (accountId c)"
    "requireNonEmptyString (JStr (externalId c)) q = Inr (externalId c)" for q
    by (simp_all add: focus_ok_def requireNonEmptyString_Inr)
  then show ?thesis
    by (cases c; cases "platform c"; cases "ckind c")
      (simp_all add: Some parseConversationFocus_def focus_jv_def null_or_def requireRecord_def requireExactKeys_def focus_keys_def
        platform_str_def kind_str_def)
qed (simp add: parseConversationFocus_def focus_jv_def null_or_def)

lemma parse_runtime_jv: "runtime_norm s \<Longrightarrow> parseAgentRuntimeState (runtime_state_jv s) = Inr s"
proof -
  assume s: "runtime_norm s"
  have rc: "parse_inbox_cursors (JObj (map (\<lambda>(k, i). (k, jint i)) (rs_inboxReadCursors s))) p = Inr (rs_inboxReadCursors s)" for p
    using parseInboxReadCursors_jv [of "rs_inboxReadCursors s"] s
    by (simp add: parse_inbox_Inr read_cursors_jv_def runtime_norm_def)
  have w: "parse_last_wake (null_or (\<lambda>t. JDate (Some t)) (rs_lastWakeAt s)) p = Inr (rs_lastWakeAt s)" for p
    by (simp add: parse_last_wake_Inr)
  have h: "parse_head (null_or JBig (rs_head s)) p = Inr (rs_head s)" for p
    using s by (simp add: parse_head_Inr runtime_norm_def)
  have c: "cloneJsonObject (JObj (rs_mailboxCursors s)) p = Inr (rs_mailboxCursors s)"
    "cloneJsonObject (JObj (rs_mailboxContinuity s)) p = Inr (rs_mailboxContinuity s)" for p
    using s by (simp_all add: json_copy_clone runtime_norm_def)
  have f: "parseConversationFocus (focus_jv (rs_focus s)) p = Inr (rs_focus s)" for p
    using s by (simp add: parse_focus_jv runtime_norm_def)
  show ?thesis
    by (simp add: parseAgentRuntimeState_def Let_def runtime_state_jv_def requireRecord_def requireExactKeys_def
        runtime_keys_def rc w h c f)
qed

section \<open>Projecting typed entries\<close>

lemma projectAgentLedger_typed:
  assumes "list_all entry_norm es" "runtime_norm rs"
  shows "projectAgentLedger (map entry_jv es) (runtime_state_jv rs) =
    bindE (assertStrictlyIncreasingIds es) (\<lambda>_. project_entries es rs)"
  using parse_entries_jv [OF assms(1)] parse_runtime_jv [OF assms(2)] by (simp add: projectAgentLedger_def)

lemma projectAgentLedger_Inr:
  assumes "projectAgentLedger vs w = Inr pr"
  obtains es rs where "mapE_idx (\<lambda>i v. parseAgentLedgerEntry v i) 0 vs = Inr es" "parseAgentRuntimeState w = Inr rs"
    and "list_all entry_norm es" "runtime_norm rs"
    and "assertStrictlyIncreasingIds es = Inr ()" "project_entries es rs = Inr pr"
proof -
  obtain es rs where e: "mapE_idx (\<lambda>i v. parseAgentLedgerEntry v i) 0 vs = Inr es" "parseAgentRuntimeState w = Inr rs"
    "assertStrictlyIncreasingIds es = Inr ()" "project_entries es rs = Inr pr"
    using assms by (auto simp: projectAgentLedger_def bindE_Inr_iff)
  moreover have "list_all entry_norm es"
    by (rule mapE_idx_all [OF _ e(1)]) (rule parse_entry_norm)
  moreover have "runtime_norm rs" by (rule parse_runtime_norm [OF e(2)])
  ultimately show thesis using that by blast
qed

end
