(* ===== verification/Projection_Facts.thy ===== *)
theory Projection_Facts
  imports Ledger_Normal
begin

text \<open>
  What \<open>project_entries\<close> computes on entries in normal form: exactly when it succeeds
  (\<open>project_entries_Inr\<close>), that the active messages are a suffix of all messages, and that
  appending message entries appends exactly their messages (\<open>project_append\<close>).
\<close>

section \<open>Parsed values are serialisable\<close>

lemma clone_no_throw: "cloneJsonValue v p = Inr w \<Longrightarrow> \<not> stringify_throws w"
proof (induction v p arbitrary: w rule: cloneJsonValue.induct)
  case (1 v p)
  show ?case
  proof (cases v)
    case (JArr vs)
    then obtain ws where ws: "mapE_idx (\<lambda>i x. cloneJsonValue x (p @ [Idx i])) 0 vs = Inr ws" "w = JArr ws"
      using "1.prems" by (auto simp: JArr cloneJsonValue.simps [of "JArr vs"] bindE_Inr_iff)
    have "\<not> stringify_throws y" if "y \<in> set ws" for y
      using mapE_idx_range [OF ws(1) that] "1.IH"(1) [OF JArr] by blast
    then show ?thesis by (simp add: ws(2) elems_throw_iff)
  next
    case (JObj ps)
    let ?f = "\<lambda>p q. bindE (cloneJsonValue (snd q) (p @ [Key (fst q)])) (\<lambda>w. Inr (fst q, w))"
    obtain qs where qs: "mapE (?f p) (sort_key fst ps) = Inr qs" "w = JObj (obj_of [] qs)"
      using "1.prems" by (auto simp: JObj cloneJsonValue.simps [of "JObj ps"] bindE_Inr_iff)
    have st: "\<not> stringify_throws (snd y)" if y: "y \<in> set qs" for y
    proof -
      from mapE_range [OF qs(1) y] obtain x where "x \<in> set (sort_key fst ps)" "?f p x = Inr y" by blast
      then show ?thesis using "1.IH"(2) [OF JObj, of x] by (auto simp: bindE_Inr_iff)
    qed
    have sub: "set (obj_of ob rs) \<subseteq> set ob \<union> set rs" for ob rs
    proof (induction rs arbitrary: ob)
      case (Cons r rs)
      obtain k v where r: "r = (k, v)" by fastforce
      have "set (obj_put ob k v) \<subseteq> insert (k, v) (set ob)"
        by (auto simp: obj_put_def put_index_set split: if_splits)
      with Cons.IH [of "obj_put ob k v"] show ?case by (auto simp: r obj_of_Cons)
    qed (simp add: obj_of_def)
    from sub [of "[]" qs] st show ?thesis by (auto simp: qs(2) props_throw_iff)
  qed (use "1.prems" in \<open>auto simp: cloneJsonValue.simps split: jnum.splits\<close>)
qed

lemma json_copy_no_throw: "json_copy ps \<Longrightarrow> \<not> props_throw ps"
  using clone_no_throw [of "JObj ps" "[]" "JObj ps"] by (simp add: json_copy_def)

lemma props_throw_append [simp]: "props_throw (xs @ ys) \<longleftrightarrow> props_throw xs \<or> props_throw ys"
  by (induction xs) auto

lemma props_throw_opt [simp]: "props_throw (opt_prop k f x) \<longleftrightarrow> (\<exists>y. x = Some y \<and> stringify_throws (f y))"
  by (auto simp: opt_prop_def split: option.splits)

lemma block_no_throw: "\<not> stringify_throws (content_block_jv b)"
  by (cases b) auto

lemma message_no_throw: "message_norm m \<Longrightarrow> \<not> stringify_throws (message_jv m)"
proof (cases m)
  case (AssistantMsg c calls nb)
  assume m: "message_norm m"
  have "\<not> elems_throw (map tool_call_jv calls)"
    using m AssistantMsg by (auto simp: elems_throw_iff list_all_iff tool_call_jv_def call_norm_def dest: json_copy_no_throw)
  moreover have "\<not> elems_throw (map JObj bs)" if "nb = Some bs" for bs
    using m AssistantMsg that by (auto simp: elems_throw_iff list_all_iff native_norm_def dest: json_copy_no_throw)
  ultimately show ?thesis by (auto simp: AssistantMsg)
next
  case (ToolMsg i c)
  then show ?thesis by (cases c) (auto simp: elems_throw_iff block_no_throw)
qed simp

lemma snapshot_no_throw:
  "list_all message_norm ms \<Longrightarrow> \<not> stringify_throws (snapshot_jv \<lparr>ps_schemaVersion = v, ps_messages = ms, ps_focus = f\<rparr>)"
  by (auto simp: snapshot_jv_def elems_throw_iff list_all_iff focus_jv_def null_or_def dest: message_no_throw split: option.splits)

section \<open>The integrity check of a projection\<close>

definition runtime_valid :: "runtime_state \<Rightarrow> bool" where
  "runtime_valid rs \<longleftrightarrow> focus_ok (rs_focus rs) \<and> cursors_ok (JObj (rs_mailboxCursors rs))
     \<and> validateMailboxContinuity (JObj (rs_mailboxContinuity rs)) = []"

lemma assertSnapshotIntegrity_Inr:
  assumes "list_all message_norm ms"
  shows "assertSnapshotIntegrity ms rs l = Inr () \<longleftrightarrow> legal_history ms \<and> runtime_valid rs"
  using snapshot_no_throw [OF assms]
  by (auto simp: assertSnapshotIntegrity_def Let_def integrity_iff snapshot_of_def runtime_valid_def)

lemma scan_less_seen:
  assumes "scan (seen, p) ms = Some (s, q)" "set seen' \<subseteq> set seen"
  shows "\<exists>s'. scan (seen', p) ms = Some (s', q) \<and> set s' \<subseteq> set s"
  using assms
proof (induction ms arbitrary: seen seen' p)
  case (Cons m ms)
  obtain seen1 p1 where step: "scan_step (seen, p) m = Some (seen1, p1)" "scan (seen1, p1) ms = Some (s, q)"
    using Cons.prems(1) by (auto split: option.splits)
  then obtain seen1' where "scan_step (seen', p) m = Some (seen1', p1)" "set seen1' \<subseteq> set seen1"
  proof (cases m)
    case (AssistantMsg c calls nb)
    with step(1) have ok: "p = []" "list_all call_ok calls" "distinct (map tc_id calls)"
      "set (map tc_id calls) \<inter> set seen = {}" "seen1 = rev (map tc_id calls) @ seen" "p1 = map tc_id calls"
      by (auto split: if_splits)
    then have "set (map tc_id calls) \<inter> set seen' = {}" using Cons.prems(2) by blast
    with ok AssistantMsg Cons.prems(2) that show ?thesis by auto
  qed (use Cons.prems(2) in \<open>auto split: if_splits\<close>)
  with Cons.IH [OF step(2)] show ?case by auto
qed auto

lemma legal_history_iff: "legal_history ms \<longleftrightarrow> (\<exists>s. scan ([], []) ms = Some (s, []))"
  by (auto simp: legal_history_def split: option.splits prod.splits list.splits)

text \<open>A legal history may be cut before any message that is not a tool result.\<close>

lemma legal_suffix:
  assumes "legal_history (xs @ ys)" "ys = [] \<or> \<not> is_tool_message (hd ys)"
  shows "legal_history ys"
proof -
  obtain s1 s p where s: "scan ([], []) xs = Some (s1, p)" "scan (s1, p) ys = Some (s, [])"
    using assms(1) by (auto simp: legal_history_iff scan_append split: option.splits)
  have "p = []"
  proof (cases ys)
    case Nil
    with s show ?thesis by simp
  next
    case (Cons y zs)
    with assms(2) s(2) show ?thesis by (cases y) (auto split: if_splits)
  qed
  with s(2) scan_less_seen [of s1 "[]" ys s "[]" "[]"] show ?thesis by (auto simp: legal_history_iff)
qed

lemma legal_user: "legal_history (UserMsg t # ms) \<longleftrightarrow> legal_history ms"
  by (simp add: legal_history_iff)

lemma legal_append_user: "legal_history ms \<Longrightarrow> legal_history (ms @ [UserMsg t])"
  by (auto simp: legal_history_iff scan_append)

section \<open>Increasing ids\<close>

definition ids_increase :: "ledger_entry list \<Rightarrow> bool" where
  "ids_increase es \<longleftrightarrow> sorted_wrt (<) (map entry_id es)"

lemma increasing_from_Inr:
  "increasing_from i k es = Inr () \<longleftrightarrow> sorted_wrt (<) (i # map entry_id es)"
proof (induction es arbitrary: i k)
  case (Cons e es)
  show ?case
  proof (cases "entry_id e \<le> i")
    case False
    then have i: "i < entry_id e" by simp
    have "increasing_from i k (e # es) = Inr () \<longleftrightarrow> sorted_wrt (<) (entry_id e # map entry_id es)"
      using False Cons.IH [of "entry_id e" "Suc k"] by simp
    also have "\<dots> \<longleftrightarrow> sorted_wrt (<) (i # entry_id e # map entry_id es)"
      using i by (simp only: sorted_wrt2 [OF transp_on_less] simp_thms)
    finally show ?thesis by simp
  qed auto
qed simp

lemma assertStrictlyIncreasingIds_Inr: "assertStrictlyIncreasingIds es = Inr () \<longleftrightarrow> ids_increase es"
  by (cases es) (simp_all add: assertStrictlyIncreasingIds_def ids_increase_def increasing_from_Inr)

lemma entry_messages_append [simp]: "entry_messages (xs @ ys) = entry_messages xs @ entry_messages ys"
  by (induction xs rule: entry_messages.induct) auto

lemma entry_messages_norm: "list_all entry_norm es \<Longrightarrow> list_all message_norm (entry_messages es)"
  by (induction es rule: entry_messages.induct) auto

definition only_messages :: "ledger_entry list \<Rightarrow> bool" where
  "only_messages es \<longleftrightarrow> list_all is_message_entry es"

lemma only_messages_length: "only_messages es \<Longrightarrow> length (entry_messages es) = length es"
  by (induction es rule: entry_messages.induct) (auto simp: only_messages_def)

lemma chain_append_messages:
  "only_messages ns \<Longrightarrow> compaction_chain prev (es @ ns) = compaction_chain prev es"
proof (induction prev es rule: compaction_chain.induct)
  case (1 prev)
  then have "compaction_chain prev ns = Inr prev"
    by (induction ns rule: entry_messages.induct) (auto simp: only_messages_def)
  then show ?case by simp
qed (auto simp: Let_def)

lemma chain_id:
  "compaction_chain prev es = Inr (Some (cid, p)) \<Longrightarrow>
   prev = Some (cid, p) \<or> (\<exists>t. CompactionEntry cid p t \<in> set es)"
  by (induction prev es rule: compaction_chain.induct) (auto simp: Let_def split: if_splits)

lemma latest_in:
  "validateCompactionChain es = Inr (Some (cid, p)) \<Longrightarrow> \<exists>t. CompactionEntry cid p t \<in> set es"
  using chain_id [of None es cid p] by (simp add: validateCompactionChain_def)

section \<open>The active suffix\<close>

lemma keeps_mono: "keeps cid b e \<Longrightarrow> entry_id e < entry_id e' \<Longrightarrow> keeps cid b e'"
  by (auto simp: keeps_def split: option.splits)

lemma filter_keeps_suffix:
  "ids_increase es \<Longrightarrow> \<exists>n. filter (keeps cid b) es = drop n es"
proof (induction es)
  case (Cons e es)
  show ?case
  proof (cases "keeps cid b e")
    case True
    then have "\<forall>e' \<in> set es. keeps cid b e'"
      using Cons.prems by (auto simp: ids_increase_def intro: keeps_mono)
    with True show ?thesis by (intro exI [of _ 0]) (simp add: filter_id_conv)
  next
    case False
    with Cons obtain n where "filter (keeps cid b) es = drop n es" by (auto simp: ids_increase_def)
    with False show ?thesis by (intro exI [of _ "Suc n"]) simp
  qed
qed simp

lemma active_suffix:
  assumes "ids_increase es" "selectActiveMessages es latest = Inr active"
  shows "\<exists>pre. entry_messages es = pre @ active"
proof (cases latest)
  case (Some c)
  obtain cid p where c: "c = (cid, p)" by fastforce
  let ?b = "map_option big_of_dec (firstKeptEntryId p)"
  obtain n where n: "filter (keeps cid ?b) es = drop n es" using filter_keeps_suffix [OF assms(1)] by blast
  have "active = entry_messages (drop n es)"
    using assms(2) n by (auto simp: selectActiveMessages_def Some c Let_def bindE_Inr_iff)
  then show ?thesis
    using entry_messages_append [of "take n es" "drop n es"] by (intro exI [of _ "entry_messages (take n es)"]) simp
qed (use assms in \<open>simp add: selectActiveMessages_def\<close>)

lemma find_entry_append:
  "find_entry i (es @ ns) = (case find_entry i es of None \<Rightarrow> find_entry i ns | Some e \<Rightarrow> Some e)"
  by (induction es) auto

lemma check_boundary_append: "check_boundary es cid b = Inr () \<Longrightarrow> check_boundary (es @ ns) cid b = Inr ()"
  by (auto simp: check_boundary_def find_entry_append split: option.splits)

lemma select_append:
  assumes "ids_increase (es @ ns)" "only_messages ns" "validateCompactionChain es = Inr latest"
    and "selectActiveMessages es latest = Inr active"
  shows "selectActiveMessages (es @ ns) latest = Inr (active @ entry_messages ns)"
proof (cases latest)
  case (Some c)
  obtain cid p where c: "c = (cid, p)" by fastforce
  with assms(3) Some obtain t where "CompactionEntry cid p t \<in> set es" using latest_in by blast
  then have "\<forall>e \<in> set ns. cid < entry_id e"
    using assms(1) by (force simp: ids_increase_def sorted_wrt_append)
  then have "filter (keeps cid b) ns = ns" for b by (simp add: filter_id_conv keeps_def)
  with assms(4) show ?thesis
    by (auto simp: Some c selectActiveMessages_def Let_def bindE_Inr_iff intro: check_boundary_append split: option.splits)
qed (use assms in \<open>simp add: selectActiveMessages_def\<close>)

section \<open>What is put before the active messages\<close>

lemma attention_norm_render:
  assumes "attention_norm st"
  shows "\<exists>t. renderMailboxAttentionStateEvent st = Inr t"
proof -
  have "\<exists>r. render_cursors st ks = Inr r" if "set ks \<subseteq> set (map fst st)" for ks
    using that
  proof (induction ks)
    case (Cons k ks)
    then obtain c where "map_of st k = Some c" by (metis list.set_intros(1) map_of_eq_None_iff not_None_eq subset_iff list.set_map)
    moreover from this have "is_mailbox_key k" "cursor_norm c" using assms by (auto simp: attention_norm_def dest: map_of_SomeD)
    ultimately show ?case
      using Cons by (auto simp: assertMailboxKey_def cursor_norm_def bounded_def isNonNegativeSafeInteger_iff)
  qed simp
  from this [of "sort (map fst st)"] show ?thesis by (auto simp: renderMailboxAttentionStateEvent_def bindE_Inr_iff)
qed

definition head_messages :: "(int \<times> compaction_payload) option \<Rightarrow> agent_message list" where
  "head_messages latest =
     (case latest of
        None \<Rightarrow> []
      | Some (_, p) \<Rightarrow> renderSummaryMessage p # (case renderMachineStateMessages p of Inl _ \<Rightarrow> [] | Inr st \<Rightarrow> st))"

lemma render_machine:
  assumes "compaction_norm p"
  shows "\<exists>st. renderMachineStateMessages p = Inr st \<and> (\<forall>m \<in> set st. \<exists>t. m = UserMsg t)"
  using attention_norm_render [of "mailboxAttentionState p"] assms
  by (auto simp: renderMachineStateMessages_def compaction_norm_def)

lemma head_messages_user: "compaction_norm (snd c) \<Longrightarrow> \<forall>m \<in> set (head_messages (Some c)). \<exists>t. m = UserMsg t"
  using render_machine [of "snd c"] by (auto simp: head_messages_def renderSummaryMessage_def split: prod.splits)

lemma legal_after_users: "\<forall>m \<in> set us. \<exists>t. m = UserMsg t \<Longrightarrow> legal_history (us @ ms) \<longleftrightarrow> legal_history ms"
proof (induction us)
  case (Cons u us)
  then obtain t where "u = UserMsg t" by auto
  with Cons show ?case by (simp add: legal_user)
qed simp

lemma head_messages_legal:
  assumes "list_all entry_norm es" "validateCompactionChain es = Inr latest"
  shows "legal_history (head_messages latest @ ms) \<longleftrightarrow> legal_history ms"
    and "list_all message_norm (head_messages latest)"
    and "latest = Some (cid, p) \<Longrightarrow> compaction_norm p"
proof -
  have p: "compaction_norm p" if "latest = Some (cid, p)" for cid p
    using latest_in [of es cid p] assms that by (auto simp: list_all_iff)
  then show "latest = Some (cid, p) \<Longrightarrow> compaction_norm p" .
  have u: "\<forall>m \<in> set (head_messages latest). \<exists>t. m = UserMsg t"
  proof (cases latest)
    case (Some c)
    with p head_messages_user [of c] show ?thesis by (cases c) simp
  qed (simp add: head_messages_def)
  show "legal_history (head_messages latest @ ms) \<longleftrightarrow> legal_history ms" by (rule legal_after_users [OF u])
  show "list_all message_norm (head_messages latest)" using u by (fastforce simp: list_all_iff)
qed

section \<open>Successful projections\<close>

lemma project_entries_Inr:
  assumes "list_all entry_norm es"
  shows "project_entries es rs = Inr pr \<longleftrightarrow>
    rs_head rs = last_id es \<and> runtime_valid rs \<and> legal_history (entry_messages es)
    \<and> (\<exists>latest active. validateCompactionChain es = Inr latest \<and> selectActiveMessages es latest = Inr active
        \<and> legal_history active
        \<and> pr = \<lparr>throughEntryId = last_id es, activeEntryCount = length active, permanentEntryCount = length es,
               proj_snapshot = snapshot_of (head_messages latest @ active) rs\<rparr>)"
proof (cases "rs_head rs = last_id es \<and> runtime_valid rs \<and> legal_history (entry_messages es)")
  case False
  with assertSnapshotIntegrity_Inr [OF entry_messages_norm [OF assms], of rs "''permanent ledger''"]
  show ?thesis by (auto simp: project_entries_def bindE_Inr_iff split: if_splits)
next
  case True
  then have perm: "assertSnapshotIntegrity (entry_messages es) rs ''permanent ledger'' = Inr ()"
    using assertSnapshotIntegrity_Inr [OF entry_messages_norm [OF assms]] by simp
  show ?thesis
  proof (cases "validateCompactionChain es")
    case (Inr latest)
    show ?thesis
    proof (cases "selectActiveMessages es latest")
      case act: (Inr active)
      have rend: "(case latest of None \<Rightarrow> Inr active
          | Some (_, p) \<Rightarrow> bindE (renderMachineStateMessages p) (\<lambda>st. Inr (renderSummaryMessage p # st @ active)))
        = (Inr (head_messages latest @ active) :: ledger_error + agent_message list)"
      proof (cases latest)
        case (Some c)
        then obtain cid p where c: "c = (cid, p)" "compaction_norm p"
          using head_messages_legal(3) [OF assms Inr] by (cases c) auto
        with render_machine [OF c(2)] Some show ?thesis by (auto simp: head_messages_def)
      qed (simp add: head_messages_def)
      have sub: "set (entry_messages (filter P es)) \<subseteq> set (entry_messages es)" for P
        by (induction es rule: entry_messages.induct) auto
      have "list_all message_norm active"
        using act entry_messages_norm [OF assms] sub
        by (auto simp: selectActiveMessages_def Let_def bindE_Inr_iff list_all_iff split: option.splits prod.splits)
      then have "list_all message_norm (head_messages latest @ active)"
        using head_messages_legal(2) [OF assms Inr] by simp
      then have int: "assertSnapshotIntegrity (head_messages latest @ active) rs ''active projection'' = Inr ()
          \<longleftrightarrow> legal_history active"
        using True head_messages_legal(1) [OF assms Inr] by (simp add: assertSnapshotIntegrity_Inr)
      show ?thesis
        using True perm Inr act rend int
        by (cases "assertSnapshotIntegrity (head_messages latest @ active) rs ''active projection''")
          (auto simp: project_entries_def)
    qed (use True perm Inr in \<open>simp add: project_entries_def\<close>)
  qed (use True perm in \<open>simp add: project_entries_def\<close>)
qed

lemma legal_head: "legal_history (m # ms) \<Longrightarrow> \<not> is_tool_message m"
  by (cases m) (auto simp: legal_history_iff)

lemma legal_active_append:
  assumes "legal_history (pre @ active)" "legal_history active" "legal_history ((pre @ active) @ new)"
  shows "legal_history (active @ new)"
proof (rule legal_suffix)
  show "legal_history (pre @ (active @ new))" using assms(3) by simp
  show "active @ new = [] \<or> \<not> is_tool_message (hd (active @ new))"
  proof (cases active)
    case Nil
    obtain s where "scan ([], []) pre = Some (s, [])" using assms(1) Nil by (auto simp: legal_history_iff)
    with assms(3) Nil show ?thesis
      by (cases new; cases "hd new") (auto simp: legal_history_iff scan_append)
  next
    case (Cons m ms)
    with assms(2) legal_head show ?thesis by auto
  qed
qed

text \<open>Appending message entries appends exactly their messages to the projection.\<close>

lemma project_append:
  assumes norm: "list_all entry_norm (es @ ns)" and ids: "ids_increase (es @ ns)" and only: "only_messages ns"
    and pr: "project_entries es rs = Inr pr"
    and rs': "rs_head rs' = last_id (es @ ns)" "runtime_valid rs'"
    and legal: "legal_history (entry_messages (es @ ns))"
  shows "project_entries (es @ ns) rs' = Inr
    \<lparr>throughEntryId = last_id (es @ ns), activeEntryCount = activeEntryCount pr + length ns,
     permanentEntryCount = permanentEntryCount pr + length ns,
     proj_snapshot = snapshot_of (ps_messages (proj_snapshot pr) @ entry_messages ns) rs'\<rparr>"
proof -
  have es: "list_all entry_norm es" "ids_increase es"
    using norm ids by (simp_all add: ids_increase_def sorted_wrt_append)
  obtain latest active where la: "validateCompactionChain es = Inr latest" "selectActiveMessages es latest = Inr active"
    "legal_history active" "legal_history (entry_messages es)" and
    pr': "pr = \<lparr>throughEntryId = last_id es, activeEntryCount = length active, permanentEntryCount = length es,
               proj_snapshot = snapshot_of (head_messages latest @ active) rs\<rparr>"
    using pr by (auto simp: project_entries_Inr [OF es(1)])
  obtain pre where pre: "entry_messages es = pre @ active" using active_suffix [OF es(2) la(2)] by blast
  have "legal_history (active @ entry_messages ns)"
    using legal_active_append [of pre active "entry_messages ns"] la legal pre by simp
  moreover have "validateCompactionChain (es @ ns) = Inr latest"
    using la(1) by (simp add: validateCompactionChain_def chain_append_messages [OF only])
  moreover have "selectActiveMessages (es @ ns) latest = Inr (active @ entry_messages ns)"
    by (rule select_append [OF ids only la(1,2)])
  ultimately show ?thesis
    using rs' legal by (auto simp: project_entries_Inr [OF norm] pr' snapshot_of_def only_messages_length [OF only])
qed

text \<open>Projected messages are in normal form.\<close>

lemma projected_norm:
  assumes "list_all entry_norm es" "ids_increase es" "project_entries es rs = Inr pr"
  shows "list_all message_norm (ps_messages (proj_snapshot pr))"
proof -
  obtain latest active where la: "validateCompactionChain es = Inr latest" "selectActiveMessages es latest = Inr active"
      "ps_messages (proj_snapshot pr) = head_messages latest @ active"
    using assms(3) by (auto simp: project_entries_Inr [OF assms(1)] snapshot_of_def)
  obtain pre where "entry_messages es = pre @ active" using active_suffix [OF assms(2) la(2)] by blast
  with entry_messages_norm [OF assms(1)] have "list_all message_norm active" by simp
  with head_messages_legal(2) [OF assms(1) la(1)] show ?thesis by (simp add: la(3))
qed

end
