(* ===== verification/Json_Order.thy ===== *)
theory Json_Order
  imports Projection_Facts
begin

text \<open>
  The order of an object's keys does not matter to the parsers.  \<open>sortJson\<close> is the key-sorting copy
  of \<open>src/agent/agent-ledger-loader.ts\<close>; two JSON values are equal up to key order when it makes them
  equal (\<open>jeq\<close>).  Every parser of the ledger gives the same result on such values, which is what
  makes the ledger independent of how the database orders the keys of a JSON column.
\<close>

section \<open>Sorting keys\<close>

function sortJson :: "jv \<Rightarrow> jv" where
  "sortJson v =
     (case v of
        JArr vs \<Rightarrow> JArr (map sortJson vs)
      | JObj ps \<Rightarrow> JObj (obj_of [] (map (\<lambda>p. (fst p, sortJson (snd p))) (sort_key fst ps)))
      | JDate _ \<Rightarrow> JObj []
      | _ \<Rightarrow> v)"
  by pat_completeness auto
termination
proof (relation "measure size", goal_cases)
  case (2 v vs x)
  then show ?case by (auto dest!: size_list_estimation' [of _ _ _ size, OF _ order_refl])
next
  case (3 v ps q)
  then have "q \<in> set ps" by simp
  then have "size_prod (\<lambda>_. 0) size q \<le> size_list (size_prod (\<lambda>_. 0) size) ps"
    by (rule size_list_estimation') simp
  with 3 show ?case by (cases q) simp
qed simp

declare sortJson.simps [simp del]

lemma sortJson_simps [simp]:
  "sortJson JUndef = JUndef" "sortJson JNull = JNull" "sortJson (JBool b) = JBool b" "sortJson (JNum n) = JNum n"
  "sortJson (JStr s) = JStr s" "sortJson (JBig i) = JBig i" "sortJson (JDate d) = JObj []"
  "sortJson (JArr vs) = JArr (map sortJson vs)"
  by (subst sortJson.simps; simp)+

definition sort_props :: "jobj \<Rightarrow> jobj" where
  "sort_props ps = obj_of [] (map (\<lambda>p. (fst p, sortJson (snd p))) (sort_key fst ps))"

lemma sortJson_obj [simp]: "sortJson (JObj ps) = JObj (sort_props ps)"
  by (subst sortJson.simps) (simp add: sort_props_def)

text \<open>Values as \<open>JSON.parse\<close> makes them.\<close>

fun json_value :: "jv \<Rightarrow> bool" where
  "json_value (JArr vs) \<longleftrightarrow> (\<forall>v \<in> set vs. json_value v)"
| "json_value (JObj ps) \<longleftrightarrow> distinct (obj_keys ps) \<and> (\<forall>p \<in> set ps. json_value (snd p))"
| "json_value JUndef \<longleftrightarrow> False"
| "json_value (JBig _) \<longleftrightarrow> False"
| "json_value (JDate _) \<longleftrightarrow> False"
| "json_value _ \<longleftrightarrow> True"

lemma sort_props_spec:
  assumes "distinct (obj_keys ps)"
  shows "set (sort_props ps) = (\<lambda>p. (fst p, sortJson (snd p))) ` set ps"
    and "distinct (obj_keys (sort_props ps))"
    and "sort_key fst (sort_props ps) = map (\<lambda>p. (fst p, sortJson (snd p))) (sort_key fst ps)"
proof -
  let ?qs = "map (\<lambda>p. (fst p, sortJson (snd p))) (sort_key fst ps)"
  have "distinct (map fst (sort_key fst ps))"
    using assms by (metis distinct_map distinct_sort inj_on_cong set_sort)
  then have d: "distinct (map fst ?qs)" by (simp add: comp_def)
  have "sorted (map fst ?qs)" by (simp add: comp_def sorted_sort_key)
  with d have s: "sorted_wrt (<) (map fst ?qs)" by (simp only: strict_sorted_iff)
  show "sort_key fst (sort_props ps) = ?qs" unfolding sort_props_def by (rule sort_key_obj_of [OF s])
  show "set (sort_props ps) = (\<lambda>p. (fst p, sortJson (snd p))) ` set ps" "distinct (obj_keys (sort_props ps))"
    using obj_of_set [OF d, of "[]"] by (simp_all add: sort_props_def)
qed

lemma obj_get_iff: "distinct (obj_keys ps) \<Longrightarrow> (k, v) \<in> set ps \<Longrightarrow> obj_get ps k = v"
  by (simp only: obj_get_def map_of_is_SomeI option.case)

lemma obj_get_absent: "k \<notin> set (obj_keys ps) \<Longrightarrow> obj_get ps k = JUndef"
  by (induction ps) auto

lemma obj_get_sort_props:
  assumes "distinct (obj_keys ps)"
  shows "obj_get (sort_props ps) k = sortJson (obj_get ps k)"
proof (cases "k \<in> set (obj_keys ps)")
  case True
  then obtain v where v: "(k, v) \<in> set ps" by auto
  then have "(fst (k, v), sortJson (snd (k, v))) \<in> set (sort_props ps)"
    unfolding sort_props_spec(1) [OF assms] by (rule imageI)
  then have "obj_get (sort_props ps) k = sortJson v"
    using obj_get_iff [OF sort_props_spec(2) [OF assms]] by simp
  then show ?thesis using obj_get_iff [OF assms v] by simp
next
  case False
  moreover have "set (obj_keys (sort_props ps)) = set (obj_keys ps)"
    by (simp add: sort_props_spec(1) [OF assms] image_image)
  ultimately show ?thesis by (simp add: obj_get_absent)
qed

lemma keys_sort_props: "distinct (obj_keys ps) \<Longrightarrow> set (obj_keys (sort_props ps)) = set (obj_keys ps)"
  by (simp add: sort_props_spec(1) image_image)

section \<open>Equality up to the order of keys\<close>

definition jeq :: "jv \<Rightarrow> jv \<Rightarrow> bool" where
  "jeq v w \<longleftrightarrow> (v = JUndef \<and> w = JUndef) \<or> (json_value v \<and> json_value w \<and> sortJson v = sortJson w)"

lemma jeq_refl: "json_value v \<Longrightarrow> jeq v v"
  by (simp add: jeq_def)

lemma jeq_sym: "jeq v w \<Longrightarrow> jeq w v"
  by (auto simp: jeq_def)

lemma jeq_atoms:
  assumes "jeq v w"
  shows "v = JStr s \<longleftrightarrow> w = JStr s" "v = JNum n \<longleftrightarrow> w = JNum n" "v = JBool b \<longleftrightarrow> w = JBool b"
    "v = JNull \<longleftrightarrow> w = JNull" "v = JUndef \<longleftrightarrow> w = JUndef"
  using assms by (cases v; cases w; auto simp: jeq_def)+

lemma jeq_arr: "jeq (JArr vs) w \<Longrightarrow> \<exists>ws. w = JArr ws \<and> list_all2 jeq vs ws"
proof (cases w)
  case (JArr ws)
  assume "jeq (JArr vs) w"
  with JArr have "map sortJson vs = map sortJson ws" "\<forall>v \<in> set vs. json_value v" "\<forall>v \<in> set ws. json_value v"
    by (auto simp: jeq_def)
  then have "list_all2 jeq vs ws"
    by (auto simp: list_all2_conv_all_nth jeq_def list_eq_iff_nth_eq)
  with JArr show ?thesis by blast
qed (auto simp: jeq_def)

lemma jeq_obj:
  assumes "jeq (JObj ps) w"
  obtains qs where "w = JObj qs" "set (obj_keys qs) = set (obj_keys ps)" "\<And>k. jeq (obj_get ps k) (obj_get qs k)"
    "distinct (obj_keys ps)" "distinct (obj_keys qs)"
proof (cases w)
  case (JObj qs)
  with assms have e: "sort_props ps = sort_props qs" and d: "distinct (obj_keys ps)" "distinct (obj_keys qs)"
    and v: "\<forall>p \<in> set ps. json_value (snd p)" "\<forall>p \<in> set qs. json_value (snd p)"
    by (auto simp: jeq_def)
  have k: "set (obj_keys qs) = set (obj_keys ps)" using keys_sort_props d e by metis
  have "jeq (obj_get ps k) (obj_get qs k)" for k
  proof (cases "k \<in> set (obj_keys ps)")
    case True
    obtain a where a: "(k, a) \<in> set ps" using True by auto
    have "k \<in> set (obj_keys qs)" using True k by simp
    then obtain b where b: "(k, b) \<in> set qs" by auto
    have "json_value a" "json_value b" using a b v by auto
    moreover have "obj_get ps k = a" "obj_get qs k = b" by (rule obj_get_iff [OF d(1) a], rule obj_get_iff [OF d(2) b])
    moreover have "sortJson (obj_get ps k) = sortJson (obj_get qs k)"
      using obj_get_sort_props d e by metis
    ultimately show ?thesis by (simp add: jeq_def)
  next
    case False
    with k show ?thesis by (simp add: obj_get_absent jeq_def)
  qed
  with JObj k d that show thesis by blast
qed (use assms in \<open>auto simp: jeq_def\<close>)


section \<open>Copies do not depend on the order of keys\<close>

fun finite_numbers :: "jv \<Rightarrow> bool" where
  "finite_numbers (JNum n) \<longleftrightarrow> (case n of NNaN \<Rightarrow> False | NInf _ \<Rightarrow> False | _ \<Rightarrow> True)"
| "finite_numbers (JArr vs) \<longleftrightarrow> (\<forall>v \<in> set vs. finite_numbers v)"
| "finite_numbers (JObj ps) \<longleftrightarrow> (\<forall>p \<in> set ps. finite_numbers (snd p))"
| "finite_numbers _ \<longleftrightarrow> True"

lemma clone_finite: "json_value v \<Longrightarrow> finite_numbers v \<Longrightarrow> cloneJsonValue v p = Inr (sortJson v)"
proof (induction v p rule: cloneJsonValue.induct)
  case (1 v p)
  show ?case
  proof (cases v)
    case (JArr vs)
    have "mapE_idx (\<lambda>i x. cloneJsonValue x (p @ [Idx i])) 0 vs = Inr (map sortJson vs)"
      by (rule mapE_idx_Inr_all) (use 1 JArr in auto)
    then show ?thesis by (simp add: JArr cloneJsonValue.simps [of "JArr vs"])
  next
    case (JObj ps)
    have "mapE (\<lambda>q. bindE (cloneJsonValue (snd q) (p @ [Key (fst q)])) (\<lambda>w. Inr (fst q, w))) (sort_key fst ps)
        = Inr (map (\<lambda>q. (fst q, sortJson (snd q))) (sort_key fst ps))"
      by (rule mapE_Inr_all) (use 1 JObj in auto)
    then show ?thesis by (simp add: JObj cloneJsonValue.simps [of "JObj ps"] sort_props_def)
  qed (use 1 in \<open>auto simp: cloneJsonValue.simps split: jnum.splits\<close>)
qed

lemma mapE_domain: "mapE f xs = Inr ys \<Longrightarrow> x \<in> set xs \<Longrightarrow> \<exists>y. f x = Inr y"
  by (induction xs arbitrary: ys) (auto simp: bindE_Inr_iff)

lemma clone_needs_finite: "cloneJsonValue v p = Inr w \<Longrightarrow> finite_numbers v"
proof (induction v p arbitrary: w rule: cloneJsonValue.induct)
  case (1 v p)
  show ?case
  proof (cases v)
    case (JArr vs)
    then obtain ws where "mapE_idx (\<lambda>i x. cloneJsonValue x (p @ [Idx i])) 0 vs = Inr ws"
      using "1.prems" by (auto simp: JArr cloneJsonValue.simps [of "JArr vs"] bindE_Inr_iff)
    then have "\<exists>i y. cloneJsonValue x (p @ [Idx i]) = Inr y" if "x \<in> set vs" for x
      using that by (auto simp: mapE_idx_Inr_iff in_set_conv_nth)
    with "1.IH"(1) [OF JArr] JArr show ?thesis by fastforce
  next
    case (JObj ps)
    let ?f = "\<lambda>q. bindE (cloneJsonValue (snd q) (p @ [Key (fst q)])) (\<lambda>w. Inr (fst q, w))"
    obtain qs where m: "mapE ?f (sort_key fst ps) = Inr qs"
      using "1.prems" by (auto simp: JObj cloneJsonValue.simps [of "JObj ps"] bindE_Inr_iff)
    have "\<exists>y. ?f x = Inr y" if "x \<in> set (sort_key fst ps)" for x
      by (rule mapE_domain [OF m that])
    then have "\<exists>w. cloneJsonValue (snd x) (p @ [Key (fst x)]) = Inr w" if "x \<in> set (sort_key fst ps)" for x
      using that by (auto simp: bindE_Inr_iff)
    with "1.IH"(2) [OF JObj] JObj show ?thesis by (auto; metis set_sort)
  qed (use "1.prems" in \<open>auto simp: cloneJsonValue.simps split: jnum.splits\<close>)
qed

lemma finite_sortJson: "json_value v \<Longrightarrow> finite_numbers (sortJson v) = finite_numbers v"
proof (induction v rule: sortJson.induct)
  case (1 v)
  show ?case
  proof (cases v)
    case (JArr vs)
    with 1 show ?thesis by auto
  next
    case (JObj ps)
    then have "set (sort_props ps) = (\<lambda>p. (fst p, sortJson (snd p))) ` set ps"
      using "1.prems" by (simp add: sort_props_spec(1))
    with JObj 1 show ?thesis by auto
  qed (use "1.prems" in auto)
qed

lemma jeq_clone: "jeq v w \<Longrightarrow> cloneJsonValue v p = Inr x \<Longrightarrow> cloneJsonValue w q = Inr x"
proof -
  assume j: "jeq v w" and c: "cloneJsonValue v p = Inr x"
  have "v \<noteq> JUndef" using c by (auto simp: cloneJsonValue.simps [of JUndef])
  with j have v: "json_value v" "json_value w" "sortJson v = sortJson w" by (auto simp: jeq_def)
  moreover have "finite_numbers v" by (rule clone_needs_finite [OF c])
  ultimately have "finite_numbers w" using finite_sortJson by metis
  with v c clone_finite [OF v(1) \<open>finite_numbers v\<close>, of p] clone_finite [OF v(2), of q] show ?thesis by simp
qed

lemma jeq_cloneObject: "jeq v w \<Longrightarrow> cloneJsonObject v p = Inr x \<Longrightarrow> cloneJsonObject w q = Inr x"
  by (auto simp: cloneJsonObject_Inr dest: jeq_clone elim: jeq_obj)

section \<open>Parsing does not depend on the order of keys\<close>

lemma require_keys_Inr: "require_keys ps p ks = Inr () \<longleftrightarrow> set ks \<subseteq> set (obj_keys ps)"
  by (induction ks) (auto simp: obj_has_def)

lemma allow_keys_Inr: "allow_keys al p ks = Inr () \<longleftrightarrow> set ks \<subseteq> set al"
  by (induction ks) auto

lemma requireExactKeys_Inr:
  "requireExactKeys ps req opt p = Inr u \<longleftrightarrow> set req \<subseteq> set (obj_keys ps) \<and> set (obj_keys ps) \<subseteq> set req \<union> set opt"
  using require_keys_Inr [of ps p req] allow_keys_Inr [of "req @ opt" p "obj_keys ps"]
  by (auto simp: requireExactKeys_def bindE_Inr_iff)

text \<open>A result that refines another: it is the same whenever the other is a success.\<close>

definition res_le :: "'e + 'a \<Rightarrow> 'e + 'a \<Rightarrow> bool" where
  "res_le r s \<longleftrightarrow> (\<forall>x. r = Inr x \<longrightarrow> s = Inr x)"

definition obj_eq :: "jobj \<Rightarrow> jobj \<Rightarrow> bool" where
  "obj_eq ps qs \<longleftrightarrow> set (obj_keys qs) = set (obj_keys ps) \<and> (\<forall>k. jeq (obj_get ps k) (obj_get qs k))"

lemma res_le_refl: "res_le r r"
  by (simp add: res_le_def)

lemma res_le_fail: "res_le (Inl e) s"
  by (simp add: res_le_def)

lemma res_le_bind: "res_le m m' \<Longrightarrow> (\<And>x. res_le (f x) (g x)) \<Longrightarrow> res_le (bindE m f) (bindE m' g)"
  by (auto simp: res_le_def bindE_Inr_iff)

lemma res_le_if: "b = c \<Longrightarrow> (b \<Longrightarrow> res_le x y) \<Longrightarrow> (\<not> b \<Longrightarrow> res_le x' y') \<Longrightarrow> res_le (if b then x else x') (if c then y else y')"
  by simp

lemma obj_eqD: "obj_eq ps qs \<Longrightarrow> jeq (obj_get ps k) (obj_get qs k)"
  by (simp add: obj_eq_def)

lemma res_le_record:
  "jeq v w \<Longrightarrow> (\<And>ps qs. obj_eq ps qs \<Longrightarrow> distinct (obj_keys ps) \<Longrightarrow> distinct (obj_keys qs) \<Longrightarrow> res_le (f ps) (g qs)) \<Longrightarrow>
   res_le (bindE (requireRecord v p) f) (bindE (requireRecord w q) g)"
proof (cases v)
  case (JObj ps)
  assume j: "jeq v w" and c: "\<And>ps qs. obj_eq ps qs \<Longrightarrow> distinct (obj_keys ps) \<Longrightarrow> distinct (obj_keys qs) \<Longrightarrow> res_le (f ps) (g qs)"
  from j JObj obtain qs where "w = JObj qs" "obj_eq ps qs" "distinct (obj_keys ps)" "distinct (obj_keys qs)"
    by (auto simp: obj_eq_def elim: jeq_obj)
  with c JObj show ?thesis by (simp add: requireRecord_def)
qed (simp_all add: requireRecord_def res_le_def)

lemma res_le_array:
  "jeq v w \<Longrightarrow> (\<And>vs ws. list_all2 jeq vs ws \<Longrightarrow> res_le (f vs) (g ws)) \<Longrightarrow>
   res_le (bindE (requireArray v p) f) (bindE (requireArray w q) g)"
proof (cases v)
  case (JArr vs)
  assume j: "jeq v w" and c: "\<And>vs ws. list_all2 jeq vs ws \<Longrightarrow> res_le (f vs) (g ws)"
  from j JArr obtain ws where "w = JArr ws" "list_all2 jeq vs ws" using jeq_arr by blast
  with c JArr show ?thesis by (simp add: requireArray_def)
qed (simp_all add: requireArray_def res_le_def)

lemma res_le_keys: "obj_eq ps qs \<Longrightarrow> res_le (requireExactKeys ps r op p) (requireExactKeys qs r op q)"
  by (simp add: res_le_def requireExactKeys_Inr obj_eq_def)

lemma res_le_mapE_idx:
  assumes "list_all2 jeq vs ws" "\<And>k v w. jeq v w \<Longrightarrow> res_le (f k v) (g k w)"
  shows "res_le (mapE_idx f i vs) (mapE_idx g i ws)"
  using assms by (auto simp: res_le_def mapE_idx_Inr_iff list_all2_conv_all_nth)

lemma res_le_checks:
  assumes "jeq v w"
  shows "res_le (requireNonEmptyString v p) (requireNonEmptyString w q)"
    "res_le (requireString v p) (requireString w q)"
    "res_le (requireNonNegativeSafeInteger v p) (requireNonNegativeSafeInteger w q)"
    "res_le (requirePositiveSafeInteger v p) (requirePositiveSafeInteger w q)"
    "res_le (requireBoolean v p) (requireBoolean w q)"
    "res_le (cloneJsonObject v p) (cloneJsonObject w q)"
    "res_le (parse_reason v p) (parse_reason w q)"
    "res_le (require (v = jint i) p r) (require (w = jint i) q r')"
  using jeq_atoms [OF assms] jeq_cloneObject [OF assms]
  by (auto simp: res_le_def requireNonEmptyString_Inr requireString_Inr requireNonNegative_Inr requirePositive_Inr
      requireBoolean_Inr parse_reason_def require_Inr)

lemma res_le_entry_id: "jeq v w \<Longrightarrow> res_le (parseNullableEntryId v p) (parseNullableEntryId w q)"
  using jeq_atoms [of v w] by (auto simp: res_le_def parseNullableEntryId_Inr null_or_def split: option.splits)

lemma res_le_optional:
  "jeq v w \<Longrightarrow> (\<And>p q. jeq v w \<Longrightarrow> res_le (f v) (g w)) \<Longrightarrow> res_le (parse_optional v f) (parse_optional w g)"
  using jeq_atoms(5) [of v w] by (auto simp: res_le_def parse_optional_Inr)

lemmas res_le_intros = res_le_record res_le_array res_le_bind res_le_keys res_le_mapE_idx res_le_checks res_le_entry_id
  res_le_optional res_le_refl res_le_fail obj_eqD

lemma res_le_call: "jeq v w \<Longrightarrow> res_le (parse_call p i v) (parse_call q i w)"
  unfolding parse_call_def Let_def by (intro res_le_intros)

lemma res_le_native: "jeq v w \<Longrightarrow> res_le (parse_native_block p i v) (parse_native_block q i w)"
  unfolding parse_native_block_def Let_def
  by (intro res_le_intros) (auto simp: res_le_def require_Inr)

lemma jeq_str_of: "jeq v w \<Longrightarrow> str_of v = str_of w"
  by (cases v; cases w; auto simp: jeq_def)

lemma res_le_decimal: "jeq v w \<Longrightarrow>
  res_le (require (case v of JStr s \<Rightarrow> positive_decimal s | _ \<Rightarrow> False) a r) (require (case w of JStr s \<Rightarrow> positive_decimal s | _ \<Rightarrow> False) b r')"
  by (cases v; cases w; auto simp: jeq_def res_le_def require_Inr)

lemma obj_eq_str: "obj_eq ps qs \<Longrightarrow> obj_get ps k = JStr s \<longleftrightarrow> obj_get qs k = JStr s"
  by (rule jeq_atoms(1)) (rule obj_eqD)

lemma obj_eq_str_of: "obj_eq ps qs \<Longrightarrow> str_of (obj_get ps k) = str_of (obj_get qs k)"
  by (rule jeq_str_of) (rule obj_eqD)

lemma res_le_block: "jeq v w \<Longrightarrow> res_le (parse_block p i v) (parse_block q i w)"
  unfolding parse_block_def Let_def
  by (intro res_le_record res_le_if obj_eq_str res_le_intros res_le_decimal; (assumption | simp add: obj_eq_str_of obj_eqD res_le_refl)?)


lemma res_le_content: "jeq v w \<Longrightarrow> res_le (parseToolResultContent v p) (parseToolResultContent w q)"
proof (cases v)
  case (JArr vs)
  assume "jeq v w"
  with JArr obtain ws where w: "w = JArr ws" "list_all2 jeq vs ws" using jeq_arr by blast
  show ?thesis unfolding parseToolResultContent_def JArr w(1) jv.case
    by (intro res_le_intros w(2) res_le_block)
next
  case (JStr s)
  assume "jeq v w"
  with JStr have "w = JStr s" by (simp add: jeq_atoms(1))
  with JStr show ?thesis by (simp add: parseToolResultContent_def res_le_def)
qed (simp_all add: parseToolResultContent_def res_le_fail)

lemma res_le_message: "jeq v w \<Longrightarrow> res_le (parseDurableAgentMessage v p) (parseDurableAgentMessage w q)"
  unfolding parseDurableAgentMessage_def
  by (intro res_le_record res_le_if obj_eq_str res_le_array res_le_intros res_le_content res_le_call res_le_native;
      (assumption | simp add: obj_eqD res_le_refl)?)

lemma res_le_message_payload: "jeq v w \<Longrightarrow> res_le (parseMessagePayload v p) (parseMessagePayload w q)"
  unfolding parseMessagePayload_def
  by (intro res_le_record res_le_bind res_le_keys res_le_checks(8) res_le_message; (assumption | rule obj_eqD)?)

lemma sort_keys_eq: "distinct xs \<Longrightarrow> distinct ys \<Longrightarrow> set xs = set ys \<Longrightarrow> sort xs = sort (ys :: jstr list)"
  by (rule sorted_distinct_set_unique) simp_all

lemma res_le_attention_cursor:
  "obj_eq ps qs \<Longrightarrow> res_le (parse_attention_cursor p ps k) (parse_attention_cursor q qs k)"
  unfolding parse_attention_cursor_def Let_def
  by (intro res_le_record res_le_bind res_le_keys res_le_checks res_le_optional res_le_refl;
      (assumption | rule obj_eqD, assumption | simp add: res_le_def require_Inr)?)

lemma res_le_mapE: "(\<And>x. res_le (f x) (g x)) \<Longrightarrow> res_le (mapE f xs) (mapE g xs)"
  by (induction xs) (auto simp: res_le_def bindE_Inr_iff)

lemma res_le_attention: "jeq v w \<Longrightarrow> res_le (parseMailboxAttentionState v p) (parseMailboxAttentionState w q)"
  unfolding parseMailboxAttentionState_def
proof (erule res_le_record)
  fix ps qs assume o: "obj_eq ps qs" and d: "distinct (obj_keys ps)" "distinct (obj_keys qs)"
  have "sort (obj_keys qs) = sort (obj_keys ps)"
    by (rule sort_keys_eq) (use d o in \<open>auto simp: obj_eq_def\<close>)
  then show "res_le (mapE (parse_attention_cursor p ps) (sort (obj_keys ps))) (mapE (parse_attention_cursor q qs) (sort (obj_keys qs)))"
    using res_le_mapE [of "parse_attention_cursor p ps" "parse_attention_cursor q qs"] res_le_attention_cursor [OF o] by simp
qed

lemma res_le_compaction_payload: "jeq v w \<Longrightarrow> res_le (parseCompactionPayload v p) (parseCompactionPayload w q)"
  unfolding parseCompactionPayload_def Let_def
  by (intro res_le_record res_le_bind res_le_keys res_le_checks res_le_entry_id res_le_attention res_le_refl;
      (assumption | rule obj_eqD)?)

lemma res_le_focus: "jeq v w \<Longrightarrow> res_le (parseConversationFocus v p) (parseConversationFocus w q)"
  unfolding parseConversationFocus_def
  by (intro res_le_if res_le_record res_le_bind res_le_keys res_le_checks res_le_refl res_le_fail obj_eq_str;
      (assumption | simp add: jeq_atoms obj_eqD obj_eq_str)?)

end
