(* ===== verification/Ledger_Properties.thy ===== *)
theory Ledger_Properties
  imports Projection_Facts Json_Order
begin

text \<open>
  The properties of the permanent ledger's parser and of its projection, with their witnesses.
\<close>

section \<open>A sample ledger\<close>

definition sample_runtime :: "int option \<Rightarrow> runtime_state" where
  "sample_runtime h = \<lparr>rs_mailboxCursors = [], rs_inboxReadCursors = [], rs_mailboxContinuity = [],
     rs_focus = None, rs_lastWakeAt = None, rs_head = h\<rparr>"

definition sample_call :: tool_call where
  "sample_call = \<lparr>tc_id = js ''c1'', tc_name = js ''pause'', tc_args = []\<rparr>"

definition sample_first :: "ledger_entry list" where
  "sample_first = [MessageEntry 1 (UserMsg (js ''hello'')) 0]"

definition sample_more :: "ledger_entry list" where
  "sample_more = [MessageEntry 2 (AssistantMsg [] [sample_call] None) 0, MessageEntry 3 (ToolMsg (js ''c1'') (TextContent (js ''ok''))) 0]"

lemma sample_calls: "json_copy []" "call_norm sample_call" "\<not> blank (js ''c1'')"
proof -
  show "json_copy []" by (simp add: json_copy_def cloneJsonValue.simps obj_of_def)
  show "\<not> blank (js ''c1'')" by (simp add: blank_iff is_space_def js_def)
  moreover have "\<not> blank (js ''pause'')" by (simp add: blank_iff is_space_def js_def)
  ultimately show "call_norm sample_call" using \<open>json_copy []\<close> by (simp add: call_norm_def call_ok_def sample_call_def)
qed

lemma sample_text: "tool_text_ok (js ''ok'')"
  by (simp add: tool_text_ok_def trim_def trim_end_def json_like_def is_space_def js_def starts_with_def)

lemma sample_norm: "list_all entry_norm (sample_first @ sample_more)" "runtime_norm (sample_runtime (Some 1))"
  "runtime_norm (sample_runtime (Some 3))"
  using sample_calls sample_text
  by (simp_all add: sample_first_def sample_more_def runtime_norm_def sample_runtime_def focus_ok_def)

lemma sample_valid: "runtime_valid (sample_runtime h)"
  by (simp add: runtime_valid_def sample_runtime_def focus_ok_def cursors_ok_def validateMailboxContinuity_def bad_optional_int_def)


section \<open>The validator\<close>

text \<open>C6. The snapshot validator accepts a snapshot exactly when its schema version is current, it can
  be serialised, its focus, cursors and continuity are valid, and its messages form a legal
  history: every assistant turn with tool calls is followed at once by the results of those calls in
  order, no call id is used twice, and no result stands alone.\<close>

theorem validator_accepts_exactly_legal_histories:
  "ir_ok (validateBotSnapshotIntegrity (snapshot_jv s) cursors continuity) =
     (ps_schemaVersion s = snapshot_schema_version \<and> \<not> stringify_throws (snapshot_jv s)
     \<and> focus_ok (ps_focus s) \<and> legal_history (ps_messages s)
     \<and> cursors_ok cursors \<and> validateMailboxContinuity continuity = [])"
  by (rule integrity_iff)

section \<open>Parsing\<close>

text \<open>Parsing an entry and writing the result back gives something that parses to the same entry,
  at any position of the ledger: parsing normalises once.\<close>

theorem parse_entry_idempotent:
  assumes "parseAgentLedgerEntry v i = Inr e"
  shows "parseAgentLedgerEntry (entry_jv e) j = Inr e"
  by (rule parse_entry_jv [OF parse_entry_norm [OF assms]])

theorem parse_entry_idempotent_witness:
  "parseAgentLedgerEntry (entry_jv (hd sample_first)) 7 = Inr (hd sample_first)"
proof -
  have "parseAgentLedgerEntry (entry_jv (hd sample_first)) 0 = Inr (hd sample_first)"
    using sample_norm(1) by (intro parse_entry_jv) (simp add: sample_first_def)
  then show ?thesis by (rule parse_entry_idempotent)
qed

text \<open>Parsing a runtime state and writing it back is stable in the same way.\<close>

theorem parse_runtime_idempotent:
  assumes "parseAgentRuntimeState v = Inr rs"
  shows "parseAgentRuntimeState (runtime_state_jv rs) = Inr rs"
  by (rule parse_runtime_jv [OF parse_runtime_norm [OF assms]])

theorem parse_runtime_idempotent_witness:
  "parseAgentRuntimeState (runtime_state_jv (sample_runtime (Some 1))) = Inr (sample_runtime (Some 1))"
  using parse_runtime_idempotent [of "runtime_state_jv (sample_runtime (Some 1))"] parse_runtime_jv [OF sample_norm(2)]
  by blast

lemma res_leD: "res_le r s \<Longrightarrow> r = Inr x \<Longrightarrow> s = Inr x"
  by (simp add: res_le_def)

lemma jeq_swap:
  assumes "json_value v" "json_value w" "j \<noteq> k"
  shows "jeq (JObj [(j, v), (k, w)]) (JObj [(k, w), (j, v)])"
proof -
  have "sort_key fst [(j, v), (k, w)] = sort_key fst [(k, w), (j, v)]" using assms(3) by auto
  then show ?thesis using assms by (simp add: jeq_def sort_props_def)
qed

text \<open>A stored payload whose keys come back in another order, as a JSON column may give them, parses
  to the same message and to the same compaction.\<close>

theorem payload_key_order_irrelevant:
  assumes "jeq v w"
  shows "(parseMessagePayload v p = Inr m) = (parseMessagePayload w p = Inr m)
    \<and> (parseCompactionPayload v p = Inr c) = (parseCompactionPayload w p = Inr c)"
proof (intro conjI iffI)
  note sym = jeq_sym [OF assms]
  show "parseMessagePayload v p = Inr m \<Longrightarrow> parseMessagePayload w p = Inr m"
    by (rule res_leD [OF res_le_message_payload [OF assms]])
  show "parseMessagePayload w p = Inr m \<Longrightarrow> parseMessagePayload v p = Inr m"
    by (rule res_leD [OF res_le_message_payload [OF sym]])
  show "parseCompactionPayload v p = Inr c \<Longrightarrow> parseCompactionPayload w p = Inr c"
    by (rule res_leD [OF res_le_compaction_payload [OF assms]])
  show "parseCompactionPayload w p = Inr c \<Longrightarrow> parseCompactionPayload v p = Inr c"
    by (rule res_leD [OF res_le_compaction_payload [OF sym]])
qed

theorem payload_key_order_irrelevant_witness:
  "parseMessagePayload (JObj [(js ''message'', message_jv (UserMsg [])), (js ''schemaVersion'', jint 1)]) [] = Inr (UserMsg [])"
proof -
  have "jeq (message_payload_jv (UserMsg [])) (JObj [(js ''message'', message_jv (UserMsg [])), (js ''schemaVersion'', jint 1)])"
    unfolding message_payload_jv_def agent_ledger_schema_version_def by (rule jeq_swap) simp_all
  moreover have "parseMessagePayload (message_payload_jv (UserMsg [])) [] = Inr (UserMsg [])"
    by (simp add: parseMessagePayload_def message_payload_jv_def requireRecord_def requireExactKeys_def parse_message_jv
        del: message_jv.simps)
  ultimately show ?thesis using payload_key_order_irrelevant by blast
qed

section \<open>Projections\<close>

text \<open>C11. What a successful projection consists of: the ids increase, the head of the runtime state is the
  last entry, the whole history is legal, the messages projected are the summary and the state of the
  last compaction followed by a suffix of all messages, and they form a legal history as well.\<close>

theorem projection_shape:
  assumes "projectAgentLedger vs w = Inr pr"
  shows "\<exists>es rs latest pre active.
      mapE_idx (\<lambda>i v. parseAgentLedgerEntry v i) 0 vs = Inr es \<and> parseAgentRuntimeState w = Inr rs
    \<and> ids_increase es \<and> rs_head rs = last_id es \<and> throughEntryId pr = last_id es
    \<and> permanentEntryCount pr = length vs \<and> activeEntryCount pr = length active
    \<and> validateCompactionChain es = Inr latest \<and> entry_messages es = pre @ active
    \<and> ps_messages (proj_snapshot pr) = head_messages latest @ active
    \<and> legal_history (entry_messages es) \<and> legal_history (ps_messages (proj_snapshot pr))"
proof -
  obtain es rs where e: "mapE_idx (\<lambda>i v. parseAgentLedgerEntry v i) 0 vs = Inr es" "parseAgentRuntimeState w = Inr rs"
      "list_all entry_norm es" "assertStrictlyIncreasingIds es = Inr ()" "project_entries es rs = Inr pr"
    by (rule projectAgentLedger_Inr [OF assms])
  obtain latest active where la: "validateCompactionChain es = Inr latest" "selectActiveMessages es latest = Inr active"
      "legal_history active" "rs_head rs = last_id es" "legal_history (entry_messages es)"
      "pr = \<lparr>throughEntryId = last_id es, activeEntryCount = length active, permanentEntryCount = length es,
               proj_snapshot = snapshot_of (head_messages latest @ active) rs\<rparr>"
    using e(5) by (auto simp: project_entries_Inr [OF e(3)])
  have ids: "ids_increase es" using e(4) by (simp add: assertStrictlyIncreasingIds_Inr)
  obtain pre where "entry_messages es = pre @ active" using active_suffix [OF ids la(2)] by blast
  moreover have "length es = length vs" using e(1) by (simp add: mapE_idx_Inr_iff)
  moreover have "legal_history (head_messages latest @ active)"
    using la(3) head_messages_legal(1) [OF e(3) la(1)] by simp
  ultimately show ?thesis using e la ids by (auto simp: snapshot_of_def)
qed

lemma sample_projects: "\<exists>pr. projectAgentLedger (map entry_jv sample_first) (runtime_state_jv (sample_runtime (Some 1))) = Inr pr"
proof -
  have n: "list_all entry_norm sample_first" using sample_norm(1) by simp
  have "assertStrictlyIncreasingIds sample_first = Inr ()"
    by (simp add: sample_first_def assertStrictlyIncreasingIds_def)
  moreover have "\<exists>pr. project_entries sample_first (sample_runtime (Some 1)) = Inr pr"
    using sample_valid [of "Some 1"]
    by (simp only: project_entries_Inr [OF n])
      (simp add: sample_first_def sample_runtime_def last_id_def legal_history_iff
        validateCompactionChain_def selectActiveMessages_def)
  ultimately show ?thesis by (simp add: projectAgentLedger_typed [OF n sample_norm(2)])
qed

theorem projection_shape_witness:
  "\<exists>pr es. projectAgentLedger (map entry_jv sample_first) (runtime_state_jv (sample_runtime (Some 1))) = Inr pr
     \<and> mapE_idx (\<lambda>i v. parseAgentLedgerEntry v i) 0 (map entry_jv sample_first) = Inr es
     \<and> throughEntryId pr = last_id es"
  using sample_projects projection_shape by blast



end
