(* ===== verification/Mailbox_Continuity.thy ===== *)
theory Mailbox_Continuity
  imports Inbox_Read_Cursors
begin

text \<open>
  \<open>src/agent/mailbox-continuity.ts\<close>: how long ago, in time, rounds and tokens, each mailbox was
  last shown to the model, from which the amount of context repeated with the next messages is
  decided, and the engagement leases.  The lemmas show that reading a stored state always gives
  one the integrity check accepts, and what each event does to the later decisions.
\<close>

record continuity_anchor =
  ca_lastMessageAtMs :: int
  ca_roundSeq :: int
  ca_inputTokens :: "int option"
  ca_compactionEpoch :: int
  ca_engagedUntilMs :: "int option"

record continuity_state =
  cs_roundSeq :: int
  cs_lastInputTokens :: "int option"
  cs_compactionEpoch :: int
  cs_mailboxes :: "(jstr \<times> continuity_anchor) list"

definition continuity_schema_version :: int where
  "continuity_schema_version = 2"

definition light_compensation_after_ms :: int where
  "light_compensation_after_ms = 2 * 60 * 60 * 1000"

definition full_compensation_after_rounds :: int where
  "full_compensation_after_rounds = 30"

definition full_compensation_after_tokens :: int where
  "full_compensation_after_tokens = 128000"

definition light_context_before :: int where
  "light_context_before = 1"

definition full_context_before :: int where
  "full_context_before = 8"

definition engagement_lease_ms :: int where
  "engagement_lease_ms = 30 * 60 * 1000"

section \<open>Reading a stored state\<close>

definition createEmptyMailboxContinuityState :: continuity_state where
  "createEmptyMailboxContinuityState =
     \<lparr>cs_roundSeq = 0, cs_lastInputTokens = None, cs_compactionEpoch = 0, cs_mailboxes = []\<rparr>"

text \<open>\<open>nonNegativeInteger\<close>; it gives \<open>null\<close> for \<open>null\<close> too, so it is
  \<open>nullableNonNegativeInteger\<close> as well.\<close>

definition nonNegativeInteger :: "jv \<Rightarrow> int option" where
  "nonNegativeInteger v = (if isNonNegativeSafeInteger v then Some (num_of v) else None)"

definition nullableNonNegativeInteger :: "jv \<Rightarrow> int option" where
  "nullableNonNegativeInteger v = (if v = JUndef \<or> v = JNull then None else nonNegativeInteger v)"

definition parseAnchor :: "jv \<Rightarrow> continuity_anchor option" where
  "parseAnchor v =
     (case as_record v of
        None \<Rightarrow> None
      | Some ob \<Rightarrow>
          (case (nonNegativeInteger (obj_get ob (js ''lastMessageAtMs'')),
                 nonNegativeInteger (obj_get ob (js ''roundSeq'')),
                 nonNegativeInteger (obj_get ob (js ''compactionEpoch''))) of
             (Some l, Some r, Some c) \<Rightarrow>
               Some \<lparr>ca_lastMessageAtMs = l, ca_roundSeq = r,
                     ca_inputTokens = nullableNonNegativeInteger (obj_get ob (js ''inputTokens'')),
                     ca_compactionEpoch = c,
                     ca_engagedUntilMs = nonNegativeInteger (obj_get ob (js ''engagedUntilMs''))\<rparr>
           | _ \<Rightarrow> None))"

fun parse_anchors :: "jobj \<Rightarrow> (jstr \<times> continuity_anchor) list" where
  "parse_anchors [] = []"
| "parse_anchors ((k, v) # ps) =
     (if is_mailbox_key k
      then (case parseAnchor v of None \<Rightarrow> parse_anchors ps | Some a \<Rightarrow> (k, a) # parse_anchors ps)
      else parse_anchors ps)"

definition parseMailboxContinuityState :: "jv \<Rightarrow> continuity_state" where
  "parseMailboxContinuityState v =
     (case as_record v of
        None \<Rightarrow> createEmptyMailboxContinuityState
      | Some ob \<Rightarrow>
          \<lparr>cs_roundSeq = (case nonNegativeInteger (obj_get ob (js ''roundSeq'')) of None \<Rightarrow> 0 | Some i \<Rightarrow> i),
           cs_lastInputTokens = nullableNonNegativeInteger (obj_get ob (js ''lastInputTokens'')),
           cs_compactionEpoch = (case nonNegativeInteger (obj_get ob (js ''compactionEpoch'')) of None \<Rightarrow> 0 | Some i \<Rightarrow> i),
           cs_mailboxes = (case as_record (obj_get ob (js ''mailboxes'')) of None \<Rightarrow> [] | Some ms \<Rightarrow> parse_anchors ms)\<rparr>)"

text \<open>The object of a state.\<close>

definition anchor_jv :: "continuity_anchor \<Rightarrow> jv" where
  "anchor_jv a = JObj ([(js ''lastMessageAtMs'', jint (ca_lastMessageAtMs a)), (js ''roundSeq'', jint (ca_roundSeq a)),
     (js ''inputTokens'', null_or jint (ca_inputTokens a)), (js ''compactionEpoch'', jint (ca_compactionEpoch a))]
     @ opt_prop ''engagedUntilMs'' jint (ca_engagedUntilMs a))"

definition continuity_jv :: "continuity_state \<Rightarrow> jv" where
  "continuity_jv s = JObj [(js ''schemaVersion'', jint continuity_schema_version), (js ''roundSeq'', jint (cs_roundSeq s)),
     (js ''lastInputTokens'', null_or jint (cs_lastInputTokens s)), (js ''compactionEpoch'', jint (cs_compactionEpoch s)),
     (js ''mailboxes'', JObj (map (\<lambda>(k, a). (k, anchor_jv a)) (cs_mailboxes s)))]"

section \<open>Decisions\<close>

datatype compensation_mode = NoCompensation | Light | Full

record compensation_decision =
  cd_mode :: compensation_mode
  cd_contextBefore :: int
  cd_elapsedMs :: "int option"
  cd_roundsSince :: "int option"
  cd_tokensSince :: "int option"
  cd_compactionChanged :: bool

definition anchor_of :: "continuity_state \<Rightarrow> jstr \<Rightarrow> continuity_anchor option" where
  "anchor_of s k = map_of (cs_mailboxes s) k"

definition decideMailboxCompensation :: "continuity_state \<Rightarrow> jstr \<Rightarrow> int \<Rightarrow> compensation_decision" where
  "decideMailboxCompensation s mailboxKey messageAtMs =
     (case anchor_of s mailboxKey of
        None \<Rightarrow> \<lparr>cd_mode = NoCompensation, cd_contextBefore = 0, cd_elapsedMs = None, cd_roundsSince = None,
                 cd_tokensSince = None, cd_compactionChanged = False\<rparr>
      | Some a \<Rightarrow>
          (let elapsed = max 0 (messageAtMs - ca_lastMessageAtMs a);
               rounds = max 0 (cs_roundSeq s - ca_roundSeq a);
               tokens = (case (cs_lastInputTokens s, ca_inputTokens a) of
                           (Some x, Some y) \<Rightarrow> Some (max 0 (x - y)) | _ \<Rightarrow> None);
               changed = (cs_compactionEpoch s \<noteq> ca_compactionEpoch a);
               is_full = (changed \<or> full_compensation_after_rounds \<le> rounds
                 \<or> (case tokens of None \<Rightarrow> False | Some t \<Rightarrow> full_compensation_after_tokens \<le> t));
               (mode, before) =
                 (if is_full then (Full, full_context_before)
                  else if light_compensation_after_ms \<le> elapsed then (Light, light_context_before)
                  else (NoCompensation, 0))
           in \<lparr>cd_mode = mode, cd_contextBefore = before, cd_elapsedMs = Some elapsed,
               cd_roundsSince = Some rounds, cd_tokensSince = tokens, cd_compactionChanged = changed\<rparr>))"

section \<open>Events\<close>

datatype continuity_error =
    ContinuityInvalidKey jstr
  | EngagementTime
  | EngagementLease
  | EngagementExpiry

definition set_anchor :: "continuity_state \<Rightarrow> jstr \<Rightarrow> continuity_anchor \<Rightarrow> continuity_state" where
  "set_anchor s k a = s\<lparr>cs_mailboxes := obj_put (cs_mailboxes s) k a\<rparr>"

definition recordMailboxDisclosure :: "continuity_state \<Rightarrow> jstr \<Rightarrow> int \<Rightarrow> continuity_state" where
  "recordMailboxDisclosure s mailboxKey messageAtMs =
     (let current = anchor_of s mailboxKey in
      if (case current of None \<Rightarrow> False | Some a \<Rightarrow> messageAtMs < ca_lastMessageAtMs a) then s
      else set_anchor s mailboxKey
        \<lparr>ca_lastMessageAtMs = messageAtMs, ca_roundSeq = cs_roundSeq s, ca_inputTokens = cs_lastInputTokens s,
         ca_compactionEpoch = cs_compactionEpoch s,
         ca_engagedUntilMs = (case current of None \<Rightarrow> None | Some a \<Rightarrow> ca_engagedUntilMs a)\<rparr>)"

definition recordMailboxEngagement :: "continuity_state \<Rightarrow> jstr \<Rightarrow> int \<Rightarrow> int \<Rightarrow> continuity_error + continuity_state" where
  "recordMailboxEngagement s mailboxKey nowMs leaseMs =
     bindE (guardE (is_mailbox_key mailboxKey) (ContinuityInvalidKey mailboxKey)) (\<lambda>_.
     bindE (guardE (isNonNegativeSafeInteger (jint nowMs)) EngagementTime) (\<lambda>_.
     bindE (guardE (isPositiveSafeInteger (jint leaseMs)) EngagementLease) (\<lambda>_.
     bindE (guardE (isSafeInteger (jint (nowMs + leaseMs))) EngagementExpiry) (\<lambda>_.
       let current = anchor_of s mailboxKey in
       Inr (set_anchor s mailboxKey
         \<lparr>ca_lastMessageAtMs = max (case current of None \<Rightarrow> 0 | Some a \<Rightarrow> ca_lastMessageAtMs a) nowMs,
          ca_roundSeq = cs_roundSeq s, ca_inputTokens = cs_lastInputTokens s,
          ca_compactionEpoch = cs_compactionEpoch s,
          ca_engagedUntilMs = Some (max (case current of None \<Rightarrow> 0
              | Some a \<Rightarrow> (case ca_engagedUntilMs a of None \<Rightarrow> 0 | Some e \<Rightarrow> e)) (nowMs + leaseMs))\<rparr>)))))"

definition isMailboxEngaged :: "continuity_state \<Rightarrow> jstr \<Rightarrow> int \<Rightarrow> bool" where
  "isMailboxEngaged s mailboxKey nowMs \<longleftrightarrow>
     nowMs \<le> (case anchor_of s mailboxKey of None \<Rightarrow> - 1
               | Some a \<Rightarrow> (case ca_engagedUntilMs a of None \<Rightarrow> - 1 | Some e \<Rightarrow> e))"

definition recordMailboxRound :: "continuity_state \<Rightarrow> int option \<Rightarrow> continuity_state" where
  "recordMailboxRound s inputTokens =
     (let s1 = s\<lparr>cs_roundSeq := cs_roundSeq s + 1\<rparr> in
      case inputTokens of
        None \<Rightarrow> s1
      | Some t \<Rightarrow> if isNonNegativeSafeInteger (jint t) then s1\<lparr>cs_lastInputTokens := Some t\<rparr> else s1)"

definition recordMailboxCompaction :: "continuity_state \<Rightarrow> continuity_state" where
  "recordMailboxCompaction s = s\<lparr>cs_compactionEpoch := cs_compactionEpoch s + 1, cs_lastInputTokens := None\<rparr>"

section \<open>Stored states are sound\<close>

lemma nonNegativeInteger_bounds: "nonNegativeInteger v = Some i \<Longrightarrow> 0 \<le> i \<and> i \<le> max_safe"
  by (auto simp: nonNegativeInteger_def isNonNegativeSafeInteger_iff split: if_splits)

lemma nullable_bounds: "nullableNonNegativeInteger v = Some i \<Longrightarrow> 0 \<le> i \<and> i \<le> max_safe"
  by (auto simp: nullableNonNegativeInteger_def dest: nonNegativeInteger_bounds split: if_splits)

definition small :: "int \<Rightarrow> bool" where
  "small i \<longleftrightarrow> 0 \<le> i \<and> i \<le> max_safe"

definition small_opt :: "int option \<Rightarrow> bool" where
  "small_opt x = (case x of None \<Rightarrow> True | Some i \<Rightarrow> small i)"

definition anchor_ok :: "continuity_anchor \<Rightarrow> bool" where
  "anchor_ok a \<longleftrightarrow> small (ca_lastMessageAtMs a) \<and> small (ca_roundSeq a) \<and> small (ca_compactionEpoch a)
     \<and> small_opt (ca_inputTokens a) \<and> small_opt (ca_engagedUntilMs a)"

definition continuity_ok :: "continuity_state \<Rightarrow> bool" where
  "continuity_ok s \<longleftrightarrow> small (cs_roundSeq s) \<and> small_opt (cs_lastInputTokens s) \<and> small (cs_compactionEpoch s)
     \<and> (\<forall>(k, a) \<in> set (cs_mailboxes s). is_mailbox_key k \<and> anchor_ok a)"

lemma parseAnchor_ok: "parseAnchor v = Some a \<Longrightarrow> anchor_ok a"
  by (auto simp: parseAnchor_def anchor_ok_def small_def small_opt_def
      dest: nonNegativeInteger_bounds nullable_bounds split: option.splits)

lemma parse_anchors_ok: "\<forall>(k, a) \<in> set (parse_anchors ps). is_mailbox_key k \<and> anchor_ok a"
  by (induction ps rule: parse_anchors.induct) (auto split: option.splits dest: parseAnchor_ok)

lemma parse_continuity_ok: "continuity_ok (parseMailboxContinuityState v)"
  using parse_anchors_ok
  by (auto simp: parseMailboxContinuityState_def continuity_ok_def createEmptyMailboxContinuityState_def
      small_def small_opt_def max_safe_def
      dest: nonNegativeInteger_bounds [unfolded max_safe_def] nullable_bounds [unfolded max_safe_def] split: option.splits)

lemma small_jint [simp]: "isNonNegativeSafeInteger (jint i) \<longleftrightarrow> small i"
  by (simp add: isNonNegativeSafeInteger_iff small_def)

lemma bad_optional_jv [simp]: "bad_optional_int (null_or jint x) \<longleftrightarrow> \<not> small_opt x"
  by (cases x) (simp_all add: bad_optional_int_def null_or_def small_opt_def)

lemma bad_optional_jint [simp]: "bad_optional_int (jint i) \<longleftrightarrow> \<not> small i"
  by (simp add: bad_optional_int_def)

lemma bad_optional_undef [simp]: "\<not> bad_optional_int JUndef"
  by (simp add: bad_optional_int_def)

lemma small_opt_simps [simp]: "small_opt None" "small_opt (Some i) \<longleftrightarrow> small i"
  by (simp_all add: small_opt_def)

lemma validateAnchor_jv: "validateAnchor k (anchor_jv a) = [] \<longleftrightarrow> is_mailbox_key k \<and> anchor_ok a"
  by (cases "ca_engagedUntilMs a")
    (auto simp: validateAnchor_def anchor_jv_def as_record_def anchor_ok_def obj_get_append)

lemma validate_continuity_jv:
  "validateMailboxContinuity (continuity_jv s) = [] \<longleftrightarrow> continuity_ok s"
  by (auto simp: validateMailboxContinuity_def continuity_jv_def as_record_def continuity_ok_def validateAnchor_jv
      split_beta)

lemma nonNegativeInteger_small: "small i \<Longrightarrow> nonNegativeInteger (jint i) = Some i"
  by (simp add: nonNegativeInteger_def)

lemma nullable_jv: "small_opt x \<Longrightarrow> nullableNonNegativeInteger (null_or jint x) = x"
  by (cases x) (simp_all add: nullableNonNegativeInteger_def null_or_def small_opt_def nonNegativeInteger_small)

lemma nonNegativeInteger_opt: "small_opt x \<Longrightarrow> nonNegativeInteger (case x of None \<Rightarrow> JUndef | Some i \<Rightarrow> jint i) = x"
  by (cases x) (simp_all add: small_opt_def nonNegativeInteger_def isNonNegativeSafeInteger_def [of JUndef])

lemma parseAnchor_jv: "anchor_ok a \<Longrightarrow> parseAnchor (anchor_jv a) = Some a"
  by (simp add: parseAnchor_def anchor_jv_def as_record_def obj_get_append anchor_ok_def nonNegativeInteger_small
      nullable_jv nonNegativeInteger_opt)

lemma parse_anchors_jv:
  "\<forall>(k, a) \<in> set ms. is_mailbox_key k \<and> anchor_ok a \<Longrightarrow> parse_anchors (map (\<lambda>(k, a). (k, anchor_jv a)) ms) = ms"
  by (induction ms) (auto simp: parseAnchor_jv)

lemma parse_continuity_jv: "continuity_ok s \<Longrightarrow> parseMailboxContinuityState (continuity_jv s) = s"
  by (simp add: parseMailboxContinuityState_def continuity_jv_def as_record_def continuity_ok_def
      nonNegativeInteger_small nullable_jv parse_anchors_jv)

section \<open>What events do to decisions\<close>

lemma anchor_of_set [simp]:
  "is_mailbox_key k \<Longrightarrow> anchor_of (set_anchor s k a) x = (if x = k then Some a else anchor_of s x)"
  by (simp add: anchor_of_def set_anchor_def map_of_obj_put mailbox_key_not_index)

lemma set_anchor_rest [simp]:
  "cs_roundSeq (set_anchor s k a) = cs_roundSeq s"
  "cs_lastInputTokens (set_anchor s k a) = cs_lastInputTokens s"
  "cs_compactionEpoch (set_anchor s k a) = cs_compactionEpoch s"
  by (simp_all add: set_anchor_def)

text \<open>A mailbox just shown needs no compensation for messages of the next two hours.\<close>

lemma disclosed_no_compensation:
  assumes "is_mailbox_key k"
    and "anchor_of s k = None \<or> (\<exists>a. anchor_of s k = Some a \<and> ca_lastMessageAtMs a \<le> t)"
    and "t' < t + light_compensation_after_ms"
  shows "cd_mode (decideMailboxCompensation (recordMailboxDisclosure s k t) k t') = NoCompensation"
  using assms
  by (auto simp: decideMailboxCompensation_def recordMailboxDisclosure_def Let_def light_compensation_after_ms_def
      full_compensation_after_rounds_def full_compensation_after_tokens_def split: option.splits)

text \<open>After a compaction every known mailbox gets the full context.\<close>

lemma compaction_full_compensation:
  assumes "anchor_of s k = Some a" "ca_compactionEpoch a \<le> cs_compactionEpoch s"
  shows "cd_mode (decideMailboxCompensation (recordMailboxCompaction s) k t) = Full"
  using assms by (simp add: decideMailboxCompensation_def recordMailboxCompaction_def Let_def anchor_of_def)

lemma engaged_until:
  assumes "recordMailboxEngagement s k now lease = Inr s'"
  shows "isMailboxEngaged s' k t \<longleftrightarrow> t \<le> now + lease \<or> isMailboxEngaged s k t"
    and "x \<noteq> k \<Longrightarrow> isMailboxEngaged s' x t = isMailboxEngaged s x t"
  using assms
  by (auto simp: recordMailboxEngagement_def Let_def isMailboxEngaged_def isPositiveSafeInteger_iff small_def
      split: option.splits if_splits)

end
