(* ===== verification/Mailbox_Properties.thy ===== *)
theory Mailbox_Properties
  imports Mailbox_Continuity Mailbox_Attention Js_Date
begin

text \<open>
  The properties of conversations, mailbox markers, read cursors and the continuity state, with
  their witnesses.
\<close>

section \<open>Conversations\<close>

definition sample_group :: conversation_ref where
  "sample_group = \<lparr>platform = Qq, accountId = js ''10001'', ckind = GroupChat, externalId = js ''20002''\<rparr>"

definition sample_key :: jstr where
  "sample_key = js ''qq:10001:group:20002''"

lemma sample_group_key: "conversationKey sample_group = Some sample_key" "ref_ok sample_group"
  by (simp_all add: conversationKey_def sample_group_def sample_key_def ref_ok_def platform_str_def
      kind_str_def colon_def encodeURIComponent_def js_def is_high_surrogate_def is_low_surrogate_def
      encode_point_def unreserved_def is_digit_def units_ok_def)

lemma sample_key_ok: "is_mailbox_key sample_key" "\<not> isPrivateMailbox sample_key"
  by code_simp+

text \<open>The key of a conversation identifies it: two references whose strings are well-formed
  UTF-16 and whose keys are equal are the same reference.\<close>

theorem conversation_key_identifies:
  assumes "ref_ok c" "ref_ok d" "conversationKey c = Some k" "conversationKey d = Some k"
  shows "c = d"
  by (rule conversationKey_injective [OF assms])

theorem conversation_key_identifies_witness: "conversationKey sample_group = Some sample_key \<and> sample_group = sample_group"
  using conversation_key_identifies [of sample_group sample_group sample_key] sample_group_key by simp

text \<open>The key of a conversation with non-empty ids is accepted wherever a mailbox key is
  asked for, and it names a private mailbox exactly when the conversation is private (unless the
  account is called \<open>private\<close>).\<close>

theorem conversation_key_is_mailbox:
  assumes "ref_ok c" "accountId c \<noteq> []" "externalId c \<noteq> []" "accountId c \<noteq> js ''private''"
    and "conversationKey c = Some k"
  shows "isMailboxKey (JStr k) \<and> (isPrivateMailbox k \<longleftrightarrow> ckind c = PrivateChat)"
  using conversationKey_is_mailbox_key [of c k] conversationKey_private [of c k] assms by (simp add: isMailboxKey_def)

theorem conversation_key_is_mailbox_witness: "isMailboxKey (JStr sample_key) \<and> \<not> isPrivateMailbox sample_key"
proof -
  have "accountId sample_group \<noteq> [] \<and> externalId sample_group \<noteq> [] \<and> accountId sample_group \<noteq> js ''private''
      \<and> ckind sample_group = GroupChat"
    by code_simp
  then show ?thesis using conversation_key_is_mailbox [of sample_group sample_key] sample_group_key by simp
qed

section \<open>The attention of mailboxes\<close>

lemma messages_attention_le:
  "messages_attention ms \<le> a \<longleftrightarrow> (\<forall>m \<in> set ms. attention_sum (message_cursors m) \<le> a)"
  by (induction ms) (auto simp: messages_attention_def le_fun_def)

lemma messages_attention_mono: "set ms \<subseteq> set ns \<Longrightarrow> messages_attention ms \<le> messages_attention ns"
  using messages_attention_le [of ns "messages_attention ns"] by (auto simp: messages_attention_le)

text \<open>The attention state captured from a history depends only on which messages it contains:
  reordering them and delivering them again changes nothing.\<close>

theorem capture_order_independent:
  assumes "set ms = set ns"
  shows "captureMailboxAttentionState ms = captureMailboxAttentionState ns"
  using assms messages_attention_mono [of ms ns] messages_attention_mono [of ns ms]
  by (intro capture_eqI order.antisym) simp_all

theorem capture_order_independent_witness:
  "captureMailboxAttentionState [UserMsg (js ''a''), UserMsg (js ''b'')]
   = captureMailboxAttentionState [UserMsg (js ''b''), UserMsg (js ''a''), UserMsg (js ''b'')]"
  by (rule capture_order_independent) auto

lemma render_captured: "\<exists>text. renderMailboxAttentionStateEvent (captureMailboxAttentionState ms) = Inr text"
  using render_attention_state [OF capture_form] by blast

text \<open>C10. The marker written for a captured attention state stands for the messages it was captured
  from: it can always be written, and after it the later messages give the same state as after the
  messages themselves.\<close>

theorem attention_marker_replaces_messages:
  "\<exists>text. renderMailboxAttentionStateEvent (captureMailboxAttentionState ms) = Inr text
     \<and> (\<lambda>ns. captureMailboxAttentionState (UserMsg text # ns)) = (\<lambda>ns. captureMailboxAttentionState (ms @ ns))"
  using render_captured [of ms] capture_compacted by (auto simp: fun_eq_iff)

text \<open>Once a mailbox is marked as handled through a row, it is not pending until something
  beyond that row is disclosed; a mark below what was disclosed leaves it pending at that row.  The
  marks of a mailbox do not touch another mailbox.\<close>

theorem handled_marker_settles:
  assumes "renderMailboxHandledEvent k t = Inr text" "is_mailbox_key x"
    and "findPendingMailboxThroughRowId ms x = Inr pending"
  shows "findPendingMailboxThroughRowId (ms @ [UserMsg text]) x =
    Inr (if x = k \<and> (\<exists>d. pending = Some d \<and> d \<le> t) then None else pending)"
proof -
  have p: "pending = (if att_handled (messages_attention ms x) < att_disclosed (messages_attention ms x)
         then Some (int (att_disclosed (messages_attention ms x))) else None)"
    using assms(3) by (simp add: findPending_spec [OF assms(2)])
  show ?thesis
    using p handled_marker_cursors(3) [OF assms(1)]
    by (auto simp: findPending_spec [OF assms(2)] messages_attention_handled [OF assms(1)] sup_attn_def bot_attn_def)
qed

theorem handled_marker_settles_witness:
  "\<exists>text. renderMailboxHandledEvent sample_key 5 = Inr text
     \<and> findPendingMailboxThroughRowId ([] @ [UserMsg text]) sample_key = Inr None"
proof -
  have "\<exists>text. renderMailboxHandledEvent sample_key 5 = Inr text"
    using sample_key_ok(1)
    by (simp add: renderMailboxHandledEvent_def assertMailboxKey_def isPositiveSafeInteger_iff max_safe_def)
  moreover have "findPendingMailboxThroughRowId [] sample_key = Inr None"
    using sample_key_ok(1) by (simp add: findPending_spec messages_attention_def bot_attn_def bot_fun_def)
  ultimately show ?thesis using handled_marker_settles [of sample_key 5 _ sample_key "[]" None] sample_key_ok(1) by auto
qed

section \<open>Read cursors\<close>

text \<open>Advancing the stored cursors by a list of deliveries, in order, stopping at an error.\<close>

definition advance_reads :: "read_cursors \<Rightarrow> (jstr \<times> int) list \<Rightarrow> cursor_error + read_cursors" where
  "advance_reads cs ts = foldl (\<lambda>r (k, t). bindE r (\<lambda>cs. advanceInboxReadCursor cs k t)) (Inr cs) ts"

lemma advance_reads_eq: "advance_reads cs ts = reads.advance_all (Inr cs) ts"
  by (simp add: advance_reads_def reads.advance_all_def read_advance_def)

text \<open>Advancing well-formed cursors by valid deliveries always succeeds, keeps them well-formed,
  and leaves every mailbox at the greatest row it was ever advanced to: order and repetition of the
  deliveries do not matter.\<close>

theorem read_cursors_are_maxima:
  assumes "read_cursors_ok cs" "\<forall>(k, t) \<in> set ts. is_mailbox_key k \<and> 0 < t \<and> t \<le> max_safe"
  shows "\<exists>cs'. advance_reads cs ts = Inr cs' \<and> read_cursors_ok cs'
    \<and> (\<forall>x. read_cursor_at cs' x = Max (insert (read_cursor_at cs x) {t. (x, t) \<in> set ts}))"
proof -
  have inv: "read_cursors_inv (Inr cs)" and ok: "reads.all_ok ts"
    using assms by (simp_all add: read_cursors_inv_def reads.all_ok_def)
  from reads.advance_all_inv [OF inv ok] obtain cs' where
    cs': "advance_reads cs ts = Inr cs'" "read_cursors_ok cs'"
    by (auto simp: advance_reads_eq read_cursors_inv_def split: sum.splits)
  with reads.advance_all_at [OF inv ok] show ?thesis
    by (auto simp: advance_reads_eq reads.rows_of_def read_at_def)
qed

theorem read_cursors_are_maxima_witness:
  "\<exists>cs'. advance_reads [] [(sample_key, 5), (sample_key, 3)] = Inr cs' \<and> read_cursor_at cs' sample_key = 5"
proof -
  have "{t. t = 5 \<or> t = (3::int)} = {5, 3}" by auto
  then show ?thesis
    using read_cursors_are_maxima [of "[]" "[(sample_key, 5), (sample_key, 3)]"] sample_key_ok(1)
    by (auto simp: read_cursors_ok_def max_safe_def read_cursor_at_def)
qed

section \<open>Continuity\<close>

text \<open>C12. Whatever is stored as the continuity state, reading it gives one that the integrity check
  of snapshots accepts once written back, and reading that again gives the same state.\<close>

theorem continuity_parse_sound:
  "validateMailboxContinuity (continuity_jv (parseMailboxContinuityState v)) = []
   \<and> parseMailboxContinuityState (continuity_jv (parseMailboxContinuityState v)) = parseMailboxContinuityState v"
  by (simp add: validate_continuity_jv parse_continuity_jv parse_continuity_ok)

text \<open>After a mailbox was disclosed at some time, a message less than two hours later brings no
  repeated context while no round, token or compaction intervenes; after a compaction it brings the
  full context of eight messages.\<close>

theorem disclosure_then_compaction:
  assumes "is_mailbox_key k" "continuity_ok s"
    and "\<forall>a. anchor_of s k = Some a \<longrightarrow> ca_lastMessageAtMs a \<le> t"
  shows "cd_mode (decideMailboxCompensation (recordMailboxDisclosure s k t) k t') =
      (if t' < t + light_compensation_after_ms then NoCompensation else Light)
    \<and> cd_mode (decideMailboxCompensation (recordMailboxCompaction (recordMailboxDisclosure s k t)) k t') = Full
    \<and> cd_contextBefore (decideMailboxCompensation (recordMailboxCompaction (recordMailboxDisclosure s k t)) k t') = 8"
proof -
  obtain a where a: "anchor_of (recordMailboxDisclosure s k t) k = Some a" "ca_lastMessageAtMs a = t"
    "ca_roundSeq a = cs_roundSeq s" "ca_inputTokens a = cs_lastInputTokens s" "ca_compactionEpoch a = cs_compactionEpoch s"
    using assms(1,3) by (cases "anchor_of s k") (auto simp: recordMailboxDisclosure_def)
  have rest: "cs_roundSeq (recordMailboxDisclosure s k t) = cs_roundSeq s"
    "cs_lastInputTokens (recordMailboxDisclosure s k t) = cs_lastInputTokens s"
    "cs_compactionEpoch (recordMailboxDisclosure s k t) = cs_compactionEpoch s"
    by (simp_all add: recordMailboxDisclosure_def Let_def)
  show ?thesis
    using a rest
    by (auto simp: decideMailboxCompensation_def recordMailboxCompaction_def anchor_of_def Let_def
        full_compensation_after_rounds_def full_compensation_after_tokens_def light_compensation_after_ms_def
        full_context_before_def split: option.splits)
qed

theorem disclosure_then_compaction_witness:
  "cd_mode (decideMailboxCompensation (recordMailboxDisclosure createEmptyMailboxContinuityState sample_key 1000) sample_key 2000)
     = NoCompensation"
proof -
  have "continuity_ok createEmptyMailboxContinuityState \<and> anchor_of createEmptyMailboxContinuityState sample_key = None"
    by code_simp
  then show ?thesis
    using disclosure_then_compaction [of sample_key createEmptyMailboxContinuityState 1000 2000] sample_key_ok(1)
    by (simp add: light_compensation_after_ms_def)
qed

text \<open>A recorded engagement keeps its mailbox engaged for the whole lease, never shortens an
  earlier lease, leaves the other mailboxes as they were, and is rejected for a bad key, time or
  lease.\<close>

theorem engagement_lease:
  "(case recordMailboxEngagement s k now lease of
      Inl _ \<Rightarrow> \<not> (is_mailbox_key k \<and> 0 \<le> now \<and> 0 < lease \<and> now + lease \<le> max_safe)
    | Inr s' \<Rightarrow> is_mailbox_key k \<and> 0 \<le> now \<and> 0 < lease \<and> now + lease \<le> max_safe
        \<and> (\<lambda>x t. isMailboxEngaged s' x t) = (\<lambda>x t. (x = k \<and> t \<le> now + lease) \<or> isMailboxEngaged s x t))"
proof (cases "recordMailboxEngagement s k now lease")
  case (Inl e)
  then show ?thesis
    by (auto simp: recordMailboxEngagement_def Let_def isPositiveSafeInteger_iff isNonNegativeSafeInteger_iff
        isSafeInteger_def safe_int_def max_safe_def guardE_def split: if_splits)
next
  case (Inr s')
  moreover have "is_mailbox_key k \<and> 0 \<le> now \<and> 0 < lease \<and> now + lease \<le> max_safe"
    using Inr by (auto simp: recordMailboxEngagement_def Let_def isPositiveSafeInteger_iff isNonNegativeSafeInteger_iff
        isSafeInteger_def safe_int_def max_safe_def bindE_Inr_iff split: if_splits)
  moreover have "isMailboxEngaged s' x t \<longleftrightarrow> (x = k \<and> t \<le> now + lease) \<or> isMailboxEngaged s x t" for x t
    using engaged_until [OF Inr] by (cases "x = k") simp_all
  ultimately show ?thesis by (simp add: fun_eq_iff)
qed

end
