(* ===== verification/Ledger_Repo.thy ===== *)
theory Ledger_Repo
  imports Projection_Facts
begin

text \<open>
  \<open>src/agent/agent-ledger-repo.ts\<close>: the only writer of the permanent ledger.  The database is a
  state: the ledger rows, the runtime singleton, the checkpoint singleton and the sequence the row
  ids come from.  Every operation is a state transformer with an error result; a transaction that
  fails restores everything but the sequence.  What a JSON column does to a value written to it
  is the parameter \<open>col\<close> (PostgreSQL keeps the value, not the order of its keys).  The row lock
  serialises transactions, so operations are steps on one state.
\<close>

section \<open>The database\<close>

record ledger_row =
  lr_id :: int
  lr_entryType :: jstr
  lr_payload :: jv
  lr_createdAt :: int

record runtime_row =
  rr_schemaVersion :: int
  rr_mailboxCursors :: jv
  rr_inboxReadCursors :: jv
  rr_mailboxContinuity :: jv
  rr_conversationFocus :: jv
  rr_lastWakeAt :: "int option"
  rr_ledgerHeadEntryId :: "int option"

record checkpoint_row =
  cr_schemaVersion :: int
  cr_throughEntryId :: "int option"
  cr_fingerprint :: jstr
  cr_projection :: jv

record ledger_db =
  db_rows :: "ledger_row list"
  db_runtime :: "runtime_row option"
  db_checkpoint :: "checkpoint_row option"
  db_sequence :: int
  db_now :: int

definition row_jv :: "ledger_row \<Rightarrow> jv" where
  "row_jv r = JObj [(js ''id'', JBig (lr_id r)), (js ''entryType'', JStr (lr_entryType r)),
     (js ''payload'', lr_payload r), (js ''createdAt'', JDate (Some (lr_createdAt r)))]"

definition runtime_row_jv :: "runtime_row \<Rightarrow> jv" where
  "runtime_row_jv r = JObj [(js ''schemaVersion'', jint (rr_schemaVersion r)), (js ''mailboxCursors'', rr_mailboxCursors r),
     (js ''inboxReadCursors'', rr_inboxReadCursors r), (js ''mailboxContinuity'', rr_mailboxContinuity r),
     (js ''conversationFocus'', rr_conversationFocus r),
     (js ''lastWakeAt'', null_or (\<lambda>t. JDate (Some t)) (rr_lastWakeAt r)),
     (js ''ledgerHeadEntryId'', null_or JBig (rr_ledgerHeadEntryId r))]"

section \<open>Actions\<close>

datatype repo_error =
    Integrity ledger_error
  | NoMessages
  | BadExpectedHead
  | RuntimeRowMissing
  | HeadChanged "int option" "int option"
  | BadCheckpointVersion | BadCheckpointHead | BadCheckpointFingerprint
  | CheckpointNotSerializable | CheckpointNotJson

type_synonym 'a action = "ledger_db \<Rightarrow> (repo_error + 'a) \<times> ledger_db"

definition returnA :: "'a \<Rightarrow> 'a action" where
  "returnA x db = (Inr x, db)"

definition throwA :: "repo_error \<Rightarrow> 'a action" where
  "throwA e db = (Inl e, db)"

definition bindA :: "'a action \<Rightarrow> ('a \<Rightarrow> 'b action) \<Rightarrow> 'b action" where
  "bindA m f db = (case m db of (Inl e, db') \<Rightarrow> (Inl e, db') | (Inr x, db') \<Rightarrow> f x db')"

definition liftE :: "ledger_error + 'a \<Rightarrow> 'a action" where
  "liftE r = (case r of Inl e \<Rightarrow> throwA (Integrity e) | Inr x \<Rightarrow> returnA x)"

definition transaction :: "'a action \<Rightarrow> 'a action" where
  "transaction task db =
     (case task db of
        (Inl e, db') \<Rightarrow> (Inl e, db\<lparr>db_sequence := db_sequence db'\<rparr>)
      | (Inr x, db') \<Rightarrow> (Inr x, db'))"

text \<open>\<open>botAgentLedgerEntry.create\<close> and \<open>findMany\<close>.\<close>

definition create_row :: "(jv \<Rightarrow> jv) \<Rightarrow> jstr \<Rightarrow> jv \<Rightarrow> ledger_row action" where
  "create_row col entryType payload db =
     (let r = \<lparr>lr_id = db_sequence db, lr_entryType = entryType, lr_payload = col payload, lr_createdAt = db_now db\<rparr>
      in (Inr r, db\<lparr>db_rows := db_rows db @ [r], db_sequence := db_sequence db + 1\<rparr>))"

definition find_rows :: "ledger_row list action" where
  "find_rows db = (Inr (sort_key lr_id (db_rows db)), db)"

section \<open>The runtime singleton\<close>

definition loadRuntimeState :: "runtime_state action" where
  "loadRuntimeState db =
     (case db_runtime db of
        None \<Rightarrow> throwA RuntimeRowMissing db
      | Some r \<Rightarrow> liftE (parseAgentRuntimeState (runtime_row_jv r)) db)"

text \<open>A patch: an absent property is \<open>None\<close>; focus and wake time may be present with \<open>null\<close>.\<close>

record runtime_patch =
  pt_mailboxCursors :: "jobj option"
  pt_inboxReadCursors :: "read_cursors option"
  pt_mailboxContinuity :: "jobj option"
  pt_conversationFocus :: "conversation_ref option option"
  pt_lastWakeAt :: "int option option"

definition empty_patch :: runtime_patch where
  "empty_patch = \<lparr>pt_mailboxCursors = None, pt_inboxReadCursors = None, pt_mailboxContinuity = None,
     pt_conversationFocus = None, pt_lastWakeAt = None\<rparr>"

definition or_else :: "'a option \<Rightarrow> 'a \<Rightarrow> 'a" where
  "or_else x d = (case x of None \<Rightarrow> d | Some y \<Rightarrow> y)"

text \<open>\<open>{...current, ...definedRuntimePatch(patch), ledgerHeadEntryId}\<close>.\<close>

definition patched_state :: "runtime_state \<Rightarrow> runtime_patch \<Rightarrow> int option \<Rightarrow> runtime_state" where
  "patched_state cur p head =
     \<lparr>rs_mailboxCursors = or_else (pt_mailboxCursors p) (rs_mailboxCursors cur),
      rs_inboxReadCursors = or_else (pt_inboxReadCursors p) (rs_inboxReadCursors cur),
      rs_mailboxContinuity = or_else (pt_mailboxContinuity p) (rs_mailboxContinuity cur),
      rs_focus = or_else (pt_conversationFocus p) (rs_focus cur),
      rs_lastWakeAt = or_else (pt_lastWakeAt p) (rs_lastWakeAt cur),
      rs_head = head\<rparr>"

text \<open>The columns that are written: the head always, another one only when the patch has it.\<close>

definition write_runtime :: "(jv \<Rightarrow> jv) \<Rightarrow> runtime_patch \<Rightarrow> runtime_state \<Rightarrow> runtime_row \<Rightarrow> runtime_row" where
  "write_runtime col p next r =
     r\<lparr>rr_ledgerHeadEntryId := rs_head next,
       rr_mailboxCursors := (if pt_mailboxCursors p = None then rr_mailboxCursors r
                             else col (JObj (rs_mailboxCursors next))),
       rr_inboxReadCursors := (if pt_inboxReadCursors p = None then rr_inboxReadCursors r
                             else col (read_cursors_jv (rs_inboxReadCursors next))),
       rr_mailboxContinuity := (if pt_mailboxContinuity p = None then rr_mailboxContinuity r
                             else col (JObj (rs_mailboxContinuity next))),
       rr_conversationFocus := (if pt_conversationFocus p = None then rr_conversationFocus r
                             else col (focus_jv (rs_focus next))),
       rr_lastWakeAt := (if pt_lastWakeAt p = None then rr_lastWakeAt r else rs_lastWakeAt next)\<rparr>"

definition update_runtime_row :: "(runtime_row \<Rightarrow> runtime_row) \<Rightarrow> runtime_row action" where
  "update_runtime_row f db =
     (case db_runtime db of
        None \<Rightarrow> throwA RuntimeRowMissing db
      | Some r \<Rightarrow> (Inr (f r), db\<lparr>db_runtime := Some (f r)\<rparr>))"

definition persistRuntimeState :: "(jv \<Rightarrow> jv) \<Rightarrow> runtime_state \<Rightarrow> runtime_patch \<Rightarrow> int option \<Rightarrow> runtime_state action" where
  "persistRuntimeState col cur p head =
     bindA (liftE (parseAgentRuntimeState (runtime_state_jv (patched_state cur p head)))) (\<lambda>next.
     bindA (update_runtime_row (write_runtime col p next)) (\<lambda>r.
       liftE (parseAgentRuntimeState (runtime_row_jv r))))"

section \<open>Checks before a transaction\<close>

definition assertExpectedHead :: "int option \<Rightarrow> unit action" where
  "assertExpectedHead h = (case h of None \<Rightarrow> returnA () | Some i \<Rightarrow> if i \<le> 0 then throwA BadExpectedHead else returnA ())"

definition assertMatchingHead :: "int option \<Rightarrow> int option \<Rightarrow> unit action" where
  "assertMatchingHead expected actual = (if expected \<noteq> actual then throwA (HeadChanged expected actual) else returnA ())"

definition normalizeDurableMessage :: "agent_message \<Rightarrow> ledger_error + agent_message" where
  "normalizeDurableMessage m =
     bindE (parseAgentLedgerEntry (entry_jv (MessageEntry 1 m 0)) 0) (\<lambda>e. Inr (entry_message e))"

definition normalizeCompactionPayload :: "compaction_payload \<Rightarrow> ledger_error + compaction_payload" where
  "normalizeCompactionPayload p =
     bindE (parseAgentLedgerEntry (entry_jv (CompactionEntry 1 p 0)) 0) (\<lambda>e. Inr (entry_payload e))"

section \<open>The operations\<close>

record canonical_state =
  cn_entries :: "ledger_entry list"
  cn_runtimeState :: runtime_state

record append_result =
  ar_appendedEntries :: "ledger_entry list"
  ar_runtimeState :: runtime_state

definition loadCanonicalState :: "canonical_state action" where
  "loadCanonicalState = transaction (
     bindA loadRuntimeState (\<lambda>rs.
     bindA find_rows (\<lambda>rows.
     bindA (liftE (mapE_idx (\<lambda>i r. parseAgentLedgerEntry (row_jv r) i) 0 rows)) (\<lambda>es.
       returnA \<lparr>cn_entries = es, cn_runtimeState = rs\<rparr>))))"

text \<open>The loop over the messages: the entries appended so far and the head.\<close>

fun append_loop :: "(jv \<Rightarrow> jv) \<Rightarrow> agent_message list \<Rightarrow> ledger_entry list \<Rightarrow> int option
    \<Rightarrow> (ledger_entry list \<times> int option) action" where
  "append_loop col [] appended head = returnA (appended, head)"
| "append_loop col (m # ms) appended head =
     bindA (create_row col (js ''message'') (message_payload_jv m)) (\<lambda>r.
     bindA (liftE (parseAgentLedgerEntry (row_jv r) (length appended))) (\<lambda>e.
       append_loop col ms (appended @ [e]) (Some (entry_id e))))"

definition appendMessages :: "(jv \<Rightarrow> jv) \<Rightarrow> int option \<Rightarrow> agent_message list \<Rightarrow> runtime_patch \<Rightarrow> append_result action" where
  "appendMessages col expected messages p =
     bindA (assertExpectedHead expected) (\<lambda>_.
     bindA (if messages = [] then throwA NoMessages else returnA ()) (\<lambda>_.
     bindA (liftE (mapE normalizeDurableMessage messages)) (\<lambda>ms.
     transaction (
       bindA loadRuntimeState (\<lambda>cur.
       bindA (assertMatchingHead expected (rs_head cur)) (\<lambda>_.
       bindA (append_loop col ms [] (rs_head cur)) (\<lambda>(es, head).
       bindA (persistRuntimeState col cur p head) (\<lambda>rs.
         returnA \<lparr>ar_appendedEntries = es, ar_runtimeState = rs\<rparr>))))))))"

definition appendCompaction :: "(jv \<Rightarrow> jv) \<Rightarrow> int option \<Rightarrow> compaction_payload \<Rightarrow> runtime_patch \<Rightarrow> append_result action" where
  "appendCompaction col expected payload p =
     bindA (assertExpectedHead expected) (\<lambda>_.
     bindA (liftE (normalizeCompactionPayload payload)) (\<lambda>c.
     transaction (
       bindA loadRuntimeState (\<lambda>cur.
       bindA (assertMatchingHead expected (rs_head cur)) (\<lambda>_.
       bindA (create_row col (js ''compaction'') (compaction_payload_jv c)) (\<lambda>r.
       bindA (liftE (parseAgentLedgerEntry (row_jv r) 0)) (\<lambda>e.
       bindA (persistRuntimeState col cur p (Some (entry_id e))) (\<lambda>rs.
         returnA \<lparr>ar_appendedEntries = [e], ar_runtimeState = rs\<rparr>))))))))"

definition updateRuntime :: "(jv \<Rightarrow> jv) \<Rightarrow> int option \<Rightarrow> runtime_patch \<Rightarrow> runtime_state action" where
  "updateRuntime col expected p =
     bindA (assertExpectedHead expected) (\<lambda>_.
     transaction (
       bindA loadRuntimeState (\<lambda>cur.
       bindA (assertMatchingHead expected (rs_head cur)) (\<lambda>_.
         persistRuntimeState col cur p (rs_head cur)))))"

section \<open>Checkpoints\<close>

definition checkpoint_head_ok :: "int option \<Rightarrow> bool" where
  "checkpoint_head_ok h = (case h of None \<Rightarrow> True | Some i \<Rightarrow> 0 < i)"

definition validateCheckpointInput :: "checkpoint_row \<Rightarrow> unit action" where
  "validateCheckpointInput c =
     (if \<not> safe_int (cr_schemaVersion c) \<or> cr_schemaVersion c < 1 then throwA BadCheckpointVersion
      else if \<not> checkpoint_head_ok (cr_throughEntryId c) then throwA BadCheckpointHead
      else if blank (cr_fingerprint c) then throwA BadCheckpointFingerprint
      else if stringify_throws (cr_projection c) then throwA CheckpointNotSerializable
      else if cr_projection c = JUndef then throwA CheckpointNotJson
      else returnA ())"

definition saveCheckpoint :: "(jv \<Rightarrow> jv) \<Rightarrow> checkpoint_row \<Rightarrow> unit action" where
  "saveCheckpoint col c =
     bindA (validateCheckpointInput c) (\<lambda>_ db.
       (Inr (), db\<lparr>db_checkpoint := Some (c\<lparr>cr_projection := col (cr_projection c)\<rparr>)\<rparr>))"

definition loadCheckpoint :: "checkpoint_row option action" where
  "loadCheckpoint db =
     (case db_checkpoint db of
        None \<Rightarrow> returnA None db
      | Some c \<Rightarrow>
          if \<not> safe_int (cr_schemaVersion c) \<or> cr_schemaVersion c < 1 then throwA BadCheckpointVersion db
          else if \<not> checkpoint_head_ok (cr_throughEntryId c) then throwA BadCheckpointHead db
          else if blank (cr_fingerprint c) then throwA BadCheckpointFingerprint db
          else returnA (Some c) db)"

end
