(* ===== verification/Ledger_Repo_Facts.thy ===== *)
theory Ledger_Repo_Facts
  imports Json_Order Ledger_Repo
begin

text \<open>
  What the operations of the ledger repository do to a database that stores a ledger
  (\<open>stored\<close>): the rows parse to entries with increasing ids, the runtime row parses to a state
  whose head is the last entry.  A JSON column is only asked to keep the value up to the order of
  keys (\<open>json_column\<close>).
\<close>

section \<open>Stored JSON\<close>

text \<open>What a JSON column promises: the value read is the value written, up to the order of keys.\<close>

definition json_column :: "(jv \<Rightarrow> jv) \<Rightarrow> bool" where
  "json_column col \<longleftrightarrow> (\<forall>v. json_value v \<longrightarrow> json_value (col v) \<and> sortJson (col v) = sortJson v)"

lemma json_column_jeq: "json_column col \<Longrightarrow> json_value v \<Longrightarrow> jeq v (col v)"
  by (simp add: json_column_def jeq_def)

lemma clone_json_value: "cloneJsonValue v p = Inr w \<Longrightarrow> json_value w"
proof (induction v p arbitrary: w rule: cloneJsonValue.induct)
  case (1 v p)
  show ?case
  proof (cases v)
    case (JArr vs)
    then obtain ws where ws: "mapE_idx (\<lambda>i x. cloneJsonValue x (p @ [Idx i])) 0 vs = Inr ws" "w = JArr ws"
      using "1.prems" by (auto simp: JArr cloneJsonValue.simps [of "JArr vs"] bindE_Inr_iff)
    have "json_value y" if "y \<in> set ws" for y
      using mapE_idx_range [OF ws(1) that] "1.IH"(1) [OF JArr] by blast
    then show ?thesis by (simp add: ws(2))
  next
    case (JObj ps)
    let ?f = "\<lambda>p q. bindE (cloneJsonValue (snd q) (p @ [Key (fst q)])) (\<lambda>w. Inr (fst q, w))"
    obtain qs where qs: "mapE (?f p) (sort_key fst ps) = Inr qs" "w = JObj (obj_of [] qs)"
      using "1.prems" by (auto simp: JObj cloneJsonValue.simps [of "JObj ps"] bindE_Inr_iff)
    have st: "json_value (snd y)" if y: "y \<in> set qs" for y
    proof -
      from mapE_range [OF qs(1) y] obtain x where "x \<in> set (sort_key fst ps)" "?f p x = Inr y" by blast
      then show ?thesis using "1.IH"(2) [OF JObj, of x] by (auto simp: bindE_Inr_iff)
    qed
    have sub: "set (obj_of ob rs) \<subseteq> set ob \<union> set rs \<and> (distinct (obj_keys ob) \<longrightarrow> distinct (obj_keys (obj_of ob rs)))" for ob rs
    proof (induction rs arbitrary: ob)
      case (Cons r rs)
      obtain k v where r: "r = (k, v)" by fastforce
      have "set (obj_put ob k v) \<subseteq> insert (k, v) (set ob)"
        by (auto simp: obj_put_def put_index_set split: if_splits)
      with Cons.IH [of "obj_put ob k v"] obj_put_distinct_keys [of ob k v] show ?case by (auto simp: r obj_of_Cons)
    qed (simp add: obj_of_def)
    from sub [of "[]" qs] st show ?thesis by (auto simp: qs(2))
  qed (use "1.prems" in \<open>auto simp: cloneJsonValue.simps split: jnum.splits\<close>)
qed

lemma json_copy_value: "json_copy ps \<Longrightarrow> json_value (JObj ps)"
  by (auto simp: json_copy_def dest: clone_json_value simp del: json_value.simps)

lemma opt_prop_values: "p \<in> set (opt_prop k f x) \<longleftrightarrow> (\<exists>y. x = Some y \<and> p = (js k, f y))"
  by (auto simp: opt_prop_def split: option.splits)

lemma message_json_value: "message_norm m \<Longrightarrow> json_value (message_jv m)"
proof (cases m)
  case (AssistantMsg c calls nb)
  assume m: "message_norm m"
  have call: "json_value (tool_call_jv c)" if "call_norm c" for c
    using json_copy_value [of "tc_args c"] that by (simp add: tool_call_jv_def call_norm_def)
  have block: "json_value (JObj b)" if "native_norm b" for b
    using json_copy_value [of b] that by (simp add: native_norm_def)
  have "json_value (JArr (map tool_call_jv calls))"
    using m AssistantMsg call by (simp add: list_all_iff)
  moreover have "json_value (JArr (map JObj bs))" if "nb = Some bs" for bs
    using m AssistantMsg that block by (simp add: list_all_iff del: json_value.simps(2))
  ultimately show ?thesis by (auto simp: AssistantMsg opt_prop_values)
next
  case (ToolMsg i c)
  have "json_value (content_block_jv b)" for b
    by (cases b) (auto simp: opt_prop_values)
  with ToolMsg show ?thesis by (cases c) auto
qed simp

lemma message_payload_json_value: "message_norm m \<Longrightarrow> json_value (message_payload_jv m)"
  by (simp add: message_payload_jv_def message_json_value)

lemma null_or_value: "(\<And>x. json_value (f x)) \<Longrightarrow> json_value (null_or f v)"
  by (simp add: null_or_def split: option.splits)

lemma compaction_json_value:
  assumes "distinct (map fst (mailboxAttentionState p))"
  shows "json_value (compaction_payload_jv p)"
proof -
  have "json_value (attention_cursor_jv c)" for c
    by (auto simp: attention_cursor_jv_def opt_prop_values)
  then have "json_value (attention_state_jv (mailboxAttentionState p))"
    using assms by (auto simp: attention_state_jv_def comp_def case_prod_beta)
  then show ?thesis by (simp add: compaction_payload_jv_def null_or_value)
qed

lemma focus_json_value: "json_value (focus_jv f)"
  by (simp add: focus_jv_def null_or_value)

section \<open>Rows\<close>

definition row_is :: "ledger_row \<Rightarrow> ledger_entry \<Rightarrow> bool" where
  "row_is r e \<longleftrightarrow> (\<forall>i. parseAgentLedgerEntry (row_jv r) i = Inr e)"

lemma row_is_message:
  assumes "json_column col" "message_norm m" "0 < i"
  shows "row_is \<lparr>lr_id = i, lr_entryType = js ''message'', lr_payload = col (message_payload_jv m), lr_createdAt = t\<rparr>
    (MessageEntry i m t)"
proof -
  have j: "jeq (message_payload_jv m) (col (message_payload_jv m))"
    by (rule json_column_jeq [OF assms(1) message_payload_json_value [OF assms(2)]])
  have "parseMessagePayload (message_payload_jv m) p = Inr m" for p
    using assms(2) by (simp add: parseMessagePayload_def message_payload_jv_def requireRecord_def requireExactKeys_def parse_message_jv)
  then have "parseMessagePayload (col (message_payload_jv m)) p = Inr m" for p
    using res_le_message_payload [OF j, of p p] by (simp add: res_le_def)
  with assms(3) show ?thesis
    by (simp add: row_is_def row_jv_def parseAgentLedgerEntry_def Let_def requireRecord_def requireExactKeys_def
        parse_entry_id_def parse_created_at_def)
qed

lemma row_is_compaction:
  assumes "json_column col" "compaction_norm c" "distinct (map fst (mailboxAttentionState c))" "0 < i"
  shows "row_is \<lparr>lr_id = i, lr_entryType = js ''compaction'', lr_payload = col (compaction_payload_jv c), lr_createdAt = t\<rparr>
    (CompactionEntry i c t)"
proof -
  have j: "jeq (compaction_payload_jv c) (col (compaction_payload_jv c))"
    by (rule json_column_jeq [OF assms(1) compaction_json_value [OF assms(3)]])
  have "parseCompactionPayload (col (compaction_payload_jv c)) p = Inr c" for p
    using res_le_compaction_payload [OF j, of p p] parse_compaction_jv [OF assms(2), of p] by (simp add: res_le_def)
  with assms(4) show ?thesis
    by (simp add: row_is_def row_jv_def parseAgentLedgerEntry_def Let_def requireRecord_def requireExactKeys_def
        parse_entry_id_def parse_created_at_def)
qed

lemma row_is_id: "row_is r e \<Longrightarrow> lr_id r = entry_id e \<and> entry_norm e"
proof -
  assume "row_is r e"
  then have p: "parseAgentLedgerEntry (row_jv r) 0 = Inr e" by (simp add: row_is_def)
  then have "lr_id r = entry_id e"
    by (auto simp: parseAgentLedgerEntry_def row_jv_def Let_def requireRecord_def bindE_Inr_iff parse_entry_id_Inr split: if_splits)
  with parse_entry_norm [OF p] show ?thesis by simp
qed


section \<open>The invariant of the database\<close>

definition stored_runtime :: "ledger_db \<Rightarrow> runtime_state \<Rightarrow> bool" where
  "stored_runtime db rs \<longleftrightarrow> (\<exists>r. db_runtime db = Some r \<and> parseAgentRuntimeState (runtime_row_jv r) = Inr rs)"

definition cursor_keys_distinct :: "runtime_state \<Rightarrow> bool" where
  "cursor_keys_distinct s \<longleftrightarrow> distinct (map fst (rs_inboxReadCursors s))"

definition stored :: "ledger_db \<Rightarrow> ledger_entry list \<Rightarrow> runtime_state \<Rightarrow> bool" where
  "stored db es rs \<longleftrightarrow> list_all2 row_is (db_rows db) es \<and> ids_increase es \<and> 0 < db_sequence db
     \<and> (\<forall>e \<in> set es. entry_id e < db_sequence db) \<and> stored_runtime db rs \<and> rs_head rs = last_id es
     \<and> cursor_keys_distinct rs"

lemma row_ids: "list_all2 row_is rows es \<Longrightarrow> map lr_id rows = map entry_id es"
proof (induction rule: list_all2_induct)
  case (Cons r rows e es)
  then show ?case using row_is_id [OF Cons(1)] by simp
qed simp

lemma parse_rows: "list_all2 row_is rows es \<Longrightarrow> mapE_idx (\<lambda>i r. parseAgentLedgerEntry (row_jv r) i) k rows = Inr es"
  by (induction arbitrary: k rule: list_all2_induct) (auto simp: row_is_def)

lemma sort_rows: "list_all2 row_is rows es \<Longrightarrow> ids_increase es \<Longrightarrow> sort_key lr_id rows = rows"
proof -
  assume a: "list_all2 row_is rows es" "ids_increase es"
  then have "sorted (map lr_id rows)"
    using row_ids [OF a(1)] by (simp add: ids_increase_def strict_sorted_iff)
  then show ?thesis by (induction rows) (auto simp: insort_is_Cons)
qed

lemma load_stored:
  assumes "stored db es rs"
  shows "loadCanonicalState db = (Inr \<lparr>cn_entries = es, cn_runtimeState = rs\<rparr>, db)"
  using assms sort_rows [of "db_rows db" es] parse_rows [of "db_rows db" es 0]
  by (auto simp: stored_def stored_runtime_def loadCanonicalState_def transaction_def bindA_def loadRuntimeState_def
      liftE_def returnA_def find_rows_def)

section \<open>The runtime row\<close>

definition column_path :: "string \<Rightarrow> path" where
  "column_path k = [Key (js ''runtimeState''), Key (js k)]"

lemma runtime_row_Inr:
  "parseAgentRuntimeState (runtime_row_jv r) = Inr rs \<longleftrightarrow>
     rr_schemaVersion r = agent_runtime_state_schema_version \<and> rs_lastWakeAt rs = rr_lastWakeAt r
     \<and> rs_head rs = rr_ledgerHeadEntryId r \<and> (\<forall>i. rs_head rs = Some i \<longrightarrow> 0 < i)
     \<and> parseInboxReadCursors (rr_inboxReadCursors r) = Inr (rs_inboxReadCursors rs)
     \<and> cloneJsonObject (rr_mailboxCursors r) (column_path ''mailboxCursors'') = Inr (rs_mailboxCursors rs)
     \<and> cloneJsonObject (rr_mailboxContinuity r) (column_path ''mailboxContinuity'') = Inr (rs_mailboxContinuity rs)
     \<and> parseConversationFocus (rr_conversationFocus r) (column_path ''conversationFocus'') = Inr (rs_focus rs)"
proof -
  have nul: "null_or f x = null_or f y \<longleftrightarrow> x = y" if "inj f" "\<And>a. f a \<noteq> JNull" for f :: "int \<Rightarrow> jv" and x y
    using that by (cases x; cases y) (auto simp: null_or_def inj_def dest: sym)
  have "inj JBig" "inj (\<lambda>t. JDate (Some t))" by (auto simp: inj_def)
  note nul' = nul [OF this(1)] nul [OF this(2)]
  show ?thesis
    by (cases rs) (auto simp: parseAgentRuntimeState_def runtime_row_jv_def Let_def requireRecord_def requireExactKeys_def
      runtime_keys_def bindE_Inr_iff require_Inr parse_head_Inr parse_inbox_Inr parse_last_wake_Inr nul' column_path_def)
qed

section \<open>Read cursors in another order\<close>

lemma read_cursors_reordered:
  assumes "\<forall>(k, i) \<in> set cs. is_mailbox_key k \<and> 0 \<le> i \<and> i \<le> max_safe" "distinct (map fst cs)"
    and "jeq (read_cursors_jv cs) w"
  shows "\<exists>cs'. parseInboxReadCursors w = Inr cs' \<and> set cs' = set cs \<and> distinct (map fst cs')"
proof -
  let ?ps = "map (\<lambda>(k, i). (k, jint i)) cs"
  have "jeq (JObj ?ps) w" using assms(3) by (simp add: read_cursors_jv_def)
  then obtain qs where qs: "w = JObj qs" "set (obj_keys qs) = set (obj_keys ?ps)" "\<And>k. jeq (obj_get ?ps k) (obj_get qs k)"
      "distinct (obj_keys ?ps)" "distinct (obj_keys qs)"
    by (rule jeq_obj) blast
  have get: "obj_get ?ps k = jint i" if "(k, i) \<in> set cs" for k i
    using that by (intro obj_get_iff [OF qs(4)]) force
  have val: "\<exists>i. (k, i) \<in> set cs \<and> v = jint i" if "(k, v) \<in> set qs" for k v
  proof -
    have "k \<in> fst ` set qs" using that by force
    then obtain i where i: "(k, i) \<in> set cs" using qs(2) by force
    have "obj_get qs k = v" by (rule obj_get_iff [OF qs(5) that])
    with qs(3) [of k] get [OF i] jeq_atoms(2) [of "jint i" v] i show ?thesis by auto
  qed
  define cs' where "cs' = map (\<lambda>(k, v). (k, num_of v)) qs"
  have keys: "map fst cs' = obj_keys qs" by (simp add: cs'_def comp_def case_prod_beta)
  have sub: "set cs' \<subseteq> set cs" using val by (fastforce simp: cs'_def)
  have "set cs \<subseteq> set cs'"
  proof
    fix p assume p: "p \<in> set cs"
    obtain k i where ki: "p = (k, i)" by fastforce
    with p qs(2) have "k \<in> fst ` set qs" by force
    then obtain v where v: "(k, v) \<in> set qs" by force
    from val [OF v] obtain j where j: "(k, j) \<in> set cs" "v = jint j" by blast
    with p ki assms(2) have "i = j" by (auto dest: eq_key_imp_eq_value)
    with v j ki show "p \<in> set cs'" by (force simp: cs'_def)
  qed
  with sub have eq: "set cs' = set cs" by blast
  have "parse_read_cursor q = Inr (fst q, num_of (snd q))" if q: "q \<in> set qs" for q
  proof -
    obtain k v where kv: "q = (k, v)" by fastforce
    with q val obtain i where i: "(k, i) \<in> set cs" "v = jint i" by blast
    have "is_mailbox_key k \<and> 0 \<le> i \<and> i \<le> max_safe" using assms(1) i(1) by auto
    with i kv show ?thesis by (simp add: parse_read_cursor_Inr_iff)
  qed
  then have "mapE parse_read_cursor qs = Inr cs'"
    unfolding cs'_def by (induction qs) auto
  then have "parseInboxReadCursors w = Inr cs'" by (simp add: parseInboxReadCursors_def qs(1) as_record_def)
  with eq keys qs(5) show ?thesis by metis
qed

section \<open>Writing the runtime row\<close>

definition runtime_same :: "runtime_state \<Rightarrow> runtime_state \<Rightarrow> bool" where
  "runtime_same s t \<longleftrightarrow> t = s\<lparr>rs_inboxReadCursors := rs_inboxReadCursors t\<rparr>
     \<and> set (rs_inboxReadCursors t) = set (rs_inboxReadCursors s)"

definition patch_ok :: "runtime_patch \<Rightarrow> bool" where
  "patch_ok p \<longleftrightarrow> (case pt_inboxReadCursors p of None \<Rightarrow> True | Some cs \<Rightarrow> distinct (map fst cs))"

definition row_of_state :: "runtime_state \<Rightarrow> runtime_row" where
  "row_of_state s = \<lparr>rr_schemaVersion = agent_runtime_state_schema_version, rr_mailboxCursors = JObj (rs_mailboxCursors s),
     rr_inboxReadCursors = read_cursors_jv (rs_inboxReadCursors s), rr_mailboxContinuity = JObj (rs_mailboxContinuity s),
     rr_conversationFocus = focus_jv (rs_focus s), rr_lastWakeAt = rs_lastWakeAt s, rr_ledgerHeadEntryId = rs_head s\<rparr>"

lemma runtime_state_row: "runtime_state_jv s = runtime_row_jv (row_of_state s)"
  by (simp add: runtime_state_jv_def runtime_row_jv_def row_of_state_def read_cursors_jv_def)

lemma col_object:
  assumes "json_column col" "json_copy ps"
  shows "cloneJsonObject (col (JObj ps)) p = Inr ps"
proof -
  have "jeq (JObj ps) (col (JObj ps))" by (rule json_column_jeq [OF assms(1) json_copy_value [OF assms(2)]])
  then show ?thesis by (rule jeq_cloneObject) (rule json_copy_clone [OF assms(2)])
qed

lemma col_focus:
  assumes "json_column col" "focus_ok f"
  shows "parseConversationFocus (col (focus_jv f)) p = Inr f"
  using res_le_focus [OF json_column_jeq [OF assms(1) focus_json_value [of f]], of p p] parse_focus_jv [OF assms(2), of p]
  by (simp add: res_le_def)

lemma col_cursors:
  assumes "json_column col" "\<forall>(k, i) \<in> set cs. is_mailbox_key k \<and> 0 \<le> i \<and> i \<le> max_safe" "distinct (map fst cs)"
  shows "\<exists>cs'. parseInboxReadCursors (col (read_cursors_jv cs)) = Inr cs' \<and> set cs' = set cs \<and> distinct (map fst cs')"
proof (rule read_cursors_reordered [OF assms(2,3) json_column_jeq [OF assms(1)]])
  show "json_value (read_cursors_jv cs)"
    using assms(3) by (auto simp: read_cursors_jv_def comp_def case_prod_beta)
qed

lemma parse_patched:
  assumes "parseAgentRuntimeState (runtime_state_jv (patched_state cur p head)) = Inr next" "runtime_norm cur"
  shows "rs_head next = head" "rs_lastWakeAt next = or_else (pt_lastWakeAt p) (rs_lastWakeAt cur)" "runtime_norm next"
    and "rs_inboxReadCursors next = or_else (pt_inboxReadCursors p) (rs_inboxReadCursors cur)"
    and "pt_mailboxCursors p = None \<Longrightarrow> rs_mailboxCursors next = rs_mailboxCursors cur"
    and "pt_mailboxContinuity p = None \<Longrightarrow> rs_mailboxContinuity next = rs_mailboxContinuity cur"
    and "pt_conversationFocus p = None \<Longrightarrow> rs_focus next = rs_focus cur"
proof -
  have jo: "\<And>ps q. json_copy ps \<Longrightarrow> cloneJsonObject (JObj ps) q = Inr ps" by (rule json_copy_clone)
  note parsed = assms(1) [unfolded runtime_state_row runtime_row_Inr]
  then show "rs_head next = head" "rs_lastWakeAt next = or_else (pt_lastWakeAt p) (rs_lastWakeAt cur)"
    by (simp_all add: row_of_state_def patched_state_def)
  show "runtime_norm next" by (rule parse_runtime_norm [OF assms(1)])
  from parsed have "parseInboxReadCursors (read_cursors_jv (or_else (pt_inboxReadCursors p) (rs_inboxReadCursors cur)))
      = Inr (rs_inboxReadCursors next)"
    by (simp add: row_of_state_def patched_state_def)
  from parseInboxReadCursors_Inr(1) [OF this]
  show "rs_inboxReadCursors next = or_else (pt_inboxReadCursors p) (rs_inboxReadCursors cur)"
    using inj_map_eq_map [of "\<lambda>(k, i). (k, jint i)"] by (simp add: read_cursors_jv_def as_record_def inj_def)
  show "pt_mailboxCursors p = None \<Longrightarrow> rs_mailboxCursors next = rs_mailboxCursors cur"
    "pt_mailboxContinuity p = None \<Longrightarrow> rs_mailboxContinuity next = rs_mailboxContinuity cur"
    "pt_conversationFocus p = None \<Longrightarrow> rs_focus next = rs_focus cur"
    using parsed assms(2) by (auto simp: row_of_state_def patched_state_def or_else_def runtime_norm_def jo parse_focus_jv)
qed

lemma persist_ok:
  assumes col: "json_column col" and row: "db_runtime db = Some r" "parseAgentRuntimeState (runtime_row_jv r) = Inr cur"
    and ok: "cursor_keys_distinct cur" "patch_ok p"
    and nxt: "parseAgentRuntimeState (runtime_state_jv (patched_state cur p head)) = Inr next"
  shows "\<exists>r' rs. persistRuntimeState col cur p head db = (Inr rs, db\<lparr>db_runtime := Some r'\<rparr>)
    \<and> parseAgentRuntimeState (runtime_row_jv r') = Inr rs \<and> runtime_same next rs \<and> cursor_keys_distinct rs"
proof -
  have norm: "runtime_norm cur" by (rule parse_runtime_norm [OF row(2)])
  note pp = parse_patched [OF nxt norm]
  note old = row(2) [unfolded runtime_row_Inr]
  let ?r = "write_runtime col p next r"
  have bounds: "\<forall>(k, i) \<in> set (rs_inboxReadCursors next). is_mailbox_key k \<and> 0 \<le> i \<and> i \<le> max_safe"
    and copies: "json_copy (rs_mailboxCursors next)" "json_copy (rs_mailboxContinuity next)" "focus_ok (rs_focus next)"
      "\<forall>i. rs_head next = Some i \<longrightarrow> 0 < i"
    using pp(3) by (simp_all add: runtime_norm_def)
  have dist: "distinct (map fst (rs_inboxReadCursors next))"
    using ok pp(4) by (simp add: cursor_keys_distinct_def patch_ok_def or_else_def split: option.splits)
  obtain cs where cs: "parseInboxReadCursors (rr_inboxReadCursors ?r) = Inr cs" "set cs = set (rs_inboxReadCursors next)"
      "distinct (map fst cs)"
  proof (cases "pt_inboxReadCursors p")
    case None
    then have "rs_inboxReadCursors next = rs_inboxReadCursors cur" using pp(4) by (simp add: or_else_def)
    with None old dist show ?thesis by (intro that [of "rs_inboxReadCursors cur"]) (simp_all add: write_runtime_def)
  next
    case (Some c)
    with col_cursors [OF col bounds dist] that show ?thesis by (auto simp: write_runtime_def)
  qed
  let ?rs = "next\<lparr>rs_inboxReadCursors := cs\<rparr>"
  have wake: "rr_lastWakeAt ?r = rs_lastWakeAt next"
    using old pp(2) by (auto simp: write_runtime_def or_else_def split: option.splits)
  have mc: "cloneJsonObject (rr_mailboxCursors ?r) (column_path ''mailboxCursors'') = Inr (rs_mailboxCursors next)"
    using old pp(5) col_object [OF col copies(1)] by (simp add: write_runtime_def)
  have mn: "cloneJsonObject (rr_mailboxContinuity ?r) (column_path ''mailboxContinuity'') = Inr (rs_mailboxContinuity next)"
    using old pp(6) col_object [OF col copies(2)] by (simp add: write_runtime_def)
  have fc: "parseConversationFocus (rr_conversationFocus ?r) (column_path ''conversationFocus'') = Inr (rs_focus next)"
    using old pp(7) col_focus [OF col copies(3)] by (simp add: write_runtime_def)
  have "rr_schemaVersion ?r = agent_runtime_state_schema_version" "rr_ledgerHeadEntryId ?r = rs_head next"
    using old by (simp_all add: write_runtime_def)
  with cs(1) wake mc mn fc copies(4) have parsed: "parseAgentRuntimeState (runtime_row_jv ?r) = Inr ?rs"
    unfolding runtime_row_Inr by simp
  have "persistRuntimeState col cur p head db = (Inr ?rs, db\<lparr>db_runtime := Some ?r\<rparr>)"
    by (simp add: persistRuntimeState_def bindA_def liftE_def returnA_def nxt update_runtime_row_def row(1) parsed)
  moreover have "runtime_same next ?rs" "cursor_keys_distinct ?rs"
    using cs by (simp_all add: runtime_same_def cursor_keys_distinct_def)
  ultimately show ?thesis using parsed by blast
qed

lemma persist_fails:
  assumes "parseAgentRuntimeState (runtime_state_jv (patched_state cur p head)) = Inl e"
  shows "persistRuntimeState col cur p head db = (Inl (Integrity e), db)"
  by (simp add: persistRuntimeState_def bindA_def liftE_def throwA_def assms)

section \<open>The loop of an append\<close>

fun new_entries :: "int \<Rightarrow> int \<Rightarrow> agent_message list \<Rightarrow> ledger_entry list" where
  "new_entries i t [] = []"
| "new_entries i t (m # ms) = MessageEntry i m t # new_entries (i + 1) t ms"

lemma new_entries_facts:
  "entry_messages (new_entries i t ms) = ms" "length (new_entries i t ms) = length ms"
  "only_messages (new_entries i t ms)" "map entry_id (new_entries i t ms) = map (\<lambda>k. i + int k) [0..<length ms]"
proof -
  show "entry_messages (new_entries i t ms) = ms" "length (new_entries i t ms) = length ms" "only_messages (new_entries i t ms)"
    by (induction ms arbitrary: i) (simp_all add: only_messages_def)
  show "map entry_id (new_entries i t ms) = map (\<lambda>k. i + int k) [0..<length ms]"
  proof (induction ms arbitrary: i)
    case (Cons m ms)
    have "[0..<Suc (length ms)] = 0 # map Suc [0..<length ms]" by (simp add: map_Suc_upt upt_conv_Cons del: upt_Suc)
    with Cons show ?case by (simp add: comp_def add.assoc del: upt_Suc)
  qed simp
qed

lemma bindA_simps [simp]:
  "bindA (returnA x) f db = f x db"
  "bindA (throwA e) f db = (Inl e, db)"
  "bindA (liftE (Inr x)) f db = f x db"
  "bindA (liftE (Inl d)) f db = (Inl (Integrity d), db)"
  by (simp_all add: bindA_def returnA_def throwA_def liftE_def)

lemma bindA_bindA: "bindA (bindA m f) g db = bindA m (\<lambda>x. bindA (f x) g) db"
  by (simp add: bindA_def split: prod.splits sum.splits)

lemma bindA_create: "bindA (create_row col et v) f db =
    f \<lparr>lr_id = db_sequence db, lr_entryType = et, lr_payload = col v, lr_createdAt = db_now db\<rparr>
      (db\<lparr>db_rows := db_rows db @ [\<lparr>lr_id = db_sequence db, lr_entryType = et, lr_payload = col v, lr_createdAt = db_now db\<rparr>],
          db_sequence := db_sequence db + 1\<rparr>)"
  by (simp add: bindA_def create_row_def Let_def)

lemma bindA_load: "db_runtime db = Some r \<Longrightarrow> parseAgentRuntimeState (runtime_row_jv r) = Inr cur \<Longrightarrow> bindA loadRuntimeState f db = f cur db"
  by (simp add: bindA_def loadRuntimeState_def liftE_def returnA_def)

lemma bindA_done: "m db = (Inr x, db') \<Longrightarrow> bindA m f db = f x db'"
  by (simp add: bindA_def)

lemma bindA_fail: "m db = (Inl e, db') \<Longrightarrow> bindA m f db = (Inl e, db')"
  by (simp add: bindA_def)

lemma last_id_append: "last_id (es @ ns) = (if ns = [] then last_id es else last_id ns)"
  by (simp add: last_id_def)

definition head_after :: "int option \<Rightarrow> ledger_entry list \<Rightarrow> int option" where
  "head_after head new = (if new = [] then head else last_id new)"

lemma head_after_simps [simp]:
  "head_after head [] = head"
  "head_after head (e # new) = head_after (Some (entry_id e)) new"
  by (simp_all add: head_after_def last_id_def)

lemma append_loop_ok:
  assumes "json_column col"
  shows "list_all message_norm ms \<Longrightarrow> 0 < db_sequence db \<Longrightarrow>
    \<exists>rows. append_loop col ms acc head db =
      (Inr (acc @ new_entries (db_sequence db) (db_now db) ms,
            head_after head (new_entries (db_sequence db) (db_now db) ms)),
       db\<lparr>db_rows := db_rows db @ rows, db_sequence := db_sequence db + int (length ms)\<rparr>)
      \<and> list_all2 row_is rows (new_entries (db_sequence db) (db_now db) ms)"
proof (induction ms arbitrary: acc head db)
  case Nil
  then show ?case by (intro exI [of _ "[]"]) (simp add: returnA_def)
next
  case (Cons m ms)
  let ?r = "\<lparr>lr_id = db_sequence db, lr_entryType = js ''message'', lr_payload = col (message_payload_jv m), lr_createdAt = db_now db\<rparr>"
  let ?e = "MessageEntry (db_sequence db) m (db_now db)"
  let ?db = "db\<lparr>db_rows := db_rows db @ [?r], db_sequence := db_sequence db + 1\<rparr>"
  have r: "row_is ?r ?e" using Cons.prems by (intro row_is_message [OF assms]) simp_all
  from Cons.IH [of ?db "acc @ [?e]" "Some (db_sequence db)"] Cons.prems
  obtain rows where rows: "append_loop col ms (acc @ [?e]) (Some (db_sequence db)) ?db =
      (Inr ((acc @ [?e]) @ new_entries (db_sequence db + 1) (db_now db) ms,
            head_after (Some (db_sequence db)) (new_entries (db_sequence db + 1) (db_now db) ms)),
       ?db\<lparr>db_rows := (db_rows db @ [?r]) @ rows, db_sequence := (db_sequence db + 1) + int (length ms)\<rparr>)"
      "list_all2 row_is rows (new_entries (db_sequence db + 1) (db_now db) ms)"
    by auto
  have "append_loop col (m # ms) acc head db = append_loop col ms (acc @ [?e]) (Some (db_sequence db)) ?db"
    using r by (simp add: bindA_create row_is_def)
  with rows r show ?case
    by (intro exI [of _ "?r # rows"]) (simp add: algebra_simps)
qed

section \<open>Preservation\<close>

lemma stored_grow:
  assumes "stored db es rs" "list_all2 row_is rows new" "ids_increase new"
    and "\<forall>e \<in> set new. db_sequence db \<le> entry_id e \<and> entry_id e < n" "db_sequence db \<le> n"
    and "db_runtime db' = Some r'" "parseAgentRuntimeState (runtime_row_jv r') = Inr rs'" "rs_head rs' = last_id (es @ new)" "cursor_keys_distinct rs'"
    and "db_rows db' = db_rows db @ rows" "db_sequence db' = n"
  shows "stored db' (es @ new) rs'"
  using assms
  by (auto simp: stored_def stored_runtime_def ids_increase_def sorted_wrt_append intro!: list_all2_appendI; force)

lemma new_entries_ids: "ids_increase (new_entries i t ms)"
  "e \<in> set (new_entries i t ms) \<Longrightarrow> i \<le> entry_id e \<and> entry_id e < i + int (length ms)"
proof -
  show "ids_increase (new_entries i t ms)"
    unfolding ids_increase_def new_entries_facts(4) by (simp add: sorted_wrt_map)
  assume "e \<in> set (new_entries i t ms)"
  then have "entry_id e \<in> set (map entry_id (new_entries i t ms))" by simp
  then show "i \<le> entry_id e \<and> entry_id e < i + int (length ms)" unfolding new_entries_facts(4) by auto
qed

lemma stored_head_pos:
  assumes "stored db es rs" "rs_head rs = Some i"
  shows "0 < i"
proof -
  obtain r where "parseAgentRuntimeState (runtime_row_jv r) = Inr rs" using assms(1) by (auto simp: stored_def stored_runtime_def)
  from parse_runtime_norm [OF this] assms(2) show ?thesis by (simp add: runtime_norm_def)
qed

lemma normalize_message_norm:
  assumes "normalizeDurableMessage m = Inr m'"
  shows "message_norm m'"
proof -
  obtain e where e: "parseAgentLedgerEntry (entry_jv (MessageEntry 1 m 0)) 0 = Inr e" "m' = entry_message e"
    using assms by (auto simp: normalizeDurableMessage_def bindE_Inr_iff)
  then obtain i n t where "e = MessageEntry i n t"
    by (auto simp: parseAgentLedgerEntry_def Let_def requireRecord_def result_elims split: if_splits)
  with e parse_entry_norm [OF e(1)] show ?thesis by simp
qed

lemma normalize_norm: "mapE normalizeDurableMessage ms = Inr ns \<Longrightarrow> list_all message_norm ns"
proof (induction ms arbitrary: ns)
  case (Cons m ms)
  then show ?case using normalize_message_norm by (auto simp: bindE_Inr_iff)
qed simp

section \<open>The operations on a stored ledger\<close>

lemma stored_expected:
  assumes "stored db es rs"
  shows "bindA (assertExpectedHead (rs_head rs)) f db = f () db"
proof -
  have "0 < i" if "rs_head rs = Some i" for i by (rule stored_head_pos [OF assms that])
  then show ?thesis by (cases "rs_head rs") (auto simp: assertExpectedHead_def not_le)
qed

lemma stored_load:
  assumes "stored db es rs"
  shows "bindA loadRuntimeState f db = f rs db"
  using assms by (auto simp: stored_def stored_runtime_def bindA_load)

lemma matching: "bindA (assertMatchingHead h h) f db = f () db"
  by (simp add: assertMatchingHead_def)

lemma mismatch: "h \<noteq> h' \<Longrightarrow> bindA (assertMatchingHead h h') f db = (Inl (HeadChanged h h'), db)"
  by (simp add: assertMatchingHead_def)

lemma transaction_fails: "task db = (Inl e, db') \<Longrightarrow> transaction task db = (Inl e, db\<lparr>db_sequence := db_sequence db'\<rparr>)"
  by (simp add: transaction_def)

lemma transaction_commits: "task db = (Inr x, db') \<Longrightarrow> transaction task db = (Inr x, db')"
  by (simp add: transaction_def)

lemma stored_sequence: "stored db es rs \<Longrightarrow> db_sequence db \<le> n \<Longrightarrow> stored (db\<lparr>db_sequence := n\<rparr>) es rs"
  by (force simp: stored_def stored_runtime_def)

lemma stored_rest: "stored (db\<lparr>db_checkpoint := c\<rparr>) es rs = stored db es rs" "stored (db\<lparr>db_now := t\<rparr>) es rs = stored db es rs"
  by (simp_all add: stored_def stored_runtime_def)

text \<open>Persisting after rows were added, in one transaction.\<close>

lemma persist_stored:
  assumes col: "json_column col" and st: "stored db es rs" and pk: "patch_ok p"
    and rows: "list_all2 row_is rows new" "ids_increase new"
      "\<forall>e \<in> set new. db_sequence db \<le> entry_id e \<and> entry_id e < n" "db_sequence db \<le> n"
    and db1: "db1 = db\<lparr>db_rows := db_rows db @ rows, db_sequence := n\<rparr>"
    and head: "head = last_id (es @ new)"
    and nxt: "parseAgentRuntimeState (runtime_state_jv (patched_state rs p head)) = Inr nx"
  shows "\<exists>rs' db'. persistRuntimeState col rs p head db1 = (Inr rs', db') \<and> stored db' (es @ new) rs' \<and> runtime_same nx rs'"
proof -
  obtain r where r: "db_runtime db = Some r" "parseAgentRuntimeState (runtime_row_jv r) = Inr rs" "cursor_keys_distinct rs"
    using st by (auto simp: stored_def stored_runtime_def)
  then have "db_runtime db1 = Some r" using db1 by simp
  from persist_ok [OF col this r(2,3) pk nxt] obtain r' rs' where
    p: "persistRuntimeState col rs p head db1 = (Inr rs', db1\<lparr>db_runtime := Some r'\<rparr>)"
      "parseAgentRuntimeState (runtime_row_jv r') = Inr rs'" "runtime_same nx rs'" "cursor_keys_distinct rs'"
    by blast
  have "rs_head nx = head" using parse_patched(1) [OF nxt parse_runtime_norm [OF r(2)]] .
  with p(3) have "rs_head rs' = last_id (es @ new)" unfolding runtime_same_def head
    by (metis runtime_state.select_convs(6) runtime_state.surjective runtime_state.update_convs(2))
  then have "stored (db1\<lparr>db_runtime := Some r'\<rparr>) (es @ new) rs'"
    using p(4) by (intro stored_grow [OF st rows(1,2,3,4) _ p(2)]) (simp_all add: db1)
  with p show ?thesis by blast
qed

lemma appendMessages_run:
  assumes col: "json_column col" and st: "stored db es rs" and pk: "patch_ok p"
    and ms: "messages \<noteq> []" "mapE normalizeDurableMessage messages = Inr ms"
    and new: "new = new_entries (db_sequence db) (db_now db) ms"
  shows "case parseAgentRuntimeState (runtime_state_jv (patched_state rs p (last_id new))) of
      Inl e \<Rightarrow> appendMessages col (rs_head rs) messages p db =
        (Inl (Integrity e), db\<lparr>db_sequence := db_sequence db + int (length ms)\<rparr>)
    | Inr nx \<Rightarrow> \<exists>rs' db'. appendMessages col (rs_head rs) messages p db =
        (Inr \<lparr>ar_appendedEntries = new, ar_runtimeState = rs'\<rparr>, db')
        \<and> stored db' (es @ new) rs' \<and> runtime_same nx rs'"
proof -
  have "length ms = length messages" using ms(2) by (simp add: mapE_Inr_iff list_all2_lengthD)
  with ms(1) have ne: "ms \<noteq> []" by auto
  then have new_ne: "new \<noteq> []" using new_entries_facts(2) [of "db_sequence db" "db_now db" ms] by (auto simp: new)
  have seq: "0 < db_sequence db" using st by (simp add: stored_def)
  let ?db = "\<lambda>rows. db\<lparr>db_rows := db_rows db @ rows, db_sequence := db_sequence db + int (length ms)\<rparr>"
  obtain rows where rows: "append_loop col ms [] (rs_head rs) db = (Inr (new, last_id new), ?db rows)"
      "list_all2 row_is rows new"
    using append_loop_ok [OF col normalize_norm [OF ms(2)] seq, of "[]" "rs_head rs"] new_ne
    by (auto simp: new head_after_def)
  let ?task = "bindA loadRuntimeState (\<lambda>cur.
       bindA (assertMatchingHead (rs_head rs) (rs_head cur)) (\<lambda>_.
       bindA (append_loop col ms [] (rs_head cur)) (\<lambda>(es, head).
       bindA (persistRuntimeState col cur p head) (\<lambda>rs.
         returnA \<lparr>ar_appendedEntries = es, ar_runtimeState = rs\<rparr>))))"
  have app: "appendMessages col (rs_head rs) messages p db = transaction ?task db"
    by (simp add: appendMessages_def stored_expected [OF st] ms)
  have task: "?task db = bindA (persistRuntimeState col rs p (last_id new)) (\<lambda>rs.
      returnA \<lparr>ar_appendedEntries = new, ar_runtimeState = rs\<rparr>) (?db rows)"
    by (simp add: stored_load [OF st] matching bindA_done [where m = "append_loop col ms [] (rs_head rs)", OF rows(1)])
  show ?thesis
  proof (cases "parseAgentRuntimeState (runtime_state_jv (patched_state rs p (last_id new)))")
    case (Inl e)
    have "?task db = (Inl (Integrity e), ?db rows)"
      unfolding task by (rule bindA_fail) (rule persist_fails [OF Inl])
    then show ?thesis by (simp add: Inl app transaction_fails)
  next
    case (Inr nx)
    have ids: "ids_increase new" "\<forall>e \<in> set new. db_sequence db \<le> entry_id e \<and> entry_id e < db_sequence db + int (length ms)"
      using new_entries_ids by (simp_all add: new)
    have "last_id new = last_id (es @ new)" using new_ne by (simp add: last_id_append)
    from persist_stored [OF col st pk rows(2) ids _ refl this Inr] obtain rs' db' where
      p: "persistRuntimeState col rs p (last_id new) (?db rows) = (Inr rs', db')" "stored db' (es @ new) rs'" "runtime_same nx rs'"
      by auto
    have "?task db = (Inr \<lparr>ar_appendedEntries = new, ar_runtimeState = rs'\<rparr>, db')"
      unfolding task using p(1) by (simp add: bindA_def returnA_def)
    then show ?thesis using p by (auto simp: Inr app transaction_commits)
  qed
qed

lemma appendMessages_rejects:
  assumes "stored db es rs" "expected \<noteq> rs_head rs \<or> messages = [] \<or> mapE normalizeDurableMessage messages = Inl d"
  shows "\<exists>e. appendMessages col expected messages p db = (Inl e, db)"
  using assms
  by (auto simp: appendMessages_def assertExpectedHead_def transaction_def stored_load [OF assms(1)] mismatch
      split: option.splits sum.splits; cases "mapE normalizeDurableMessage messages";
      auto simp: transaction_def stored_load [OF assms(1)] mismatch)

section \<open>Compactions\<close>

lemma parse_attention_keys:
  assumes "parseMailboxAttentionState (attention_state_jv st) p = Inr st'"
  shows "map fst st' = sort (map fst st)"
proof -
  obtain r where r: "as_record (attention_state_jv st) = Some r" "mapE (parse_attention_cursor p r) (sort (obj_keys r)) = Inr st'"
    using assms by (auto simp: parseMailboxAttentionState_def attention_state_jv_def as_record_def result_elims)
  have "list_all2 (\<lambda>k q. fst q = k) (sort (obj_keys r)) st'"
    using r(2) by (auto simp: mapE_Inr_iff elim!: list_all2_mono dest!: parse_attention_cursor_Inr)
  then have "map fst st' = sort (obj_keys r)"
    by (induction rule: list_all2_induct) simp_all
  moreover have "obj_keys r = map fst st"
    using r(1) by (auto simp: attention_state_jv_def as_record_def comp_def case_prod_beta)
  ultimately show ?thesis by simp
qed

lemma normalize_compaction_norm:
  assumes "normalizeCompactionPayload c = Inr c'"
  shows "compaction_norm c'" "distinct (map fst (mailboxAttentionState c)) \<Longrightarrow> distinct (map fst (mailboxAttentionState c'))"
proof -
  obtain e where e: "parseAgentLedgerEntry (entry_jv (CompactionEntry 1 c 0)) 0 = Inr e" "c' = entry_payload e"
    using assms by (auto simp: normalizeCompactionPayload_def bindE_Inr_iff)
  then obtain i n t where en: "e = CompactionEntry i n t"
    by (auto simp: parseAgentLedgerEntry_def Let_def requireRecord_def result_elims split: if_splits)
  with e parse_entry_norm [OF e(1)] show c: "compaction_norm c'" by simp
  obtain p where "parseCompactionPayload (compaction_payload_jv c) p = Inr c'"
    using e en by (auto simp: parseAgentLedgerEntry_def Let_def requireRecord_def result_elims split: if_splits)
  then obtain q where "parseMailboxAttentionState (attention_state_jv (mailboxAttentionState c)) q = Inr (mailboxAttentionState c')"
    by (auto simp: parseCompactionPayload_def compaction_payload_jv_def Let_def requireRecord_def result_elims)
  from parse_attention_keys [OF this]
  show "distinct (map fst (mailboxAttentionState c)) \<Longrightarrow> distinct (map fst (mailboxAttentionState c'))" by simp
qed

lemma appendCompaction_run:
  assumes col: "json_column col" and st: "stored db es rs" and pk: "patch_ok p"
    and c: "normalizeCompactionPayload payload = Inr c" "distinct (map fst (mailboxAttentionState payload))"
    and new: "new = [CompactionEntry (db_sequence db) c (db_now db)]"
  shows "case parseAgentRuntimeState (runtime_state_jv (patched_state rs p (Some (db_sequence db)))) of
      Inl e \<Rightarrow> appendCompaction col (rs_head rs) payload p db =
        (Inl (Integrity e), db\<lparr>db_sequence := db_sequence db + 1\<rparr>)
    | Inr nx \<Rightarrow> \<exists>rs' db'. appendCompaction col (rs_head rs) payload p db =
        (Inr \<lparr>ar_appendedEntries = new, ar_runtimeState = rs'\<rparr>, db')
        \<and> stored db' (es @ new) rs' \<and> runtime_same nx rs'"
proof -
  have seq: "0 < db_sequence db" using st by (simp add: stored_def)
  let ?r = "\<lparr>lr_id = db_sequence db, lr_entryType = js ''compaction'', lr_payload = col (compaction_payload_jv c), lr_createdAt = db_now db\<rparr>"
  have row: "row_is ?r (CompactionEntry (db_sequence db) c (db_now db))"
    by (rule row_is_compaction [OF col normalize_compaction_norm(1) [OF c(1)] normalize_compaction_norm(2) [OF c] seq])
  let ?db = "db\<lparr>db_rows := db_rows db @ [?r], db_sequence := db_sequence db + 1\<rparr>"
  let ?task = "bindA loadRuntimeState (\<lambda>cur.
       bindA (assertMatchingHead (rs_head rs) (rs_head cur)) (\<lambda>_.
       bindA (create_row col (js ''compaction'') (compaction_payload_jv c)) (\<lambda>r.
       bindA (liftE (parseAgentLedgerEntry (row_jv r) 0)) (\<lambda>e.
       bindA (persistRuntimeState col cur p (Some (entry_id e))) (\<lambda>rs.
         returnA \<lparr>ar_appendedEntries = [e], ar_runtimeState = rs\<rparr>)))))"
  have app: "appendCompaction col (rs_head rs) payload p db = transaction ?task db"
    by (simp add: appendCompaction_def stored_expected [OF st] c)
  have task: "?task db = bindA (persistRuntimeState col rs p (Some (db_sequence db))) (\<lambda>rs.
      returnA \<lparr>ar_appendedEntries = new, ar_runtimeState = rs\<rparr>) ?db"
    using row by (simp add: stored_load [OF st] matching bindA_create row_is_def new)
  show ?thesis
  proof (cases "parseAgentRuntimeState (runtime_state_jv (patched_state rs p (Some (db_sequence db))))")
    case (Inl e)
    have "?task db = (Inl (Integrity e), ?db)"
      unfolding task by (rule bindA_fail) (rule persist_fails [OF Inl])
    then show ?thesis by (simp add: Inl app transaction_fails)
  next
    case (Inr nx)
    have ids: "ids_increase new" "\<forall>e \<in> set new. db_sequence db \<le> entry_id e \<and> entry_id e < db_sequence db + 1"
      and rows: "list_all2 row_is [?r] new" and hd: "Some (db_sequence db) = last_id (es @ new)"
      using row by (simp_all add: new ids_increase_def last_id_def)
    from persist_stored [OF col st pk rows ids _ refl hd Inr] obtain rs' db' where
      p: "persistRuntimeState col rs p (Some (db_sequence db)) ?db = (Inr rs', db')" "stored db' (es @ new) rs'" "runtime_same nx rs'"
      by auto
    have "?task db = (Inr \<lparr>ar_appendedEntries = new, ar_runtimeState = rs'\<rparr>, db')"
      unfolding task using p(1) by (simp add: bindA_def returnA_def)
    then show ?thesis using p by (auto simp: Inr app transaction_commits)
  qed
qed

lemma appendCompaction_rejects:
  assumes "stored db es rs" "expected \<noteq> rs_head rs \<or> normalizeCompactionPayload payload = Inl d"
  shows "\<exists>e. appendCompaction col expected payload p db = (Inl e, db)"
  using assms
  by (cases "normalizeCompactionPayload payload")
    (auto simp: appendCompaction_def assertExpectedHead_def transaction_def stored_load [OF assms(1)] mismatch
      split: option.splits)

section \<open>Runtime updates\<close>

lemma updateRuntime_run:
  assumes col: "json_column col" and st: "stored db es rs" and pk: "patch_ok p"
  shows "case parseAgentRuntimeState (runtime_state_jv (patched_state rs p (rs_head rs))) of
      Inl e \<Rightarrow> updateRuntime col (rs_head rs) p db = (Inl (Integrity e), db)
    | Inr nx \<Rightarrow> \<exists>rs' db'. updateRuntime col (rs_head rs) p db = (Inr rs', db')
        \<and> stored db' es rs' \<and> runtime_same nx rs'"
proof -
  have upd: "updateRuntime col (rs_head rs) p db = transaction (bindA loadRuntimeState (\<lambda>cur.
       bindA (assertMatchingHead (rs_head rs) (rs_head cur)) (\<lambda>_. persistRuntimeState col cur p (rs_head cur)))) db"
    by (simp add: updateRuntime_def stored_expected [OF st])
  have task: "bindA loadRuntimeState (\<lambda>cur.
       bindA (assertMatchingHead (rs_head rs) (rs_head cur)) (\<lambda>_. persistRuntimeState col cur p (rs_head cur))) db
     = persistRuntimeState col rs p (rs_head rs) db"
    by (simp add: stored_load [OF st] matching)
  show ?thesis
  proof (cases "parseAgentRuntimeState (runtime_state_jv (patched_state rs p (rs_head rs)))")
    case (Inl e)
    then show ?thesis by (simp add: upd transaction_def task persist_fails)
  next
    case (Inr nx)
    have "rs_head rs = last_id (es @ [])" using st by (simp add: stored_def)
    from persist_stored [OF col st pk, of "[]" "[]" "db_sequence db", OF _ _ _ _ _ this Inr]
    obtain rs' db' where "persistRuntimeState col rs p (rs_head rs) db = (Inr rs', db')" "stored db' es rs'" "runtime_same nx rs'"
      by (auto simp: ids_increase_def)
    then show ?thesis by (auto simp: Inr upd transaction_def task)
  qed
qed

lemma updateRuntime_rejects:
  assumes "stored db es rs" "expected \<noteq> rs_head rs"
  shows "\<exists>e. updateRuntime col expected p db = (Inl e, db)"
  using assms
  by (auto simp: updateRuntime_def assertExpectedHead_def transaction_def stored_load [OF assms(1)] mismatch
      split: option.splits)

lemma stored_runtime_norm: "stored db es rs \<Longrightarrow> runtime_norm rs"
  using parse_runtime_norm by (auto simp: stored_def stored_runtime_def)

lemma stored_entry_norm: "stored db es rs \<Longrightarrow> list_all entry_norm es"
  using row_is_id by (fastforce simp: stored_def list_all_iff in_set_conv_nth list_all2_conv_all_nth)

end
