(* ===== verification/Ledger_Repo_Log.thy ===== *)
theory Ledger_Repo_Log
  imports Ledger_Repo_Facts
begin

text \<open>
  The contract of an append-only log under optimistic concurrency: a commit names the head it was
  computed from and appends only when that is still the head.  What follows for every sequence of
  commits is proved here once: nothing is ever removed or changed, and a head that was committed
  on never admits a commit again.
\<close>

locale optimistic_log =
  fixes inv :: "'s \<Rightarrow> bool"
    and entries :: "'s \<Rightarrow> 'e list"
    and head :: "'e list \<Rightarrow> 'h"
    and commit :: "'h \<Rightarrow> 'r \<Rightarrow> 's \<Rightarrow> bool \<times> 's"
    and ok :: "'r \<Rightarrow> bool"
  assumes commit_inv: "inv s \<Longrightarrow> ok r \<Longrightarrow> inv (snd (commit h r s))"
    and commit_fails: "inv s \<Longrightarrow> ok r \<Longrightarrow> \<not> fst (commit h r s) \<Longrightarrow> entries (snd (commit h r s)) = entries s"
    and commit_appends: "inv s \<Longrightarrow> ok r \<Longrightarrow> fst (commit h r s) \<Longrightarrow>
      h = head (entries s) \<and> (\<exists>new. new \<noteq> [] \<and> entries (snd (commit h r s)) = entries s @ new)"
    and head_fresh: "inv s \<Longrightarrow> entries s = xs @ ys \<Longrightarrow> ys \<noteq> [] \<Longrightarrow> head xs \<noteq> head (entries s)"
begin

definition run :: "'s \<Rightarrow> ('h \<times> 'r) list \<Rightarrow> 's" where
  "run s cs = foldl (\<lambda>s (h, r). snd (commit h r s)) s cs"

definition all_ok :: "('h \<times> 'r) list \<Rightarrow> bool" where
  "all_ok cs \<longleftrightarrow> (\<forall>(h, r) \<in> set cs. ok r)"

lemma commit_prefix: "inv s \<Longrightarrow> ok r \<Longrightarrow> \<exists>new. entries (snd (commit h r s)) = entries s @ new"
  using commit_fails [of s r h] commit_appends [of s r h] by (cases "fst (commit h r s)") auto

lemma run_inv: "inv s \<Longrightarrow> all_ok cs \<Longrightarrow> inv (run s cs)"
proof (induction cs arbitrary: s)
  case (Cons c cs)
  then show ?case using commit_inv by (cases c) (auto simp: run_def all_ok_def)
qed (simp add: run_def)

text \<open>Whatever is committed, the log only grows.\<close>

lemma run_prefix: "inv s \<Longrightarrow> all_ok cs \<Longrightarrow> \<exists>new. entries (run s cs) = entries s @ new"
proof (induction cs arbitrary: s)
  case (Cons c cs)
  obtain h r where c: "c = (h, r)" by fastforce
  with Cons.prems have ok: "ok r" "all_ok cs" by (auto simp: all_ok_def)
  have "inv (snd (commit h r s))" by (rule commit_inv [OF Cons.prems(1) ok(1)])
  from Cons.IH [OF this ok(2)] commit_prefix [OF Cons.prems(1) ok(1), of h]
  show ?case by (auto simp: run_def c)
qed (simp add: run_def)

text \<open>A writer that lost the race keeps losing: once something was committed on a head, no later
  commit on that head succeeds.\<close>

lemma stale_head:
  assumes "inv s" "ok r" "fst (commit h r s)" "all_ok cs" "ok r'"
  shows "\<not> fst (commit h r' (run (snd (commit h r s)) cs))"
proof
  let ?s = "snd (commit h r s)"
  let ?t = "run ?s cs"
  assume again: "fst (commit h r' ?t)"
  have inv: "inv ?s" "inv ?t" using assms by (auto intro: commit_inv run_inv)
  obtain new where new: "h = head (entries s)" "new \<noteq> []" "entries ?s = entries s @ new"
    using commit_appends [OF assms(1,2,3)] by blast
  obtain more where "entries ?t = entries ?s @ more" using run_prefix [OF inv(1) assms(4)] by blast
  with new have t: "entries ?t = entries s @ (new @ more)" "new @ more \<noteq> []" by simp_all
  have "h = head (entries ?t)" using commit_appends [OF inv(2) assms(5) again] by simp
  with head_fresh [OF inv(2) t] new(1) show False by simp
qed

end

text \<open>
  The ledger repository is an append-only log under optimistic concurrency (\<open>Ledger_Repo_Log\<close>); the
  databases its operations can reach, and its properties.
\<close>

section \<open>The repository as an optimistic log\<close>

datatype commit_request =
    CommitMessages "agent_message list" runtime_patch
  | CommitCompaction compaction_payload runtime_patch

fun request_ok :: "commit_request \<Rightarrow> bool" where
  "request_ok (CommitMessages ms p) \<longleftrightarrow> patch_ok p"
| "request_ok (CommitCompaction c p) \<longleftrightarrow> patch_ok p \<and> distinct (map fst (mailboxAttentionState c))"

type_synonym repo_state = "(jv \<Rightarrow> jv) \<times> ledger_db"

definition repo_append :: "int option \<Rightarrow> commit_request \<Rightarrow> repo_state \<Rightarrow> (repo_error + append_result) \<times> ledger_db" where
  "repo_append h r s = (case r of
      CommitMessages ms p \<Rightarrow> appendMessages (fst s) h ms p (snd s)
    | CommitCompaction c p \<Rightarrow> appendCompaction (fst s) h c p (snd s))"

definition repo_commit :: "int option \<Rightarrow> commit_request \<Rightarrow> repo_state \<Rightarrow> bool \<times> repo_state" where
  "repo_commit h r s = (\<not> isl (fst (repo_append h r s)), (fst s, snd (repo_append h r s)))"

definition repo_inv :: "repo_state \<Rightarrow> bool" where
  "repo_inv s \<longleftrightarrow> json_column (fst s) \<and> (\<exists>es rs. stored (snd s) es rs)"

definition repo_entries :: "repo_state \<Rightarrow> ledger_entry list" where
  "repo_entries s = (case fst (loadCanonicalState (snd s)) of Inl _ \<Rightarrow> [] | Inr c \<Rightarrow> cn_entries c)"

lemma repo_entries_stored: "stored db es rs \<Longrightarrow> repo_entries (col, db) = es"
  by (simp add: repo_entries_def load_stored)

text \<open>What an entry says, without the id the database gave it, and what a request wants written at a time.\<close>

type_synonym content = "(agent_message + compaction_payload) \<times> int"

fun entry_content :: "ledger_entry \<Rightarrow> content" where
  "entry_content (MessageEntry i m t) = (Inl m, t)"
| "entry_content (CompactionEntry i c t) = (Inr c, t)"

definition request_contents :: "commit_request \<Rightarrow> int \<Rightarrow> content list" where
  "request_contents r t = (case r of
      CommitMessages ms p \<Rightarrow> (case mapE normalizeDurableMessage ms of Inr ns \<Rightarrow> map (\<lambda>m. (Inl m, t)) ns | Inl _ \<Rightarrow> [])
    | CommitCompaction c p \<Rightarrow> (case normalizeCompactionPayload c of Inr c' \<Rightarrow> [(Inr c', t)] | Inl _ \<Rightarrow> []))"

lemma new_entries_content: "map entry_content (new_entries i t ms) = map (\<lambda>m. (Inl m, t)) ms"
  by (induction ms arbitrary: i) simp_all

text \<open>What an append does, whichever it is.\<close>

lemma repo_append_cases:
  assumes "json_column col" "stored db es rs" "request_ok r"
  obtains (rejected) e n where "repo_append h r (col, db) = (Inl e, db\<lparr>db_sequence := n\<rparr>)" "db_sequence db \<le> n"
  | (committed) a db' where "repo_append h r (col, db) = (Inr a, db')" "h = rs_head rs" "ar_appendedEntries a \<noteq> []"
      "stored db' (es @ ar_appendedEntries a) (ar_runtimeState a)" "map entry_content (ar_appendedEntries a) = request_contents r (db_now db)"
proof (cases r)
  case (CommitMessages ms p)
  show ?thesis
  proof (cases "h = rs_head rs \<and> ms \<noteq> [] \<and> \<not> isl (mapE normalizeDurableMessage ms)")
    case False
    then obtain d where "h \<noteq> rs_head rs \<or> ms = [] \<or> mapE normalizeDurableMessage ms = Inl d"
      by (cases "mapE normalizeDurableMessage ms") auto
    from appendMessages_rejects [OF assms(2) this] show ?thesis
      using rejected [of _ "db_sequence db"] by (auto simp: repo_append_def CommitMessages)
  next
    case True
    then obtain ns where ns: "mapE normalizeDurableMessage ms = Inr ns" by (cases "mapE normalizeDurableMessage ms") auto
    have "length ns = length ms" using ns by (simp add: mapE_Inr_iff list_all2_lengthD)
    with True have "new_entries (db_sequence db) (db_now db) ns \<noteq> []"
      using new_entries_facts(2) [of "db_sequence db" "db_now db" ns] by (metis length_0_conv)
    with appendMessages_run [OF assms(1,2), of p ms ns, OF _ _ ns refl] True assms(3)
    show ?thesis
      by (cases "parseAgentRuntimeState (runtime_state_jv (patched_state rs p (last_id (new_entries (db_sequence db) (db_now db) ns))))")
        (auto simp: repo_append_def CommitMessages ns request_contents_def new_entries_content intro: rejected committed)
  qed
next
  case (CommitCompaction c p)
  show ?thesis
  proof (cases "h = rs_head rs \<and> \<not> isl (normalizeCompactionPayload c)")
    case False
    then obtain d where "h \<noteq> rs_head rs \<or> normalizeCompactionPayload c = Inl d"
      by (cases "normalizeCompactionPayload c") auto
    from appendCompaction_rejects [OF assms(2) this] show ?thesis
      using rejected [of _ "db_sequence db"] by (auto simp: repo_append_def CommitCompaction)
  next
    case True
    then obtain c' where c': "normalizeCompactionPayload c = Inr c'" by (cases "normalizeCompactionPayload c") auto
    with appendCompaction_run [OF assms(1,2) _ c' _ refl, of p] True assms(3)
    show ?thesis
      by (cases "parseAgentRuntimeState (runtime_state_jv (patched_state rs p (Some (db_sequence db))))")
        (auto simp: repo_append_def CommitCompaction c' request_contents_def intro: rejected committed)
  qed
qed

lemma last_id_fresh:
  assumes "ids_increase (xs @ ys)" "ys \<noteq> []"
  shows "last_id xs \<noteq> last_id (xs @ ys)"
proof -
  have y: "last ys \<in> set ys" using assms(2) by simp
  have "entry_id (last xs) < entry_id (last ys)" if "xs \<noteq> []"
    using assms(1) y last_in_set [OF that] by (auto simp: ids_increase_def sorted_wrt_append)
  with assms(2) show ?thesis by (cases xs) (auto simp: last_id_def)
qed

interpretation repo: optimistic_log repo_inv repo_entries last_id repo_commit request_ok
proof
  fix s :: repo_state and r h and xs ys :: "ledger_entry list"
  assume inv: "repo_inv s"
  obtain col db where s: "s = (col, db)" by fastforce
  from inv s obtain es rs where st: "json_column col" "stored db es rs" by (auto simp: repo_inv_def)
  have ent: "repo_entries s = es" by (simp add: s repo_entries_stored [OF st(2)])
  have hd: "rs_head rs = last_id es" and ids: "ids_increase es"
    using st(2) by (simp_all add: stored_def)
  show "repo_entries s = xs @ ys \<Longrightarrow> ys \<noteq> [] \<Longrightarrow> last_id xs \<noteq> last_id (repo_entries s)"
    using last_id_fresh [of xs ys] ids by (simp add: ent)
  assume ok: "request_ok r"
  have "repo_inv (snd (repo_commit h r s))
    \<and> (\<not> fst (repo_commit h r s) \<longrightarrow> repo_entries (snd (repo_commit h r s)) = repo_entries s)
    \<and> (fst (repo_commit h r s) \<longrightarrow> h = last_id (repo_entries s)
        \<and> (\<exists>new. new \<noteq> [] \<and> repo_entries (snd (repo_commit h r s)) = repo_entries s @ new))"
  proof (rule repo_append_cases [OF st ok, of h])
    fix e n assume rej: "repo_append h r (col, db) = (Inl e, db\<lparr>db_sequence := n\<rparr>)" "db_sequence db \<le> n"
    have "stored (db\<lparr>db_sequence := n\<rparr>) es rs" by (rule stored_sequence [OF st(2) rej(2)])
    with rej st(1) show ?thesis by (auto simp: repo_commit_def s repo_inv_def repo_entries_stored [OF st(2)] repo_entries_stored)
  next
    fix a db' assume com: "repo_append h r (col, db) = (Inr a, db')" "h = rs_head rs" "ar_appendedEntries a \<noteq> []"
      "stored db' (es @ ar_appendedEntries a) (ar_runtimeState a)"
    with st(1) hd show ?thesis
      by (auto simp: repo_commit_def s repo_inv_def repo_entries_stored [OF st(2)] repo_entries_stored [OF com(4)])
  qed
  then show "repo_inv (snd (repo_commit h r s))"
    "\<not> fst (repo_commit h r s) \<Longrightarrow> repo_entries (snd (repo_commit h r s)) = repo_entries s"
    "fst (repo_commit h r s) \<Longrightarrow> h = last_id (repo_entries s)
        \<and> (\<exists>new. new \<noteq> [] \<and> repo_entries (snd (repo_commit h r s)) = repo_entries s @ new)"
    by blast+
qed

section \<open>Reachable databases\<close>

text \<open>The row the migrations insert; the keys of its continuity are in the order a copy of it has.\<close>

definition migrated_continuity :: jobj where
  "migrated_continuity = [(js ''compactionEpoch'', jint 0), (js ''lastInputTokens'', JNull), (js ''mailboxes'', JObj []),
     (js ''roundSeq'', jint 0), (js ''schemaVersion'', jint 1)]"

definition empty_runtime :: runtime_state where
  "empty_runtime = \<lparr>rs_mailboxCursors = [], rs_inboxReadCursors = [], rs_mailboxContinuity = migrated_continuity,
     rs_focus = None, rs_lastWakeAt = None, rs_head = None\<rparr>"

definition initial_db :: "int \<Rightarrow> ledger_db" where
  "initial_db t = \<lparr>db_rows = [], db_runtime = Some (row_of_state empty_runtime), db_checkpoint = None,
     db_sequence = 1, db_now = t\<rparr>"

inductive repo_reachable :: "(jv \<Rightarrow> jv) \<Rightarrow> ledger_db \<Rightarrow> bool" for col where
  reach_init: "repo_reachable col (initial_db t)"
| reach_append: "repo_reachable col db \<Longrightarrow> request_ok r \<Longrightarrow> repo_reachable col (snd (repo_append h r (col, db)))"
| reach_update: "repo_reachable col db \<Longrightarrow> patch_ok p \<Longrightarrow> repo_reachable col (snd (updateRuntime col h p db))"
| reach_checkpoint: "repo_reachable col db \<Longrightarrow> repo_reachable col (snd (saveCheckpoint col c db))"
| reach_clock: "repo_reachable col db \<Longrightarrow> repo_reachable col (db\<lparr>db_now := t\<rparr>)"

lemma migrated_copy: "json_copy migrated_continuity"
proof -
  have e: "cloneJsonValue (JObj []) p = Inr (JObj [])" for p by (simp add: cloneJsonValue.simps [of "JObj []"] obj_of_def)
  have sorted: "sort_key fst migrated_continuity = migrated_continuity" by (simp add: migrated_continuity_def js_def)
  have "key_order migrated_continuity"
    by (rule key_orderI) (simp_all add: migrated_continuity_def js_def is_index_key_def is_digit_def)
  then have order: "obj_of [] migrated_continuity = migrated_continuity" by (simp add: key_order_def)
  have "mapE (\<lambda>q. bindE (cloneJsonValue (snd q) ([] @ [Key (fst q)])) (\<lambda>w. Inr (fst q, w))) migrated_continuity = Inr migrated_continuity"
    by (simp add: migrated_continuity_def e cloneJsonValue.simps [of "JNum (NInt _)"] cloneJsonValue.simps [of "JNull"])
  then show ?thesis by (simp add: json_copy_def cloneJsonValue.simps [of "JObj migrated_continuity"] sorted order)
qed

lemma empty_runtime_norm: "runtime_norm empty_runtime"
  using migrated_copy by (simp add: runtime_norm_def empty_runtime_def focus_ok_def) (simp add: json_copy_def cloneJsonValue.simps obj_of_def)

lemma initial_stored: "stored (initial_db t) [] empty_runtime"
  using parse_runtime_jv [OF empty_runtime_norm]
  by (simp add: stored_def initial_db_def stored_runtime_def ids_increase_def runtime_state_row cursor_keys_distinct_def)
    (simp add: empty_runtime_def last_id_def)

lemma save_checkpoint_db: "\<exists>c'. snd (saveCheckpoint col c db) = db\<lparr>db_checkpoint := c'\<rparr>"
proof (cases "validateCheckpointInput c db")
  case (Pair r db')
  have db': "db' = db" using Pair by (auto simp: validateCheckpointInput_def throwA_def returnA_def split: if_splits)
  show ?thesis
  proof (cases r)
    case (Inl e)
    then have "snd (saveCheckpoint col c db) = db\<lparr>db_checkpoint := db_checkpoint db\<rparr>"
      using Pair db' by (simp add: saveCheckpoint_def bindA_def)
    then show ?thesis by blast
  next
    case (Inr u)
    then show ?thesis using Pair db' by (auto simp: saveCheckpoint_def bindA_def)
  qed
qed

lemma update_stored:
  assumes "json_column col" "stored db es rs" "patch_ok p"
  shows "\<exists>rs'. stored (snd (updateRuntime col h p db)) es rs'"
proof (cases "h = rs_head rs")
  case False
  then show ?thesis using updateRuntime_rejects [OF assms(2) False, of col p] assms(2) by auto
next
  case True
  with updateRuntime_run [OF assms] assms(2) show ?thesis
    by (cases "parseAgentRuntimeState (runtime_state_jv (patched_state rs p (rs_head rs)))") auto
qed

text \<open>The same operations as data: what an operation wrote, and the database after it.\<close>

datatype repo_op =
    AppendOp "int option" commit_request
  | UpdateOp "int option" runtime_patch
  | CheckpointOp checkpoint_row
  | ClockOp int

fun op_ok :: "repo_op \<Rightarrow> bool" where
  "op_ok (AppendOp h r) \<longleftrightarrow> request_ok r"
| "op_ok (UpdateOp h p) \<longleftrightarrow> patch_ok p"
| "op_ok _ \<longleftrightarrow> True"

fun repo_op_step :: "(jv \<Rightarrow> jv) \<Rightarrow> repo_op \<Rightarrow> ledger_db \<Rightarrow> content list \<times> ledger_db" where
  "repo_op_step col (AppendOp h r) db = (case repo_append h r (col, db) of
      (Inl e, db') \<Rightarrow> ([], db') | (Inr a, db') \<Rightarrow> (request_contents r (db_now db), db'))"
| "repo_op_step col (UpdateOp h p) db = ([], snd (updateRuntime col h p db))"
| "repo_op_step col (CheckpointOp c) db = ([], snd (saveCheckpoint col c db))"
| "repo_op_step col (ClockOp t) db = ([], db\<lparr>db_now := t\<rparr>)"

fun run_repo :: "(jv \<Rightarrow> jv) \<Rightarrow> repo_op list \<Rightarrow> ledger_db \<Rightarrow> content list \<times> ledger_db" where
  "run_repo col [] db = ([], db)"
| "run_repo col (x # xs) db = (let (ws, db1) = repo_op_step col x db; (rest, db2) = run_repo col xs db1 in (ws @ rest, db2))"

lemma repo_op_stored:
  assumes "json_column col" "stored db es rs" "op_ok x" "repo_op_step col x db = (ws, db')"
  shows "\<exists>new rs'. stored db' (es @ new) rs' \<and> map entry_content new = ws"
proof (cases x)
  case (AppendOp h r)
  then have "request_ok r" using assms(3) by simp
  then show ?thesis
  proof (rule repo_append_cases [OF assms(1,2), where h = h])
    fix e n assume "repo_append h r (col, db) = (Inl e, db\<lparr>db_sequence := n\<rparr>)" "db_sequence db \<le> n"
    then show ?thesis using assms(4) AppendOp stored_sequence [OF assms(2)] by (intro exI [of _ "[]"]) auto
  next
    fix a db1 assume "repo_append h r (col, db) = (Inr a, db1)" "stored db1 (es @ ar_appendedEntries a) (ar_runtimeState a)"
      "map entry_content (ar_appendedEntries a) = request_contents r (db_now db)"
    then show ?thesis using assms(4) AppendOp by auto
  qed
next
  case (UpdateOp h p)
  then show ?thesis using assms update_stored [OF assms(1,2), of p h] by (intro exI [of _ "[]"]) auto
next
  case (CheckpointOp c)
  then show ?thesis using assms(2,4) save_checkpoint_db [of col c db] by (intro exI [of _ "[]"]) (auto simp: stored_rest)
next
  case (ClockOp t)
  then show ?thesis using assms(2,4) by (intro exI [of _ "[]"]) (auto simp: stored_rest)
qed

lemma run_repo_stored:
  "json_column col \<Longrightarrow> stored db es rs \<Longrightarrow> \<forall>x \<in> set xs. op_ok x \<Longrightarrow> run_repo col xs db = (ws, db')
     \<Longrightarrow> \<exists>new rs'. stored db' (es @ new) rs' \<and> map entry_content new = ws"
proof (induction xs arbitrary: db es rs ws)
  case (Cons x xs)
  obtain ws1 db1 ws2 where run: "repo_op_step col x db = (ws1, db1)" "run_repo col xs db1 = (ws2, db')" "ws = ws1 @ ws2"
    using Cons.prems(4) by (auto split: prod.splits)
  obtain new rs1 where new: "stored db1 (es @ new) rs1" "map entry_content new = ws1"
    using repo_op_stored [OF Cons.prems(1,2) _ run(1)] Cons.prems(3) by auto
  from Cons.IH [OF Cons.prems(1) new(1) _ run(2)] Cons.prems(3) new(2) run(3) show ?case
    by (metis append.assoc list.set_intros(2) map_append)
qed auto

text \<open>Every reachable database is reached by a list of operations.\<close>

lemma run_repo_snoc: "snd (run_repo col (xs @ [x]) db) = snd (repo_op_step col x (snd (run_repo col xs db)))"
  by (induction xs arbitrary: db) (simp_all add: split_beta)

lemma reachable_run: "repo_reachable col db \<Longrightarrow> \<exists>t xs. (\<forall>x \<in> set xs. op_ok x) \<and> snd (run_repo col xs (initial_db t)) = db"
proof (induction rule: repo_reachable.induct)
  case (reach_init t)
  show ?case by (intro exI [of _ t] exI [of _ "[]"]) simp
next
  case (reach_append db r h)
  then obtain t xs where "\<forall>x \<in> set xs. op_ok x" "snd (run_repo col xs (initial_db t)) = db" by blast
  with reach_append.hyps(2) show ?case
    by (intro exI [of _ t] exI [of _ "xs @ [AppendOp h r]"]) (auto simp: run_repo_snoc split: prod.split sum.split)
next
  case (reach_update db p h)
  then obtain t xs where "\<forall>x \<in> set xs. op_ok x" "snd (run_repo col xs (initial_db t)) = db" by blast
  with reach_update.hyps(2) show ?case by (intro exI [of _ t] exI [of _ "xs @ [UpdateOp h p]"]) (auto simp: run_repo_snoc)
next
  case (reach_checkpoint db c)
  then obtain t xs where "\<forall>x \<in> set xs. op_ok x" "snd (run_repo col xs (initial_db t)) = db" by blast
  then show ?case by (intro exI [of _ t] exI [of _ "xs @ [CheckpointOp c]"]) (auto simp: run_repo_snoc)
next
  case (reach_clock db t)
  then obtain t' xs where "\<forall>x \<in> set xs. op_ok x" "snd (run_repo col xs (initial_db t')) = db" by blast
  then show ?case by (intro exI [of _ t'] exI [of _ "xs @ [ClockOp t]"]) (auto simp: run_repo_snoc)
qed

lemma reachable_stored: "repo_reachable col db \<Longrightarrow> json_column col \<Longrightarrow> \<exists>es rs. stored db es rs"
  using reachable_run [of col db] run_repo_stored [OF _ initial_stored] by (metis prod.collapse)

section \<open>The properties\<close>

text \<open>The identity is a JSON column.\<close>

lemma json_column_id: "json_column (\<lambda>v. v)"
  by (simp add: json_column_def)

definition sample_db :: ledger_db where
  "sample_db = initial_db 1000"

lemma sample_patch: "patch_ok empty_patch"
  by (simp add: patch_ok_def empty_patch_def)

text \<open>C13. The repository returns what was written to it.  After any sequence of its operations on the migrated database,
  successful or not, with right or wrong heads, at any times, the ledger loads, and what is loaded is in order what the
  appends that succeeded wanted written: the contents of each in normal form, with the time of its append.  The entries
  have increasing ids, and the head of the runtime state is the last of them.\<close>

theorem reachable_loads:
  assumes "json_column col" "\<forall>x \<in> set xs. op_ok x" "run_repo col xs (initial_db t) = (written, db)"
  shows "\<exists>es rs. loadCanonicalState db = (Inr \<lparr>cn_entries = es, cn_runtimeState = rs\<rparr>, db)
    \<and> map entry_content es = written \<and> ids_increase es \<and> list_all entry_norm es \<and> rs_head rs = last_id es"
proof -
  obtain es rs where st: "stored db es rs" "map entry_content es = written"
    using run_repo_stored [OF assms(1) initial_stored assms(2,3)] by auto
  then show ?thesis using load_stored [OF st(1)] stored_entry_norm [OF st(1)] by (auto simp: stored_def)
qed

lemma normalize_user: "normalizeDurableMessage (UserMsg t) = Inr (UserMsg t)"
proof -
  have "parseAgentLedgerEntry (entry_jv (MessageEntry 1 (UserMsg t) 0)) 0 = Inr (MessageEntry 1 (UserMsg t) 0)"
    by (rule parse_entry_jv) simp
  then show ?thesis by (simp add: normalizeDurableMessage_def)
qed

lemma patched_empty: "patched_state rs empty_patch h = rs\<lparr>rs_head := h\<rparr>"
  by (simp add: patched_state_def empty_patch_def or_else_def)

lemma sample_facts:
  "stored sample_db [] empty_runtime" "db_sequence sample_db = 1" "db_now sample_db = 1000" "rs_head empty_runtime = None"
  "parseAgentRuntimeState (runtime_state_jv (empty_runtime\<lparr>rs_head := Some 1\<rparr>)) = Inr (empty_runtime\<lparr>rs_head := Some 1\<rparr>)"
proof -
  have "runtime_norm (empty_runtime\<lparr>rs_head := Some 1\<rparr>)" using empty_runtime_norm by (simp add: runtime_norm_def)
  then show "parseAgentRuntimeState (runtime_state_jv (empty_runtime\<lparr>rs_head := Some 1\<rparr>)) = Inr (empty_runtime\<lparr>rs_head := Some 1\<rparr>)"
    by (rule parse_runtime_jv)
  show "rs_head empty_runtime = None" by (simp add: empty_runtime_def)
  show "db_sequence sample_db = 1" "db_now sample_db = 1000" by (simp_all add: sample_db_def initial_db_def)
  show "stored sample_db [] empty_runtime" by (simp add: sample_db_def initial_stored)
qed

lemma sample_append:
  "\<exists>rs' db'. appendMessages (\<lambda>v. v) None [UserMsg (js ''hi'')] empty_patch sample_db =
     (Inr \<lparr>ar_appendedEntries = [MessageEntry 1 (UserMsg (js ''hi'')) 1000], ar_runtimeState = rs'\<rparr>, db')"
  using appendMessages_run [OF json_column_id sample_facts(1) sample_patch, of "[UserMsg (js ''hi'')]" "[UserMsg (js ''hi'')]", OF _ _ refl]
  by (auto simp: normalize_user patched_empty last_id_def sample_facts)

text \<open>One message is written on the right head, another one fails on the same head.\<close>

theorem reachable_loads_witness:
  "\<exists>db es. snd (run_repo (\<lambda>v. v) [AppendOp None (CommitMessages [UserMsg (js ''hi'')] empty_patch),
       AppendOp None (CommitMessages [UserMsg (js ''late'')] empty_patch)] (initial_db 1000)) = db
     \<and> fst (loadCanonicalState db) = Inr es \<and> map entry_content (cn_entries es) = [(Inl (UserMsg (js ''hi'')), 1000)]"
proof -
  let ?r = "CommitMessages [UserMsg (js ''hi'')] empty_patch" and ?late = "CommitMessages [UserMsg (js ''late'')] empty_patch"
  let ?xs = "[AppendOp None ?r, AppendOp None ?late]"
  obtain rs' db1 where a: "repo_append None ?r (\<lambda>v. v, initial_db 1000) =
      (Inr \<lparr>ar_appendedEntries = [MessageEntry 1 (UserMsg (js ''hi'')) 1000], ar_runtimeState = rs'\<rparr>, db1)"
    using sample_append by (auto simp: repo_append_def sample_db_def)
  have initial_time: "db_now (initial_db 1000) = 1000" by (simp add: initial_db_def)
  have st: "stored db1 [MessageEntry 1 (UserMsg (js ''hi'')) 1000] rs'"
    by (rule repo_append_cases [OF json_column_id sample_facts(1) , of ?r None]) (use a in \<open>auto simp: sample_patch sample_db_def\<close>)
  have "rs_head rs' = Some 1" using st by (simp add: stored_def last_id_def)
  then obtain e where "repo_append None ?late (\<lambda>v. v, db1) = (Inl e, db1)"
    using appendMessages_rejects [OF st, of None "[UserMsg (js ''late'')]" undefined "\<lambda>v. v" empty_patch] by (auto simp: repo_append_def)
  then have run: "run_repo (\<lambda>v. v) ?xs (initial_db 1000) = ([(Inl (UserMsg (js ''hi'')), 1000)], db1)"
    using initial_time by (simp add: a request_contents_def normalize_user)
  have "\<forall>x \<in> set ?xs. op_ok x" by (simp add: sample_patch)
  from reachable_loads [OF json_column_id this run] run show ?thesis by auto
qed

text \<open>C14. Appending messages on the current head of a stored ledger either fails because the patched
  runtime state is invalid, changing nothing but the id sequence, or appends exactly the normalised
  messages as entries with the next ids, and the database then stores the extended ledger with the
  patched state.\<close>

theorem append_messages_refines:
  assumes "json_column col" "stored db es rs" "patch_ok p" "messages \<noteq> []"
    and "mapE normalizeDurableMessage messages = Inr ms"
  shows "case parseAgentRuntimeState (runtime_state_jv (patched_state rs p (last_id (new_entries (db_sequence db) (db_now db) ms)))) of
      Inl e \<Rightarrow> appendMessages col (rs_head rs) messages p db =
        (Inl (Integrity e), db\<lparr>db_sequence := db_sequence db + int (length ms)\<rparr>)
    | Inr nx \<Rightarrow> \<exists>rs' db'. appendMessages col (rs_head rs) messages p db =
        (Inr \<lparr>ar_appendedEntries = new_entries (db_sequence db) (db_now db) ms, ar_runtimeState = rs'\<rparr>, db')
        \<and> stored db' (es @ new_entries (db_sequence db) (db_now db) ms) rs' \<and> runtime_same nx rs'"
  by (rule appendMessages_run [OF assms refl])

theorem append_messages_refines_witness:
  "\<exists>rs' db'. appendMessages (\<lambda>v. v) None [UserMsg (js ''hi'')] empty_patch sample_db =
     (Inr \<lparr>ar_appendedEntries = [MessageEntry 1 (UserMsg (js ''hi'')) 1000], ar_runtimeState = rs'\<rparr>, db')"
  using append_messages_refines [OF json_column_id sample_facts(1) sample_patch, of "[UserMsg (js ''hi'')]" "[UserMsg (js ''hi'')]"]
  by (auto simp: normalize_user patched_empty last_id_def sample_facts)

text \<open>Commits one after the other, each on its own expected head.\<close>

definition run_commits :: "repo_state \<Rightarrow> (int option \<times> commit_request) list \<Rightarrow> repo_state" where
  "run_commits s cs = foldl (\<lambda>s (h, r). snd (repo_commit h r s)) s cs"

lemma run_commits_eq: "run_commits = repo.run"
  by (simp add: run_commits_def repo.run_def fun_eq_iff)

text \<open>Whatever appends are tried, with right or wrong heads, valid or invalid contents, the entries a
  database stored before them are a prefix of those it stores after them: the ledger is append-only.\<close>

theorem ledger_append_only:
  assumes "repo_inv s" "\<forall>(h, r) \<in> set cs. request_ok r"
  shows "\<exists>new. repo_entries (run_commits s cs) = repo_entries s @ new"
  unfolding run_commits_eq by (rule repo.run_prefix [OF assms(1)]) (use assms(2) in \<open>simp add: repo.all_ok_def\<close>)

lemma sample_inv: "repo_inv (\<lambda>v. v, sample_db)"
  using json_column_id initial_stored by (auto simp: repo_inv_def sample_db_def)

theorem ledger_append_only_witness:
  "\<exists>new. repo_entries (run_commits (\<lambda>v. v, sample_db) [(None, CommitMessages [UserMsg []] empty_patch)])
     = repo_entries (\<lambda>v. v, sample_db) @ new"
  by (rule ledger_append_only [OF sample_inv]) (simp add: sample_patch)

text \<open>Of two writers that read the same head at most one commits: after a successful append on a head,
  no later append on that head succeeds, whatever happened in between.\<close>

theorem stale_head_never_commits:
  assumes "repo_inv s" "request_ok r" "fst (repo_commit h r s)"
    and "\<forall>(h, r) \<in> set cs. request_ok r" "request_ok r'"
  shows "\<not> fst (repo_commit h r' (run_commits (snd (repo_commit h r s)) cs))"
  unfolding run_commits_eq
  by (rule repo.stale_head [OF assms(1,2,3) _ assms(5)]) (use assms(4) in \<open>simp add: repo.all_ok_def\<close>)

theorem stale_head_never_commits_witness:
  "fst (repo_commit None (CommitMessages [UserMsg (js ''hi'')] empty_patch) (\<lambda>v. v, sample_db))
   \<and> \<not> fst (repo_commit None (CommitMessages [UserMsg (js ''hi'')] empty_patch)
        (snd (repo_commit None (CommitMessages [UserMsg (js ''hi'')] empty_patch) (\<lambda>v. v, sample_db))))"
proof -
  let ?r = "CommitMessages [UserMsg (js ''hi'')] empty_patch"
  have first: "fst (repo_commit None ?r (\<lambda>v. v, sample_db))"
    using sample_append by (auto simp: repo_commit_def repo_append_def)
  with stale_head_never_commits [OF sample_inv, of ?r None "[]" ?r] show ?thesis
    by (simp add: sample_patch run_commits_def)
qed

end
