(* ===== verification/Js_Text.thy ===== *)
theory Js_Text
  imports Js_Json
begin

text \<open>
  Texts as lines: \<open>split('\n')\<close> and \<open>join('\n')\<close>, the searches \<open>indexOf\<close> and \<open>endsWith\<close>, and the
  fact that what \<open>JSON.stringify\<close> prints is one line.
\<close>

abbreviation newline :: nat where
  "newline \<equiv> 10"

fun join_lines :: "jstr list \<Rightarrow> jstr" where
  "join_lines [] = []"
| "join_lines [l] = l"
| "join_lines (l # ls) = l @ newline # join_lines ls"

fun split_lines :: "jstr \<Rightarrow> jstr list" where
  "split_lines [] = [ [] ]"
| "split_lines (c # s) =
     (if c = newline then [] # split_lines s
      else (case split_lines s of [] \<Rightarrow> [ [c] ] | l # ls \<Rightarrow> (c # l) # ls))"

lemma split_lines_not_Nil [simp]: "split_lines s \<noteq> []"
  by (induction s) (auto split: list.splits)

lemma split_one_line: "newline \<notin> set s \<Longrightarrow> split_lines s = [s]"
  by (induction s) auto

lemma split_lines_Cons: "newline \<notin> set l \<Longrightarrow> split_lines (l @ newline # s) = l # split_lines s"
  by (induction l) auto

lemma split_join_lines:
  "ls \<noteq> [] \<Longrightarrow> \<forall>l \<in> set ls. newline \<notin> set l \<Longrightarrow> split_lines (join_lines ls) = ls"
  by (induction ls rule: join_lines.induct) (auto simp: split_one_line split_lines_Cons)

lemma split_lines_no_newline: "l \<in> set (split_lines s) \<Longrightarrow> newline \<notin> set l"
proof (induction s arbitrary: l)
  case (Cons c s)
  then show ?case by (cases "split_lines s") (auto split: if_splits)
qed simp

lemma join_split_lines: "join_lines (split_lines s) = s"
proof (induction s)
  case (Cons c s)
  obtain l ls where s: "split_lines s = l # ls" by (metis neq_Nil_conv split_lines_not_Nil)
  with Cons show ?case by (cases ls) auto
qed simp

lemma length_join_lines: "length (join_lines ls) = sum_list (map length ls) + (length ls - 1)"
  by (induction ls rule: join_lines.induct) auto

lemma length_join_mono: "length (join_lines (xs @ zs)) \<le> length (join_lines (xs @ ys @ zs))"
  by (simp add: length_join_lines)

fun index_of :: "jstr \<Rightarrow> jstr \<Rightarrow> nat option" where
  "index_of p [] = (if p = [] then Some 0 else None)"
| "index_of p (c # s) = (if starts_with p (c # s) then Some 0 else map_option Suc (index_of p s))"

definition ends_with :: "jstr \<Rightarrow> jstr \<Rightarrow> bool" where
  "ends_with p s \<longleftrightarrow> starts_with (rev p) (rev s)"

section \<open>Printed JSON is one line\<close>

lemma digits_no_newline: "newline \<notin> set (dec_of_nat n)" "newline \<notin> set (dec_of_int i)"
proof -
  show d: "newline \<notin> set (dec_of_nat n)" for n
    using dec_of_nat_digits [of n] by (force simp: is_digit_def)
  show "newline \<notin> set (dec_of_int i)" using d by (simp add: dec_of_int_def)
qed

lemma pad_no_newline: "newline \<notin> set s \<Longrightarrow> newline \<notin> set (pad_left w s)"
  by (auto simp: pad_left_def)

lemma iso_no_newline: "newline \<notin> set (to_iso_string ms)"
proof -
  have "newline \<notin> set (two_digits i)" "newline \<notin> set (pad_left w (dec_of_int i))" for w i
    by (simp_all add: two_digits_def pad_no_newline digits_no_newline)
  then show ?thesis
    by (auto simp: to_iso_string_def iso_date_def iso_minutes_def iso_seconds_def Let_def year_str_def
        split: prod.splits)
qed

lemma fmt_no_newline:
  assumes "newline \<notin> set s"
  shows "newline \<notin> set (fmt_decimal s n)"
proof -
  have "newline \<notin> set (take k s)" "newline \<notin> set (drop k s)" for k
    using assms by (auto dest: in_set_takeD in_set_dropD)
  with assms digits_no_newline show ?thesis by (auto simp: fmt_decimal_def Let_def)
qed

lemma num_no_newline: "newline \<notin> set (num_str n)"
proof -
  have strip: "newline \<notin> set (strip_zeros (dec_of_nat k))" for k
    using digits_no_newline(1) [of k] by (auto simp: strip_zeros_def dest: set_dropWhileD)
  have "newline \<notin> set (sign_str i)" for i by (simp add: sign_str_def)
  moreover have "newline \<notin> set (js ''null'')" by (simp add: js_def)
  ultimately show ?thesis
    using fmt_no_newline [OF strip] fmt_no_newline [OF digits_no_newline(1)]
    by (cases n) (simp_all add: Let_def digits_no_newline)
qed

lemma hex_no_newline: "hex_digit c \<noteq> newline"
  by (simp add: hex_digit_def)

lemma quote_no_newline: "newline \<notin> set (quote_str s)"
proof -
  have u: "newline \<notin> set (unicode_escape c)" for c
    using hex_no_newline by (auto simp: unicode_escape_def)
  have e: "newline \<notin> set (escape_unit c)" for c
    using u by (auto simp: escape_unit_def)
  have "newline \<notin> set (quote_units s)"
    by (induction s rule: quote_units.induct)
      (auto simp: u e is_high_surrogate_def is_low_surrogate_def)
  then show ?thesis by (simp add: quote_str_def)
qed

lemma stringify_no_newline:
  "newline \<notin> set (stringify v)" "newline \<notin> set (stringify_elems b vs)" "newline \<notin> set (stringify_props b ps)"
proof (induction v and b vs and b ps rule: stringify_stringify_elems_stringify_props.induct)
  case (9 d)
  then show ?case using quote_no_newline iso_no_newline by (auto simp: js_def split: option.splits)
qed (auto simp: num_no_newline quote_no_newline, auto simp: js_def)

end
