(* ===== verification/Token_Estimator.thy ===== *)
theory Token_Estimator
  imports Ledger_Types Text_Encoding
begin

text \<open>
  \<open>src/agent/compaction-token-estimator.ts\<close>: the estimate of what messages and ledger entries cost
  in tokens.  The lemmas bound the estimates and show that adding them up saturates at the largest
  safe integer, whatever the order.
\<close>

datatype estimate_source = ProviderPrefix | LocalStructure | Utf8Bytes

record message_estimate =
  me_tokens :: int
  me_source :: estimate_source

record entry_estimate =
  ee_entryId :: int
  ee_tokens :: int
  ee_source :: estimate_source

record context_estimate =
  ce_tokens :: int
  ce_source :: estimate_source
  ce_estimatedEntryIds :: "int list"
  ce_entries :: "entry_estimate list"

record provider_prefix =
  pp_throughEntryId :: "int option"
  pp_inputTokens :: int

definition message_envelope_tokens :: int where
  "message_envelope_tokens = 8"

definition structured_envelope_tokens :: int where
  "structured_envelope_tokens = 16"

definition utf8_bytes_per_token :: int where
  "utf8_bytes_per_token = 4"

text \<open>\<open>Math.ceil(a / b)\<close> of non-negative integers.\<close>

definition ceil_div :: "int \<Rightarrow> int \<Rightarrow> int" where
  "ceil_div a b = (a + b - 1) div b"

datatype range_error =
    BadEnvelopeTokens
  | BadPrefixTokens
  | BadPrefixEntryId
  | PrefixEntryMissing

definition estimateUtf8Tokens :: "jstr \<Rightarrow> int \<Rightarrow> range_error + int" where
  "estimateUtf8Tokens value envelopeTokens =
     (if \<not> safe_int envelopeTokens \<or> envelopeTokens < 0 then Inl BadEnvelopeTokens
      else Inr (safe_add (max 1 (ceil_div (int (byte_length value)) utf8_bytes_per_token)) envelopeTokens))"

fun hasLocalStructure :: "agent_message \<Rightarrow> bool" where
  "hasLocalStructure (AssistantMsg _ calls nb) \<longleftrightarrow> calls \<noteq> [] \<or> nb \<noteq> None"
| "hasLocalStructure (ToolMsg _ (TextContent _)) \<longleftrightarrow> False"
| "hasLocalStructure (ToolMsg _ (BlockContent _)) \<longleftrightarrow> True"
| "hasLocalStructure (UserMsg _) \<longleftrightarrow> False"

fun plain_content :: "agent_message \<Rightarrow> jstr" where
  "plain_content (UserMsg c) = c"
| "plain_content (AssistantMsg c _ _) = c"
| "plain_content (ToolMsg _ (TextContent c)) = c"
| "plain_content (ToolMsg _ (BlockContent bs)) = stringify (tool_content_jv (BlockContent bs))"

text \<open>The envelopes passed are constants that the check admits.\<close>

definition utf8_tokens :: "jstr \<Rightarrow> int \<Rightarrow> int" where
  "utf8_tokens s envelope = (case estimateUtf8Tokens s envelope of Inl _ \<Rightarrow> 0 | Inr t \<Rightarrow> t)"

definition estimateMessageTokens :: "agent_message \<Rightarrow> message_estimate" where
  "estimateMessageTokens m =
     (if hasLocalStructure m
      then \<lparr>me_tokens = utf8_tokens (stringify (message_jv m)) structured_envelope_tokens, me_source = LocalStructure\<rparr>
      else \<lparr>me_tokens = utf8_tokens (plain_content m) message_envelope_tokens, me_source = Utf8Bytes\<rparr>)"

fun estimateEntryTokens :: "ledger_entry \<Rightarrow> entry_estimate" where
  "estimateEntryTokens (CompactionEntry i p t) =
     \<lparr>ee_entryId = i, ee_tokens = utf8_tokens (stringify (compaction_payload_jv p)) structured_envelope_tokens,
      ee_source = LocalStructure\<rparr>"
| "estimateEntryTokens (MessageEntry i m t) =
     \<lparr>ee_entryId = i, ee_tokens = me_tokens (estimateMessageTokens m), ee_source = me_source (estimateMessageTokens m)\<rparr>"

definition aggregateLocalSource :: "entry_estimate list \<Rightarrow> estimate_source" where
  "aggregateLocalSource es = (if list_ex (\<lambda>e. ee_source e = LocalStructure) es then LocalStructure else Utf8Bytes)"

definition validateProviderPrefix :: "provider_prefix \<Rightarrow> ledger_entry list \<Rightarrow> range_error + unit" where
  "validateProviderPrefix p es =
     (if \<not> safe_int (pp_inputTokens p) \<or> pp_inputTokens p < 0 then Inl BadPrefixTokens
      else (case pp_throughEntryId p of
              None \<Rightarrow> Inr ()
            | Some i \<Rightarrow> if i \<le> 0 then Inl BadPrefixEntryId
                        else if \<not> list_ex (\<lambda>e. entry_id e = i) es then Inl PrefixEntryMissing
                        else Inr ()))"

definition sum_tokens :: "int list \<Rightarrow> int" where
  "sum_tokens ts = foldl safe_add 0 ts"

definition estimateLedgerContextTokens :: "ledger_entry list \<Rightarrow> provider_prefix option \<Rightarrow> range_error + context_estimate" where
  "estimateLedgerContextTokens entries providerPrefix =
     bindE (case providerPrefix of None \<Rightarrow> Inr () | Some p \<Rightarrow> validateProviderPrefix p entries) (\<lambda>_.
       let entriesToEstimate = (case providerPrefix of
               None \<Rightarrow> entries
             | Some p \<Rightarrow> filter (\<lambda>e. case pp_throughEntryId p of None \<Rightarrow> True | Some i \<Rightarrow> i < entry_id e) entries);
           es = map estimateEntryTokens entriesToEstimate;
           estimated = sum_tokens (map ee_tokens es)
       in Inr \<lparr>ce_tokens = (case providerPrefix of None \<Rightarrow> estimated | Some p \<Rightarrow> safe_add (pp_inputTokens p) estimated),
               ce_source = (case providerPrefix of None \<Rightarrow> aggregateLocalSource es | Some _ \<Rightarrow> ProviderPrefix),
               ce_estimatedEntryIds = map ee_entryId es, ce_entries = es\<rparr>)"

section \<open>Bounds\<close>

lemma utf8_tokens_eq:
  assumes "0 \<le> n" "n \<le> max_safe"
  shows "utf8_tokens s n = min max_safe (max 1 (ceil_div (int (byte_length s)) 4) + n)"
  using assms
  by (simp add: utf8_tokens_def estimateUtf8Tokens_def safe_int_def safe_add_min utf8_bytes_per_token_def min.commute)

lemma utf8_tokens_bounds:
  assumes "0 \<le> n" "n \<le> max_safe"
  shows "0 < utf8_tokens s n \<and> utf8_tokens s n \<le> max_safe"
proof -
  have "1 \<le> max 1 (ceil_div (int (byte_length s)) 4)" by simp
  then have "0 < max 1 (ceil_div (int (byte_length s)) 4) + n" using assms(1) by linarith
  then show ?thesis by (simp add: utf8_tokens_eq [OF assms] max_safe_def)
qed

lemma message_tokens_bounds: "0 < me_tokens (estimateMessageTokens m) \<and> me_tokens (estimateMessageTokens m) \<le> max_safe"
  using utf8_tokens_bounds [of 8] utf8_tokens_bounds [of 16]
  by (simp add: estimateMessageTokens_def message_envelope_tokens_def structured_envelope_tokens_def max_safe_def)

lemma entry_tokens_bounds: "0 < ee_tokens (estimateEntryTokens e) \<and> ee_tokens (estimateEntryTokens e) \<le> max_safe"
  using message_tokens_bounds utf8_tokens_bounds [of 16]
  by (cases e) (simp_all add: structured_envelope_tokens_def max_safe_def)

lemma entry_estimate_id [simp]: "ee_entryId (estimateEntryTokens e) = entry_id e"
  by (cases e) simp_all

lemma foldl_safe_add:
  "0 \<le> a \<Longrightarrow> a \<le> max_safe \<Longrightarrow> \<forall>t \<in> set ts. 0 \<le> t \<Longrightarrow> foldl safe_add a ts = min max_safe (a + sum_list ts)"
proof (induction ts arbitrary: a)
  case (Cons t ts)
  have "0 \<le> sum_list ts" using Cons.prems(3) by (simp add: sum_list_nonneg)
  moreover have "0 \<le> safe_add a t" "safe_add a t \<le> max_safe" using Cons.prems by (simp_all add: safe_add_bounds)
  ultimately show ?case using Cons by (simp add: safe_add_min min_def)
qed simp

text \<open>Adding up saturates: the order of the additions does not matter.\<close>

lemma sum_tokens_eq: "\<forall>t \<in> set ts. 0 \<le> t \<Longrightarrow> sum_tokens ts = min max_safe (sum_list ts)"
  using foldl_safe_add [of 0 ts] by (simp add: sum_tokens_def max_safe_def)

lemma sum_entry_tokens:
  "sum_tokens (map (\<lambda>e. ee_tokens (estimateEntryTokens e)) es)
   = min max_safe (sum_list (map (\<lambda>e. ee_tokens (estimateEntryTokens e)) es))"
  by (rule sum_tokens_eq) (auto intro: less_imp_le [OF conjunct1 [OF entry_tokens_bounds]])

lemma sum_entry_nonneg: "0 \<le> sum_list (map (\<lambda>e. ee_tokens (estimateEntryTokens e)) es)"
  by (rule sum_list_nonneg) (auto intro: less_imp_le [OF conjunct1 [OF entry_tokens_bounds]])

lemma estimate_context_none:
  "estimateLedgerContextTokens es None = Inr \<lparr>ce_tokens = min max_safe (sum_list (map (\<lambda>e. ee_tokens (estimateEntryTokens e)) es)),
     ce_source = aggregateLocalSource (map estimateEntryTokens es), ce_estimatedEntryIds = map entry_id es,
     ce_entries = map estimateEntryTokens es\<rparr>"
  by (simp add: estimateLedgerContextTokens_def comp_def sum_entry_tokens Let_def)

text \<open>With a prefix counted by the provider exactly the entries after it are estimated.\<close>

lemma estimate_context_prefix:
  assumes "sorted_wrt (<) (map entry_id (xs @ ys))" "xs \<noteq> []" "0 < entry_id (last xs)" "0 \<le> n" "n \<le> max_safe"
  shows "estimateLedgerContextTokens (xs @ ys) (Some \<lparr>pp_throughEntryId = Some (entry_id (last xs)), pp_inputTokens = n\<rparr>)
    = Inr \<lparr>ce_tokens = min max_safe (n + sum_list (map (\<lambda>e. ee_tokens (estimateEntryTokens e)) ys)),
           ce_source = ProviderPrefix, ce_estimatedEntryIds = map entry_id ys, ce_entries = map estimateEntryTokens ys\<rparr>"
proof -
  let ?i = "entry_id (last xs)"
  have l: "last xs \<in> set xs" using assms(2) by simp
  obtain xs' where xs: "xs = xs' @ [last xs]" using assms(2) by (metis append_butlast_last_id)
  have inc: "sorted_wrt (<) (map entry_id (xs' @ [last xs]))" using assms(1) xs by (metis map_append sorted_wrt_append)
  have "\<not> ?i < entry_id e" if "e \<in> set xs" for e
  proof -
    have "e \<in> set xs' \<or> e = last xs" using that xs by (metis Un_iff empty_iff insert_iff list.set(1,2) set_append)
    with inc show ?thesis by (auto simp: sorted_wrt_append)
  qed
  moreover have "?i < entry_id e" if "e \<in> set ys" for e
    using that assms(1) l by (auto simp: sorted_wrt_append)
  ultimately have f: "filter (\<lambda>e. ?i < entry_id e) (xs @ ys) = ys"
    by (simp add: filter_empty_conv filter_id_conv)
  have "list_ex (\<lambda>e. entry_id e = ?i) (xs @ ys)" using l by (auto simp: list_ex_iff)
  then have "validateProviderPrefix \<lparr>pp_throughEntryId = Some ?i, pp_inputTokens = n\<rparr> (xs @ ys) = Inr ()"
    using assms(3-5) by (simp add: validateProviderPrefix_def safe_int_def)
  then show ?thesis
    using f assms(4,5) sum_entry_nonneg [of ys]
    by (simp add: estimateLedgerContextTokens_def comp_def sum_entry_tokens Let_def safe_add_min max_safe_def)
qed

end
