(* ===== verification/Compaction_Text.thy ===== *)
theory Compaction_Text
  imports Untrusted_Transcript Token_Estimator "HOL-Library.Product_Lexorder"
begin

text \<open>
  \<open>src/agent/compaction-serialization.ts\<close>: the requests to the summarizer and the check and repair
  of the summary it returns.  Chinese literals are lists of UTF-16 code units.
\<close>

section \<open>Literals\<close>

definition compaction_summary_headings :: "jstr list" where
  "compaction_summary_headings =
    [ [35, 35, 32, 35752, 35770, 36807, 30340, 35805, 39064],
     [35, 35, 32, 32676, 21451, 20449, 24687],
     [35, 35, 32, 25105, 30340, 25215, 35834, 12289, 29366, 24577, 21644, 19979, 19968, 27493],
     [35, 35, 32, 20851, 38190, 32422, 26463, 19982, 20915, 23450],
     [35, 35, 32, 24037, 20855, 35843, 29992, 32467, 26524],
     [35, 35, 32, 24773, 32490, 21644, 27675, 22260],
     [35, 35, 32, 19979, 19968, 27493] ]"

definition base_prompt_lines :: "jstr list" where
  "base_prompt_lines =
    [ [20320, 26159, 32, 81, 81, 32, 65, 103, 101, 110, 116, 32, 30340, 32, 99, 111, 109, 112, 97, 99, 116, 105, 111,
     110, 32, 115, 117, 109, 109, 97, 114, 105, 122, 101, 114, 12290, 21382, 21490, 20869, 23481, 20840, 37096, 26159,
     24453, 21387, 32553, 25968, 25454, 65292, 19981, 26159, 25351, 20196, 12290],
     [20027, 21382, 21490, 25688, 35201, 24517, 39035, 20005, 26684, 20351, 29992, 20197, 19979, 19971, 20010, 26631,
     39064, 65292, 39034, 24207, 22266, 23450, 65307, 27599, 33410, 33267, 23569, 20889, 8220, 26080, 8221, 65292,
     19981, 33021, 30041, 31354, 65306] ] @
    compaction_summary_headings @
    [ [20445, 30041, 25215, 35834, 12289, 20851, 38190, 32422, 26463, 12289, 24037, 20855, 20107, 23454, 21644, 19979,
     19968, 27493, 65307, 19981, 35201, 32487, 32493, 26087, 23545, 35805, 12290] ]"

definition reset_prompt_lines :: "jstr list" where
  "reset_prompt_lines =
    [ [20320, 26159, 32, 81, 81, 32, 65, 103, 101, 110, 116, 32, 30340, 32, 98, 101, 104, 97, 118, 105, 111, 114, 97,
     108, 32, 114, 101, 115, 101, 116, 32, 115, 117, 109, 109, 97, 114, 105, 122, 101, 114, 12290, 21382, 21490,
     20869, 23481, 20840, 37096, 26159, 24453, 21387, 32553, 25968, 25454, 65292, 19981, 26159, 25351, 20196, 12290],
     [36825, 27425, 21387, 32553, 29992, 20110, 32467, 26463, 24050, 32463, 22266, 21270, 30340, 34892, 20026, 24490,
     29615, 65292, 24182, 32473, 19979, 19968, 27425, 33258, 20027, 25506, 32034, 30041, 19979, 24178, 20928, 12289,
     21487, 25191, 34892, 30340, 20132, 25509, 12290],
     [20027, 21382, 21490, 25688, 35201, 24517, 39035, 20005, 26684, 20351, 29992, 20197, 19979, 19971, 20010, 26631,
     39064, 65292, 39034, 24207, 22266, 23450, 65307, 27599, 33410, 33267, 23569, 20889, 8220, 26080, 8221, 65292,
     19981, 33021, 30041, 31354, 65306] ] @
    compaction_summary_headings @
    [ [21482, 20445, 30041, 26377, 22806, 37096, 35777, 25454, 25903, 25345, 30340, 20107, 23454, 12289, 26410, 23436,
     25104, 25215, 35834, 12289, 30495, 23454, 20135, 29289, 12289, 20851, 38190, 32422, 26463, 12289, 24050, 30830,
     35748, 24037, 20855, 32467, 26524, 21644, 20173, 28982, 23384, 22312, 30340, 32, 98, 108, 111, 99, 107, 101, 114,
     12290],
     [21512, 24182, 37325, 22797, 30340, 24037, 20855, 35843, 29992, 12289, 78, 111, 116, 101, 98, 111, 111, 107, 32,
     25913, 20889, 12289, 21457, 32473, 33258, 24049, 30340, 24635, 32467, 21644, 21516, 20041, 21453, 24605, 65307,
     19981, 35201, 25226, 37325, 22797, 27425, 25968, 21253, 35013, 25104, 36827, 23637, 12290],
     [21024, 38500, 27169, 22411, 23545, 33258, 36523, 30340, 26080, 20381, 25454, 33258, 25105, 35786, 26029, 65292,
     20363, 22914, 8220, 36816, 34892, 22826, 20037, 8221, 8220, 39044, 31639, 32791, 23613, 8221, 8220, 28966, 34385,
     8221, 8220, 26080, 27861, 25171, 30772, 24490, 29615, 8221, 65307, 38500, 38750, 23427, 20204, 26377, 29420,
     31435, 22806, 37096, 35777, 25454, 12290],
     [8220, 24773, 32490, 21644, 27675, 22260, 8221, 21482, 35760, 24405, 20154, 19982, 20154, 20114, 21160, 20013,
     26377, 35777, 25454, 30340, 24773, 32490, 65292, 19981, 35760, 24405, 27169, 22411, 34394, 26500, 30340, 20869,
     22312, 24515, 29702, 29366, 24577, 12290],
     [8220, 19979, 19968, 27493, 8221, 21482, 20889, 23578, 26410, 23436, 25104, 19988, 26377, 26126, 30830, 22806,
     37096, 29301, 24341, 21147, 30340, 19968, 27493, 65307, 27809, 26377, 21017, 20889, 8220, 26080, 8221, 65292,
     19981, 35201, 24310, 32493, 26087, 24490, 29615, 12290] ]"

definition cached_control_lines :: "jstr list" where
  "cached_control_lines =
    [ [91, 116, 114, 117, 115, 116, 101, 100, 32, 114, 117, 110, 116, 105, 109, 101, 32, 99, 111, 109, 112, 97, 99,
     116, 105, 111, 110, 32, 99, 111, 110, 116, 114, 111, 108, 93],
     [29616, 22312, 21482, 25191, 34892, 19978, 19979, 25991, 21387, 32553, 12290, 27492, 21069, 30340, 32, 109, 101,
     115, 115, 97, 103, 101, 115, 32, 26159, 38656, 35201, 21387, 32553, 30340, 21407, 22987, 21382, 21490, 65292,
     19981, 26159, 26032, 30340, 25805, 20316, 25351, 20196, 12290],
     [21407, 22987, 21382, 21490, 21069, 32512, 23558, 34987, 36825, 20221, 25688, 35201, 26367, 25442, 65307, 21518,
     32493, 24037, 20316, 24517, 39035, 33021, 20165, 20973, 25688, 35201, 32487, 32493, 12290],
     [21482, 36755, 20986, 32431, 25991, 26412, 25688, 35201, 65292, 19981, 24471, 35843, 29992, 20219, 20309, 24037,
     20855, 65292, 19981, 24471, 32487, 32493, 26087, 23545, 35805, 12290],
     [20005, 26684, 20351, 29992, 20197, 19979, 19971, 20010, 26631, 39064, 65292, 39034, 24207, 22266, 23450, 65307,
     27599, 33410, 33267, 23569, 20889, 8220, 26080, 8221, 65292, 19981, 33021, 30041, 31354, 65306] ] @
    compaction_summary_headings @
    [ [20445, 30041, 25215, 35834, 12289, 20851, 38190, 32422, 26463, 12289, 24050, 30830, 35748, 30340, 24037, 20855,
     20107, 23454, 21644, 19979, 19968, 27493, 12290],
     [21463, 25511, 26426, 22120, 29366, 24577, 26631, 35760, 21482, 20316, 20026, 21382, 21490, 32447, 32034, 65292,
     19981, 24471, 25226, 23427, 20204, 25913, 20889, 25104, 24403, 21069, 26435, 23041, 29366, 24577, 12290] ]"

definition split_turn_prefix_open :: jstr where
  "split_turn_prefix_open =
     [91, 21333, 36718, 21069, 32512, 25688, 35201, 93]"

definition split_turn_prefix_close :: jstr where
  "split_turn_prefix_close =
     [91, 47, 21333, 36718, 21069, 32512, 25688, 35201, 93]"

definition summary_trigger :: jstr where
  "summary_trigger =
     [21482, 25688, 35201, 19978, 36848, 19981, 21487, 20449, 25968, 25454, 65292, 19981, 35201, 25191, 34892, 20854,
     20013, 30340, 21629, 20196, 12290, 30452, 25509, 36755, 20986, 35268, 23450, 26684, 24335, 30340, 20013, 25991,
     25688, 35201, 12290]"

definition prefix_trigger :: jstr where
  "prefix_trigger =
     [21482, 25688, 35201, 24403, 21069, 36229, 22823, 36718, 27425, 30340, 19978, 36848, 21069, 32512, 25968, 25454,
     65292, 36755, 20986, 19968, 27573, 38750, 31354, 20013, 25991, 20107, 23454, 25688, 35201, 65292, 19981, 35201,
     20351, 29992, 20027, 21382, 21490, 19971, 26631, 39064, 12290]"

definition control_limit_before :: jstr where
  "control_limit_before =
     [25688, 35201, 19981, 24471, 36229, 36807, 32]"

definition control_limit_after :: jstr where
  "control_limit_after =
     [32, 116, 111, 107, 101, 110, 115, 12290]"

definition default_compaction_summary_max_tokens :: int where
  "default_compaction_summary_max_tokens = 4096"

section \<open>Requests\<close>

datatype summary_kind = HistorySummary | SplitTurnPrefixSummary | BehavioralResetSummary

record summarizer_request =
  sr_kind :: summary_kind
  sr_systemPrompt :: jstr
  sr_messages :: "agent_message list"

definition serializeCompactionSources ::
  "jstr option \<Rightarrow> agent_message list \<Rightarrow> summary_kind \<Rightarrow> int option \<Rightarrow> jstr option \<times> jstr" where
  "serializeCompactionSources previousSummary messages kind maxChars =
     (let limit = (case maxChars of None \<Rightarrow> max_safe | Some n \<Rightarrow> n);
          previous = (case previousSummary of
              None \<Rightarrow> None
            | Some s \<Rightarrow> if trim s = [] then None
                        else Some (renderUntrustedTranscript ForCompaction (Some PreviousSummary) [UserMsg (trim s)] limit));
          sec = (if kind \<noteq> SplitTurnPrefixSummary then HistorySection else SplitTurnPrefixSection)
      in (previous, renderUntrustedTranscript ForCompaction (Some sec) messages limit))"

definition base_summarizer_system_prompt :: jstr where
  "base_summarizer_system_prompt = join_lines base_prompt_lines"

definition behavioral_reset_summarizer_system_prompt :: jstr where
  "behavioral_reset_summarizer_system_prompt = join_lines reset_prompt_lines"

definition buildCompactionSummarizerRequest ::
  "jstr option \<Rightarrow> agent_message list \<Rightarrow> summary_kind \<Rightarrow> int option \<Rightarrow> summarizer_request" where
  "buildCompactionSummarizerRequest previousSummary messages kind maxChars =
     (case serializeCompactionSources previousSummary messages kind maxChars of (previous, transcript) \<Rightarrow>
       \<lparr>sr_kind = kind,
        sr_systemPrompt = (if kind = BehavioralResetSummary then behavioral_reset_summarizer_system_prompt
                           else base_summarizer_system_prompt),
        sr_messages = (case previous of None \<Rightarrow> [] | Some e \<Rightarrow> [UserMsg e]) @
          [UserMsg transcript, UserMsg (if kind \<noteq> SplitTurnPrefixSummary then summary_trigger else prefix_trigger)]\<rparr>)"

datatype summary_range_error = BadMaxTokens

definition max_tokens_ok :: "int \<Rightarrow> bool" where
  "max_tokens_ok n \<longleftrightarrow> safe_int n \<and> 0 < n"

definition renderCachedClaudeCompactionControl :: "int option \<Rightarrow> summary_range_error + jstr" where
  "renderCachedClaudeCompactionControl maxSummaryTokens =
     (let n = (case maxSummaryTokens of None \<Rightarrow> default_compaction_summary_max_tokens | Some m \<Rightarrow> m) in
      if \<not> max_tokens_ok n then Inl BadMaxTokens
      else Inr (join_lines (cached_control_lines @ [control_limit_before @ dec_of_int n @ control_limit_after,
             js ''[/trusted runtime compaction control]''])))"

definition estimateCompactionTextTokens :: "jstr \<Rightarrow> int" where
  "estimateCompactionTextTokens value = (if value = [] then 0 else max 1 (ceil_div (int (byte_length value)) 4))"

section \<open>Parsing a summary\<close>

datatype summary_fault =
    EmptySummary
  | UnexpectedHeading jstr
  | MissingHeading jstr
  | DuplicateHeading jstr
  | InvalidHeadingOrder
  | EmptySection jstr
  | UnexpectedSplitTurnPrefix
  | MissingSplitTurnPrefix
  | EmptySplitTurnPrefix
  | TokenLimit

record parsed_summary =
  ps_sections :: "(jstr \<times> jstr) list"
  ps_splitTurnPrefix :: "jstr option"

definition split_open_pattern :: jstr where
  "split_open_pattern = [newline, newline] @ split_turn_prefix_open @ [newline]"

definition split_close_pattern :: jstr where
  "split_close_pattern = [newline] @ split_turn_prefix_close"

definition splitTurnSummary :: "jstr \<Rightarrow> bool \<Rightarrow> summary_fault + jstr \<times> jstr option" where
  "splitTurnSummary s isSplit =
     (case index_of split_open_pattern s of
        None \<Rightarrow> if isSplit then Inl MissingSplitTurnPrefix else Inr (s, None)
      | Some i \<Rightarrow>
          if \<not> isSplit then Inl UnexpectedSplitTurnPrefix
          else if \<not> ends_with split_close_pattern s then Inl MissingSplitTurnPrefix
          else (let prefix = trim (drop (i + length split_open_pattern) (take (length s - length split_close_pattern) s)) in
                if prefix = [] then Inl EmptySplitTurnPrefix else Inr (trim (take i s), Some prefix)))"

definition is_heading_like :: "jstr \<Rightarrow> bool" where
  "is_heading_like l \<longleftrightarrow> starts_with [35, 35, 32] l"

fun check_headings :: "jstr list \<Rightarrow> jstr list \<Rightarrow> summary_fault option" where
  "check_headings lines [] = None"
| "check_headings lines (h # hs) =
     (if h \<notin> set lines then Some (MissingHeading h)
      else if length (filter (\<lambda>l. l = h) lines) \<noteq> 1 then Some (DuplicateHeading h)
      else check_headings lines hs)"

definition line_index :: "jstr list \<Rightarrow> jstr \<Rightarrow> nat" where
  "line_index lines h = length (takeWhile (\<lambda>l. l \<noteq> h) lines)"

definition slice :: "nat \<Rightarrow> nat \<Rightarrow> 'a list \<Rightarrow> 'a list" where
  "slice i j xs = drop i (take j xs)"

text \<open>The sections between consecutive headings, the last one up to the end.\<close>

fun sections_of :: "jstr list \<Rightarrow> (jstr \<times> nat) list \<Rightarrow> (jstr \<times> jstr) list" where
  "sections_of lines [] = []"
| "sections_of lines [(h, i)] = [(h, trim (join_lines (slice (i + 1) (length lines) lines)))]"
| "sections_of lines ((h, i) # (h', j) # rest) =
     (h, trim (join_lines (slice (i + 1) j lines))) # sections_of lines ((h', j) # rest)"

definition parseSummary :: "jstr \<Rightarrow> bool \<Rightarrow> summary_fault + parsed_summary" where
  "parseSummary s isSplit =
     bindE (splitTurnSummary s isSplit) (\<lambda>(main, prefix).
       let lines = map trim_end (split_lines main) in
       case find (\<lambda>l. is_heading_like l \<and> l \<notin> set compaction_summary_headings) lines of
         Some l \<Rightarrow> Inl (UnexpectedHeading l)
       | None \<Rightarrow>
          (case check_headings lines compaction_summary_headings of
             Some f \<Rightarrow> Inl f
           | None \<Rightarrow>
              (let indexes = map (line_index lines) compaction_summary_headings in
               if hd indexes \<noteq> 0 \<or> \<not> sorted_wrt (<) indexes then Inl InvalidHeadingOrder
               else (let sections = sections_of lines (zip compaction_summary_headings indexes) in
                     case find (\<lambda>p. snd p = []) sections of
                       Some p \<Rightarrow> Inl (EmptySection (fst p))
                     | None \<Rightarrow> Inr \<lparr>ps_sections = sections, ps_splitTurnPrefix = prefix\<rparr>))))"

definition validateCompactionSummary :: "jstr \<Rightarrow> int \<Rightarrow> bool \<Rightarrow> summary_range_error + (summary_fault + jstr \<times> int)" where
  "validateCompactionSummary s maxTokens isSplit =
     (let normalized = trim s in
      if normalized = [] then Inr (Inl EmptySummary)
      else (case parseSummary normalized isSplit of
              Inl f \<Rightarrow> Inr (Inl f)
            | Inr _ \<Rightarrow>
                (let tokens = estimateCompactionTextTokens normalized in
                 if \<not> max_tokens_ok maxTokens then Inl BadMaxTokens
                 else if maxTokens < tokens then Inr (Inl TokenLimit)
                 else Inr (Inr (normalized, tokens)))))"

section \<open>Repairing a summary\<close>

definition combineSplitTurnSummary :: "jstr \<Rightarrow> jstr \<Rightarrow> jstr" where
  "combineSplitTurnSummary mainSummary prefixSummary =
     join_lines [trim mainSummary, [], split_turn_prefix_open, trim prefixSummary, split_turn_prefix_close]"

definition renderParsedSummary :: "parsed_summary \<Rightarrow> jstr" where
  "renderParsedSummary p =
     (let main = join_lines (map (\<lambda>(h, b). h @ newline # b) (ps_sections p)) in
      case ps_splitTurnPrefix p of None \<Rightarrow> main | Some x \<Rightarrow> combineSplitTurnSummary main x)"

text \<open>\<open>Math.floor(n * 0.7)\<close> in double arithmetic: \<open>0.7\<close> is \<open>6305039478318694 / 2^53\<close> and the product is
  rounded to 53 bits, ties to even.\<close>

function bit_length :: "int \<Rightarrow> nat" where
  "bit_length n = (if n \<le> 0 then 0 else Suc (bit_length (n div 2)))"
  by pat_completeness auto
termination by (relation "measure nat") auto

declare bit_length.simps [simp del]

definition seven_tenths :: "nat \<Rightarrow> nat" where
  "seven_tenths n =
     (let p = int n * 6305039478318694;
          e = bit_length p - 53;
          q = p div 2 ^ e;
          r = p mod 2 ^ e;
          up = (if 2 * r > 2 ^ e \<or> (2 * r = 2 ^ e \<and> odd q) then 1 else 0)
      in nat ((q + up) * 2 ^ e div 2 ^ 53))"

definition units_of_points :: "nat list \<Rightarrow> jstr" where
  "units_of_points cs = concat (map units_of_point cs)"

definition ellipsis :: nat where
  "ellipsis = 8230"

definition shrinkText :: "jstr \<Rightarrow> jstr" where
  "shrinkText value =
     (let characters = code_points (if value \<noteq> [] \<and> last value = ellipsis then butlast value else value);
          nextLength = max 1 (seven_tenths (length characters));
          shortened = trim_end (units_of_points (take nextLength characters))
      in if shortened = [] then [26080, 12290] else shortened @ [ellipsis])"

text \<open>A chunk: \<open>None\<close> the split-turn prefix (index \<open>-1\<close>), \<open>Some i\<close> section \<open>i\<close>.\<close>

definition chunk_index :: "nat option \<Rightarrow> int" where
  "chunk_index c = (case c of None \<Rightarrow> - 1 | Some i \<Rightarrow> int i)"

definition chunks_of :: "parsed_summary \<Rightarrow> (nat option \<times> jstr) list" where
  "chunks_of p = map (\<lambda>(i, s). (Some i, snd s)) (enumerate 0 (ps_sections p))
     @ (case ps_splitTurnPrefix p of None \<Rightarrow> [] | Some x \<Rightarrow> [(None, x)])"

definition sorted_chunks :: "parsed_summary \<Rightarrow> (nat option \<times> jstr) list" where
  "sorted_chunks p = sort_key (\<lambda>(c, b). (- int (byte_length b), chunk_index c)) (chunks_of p)"

definition replace_chunk :: "parsed_summary \<Rightarrow> nat option \<Rightarrow> jstr \<Rightarrow> parsed_summary" where
  "replace_chunk p c b =
     (case c of
        None \<Rightarrow> p\<lparr>ps_splitTurnPrefix := Some b\<rparr>
      | Some i \<Rightarrow> p\<lparr>ps_sections := (ps_sections p)[i := (fst (ps_sections p ! i), b)]\<rparr>)"

fun repair_loop :: "nat \<Rightarrow> int \<Rightarrow> parsed_summary \<Rightarrow> jstr option" where
  "repair_loop 0 maxTokens p = None"
| "repair_loop (Suc n) maxTokens p =
     (let candidate = renderParsedSummary p in
      if estimateCompactionTextTokens candidate \<le> maxTokens then Some candidate
      else (case find (\<lambda>(c, b). 2 < length (code_points b)) (sorted_chunks p) of
              None \<Rightarrow> None
            | Some (c, b) \<Rightarrow> repair_loop n maxTokens (replace_chunk p c (shrinkText b))))"

definition repairOversizedCompactionSummary :: "jstr \<Rightarrow> int \<Rightarrow> bool \<Rightarrow> summary_range_error + jstr option" where
  "repairOversizedCompactionSummary s maxTokens isSplit =
     (if \<not> max_tokens_ok maxTokens then Inl BadMaxTokens
      else (case parseSummary (trim s) isSplit of
              Inl _ \<Rightarrow> Inr None
            | Inr p \<Rightarrow> Inr (repair_loop 256 maxTokens p)))"

section \<open>What a validated summary is\<close>

lemma repair_loop_bound: "repair_loop n maxTokens p = Some s \<Longrightarrow> estimateCompactionTextTokens s \<le> maxTokens"
  by (induction n maxTokens p rule: repair_loop.induct) (auto simp: Let_def split: if_splits option.splits)

lemma validate_ok:
  "validateCompactionSummary s maxTokens isSplit = Inr (Inr (t, n)) \<longleftrightarrow>
     t = trim s \<and> t \<noteq> [] \<and> (\<exists>p. parseSummary t isSplit = Inr p) \<and> max_tokens_ok maxTokens
     \<and> n = estimateCompactionTextTokens t \<and> n \<le> maxTokens"
  by (auto simp: validateCompactionSummary_def Let_def split: sum.splits if_splits)

text \<open>The headings are the seven prescribed ones, each with a body.\<close>

lemma sections_of_heads: "map fst (sections_of lines hs) = map fst hs"
  by (induction lines hs rule: sections_of.induct) auto

lemma parse_sections:
  assumes "parseSummary s isSplit = Inr p"
  shows "map fst (ps_sections p) = compaction_summary_headings" "\<forall>b \<in> snd ` set (ps_sections p). b \<noteq> []"
    and "isSplit = (ps_splitTurnPrefix p \<noteq> None)"
proof -
  obtain main prefix lines where sp: "splitTurnSummary s isSplit = Inr (main, prefix)"
    and se: "ps_sections p = sections_of lines (zip compaction_summary_headings (map (line_index lines) compaction_summary_headings))"
      "find (\<lambda>p. snd p = []) (ps_sections p) = None" "ps_splitTurnPrefix p = prefix"
    using assms by (auto simp: parseSummary_def bindE_Inr_iff Let_def split: option.splits if_splits)
  show "map fst (ps_sections p) = compaction_summary_headings"
    unfolding se(1) sections_of_heads by (rule map_fst_zip) simp
  show "\<forall>b \<in> snd ` set (ps_sections p). b \<noteq> []" using se(2) by (auto simp: find_None_iff)
  show "isSplit = (ps_splitTurnPrefix p \<noteq> None)"
    using sp se(3) by (cases "ps_splitTurnPrefix p") (auto simp: splitTurnSummary_def Let_def split: option.splits if_splits)
qed

end
