(* ===== verification/Atomic_Units.thy ===== *)
theory Atomic_Units
  imports Snapshot_Scan
begin

text \<open>
  The atomic units of \<open>src/agent/compaction.ts\<close>: a message on its own, or an assistant message with the
  results of all its tool calls, which a compaction never separates; and the choice of the unit
  from which the history is kept.
\<close>

datatype message_role = UserRole | AssistantRole | ToolRole

fun role_of :: "agent_message \<Rightarrow> message_role" where
  "role_of (UserMsg _) = UserRole"
| "role_of (AssistantMsg _ _ _) = AssistantRole"
| "role_of (ToolMsg _ _) = ToolRole"

record 'a atomic_unit =
  au_items :: "'a list"
  au_firstRole :: message_role
  au_tokens :: int

definition atomic_unit_of :: "('a \<Rightarrow> agent_message) \<Rightarrow> ('a \<Rightarrow> int) \<Rightarrow> 'a list \<Rightarrow> 'a atomic_unit" where
  "atomic_unit_of msg tok xs = \<lparr>au_items = xs, au_firstRole = role_of (msg (hd xs)), au_tokens = sum_list (map tok xs)\<rparr>"

fun answers :: "agent_message \<Rightarrow> jstr \<Rightarrow> bool" where
  "answers (ToolMsg i _) c \<longleftrightarrow> i = c"
| "answers _ c \<longleftrightarrow> False"

fun call_ids :: "agent_message \<Rightarrow> jstr list" where
  "call_ids (AssistantMsg _ calls _) = map tc_id calls"
| "call_ids _ = []"

function buildAtomicUnits :: "('a \<Rightarrow> agent_message) \<Rightarrow> ('a \<Rightarrow> int) \<Rightarrow> 'a list \<Rightarrow> 'a atomic_unit list option" where
  "buildAtomicUnits msg tok [] = Some []"
| "buildAtomicUnits msg tok (x # xs) =
     (if role_of (msg x) = ToolRole then None
      else if role_of (msg x) \<noteq> AssistantRole \<or> call_ids (msg x) = []
      then map_option ((#) (atomic_unit_of msg tok [x])) (buildAtomicUnits msg tok xs)
      else (let ids = call_ids (msg x);
                results = take (length ids) xs
            in if length results \<noteq> length ids \<or> \<not> list_all2 (\<lambda>t c. answers (msg t) c) results ids then None
               else map_option ((#) (atomic_unit_of msg tok (x # results))) (buildAtomicUnits msg tok (drop (length ids) xs))))"
  by pat_completeness auto
termination by (relation "measure (\<lambda>(m, t, xs). length xs)") auto

section \<open>Choosing a boundary\<close>

text \<open>Index from the end: \<open>raw_boundary_from us keep t i\<close> looks at the units before \<open>i\<close>, the later
  ones having \<open>t\<close> tokens.\<close>

fun raw_boundary_from :: "'a atomic_unit list \<Rightarrow> int \<Rightarrow> int \<Rightarrow> nat \<Rightarrow> nat" where
  "raw_boundary_from us keep t 0 = 0"
| "raw_boundary_from us keep t (Suc i) =
     (if keep \<le> t + au_tokens (us ! i) then i else raw_boundary_from us keep (t + au_tokens (us ! i)) i)"

definition selectRawBoundary :: "'a atomic_unit list \<Rightarrow> int \<Rightarrow> nat" where
  "selectRawBoundary us keep = raw_boundary_from us keep 0 (length us)"

text \<open>The last user unit among the first \<open>n\<close>; none is the \<open>-1\<close> of the source.\<close>

fun last_user_before :: "'a atomic_unit list \<Rightarrow> nat \<Rightarrow> nat option" where
  "last_user_before us 0 = None"
| "last_user_before us (Suc i) = (if au_firstRole (us ! i) = UserRole then Some i else last_user_before us i)"

definition findLatestUserUnitIndex :: "'a atomic_unit list \<Rightarrow> nat option" where
  "findLatestUserUnitIndex us = last_user_before us (length us)"

definition first_user_from :: "'a atomic_unit list \<Rightarrow> nat \<Rightarrow> nat option" where
  "first_user_from us n = find (\<lambda>i. au_firstRole (us ! i) = UserRole) [n..<length us]"

definition findPreferredUserBoundary :: "'a atomic_unit list \<Rightarrow> nat \<Rightarrow> nat option" where
  "findPreferredUserBoundary us raw =
     (case last_user_before us (Suc raw) of
        Some i \<Rightarrow> if 0 < i then Some i else first_user_from us (Suc raw)
      | None \<Rightarrow> first_user_from us (Suc raw))"

record boundary_selection =
  bs_boundaryUnitIndex :: nat
  bs_latestTurnStart :: "nat option"
  bs_preferredUserBoundary :: "nat option"

definition selectAtomicBoundary :: "'a atomic_unit list \<Rightarrow> int \<Rightarrow> boundary_selection" where
  "selectAtomicBoundary us keep =
     (let raw = selectRawBoundary us keep;
          latest = findLatestUserUnitIndex us;
          latestTokens = sum_list (map au_tokens (drop (case latest of None \<Rightarrow> 0 | Some i \<Rightarrow> i) us));
          preferred = (if keep < latestTokens then None else findPreferredUserBoundary us raw)
      in \<lparr>bs_boundaryUnitIndex = (case preferred of None \<Rightarrow> raw | Some b \<Rightarrow> b),
          bs_latestTurnStart = latest, bs_preferredUserBoundary = preferred\<rparr>)"

section \<open>Units partition the history\<close>

lemma units_concat: "buildAtomicUnits msg tok xs = Some us \<Longrightarrow> concat (map au_items us) = xs"
proof (induction msg tok xs arbitrary: us rule: buildAtomicUnits.induct)
  case (2 msg tok x xs)
  show ?case
  proof (cases "role_of (msg x) \<noteq> AssistantRole \<or> call_ids (msg x) = []")
    case True
    with "2.prems" obtain vs where "buildAtomicUnits msg tok xs = Some vs" "us = atomic_unit_of msg tok [x] # vs"
      by (auto split: if_splits)
    with "2.IH"(1) [of vs] "2.prems" True show ?thesis by (auto simp: atomic_unit_of_def split: if_splits)
  next
    case False
    with "2.prems" obtain vs where "buildAtomicUnits msg tok (drop (length (call_ids (msg x))) xs) = Some vs"
        "us = atomic_unit_of msg tok (x # take (length (call_ids (msg x))) xs) # vs"
      by (auto simp: Let_def split: if_splits)
    with "2.IH"(2) [OF _ _ refl refl, of vs] "2.prems" False show ?thesis
      by (auto simp: atomic_unit_of_def Let_def split: if_splits)
  qed
qed simp

definition unit_ok :: "('a \<Rightarrow> agent_message) \<Rightarrow> ('a \<Rightarrow> int) \<Rightarrow> 'a atomic_unit \<Rightarrow> bool" where
  "unit_ok msg tok u \<longleftrightarrow> au_items u \<noteq> [] \<and> au_firstRole u = role_of (msg (hd (au_items u)))
     \<and> au_firstRole u \<noteq> ToolRole \<and> au_tokens u = sum_list (map tok (au_items u))
     \<and> list_all2 (\<lambda>t c. answers (msg t) c) (tl (au_items u)) (call_ids (msg (hd (au_items u))))"

lemma call_ids_role: "role_of m \<noteq> AssistantRole \<Longrightarrow> call_ids m = []"
  by (cases m) simp_all

lemma units_ok: "buildAtomicUnits msg tok xs = Some us \<Longrightarrow> list_all (unit_ok msg tok) us"
proof (induction msg tok xs arbitrary: us rule: buildAtomicUnits.induct)
  case (2 msg tok x xs)
  show ?case
  proof (cases "role_of (msg x) \<noteq> AssistantRole \<or> call_ids (msg x) = []")
    case True
    with "2.prems" obtain vs where "buildAtomicUnits msg tok xs = Some vs" "us = atomic_unit_of msg tok [x] # vs"
      by (auto split: if_splits)
    with "2.IH"(1) [of vs] "2.prems" True show ?thesis by (auto simp: atomic_unit_of_def unit_ok_def call_ids_role split: if_splits)
  next
    case False
    with "2.prems" obtain vs where "buildAtomicUnits msg tok (drop (length (call_ids (msg x))) xs) = Some vs"
        "us = atomic_unit_of msg tok (x # take (length (call_ids (msg x))) xs) # vs"
      by (auto simp: Let_def split: if_splits)
    with "2.IH"(2) [OF _ _ refl refl, of vs] "2.prems" False show ?thesis
      by (auto simp: atomic_unit_of_def unit_ok_def Let_def split: if_splits)
  qed
qed simp

text \<open>Every legal history splits into units.\<close>

lemma scan_results:
  assumes "scan (seen, ids) (map msg xs) = Some s" "snd s = []"
  shows "length ids \<le> length xs \<and> list_all2 (\<lambda>t c. answers (msg t) c) (take (length ids) xs) ids
    \<and> scan (seen, []) (map msg (drop (length ids) xs)) = Some s"
  using assms
proof (induction ids arbitrary: xs)
  case (Cons i ids)
  then obtain x ys where xs: "xs = x # ys" by (cases xs) auto
  from Cons.prems xs obtain c where m: "msg x = ToolMsg i c" "scan (seen, ids) (map msg ys) = Some s"
    by (cases "msg x") (auto split: if_splits)
  with Cons.IH [OF m(2) Cons.prems(2)] show ?case by (simp add: xs)
qed simp

lemma scan_units:
  "scan (seen, []) (map msg xs) = Some s \<Longrightarrow> snd s = [] \<Longrightarrow> buildAtomicUnits msg tok xs \<noteq> None"
proof (induction msg tok xs arbitrary: seen rule: buildAtomicUnits.induct)
  case (2 msg tok x xs)
  show ?case
  proof (cases "msg x")
    case (UserMsg c)
    with "2.prems" have "scan (seen, []) (map msg xs) = Some s" by simp
    with "2.IH"(1) "2.prems"(2) UserMsg show ?thesis by simp
  next
    case (AssistantMsg c calls nb)
    then obtain seen' where sc: "scan (seen', map tc_id calls) (map msg xs) = Some s"
      using "2.prems"(1) by (auto split: if_splits)
    note res = scan_results [OF sc "2.prems"(2)]
    show ?thesis
    proof (cases "calls = []")
      case True
      with "2.IH"(1) [of seen'] sc "2.prems"(2) AssistantMsg show ?thesis by simp
    next
      case False
      with "2.IH"(2) [OF _ _ refl refl, of seen'] res "2.prems"(2) AssistantMsg show ?thesis by (simp add: Let_def)
    qed
  next
    case (ToolMsg i c)
    with "2.prems"(1) show ?thesis by simp
  qed
qed simp

lemma legal_units: "legal_history (map msg xs) \<Longrightarrow> buildAtomicUnits msg tok xs \<noteq> None"
  using scan_units [of "[]" msg xs "(_, [])"] by (auto simp: legal_history_def split: option.splits prod.splits list.splits)

section \<open>What the boundary guarantees\<close>

definition suffix_tokens :: "'a atomic_unit list \<Rightarrow> nat \<Rightarrow> int" where
  "suffix_tokens us i = sum_list (map au_tokens (drop i us))"

lemma suffix_tokens_Suc: "i < length us \<Longrightarrow> suffix_tokens us i = au_tokens (us ! i) + suffix_tokens us (Suc i)"
  by (simp add: suffix_tokens_def Cons_nth_drop_Suc [symmetric])

lemma suffix_tokens_antimono:
  assumes "\<forall>u \<in> set us. 0 \<le> au_tokens u" "i \<le> j"
  shows "suffix_tokens us j \<le> suffix_tokens us i"
proof -
  have "drop i us = take (j - i) (drop i us) @ drop j us"
    using assms(2) by (metis append_take_drop_id drop_drop le_add_diff_inverse2)
  then have "suffix_tokens us i = sum_list (map au_tokens (take (j - i) (drop i us))) + suffix_tokens us j"
    by (metis map_append suffix_tokens_def sum_list_append)
  moreover have "0 \<le> sum_list (map au_tokens (take (j - i) (drop i us)))"
    using assms(1) by (intro sum_list_nonneg) (auto dest!: in_set_takeD in_set_dropD)
  ultimately show ?thesis by simp
qed

lemma raw_boundary_from_spec:
  "\<forall>u \<in> set us. 0 \<le> au_tokens u \<Longrightarrow> n \<le> length us \<Longrightarrow> t = suffix_tokens us n \<Longrightarrow> t < keep \<or> n = length us \<Longrightarrow>
   (let b = raw_boundary_from us keep t n in
     b \<le> n \<and> (n \<noteq> 0 \<longrightarrow> b < n) \<and> (b = 0 \<or> keep \<le> suffix_tokens us b) \<and> (Suc b < length us \<longrightarrow> suffix_tokens us (Suc b) < keep))"
proof (induction us keep t n rule: raw_boundary_from.induct)
  case (1 us keep t)
  have "suffix_tokens us (Suc 0) \<le> suffix_tokens us 0" by (rule suffix_tokens_antimono [OF "1.prems"(1)]) simp
  with "1.prems" show ?case by (auto simp: Let_def)
next
  case (2 us keep t i)
  have s: "t + au_tokens (us ! i) = suffix_tokens us i"
    using "2.prems"(2,3) by (simp add: suffix_tokens_Suc)
  show ?case
  proof (cases "keep \<le> t + au_tokens (us ! i)")
    case True
    with s "2.prems" show ?thesis by (auto simp: Let_def)
  next
    case False
    with "2.IH" [OF False] s "2.prems" show ?thesis by (auto simp: Let_def)
  qed
qed

lemma raw_boundary_spec:
  fixes us :: "'a atomic_unit list" and keep :: int
  assumes "us \<noteq> []" "\<forall>u \<in> set us. 0 \<le> au_tokens u"
  defines "b \<equiv> selectRawBoundary us keep"
  shows "b < length us" "b = 0 \<or> keep \<le> suffix_tokens us b" "Suc b < length us \<Longrightarrow> suffix_tokens us (Suc b) < keep"
  using raw_boundary_from_spec [OF assms(2), of "length us" 0 keep] assms(1)
  by (auto simp: b_def selectRawBoundary_def suffix_tokens_def Let_def)

lemma last_user_before_Some:
  "last_user_before us n = Some i \<Longrightarrow> i < n \<and> au_firstRole (us ! i) = UserRole \<and> (\<forall>j. i < j \<longrightarrow> j < n \<longrightarrow> au_firstRole (us ! j) \<noteq> UserRole)"
  by (induction us n rule: last_user_before.induct) (auto simp: less_Suc_eq split: if_splits)

lemma last_user_before_None:
  "last_user_before us n = None \<longleftrightarrow> (\<forall>j < n. au_firstRole (us ! j) \<noteq> UserRole)"
  by (induction us n rule: last_user_before.induct) (auto simp: less_Suc_eq)

lemma first_user_from_Some:
  "first_user_from us n = Some i \<Longrightarrow> n \<le> i \<and> i < length us \<and> au_firstRole (us ! i) = UserRole"
  by (auto simp: first_user_from_def find_Some_iff)

lemma first_user_from_None:
  "first_user_from us n = None \<longleftrightarrow> (\<forall>i. n \<le> i \<longrightarrow> i < length us \<longrightarrow> au_firstRole (us ! i) \<noteq> UserRole)"
  by (auto simp: first_user_from_def find_None_iff)

lemma preferred_Some:
  "findPreferredUserBoundary us raw = Some i \<Longrightarrow> raw < length us \<Longrightarrow>
     0 < i \<and> i < length us \<and> au_firstRole (us ! i) = UserRole"
  by (auto simp: findPreferredUserBoundary_def split: option.splits if_splits
      dest!: last_user_before_Some first_user_from_Some)

lemma preferred_None:
  "findPreferredUserBoundary us raw = None \<Longrightarrow> raw < i \<Longrightarrow> i < length us \<Longrightarrow> au_firstRole (us ! i) \<noteq> UserRole"
  by (auto simp: findPreferredUserBoundary_def first_user_from_None split: option.splits if_splits)

text \<open>A preferred boundary is a user message; otherwise the boundary is not before the last one.\<close>

lemma boundary_spec:
  fixes us :: "'a atomic_unit list" and keep :: int
  assumes "us \<noteq> []" "\<forall>u \<in> set us. 0 \<le> au_tokens u"
  defines "sel \<equiv> selectAtomicBoundary us keep"
  defines "b \<equiv> bs_boundaryUnitIndex sel"
  shows "b < length us"
    and "bs_preferredUserBoundary sel = Some p \<Longrightarrow> b = p \<and> 0 < p \<and> au_firstRole (us ! p) = UserRole"
    and "bs_preferredUserBoundary sel = None \<Longrightarrow> bs_latestTurnStart sel = Some l \<Longrightarrow> l \<le> b"
    and "bs_latestTurnStart sel = findLatestUserUnitIndex us"
proof -
  let ?raw = "selectRawBoundary us keep"
  note raw = raw_boundary_spec [OF assms(1,2), of keep]
  show "bs_latestTurnStart sel = findLatestUserUnitIndex us" by (simp add: sel_def selectAtomicBoundary_def Let_def)
  show "b < length us"
    using raw(1) preferred_Some [of us ?raw]
    by (auto simp: b_def sel_def selectAtomicBoundary_def Let_def split: option.splits)
  show "bs_preferredUserBoundary sel = Some p \<Longrightarrow> b = p \<and> 0 < p \<and> au_firstRole (us ! p) = UserRole"
    using raw(1) preferred_Some [of us ?raw p]
    by (auto simp: b_def sel_def selectAtomicBoundary_def Let_def split: option.splits if_splits)
  assume none: "bs_preferredUserBoundary sel = None" and latest: "bs_latestTurnStart sel = Some l"
  have b: "b = ?raw" using none by (simp add: b_def sel_def selectAtomicBoundary_def Let_def)
  have l: "l < length us" "au_firstRole (us ! l) = UserRole"
    using latest last_user_before_Some [of us "length us" l]
    by (simp_all add: sel_def selectAtomicBoundary_def Let_def findLatestUserUnitIndex_def)
  show "l \<le> b"
  proof (rule ccontr)
    assume "\<not> l \<le> b"
    then have lt: "?raw < l" by (simp add: b)
    show False
    proof (cases "keep < suffix_tokens us l")
      case True
      have "suffix_tokens us l \<le> suffix_tokens us (Suc ?raw)" by (rule suffix_tokens_antimono [OF assms(2)]) (use lt in simp)
      with True raw(3) l(1) lt show False by simp
    next
      case False
      with none latest have "findPreferredUserBoundary us ?raw = None"
        by (simp add: sel_def selectAtomicBoundary_def Let_def suffix_tokens_def split: if_splits)
      from preferred_None [OF this lt l(1)] l(2) show False by simp
    qed
  qed
qed

end
