(* ===== verification/Compaction.thy ===== *)
theory Compaction
  imports Compaction_Text Atomic_Units Projection_Facts
begin

text \<open>
  \<open>src/agent/compaction.ts\<close> and \<open>src/agent/compaction-hooks.ts\<close>: the choice of what is summarised and
  what is kept (\<open>prepareCompaction\<close>), and the candidate made from a summary
  (\<open>createCompactionCandidate\<close>).  The summarizer, the hooks and the abort signal are parameters: what
  they return or throw, and what the signal says each time it is read.
\<close>

section \<open>Preparation\<close>

record ready_preparation =
  rp_reason :: compaction_reason
  rp_expectedHeadEntryId :: "int option"
  rp_firstKeptEntryId :: "int option"
  rp_entriesToSummarize :: "ledger_entry list"
  rp_historyEntries :: "ledger_entry list"
  rp_splitTurnPrefixEntries :: "ledger_entry list"
  rp_tailEntries :: "ledger_entry list"
  rp_isSplitTurn :: bool
  rp_tokensBefore :: int
  rp_estimatedTailTokens :: int
  rp_previousCompaction :: "ledger_entry option"

datatype cannot_reason = NoLegalCut | InvalidAtomicHistory | StaleProjection

datatype compaction_preparation =
    Ready ready_preparation
  | CannotCompact cannot_reason "int option"

record compaction_input =
  ci_entries :: "ledger_entry list"
  ci_latestProjection :: ledger_projection
  ci_previousCompaction :: "ledger_entry option"
  ci_contextTokens :: int
  ci_contextWindowTokens :: int
  ci_reserveTokens :: int
  ci_keepRecentTokens :: int
  ci_reason :: compaction_reason

datatype preparation_error = BadPreparationNumber string | ZeroContextWindow

definition count_ok :: "int \<Rightarrow> bool" where
  "count_ok n \<longleftrightarrow> safe_int n \<and> 0 \<le> n"

definition validatePreparationNumbers :: "compaction_input \<Rightarrow> preparation_error + unit" where
  "validatePreparationNumbers i =
     bindE (guardE (count_ok (ci_contextTokens i)) (BadPreparationNumber ''contextTokens'')) (\<lambda>_.
     bindE (guardE (count_ok (ci_contextWindowTokens i)) (BadPreparationNumber ''contextWindowTokens'')) (\<lambda>_.
     bindE (guardE (count_ok (ci_reserveTokens i)) (BadPreparationNumber ''reserveTokens'')) (\<lambda>_.
     bindE (guardE (count_ok (ci_keepRecentTokens i)) (BadPreparationNumber ''keepRecentTokens'')) (\<lambda>_.
       guardE (ci_contextWindowTokens i \<noteq> 0) ZeroContextWindow))))"

definition findLatestCompaction :: "ledger_entry list \<Rightarrow> ledger_entry option" where
  "findLatestCompaction es = find (\<lambda>e. \<not> is_message_entry e) (rev es)"

definition selectActiveMessageEntries :: "ledger_entry list \<Rightarrow> ledger_entry option \<Rightarrow> ledger_entry list" where
  "selectActiveMessageEntries es previous =
     (case previous of
        None \<Rightarrow> filter is_message_entry es
      | Some c \<Rightarrow>
          (let boundary = map_option big_of_dec (firstKeptEntryId (entry_payload c)) in
           filter (\<lambda>e. is_message_entry e \<and> keeps (entry_id c) boundary e) es))"

definition items_of :: "ledger_entry atomic_unit list \<Rightarrow> ledger_entry list" where
  "items_of us = concat (map au_items us)"

definition entry_tokens :: "ledger_entry \<Rightarrow> int" where
  "entry_tokens e = ee_tokens (estimateEntryTokens e)"

text \<open>The preparation for a boundary inside the units.\<close>

definition ready_at :: "compaction_input \<Rightarrow> ledger_entry option \<Rightarrow> ledger_entry atomic_unit list \<Rightarrow> boundary_selection
    \<Rightarrow> ready_preparation" where
  "ready_at i previous us sel =
     (let b = bs_boundaryUnitIndex sel;
          tail = items_of (drop b us);
          firstKept = hd tail;
          latest = bs_latestTurnStart sel;
          split = (role_of (entry_message firstKept) \<noteq> UserRole
            \<and> (latest = None \<or> (\<exists>l. latest = Some l \<and> l < b) \<or> bs_preferredUserBoundary sel = None));
          start = (if split then (case latest of None \<Rightarrow> 0 | Some l \<Rightarrow> l) else b)
      in \<lparr>rp_reason = ci_reason i, rp_expectedHeadEntryId = throughEntryId (ci_latestProjection i),
          rp_firstKeptEntryId = Some (entry_id firstKept), rp_entriesToSummarize = items_of (take b us),
          rp_historyEntries = items_of (take start us),
          rp_splitTurnPrefixEntries = (if split then items_of (drop start (take b us)) else []),
          rp_tailEntries = tail, rp_isSplitTurn = split, rp_tokensBefore = ci_contextTokens i,
          rp_estimatedTailTokens = sum_list (map au_tokens (drop b us)), rp_previousCompaction = previous\<rparr>)"

definition ready_reset :: "compaction_input \<Rightarrow> ledger_entry option \<Rightarrow> ledger_entry atomic_unit list \<Rightarrow> ready_preparation" where
  "ready_reset i previous us =
     \<lparr>rp_reason = ci_reason i, rp_expectedHeadEntryId = throughEntryId (ci_latestProjection i),
      rp_firstKeptEntryId = None, rp_entriesToSummarize = items_of us, rp_historyEntries = items_of us,
      rp_splitTurnPrefixEntries = [], rp_tailEntries = [], rp_isSplitTurn = False,
      rp_tokensBefore = ci_contextTokens i, rp_estimatedTailTokens = 0, rp_previousCompaction = previous\<rparr>"

definition prepareCompaction :: "compaction_input \<Rightarrow> preparation_error + compaction_preparation option" where
  "prepareCompaction i =
     bindE (validatePreparationNumbers i) (\<lambda>_.
       let trigger = max 0 (ci_contextWindowTokens i - ci_reserveTokens i);
           head = throughEntryId (ci_latestProjection i);
           cannot = (\<lambda>r. Inr (Some (CannotCompact r head)));
           latest = findLatestCompaction (ci_entries i);
           previous = (case ci_previousCompaction i of None \<Rightarrow> latest | Some c \<Rightarrow> Some c)
       in if ci_reason i = Threshold \<and> ci_contextTokens i \<le> trigger then Inr None
          else if last_id (ci_entries i) \<noteq> head then cannot StaleProjection
          else if map_option entry_id latest \<noteq> map_option entry_id previous
             \<or> (\<exists>c. ci_previousCompaction i = Some c \<and> \<not> list_ex (\<lambda>e. entry_id e = entry_id c) (ci_entries i))
          then cannot StaleProjection
          else (case buildAtomicUnits entry_message entry_tokens (selectActiveMessageEntries (ci_entries i) previous) of
            None \<Rightarrow> cannot InvalidAtomicHistory
          | Some us \<Rightarrow>
              if ci_reason i = BehavioralReset
              then (if us = [] then cannot NoLegalCut else Inr (Some (Ready (ready_reset i previous us))))
              else if length us < 2 then cannot NoLegalCut
              else (let sel = selectAtomicBoundary us (ci_keepRecentTokens i);
                        b = bs_boundaryUnitIndex sel
                    in if b = 0 \<or> length us \<le> b then cannot NoLegalCut
                       else if items_of (take b us) = [] \<or> items_of (drop b us) = [] then cannot NoLegalCut
                       else Inr (Some (Ready (ready_at i previous us sel))))))"

text \<open>The message up to which a provider may cache the context.\<close>

definition selectCompactionCacheBreakpointMessageIndex :: "agent_message list \<Rightarrow> int \<Rightarrow> preparation_error + nat option" where
  "selectCompactionCacheBreakpointMessageIndex messages keepRecentTokens =
     bindE (guardE (count_ok keepRecentTokens) (BadPreparationNumber ''keepRecentTokens'')) (\<lambda>_. Inr
       (case buildAtomicUnits snd (\<lambda>p. me_tokens (estimateMessageTokens (snd p))) (enumerate 0 messages) of
          None \<Rightarrow> None
        | Some us \<Rightarrow>
            if length us < 2 then None
            else (let b = bs_boundaryUnitIndex (selectAtomicBoundary us keepRecentTokens) in
                  if b = 0 \<or> length us \<le> b then None else Some (fst (last (au_items (us ! (b - 1))))))))"

section \<open>Hooks\<close>

datatype before_result = Continue | Cancel jstr | UseSummary jstr

datatype 'x compaction_failure =
    Thrown 'x
  | BadHookResult
  | BadSummaryLimit

record 'x compaction_env =
  env_beforeCompact :: "(ready_preparation \<Rightarrow> 'x + before_result) option"
  env_summarize :: "summarizer_request \<Rightarrow> 'x + jstr"
  env_aborted :: "nat \<Rightarrow> bool"

definition lift_thrown :: "'x + 'a \<Rightarrow> 'x compaction_failure + 'a" where
  "lift_thrown r = (case r of Inl e \<Rightarrow> Inl (Thrown e) | Inr x \<Rightarrow> Inr x)"

definition runBeforeCompactHook :: "'x compaction_env \<Rightarrow> ready_preparation \<Rightarrow> 'x compaction_failure + before_result" where
  "runBeforeCompactHook env prep =
     (if env_aborted env 0 then Inr (Cancel (js ''aborted''))
      else (case env_beforeCompact env of
              None \<Rightarrow> Inr Continue
            | Some hook \<Rightarrow> bindE (lift_thrown (hook prep)) (\<lambda>r. case r of
                  Continue \<Rightarrow> Inr Continue
                | Cancel reason \<Rightarrow> if blank reason then Inl BadHookResult else Inr r
                | UseSummary s \<Rightarrow> Inr r)))"

text \<open>After the commit: an error of the hook is reported, and an error of the report is dropped.\<close>

definition runAfterCompactHook :: "('e \<Rightarrow> 'x + unit) option \<Rightarrow> 'e \<Rightarrow> 'x option" where
  "runAfterCompactHook hook event =
     (case hook of None \<Rightarrow> None | Some h \<Rightarrow> (case h event of Inl e \<Rightarrow> Some e | Inr _ \<Rightarrow> None))"

section \<open>Candidates\<close>

datatype candidate_fault = SummaryRejected summary_fault | CandidateProjectionInvalid

datatype compaction_candidate =
    CandidateReady compaction_payload ledger_projection int nat
  | CandidateCancelled jstr
  | CandidateInvalid candidate_fault nat

definition filterSummarizerMachineState :: "ledger_entry list \<Rightarrow> ledger_entry list" where
  "filterSummarizerMachineState es = filter (\<lambda>e. \<not> isMailboxAttentionStateMessage (entry_message e)) es"

text \<open>The raw summary, or a cancellation: \<open>None\<close> is the abort.\<close>

definition raw_summary :: "'x compaction_env \<Rightarrow> ready_preparation \<Rightarrow> 'x compaction_failure + jstr option" where
  "raw_summary env prep =
     bindE (lift_thrown (env_summarize env (buildCompactionSummarizerRequest
         (map_option (\<lambda>c. summary (entry_payload c)) (rp_previousCompaction prep))
         (map entry_message (filterSummarizerMachineState (rp_historyEntries prep)))
         (if rp_reason prep = BehavioralReset then BehavioralResetSummary else HistorySummary) None))) (\<lambda>main.
       if env_aborted env 2 then Inr None
       else if rp_isSplitTurn prep then
         bindE (lift_thrown (env_summarize env (buildCompactionSummarizerRequest None
             (map entry_message (filterSummarizerMachineState (rp_splitTurnPrefixEntries prep)))
             SplitTurnPrefixSummary None))) (\<lambda>prefix.
           Inr (Some (combineSplitTurnSummary main prefix)))
       else Inr (Some main))"

text \<open>Validation with one repair when only the length is wrong.\<close>

definition lift_limit :: "summary_range_error + 'a \<Rightarrow> 'x compaction_failure + 'a" where
  "lift_limit r = (case r of Inl _ \<Rightarrow> Inl BadSummaryLimit | Inr x \<Rightarrow> Inr x)"

definition validated_summary :: "jstr \<Rightarrow> int \<Rightarrow> bool \<Rightarrow> 'x compaction_failure + (summary_fault + jstr \<times> int) \<times> nat" where
  "validated_summary raw maxTokens split =
     bindE (lift_limit (validateCompactionSummary raw maxTokens split)) (\<lambda>v.
       if v \<noteq> Inl TokenLimit then Inr (v, 0)
       else bindE (lift_limit (repairOversizedCompactionSummary raw maxTokens split)) (\<lambda>repaired.
              case repaired of
                None \<Rightarrow> Inr (v, 1)
              | Some s \<Rightarrow> if s = [] then Inr (v, 1)
                          else bindE (lift_limit (validateCompactionSummary s maxTokens split)) (\<lambda>w. Inr (w, 1))))"

definition candidate_payload :: "ready_preparation \<Rightarrow> jstr \<Rightarrow> attention_state option \<Rightarrow> compaction_payload" where
  "candidate_payload prep s attention =
     \<lparr>summary = s, firstKeptEntryId = map_option dec_of_int (rp_firstKeptEntryId prep),
      tokensBefore = rp_tokensBefore prep,
      estimatedTokensAfter = safe_add (rp_estimatedTailTokens prep) (estimateCompactionTextTokens s),
      creason = rp_reason prep, isSplitTurn = rp_isSplitTurn prep,
      previousCompactionEntryId = map_option (\<lambda>c. dec_of_int (entry_id c)) (rp_previousCompaction prep),
      mailboxAttentionState = (case attention of
          Some st \<Rightarrow> st
        | None \<Rightarrow> captureMailboxAttentionState (map entry_message (rp_entriesToSummarize prep)))\<rparr>"

definition candidate_of :: "ledger_entry list \<Rightarrow> runtime_state \<Rightarrow> ready_preparation \<Rightarrow> compaction_payload \<Rightarrow> int \<Rightarrow> nat
    \<Rightarrow> compaction_candidate" where
  "candidate_of es rs prep payload tokens repairCount =
     (case rp_expectedHeadEntryId prep of
        None \<Rightarrow> CandidateInvalid CandidateProjectionInvalid repairCount
      | Some head \<Rightarrow>
          if rs_head rs \<noteq> Some head then CandidateInvalid CandidateProjectionInvalid repairCount
          else (case projectAgentLedger (map entry_jv (es @ [CompactionEntry (head + 1) payload 0]))
                       (runtime_state_jv (rs\<lparr>rs_head := Some (head + 1)\<rparr>)) of
                  Inl _ \<Rightarrow> CandidateInvalid CandidateProjectionInvalid repairCount
                | Inr projection \<Rightarrow> CandidateReady payload projection tokens repairCount))"

text \<open>What follows the raw summary: the last look at the signal, the validation and the projection.\<close>

definition candidate_from_raw ::
  "'x compaction_env \<Rightarrow> ledger_entry list \<Rightarrow> runtime_state \<Rightarrow> ready_preparation \<Rightarrow> int option \<Rightarrow> attention_state option
   \<Rightarrow> jstr \<Rightarrow> 'x compaction_failure + compaction_candidate" where
  "candidate_from_raw env es rs prep maxSummaryTokens attention raw =
     (if env_aborted env 3 then Inr (CandidateCancelled (js ''aborted''))
      else bindE (validated_summary raw
             (case maxSummaryTokens of None \<Rightarrow> default_compaction_summary_max_tokens | Some n \<Rightarrow> n)
             (rp_isSplitTurn prep)) (\<lambda>(v, repairCount). case v of
        Inl fault \<Rightarrow> Inr (CandidateInvalid (SummaryRejected fault) repairCount)
      | Inr (s, tokens) \<Rightarrow> Inr (candidate_of es rs prep (candidate_payload prep s attention) tokens repairCount)))"

definition createCompactionCandidate ::
  "'x compaction_env \<Rightarrow> ledger_entry list \<Rightarrow> runtime_state \<Rightarrow> ready_preparation \<Rightarrow> int option \<Rightarrow> attention_state option
   \<Rightarrow> 'x compaction_failure + compaction_candidate" where
  "createCompactionCandidate env es rs prep maxSummaryTokens attention =
     bindE (runBeforeCompactHook env prep) (\<lambda>before. case before of
       Cancel reason \<Rightarrow> Inr (CandidateCancelled reason)
     | _ \<Rightarrow>
         if env_aborted env 1 then Inr (CandidateCancelled (js ''aborted''))
         else bindE (case before of UseSummary s \<Rightarrow> Inr (Some s) | _ \<Rightarrow> raw_summary env prep) (\<lambda>raw. case raw of
           None \<Rightarrow> Inr (CandidateCancelled (js ''aborted''))
         | Some raw \<Rightarrow> candidate_from_raw env es rs prep maxSummaryTokens attention raw))"

section \<open>The summary of a cached provider\<close>

record llm_result =
  lm_content :: jstr
  lm_toolCalls :: "tool_call list"
  lm_stopReason :: "jstr option"

record 't llm_request =
  lq_systemPrompt :: jstr
  lq_messages :: "agent_message list"
  lq_tools :: "'t list"
  lq_cacheBreakpointMessageIndexes :: "nat list option"
  lq_maxOutputTokens :: int

datatype 'x cached_failure =
    LlmFailed 'x
  | CachedAborted
  | CachedBadLimit
  | CachedToolCall
  | CachedMaxTokens
  | CachedContextStop
  | CachedEmptyOutput

definition summarizeCachedClaudeCompaction ::
  "('t llm_request \<Rightarrow> 'x + llm_result) \<Rightarrow> (nat \<Rightarrow> bool) \<Rightarrow> jstr \<Rightarrow> agent_message list \<Rightarrow> 't list \<Rightarrow> int option
   \<Rightarrow> 'x cached_failure + jstr" where
  "summarizeCachedClaudeCompaction llm aborted systemPrompt messages tools maxSummaryTokens =
     (if aborted 0 then Inl CachedAborted
      else let n = (case maxSummaryTokens of None \<Rightarrow> default_compaction_summary_max_tokens | Some m \<Rightarrow> m) in
        case renderCachedClaudeCompactionControl (Some n) of
          Inl _ \<Rightarrow> Inl CachedBadLimit
        | Inr control \<Rightarrow>
            (case llm \<lparr>lq_systemPrompt = systemPrompt, lq_messages = messages @ [UserMsg control], lq_tools = tools,
                   lq_cacheBreakpointMessageIndexes = (if messages = [] then None else Some [length messages - 1]),
                   lq_maxOutputTokens = n\<rparr> of
               Inl e \<Rightarrow> Inl (LlmFailed e)
             | Inr r \<Rightarrow>
                 if aborted 1 then Inl CachedAborted
                 else if lm_toolCalls r \<noteq> [] then Inl CachedToolCall
                 else if lm_stopReason r = Some (js ''max_tokens'') then Inl CachedMaxTokens
                 else if lm_stopReason r = Some (js ''model_context_window_exceeded'') then Inl CachedContextStop
                 else if trim (lm_content r) = [] then Inl CachedEmptyOutput
                 else Inr (trim (lm_content r))))"

end
