(* ===== verification/Compaction_Facts.thy ===== *)
theory Compaction_Facts
  imports Compaction
begin

text \<open>
  What a preparation is (\<open>prepare_ready\<close>): a partition of the active entries at the start of a unit;
  and that the entry made from it extends the ledger by a projection that shows the summary, the
  attention state and exactly the kept messages (\<open>compaction_projects\<close>).
\<close>

section \<open>Preparations partition the active entries\<close>

definition effective_previous :: "compaction_input \<Rightarrow> ledger_entry option" where
  "effective_previous i = (case ci_previousCompaction i of None \<Rightarrow> findLatestCompaction (ci_entries i) | Some c \<Rightarrow> Some c)"

definition active_entries :: "compaction_input \<Rightarrow> ledger_entry list" where
  "active_entries i = selectActiveMessageEntries (ci_entries i) (effective_previous i)"

lemma entry_tokens_nonneg: "0 \<le> entry_tokens e"
  using entry_tokens_bounds [of e] by (simp add: entry_tokens_def)

lemma units_nonneg:
  assumes "list_all (unit_ok msg entry_tokens) us"
  shows "\<forall>u \<in> set us. 0 \<le> au_tokens u"
  using assms by (auto simp: list_all_iff unit_ok_def intro!: sum_list_nonneg entry_tokens_nonneg)

lemma prepare_ready:
  assumes "prepareCompaction i = Inr (Some (Ready prep))"
  obtains us where "buildAtomicUnits entry_message entry_tokens (active_entries i) = Some us"
    and "last_id (ci_entries i) = throughEntryId (ci_latestProjection i)"
    and "map_option entry_id (findLatestCompaction (ci_entries i)) = map_option entry_id (effective_previous i)"
    and "count_ok (ci_contextTokens i)" "count_ok (ci_keepRecentTokens i)"
    and "ci_reason i = Threshold \<Longrightarrow> max 0 (ci_contextWindowTokens i - ci_reserveTokens i) < ci_contextTokens i"
    and "ci_reason i = BehavioralReset \<and> us \<noteq> [] \<and> prep = ready_reset i (effective_previous i) us
       \<or> ci_reason i \<noteq> BehavioralReset \<and> 0 < bs_boundaryUnitIndex (selectAtomicBoundary us (ci_keepRecentTokens i))
         \<and> bs_boundaryUnitIndex (selectAtomicBoundary us (ci_keepRecentTokens i)) < length us
         \<and> prep = ready_at i (effective_previous i) us (selectAtomicBoundary us (ci_keepRecentTokens i))"
  using assms
  by (auto simp: prepareCompaction_def Let_def validatePreparationNumbers_def bindE_Inr_iff active_entries_def
      effective_previous_def not_le split: if_splits option.splits)

lemma items_append: "items_of (take n us) @ items_of (drop n us) = items_of us"
  unfolding items_of_def by (simp add: concat_append [symmetric] map_append [symmetric] del: concat_append map_append)

lemma hd_items:
  assumes "list_all (unit_ok entry_message tok) us" "b < length us"
  shows "role_of (entry_message (hd (items_of (drop b us)))) = au_firstRole (us ! b)"
    and "items_of (drop b us) \<noteq> []" "au_firstRole (us ! b) \<noteq> ToolRole"
proof -
  have u: "unit_ok entry_message tok (us ! b)" using assms by (simp add: list_all_length)
  have "items_of (drop b us) = au_items (us ! b) @ items_of (drop (Suc b) us)"
    using assms(2) by (simp add: items_of_def Cons_nth_drop_Suc [symmetric])
  moreover have "au_items (us ! b) \<noteq> []" using u unfolding unit_ok_def by blast
  ultimately show "items_of (drop b us) \<noteq> []" "role_of (entry_message (hd (items_of (drop b us)))) = au_firstRole (us ! b)"
    using u by (simp_all add: unit_ok_def)
  show "au_firstRole (us ! b) \<noteq> ToolRole" using u unfolding unit_ok_def by blast
qed

text \<open>The history and the split-turn prefix make up what is summarised.\<close>

lemma ready_partition:
  assumes "prepareCompaction i = Inr (Some (Ready prep))"
  shows "rp_entriesToSummarize prep @ rp_tailEntries prep = active_entries i"
    and "rp_historyEntries prep @ rp_splitTurnPrefixEntries prep = rp_entriesToSummarize prep"
    and "rp_entriesToSummarize prep \<noteq> []"
    and "rp_tailEntries prep = [] \<longleftrightarrow> rp_reason prep = BehavioralReset"
    and "rp_tailEntries prep \<noteq> [] \<Longrightarrow> rp_firstKeptEntryId prep = Some (entry_id (hd (rp_tailEntries prep)))
      \<and> role_of (entry_message (hd (rp_tailEntries prep))) \<noteq> ToolRole"
    and "rp_tailEntries prep = [] \<Longrightarrow> rp_firstKeptEntryId prep = None"
    and "rp_estimatedTailTokens prep = sum_list (map entry_tokens (rp_tailEntries prep))"
proof -
  obtain us where us: "buildAtomicUnits entry_message entry_tokens (active_entries i) = Some us"
    and alt0: "ci_reason i = BehavioralReset \<and> us \<noteq> [] \<and> prep = ready_reset i (effective_previous i) us
       \<or> ci_reason i \<noteq> BehavioralReset \<and> 0 < bs_boundaryUnitIndex (selectAtomicBoundary us (ci_keepRecentTokens i))
         \<and> bs_boundaryUnitIndex (selectAtomicBoundary us (ci_keepRecentTokens i)) < length us
         \<and> prep = ready_at i (effective_previous i) us (selectAtomicBoundary us (ci_keepRecentTokens i))"
    by (rule prepare_ready [OF assms]) blast
  then have us_ne: "us \<noteq> []" by auto
  have alt: "ci_reason i = BehavioralReset \<and> prep = ready_reset i (effective_previous i) us
       \<or> ci_reason i \<noteq> BehavioralReset \<and> 0 < bs_boundaryUnitIndex (selectAtomicBoundary us (ci_keepRecentTokens i))
         \<and> bs_boundaryUnitIndex (selectAtomicBoundary us (ci_keepRecentTokens i)) < length us
         \<and> prep = ready_at i (effective_previous i) us (selectAtomicBoundary us (ci_keepRecentTokens i))"
    using alt0 by blast
  have items: "items_of us = active_entries i" using units_concat [OF us] by (simp add: items_of_def)
  note ok = units_ok [OF us]
  have ne: "items_of (take n us) \<noteq> []" if "0 < n" for n
  proof -
    have "au_items (hd us) \<noteq> []" using ok us_ne by (cases us) (simp_all add: unit_ok_def)
    then show ?thesis using us_ne that by (cases us; cases n) (simp_all add: items_of_def)
  qed
  have tok: "sum_list (map au_tokens vs) = sum_list (map entry_tokens (items_of vs))" if "list_all (unit_ok entry_message entry_tokens) vs" for vs
    using that by (induction vs) (simp_all add: items_of_def unit_ok_def)
  let ?sel = "selectAtomicBoundary us (ci_keepRecentTokens i)"
  let ?b = "bs_boundaryUnitIndex ?sel"
  show "rp_entriesToSummarize prep @ rp_tailEntries prep = active_entries i"
    using alt items items_append [of ?b us] by (auto simp: ready_reset_def ready_at_def Let_def)
  show "rp_entriesToSummarize prep \<noteq> []"
    using alt ne [of ?b] ne [of "length us"] us_ne by (auto simp: ready_reset_def ready_at_def Let_def)
  show "rp_tailEntries prep = [] \<longleftrightarrow> rp_reason prep = BehavioralReset"
    using alt hd_items(2) [OF ok, of ?b] by (auto simp: ready_reset_def ready_at_def Let_def)
  show "rp_tailEntries prep \<noteq> [] \<Longrightarrow> rp_firstKeptEntryId prep = Some (entry_id (hd (rp_tailEntries prep)))
      \<and> role_of (entry_message (hd (rp_tailEntries prep))) \<noteq> ToolRole"
    using alt hd_items [OF ok, of ?b] by (auto simp: ready_reset_def ready_at_def Let_def)
  show "rp_tailEntries prep = [] \<Longrightarrow> rp_firstKeptEntryId prep = None"
    using alt hd_items(2) [OF ok, of ?b] by (auto simp: ready_reset_def ready_at_def Let_def)
  have "list_all (unit_ok entry_message entry_tokens) (drop ?b us)"
    using ok by (auto simp: list_all_iff dest: in_set_dropD)
  then show "rp_estimatedTailTokens prep = sum_list (map entry_tokens (rp_tailEntries prep))"
    using alt tok [of "drop ?b us"] by (auto simp: ready_reset_def ready_at_def Let_def)
  show "rp_historyEntries prep @ rp_splitTurnPrefixEntries prep = rp_entriesToSummarize prep"
  proof (cases "ci_reason i = BehavioralReset")
    case True
    with alt show ?thesis by (simp add: ready_reset_def)
  next
    case False
    with alt have b: "0 < ?b" "?b < length us" and prep: "prep = ready_at i (effective_previous i) us ?sel" by blast+
    note spec = boundary_spec [OF us_ne units_nonneg [OF ok], of "ci_keepRecentTokens i"]
    have role: "role_of (entry_message (hd (items_of (drop ?b us)))) = au_firstRole (us ! ?b)"
      using hd_items(1) [OF ok b(2)] .
    show ?thesis
    proof (cases "rp_isSplitTurn prep")
      case split: True
      then have nu: "au_firstRole (us ! ?b) \<noteq> UserRole" using role by (simp add: prep ready_at_def Let_def)
      then have pref: "bs_preferredUserBoundary ?sel = None"
        using spec(2) by (cases "bs_preferredUserBoundary ?sel") auto
      define start where "start = (case bs_latestTurnStart ?sel of None \<Rightarrow> 0 | Some l \<Rightarrow> l)"
      have "start \<le> ?b" using spec(3) [OF pref] by (simp add: start_def split: option.split)
      then have "take start us = take start (take ?b us)" by (simp add: min_absorb1)
      then have "items_of (take start us) @ items_of (drop start (take ?b us)) = items_of (take ?b us)"
        using items_append [of start "take ?b us"] by simp
      with split show ?thesis by (simp add: prep ready_at_def Let_def start_def)
    next
      case False
      then show ?thesis by (auto simp: prep ready_at_def Let_def)
    qed
  qed
qed


section \<open>The last compaction\<close>

lemma find_snoc: "find P (xs @ [x]) = (case find P xs of Some y \<Rightarrow> Some y | None \<Rightarrow> if P x then Some x else None)"
  by (induction xs) auto

lemma latest_Cons:
  "findLatestCompaction (e # es) = (case findLatestCompaction es of Some c \<Rightarrow> Some c | None \<Rightarrow> if is_message_entry e then None else Some e)"
  by (simp add: findLatestCompaction_def find_snoc split: option.split)

lemma chain_latest:
  "compaction_chain prev es = Inr r \<Longrightarrow>
   r = (case findLatestCompaction es of None \<Rightarrow> prev | Some c \<Rightarrow> Some (entry_id c, entry_payload c))"
proof (induction prev es rule: compaction_chain.induct)
  case (1 prev)
  then show ?case by (simp add: findLatestCompaction_def)
qed (auto simp: latest_Cons Let_def split: option.splits if_splits)

lemma latest_compaction: "findLatestCompaction es = Some c \<Longrightarrow> c \<in> set es \<and> \<not> is_message_entry c"
proof (induction es)
  case (Cons e es)
  then show ?case by (auto simp: latest_Cons split: option.splits if_splits)
qed (simp add: findLatestCompaction_def)

lemma chain_snoc:
  assumes "compaction_chain prev es = Inr r"
    and "previousCompactionEntryId p = map_option (\<lambda>(j, _). dec_of_int j) r"
  shows "compaction_chain prev (es @ [CompactionEntry i p t]) = Inr (Some (i, p))"
  using assms
proof (induction prev es rule: compaction_chain.induct)
  case (3 previous i' p' t' es)
  then show ?case by (simp add: Let_def split: if_splits)
qed (simp_all add: Let_def)

section \<open>Active entries and active messages\<close>

lemma entry_messages_filter: "entry_messages (filter P es) = map entry_message (filter (\<lambda>e. is_message_entry e \<and> P e) es)"
  by (induction es rule: entry_messages.induct) auto

lemma active_messages:
  assumes "validateCompactionChain es = Inr latest" "selectActiveMessages es latest = Inr active"
  shows "map entry_message (selectActiveMessageEntries es (findLatestCompaction es)) = active"
proof (cases "findLatestCompaction es")
  case None
  with assms chain_latest [of None es latest] entry_messages_filter [of "\<lambda>_. True" es] show ?thesis
    by (simp add: validateCompactionChain_def selectActiveMessageEntries_def selectActiveMessages_def)
next
  case (Some c)
  with assms chain_latest [of None es latest] entry_messages_filter [of "keeps (entry_id c) (map_option big_of_dec (firstKeptEntryId (entry_payload c)))" es]
  show ?thesis
    by (auto simp: validateCompactionChain_def selectActiveMessageEntries_def selectActiveMessages_def Let_def bindE_Inr_iff)
qed

lemma filter_from_id:
  assumes "sorted_wrt (<) (map entry_id (xs @ y # ys))"
  shows "filter (\<lambda>e. entry_id y \<le> entry_id e) (xs @ y # ys) = y # ys"
proof -
  have "filter (\<lambda>e. entry_id y \<le> entry_id e) xs = []"
    using assms by (auto simp: filter_empty_conv sorted_wrt_append)
  moreover have "filter (\<lambda>e. entry_id y \<le> entry_id e) ys = ys"
    using assms by (auto simp: filter_id_conv sorted_wrt_append)
  ultimately show ?thesis by simp
qed

lemma sorted_wrt_filter_map: "sorted_wrt (<) (map f xs) \<Longrightarrow> sorted_wrt (<) (map f (filter P xs))"
  by (induction xs) auto

text \<open>The messages kept from the first kept entry on are the tail of the active ones.\<close>

lemma kept_tail:
  assumes "ids_increase es" "selectActiveMessageEntries es prev = xs @ y # ys"
  shows "filter (\<lambda>e. is_message_entry e \<and> entry_id y \<le> entry_id e) es = y # ys"
proof -
  let ?A = "selectActiveMessageEntries es prev"
  obtain P where A: "?A = filter (\<lambda>e. is_message_entry e \<and> P e) es" and mono: "\<And>e e'. P e \<Longrightarrow> entry_id e \<le> entry_id e' \<Longrightarrow> P e'"
  proof (cases prev)
    case None
    with that [of "\<lambda>_. True"] show ?thesis by (simp add: selectActiveMessageEntries_def)
  next
    case (Some c)
    let ?P = "keeps (entry_id c) (map_option big_of_dec (firstKeptEntryId (entry_payload c)))"
    have "?P e \<Longrightarrow> entry_id e \<le> entry_id e' \<Longrightarrow> ?P e'" for e e'
      by (auto simp: keeps_def split: option.splits)
    with that [of ?P] Some show ?thesis by (simp add: selectActiveMessageEntries_def Let_def)
  qed
  have "y \<in> set ?A" using assms(2) by simp
  then have Py: "P y" using A by simp
  have "filter (\<lambda>e. is_message_entry e \<and> entry_id y \<le> entry_id e) es = filter (\<lambda>e. entry_id y \<le> entry_id e) ?A"
    using Py mono unfolding A filter_filter by (intro filter_cong) auto
  also have "\<dots> = y # ys"
  proof -
    have "sorted_wrt (<) (map entry_id ?A)"
      unfolding A using assms(1) by (intro sorted_wrt_filter_map) (simp add: ids_increase_def)
    then show ?thesis unfolding assms(2) by (rule filter_from_id)
  qed
  finally show ?thesis .
qed

lemma find_entry_in:
  assumes "ids_increase es" "e \<in> set es"
  shows "find_entry (entry_id e) es = Some e"
  using assms by (induction es) (auto simp: ids_increase_def)

section \<open>The payload of a candidate\<close>

lemma captured_norm: "captured_form st \<Longrightarrow> attention_norm st"
proof -
  assume st: "captured_form st"
  then have d: "distinct (map fst st)" by (rule captured_distinct)
  have "is_mailbox_key k \<and> cursor_norm c \<and> map_of st k = Some c" if p: "(k, c) \<in> set st" for k c
  proof -
    have "valid_entry (k, c)" using st p by (auto simp: captured_form_def)
    moreover have "map_of st k = Some c" using d p by simp
    ultimately show ?thesis
      by (auto simp: valid_entry_def valid_cursor_def cursor_norm_def bounded_def split: option.splits)
  qed
  with st show ?thesis by (auto simp: attention_norm_def captured_form_def strict_sorted_iff)
qed

lemma payload_norm:
  assumes prep: "prepareCompaction i = Inr (Some (Ready prep))"
    and pos: "\<forall>e \<in> set (ci_entries i). 0 < entry_id e" "\<forall>c. ci_previousCompaction i = Some c \<longrightarrow> 0 < entry_id c"
    and s: "\<not> blank s" and att: "\<forall>st. attention = Some st \<longrightarrow> attention_norm st"
  shows "compaction_norm (candidate_payload prep s attention)"
proof -
  have act: "set (active_entries i) \<subseteq> set (ci_entries i)"
    by (auto simp: active_entries_def selectActiveMessageEntries_def Let_def split: option.splits)
  note part = ready_partition [OF prep]
  have first: "0 < k" if "rp_firstKeptEntryId prep = Some k" for k
  proof -
    have ne: "rp_tailEntries prep \<noteq> []" using part(6) that by auto
    then have "hd (rp_tailEntries prep) \<in> set (active_entries i)" using part(1) by (metis Un_iff hd_in_set set_append)
    with part(5) [OF ne] that act pos(1) show ?thesis by auto
  qed
  have fields: "rp_tokensBefore prep = ci_contextTokens i" "rp_previousCompaction prep = effective_previous i"
    "count_ok (ci_contextTokens i)"
    using prep by (auto elim!: prepare_ready simp: ready_reset_def ready_at_def Let_def)
  have prev: "0 < entry_id c" if "effective_previous i = Some c" for c
    using that pos latest_compaction [of "ci_entries i" c] by (auto simp: effective_previous_def split: option.splits)
  have "0 \<le> rp_estimatedTailTokens prep"
    unfolding part(7) by (rule sum_list_nonneg) (auto intro: entry_tokens_nonneg)
  moreover have "0 \<le> estimateCompactionTextTokens s" by (simp add: estimateCompactionTextTokens_def le_max_iff_disj)
  ultimately have after: "bounded (safe_add (rp_estimatedTailTokens prep) (estimateCompactionTextTokens s))"
    unfolding bounded_def by (rule safe_add_bounds)
  have "attention_norm (case attention of Some st \<Rightarrow> st | None \<Rightarrow> captureMailboxAttentionState ms)" for ms
    using att captured_norm [OF capture_form] by (simp split: option.split)
  then show ?thesis
    using s first prev fields after
    by (auto simp: compaction_norm_def candidate_payload_def id_norm_def bounded_def count_ok_def safe_int_def
        intro!: positive_decimal_dec)
qed


section \<open>The compaction entry extends the projection\<close>

lemma keeps_new: "entry_id e < cid \<Longrightarrow> keeps cid (Some b) e \<longleftrightarrow> b \<le> entry_id e" "entry_id e < cid \<Longrightarrow> \<not> keeps cid None e"
  by (auto simp: keeps_def)

text \<open>What is selected once the compaction entry is there.\<close>

lemma select_after_compaction:
  assumes ids: "ids_increase (es @ [CompactionEntry cid payload t])"
    and prep: "prepareCompaction i = Inr (Some (Ready prep))" "ci_entries i = es"
    and first: "firstKeptEntryId payload = map_option dec_of_int (rp_firstKeptEntryId prep)"
    and pos: "\<forall>e \<in> set es. 0 < entry_id e"
  shows "selectActiveMessages (es @ [CompactionEntry cid payload t]) (Some (cid, payload))
    = Inr (map entry_message (rp_tailEntries prep))"
proof -
  let ?c = "CompactionEntry cid payload t"
  have inc: "ids_increase es" and lt: "\<forall>e \<in> set es. entry_id e < cid"
    using ids by (auto simp: ids_increase_def sorted_wrt_append)
  note part = ready_partition [OF prep(1)]
  show ?thesis
  proof (cases "rp_tailEntries prep")
    case Nil
    have "filter (keeps cid None) (es @ [?c]) = []" using lt by (auto simp: filter_empty_conv keeps_def)
    with Nil part(6) [OF Nil] show ?thesis by (simp add: selectActiveMessages_def first)
  next
    case (Cons y ys)
    then have k: "rp_firstKeptEntryId prep = Some (entry_id y)" and role: "role_of (entry_message y) \<noteq> ToolRole"
      using part(5) by simp_all
    have A: "selectActiveMessageEntries es (effective_previous i) = rp_entriesToSummarize prep @ y # ys"
      using part(1) by (simp add: active_entries_def prep(2) Cons)
    then have y: "y \<in> set (selectActiveMessageEntries es (effective_previous i))" by simp
    then have "y \<in> set es \<and> is_message_entry y"
      by (auto simp: selectActiveMessageEntries_def Let_def split: option.splits)
    then obtain j m u where ym: "y = MessageEntry j m u" "y \<in> set es" by (cases y) auto
    have big: "firstKeptEntryId payload = Some (dec_of_int (entry_id y))" "big_of_dec (dec_of_int (entry_id y)) = entry_id y"
      using pos ym(2) by (simp_all add: first k less_imp_le)
    have "find_entry (entry_id y) (es @ [?c]) = Some y"
      using find_entry_in [OF ids, of y] ym(2) by simp
    then have bound: "check_boundary (es @ [?c]) cid (entry_id y) = Inr ()"
      using role by (cases m) (auto simp: check_boundary_def ym(1))
    have "filter (\<lambda>e. is_message_entry e \<and> keeps cid (Some (entry_id y)) e) (es @ [?c])
        = filter (\<lambda>e. is_message_entry e \<and> entry_id y \<le> entry_id e) es"
      using lt by (auto simp: keeps_new intro!: filter_cong)
    also have "\<dots> = y # ys" by (rule kept_tail [OF inc A])
    finally have "entry_messages (filter (keeps cid (Some (entry_id y))) (es @ [?c])) = map entry_message (y # ys)"
      by (simp only: entry_messages_filter)
    then show ?thesis
      using bound by (simp add: selectActiveMessages_def Let_def big Cons del: filter_append filter.simps)
  qed
qed

lemma summary_head:
  "head_messages (Some (cid, payload)) = renderSummaryMessage payload #
    (case renderMachineStateMessages payload of Inl _ \<Rightarrow> [] | Inr st \<Rightarrow> st)"
  by (simp add: head_messages_def)

lemma compaction_projects:
  assumes norm: "list_all entry_norm es" and inc: "ids_increase es" and pr: "project_entries es rs = Inr pr"
    and prep: "prepareCompaction i = Inr (Some (Ready prep))" "ci_entries i = es"
    and prev: "effective_previous i = findLatestCompaction es"
    and s: "\<not> blank s" and att: "\<forall>st. attention = Some st \<longrightarrow> attention_norm st"
    and cid: "\<forall>e \<in> set es. entry_id e < cid"
    and payload: "payload = candidate_payload prep s attention"
    and rs': "rs_head rs' = Some cid" "runtime_valid rs'"
  shows "project_entries (es @ [CompactionEntry cid payload t]) rs' = Inr
    \<lparr>throughEntryId = Some cid, activeEntryCount = length (rp_tailEntries prep), permanentEntryCount = Suc (length es),
     proj_snapshot = snapshot_of (head_messages (Some (cid, payload)) @ map entry_message (rp_tailEntries prep)) rs'\<rparr>"
proof -
  let ?c = "CompactionEntry cid payload t"
  have pos: "\<forall>e \<in> set es. 0 < entry_id e"
  proof
    fix e assume "e \<in> set es"
    then have "entry_norm e" using norm by (auto simp: list_all_iff)
    then show "0 < entry_id e" by (cases e) auto
  qed
  note part = ready_partition [OF prep(1)]
  have active: "active_entries i \<noteq> []" using part(1,3) by auto
  then have "es \<noteq> []" by (auto simp: active_entries_def selectActiveMessageEntries_def prep(2) Let_def split: option.splits)
  then have cpos: "0 < cid" using pos cid by (metis list.set_intros(1) neq_Nil_conv order.strict_trans)
  obtain latest act where la: "validateCompactionChain es = Inr latest" "selectActiveMessages es latest = Inr act"
      "legal_history act" "legal_history (entry_messages es)"
    using pr by (auto simp: project_entries_Inr [OF norm])
  have latest: "latest = map_option (\<lambda>c. (entry_id c, entry_payload c)) (findLatestCompaction es)"
    using chain_latest [of None es latest] la(1) by (auto simp: validateCompactionChain_def split: option.splits)
  have ids: "ids_increase (es @ [?c])" using inc cid by (simp add: ids_increase_def sorted_wrt_append)
  have fields: "rp_previousCompaction prep = findLatestCompaction es"
    using prep(1) prev by (auto elim!: prepare_ready simp: ready_reset_def ready_at_def Let_def)
  have pos_prev: "\<forall>c. ci_previousCompaction i = Some c \<longrightarrow> 0 < entry_id c"
    using prev pos latest_compaction [of es] by (auto simp: effective_previous_def split: option.splits)
  have "compaction_norm payload"
    unfolding payload by (rule payload_norm [OF prep(1) _ pos_prev s att]) (simp add: prep(2) pos)
  then have norm': "list_all entry_norm (es @ [?c])" using norm cpos by simp
  have chain: "validateCompactionChain (es @ [?c]) = Inr (Some (cid, payload))"
    unfolding validateCompactionChain_def
    by (rule chain_snoc [OF la(1) [unfolded validateCompactionChain_def]])
      (simp add: payload candidate_payload_def fields latest option.map_comp comp_def)
  have sel: "selectActiveMessages (es @ [?c]) (Some (cid, payload)) = Inr (map entry_message (rp_tailEntries prep))"
    by (rule select_after_compaction [OF ids prep _ pos]) (simp add: payload candidate_payload_def)
  have act: "act = map entry_message (rp_entriesToSummarize prep) @ map entry_message (rp_tailEntries prep)"
    using active_messages [OF la(1,2)] part(1) by (simp add: active_entries_def prev prep(2) flip: map_append)
  have legal: "legal_history (map entry_message (rp_tailEntries prep))"
  proof (rule legal_suffix)
    show "legal_history (map entry_message (rp_entriesToSummarize prep) @ map entry_message (rp_tailEntries prep))"
      using la(3) act by simp
    show "map entry_message (rp_tailEntries prep) = [] \<or> \<not> is_tool_message (hd (map entry_message (rp_tailEntries prep)))"
    proof (cases "rp_tailEntries prep")
      case (Cons y ys)
      with part(5) show ?thesis by (cases "entry_message y") simp_all
    qed simp
  qed
  have last: "last_id (es @ [?c]) = Some cid" by (simp add: last_id_def)
  show ?thesis
    using rs' la(4) chain sel legal by (simp add: project_entries_Inr [OF norm'] last)
qed


end
