(* ===== verification/Compaction_Properties.thy ===== *)
theory Compaction_Properties
  imports Compaction_Text Compaction_Facts Ledger_Properties
begin

text \<open>
  Rendering and parsing a summary (\<open>renderParsedSummary\<close> and \<open>parseSummary\<close> of
  \<open>src/agent/compaction-serialization.ts\<close>): the lines of a rendered summary are blocks, a heading and its
  body, from which the parser cuts the same sections.
\<close>

definition body_ok :: "jstr \<Rightarrow> bool" where
  "body_ok b \<longleftrightarrow> b \<noteq> [] \<and> trim b = b \<and> (\<forall>l \<in> set (split_lines b). trim_end l = l \<and> \<not> is_heading_like l)"

definition blocks :: "(jstr \<times> jstr) list \<Rightarrow> jstr list" where
  "blocks ss = concat (map (\<lambda>(h, b). h # split_lines b) ss)"

lemma blocks_simps [simp]: "blocks [] = []" "blocks ((h, b) # ss) = h # split_lines b @ blocks ss"
  by (simp_all add: blocks_def)

lemma blocks_Nil [simp]: "blocks ss = [] \<longleftrightarrow> ss = []"
  by (cases ss) auto

lemma in_blocks: "l \<in> set (blocks ss) \<Longrightarrow> \<exists>p \<in> set ss. l = fst p \<or> l \<in> set (split_lines (snd p))"
  by (induction ss) auto

lemma join_lines_append: "xs \<noteq> [] \<Longrightarrow> ys \<noteq> [] \<Longrightarrow> join_lines (xs @ ys) = join_lines xs @ newline # join_lines ys"
proof (induction xs rule: join_lines.induct)
  case (2 l)
  then show ?case by (cases ys) auto
qed auto

lemma join_blocks: "join_lines (map (\<lambda>(h, b). h @ newline # b) ss) = join_lines (blocks ss)"
proof (induction ss)
  case (Cons s ss)
  obtain h b where s: "s = (h, b)" by (cases s)
  have hb: "join_lines (h # split_lines b) = h @ newline # b"
    using join_lines_append [of "[h]" "split_lines b"] by (simp add: join_split_lines)
  show ?case
  proof (cases ss)
    case Nil
    then show ?thesis by (simp add: s hb)
  next
    case (Cons t ts)
    then have "join_lines (map (\<lambda>(h, b). h @ newline # b) (s # ss)) = (h @ newline # b) @ newline # join_lines (blocks ss)"
      using Cons.IH by (simp add: s)
    also have "\<dots> = join_lines ((h # split_lines b) @ blocks ss)"
      using Cons by (subst join_lines_append) (simp_all add: hb)
    finally show ?thesis by (simp add: s)
  qed
qed simp

section \<open>Cutting the sections\<close>

fun starts :: "nat \<Rightarrow> (jstr \<times> jstr) list \<Rightarrow> (jstr \<times> nat) list" where
  "starts n [] = []"
| "starts n ((h, b) # ss) = (h, n) # starts (n + 1 + length (split_lines b)) ss"

lemma sections_of_starts:
  "\<forall>(h, b) \<in> set ss. body_ok b \<Longrightarrow> sections_of (pre @ blocks ss) (starts (length pre) ss) = ss"
proof (induction ss arbitrary: pre)
  case (Cons s ss)
  obtain h b where s: "s = (h, b)" by (cases s)
  have b: "trim b = b" using Cons.prems by (simp add: s body_ok_def)
  have IH: "sections_of (pre @ h # split_lines b @ blocks ss) (starts (Suc (length pre + length (split_lines b))) ss) = ss"
    using Cons.IH [of "pre @ h # split_lines b"] Cons.prems by (simp add: s)
  have sl: "slice (Suc (length pre)) (Suc (length pre + length (split_lines b))) (pre @ h # split_lines b @ blocks ss) = split_lines b"
    by (simp add: slice_def)
  show ?case
  proof (cases ss)
    case Nil
    then show ?thesis by (simp add: s slice_def join_split_lines b)
  next
    case (Cons t ts)
    obtain h' b' where t: "t = (h', b')" by (cases t)
    show ?thesis using IH sl by (simp add: s Cons t join_split_lines b)
  qed
qed simp

lemma block_heads:
  assumes "\<forall>(h, b) \<in> set ss. is_heading_like h \<and> body_ok b"
  shows "filter is_heading_like (blocks ss) = map fst ss"
  using assms by (induction ss) (auto simp: body_ok_def)

lemma index_starts:
  assumes "\<forall>(h, b) \<in> set ss. is_heading_like h \<and> body_ok b" "distinct (map fst ss)" "\<forall>h \<in> fst ` set ss. h \<notin> set pre"
  shows "map (\<lambda>h. (h, line_index (pre @ blocks ss) h)) (map fst ss) = starts (length pre) ss"
  using assms
proof (induction ss arbitrary: pre)
  case (Cons s ss)
  obtain h b where s: "s = (h, b)" by (cases s)
  have hd: "line_index (pre @ h # split_lines b @ blocks ss) h = length pre"
  proof -
    have "takeWhile (\<lambda>l. l \<noteq> h) (pre @ h # split_lines b @ blocks ss) = pre"
      using Cons.prems(3) s by (subst takeWhile_append2) auto
    then show ?thesis by (simp add: line_index_def)
  qed
  have out: "k \<notin> set (pre @ h # split_lines b)" if k: "k \<in> fst ` set ss" for k
  proof -
    have "is_heading_like k" "k \<noteq> h" "k \<notin> set pre" using k Cons.prems by (auto simp: s)
    moreover have "\<not> is_heading_like l" if "l \<in> set (split_lines b)" for l using that Cons.prems(1) by (auto simp: s body_ok_def)
    ultimately show ?thesis by auto
  qed
  have "\<forall>(h, b) \<in> set ss. is_heading_like h \<and> body_ok b" "distinct (map fst ss)" using Cons.prems(1,2) by (simp_all add: s)
  from Cons.IH [OF this, of "pre @ h # split_lines b"] out
  have "map (\<lambda>k. (k, line_index ((pre @ h # split_lines b) @ blocks ss) k)) (map fst ss)
      = starts (length (pre @ h # split_lines b)) ss" by blast
  with hd show ?case by (simp add: s del: map_map)
qed simp

lemma starts_bounds: "k \<in> set (map snd (starts n ss)) \<Longrightarrow> n \<le> k"
proof (induction n ss rule: starts.induct)
  case (2 n h b ss)
  then consider "k = n" | "k \<in> set (map snd (starts (n + 1 + length (split_lines b)) ss))" by auto
  then show ?case using "2.IH" by cases simp_all
qed simp

lemma starts_sorted: "sorted_wrt (<) (map snd (starts n ss))"
proof (induction n ss rule: starts.induct)
  case (2 n h b ss)
  have "n < k" if "k \<in> set (map snd (starts (n + 1 + length (split_lines b)) ss))" for k
    using starts_bounds [OF that] by simp
  with 2 show ?case by simp
qed simp

section \<open>The round trip\<close>

lemma headings_ok: "\<forall>h \<in> set compaction_summary_headings. is_heading_like h \<and> trim_end h = h \<and> newline \<notin> set h"
  "distinct compaction_summary_headings"
  by (simp_all add: compaction_summary_headings_def is_heading_like_def starts_with_def trim_end_def is_space_def)

lemma filter_one: "distinct xs \<Longrightarrow> x \<in> set xs \<Longrightarrow> length (filter (\<lambda>y. y = x) xs) = 1"
  by (induction xs) (auto simp: filter_empty_conv)

lemma check_headings_None:
  "check_headings lines hs = None \<longleftrightarrow> (\<forall>h \<in> set hs. length (filter (\<lambda>l. l = h) lines) = 1)"
proof (induction hs)
  case (Cons h hs)
  have "h \<in> set lines" if "length (filter (\<lambda>l. l = h) lines) = 1"
    using that by (metis (mono_tags, lifting) filter_empty_conv length_0_conv zero_neq_one)
  with Cons show ?case by auto
qed simp

lemma parse_blocks:
  assumes heads: "map fst ss = compaction_summary_headings" and ok: "\<forall>(h, b) \<in> set ss. body_ok b"
    and split: "splitTurnSummary s isSplit = Inr (join_lines (blocks ss), prefix)"
  shows "parseSummary s isSplit = Inr \<lparr>ps_sections = ss, ps_splitTurnPrefix = prefix\<rparr>"
proof -
  let ?H = compaction_summary_headings
  have hs: "\<forall>(h, b) \<in> set ss. is_heading_like h \<and> body_ok b"
  proof
    fix p assume p: "p \<in> set ss"
    then have "fst p \<in> set ?H" using heads by (metis image_eqI list.set_map)
    then show "case p of (h, b) \<Rightarrow> is_heading_like h \<and> body_ok b" using ok p headings_ok(1) by auto
  qed
  have ne: "ss \<noteq> []" using heads by (auto simp: compaction_summary_headings_def)
  have nl: "newline \<notin> set l \<and> trim_end l = l" if l: "l \<in> set (blocks ss)" for l
  proof -
    obtain s where s: "s \<in> set ss" "l = fst s \<or> l \<in> set (split_lines (snd s))"
      using in_blocks [OF l] by blast
    define h b where "h = fst s" "b = snd s"
    with s have hb: "(h, b) \<in> set ss" "l = h \<or> l \<in> set (split_lines b)" by simp_all
    moreover have "h \<in> set ?H" using hb(1) heads by (metis fst_conv image_eqI list.set_map)
    ultimately show ?thesis using ok headings_ok(1) split_lines_no_newline [of l b] by (auto simp: body_ok_def)
  qed
  then have lines: "map trim_end (split_lines (join_lines (blocks ss))) = blocks ss"
    using ne by (subst split_join_lines) (auto intro: map_idI)
  note fh = block_heads [OF hs]
  have "find (\<lambda>l. is_heading_like l \<and> l \<notin> set ?H) (blocks ss) = None"
  proof -
    have "l \<in> set ?H" if "l \<in> set (blocks ss)" "is_heading_like l" for l
    proof -
      have "l \<in> set (filter is_heading_like (blocks ss))" using that by simp
      then show ?thesis by (simp add: fh heads)
    qed
    then show ?thesis by (auto simp: find_None_iff)
  qed
  moreover have "check_headings (blocks ss) ?H = None"
  proof -
    have "length (filter (\<lambda>l. l = h) (blocks ss)) = 1" if h: "h \<in> set ?H" for h
    proof -
      have "filter (\<lambda>l. l = h) (blocks ss) = filter (\<lambda>l. l = h) (filter is_heading_like (blocks ss))"
        using h headings_ok(1) by (auto simp: conj_commute intro!: filter_cong)
      also have "\<dots> = filter (\<lambda>l. l = h) ?H" by (simp add: fh heads)
      also have "length \<dots> = 1"
        by (rule filter_one [OF headings_ok(2) h])
      finally show ?thesis .
    qed
    then show ?thesis by (simp add: check_headings_None)
  qed
  moreover have idx: "map (\<lambda>h. (h, line_index (blocks ss) h)) ?H = starts 0 ss"
    using index_starts [OF hs, of "[]"] headings_ok(2) heads by simp
  then have "zip ?H (map (line_index (blocks ss)) ?H) = starts 0 ss"
    by (simp add: zip_map2 zip_same_conv_map comp_def)
  moreover have "map (line_index (blocks ss)) ?H = map snd (starts 0 ss)"
    by (simp flip: idx add: comp_def)
  moreover have "hd (map snd (starts 0 ss)) = 0" using ne by (cases ss) auto
  moreover have "sections_of (blocks ss) (starts 0 ss) = ss" using sections_of_starts [OF ok, of "[]"] by simp
  moreover have "find (\<lambda>p. snd p = []) ss = None" using ok by (auto simp: find_None_iff body_ok_def)
  ultimately show ?thesis
    using starts_sorted [of 0 ss] by (simp add: parseSummary_def split lines Let_def)
qed

lemma render_parse:
  assumes "map fst (ps_sections p) = compaction_summary_headings" "\<forall>(h, b) \<in> set (ps_sections p). body_ok b"
    and "ps_splitTurnPrefix p = None" "index_of split_open_pattern (renderParsedSummary p) = None"
  shows "parseSummary (renderParsedSummary p) False = Inr p"
proof -
  have r: "renderParsedSummary p = join_lines (blocks (ps_sections p))"
    using assms(3) by (simp add: renderParsedSummary_def join_blocks)
  have "splitTurnSummary (renderParsedSummary p) False = Inr (join_lines (blocks (ps_sections p)), None)"
    using assms(4) by (simp add: splitTurnSummary_def r)
  from parse_blocks [OF assms(1,2) this] show ?thesis using assms(3) by simp
qed

text \<open>
  The properties of compaction, with their witnesses: the split of the history, the candidate and its
  projection, the summary, the token estimates and the transcript given to the summarizer.
\<close>

section \<open>A sample history to compact\<close>

definition sample_history :: "ledger_entry list" where
  "sample_history = [MessageEntry 1 (UserMsg (js ''hello'')) 0, MessageEntry 2 (AssistantMsg [] [sample_call] None) 0,
     MessageEntry 3 (ToolMsg (js ''c1'') (TextContent (js ''ok''))) 0, MessageEntry 4 (UserMsg (js ''more'')) 0]"

definition sample_input :: "ledger_projection \<Rightarrow> compaction_input" where
  "sample_input pr = \<lparr>ci_entries = sample_history, ci_latestProjection = pr, ci_previousCompaction = None,
     ci_contextTokens = 100, ci_contextWindowTokens = 50, ci_reserveTokens = 0, ci_keepRecentTokens = 0,
     ci_reason = Threshold\<rparr>"

definition sample_prep :: "ledger_projection \<Rightarrow> ready_preparation" where
  "sample_prep pr = \<lparr>rp_reason = Threshold, rp_expectedHeadEntryId = Some 4, rp_firstKeptEntryId = Some 4,
     rp_entriesToSummarize = take 3 sample_history, rp_historyEntries = take 3 sample_history, rp_splitTurnPrefixEntries = [],
     rp_tailEntries = drop 3 sample_history, rp_isSplitTurn = False, rp_tokensBefore = 100,
     rp_estimatedTailTokens = entry_tokens (sample_history ! 3), rp_previousCompaction = None\<rparr>"

lemma sample_history_norm: "list_all entry_norm sample_history" "ids_increase sample_history" "last_id sample_history = Some 4"
  using sample_norm(1) by (simp_all add: sample_history_def sample_first_def sample_more_def ids_increase_def last_id_def)

lemma sample_history_projects:
  "\<exists>pr. projectAgentLedger (map entry_jv sample_history) (runtime_state_jv (sample_runtime (Some 4))) = Inr pr
     \<and> throughEntryId pr = Some 4"
proof -
  have r: "runtime_norm (sample_runtime (Some 4))" using sample_norm(3) by (simp add: runtime_norm_def sample_runtime_def)
  have "\<exists>pr. project_entries sample_history (sample_runtime (Some 4)) = Inr pr \<and> throughEntryId pr = Some 4"
    using sample_valid [of "Some 4"] sample_calls sample_text
    by (simp only: project_entries_Inr [OF sample_history_norm(1)] sample_history_norm(3))
      (simp add: sample_history_def sample_runtime_def legal_history_iff sample_call_def call_norm_def
        validateCompactionChain_def selectActiveMessages_def)
  then show ?thesis
    using sample_history_norm(2) by (simp add: projectAgentLedger_typed [OF sample_history_norm(1) r] assertStrictlyIncreasingIds_Inr [THEN iffD2])
qed

lemma sample_prepares:
  assumes "throughEntryId pr = Some 4"
  shows "prepareCompaction (sample_input pr) = Inr (Some (Ready (sample_prep pr)))"
proof -
  have u: "buildAtomicUnits entry_message entry_tokens sample_history = Some [atomic_unit_of entry_message entry_tokens [sample_history ! 0],
      atomic_unit_of entry_message entry_tokens [sample_history ! 1, sample_history ! 2], atomic_unit_of entry_message entry_tokens [sample_history ! 3]]"
    (is "_ = Some ?us")
    by (simp add: sample_history_def sample_call_def)
  have "0 < entry_tokens (sample_history ! 3)" using entry_tokens_bounds by (simp add: entry_tokens_def)
  then have sel: "selectAtomicBoundary ?us 0 = \<lparr>bs_boundaryUnitIndex = 2, bs_latestTurnStart = Some 2, bs_preferredUserBoundary = None\<rparr>"
    by (simp add: selectAtomicBoundary_def selectRawBoundary_def findLatestUserUnitIndex_def atomic_unit_of_def sample_history_def
        numeral_2_eq_2)
  have act: "selectActiveMessageEntries sample_history None = sample_history"
    by (simp add: selectActiveMessageEntries_def sample_history_def)
  have "findLatestCompaction sample_history = None" by (simp add: findLatestCompaction_def sample_history_def)
  then show ?thesis
    using assms u sel
    by (simp add: prepareCompaction_def sample_input_def validatePreparationNumbers_def count_ok_def safe_int_def max_safe_def Let_def
        sample_history_norm(3) act ready_at_def sample_prep_def items_of_def atomic_unit_of_def)
      (simp add: sample_history_def)
qed

section \<open>The split\<close>

text \<open>A legal history splits into atomic units: their items put together are the history, and each
  is a single message or an assistant message with exactly the results of its calls, so no cut
  between units separates a call from its result.\<close>

theorem legal_history_splits_into_units:
  assumes "legal_history (map entry_message es)"
  shows "\<exists>us. buildAtomicUnits entry_message entry_tokens es = Some us \<and> items_of us = es
    \<and> (\<forall>u \<in> set us. \<exists>x rs. au_items u = x # rs \<and> role_of (entry_message x) \<noteq> ToolRole
         \<and> list_all2 (\<lambda>t c. answers (entry_message t) c) rs (call_ids (entry_message x)))"
proof -
  obtain us where us: "buildAtomicUnits entry_message entry_tokens es = Some us"
    using legal_units [OF assms, of entry_tokens] by blast
  have "\<exists>x rs. au_items u = x # rs \<and> role_of (entry_message x) \<noteq> ToolRole
      \<and> list_all2 (\<lambda>t c. answers (entry_message t) c) rs (call_ids (entry_message x))" if "u \<in> set us" for u
    using units_ok [OF us] that by (cases "au_items u") (auto simp: list_all_iff unit_ok_def)
  then show ?thesis using us units_concat [OF us] by (auto simp: items_of_def)
qed

lemma sample_history_legal: "legal_history (map entry_message sample_history)"
  using sample_calls sample_text
  by (simp add: sample_history_def legal_history_iff sample_call_def call_norm_def)

theorem legal_history_splits_into_units_witness:
  "\<exists>us. buildAtomicUnits entry_message entry_tokens sample_history = Some us \<and> items_of us = sample_history"
  using legal_history_splits_into_units [OF sample_history_legal] by blast

text \<open>C15. A preparation partitions the active entries: what is summarised, never empty, followed by the
  tail, which is empty exactly for a behavioural reset; the summarised part is the history followed by the
  prefix of a split turn; the first kept entry is the first of the tail and never a tool result; a
  threshold preparation is made only beyond the reserve of the context window.\<close>

theorem preparation_partitions:
  assumes "prepareCompaction i = Inr (Some (Ready prep))"
  shows "rp_entriesToSummarize prep @ rp_tailEntries prep = active_entries i
    \<and> rp_historyEntries prep @ rp_splitTurnPrefixEntries prep = rp_entriesToSummarize prep
    \<and> rp_entriesToSummarize prep \<noteq> []
    \<and> (rp_tailEntries prep = [] \<longleftrightarrow> ci_reason i = BehavioralReset)
    \<and> (rp_tailEntries prep \<noteq> [] \<longrightarrow> rp_firstKeptEntryId prep = Some (entry_id (hd (rp_tailEntries prep)))
         \<and> role_of (entry_message (hd (rp_tailEntries prep))) \<noteq> ToolRole)
    \<and> rp_estimatedTailTokens prep = sum_list (map entry_tokens (rp_tailEntries prep))
    \<and> rp_expectedHeadEntryId prep = last_id (ci_entries i)
    \<and> (ci_reason i = Threshold \<longrightarrow> max 0 (ci_contextWindowTokens i - ci_reserveTokens i) < ci_contextTokens i)"
proof -
  have r: "rp_reason prep = ci_reason i" "rp_expectedHeadEntryId prep = last_id (ci_entries i)"
    "ci_reason i = Threshold \<longrightarrow> max 0 (ci_contextWindowTokens i - ci_reserveTokens i) < ci_contextTokens i"
    using assms by (auto elim!: prepare_ready simp: ready_reset_def ready_at_def Let_def)
  note part = ready_partition [OF assms]
  show ?thesis
    by (intro conjI impI part(1-3,7) r(2)) (use r part(4,5) in auto)
qed

theorem preparation_partitions_witness:
  "\<exists>pr. prepareCompaction (sample_input pr) = Inr (Some (Ready (sample_prep pr)))
     \<and> rp_entriesToSummarize (sample_prep pr) @ rp_tailEntries (sample_prep pr) = active_entries (sample_input pr)"
proof -
  obtain pr :: ledger_projection where "throughEntryId pr = Some 4" using sample_history_projects by blast
  from sample_prepares [OF this] preparation_partitions [OF sample_prepares [OF this]] show ?thesis by blast
qed

text \<open>The boundary chosen keeps as many of the latest units as it takes to reach the wished number of
  tokens and no more, unless it is moved to the start of a user turn; it is moved only when the last turn
  fits, and it is never before the last user message otherwise.\<close>

theorem boundary_keeps_recent:
  assumes "us \<noteq> []" "\<forall>u \<in> set us. 0 \<le> au_tokens u"
  shows "bs_boundaryUnitIndex (selectAtomicBoundary us keep) < length us
    \<and> (case bs_preferredUserBoundary (selectAtomicBoundary us keep) of
         Some b \<Rightarrow> bs_boundaryUnitIndex (selectAtomicBoundary us keep) = b \<and> 0 < b \<and> au_firstRole (us ! b) = UserRole
       | None \<Rightarrow>
           (let b = bs_boundaryUnitIndex (selectAtomicBoundary us keep) in
            (b = 0 \<or> keep \<le> suffix_tokens us b) \<and> (Suc b < length us \<longrightarrow> suffix_tokens us (Suc b) < keep)
            \<and> (\<forall>l. bs_latestTurnStart (selectAtomicBoundary us keep) = Some l \<longrightarrow> l \<le> b)))"
proof (cases "bs_preferredUserBoundary (selectAtomicBoundary us keep)")
  case None
  then have "bs_boundaryUnitIndex (selectAtomicBoundary us keep) = selectRawBoundary us keep"
    by (simp add: selectAtomicBoundary_def Let_def)
  with None raw_boundary_spec [OF assms, of keep] boundary_spec(1,3) [OF assms, of keep] show ?thesis by (simp add: Let_def)
next
  case (Some b)
  with boundary_spec(1,2) [OF assms, of keep] show ?thesis by simp
qed

definition sample_units :: "ledger_entry atomic_unit list" where
  "sample_units = [\<lparr>au_items = [], au_firstRole = UserRole, au_tokens = 3\<rparr>, \<lparr>au_items = [], au_firstRole = UserRole, au_tokens = 4\<rparr>]"

theorem boundary_keeps_recent_witness:
  "bs_boundaryUnitIndex (selectAtomicBoundary sample_units 5) < length sample_units"
proof -
  have "sample_units \<noteq> []" "\<forall>u \<in> set sample_units. 0 \<le> au_tokens u" by (simp_all add: sample_units_def)
  from boundary_keeps_recent [OF this, of 5] show ?thesis by blast
qed

section \<open>The candidate\<close>

lemma candidate_of_projects:
  assumes ledger: "projectAgentLedger (map entry_jv es) (runtime_state_jv rs) = Inr pr" "list_all entry_norm es" "runtime_norm rs"
    and prep: "prepareCompaction i = Inr (Some (Ready prep))" "ci_entries i = es" "ci_latestProjection i = pr"
      "ci_previousCompaction i \<in> {None, findLatestCompaction es}"
    and s: "\<not> blank s" and att: "attention = None \<or> (\<exists>ms. attention = Some (captureMailboxAttentionState ms))"
  shows "\<exists>projection cid. candidate_of es rs prep (candidate_payload prep s attention) n r
      = CandidateReady (candidate_payload prep s attention) projection n r
    \<and> ps_messages (proj_snapshot projection)
      = head_messages (Some (cid, candidate_payload prep s attention)) @ map entry_message (rp_tailEntries prep)"
proof -
  let ?p = "candidate_payload prep s attention"
  have pe: "project_entries es rs = Inr pr" and inc: "ids_increase es"
    using ledger(1) by (auto simp: projectAgentLedger_typed [OF ledger(2,3)] bindE_Inr_iff assertStrictlyIncreasingIds_Inr)
  have prev: "effective_previous i = findLatestCompaction es"
    using prep(2,4) by (auto simp: effective_previous_def split: option.splits)
  have rs: "rs_head rs = last_id es" "runtime_valid rs" "throughEntryId pr = last_id es"
    using pe by (auto simp: project_entries_Inr [OF ledger(2)])
  note part = ready_partition [OF prep(1)]
  have "active_entries i \<noteq> []" using part(1,3) by auto
  then have ne: "es \<noteq> []" by (auto simp: active_entries_def selectActiveMessageEntries_def prep(2) Let_def split: option.splits)
  have head: "rp_expectedHeadEntryId prep = Some (entry_id (last es))" "rs_head rs = Some (entry_id (last es))"
    using prep(1,3) rs ne by (auto elim!: prepare_ready simp: ready_reset_def ready_at_def Let_def last_id_def)
  let ?cid = "entry_id (last es) + 1"
  have le: "\<forall>e \<in> set es. entry_id e < ?cid"
  proof
    fix e assume "e \<in> set es"
    then have "e \<in> set (butlast es) \<or> e = last es" using ne by (metis Un_iff append_butlast_last_id empty_iff insert_iff list.set(1,2) set_append)
    moreover have "sorted_wrt (<) (map entry_id (butlast es @ [last es]))" using inc ne by (simp add: ids_increase_def)
    ultimately show "entry_id e < ?cid" by (auto simp: sorted_wrt_append)
  qed
  have att': "\<forall>st. attention = Some st \<longrightarrow> attention_norm st" using att captured_norm [OF capture_form] by auto
  have "entry_norm (last es)" using ledger(2) ne by (simp add: list_all_iff)
  then have cpos: "0 < ?cid" by (cases "last es") simp_all
  have pos: "\<forall>e \<in> set (ci_entries i). 0 < entry_id e"
  proof
    fix e assume "e \<in> set (ci_entries i)"
    then have "entry_norm e" using ledger(2) prep(2) by (simp add: list_all_iff)
    then show "0 < entry_id e" by (cases e) auto
  qed
  have pos': "\<forall>c. ci_previousCompaction i = Some c \<longrightarrow> 0 < entry_id c"
    using prep(2,4) pos latest_compaction [of es] by auto
  have cn: "list_all entry_norm (es @ [CompactionEntry ?cid ?p 0])"
    using ledger(2) cpos payload_norm [OF prep(1) pos pos' s att'] by simp
  have rn: "runtime_norm (rs\<lparr>rs_head := Some ?cid\<rparr>)" using ledger(3) cpos by (simp add: runtime_norm_def)
  have ids: "ids_increase (es @ [CompactionEntry ?cid ?p 0])" using inc le by (simp add: ids_increase_def sorted_wrt_append)
  have rv: "runtime_valid (rs\<lparr>rs_head := Some ?cid\<rparr>)" using rs(2) by (simp add: runtime_valid_def)
  from compaction_projects [OF ledger(2) inc pe prep(1,2) prev s att' le refl _ rv, of 0]
  have "projectAgentLedger (map entry_jv (es @ [CompactionEntry ?cid ?p 0])) (runtime_state_jv (rs\<lparr>rs_head := Some ?cid\<rparr>))
    = Inr \<lparr>throughEntryId = Some ?cid, activeEntryCount = length (rp_tailEntries prep), permanentEntryCount = Suc (length es),
     proj_snapshot = snapshot_of (head_messages (Some (?cid, ?p)) @ map entry_message (rp_tailEntries prep)) (rs\<lparr>rs_head := Some ?cid\<rparr>)\<rparr>"
    by (simp only: projectAgentLedger_typed [OF cn rn] assertStrictlyIncreasingIds_Inr [THEN iffD2, OF ids] bindE_simps) simp
  then show ?thesis using head by (simp only: candidate_of_def option.case) (auto simp: snapshot_of_def)
qed

lemma validated_valid:
  assumes "validated_summary raw m split = Inr (Inr (s, tokens), r)"
  shows "\<exists>t. validateCompactionSummary t m split = Inr (Inr (s, tokens))"
proof (cases "validateCompactionSummary raw m split")
  case (Inr v)
  show ?thesis
  proof (cases "v = Inl TokenLimit")
    case True
    with assms Inr show ?thesis
      by (cases "repairOversizedCompactionSummary raw m split")
        (auto simp: validated_summary_def lift_limit_def bindE_Inr_iff split: if_splits option.splits sum.splits)
  next
    case False
    with assms Inr show ?thesis by (auto simp: validated_summary_def lift_limit_def)
  qed
qed (use assms in \<open>simp add: validated_summary_def lift_limit_def\<close>)

lemma from_raw_cases:
  assumes "candidate_from_raw env es rs prep maxTokens attention raw = Inr c"
  obtains (cancelled) reason where "c = CandidateCancelled reason"
    | (rejected) fault r where "c = CandidateInvalid (SummaryRejected fault) r"
    | (made) t s tokens r where "validateCompactionSummary t
          (case maxTokens of None \<Rightarrow> default_compaction_summary_max_tokens | Some n \<Rightarrow> n) (rp_isSplitTurn prep) = Inr (Inr (s, tokens))"
        "c = candidate_of es rs prep (candidate_payload prep s attention) tokens r"
proof (cases "env_aborted env 3")
  case True
  with assms have "c = CandidateCancelled (js ''aborted'')" by (simp add: candidate_from_raw_def)
  then show ?thesis by (rule cancelled)
next
  case False
  let ?max = "case maxTokens of None \<Rightarrow> default_compaction_summary_max_tokens | Some n \<Rightarrow> n"
  obtain v r where v: "validated_summary raw ?max (rp_isSplitTurn prep) = (Inr (v, r) :: 'a compaction_failure + _)"
    using assms False by (auto simp: candidate_from_raw_def bindE_Inr_iff)
  show ?thesis
  proof (cases v)
    case (Inl fault)
    with assms False v have "c = CandidateInvalid (SummaryRejected fault) r" by (simp add: candidate_from_raw_def)
    then show ?thesis by (rule rejected)
  next
    case (Inr p)
    then obtain s tokens where p: "v = Inr (s, tokens)" by (cases p) simp
    obtain t where "validateCompactionSummary t ?max (rp_isSplitTurn prep) = Inr (Inr (s, tokens))"
      using validated_valid v unfolding p by blast
    moreover have "c = candidate_of es rs prep (candidate_payload prep s attention) tokens r"
      using assms False v p by (simp add: candidate_from_raw_def)
    ultimately show ?thesis by (rule made)
  qed
qed

lemma created_from_raw:
  assumes "createCompactionCandidate env es rs prep maxTokens attention = Inr c" "\<nexists>reason. c = CandidateCancelled reason"
  shows "\<exists>raw. candidate_from_raw env es rs prep maxTokens attention raw = Inr c"
  using assms by (auto simp: createCompactionCandidate_def bindE_Inr_iff split: before_result.splits if_splits option.splits)

text \<open>C16. From a ledger that projects and a preparation made from it, whatever the summarizer, the hooks
  and the abort signal do, a candidate is never rejected for its projection.  When it is ready its summary
  parses into the prescribed sections within the token limit, and the ledger with the new entry projects
  to the summary, the attention state and exactly the messages of the tail.\<close>

theorem candidate_always_projects:
  assumes ledger: "projectAgentLedger (map entry_jv es) (runtime_state_jv rs) = Inr pr" "list_all entry_norm es" "runtime_norm rs"
    and prep: "prepareCompaction i = Inr (Some (Ready prep))" "ci_entries i = es" "ci_latestProjection i = pr"
      "ci_previousCompaction i \<in> {None, findLatestCompaction es}"
    and c: "createCompactionCandidate env es rs prep maxTokens None = Inr c"
  shows "case c of
      CandidateCancelled _ \<Rightarrow> True
    | CandidateInvalid fault _ \<Rightarrow> fault \<noteq> CandidateProjectionInvalid
    | CandidateReady payload projection tokens _ \<Rightarrow>
        (\<exists>sections. parseSummary (summary payload) (rp_isSplitTurn prep) = Inr sections)
        \<and> tokens = estimateCompactionTextTokens (summary payload)
        \<and> tokens \<le> (case maxTokens of None \<Rightarrow> default_compaction_summary_max_tokens | Some n \<Rightarrow> n)
        \<and> (\<exists>cid. ps_messages (proj_snapshot projection)
             = head_messages (Some (cid, payload)) @ map entry_message (rp_tailEntries prep))"
proof -
  let ?max = "case maxTokens of None \<Rightarrow> default_compaction_summary_max_tokens | Some n \<Rightarrow> n"
  show ?thesis
  proof (cases "\<exists>reason. c = CandidateCancelled reason")
    case False
    then obtain raw where "candidate_from_raw env es rs prep maxTokens None raw = Inr c" using created_from_raw [OF c] by blast
    then show ?thesis
    proof (cases rule: from_raw_cases)
      case (made t s tokens r)
      then have v: "s = trim s" "s \<noteq> []" "\<exists>p. parseSummary s (rp_isSplitTurn prep) = Inr p"
        "tokens = estimateCompactionTextTokens s" "tokens \<le> ?max"
        by (auto simp: validate_ok)
      then have "\<not> blank s" by (simp add: blank_def)
      from candidate_of_projects [OF ledger prep this, of None tokens r] v made(2)
      show ?thesis by (auto simp: candidate_payload_def)
    qed simp_all
  qed auto
qed

definition sample_summary :: parsed_summary where
  "sample_summary = \<lparr>ps_sections = map (\<lambda>h. (h, [120])) compaction_summary_headings, ps_splitTurnPrefix = None\<rparr>"

lemma sample_summary_ok:
  "map fst (ps_sections sample_summary) = compaction_summary_headings" "\<forall>(h, b) \<in> set (ps_sections sample_summary). body_ok b"
  "ps_splitTurnPrefix sample_summary = None" "index_of split_open_pattern (renderParsedSummary sample_summary) = None"
proof -
  have "body_ok [120]" by (simp add: body_ok_def trim_def trim_end_def is_space_def is_heading_like_def starts_with_def)
  then show "\<forall>(h, b) \<in> set (ps_sections sample_summary). body_ok b" by (auto simp: sample_summary_def)
  show "index_of split_open_pattern (renderParsedSummary sample_summary) = None"
    by (simp add: sample_summary_def renderParsedSummary_def compaction_summary_headings_def split_open_pattern_def starts_with_def)
qed (simp_all add: sample_summary_def comp_def)

lemma code_points_length: "length (code_points s) \<le> length s"
  by (induction s rule: code_points.induct) auto

lemma byte_length_le: "byte_length s \<le> 4 * length s"
proof -
  have "sum_list (map (\<lambda>c. length (utf8 c)) cs) \<le> 4 * length cs" for cs
    by (induction cs) (auto simp: utf8_def)
  from order_trans [OF this, of "code_points s"] code_points_length [of s] show ?thesis by (simp add: byte_length_def)
qed

lemma text_tokens_length: "estimateCompactionTextTokens s \<le> max 1 (int (length s))"
proof -
  have "int (byte_length s) \<le> 4 * int (length s)" using byte_length_le [of s] by linarith
  then have "(3 + int (byte_length s)) div 4 \<le> int (length s)" by presburger
  then show ?thesis by (simp add: estimateCompactionTextTokens_def ceil_div_def le_max_iff_disj Suc_le_eq)
qed

lemma sample_summary_valid:
  "validateCompactionSummary (renderParsedSummary sample_summary) 1000 False
   = Inr (Inr (renderParsedSummary sample_summary, estimateCompactionTextTokens (renderParsedSummary sample_summary)))"
proof -
  have t: "trim (renderParsedSummary sample_summary) = renderParsedSummary sample_summary"
    by (simp add: sample_summary_def renderParsedSummary_def compaction_summary_headings_def trim_def trim_end_def is_space_def)
  have ne: "renderParsedSummary sample_summary \<noteq> []"
    by (simp add: sample_summary_def renderParsedSummary_def compaction_summary_headings_def)
  have "length (renderParsedSummary sample_summary) \<le> 1000"
    by (simp add: sample_summary_def renderParsedSummary_def compaction_summary_headings_def)
  then have "estimateCompactionTextTokens (renderParsedSummary sample_summary) \<le> 1000"
    using text_tokens_length [of "renderParsedSummary sample_summary"] by simp
  then show ?thesis
    using render_parse [OF sample_summary_ok]
    by (simp add: validate_ok t ne max_tokens_ok_def safe_int_def max_safe_def)
qed

definition sample_env :: "unit compaction_env" where
  "sample_env = \<lparr>env_beforeCompact = Some (\<lambda>_. Inr (UseSummary (renderParsedSummary sample_summary))),
     env_summarize = (\<lambda>_. Inl ()), env_aborted = (\<lambda>_. False)\<rparr>"

theorem candidate_always_projects_witness:
  "\<exists>pr payload projection tokens r cid.
     prepareCompaction (sample_input pr) = Inr (Some (Ready (sample_prep pr)))
     \<and> createCompactionCandidate sample_env sample_history (sample_runtime (Some 4)) (sample_prep pr) (Some 1000) None
       = Inr (CandidateReady payload projection tokens r)
     \<and> ps_messages (proj_snapshot projection) = head_messages (Some (cid, payload)) @ [UserMsg (js ''more'')]"
proof -
  obtain pr where pr: "projectAgentLedger (map entry_jv sample_history) (runtime_state_jv (sample_runtime (Some 4))) = Inr pr"
      "throughEntryId pr = Some 4"
    using sample_history_projects by blast
  note prep = sample_prepares [OF pr(2)]
  have r: "runtime_norm (sample_runtime (Some 4))" using sample_norm(3) by (simp add: runtime_norm_def sample_runtime_def)
  have i: "ci_entries (sample_input pr) = sample_history" "ci_latestProjection (sample_input pr) = pr"
    "ci_previousCompaction (sample_input pr) \<in> {None, findLatestCompaction sample_history}"
    by (simp_all add: sample_input_def)
  have s: "\<not> blank (renderParsedSummary sample_summary)"
    using sample_summary_valid by (auto simp: validate_ok blank_def)
  have made: "createCompactionCandidate sample_env sample_history (sample_runtime (Some 4)) (sample_prep pr) (Some 1000) None
    = Inr (candidate_of sample_history (sample_runtime (Some 4)) (sample_prep pr)
        (candidate_payload (sample_prep pr) (renderParsedSummary sample_summary) None)
        (estimateCompactionTextTokens (renderParsedSummary sample_summary)) 0)"
    by (simp add: createCompactionCandidate_def runBeforeCompactHook_def lift_thrown_def sample_env_def candidate_from_raw_def
        validated_summary_def lift_limit_def sample_summary_valid sample_prep_def)
  with candidate_of_projects [OF pr(1) sample_history_norm(1) r prep i s, of None]
    candidate_always_projects [OF pr(1) sample_history_norm(1) r prep i made]
  show ?thesis
    using prep by (simp add: sample_prep_def sample_history_def) blast
qed

definition attention_before :: attention_state where
  "attention_before = [(js ''qq:10001:private:7'', \<lparr>disclosed = 5, handled = 0, highPriority = None\<rparr>)]"

definition attention_payload :: compaction_payload where
  "attention_payload = \<lparr>summary = js ''s'', firstKeptEntryId = None, tokensBefore = 1, estimatedTokensAfter = 1,
       creason = BehavioralReset, isSplitTurn = False, previousCompactionEntryId = None,
       mailboxAttentionState = attention_before\<rparr>"

definition attention_history :: "ledger_entry list" where
  "attention_history = [MessageEntry 1 (UserMsg (js ''hello'')) 0, CompactionEntry 2 attention_payload 0,
     MessageEntry 3 (AssistantMsg (js ''x'') [] None) 0]"

definition reset_input :: "ledger_projection \<Rightarrow> compaction_input" where
  "reset_input pr = \<lparr>ci_entries = attention_history, ci_latestProjection = pr, ci_previousCompaction = None,
     ci_contextTokens = 100, ci_contextWindowTokens = 50, ci_reserveTokens = 0, ci_keepRecentTokens = 0,
     ci_reason = BehavioralReset\<rparr>"

lemma attention_history_norm: "list_all entry_norm attention_history" "ids_increase attention_history" "last_id attention_history = Some 3"
proof -
  have "\<not> blank (js ''s'')" by (simp add: blank_iff is_space_def js_def)
  moreover have "is_mailbox_key (js ''qq:10001:private:7'')" by code_simp
  ultimately have "compaction_norm attention_payload"
    by (simp add: attention_payload_def compaction_norm_def id_norm_def bounded_def max_safe_def attention_norm_def
        attention_before_def cursor_norm_def)
  then show "list_all entry_norm attention_history" by (simp add: attention_history_def)
qed (simp_all add: attention_history_def ids_increase_def last_id_def)

text \<open>The attention that the head of a projection stands for is the one its compaction recorded.\<close>

lemma atom_head: "parse_atom (21382 # r) = None"
  by (simp add: parse_atom_def parse_number_def starts_with_def js_def digits_of_def is_digit_def Let_def)

lemma summary_unparsed: "parseJsonObject (history_summary_prefix @ s) = None"
proof -
  obtain n where n: "2 * length (history_summary_prefix @ s) + 2 = Suc (Suc (Suc n))"
    by (simp add: history_summary_prefix_def)
  have "parse_value (Suc (Suc (Suc n))) (history_summary_prefix @ s) = None"
    by (simp add: history_summary_prefix_def skip_space_def json_space_def atom_head)
  then show ?thesis unfolding parseJsonObject_def json_parse_def n by simp
qed

lemma head_attention:
  assumes "captured_form (mailboxAttentionState p)"
  shows "messages_attention (head_messages (Some (i, p)) @ ms) = sup (attention_at (mailboxAttentionState p)) (messages_attention ms)"
proof -
  have s: "messages_attention (renderSummaryMessage p # ns) = messages_attention ns" for ns
    by (simp add: messages_attention_def renderSummaryMessage_def summary_unparsed attention_sum_def sup_bot_left del: bot_apply)
  have e: "attention_at [] = bot" by (simp add: attention_at_def fun_eq_iff)
  show ?thesis
    using messages_attention_marker [OF assms, of ms]
    by (cases "mailboxAttentionState p = []")
      (simp_all add: head_messages_def s renderMachineStateMessages_def render_attention_state [OF assms] e)
qed

lemma silent_attention:
  "\<forall>m \<in> set ms. k \<notin> fst ` set (message_cursors m) \<Longrightarrow> messages_attention ms k = bot"
  by (induction ms) (simp_all add: messages_attention_def attention_sum_absent)

lemma captured_at:
  assumes "captured_form st" "map_of st k = Some c"
  shows "is_mailbox_key k" "int (att_disclosed (attention_at st k)) = disclosed c" "int (att_handled (attention_at st k)) = handled c"
proof -
  have "valid_entry (k, c)" using assms by (auto simp: captured_form_def dest: map_of_SomeD)
  then show "is_mailbox_key k" "int (att_disclosed (attention_at st k)) = disclosed c" "int (att_handled (attention_at st k)) = handled c"
    using assms(2) by (simp_all add: valid_entry_def valid_cursor_def attention_at_def abs_cursor_def)
qed

lemma ready_candidate:
  assumes ledger: "projectAgentLedger (map entry_jv es) (runtime_state_jv rs) = Inr pr" "list_all entry_norm es" "runtime_norm rs"
    and prep: "prepareCompaction i = Inr (Some (Ready prep))" "ci_entries i = es" "ci_latestProjection i = pr"
      "ci_previousCompaction i \<in> {None, findLatestCompaction es}"
    and cand: "createCompactionCandidate env es rs prep maxTokens None = Inr (CandidateReady payload projection tokens n)"
  obtains cid where "mailboxAttentionState payload = captureMailboxAttentionState (map entry_message (rp_entriesToSummarize prep))"
    and "ps_messages (proj_snapshot projection) = head_messages (Some (cid, payload)) @ map entry_message (rp_tailEntries prep)"
proof -
  obtain raw where "candidate_from_raw env es rs prep maxTokens None raw = Inr (CandidateReady payload projection tokens n)"
    using created_from_raw [OF cand] by blast
  then show ?thesis
  proof (cases rule: from_raw_cases)
    case (made t s tokens' r)
    then have "\<not> blank s" by (auto simp: validate_ok blank_def)
    from candidate_of_projects [OF ledger prep this, of None tokens' r] made(2)
    obtain cid where "payload = candidate_payload prep s None"
      "ps_messages (proj_snapshot projection) = head_messages (Some (cid, payload)) @ map entry_message (rp_tailEntries prep)"
      by auto
    then show ?thesis using that by (simp add: candidate_payload_def)
  qed simp_all
qed

text \<open>C17. The attention recorded by an earlier compaction is not carried over by the next one.  Let the
  latest compaction of a ledger that projects have recorded a cursor for a mailbox, and let no message
  kept since say anything of that mailbox.  Then the context shows the recorded rows as pending exactly
  when the cursor says so; but whatever the summarizer and the hooks do, a ready candidate for the next
  compaction, made as the coordinator makes it, records nothing for that mailbox, and in the context it
  leads to no row of that mailbox is pending.\<close>

theorem attention_not_carried_over:
  assumes ledger: "projectAgentLedger (map entry_jv es) (runtime_state_jv rs) = Inr pr" "list_all entry_norm es" "runtime_norm rs"
    and prep: "prepareCompaction i = Inr (Some (Ready prep))" "ci_entries i = es" "ci_latestProjection i = pr"
      "ci_previousCompaction i \<in> {None, findLatestCompaction es}"
    and earlier: "findLatestCompaction es = Some (CompactionEntry cid p t)"
      "mailboxAttentionState p = captureMailboxAttentionState old" "map_of (mailboxAttentionState p) k = Some c"
    and silent: "\<forall>e \<in> set (rp_entriesToSummarize prep @ rp_tailEntries prep). k \<notin> fst ` set (message_cursors (entry_message e))"
    and cand: "createCompactionCandidate env es rs prep maxTokens None = Inr (CandidateReady payload projection tokens n)"
  shows "findPendingMailboxThroughRowId (ps_messages (proj_snapshot pr)) k
      = Inr (if handled c < disclosed c then Some (disclosed c) else None)
    \<and> map_of (mailboxAttentionState payload) k = None
    \<and> findPendingMailboxThroughRowId (ps_messages (proj_snapshot projection)) k = Inr None"
proof -
  have pe: "project_entries es rs = Inr pr" using ledger(1) by (auto simp: projectAgentLedger_typed [OF ledger(2,3)] bindE_Inr_iff)
  have prev: "effective_previous i = findLatestCompaction es"
    using prep(2,4) by (auto simp: effective_previous_def split: option.splits)
  obtain latest act where la: "validateCompactionChain es = Inr latest" "selectActiveMessages es latest = Inr act"
      "ps_messages (proj_snapshot pr) = head_messages latest @ act"
    using pe by (auto simp: project_entries_Inr [OF ledger(2)] snapshot_of_def)
  have latest: "latest = Some (cid, p)"
    using chain_latest [of None es latest] la(1) earlier(1) by (auto simp: validateCompactionChain_def)
  have act: "act = map entry_message (rp_entriesToSummarize prep @ rp_tailEntries prep)"
    using active_messages [OF la(1,2)] ready_partition(1) [OF prep(1)] by (simp add: active_entries_def prev prep(2))
  have form: "captured_form (mailboxAttentionState p)" using earlier(2) capture_form by simp
  note at = captured_at [OF form earlier(3)]
  have quiet: "messages_attention (map entry_message es') k = bot" if "set es' \<subseteq> set (rp_entriesToSummarize prep @ rp_tailEntries prep)" for es'
    using silent that by (intro silent_attention) auto
  have "messages_attention (ps_messages (proj_snapshot pr)) k = attention_at (mailboxAttentionState p) k"
    unfolding la(3) latest head_attention [OF form] act using quiet [of "rp_entriesToSummarize prep @ rp_tailEntries prep"] by simp
  then have before: "findPendingMailboxThroughRowId (ps_messages (proj_snapshot pr)) k
      = Inr (if handled c < disclosed c then Some (disclosed c) else None)"
    using at by (simp add: findPending_spec)
  obtain cid' where pl: "mailboxAttentionState payload = captureMailboxAttentionState (map entry_message (rp_entriesToSummarize prep))"
    and msgs: "ps_messages (proj_snapshot projection) = head_messages (Some (cid', payload)) @ map entry_message (rp_tailEntries prep)"
    by (rule ready_candidate [OF ledger prep cand])
  have form': "captured_form (mailboxAttentionState payload)" using pl capture_form by simp
  have none: "attention_at (mailboxAttentionState payload) k = bot"
    unfolding pl capture_attention by (rule quiet) auto
  have "map_of (mailboxAttentionState payload) k = None"
  proof (rule ccontr)
    assume "map_of (mailboxAttentionState payload) k \<noteq> None"
    then obtain d where d: "map_of (mailboxAttentionState payload) k = Some d" by blast
    then have "valid_cursor d \<and> nonzero d" using form' by (auto simp: captured_form_def valid_entry_def dest!: map_of_SomeD)
    then show False using none d nonzero_abs [of d] by (simp add: attention_at_def)
  qed
  moreover have "messages_attention (ps_messages (proj_snapshot projection)) k = bot"
    unfolding msgs head_attention [OF form'] using none quiet [of "rp_tailEntries prep"] by simp
  then have "findPendingMailboxThroughRowId (ps_messages (proj_snapshot projection)) k = Inr None"
    using at(1) by (simp add: findPending_spec bot_attn_def)
  ultimately show ?thesis using before by blast
qed

lemma attention_captured:
  "attention_before = captureMailboxAttentionState [UserMsg (stringify (attention_marker_jv attention_before))]"
proof -
  have "is_mailbox_key (js ''qq:10001:private:7'')" by code_simp
  then have f: "captured_form attention_before"
    by (simp add: captured_form_def attention_before_def valid_entry_def valid_cursor_def nonzero_def max_safe_def)
  have e: "messages_attention [] = bot" by (simp add: messages_attention_def)
  show ?thesis
    by (rule captured_form_eqI [OF f capture_form]) (simp only: capture_attention messages_attention_marker [OF f] e sup_bot_right)
qed

theorem attention_not_carried_over_witness:
  "\<exists>pr prep payload projection tokens n.
     projectAgentLedger (map entry_jv attention_history) (runtime_state_jv (sample_runtime (Some 3))) = Inr pr
     \<and> prepareCompaction (reset_input pr) = Inr (Some (Ready prep))
     \<and> createCompactionCandidate sample_env attention_history (sample_runtime (Some 3)) prep (Some 1000) None
       = Inr (CandidateReady payload projection tokens n)
     \<and> findPendingMailboxThroughRowId (ps_messages (proj_snapshot pr)) (js ''qq:10001:private:7'') = Inr (Some 5)
     \<and> findPendingMailboxThroughRowId (ps_messages (proj_snapshot projection)) (js ''qq:10001:private:7'') = Inr None"
proof -
  note norm = attention_history_norm
  have "\<exists>pr. project_entries attention_history (sample_runtime (Some 3)) = Inr pr \<and> throughEntryId pr = Some 3"
    using sample_valid [of "Some 3"]
    by (simp only: project_entries_Inr [OF norm(1)] norm(3))
      (simp add: attention_history_def sample_runtime_def legal_history_iff validateCompactionChain_def
        selectActiveMessages_def attention_payload_def keeps_def snapshot_of_def)
  then obtain pr where pr: "project_entries attention_history (sample_runtime (Some 3)) = Inr pr" "throughEntryId pr = Some 3"
    by blast
  have pj: "projectAgentLedger (map entry_jv attention_history) (runtime_state_jv (sample_runtime (Some 3))) = Inr pr"
    using norm(2) pr(1) by (simp add: projectAgentLedger_typed [OF norm(1) sample_norm(3)] assertStrictlyIncreasingIds_Inr [THEN iffD2])
  let ?e = "MessageEntry 3 (AssistantMsg (js ''x'') [] None) 0"
  let ?prep = "ready_reset (reset_input pr) (Some (CompactionEntry 2 attention_payload 0)) [atomic_unit_of entry_message entry_tokens [?e]]"
  have active: "selectActiveMessageEntries attention_history (Some (CompactionEntry 2 attention_payload 0)) = [?e]"
    by (simp add: selectActiveMessageEntries_def attention_history_def attention_payload_def keeps_def)
  have latest: "findLatestCompaction attention_history = Some (CompactionEntry 2 attention_payload 0)"
    by (simp add: findLatestCompaction_def attention_history_def)
  have prep: "prepareCompaction (reset_input pr) = Inr (Some (Ready ?prep))"
    using pr(2) by (simp add: prepareCompaction_def reset_input_def validatePreparationNumbers_def count_ok_def safe_int_def max_safe_def Let_def
        norm(3) active latest)
  have i: "ci_entries (reset_input pr) = attention_history" "ci_latestProjection (reset_input pr) = pr"
    "ci_previousCompaction (reset_input pr) \<in> {None, findLatestCompaction attention_history}"
    by (simp_all add: reset_input_def)
  have s: "\<not> blank (renderParsedSummary sample_summary)" using sample_summary_valid by (auto simp: validate_ok blank_def)
  have made: "createCompactionCandidate sample_env attention_history (sample_runtime (Some 3)) ?prep (Some 1000) None
    = Inr (candidate_of attention_history (sample_runtime (Some 3)) ?prep (candidate_payload ?prep (renderParsedSummary sample_summary) None)
        (estimateCompactionTextTokens (renderParsedSummary sample_summary)) 0)"
    by (simp add: createCompactionCandidate_def runBeforeCompactHook_def lift_thrown_def sample_env_def candidate_from_raw_def
        validated_summary_def lift_limit_def sample_summary_valid ready_reset_def)
  obtain payload projection tokens n where cand:
    "createCompactionCandidate sample_env attention_history (sample_runtime (Some 3)) ?prep (Some 1000) None
      = Inr (CandidateReady payload projection tokens n)"
    using candidate_of_projects [OF pj norm(1) sample_norm(3) prep i s, of None "estimateCompactionTextTokens (renderParsedSummary sample_summary)" 0]
    unfolding made by blast
  have att: "mailboxAttentionState attention_payload = captureMailboxAttentionState [UserMsg (stringify (attention_marker_jv attention_before))]"
    using attention_captured by (simp add: attention_payload_def)
  have cur: "map_of (mailboxAttentionState attention_payload) (js ''qq:10001:private:7'') = Some \<lparr>disclosed = 5, handled = 0, highPriority = None\<rparr>"
    by (simp add: attention_payload_def attention_before_def)
  have silent: "\<forall>e \<in> set (rp_entriesToSummarize ?prep @ rp_tailEntries ?prep). js ''qq:10001:private:7'' \<notin> fst ` set (message_cursors (entry_message e))"
    by (simp add: ready_reset_def items_of_def atomic_unit_of_def)
  from attention_not_carried_over [OF pj norm(1) sample_norm(3) prep i latest att cur silent cand] pj prep cand
  show ?thesis by (intro exI [of _ pr] exI [of _ ?prep] exI [of _ payload] exI [of _ projection] exI [of _ tokens] exI [of _ n]) simp
qed

section \<open>Summaries\<close>



section \<open>Estimates and the transcript\<close>

text \<open>With a prefix counted by the provider, the estimate of the context is that count plus the estimates
  of exactly the entries after the prefix, never beyond the largest safe integer.\<close>

theorem context_estimate_after_prefix:
  assumes "sorted_wrt (<) (map entry_id (xs @ ys))" "xs \<noteq> []" "0 < entry_id (last xs)" "0 \<le> n" "n \<le> max_safe"
  shows "estimateLedgerContextTokens (xs @ ys) (Some \<lparr>pp_throughEntryId = Some (entry_id (last xs)), pp_inputTokens = n\<rparr>)
    = Inr \<lparr>ce_tokens = min max_safe (n + sum_list (map (\<lambda>e. ee_tokens (estimateEntryTokens e)) ys)),
           ce_source = ProviderPrefix, ce_estimatedEntryIds = map entry_id ys, ce_entries = map estimateEntryTokens ys\<rparr>"
  by (rule estimate_context_prefix [OF assms])

theorem context_estimate_after_prefix_witness:
  "\<exists>r. estimateLedgerContextTokens (take 3 sample_history @ drop 3 sample_history)
     (Some \<lparr>pp_throughEntryId = Some (entry_id (last (take 3 sample_history))), pp_inputTokens = 7\<rparr>) = Inr r
     \<and> ce_estimatedEntryIds r = [4]"
proof -
  have "sorted_wrt (<) (map entry_id (take 3 sample_history @ drop 3 sample_history))" "take 3 sample_history \<noteq> []"
    "0 < entry_id (last (take 3 sample_history))" "0 \<le> (7 :: int)" "7 \<le> max_safe"
    by (simp_all add: sample_history_def max_safe_def)
  from context_estimate_after_prefix [OF this] show ?thesis by (simp add: sample_history_def)
qed

text \<open>C19. The transcript handed to a summarizer is never longer than its limit (at least 160 characters), and
  whatever the messages contain it consists of the header line, the warning, one line per message
  that is a JSON object, at most one marker of omitted messages and the footer: no message can
  close the envelope or add a line to it.\<close>

theorem transcript_is_sealed:
  "int (length (renderUntrustedTranscript p s ms maxChars)) \<le> max 160 maxChars
   \<and> (\<exists>b k marker. split_lines (renderUntrustedTranscript p s ms maxChars)
     = [envelope_header p s b, data_warning] @ map (\<lambda>m. fst (renderDataMessage m)) (take k ms) @ marker @ [footer]
   \<and> list_all data_line (map (\<lambda>m. fst (renderDataMessage m)) (take k ms) @ marker) \<and> length marker \<le> 1)"
  using transcript_bounded transcript_lines by blast

end
