(* ===== verification/Ledger_Loader.thy ===== *)
theory Ledger_Loader
  imports Ledger_Repo_Log Js_Date Text_Encoding
begin

text \<open>
  \<open>src/agent/agent-ledger-loader.ts\<close>: loading the ledger at start-up.  The canonical state is always
  projected first; a checkpoint is used only when its head and its fingerprint are those of the canonical
  state and the projection it holds prints as the canonical one, and it is written anew otherwise.
  The digest (SHA-256) is the parameter \<open>sha\<close>.
\<close>

definition agent_checkpoint_schema_version :: int where
  "agent_checkpoint_schema_version = 1"

datatype checkpoint_status = Hit | Missing | Stale | Corrupt

text \<open>A projection as it is returned: the snapshot of a cached one is the JSON read.\<close>

record loaded_projection =
  lp_throughEntryId :: "int option"
  lp_activeEntryCount :: int
  lp_permanentEntryCount :: int
  lp_snapshot :: jv

record loaded_ledger =
  ll_projection :: loaded_projection
  ll_runtimeState :: runtime_state
  ll_checkpointStatus :: checkpoint_status

definition canonical_projection :: "ledger_projection \<Rightarrow> loaded_projection" where
  "canonical_projection pr = \<lparr>lp_throughEntryId = throughEntryId pr, lp_activeEntryCount = int (activeEntryCount pr),
     lp_permanentEntryCount = int (permanentEntryCount pr), lp_snapshot = snapshot_jv (proj_snapshot pr)\<rparr>"

section \<open>The fingerprint\<close>

definition stableStringify :: "jv \<Rightarrow> jstr" where
  "stableStringify v = stringify (sortJson v)"

fun fingerprint_entry :: "ledger_entry \<Rightarrow> jv" where
  "fingerprint_entry (MessageEntry i m t) = JObj [(js ''id'', JStr (dec_of_int i)), (js ''entryType'', JStr (js ''message'')),
     (js ''payload'', message_payload_jv m), (js ''createdAt'', JStr (to_iso_string t))]"
| "fingerprint_entry (CompactionEntry i p t) = JObj [(js ''id'', JStr (dec_of_int i)), (js ''entryType'', JStr (js ''compaction'')),
     (js ''payload'', compaction_payload_jv p), (js ''createdAt'', JStr (to_iso_string t))]"

definition fingerprint_state :: "runtime_state \<Rightarrow> jv" where
  "fingerprint_state s = JObj [(js ''schemaVersion'', jint agent_runtime_state_schema_version),
     (js ''mailboxCursors'', JObj (rs_mailboxCursors s)),
     (js ''inboxReadCursors'', read_cursors_jv (rs_inboxReadCursors s)),
     (js ''mailboxContinuity'', JObj (rs_mailboxContinuity s)),
     (js ''conversationFocus'', focus_jv (rs_focus s)),
     (js ''lastWakeAt'', null_or (\<lambda>t. JStr (to_iso_string t)) (rs_lastWakeAt s)),
     (js ''ledgerHeadEntryId'', null_or (\<lambda>i. JStr (dec_of_int i)) (rs_head s))]"

definition fingerprintCanonicalAgentState :: "(jstr \<Rightarrow> jstr) \<Rightarrow> canonical_state \<Rightarrow> jstr" where
  "fingerprintCanonicalAgentState sha c =
     sha (stableStringify (JObj [(js ''entries'', JArr (map fingerprint_entry (cn_entries c))),
       (js ''runtimeState'', fingerprint_state (cn_runtimeState c))]))"

section \<open>Checkpoints\<close>

definition has_exact_keys :: "jobj \<Rightarrow> jstr list \<Rightarrow> bool" where
  "has_exact_keys ps expected \<longleftrightarrow> length (obj_keys ps) = length expected \<and> list_all (obj_has ps) expected"

definition checkpointProjectionPayload :: "loaded_projection \<Rightarrow> jv" where
  "checkpointProjectionPayload p = JObj [(js ''snapshot'', lp_snapshot p), (js ''activeEntryCount'', jint (lp_activeEntryCount p)),
     (js ''permanentEntryCount'', jint (lp_permanentEntryCount p))]"

definition isPersistedSnapshot :: "jv \<Rightarrow> bool" where
  "isPersistedSnapshot v = (case as_record v of
     None \<Rightarrow> False
   | Some ps \<Rightarrow> has_exact_keys ps [js ''schemaVersion'', js ''messages'', js ''conversationFocus'']
       \<and> obj_get ps (js ''schemaVersion'') = jint snapshot_schema_version
       \<and> as_array (obj_get ps (js ''messages'')) \<noteq> None)"

definition parseCheckpointProjection :: "jv \<Rightarrow> int option \<Rightarrow> runtime_state \<Rightarrow> loaded_projection option" where
  "parseCheckpointProjection v through rs =
     (case as_record v of
        None \<Rightarrow> None
      | Some ps \<Rightarrow>
          if \<not> has_exact_keys ps [js ''snapshot'', js ''activeEntryCount'', js ''permanentEntryCount''] then None
          else if \<not> isNonNegativeSafeInteger (obj_get ps (js ''activeEntryCount'')) then None
          else if \<not> isNonNegativeSafeInteger (obj_get ps (js ''permanentEntryCount'')) then None
          else if \<not> isPersistedSnapshot (obj_get ps (js ''snapshot'')) then None
          else if \<not> ir_ok (validateBotSnapshotIntegrity (obj_get ps (js ''snapshot'')) (JObj (rs_mailboxCursors rs))
                 (JObj (rs_mailboxContinuity rs))) then None
          else Some \<lparr>lp_throughEntryId = through, lp_activeEntryCount = num_of (obj_get ps (js ''activeEntryCount'')),
                 lp_permanentEntryCount = num_of (obj_get ps (js ''permanentEntryCount'')),
                 lp_snapshot = obj_get ps (js ''snapshot'')\<rparr>)"

definition projectionsMatch :: "loaded_projection \<Rightarrow> loaded_projection \<Rightarrow> bool" where
  "projectionsMatch l r \<longleftrightarrow> lp_throughEntryId l = lp_throughEntryId r \<and> lp_activeEntryCount l = lp_activeEntryCount r
     \<and> lp_permanentEntryCount l = lp_permanentEntryCount r
     \<and> stringify (lp_snapshot l) = stringify (lp_snapshot r)"

section \<open>Loading\<close>

datatype load_error = LoadFailed repo_error | ProjectFailed ledger_error

text \<open>Errors of the save are swallowed.\<close>

definition saveCheckpointBestEffort :: "(jv \<Rightarrow> jv) \<Rightarrow> loaded_projection \<Rightarrow> jstr \<Rightarrow> ledger_db \<Rightarrow> ledger_db" where
  "saveCheckpointBestEffort col p fingerprint db =
     snd (saveCheckpoint col \<lparr>cr_schemaVersion = agent_checkpoint_schema_version, cr_throughEntryId = lp_throughEntryId p,
        cr_fingerprint = fingerprint, cr_projection = checkpointProjectionPayload p\<rparr> db)"

text \<open>The cached projection when it may be used, and the status otherwise.\<close>

definition try_checkpoint :: "repo_error + checkpoint_row option \<Rightarrow> loaded_projection \<Rightarrow> jstr \<Rightarrow> runtime_state
    \<Rightarrow> checkpoint_status + loaded_projection" where
  "try_checkpoint read canonical fingerprint rs =
     (case read of
        Inl _ \<Rightarrow> Inl Corrupt
      | Inr None \<Rightarrow> Inl Missing
      | Inr (Some c) \<Rightarrow>
          if cr_schemaVersion c \<noteq> agent_checkpoint_schema_version \<or> cr_throughEntryId c \<noteq> lp_throughEntryId canonical
             \<or> cr_fingerprint c \<noteq> fingerprint then Inl Stale
          else (case parseCheckpointProjection (cr_projection c) (cr_throughEntryId c) rs of
                  None \<Rightarrow> Inl Corrupt
                | Some cached \<Rightarrow> if projectionsMatch cached canonical then Inr cached else Inl Corrupt))"

definition loadLedger :: "(jv \<Rightarrow> jv) \<Rightarrow> (jstr \<Rightarrow> jstr) \<Rightarrow> ledger_db \<Rightarrow> (load_error + loaded_ledger) \<times> ledger_db" where
  "loadLedger col sha db =
     (case loadCanonicalState db of
        (Inl e, db1) \<Rightarrow> (Inl (LoadFailed e), db1)
      | (Inr c, db1) \<Rightarrow>
          (case projectAgentLedger (map entry_jv (cn_entries c)) (runtime_state_jv (cn_runtimeState c)) of
             Inl e \<Rightarrow> (Inl (ProjectFailed e), db1)
           | Inr pr \<Rightarrow>
               (let canonical = canonical_projection pr;
                    fingerprint = fingerprintCanonicalAgentState sha c;
                    (read, db2) = loadCheckpoint db1
                in case try_checkpoint read canonical fingerprint (cn_runtimeState c) of
                     Inr cached \<Rightarrow> (Inr \<lparr>ll_projection = cached, ll_runtimeState = cn_runtimeState c, ll_checkpointStatus = Hit\<rparr>, db2)
                   | Inl status \<Rightarrow>
                       (Inr \<lparr>ll_projection = canonical, ll_runtimeState = cn_runtimeState c, ll_checkpointStatus = status\<rparr>,
                        saveCheckpointBestEffort col canonical fingerprint db2))))"

section \<open>The cache is transparent\<close>

lemma load_checkpoint_db: "snd (loadCheckpoint db) = db"
  by (auto simp: loadCheckpoint_def returnA_def throwA_def split: option.splits)

lemma try_matches: "try_checkpoint read canonical fp rs = Inr cached \<Longrightarrow> projectionsMatch cached canonical"
  by (auto simp: try_checkpoint_def split: sum.splits option.splits if_splits)

lemma projections_match_refl [simp]: "projectionsMatch p p"
  by (simp add: projectionsMatch_def)

lemma load_transparent:
  assumes st: "stored db es rs" and inc: "project_entries es rs = Inr pr"
  obtains p status c' where "loadLedger col sha db
      = (Inr \<lparr>ll_projection = p, ll_runtimeState = rs, ll_checkpointStatus = status\<rparr>, db\<lparr>db_checkpoint := c'\<rparr>)"
    and "projectionsMatch p (canonical_projection pr)"
proof -
  let ?c = "\<lparr>cn_entries = es, cn_runtimeState = rs\<rparr>"
  have ids: "assertStrictlyIncreasingIds es = Inr ()" using st by (simp add: stored_def assertStrictlyIncreasingIds_Inr)
  have proj: "projectAgentLedger (map entry_jv es) (runtime_state_jv rs) = Inr pr"
    by (simp add: projectAgentLedger_typed [OF stored_entry_norm [OF st] stored_runtime_norm [OF st]] ids inc)
  obtain read where read: "loadCheckpoint db = (read, db)" using load_checkpoint_db [of db] by (cases "loadCheckpoint db") simp
  let ?fp = "fingerprintCanonicalAgentState sha ?c"
  have dbid: "db = db\<lparr>db_checkpoint := db_checkpoint db\<rparr>" by simp
  show ?thesis
  proof (cases "try_checkpoint read (canonical_projection pr) ?fp rs")
    case (Inl status)
    obtain c' where "saveCheckpointBestEffort col (canonical_projection pr) ?fp db = db\<lparr>db_checkpoint := c'\<rparr>"
      unfolding saveCheckpointBestEffort_def using save_checkpoint_db by blast
    then show ?thesis
      by (intro that [of "canonical_projection pr" status c']) (simp_all add: loadLedger_def load_stored [OF st] proj read Let_def Inl)
  next
    case (Inr cached)
    show ?thesis
      by (rule that [of cached Hit "db_checkpoint db"])
        (use try_matches [OF Inr] in \<open>simp_all add: loadLedger_def load_stored [OF st] proj read Let_def Inr\<close>)
  qed
qed

section \<open>Columns that give the keys in another order\<close>

text \<open>PostgreSQL's \<open>jsonb\<close> does not preserve the order of object keys.  What matters here is the object of
  the snapshot inside the checkpoint: it is read with its keys in another order than they were written in.\<close>

definition snapshot_keys :: "jstr list" where
  "snapshot_keys = [js ''schemaVersion'', js ''messages'', js ''conversationFocus'']"

definition snapshot_reordered :: "jv \<Rightarrow> bool" where
  "snapshot_reordered v = (case as_record v of None \<Rightarrow> True
     | Some ps \<Rightarrow> (case as_record (obj_get ps (js ''snapshot'')) of None \<Rightarrow> True
        | Some qs \<Rightarrow> obj_keys qs \<noteq> snapshot_keys \<and> list_all (\<lambda>q. snd q \<noteq> JUndef) qs))"

definition jsonb_column :: "(jv \<Rightarrow> jv) \<Rightarrow> bool" where
  "jsonb_column col \<longleftrightarrow> json_column col \<and> (\<forall>v. json_value v \<longrightarrow> snapshot_reordered (col v))"

definition checkpoint_ordered :: "ledger_db \<Rightarrow> bool" where
  "checkpoint_ordered db \<longleftrightarrow> (\<forall>c. db_checkpoint db = Some c \<longrightarrow> snapshot_reordered (cr_projection c))"

text \<open>The keys of a snapshot are a permutation of the three, and any but the written one prints differently.\<close>

lemma snapshot_permutation:
  assumes "isPersistedSnapshot (JObj qs)"
  obtains x y z where "qs = [x, y, z]" "distinct [fst x, fst y, fst z]" "{fst x, fst y, fst z} = set snapshot_keys"
    "obj_get qs (js ''schemaVersion'') = jint snapshot_schema_version"
proof -
  have keys: "has_exact_keys qs snapshot_keys" and v: "obj_get qs (js ''schemaVersion'') = jint snapshot_schema_version"
    using assms by (auto simp: isPersistedSnapshot_def as_record_def snapshot_keys_def)
  have l: "length (obj_keys qs) = 3" and sub: "set snapshot_keys \<subseteq> set (obj_keys qs)"
    using keys by (auto simp: has_exact_keys_def obj_has_def list_all_iff snapshot_keys_def)
  have d: "distinct snapshot_keys" by (simp add: snapshot_keys_def)
  have c: "card (set snapshot_keys) = 3" using distinct_card [OF d] by (simp add: snapshot_keys_def)
  have "card (set snapshot_keys) \<le> card (set (obj_keys qs))" by (rule card_mono [OF _ sub]) simp
  then have card: "card (set (obj_keys qs)) = 3" using c l card_length [of "obj_keys qs"] by simp
  then have eq: "set snapshot_keys = set (obj_keys qs)" using card_subset_eq [OF _ sub] c by simp
  have dq: "distinct (obj_keys qs)" using card l by (simp add: card_distinct)
  obtain x y z where xyz: "qs = [x, y, z]" using l by (auto simp: length_Suc_conv numeral_3_eq_3)
  have "distinct [fst x, fst y, fst z]" using dq by (simp only: xyz list.map)
  moreover have "{fst x, fst y, fst z} = set snapshot_keys" using eq by (simp add: xyz)
  ultimately show ?thesis by (rule that [OF xyz _ _ v])
qed

lemma no_match:
  assumes "isPersistedSnapshot (JObj qs)" "obj_keys qs \<noteq> snapshot_keys" "list_all (\<lambda>q. snd q \<noteq> JUndef) qs"
    and sv: "ps_schemaVersion s = snapshot_schema_version"
  shows "stringify (JObj qs) \<noteq> stringify (snapshot_jv s)"
proof
  obtain x y z where q: "qs = [x, y, z]" "distinct [fst x, fst y, fst z]" "{fst x, fst y, fst z} = set snapshot_keys"
      and v: "obj_get qs (js ''schemaVersion'') = jint snapshot_schema_version"
    by (rule snapshot_permutation [OF assms(1)])
  obtain k u l w m t where xyz: "x = (k, u)" "y = (l, w)" "z = (m, t)" by (cases x; cases y; cases z)
  have nu: "u \<noteq> JUndef" "w \<noteq> JUndef" using assms(3) q(1) xyz by simp_all
  have d: "k \<noteq> l" "k \<noteq> m" "l \<noteq> m"
    and ks: "{k, l, m} = {js ''schemaVersion'', js ''messages'', js ''conversationFocus''}"
    using q(2,3) xyz by (simp_all add: snapshot_keys_def)
  have "k \<in> {k, l, m}" "l \<in> {k, l, m}" "m \<in> {k, l, m}" by simp_all
  then have k3: "k \<in> {js ''schemaVersion'', js ''messages'', js ''conversationFocus''}"
      "l \<in> {js ''schemaVersion'', js ''messages'', js ''conversationFocus''}"
      "m \<in> {js ''schemaVersion'', js ''messages'', js ''conversationFocus''}"
    unfolding ks by blast+
  assume eq: "stringify (JObj qs) = stringify (snapshot_jv s)"
  then have "take 3 (stringify (JObj qs)) = take 3 (stringify (snapshot_jv s))" by simp
  then have k: "k = js ''schemaVersion''"
    using k3(1) nu by (auto simp: q(1) xyz snapshot_jv_def quote_str_def js_def is_high_surrogate_def is_low_surrogate_def escape_unit_def)
  have "[k, l, m] \<noteq> snapshot_keys" using assms(2) by (simp add: q(1) xyz)
  then have l: "l = js ''conversationFocus''" using k k3(2,3) d by (auto simp: snapshot_keys_def)
  have u: "u = jint snapshot_schema_version" using v k by (simp add: q(1) xyz)
  show False
    using eq nu by (simp add: q(1) xyz k l u sv snapshot_jv_def quote_str_def js_def is_high_surrogate_def is_low_surrogate_def escape_unit_def)
qed

lemma as_record_obj: "as_record (JObj qs) = Some qs"
  by (simp add: as_record_def)

lemma no_hit:
  assumes sv: "ps_schemaVersion (proj_snapshot pr) = snapshot_schema_version"
    and reordered: "\<And>c. read = Inr (Some c) \<Longrightarrow> snapshot_reordered (cr_projection c)"
  shows "\<exists>status. try_checkpoint read (canonical_projection pr) fp rs = Inl status \<and> status \<noteq> Hit"
proof -
  have "try_checkpoint read (canonical_projection pr) fp rs \<noteq> Inr cached" for cached
  proof
    assume t: "try_checkpoint read (canonical_projection pr) fp rs = Inr cached"
    then obtain c where c: "read = Inr (Some c)" and
      p: "parseCheckpointProjection (cr_projection c) (cr_throughEntryId c) rs = Some cached"
      by (auto simp: try_checkpoint_def split: sum.splits option.splits if_splits)
    obtain ps where ps: "as_record (cr_projection c) = Some ps" "isPersistedSnapshot (lp_snapshot cached)"
        "lp_snapshot cached = obj_get ps (js ''snapshot'')"
      using p by (auto simp: parseCheckpointProjection_def split: option.splits if_splits)
    obtain qs where qs: "lp_snapshot cached = JObj qs"
      using ps(2) by (cases "lp_snapshot cached") (auto simp: isPersistedSnapshot_def as_record_def)
    have "obj_keys qs \<noteq> snapshot_keys" "list_all (\<lambda>q. snd q \<noteq> JUndef) qs"
      using reordered [OF c] ps(1) ps(3) [symmetric] by (simp_all add: snapshot_reordered_def qs as_record_obj)
    from no_match [OF ps(2) [unfolded qs] this sv] try_matches [OF t] qs show False by (simp add: projectionsMatch_def canonical_projection_def)
  qed
  then show ?thesis
    by (cases "try_checkpoint read (canonical_projection pr) fp rs") (auto simp: try_checkpoint_def split: sum.splits option.splits if_splits)
qed

lemma json_value_no_throw: "json_value v \<Longrightarrow> \<not> stringify_throws v"
  by (induction v rule: json_value.induct) (auto simp: elems_throw_iff props_throw_iff)

lemma snapshot_json_value: "list_all message_norm (ps_messages s) \<Longrightarrow> json_value (snapshot_jv s)"
  by (auto simp: snapshot_jv_def focus_json_value list_all_iff message_json_value)

text \<open>The row that a load writes, and that it is written, with its projection as the column gives it.\<close>

definition own_checkpoint :: "(jv \<Rightarrow> jv) \<Rightarrow> (jstr \<Rightarrow> jstr) \<Rightarrow> ledger_entry list \<Rightarrow> runtime_state \<Rightarrow> ledger_projection \<Rightarrow> checkpoint_row" where
  "own_checkpoint col sha es rs pr = \<lparr>cr_schemaVersion = agent_checkpoint_schema_version, cr_throughEntryId = throughEntryId pr,
     cr_fingerprint = fingerprintCanonicalAgentState sha \<lparr>cn_entries = es, cn_runtimeState = rs\<rparr>,
     cr_projection = col (checkpointProjectionPayload (canonical_projection pr))\<rparr>"

lemma own_checkpoint_saved:
  assumes st: "stored db es rs" and pr: "project_entries es rs = Inr pr"
    and fp: "\<not> blank (fingerprintCanonicalAgentState sha \<lparr>cn_entries = es, cn_runtimeState = rs\<rparr>)"
  shows "saveCheckpointBestEffort col (canonical_projection pr) (fingerprintCanonicalAgentState sha \<lparr>cn_entries = es, cn_runtimeState = rs\<rparr>) db'
      = db'\<lparr>db_checkpoint := Some (own_checkpoint col sha es rs pr)\<rparr>"
    and "checkpoint_head_ok (throughEntryId pr)"
    and "json_value (checkpointProjectionPayload (canonical_projection pr))"
proof -
  have ids: "ids_increase es" using st by (simp add: stored_def)
  note norm = stored_entry_norm [OF st]
  have c: "throughEntryId pr = last_id es" using pr by (auto simp: project_entries_Inr [OF norm])
  have pos: "0 < entry_id e" if "entry_norm e" for e using that by (cases e) auto
  show j: "json_value (checkpointProjectionPayload (canonical_projection pr))"
    using snapshot_json_value [OF projected_norm [OF norm ids pr]] by (simp add: checkpointProjectionPayload_def canonical_projection_def)
  have ok: "\<not> stringify_throws (checkpointProjectionPayload (canonical_projection pr))" by (rule json_value_no_throw [OF j])
  show h: "checkpoint_head_ok (throughEntryId pr)"
    using norm by (auto simp: c checkpoint_head_ok_def last_id_def list_all_iff pos split: option.splits)
  show "saveCheckpointBestEffort col (canonical_projection pr) (fingerprintCanonicalAgentState sha \<lparr>cn_entries = es, cn_runtimeState = rs\<rparr>) db'
      = db'\<lparr>db_checkpoint := Some (own_checkpoint col sha es rs pr)\<rparr>"
    using ok fp h
    by (simp add: saveCheckpointBestEffort_def saveCheckpoint_def validateCheckpointInput_def bindA_def returnA_def
        agent_checkpoint_schema_version_def safe_int_def max_safe_def canonical_projection_def checkpointProjectionPayload_def own_checkpoint_def)
qed

text \<open>Such a column never gives a hit: every load returns the canonical projection and writes the checkpoint.\<close>

lemma load_never_hits:
  assumes col: "jsonb_column col" and st: "stored db es rs" and pr: "project_entries es rs = Inr pr"
    and ord: "checkpoint_ordered db"
  obtains l where "fst (loadLedger col sha db) = Inr l" "ll_checkpointStatus l \<noteq> Hit"
    and "ll_projection l = canonical_projection pr" "ll_runtimeState l = rs"
    and "checkpoint_ordered (snd (loadLedger col sha db))"
    and "snd (loadLedger col sha db) = saveCheckpointBestEffort col (canonical_projection pr)
        (fingerprintCanonicalAgentState sha \<lparr>cn_entries = es, cn_runtimeState = rs\<rparr>) db"
proof -
  let ?c = "\<lparr>cn_entries = es, cn_runtimeState = rs\<rparr>"
  have ids: "ids_increase es" using st by (simp add: stored_def)
  note norm = stored_entry_norm [OF st]
  have proj: "projectAgentLedger (map entry_jv es) (runtime_state_jv rs) = Inr pr"
    using ids by (simp add: projectAgentLedger_typed [OF norm stored_runtime_norm [OF st]] assertStrictlyIncreasingIds_Inr [THEN iffD2] pr)
  have sv: "ps_schemaVersion (proj_snapshot pr) = snapshot_schema_version"
    using pr by (auto simp: project_entries_Inr [OF stored_entry_norm [OF st]] snapshot_of_def)
  obtain read where read: "loadCheckpoint db = (read, db)" using load_checkpoint_db [of db] by (cases "loadCheckpoint db") simp
  have "snapshot_reordered (cr_projection c)" if "read = Inr (Some c)" for c
    using read that ord by (auto simp: loadCheckpoint_def returnA_def throwA_def checkpoint_ordered_def split: option.splits if_splits)
  then obtain status where s: "try_checkpoint read (canonical_projection pr) (fingerprintCanonicalAgentState sha ?c) rs = Inl status" "status \<noteq> Hit"
    using no_hit [OF sv, of read] by blast
  have jvp: "json_value (checkpointProjectionPayload (canonical_projection pr))"
    using snapshot_json_value [OF projected_norm [OF norm ids pr]] by (simp add: checkpointProjectionPayload_def canonical_projection_def)
  have "checkpoint_ordered (saveCheckpointBestEffort col (canonical_projection pr) fp db)" for fp
    using ord col jvp
    by (auto simp: saveCheckpointBestEffort_def saveCheckpoint_def validateCheckpointInput_def bindA_def throwA_def returnA_def
        checkpoint_ordered_def jsonb_column_def)
  then show ?thesis
    by (intro that [of "\<lparr>ll_projection = canonical_projection pr, ll_runtimeState = rs, ll_checkpointStatus = status\<rparr>"])
      (simp_all add: loadLedger_def load_stored [OF st] proj read Let_def s)
qed

text \<open>The load after that finds a row of its own version, head and fingerprint, and calls it corrupt.\<close>

lemma own_reordered_corrupt:
  assumes col: "jsonb_column col" and st: "stored db es rs" and pr: "project_entries es rs = Inr pr"
    and fp: "\<not> blank (fingerprintCanonicalAgentState sha \<lparr>cn_entries = es, cn_runtimeState = rs\<rparr>)"
    and own: "db_checkpoint db = Some (own_checkpoint col sha es rs pr)"
  shows "loadLedger col sha db
    = (Inr \<lparr>ll_projection = canonical_projection pr, ll_runtimeState = rs, ll_checkpointStatus = Corrupt\<rparr>, db)"
proof -
  let ?c = "\<lparr>cn_entries = es, cn_runtimeState = rs\<rparr>"
  let ?fp = "fingerprintCanonicalAgentState sha ?c"
  have sv: "ps_schemaVersion (proj_snapshot pr) = snapshot_schema_version"
    using pr by (auto simp: project_entries_Inr [OF stored_entry_norm [OF st]] snapshot_of_def)
  note saved = own_checkpoint_saved [OF st pr fp]
  have ids: "ids_increase es" using st by (simp add: stored_def)
  have proj: "projectAgentLedger (map entry_jv es) (runtime_state_jv rs) = Inr pr"
    using ids by (simp add: projectAgentLedger_typed [OF stored_entry_norm [OF st] stored_runtime_norm [OF st]] assertStrictlyIncreasingIds_Inr [THEN iffD2] pr)
  have read: "loadCheckpoint db = (Inr (Some (own_checkpoint col sha es rs pr)), db)"
    using fp saved(2) by (simp add: loadCheckpoint_def own returnA_def own_checkpoint_def agent_checkpoint_schema_version_def safe_int_def max_safe_def)
  have "snapshot_reordered (cr_projection (own_checkpoint col sha es rs pr))"
    using col saved(3) by (simp add: jsonb_column_def own_checkpoint_def)
  then obtain status where "try_checkpoint (Inr (Some (own_checkpoint col sha es rs pr))) (canonical_projection pr) ?fp rs = Inl status"
    using no_hit [OF sv, of "Inr (Some (own_checkpoint col sha es rs pr))" ?fp rs] by auto
  then have "try_checkpoint (Inr (Some (own_checkpoint col sha es rs pr))) (canonical_projection pr) ?fp rs = Inl Corrupt"
    by (auto simp: try_checkpoint_def own_checkpoint_def canonical_projection_def split: option.splits if_splits)
  moreover have "db\<lparr>db_checkpoint := Some (own_checkpoint col sha es rs pr)\<rparr> = db" using own by simp
  ultimately show ?thesis by (simp add: loadLedger_def load_stored [OF st] proj read Let_def saved(1))
qed

text \<open>A column of that kind: keys sorted by their length.\<close>

fun shorter_first :: "jv \<Rightarrow> bool" where
  "shorter_first (JArr vs) \<longleftrightarrow> (\<forall>v \<in> set vs. shorter_first v)"
| "shorter_first (JObj ps) \<longleftrightarrow> sorted_wrt (\<lambda>k l. byte_length k \<le> byte_length l) (obj_keys ps) \<and> (\<forall>p \<in> set ps. shorter_first (snd p))"
| "shorter_first _ \<longleftrightarrow> True"

lemma shorter_first_get: "shorter_first (JObj ps) \<Longrightarrow> shorter_first (obj_get ps k)"
  by (induction ps) auto

lemma json_value_get: "json_value (JObj ps) \<Longrightarrow> obj_get ps k = JObj qs \<Longrightarrow> json_value (JObj qs)"
  by (induction ps) (force split: if_splits)+

lemma shorter_first_reordered:
  assumes "json_value v" "shorter_first v"
  shows "snapshot_reordered v"
proof (cases "\<exists>ps qs. v = JObj ps \<and> obj_get ps (js ''snapshot'') = JObj qs")
  case True
  then obtain ps qs where p: "v = JObj ps" "obj_get ps (js ''snapshot'') = JObj qs" by blast
  have "shorter_first (JObj qs)" using shorter_first_get [of ps "js ''snapshot''"] assms(2) p by simp
  then have "sorted_wrt (\<lambda>k l. byte_length k \<le> byte_length l) (obj_keys qs)" by simp
  moreover have "\<not> sorted_wrt (\<lambda>k l. byte_length k \<le> byte_length l) snapshot_keys"
    by (simp add: snapshot_keys_def byte_length_def js_def is_high_surrogate_def utf8_def)
  moreover have "json_value (JObj qs)" using json_value_get assms(1) p by blast
  then have "list_all (\<lambda>q. snd q \<noteq> JUndef) qs" by (auto simp: list_all_iff)
  ultimately show ?thesis using p by (auto simp: snapshot_reordered_def as_record_def)
qed (auto simp: snapshot_reordered_def as_record_def snapshot_keys_def split: option.splits jv.splits)

function length_sorted :: "jv \<Rightarrow> jv" where
  "length_sorted v =
     (case v of
        JArr vs \<Rightarrow> JArr (map length_sorted vs)
      | JObj ps \<Rightarrow> JObj (sort_key (\<lambda>p. byte_length (fst p)) (map (\<lambda>p. (fst p, length_sorted (snd p))) ps))
      | _ \<Rightarrow> v)"
  by pat_completeness auto
termination
proof (relation "measure size", goal_cases)
  case (2 v vs x)
  then show ?case by (auto dest!: size_list_estimation' [of _ _ _ size, OF _ order_refl])
next
  case (3 v ps q)
  then have "q \<in> set ps" by simp
  then have "size_prod (\<lambda>_. 0) size q \<le> size_list (size_prod (\<lambda>_. 0) size) ps"
    by (rule size_list_estimation') simp
  with 3 show ?case by (cases q) simp
qed simp

declare length_sorted.simps [simp del]

lemma distinct_sort_fst: "distinct (obj_keys ps) \<Longrightarrow> distinct (map fst (sort_key f ps))"
  by (metis distinct_map distinct_sort inj_on_cong set_sort)

lemma sort_fst_unique:
  fixes ps qs :: jobj
  assumes "distinct (obj_keys ps)" "set qs = set ps" "distinct (obj_keys qs)"
  shows "sort_key fst qs = sort_key fst ps"
proof -
  have "sorted_wrt (<) (map fst (sort_key fst xs))" if "distinct (obj_keys xs)" for xs :: jobj
  proof -
    have "distinct (map fst (sort_key fst xs))" by (rule distinct_sort_fst [OF that])
    then show ?thesis by (simp add: strict_sorted_iff sorted_sort_key)
  qed
  from sorted_pairs_unique [OF this [OF assms(3)] this [OF assms(1)]] assms(2) show ?thesis by simp
qed

lemma sort_props_unique:
  assumes "distinct (obj_keys ps)" "set qs = set ps" "distinct (obj_keys qs)"
  shows "sort_props qs = sort_props ps"
  by (simp add: sort_props_def sort_fst_unique [OF assms])

lemma sort_props_values:
  assumes "distinct (obj_keys ps)" "\<And>p. p \<in> set ps \<Longrightarrow> sortJson (f (snd p)) = sortJson (snd p)"
  shows "sort_props (map (\<lambda>p. (fst p, f (snd p))) ps) = sort_props ps"
proof -
  let ?g = "\<lambda>p. (fst p, f (snd p))"
  have d: "distinct (map fst (sort_key fst ps))"
    by (rule distinct_sort_fst [OF assms(1)])
  have "sort_key fst (map ?g ps) = map ?g (sort_key fst ps)"
  proof (rule sorted_pairs_unique)
    have "distinct (map fst (sort_key fst (map ?g ps)))"
      by (rule distinct_sort_fst) (use assms(1) in \<open>simp add: comp_def\<close>)
    then show "sorted_wrt (<) (map fst (sort_key fst (map ?g ps)))" by (simp add: strict_sorted_iff sorted_sort_key)
    show "sorted_wrt (<) (map fst (map ?g (sort_key fst ps)))"
      using d by (simp add: comp_def strict_sorted_iff sorted_sort_key)
  qed simp
  then show ?thesis
    using assms(2) unfolding sort_props_def by (auto intro!: arg_cong [where f = "obj_of []"])
qed

lemma length_sorted_ok: "json_value v \<Longrightarrow> json_value (length_sorted v) \<and> sortJson (length_sorted v) = sortJson v \<and> shorter_first (length_sorted v)"
proof (induction v rule: length_sorted.induct)
  case (1 v)
  show ?case
  proof (cases v)
    case (JArr vs)
    with 1 show ?thesis by (auto simp: length_sorted.simps [of "JArr vs"] comp_def)
  next
    case (JObj ps)
    let ?g = "\<lambda>p. (fst p, length_sorted (snd p))"
    let ?qs = "sort_key (\<lambda>p. byte_length (fst p)) (map ?g ps)"
    have d: "distinct (obj_keys ps)" and vals: "\<And>p. p \<in> set ps \<Longrightarrow> json_value (snd p)" using "1.prems" JObj by auto
    have IH: "json_value (length_sorted (snd p)) \<and> sortJson (length_sorted (snd p)) = sortJson (snd p) \<and> shorter_first (length_sorted (snd p))"
      if "p \<in> set ps" for p
      using "1.IH"(2) [OF JObj that vals [OF that]] .
    have dg: "distinct (obj_keys (map ?g ps))" using d by (simp add: comp_def)
    have dq: "distinct (obj_keys ?qs)" by (rule distinct_sort_fst [OF dg])
    have "sort_props ?qs = sort_props (map ?g ps)" by (rule sort_props_unique [OF dg _ dq]) simp
    also have "\<dots> = sort_props ps" by (rule sort_props_values [OF d]) (simp add: IH)
    finally have "sort_props ?qs = sort_props ps" .
    moreover have "sorted (map (\<lambda>p. byte_length (fst p)) ?qs)" by (rule sorted_sort_key)
    then have "sorted_wrt (\<lambda>k l. byte_length k \<le> byte_length l) (obj_keys ?qs)" by (simp add: sorted_wrt_map)
    moreover have "length_sorted v = JObj ?qs" by (simp add: JObj length_sorted.simps [of "JObj ps"])
    ultimately show ?thesis using IH dq by (auto simp: JObj)
  qed (use "1.prems" in \<open>auto simp: length_sorted.simps [of "JBool _"] length_sorted.simps [of "JNum _"] length_sorted.simps [of "JStr _"] length_sorted.simps [of JNull]\<close>)
qed

lemma jsonb_length_sorted: "jsonb_column length_sorted"
  using length_sorted_ok shorter_first_reordered by (simp add: jsonb_column_def json_column_def)

end
