(* ===== verification/Js_Objects.thy ===== *)
theory Js_Objects
  imports Ledger_Normal
begin

text \<open>
  The enumeration order of an object: integer-like keys in ascending order, then the others as they were
  added.  A list in that order is what assigning its properties one by one to an empty object
  gives (\<open>in_order_key_order\<close>), so the property-by-property copies of the source are identities on
  it; and every object built by assignments is in that order (\<open>obj_of_in_order\<close>).
\<close>

section \<open>Integer-like keys\<close>

lemma nat_of_dec_snoc: "nat_of_dec (ks @ [d]) = 10 * nat_of_dec ks + (d - 48)"
  by (simp add: nat_of_dec_def)

definition canonical_dec :: "jstr \<Rightarrow> bool" where
  "canonical_dec k \<longleftrightarrow> k \<noteq> [] \<and> (\<forall>c \<in> set k. is_digit c) \<and> (hd k = 48 \<longrightarrow> k = [48])"

lemma dec_of_nat_of_dec:
  "canonical_dec k \<Longrightarrow> dec_of_nat (nat_of_dec k) = k"
proof (induction k rule: rev_induct)
  case (snoc d ks)
  have d: "48 \<le> d" "d \<le> 57" using snoc.prems by (auto simp: canonical_dec_def is_digit_def)
  show ?case
  proof (cases ks)
    case Nil
    then show ?thesis using d by (simp add: dec_of_nat.simps [of "d - 48"] nat_of_dec_def)
  next
    case (Cons c cs)
    have "hd ks \<noteq> 48" using snoc.prems Cons by (auto simp: canonical_dec_def)
    then have c: "canonical_dec ks" using snoc.prems Cons by (auto simp: canonical_dec_def)
    then have IH: "dec_of_nat (nat_of_dec ks) = ks" by (rule snoc.IH)
    have "nat_of_dec ks \<noteq> 0"
    proof
      assume "nat_of_dec ks = 0"
      with IH dec_of_nat_zero have "ks = [48]" by simp
      with \<open>hd ks \<noteq> 48\<close> show False by simp
    qed
    moreover obtain e where e: "d = 48 + e" "e < 10" using d by (intro that [of "d - 48"]) simp_all
    ultimately show ?thesis
      using IH by (simp add: nat_of_dec_snoc dec_of_nat.simps [of "10 * nat_of_dec ks + e"])
  qed
qed (simp add: canonical_dec_def)

lemma index_key_eq:
  assumes "is_index_key k" "is_index_key k'" "nat_of_dec k = nat_of_dec k'"
  shows "k = k'"
proof -
  have "canonical_dec k" "canonical_dec k'" using assms(1,2) by (auto simp: is_index_key_def canonical_dec_def)
  then show ?thesis using assms(3) by (metis dec_of_nat_of_dec)
qed

section \<open>The enumeration order\<close>

definition before :: "jstr \<Rightarrow> jstr \<Rightarrow> bool" where
  "before k l \<longleftrightarrow> (is_index_key l \<longrightarrow> is_index_key k \<and> nat_of_dec k < nat_of_dec l)"

definition in_order :: "(jstr \<times> 'v) list \<Rightarrow> bool" where
  "in_order ob \<longleftrightarrow> distinct (obj_keys ob) \<and> sorted_wrt before (obj_keys ob)"

lemma put_index_set_keys: "set (obj_keys (put_index ob k v)) = insert k (set (obj_keys ob))"
  by (simp add: put_index_set)

lemma put_index_sorted:
  assumes "sorted_wrt before (obj_keys ob)" "is_index_key k" "k \<notin> set (obj_keys ob)"
  shows "sorted_wrt before (obj_keys (put_index ob k v))"
  using assms
proof (induction ob)
  case (Cons p ob)
  obtain k' v' where p: "p = (k', v')" by fastforce
  show ?case
  proof (cases "is_index_key k' \<and> nat_of_dec k' < nat_of_dec k")
    case True
    have "before k' l" if "l \<in> set (obj_keys (put_index ob k v))" for l
      using that True Cons.prems p by (auto simp: put_index_set before_def)
    then show ?thesis using Cons True p by simp
  next
    case False
    have "before k l" if l: "l \<in> insert k' (set (obj_keys ob))" for l
      unfolding before_def
    proof
      assume li: "is_index_key l"
      have "is_index_key k' \<and> nat_of_dec k' \<le> nat_of_dec l"
        using l li Cons.prems(1) p by (auto simp: before_def less_imp_le)
      with False have "is_index_key k'" "nat_of_dec k \<le> nat_of_dec k'" "nat_of_dec k' \<le> nat_of_dec l" by auto
      moreover have "nat_of_dec k \<noteq> nat_of_dec l" using index_key_eq [OF assms(2) li] l Cons.prems(3) p by auto
      ultimately show "is_index_key k \<and> nat_of_dec k < nat_of_dec l" using assms(2) by simp
    qed
    then show ?thesis using Cons.prems False p by auto
  qed
qed simp

lemma obj_put_in_order:
  assumes "in_order ob"
  shows "in_order (obj_put ob k v)"
proof -
  have "sorted_wrt before (obj_keys (obj_put ob k v))"
  proof (cases "k \<in> set (obj_keys ob)")
    case True
    then show ?thesis using assms by (simp add: obj_put_repl in_order_def)
  next
    case False
    with assms put_index_sorted [of ob k v] show ?thesis
      by (auto simp: obj_put_repl in_order_def sorted_wrt_append before_def)
  qed
  with assms show ?thesis by (simp add: in_order_def obj_put_distinct_keys)
qed

lemma obj_of_in_order: "in_order ob \<Longrightarrow> in_order (obj_of ob ps)"
proof (induction ps arbitrary: ob)
  case (Cons p ps)
  then show ?case by (cases p) (simp add: obj_of_Cons obj_put_in_order)
qed (simp add: obj_of_def)

lemma put_index_last:
  assumes "\<forall>k' \<in> set (obj_keys ob). is_index_key k' \<and> nat_of_dec k' < nat_of_dec k"
  shows "put_index ob k v = ob @ [(k, v)]"
  using assms by (induction ob k v rule: put_index.induct) auto

lemma obj_put_last:
  assumes "in_order (ob @ [(k, v)])"
  shows "obj_put ob k v = ob @ [(k, v)]"
proof -
  have new: "k \<notin> set (obj_keys ob)" and b: "\<forall>k' \<in> set (obj_keys ob). before k' k"
    using assms by (auto simp: in_order_def sorted_wrt_append)
  show ?thesis
  proof (cases "is_index_key k")
    case True
    then have "put_index ob k v = ob @ [(k, v)]" using b by (intro put_index_last) (auto simp: before_def)
    with new True show ?thesis by (simp add: obj_put_repl)
  next
    case False
    with new show ?thesis by (simp add: obj_put_repl)
  qed
qed

lemma in_order_prefix: "in_order (xs @ ys) \<Longrightarrow> in_order xs"
  by (auto simp: in_order_def sorted_wrt_append)

lemma obj_of_extend: "in_order (ob @ ps) \<Longrightarrow> obj_of ob ps = ob @ ps"
proof (induction ps arbitrary: ob)
  case (Cons p ps)
  obtain k v where p: "p = (k, v)" by fastforce
  have "in_order ((ob @ [(k, v)]) @ ps)" using Cons.prems p by simp
  then have "obj_of (ob @ [(k, v)]) ps = (ob @ [(k, v)]) @ ps" "obj_put ob k v = ob @ [(k, v)]"
    by (rule Cons.IH, rule obj_put_last [OF in_order_prefix])
  then show ?case by (simp add: p obj_of_Cons)
qed (simp add: obj_of_def)

lemma in_order_key_order: "in_order ps \<Longrightarrow> obj_of [] ps = ps"
  using obj_of_extend [of "[]" ps] by simp

lemma in_order_Nil [simp]: "in_order []"
  by (simp add: in_order_def)

lemma in_order_map: "in_order (map (\<lambda>p. (fst p, f p)) ps) \<longleftrightarrow> in_order ps"
  by (simp add: in_order_def comp_def)

section \<open>Copies\<close>

text \<open>Values whose objects are all in enumeration order and that have no dates.\<close>

fun ordered_value :: "jv \<Rightarrow> bool" where
  "ordered_value (JArr vs) \<longleftrightarrow> (\<forall>v \<in> set vs. ordered_value v)"
| "ordered_value (JObj ps) \<longleftrightarrow> in_order ps \<and> (\<forall>p \<in> set ps. ordered_value (snd p))"
| "ordered_value (JDate _) \<longleftrightarrow> False"
| "ordered_value _ \<longleftrightarrow> True"

lemma obj_of_values: "p \<in> set (obj_of ob ps) \<Longrightarrow> p \<in> set ob \<or> p \<in> set ps \<or> (\<exists>q \<in> set ps. snd p = snd q)"
proof (induction ps arbitrary: ob)
  case (Cons q ps)
  obtain k v where q: "q = (k, v)" by fastforce
  have put: "p \<in> set (obj_put ob k v) \<Longrightarrow> p \<in> set ob \<or> snd p = v"
    by (auto simp: obj_put_def put_index_set split: if_splits)
  from Cons.IH [of "obj_put ob k v"] Cons.prems put show ?case by (auto simp: q obj_of_Cons)
qed (simp add: obj_of_def)

lemma clone_ordered: "cloneJsonValue v p = Inr w \<Longrightarrow> ordered_value w"
proof (induction v p arbitrary: w rule: cloneJsonValue.induct)
  case (1 v p)
  show ?case
  proof (cases v)
    case (JNum n)
    then have "w = JNum n" using "1.prems" by (cases n) (simp_all add: cloneJsonValue.simps [of "JNum _"])
    then show ?thesis by simp
  next
    case (JArr vs)
    then obtain ws where ws: "w = JArr ws" "mapE_idx (\<lambda>i x. cloneJsonValue x (p @ [Idx i])) 0 vs = Inr ws"
      using "1.prems" by (auto simp: cloneJsonValue.simps [of "JArr vs"] bindE_Inr_iff)
    have "ordered_value y" if y: "y \<in> set ws" for y
    proof -
      obtain x k where x: "x \<in> set vs" "cloneJsonValue x (p @ [Idx k]) = Inr y" using mapE_idx_range [OF ws(2) y] by blast
      show ?thesis by (rule "1.IH"(1) [OF JArr x])
    qed
    with ws show ?thesis by simp
  next
    case (JObj ps)
    then obtain qs where qs: "w = JObj (obj_of [] qs)"
        "mapE (\<lambda>q. bindE (cloneJsonValue (snd q) (p @ [Key (fst q)])) (\<lambda>w. Inr (fst q, w))) (sort_key fst ps) = Inr qs"
      using "1.prems" by (auto simp: cloneJsonValue.simps [of "JObj ps"] bindE_Inr_iff)
    have q: "ordered_value (snd y)" if y: "y \<in> set qs" for y
    proof -
      from qs(2) y obtain x where x: "x \<in> set (sort_key fst ps)"
          "bindE (cloneJsonValue (snd x) (p @ [Key (fst x)])) (\<lambda>w. Inr (fst x, w)) = Inr y"
        using mapE_range by meson
      then obtain u where u: "cloneJsonValue (snd x) (p @ [Key (fst x)]) = Inr u" "y = (fst x, u)"
        by (auto simp: bindE_Inr_iff)
      show ?thesis using "1.IH"(2) [OF JObj x(1) u(1)] u(2) by simp
    qed
    have "ordered_value (snd y)" if "y \<in> set (obj_of [] qs)" for y
      using obj_of_values [OF that] q by (metis empty_iff list.set(1))
    with qs(1) show ?thesis by (simp add: obj_of_in_order)
  next
    case (JBool b)
    then show ?thesis using "1.prems" by (auto simp: cloneJsonValue.simps [of "JBool b"])
  next
    case (JStr b)
    then show ?thesis using "1.prems" by (auto simp: cloneJsonValue.simps [of "JStr b"])
  next
    case (JBig b)
    then show ?thesis using "1.prems" by (auto simp: cloneJsonValue.simps [of "JBig b"])
  next
    case (JDate b)
    then show ?thesis using "1.prems" by (auto simp: cloneJsonValue.simps [of "JDate b"])
  qed (use "1.prems" in \<open>auto simp: cloneJsonValue.simps [of JUndef] cloneJsonValue.simps [of JNull]\<close>)
qed

lemma json_copy_ordered: "json_copy ps \<Longrightarrow> ordered_value (JObj ps)"
  unfolding json_copy_def by (rule clone_ordered)

end
