(* ===== verification/Agent_Context.thy ===== *)
theory Agent_Context
  imports Js_Objects Projection_Facts
begin

text \<open>
  \<open>src/agent/agent-context.ts\<close>: the context the model sees, kept in memory.  Whatever enters or leaves it is
  copied property by property; on messages in normal form these copies change nothing
  (\<open>clone_message_norm\<close>).  A projection is installed only when it passes the integrity check, and
  a rejected one leaves the context as it was.
\<close>

section \<open>Copies\<close>

function cloneJsonLike :: "jv \<Rightarrow> jv" where
  "cloneJsonLike v =
     (case v of
        JArr vs \<Rightarrow> JArr (map cloneJsonLike vs)
      | JObj ps \<Rightarrow> JObj (obj_of [] (map (\<lambda>p. (fst p, cloneJsonLike (snd p))) ps))
      | JDate _ \<Rightarrow> JObj []
      | _ \<Rightarrow> v)"
  by pat_completeness auto
termination
proof (relation "measure size", goal_cases)
  case (2 v vs x)
  then show ?case by (auto dest!: size_list_estimation' [of _ _ _ size, OF _ order_refl])
next
  case (3 v ps q)
  then have "q \<in> set ps" by simp
  then have "size_prod (\<lambda>_. 0) size q \<le> size_list (size_prod (\<lambda>_. 0) size) ps"
    by (rule size_list_estimation') simp
  with 3 show ?case by (cases q) simp
qed simp

declare cloneJsonLike.simps [simp del]

definition cloneToolCallArgs :: "jobj \<Rightarrow> jobj" where
  "cloneToolCallArgs args = obj_of [] (map (\<lambda>p. (fst p, cloneJsonLike (snd p))) args)"

definition cloneToolCall :: "tool_call \<Rightarrow> tool_call" where
  "cloneToolCall c = \<lparr>tc_id = tc_id c, tc_name = tc_name c, tc_args = cloneToolCallArgs (tc_args c)\<rparr>"

definition cloneNativeBlock :: "jobj \<Rightarrow> jobj" where
  "cloneNativeBlock b = obj_of [] (map (\<lambda>p. (fst p, cloneJsonLike (snd p))) b)"

fun cloneToolResultBlock :: "content_block \<Rightarrow> content_block" where
  "cloneToolResultBlock (TextBlock t) = TextBlock t"
| "cloneToolResultBlock (ImageRef i mt w h d) = ImageRef i mt w h d"
| "cloneToolResultBlock (ImageBlock mt d) = ImageBlock mt d"

fun cloneToolResultContent :: "tool_content \<Rightarrow> tool_content" where
  "cloneToolResultContent (TextContent t) = TextContent t"
| "cloneToolResultContent (BlockContent bs) = BlockContent (map cloneToolResultBlock bs)"

fun cloneMessage :: "agent_message \<Rightarrow> agent_message" where
  "cloneMessage (UserMsg c) = UserMsg c"
| "cloneMessage (AssistantMsg c calls nb) =
     AssistantMsg c (map cloneToolCall calls) (map_option (map cloneNativeBlock) nb)"
| "cloneMessage (ToolMsg i c) = ToolMsg i (cloneToolResultContent c)"

definition cloneMessages :: "agent_message list \<Rightarrow> agent_message list" where
  "cloneMessages ms = map cloneMessage ms"

definition cloneConversationFocus :: "conversation_ref option \<Rightarrow> conversation_ref option" where
  "cloneConversationFocus f = map_option (\<lambda>c. \<lparr>platform = platform c, accountId = accountId c, ckind = ckind c, externalId = externalId c\<rparr>) f"

section \<open>The context\<close>

record agent_context =
  ac_messages :: "agent_message list"
  ac_conversationFocus :: "conversation_ref option"

definition createAgentContext :: "agent_message list option \<Rightarrow> agent_context" where
  "createAgentContext initialMessages =
     \<lparr>ac_messages = (case initialMessages of None \<Rightarrow> [] | Some ms \<Rightarrow> cloneMessages ms), ac_conversationFocus = None\<rparr>"

definition getSnapshot :: "agent_context \<Rightarrow> agent_message list \<times> conversation_ref option" where
  "getSnapshot c = (cloneMessages (ac_messages c), cloneConversationFocus (ac_conversationFocus c))"

definition appendUserMessage :: "jstr \<Rightarrow> agent_context \<Rightarrow> agent_context" where
  "appendUserMessage content c = c\<lparr>ac_messages := ac_messages c @ [UserMsg content]\<rparr>"

definition appendAssistantTurn :: "jstr \<Rightarrow> tool_call list \<Rightarrow> jobj list option \<Rightarrow> agent_context \<Rightarrow> agent_context" where
  "appendAssistantTurn content calls nativeBlocks c =
     c\<lparr>ac_messages := ac_messages c @
        [AssistantMsg content (map cloneToolCall calls) (map_option (map cloneNativeBlock) nativeBlocks)]\<rparr>"

definition appendToolResult :: "jstr \<Rightarrow> tool_content \<Rightarrow> agent_context \<Rightarrow> agent_context" where
  "appendToolResult toolCallId content c = c\<lparr>ac_messages := ac_messages c @ [ToolMsg toolCallId content]\<rparr>"

definition installProjection :: "persisted_snapshot \<Rightarrow> agent_context \<Rightarrow> integrity_error list + agent_context" where
  "installProjection snapshot c =
     (let validation = validateBotSnapshotIntegrity (snapshot_jv snapshot) (JObj []) JUndef in
      if \<not> ir_ok validation then Inl (ir_errors validation)
      else Inr (c\<lparr>ac_messages := cloneMessages (ps_messages snapshot),
                  ac_conversationFocus := cloneConversationFocus (ps_focus snapshot)\<rparr>))"

definition exportPersistedSnapshot :: "agent_context \<Rightarrow> persisted_snapshot" where
  "exportPersistedSnapshot c =
     \<lparr>ps_schemaVersion = snapshot_schema_version, ps_messages = cloneMessages (ac_messages c),
      ps_focus = cloneConversationFocus (ac_conversationFocus c)\<rparr>"

section \<open>Copies of normal messages\<close>

lemma cloneJsonLike_simps [simp]:
  "cloneJsonLike JUndef = JUndef" "cloneJsonLike JNull = JNull" "cloneJsonLike (JBool b) = JBool b"
  "cloneJsonLike (JNum n) = JNum n" "cloneJsonLike (JStr s) = JStr s" "cloneJsonLike (JBig i) = JBig i"
  "cloneJsonLike (JDate d) = JObj []" "cloneJsonLike (JArr vs) = JArr (map cloneJsonLike vs)"
  "cloneJsonLike (JObj ps) = JObj (obj_of [] (map (\<lambda>p. (fst p, cloneJsonLike (snd p))) ps))"
  by (subst cloneJsonLike.simps; simp)+

lemma clone_props:
  assumes "in_order ps" "\<And>p. p \<in> set ps \<Longrightarrow> cloneJsonLike (snd p) = snd p"
  shows "obj_of [] (map (\<lambda>p. (fst p, cloneJsonLike (snd p))) ps) = ps"
proof -
  have "map (\<lambda>p. (fst p, cloneJsonLike (snd p))) ps = ps" by (rule map_idI) (simp add: assms(2))
  then show ?thesis by (simp add: in_order_key_order [OF assms(1)])
qed

lemma clone_ordered_value: "ordered_value v \<Longrightarrow> cloneJsonLike v = v"
proof (induction v rule: cloneJsonLike.induct)
  case (1 v)
  then show ?case
  proof (cases v)
    case (JArr vs)
    with 1 show ?thesis by (auto intro: map_idI)
  next
    case (JObj ps)
    with "1.prems" have "in_order ps" "\<And>p. p \<in> set ps \<Longrightarrow> ordered_value (snd p)" by auto
    with "1.IH"(2) [OF JObj] clone_props [of ps] JObj show ?thesis by simp
  qed (use 1 in auto)
qed

lemma clone_copy: "json_copy ps \<Longrightarrow> obj_of [] (map (\<lambda>p. (fst p, cloneJsonLike (snd p))) ps) = ps"
  using clone_ordered_value [OF json_copy_ordered, of ps] by simp

lemma clone_call_norm: "call_norm c \<Longrightarrow> cloneToolCall c = c"
  by (simp add: cloneToolCall_def cloneToolCallArgs_def call_norm_def clone_copy)

lemma clone_block [simp]: "cloneToolResultBlock b = b"
  by (cases b) simp_all

lemma clone_content [simp]: "cloneToolResultContent c = c"
  by (cases c) (simp_all add: map_idI)

lemma clone_message_norm: "message_norm m \<Longrightarrow> cloneMessage m = m"
proof (cases m)
  case (AssistantMsg c calls nb)
  assume m: "message_norm m"
  have "map cloneToolCall calls = calls"
    using m AssistantMsg by (intro map_idI clone_call_norm) (auto simp: list_all_iff)
  moreover have "map cloneNativeBlock bs = bs" if "nb = Some bs" for bs
    using m AssistantMsg that by (intro map_idI) (auto simp: cloneNativeBlock_def native_norm_def list_all_iff clone_copy)
  ultimately show ?thesis by (cases nb) (simp_all add: AssistantMsg)
qed simp_all

lemma clone_messages_norm: "list_all message_norm ms \<Longrightarrow> cloneMessages ms = ms"
  unfolding cloneMessages_def by (rule map_idI) (auto simp: list_all_iff clone_message_norm)

lemma clone_focus [simp]: "cloneConversationFocus f = f"
  by (cases f) (simp_all add: cloneConversationFocus_def)

text \<open>Installing a snapshot of normal messages: exactly when its history is legal and its focus valid.\<close>

lemma install_norm:
  assumes "list_all message_norm (ps_messages s)" "ps_schemaVersion s = snapshot_schema_version"
  shows "(\<exists>c'. installProjection s c = Inr c') \<longleftrightarrow> legal_history (ps_messages s) \<and> focus_ok (ps_focus s)"
    and "installProjection s c = Inr c' \<Longrightarrow> ac_messages c' = ps_messages s \<and> ac_conversationFocus c' = ps_focus s"
proof -
  have "\<not> stringify_throws (snapshot_jv s)"
    using snapshot_no_throw assms(1) by (cases s) simp
  moreover have "cursors_ok (JObj [])" "validateMailboxContinuity JUndef = []"
    by (simp_all add: cursors_ok_def validateMailboxContinuity_def)
  ultimately show "(\<exists>c'. installProjection s c = Inr c') \<longleftrightarrow> legal_history (ps_messages s) \<and> focus_ok (ps_focus s)"
    by (auto simp: installProjection_def Let_def integrity_iff assms(2))
  show "installProjection s c = Inr c' \<Longrightarrow> ac_messages c' = ps_messages s \<and> ac_conversationFocus c' = ps_focus s"
    by (auto simp: installProjection_def Let_def clone_messages_norm [OF assms(1)] split: if_splits)
qed

end
