(* ===== verification/Ledger_Commit.thy ===== *)
theory Ledger_Commit
  imports Agent_Context Ledger_Repo_Facts Mailbox_Continuity
begin

text \<open>
  \<open>src/agent/ledger-commit-coordinator.ts\<close> with the part of the bot loop it writes
  (\<open>installRuntimeState\<close> of \<open>src/agent/bot-loop-agent.ts\<close>): a change is first committed to the
  repository on the head the loop believes in, then shown to the model and installed in the loop.
  The main lemmas are \<open>commit_state\<close> and \<open>commit_in_sync\<close>: the memory stays the projection of the stored ledger.
\<close>

section \<open>The loop's memory\<close>

record bot_host =
  bh_context :: agent_context
  bh_mailboxCursors :: jobj
  bh_inboxReadCursors :: read_cursors
  bh_mailboxContinuity :: continuity_state
  bh_lastWakeAt :: "int option"
  bh_ledgerHeadEntryId :: "int option"

definition installRuntimeState :: "runtime_state \<Rightarrow> bot_host \<Rightarrow> bot_host" where
  "installRuntimeState rs h =
     h\<lparr>bh_mailboxCursors := rs_mailboxCursors rs, bh_inboxReadCursors := rs_inboxReadCursors rs,
       bh_mailboxContinuity := parseMailboxContinuityState (JObj (rs_mailboxContinuity rs)),
       bh_lastWakeAt := rs_lastWakeAt rs, bh_ledgerHeadEntryId := rs_head rs\<rparr>"

section \<open>The commit\<close>

datatype commit_error =
    RepoFailed repo_error
  | NonMessageEntry
  | ProjectionRejected "integrity_error list"

definition messagesFromAppend :: "ledger_entry list \<Rightarrow> commit_error + agent_message list" where
  "messagesFromAppend es = (if list_all is_message_entry es then Inr (map entry_message es) else Inl NonMessageEntry)"

text \<open>The change of the repository: the new runtime state and the messages appended.\<close>

definition commit_repo :: "(jv \<Rightarrow> jv) \<Rightarrow> int option \<Rightarrow> agent_message list \<Rightarrow> runtime_patch option \<Rightarrow> ledger_db
    \<Rightarrow> (commit_error + runtime_state \<times> agent_message list) \<times> ledger_db" where
  "commit_repo col head messages patch db =
     (let p = or_else patch empty_patch in
      if messages \<noteq> []
      then (case appendMessages col head messages p db of
              (Inl e, db') \<Rightarrow> (Inl (RepoFailed e), db')
            | (Inr r, db') \<Rightarrow> (bindE (messagesFromAppend (ar_appendedEntries r)) (\<lambda>ms. Inr (ar_runtimeState r, ms)), db'))
      else (case updateRuntime col head p db of
              (Inl e, db') \<Rightarrow> (Inl (RepoFailed e), db')
            | (Inr rs, db') \<Rightarrow> (Inr (rs, []), db')))"

definition commitChange :: "(jv \<Rightarrow> jv) \<Rightarrow> agent_message list \<Rightarrow> runtime_patch option \<Rightarrow> bot_host \<times> ledger_db
    \<Rightarrow> (commit_error + runtime_state option) \<times> bot_host \<times> ledger_db" where
  "commitChange col messages patch = (\<lambda>(h, db).
     if messages = [] \<and> patch = None then (Inr None, h, db)
     else (case commit_repo col (bh_ledgerHeadEntryId h) messages patch db of
             (Inl e, db') \<Rightarrow> (Inl e, h, db')
           | (Inr (rs, appended), db') \<Rightarrow>
               (case installProjection \<lparr>ps_schemaVersion = snapshot_schema_version,
                       ps_messages = fst (getSnapshot (bh_context h)) @ appended, ps_focus = rs_focus rs\<rparr> (bh_context h) of
                  Inl errors \<Rightarrow> (Inl (ProjectionRejected errors), h, db')
                | Inr c \<Rightarrow> (Inr (Some rs), installRuntimeState rs (h\<lparr>bh_context := c\<rparr>), db'))))"

section \<open>Staying in step with the ledger\<close>

definition host_runtime :: "bot_host \<Rightarrow> runtime_state \<Rightarrow> bool" where
  "host_runtime h rs \<longleftrightarrow> installRuntimeState rs h = h"

text \<open>The context is the projection of what is stored, and the loop has its runtime state.\<close>

definition in_sync :: "bot_host \<Rightarrow> ledger_db \<Rightarrow> ledger_entry list \<Rightarrow> runtime_state \<Rightarrow> bool" where
  "in_sync h db es rs \<longleftrightarrow> stored db es rs \<and> host_runtime h rs
     \<and> (\<exists>pr. project_entries es rs = Inr pr \<and> ac_messages (bh_context h) = ps_messages (proj_snapshot pr)
          \<and> ac_conversationFocus (bh_context h) = rs_focus rs)"

lemma host_runtime_install: "host_runtime (installRuntimeState rs h) rs"
  by (simp add: host_runtime_def installRuntimeState_def)

lemma host_runtime_head: "host_runtime h rs \<Longrightarrow> bh_ledgerHeadEntryId h = rs_head rs"
  by (auto simp: host_runtime_def installRuntimeState_def dest!: arg_cong [where f = bh_ledgerHeadEntryId])

lemma runtime_same_valid: "runtime_same s t \<Longrightarrow> runtime_valid t = runtime_valid s"
  unfolding runtime_same_def by (metis runtime_valid_def runtime_state.select_convs runtime_state.surjective runtime_state.update_convs(2))

lemma only_messages_from: "only_messages es \<Longrightarrow> messagesFromAppend es = Inr (entry_messages es)"
proof -
  have "only_messages es \<Longrightarrow> map entry_message es = entry_messages es"
    by (induction es rule: entry_messages.induct) (auto simp: only_messages_def)
  then show "only_messages es \<Longrightarrow> ?thesis" by (simp add: messagesFromAppend_def only_messages_def list_all_iff)
qed

text \<open>What the repository does with a change on its current head.\<close>

lemma commit_repo_run:
  assumes col: "json_column col" and st: "stored db es rs" and pk: "patch_ok (or_else patch empty_patch)"
  shows "\<exists>r db'. commit_repo col (rs_head rs) messages patch db = (r, db') \<and>
    (case r of
       Inl e \<Rightarrow> (\<exists>f. e = RepoFailed f) \<and> stored db' es rs
     | Inr (rs', appended) \<Rightarrow> mapE normalizeDurableMessage messages = Inr appended \<and>
         (\<exists>ns nx head. stored db' (es @ ns) rs' \<and> entry_messages ns = appended \<and> only_messages ns
           \<and> parseAgentRuntimeState (runtime_state_jv (patched_state rs (or_else patch empty_patch) head)) = Inr nx
           \<and> runtime_same nx rs'))"
proof (cases "messages = []")
  case True
  from updateRuntime_run [OF col st pk] show ?thesis
  proof (cases "parseAgentRuntimeState (runtime_state_jv (patched_state rs (or_else patch empty_patch) (rs_head rs)))")
    case (Inl e)
    with updateRuntime_run [OF col st pk] st True show ?thesis by (simp add: commit_repo_def Let_def)
  next
    case (Inr nx)
    then obtain rs' db' where u: "updateRuntime col (rs_head rs) (or_else patch empty_patch) db = (Inr rs', db')"
        "stored db' es rs'" "runtime_same nx rs'"
      using updateRuntime_run [OF col st pk] by auto
    then have "stored db' (es @ []) rs'" "entry_messages [] = []" "only_messages []" by (simp_all add: only_messages_def)
    with u Inr have "\<exists>ns nx head. stored db' (es @ ns) rs' \<and> entry_messages ns = [] \<and> only_messages ns
        \<and> parseAgentRuntimeState (runtime_state_jv (patched_state rs (or_else patch empty_patch) head)) = Inr nx
        \<and> runtime_same nx rs'"
      by blast
    with u True show ?thesis by (simp add: commit_repo_def Let_def)
  qed
next
  case ne: False
  show ?thesis
  proof (cases "mapE normalizeDurableMessage messages")
    case (Inl d)
    with appendMessages_rejects [OF st, of "rs_head rs" messages d col "or_else patch empty_patch"] ne st show ?thesis
      by (auto simp: commit_repo_def Let_def)
  next
    case (Inr ms)
    define new where "new = new_entries (db_sequence db) (db_now db) ms"
    note run = appendMessages_run [OF col st pk ne Inr new_def]
    show ?thesis
    proof (cases "parseAgentRuntimeState (runtime_state_jv (patched_state rs (or_else patch empty_patch) (last_id new)))")
      case (Inl e)
      have "stored (db\<lparr>db_sequence := db_sequence db + int (length ms)\<rparr>) es rs"
        using stored_sequence [OF st] by simp
      with run Inl ne show ?thesis by (simp add: commit_repo_def Let_def)
    next
      case nx: (Inr nx)
      then obtain rs' db' where u: "appendMessages col (rs_head rs) messages (or_else patch empty_patch) db
          = (Inr \<lparr>ar_appendedEntries = new, ar_runtimeState = rs'\<rparr>, db')" "stored db' (es @ new) rs'" "runtime_same nx rs'"
        using run by auto
      have new: "entry_messages new = ms" "only_messages new" by (simp_all add: new_def new_entries_facts)
      then have "messagesFromAppend new = Inr ms" using only_messages_from by simp
      with u new nx ne Inr show ?thesis by (auto simp: commit_repo_def Let_def)
    qed
  qed
qed

text \<open>A commit whose messages continue a legal history and whose patched state is valid keeps the memory
  in step; one that fails changes nothing but the id sequence.\<close>

lemma commit_state:
  assumes col: "json_column col" and sync: "in_sync h db es rs" and pk: "patch_ok (or_else patch empty_patch)"
    and legal: "\<And>ms. mapE normalizeDurableMessage messages = Inr ms \<Longrightarrow> legal_history (entry_messages es @ ms)"
    and valid: "\<And>head nx. parseAgentRuntimeState (runtime_state_jv (patched_state rs (or_else patch empty_patch) head)) = Inr nx
      \<Longrightarrow> runtime_valid nx"
  shows "\<exists>r h' db'. commitChange col messages patch (h, db) = (r, h', db') \<and>
    (case r of
       Inl e \<Rightarrow> (\<exists>f. e = RepoFailed f) \<and> h' = h \<and> in_sync h db' es rs
     | Inr _ \<Rightarrow> \<exists>ns rs'. in_sync h' db' (es @ ns) rs' \<and> mapE normalizeDurableMessage messages = Inr (entry_messages ns)
         \<and> (messages = [] \<and> patch = None \<or> (\<exists>head nx. runtime_same nx rs' \<and>
               parseAgentRuntimeState (runtime_state_jv (patched_state rs (or_else patch empty_patch) head)) = Inr nx)))"
proof (cases "messages = [] \<and> patch = None")
  case True
  have "in_sync h db (es @ []) rs" using sync by simp
  moreover have "mapE normalizeDurableMessage messages = Inr (entry_messages [])" using True by simp
  ultimately have "\<exists>ns rs'. in_sync h db (es @ ns) rs' \<and> mapE normalizeDurableMessage messages = Inr (entry_messages ns)"
    by blast
  with True show ?thesis by (auto simp: commitChange_def)
next
  case False
  obtain pr where st: "stored db es rs" and host: "host_runtime h rs" and pr: "project_entries es rs = Inr pr"
      "ac_messages (bh_context h) = ps_messages (proj_snapshot pr)" "ac_conversationFocus (bh_context h) = rs_focus rs"
    using sync by (auto simp: in_sync_def)
  note head = host_runtime_head [OF host]
  obtain r db' where run: "commit_repo col (rs_head rs) messages patch db = (r, db')" and
    cases: "case r of
       Inl e \<Rightarrow> (\<exists>f. e = RepoFailed f) \<and> stored db' es rs
     | Inr (rs', appended) \<Rightarrow> mapE normalizeDurableMessage messages = Inr appended \<and>
         (\<exists>ns nx head. stored db' (es @ ns) rs' \<and> entry_messages ns = appended \<and> only_messages ns
           \<and> parseAgentRuntimeState (runtime_state_jv (patched_state rs (or_else patch empty_patch) head)) = Inr nx
           \<and> runtime_same nx rs')"
    using commit_repo_run [OF col st pk, of messages] by blast
  show ?thesis
  proof (cases r)
    case (Inl e)
    with cases have e: "\<exists>f. e = RepoFailed f" "stored db' es rs" by auto
    have "commitChange col messages patch (h, db) = (Inl e, h, db')"
      using False by (simp add: commitChange_def head run Inl)
    with e host pr show ?thesis by (auto simp: in_sync_def)
  next
    case (Inr p)
    obtain rs' appended where p: "p = (rs', appended)" by (cases p)
    with cases Inr obtain ns nx hd where ns: "mapE normalizeDurableMessage messages = Inr appended"
        "stored db' (es @ ns) rs'" "entry_messages ns = appended" "only_messages ns"
        "parseAgentRuntimeState (runtime_state_jv (patched_state rs (or_else patch empty_patch) hd)) = Inr nx" "runtime_same nx rs'"
      by auto
    note norm = stored_entry_norm [OF ns(2)]
    have rv: "runtime_valid rs'" using runtime_same_valid [OF ns(6)] valid [OF ns(5)] by simp
    have ids: "ids_increase (es @ ns)" "rs_head rs' = last_id (es @ ns)" using ns(2) by (simp_all add: stored_def)
    have lg: "legal_history (entry_messages (es @ ns))" using legal [OF ns(1)] by (simp add: ns(3))
    note proj = project_append [OF norm ids(1) ns(4) pr(1) ids(2) rv lg]
    let ?ms = "ps_messages (proj_snapshot pr) @ appended"
    have old: "list_all message_norm (ps_messages (proj_snapshot pr))" "legal_history ?ms" "list_all message_norm appended"
    proof -
      have esn: "list_all entry_norm es" using norm by simp
      show "list_all message_norm (ps_messages (proj_snapshot pr))"
        using projected_norm [OF esn _ pr(1)] st by (simp add: stored_def)
      show "list_all message_norm appended" using entry_messages_norm [OF norm] ns(3) by simp
      obtain latest' active' where la': "validateCompactionChain (es @ ns) = Inr latest'" "legal_history active'"
          "?ms = head_messages latest' @ active'"
        using proj ns(3) by (auto simp: project_entries_Inr [OF norm] snapshot_of_def)
      then show "legal_history ?ms" using head_messages_legal(1) [OF norm la'(1)] by simp
    qed
    let ?s = "\<lparr>ps_schemaVersion = snapshot_schema_version, ps_messages = ?ms, ps_focus = rs_focus rs'\<rparr>"
    have snap: "fst (getSnapshot (bh_context h)) = ps_messages (proj_snapshot pr)"
      by (simp add: getSnapshot_def pr(2) clone_messages_norm [OF old(1)])
    have "list_all message_norm (ps_messages ?s)" using old by simp
    note inst = install_norm [OF this, of "bh_context h"]
    have "legal_history (ps_messages ?s) \<and> focus_ok (ps_focus ?s)" using old(2) rv by (simp add: runtime_valid_def)
    with inst(1) obtain c where c: "installProjection ?s (bh_context h) = Inr c" by auto
    with inst(2) have cm: "ac_messages c = ?ms" "ac_conversationFocus c = rs_focus rs'" by auto
    let ?h = "installRuntimeState rs' (h\<lparr>bh_context := c\<rparr>)"
    have "commitChange col messages patch (h, db) = (Inr (Some rs'), ?h, db')"
      using False by (auto simp: commitChange_def head run Inr p snap c)
    moreover have "bh_context ?h = c" by (simp add: installRuntimeState_def)
    then have "in_sync ?h db' (es @ ns) rs'"
      using ns(2,3) proj cm by (simp add: in_sync_def host_runtime_install snapshot_of_def)
    ultimately show ?thesis using ns(1,3,5,6) by auto
  qed
qed

lemma commit_in_sync:
  assumes col: "json_column col" and sync: "in_sync h db es rs" and pk: "patch_ok (or_else patch empty_patch)"
    and legal: "\<And>ms. mapE normalizeDurableMessage messages = Inr ms \<Longrightarrow> legal_history (entry_messages es @ ms)"
    and valid: "\<And>head nx. parseAgentRuntimeState (runtime_state_jv (patched_state rs (or_else patch empty_patch) head)) = Inr nx
      \<Longrightarrow> runtime_valid nx"
  shows "\<exists>r h' db'. commitChange col messages patch (h, db) = (r, h', db') \<and>
    (case r of
       Inl e \<Rightarrow> (\<exists>f. e = RepoFailed f) \<and> h' = h \<and> in_sync h db' es rs
     | Inr _ \<Rightarrow> \<exists>ns rs'. in_sync h' db' (es @ ns) rs' \<and> mapE normalizeDurableMessage messages = Inr (entry_messages ns))"
proof -
  note state = commit_state [where messages = messages, OF col sync pk]
  obtain r h' db' where c: "commitChange col messages patch (h, db) = (r, h', db')" by (metis prod_cases3)
  show ?thesis
  proof (rule state [THEN exE])
    show "legal_history (entry_messages es @ ms)" if "mapE normalizeDurableMessage messages = Inr ms" for ms by (rule legal [OF that])
    show "runtime_valid nx" if "parseAgentRuntimeState (runtime_state_jv (patched_state rs (or_else patch empty_patch) head)) = Inr nx" for head nx
      by (rule valid [OF that])
  qed (use c in \<open>cases r; auto split: sum.splits\<close>)
qed

end
