(* ===== verification/Runtime_Properties.thy ===== *)
theory Runtime_Properties
  imports Ledger_Loader Ledger_Commit Ledger_Properties
begin

text \<open>
  The properties of the commit path and of loading, with their witnesses: memory and ledger stay in step,
  what the commit path does not check, and what the checkpoint cache does and does not do.
\<close>

section \<open>Commits\<close>

definition fresh_host :: bot_host where
  "fresh_host = installRuntimeState empty_runtime
     \<lparr>bh_context = createAgentContext None, bh_mailboxCursors = [], bh_inboxReadCursors = [],
      bh_mailboxContinuity = createEmptyMailboxContinuityState, bh_lastWakeAt = None, bh_ledgerHeadEntryId = None\<rparr>"

lemma empty_runtime_valid: "runtime_valid (empty_runtime\<lparr>rs_head := x\<rparr>)"
  by (simp add: runtime_valid_def empty_runtime_def focus_ok_def cursors_ok_def validateMailboxContinuity_def bad_optional_int_def
     migrated_continuity_def as_record_def isNonNegativeSafeInteger_def safe_int_def max_safe_def)

lemma fresh_in_sync: "in_sync fresh_host sample_db [] empty_runtime"
proof -
  have "runtime_valid empty_runtime" using empty_runtime_valid [of "rs_head empty_runtime"] by simp
  then have "project_entries [] empty_runtime = Inr \<lparr>throughEntryId = None, activeEntryCount = 0, permanentEntryCount = 0,
      proj_snapshot = snapshot_of [] empty_runtime\<rparr>"
    using sample_facts(4)
    by (subst project_entries_Inr) (simp_all add: last_id_def legal_history_iff validateCompactionChain_def
        selectActiveMessages_def head_messages_def)
  moreover have "host_runtime fresh_host empty_runtime" by (simp add: fresh_host_def host_runtime_install)
  moreover have "rs_focus empty_runtime = None" by (simp add: empty_runtime_def)
  ultimately show ?thesis
    using sample_facts(1)
    by (simp add: in_sync_def snapshot_of_def fresh_host_def installRuntimeState_def createAgentContext_def)
qed

text \<open>C2. While the context shows the projection of the stored ledger, a commit of messages that continue a
  legal history, with a patch whose state is valid, keeps it so: it either fails in the repository,
  leaving memory and ledger as they were, or appends exactly the normalised messages to both.\<close>

theorem commit_keeps_memory_in_step:
  assumes "json_column col" "in_sync h db es rs" "patch_ok (or_else patch empty_patch)"
    and "\<And>ms. mapE normalizeDurableMessage messages = Inr ms \<Longrightarrow> legal_history (entry_messages es @ ms)"
    and "\<And>head nx. parseAgentRuntimeState (runtime_state_jv (patched_state rs (or_else patch empty_patch) head)) = Inr nx
      \<Longrightarrow> runtime_valid nx"
  shows "\<exists>r h' db'. commitChange col messages patch (h, db) = (r, h', db') \<and>
    (case r of
       Inl e \<Rightarrow> (\<exists>f. e = RepoFailed f) \<and> h' = h \<and> in_sync h db' es rs
     | Inr _ \<Rightarrow> \<exists>ns rs'. in_sync h' db' (es @ ns) rs' \<and> mapE normalizeDurableMessage messages = Inr (entry_messages ns))"
  by (rule commit_in_sync [OF assms])

lemma patched_empty_valid:
  assumes "parseAgentRuntimeState (runtime_state_jv (patched_state empty_runtime (or_else None empty_patch) head)) = Inr nx"
  shows "runtime_valid nx"
proof -
  have p: "patched_state empty_runtime (or_else None empty_patch) head = empty_runtime\<lparr>rs_head := head\<rparr>"
    by (simp add: or_else_def patched_empty)
  have "runtime_norm empty_runtime" using stored_runtime_norm [OF sample_facts(1)] .
  note pp = parse_patched [OF assms this]
  have "rs_mailboxCursors nx = rs_mailboxCursors empty_runtime" "rs_mailboxContinuity nx = rs_mailboxContinuity empty_runtime"
    "rs_focus nx = rs_focus empty_runtime"
    using pp(5-7) by (simp_all add: or_else_def empty_patch_def)
  with empty_runtime_valid [of None] show ?thesis by (simp add: runtime_valid_def)
qed

theorem commit_keeps_memory_in_step_witness:
  "\<exists>r h' db'. commitChange (\<lambda>v. v) [UserMsg (js ''hi'')] None (fresh_host, sample_db) = (r, h', db') \<and>
    (case r of
       Inl e \<Rightarrow> (\<exists>f. e = RepoFailed f) \<and> h' = fresh_host
     | Inr _ \<Rightarrow> \<exists>ns rs'. in_sync h' db' ([] @ ns) rs' \<and> entry_messages ns = [UserMsg (js ''hi'')])"
proof -
  have pk: "patch_ok (or_else None empty_patch)" using sample_patch by (simp add: or_else_def)
  have n: "mapE normalizeDurableMessage [UserMsg (js ''hi'')] = Inr [UserMsg (js ''hi'')]" by (simp add: normalize_user)
  have "legal_history (entry_messages [] @ ms)" if "mapE normalizeDurableMessage [UserMsg (js ''hi'')] = Inr ms" for ms
    using that n by (simp add: legal_history_iff)
  from commit_keeps_memory_in_step [OF json_column_id fresh_in_sync pk this patched_empty_valid]
  show ?thesis using n by (fastforce split: sum.splits)
qed

section \<open>What a commit does not check\<close>

lemma normalize_fixed: "message_norm m \<Longrightarrow> normalizeDurableMessage m = Inr m"
  using parse_entry_jv [of "MessageEntry 1 m 0" 0] by (simp add: normalizeDurableMessage_def)

lemma normalize_all: "list_all message_norm ms \<Longrightarrow> mapE normalizeDurableMessage ms = Inr ms"
  by (rule mapE_fixed) (auto simp: list_all_iff normalize_fixed)

lemma head_parses:
  assumes "runtime_norm rs" "0 < k"
  shows "parseAgentRuntimeState (runtime_state_jv (patched_state rs empty_patch (Some k))) = Inr (rs\<lparr>rs_head := Some k\<rparr>)"
proof -
  have "runtime_norm (rs\<lparr>rs_head := Some k\<rparr>)" using assms by (simp add: runtime_norm_def)
  then show ?thesis unfolding patched_empty by (rule parse_runtime_jv)
qed

lemma append_plain:
  assumes st: "stored db es rs" "runtime_valid rs" and ms: "ms \<noteq> []" "list_all message_norm ms"
  obtains rs' db' where "appendMessages (\<lambda>v. v) (rs_head rs) ms empty_patch db
      = (Inr \<lparr>ar_appendedEntries = new_entries (db_sequence db) (db_now db) ms, ar_runtimeState = rs'\<rparr>, db')"
    and "stored db' (es @ new_entries (db_sequence db) (db_now db) ms) rs'" "runtime_valid rs'"
proof -
  let ?new = "new_entries (db_sequence db) (db_now db) ms"
  have seq: "0 < db_sequence db" using st(1) by (simp add: stored_def)
  have ne: "?new \<noteq> []" using ms(1) new_entries_facts(2) [of "db_sequence db" "db_now db" ms] by force
  then have "last ?new \<in> set ?new" by simp
  then have "0 < entry_id (last ?new)" using new_entries_ids(2) seq by fastforce
  with ne obtain k where k: "last_id ?new = Some k" "0 < k" by (simp add: last_id_def)
  note run = appendMessages_run [OF json_column_id st(1) sample_patch ms(1) normalize_all [OF ms(2)] refl]
  from run [unfolded k(1) head_parses [OF stored_runtime_norm [OF st(1)] k(2)]] obtain rs' db' where
    r: "appendMessages (\<lambda>v. v) (rs_head rs) ms empty_patch db = (Inr \<lparr>ar_appendedEntries = ?new, ar_runtimeState = rs'\<rparr>, db')"
      "stored db' (es @ ?new) rs'" "runtime_same (rs\<lparr>rs_head := Some k\<rparr>) rs'"
    by auto
  have "runtime_valid rs'" using runtime_same_valid [OF r(3)] st(2) by (simp add: runtime_valid_def)
  with r that show ?thesis by blast
qed

definition reused_turn :: "agent_message list" where
  "reused_turn = [AssistantMsg [] [sample_call] None, ToolMsg (js ''c1'') (TextContent (js ''ok''))]"

definition reset_payload :: compaction_payload where
  "reset_payload = \<lparr>summary = js ''s'', firstKeptEntryId = None, tokensBefore = 1, estimatedTokensAfter = 1,
     creason = BehavioralReset, isSplitTurn = False, previousCompactionEntryId = None, mailboxAttentionState = []\<rparr>"

lemma reused_norm: "list_all message_norm reused_turn"
  using sample_calls sample_text by (simp add: reused_turn_def)

lemma reset_norm: "compaction_norm reset_payload"
proof -
  have "\<not> blank (js ''s'')" by (simp add: blank_iff is_space_def js_def)
  then show ?thesis by (simp add: reset_payload_def compaction_norm_def id_norm_def bounded_def max_safe_def attention_norm_def)
qed

lemma append_reset:
  assumes st: "stored db es rs" "runtime_valid rs"
  obtains rs' db' where "appendCompaction (\<lambda>v. v) (rs_head rs) reset_payload empty_patch db
      = (Inr \<lparr>ar_appendedEntries = [CompactionEntry (db_sequence db) reset_payload (db_now db)], ar_runtimeState = rs'\<rparr>, db')"
    and "stored db' (es @ [CompactionEntry (db_sequence db) reset_payload (db_now db)]) rs'" "runtime_valid rs'"
proof -
  have seq: "0 < db_sequence db" using st(1) by (simp add: stored_def)
  have n: "normalizeCompactionPayload reset_payload = Inr reset_payload"
    using parse_entry_jv [of "CompactionEntry 1 reset_payload 0" 0] reset_norm by (simp add: normalizeCompactionPayload_def)
  have "distinct (map fst (mailboxAttentionState reset_payload))" by (simp add: reset_payload_def)
  note run = appendCompaction_run [OF json_column_id st(1) sample_patch n this refl]
  from run [unfolded head_parses [OF stored_runtime_norm [OF st(1)] seq]] obtain rs' db' where
    r: "appendCompaction (\<lambda>v. v) (rs_head rs) reset_payload empty_patch db
        = (Inr \<lparr>ar_appendedEntries = [CompactionEntry (db_sequence db) reset_payload (db_now db)], ar_runtimeState = rs'\<rparr>, db')"
      "stored db' (es @ [CompactionEntry (db_sequence db) reset_payload (db_now db)]) rs'"
      "runtime_same (rs\<lparr>rs_head := Some (db_sequence db)\<rparr>) rs'"
    by auto
  have "runtime_valid rs'" using runtime_same_valid [OF r(3)] st(2) by (simp add: runtime_valid_def)
  with r that show ?thesis by blast
qed

lemma reused_scan:
  "scan (seen, []) reused_turn = (if js ''c1'' \<in> set seen then None else Some (js ''c1'' # seen, []))"
  using sample_calls sample_text by (simp add: reused_turn_def sample_call_def call_norm_def)

text \<open>A ledger whose first turn is compacted away, with the memory in step.\<close>

lemma compacted_state:
  obtains h db e1 e2 c rs where "in_sync h db [e1, e2, c] rs" "runtime_valid rs" "bh_ledgerHeadEntryId h = rs_head rs"
    and "entry_messages [e1, e2, c] = reused_turn"
    and "repo_reachable (\<lambda>v. v) db" "\<exists>t. ac_messages (bh_context h) = [UserMsg t]"
proof -
  have v0: "runtime_valid empty_runtime" using empty_runtime_valid [of "rs_head empty_runtime"] by simp
  have ne: "reused_turn \<noteq> []" by (simp add: reused_turn_def)
  from append_plain [OF sample_facts(1) v0 ne reused_norm] obtain rs1 db1 where
    a: "appendMessages (\<lambda>v. v) (rs_head empty_runtime) reused_turn empty_patch sample_db =
        (Inr \<lparr>ar_appendedEntries = new_entries (db_sequence sample_db) (db_now sample_db) reused_turn, ar_runtimeState = rs1\<rparr>, db1)"
      "stored db1 ([] @ new_entries (db_sequence sample_db) (db_now sample_db) reused_turn) rs1" "runtime_valid rs1"
    by blast
  obtain e1 e2 where e: "new_entries (db_sequence sample_db) (db_now sample_db) reused_turn = [e1, e2]"
    "entry_messages [e1, e2] = reused_turn"
    using new_entries_facts(1,2) [of "db_sequence sample_db" "db_now sample_db" reused_turn]
    by (cases "new_entries (db_sequence sample_db) (db_now sample_db) reused_turn" rule: remdups_adj.cases)
      (auto simp: reused_turn_def)
  have st1: "stored db1 [e1, e2] rs1" using a(2) e(1) by simp
  from append_reset [OF st1 a(3)] obtain rs2 db2 where
    b: "appendCompaction (\<lambda>v. v) (rs_head rs1) reset_payload empty_patch db1 =
        (Inr \<lparr>ar_appendedEntries = [CompactionEntry (db_sequence db1) reset_payload (db_now db1)], ar_runtimeState = rs2\<rparr>, db2)"
      "stored db2 ([e1, e2] @ [CompactionEntry (db_sequence db1) reset_payload (db_now db1)]) rs2" "runtime_valid rs2"
    by blast
  let ?c = "CompactionEntry (db_sequence db1) reset_payload (db_now db1)"
  have st2: "stored db2 [e1, e2, ?c] rs2" using b(2) by simp
  note norm = stored_entry_norm [OF st2]
  have m: "is_message_entry e1" "is_message_entry e2"
    using e(2) by (cases e1; cases e2; simp add: reused_turn_def)+
  have ids: "entry_id e1 < db_sequence db1" "entry_id e2 < db_sequence db1"
    using st1 by (simp_all add: stored_def)
  have chain: "validateCompactionChain [e1, e2, ?c] = Inr (Some (db_sequence db1, reset_payload))"
    using m by (cases e1; cases e2) (simp_all add: validateCompactionChain_def reset_payload_def)
  have sel: "selectActiveMessages [e1, e2, ?c] (Some (db_sequence db1, reset_payload)) = Inr []"
    using ids by (simp add: selectActiveMessages_def reset_payload_def keeps_def)
  have em: "entry_messages [e1, e2, ?c] = reused_turn" using e(2) m by (cases e1; cases e2) simp_all
  have legal: "legal_history (entry_messages [e1, e2, ?c])" unfolding em by (simp add: legal_history_iff reused_scan)
  have legal0: "legal_history []" by (simp add: legal_history_iff)
  have head: "rs_head rs2 = last_id [e1, e2, ?c]" using st2 by (simp add: stored_def)
  have proj: "project_entries [e1, e2, ?c] rs2 = Inr \<lparr>throughEntryId = last_id [e1, e2, ?c], activeEntryCount = 0,
      permanentEntryCount = 3, proj_snapshot = snapshot_of (head_messages (Some (db_sequence db1, reset_payload))) rs2\<rparr>"
    unfolding project_entries_Inr [OF norm] using chain sel legal legal0 head b(3)
    by (intro conjI exI [of _ "Some (db_sequence db1, reset_payload)"] exI [of _ "[]"]) simp_all
  define h where "h = installRuntimeState rs2 (fresh_host\<lparr>bh_context :=
      \<lparr>ac_messages = head_messages (Some (db_sequence db1, reset_payload)), ac_conversationFocus = rs_focus rs2\<rparr>\<rparr>)"
  have "bh_context h = \<lparr>ac_messages = head_messages (Some (db_sequence db1, reset_payload)), ac_conversationFocus = rs_focus rs2\<rparr>"
    by (simp add: h_def installRuntimeState_def)
  then have sync: "in_sync h db2 [e1, e2, ?c] rs2"
    using st2 proj by (simp add: in_sync_def h_def host_runtime_install snapshot_of_def)
  have "repo_reachable (\<lambda>v. v) db1"
    using repo_reachable.reach_append [OF repo_reachable.reach_init [of "\<lambda>v. v" 1000], of "CommitMessages reused_turn empty_patch" "rs_head empty_runtime"]
      a(1) sample_patch by (simp add: repo_append_def flip: sample_db_def)
  from repo_reachable.reach_append [OF this, of "CommitCompaction reset_payload empty_patch" "rs_head rs1"]
  have reach: "repo_reachable (\<lambda>v. v) db2" using b(1) sample_patch by (simp add: repo_append_def reset_payload_def)
  have "\<exists>t. ac_messages (bh_context h) = [UserMsg t]"
    by (simp add: h_def installRuntimeState_def head_messages_def renderSummaryMessage_def renderMachineStateMessages_def reset_payload_def)
  with that [OF sync b(3) _ em reach] sync show ?thesis by (auto simp: in_sync_def host_runtime_head)
qed

lemma projection_fails:
  assumes "stored db es rs" "project_entries es rs = Inl e"
  shows "projectAgentLedger (map entry_jv es) (runtime_state_jv rs) = Inl e"
proof -
  have "assertStrictlyIncreasingIds es = Inr ()" using assms(1) by (simp add: stored_def assertStrictlyIncreasingIds_Inr)
  then show ?thesis
    by (simp add: projectAgentLedger_typed [OF stored_entry_norm [OF assms(1)] stored_runtime_norm [OF assms(1)]] assms(2))
qed

lemma load_fails:
  assumes "stored db es rs" "projectAgentLedger (map entry_jv es) (runtime_state_jv rs) = Inl e"
  shows "fst (loadLedger col sha db) = Inl (ProjectFailed e)"
  by (simp add: loadLedger_def load_stored [OF assms(1)] assms(2))

text \<open>C20. A commit checks the messages against the projected history only: there is a reachable state, with
  memory and ledger in step, in which a commit that uses a tool-call id of the compacted part again is
  accepted and shown to the model, while the ledger it leaves behind can never be loaded again.\<close>

theorem accepted_commit_cannot_be_loaded:
  "\<exists>h db es rs h' db' rs'. repo_reachable (\<lambda>v. v) db \<and> in_sync h db es rs
     \<and> commitChange (\<lambda>v. v) reused_turn None (h, db) = (Inr (Some rs'), h', db')
     \<and> (\<exists>e. fst (loadLedger (\<lambda>v. v) sha db') = Inl (ProjectFailed e))"
proof -
  obtain h db e1 e2 c rs t where st: "in_sync h db [e1, e2, c] rs" "runtime_valid rs" "bh_ledgerHeadEntryId h = rs_head rs"
    and em: "entry_messages [e1, e2, c] = reused_turn" and reach: "repo_reachable (\<lambda>v. v) db"
    and ac: "ac_messages (bh_context h) = [UserMsg t]"
    using compacted_state by metis
  have sd: "stored db [e1, e2, c] rs" using st(1) by (simp add: in_sync_def)
  let ?new = "new_entries (db_sequence db) (db_now db) reused_turn"
  have ne: "reused_turn \<noteq> []" by (simp add: reused_turn_def)
  from append_plain [OF sd st(2) ne reused_norm] obtain rs' db' where
    a: "appendMessages (\<lambda>v. v) (rs_head rs) reused_turn empty_patch db =
        (Inr \<lparr>ar_appendedEntries = ?new, ar_runtimeState = rs'\<rparr>, db')" "stored db' ([e1, e2, c] @ ?new) rs'" "runtime_valid rs'"
    by blast
  have "commit_repo (\<lambda>v. v) (rs_head rs) reused_turn None db = (Inr (rs', reused_turn), db')"
    using a(1) ne only_messages_from [OF new_entries_facts(3), of "db_sequence db" "db_now db" reused_turn]
    by (simp add: commit_repo_def or_else_def new_entries_facts(1))
  moreover have norm: "list_all message_norm ([UserMsg t] @ reused_turn)" using reused_norm by simp
  have "fst (getSnapshot (bh_context h)) = [UserMsg t]" by (simp add: getSnapshot_def ac cloneMessages_def)
  moreover have "legal_history ([UserMsg t] @ reused_turn)" by (simp add: legal_history_iff reused_scan)
  then obtain k where "installProjection \<lparr>ps_schemaVersion = snapshot_schema_version, ps_messages = [UserMsg t] @ reused_turn,
      ps_focus = rs_focus rs'\<rparr> (bh_context h) = Inr k"
    using install_norm(1) [of "\<lparr>ps_schemaVersion = snapshot_schema_version, ps_messages = [UserMsg t] @ reused_turn,
      ps_focus = rs_focus rs'\<rparr>" "bh_context h"] norm a(3) by (auto simp: runtime_valid_def)
  ultimately have com: "commitChange (\<lambda>v. v) reused_turn None (h, db)
      = (Inr (Some rs'), installRuntimeState rs' (h\<lparr>bh_context := k\<rparr>), db')"
    using ne st(3) by (simp add: commitChange_def)
  have "\<not> legal_history (entry_messages ([e1, e2, c] @ ?new))"
    by (simp add: em [unfolded entry_messages_append] legal_history_iff scan_append new_entries_facts(1) reused_scan
        del: entry_messages.simps append_Cons append_Nil)
  then have "project_entries ([e1, e2, c] @ ?new) rs' \<noteq> Inr pr" for pr
    unfolding project_entries_Inr [OF stored_entry_norm [OF a(2)]] by blast
  then obtain e where e: "project_entries ([e1, e2, c] @ ?new) rs' = Inl e"
    by (cases "project_entries ([e1, e2, c] @ ?new) rs'") auto
  have "projectAgentLedger (map entry_jv ([e1, e2, c] @ ?new)) (runtime_state_jv rs') = Inl e"
    by (rule projection_fails [OF a(2) e])
  then have "fst (loadLedger (\<lambda>v. v) sha db') = Inl (ProjectFailed e)" by (rule load_fails [OF a(2)])
  with com st(1) reach show ?thesis by blast
qed

section \<open>Loading\<close>

lemma load_projects:
  assumes "stored db es rs" "project_entries es rs = Inr pr"
  shows "projectAgentLedger (map entry_jv es) (runtime_state_jv rs) = Inr pr"
  using assms by (simp add: projectAgentLedger_typed [OF stored_entry_norm [OF assms(1)] stored_runtime_norm [OF assms(1)]]
      assertStrictlyIncreasingIds_Inr [THEN iffD2] stored_def)

lemma projection_integrity:
  assumes "project_entries es rs = Inr pr"
  shows "ir_ok (validateBotSnapshotIntegrity (snapshot_jv (proj_snapshot pr)) (JObj (rs_mailboxCursors rs)) (JObj (rs_mailboxContinuity rs)))"
  using assms by (auto simp: project_entries_def bindE_Inr_iff assertSnapshotIntegrity_def Let_def split: if_splits)

lemma entry_messages_le: "length (entry_messages es) \<le> length es"
  by (induction es rule: entry_messages.induct) auto

lemma entry_norm_pos: "entry_norm e \<Longrightarrow> 0 < entry_id e"
  by (cases e) auto

lemma projection_counts:
  assumes "project_entries es rs = Inr pr" "list_all entry_norm es" "ids_increase es"
  shows "activeEntryCount pr \<le> length es" "permanentEntryCount pr = length es" "throughEntryId pr = last_id es"
    "ps_schemaVersion (proj_snapshot pr) = snapshot_schema_version"
proof -
  obtain latest active where la: "selectActiveMessages es latest = Inr active" "activeEntryCount pr = length active"
      "permanentEntryCount pr = length es" "throughEntryId pr = last_id es" "ps_schemaVersion (proj_snapshot pr) = snapshot_schema_version"
    using assms(1) by (auto simp: project_entries_Inr [OF assms(2)] snapshot_of_def)
  obtain pre where "entry_messages es = pre @ active" using active_suffix [OF assms(3) la(1)] by blast
  then have "length active \<le> length (entry_messages es)" by simp
  also have "\<dots> \<le> length es" by (rule entry_messages_le)
  finally show "activeEntryCount pr \<le> length es" "permanentEntryCount pr = length es" "throughEntryId pr = last_id es"
    "ps_schemaVersion (proj_snapshot pr) = snapshot_schema_version"
    using la by simp_all
qed

lemma own_checkpoint_parses:
  assumes pr: "project_entries es rs = Inr pr" and es: "list_all entry_norm es" "ids_increase es" and len: "int (length es) \<le> max_safe"
  shows "parseCheckpointProjection (checkpointProjectionPayload (canonical_projection pr)) (throughEntryId pr) rs
    = Some (canonical_projection pr)"
proof -
  note c = projection_counts [OF pr es]
  have "int (activeEntryCount pr) \<le> max_safe" "int (permanentEntryCount pr) \<le> max_safe" using c(1,2) len by simp_all
  moreover have "isPersistedSnapshot (snapshot_jv (proj_snapshot pr))"
    by (simp add: isPersistedSnapshot_def snapshot_jv_def has_exact_keys_def obj_has_def as_array_def c(4))
  ultimately show ?thesis
    using projection_integrity [OF pr]
    by (simp add: parseCheckpointProjection_def checkpointProjectionPayload_def canonical_projection_def has_exact_keys_def obj_has_def
        isNonNegativeSafeInteger_def safe_int_def)
qed

lemma own_checkpoint_hits:
  assumes st: "stored db es rs" and pr: "project_entries es rs = Inr pr" and len: "int (length es) \<le> max_safe"
    and sha: "\<forall>s. \<not> blank (sha s)"
  obtains p where "fst (loadLedger (\<lambda>v. v) sha (snd (loadLedger (\<lambda>v. v) sha db)))
      = Inr \<lparr>ll_projection = p, ll_runtimeState = rs, ll_checkpointStatus = Hit\<rparr>"
    and "projectionsMatch p (canonical_projection pr)"
proof -
  let ?c = "\<lparr>cn_entries = es, cn_runtimeState = rs\<rparr>"
  let ?fp = "fingerprintCanonicalAgentState sha ?c"
  obtain read where read: "loadCheckpoint db = (read, db)" using load_checkpoint_db [of db] by (cases "loadCheckpoint db") simp
  show ?thesis
  proof (cases "try_checkpoint read (canonical_projection pr) ?fp rs")
    case (Inr p)
    then have "loadLedger (\<lambda>v. v) sha db = (Inr \<lparr>ll_projection = p, ll_runtimeState = rs, ll_checkpointStatus = Hit\<rparr>, db)"
      by (simp add: loadLedger_def load_stored [OF st] load_projects [OF st pr] read Let_def)
    with that [of p] try_matches [OF Inr] show ?thesis by simp
  next
    case (Inl status)
    let ?db = "db\<lparr>db_checkpoint := Some (own_checkpoint (\<lambda>v. v) sha es rs pr)\<rparr>"
    have fp: "\<not> blank ?fp" using sha by (simp add: fingerprintCanonicalAgentState_def)
    note saved = own_checkpoint_saved [OF st pr fp]
    have "snd (loadLedger (\<lambda>v. v) sha db) = ?db"
      by (simp add: loadLedger_def load_stored [OF st] load_projects [OF st pr] read Let_def Inl saved(1))
    moreover have st': "stored ?db es rs" using st by (simp add: stored_def stored_runtime_def)
    have "loadCheckpoint ?db = (Inr (db_checkpoint ?db), ?db)"
      using fp saved(2) by (simp add: loadCheckpoint_def returnA_def own_checkpoint_def agent_checkpoint_schema_version_def safe_int_def max_safe_def)
    moreover have "try_checkpoint (Inr (db_checkpoint ?db)) (canonical_projection pr) ?fp rs = Inr (canonical_projection pr)"
      using own_checkpoint_parses [OF pr stored_entry_norm [OF st] _ len] st
      by (simp add: try_checkpoint_def stored_def canonical_projection_def own_checkpoint_def)
    ultimately have "fst (loadLedger (\<lambda>v. v) sha (snd (loadLedger (\<lambda>v. v) sha db)))
        = Inr \<lparr>ll_projection = canonical_projection pr, ll_runtimeState = rs, ll_checkpointStatus = Hit\<rparr>"
      by (simp add: loadLedger_def load_stored [OF st'] load_projects [OF st' pr] Let_def)
    then show ?thesis by (rule that) simp
  qed
qed

text \<open>C21. Whatever the checkpoint holds, loading a stored ledger returns the projection of its entries and its
  runtime state, and changes nothing but the checkpoint: a cached projection is returned only when it
  prints as the canonical one.\<close>

theorem load_returns_canonical:
  assumes "stored db es rs" "project_entries es rs = Inr pr"
  shows "\<exists>p status c. loadLedger col sha db
      = (Inr \<lparr>ll_projection = p, ll_runtimeState = rs, ll_checkpointStatus = status\<rparr>, db\<lparr>db_checkpoint := c\<rparr>)
    \<and> projectionsMatch p (canonical_projection pr)"
  by (rule load_transparent [OF assms]) blast

lemma empty_projects: "\<exists>pr. project_entries [] empty_runtime = Inr pr"
  using fresh_in_sync by (auto simp: in_sync_def)

theorem load_returns_canonical_witness:
  "\<exists>l. fst (loadLedger (\<lambda>v. v) (\<lambda>s. js ''d'') sample_db) = Inr l \<and> ll_runtimeState l = empty_runtime"
proof -
  obtain pr where "project_entries [] empty_runtime = Inr pr" using empty_projects by blast
  from load_returns_canonical [OF sample_facts(1) this, of "\<lambda>v. v" "\<lambda>s. js ''d''"] show ?thesis by auto
qed

text \<open>In a column that keeps the order of keys the checkpoint that a load writes is used by the next load.\<close>

theorem second_load_hits:
  assumes "stored db es rs" "project_entries es rs = Inr pr" "int (length es) \<le> max_safe" "\<forall>s. \<not> blank (sha s)"
  shows "\<exists>l. fst (loadLedger (\<lambda>v. v) sha (snd (loadLedger (\<lambda>v. v) sha db))) = Inr l
    \<and> ll_checkpointStatus l = Hit \<and> projectionsMatch (ll_projection l) (canonical_projection pr)"
  by (rule own_checkpoint_hits [OF assms]) simp

theorem second_load_hits_witness:
  "\<exists>l. fst (loadLedger (\<lambda>v. v) (\<lambda>s. js ''d'') (snd (loadLedger (\<lambda>v. v) (\<lambda>s. js ''d'') sample_db))) = Inr l
    \<and> ll_checkpointStatus l = Hit"
proof -
  obtain pr where "project_entries [] empty_runtime = Inr pr" using empty_projects by blast
  moreover have "\<not> blank (js ''d'')" by (simp add: blank_iff is_space_def js_def)
  ultimately show ?thesis using second_load_hits [OF sample_facts(1), of pr "\<lambda>s. js ''d''"] by (auto simp: max_safe_def)
qed

text \<open>C22. A checkpoint in a column of PostgreSQL's \<open>jsonb\<close> kind, as the schema declares it, is never used
  when the column gives the snapshot's keys in another order than the code writes them: the projection
  read from it never prints as the canonical one.  So every load returns the canonical projection and
  writes the checkpoint, and the next load finds that very row, of its own version, head and
  fingerprint, and calls it corrupt.\<close>

theorem jsonb_checkpoint_never_hits:
  assumes "jsonb_column col" "stored db es rs" "project_entries es rs = Inr pr" "checkpoint_ordered db"
    and "\<forall>s. \<not> blank (sha s)"
  shows "\<exists>status db'. loadLedger col sha db
      = (Inr \<lparr>ll_projection = canonical_projection pr, ll_runtimeState = rs, ll_checkpointStatus = status\<rparr>, db')
    \<and> status \<noteq> Hit
    \<and> db' = db\<lparr>db_checkpoint := Some
        \<lparr>cr_schemaVersion = agent_checkpoint_schema_version, cr_throughEntryId = throughEntryId pr,
         cr_fingerprint = fingerprintCanonicalAgentState sha \<lparr>cn_entries = es, cn_runtimeState = rs\<rparr>,
         cr_projection = col (checkpointProjectionPayload (canonical_projection pr))\<rparr>\<rparr>
    \<and> loadLedger col sha db'
      = (Inr \<lparr>ll_projection = canonical_projection pr, ll_runtimeState = rs, ll_checkpointStatus = Corrupt\<rparr>, db')"
proof -
  let ?fp = "fingerprintCanonicalAgentState sha \<lparr>cn_entries = es, cn_runtimeState = rs\<rparr>"
  let ?db = "db\<lparr>db_checkpoint := Some (own_checkpoint col sha es rs pr)\<rparr>"
  have fp: "\<not> blank ?fp" using assms(5) by (simp add: fingerprintCanonicalAgentState_def)
  obtain l where l: "fst (loadLedger col sha db) = Inr l" "ll_checkpointStatus l \<noteq> Hit"
      "ll_projection l = canonical_projection pr" "ll_runtimeState l = rs"
      "snd (loadLedger col sha db) = saveCheckpointBestEffort col (canonical_projection pr) ?fp db"
    by (rule load_never_hits [OF assms(1-4)])
  have "stored ?db es rs" using assms(2) by (simp add: stored_def stored_runtime_def)
  from own_reordered_corrupt [OF assms(1) this assms(3) fp]
  have "loadLedger col sha ?db
      = (Inr \<lparr>ll_projection = canonical_projection pr, ll_runtimeState = rs, ll_checkpointStatus = Corrupt\<rparr>, ?db)" by simp
  moreover have "loadLedger col sha db
      = (Inr \<lparr>ll_projection = canonical_projection pr, ll_runtimeState = rs, ll_checkpointStatus = ll_checkpointStatus l\<rparr>, ?db)"
    using l own_checkpoint_saved(1) [OF assms(2,3) fp] by (simp add: prod_eq_iff)
  ultimately show ?thesis using l(2) unfolding own_checkpoint_def by blast
qed

theorem jsonb_checkpoint_never_hits_witness:
  "\<exists>l db'. loadLedger length_sorted (\<lambda>s. js ''d'') sample_db = (Inr l, db') \<and> db_checkpoint db' \<noteq> None
    \<and> ll_checkpointStatus l \<noteq> Hit \<and> loadLedger length_sorted (\<lambda>s. js ''d'') db' = (Inr (l\<lparr>ll_checkpointStatus := Corrupt\<rparr>), db')"
proof -
  obtain pr where pr: "project_entries [] empty_runtime = Inr pr" using empty_projects by blast
  have ord: "checkpoint_ordered sample_db" by (simp add: checkpoint_ordered_def sample_db_def initial_db_def)
  have "\<not> blank (js ''d'')" by (simp add: blank_iff is_space_def js_def)
  with jsonb_checkpoint_never_hits [OF jsonb_length_sorted sample_facts(1) pr ord, of "\<lambda>s. js ''d''"]
  show ?thesis by auto
qed

end
