(* ===== verification/Working_Context.thy ===== *)
theory Working_Context
  imports Ledger_Types Js_Text
begin

text \<open>
  \<open>src/agent/working-context.ts\<close>: the messages a provider is given, made from the durable ones by
  replacing every stored image.  The store of images is the parameter \<open>resolve\<close>: it throws, has no
  such image, or returns the image block.
\<close>

record working_stats =
  ws_sourceMessages :: nat
  ws_projectedMessages :: nat
  ws_hydratedImages :: nat
  ws_omittedImages :: nat
  ws_unavailableImages :: nat

type_synonym 'x image_store = "content_block \<Rightarrow> 'x + (jstr \<times> jstr) option"

definition renderImageMarker :: "bool \<Rightarrow> jstr \<Rightarrow> jstr \<Rightarrow> int option \<Rightarrow> int option \<Rightarrow> jstr option \<Rightarrow> jstr" where
  "renderImageMarker omitted i mt w h d = stringify (JObj (
     [(js ''type'', JStr (if omitted then js ''working_context_image_omitted'' else js ''working_context_image_unavailable''))]
     @ (if omitted then [(js ''reason'', JStr (js ''agent_image_mode_description''))] else [])
     @ [(js ''mediaId'', JStr i), (js ''mediaType'', JStr mt)]
     @ opt_prop ''width'' jint w @ opt_prop ''height'' jint h @ opt_prop ''description'' JStr d))"

definition legacy_image_marker :: "jstr \<Rightarrow> jstr" where
  "legacy_image_marker mt = stringify (JObj [(js ''type'', JStr (js ''working_context_legacy_image_omitted'')),
     (js ''reason'', JStr (js ''agent_image_mode_description'')), (js ''mediaType'', JStr mt)])"

text \<open>One block: what it becomes, and the counters.\<close>

fun work_block :: "bool \<Rightarrow> 'x image_store \<Rightarrow> working_stats \<Rightarrow> content_block \<Rightarrow> content_block \<times> working_stats" where
  "work_block native resolve st (TextBlock t) = (TextBlock t, st)"
| "work_block native resolve st (ImageBlock mt d) =
     (if native then (ImageBlock mt d, st\<lparr>ws_hydratedImages := ws_hydratedImages st + 1\<rparr>)
      else (TextBlock (legacy_image_marker mt), st\<lparr>ws_omittedImages := ws_omittedImages st + 1\<rparr>))"
| "work_block native resolve st (ImageRef i mt w h d) =
     (if \<not> native
      then (TextBlock (renderImageMarker True i mt w h d), st\<lparr>ws_omittedImages := ws_omittedImages st + 1\<rparr>)
      else (case resolve (ImageRef i mt w h d) of
              Inr (Some (mt', d')) \<Rightarrow> (ImageBlock mt' d', st\<lparr>ws_hydratedImages := ws_hydratedImages st + 1\<rparr>)
            | _ \<Rightarrow> (TextBlock (renderImageMarker False i mt w h d),
                    st\<lparr>ws_unavailableImages := ws_unavailableImages st + 1\<rparr>)))"

fun work_blocks :: "bool \<Rightarrow> 'x image_store \<Rightarrow> working_stats \<Rightarrow> content_block list \<Rightarrow> content_block list \<times> working_stats" where
  "work_blocks native resolve st [] = ([], st)"
| "work_blocks native resolve st (b # bs) =
     (let (b', st1) = work_block native resolve st b; (bs', st2) = work_blocks native resolve st1 bs in (b' # bs', st2))"

fun work_message :: "bool \<Rightarrow> 'x image_store \<Rightarrow> working_stats \<Rightarrow> agent_message \<Rightarrow> agent_message \<times> working_stats" where
  "work_message native resolve st (ToolMsg i (BlockContent bs)) =
     (let (bs', st') = work_blocks native resolve st bs in (ToolMsg i (BlockContent bs'), st'))"
| "work_message native resolve st m = (m, st)"

fun work_messages :: "bool \<Rightarrow> 'x image_store \<Rightarrow> working_stats \<Rightarrow> agent_message list \<Rightarrow> agent_message list \<times> working_stats" where
  "work_messages native resolve st [] = ([], st)"
| "work_messages native resolve st (m # ms) =
     (let (m', st1) = work_message native resolve st m; (ms', st2) = work_messages native resolve st1 ms in (m' # ms', st2))"

definition buildWorkingContextProjection :: "bool \<Rightarrow> 'x image_store \<Rightarrow> agent_message list \<Rightarrow> agent_message list \<times> working_stats" where
  "buildWorkingContextProjection native resolve source =
     work_messages native resolve \<lparr>ws_sourceMessages = length source, ws_projectedMessages = length source,
       ws_hydratedImages = 0, ws_omittedImages = 0, ws_unavailableImages = 0\<rparr> source"

section \<open>What the provider sees\<close>

fun content_images :: "tool_content \<Rightarrow> content_block list" where
  "content_images (TextContent t) = []"
| "content_images (BlockContent bs) = filter (\<lambda>b. \<forall>t. b \<noteq> TextBlock t) bs"

fun message_images :: "agent_message \<Rightarrow> content_block list" where
  "message_images (ToolMsg i c) = content_images c"
| "message_images _ = []"

definition all_images :: "agent_message list \<Rightarrow> content_block list" where
  "all_images ms = concat (map message_images ms)"

definition is_image_block :: "content_block \<Rightarrow> bool" where
  "is_image_block b = (case b of ImageBlock _ _ \<Rightarrow> True | _ \<Rightarrow> False)"

text \<open>The same conversation but for the content of tool results.\<close>

fun same_turn :: "agent_message \<Rightarrow> agent_message \<Rightarrow> bool" where
  "same_turn (ToolMsg i c) (ToolMsg j d) \<longleftrightarrow> i = j \<and>
     (case c of TextContent t \<Rightarrow> d = TextContent t | BlockContent bs \<Rightarrow> (\<exists>ds. d = BlockContent ds \<and> length ds = length bs))"
| "same_turn m n \<longleftrightarrow> m = n"

definition image_count :: "working_stats \<Rightarrow> nat" where
  "image_count st = ws_hydratedImages st + ws_omittedImages st + ws_unavailableImages st"

lemma work_block_facts:
  assumes "work_block native resolve st b = (b', st')"
  shows "\<forall>i mt w h d. b' \<noteq> ImageRef i mt w h d"
    and "image_count st' = image_count st + (if \<exists>t. b = TextBlock t then 0 else 1)"
    and "ws_hydratedImages st' = ws_hydratedImages st + (if is_image_block b' then 1 else 0)"
    and "native \<or> (\<exists>t. b' = TextBlock t)"
  using assms
  by (cases b; auto simp: image_count_def is_image_block_def split: if_splits sum.splits option.splits)+

lemma work_blocks_facts:
  assumes "work_blocks native resolve st bs = (bs', st')"
  shows "length bs' = length bs \<and> (\<forall>b \<in> set bs'. \<forall>i mt w h d. b \<noteq> ImageRef i mt w h d)
    \<and> image_count st' = image_count st + length (content_images (BlockContent bs))
    \<and> ws_hydratedImages st' = ws_hydratedImages st + length (content_images (BlockContent bs'))
    \<and> (\<not> native \<longrightarrow> content_images (BlockContent bs') = [])"
  using assms
proof (induction bs arbitrary: bs' st st')
  case (Cons b bs)
  obtain b1 st1 where b1: "work_block native resolve st b = (b1, st1)" by fastforce
  obtain bs2 st2 where bs2: "work_blocks native resolve st1 bs = (bs2, st2)" by fastforce
  have out: "bs' = b1 # bs2" "st' = st2" using Cons.prems b1 bs2 by simp_all
  note f = work_block_facts [OF b1]
  have "is_image_block b1 \<longleftrightarrow> (\<forall>t. b1 \<noteq> TextBlock t)" using f(1) by (cases b1) (auto simp: is_image_block_def)
  with Cons.IH [OF bs2] f show ?case by (auto simp: out)
qed simp

lemma work_message_facts:
  assumes "work_message native resolve st m = (m', st')"
  shows "same_turn m m' \<and> (\<forall>b \<in> set (message_images m'). is_image_block b)
    \<and> image_count st' = image_count st + length (message_images m)
    \<and> ws_hydratedImages st' = ws_hydratedImages st + length (message_images m')
    \<and> (\<not> native \<longrightarrow> message_images m' = [])"
proof (cases "\<exists>i bs. m = ToolMsg i (BlockContent bs)")
  case True
  then obtain i bs where m: "m = ToolMsg i (BlockContent bs)" by blast
  obtain bs2 st2 where bs2: "work_blocks native resolve st bs = (bs2, st2)" by fastforce
  have "is_image_block b" if "b \<in> set (content_images (BlockContent bs2))" for b
    using work_blocks_facts [OF bs2] that by (cases b) (auto simp: is_image_block_def)
  with work_blocks_facts [OF bs2] assms bs2 show ?thesis by (auto simp: m simp del: content_images.simps)
next
  case False
  then have eq: "m' = m" "st' = st" using assms by (cases "(native, resolve, st, m)" rule: work_message.cases; auto)+
  have "message_images m = []"
    using False by (cases m rule: message_images.cases) (auto, metis content_images.simps(1) tool_content.exhaust)
  with eq False show ?thesis by (cases m) (auto split: tool_content.splits)
qed

lemma work_messages_facts:
  assumes "work_messages native resolve st ms = (ms', st')"
  shows "list_all2 same_turn ms ms' \<and> (\<forall>b \<in> set (all_images ms'). is_image_block b)
    \<and> image_count st' = image_count st + length (all_images ms)
    \<and> ws_hydratedImages st' = ws_hydratedImages st + length (all_images ms')
    \<and> (\<not> native \<longrightarrow> all_images ms' = [])"
  using assms
proof (induction ms arbitrary: ms' st st')
  case (Cons m ms)
  obtain m1 st1 where m1: "work_message native resolve st m = (m1, st1)" by fastforce
  obtain ms2 st2 where ms2: "work_messages native resolve st1 ms = (ms2, st2)" by fastforce
  have "ms' = m1 # ms2" "st' = st2" using Cons.prems m1 ms2 by simp_all
  with Cons.IH [OF ms2] work_message_facts [OF m1] show ?case by (auto simp: all_images_def)
qed (simp add: all_images_def)

lemma working_context_images:
  assumes "buildWorkingContextProjection native resolve source = (ms, st)"
  shows "list_all2 same_turn source ms" "\<forall>b \<in> set (all_images ms). is_image_block b"
    and "image_count st = length (all_images source)" "ws_hydratedImages st = length (all_images ms)"
    and "\<not> native \<Longrightarrow> all_images ms = []"
  using work_messages_facts [OF assms [unfolded buildWorkingContextProjection_def]] by (simp_all add: image_count_def)

end
