(* ===== verification/Compaction_Coordinator.thy ===== *)
theory Compaction_Coordinator
  imports Compaction_Facts Working_Context Ledger_Commit Ledger_Loader
begin

text \<open>
  \<open>src/agent/compaction-coordinator.ts\<close>: one compaction of the stored ledger, with its second attempt
  when the head has moved, the back-off after a failed one, and the installation of the result in the
  context and the loop.  What the provider, the hooks and the abort signal do, what other writers do to the
  database while the summarizer runs (\<open>run_meanwhile\<close>), and the reload are parameters.
\<close>

section \<open>Input and options\<close>

record compact_request =
  cq_reason :: compaction_reason
  cq_contextTokens :: int
  cq_contextWindowTokens :: int
  cq_providerPrefixHeadEntryId :: "int option"

record 'x coordinator_options =
  op_summarizeCandidate :: "(summarizer_request \<Rightarrow> 'x cached_failure + jstr) option"
  op_beforeCompact :: "(ready_preparation \<Rightarrow> 'x cached_failure + before_result) option"
  op_triggerTokens :: "int option"
  op_reserveTokens :: "int option"
  op_keepRecentTokens :: "int option"
  op_maxSummaryTokens :: "int option"
  op_failureBackoffMs :: "int option"

record ('x, 't) coordinator_deps =
  cd_chat :: "'t llm_request \<Rightarrow> 'x + llm_result"
  cd_complete :: "summarizer_request \<Rightarrow> 'x + llm_result"
  cd_isClaudeCode :: bool
  cd_nativeImages :: bool
  cd_images :: "'x image_store"
  cd_tools :: "'t list"
  cd_systemPrompt :: jstr
  cd_options :: "'x coordinator_options"
  cd_defaultReserveTokens :: int
  cd_defaultKeepRecentTokens :: int
  cd_defaultFailureBackoffMs :: int

text \<open>What a run meets: the clock (first at the entry, then when a failure is recorded), the abort signal
  in each attempt, and the other writers.\<close>

record run_env =
  run_now :: "nat \<Rightarrow> int"
  run_aborted :: "nat \<Rightarrow> nat \<Rightarrow> bool"
  run_meanwhile :: "nat \<Rightarrow> ledger_db \<Rightarrow> ledger_db"

text \<open>The state: the back-off of the coordinator, the loop with its context, and the database.\<close>

record compact_state =
  cp_nextAttemptAt :: int
  cp_host :: bot_host
  cp_db :: ledger_db

type_synonym reload = "bot_host \<times> ledger_db \<Rightarrow> bot_host \<times> ledger_db"

definition reserve_tokens :: "('x, 't) coordinator_deps \<Rightarrow> compact_request \<Rightarrow> int" where
  "reserve_tokens d q =
     (case op_reserveTokens (cd_options d) of
        Some r \<Rightarrow> r
      | None \<Rightarrow> (case op_triggerTokens (cd_options d) of
                   None \<Rightarrow> cd_defaultReserveTokens d
                 | Some t \<Rightarrow> max 0 (cq_contextWindowTokens q - t)))"

definition keep_recent_tokens :: "('x, 't) coordinator_deps \<Rightarrow> int" where
  "keep_recent_tokens d = or_else (op_keepRecentTokens (cd_options d)) (cd_defaultKeepRecentTokens d)"

definition recordThresholdFailure :: "('x, 't) coordinator_deps \<Rightarrow> compact_request \<Rightarrow> run_env \<Rightarrow> compact_state \<Rightarrow> compact_state" where
  "recordThresholdFailure d q run st =
     (if cq_reason q \<noteq> Threshold then st
      else st\<lparr>cp_nextAttemptAt := run_now run 1
             + max 1 (or_else (op_failureBackoffMs (cd_options d)) (cd_defaultFailureBackoffMs d))\<rparr>)"

section \<open>The plan of an attempt\<close>

datatype coordinator_error =
    CoordinatorLoad repo_error
  | CoordinatorProject ledger_error
  | CoordinatorEstimate range_error
  | CoordinatorPrepare preparation_error

datatype attempt_plan =
    NothingToDo
  | Refused cannot_reason
  | Proceed ready_preparation ledger_projection

definition projected_tokens :: "ledger_projection \<Rightarrow> int" where
  "projected_tokens pr = foldl (\<lambda>s m. min max_safe (s + me_tokens (estimateMessageTokens m))) 0 (ps_messages (proj_snapshot pr))"

definition effective_tokens :: "compact_request \<Rightarrow> ledger_entry list \<Rightarrow> ledger_projection \<Rightarrow> coordinator_error + int" where
  "effective_tokens q es pr =
     (if cq_reason q = Threshold \<and> cq_providerPrefixHeadEntryId q \<noteq> None
      then (case estimateLedgerContextTokens es (Some
                 \<lparr>pp_throughEntryId = cq_providerPrefixHeadEntryId q, pp_inputTokens = cq_contextTokens q\<rparr>) of
              Inl e \<Rightarrow> Inl (CoordinatorEstimate e) | Inr r \<Rightarrow> Inr (ce_tokens r))
      else if cq_reason q = BehavioralReset then Inr (projected_tokens pr)
      else Inr (cq_contextTokens q))"

definition plan_attempt :: "('x, 't) coordinator_deps \<Rightarrow> compact_request \<Rightarrow> canonical_state \<Rightarrow> coordinator_error + attempt_plan" where
  "plan_attempt d q c =
     (case projectAgentLedger (map entry_jv (cn_entries c)) (runtime_state_jv (cn_runtimeState c)) of
        Inl e \<Rightarrow> Inl (CoordinatorProject e)
      | Inr pr \<Rightarrow>
          bindE (effective_tokens q (cn_entries c) pr) (\<lambda>tokens.
            if cq_reason q = Threshold \<and> tokens \<le> max 0 (cq_contextWindowTokens q - reserve_tokens d q) then Inr NothingToDo
            else (case prepareCompaction \<lparr>ci_entries = cn_entries c, ci_latestProjection = pr,
                         ci_previousCompaction = findLatestCompaction (cn_entries c), ci_contextTokens = tokens,
                         ci_contextWindowTokens = cq_contextWindowTokens q, ci_reserveTokens = reserve_tokens d q,
                         ci_keepRecentTokens = keep_recent_tokens d, ci_reason = cq_reason q\<rparr> of
                    Inl e \<Rightarrow> Inl (CoordinatorPrepare e)
                  | Inr None \<Rightarrow> Inr NothingToDo
                  | Inr (Some (CannotCompact r _)) \<Rightarrow> Inr (Refused r)
                  | Inr (Some (Ready prep)) \<Rightarrow> Inr (Proceed prep pr))))"

section \<open>The candidate\<close>

definition continuity_props :: "continuity_state \<Rightarrow> jobj" where
  "continuity_props s = (case continuity_jv s of JObj ps \<Rightarrow> ps | _ \<Rightarrow> [])"

definition compacted_continuity :: "runtime_state \<Rightarrow> jobj" where
  "compacted_continuity rs = continuity_props (recordMailboxCompaction (parseMailboxContinuityState (JObj (rs_mailboxContinuity rs))))"

definition summarizeCompactionCandidate :: "(summarizer_request \<Rightarrow> 'x + llm_result) \<Rightarrow> summarizer_request \<Rightarrow> 'x cached_failure + jstr" where
  "summarizeCompactionCandidate complete request =
     (case complete request of Inl e \<Rightarrow> Inl (LlmFailed e) | Inr r \<Rightarrow> Inr (trim (lm_content r)))"

datatype 'x candidate_error = PrefixMismatch | CandidateThrew "'x cached_failure compaction_failure"

text \<open>The summarizer: the one of the options, the cached context of the provider, or a request of its own.\<close>

definition choose_summarizer :: "('x, 't) coordinator_deps \<Rightarrow> run_env \<Rightarrow> nat \<Rightarrow> ready_preparation \<Rightarrow> ledger_projection
    \<Rightarrow> 'x candidate_error + (summarizer_request \<Rightarrow> 'x cached_failure + jstr)" where
  "choose_summarizer d run n prep pr =
     (case op_summarizeCandidate (cd_options d) of
        Some s \<Rightarrow> Inr s
      | None \<Rightarrow>
          if rp_reason prep \<noteq> BehavioralReset \<and> cd_isClaudeCode d \<and> \<not> rp_isSplitTurn prep
          then (let total = length (ps_messages (proj_snapshot pr));
                    active = length (rp_entriesToSummarize prep) + length (rp_tailEntries prep);
                    synthetic = int total - int active;
                    prefix = synthetic + int (length (rp_entriesToSummarize prep))
                in if synthetic < 0 \<or> prefix \<le> 0 \<or> int total \<le> prefix then Inl PrefixMismatch
                   else Inr (\<lambda>_. summarizeCachedClaudeCompaction (cd_chat d) (\<lambda>k. run_aborted run n (k + 4)) (cd_systemPrompt d)
                     (take (nat prefix) (fst (buildWorkingContextProjection (cd_nativeImages d) (cd_images d) (ps_messages (proj_snapshot pr)))))
                     (cd_tools d) (op_maxSummaryTokens (cd_options d))))
          else Inr (summarizeCompactionCandidate (cd_complete d)))"

definition make_candidate :: "('x, 't) coordinator_deps \<Rightarrow> run_env \<Rightarrow> nat \<Rightarrow> canonical_state \<Rightarrow> ready_preparation \<Rightarrow> ledger_projection
    \<Rightarrow> 'x candidate_error + compaction_candidate" where
  "make_candidate d run n c prep pr =
     bindE (choose_summarizer d run n prep pr) (\<lambda>summarize.
       case createCompactionCandidate
           \<lparr>env_beforeCompact = op_beforeCompact (cd_options d), env_summarize = summarize, env_aborted = run_aborted run n\<rparr>
           (cn_entries c) ((cn_runtimeState c)\<lparr>rs_mailboxContinuity := compacted_continuity (cn_runtimeState c)\<rparr>)
           prep (op_maxSummaryTokens (cd_options d)) None of
         Inl e \<Rightarrow> Inl (CandidateThrew e)
       | Inr cand \<Rightarrow> Inr cand)"

section \<open>The commit\<close>

datatype install_result = Installed bot_host ledger_db | NotInstalled

text \<open>After the append: the entry is looked for, the projection of the candidate is shown, the runtime state
  installed, and the whole reloaded from the repository, whose failure is only logged.\<close>

definition install_compaction :: "reload \<Rightarrow> ledger_projection \<Rightarrow> append_result \<Rightarrow> bot_host \<Rightarrow> ledger_db \<Rightarrow> install_result" where
  "install_compaction reload projection r h db =
     (if find (\<lambda>e. \<not> is_message_entry e) (ar_appendedEntries r) = None then NotInstalled
      else (case installProjection (proj_snapshot projection) (bh_context h) of
              Inl _ \<Rightarrow> NotInstalled
            | Inr ctx \<Rightarrow> (let (h', db') = reload (installRuntimeState (ar_runtimeState r) (h\<lparr>bh_context := ctx\<rparr>), db)
                          in Installed h' db')))"

text \<open>\<open>None\<close>: try again on the new head.\<close>

definition commit_compaction :: "(jv \<Rightarrow> jv) \<Rightarrow> reload \<Rightarrow> ('x, 't) coordinator_deps \<Rightarrow> compact_request \<Rightarrow> run_env \<Rightarrow> nat
    \<Rightarrow> jobj \<Rightarrow> ready_preparation \<Rightarrow> compaction_payload \<Rightarrow> ledger_projection \<Rightarrow> compact_state \<Rightarrow> bool option \<times> compact_state" where
  "commit_compaction col reload d q run n continuity prep payload projection st =
     (case appendCompaction col (rp_expectedHeadEntryId prep) payload (empty_patch\<lparr>pt_mailboxContinuity := Some continuity\<rparr>) (cp_db st) of
        (Inl (HeadChanged x y), db) \<Rightarrow>
          if n = 0 then (None, st\<lparr>cp_db := db\<rparr>)
          else (Some False, recordThresholdFailure d q run (st\<lparr>cp_db := db\<rparr>))
      | (Inl _, db) \<Rightarrow> (Some False, recordThresholdFailure d q run (st\<lparr>cp_db := db\<rparr>))
      | (Inr r, db) \<Rightarrow>
          (case install_compaction reload projection r (cp_host st) db of
             NotInstalled \<Rightarrow> (Some False, recordThresholdFailure d q run (st\<lparr>cp_db := db\<rparr>))
           | Installed h db' \<Rightarrow> (Some True, st\<lparr>cp_nextAttemptAt := 0, cp_host := h, cp_db := db'\<rparr>)))"

definition compact_attempt :: "(jv \<Rightarrow> jv) \<Rightarrow> reload \<Rightarrow> ('x, 't) coordinator_deps \<Rightarrow> compact_request \<Rightarrow> run_env \<Rightarrow> nat
    \<Rightarrow> compact_state \<Rightarrow> (coordinator_error + bool option) \<times> compact_state" where
  "compact_attempt col reload d q run n st =
     (case loadCanonicalState (cp_db st) of
        (Inl e, db) \<Rightarrow> (Inl (CoordinatorLoad e), st\<lparr>cp_db := db\<rparr>)
      | (Inr c, db) \<Rightarrow>
          (case plan_attempt d q c of
             Inl e \<Rightarrow> (Inl e, st\<lparr>cp_db := db\<rparr>)
           | Inr NothingToDo \<Rightarrow> (Inr (Some False), st\<lparr>cp_db := db\<rparr>)
           | Inr (Refused r) \<Rightarrow> (Inr (Some False), recordThresholdFailure d q run (st\<lparr>cp_db := db\<rparr>))
           | Inr (Proceed prep pr) \<Rightarrow>
               (let st' = st\<lparr>cp_db := run_meanwhile run n db\<rparr> in
                case make_candidate d run n c prep pr of
                  Inl _ \<Rightarrow> (Inr (Some False), recordThresholdFailure d q run st')
                | Inr (CandidateCancelled r) \<Rightarrow>
                    (Inr (Some False), if r = js ''aborted'' then st' else recordThresholdFailure d q run st')
                | Inr (CandidateInvalid _ _) \<Rightarrow> (Inr (Some False), recordThresholdFailure d q run st')
                | Inr (CandidateReady payload projection _ _) \<Rightarrow>
                    apfst Inr (commit_compaction col reload d q run n (compacted_continuity (cn_runtimeState c)) prep payload projection st'))))"

definition compact :: "(jv \<Rightarrow> jv) \<Rightarrow> reload \<Rightarrow> ('x, 't) coordinator_deps \<Rightarrow> compact_request \<Rightarrow> run_env
    \<Rightarrow> compact_state \<Rightarrow> (coordinator_error + bool) \<times> compact_state" where
  "compact col reload d q run st =
     (if cq_reason q = Threshold \<and> run_now run 0 < cp_nextAttemptAt st then (Inr False, st)
      else if cq_reason q = Threshold \<and> cq_providerPrefixHeadEntryId q = None
         \<and> cq_contextTokens q \<le> max 0 (cq_contextWindowTokens q - reserve_tokens d q) then (Inr False, st)
      else (case compact_attempt col reload d q run 0 st of
              (Inl e, st1) \<Rightarrow> (Inl e, st1)
            | (Inr (Some b), st1) \<Rightarrow> (Inr b, st1)
            | (Inr None, st1) \<Rightarrow>
                (case compact_attempt col reload d q run 1 st1 of
                   (Inl e, st2) \<Rightarrow> (Inl e, st2)
                 | (Inr (Some b), st2) \<Rightarrow> (Inr b, st2)
                 | (Inr None, st2) \<Rightarrow> (Inr False, st2))))"

end
