(* ===== verification/Ledger_Reload.thy ===== *)
theory Ledger_Reload
  imports Ledger_Commit Ledger_Loader Runtime_Properties
begin

text \<open>
  \<open>reloadProjectionFromCanonical\<close> of \<open>src/agent/bot-loop-agent.ts\<close>: the ledger is loaded, its projection
  installed in the context and its runtime state in the loop.  A projection from the checkpoint is JSON as
  read; what the copies of \<open>src/agent/agent-context.ts\<close> take from it is read field by field here.
\<close>

section \<open>Messages read from JSON\<close>

definition str_field :: "jobj \<Rightarrow> string \<Rightarrow> jstr" where
  "str_field ps k = (case obj_get ps (js k) of JStr s \<Rightarrow> s | _ \<Rightarrow> [])"

definition int_field :: "jobj \<Rightarrow> string \<Rightarrow> int option" where
  "int_field ps k = (case obj_get ps (js k) of JNum (NInt i) \<Rightarrow> Some i | _ \<Rightarrow> None)"

definition props_of :: "jv \<Rightarrow> jobj" where
  "props_of v = (case v of JObj ps \<Rightarrow> ps | _ \<Rightarrow> [])"

definition elems_of :: "jv \<Rightarrow> jv list" where
  "elems_of v = (case v of JArr vs \<Rightarrow> vs | _ \<Rightarrow> [])"

definition call_of_jv :: "jv \<Rightarrow> tool_call" where
  "call_of_jv v = (let ps = props_of v in
     \<lparr>tc_id = str_field ps ''id'', tc_name = str_field ps ''name'', tc_args = props_of (obj_get ps (js ''args''))\<rparr>)"

definition block_of_jv :: "jv \<Rightarrow> content_block" where
  "block_of_jv v = (let ps = props_of v in
     if obj_get ps (js ''type'') = JStr (js ''text'') then TextBlock (str_field ps ''text'')
     else if obj_get ps (js ''type'') = JStr (js ''image_ref'')
     then ImageRef (str_field ps ''mediaId'') (str_field ps ''mediaType'') (int_field ps ''width'') (int_field ps ''height'')
            (case obj_get ps (js ''description'') of JStr d \<Rightarrow> Some d | _ \<Rightarrow> None)
     else (let src = props_of (obj_get ps (js ''source'')) in ImageBlock (str_field src ''media_type'') (str_field src ''data'')))"

definition content_of_jv :: "jv \<Rightarrow> tool_content" where
  "content_of_jv v = (case v of JStr s \<Rightarrow> TextContent s | _ \<Rightarrow> BlockContent (map block_of_jv (elems_of v)))"

definition message_of_jv :: "jv \<Rightarrow> agent_message" where
  "message_of_jv v = (let ps = props_of v in
     if obj_get ps (js ''role'') = JStr (js ''user'') then UserMsg (str_field ps ''content'')
     else if obj_get ps (js ''role'') = JStr (js ''assistant'')
     then AssistantMsg (str_field ps ''content'') (map call_of_jv (elems_of (obj_get ps (js ''toolCalls''))))
            (case obj_get ps (js ''nativeBlocks'') of JArr bs \<Rightarrow> Some (map props_of bs) | _ \<Rightarrow> None)
     else ToolMsg (str_field ps ''toolCallId'') (content_of_jv (obj_get ps (js ''content''))))"

definition focus_of_jv :: "jv \<Rightarrow> conversation_ref option" where
  "focus_of_jv v = (case v of
     JObj ps \<Rightarrow> Some \<lparr>platform = (if obj_get ps (js ''platform'') = JStr (js ''qq'') then Qq else Feishu),
       accountId = str_field ps ''accountId'',
       ckind = (if obj_get ps (js ''kind'') = JStr (js ''group'') then GroupChat else PrivateChat),
       externalId = str_field ps ''externalId''\<rparr>
   | _ \<Rightarrow> None)"

section \<open>The reload\<close>

definition install_snapshot_json :: "jv \<Rightarrow> agent_context \<Rightarrow> integrity_error list + agent_context" where
  "install_snapshot_json v c =
     (let validation = validateBotSnapshotIntegrity v (JObj []) JUndef; ps = props_of v in
      if \<not> ir_ok validation then Inl (ir_errors validation)
      else Inr (c\<lparr>ac_messages := cloneMessages (map message_of_jv (elems_of (obj_get ps (js ''messages'')))),
                  ac_conversationFocus := cloneConversationFocus (focus_of_jv (obj_get ps (js ''conversationFocus'')))\<rparr>))"

text \<open>An error of the load or of the check leaves the memory as it was.\<close>

definition reloadProjectionFromCanonical :: "(jv \<Rightarrow> jv) \<Rightarrow> (jstr \<Rightarrow> jstr) \<Rightarrow> bot_host \<times> ledger_db \<Rightarrow> bot_host \<times> ledger_db" where
  "reloadProjectionFromCanonical col sha = (\<lambda>(h, db).
     (case loadLedger col sha db of
        (Inl _, db') \<Rightarrow> (h, db')
      | (Inr l, db') \<Rightarrow>
          (case install_snapshot_json (lp_snapshot (ll_projection l)) (bh_context h) of
             Inl _ \<Rightarrow> (h, db')
           | Inr c \<Rightarrow> (installRuntimeState (ll_runtimeState l) (h\<lparr>bh_context := c\<rparr>), db'))))"

section \<open>Reading back\<close>

lemma block_of_jv_jv: "block_of_jv (content_block_jv b) = b"
  by (cases b) (auto simp: block_of_jv_def props_of_def str_field_def int_field_def opt_prop_def obj_get_def split: option.splits)

lemma call_of_jv_jv: "call_of_jv (tool_call_jv c) = c"
  by (simp add: call_of_jv_def tool_call_jv_def props_of_def str_field_def)

lemma content_of_jv_jv: "content_of_jv (tool_content_jv c) = c"
  by (cases c) (simp_all add: content_of_jv_def elems_of_def block_of_jv_jv comp_def)

lemma message_of_jv_jv: "message_of_jv (message_jv m) = m"
proof (cases m)
  case (AssistantMsg c calls nb)
  have "props_of \<circ> JObj = (\<lambda>ps. ps)" by (auto simp: props_of_def)
  then show ?thesis
    by (cases nb) (simp_all add: AssistantMsg message_of_jv_def props_of_def str_field_def elems_of_def call_of_jv_jv opt_prop_def comp_def)
qed (simp_all add: message_of_jv_def props_of_def str_field_def content_of_jv_jv)

lemma focus_of_jv_jv: "focus_of_jv (focus_jv f) = f"
  by (cases f) (auto simp: focus_of_jv_def focus_jv_def null_or_def str_field_def platform_str_def kind_str_def
      split: chat_platform.splits conversation_kind.splits)

lemma install_snapshot_jv: "install_snapshot_json (snapshot_jv s) c = installProjection s c"
  by (simp add: install_snapshot_json_def installProjection_def snapshot_jv_def props_of_def elems_of_def message_of_jv_jv
      focus_of_jv_jv comp_def Let_def)

end
