(* ===== verification/Coordinator_Facts.thy ===== *)
theory Coordinator_Facts
  imports Compaction_Coordinator Compaction_Properties Runtime_Properties Ledger_Reload
begin

text \<open>
  What the compaction coordinator guarantees to the loop: the contract of the reload it is given
  (\<open>projection_reload\<close>), and under it that a compaction either leaves the memory as it was or commits
  an entry whose projection the memory shows.
\<close>

section \<open>Changing the head\<close>

lemma projection_legal:
  assumes "list_all entry_norm es" "ids_increase es" "project_entries es rs = Inr pr"
  shows "legal_history (ps_messages (proj_snapshot pr))"
  using assms(3) head_messages_legal(1) [OF assms(1)] by (auto simp: project_entries_Inr [OF assms(1)] snapshot_of_def)

lemma install_context: "bh_context (installRuntimeState rs h) = bh_context h"
  by (simp add: installRuntimeState_def)

lemma runtime_same_fields: "runtime_same s t \<Longrightarrow> rs_head t = rs_head s \<and> rs_focus t = rs_focus s"
  by (cases s; cases t) (auto simp: runtime_same_def)

lemma parse_new_head:
  assumes "parseAgentRuntimeState (runtime_state_jv (s\<lparr>rs_head := Some a\<rparr>)) = Inr x" "0 < b"
  shows "parseAgentRuntimeState (runtime_state_jv (s\<lparr>rs_head := Some b\<rparr>)) = Inr (x\<lparr>rs_head := Some b\<rparr>)"
  using assms unfolding runtime_state_row runtime_row_Inr by (simp add: row_of_state_def)

lemma ids_below_next: "ids_increase es \<Longrightarrow> es \<noteq> [] \<Longrightarrow> \<forall>e \<in> set es. entry_id e < entry_id (last es) + 1"
proof
  fix e assume es: "ids_increase es" "es \<noteq> []" and "e \<in> set es"
  then have "e \<in> set (butlast es) \<or> e = last es" by (metis Un_iff append_butlast_last_id empty_iff insert_iff list.set(1,2) set_append)
  moreover have "sorted_wrt (<) (map entry_id (butlast es @ [last es]))" using es by (simp add: ids_increase_def)
  ultimately show "entry_id e < entry_id (last es) + 1" by (auto simp: sorted_wrt_append)
qed

lemma norm_positive: "list_all entry_norm es \<Longrightarrow> \<forall>e \<in> set es. 0 < entry_id e"
  by (auto simp: list_all_iff entry_norm_pos)

section \<open>A ready candidate\<close>

lemma candidate_ready_facts:
  assumes ledger: "project_entries es rs = Inr pr" "list_all entry_norm es" "ids_increase es"
    and prep: "prepareCompaction i = Inr (Some (Ready prep))" "ci_entries i = es" "ci_latestProjection i = pr"
      "ci_previousCompaction i = findLatestCompaction es"
    and cand: "createCompactionCandidate env es (rs\<lparr>rs_mailboxContinuity := q\<rparr>) prep m None
      = Inr (CandidateReady payload projection tok k)"
  obtains h x where "compaction_norm payload" "distinct (map fst (mailboxAttentionState payload))"
    and "rp_expectedHeadEntryId prep = last_id es" "es \<noteq> []"
    and "parseAgentRuntimeState (runtime_state_jv (rs\<lparr>rs_mailboxContinuity := q, rs_head := Some h\<rparr>)) = Inr x" "runtime_valid x"
    and "proj_snapshot projection = snapshot_of (head_messages (Some (0, payload)) @ map entry_message (rp_tailEntries prep)) x"
    and "\<And>cid t y. \<forall>e \<in> set es. entry_id e < cid \<Longrightarrow> rs_head y = Some cid \<Longrightarrow> runtime_valid y \<Longrightarrow>
      project_entries (es @ [CompactionEntry cid payload t]) y = Inr
        \<lparr>throughEntryId = Some cid, activeEntryCount = length (rp_tailEntries prep), permanentEntryCount = Suc (length es),
         proj_snapshot = snapshot_of (head_messages (Some (0, payload)) @ map entry_message (rp_tailEntries prep)) y\<rparr>"
proof -
  let ?rs = "rs\<lparr>rs_mailboxContinuity := q\<rparr>"
  obtain raw where "candidate_from_raw env es ?rs prep m None raw = Inr (CandidateReady payload projection tok k)"
    using created_from_raw [OF cand] by blast
  then obtain s tokens r where s: "s = trim s" "s \<noteq> []"
    and made: "CandidateReady payload projection tok k = candidate_of es ?rs prep (candidate_payload prep s None) tokens r"
  proof (cases rule: from_raw_cases)
    case (made t s tokens r)
    then show ?thesis using that [of s tokens r] by (auto simp: validate_ok)
  qed simp_all
  have nb: "\<not> blank s" using s by (simp add: blank_def)
  note part = ready_partition [OF prep(1)]
  have "active_entries i \<noteq> []" using part(1,3) by auto
  then have ne: "es \<noteq> []" by (auto simp: active_entries_def selectActiveMessageEntries_def prep(2) Let_def split: option.splits)
  have head: "rp_expectedHeadEntryId prep = last_id es"
    using prep(1,3) ledger(1) by (auto elim!: prepare_ready simp: ready_reset_def ready_at_def Let_def project_entries_Inr [OF ledger(2)])
  let ?h = "entry_id (last es) + 1"
  have ex: "rp_expectedHeadEntryId prep = Some (entry_id (last es))" using head ne by (simp add: last_id_def)
  have p: "payload = candidate_payload prep s None"
    and pj: "projectAgentLedger (map entry_jv (es @ [CompactionEntry ?h payload 0])) (runtime_state_jv (?rs\<lparr>rs_head := Some ?h\<rparr>)) = Inr projection"
    using made unfolding candidate_of_def ex by (auto split: if_splits sum.splits)
  note pos = norm_positive [OF ledger(2)]
  have pos': "\<forall>c. ci_previousCompaction i = Some c \<longrightarrow> 0 < entry_id c"
    using prep(4) pos latest_compaction [of es] by auto
  have pn: "compaction_norm payload" unfolding p by (rule payload_norm [OF prep(1) _ pos' nb]) (use pos prep(2) in auto)
  have cpos: "0 < ?h" using pos ne by (simp add: add_strict_increasing2 less_imp_le)
  have norm: "list_all entry_norm (es @ [CompactionEntry ?h payload 0])" using ledger(2) pn cpos by simp
  obtain es' x where x: "mapE_idx (\<lambda>i v. parseAgentLedgerEntry v i) 0 (map entry_jv (es @ [CompactionEntry ?h payload 0])) = Inr es'"
      "parseAgentRuntimeState (runtime_state_jv (?rs\<lparr>rs_head := Some ?h\<rparr>)) = Inr x" "project_entries es' x = Inr projection"
    using projectAgentLedger_Inr [OF pj] by metis
  have es': "es' = es @ [CompactionEntry ?h payload 0]" using x(1) parse_entries_jv [OF norm] by simp
  have rv: "runtime_valid x" "rs_head x = last_id es'" using x(3) norm unfolding es' by (auto simp: project_entries_Inr)
  have hx: "rs_head x = Some ?h" using rv(2) by (simp add: es' last_id_def)
  have prev: "effective_previous i = findLatestCompaction es" using prep(2,4) by (auto simp: effective_previous_def split: option.splits)
  have proj: "project_entries (es @ [CompactionEntry cid payload t]) y = Inr
        \<lparr>throughEntryId = Some cid, activeEntryCount = length (rp_tailEntries prep), permanentEntryCount = Suc (length es),
         proj_snapshot = snapshot_of (head_messages (Some (0, payload)) @ map entry_message (rp_tailEntries prep)) y\<rparr>"
    if "\<forall>e \<in> set es. entry_id e < cid" "rs_head y = Some cid" "runtime_valid y" for cid t y
    using compaction_projects [OF ledger(2,3,1) prep(1,2) prev nb _ that(1) p that(2,3)] by (simp add: head_messages_def)
  have "proj_snapshot projection = snapshot_of (head_messages (Some (0, payload)) @ map entry_message (rp_tailEntries prep)) x"
    using proj [OF ids_below_next [OF ledger(3) ne] hx rv(1), of 0] x(3) by (auto simp: es')
  moreover have "distinct (map fst (mailboxAttentionState payload))"
    by (simp add: p candidate_payload_def captured_distinct [OF capture_form])
  moreover have "rs\<lparr>rs_mailboxContinuity := q, rs_head := Some ?h\<rparr> = ?rs\<lparr>rs_head := Some ?h\<rparr>" by simp
  ultimately show ?thesis using that [of ?h x] pn head ne x(2) rv(1) proj by metis
qed

section \<open>The reload\<close>

text \<open>What the coordinator needs of the reload: it keeps a memory that is in step with the ledger in step.
  Its own invariant is about the checkpoint only.\<close>

locale projection_reload =
  fixes inv :: "checkpoint_row option \<Rightarrow> bool"
    and reload :: "bot_host \<times> ledger_db \<Rightarrow> bot_host \<times> ledger_db"
  assumes reload_keeps: "in_sync h db es rs \<Longrightarrow> inv (db_checkpoint db) \<Longrightarrow> reload (h, db) = (h', db') \<Longrightarrow>
    in_sync h' db' es rs \<and> inv (db_checkpoint db')"

definition checkpoint_reordered :: "checkpoint_row option \<Rightarrow> bool" where
  "checkpoint_reordered c \<longleftrightarrow> (\<forall>x. c = Some x \<longrightarrow> snapshot_reordered (cr_projection x))"

lemma checkpoint_ordered_reordered: "checkpoint_ordered db \<longleftrightarrow> checkpoint_reordered (db_checkpoint db)"
  by (simp add: checkpoint_ordered_def checkpoint_reordered_def)

locale jsonb_store =
  fixes col :: "jv \<Rightarrow> jv" and sha :: "jstr \<Rightarrow> jstr"
  assumes jsonb: "jsonb_column col"

lemma jsonb_reload_keeps:
  assumes col: "jsonb_column col" and sync: "in_sync h db es rs" and inv: "checkpoint_reordered (db_checkpoint db)"
    and re: "reloadProjectionFromCanonical col sha (h, db) = (h', db')"
  shows "in_sync h' db' es rs \<and> checkpoint_reordered (db_checkpoint db')"
proof -
  obtain pr where st: "stored db es rs" and pr: "project_entries es rs = Inr pr"
    and ctx: "ac_messages (bh_context h) = ps_messages (proj_snapshot pr)" "ac_conversationFocus (bh_context h) = rs_focus rs"
    and rt: "host_runtime h rs"
    using sync by (auto simp: in_sync_def)
  have ord: "checkpoint_ordered db" using inv by (simp add: checkpoint_ordered_reordered)
  obtain l where l: "fst (loadLedger col sha db) = Inr l" "ll_projection l = canonical_projection pr" "ll_runtimeState l = rs"
      "checkpoint_ordered (snd (loadLedger col sha db))"
    by (rule load_never_hits [OF col st pr ord, of sha]) blast
  obtain c' where db1: "loadLedger col sha db = (Inr l, db\<lparr>db_checkpoint := c'\<rparr>)"
  proof (rule load_transparent [OF st pr, of col sha])
    fix p status c'
    assume "loadLedger col sha db = (Inr \<lparr>ll_projection = p, ll_runtimeState = rs, ll_checkpointStatus = status\<rparr>, db\<lparr>db_checkpoint := c'\<rparr>)"
    with l(1) show ?thesis by (intro that [of c']) simp
  qed
  have st': "stored (db\<lparr>db_checkpoint := c'\<rparr>) es rs" using st by (simp add: stored_def stored_runtime_def)
  note norm = stored_entry_norm [OF st]
  have inc: "ids_increase es" using st by (simp add: stored_def)
  have snap: "lp_snapshot (canonical_projection pr) = snapshot_jv (proj_snapshot pr)" by (simp add: canonical_projection_def)
  have ps: "ps_focus (proj_snapshot pr) = rs_focus rs" "ps_schemaVersion (proj_snapshot pr) = snapshot_schema_version"
    using pr by (auto simp: project_entries_Inr [OF norm] snapshot_of_def)
  show ?thesis
  proof (cases "installProjection (proj_snapshot pr) (bh_context h)")
    case (Inl e)
    then have "h' = h" "db' = db\<lparr>db_checkpoint := c'\<rparr>"
      using re by (simp_all add: reloadProjectionFromCanonical_def db1 l(2) snap install_snapshot_jv)
    with st' sync l(4) show ?thesis by (simp add: in_sync_def db1 checkpoint_ordered_reordered)
  next
    case (Inr c)
    then have h': "h' = installRuntimeState rs (h\<lparr>bh_context := c\<rparr>)" "db' = db\<lparr>db_checkpoint := c'\<rparr>"
      using re by (simp_all add: reloadProjectionFromCanonical_def db1 l(2,3) snap install_snapshot_jv)
    have "ac_messages c = ps_messages (proj_snapshot pr) \<and> ac_conversationFocus c = ps_focus (proj_snapshot pr)"
      by (rule install_norm(2) [OF projected_norm [OF norm inc pr] ps(2) Inr])
    then show ?thesis
      using st' pr ps(1) l(4) by (auto simp: in_sync_def h' host_runtime_install install_context db1 checkpoint_ordered_reordered)
  qed
qed

sublocale jsonb_store \<subseteq> projection_reload checkpoint_reordered "reloadProjectionFromCanonical col sha"
  by unfold_locales (rule jsonb_reload_keeps [OF jsonb])

interpretation length_store: jsonb_store length_sorted "\<lambda>s. js ''d''"
  by unfold_locales (rule jsonb_length_sorted)

section \<open>The commit of a candidate\<close>

definition keeps_checkpoint :: "'a action \<Rightarrow> bool" where
  "keeps_checkpoint m \<longleftrightarrow> (\<forall>db. db_checkpoint (snd (m db)) = db_checkpoint db)"

named_theorems keeps_intros

lemma keeps_bind [keeps_intros]: "keeps_checkpoint m \<Longrightarrow> (\<And>x. keeps_checkpoint (f x)) \<Longrightarrow> keeps_checkpoint (bindA m f)"
  by (auto simp: keeps_checkpoint_def bindA_def split: prod.splits sum.splits) (metis snd_conv)+

lemma keeps_basic [keeps_intros]:
  "keeps_checkpoint (returnA x)" "keeps_checkpoint (throwA e)" "keeps_checkpoint (liftE r)" "keeps_checkpoint loadRuntimeState"
  "keeps_checkpoint (create_row col t v)" "keeps_checkpoint (assertExpectedHead h)" "keeps_checkpoint (assertMatchingHead h k)"
  "keeps_checkpoint (update_runtime_row f)"
  by (auto simp: keeps_checkpoint_def returnA_def throwA_def liftE_def loadRuntimeState_def create_row_def Let_def
      assertExpectedHead_def assertMatchingHead_def update_runtime_row_def split: sum.splits option.splits)

lemma keeps_transaction [keeps_intros]: "keeps_checkpoint m \<Longrightarrow> keeps_checkpoint (transaction m)"
  by (auto simp: keeps_checkpoint_def transaction_def split: prod.splits sum.splits) (metis snd_conv)

lemma append_compaction_checkpoint: "keeps_checkpoint (appendCompaction col h p patch)"
  unfolding appendCompaction_def persistRuntimeState_def by (intro keeps_intros)

text \<open>The committed entry is the candidate's, and its projection is what the candidate showed.\<close>

lemma commit_ready:
  assumes col: "json_column col" and st: "stored db es rs" and pr: "project_entries es rs = Inr pr"
    and prep: "prepareCompaction i = Inr (Some (Ready prep))" "ci_entries i = es" "ci_latestProjection i = pr"
      "ci_previousCompaction i = findLatestCompaction es"
    and cand: "createCompactionCandidate env es (rs\<lparr>rs_mailboxContinuity := q\<rparr>) prep m None
      = Inr (CandidateReady payload projection tok k)"
    and st2: "stored db2 es rs"
  obtains cid t rs' db' ctx where "appendCompaction col (rp_expectedHeadEntryId prep) payload (empty_patch\<lparr>pt_mailboxContinuity := Some q\<rparr>) db2
      = (Inr \<lparr>ar_appendedEntries = [CompactionEntry cid payload t], ar_runtimeState = rs'\<rparr>, db')"
    and "installProjection (proj_snapshot projection) c = Inr ctx"
    and "\<And>h :: bot_host. bh_context h = ctx \<Longrightarrow> in_sync (installRuntimeState rs' h) db' (es @ [CompactionEntry cid payload t]) rs'"
proof -
  note norm = stored_entry_norm [OF st]
  have inc: "ids_increase es" using st by (simp add: stored_def)
  obtain h x where pn: "compaction_norm payload" "distinct (map fst (mailboxAttentionState payload))"
    and head: "rp_expectedHeadEntryId prep = last_id es" "es \<noteq> []"
    and parse: "parseAgentRuntimeState (runtime_state_jv (rs\<lparr>rs_mailboxContinuity := q, rs_head := Some h\<rparr>)) = Inr x" "runtime_valid x"
    and snap: "proj_snapshot projection = snapshot_of (head_messages (Some (0, payload)) @ map entry_message (rp_tailEntries prep)) x"
    and proj: "\<And>cid t y. \<forall>e \<in> set es. entry_id e < cid \<Longrightarrow> rs_head y = Some cid \<Longrightarrow> runtime_valid y \<Longrightarrow>
      project_entries (es @ [CompactionEntry cid payload t]) y = Inr
        \<lparr>throughEntryId = Some cid, activeEntryCount = length (rp_tailEntries prep), permanentEntryCount = Suc (length es),
         proj_snapshot = snapshot_of (head_messages (Some (0, payload)) @ map entry_message (rp_tailEntries prep)) y\<rparr>"
    by (rule candidate_ready_facts [OF pr norm inc prep cand]) blast
  have n: "normalizeCompactionPayload payload = Inr payload"
    using parse_entry_jv [of "CompactionEntry 1 payload 0" 0] pn(1) by (simp add: normalizeCompactionPayload_def)
  have seq: "0 < db_sequence db2" "\<forall>e \<in> set es. entry_id e < db_sequence db2" using st2 by (auto simp: stored_def)
  let ?patch = "empty_patch\<lparr>pt_mailboxContinuity := Some q\<rparr>"
  let ?new = "CompactionEntry (db_sequence db2) payload (db_now db2)"
  have pk: "patch_ok ?patch" using sample_patch by (simp add: patch_ok_def)
  have pst: "patched_state rs ?patch (Some (db_sequence db2)) = rs\<lparr>rs_mailboxContinuity := q, rs_head := Some (db_sequence db2)\<rparr>"
    by (simp add: patched_state_def empty_patch_def or_else_def)
  have np: "parseAgentRuntimeState (runtime_state_jv (patched_state rs ?patch (Some (db_sequence db2))))
      = Inr (x\<lparr>rs_head := Some (db_sequence db2)\<rparr>)"
    unfolding pst using parse_new_head [where s = "rs\<lparr>rs_mailboxContinuity := q\<rparr>" and a = h and x = x and b = "db_sequence db2"] parse(1) seq(1) by simp
  have hd: "rp_expectedHeadEntryId prep = rs_head rs" using head(1) st by (simp add: stored_def)
  from appendCompaction_run [OF col st2 pk n pn(2) refl, unfolded np] obtain rs' db' where
    app: "appendCompaction col (rp_expectedHeadEntryId prep) payload ?patch db2
        = (Inr \<lparr>ar_appendedEntries = [?new], ar_runtimeState = rs'\<rparr>, db')"
      "stored db' (es @ [?new]) rs'" "runtime_same (x\<lparr>rs_head := Some (db_sequence db2)\<rparr>) rs'"
    by (auto simp: hd)
  have rs': "runtime_valid rs'" "rs_head rs' = Some (db_sequence db2)" "rs_focus rs' = rs_focus x"
    using runtime_same_valid [OF app(3)] parse(2) runtime_same_fields [OF app(3)] by (simp_all add: runtime_valid_def)
  note pe = proj [OF seq(2) rs'(2,1), of "db_now db2"]
  note norm' = stored_entry_norm [OF app(2)]
  have inc': "ids_increase (es @ [?new])" using app(2) by (simp add: stored_def)
  have sn: "ps_messages (proj_snapshot projection) = head_messages (Some (0, payload)) @ map entry_message (rp_tailEntries prep)"
    "ps_focus (proj_snapshot projection) = rs_focus rs'" "ps_schemaVersion (proj_snapshot projection) = snapshot_schema_version"
    by (simp_all add: snap snapshot_of_def rs'(3))
  have mn: "list_all message_norm (ps_messages (proj_snapshot projection))"
    using projected_norm [OF norm' inc' pe] by (simp add: sn snapshot_of_def)
  have "legal_history (ps_messages (proj_snapshot projection))"
    using projection_legal [OF norm' inc' pe] by (simp add: sn snapshot_of_def)
  moreover have "focus_ok (ps_focus (proj_snapshot projection))" using rs'(1) by (simp add: sn runtime_valid_def)
  ultimately obtain ctx where ctx: "installProjection (proj_snapshot projection) c = Inr ctx"
    using install_norm(1) [OF mn sn(3)] by blast
  note cm = install_norm(2) [OF mn sn(3) ctx]
  show ?thesis
  proof (rule that [OF app(1) ctx])
    fix h :: bot_host assume "bh_context h = ctx"
    then show "in_sync (installRuntimeState rs' h) db' (es @ [?new]) rs'"
      using app(2) pe cm by (auto simp: in_sync_def host_runtime_install install_context sn snapshot_of_def)
  qed
qed

section \<open>Attempts\<close>

lemma plan_proceeds:
  assumes "plan_attempt d q \<lparr>cn_entries = es, cn_runtimeState = rs\<rparr> = Inr (Proceed prep pr)" "stored db es rs"
  obtains i where "project_entries es rs = Inr pr" "prepareCompaction i = Inr (Some (Ready prep))" "ci_entries i = es"
    "ci_latestProjection i = pr" "ci_previousCompaction i = findLatestCompaction es"
proof -
  have pr: "projectAgentLedger (map entry_jv es) (runtime_state_jv rs) = project_entries es rs"
    using projectAgentLedger_typed [OF stored_entry_norm [OF assms(2)] stored_runtime_norm [OF assms(2)]] assms(2)
    by (simp add: stored_def assertStrictlyIncreasingIds_Inr [THEN iffD2])
  show ?thesis
  proof (cases "project_entries es rs")
    case (Inr p)
    with assms(1) pr obtain tokens where "p = pr" "prepareCompaction \<lparr>ci_entries = es, ci_latestProjection = pr,
         ci_previousCompaction = findLatestCompaction es, ci_contextTokens = tokens,
         ci_contextWindowTokens = cq_contextWindowTokens q, ci_reserveTokens = reserve_tokens d q,
         ci_keepRecentTokens = keep_recent_tokens d, ci_reason = cq_reason q\<rparr> = Inr (Some (Ready prep))"
      by (auto simp: plan_attempt_def bindE_Inr_iff split: if_splits sum.splits option.splits compaction_preparation.splits)
    with that Inr show ?thesis by fastforce
  qed (use assms(1) pr in \<open>simp add: plan_attempt_def\<close>)
qed

lemma made_candidate:
  fixes d :: "('x, 't) coordinator_deps"
  assumes "make_candidate d run n c prep pr = Inr cand"
  obtains env :: "'x cached_failure compaction_env" where "createCompactionCandidate env (cn_entries c)
      ((cn_runtimeState c)\<lparr>rs_mailboxContinuity := compacted_continuity (cn_runtimeState c)\<rparr>) prep
      (op_maxSummaryTokens (cd_options d)) None = Inr cand"
proof -
  obtain summarize where s: "choose_summarizer d run n prep pr = Inr summarize"
    using assms by (cases "choose_summarizer d run n prep pr") (simp_all add: make_candidate_def)
  let ?r = "createCompactionCandidate \<lparr>env_beforeCompact = op_beforeCompact (cd_options d), env_summarize = summarize,
      env_aborted = run_aborted run n\<rparr> (cn_entries c)
      ((cn_runtimeState c)\<lparr>rs_mailboxContinuity := compacted_continuity (cn_runtimeState c)\<rparr>) prep (op_maxSummaryTokens (cd_options d)) None"
  have "?r = Inr cand" using assms s by (cases ?r) (simp_all add: make_candidate_def)
  then show ?thesis by (rule that)
qed

lemma failure_keeps [simp]:
  "cp_host (recordThresholdFailure d q run st) = cp_host st" "cp_db (recordThresholdFailure d q run st) = cp_db st"
  by (simp_all add: recordThresholdFailure_def)

context projection_reload
begin

text \<open>Other writers only append, and keep what the reload relies on.\<close>

definition others_append :: "run_env \<Rightarrow> bool" where
  "others_append run \<longleftrightarrow> (\<forall>n db es rs. stored db es rs \<longrightarrow> inv (db_checkpoint db) \<longrightarrow>
     inv (db_checkpoint (run_meanwhile run n db))
     \<and> (\<exists>es' rs'. stored (run_meanwhile run n db) (es @ es') rs' \<and> (es' = [] \<longrightarrow> rs' = rs)))"

definition kept :: "compact_state \<Rightarrow> ledger_entry list \<Rightarrow> compact_state \<Rightarrow> bool" where
  "kept st es st' \<longleftrightarrow> cp_host st' = cp_host st \<and> inv (db_checkpoint (cp_db st')) \<and> (\<exists>es' rs'. stored (cp_db st') (es @ es') rs')"

definition compacted :: "ledger_entry list \<Rightarrow> compact_state \<Rightarrow> bool" where
  "compacted es st' \<longleftrightarrow> cp_nextAttemptAt st' = 0 \<and> inv (db_checkpoint (cp_db st'))
     \<and> (\<exists>es' cid p t rs'. in_sync (cp_host st') (cp_db st') (es @ es' @ [CompactionEntry cid p t]) rs')"

definition outcome :: "compact_state \<Rightarrow> ledger_entry list \<Rightarrow> coordinator_error + bool option \<Rightarrow> compact_state \<Rightarrow> bool" where
  "outcome st es r st' \<longleftrightarrow> (if r = Inr (Some True) then compacted es st' else kept st es st')"

lemma kept_simps [simp]:
  "kept st es (recordThresholdFailure d q run st') = kept st es st'"
  "kept (st\<lparr>cp_db := db\<rparr>) es st' = kept st es st'"
  by (simp_all add: kept_def)

lemma commit_outcome:
  assumes col: "json_column col" and st: "stored db es rs" and pr: "project_entries es rs = Inr pr"
    and prep: "prepareCompaction i = Inr (Some (Ready prep))" "ci_entries i = es" "ci_latestProjection i = pr"
      "ci_previousCompaction i = findLatestCompaction es"
    and cand: "createCompactionCandidate env es (rs\<lparr>rs_mailboxContinuity := q\<rparr>) prep m None
      = Inr (CandidateReady payload projection tok k)"
    and now: "stored (cp_db s) (es @ es') rs'" "es' = [] \<longrightarrow> rs' = rs" "inv (db_checkpoint (cp_db s))"
    and run: "commit_compaction col reload d req run n q prep payload projection s = (b, s')"
  shows "outcome s es (Inr b) s'"
proof (cases "es' = []")
  case True
  then have st2: "stored (cp_db s) es rs" using now by simp
  obtain cid t rs1 db1 ctx where app: "appendCompaction col (rp_expectedHeadEntryId prep) payload (empty_patch\<lparr>pt_mailboxContinuity := Some q\<rparr>) (cp_db s)
      = (Inr \<lparr>ar_appendedEntries = [CompactionEntry cid payload t], ar_runtimeState = rs1\<rparr>, db1)"
    and ctx: "installProjection (proj_snapshot projection) (bh_context (cp_host s)) = Inr ctx"
    and sync: "\<And>h :: bot_host. bh_context h = ctx \<Longrightarrow> in_sync (installRuntimeState rs1 h) db1 (es @ [CompactionEntry cid payload t]) rs1"
    by (rule commit_ready [OF col st pr prep cand st2]) blast
  let ?h = "installRuntimeState rs1 ((cp_host s)\<lparr>bh_context := ctx\<rparr>)"
  obtain h2 db2 where re: "reload (?h, db1) = (h2, db2)" by fastforce
  have "inv (db_checkpoint db1)"
    using now(3) append_compaction_checkpoint [unfolded keeps_checkpoint_def, rule_format, of col _ payload _ "cp_db s"] app by (metis snd_conv)
  from reload_keeps [OF sync this re] have "in_sync h2 db2 (es @ [] @ [CompactionEntry cid payload t]) rs1 \<and> inv (db_checkpoint db2)" by simp
  moreover from this have "\<exists>es' cid p t rs'. in_sync h2 db2 (es @ es' @ [CompactionEntry cid p t]) rs'" by blast
  ultimately have "compacted es (s\<lparr>cp_nextAttemptAt := 0, cp_host := h2, cp_db := db2\<rparr>)" by (simp add: compacted_def)
  then show ?thesis using run by (auto simp: commit_compaction_def install_compaction_def app ctx re outcome_def)
next
  case False
  note norm = stored_entry_norm [OF st]
  have "ids_increase (es @ es')" "rs_head rs' = last_id (es @ es')" using now(1) by (simp_all add: stored_def)
  moreover have "rp_expectedHeadEntryId prep = last_id es"
    by (rule candidate_ready_facts [OF pr norm _ prep cand]) (use st in \<open>simp_all add: stored_def\<close>)
  ultimately have "rp_expectedHeadEntryId prep \<noteq> rs_head rs'" using last_id_fresh [of es es'] False by simp
  then obtain e where e: "appendCompaction col (rp_expectedHeadEntryId prep) payload (empty_patch\<lparr>pt_mailboxContinuity := Some q\<rparr>) (cp_db s)
      = (Inl e, cp_db s)"
    using appendCompaction_rejects [OF now(1)] by blast
  have "kept s es s" using now by (auto simp: kept_def)
  then show ?thesis
    using run by (cases e) (auto simp: commit_compaction_def e outcome_def split: if_splits)
qed

lemma attempt_outcome:
  fixes d :: "('x, 't) coordinator_deps"
  assumes col: "json_column col" and st: "stored (cp_db s) es rs" and inv: "inv (db_checkpoint (cp_db s))"
    and others: "others_append run"
    and run: "compact_attempt col reload d q run n s = (r, s')"
  shows "outcome s es r s'"
proof -
  let ?c = "\<lparr>cn_entries = es, cn_runtimeState = rs\<rparr>"
  have same: "kept s es s"
  proof -
    have "stored (cp_db s) (es @ []) rs" using st by simp
    then show ?thesis unfolding kept_def using inv by blast
  qed
  show ?thesis
  proof (cases "plan_attempt d q ?c")
    case (Inl e)
    with run same show ?thesis by (auto simp: compact_attempt_def load_stored [OF st] outcome_def)
  next
    case (Inr plan)
    show ?thesis
    proof (cases plan)
      case (Proceed prep pr)
      let ?s = "s\<lparr>cp_db := run_meanwhile run n (cp_db s)\<rparr>"
      obtain es' rs' where now: "stored (cp_db ?s) (es @ es') rs'" "es' = [] \<longrightarrow> rs' = rs" "inv (db_checkpoint (cp_db ?s))"
        using others st inv unfolding others_append_def by (metis compact_state.select_convs(3) compact_state.surjective compact_state.update_convs(3))
      have kept: "kept s es ?s" using now unfolding kept_def by auto
      show ?thesis
      proof (cases "make_candidate d run n ?c prep pr")
        case (Inl e)
        with run kept Proceed Inr show ?thesis by (auto simp: compact_attempt_def load_stored [OF st] outcome_def)
      next
        case cand: (Inr cand)
        show ?thesis
        proof (cases cand)
          case (CandidateReady payload projection tok k)
          obtain i where i: "project_entries es rs = Inr pr" "prepareCompaction i = Inr (Some (Ready prep))" "ci_entries i = es"
              "ci_latestProjection i = pr" "ci_previousCompaction i = findLatestCompaction es"
            using plan_proceeds Inr Proceed st by metis
          obtain env :: "'x cached_failure compaction_env" where "createCompactionCandidate env es (rs\<lparr>rs_mailboxContinuity := compacted_continuity rs\<rparr>) prep
              (op_maxSummaryTokens (cd_options d)) None = Inr (CandidateReady payload projection tok k)"
            by (rule made_candidate [OF cand]) (simp add: CandidateReady)
          note out = commit_outcome [OF col st i this now]
          obtain b s1 where c: "commit_compaction col reload d q run n (compacted_continuity rs) prep payload projection ?s = (b, s1)"
            by fastforce
          have "outcome ?s es (Inr b) s1" by (rule out [OF c])
          moreover have "r = Inr b" "s' = s1"
            using run c by (auto simp: compact_attempt_def load_stored [OF st] Inr Proceed cand CandidateReady Let_def)
          ultimately show ?thesis by (auto simp: outcome_def split: if_splits)
        qed (use run kept in \<open>auto simp: compact_attempt_def load_stored [OF st] Inr Proceed cand Let_def outcome_def split: if_splits\<close>)
      qed
    qed (use run same in \<open>auto simp: compact_attempt_def load_stored [OF st] Inr outcome_def\<close>)
  qed
qed

lemma outcome_append:
  assumes "cp_host s1 = cp_host s"
  shows "compacted (es @ es1) s2 \<Longrightarrow> compacted es s2" "kept s1 (es @ es1) s2 \<Longrightarrow> kept s es s2"
proof -
  assume "compacted (es @ es1) s2"
  then obtain es' cid p t rs' where c: "in_sync (cp_host s2) (cp_db s2) ((es @ es1) @ es' @ [CompactionEntry cid p t]) rs'"
      "cp_nextAttemptAt s2 = 0" "inv (db_checkpoint (cp_db s2))"
    by (auto simp: compacted_def)
  have "in_sync (cp_host s2) (cp_db s2) (es @ (es1 @ es') @ [CompactionEntry cid p t]) rs'" using c(1) by simp
  then show "compacted es s2" unfolding compacted_def using c(2,3) by blast
next
  assume "kept s1 (es @ es1) s2"
  then obtain es' rs' where k: "stored (cp_db s2) ((es @ es1) @ es') rs'" "cp_host s2 = cp_host s1" "inv (db_checkpoint (cp_db s2))"
    by (auto simp: kept_def)
  have "stored (cp_db s2) (es @ (es1 @ es')) rs'" using k(1) by simp
  then show "kept s es s2" unfolding kept_def using k(2,3) assms by metis
qed

lemma compact_outcome:
  assumes col: "json_column col" and st: "stored (cp_db s) es rs" and inv: "inv (db_checkpoint (cp_db s))"
    and others: "others_append run" and run: "compact col reload d q run s = (r, s')"
  shows "if r = Inr True then compacted es s' else kept s es s'"
proof -
  have "stored (cp_db s) (es @ []) rs" using st by simp
  then have same: "kept s es s" unfolding kept_def using inv by blast
  obtain r1 s1 where one: "compact_attempt col reload d q run 0 s = (r1, s1)" by fastforce
  note out = attempt_outcome [OF col st inv others one]
  show ?thesis
  proof (cases "r1 = Inr None")
    case True
    with out have k1: "cp_host s1 = cp_host s" "inv (db_checkpoint (cp_db s1))" by (auto simp: outcome_def kept_def)
    obtain es1 rs1 where st1: "stored (cp_db s1) (es @ es1) rs1" using out True by (auto simp: outcome_def kept_def)
    obtain r2 s2 where two: "compact_attempt col reload d q run 1 s1 = (r2, s2)" by fastforce
    have "outcome s1 (es @ es1) r2 s2" by (rule attempt_outcome [OF col st1 k1(2) others two])
    then have "if r2 = Inr (Some True) then compacted es s2 else kept s es s2"
      using outcome_append [OF k1(1)] by (auto simp: outcome_def split: if_splits)
    moreover have "kept s es s1" using k1 st1 by (auto simp: kept_def)
    ultimately show ?thesis
      using run one two True same by (cases r2) (auto simp: compact_def split: if_splits option.splits)
  next
    case False
    with out run one same show ?thesis
      by (cases r1) (auto simp: compact_def outcome_def split: if_splits option.splits)
  qed
qed

end

end
