(* ===== verification/Coordinator_Properties.thy ===== *)
theory Coordinator_Properties
  imports Coordinator_Facts
begin

text \<open>
  The properties of a compaction as the loop sees it, with the reload of the loop itself, and of the images
  in the context a provider is given.
\<close>

section \<open>Memory and ledger\<close>

lemma jsonb_json_column: "jsonb_column col \<Longrightarrow> json_column col"
  by (simp add: jsonb_column_def)

text \<open>C3. Whatever the summarizer, the hooks, the clock and the abort signal do, and whatever other writers append
  while the summarizer runs, a compaction either returns true, has appended one entry after theirs, and
  leaves the memory the projection of the new ledger, with the back-off cleared; or it leaves the memory
  untouched and the ledger with what others have appended.\<close>

theorem compaction_keeps_memory_in_step:
  assumes "jsonb_column col" "stored (cp_db s) es rs" "checkpoint_ordered (cp_db s)"
    and others: "\<And>n db es rs. stored db es rs \<Longrightarrow> checkpoint_ordered db \<Longrightarrow> checkpoint_ordered (run_meanwhile run n db)
      \<and> (\<exists>es' rs'. stored (run_meanwhile run n db) (es @ es') rs' \<and> (es' = [] \<longrightarrow> rs' = rs))"
  shows "\<exists>r s' es' rs'. compact col (reloadProjectionFromCanonical col sha) d q run s = (r, s') \<and>
    (if r = Inr True
     then cp_nextAttemptAt s' = 0 \<and> (\<exists>cid p t. in_sync (cp_host s') (cp_db s') (es @ es' @ [CompactionEntry cid p t]) rs')
     else cp_host s' = cp_host s \<and> stored (cp_db s') (es @ es') rs')"
proof -
  have js: "jsonb_store col" by (rule jsonb_store.intro [OF assms(1)])
  have red: "projection_reload checkpoint_reordered (reloadProjectionFromCanonical col sha)"
    by (rule projection_reload.intro) (rule jsonb_reload_keeps [OF assms(1)])
  obtain r s' where run: "compact col (reloadProjectionFromCanonical col sha) d q run s = (r, s')" by fastforce
  have "projection_reload.others_append checkpoint_reordered run"
    unfolding projection_reload.others_append_def [OF red] using others by (simp add: checkpoint_ordered_reordered)
  from projection_reload.compact_outcome [OF red jsonb_json_column [OF assms(1)] assms(2) _ this run] assms(3)
  have "if r = Inr True then projection_reload.compacted checkpoint_reordered es s' else projection_reload.kept checkpoint_reordered s es s'"
    by (simp add: checkpoint_ordered_reordered)
  then have "\<exists>es' rs'. if r = Inr True
      then cp_nextAttemptAt s' = 0 \<and> (\<exists>cid p t. in_sync (cp_host s') (cp_db s') (es @ es' @ [CompactionEntry cid p t]) rs')
      else cp_host s' = cp_host s \<and> stored (cp_db s') (es @ es') rs'"
    unfolding projection_reload.compacted_def [OF red] projection_reload.kept_def [OF red]
    by (cases "r = Inr True") (simp, blast, simp)
  then obtain es' rs' where "if r = Inr True
      then cp_nextAttemptAt s' = 0 \<and> (\<exists>cid p t. in_sync (cp_host s') (cp_db s') (es @ es' @ [CompactionEntry cid p t]) rs')
      else cp_host s' = cp_host s \<and> stored (cp_db s') (es @ es') rs'"
    by blast
  with run show ?thesis by (intro exI [of _ r] exI [of _ s'] exI [of _ es'] exI [of _ rs'] conjI)
qed

lemma idle_others:
  "stored db es rs \<Longrightarrow> checkpoint_ordered db \<Longrightarrow> checkpoint_ordered db \<and> (\<exists>es' rs'. stored db (es @ es') rs' \<and> (es' = [] \<longrightarrow> rs' = rs))"
  by (metis append_Nil2)

definition idle_run :: run_env where
  "idle_run = \<lparr>run_now = (\<lambda>_. 0), run_aborted = (\<lambda>_ _. False), run_meanwhile = (\<lambda>_ db. db)\<rparr>"

text \<open>A run that commits: a ledger of one message, summarised away by a reset.\<close>

definition sample_options :: "unit coordinator_options" where
  "sample_options = \<lparr>op_summarizeCandidate = Some (\<lambda>_. Inr (renderParsedSummary sample_summary)), op_beforeCompact = None,
     op_triggerTokens = None, op_reserveTokens = None, op_keepRecentTokens = None, op_maxSummaryTokens = Some 1000,
     op_failureBackoffMs = None\<rparr>"

definition sample_deps :: "(unit, unit) coordinator_deps" where
  "sample_deps = \<lparr>cd_chat = (\<lambda>_. Inl ()), cd_complete = (\<lambda>_. Inl ()), cd_isClaudeCode = True, cd_nativeImages = False,
     cd_images = (\<lambda>_. Inr None), cd_tools = [], cd_systemPrompt = [], cd_options = sample_options,
     cd_defaultReserveTokens = 0, cd_defaultKeepRecentTokens = 0, cd_defaultFailureBackoffMs = 60000\<rparr>"

definition sample_reset :: compact_request where
  "sample_reset = \<lparr>cq_reason = BehavioralReset, cq_contextTokens = 0, cq_contextWindowTokens = 1000, cq_providerPrefixHeadEntryId = None\<rparr>"

lemma sample_plan:
  assumes st: "stored db [MessageEntry i (UserMsg c) t] rs" and pr: "project_entries [MessageEntry i (UserMsg c) t] rs = Inr pr"
  obtains prep j where "plan_attempt sample_deps sample_reset \<lparr>cn_entries = [MessageEntry i (UserMsg c) t], cn_runtimeState = rs\<rparr> = Inr (Proceed prep pr)"
    "rp_isSplitTurn prep = False" "prepareCompaction j = Inr (Some (Ready prep))" "ci_entries j = [MessageEntry i (UserMsg c) t]"
    "ci_latestProjection j = pr" "ci_previousCompaction j = None"
proof -
  let ?e = "MessageEntry i (UserMsg c) t"
  let ?us = "[atomic_unit_of entry_message entry_tokens [?e]]"
  note norm = stored_entry_norm [OF st]
  have pj: "projectAgentLedger (map entry_jv [?e]) (runtime_state_jv rs) = Inr pr" by (rule load_projects [OF st pr])
  have ps: "ps_messages (proj_snapshot pr) = [UserMsg c]" "throughEntryId pr = Some i"
    using pr by (auto simp: project_entries_Inr [OF norm] validateCompactionChain_def selectActiveMessages_def snapshot_of_def
        head_messages_def last_id_def)
  have n: "count_ok (projected_tokens pr)"
    using message_tokens_bounds [of "UserMsg c"] by (simp add: projected_tokens_def ps count_ok_def safe_int_def)
  let ?i = "\<lparr>ci_entries = [?e], ci_latestProjection = pr, ci_previousCompaction = None, ci_contextTokens = projected_tokens pr,
    ci_contextWindowTokens = 1000, ci_reserveTokens = 0, ci_keepRecentTokens = 0, ci_reason = BehavioralReset\<rparr>"
  have "validatePreparationNumbers ?i = Inr ()"
    using n by (auto simp: validatePreparationNumbers_def count_ok_def safe_int_def max_safe_def)
  then have prep: "prepareCompaction ?i = Inr (Some (Ready (ready_reset ?i None ?us)))"
    by (simp add: prepareCompaction_def findLatestCompaction_def ps last_id_def selectActiveMessageEntries_def)
  have "findLatestCompaction [?e] = None" by (simp add: findLatestCompaction_def)
  then have "plan_attempt sample_deps sample_reset \<lparr>cn_entries = [?e], cn_runtimeState = rs\<rparr> = Inr (Proceed (ready_reset ?i None ?us) pr)"
    using prep pj
    by (simp add: plan_attempt_def effective_tokens_def sample_reset_def sample_deps_def sample_options_def reserve_tokens_def
        keep_recent_tokens_def or_else_def)
  then show ?thesis by (rule that [OF _ _ prep]) (simp_all add: ready_reset_def)
qed

definition sample_rs :: runtime_state where
  "sample_rs = empty_runtime\<lparr>rs_head := Some 1\<rparr>"

definition sample_store :: ledger_db where
  "sample_store = \<lparr>db_rows = [\<lparr>lr_id = 1, lr_entryType = js ''message'', lr_payload = message_payload_jv (UserMsg (js ''hi'')),
     lr_createdAt = 1000\<rparr>], db_runtime = Some (row_of_state sample_rs), db_checkpoint = None, db_sequence = 2, db_now = 1000\<rparr>"

definition sample_entries :: "ledger_entry list" where
  "sample_entries = [MessageEntry 1 (UserMsg (js ''hi'')) 1000]"

lemma sample_stored: "stored sample_store sample_entries sample_rs"
  using row_is_message [OF json_column_id, of "UserMsg (js ''hi'')" 1 1000] sample_facts(5)
  by (simp add: stored_def sample_store_def sample_entries_def sample_rs_def ids_increase_def stored_runtime_def last_id_def
      cursor_keys_distinct_def empty_runtime_def runtime_state_row)

lemma sample_store_projects:
  assumes "runtime_valid rs" "rs_head rs = Some 1"
  shows "\<exists>pr. project_entries sample_entries rs = Inr pr \<and> proj_snapshot pr = snapshot_of [UserMsg (js ''hi'')] rs"
proof -
  have "list_all entry_norm sample_entries" using stored_entry_norm [OF sample_stored] .
  then show ?thesis
    using assms by (subst project_entries_Inr)
      (simp_all add: sample_entries_def last_id_def legal_history_iff validateCompactionChain_def selectActiveMessages_def head_messages_def)
qed

text \<open>The continuity that a compaction stores, and its keys in sorted order.\<close>

definition sample_continuity :: jobj where
  "sample_continuity = [(js ''schemaVersion'', jint 2), (js ''roundSeq'', jint 0), (js ''lastInputTokens'', JNull), (js ''compactionEpoch'', jint 1),
   (js ''mailboxes'', JObj [])]"

definition sorted_continuity :: jobj where
  "sorted_continuity = [(js ''compactionEpoch'', jint 1), (js ''lastInputTokens'', JNull), (js ''mailboxes'', JObj []), (js ''roundSeq'', jint 0),
   (js ''schemaVersion'', jint 2)]"

lemma compacted_empty: "rs_mailboxContinuity rs = migrated_continuity \<Longrightarrow> compacted_continuity rs = sample_continuity"
  by (simp add: compacted_continuity_def continuity_props_def continuity_jv_def recordMailboxCompaction_def sample_continuity_def
     parseMailboxContinuityState_def as_record_def migrated_continuity_def nonNegativeInteger_def nullableNonNegativeInteger_def
     isNonNegativeSafeInteger_def safe_int_def max_safe_def continuity_schema_version_def null_or_def)

lemma continuity_sorted: "sort_key fst sample_continuity = sorted_continuity"
  by (simp add: sample_continuity_def sorted_continuity_def js_def)

lemma continuity_object: "obj_of [] sorted_continuity = sorted_continuity"
proof -
  have "key_order sorted_continuity"
    by (rule key_orderI) (simp_all add: sorted_continuity_def js_def is_index_key_def is_digit_def)
  then show ?thesis by (simp add: key_order_def)
qed

lemma clone_compacted: "cloneJsonObject (JObj sample_continuity) p = Inr sorted_continuity"
proof -
  have e: "cloneJsonValue (JObj []) p = Inr (JObj [])" for p by (simp add: cloneJsonValue.simps [of "JObj []"] obj_of_def)
  have "mapE (\<lambda>q. bindE (cloneJsonValue (snd q) (p @ [Key (fst q)])) (\<lambda>w. Inr (fst q, w))) sorted_continuity = Inr sorted_continuity"
    by (simp add: sorted_continuity_def e cloneJsonValue.simps [of "JNum (NInt _)"] cloneJsonValue.simps [of "JNull"])
  then show ?thesis
    by (simp add: cloneJsonObject_def requireRecord_def cloneJsonValue.simps [of "JObj sample_continuity"] continuity_sorted continuity_object)
qed

lemma sorted_valid: "validateMailboxContinuity (JObj sorted_continuity) = []"
  by (simp add: validateMailboxContinuity_def sorted_continuity_def continuity_schema_version_def bad_optional_int_def as_record_def
      isNonNegativeSafeInteger_def safe_int_def max_safe_def)

lemma parse_new_continuity:
  assumes "parseAgentRuntimeState (runtime_state_jv (s\<lparr>rs_head := Some a\<rparr>)) = Inr x" "0 < b"
    and "\<And>p. cloneJsonObject (JObj q) p = Inr q'"
  shows "parseAgentRuntimeState (runtime_state_jv (s\<lparr>rs_mailboxContinuity := q, rs_head := Some b\<rparr>))
    = Inr (x\<lparr>rs_mailboxContinuity := q', rs_head := Some b\<rparr>)"
  using assms unfolding runtime_state_row runtime_row_Inr by (simp add: row_of_state_def)

lemma sample_parse:
  assumes "0 < h"
  shows "parseAgentRuntimeState (runtime_state_jv (sample_rs\<lparr>rs_mailboxContinuity := sample_continuity, rs_head := Some h\<rparr>))
    = Inr (sample_rs\<lparr>rs_mailboxContinuity := sorted_continuity, rs_head := Some h\<rparr>)"
  using parse_new_continuity [OF sample_facts(5) assms clone_compacted] by (simp add: sample_rs_def)

text \<open>When the first attempt has a ready candidate and nobody else writes, the compaction commits it.\<close>

lemma ready_commits:
  fixes d :: "('x, 't) coordinator_deps"
  assumes col: "json_column col" and st: "stored (cp_db s) es rs"
    and due: "cq_reason q = Threshold \<longrightarrow> cp_nextAttemptAt s \<le> run_now run 0"
    and plan: "plan_attempt d q \<lparr>cn_entries = es, cn_runtimeState = rs\<rparr> = Inr (Proceed prep pr)"
    and cand: "make_candidate d run 0 \<lparr>cn_entries = es, cn_runtimeState = rs\<rparr> prep pr = Inr (CandidateReady payload projection tok k)"
    and alone: "run_meanwhile run 0 (cp_db s) = cp_db s"
  obtains cid t rs' db' ctx h h2 db2
    where "installProjection (proj_snapshot projection) (bh_context (cp_host s)) = Inr ctx"
    and "h = installRuntimeState rs' ((cp_host s)\<lparr>bh_context := ctx\<rparr>)"
    and "in_sync h db' (es @ [CompactionEntry cid payload t]) rs'"
    and "reload (h, db') = (h2, db2)"
    and "compact col reload d q run s = (Inr True, \<lparr>cp_nextAttemptAt = 0, cp_host = h2, cp_db = db2\<rparr>)"
proof -
  obtain i where i: "project_entries es rs = Inr pr" "prepareCompaction i = Inr (Some (Ready prep))" "ci_entries i = es"
      "ci_latestProjection i = pr" "ci_previousCompaction i = findLatestCompaction es"
    using plan_proceeds [OF plan st] by metis
  obtain env :: "'x cached_failure compaction_env" where
    e: "createCompactionCandidate env es (rs\<lparr>rs_mailboxContinuity := compacted_continuity rs\<rparr>) prep
          (op_maxSummaryTokens (cd_options d)) None = Inr (CandidateReady payload projection tok k)"
    by (rule made_candidate [OF cand]) simp
  obtain cid t rs' db' ctx where
    app: "appendCompaction col (rp_expectedHeadEntryId prep) payload (empty_patch\<lparr>pt_mailboxContinuity := Some (compacted_continuity rs)\<rparr>) (cp_db s)
      = (Inr \<lparr>ar_appendedEntries = [CompactionEntry cid payload t], ar_runtimeState = rs'\<rparr>, db')"
    and ctx: "installProjection (proj_snapshot projection) (bh_context (cp_host s)) = Inr ctx"
    and sync: "\<And>h :: bot_host. bh_context h = ctx \<Longrightarrow> in_sync (installRuntimeState rs' h) db' (es @ [CompactionEntry cid payload t]) rs'"
    by (rule commit_ready [OF col st i e st]) blast
  let ?h = "installRuntimeState rs' ((cp_host s)\<lparr>bh_context := ctx\<rparr>)"
  obtain h2 db2 where re: "reload (?h, db') = (h2, db2)" by fastforce
  have "compact_attempt col reload d q run 0 s = (Inr (Some True), \<lparr>cp_nextAttemptAt = 0, cp_host = h2, cp_db = db2\<rparr>)"
    by (simp add: compact_attempt_def load_stored [OF st] plan cand alone commit_compaction_def app install_compaction_def ctx re)
  moreover have "\<not> (cq_reason q = Threshold \<and> cq_providerPrefixHeadEntryId q = None
      \<and> cq_contextTokens q \<le> max 0 (cq_contextWindowTokens q - reserve_tokens d q))"
    using plan by (auto simp: plan_attempt_def effective_tokens_def split: sum.splits if_splits)
  ultimately have "compact col reload d q run s = (Inr True, \<lparr>cp_nextAttemptAt = 0, cp_host = h2, cp_db = db2\<rparr>)"
    using due by (auto simp: compact_def)
  moreover have "in_sync ?h db' (es @ [CompactionEntry cid payload t]) rs'" by (rule sync) simp
  ultimately show ?thesis using that [OF ctx refl _ re] by blast
qed

text \<open>C23. A compaction whose first attempt has a ready candidate, while nobody else writes and no back-off is
  running (or it is not a threshold compaction), is committed: it returns true and clears the back-off,
  and what the reload is given is the memory with the candidate's projection installed, in step with the
  ledger, to which exactly the candidate's entry has been appended, whatever the reload does then.\<close>

theorem ready_candidate_is_committed:
  assumes "json_column col" "stored (cp_db s) es rs"
    and "cq_reason q = Threshold \<longrightarrow> cp_nextAttemptAt s \<le> run_now run 0"
    and "plan_attempt d q \<lparr>cn_entries = es, cn_runtimeState = rs\<rparr> = Inr (Proceed prep pr)"
    and "make_candidate d run 0 \<lparr>cn_entries = es, cn_runtimeState = rs\<rparr> prep pr = Inr (CandidateReady payload projection tok k)"
    and "run_meanwhile run 0 (cp_db s) = cp_db s"
  shows "\<exists>cid t rs' ctx h db' h2 db2.
    compact col reload d q run s = (Inr True, \<lparr>cp_nextAttemptAt = 0, cp_host = h2, cp_db = db2\<rparr>)
    \<and> reload (h, db') = (h2, db2)
    \<and> in_sync h db' (es @ [CompactionEntry cid payload t]) rs'
    \<and> installProjection (proj_snapshot projection) (bh_context (cp_host s)) = Inr ctx
    \<and> h = installRuntimeState rs' ((cp_host s)\<lparr>bh_context := ctx\<rparr>)"
  by (rule ready_commits [OF assms, of reload]) blast

definition sample_state :: compact_state where
  "sample_state = \<lparr>cp_nextAttemptAt = 5, cp_host = fresh_host, cp_db = sample_store\<rparr>"

lemma sample_candidate:
  assumes prep: "prepareCompaction j = Inr (Some (Ready prep))" "ci_entries j = sample_entries" "ci_latestProjection j = pr"
      "ci_previousCompaction j = None" "rp_isSplitTurn prep = False"
    and pr: "project_entries sample_entries sample_rs = Inr pr"
  shows "\<exists>payload projection tok k. make_candidate sample_deps idle_run 0 \<lparr>cn_entries = sample_entries, cn_runtimeState = sample_rs\<rparr> prep pr
    = Inr (CandidateReady payload projection tok k)"
proof -
  let ?s = "renderParsedSummary sample_summary"
  let ?rs2 = "sample_rs\<lparr>rs_mailboxContinuity := sample_continuity\<rparr>"
  let ?rs3 = "sample_rs\<lparr>rs_mailboxContinuity := sorted_continuity\<rparr>"
  have cc: "compacted_continuity sample_rs = sample_continuity"
    by (rule compacted_empty) (simp add: sample_rs_def empty_runtime_def)
  have head: "rs_head sample_rs = Some 1" by (simp add: sample_rs_def)
  have valid: "runtime_valid ?rs3" "runtime_valid sample_rs"
    using empty_runtime_valid [of "Some 1"] sorted_valid by (simp_all add: runtime_valid_def sample_rs_def)
  have norm: "list_all entry_norm sample_entries" by (rule stored_entry_norm [OF sample_stored])
  have parse: "parseAgentRuntimeState (runtime_state_jv (?rs2\<lparr>rs_head := Some h\<rparr>)) = Inr (?rs3\<lparr>rs_head := Some h\<rparr>)" if "0 < h" for h
    using sample_parse [OF that] by simp
  have rn: "runtime_norm (?rs3\<lparr>rs_head := Some 1\<rparr>)" by (rule parse_runtime_norm [OF parse]) simp
  then have rn3: "runtime_norm ?rs3" using head by (simp add: runtime_norm_def)
  have pr3: "project_entries sample_entries ?rs3 = Inr pr"
    using pr valid head by (auto simp: project_entries_Inr [OF norm] snapshot_of_def)
  have inc: "ids_increase sample_entries" using sample_stored by (simp add: stored_def)
  have pj: "projectAgentLedger (map entry_jv sample_entries) (runtime_state_jv ?rs3) = Inr pr"
    using pr3 by (simp add: projectAgentLedger_typed [OF norm rn3] assertStrictlyIncreasingIds_Inr [THEN iffD2, OF inc])
  have nb: "\<not> blank ?s" using sample_summary_valid by (auto simp: validate_ok blank_def)
  let ?p = "candidate_payload prep ?s None"
  have same: "candidate_of sample_entries ?rs2 prep ?p n r = candidate_of sample_entries ?rs3 prep ?p n r" for n r
  proof -
    have "runtime_norm (?rs3\<lparr>rs_head := Some 2\<rparr>)" using rn3 by (simp add: runtime_norm_def)
    then have "parseAgentRuntimeState (runtime_state_jv (?rs2\<lparr>rs_head := Some 2\<rparr>)) = parseAgentRuntimeState (runtime_state_jv (?rs3\<lparr>rs_head := Some 2\<rparr>))"
      using parse [of 2] by (simp only: parse_runtime_jv)
    then have "projectAgentLedger vs (runtime_state_jv (?rs2\<lparr>rs_head := Some 2\<rparr>)) = projectAgentLedger vs (runtime_state_jv (?rs3\<lparr>rs_head := Some 2\<rparr>))" for vs
      by (simp only: projectAgentLedger_def)
    then show ?thesis using head by (cases "rp_expectedHeadEntryId prep = Some 1") (auto simp: candidate_of_def split: option.splits)
  qed
  have "\<exists>projection. candidate_of sample_entries ?rs3 prep ?p n r = CandidateReady ?p projection n r" for n r
    using candidate_of_projects [OF pj norm rn3 prep(1-3) _ nb, of None n r] prep(4) by auto
  then obtain projection where made: "candidate_of sample_entries ?rs2 prep ?p (estimateCompactionTextTokens ?s) 0
      = CandidateReady ?p projection (estimateCompactionTextTokens ?s) 0"
    unfolding same by blast
  show ?thesis
    using made prep(5)
    by (simp add: make_candidate_def choose_summarizer_def sample_deps_def sample_options_def createCompactionCandidate_def
        runBeforeCompactHook_def idle_run_def raw_summary_def lift_thrown_def candidate_from_raw_def
        validated_summary_def lift_limit_def sample_summary_valid cc)
qed

theorem ready_candidate_is_committed_witness:
  "\<exists>cid p t rs' h db' s'. compact (\<lambda>v. v) (reloadProjectionFromCanonical (\<lambda>v. v) (\<lambda>s. js ''d'')) sample_deps sample_reset idle_run sample_state
      = (Inr True, s') \<and> cp_nextAttemptAt s' = 0
    \<and> reloadProjectionFromCanonical (\<lambda>v. v) (\<lambda>s. js ''d'') (h, db') = (cp_host s', cp_db s')
    \<and> in_sync h db' (sample_entries @ [CompactionEntry cid p t]) rs'"
proof -
  have "runtime_valid sample_rs" using empty_runtime_valid [of "Some 1"] by (simp add: sample_rs_def)
  then obtain pr where pr: "project_entries sample_entries sample_rs = Inr pr"
    using sample_store_projects [of sample_rs] by (auto simp: sample_rs_def)
  obtain prep j where p: "plan_attempt sample_deps sample_reset \<lparr>cn_entries = sample_entries, cn_runtimeState = sample_rs\<rparr> = Inr (Proceed prep pr)"
    "rp_isSplitTurn prep = False" "prepareCompaction j = Inr (Some (Ready prep))" "ci_entries j = sample_entries"
    "ci_latestProjection j = pr" "ci_previousCompaction j = None"
    by (rule sample_plan [OF sample_stored [unfolded sample_entries_def] pr [unfolded sample_entries_def], folded sample_entries_def])
  obtain payload projection tok k where c: "make_candidate sample_deps idle_run 0
      \<lparr>cn_entries = sample_entries, cn_runtimeState = sample_rs\<rparr> prep pr = Inr (CandidateReady payload projection tok k)"
    using sample_candidate [OF p(3-6,2) pr] by blast
  have st: "stored (cp_db sample_state) sample_entries sample_rs" using sample_stored by (simp add: sample_state_def)
  have free: "cq_reason sample_reset = Threshold \<longrightarrow> cp_nextAttemptAt sample_state \<le> run_now idle_run 0"
    "run_meanwhile idle_run 0 (cp_db sample_state) = cp_db sample_state"
    by (simp_all add: sample_reset_def idle_run_def)
  from ready_candidate_is_committed [OF json_column_id st free(1) p(1) c free(2), of "reloadProjectionFromCanonical (\<lambda>v. v) (\<lambda>s. js ''d'')"]
  obtain cid t rs' h db' h2 db2 where r: "compact (\<lambda>v. v) (reloadProjectionFromCanonical (\<lambda>v. v) (\<lambda>s. js ''d'')) sample_deps sample_reset idle_run sample_state
      = (Inr True, \<lparr>cp_nextAttemptAt = 0, cp_host = h2, cp_db = db2\<rparr>)"
    "reloadProjectionFromCanonical (\<lambda>v. v) (\<lambda>s. js ''d'') (h, db') = (h2, db2)"
    "in_sync h db' (sample_entries @ [CompactionEntry cid payload t]) rs'" by blast
  then show ?thesis
    by (intro exI [of _ cid] exI [of _ payload] exI [of _ t] exI [of _ rs'] exI [of _ h] exI [of _ db']
        exI [of _ "\<lparr>cp_nextAttemptAt = 0, cp_host = h2, cp_db = db2\<rparr>"]) simp
qed

theorem compaction_keeps_memory_in_step_witness:
  "\<exists>r s' es' rs'. compact length_sorted (reloadProjectionFromCanonical length_sorted (\<lambda>s. js ''d'')) sample_deps sample_reset idle_run sample_state = (r, s')
    \<and> (if r = Inr True
       then cp_nextAttemptAt s' = 0 \<and> (\<exists>cid p t. in_sync (cp_host s') (cp_db s') (sample_entries @ es' @ [CompactionEntry cid p t]) rs')
       else cp_host s' = cp_host sample_state \<and> stored (cp_db s') (sample_entries @ es') rs')"
proof -
  have st: "stored (cp_db sample_state) sample_entries sample_rs" using sample_stored by (simp add: sample_state_def)
  have ord: "checkpoint_ordered (cp_db sample_state)" by (simp add: checkpoint_ordered_def sample_state_def sample_store_def)
  have "checkpoint_ordered (run_meanwhile idle_run n db) \<and> (\<exists>es' rs'. stored (run_meanwhile idle_run n db) (es @ es') rs' \<and> (es' = [] \<longrightarrow> rs' = rs))"
    if "stored db es rs" "checkpoint_ordered db" for n db es rs
    using idle_others [OF that] by (simp add: idle_run_def)
  from compaction_keeps_memory_in_step [OF jsonb_length_sorted st ord this] show ?thesis by this
qed

section \<open>Backing off\<close>

lemma attempt_next:
  assumes "compact_attempt col reload d q run n s = (r, s')"
  shows "(r = Inr (Some True) \<longrightarrow> cp_nextAttemptAt s' = 0)
    \<and> (r = Inr None \<longrightarrow> cp_nextAttemptAt s' = cp_nextAttemptAt s)
    \<and> (cp_nextAttemptAt s' = cp_nextAttemptAt s \<or> r = Inr (Some True) \<or> cq_reason q = Threshold \<and> cp_nextAttemptAt s'
        = run_now run 1 + max 1 (or_else (op_failureBackoffMs (cd_options d)) (cd_defaultFailureBackoffMs d)))"
  using assms
  by (auto simp: compact_attempt_def commit_compaction_def recordThresholdFailure_def Let_def
      split: prod.splits sum.splits attempt_plan.splits compaction_candidate.splits if_splits install_result.splits repo_error.splits)

text \<open>After a threshold compaction that failed and recorded it, no threshold compaction does anything before
  the back-off is over: it returns false at once and neither reads the ledger nor asks the summarizer.\<close>

theorem failed_compaction_backs_off:
  assumes "compact col reload d q run s = (r, s')" "r \<noteq> Inr True" "cp_nextAttemptAt s' \<noteq> cp_nextAttemptAt s"
    and "cq_reason q' = Threshold"
    and "run_now run' 0 < run_now run 1 + max 1 (or_else (op_failureBackoffMs (cd_options d)) (cd_defaultFailureBackoffMs d))"
  shows "cq_reason q = Threshold \<and> compact col reload d q' run' s' = (Inr False, s')"
proof -
  let ?b = "run_now run 1 + max 1 (or_else (op_failureBackoffMs (cd_options d)) (cd_defaultFailureBackoffMs d))"
  obtain r1 s1 where one: "compact_attempt col reload d q run 0 s = (r1, s1)" by fastforce
  obtain r2 s2 where two: "compact_attempt col reload d q run 1 s1 = (r2, s2)" by fastforce
  have "cq_reason q = Threshold \<and> cp_nextAttemptAt s' = ?b"
    using assms(1-3) attempt_next [OF one] attempt_next [OF two] one two
    by (auto simp: compact_def split: if_splits sum.splits option.splits)
  then show ?thesis using assms(4,5) by (simp add: compact_def)
qed

definition sample_threshold :: compact_request where
  "sample_threshold = \<lparr>cq_reason = Threshold, cq_contextTokens = 2000, cq_contextWindowTokens = 1000, cq_providerPrefixHeadEntryId = None\<rparr>"

lemma sample_refused:
  assumes st: "stored db [MessageEntry i (UserMsg c) t] rs" and pr: "project_entries [MessageEntry i (UserMsg c) t] rs = Inr pr"
  shows "plan_attempt sample_deps sample_threshold \<lparr>cn_entries = [MessageEntry i (UserMsg c) t], cn_runtimeState = rs\<rparr> = Inr (Refused NoLegalCut)"
proof -
  let ?e = "MessageEntry i (UserMsg c) t"
  note norm = stored_entry_norm [OF st]
  have pj: "projectAgentLedger (map entry_jv [?e]) (runtime_state_jv rs) = Inr pr" by (rule load_projects [OF st pr])
  have "throughEntryId pr = Some i" using pr by (auto simp: project_entries_Inr [OF norm] last_id_def)
  then show ?thesis
    using pj
    by (simp add: plan_attempt_def effective_tokens_def sample_threshold_def sample_deps_def sample_options_def reserve_tokens_def
        keep_recent_tokens_def or_else_def prepareCompaction_def validatePreparationNumbers_def count_ok_def safe_int_def max_safe_def
        findLatestCompaction_def last_id_def selectActiveMessageEntries_def)
qed

theorem failed_compaction_backs_off_witness:
  "\<exists>s'. compact (\<lambda>v. v) (\<lambda>x. x) sample_deps sample_threshold idle_run (sample_state\<lparr>cp_nextAttemptAt := 0\<rparr>) = (Inr False, s')
    \<and> cp_nextAttemptAt s' = 60000
    \<and> compact (\<lambda>v. v) (\<lambda>x. x) sample_deps sample_threshold idle_run s' = (Inr False, s')"
proof -
  let ?s = "sample_state\<lparr>cp_nextAttemptAt := 0\<rparr>"
  let ?s' = "sample_state\<lparr>cp_nextAttemptAt := 60000\<rparr>"
  have "runtime_valid sample_rs" using empty_runtime_valid [of "Some 1"] by (simp add: sample_rs_def)
  then obtain pr where "project_entries sample_entries sample_rs = Inr pr"
    using sample_store_projects [of sample_rs] by (auto simp: sample_rs_def)
  from sample_refused [OF sample_stored [unfolded sample_entries_def] this [unfolded sample_entries_def]]
  have plan: "plan_attempt sample_deps sample_threshold \<lparr>cn_entries = sample_entries, cn_runtimeState = sample_rs\<rparr> = Inr (Refused NoLegalCut)"
    by (simp add: sample_entries_def)
  have "compact_attempt (\<lambda>v. v) (\<lambda>x. x) sample_deps sample_threshold idle_run 0 ?s = (Inr (Some False), ?s')"
    using plan by (simp add: compact_attempt_def sample_state_def load_stored [OF sample_stored] recordThresholdFailure_def sample_threshold_def
        idle_run_def or_else_def sample_deps_def sample_options_def)
  then have run: "compact (\<lambda>v. v) (\<lambda>x. x) sample_deps sample_threshold idle_run ?s = (Inr False, ?s')"
    by (simp add: compact_def sample_threshold_def idle_run_def reserve_tokens_def sample_deps_def sample_options_def)
  have "compact (\<lambda>v. v) (\<lambda>x. x) sample_deps sample_threshold idle_run ?s' = (Inr False, ?s')"
    using failed_compaction_backs_off [OF run, of sample_threshold idle_run]
    by (simp add: sample_threshold_def idle_run_def or_else_def sample_deps_def sample_options_def)
  with run show ?thesis by (intro exI [of _ ?s']) simp
qed

end
