(* ===== verification/Loop_Policy.thy ===== *)
theory Loop_Policy
  imports Main
begin

text \<open>
  \<open>src/agent/loop-policy.ts\<close>: what the loop does after a round.  The decision carries the two counters the
  loop keeps between rounds; \<open>policy_run\<close> feeds them back as the loop does, for as long as the decision is
  to continue.
\<close>

section \<open>The decision\<close>

datatype continuation_policy = ImmediateTool | WaitAttentionTool | WaitEventTool | BackoffTool | StopTool

datatype loop_demand = NoDemand | ContinuationDemand | AttentionDemand

datatype wait_reason = NoActionableContext | ToolExternalStarted | ToolDirectionComplete | NoProgressLimit | DirectionComplete

datatype continue_reason =
    RecoverableToolCorrection | ToolImmediate | ToolProgress | ActionCorrection | ToolNoProgress | AttentionPending

datatype loop_action =
    WaitEvent wait_reason
  | StopLoop
  | ContinueLoop continue_reason
  | WaitAttentionBackoff

record loop_policy_input =
  li_ranRound :: bool
  li_stopRequested :: bool
  li_toolCallCount :: int
  li_demand :: loop_demand
  li_recoverableToolFailure :: bool
  li_onlyHelpToolCalls :: bool
  li_madeToolProgress :: bool
  li_toolContinuation :: "continuation_policy option"
  li_recoverableCorrectionRounds :: int
  li_maxRecoverableCorrectionRounds :: int
  li_noProgressRounds :: int
  li_maxNoProgressRounds :: int

record loop_decision =
  ld_action :: loop_action
  ld_recoverableCorrectionRounds :: int
  ld_noProgressRounds :: int

definition decision_with :: "loop_policy_input \<Rightarrow> loop_action \<Rightarrow> int option \<Rightarrow> int option \<Rightarrow> loop_decision" where
  "decision_with i a corrections noProgress =
     \<lparr>ld_action = a,
      ld_recoverableCorrectionRounds = (case corrections of None \<Rightarrow> li_recoverableCorrectionRounds i | Some n \<Rightarrow> n),
      ld_noProgressRounds = (case noProgress of None \<Rightarrow> li_noProgressRounds i | Some n \<Rightarrow> n)\<rparr>"

text \<open>A round that made no progress is counted, and the limit ends the direction.\<close>

definition count_no_progress :: "loop_policy_input \<Rightarrow> int \<Rightarrow> continue_reason \<Rightarrow> loop_decision" where
  "count_no_progress i corrections reason =
     (let n = li_noProgressRounds i + 1 in
      if max 1 (li_maxNoProgressRounds i) \<le> n
      then decision_with i (WaitEvent NoProgressLimit) (Some corrections) (Some 0)
      else decision_with i (ContinueLoop reason) (Some corrections) (Some n))"

definition decide_tool_round :: "loop_policy_input \<Rightarrow> int \<Rightarrow> loop_decision" where
  "decide_tool_round i corrections =
     (if li_toolContinuation i = Some WaitEventTool
      then decision_with i (WaitEvent ToolExternalStarted) (Some 0) (Some 0)
      else if li_toolContinuation i = Some StopTool \<or> li_toolContinuation i = Some WaitAttentionTool
      then decision_with i (WaitEvent ToolDirectionComplete) (Some corrections) (Some 0)
      else if li_toolContinuation i = Some BackoffTool
      then decision_with i WaitAttentionBackoff (Some corrections) None
      else if li_madeToolProgress i
      then decision_with i (ContinueLoop (if li_toolContinuation i = Some ImmediateTool then ToolImmediate else ToolProgress))
             (Some corrections) (Some 0)
      else if li_toolContinuation i = Some ImmediateTool then count_no_progress i corrections ToolImmediate
      else if li_demand i = ContinuationDemand
      then decision_with i (ContinueLoop ActionCorrection) (Some corrections) (Some 0)
      else count_no_progress i corrections ToolNoProgress)"

definition decideLoopPolicy :: "loop_policy_input \<Rightarrow> loop_decision" where
  "decideLoopPolicy i =
     (if \<not> li_ranRound i
      then (if li_stopRequested i then decision_with i StopLoop None None
            else decision_with i (WaitEvent NoActionableContext) None (Some 0))
      else if li_stopRequested i then decision_with i StopLoop None None
      else if li_demand i = AttentionDemand then decision_with i (ContinueLoop AttentionPending) None (Some 0)
      else let corrections = li_recoverableCorrectionRounds i in
        if 0 < li_toolCallCount i
        then (if (li_recoverableToolFailure i \<or> 0 < corrections \<and> li_onlyHelpToolCalls i)
                 \<and> corrections < li_maxRecoverableCorrectionRounds i
              then decision_with i (ContinueLoop RecoverableToolCorrection) (Some (corrections + 1)) None
              else decide_tool_round i
                (if \<not> li_recoverableToolFailure i \<and> \<not> li_onlyHelpToolCalls i then 0 else corrections))
        else if li_demand i = ContinuationDemand
        then decision_with i (ContinueLoop ActionCorrection) (Some corrections) (Some 0)
        else decision_with i (WaitEvent DirectionComplete) (Some 0) (Some 0))"

section \<open>Rounds in sequence\<close>

text \<open>What the loop observes of a round; the counters come from the decision before.\<close>

record round_outcome =
  ro_toolCallCount :: int
  ro_recoverableToolFailure :: bool
  ro_onlyHelpToolCalls :: bool
  ro_madeToolProgress :: bool
  ro_toolContinuation :: "continuation_policy option"
  ro_demand :: loop_demand

definition input_of :: "int \<Rightarrow> int \<Rightarrow> int \<times> int \<Rightarrow> round_outcome \<Rightarrow> loop_policy_input" where
  "input_of maxCorrections maxNoProgress = (\<lambda>(c, n) r.
     \<lparr>li_ranRound = True, li_stopRequested = False, li_toolCallCount = ro_toolCallCount r, li_demand = ro_demand r,
      li_recoverableToolFailure = ro_recoverableToolFailure r, li_onlyHelpToolCalls = ro_onlyHelpToolCalls r,
      li_madeToolProgress = ro_madeToolProgress r, li_toolContinuation = ro_toolContinuation r,
      li_recoverableCorrectionRounds = c, li_maxRecoverableCorrectionRounds = maxCorrections,
      li_noProgressRounds = n, li_maxNoProgressRounds = maxNoProgress\<rparr>)"

definition continues :: "loop_decision \<Rightarrow> bool" where
  "continues d \<longleftrightarrow> (\<exists>r. ld_action d = ContinueLoop r)"

text \<open>How many rounds of the list the loop continues after, one after the other.\<close>

fun policy_run :: "int \<Rightarrow> int \<Rightarrow> int \<times> int \<Rightarrow> round_outcome list \<Rightarrow> nat" where
  "policy_run mc mn s [] = 0"
| "policy_run mc mn s (r # rs) =
     (let d = decideLoopPolicy (input_of mc mn s r) in
      case ld_action d of
        ContinueLoop _ \<Rightarrow> Suc (policy_run mc mn (ld_recoverableCorrectionRounds d, ld_noProgressRounds d) rs)
      | _ \<Rightarrow> 0)"

text \<open>A round without progress, attention or a demand to go on.\<close>

definition unproductive :: "round_outcome \<Rightarrow> bool" where
  "unproductive r \<longleftrightarrow> \<not> ro_madeToolProgress r \<and> ro_demand r = NoDemand"

definition patience :: "int \<Rightarrow> int \<Rightarrow> int \<times> int \<Rightarrow> int" where
  "patience mc mn = (\<lambda>(c, n). max 0 (max 1 mn - 1 - n) * (max 0 mc + 1) + max 0 (mc - c))"

lemma patience_nonneg: "0 \<le> patience mc mn s"
  by (simp add: patience_def split: prod.splits)

lemma patience_correction: "c < mc \<Longrightarrow> patience mc mn (c + 1, n) < patience mc mn (c, n)"
  by (simp add: patience_def)

lemma patience_no_progress:
  assumes "n + 1 < max 1 mn" "0 \<le> c'"
  shows "patience mc mn (c', n + 1) < patience mc mn (c, n)"
proof -
  define k a where "k = max 0 mc + 1" and "a = max 0 (max 1 mn - 1 - (n + 1))"
  have "max 0 (max 1 mn - 1 - n) = a + 1" using assms(1) by (simp add: a_def)
  moreover have "(a + 1) * k = a * k + k" by (simp add: distrib_right)
  moreover have "max 0 (mc - c') < k" using assms(2) by (simp add: k_def)
  moreover have "0 \<le> max 0 (mc - c)" by simp
  ultimately show ?thesis by (simp only: patience_def prod.case flip: k_def a_def)
qed

lemma unproductive_step:
  assumes "unproductive r" "0 \<le> c" "continues (decideLoopPolicy (input_of mc mn (c, n) r))"
  shows "patience mc mn (ld_recoverableCorrectionRounds (decideLoopPolicy (input_of mc mn (c, n) r)),
      ld_noProgressRounds (decideLoopPolicy (input_of mc mn (c, n) r))) < patience mc mn (c, n)"
    and "0 \<le> ld_recoverableCorrectionRounds (decideLoopPolicy (input_of mc mn (c, n) r))"
  using assms patience_correction [of c mc mn n] patience_no_progress [of n mn 0 mc c] patience_no_progress [of n mn c mc c]
  by (auto simp: decideLoopPolicy_def decide_tool_round_def count_no_progress_def decision_with_def input_of_def unproductive_def
      continues_def Let_def split: if_splits)

lemma policy_run_bounded:
  assumes "list_all unproductive rs" "0 \<le> c"
  shows "int (policy_run mc mn (c, n) rs) \<le> patience mc mn (c, n)"
  using assms
proof (induction rs arbitrary: c n)
  case Nil
  then show ?case by (simp add: patience_nonneg)
next
  case (Cons r rs)
  let ?d = "decideLoopPolicy (input_of mc mn (c, n) r)"
  show ?case
  proof (cases "continues ?d")
    case True
    then obtain a where a: "ld_action ?d = ContinueLoop a" by (auto simp: continues_def)
    have u: "unproductive r" using Cons.prems(1) by simp
    from Cons.IH [OF _ unproductive_step(2) [OF u Cons.prems(2) True], of "ld_noProgressRounds ?d"]
      unproductive_step(1) [OF u Cons.prems(2) True] Cons.prems(1)
    show ?thesis by (simp add: a Let_def)
  next
    case False
    then show ?thesis using patience_nonneg [of mc mn "(c, n)"]
      by (auto simp: continues_def Let_def split: loop_action.splits)
  qed
qed

text \<open>C24. However the tools fail, ask for help or ask to go on, the loop continues after at most
  \<open>max 1 mn * (max 0 mc + 1) - 1\<close> unproductive rounds in a row before it waits, where \<open>mc\<close> and \<open>mn\<close> limit the
  corrections and the rounds without progress.\<close>

theorem unproductive_rounds_end:
  assumes "list_all unproductive rs" "0 \<le> c" "0 \<le> n"
  shows "int (policy_run mc mn (c, n) rs) < max 1 mn * (max 0 mc + 1)"
proof -
  have "patience mc mn (c, n) \<le> patience mc mn (0, 0)"
  proof -
    define k a b where "k = max 0 mc + 1" and "a = max 0 (max 1 mn - 1 - n)" and "b = max 0 (max 1 mn - 1 - 0)"
    have "a * k \<le> b * k" using assms(3) by (intro mult_right_mono) (simp_all add: a_def b_def k_def)
    moreover have "max 0 (mc - c) \<le> max 0 (mc - 0)" using assms(2) by simp
    ultimately show ?thesis by (simp only: patience_def prod.case flip: k_def a_def b_def)
  qed
  also have "\<dots> < max 1 mn * (max 0 mc + 1)" by (simp add: patience_def algebra_simps)
  finally show ?thesis using policy_run_bounded [OF assms(1,2), of mc mn n] by simp
qed

definition failing_round :: round_outcome where
  "failing_round = \<lparr>ro_toolCallCount = 1, ro_recoverableToolFailure = True, ro_onlyHelpToolCalls = False,
     ro_madeToolProgress = False, ro_toolContinuation = None, ro_demand = NoDemand\<rparr>"

theorem unproductive_rounds_end_witness:
  "policy_run 2 3 (0, 0) (replicate 10 failing_round) = 4 \<and> int (policy_run 2 3 (0, 0) (replicate 10 failing_round)) < 9"
proof
  show "policy_run 2 3 (0, 0) (replicate 10 failing_round) = 4"
    by (simp add: numeral_eq_Suc failing_round_def decideLoopPolicy_def input_of_def decision_with_def decide_tool_round_def count_no_progress_def Let_def)
  show "int (policy_run 2 3 (0, 0) (replicate 10 failing_round)) < 9"
    using unproductive_rounds_end [of "replicate 10 failing_round" 0 0 2 3] by (simp add: unproductive_def failing_round_def list_all_iff)
qed

end
