(* ===== verification/Task_Scheduler.thy ===== *)
theory Task_Scheduler
  imports Main
begin

text \<open>
  \<open>src/agent/task-scheduler.ts\<close>: lanes with a concurrency limit, resources that only one job may hold, and
  jobs that share a key.  A job that has been started is a pending promise (\<open>sc_running\<close>); its end is the
  step that runs the \<open>finally\<close> handler.  Everything between two such steps is one turn of the event loop.
\<close>

section \<open>State\<close>

type_synonym key = string

record job =
  jb_promise :: nat
  jb_lane :: key
  jb_resourceKey :: "key option"
  jb_dedupeKey :: "key option"

record lane_state =
  ln_concurrency :: nat
  ln_active :: nat
  ln_queue :: "job list"

record scheduler =
  sc_lanes :: "(key \<times> lane_state) list"
  sc_activeResources :: "key set"
  sc_deduped :: "(key \<times> nat) list"
  sc_running :: "job list"
  sc_drainWaiters :: nat
  sc_drained :: nat
  sc_nextPromise :: nat

text \<open>An absent key and the empty one are both falsy.\<close>

definition truthy :: "key option \<Rightarrow> key option" where
  "truthy k = (case k of Some s \<Rightarrow> if s = '''' then None else Some s | None \<Rightarrow> None)"

definition resource_of :: "job \<Rightarrow> key option" where
  "resource_of j = truthy (jb_resourceKey j)"

definition dedupe_of :: "job \<Rightarrow> key option" where
  "dedupe_of j = truthy (jb_dedupeKey j)"

definition startable :: "key set \<Rightarrow> job \<Rightarrow> bool" where
  "startable resources j \<longleftrightarrow> (case resource_of j of None \<Rightarrow> True | Some k \<Rightarrow> k \<notin> resources)"

definition add_key :: "key option \<Rightarrow> key set \<Rightarrow> key set" where
  "add_key k ks = (case k of None \<Rightarrow> ks | Some x \<Rightarrow> insert x ks)"

definition remove_key :: "key option \<Rightarrow> key set \<Rightarrow> key set" where
  "remove_key k ks = (case k of None \<Rightarrow> ks | Some x \<Rightarrow> ks - {x})"

text \<open>A configuration: the concurrency is a number that \<open>Math.floor\<close> has made an integer.\<close>

definition createTaskScheduler :: "(key \<times> int) list \<Rightarrow> key + scheduler" where
  "createTaskScheduler config =
     (case find (\<lambda>(name, c). name = '''' \<or> c < 1) config of
        Some (name, _) \<Rightarrow> Inl name
      | None \<Rightarrow> Inr \<lparr>sc_lanes = map (\<lambda>(name, c). (name, \<lparr>ln_concurrency = nat c, ln_active = 0, ln_queue = []\<rparr>)) config,
           sc_activeResources = {}, sc_deduped = [], sc_running = [], sc_drainWaiters = 0, sc_drained = 0, sc_nextPromise = 0\<rparr>)"

definition agent_task_lanes :: "(key \<times> int) list" where
  "agent_task_lanes = [(''maintenance'', 1), (''network'', 3), (''media-description'', 2)]"

section \<open>Pumping\<close>

text \<open>\<open>queue.findIndex\<close> and \<open>splice\<close>: the first startable job and the others.\<close>

fun take_startable :: "key set \<Rightarrow> job list \<Rightarrow> (job \<times> job list) option" where
  "take_startable resources [] = None"
| "take_startable resources (j # js) =
     (if startable resources j then Some (j, js)
      else map_option (\<lambda>(x, xs). (x, j # xs)) (take_startable resources js))"

lemma take_startable_length: "take_startable resources js = Some (j, rest) \<Longrightarrow> length js = Suc (length rest)"
  by (induction js arbitrary: rest) (auto split: if_splits)

text \<open>The lane, the held resources and the jobs started.  The task of a job is a function that returns a promise; one that throws
  before it does (and would keep its slot in the lane) is not modelled.\<close>

function pumpLane :: "lane_state \<Rightarrow> key set \<Rightarrow> lane_state \<times> key set \<times> job list" where
  "pumpLane lane resources =
     (if ln_active lane < ln_concurrency lane
      then (case take_startable resources (ln_queue lane) of
              None \<Rightarrow> (lane, resources, [])
            | Some (j, rest) \<Rightarrow>
                (let (lane', resources', started) =
                       pumpLane (lane\<lparr>ln_active := ln_active lane + 1, ln_queue := rest\<rparr>) (add_key (resource_of j) resources)
                 in (lane', resources', j # started)))
      else (lane, resources, []))"
  by pat_completeness auto
termination
  by (relation "measure (\<lambda>(lane, resources). length (ln_queue lane))") (auto dest: take_startable_length)

declare pumpLane.simps [simp del]

fun pump_lanes :: "(key \<times> lane_state) list \<Rightarrow> key set \<Rightarrow> (key \<times> lane_state) list \<times> key set \<times> job list" where
  "pump_lanes [] resources = ([], resources, [])"
| "pump_lanes ((name, lane) # lanes) resources =
     (let (lane', resources1, started1) = pumpLane lane resources;
          (lanes', resources2, started2) = pump_lanes lanes resources1
      in ((name, lane') # lanes', resources2, started1 @ started2))"

definition isIdle :: "scheduler \<Rightarrow> bool" where
  "isIdle s \<longleftrightarrow> list_all (\<lambda>(_, l). ln_active l = 0 \<and> ln_queue l = []) (sc_lanes s)"

definition resolveDrainWaitersIfIdle :: "scheduler \<Rightarrow> scheduler" where
  "resolveDrainWaitersIfIdle s =
     (if isIdle s then s\<lparr>sc_drainWaiters := 0, sc_drained := sc_drained s + sc_drainWaiters s\<rparr> else s)"

definition pumpAll :: "scheduler \<Rightarrow> scheduler" where
  "pumpAll s =
     (let (lanes, resources, started) = pump_lanes (sc_lanes s) (sc_activeResources s) in
      resolveDrainWaitersIfIdle
        (s\<lparr>sc_lanes := lanes, sc_activeResources := resources, sc_running := sc_running s @ started\<rparr>))"

section \<open>Operations\<close>

definition set_lane :: "(key \<times> lane_state) list \<Rightarrow> key \<Rightarrow> (lane_state \<Rightarrow> lane_state) \<Rightarrow> (key \<times> lane_state) list" where
  "set_lane lanes name f = map (\<lambda>(n, l). if n = name then (n, f l) else (n, l)) lanes"

text \<open>\<open>None\<close>: the lane is not known.  Otherwise the promise returned.\<close>

definition schedule :: "key \<Rightarrow> key option \<Rightarrow> key option \<Rightarrow> scheduler \<Rightarrow> nat option \<times> scheduler" where
  "schedule lane resourceKey dedupeKey s =
     (if map_of (sc_lanes s) lane = None then (None, s)
      else (case (case truthy dedupeKey of None \<Rightarrow> None | Some k \<Rightarrow> map_of (sc_deduped s) k) of
              Some existing \<Rightarrow> (Some existing, s)
            | None \<Rightarrow>
                (let p = sc_nextPromise s;
                     j = \<lparr>jb_promise = p, jb_lane = lane, jb_resourceKey = resourceKey, jb_dedupeKey = dedupeKey\<rparr>
                 in (Some p, pumpAll (s\<lparr>sc_lanes := set_lane (sc_lanes s) lane (\<lambda>l. l\<lparr>ln_queue := ln_queue l @ [j]\<rparr>),
                      sc_deduped := (case truthy dedupeKey of None \<Rightarrow> sc_deduped s | Some k \<Rightarrow> (k, p) # sc_deduped s),
                      sc_nextPromise := p + 1\<rparr>)))))"

text \<open>The \<open>finally\<close> handler of a job.\<close>

definition finish :: "job \<Rightarrow> scheduler \<Rightarrow> scheduler" where
  "finish j s =
     pumpAll (s\<lparr>sc_lanes := set_lane (sc_lanes s) (jb_lane j) (\<lambda>l. l\<lparr>ln_active := ln_active l - 1\<rparr>),
       sc_activeResources := remove_key (resource_of j) (sc_activeResources s),
       sc_deduped := (case dedupe_of j of None \<Rightarrow> sc_deduped s | Some k \<Rightarrow> filter (\<lambda>(k', _). k' \<noteq> k) (sc_deduped s)),
       sc_running := remove1 j (sc_running s)\<rparr>)"

definition drain :: "scheduler \<Rightarrow> scheduler" where
  "drain s = (if isIdle s then s\<lparr>sc_drained := sc_drained s + 1\<rparr> else s\<lparr>sc_drainWaiters := sc_drainWaiters s + 1\<rparr>)"

inductive sched_step :: "scheduler \<Rightarrow> scheduler \<Rightarrow> bool" where
  step_schedule: "sched_step s (snd (schedule lane resourceKey dedupeKey s))"
| step_finish: "j \<in> set (sc_running s) \<Longrightarrow> sched_step s (finish j s)"
| step_drain: "sched_step s (drain s)"

inductive sched_reachable :: "(key \<times> int) list \<Rightarrow> scheduler \<Rightarrow> bool" for config where
  reach_create: "createTaskScheduler config = Inr s \<Longrightarrow> sched_reachable config s"
| reach_step: "sched_reachable config s \<Longrightarrow> sched_step s s' \<Longrightarrow> sched_reachable config s'"

end
