(* ===== verification/Task_Scheduler_Properties.thy ===== *)
theory Task_Scheduler_Properties
  imports Task_Scheduler "HOL-Library.Multiset"
begin

text \<open>
  The invariant of the scheduler and its preservation: counts, exclusive resources, shared keys, and that no
  job that could be started is left in a queue.
\<close>

section \<open>Held resources\<close>

fun held :: "job list \<Rightarrow> key list" where
  "held [] = []"
| "held (j # js) = (case resource_of j of None \<Rightarrow> held js | Some k \<Rightarrow> k # held js)"

definition on_lane :: "key \<Rightarrow> job list \<Rightarrow> job list" where
  "on_lane n js = filter (\<lambda>j. jb_lane j = n) js"

lemma held_append [simp]: "held (xs @ ys) = held xs @ held ys"
  by (induction xs) (auto split: option.splits)

lemma set_held: "set (held js) = {k. \<exists>j \<in> set js. resource_of j = Some k}"
  by (induction js) (auto split: option.splits)

lemma held_remove1:
  "distinct (held js) \<Longrightarrow> j \<in> set js \<Longrightarrow>
   distinct (held (remove1 j js)) \<and> set (held (remove1 j js)) = remove_key (resource_of j) (set (held js))"
proof (induction js)
  case (Cons x xs)
  show ?case
  proof (cases "x = j")
    case True
    with Cons.prems show ?thesis by (auto simp: remove_key_def split: option.splits)
  next
    case False
    then have j: "j \<in> set xs" using Cons.prems by simp
    then have in_held: "resource_of j = Some k \<Longrightarrow> k \<in> set (held xs)" for k by (auto simp: set_held)
    have d: "distinct (held xs)" using Cons.prems(1) by (auto split: option.splits)
    from Cons.IH [OF d j] Cons.prems(1) False in_held show ?thesis
      by (auto simp: remove_key_def split: option.splits)
  qed
qed simp

lemma add_key_set: "add_key (resource_of j) R = set (held [j]) \<union> R"
  by (auto simp: add_key_def split: option.splits)

lemma startable_held: "startable R j \<longleftrightarrow> set (held [j]) \<inter> R = {}"
  by (auto simp: startable_def split: option.splits)

lemma startable_mono: "R \<subseteq> S \<Longrightarrow> startable S j \<Longrightarrow> startable R j"
  by (auto simp: startable_def split: option.splits)

section \<open>Pumping\<close>

lemma take_startable_Some:
  "take_startable R js = Some (j, rest) \<Longrightarrow> startable R j \<and> mset js = add_mset j (mset rest)"
  by (induction js arbitrary: rest) (auto split: if_splits)

lemma take_startable_None: "take_startable R js = None \<longleftrightarrow> (\<forall>j \<in> set js. \<not> startable R j)"
  by (induction js) auto

definition saturated :: "key set \<Rightarrow> lane_state \<Rightarrow> bool" where
  "saturated R l \<longleftrightarrow> ln_concurrency l \<le> ln_active l \<or> (\<forall>j \<in> set (ln_queue l). \<not> startable R j)"

lemma saturated_mono: "saturated R l \<Longrightarrow> R \<subseteq> S \<Longrightarrow> saturated S l"
  unfolding saturated_def using startable_mono by blast

text \<open>What pumping does to one lane.\<close>

definition pumped :: "key set \<Rightarrow> lane_state \<Rightarrow> lane_state \<Rightarrow> key set \<Rightarrow> job list \<Rightarrow> bool" where
  "pumped R l l' R' st \<longleftrightarrow> ln_concurrency l' = ln_concurrency l \<and> ln_active l' = ln_active l + length st
     \<and> (ln_active l \<le> ln_concurrency l \<longrightarrow> ln_active l' \<le> ln_concurrency l)
     \<and> mset (ln_queue l) = mset st + mset (ln_queue l') \<and> R' = R \<union> set (held st) \<and> distinct (held st)
     \<and> set (held st) \<inter> R = {} \<and> saturated R' l'"

lemma pumpLane_pumped: "pumpLane l R = (l', R', st) \<Longrightarrow> pumped R l l' R' st"
proof (induction l R arbitrary: l' R' st rule: pumpLane.induct)
  case (1 l R)
  show ?case
  proof (cases "ln_active l < ln_concurrency l")
    case False
    with "1.prems" show ?thesis by (auto simp: pumpLane.simps [of l] pumped_def saturated_def)
  next
    case active: True
    show ?thesis
    proof (cases "take_startable R (ln_queue l)")
      case None
      with "1.prems" active show ?thesis
        by (auto simp: pumpLane.simps [of l] pumped_def saturated_def take_startable_None)
    next
      case (Some p)
      obtain j rest where p: "p = (j, rest)" by fastforce
      let ?l = "l\<lparr>ln_active := ln_active l + 1, ln_queue := rest\<rparr>"
      obtain l2 R2 st2 where rec: "pumpLane ?l (add_key (resource_of j) R) = (l2, R2, st2)" by (metis prod_cases3)
      note t = take_startable_Some [OF Some [unfolded p]]
      have out: "l' = l2" "R' = R2" "st = j # st2"
        using "1.prems" rec by (simp_all add: pumpLane.simps [of l] active Some p)
      have "pumped (add_key (resource_of j) R) ?l l2 R2 st2" by (rule "1.IH" [OF active Some p [symmetric] rec])
      then show ?thesis using t active unfolding pumped_def out startable_held add_key_set
        by (auto split: option.splits)
    qed
  qed
qed

definition queued :: "(key \<times> lane_state) list \<Rightarrow> job list" where
  "queued lanes = concat (map (\<lambda>p. ln_queue (snd p)) lanes)"

definition lane_jobs_ok :: "(key \<times> lane_state) list \<Rightarrow> bool" where
  "lane_jobs_ok lanes \<longleftrightarrow> distinct (map fst lanes) \<and> (\<forall>p \<in> set lanes. \<forall>j \<in> set (ln_queue (snd p)). jb_lane j = fst p)"

definition lane_after :: "(key \<times> lane_state) list \<Rightarrow> job list \<Rightarrow> key \<times> lane_state \<Rightarrow> bool" where
  "lane_after lanes st p \<longleftrightarrow> (\<exists>l. (fst p, l) \<in> set lanes \<and> ln_concurrency (snd p) = ln_concurrency l
     \<and> ln_active (snd p) = ln_active l + length (on_lane (fst p) st)
     \<and> (ln_active l \<le> ln_concurrency l \<longrightarrow> ln_active (snd p) \<le> ln_concurrency l)
     \<and> set (ln_queue (snd p)) \<subseteq> set (ln_queue l))"

lemma on_lane_all: "\<forall>j \<in> set js. jb_lane j = n \<Longrightarrow> on_lane n js = js"
  by (simp add: on_lane_def)

lemma on_lane_none: "\<forall>j \<in> set js. jb_lane j \<noteq> n \<Longrightarrow> on_lane n js = []"
  by (auto simp: on_lane_def filter_empty_conv)

lemma on_lane_append [simp]: "on_lane n (xs @ ys) = on_lane n xs @ on_lane n ys"
  by (simp add: on_lane_def)

lemma pump_lanes_facts:
  assumes "pump_lanes lanes R = (lanes', R', st)" "lane_jobs_ok lanes"
  shows "map fst lanes' = map fst lanes \<and> R' = R \<union> set (held st) \<and> distinct (held st) \<and> set (held st) \<inter> R = {}
    \<and> (\<forall>p \<in> set lanes'. saturated R' (snd p)) \<and> mset (queued lanes) = mset st + mset (queued lanes')
    \<and> (\<forall>p \<in> set lanes'. lane_after lanes st p) \<and> (\<forall>j \<in> set st. jb_lane j \<in> fst ` set lanes)"
  using assms
proof (induction lanes arbitrary: R lanes' st)
  case (Cons p lanes)
  obtain name l where p: "p = (name, l)" by fastforce
  obtain l1 R1 st1 where one: "pumpLane l R = (l1, R1, st1)" by (metis prod_cases3)
  obtain lanes2 R2 st2 where rest: "pump_lanes lanes R1 = (lanes2, R2, st2)" by (metis prod_cases3)
  have out: "lanes' = (name, l1) # lanes2" "R' = R2" "st = st1 @ st2" using Cons.prems(1) one rest by (simp_all add: p)
  note f = pumpLane_pumped [OF one, unfolded pumped_def]
  have ok: "lane_jobs_ok lanes" "name \<notin> fst ` set lanes" "\<forall>j \<in> set (ln_queue l). jb_lane j = name"
    using Cons.prems(2) by (auto simp: lane_jobs_ok_def p)
  note g = Cons.IH [OF rest [folded out(2)] ok(1), unfolded out(2)]
  have sub: "set st1 \<subseteq> set (ln_queue l)" "set (ln_queue l1) \<subseteq> set (ln_queue l)"
  proof -
    have "set (ln_queue l) = set st1 \<union> set (ln_queue l1)" using f by (metis set_mset_mset set_mset_union)
    then show "set st1 \<subseteq> set (ln_queue l)" "set (ln_queue l1) \<subseteq> set (ln_queue l)" by auto
  qed
  have j1: "\<forall>j \<in> set st1. jb_lane j = name" using sub(1) ok(3) by auto
  have j2: "\<forall>j \<in> set st2. jb_lane j \<in> fst ` set lanes" using g by blast
  have sat: "saturated R2 l1" using saturated_mono f g by blast
  have here: "lane_after (p # lanes) st (name, l1)"
  proof -
    have "on_lane name st2 = []" by (rule on_lane_none) (use j2 ok(2) in blast)
    then have o: "on_lane name st = st1" by (simp add: out on_lane_all [OF j1])
    have "ln_active l1 = ln_active l + length st1" "ln_concurrency l1 = ln_concurrency l"
        "ln_active l \<le> ln_concurrency l \<longrightarrow> ln_active l1 \<le> ln_concurrency l"
      using f by blast+
    then show ?thesis unfolding lane_after_def
      by (intro exI [of _ l]) (simp add: sub(2) o p)
  qed
  have there: "lane_after (p # lanes) st q" if "q \<in> set lanes2" for q
  proof -
    have q0: "lane_after lanes st2 q" using g that by simp
    then obtain m where q: "(fst q, m) \<in> set lanes" "lane_after lanes st2 q" unfolding lane_after_def by metis
    have "fst q \<noteq> name" using ok(2) image_eqI [of "fst q" fst "(fst q, m)" "set lanes"] q(1) by (metis fst_conv)
    then have "on_lane (fst q) st = on_lane (fst q) st2" using on_lane_none [of st1 "fst q"] j1 by (auto simp: out)
    with q(2) obtain l'' where "(fst q, l'') \<in> set lanes \<and> ln_concurrency (snd q) = ln_concurrency l''
      \<and> ln_active (snd q) = ln_active l'' + length (on_lane (fst q) st)
      \<and> (ln_active l'' \<le> ln_concurrency l'' \<longrightarrow> ln_active (snd q) \<le> ln_concurrency l'')
      \<and> set (ln_queue (snd q)) \<subseteq> set (ln_queue l'')" unfolding lane_after_def by metis
    then show ?thesis unfolding lane_after_def by (metis list.set_intros(2))
  qed
  have jl: "\<forall>j \<in> set st. jb_lane j \<in> fst ` set (p # lanes)" 
    unfolding out set_append using j1 j2 p by simp blast
  have ms: "mset (queued (p # lanes)) = mset st + mset (queued lanes')"
  proof -
    have "mset (ln_queue l) = mset st1 + mset (ln_queue l1)" "mset (queued lanes) = mset st2 + mset (queued lanes2)"
      using f g by simp_all
    then show ?thesis by (simp add: queued_def out p)
  qed
  have fk: "R1 = R \<union> set (held st1)" "distinct (held st1)" "set (held st1) \<inter> R = {}" using f by blast+
  have gk: "R2 = R1 \<union> set (held st2)" "distinct (held st2)" "set (held st2) \<inter> R1 = {}" "map fst lanes2 = map fst lanes"
    "\<forall>q \<in> set lanes2. saturated R2 (snd q)"
    using g by blast+
  have k: "R' = R \<union> set (held st) \<and> distinct (held st) \<and> set (held st) \<inter> R = {}"
    unfolding out held_append set_append distinct_append gk(1) fk(1) using fk(2,3) gk(2,3) fk(1) by blast
  have m: "map fst lanes' = map fst (p # lanes)" using gk(4) by (simp add: out p)
  have sats: "\<forall>q \<in> set lanes'. saturated R' (snd q)" using gk(5) sat by (simp add: out)
  have afters: "\<forall>q \<in> set lanes'. lane_after (p # lanes) st q" using here there by (simp add: out)
  show ?case using m k sats afters jl ms by (intro conjI) simp_all
qed (simp add: queued_def)

section \<open>The invariant\<close>

definition lanes_ok :: "(key \<times> lane_state) list \<Rightarrow> key set \<Rightarrow> job list \<Rightarrow> bool" where
  "lanes_ok lanes R run \<longleftrightarrow> lane_jobs_ok lanes
     \<and> (\<forall>p \<in> set lanes. 1 \<le> ln_concurrency (snd p) \<and> ln_active (snd p) \<le> ln_concurrency (snd p)
          \<and> ln_active (snd p) = length (on_lane (fst p) run))
     \<and> (\<forall>j \<in> set run. jb_lane j \<in> fst ` set lanes) \<and> R = set (held run) \<and> distinct (held run)"

definition keys_ok :: "job list \<Rightarrow> (key \<times> nat) list \<Rightarrow> nat \<Rightarrow> bool" where
  "keys_ok js deduped n \<longleftrightarrow> distinct (map jb_promise js) \<and> (\<forall>j \<in> set js. jb_promise j < n) \<and> distinct (map fst deduped)
     \<and> (\<forall>j \<in> set js. \<forall>k. dedupe_of j = Some k \<longrightarrow> map_of deduped k = Some (jb_promise j))
     \<and> (\<forall>p \<in> set deduped. \<exists>j \<in> set js. dedupe_of j = Some (fst p) \<and> jb_promise j = snd p)"

definition pending_jobs :: "scheduler \<Rightarrow> job list" where
  "pending_jobs s = sc_running s @ queued (sc_lanes s)"

definition sched_inv :: "scheduler \<Rightarrow> bool" where
  "sched_inv s \<longleftrightarrow> lanes_ok (sc_lanes s) (sc_activeResources s) (sc_running s)
     \<and> (\<forall>p \<in> set (sc_lanes s). saturated (sc_activeResources s) (snd p))
     \<and> keys_ok (pending_jobs s) (sc_deduped s) (sc_nextPromise s)
     \<and> (0 < sc_drainWaiters s \<longrightarrow> \<not> isIdle s)"

lemma keys_ok_mset: "mset js = mset js' \<Longrightarrow> keys_ok js d n = keys_ok js' d n"
proof -
  assume m: "mset js = mset js'"
  then have "set js = set js'" by (rule mset_eq_setD)
  moreover have "distinct (map jb_promise js) = distinct (map jb_promise js')"
    by (rule mset_eq_imp_distinct_iff) (simp add: m)
  ultimately show ?thesis by (simp add: keys_ok_def)
qed

lemma pumpAll_inv:
  assumes "lanes_ok (sc_lanes s) (sc_activeResources s) (sc_running s)"
    and "keys_ok (pending_jobs s) (sc_deduped s) (sc_nextPromise s)"
  shows "sched_inv (pumpAll s)"
proof -
  obtain lanes R st where p: "pump_lanes (sc_lanes s) (sc_activeResources s) = (lanes, R, st)" by (metis prod_cases3)
  have ok: "lane_jobs_ok (sc_lanes s)" using assms(1) by (simp add: lanes_ok_def)
  note f = pump_lanes_facts [OF p ok]
  let ?run = "sc_running s @ st"
  have ok': "lane_jobs_ok lanes"
  proof -
    have "jb_lane j = fst q" if "q \<in> set lanes" "j \<in> set (ln_queue (snd q))" for q j
      using f that ok unfolding lane_after_def lane_jobs_ok_def by fastforce
    moreover have "map fst lanes = map fst (sc_lanes s)" using f by blast
    ultimately show ?thesis using ok by (simp add: lane_jobs_ok_def)
  qed
  have lane: "1 \<le> ln_concurrency (snd q) \<and> ln_active (snd q) \<le> ln_concurrency (snd q)
      \<and> ln_active (snd q) = length (on_lane (fst q) ?run)" if "q \<in> set lanes" for q
  proof -
    have la: "lane_after (sc_lanes s) st q" using f that by blast
    obtain l where l: "(fst q, l) \<in> set (sc_lanes s)" "ln_concurrency (snd q) = ln_concurrency l"
        "ln_active (snd q) = ln_active l + length (on_lane (fst q) st)"
        "ln_active l \<le> ln_concurrency l \<longrightarrow> ln_active (snd q) \<le> ln_concurrency l"
      using la unfolding lane_after_def by blast
    have "1 \<le> ln_concurrency l \<and> ln_active l \<le> ln_concurrency l \<and> ln_active l = length (on_lane (fst q) (sc_running s))"
      using bspec [OF conjunct1 [OF conjunct2 [OF assms(1) [unfolded lanes_ok_def]]] l(1)] by simp
    with l(2-4) show ?thesis by (metis on_lane_append length_append)
  qed
  have names: "fst ` set lanes = fst ` set (sc_lanes s)"
  proof -
    have "map fst lanes = map fst (sc_lanes s)" using f by blast
    then show ?thesis by (metis set_map)
  qed
  have fR: "R = sc_activeResources s \<union> set (held st)" "distinct (held st)" "set (held st) \<inter> sc_activeResources s = {}"
    "\<forall>j \<in> set st. jb_lane j \<in> fst ` set (sc_lanes s)"
    using f by blast+
  have a: "\<forall>j \<in> set (sc_running s). jb_lane j \<in> fst ` set (sc_lanes s)" "sc_activeResources s = set (held (sc_running s))"
    "distinct (held (sc_running s))"
    using assms(1) by (simp_all add: lanes_ok_def)
  have lok: "lanes_ok lanes R ?run"
    unfolding lanes_ok_def names
  proof (intro conjI)
    show "\<forall>p \<in> set lanes. 1 \<le> ln_concurrency (snd p) \<and> ln_active (snd p) \<le> ln_concurrency (snd p)
        \<and> ln_active (snd p) = length (on_lane (fst p) ?run)" using lane by blast
    show "\<forall>j \<in> set ?run. jb_lane j \<in> fst ` set (sc_lanes s)" unfolding set_append using fR(4) a(1) by blast
    show "R = set (held ?run)" by (simp add: fR(1) a(2) Un_commute)
    show "distinct (held ?run)" using a fR(2,3) by (simp add: Int_commute)
  qed (rule ok')
  have "mset (queued (sc_lanes s)) = mset st + mset (queued lanes)" using f by blast
  then have "mset (pending_jobs s) = mset (?run @ queued lanes)" by (simp add: pending_jobs_def)
  then have kok: "keys_ok (?run @ queued lanes) (sc_deduped s) (sc_nextPromise s)"
    using assms(2) keys_ok_mset by blast
  have sat: "\<forall>q \<in> set lanes. saturated R (snd q)" using f by blast
  have kok': "keys_ok (sc_running s @ st @ queued lanes) (sc_deduped s) (sc_nextPromise s)" using kok by simp
  show ?thesis
  proof (cases "isIdle (s\<lparr>sc_lanes := lanes, sc_activeResources := R, sc_running := ?run\<rparr>)")
    case True
    show ?thesis unfolding sched_inv_def pumpAll_def p pending_jobs_def
      by (simp add: resolveDrainWaitersIfIdle_def True lok sat kok')
  next
    case False
    show ?thesis unfolding sched_inv_def pumpAll_def p pending_jobs_def
      by (simp add: resolveDrainWaitersIfIdle_def False lok sat kok')
  qed
qed

section \<open>Operations\<close>

lemma set_lane_names [simp]: "map fst (set_lane lanes n f) = map fst lanes"
  by (induction lanes) (auto simp: set_lane_def)

lemma set_lane_names_set [simp]: "fst ` set (set_lane lanes n f) = fst ` set lanes"
  using set_lane_names [of lanes n f] by (metis set_map)

lemma set_lane_mem:
  "q \<in> set (set_lane lanes n f) \<longleftrightarrow> (\<exists>l. (fst q, l) \<in> set lanes \<and> snd q = (if fst q = n then f l else l))"
  by (cases q) (auto simp: set_lane_def image_iff split: if_splits; force)

lemma queued_set_lane_other: "n \<notin> fst ` set lanes \<Longrightarrow> set_lane lanes n f = lanes"
  by (induction lanes) (auto simp: set_lane_def)

lemma queued_set_lane_same:
  "(\<And>l. ln_queue (f l) = ln_queue l) \<Longrightarrow> queued (set_lane lanes n f) = queued lanes"
  by (induction lanes) (auto simp: set_lane_def queued_def)

lemma queued_set_lane_push:
  assumes "distinct (map fst lanes)" "n \<in> fst ` set lanes" "\<And>l. ln_queue (f l) = ln_queue l @ [j]"
  shows "mset (queued (set_lane lanes n f)) = add_mset j (mset (queued lanes))"
  using assms(1,2)
proof (induction lanes)
  case (Cons q lanes)
  show ?case
  proof (cases "fst q = n")
    case True
    then have "set_lane lanes n f = lanes" using Cons.prems by (intro queued_set_lane_other) auto
    with True show ?thesis by (cases q) (simp add: set_lane_def queued_def assms(3))
  next
    case False
    with Cons show ?thesis by (cases q) (auto simp: set_lane_def queued_def)
  qed
qed simp

lemma keys_ok_push:
  assumes ok: "keys_ok js d n" and new: "\<And>k. dedupe_of j = Some k \<Longrightarrow> map_of d k = None" and p: "jb_promise j = n"
  shows "keys_ok (j # js) (case dedupe_of j of None \<Rightarrow> d | Some k \<Rightarrow> (k, n) # d) (n + 1)"
proof -
  have below: "\<forall>i \<in> set js. jb_promise i < n" using ok by (simp add: keys_ok_def)
  have fresh: "n \<notin> jb_promise ` set js" using below by auto
  show ?thesis
  proof (cases "dedupe_of j")
    case None
    then show ?thesis using ok below fresh unfolding keys_ok_def by (auto simp: p less_Suc_eq)
  next
    case (Some k)
    have none: "map_of d k = None" by (rule new [OF Some])
    then have nk: "k \<notin> fst ` set d" by (simp add: map_of_eq_None_iff)
    have nj: "dedupe_of i \<noteq> Some k" if "i \<in> set js" for i using ok none that unfolding keys_ok_def by force
    show ?thesis using ok below fresh nk nj Some unfolding keys_ok_def by (auto simp: p less_Suc_eq)
  qed
qed

lemma keys_ok_drop:
  assumes ok: "keys_ok js d n" and j: "j \<in> set js"
  shows "keys_ok (remove1 j js) (case dedupe_of j of None \<Rightarrow> d | Some k \<Rightarrow> filter (\<lambda>(k', _). k' \<noteq> k) d) n"
proof -
  have dist: "distinct (map jb_promise js)" using ok by (simp add: keys_ok_def)
  then have djs: "distinct js" by (simp add: distinct_map)
  then have rem: "set (remove1 j js) = set js - {j}" by simp
  have dist': "distinct (map jb_promise (remove1 j js))"
    using dist djs by (auto simp: distinct_map intro: inj_on_subset)
  have key: "dedupe_of i = Some k \<Longrightarrow> i \<in> set js \<Longrightarrow> map_of d k = Some (jb_promise i)" for i k
    using ok by (simp add: keys_ok_def)
  have owner: "(k, p) \<in> set d \<Longrightarrow> \<exists>i \<in> set js. dedupe_of i = Some k \<and> jb_promise i = p" for k p
    using ok by (fastforce simp: keys_ok_def)
  have below: "\<forall>i \<in> set js. jb_promise i < n" and dd: "distinct (map fst d)" using ok by (simp_all add: keys_ok_def)
  have same: "i = j" if "i \<in> set js" "jb_promise i = jb_promise j" for i
    using dist that j by (simp add: distinct_map inj_on_def)
  show ?thesis
  proof (cases "dedupe_of j")
    case None
    have "\<exists>i \<in> set (remove1 j js). dedupe_of i = Some (fst q) \<and> jb_promise i = snd q" if "q \<in> set d" for q
      using owner [of "fst q" "snd q"] that None rem by force
    then show ?thesis using None dist' below dd key rem by (simp add: keys_ok_def)
  next
    case (Some k)
    let ?d = "filter (\<lambda>(k', _). k' \<noteq> k) d"
    have m: "map_of ?d k' = map_of d k'" if "k' \<noteq> k" for k' using that by (induction d) auto
    have other: "dedupe_of i \<noteq> Some k" if "i \<in> set js" "i \<noteq> j" for i
      using key [OF _ that(1)] key [OF Some j] same [OF that(1)] that(2) by fastforce
    have "\<exists>i \<in> set (remove1 j js). dedupe_of i = Some (fst q) \<and> jb_promise i = snd q" if "q \<in> set ?d" for q
    proof -
      have q: "q \<in> set d" "fst q \<noteq> k" using that by auto
      obtain i where "i \<in> set js" "dedupe_of i = Some (fst q)" "jb_promise i = snd q"
        using owner [of "fst q" "snd q"] q(1) by auto
      with q(2) Some show ?thesis by (intro bexI [of _ i]) (auto simp: rem)
    qed
    moreover have "map_of ?d k' = Some (jb_promise i)" if "i \<in> set (remove1 j js)" "dedupe_of i = Some k'" for i k'
      using that rem other [of i] m [of k'] key [of i k'] by auto
    moreover have "distinct (map fst ?d)" using dd by (simp add: distinct_map_filter)
    ultimately show ?thesis using Some dist' below rem by (simp add: keys_ok_def)
  qed
qed

lemma lanes_ok_queue:
  assumes "lanes_ok lanes R run" "jb_lane j = n"
  shows "lanes_ok (set_lane lanes n (\<lambda>l. l\<lparr>ln_queue := ln_queue l @ [j]\<rparr>)) R run"
proof -
  let ?lanes = "set_lane lanes n (\<lambda>l. l\<lparr>ln_queue := ln_queue l @ [j]\<rparr>)"
  have ok: "lane_jobs_ok lanes" using assms(1) by (simp add: lanes_ok_def)
  have "jb_lane i = fst q" if "q \<in> set ?lanes" "i \<in> set (ln_queue (snd q))" for q i
    using that ok assms(2) unfolding set_lane_mem lane_jobs_ok_def by (force split: if_splits)
  then have "lane_jobs_ok ?lanes" using ok by (simp add: lane_jobs_ok_def)
  moreover have "1 \<le> ln_concurrency (snd q) \<and> ln_active (snd q) \<le> ln_concurrency (snd q)
      \<and> ln_active (snd q) = length (on_lane (fst q) run)" if "q \<in> set ?lanes" for q
    using that assms(1) unfolding set_lane_mem lanes_ok_def by (force split: if_splits)
  moreover have "\<forall>i \<in> set run. jb_lane i \<in> fst ` set ?lanes" "R = set (held run)" "distinct (held run)"
    using assms(1) by (simp_all add: lanes_ok_def)
  ultimately show ?thesis unfolding lanes_ok_def by blast
qed

lemma on_lane_remove1: "on_lane n (remove1 j js) = (if jb_lane j = n then remove1 j (on_lane n js) else on_lane n js)"
  by (induction js) (auto simp: on_lane_def)

lemma lanes_ok_finish:
  assumes "lanes_ok lanes R run" "j \<in> set run"
  shows "lanes_ok (set_lane lanes (jb_lane j) (\<lambda>l. l\<lparr>ln_active := ln_active l - 1\<rparr>)) (remove_key (resource_of j) R) (remove1 j run)"
proof -
  let ?lanes = "set_lane lanes (jb_lane j) (\<lambda>l. l\<lparr>ln_active := ln_active l - 1\<rparr>)"
  have ok: "lane_jobs_ok lanes" and run: "\<forall>i \<in> set run. jb_lane i \<in> fst ` set lanes" and R: "R = set (held run)"
    and d: "distinct (held run)" using assms(1) by (simp_all add: lanes_ok_def)
  have "jb_lane i = fst q" if "q \<in> set ?lanes" "i \<in> set (ln_queue (snd q))" for q i
    using that ok unfolding set_lane_mem lane_jobs_ok_def by (force split: if_splits)
  then have "lane_jobs_ok ?lanes" using ok by (simp add: lane_jobs_ok_def)
  moreover have "1 \<le> ln_concurrency (snd q) \<and> ln_active (snd q) \<le> ln_concurrency (snd q)
      \<and> ln_active (snd q) = length (on_lane (fst q) (remove1 j run))" if q: "q \<in> set ?lanes" for q
  proof -
    obtain l where l: "(fst q, l) \<in> set lanes"
        "snd q = (if fst q = jb_lane j then l\<lparr>ln_active := ln_active l - 1\<rparr> else l)"
      using q unfolding set_lane_mem by blast
    have b: "1 \<le> ln_concurrency l \<and> ln_active l \<le> ln_concurrency l \<and> ln_active l = length (on_lane (fst q) run)"
      using bspec [OF conjunct1 [OF conjunct2 [OF assms(1) [unfolded lanes_ok_def]]] l(1)] by simp
    have "j \<in> set (on_lane (jb_lane j) run)" using assms(2) by (simp add: on_lane_def)
    with b l(2) show ?thesis by (auto simp: on_lane_remove1 length_remove1)
  qed
  moreover have "\<forall>i \<in> set (remove1 j run). jb_lane i \<in> fst ` set ?lanes"
    using run set_remove1_subset [of j run] unfolding set_lane_names_set by blast
  moreover have "remove_key (resource_of j) R = set (held (remove1 j run))" "distinct (held (remove1 j run))"
    using held_remove1 [OF d assms(2)] by (simp_all add: R)
  ultimately show ?thesis unfolding lanes_ok_def by blast
qed

lemma sched_inv_schedule:
  assumes inv: "sched_inv s"
  shows "sched_inv (snd (schedule lane r d s))"
proof (cases "map_of (sc_lanes s) lane = None
    \<or> (case truthy d of None \<Rightarrow> None | Some k \<Rightarrow> map_of (sc_deduped s) k) \<noteq> None")
  case True
  then show ?thesis using inv by (auto simp: schedule_def split: option.splits)
next
  case False
  let ?j = "\<lparr>jb_promise = sc_nextPromise s, jb_lane = lane, jb_resourceKey = r, jb_dedupeKey = d\<rparr>"
  let ?lanes = "set_lane (sc_lanes s) lane (\<lambda>l. l\<lparr>ln_queue := ln_queue l @ [?j]\<rparr>)"
  let ?d = "case truthy d of None \<Rightarrow> sc_deduped s | Some k \<Rightarrow> (k, sc_nextPromise s) # sc_deduped s"
  let ?s = "s\<lparr>sc_lanes := ?lanes, sc_deduped := ?d, sc_nextPromise := sc_nextPromise s + 1\<rparr>"
  have out: "snd (schedule lane r d s) = pumpAll ?s"
    using False by (auto simp: schedule_def Let_def split: option.splits)
  have lok: "lanes_ok (sc_lanes s) (sc_activeResources s) (sc_running s)"
    and kok: "keys_ok (pending_jobs s) (sc_deduped s) (sc_nextPromise s)" using inv by (simp_all add: sched_inv_def)
  have dl: "distinct (map fst (sc_lanes s))" using lok by (simp add: lanes_ok_def lane_jobs_ok_def)
  have here: "lane \<in> fst ` set (sc_lanes s)" using False by (simp add: map_of_eq_None_iff)
  have "mset (queued ?lanes) = add_mset ?j (mset (queued (sc_lanes s)))"
    by (rule queued_set_lane_push [OF dl here]) simp
  then have m: "mset (pending_jobs ?s) = mset (?j # pending_jobs s)" by (simp add: pending_jobs_def)
  have "keys_ok (?j # pending_jobs s) (case dedupe_of ?j of None \<Rightarrow> sc_deduped s | Some k \<Rightarrow> (k, sc_nextPromise s) # sc_deduped s)
      (sc_nextPromise s + 1)"
    by (rule keys_ok_push [OF kok]) (use False in \<open>simp_all add: dedupe_of_def\<close>)
  then have k2: "keys_ok (pending_jobs ?s) (sc_deduped ?s) (sc_nextPromise ?s)"
    using keys_ok_mset [OF m] by (simp add: dedupe_of_def)
  show ?thesis unfolding out by (rule pumpAll_inv [OF _ k2]) (use lanes_ok_queue [OF lok, of ?j lane] in simp)
qed

lemma sched_inv_finish:
  assumes inv: "sched_inv s" and j: "j \<in> set (sc_running s)"
  shows "sched_inv (finish j s)"
proof -
  let ?lanes = "set_lane (sc_lanes s) (jb_lane j) (\<lambda>l. l\<lparr>ln_active := ln_active l - 1\<rparr>)"
  let ?d = "case dedupe_of j of None \<Rightarrow> sc_deduped s | Some k \<Rightarrow> filter (\<lambda>(k', _). k' \<noteq> k) (sc_deduped s)"
  let ?s = "s\<lparr>sc_lanes := ?lanes, sc_activeResources := remove_key (resource_of j) (sc_activeResources s),
    sc_deduped := ?d, sc_running := remove1 j (sc_running s)\<rparr>"
  have lok: "lanes_ok (sc_lanes s) (sc_activeResources s) (sc_running s)"
    and kok: "keys_ok (pending_jobs s) (sc_deduped s) (sc_nextPromise s)" using inv by (simp_all add: sched_inv_def)
  have q: "queued ?lanes = queued (sc_lanes s)" by (rule queued_set_lane_same) simp
  have p: "pending_jobs ?s = remove1 j (pending_jobs s)" using j q by (simp add: pending_jobs_def remove1_append)
  have in_p: "j \<in> set (pending_jobs s)" using j by (simp add: pending_jobs_def)
  have k2: "keys_ok (pending_jobs ?s) (sc_deduped ?s) (sc_nextPromise ?s)"
    unfolding p using keys_ok_drop [OF kok in_p] by simp
  show ?thesis unfolding finish_def by (rule pumpAll_inv [OF _ k2]) (use lanes_ok_finish [OF lok j] in simp)
qed

lemma sched_inv_drain: "sched_inv s \<Longrightarrow> sched_inv (drain s)"
  by (auto simp: drain_def sched_inv_def pending_jobs_def isIdle_def)

lemma sched_inv_step: "sched_step s s' \<Longrightarrow> sched_inv s \<Longrightarrow> sched_inv s'"
  by (induction rule: sched_step.induct) (simp_all add: sched_inv_schedule sched_inv_finish sched_inv_drain)

lemma sched_inv_create:
  assumes "createTaskScheduler config = Inr s" "distinct (map fst config)"
  shows "sched_inv s"
proof -
  have good: "\<forall>p \<in> set config. 1 \<le> snd p"
    using assms(1) by (force simp: createTaskScheduler_def find_None_iff split: option.splits)
  let ?lane = "\<lambda>(name, c). (name, \<lparr>ln_concurrency = nat c, ln_active = 0, ln_queue = []\<rparr>)"
  have s: "s = \<lparr>sc_lanes = map ?lane config, sc_activeResources = {}, sc_deduped = [], sc_running = [],
      sc_drainWaiters = 0, sc_drained = 0, sc_nextPromise = 0\<rparr>"
    using assms(1) by (auto simp: createTaskScheduler_def split: option.splits)
  have names: "map fst (map ?lane config) = map fst config" by (simp add: case_prod_beta)
  have queues: "queued (map ?lane config) = []" by (induction config) (auto simp: queued_def)
  have "lane_jobs_ok (map ?lane config)" unfolding lane_jobs_ok_def names using assms(2) by auto
  moreover have "1 \<le> ln_concurrency (snd p) \<and> ln_active (snd p) = 0 \<and> ln_queue (snd p) = []"
    if "p \<in> set (map ?lane config)" for p
    using that good by (auto simp: nat_le_iff le_nat_iff)
  ultimately show ?thesis
    by (simp add: s sched_inv_def lanes_ok_def keys_ok_def pending_jobs_def saturated_def on_lane_def queues)
qed

lemma sched_reachable_inv: "sched_reachable config s \<Longrightarrow> distinct (map fst config) \<Longrightarrow> sched_inv s"
  by (induction rule: sched_reachable.induct) (auto intro: sched_inv_create sched_inv_step)

lemma held_exclusive:
  "distinct (held js) \<Longrightarrow> i < length js \<Longrightarrow> k < length js \<Longrightarrow> i \<noteq> k \<Longrightarrow> resource_of (js ! i) = Some x \<Longrightarrow>
   resource_of (js ! k) \<noteq> Some x"
proof (induction js arbitrary: i k)
  case (Cons j js)
  have in_held: "m < length js \<Longrightarrow> resource_of (js ! m) = Some x \<Longrightarrow> x \<in> set (held js)" for m
    by (auto simp: set_held)
  show ?case
  proof (cases i)
    case 0
    then obtain k' where "k = Suc k'" using Cons.prems(4) by (cases k) auto
    then show ?thesis using Cons.prems 0 in_held [of k'] by auto
  next
    case (Suc i')
    show ?thesis
    proof (cases k)
      case 0
      then show ?thesis using Cons.prems Suc in_held [of i'] by auto
    next
      case (Suc k')
      then show ?thesis using Cons.prems \<open>i = Suc i'\<close> Cons.IH [of i' k'] by (auto split: option.splits)
    qed
  qed
qed simp

lemma sched_inv_lane:
  assumes "sched_inv s" "p \<in> set (sc_lanes s)"
  shows "1 \<le> ln_concurrency (snd p)" "ln_active (snd p) \<le> ln_concurrency (snd p)"
    "ln_active (snd p) = length (on_lane (fst p) (sc_running s))" "saturated (sc_activeResources s) (snd p)"
proof -
  have l: "lanes_ok (sc_lanes s) (sc_activeResources s) (sc_running s)" using assms(1) by (simp add: sched_inv_def)
  show "1 \<le> ln_concurrency (snd p)" "ln_active (snd p) \<le> ln_concurrency (snd p)"
    "ln_active (snd p) = length (on_lane (fst p) (sc_running s))"
    using bspec [OF conjunct1 [OF conjunct2 [OF l [unfolded lanes_ok_def]]] assms(2)] by blast+
  show "saturated (sc_activeResources s) (snd p)"
    using bspec [OF conjunct1 [OF conjunct2 [OF assms(1) [unfolded sched_inv_def]]] assms(2)] .
qed

lemma sched_inv_running:
  assumes "sched_inv s"
  shows "sc_activeResources s = set (held (sc_running s))" "distinct (held (sc_running s))"
    "j \<in> set (sc_running s) \<Longrightarrow> jb_lane j \<in> fst ` set (sc_lanes s)"
  using assms by (simp_all add: sched_inv_def lanes_ok_def)

text \<open>When nothing runs, nothing waits.\<close>

lemma idle_iff_no_running:
  assumes inv: "sched_inv s"
  shows "isIdle s \<longleftrightarrow> pending_jobs s = []" "sc_running s = [] \<longleftrightarrow> pending_jobs s = []"
proof -
  have act: "ln_active (snd p) = length (on_lane (fst p) (sc_running s))" "1 \<le> ln_concurrency (snd p)"
    if "p \<in> set (sc_lanes s)" for p using sched_inv_lane [OF inv that] by blast+
  have empty: "queued (sc_lanes s) = [] \<longleftrightarrow> (\<forall>p \<in> set (sc_lanes s). ln_queue (snd p) = [])" by (auto simp: queued_def)
  have lane_of: "\<exists>p \<in> set (sc_lanes s). fst p = jb_lane j" if "j \<in> set (sc_running s)" for j
    using sched_inv_running(3) [OF inv that] by force
  have run: "sc_running s = [] \<longleftrightarrow> (\<forall>p \<in> set (sc_lanes s). ln_active (snd p) = 0)"
  proof
    assume zero: "\<forall>p \<in> set (sc_lanes s). ln_active (snd p) = 0"
    show "sc_running s = []"
    proof (rule ccontr)
      assume "sc_running s \<noteq> []"
      then obtain j where j: "j \<in> set (sc_running s)" by (meson last_in_set)
      obtain p where "p \<in> set (sc_lanes s)" "fst p = jb_lane j" using lane_of [OF j] by blast
      then have "on_lane (jb_lane j) (sc_running s) = []" using act(1) zero by (metis length_0_conv)
      with j show False by (auto simp: on_lane_def filter_empty_conv)
    qed
  qed (use act(1) in \<open>simp add: on_lane_def\<close>)
  have sat: "saturated (sc_activeResources s) (snd p)" if "p \<in> set (sc_lanes s)" for p
    by (rule sched_inv_lane(4) [OF inv that])
  note res = sched_inv_running(1) [OF inv]
  have waits: "ln_queue (snd p) = []" if "sc_running s = []" "p \<in> set (sc_lanes s)" for p
  proof -
    have a: "\<forall>j \<in> set (ln_queue (snd p)). \<not> startable {} j"
      using sat [OF that(2)] act [OF that(2)] that(1) by (auto simp: saturated_def on_lane_def res)
    then show ?thesis by (cases "ln_queue (snd p)") (auto simp: startable_def split: option.splits)
  qed
  show two: "sc_running s = [] \<longleftrightarrow> pending_jobs s = []"
    using waits empty by (auto simp: pending_jobs_def)
  show "isIdle s \<longleftrightarrow> pending_jobs s = []"
    unfolding pending_jobs_def append_is_Nil_conv empty run
    by (auto simp: isIdle_def list_all_iff)
qed

text \<open>Pumping moves jobs from the queues to the running ones.\<close>

lemma pumpAll_pending:
  assumes "lane_jobs_ok (sc_lanes s)"
  shows "mset (pending_jobs (pumpAll s)) = mset (pending_jobs s)"
proof -
  obtain lanes R st where p: "pump_lanes (sc_lanes s) (sc_activeResources s) = (lanes, R, st)" by (metis prod_cases3)
  have "mset (queued (sc_lanes s)) = mset st + mset (queued lanes)" using pump_lanes_facts [OF p assms] by blast
  then show ?thesis by (simp add: pumpAll_def p resolveDrainWaitersIfIdle_def pending_jobs_def)
qed

lemma finish_pending:
  assumes inv: "sched_inv s" and j: "j \<in> set (sc_running s)"
  shows "mset (pending_jobs s) = add_mset j (mset (pending_jobs (finish j s)))"
proof -
  let ?lanes = "set_lane (sc_lanes s) (jb_lane j) (\<lambda>l. l\<lparr>ln_active := ln_active l - 1\<rparr>)"
  have "lanes_ok (sc_lanes s) (sc_activeResources s) (sc_running s)" using inv by (simp add: sched_inv_def)
  from lanes_ok_finish [OF this j] have ok: "lane_jobs_ok ?lanes" unfolding lanes_ok_def by blast
  have q: "queued ?lanes = queued (sc_lanes s)" by (rule queued_set_lane_same) simp
  show ?thesis unfolding finish_def
    by (subst pumpAll_pending) (use ok j q in \<open>simp_all add: pending_jobs_def\<close>)
qed

text \<open>
  What the scheduler promises: limits and exclusive resources in every reachable state, no job that waits
  without a reason, and that every accepted job is run, so that \<open>drain\<close> returns.
\<close>

text \<open>In every reachable state of a scheduler, however calls and ends of jobs are interleaved, each lane runs
  at most as many jobs as its concurrency (and its counter is exact), no two running jobs hold the same
  resource, and no two pending jobs have the same dedupe key.
\<close>

theorem scheduler_limits:
  assumes "sched_reachable config s" "distinct (map fst config)"
  shows "(\<forall>(n, l) \<in> set (sc_lanes s). ln_active l \<le> ln_concurrency l
        \<and> ln_active l = length (filter (\<lambda>j. jb_lane j = n) (sc_running s)))
    \<and> (\<forall>i < length (sc_running s). \<forall>k < length (sc_running s). \<forall>r. i \<noteq> k \<longrightarrow>
        resource_of (sc_running s ! i) = Some r \<longrightarrow> resource_of (sc_running s ! k) \<noteq> Some r)
    \<and> (\<forall>a \<in> set (pending_jobs s). \<forall>b \<in> set (pending_jobs s). \<forall>d.
        dedupe_of a = Some d \<longrightarrow> dedupe_of b = Some d \<longrightarrow> a = b)"
proof (intro conjI)
  have inv: "sched_inv s" by (rule sched_reachable_inv [OF assms])
  have lane: "ln_active l \<le> ln_concurrency l \<and> ln_active l = length (filter (\<lambda>j. jb_lane j = n) (sc_running s))"
    if "(n, l) \<in> set (sc_lanes s)" for n l
    using sched_inv_lane(2,3) [OF inv that] by (simp add: on_lane_def)
  then show "\<forall>(n, l) \<in> set (sc_lanes s). ln_active l \<le> ln_concurrency l
      \<and> ln_active l = length (filter (\<lambda>j. jb_lane j = n) (sc_running s))" by blast
  show "\<forall>i < length (sc_running s). \<forall>k < length (sc_running s). \<forall>r. i \<noteq> k \<longrightarrow>
      resource_of (sc_running s ! i) = Some r \<longrightarrow> resource_of (sc_running s ! k) \<noteq> Some r"
    using held_exclusive [OF sched_inv_running(2) [OF inv]] by blast
  show "\<forall>a \<in> set (pending_jobs s). \<forall>b \<in> set (pending_jobs s). \<forall>d.
      dedupe_of a = Some d \<longrightarrow> dedupe_of b = Some d \<longrightarrow> a = b"
    using inv unfolding sched_inv_def keys_ok_def by (metis distinct_map inj_onD option.inject)
qed

text \<open>Three jobs on the agent's lanes: two of the network lane share a resource, so the second waits.\<close>

definition three_jobs :: scheduler where
  "three_jobs = snd (schedule ''network'' (Some ''web'') None
     (snd (schedule ''network'' (Some ''web'') (Some ''page'')
       (snd (schedule ''maintenance'' None None (case createTaskScheduler agent_task_lanes of Inr s \<Rightarrow> s))))))"

lemma three_jobs_reachable: "sched_reachable agent_task_lanes three_jobs"
proof -
  have c: "createTaskScheduler agent_task_lanes = Inr (case createTaskScheduler agent_task_lanes of Inr s \<Rightarrow> s)"
    by (simp add: createTaskScheduler_def agent_task_lanes_def)
  show ?thesis unfolding three_jobs_def
    by (intro reach_step [OF _ step_schedule] reach_create) (rule c)
qed

lemma agent_lanes_distinct: "distinct (map fst agent_task_lanes)"
  by (simp add: agent_task_lanes_def)

theorem scheduler_limits_witness:
  "map jb_promise (sc_running three_jobs) = [0, 1] \<and> map jb_promise (pending_jobs three_jobs) = [0, 1, 2]
   \<and> resource_of (sc_running three_jobs ! 0) \<noteq> Some ''web''"
proof -
  have r: "map jb_promise (sc_running three_jobs) = [0, 1]" "map jb_promise (pending_jobs three_jobs) = [0, 1, 2]"
    "resource_of (sc_running three_jobs ! 1) = Some ''web''"
    by code_simp+
  have "length (map jb_promise (sc_running three_jobs)) = 2" unfolding r by simp
  then have "length (sc_running three_jobs) = 2" by simp
  then have "resource_of (sc_running three_jobs ! 0) \<noteq> Some ''web''"
    using scheduler_limits [OF three_jobs_reachable agent_lanes_distinct] r(3)
    by (metis One_nat_def less_2_cases_iff zero_neq_one)
  with r show ?thesis by blast
qed

text \<open>A job waits only for a reason: when a queued job's lane has room, the job needs a resource that a running
  job holds.  So jobs that share a resource are never run before the holder has ended, and a free lane is
  never idle over a job it could start.
\<close>

theorem scheduler_conserves_work:
  assumes "sched_reachable config s" "distinct (map fst config)" "(n, l) \<in> set (sc_lanes s)" "j \<in> set (ln_queue l)"
    "ln_active l < ln_concurrency l"
  shows "\<exists>r. \<exists>i \<in> set (sc_running s). resource_of j = Some r \<and> resource_of i = Some r"
proof -
  have inv: "sched_inv s" by (rule sched_reachable_inv [OF assms(1,2)])
  have "\<not> startable (sc_activeResources s) j"
    using sched_inv_lane(4) [OF inv assms(3)] assms(4,5) by (auto simp: saturated_def)
  then show ?thesis using sched_inv_running(1) [OF inv]
    by (auto simp: startable_def set_held split: option.splits)
qed

theorem scheduler_conserves_work_witness:
  "\<exists>l. (''network'', l) \<in> set (sc_lanes three_jobs) \<and> ln_active l < ln_concurrency l \<and>
   (\<exists>j \<in> set (ln_queue l). \<exists>r. \<exists>i \<in> set (sc_running three_jobs). resource_of j = Some r \<and> resource_of i = Some r)"
proof -
  let ?l = "the (map_of (sc_lanes three_jobs) ''network'')"
  have "map_of (sc_lanes three_jobs) ''network'' \<noteq> None" by code_simp
  then have l: "(''network'', ?l) \<in> set (sc_lanes three_jobs)" by (auto intro: map_of_SomeD)
  have a: "ln_active ?l < ln_concurrency ?l" by code_simp
  have q: "ln_queue ?l \<noteq> []" by code_simp
  then have h: "hd (ln_queue ?l) \<in> set (ln_queue ?l)" by simp
  from scheduler_conserves_work [OF three_jobs_reachable agent_lanes_distinct l h a] l a h show ?thesis by blast
qed

section \<open>Liveness\<close>

inductive finishes :: "nat \<Rightarrow> scheduler \<Rightarrow> scheduler \<Rightarrow> bool" where
  finishes_0: "finishes 0 s s"
| finishes_Suc: "j \<in> set (sc_running s) \<Longrightarrow> finishes n (finish j s) s' \<Longrightarrow> finishes (Suc n) s s'"

inductive_cases finishes_0E: "finishes 0 s s'"
inductive_cases finishes_SucE: "finishes (Suc n) s s'"

lemma finishes_pending:
  "finishes n s s' \<Longrightarrow> sched_inv s \<Longrightarrow> sched_inv s' \<and> length (pending_jobs s) = n + length (pending_jobs s')"
proof (induction rule: finishes.induct)
  case (finishes_Suc j s n s')
  have "length (pending_jobs s) = Suc (length (pending_jobs (finish j s)))"
    using finish_pending [OF finishes_Suc.prems finishes_Suc.hyps(1)] by (metis size_add_mset size_mset)
  with finishes_Suc.IH [OF sched_inv_finish [OF finishes_Suc.prems finishes_Suc.hyps(1)]] show ?case by simp
qed simp

lemma finishes_exists: "sched_inv s \<Longrightarrow> n \<le> length (pending_jobs s) \<Longrightarrow> \<exists>s'. finishes n s s'"
proof (induction n arbitrary: s)
  case 0
  then show ?case by (auto intro: finishes_0)
next
  case (Suc n)
  then have "sc_running s \<noteq> []" using idle_iff_no_running(2) [OF Suc.prems(1)] by auto
  then obtain j where j: "j \<in> set (sc_running s)" by (meson last_in_set)
  have "length (pending_jobs s) = Suc (length (pending_jobs (finish j s)))"
    using finish_pending [OF Suc.prems(1) j] by (metis size_add_mset size_mset)
  then obtain s' where "finishes n (finish j s) s'"
    using Suc.IH [OF sched_inv_finish [OF Suc.prems(1) j]] Suc.prems(2) by auto
  then show ?case using j by (blast intro: finishes_Suc)
qed

text \<open>C25. Nothing deadlocks.  From any reachable state, when each started job ends (in whatever order), exactly as
  many ends as there were pending jobs can happen; after the last one every queue is empty and every caller of
  \<open>drain\<close> has been answered.
\<close>

theorem scheduler_drains:
  assumes "sched_reachable config s" "distinct (map fst config)"
  shows "(\<exists>s'. finishes (length (pending_jobs s)) s s')
    \<and> (\<forall>n s'. finishes n s s' \<longrightarrow> n \<le> length (pending_jobs s)
        \<and> (n = length (pending_jobs s) \<longrightarrow> isIdle s' \<and> sc_drainWaiters s' = 0))"
proof -
  have inv: "sched_inv s" by (rule sched_reachable_inv [OF assms])
  have "n \<le> length (pending_jobs s) \<and> (n = length (pending_jobs s) \<longrightarrow> isIdle s' \<and> sc_drainWaiters s' = 0)"
    if "finishes n s s'" for n s'
  proof -
    have p: "sched_inv s'" "length (pending_jobs s) = n + length (pending_jobs s')"
      using finishes_pending [OF that inv] by auto
    then have "n = length (pending_jobs s) \<longrightarrow> isIdle s'" using idle_iff_no_running(1) by simp
    with p show ?thesis unfolding sched_inv_def by (metis le_add1 neq0_conv)
  qed
  then show ?thesis using finishes_exists [OF inv] by blast
qed

theorem scheduler_drains_witness:
  "(\<exists>s'. finishes 3 (drain three_jobs) s' \<and> isIdle s' \<and> sc_drainWaiters s' = 0) \<and> \<not> isIdle (drain three_jobs)
   \<and> sc_drainWaiters (drain three_jobs) = 1"
proof -
  have r: "sched_reachable agent_task_lanes (drain three_jobs)" by (rule reach_step [OF three_jobs_reachable step_drain])
  have l: "length (pending_jobs (drain three_jobs)) = 3" by code_simp
  have "\<not> isIdle (drain three_jobs)" "sc_drainWaiters (drain three_jobs) = 1" by code_simp+
  then show ?thesis
    using scheduler_drains [OF r agent_lanes_distinct, unfolded l] by blast
qed

end
