(* ===== verification/Bot_Event.thy ===== *)
theory Bot_Event
  imports Conversation Js_Date
begin

text \<open>
  \<open>src/agent/event.ts\<close> and the routing part of \<open>src/agent/notification.ts\<close>: the events that reach the
  loop, which of them may be queued, and how urgent each one is.  Times are milliseconds.
\<close>

section \<open>Events\<close>

datatype message_fact_kind = MessageFact | EditFact | RecallFact

record chat_message =
  cm_eventKind :: message_fact_kind
  cm_messageRowId :: int
  cm_conversation :: conversation_ref
  cm_conversationName :: "jstr option"
  cm_messageExternalId :: jstr
  cm_senderExternalId :: jstr
  cm_senderName :: jstr
  cm_mentionedSelf :: bool
  cm_sentAt :: int
  cm_renderedText :: jstr
  cm_mediaIds :: "int list option"
  cm_replyToExternalId :: "jstr option"
  cm_rootExternalId :: "jstr option"
  cm_threadExternalId :: "jstr option"

text \<open>The two older QQ events.\<close>

record group_message =
  gm_messageRowId :: int
  gm_groupId :: int
  gm_groupName :: "jstr option"
  gm_messageId :: int
  gm_senderId :: int
  gm_senderNickname :: jstr
  gm_mentionedSelf :: bool
  gm_sentAt :: int
  gm_renderedText :: jstr

record private_message =
  pm_messageRowId :: int
  pm_peerId :: int
  pm_messageId :: int
  pm_senderId :: int
  pm_senderNickname :: jstr
  pm_sentAt :: int
  pm_renderedText :: jstr

datatype mailbox_message =
    ChatMessage chat_message
  | NapcatMessage group_message
  | NapcatPrivateMessage private_message

datatype priority = HighPriority | NormalPriority

datatype backlog_source =
    ConversationSource conversation_ref "jstr option" "jstr option"
  | GroupSource int "jstr option"
  | PrivateSource int jstr

record mailbox_backlog =
  mb_mailboxKey :: jstr
  mb_priority :: priority
  mb_source :: backlog_source
  mb_count :: int
  mb_firstRowId :: int
  mb_throughRowId :: int
  mb_recentAfterRowId :: int
  mb_senderCount :: "int option"
  mb_from :: int
  mb_to :: int

datatype bot_event =
    MessageEvent mailbox_message
  | Wake
  | Bootstrap
  | ScheduledWake (sw_scheduleId: jstr) (sw_name: jstr) (sw_scheduledFor: int)
  | BackgroundTaskCompleted (tk_taskId: jstr) (tk_toolName: jstr) (tk_description: jstr) (tk_elapsedMs: int) (tk_ok: bool)
      (tk_summary: jstr)
  | MailboxBacklog mailbox_backlog

fun messageRowId :: "mailbox_message \<Rightarrow> int" where
  "messageRowId (ChatMessage m) = cm_messageRowId m"
| "messageRowId (NapcatMessage m) = gm_messageRowId m"
| "messageRowId (NapcatPrivateMessage m) = pm_messageRowId m"

fun sentAt :: "mailbox_message \<Rightarrow> int" where
  "sentAt (ChatMessage m) = cm_sentAt m"
| "sentAt (NapcatMessage m) = gm_sentAt m"
| "sentAt (NapcatPrivateMessage m) = pm_sentAt m"

section \<open>Attention\<close>

fun isChatAttentionEvent :: "mailbox_message \<Rightarrow> bool" where
  "isChatAttentionEvent (ChatMessage m) \<longleftrightarrow>
     cm_eventKind m \<noteq> MessageFact \<or> ckind (cm_conversation m) = PrivateChat \<or> cm_mentionedSelf m"
| "isChatAttentionEvent (NapcatMessage m) \<longleftrightarrow> gm_mentionedSelf m"
| "isChatAttentionEvent (NapcatPrivateMessage m) \<longleftrightarrow> True"

text \<open>The sources that may be queued without attention: conversation keys and group numbers.\<close>

datatype passive_source = KeySource jstr | GroupIdSource int

text \<open>\<open>None\<close>: a lone surrogate in an identifier makes \<open>encodeURIComponent\<close> throw.\<close>

fun shouldQueueChatEvent :: "mailbox_message \<Rightarrow> passive_source set \<Rightarrow> bool option" where
  "shouldQueueChatEvent (ChatMessage m) sources =
     (if isChatAttentionEvent (ChatMessage m) then Some True
      else if ckind (cm_conversation m) \<noteq> GroupChat then Some False
      else map_option (\<lambda>k. KeySource k \<in> sources) (conversationKey (cm_conversation m)))"
| "shouldQueueChatEvent (NapcatMessage m) sources = Some (gm_mentionedSelf m \<or> GroupIdSource (gm_groupId m) \<in> sources)"
| "shouldQueueChatEvent (NapcatPrivateMessage m) sources = Some True"

datatype delivery = InterruptDelivery | NextRoundDelivery | PassiveDelivery

fun notificationRoutingForEvent :: "bot_event \<Rightarrow> (priority \<times> delivery) option" where
  "notificationRoutingForEvent (MessageEvent (ChatMessage m)) =
     Some (if ckind (cm_conversation m) = PrivateChat \<or> cm_mentionedSelf m then (HighPriority, InterruptDelivery)
           else (NormalPriority, PassiveDelivery))"
| "notificationRoutingForEvent (MessageEvent (NapcatPrivateMessage m)) = Some (HighPriority, InterruptDelivery)"
| "notificationRoutingForEvent (MessageEvent (NapcatMessage m)) =
     Some (if gm_mentionedSelf m then (HighPriority, InterruptDelivery) else (NormalPriority, PassiveDelivery))"
| "notificationRoutingForEvent (MailboxBacklog b) =
     Some (if mb_priority b = HighPriority then (HighPriority, InterruptDelivery) else (NormalPriority, PassiveDelivery))"
| "notificationRoutingForEvent (ScheduledWake i n t) = Some (NormalPriority, InterruptDelivery)"
| "notificationRoutingForEvent (BackgroundTaskCompleted i t d e k s) =
     Some (if k then NormalPriority else HighPriority, InterruptDelivery)"
| "notificationRoutingForEvent Wake = None"
| "notificationRoutingForEvent Bootstrap = None"

definition isAttentionEvent :: "bot_event \<Rightarrow> bool" where
  "isAttentionEvent e \<longleftrightarrow> e = Wake \<or> (\<exists>p. notificationRoutingForEvent e = Some (p, InterruptDelivery))"

text \<open>\<open>mailbox.ts\<close> asks the same of a message with the same words as \<open>event.ts\<close>.\<close>

fun isHighPriorityMailboxEvent :: "mailbox_message \<Rightarrow> bool" where
  "isHighPriorityMailboxEvent (ChatMessage m) \<longleftrightarrow>
     cm_eventKind m \<noteq> MessageFact \<or> ckind (cm_conversation m) = PrivateChat \<or> cm_mentionedSelf m"
| "isHighPriorityMailboxEvent (NapcatMessage m) \<longleftrightarrow> gm_mentionedSelf m"
| "isHighPriorityMailboxEvent (NapcatPrivateMessage m) \<longleftrightarrow> True"

lemma high_priority_is_attention: "isHighPriorityMailboxEvent m = isChatAttentionEvent m"
  by (cases m) auto

text \<open>An edit or a recall: the one kind of message whose urgency the functions disagree on.\<close>

fun is_plain :: "mailbox_message \<Rightarrow> bool" where
  "is_plain (ChatMessage m) \<longleftrightarrow> cm_eventKind m = MessageFact"
| "is_plain _ \<longleftrightarrow> True"

lemma isAttentionEvent_plain: "is_plain m \<Longrightarrow> isAttentionEvent (MessageEvent m) = isChatAttentionEvent m"
  by (cases m) (auto simp: isAttentionEvent_def)

end
