(* ===== verification/Mailbox.thy ===== *)
theory Mailbox
  imports Bot_Event Js_Json Ledger_Types
begin

text \<open>
  \<open>src/agent/mailbox.ts\<close> and the envelope of \<open>src/agent/notification.ts\<close>: which events of a batch the model
  is shown, and the JSON texts in which it is shown them.
\<close>

section \<open>Envelopes\<close>

datatype group_participation = MentionsOnly | Selective | ActiveGroup

definition participation_str :: "group_participation \<Rightarrow> jstr" where
  "participation_str p = (case p of MentionsOnly \<Rightarrow> js ''mentions'' | Selective \<Rightarrow> js ''selective'' | ActiveGroup \<Rightarrow> js ''active'')"

definition priority_str :: "priority \<Rightarrow> jstr" where
  "priority_str p = (case p of HighPriority \<Rightarrow> js ''high'' | NormalPriority \<Rightarrow> js ''normal'')"

definition delivery_str :: "delivery \<Rightarrow> jstr" where
  "delivery_str d = (case d of InterruptDelivery \<Rightarrow> js ''interrupt'' | NextRoundDelivery \<Rightarrow> js ''next_round''
     | PassiveDelivery \<Rightarrow> js ''passive'')"

datatype notification_error = BadCount | NoMailboxEvents | MalformedUri

record notification_input =
  ni_id :: jstr
  ni_source :: jobj
  ni_kind :: jstr
  ni_priority :: priority
  ni_delivery :: delivery
  ni_groupKey :: jstr
  ni_count :: int
  ni_occurredAt :: "jstr option"
  ni_openTool :: jstr
  ni_openArgs :: jobj
  ni_data :: "jobj option"

definition envelope_jv :: "notification_input \<Rightarrow> jobj" where
  "envelope_jv i =
     [(js ''event'', JStr (js ''notification'')), (js ''id'', JStr (ni_id i)), (js ''source'', JObj (ni_source i)),
      (js ''kind'', JStr (ni_kind i)), (js ''priority'', JStr (priority_str (ni_priority i))),
      (js ''delivery'', JStr (delivery_str (ni_delivery i))), (js ''groupKey'', JStr (ni_groupKey i)),
      (js ''count'', jint (ni_count i))]
     @ opt_prop ''occurredAt'' JStr (ni_occurredAt i)
     @ [(js ''open'', JObj [(js ''tool'', JStr (ni_openTool i)), (js ''args'', JObj (ni_openArgs i))])]
     @ opt_prop ''data'' JObj (ni_data i)"

definition renderNotificationEnvelope :: "notification_input \<Rightarrow> notification_error + jstr" where
  "renderNotificationEnvelope i =
     (if \<not> safe_int (ni_count i) \<or> ni_count i \<le> 0 then Inl BadCount else Inr (stringify (JObj (envelope_jv i))))"

section \<open>Planning\<close>

text \<open>Which mailbox an event belongs to; a conversation key can fail (a lone surrogate).\<close>

fun mailbox_of_message :: "mailbox_message \<Rightarrow> notification_error + jstr" where
  "mailbox_of_message (ChatMessage m) = (case conversationKey (cm_conversation m) of None \<Rightarrow> Inl MalformedUri | Some k \<Rightarrow> Inr k)"
| "mailbox_of_message (NapcatMessage m) = Inr (js ''qq_group:'' @ dec_of_int (gm_groupId m))"
| "mailbox_of_message (NapcatPrivateMessage m) = Inr (js ''qq_private:'' @ dec_of_int (pm_peerId m))"

fun mailboxKeyForEvent :: "bot_event \<Rightarrow> notification_error + jstr option" where
  "mailboxKeyForEvent (MessageEvent m) = bindE (mailbox_of_message m) (\<lambda>k. Inr (Some k))"
| "mailboxKeyForEvent (MailboxBacklog b) = Inr (Some (mb_mailboxKey b))"
| "mailboxKeyForEvent _ = Inr None"

datatype mailbox_disclosure =
    DirectDisclosure bot_event
  | MailboxDisclosure (md_mailboxKey: jstr) (md_events: "mailbox_message list")
  | BacklogDisclosure mailbox_backlog

type_synonym mailbox_cursors = "(jstr \<times> int) list"

record disclosure_plan =
  dp_disclosures :: "mailbox_disclosure list"
  dp_cursors :: mailbox_cursors

definition cursor_of :: "mailbox_cursors \<Rightarrow> jstr \<Rightarrow> int" where
  "cursor_of cursors k = (case map_of cursors k of None \<Rightarrow> 0 | Some r \<Rightarrow> r)"

text \<open>The batch of a mailbox is shared between the map and the disclosure made for it, so pushing to it changes
  the disclosure in place; a mailbox seen for the first time gets a new disclosure.\<close>

fun push_batch :: "jstr \<Rightarrow> mailbox_message \<Rightarrow> mailbox_disclosure list \<Rightarrow> mailbox_disclosure list" where
  "push_batch k m [] = [MailboxDisclosure k [m] ]"
| "push_batch k m (d # ds) =
     (case d of
        MailboxDisclosure k' ms \<Rightarrow> if k' = k then MailboxDisclosure k (ms @ [m]) # ds else d # push_batch k m ds
      | _ \<Rightarrow> d # push_batch k m ds)"

fun plan_event :: "disclosure_plan \<Rightarrow> bot_event \<Rightarrow> notification_error + disclosure_plan" where
  "plan_event p (MessageEvent m) =
     bindE (mailbox_of_message m) (\<lambda>k.
       if messageRowId m \<le> cursor_of (dp_cursors p) k then Inr p
       else Inr (p\<lparr>dp_cursors := obj_put (dp_cursors p) k (messageRowId m),
                   dp_disclosures := push_batch k m (dp_disclosures p)\<rparr>))"
| "plan_event p (MailboxBacklog b) =
     (if mb_throughRowId b \<le> cursor_of (dp_cursors p) (mb_mailboxKey b) then Inr p
      else Inr (p\<lparr>dp_cursors := obj_put (dp_cursors p) (mb_mailboxKey b) (mb_throughRowId b),
                  dp_disclosures := dp_disclosures p @ [BacklogDisclosure b]\<rparr>))"
| "plan_event p e = Inr (p\<lparr>dp_disclosures := dp_disclosures p @ [DirectDisclosure e]\<rparr>)"

fun plan_events :: "disclosure_plan \<Rightarrow> bot_event list \<Rightarrow> notification_error + disclosure_plan" where
  "plan_events p [] = Inr p"
| "plan_events p (e # es) = bindE (plan_event p e) (\<lambda>p'. plan_events p' es)"

definition planMailboxDisclosures :: "bot_event list \<Rightarrow> mailbox_cursors \<Rightarrow> notification_error + disclosure_plan" where
  "planMailboxDisclosures events cursors = plan_events \<lparr>dp_disclosures = [], dp_cursors = cursors\<rparr> events"

fun isHighPriorityMailboxDisclosure :: "mailbox_disclosure \<Rightarrow> bool" where
  "isHighPriorityMailboxDisclosure (BacklogDisclosure b) \<longleftrightarrow> mb_priority b = HighPriority"
| "isHighPriorityMailboxDisclosure (MailboxDisclosure k ms) \<longleftrightarrow> list_ex isHighPriorityMailboxEvent ms"
| "isHighPriorityMailboxDisclosure (DirectDisclosure e) \<longleftrightarrow> False"

section \<open>Notifications\<close>

definition conversation_props :: "conversation_ref \<Rightarrow> jobj" where
  "conversation_props c = [(js ''platform'', JStr (platform_str (platform c))), (js ''accountId'', JStr (accountId c)),
     (js ''kind'', JStr (kind_str (ckind c))), (js ''externalId'', JStr (externalId c))]"

fun senderExternalIdForEvent :: "mailbox_message \<Rightarrow> jstr" where
  "senderExternalIdForEvent (ChatMessage m) = cm_senderExternalId m"
| "senderExternalIdForEvent (NapcatMessage m) = dec_of_int (gm_senderId m)"
| "senderExternalIdForEvent (NapcatPrivateMessage m) = dec_of_int (pm_senderId m)"

definition time_range :: "int \<Rightarrow> int \<Rightarrow> jv" where
  "time_range a b = JObj [(js ''from'', JStr (formatBeijingMinuteIso a)), (js ''to'', JStr (formatBeijingMinuteIso b))]"

definition context_args :: "int option \<Rightarrow> jobj" where
  "context_args c = (case c of None \<Rightarrow> [] | Some n \<Rightarrow> if n \<le> 0 then [] else [(js ''contextBefore'', jint n)])"

fun source_value :: "mailbox_message \<Rightarrow> jobj" where
  "source_value (ChatMessage m) = conversation_props (cm_conversation m) @ [(js ''name'', null_or JStr (cm_conversationName m))]"
| "source_value (NapcatPrivateMessage m) = [(js ''type'', JStr (js ''private'')), (js ''peerId'', jint (pm_peerId m)),
     (js ''senderName'', JStr (pm_senderNickname m))]"
| "source_value (NapcatMessage m) = [(js ''type'', JStr (js ''group'')), (js ''groupId'', jint (gm_groupId m)),
     (js ''groupName'', null_or JStr (gm_groupName m))]"

fun read_target :: "mailbox_message \<Rightarrow> jobj" where
  "read_target (ChatMessage m) = [(js ''conversation'', JObj (conversation_props (cm_conversation m)))]"
| "read_target (NapcatPrivateMessage m) = [(js ''source'', JStr (js ''private'')), (js ''peerId'', jint (pm_peerId m))]"
| "read_target (NapcatMessage m) = [(js ''source'', JStr (js ''group'')), (js ''groupId'', jint (gm_groupId m))]"

fun is_chat :: "mailbox_message \<Rightarrow> bool" where
  "is_chat (ChatMessage m) \<longleftrightarrow> True"
| "is_chat _ \<longleftrightarrow> False"

fun is_group_message :: "mailbox_message \<Rightarrow> bool" where
  "is_group_message (ChatMessage m) \<longleftrightarrow> ckind (cm_conversation m) = GroupChat"
| "is_group_message (NapcatMessage m) \<longleftrightarrow> True"
| "is_group_message (NapcatPrivateMessage m) \<longleftrightarrow> False"

fun platform_of :: "mailbox_message \<Rightarrow> jstr" where
  "platform_of (ChatMessage m) = platform_str (platform (cm_conversation m))"
| "platform_of _ = js ''qq''"

definition priority_of :: "mailbox_message list \<Rightarrow> priority" where
  "priority_of ms = (if list_ex isHighPriorityMailboxEvent ms then HighPriority else NormalPriority)"

definition delivery_of :: "priority \<Rightarrow> delivery" where
  "delivery_of p = (if p = HighPriority then InterruptDelivery else PassiveDelivery)"

definition notification_id :: "jstr \<Rightarrow> jstr \<Rightarrow> int \<Rightarrow> jstr" where
  "notification_id pl mailbox row = pl @ [58] @ mailbox @ [58] @ dec_of_int row"

definition renderMailboxNotification ::
  "jstr \<Rightarrow> mailbox_message list \<Rightarrow> int option \<Rightarrow> group_participation option \<Rightarrow> notification_error + jstr" where
  "renderMailboxNotification mailbox ms contextBefore participation =
     (if ms = [] then Inl NoMailboxEvents
      else let first = hd ms; final = last ms;
               prio = priority_of ms;
               throughRowId = messageRowId final;
               readArgs = [(js ''action'', JStr (js ''read''))] @ read_target first
                 @ [(js ''afterRowId'', jint (max 0 (messageRowId first - 1)))] @ context_args contextBefore
           in renderNotificationEnvelope
             \<lparr>ni_id = notification_id (platform_of first) mailbox throughRowId,
              ni_source = [(js ''type'', JStr (platform_of first)), (js ''mailbox'', JStr mailbox)],
              ni_kind = js ''inbox_update'', ni_priority = prio, ni_delivery = delivery_of prio, ni_groupKey = mailbox,
              ni_count = int (length ms),
              ni_occurredAt = (if length ms = 1 then Some (formatBeijingMinuteIso (sentAt final)) else None),
              ni_openTool = js ''inbox'', ni_openArgs = readArgs,
              ni_data = Some ([(js ''mailbox'', JStr mailbox),
                  (if is_chat first then js ''conversation'' else js ''qqSource'', JObj (source_value first))]
                @ (if is_group_message first then opt_prop ''participation'' (\<lambda>p. JStr (participation_str p)) participation else [])
                @ [(js ''firstRowId'', jint (messageRowId first)), (js ''throughRowId'', jint throughRowId),
                   (js ''senderCount'', jint (int (card (set (map senderExternalIdForEvent ms)))))]
                @ (if length ms = 1 then [] else [(js ''timeRange'', time_range (sentAt first) (sentAt final))])
                @ [(js ''readArgs'', JObj readArgs)])\<rparr>)"

section \<open>Deltas\<close>

definition delta_output_cap :: nat where
  "delta_output_cap = 12000"

definition delta_text_cap :: nat where
  "delta_text_cap = 2000"

text \<open>An absent text and an empty one are both left out.\<close>

definition truthy_prop :: "string \<Rightarrow> jstr option \<Rightarrow> jobj" where
  "truthy_prop k x = (case x of None \<Rightarrow> [] | Some s \<Rightarrow> if s = [] then [] else [(js k, JStr s)])"

definition flag_prop :: "string \<Rightarrow> bool \<Rightarrow> bool \<Rightarrow> jobj" where
  "flag_prop k present v = (if present then [(js k, JBool v)] else [])"

definition kind_prop :: "message_fact_kind \<Rightarrow> jobj" where
  "kind_prop k = (case k of MessageFact \<Rightarrow> [] | EditFact \<Rightarrow> [(js ''eventKind'', JStr (js ''edit''))]
     | RecallFact \<Rightarrow> [(js ''eventKind'', JStr (js ''recall''))])"

definition delta_text :: "jstr \<Rightarrow> jstr" where
  "delta_text s = (if delta_text_cap < length s then take delta_text_cap s @ [8230] else s)"

fun projectDeltaMessage :: "mailbox_message \<Rightarrow> jobj" where
  "projectDeltaMessage (ChatMessage m) =
     [(js ''rowId'', jint (cm_messageRowId m))] @ kind_prop (cm_eventKind m)
     @ [(js ''sentAt'', JStr (formatBeijingMinuteIso (cm_sentAt m))), (js ''senderExternalId'', JStr (cm_senderExternalId m)),
        (js ''senderName'', JStr (cm_senderName m))]
     @ flag_prop ''mentionedSelf'' (cm_mentionedSelf m) True
     @ flag_prop ''replyable'' (cm_eventKind m = RecallFact) False
     @ truthy_prop ''replyToExternalId'' (cm_replyToExternalId m)
     @ truthy_prop ''rootExternalId'' (cm_rootExternalId m)
     @ truthy_prop ''threadExternalId'' (cm_threadExternalId m)
     @ [(js ''text'', JStr (delta_text (cm_renderedText m)))]
     @ flag_prop ''textTruncated'' (delta_text_cap < length (cm_renderedText m)) True
     @ (case cm_mediaIds m of None \<Rightarrow> [] | Some ids \<Rightarrow> if ids = [] then [] else [(js ''mediaIds'', JArr (map jint ids))])"
| "projectDeltaMessage (NapcatMessage m) =
     [(js ''rowId'', jint (gm_messageRowId m)), (js ''sentAt'', JStr (formatBeijingMinuteIso (gm_sentAt m))),
      (js ''senderExternalId'', JStr (dec_of_int (gm_senderId m))), (js ''senderName'', JStr (gm_senderNickname m))]
     @ flag_prop ''mentionedSelf'' (gm_mentionedSelf m) True
     @ [(js ''text'', JStr (delta_text (gm_renderedText m)))]
     @ flag_prop ''textTruncated'' (delta_text_cap < length (gm_renderedText m)) True"
| "projectDeltaMessage (NapcatPrivateMessage m) =
     [(js ''rowId'', jint (pm_messageRowId m)), (js ''sentAt'', JStr (formatBeijingMinuteIso (pm_sentAt m))),
      (js ''senderExternalId'', JStr (dec_of_int (pm_senderId m))), (js ''senderName'', JStr (pm_senderNickname m))]
     @ flag_prop ''mentionedSelf'' True True
     @ [(js ''text'', JStr (delta_text (pm_renderedText m)))]
     @ flag_prop ''textTruncated'' (delta_text_cap < length (pm_renderedText m)) True"

fun delta_source :: "mailbox_message \<Rightarrow> jstr \<times> jv" where
  "delta_source (ChatMessage m) =
     (js ''conversation'', JObj (conversation_props (cm_conversation m) @ truthy_prop ''name'' (cm_conversationName m)))"
| "delta_source (NapcatMessage m) =
     (js ''qqSource'', JObj ([(js ''type'', JStr (js ''group'')), (js ''groupId'', jint (gm_groupId m))]
        @ truthy_prop ''groupName'' (gm_groupName m)))"
| "delta_source (NapcatPrivateMessage m) =
     (js ''qqSource'', JObj [(js ''type'', JStr (js ''private'')), (js ''peerId'', jint (pm_peerId m)),
        (js ''senderName'', JStr (pm_senderNickname m))])"

text \<open>A mailbox disclosure as \<open>(key, events)\<close>; its batch is never empty.\<close>

definition delta_mailbox :: "jstr \<times> mailbox_message list \<Rightarrow> jobj" where
  "delta_mailbox = (\<lambda>(mailbox, ms).
     [(js ''mailbox'', JStr mailbox), (js ''throughRowId'', jint (messageRowId (last ms))),
      (js ''priority'', JStr (priority_str (priority_of ms))), delta_source (hd ms),
      (js ''messages'', JArr (map (\<lambda>m. JObj (projectDeltaMessage m)) ms))])"

definition delta_batch :: "(jstr \<times> mailbox_message list) list \<Rightarrow> jobj" where
  "delta_batch ds = [(js ''event'', JStr (js ''conversation_deltas'')), (js ''mailboxes'', JArr (map (\<lambda>d. JObj (delta_mailbox d)) ds))]"

text \<open>\<open>Inr None\<close>: the batch is too long to be shown in full.\<close>

definition renderMailboxDeltaBatch :: "(jstr \<times> mailbox_message list) list \<Rightarrow> notification_error + jstr option" where
  "renderMailboxDeltaBatch ds =
     (if ds = [] then Inl NoMailboxEvents
      else let content = stringify (JObj (delta_batch ds)) in
        Inr (if length content \<le> delta_output_cap then Some content else None))"

section \<open>Backlogs\<close>

definition backlog_recent_limit :: int where
  "backlog_recent_limit = 50"

fun readArgsForSource :: "backlog_source \<Rightarrow> int \<Rightarrow> jobj" where
  "readArgsForSource (ConversationSource c n s) after =
     [(js ''action'', JStr (js ''read'')), (js ''conversation'', JObj (conversation_props c)), (js ''afterRowId'', jint after)]"
| "readArgsForSource (PrivateSource p n) after =
     [(js ''action'', JStr (js ''read'')), (js ''source'', JStr (js ''private'')), (js ''peerId'', jint p), (js ''afterRowId'', jint after)]"
| "readArgsForSource (GroupSource g n) after =
     [(js ''action'', JStr (js ''read'')), (js ''source'', JStr (js ''group'')), (js ''groupId'', jint g), (js ''afterRowId'', jint after)]"

fun source_data :: "backlog_source \<Rightarrow> jstr \<times> jv" where
  "source_data (ConversationSource c n s) =
     (js ''conversation'', JObj (conversation_props c @ [(js ''name'', null_or JStr n)]))"
| "source_data (GroupSource g n) =
     (js ''qqSource'', JObj [(js ''type'', JStr (js ''group'')), (js ''groupId'', jint g), (js ''groupName'', null_or JStr n)])"
| "source_data (PrivateSource p n) =
     (js ''qqSource'', JObj [(js ''type'', JStr (js ''private'')), (js ''peerId'', jint p), (js ''senderName'', JStr n)])"

fun source_platform :: "backlog_source \<Rightarrow> jstr" where
  "source_platform (ConversationSource c n s) = platform_str (platform c)"
| "source_platform _ = js ''qq''"

fun is_group_source :: "backlog_source \<Rightarrow> bool" where
  "is_group_source (ConversationSource c n s) \<longleftrightarrow> ckind c = GroupChat"
| "is_group_source (GroupSource g n) \<longleftrightarrow> True"
| "is_group_source (PrivateSource p n) \<longleftrightarrow> False"

definition renderMailboxBacklogNotification ::
  "mailbox_backlog \<Rightarrow> group_participation option \<Rightarrow> notification_error + jstr" where
  "renderMailboxBacklogNotification b participation =
     (let readArgs = readArgsForSource (mb_source b) (max 0 (mb_firstRowId b - 1));
          latestReadArgs = readArgsForSource (mb_source b) (mb_recentAfterRowId b) @ [(js ''limit'', jint backlog_recent_limit)];
          pl = source_platform (mb_source b)
      in renderNotificationEnvelope
        \<lparr>ni_id = notification_id pl (mb_mailboxKey b) (mb_throughRowId b),
         ni_source = [(js ''type'', JStr pl), (js ''mailbox'', JStr (mb_mailboxKey b))],
         ni_kind = js ''inbox_update'', ni_priority = mb_priority b, ni_delivery = delivery_of (mb_priority b),
         ni_groupKey = mb_mailboxKey b, ni_count = mb_count b,
         ni_occurredAt = (if mb_count b = 1 then Some (formatBeijingMinuteIso (mb_to b)) else None),
         ni_openTool = js ''inbox'', ni_openArgs = (if mb_priority b = HighPriority then readArgs else latestReadArgs),
         ni_data = Some ([(js ''mode'', JStr (js ''backlog'')), (js ''mailbox'', JStr (mb_mailboxKey b)), source_data (mb_source b)]
           @ (if is_group_source (mb_source b) then opt_prop ''participation'' (\<lambda>p. JStr (participation_str p)) participation else [])
           @ [(js ''firstRowId'', jint (mb_firstRowId b)), (js ''throughRowId'', jint (mb_throughRowId b)),
              (js ''senderCount'', null_or jint (mb_senderCount b))]
           @ (if mb_count b = 1 then [] else [(js ''timeRange'', time_range (mb_from b) (mb_to b))])
           @ [(js ''readArgs'', JObj readArgs), (js ''latestReadArgs'', JObj latestReadArgs)])\<rparr>)"

end
