(* ===== verification/Mailbox_Facts.thy ===== *)
theory Mailbox_Facts
  imports Mailbox Js_Objects "HOL-Library.Multiset"
begin

text \<open>
  What the plan discloses, against a reference that reads the batch once: an event of a mailbox is admitted when
  its row is beyond everything its mailbox has shown so far.
\<close>

section \<open>Admission\<close>

fun row_of :: "bot_event \<Rightarrow> int" where
  "row_of (MessageEvent m) = messageRowId m"
| "row_of (MailboxBacklog b) = mb_throughRowId b"
| "row_of _ = 0"

definition mailbox_of :: "bot_event \<Rightarrow> jstr option" where
  "mailbox_of e = (case mailboxKeyForEvent e of Inr k \<Rightarrow> k | Inl _ \<Rightarrow> None)"

definition readable :: "bot_event \<Rightarrow> bool" where
  "readable e \<longleftrightarrow> (\<exists>k. mailboxKeyForEvent e = Inr k)"

fun admitted :: "(jstr \<Rightarrow> int) \<Rightarrow> bot_event list \<Rightarrow> bot_event list" where
  "admitted c [] = []"
| "admitted c (e # es) =
     (case mailbox_of e of
        None \<Rightarrow> e # admitted c es
      | Some k \<Rightarrow> if row_of e \<le> c k then admitted c es else e # admitted (c(k := row_of e)) es)"

definition rows_in :: "jstr \<Rightarrow> bot_event list \<Rightarrow> int list" where
  "rows_in k es = map row_of (filter (\<lambda>e. mailbox_of e = Some k) es)"

definition highest :: "int \<Rightarrow> int list \<Rightarrow> int" where
  "highest c rs = foldl max c rs"

lemma highest_simps [simp]: "highest c [] = c" "highest c (r # rs) = highest (max c r) rs"
  by (simp_all add: highest_def)

lemma highest_ge: "c \<le> highest c rs"
  by (induction rs arbitrary: c) (auto intro: order_trans [OF max.cobounded1])

lemma highest_upper: "r \<in> set rs \<Longrightarrow> r \<le> highest c rs"
proof (induction rs arbitrary: c)
  case (Cons x xs)
  have "x \<le> highest (max c x) xs" using highest_ge [of "max c x" xs] by simp
  with Cons show ?case by auto
qed simp

lemma highest_Max: "highest c rs = Max (insert c (set rs))"
proof (induction rs arbitrary: c)
  case (Cons r rs)
  have "highest c (r # rs) = Max (insert (max c r) (set rs))" by (simp add: Cons.IH)
  also have "\<dots> = Max (insert c (set (r # rs)))"
    by (cases "rs = []") (simp_all add: Max_insert max.assoc)
  finally show ?case .
qed simp

lemma highest_append: "highest c (rs @ ss) = highest (highest c rs) ss"
  by (simp add: highest_def)

text \<open>The reference admits, of each mailbox, the rows that exceed all before them.\<close>

lemma admitted_rows:
  "rows_in k (admitted c es) = (let rs = rows_in k es in
     map ((!) rs) (filter (\<lambda>i. highest (c k) (take i rs) < rs ! i) [0..<length rs]))"
proof (induction es arbitrary: c)
  case Nil
  then show ?case by (simp add: rows_in_def)
next
  case (Cons e es)
  have shift: "map ((!) (r # rs)) (filter (\<lambda>i. highest x (take i (r # rs)) < (r # rs) ! i) [0..<length (r # rs)]) =
      (if x < r then [r] else []) @
      map ((!) rs) (filter (\<lambda>i. highest (max x r) (take i rs) < rs ! i) [0..<length rs])" for x r :: int and rs
    by (simp add: upt_conv_Cons flip: map_Suc_upt del: upt_Suc) (simp add: filter_map o_def)
  show ?case
  proof (cases "mailbox_of e")
    case None
    then show ?thesis using Cons.IH by (simp add: rows_in_def)
  next
    case (Some k')
    show ?thesis
    proof (cases "k' = k")
      case True
      have r: "rows_in k (e # es) = row_of e # rows_in k es" using Some True by (simp add: rows_in_def)
      show ?thesis
      proof (cases "row_of e \<le> c k")
        case True': True
        then have "max (c k) (row_of e) = c k" by simp
        then show ?thesis using Cons.IH [of c] Some True True' unfolding r shift Let_def by (simp add: Let_def)
      next
        case False
        then have "max (c k) (row_of e) = row_of e" by simp
        moreover have "rows_in k (admitted c (e # es)) = row_of e # rows_in k (admitted (c(k := row_of e)) es)"
          using Some True False by (simp add: rows_in_def)
        ultimately show ?thesis using Cons.IH [of "c(k := row_of e)"] False unfolding r shift Let_def
          by (simp add: Let_def)
      qed
    next
      case False
      then have "rows_in k (e # es) = rows_in k es" using Some by (simp add: rows_in_def)
      moreover have "rows_in k (admitted c (e # es)) = rows_in k (admitted (c(k' := row_of e)) es) \<or>
          rows_in k (admitted c (e # es)) = rows_in k (admitted c es)"
        using Some False by (simp add: rows_in_def)
      ultimately show ?thesis using Cons.IH [of "c(k' := row_of e)"] Cons.IH [of c] False by auto
    qed
  qed
qed

section \<open>The plan\<close>

fun events_of :: "mailbox_disclosure \<Rightarrow> bot_event list" where
  "events_of (DirectDisclosure e) = [e]"
| "events_of (MailboxDisclosure k ms) = map MessageEvent ms"
| "events_of (BacklogDisclosure b) = [MailboxBacklog b]"

definition disclosed_events :: "mailbox_disclosure list \<Rightarrow> bot_event list" where
  "disclosed_events ds = concat (map events_of ds)"

fun batch_of :: "mailbox_disclosure list \<Rightarrow> jstr \<Rightarrow> mailbox_message list" where
  "batch_of [] k = []"
| "batch_of (d # ds) k = (case d of MailboxDisclosure k' ms \<Rightarrow> if k' = k then ms else batch_of ds k | _ \<Rightarrow> batch_of ds k)"

definition batch_keys :: "mailbox_disclosure list \<Rightarrow> jstr list" where
  "batch_keys ds = concat (map (\<lambda>d. case d of MailboxDisclosure k ms \<Rightarrow> [k] | _ \<Rightarrow> []) ds)"

definition batches_ok :: "mailbox_disclosure list \<Rightarrow> bool" where
  "batches_ok ds \<longleftrightarrow> distinct (batch_keys ds) \<and> (\<forall>k ms. MailboxDisclosure k ms \<in> set ds \<longrightarrow> ms \<noteq> [])"

lemma push_batch_events: "mset (disclosed_events (push_batch k m ds)) = add_mset (MessageEvent m) (mset (disclosed_events ds))"
  by (induction ds) (auto simp: disclosed_events_def split: mailbox_disclosure.splits)

lemma push_batch_batch: "batch_of (push_batch k m ds) k' = (if k' = k then batch_of ds k @ [m] else batch_of ds k')"
  by (induction ds) (auto split: mailbox_disclosure.splits)

lemma push_batch_keys:
  "batch_keys (push_batch k m ds) = batch_keys ds @ (if k \<in> set (batch_keys ds) then [] else [k])"
  by (induction ds) (auto simp: batch_keys_def split: mailbox_disclosure.splits)

lemma push_batch_mem:
  "MailboxDisclosure k' ms \<in> set (push_batch k m ds) \<Longrightarrow> ms \<noteq> [] \<or> MailboxDisclosure k' ms \<in> set ds"
proof (induction ds)
  case (Cons d ds)
  then show ?case by (cases d) (auto split: if_splits)
qed simp

lemma batches_ok_push:
  assumes "batches_ok ds"
  shows "batches_ok (push_batch k m ds)"
  unfolding batches_ok_def
proof (intro conjI allI impI)
  show "distinct (batch_keys (push_batch k m ds))" using assms by (simp add: push_batch_keys batches_ok_def)
  show "ms \<noteq> []" if "MailboxDisclosure k' ms \<in> set (push_batch k m ds)" for k' ms
    using push_batch_mem [OF that] assms unfolding batches_ok_def by blast
qed

lemma batch_of_snoc [simp]:
  "batch_of (ds @ [DirectDisclosure e]) k = batch_of ds k" "batch_of (ds @ [BacklogDisclosure b]) k = batch_of ds k"
  by (induction ds) (auto split: mailbox_disclosure.splits)

lemma batch_keys_simps [simp]:
  "batch_keys [] = []" "batch_keys (DirectDisclosure e # ds) = batch_keys ds"
  "batch_keys (BacklogDisclosure b # ds) = batch_keys ds" "batch_keys (MailboxDisclosure k ms # ds) = k # batch_keys ds"
  by (simp_all add: batch_keys_def)

lemma batch_of_absent: "k \<notin> set (batch_keys ds) \<Longrightarrow> batch_of ds k = []"
  by (induction ds) (auto simp: batch_keys_def split: mailbox_disclosure.splits)

lemma batch_of_mem: "distinct (batch_keys ds) \<Longrightarrow> MailboxDisclosure k ms \<in> set ds \<Longrightarrow> batch_of ds k = ms"
proof (induction ds)
  case (Cons d ds)
  have key: "MailboxDisclosure k ms \<in> set ds \<Longrightarrow> k \<in> set (batch_keys ds)" by (force simp: batch_keys_def)
  from Cons key show ?case by (auto simp: batch_keys_def split: mailbox_disclosure.splits)
qed simp

definition messages_of :: "jstr \<Rightarrow> bot_event list \<Rightarrow> mailbox_message list" where
  "messages_of k es = concat (map (\<lambda>e. case e of MessageEvent m \<Rightarrow> if mailbox_of e = Some k then [m] else [] | _ \<Rightarrow> []) es)"

lemma map_of_put_index: "k \<notin> set (obj_keys ob) \<Longrightarrow> map_of (put_index ob k v) = (map_of ob)(k \<mapsto> v)"
  by (induction ob k v rule: put_index.induct) auto

lemma map_of_put: "map_of (obj_put ob k v) k' = (if k' = k then Some v else map_of ob k')"
proof -
  let ?f = "\<lambda>(l, w). if l = k then (l, v) else (l, w)"
  have here: "k \<in> set (obj_keys ob) \<Longrightarrow> map_of (map ?f ob) k = Some v" by (induction ob) auto
  have there: "k' \<noteq> k \<Longrightarrow> map_of (map ?f ob) k' = map_of ob k'"
  proof (induction ob)
    case (Cons q ob)
    then show ?case by (cases q) simp
  qed simp
  show ?thesis
  proof (cases "k \<in> set (obj_keys ob)")
    case True
    then show ?thesis using here there by (simp add: obj_put_def)
  next
    case False
    then have "map_of ob k = None" by (simp add: map_of_eq_None_iff)
    then have tail: "map_of (ob @ [(k, v)]) k' = (if k' = k then Some v else map_of ob k')"
      by (simp add: map_add_def split: option.splits)
    have "map_of (put_index ob k v) k' = (if k' = k then Some v else map_of ob k')"
      using map_of_put_index [OF False] by simp
    with False tail show ?thesis unfolding obj_put_def by presburger
  qed
qed

lemma cursor_of_put [simp]: "cursor_of (obj_put cs k v) = (cursor_of cs)(k := v)"
  by (rule ext) (simp add: cursor_of_def map_of_put)

text \<open>One step of the plan against one step of the reference.\<close>

definition plan_inv :: "(jstr \<Rightarrow> int) \<Rightarrow> disclosure_plan \<Rightarrow> bot_event list \<Rightarrow> bot_event list \<Rightarrow> bool" where
  "plan_inv c p seen shown \<longleftrightarrow> mset (disclosed_events (dp_disclosures p)) = mset shown
     \<and> (\<forall>k. batch_of (dp_disclosures p) k = messages_of k shown) \<and> batches_ok (dp_disclosures p)
     \<and> (\<forall>k. cursor_of (dp_cursors p) k = highest (c k) (rows_in k seen))"

lemma messages_of_append [simp]: "messages_of k (xs @ ys) = messages_of k xs @ messages_of k ys"
  by (simp add: messages_of_def)

lemma rows_in_append [simp]: "rows_in k (xs @ ys) = rows_in k xs @ rows_in k ys"
  by (simp add: rows_in_def)

lemma disclosed_append [simp]: "disclosed_events (xs @ ys) = disclosed_events xs @ disclosed_events ys"
  by (simp add: disclosed_events_def)

lemma batch_keys_append [simp]: "batch_keys (xs @ ys) = batch_keys xs @ batch_keys ys"
  by (simp add: batch_keys_def)

definition admits :: "(jstr \<Rightarrow> int) \<Rightarrow> bot_event \<Rightarrow> bool" where
  "admits c e \<longleftrightarrow> (case mailbox_of e of None \<Rightarrow> True | Some k \<Rightarrow> c k < row_of e)"

lemma admitted_Cons: "admitted c (e # es) = (if admits c e then [e] else []) @
    admitted (case mailbox_of e of None \<Rightarrow> c | Some k \<Rightarrow> c(k := max (c k) (row_of e))) es"
  by (auto simp: admits_def fun_upd_idem max_def split: option.splits)

lemma plan_event_cases:
  assumes "plan_event p e = Inr p'"
  obtains (direct) "mailbox_of e = None" "p' = p\<lparr>dp_disclosures := dp_disclosures p @ [DirectDisclosure e]\<rparr>"
  | (stale) k where "mailbox_of e = Some k" "row_of e \<le> cursor_of (dp_cursors p) k" "p' = p"
  | (backlog) b where "e = MailboxBacklog b" "cursor_of (dp_cursors p) (mb_mailboxKey b) < mb_throughRowId b"
      "p' = p\<lparr>dp_cursors := obj_put (dp_cursors p) (mb_mailboxKey b) (mb_throughRowId b),
        dp_disclosures := dp_disclosures p @ [BacklogDisclosure b]\<rparr>"
  | (message) m k where "e = MessageEvent m" "mailbox_of_message m = Inr k" "cursor_of (dp_cursors p) k < messageRowId m"
      "p' = p\<lparr>dp_cursors := obj_put (dp_cursors p) k (messageRowId m), dp_disclosures := push_batch k m (dp_disclosures p)\<rparr>"
proof (cases e)
  case (MessageEvent m)
  then obtain k where k: "mailbox_of_message m = Inr k" using assms by (cases "mailbox_of_message m") auto
  then have "mailbox_of e = Some k" by (simp add: MessageEvent mailbox_of_def)
  note mb = this
  show ?thesis
  proof (cases "messageRowId m \<le> cursor_of (dp_cursors p) k")
    case True
    show ?thesis by (rule stale [OF mb]) (use assms k MessageEvent True in simp_all)
  next
    case False
    show ?thesis by (rule message [OF MessageEvent k]) (use assms k MessageEvent False in simp_all)
  qed
next
  case (MailboxBacklog b)
  then have "mailbox_of e = Some (mb_mailboxKey b)" by (simp add: mailbox_of_def)
  note mb = this
  show ?thesis
  proof (cases "mb_throughRowId b \<le> cursor_of (dp_cursors p) (mb_mailboxKey b)")
    case True
    show ?thesis by (rule stale [OF mb]) (use assms MailboxBacklog True in simp_all)
  next
    case False
    show ?thesis by (rule backlog [OF MailboxBacklog]) (use assms MailboxBacklog False in simp_all)
  qed
qed (use assms direct in \<open>auto simp: mailbox_of_def\<close>)

lemma plan_inv_append:
  assumes inv: "plan_inv c p seen shown" and d: "events_of d = [e]" "batch_of (dp_disclosures p @ [d]) = batch_of (dp_disclosures p)"
    "batch_keys [d] = []" and e: "\<And>k. messages_of k [e] = []"
    and cs: "\<And>k. cursor_of cs k = highest (c k) (rows_in k (seen @ [e]))"
  shows "plan_inv c \<lparr>dp_disclosures = dp_disclosures p @ [d], dp_cursors = cs\<rparr> (seen @ [e]) (shown @ [e])"
proof -
  have no: "MailboxDisclosure k ms \<noteq> d" for k ms using d(3) by auto
  have "batches_ok (dp_disclosures p @ [d])"
    using inv d(3) no unfolding plan_inv_def batches_ok_def by (simp add: eq_commute)
  moreover have "messages_of k (shown @ [e]) = messages_of k shown" for k by (simp only: messages_of_append e append_Nil2)
  moreover have "mset (disclosed_events (dp_disclosures p @ [d])) = mset (shown @ [e])"
    using inv d(1) by (simp add: plan_inv_def disclosed_events_def)
  ultimately show ?thesis using inv cs unfolding plan_inv_def by (simp only: disclosure_plan.simps d(2)) blast
qed

lemma plan_inv_step:
  assumes inv: "plan_inv c p seen shown" and step: "plan_event p e = Inr p'"
  shows "plan_inv c p' (seen @ [e]) (shown @ (if admits (\<lambda>k. highest (c k) (rows_in k seen)) e then [e] else []))"
  using step
proof (cases rule: plan_event_cases)
  case direct
  have e: "messages_of k [e] = []" "rows_in k [e] = []" for k
    using direct(1) by (auto simp: messages_of_def rows_in_def split: bot_event.splits)
  have p': "p' = \<lparr>dp_disclosures = dp_disclosures p @ [DirectDisclosure e], dp_cursors = dp_cursors p\<rparr>"
    using direct(2) by simp
  have cs: "cursor_of (dp_cursors p) k = highest (c k) (rows_in k (seen @ [e]))" for k
    using inv e(2) by (simp add: plan_inv_def)
  have a: "admits (\<lambda>k. highest (c k) (rows_in k seen)) e" using direct(1) by (simp add: admits_def)
  have "plan_inv c \<lparr>dp_disclosures = dp_disclosures p @ [DirectDisclosure e], dp_cursors = dp_cursors p\<rparr> (seen @ [e]) (shown @ [e])"
    by (rule plan_inv_append [OF inv]) (simp_all add: e(1) cs fun_eq_iff)
  then show ?thesis using a p' by simp
next
  case (stale k)
  have "rows_in k' [e] = (if k' = k then [row_of e] else [])" for k' using stale(1) by (simp add: rows_in_def)
  then have "highest (c k') (rows_in k' (seen @ [e])) = highest (c k') (rows_in k' seen)" for k'
    using stale(2) inv by (simp add: plan_inv_def highest_append)
  moreover have "\<not> admits (\<lambda>k. highest (c k) (rows_in k seen)) e"
    using stale(1,2) inv by (simp add: admits_def plan_inv_def)
  ultimately show ?thesis using inv stale(3) by (simp add: plan_inv_def)
next
  case (backlog b)
  have m: "mailbox_of e = Some (mb_mailboxKey b)" using backlog(1) by (simp add: mailbox_of_def)
  have "rows_in k' [e] = (if k' = mb_mailboxKey b then [mb_throughRowId b] else [])" for k'
    using m backlog(1) by (simp add: rows_in_def)
  then have r: "highest (c k') (rows_in k' (seen @ [e])) =
      (if k' = mb_mailboxKey b then mb_throughRowId b else highest (c k') (rows_in k' seen))" for k'
    using backlog(2) inv by (simp add: plan_inv_def highest_append)
  have p': "p' = \<lparr>dp_disclosures = dp_disclosures p @ [BacklogDisclosure b],
      dp_cursors = obj_put (dp_cursors p) (mb_mailboxKey b) (mb_throughRowId b)\<rparr>" using backlog(3) by simp
  have cs: "cursor_of (obj_put (dp_cursors p) (mb_mailboxKey b) (mb_throughRowId b)) k = highest (c k) (rows_in k (seen @ [e]))" for k
    using inv r by (simp add: plan_inv_def)
  have a: "admits (\<lambda>k. highest (c k) (rows_in k seen)) e" using m backlog(1,2) inv by (simp add: admits_def plan_inv_def)
  have ms: "messages_of k' [e] = []" for k' using backlog(1) by (simp add: messages_of_def)
  have "plan_inv c \<lparr>dp_disclosures = dp_disclosures p @ [BacklogDisclosure b],
      dp_cursors = obj_put (dp_cursors p) (mb_mailboxKey b) (mb_throughRowId b)\<rparr> (seen @ [e]) (shown @ [e])"
    by (rule plan_inv_append [OF inv _ _ _ ms cs]) (simp_all add: backlog(1) fun_eq_iff)
  then show ?thesis using a p' by simp
next
  case (message m k)
  have mb: "mailbox_of e = Some k" using message(1,2) by (simp add: mailbox_of_def)
  have "rows_in k' [e] = (if k' = k then [messageRowId m] else [])" for k' using mb message(1) by (simp add: rows_in_def)
  then have r: "highest (c k') (rows_in k' (seen @ [e])) =
      (if k' = k then messageRowId m else highest (c k') (rows_in k' seen))" for k'
    using message(3) inv by (simp add: plan_inv_def highest_append)
  have ms: "messages_of k' [e] = (if k' = k then [m] else [])" for k'
    using mb message(1) by (simp add: messages_of_def)
  have a: "admits (\<lambda>k. highest (c k) (rows_in k seen)) e" using mb message(1,3) inv by (simp add: admits_def plan_inv_def)
  have b: "batches_ok (push_batch k m (dp_disclosures p))" using inv batches_ok_push by (simp add: plan_inv_def)
  show ?thesis unfolding plan_inv_def
  proof (intro conjI allI)
    show "mset (disclosed_events (dp_disclosures p')) =
        mset (shown @ (if admits (\<lambda>k. highest (c k) (rows_in k seen)) e then [e] else []))"
      using inv a message(1) by (simp add: message(4) push_batch_events plan_inv_def)
    show "batch_of (dp_disclosures p') k' =
        messages_of k' (shown @ (if admits (\<lambda>k. highest (c k) (rows_in k seen)) e then [e] else []))" for k'
      using inv a ms by (simp add: message(4) push_batch_batch plan_inv_def)
    show "batches_ok (dp_disclosures p')" using b by (simp add: message(4))
    show "cursor_of (dp_cursors p') k' = highest (c k') (rows_in k' (seen @ [e]))" for k'
      using inv r by (simp add: message(4) plan_inv_def)
  qed
qed

lemma plan_inv_run:
  assumes "plan_inv c p seen shown" "plan_events p es = Inr p'"
  shows "plan_inv c p' (seen @ es) (shown @ admitted (\<lambda>k. highest (c k) (rows_in k seen)) es)"
  using assms
proof (induction es arbitrary: p seen shown)
  case (Cons e es)
  obtain p1 where p1: "plan_event p e = Inr p1" "plan_events p1 es = Inr p'"
    using Cons.prems(2) by (auto simp: bindE_Inr_iff)
  let ?c = "\<lambda>k. highest (c k) (rows_in k seen)"
  have "(case mailbox_of e of None \<Rightarrow> ?c | Some k \<Rightarrow> ?c(k := max (?c k) (row_of e))) =
      (\<lambda>k. highest (c k) (rows_in k (seen @ [e])))"
    by (auto simp: fun_eq_iff rows_in_def highest_append split: option.splits)
  with Cons.IH [OF plan_inv_step [OF Cons.prems(1) p1(1)] p1(2)] show ?case by (simp only: admitted_Cons append.assoc append_Cons append_Nil)
qed simp

lemma planMailboxDisclosures_inv:
  assumes "planMailboxDisclosures es cs = Inr p"
  shows "plan_inv (cursor_of cs) p es (admitted (cursor_of cs) es)"
proof -
  have "plan_inv (cursor_of cs) \<lparr>dp_disclosures = [], dp_cursors = cs\<rparr> [] []"
    by (simp add: plan_inv_def disclosed_events_def messages_of_def batches_ok_def batch_keys_def rows_in_def)
  from plan_inv_run [OF this assms [unfolded planMailboxDisclosures_def]] show ?thesis by (simp add: rows_in_def)
qed

lemma plan_events_total: "plan_events p es = Inl err \<longleftrightarrow> err = MalformedUri \<and> (\<exists>e \<in> set es. mailboxKeyForEvent e = Inl MalformedUri)"
  (is "?lhs p \<longleftrightarrow> ?rhs")
proof (induction es arbitrary: p)
  case (Cons e es)
  have key: "mailboxKeyForEvent e = Inl x \<Longrightarrow> x = MalformedUri" for x
    by (cases e; cases "case e of MessageEvent m \<Rightarrow> m") (auto split: option.splits)
  have step: "plan_event p e = Inl x \<longleftrightarrow> mailboxKeyForEvent e = Inl x" for x
    by (cases e) (auto simp: bindE_Inl_iff)
  show ?case using Cons.IH key step by (auto simp: bindE_Inl_iff)
      (metis sum.exhaust)+
qed simp

end
