(* ===== verification/Mailbox_Text.thy ===== *)
theory Mailbox_Text
  imports Mailbox_Facts Mailbox_Attention "HOL-Library.Sublist"
begin

text \<open>
  The texts in which mailboxes are shown are read back by \<open>mailbox-handled.ts\<close> as what they disclose: the JSON
  is well formed, and the reader finds each mailbox with its last row and its priority.
\<close>

section \<open>Well-formed texts\<close>

text \<open>The keys of an object with optional properties are among fixed ones, in their order.\<close>

definition keys_within :: "jobj \<Rightarrow> jstr list \<Rightarrow> bool" where
  "keys_within ps ks \<longleftrightarrow> subseq (obj_keys ps) ks"

named_theorems keys_intros "rules for the keys of objects with optional properties"

lemma keys_within_append [keys_intros]: "keys_within ps ks \<Longrightarrow> keys_within qs ls \<Longrightarrow> keys_within (ps @ qs) (ks @ ls)"
  by (simp add: keys_within_def list_emb_append_mono)

lemma keys_within_opt [keys_intros]:
  "keys_within (opt_prop k f x) [js k]" "keys_within (truthy_prop k y) [js k]" "keys_within (flag_prop k b v) [js k]"
  "keys_within (kind_prop kd) [js ''eventKind'']"
  by (auto simp: keys_within_def opt_prop_def truthy_prop_def flag_prop_def kind_prop_def
      split: option.splits message_fact_kind.splits)

lemma keys_within_self [keys_intros]: "keys_within ps (obj_keys ps)"
  by (simp add: keys_within_def)

lemma keys_within_nil [keys_intros]: "keys_within [] ks"
  by (simp add: keys_within_def)

lemma keys_within_if: "keys_within ps ks \<Longrightarrow> keys_within qs ks \<Longrightarrow> keys_within (if b then ps else qs) ks"
  by simp

lemma subseq_mem: "subseq xs ys \<Longrightarrow> x \<in> set xs \<Longrightarrow> x \<in> set ys"
  by (erule list_emb_set, assumption, hypsubst)

lemma subseq_distinct: "subseq xs ys \<Longrightarrow> distinct ys \<Longrightarrow> distinct xs"
proof (induction ys arbitrary: xs)
  case (Cons y ys)
  show ?case
  proof (cases xs)
    case xs: (Cons x zs)
    show ?thesis
    proof (cases "x = y")
      case True
      then have s: "subseq zs ys" using xs Cons.prems(1) by simp
      have "y \<notin> set zs" using subseq_mem [OF s] Cons.prems(2) by (meson distinct.simps(2))
      then show ?thesis using xs True Cons.IH [OF s] Cons.prems(2) by simp
    next
      case False
      then have "subseq xs ys" using xs Cons.prems(1) by simp
      then show ?thesis using Cons.IH Cons.prems(2) by simp
    qed
  qed simp
next
  case Nil
  then have "xs = []" by (cases xs) simp_all
  then show ?case by simp
qed

lemma keys_within_order:
  assumes "keys_within ps ks" "distinct ks" "\<forall>k \<in> set ks. \<not> is_index_key k"
  shows "key_order ps"
proof (rule key_orderI)
  show "distinct (obj_keys ps)" using assms(1,2) unfolding keys_within_def by (rule subseq_distinct)
  show "\<forall>k \<in> set (obj_keys ps). \<not> is_index_key k"
    using assms(1,3) unfolding keys_within_def by (metis subseq_mem)
qed

definition jprops :: "jobj \<Rightarrow> bool" where
  "jprops ps \<longleftrightarrow> (\<forall>p \<in> set ps. jwf (snd p))"

lemma jprops_simps [simp]:
  "jprops []" "jprops ((k, v) # ps) \<longleftrightarrow> jwf v \<and> jprops ps" "jprops (ps @ qs) \<longleftrightarrow> jprops ps \<and> jprops qs"
  "jprops (truthy_prop n x)" "jprops (flag_prop n b c)" "jprops (kind_prop d)"
  by (auto simp: jprops_def truthy_prop_def flag_prop_def kind_prop_def split: option.splits message_fact_kind.splits)

lemma jprops_opt [simp]: "jprops (opt_prop k f x) \<longleftrightarrow> (\<forall>a. x = Some a \<longrightarrow> jwf (f a))"
  by (auto simp: jprops_def opt_prop_def split: option.splits)

lemma jwf_objI: "keys_within ps ks \<Longrightarrow> distinct ks \<Longrightarrow> \<forall>k \<in> set ks. \<not> is_index_key k \<Longrightarrow> jprops ps \<Longrightarrow> jwf (JObj ps)"
  using keys_within_order by (simp add: jprops_def)

lemma safe_jwf: "safe_int i \<Longrightarrow> jwf (jint i)"
  by (simp add: safe_int_def max_safe_def)

definition conversation_keys :: "jstr list" where
  "conversation_keys = [js ''platform'', js ''accountId'', js ''kind'', js ''externalId'']"

lemma conversation_props_keys: "obj_keys (conversation_props c) = conversation_keys"
  by (simp add: conversation_props_def conversation_keys_def)

lemma jprops_conversation [simp]: "jprops (conversation_props c)"
  by (simp add: conversation_props_def)

lemma jwf_conversation [simp]:
  "jwf (JObj (conversation_props c))" "jwf (JObj (conversation_props c @ [(js ''name'', null_or JStr n)]))"
  "jwf (JObj (conversation_props c @ truthy_prop ''name'' n))"
proof -
  have k: "keys_within (conversation_props c) conversation_keys" by (simp add: keys_within_def conversation_props_keys)
  have k': "keys_within [(js ''name'', v)] [js ''name'']" for v :: jv by (simp add: keys_within_def)
  show "jwf (JObj (conversation_props c))"
    by (rule jwf_objI [OF k]) (simp_all add: conversation_keys_def is_digit_def)
  show "jwf (JObj (conversation_props c @ [(js ''name'', null_or JStr n)]))"
    by (rule jwf_objI [OF keys_within_append [OF k k']])
      (simp_all add: conversation_keys_def is_digit_def null_or_def split: option.splits)
  show "jwf (JObj (conversation_props c @ truthy_prop ''name'' n))"
    by (rule jwf_objI [OF keys_within_append [OF k keys_within_opt(2)]]) (simp_all add: conversation_keys_def is_digit_def)
qed

fun message_ok :: "mailbox_message \<Rightarrow> bool" where
  "message_ok (ChatMessage m) \<longleftrightarrow> 0 < cm_messageRowId m \<and> cm_messageRowId m \<le> max_safe
     \<and> (\<forall>ids. cm_mediaIds m = Some ids \<longrightarrow> (\<forall>i \<in> set ids. safe_int i))"
| "message_ok (NapcatMessage m) \<longleftrightarrow> 0 < gm_messageRowId m \<and> gm_messageRowId m \<le> max_safe \<and> safe_int (gm_groupId m)"
| "message_ok (NapcatPrivateMessage m) \<longleftrightarrow> 0 < pm_messageRowId m \<and> pm_messageRowId m \<le> max_safe \<and> safe_int (pm_peerId m)"

lemma message_ok_row: "message_ok m \<Longrightarrow> 0 < messageRowId m \<and> messageRowId m \<le> max_safe"
  by (cases m) auto

lemma row_jwf: "0 < r \<Longrightarrow> r \<le> max_safe \<Longrightarrow> jwf (jint r)"
  by (simp add: max_safe_def)

definition delta_message_keys :: "jstr list" where
  "delta_message_keys = [js ''rowId'', js ''eventKind'', js ''sentAt'', js ''senderExternalId'', js ''senderName'',
     js ''mentionedSelf'', js ''replyable'', js ''replyToExternalId'', js ''rootExternalId'', js ''threadExternalId'',
     js ''text'', js ''textTruncated'', js ''mediaIds'']"

lemma delta_message_keys_ok: "distinct delta_message_keys" "\<forall>k \<in> set delta_message_keys. \<not> is_index_key k"
  by (simp_all add: delta_message_keys_def is_digit_def)

lemma keys_within_head: "keys_within ps ks \<Longrightarrow> keys_within ((k, v) # ps) (k # ks)"
  by (simp add: keys_within_def)

lemma keys_within_skip: "keys_within ps ks \<Longrightarrow> keys_within ps (k # ks)"
  by (simp add: keys_within_def list_emb_Cons)

lemma keys_within_opt_head:
  "keys_within ps ks \<Longrightarrow> keys_within (truthy_prop k x @ ps) (js k # ks)"
  "keys_within ps ks \<Longrightarrow> keys_within (flag_prop k b v @ ps) (js k # ks)"
  "keys_within ps ks \<Longrightarrow> keys_within (opt_prop k f y @ ps) (js k # ks)"
  "keys_within ps ks \<Longrightarrow> keys_within (kind_prop d @ ps) (js ''eventKind'' # ks)"
  using keys_within_append [OF keys_within_opt(2)] keys_within_append [OF keys_within_opt(3)]
    keys_within_append [OF keys_within_opt(1)] keys_within_append [OF keys_within_opt(4)] by fastforce+

lemmas keys_steps = keys_within_head keys_within_opt_head keys_within_nil

lemma delta_message_keys_within: "keys_within (projectDeltaMessage m) delta_message_keys"
proof (cases m)
  case (ChatMessage c)
  have "keys_within (case cm_mediaIds c of None \<Rightarrow> [] | Some ids \<Rightarrow> if ids = [] then [] else [(js ''mediaIds'', JArr (map jint ids))])
      [js ''mediaIds'']"
    by (simp add: keys_within_def split: option.splits)
  then show ?thesis
    unfolding ChatMessage projectDeltaMessage.simps append.assoc append_Cons append_Nil delta_message_keys_def
    by (intro keys_steps)
next
  case (NapcatMessage c)
  show ?thesis by (simp add: NapcatMessage keys_within_def flag_prop_def delta_message_keys_def)
next
  case (NapcatPrivateMessage c)
  show ?thesis by (simp add: NapcatPrivateMessage keys_within_def flag_prop_def delta_message_keys_def)
qed

lemma delta_message_jwf:
  assumes "message_ok m"
  shows "jwf (JObj (projectDeltaMessage m))"
proof (rule jwf_objI [OF delta_message_keys_within delta_message_keys_ok])
  have ids: "cm_mediaIds c = Some is \<Longrightarrow> message_ok (ChatMessage c) \<Longrightarrow> \<forall>i \<in> set is. jwf (jint i)" for c "is"
    using safe_jwf by simp
  show "jprops (projectDeltaMessage m)"
    using assms ids row_jwf by (cases m) (auto split: option.splits simp del: jwf.simps(3))
qed

lemma delta_source_jwf:
  assumes "message_ok m"
  shows "jwf (snd (delta_source m))"
proof (cases m)
  case (NapcatMessage c)
  have k: "keys_within ([(js ''type'', JStr (js ''group'')), (js ''groupId'', jint (gm_groupId c))] @ truthy_prop ''groupName'' (gm_groupName c))
      [js ''type'', js ''groupId'', js ''groupName'']"
    by (simp add: keys_within_def truthy_prop_def split: option.splits)
  show ?thesis unfolding NapcatMessage delta_source.simps snd_conv
    by (rule jwf_objI [OF k]) (use assms safe_jwf [of "gm_groupId c"] in \<open>simp_all add: NapcatMessage is_digit_def\<close>)
next
  case (NapcatPrivateMessage c)
  have k: "keys_within [(js ''type'', JStr (js ''private'')), (js ''peerId'', jint (pm_peerId c)), (js ''senderName'', JStr (pm_senderNickname c))]
      [js ''type'', js ''peerId'', js ''senderName'']"
    by (simp add: keys_within_def)
  show ?thesis unfolding NapcatPrivateMessage delta_source.simps snd_conv
    by (rule jwf_objI [OF k]) (use assms safe_jwf [of "pm_peerId c"] in \<open>simp_all add: NapcatPrivateMessage is_digit_def\<close>)
qed (simp add: delta_source.simps del: jwf.simps)

lemma delta_source_key: "fst (delta_source m) \<in> {js ''conversation'', js ''qqSource''}"
  by (cases m) auto

definition batch_ok :: "jstr \<times> mailbox_message list \<Rightarrow> bool" where
  "batch_ok = (\<lambda>(k, ms). is_mailbox_key k \<and> ms \<noteq> [] \<and> (\<forall>m \<in> set ms. message_ok m))"

lemma batch_last: "batch_ok (k, ms) \<Longrightarrow> 0 < messageRowId (last ms) \<and> messageRowId (last ms) \<le> max_safe"
  using message_ok_row by (auto simp: batch_ok_def)

lemma delta_mailbox_jwf:
  assumes "batch_ok d"
  shows "jwf (JObj (delta_mailbox d))"
proof -
  obtain k ms where d: "d = (k, ms)" by fastforce
  have ms: "ms \<noteq> []" "\<forall>m \<in> set ms. message_ok m" using assms by (auto simp: batch_ok_def d)
  obtain sk sv where src: "delta_source (hd ms) = (sk, sv)" by fastforce
  have "sk = js ''conversation'' \<or> sk = js ''qqSource''" using delta_source_key [of "hd ms"] by (simp add: src)
  moreover have "jwf sv" using delta_source_jwf [of "hd ms"] ms by (simp add: src)
  moreover have "\<forall>m \<in> set ms. jwf (JObj (projectDeltaMessage m))" using ms(2) delta_message_jwf by blast
  moreover have "jwf (jint (messageRowId (last ms)))" using batch_last [of k ms] assms row_jwf by (simp add: d)
  ultimately show ?thesis
    by (intro jwf_objI [of _ "[js ''mailbox'', js ''throughRowId'', js ''priority'', sk, js ''messages'']"])
      (auto simp: keys_within_def delta_mailbox_def d src is_digit_def simp del: jwf.simps(3,6))
qed

lemma delta_batch_jwf:
  assumes "\<forall>d \<in> set ds. batch_ok d"
  shows "jwf (JObj (delta_batch ds))"
proof -
  have "\<forall>d \<in> set ds. jwf (JObj (delta_mailbox d))" using assms delta_mailbox_jwf by blast
  then show ?thesis
    by (intro jwf_objI [of _ "[js ''event'', js ''mailboxes'']"]) (auto simp: keys_within_def delta_batch_def is_digit_def simp del: jwf.simps(6))
qed

section \<open>What the reader finds\<close>

definition row_marker :: "jstr \<Rightarrow> int \<Rightarrow> bool \<Rightarrow> jstr \<times> attention_cursor" where
  "row_marker k row high = (k, \<lparr>disclosed = row, handled = 0,
     highPriority = (if high \<and> \<not> isPrivateMailbox k then Some row else None)\<rparr>)"

lemma read_object: "jwf (JObj ps) \<Longrightarrow> parseJsonObject (stringify (JObj ps)) = Some ps"
  by (simp add: parseJsonObject_def json_parse_stringify as_record_def del: jwf.simps stringify.simps)

lemma disclosure_of_row:
  assumes "is_mailbox_key k" "0 < row" "row \<le> max_safe" "obj_get ps (js ''mailbox'') = JStr k"
    "obj_get ps (js ''throughRowId'') = jint row"
  shows "map disclosure_cursor (disclosure_of ps high) = [row_marker k row high]"
  using assms by (simp add: disclosure_of_def isMailboxKey_def isPositiveSafeInteger_iff disclosure_cursor_def row_marker_def)

lemma concat_map_single: "(\<And>x. x \<in> set xs \<Longrightarrow> f x = [g x]) \<Longrightarrow> concat (map f xs) = map g xs"
  by (induction xs) simp_all

lemma delta_read_back:
  assumes t: "renderMailboxDeltaBatch ds = Inr (Some t)" and ok: "\<forall>d \<in> set ds. batch_ok d"
  shows "message_cursors (UserMsg t) =
    map (\<lambda>(k, ms). row_marker k (messageRowId (last ms)) (list_ex isHighPriorityMailboxEvent ms)) ds"
proof -
  have ne: "ds \<noteq> []" and t': "t = stringify (JObj (delta_batch ds))"
    using t by (auto simp: renderMailboxDeltaBatch_def Let_def split: if_splits)
  have p: "parseJsonObject t = Some (delta_batch ds)" unfolding t' by (rule read_object [OF delta_batch_jwf [OF ok]])
  have no_state: "parseMailboxAttentionStatePayload (delta_batch ds) = None"
    by (simp add: parseMailboxAttentionStatePayload_def delta_batch_def)
  have one: "map disclosure_cursor (disclosure_of (delta_mailbox d) (obj_get (delta_mailbox d) (js ''priority'') = JStr (js ''high''))) =
      [(\<lambda>(k, ms). row_marker k (messageRowId (last ms)) (list_ex isHighPriorityMailboxEvent ms)) d]" if "d \<in> set ds" for d
  proof -
    obtain k ms where d: "d = (k, ms)" by fastforce
    have b: "batch_ok (k, ms)" using ok that by (simp add: d)
    have h: "(obj_get (delta_mailbox d) (js ''priority'') = JStr (js ''high'')) = list_ex isHighPriorityMailboxEvent ms"
      by (simp add: d delta_mailbox_def priority_of_def priority_str_def)
    show ?thesis unfolding h
      by (subst disclosure_of_row [of k "messageRowId (last ms)"])
        (use b batch_last [OF b] in \<open>simp_all add: d delta_mailbox_def batch_ok_def\<close>)
  qed
  have "parseMailboxDisclosures (delta_batch ds) =
      concat (map (\<lambda>d. disclosure_of (delta_mailbox d) (obj_get (delta_mailbox d) (js ''priority'') = JStr (js ''high''))) ds)"
    by (simp add: parseMailboxDisclosures_def delta_batch_def as_array_def as_record_def comp_def)
  then have all: "map disclosure_cursor (parseMailboxDisclosures (delta_batch ds)) =
      map (\<lambda>(k, ms). row_marker k (messageRowId (last ms)) (list_ex isHighPriorityMailboxEvent ms)) ds"
    using concat_map_single [OF one] by (simp add: map_concat comp_def)
  then have "parseMailboxDisclosures (delta_batch ds) \<noteq> []" using ne by auto
  with all no_state show ?thesis by (simp add: p payload_cursors_def Let_def)
qed

section \<open>Notifications\<close>

lemma envelope_jwf:
  assumes "jwf (JObj (ni_source i))" "safe_int (ni_count i)" "jwf (JObj (ni_openArgs i))" "\<And>d. ni_data i = Some d \<Longrightarrow> jwf (JObj d)"
  shows "jwf (JObj (envelope_jv i))"
proof -
  have "jwf (JObj [(js ''tool'', JStr (ni_openTool i)), (js ''args'', JObj (ni_openArgs i))])"
    by (rule jwf_objI [of _ "[js ''tool'', js ''args'']"])
      (use assms(3) in \<open>simp_all add: keys_within_def is_digit_def del: jwf.simps(6)\<close>)
  then show ?thesis using assms(1,2,4) safe_jwf [of "ni_count i"]
    by (intro jwf_objI [of _ "[js ''event'', js ''id'', js ''source'', js ''kind'', js ''priority'', js ''delivery'', js ''groupKey'',
          js ''count'', js ''occurredAt'', js ''open'', js ''data'']"])
      (auto simp: keys_within_def envelope_jv_def is_digit_def opt_prop_def split: option.splits simp del: jwf.simps(3,6))
qed

lemma envelope_read_back:
  assumes t: "renderNotificationEnvelope i = Inr t" and kind: "ni_kind i = js ''inbox_update''" and d: "ni_data i = Some d"
    and ok: "jwf (JObj (ni_source i))" "jwf (JObj (ni_openArgs i))" "jwf (JObj d)"
    and row: "is_mailbox_key k" "0 < row" "row \<le> max_safe" "obj_get d (js ''mailbox'') = JStr k"
      "obj_get d (js ''throughRowId'') = jint row"
  shows "message_cursors (UserMsg t) = [row_marker k row (ni_priority i = HighPriority \<and> ni_delivery i = InterruptDelivery)]"
proof -
  have c: "safe_int (ni_count i)" and t': "t = stringify (JObj (envelope_jv i))"
    using t by (auto simp: renderNotificationEnvelope_def split: if_splits)
  have "jwf (JObj (envelope_jv i))" by (rule envelope_jwf [OF ok(1) c ok(2)]) (use d ok(3) in simp)
  then have p: "parseJsonObject t = Some (envelope_jv i)" unfolding t' by (rule read_object)
  have no_state: "parseMailboxAttentionStatePayload (envelope_jv i) = None"
    by (simp add: parseMailboxAttentionStatePayload_def envelope_jv_def)
  have g: "obj_get (envelope_jv i) (js ''event'') = JStr (js ''notification'')"
    "obj_get (envelope_jv i) (js ''kind'') = JStr (js ''inbox_update'')" "obj_get (envelope_jv i) (js ''data'') = JObj d"
    "obj_get (envelope_jv i) (js ''priority'') = JStr (priority_str (ni_priority i))"
    "obj_get (envelope_jv i) (js ''delivery'') = JStr (delivery_str (ni_delivery i))"
    "obj_get (envelope_jv i) (js ''mailboxes'') = JUndef"
    by (simp_all add: envelope_jv_def kind d opt_prop_def split: option.splits)
  have h: "(priority_str p = js ''high'') = (p = HighPriority)" "(delivery_str l = js ''interrupt'') = (l = InterruptDelivery)" for p l
    by (simp_all add: priority_str_def delivery_str_def split: priority.splits delivery.splits)
  have "parseMailboxDisclosures (envelope_jv i) =
      disclosure_of d (ni_priority i = HighPriority \<and> ni_delivery i = InterruptDelivery)"
    by (simp add: parseMailboxDisclosures_def g as_array_def as_record_def h isMailboxKey_def)
  then have m: "map disclosure_cursor (parseMailboxDisclosures (envelope_jv i)) =
      [row_marker k row (ni_priority i = HighPriority \<and> ni_delivery i = InterruptDelivery)]"
    using disclosure_of_row [OF row] by simp
  then have "parseMailboxDisclosures (envelope_jv i) \<noteq> []" by auto
  with m no_state show ?thesis by (simp add: p payload_cursors_def Let_def)
qed

lemma read_target_jwf: "message_ok m \<Longrightarrow> jprops (read_target m)"
  using safe_jwf by (cases m) (simp_all del: jwf.simps(3,6))

lemma read_target_keys: "keys_within (read_target m) [js ''conversation'', js ''source'', js ''peerId'', js ''groupId'']"
  by (cases m) (simp_all add: keys_within_def)

lemma source_value_jwf: "message_ok m \<Longrightarrow> jwf (JObj (source_value m))"
proof (cases m)
  case (NapcatMessage c)
  assume "message_ok m"
  then show ?thesis using safe_jwf [of "gm_groupId c"]
    by (intro jwf_objI [of _ "[js ''type'', js ''groupId'', js ''groupName'']"])
      (auto simp: keys_within_def NapcatMessage is_digit_def null_or_def split: option.splits simp del: jwf.simps(3))
next
  case (NapcatPrivateMessage c)
  assume "message_ok m"
  then show ?thesis using safe_jwf [of "pm_peerId c"]
    by (intro jwf_objI [of _ "[js ''type'', js ''peerId'', js ''senderName'']"])
      (auto simp: keys_within_def NapcatPrivateMessage is_digit_def simp del: jwf.simps(3))
qed (simp del: jwf.simps(6))

lemma time_range_jwf: "jwf (time_range a b)"
  unfolding time_range_def
  by (rule jwf_objI [of _ "[js ''from'', js ''to'']"]) (simp_all add: keys_within_def is_digit_def)

lemma before_row_jwf: "safe_int r \<Longrightarrow> jwf (jint (max 0 (r - 1)))"
  by (auto simp: safe_int_def max_safe_def max_def abs_le_iff)

lemma mailbox_source_jwf: "jwf (JObj [(js ''type'', JStr pl), (js ''mailbox'', JStr k)])"
  by (rule jwf_objI [of _ "[js ''type'', js ''mailbox'']"]) (simp_all add: keys_within_def is_digit_def)

lemma keys_within_data:
  assumes "keys_within ps [js ''participation'']" "keys_within qs [js ''timeRange'']"
  shows "keys_within ((js ''mailbox'', a) # (sk, b) # ps @ (js ''firstRowId'', c) # (js ''throughRowId'', d) # (js ''senderCount'', e) # qs @ ls)
     ([js ''mailbox'', sk, js ''participation'', js ''firstRowId'', js ''throughRowId'', js ''senderCount'', js ''timeRange''] @ obj_keys ls)"
proof -
  have "keys_within (qs @ ls) (js ''timeRange'' # obj_keys ls)"
    using keys_within_append [OF assms(2) keys_within_self [of ls]] by simp
  then have "keys_within ((js ''firstRowId'', c) # (js ''throughRowId'', d) # (js ''senderCount'', e) # qs @ ls)
      (js ''firstRowId'' # js ''throughRowId'' # js ''senderCount'' # js ''timeRange'' # obj_keys ls)"
    by (intro keys_within_head)
  from keys_within_append [OF assms(1) this] show ?thesis by (simp add: keys_within_head)
qed

lemma notification_read_back:
  assumes t: "renderMailboxNotification k ms cb part = Inr t" and ok: "batch_ok (k, ms)"
    and cb: "\<And>n. cb = Some n \<Longrightarrow> safe_int n"
  shows "message_cursors (UserMsg t) = [row_marker k (messageRowId (last ms)) (list_ex isHighPriorityMailboxEvent ms)]"
proof -
  have ms: "ms \<noteq> []" "is_mailbox_key k" "message_ok (hd ms)" using ok by (auto simp: batch_ok_def)
  have rows: "safe_int (messageRowId (hd ms))" using message_ok_row [OF ms(3)] by (simp add: safe_int_def)
  note final = batch_last [OF ok]
  let ?args = "[(js ''action'', JStr (js ''read''))] @ read_target (hd ms)
    @ [(js ''afterRowId'', jint (max 0 (messageRowId (hd ms) - 1)))] @ context_args cb"
  have ctx: "keys_within (context_args cb) [js ''contextBefore'']" "jprops (context_args cb)"
    using cb safe_jwf by (auto simp: context_args_def keys_within_def split: option.splits simp del: jwf.simps(3))
  have "keys_within ((js ''afterRowId'', jint (max 0 (messageRowId (hd ms) - 1))) # context_args cb) [js ''afterRowId'', js ''contextBefore'']"
    by (intro keys_within_head ctx(1))
  from keys_within_append [OF read_target_keys this]
  have ak: "keys_within ?args [js ''action'', js ''conversation'', js ''source'', js ''peerId'', js ''groupId'', js ''afterRowId'', js ''contextBefore'']"
    by (simp add: keys_within_head)
  have args: "jwf (JObj ?args)"
    by (rule jwf_objI [OF ak])
      (use read_target_jwf [OF ms(3)] before_row_jwf [OF rows] ctx(2) in \<open>simp_all add: is_digit_def del: jwf.simps(3)\<close>)
  let ?part = "if is_group_message (hd ms) then opt_prop ''participation'' (\<lambda>p. JStr (participation_str p)) part else []"
  let ?range = "if length ms = 1 then [] else [(js ''timeRange'', time_range (sentAt (hd ms)) (sentAt (last ms)))]"
  let ?sk = "if is_chat (hd ms) then js ''conversation'' else js ''qqSource''"
  let ?data = "[(js ''mailbox'', JStr k), (?sk, JObj (source_value (hd ms)))] @ ?part
    @ [(js ''firstRowId'', jint (messageRowId (hd ms))), (js ''throughRowId'', jint (messageRowId (last ms))),
       (js ''senderCount'', jint (int (card (set (map senderExternalIdForEvent ms)))))] @ ?range @ [(js ''readArgs'', JObj ?args)]"
  let ?i = "\<lparr>ni_id = notification_id (platform_of (hd ms)) k (messageRowId (last ms)),
      ni_source = [(js ''type'', JStr (platform_of (hd ms))), (js ''mailbox'', JStr k)],
      ni_kind = js ''inbox_update'', ni_priority = priority_of ms, ni_delivery = delivery_of (priority_of ms), ni_groupKey = k,
      ni_count = int (length ms),
      ni_occurredAt = (if length ms = 1 then Some (formatBeijingMinuteIso (sentAt (last ms))) else None),
      ni_openTool = js ''inbox'', ni_openArgs = ?args, ni_data = Some ?data\<rparr>"
  have r: "renderNotificationEnvelope ?i = Inr t"
    using t ms(1) by (simp only: renderMailboxNotification_def Let_def if_False)
  have count: "safe_int (int (length ms))" using r by (simp add: renderNotificationEnvelope_def split: if_splits)
  have "card (set (map senderExternalIdForEvent ms)) \<le> length ms" by (metis card_length length_map)
  then have senders: "jwf (jint (int (card (set (map senderExternalIdForEvent ms)))))"
    using count by (simp add: safe_int_def max_safe_def)
  have pk: "keys_within ?part [js ''participation'']" "jprops ?part" by (auto simp: keys_within_def opt_prop_def split: option.splits)
  have rk: "keys_within ?range [js ''timeRange'']" "jprops ?range" using time_range_jwf by (auto simp: keys_within_def)
  have sk: "?sk \<in> {js ''conversation'', js ''qqSource''}" by simp
  have data: "jwf (JObj ?data)"
  proof (rule jwf_objI [OF _ _ _])
    show "keys_within ?data ([js ''mailbox'', ?sk, js ''participation'', js ''firstRowId'', js ''throughRowId'', js ''senderCount'',
        js ''timeRange''] @ obj_keys [(js ''readArgs'', JObj ?args)])"
      using keys_within_data [OF pk(1) rk(1)] by (simp only: append.assoc append_Cons append_Nil)
    show "jprops ?data"
      using pk(2) rk(2) args senders rows final safe_jwf [OF rows] row_jwf [of "messageRowId (last ms)"] source_value_jwf [OF ms(3)]
      by (simp only: append.assoc append_Cons append_Nil jprops_simps jwf.simps(4))
  qed (auto simp: is_digit_def)
  have "message_cursors (UserMsg t) = [row_marker k (messageRowId (last ms))
      (ni_priority ?i = HighPriority \<and> ni_delivery ?i = InterruptDelivery)]"
    by (rule envelope_read_back [OF r _ _ _ _ data ms(2) final [THEN conjunct1] final [THEN conjunct2]])
      (use args mailbox_source_jwf in \<open>simp_all add: opt_prop_def split: option.splits del: jwf.simps(6)\<close>)
  moreover have "(ni_priority ?i = HighPriority \<and> ni_delivery ?i = InterruptDelivery) = list_ex isHighPriorityMailboxEvent ms"
    by (simp add: priority_of_def delivery_of_def)
  ultimately show ?thesis by simp
qed

section \<open>Backlogs\<close>

fun source_ok :: "backlog_source \<Rightarrow> bool" where
  "source_ok (ConversationSource c n s) \<longleftrightarrow> True"
| "source_ok (GroupSource g n) \<longleftrightarrow> safe_int g"
| "source_ok (PrivateSource p n) \<longleftrightarrow> safe_int p"

definition backlog_ok :: "mailbox_backlog \<Rightarrow> bool" where
  "backlog_ok b \<longleftrightarrow> is_mailbox_key (mb_mailboxKey b) \<and> source_ok (mb_source b) \<and> safe_int (mb_firstRowId b)
     \<and> 0 < mb_throughRowId b \<and> mb_throughRowId b \<le> max_safe \<and> safe_int (mb_recentAfterRowId b)
     \<and> (\<forall>n. mb_senderCount b = Some n \<longrightarrow> safe_int n)"

definition backlog_read_keys :: "jstr list" where
  "backlog_read_keys = [js ''action'', js ''conversation'', js ''source'', js ''peerId'', js ''groupId'', js ''afterRowId'', js ''limit'']"

lemma read_args_jwf:
  assumes "source_ok src" "jwf (jint after)"
  shows "jwf (JObj (readArgsForSource src after))" "jwf (JObj (readArgsForSource src after @ [(js ''limit'', jint backlog_recent_limit)]))"
proof -
  have limit: "jwf (jint backlog_recent_limit)" by (simp add: backlog_recent_limit_def)
  have k: "keys_within (readArgsForSource src after) backlog_read_keys"
    "keys_within (readArgsForSource src after @ [(js ''limit'', jint backlog_recent_limit)]) backlog_read_keys"
    by (cases src; simp add: keys_within_def backlog_read_keys_def)+
  have p: "jprops (readArgsForSource src after)" using assms safe_jwf by (cases src) (simp_all del: jwf.simps(3,6))
  show "jwf (JObj (readArgsForSource src after))" "jwf (JObj (readArgsForSource src after @ [(js ''limit'', jint backlog_recent_limit)]))"
    by (rule jwf_objI [OF k(1)] jwf_objI [OF k(2)]; use p limit in \<open>simp add: backlog_read_keys_def is_digit_def del: jwf.simps(3)\<close>)+
qed

lemma source_data_jwf:
  assumes "source_ok src"
  shows "jwf (snd (source_data src))" "fst (source_data src) \<in> {js ''conversation'', js ''qqSource''}"
proof -
  show "jwf (snd (source_data src))"
  proof (cases src)
    case (GroupSource g n)
    then show ?thesis using assms safe_jwf [of g] unfolding GroupSource source_data.simps snd_conv
      by (intro jwf_objI [of _ "[js ''type'', js ''groupId'', js ''groupName'']"])
        (auto simp: keys_within_def is_digit_def null_or_def split: option.splits simp del: jwf.simps(3))
  next
    case (PrivateSource p n)
    then show ?thesis using assms safe_jwf [of p] unfolding PrivateSource source_data.simps snd_conv
      by (intro jwf_objI [of _ "[js ''type'', js ''peerId'', js ''senderName'']"])
        (auto simp: keys_within_def is_digit_def simp del: jwf.simps(3))
  qed (simp del: jwf.simps(6))
  show "fst (source_data src) \<in> {js ''conversation'', js ''qqSource''}" by (cases src) simp_all
qed

lemma backlog_read_back:
  assumes t: "renderMailboxBacklogNotification b part = Inr t" and ok: "backlog_ok b"
  shows "message_cursors (UserMsg t) = [row_marker (mb_mailboxKey b) (mb_throughRowId b) (mb_priority b = HighPriority)]"
proof -
  have src: "source_ok (mb_source b)" and rows: "safe_int (mb_firstRowId b)" "safe_int (mb_recentAfterRowId b)"
    and final: "0 < mb_throughRowId b" "mb_throughRowId b \<le> max_safe" and key: "is_mailbox_key (mb_mailboxKey b)"
    using ok by (simp_all add: backlog_ok_def)
  have senders: "jwf (null_or jint (mb_senderCount b))"
    using ok safe_jwf by (auto simp: backlog_ok_def null_or_def split: option.splits simp del: jwf.simps(3))
  let ?args = "readArgsForSource (mb_source b) (max 0 (mb_firstRowId b - 1))"
  let ?latest = "readArgsForSource (mb_source b) (mb_recentAfterRowId b) @ [(js ''limit'', jint backlog_recent_limit)]"
  note args = read_args_jwf(1) [OF src before_row_jwf [OF rows(1)]]
  note latest = read_args_jwf(2) [OF src safe_jwf [OF rows(2)]]
  obtain sk sv where sd: "source_data (mb_source b) = (sk, sv)" by fastforce
  have sk: "sk = js ''conversation'' \<or> sk = js ''qqSource''" "jwf sv" using source_data_jwf [OF src] by (simp_all add: sd)
  let ?part = "if is_group_source (mb_source b) then opt_prop ''participation'' (\<lambda>p. JStr (participation_str p)) part else []"
  let ?range = "if mb_count b = 1 then [] else [(js ''timeRange'', time_range (mb_from b) (mb_to b))]"
  let ?data = "[(js ''mode'', JStr (js ''backlog'')), (js ''mailbox'', JStr (mb_mailboxKey b)), source_data (mb_source b)] @ ?part
    @ [(js ''firstRowId'', jint (mb_firstRowId b)), (js ''throughRowId'', jint (mb_throughRowId b)),
       (js ''senderCount'', null_or jint (mb_senderCount b))] @ ?range @ [(js ''readArgs'', JObj ?args), (js ''latestReadArgs'', JObj ?latest)]"
  let ?i = "\<lparr>ni_id = notification_id (source_platform (mb_source b)) (mb_mailboxKey b) (mb_throughRowId b),
      ni_source = [(js ''type'', JStr (source_platform (mb_source b))), (js ''mailbox'', JStr (mb_mailboxKey b))],
      ni_kind = js ''inbox_update'', ni_priority = mb_priority b, ni_delivery = delivery_of (mb_priority b),
      ni_groupKey = mb_mailboxKey b, ni_count = mb_count b,
      ni_occurredAt = (if mb_count b = 1 then Some (formatBeijingMinuteIso (mb_to b)) else None),
      ni_openTool = js ''inbox'', ni_openArgs = (if mb_priority b = HighPriority then ?args else ?latest), ni_data = Some ?data\<rparr>"
  have r: "renderNotificationEnvelope ?i = Inr t" using t by (simp only: renderMailboxBacklogNotification_def Let_def)
  have pk: "keys_within ?part [js ''participation'']" "jprops ?part" by (auto simp: keys_within_def opt_prop_def split: option.splits)
  have rk: "keys_within ?range [js ''timeRange'']" "jprops ?range" using time_range_jwf by (auto simp: keys_within_def)
  have data: "jwf (JObj ?data)"
  proof (rule jwf_objI [OF _ _ _])
    show "keys_within ?data (js ''mode'' # [js ''mailbox'', sk, js ''participation'', js ''firstRowId'', js ''throughRowId'',
        js ''senderCount'', js ''timeRange''] @ obj_keys [(js ''readArgs'', JObj ?args), (js ''latestReadArgs'', JObj ?latest)])"
      unfolding sd append.assoc append_Cons append_Nil
      by (rule keys_within_head [OF keys_within_data [OF pk(1) rk(1), unfolded append_Cons append_Nil]])
    show "jprops ?data"
      using pk(2) rk(2) args latest senders sk(2) final safe_jwf [OF rows(1)] row_jwf [OF final]
      by (simp only: sd append.assoc append_Cons append_Nil jprops_simps jwf.simps(4))
  qed (use sk(1) in \<open>auto simp: is_digit_def\<close>)
  have "message_cursors (UserMsg t) = [row_marker (mb_mailboxKey b) (mb_throughRowId b)
      (ni_priority ?i = HighPriority \<and> ni_delivery ?i = InterruptDelivery)]"
    by (rule envelope_read_back [OF r _ _ _ _ data key final])
      (use args latest mailbox_source_jwf sk(1) in \<open>auto simp: sd opt_prop_def split: option.splits simp del: jwf.simps(6)\<close>)
  moreover have "(ni_priority ?i = HighPriority \<and> ni_delivery ?i = InterruptDelivery) = (mb_priority b = HighPriority)"
    by (simp add: delivery_of_def)
  ultimately show ?thesis by simp
qed

section \<open>A plan and its texts\<close>

text \<open>A text the loop writes for a plan: some of its batches as one delta, or one disclosure as a notification.\<close>

inductive shown_text :: "mailbox_disclosure list \<Rightarrow> jstr \<Rightarrow> (jstr \<times> int) list \<Rightarrow> bool" for ds where
  shown_delta: "\<forall>(k, ms) \<in> set bs. MailboxDisclosure k ms \<in> set ds \<Longrightarrow> renderMailboxDeltaBatch bs = Inr (Some t) \<Longrightarrow>
    shown_text ds t (map (\<lambda>(k, ms). (k, messageRowId (last ms))) bs)"
| shown_notification: "MailboxDisclosure k ms \<in> set ds \<Longrightarrow> \<forall>n. cb = Some n \<longrightarrow> safe_int n \<Longrightarrow>
    renderMailboxNotification k ms cb part = Inr t \<Longrightarrow> shown_text ds t [(k, messageRowId (last ms))]"
| shown_backlog: "BacklogDisclosure b \<in> set ds \<Longrightarrow> renderMailboxBacklogNotification b part = Inr t \<Longrightarrow>
    shown_text ds t [(mb_mailboxKey b, mb_throughRowId b)]"

definition event_ok :: "bot_event \<Rightarrow> bool" where
  "event_ok e \<longleftrightarrow> (case e of
       MessageEvent m \<Rightarrow> message_ok m \<and> (\<exists>k. mailbox_of_message m = Inr k \<and> is_mailbox_key k)
     | MailboxBacklog b \<Rightarrow> backlog_ok b
     | _ \<Rightarrow> True)"

lemma admitted_subset: "set (admitted c es) \<subseteq> set es"
  by (induction es arbitrary: c) (auto split: option.splits if_splits)

lemma messages_of_mem: "m \<in> set (messages_of k es) \<longleftrightarrow> MessageEvent m \<in> set es \<and> mailbox_of (MessageEvent m) = Some k"
  by (auto simp: messages_of_def split: bot_event.splits if_splits)

lemma plan_disclosure_ok:
  assumes "planMailboxDisclosures es cs = Inr p" "\<forall>e \<in> set es. event_ok e"
  shows "MailboxDisclosure k ms \<in> set (dp_disclosures p) \<Longrightarrow> batch_ok (k, ms) \<and> ms = messages_of k (admitted (cursor_of cs) es)"
    and "BacklogDisclosure b \<in> set (dp_disclosures p) \<Longrightarrow> backlog_ok b \<and> MailboxBacklog b \<in> set (admitted (cursor_of cs) es)"
proof -
  note inv = planMailboxDisclosures_inv [OF assms(1), unfolded plan_inv_def]
  have ok: "batches_ok (dp_disclosures p)" using inv by blast
  have shown: "set (disclosed_events (dp_disclosures p)) = set (admitted (cursor_of cs) es)"
    using inv by (metis set_mset_mset)
  show "batch_ok (k, ms) \<and> ms = messages_of k (admitted (cursor_of cs) es)"
    if d: "MailboxDisclosure k ms \<in> set (dp_disclosures p)"
  proof -
    have ms: "ms = messages_of k (admitted (cursor_of cs) es)"
      using batch_of_mem [OF _ d] ok inv unfolding batches_ok_def by metis
    have each: "message_ok m \<and> is_mailbox_key k" if "m \<in> set ms" for m
    proof -
      have m: "MessageEvent m \<in> set es" "mailbox_of (MessageEvent m) = Some k"
        using that admitted_subset unfolding ms messages_of_mem by blast+
      then obtain k' where "message_ok m" "mailbox_of_message m = Inr k'" "is_mailbox_key k'"
        using assms(2) unfolding event_ok_def by fastforce
      with m(2) show ?thesis by (simp add: mailbox_of_def)
    qed
    have ne: "ms \<noteq> []" using ok d by (auto simp: batches_ok_def)
    then have "is_mailbox_key k" using each [of "hd ms"] by simp
    then show ?thesis using each ms ne by (simp add: batch_ok_def)
  qed
  show "backlog_ok b \<and> MailboxBacklog b \<in> set (admitted (cursor_of cs) es)"
    if d: "BacklogDisclosure b \<in> set (dp_disclosures p)"
  proof -
    have "MailboxBacklog b \<in> set (disclosed_events (dp_disclosures p))" using d by (force simp: disclosed_events_def)
    then have m: "MailboxBacklog b \<in> set (admitted (cursor_of cs) es)" unfolding shown .
    then have "event_ok (MailboxBacklog b)" using assms(2) admitted_subset by blast
    with m show ?thesis by (simp add: event_ok_def)
  qed
qed

end
