(* ===== verification/Event_Queue.thy ===== *)
theory Event_Queue
  imports Js_Prelude Bot_Event
begin

text \<open>
  \<open>src/agent/event-queue.ts\<close> and \<open>src/agent/dedup-enqueue.ts\<close>: the queue between the producers of events
  and the loop.  A pending \<open>waitForEvent\<close> is a waiter with its predicate on the queue; \<open>eq_resolved\<close> is
  the list of the waits that have returned, in order.
\<close>

section \<open>The queue\<close>

datatype 'e wait_for = AnyEvent | EventWhere "'e \<Rightarrow> bool"

fun wait_predicate :: "'e wait_for \<Rightarrow> 'e list \<Rightarrow> bool" where
  "wait_predicate AnyEvent events \<longleftrightarrow> events \<noteq> []"
| "wait_predicate (EventWhere p) events \<longleftrightarrow> list_ex p events"

record 'e event_queue =
  eq_events :: "'e list"
  eq_waiters :: "(nat \<times> 'e wait_for) list"
  eq_resolved :: "nat list"
  eq_nextWait :: nat

definition empty_queue :: "'e event_queue" where
  "empty_queue = \<lparr>eq_events = [], eq_waiters = [], eq_resolved = [], eq_nextWait = 0\<rparr>"

definition enqueue :: "'e \<Rightarrow> 'e event_queue \<Rightarrow> nat \<times> 'e event_queue" where
  "enqueue e q =
     (let events = eq_events q @ [e];
          ready = filter (\<lambda>(_, w). wait_predicate w events) (eq_waiters q);
          remaining = filter (\<lambda>(_, w). \<not> wait_predicate w events) (eq_waiters q)
      in (length events,
          q\<lparr>eq_events := events, eq_waiters := remaining, eq_resolved := eq_resolved q @ map fst ready\<rparr>))"

definition dequeue :: "'e event_queue \<Rightarrow> 'e option \<times> 'e event_queue" where
  "dequeue q = (case eq_events q of [] \<Rightarrow> (None, q) | e # es \<Rightarrow> (Some e, q\<lparr>eq_events := es\<rparr>))"

definition size_of :: "'e event_queue \<Rightarrow> nat" where
  "size_of q = length (eq_events q)"

definition clear :: "'e event_queue \<Rightarrow> nat \<times> 'e event_queue" where
  "clear q = (length (eq_events q), q\<lparr>eq_events := []\<rparr>)"

text \<open>The wait gets the next number; with an aborted signal or an event that fits it returns at once.\<close>

definition waitForEvents :: "'e wait_for \<Rightarrow> bool \<Rightarrow> 'e event_queue \<Rightarrow> nat \<times> 'e event_queue" where
  "waitForEvents w aborted q =
     (let n = eq_nextWait q; q' = q\<lparr>eq_nextWait := n + 1\<rparr> in
      if wait_predicate w (eq_events q) \<or> aborted then (n, q'\<lparr>eq_resolved := eq_resolved q' @ [n]\<rparr>)
      else (n, q'\<lparr>eq_waiters := eq_waiters q' @ [(n, w)]\<rparr>))"

definition waitForEvent :: "bool \<Rightarrow> 'e event_queue \<Rightarrow> nat \<times> 'e event_queue" where
  "waitForEvent aborted = waitForEvents AnyEvent aborted"

definition waitForEventWhere :: "('e \<Rightarrow> bool) \<Rightarrow> bool \<Rightarrow> 'e event_queue \<Rightarrow> nat \<times> 'e event_queue" where
  "waitForEventWhere p aborted = waitForEvents (EventWhere p) aborted"

text \<open>The abort listener of a wait; it is removed when the wait returns, so a later abort does nothing.\<close>

definition onAbort :: "nat \<Rightarrow> 'e event_queue \<Rightarrow> 'e event_queue" where
  "onAbort n q =
     (if n \<in> fst ` set (eq_waiters q)
      then q\<lparr>eq_waiters := filter (\<lambda>(m, _). m \<noteq> n) (eq_waiters q), eq_resolved := eq_resolved q @ [n]\<rparr>
      else q)"

datatype 'e queue_action = Enqueue 'e | Dequeue | Clear | WaitFor "'e wait_for" bool | Abort nat

fun queue_step :: "'e queue_action \<Rightarrow> 'e event_queue \<Rightarrow> 'e event_queue" where
  "queue_step (Enqueue e) q = snd (enqueue e q)"
| "queue_step Dequeue q = snd (dequeue q)"
| "queue_step Clear q = snd (clear q)"
| "queue_step (WaitFor w aborted) q = snd (waitForEvents w aborted q)"
| "queue_step (Abort n) q = onAbort n q"

definition run_queue :: "'e queue_action list \<Rightarrow> 'e event_queue" where
  "run_queue ops = foldl (\<lambda>q a. queue_step a q) empty_queue ops"

section \<open>Invariant\<close>

definition queue_inv :: "'e event_queue \<Rightarrow> bool" where
  "queue_inv q \<longleftrightarrow> (\<forall>(n, w) \<in> set (eq_waiters q). \<not> wait_predicate w (eq_events q))
     \<and> distinct (map fst (eq_waiters q) @ eq_resolved q)
     \<and> set (map fst (eq_waiters q) @ eq_resolved q) = {..< eq_nextWait q}"

lemma wait_predicate_mono: "wait_predicate w es \<Longrightarrow> set es \<subseteq> set fs \<Longrightarrow> wait_predicate w fs"
  by (cases w) (auto simp: list_ex_iff)

lemma partition_fst: "set (map fst (filter P xs)) \<union> set (map fst (filter (\<lambda>x. \<not> P x) xs)) = set (map fst xs)"
  by auto

lemma queue_inv_enqueue:
  assumes "queue_inv q"
  shows "queue_inv (snd (enqueue e q))"
proof -
  let ?es = "eq_events q @ [e]"
  let ?P = "\<lambda>(_, w). wait_predicate w ?es"
  have n: "(\<lambda>(_, w). \<not> wait_predicate w ?es) = (\<lambda>x. \<not> ?P x)" by (auto simp: fun_eq_iff)
  have d: "distinct (map fst (eq_waiters q))" "distinct (eq_resolved q)"
      "set (map fst (eq_waiters q)) \<inter> set (eq_resolved q) = {}"
      "set (map fst (eq_waiters q)) \<union> set (eq_resolved q) = {..< eq_nextWait q}"
    using assms by (auto simp: queue_inv_def)
  let ?r = "map fst (filter ?P (eq_waiters q))" and ?k = "map fst (filter (\<lambda>x. \<not> ?P x) (eq_waiters q))"
  have u: "set ?r \<union> set ?k = set (map fst (eq_waiters q))" by (rule partition_fst)
  have "distinct ?r" "distinct ?k" using d(1) by (simp_all add: distinct_map_filter)
  moreover have "set ?r \<inter> set ?k = {}" using d(1) by (auto simp: distinct_map inj_on_def)
  ultimately have "distinct (?k @ eq_resolved q @ ?r)" using d(2,3) u by auto
  moreover have "set (?k @ eq_resolved q @ ?r) = {..< eq_nextWait q}" using d(4) u by auto
  ultimately show ?thesis unfolding queue_inv_def by (simp add: enqueue_def Let_def n)
qed

lemma queue_inv_shrink:
  assumes "queue_inv q" "set es \<subseteq> set (eq_events q)"
  shows "queue_inv (q\<lparr>eq_events := es\<rparr>)"
  using assms wait_predicate_mono by (fastforce simp: queue_inv_def)

lemma queue_inv_dequeue: "queue_inv q \<Longrightarrow> queue_inv (snd (dequeue q))"
  by (cases "eq_events q") (auto simp: dequeue_def intro: queue_inv_shrink)

lemma queue_inv_clear: "queue_inv q \<Longrightarrow> queue_inv (snd (clear q))"
  by (auto simp: clear_def intro: queue_inv_shrink)

lemma queue_inv_wait: "queue_inv q \<Longrightarrow> queue_inv (snd (waitForEvents w aborted q))"
  by (auto simp: queue_inv_def waitForEvents_def Let_def lessThan_Suc)

lemma queue_inv_abort:
  assumes "queue_inv q"
  shows "queue_inv (onAbort n q)"
proof (cases "n \<in> fst ` set (eq_waiters q)")
  case True
  let ?k = "filter (\<lambda>(m, _). m \<noteq> n) (eq_waiters q)"
  have k: "set (map fst ?k) = set (map fst (eq_waiters q)) - {n}" by auto
  have "distinct (map fst ?k)" using assms by (simp add: queue_inv_def distinct_map_filter)
  with k True assms show ?thesis unfolding queue_inv_def onAbort_def by auto
qed (use assms in \<open>simp add: onAbort_def\<close>)

lemma queue_inv_run: "queue_inv (run_queue ops)"
proof -
  have "queue_inv q \<Longrightarrow> queue_inv (foldl (\<lambda>q a. queue_step a q) q ops)" for q :: "'a event_queue"
  proof (induction ops arbitrary: q)
    case (Cons a ops)
    have "queue_inv (queue_step a q)"
      using Cons.prems queue_inv_enqueue queue_inv_dequeue queue_inv_clear queue_inv_wait queue_inv_abort
      by (cases a) simp_all
    with Cons.IH show ?case by simp
  qed simp
  moreover have "queue_inv (empty_queue :: 'a event_queue)" by (simp add: queue_inv_def empty_queue_def)
  ultimately show ?thesis by (simp add: run_queue_def)
qed

section \<open>Deduplication while missed messages are replayed\<close>

record dedup =
  dd_seen :: "int set"
  dd_replayActive :: bool

definition createDedupEnqueue :: dedup where
  "createDedupEnqueue = \<lparr>dd_seen = {}, dd_replayActive = True\<rparr>"

definition dedup_enqueue :: "bot_event \<Rightarrow> dedup \<times> bot_event event_queue \<Rightarrow> bool \<times> dedup \<times> bot_event event_queue" where
  "dedup_enqueue e = (\<lambda>(d, q).
     (case (dd_replayActive d, e) of
        (True, MessageEvent m) \<Rightarrow>
          if messageRowId m \<in> dd_seen d then (False, d, q)
          else (True, d\<lparr>dd_seen := insert (messageRowId m) (dd_seen d)\<rparr>, snd (enqueue e q))
      | _ \<Rightarrow> (True, d, snd (enqueue e q))))"

definition finishReplay :: "dedup \<Rightarrow> dedup" where
  "finishReplay d = d\<lparr>dd_replayActive := False, dd_seen := {}\<rparr>"

end
