(* ===== verification/Event_Properties.thy ===== *)
theory Event_Properties
  imports Mailbox_Text Event_Queue
begin

text \<open>
  The rows a plan admits, and what the history says after its texts have been appended.
\<close>

section \<open>Admitted rows\<close>

lemma admitted_rows_sorted:
  "sorted_wrt (<) (rows_in k (admitted c es)) \<and> (\<forall>r \<in> set (rows_in k (admitted c es)). c k < r)
   \<and> highest (c k) (rows_in k es) = last (c k # rows_in k (admitted c es))"
proof (induction es arbitrary: c)
  case (Cons e es)
  have cons: "rows_in k (x # xs) = (if mailbox_of x = Some k then row_of x # rows_in k xs else rows_in k xs)" for x xs
    by (simp add: rows_in_def)
  show ?case
  proof (cases "mailbox_of e")
    case None
    then show ?thesis using Cons.IH [of c] by (simp add: cons)
  next
    case (Some k')
    show ?thesis
    proof (cases "row_of e \<le> c k'")
      case True
      then show ?thesis using Cons.IH [of c] Some by (auto simp: cons max_absorb1)
    next
      case False
      let ?c = "c(k' := row_of e)"
      have IH: "sorted_wrt (<) (rows_in k (admitted ?c es))" "\<forall>r \<in> set (rows_in k (admitted ?c es)). ?c k < r"
          "highest (?c k) (rows_in k es) = last (?c k # rows_in k (admitted ?c es))"
        using Cons.IH [of ?c] by blast+
      show ?thesis
      proof (cases "k' = k")
        case True
        have "max (c k) (row_of e) = row_of e" using False True by simp
        moreover have "rows_in k (admitted c (e # es)) = row_of e # rows_in k (admitted ?c es)"
          using Some False True by (simp add: cons)
        moreover have "rows_in k (e # es) = row_of e # rows_in k es" using Some True by (simp add: cons)
        moreover have "?c k = row_of e" using True by simp
        ultimately show ?thesis using IH False True by auto
      next
        case False': False
        have "rows_in k (admitted c (e # es)) = rows_in k (admitted ?c es)" using Some False False' by (simp add: cons)
        moreover have "rows_in k (e # es) = rows_in k es" using Some False' by (simp add: cons)
        moreover have "?c k = c k" using False' by simp
        ultimately show ?thesis using IH by simp
      qed
    qed
  qed
qed (simp add: rows_in_def)

lemma message_rows_sorted: "sorted_wrt (<) (map messageRowId (messages_of k (admitted c es)))"
proof -
  have "map messageRowId (messages_of k xs) =
      map row_of (filter (\<lambda>e. \<exists>m. e = MessageEvent m) (filter (\<lambda>e. mailbox_of e = Some k) xs))" for xs
    by (induction xs) (auto simp: messages_of_def split: bot_event.splits)
  moreover have "sorted_wrt (<) (map row_of (filter (\<lambda>e. mailbox_of e = Some k) (admitted c es)))"
    using admitted_rows_sorted [of k c es] by (simp add: rows_in_def)
  ultimately show ?thesis by (simp add: sorted_wrt_map sorted_wrt_filter del: filter_filter)
qed

lemma sorted_last_le: "sorted_wrt (<) (xs :: int list) \<Longrightarrow> x \<in> set xs \<Longrightarrow> x \<le> last xs"
  by (induction xs) (auto intro: less_imp_le)

lemma push_batch_direct: "DirectDisclosure x \<in> set (push_batch k m ds) \<Longrightarrow> DirectDisclosure x \<in> set ds"
proof (induction ds)
  case (Cons d ds)
  then show ?case by (cases d) (auto split: if_splits)
qed simp

lemma plan_event_direct:
  assumes "plan_event p e = Inr p'" "DirectDisclosure x \<in> set (dp_disclosures p')"
  shows "DirectDisclosure x \<in> set (dp_disclosures p) \<or> mailbox_of x = None"
  using assms(1)
  by (cases rule: plan_event_cases) (use assms(2) push_batch_direct in auto)

lemma plan_events_direct:
  "plan_events p es = Inr p' \<Longrightarrow> DirectDisclosure x \<in> set (dp_disclosures p') \<Longrightarrow>
   DirectDisclosure x \<in> set (dp_disclosures p) \<or> mailbox_of x = None"
proof (induction es arbitrary: p)
  case (Cons e es)
  obtain q where q: "plan_event p e = Inr q" "plan_events q es = Inr p'" using Cons.prems(1) by (auto simp: bindE_Inr_iff)
  from Cons.IH [OF q(2) Cons.prems(2)] show ?case using plan_event_direct [OF q(1), of x] by (elim disjE) simp_all
qed simp

lemma plan_direct:
  "planMailboxDisclosures es cs = Inr p \<Longrightarrow> DirectDisclosure x \<in> set (dp_disclosures p) \<Longrightarrow> mailbox_of x = None"
  unfolding planMailboxDisclosures_def by (auto dest: plan_events_direct)

definition owed :: "mailbox_disclosure list \<Rightarrow> (jstr \<times> int) set" where
  "owed ds = {(k, messageRowId (last ms)) | k ms. MailboxDisclosure k ms \<in> set ds}
     \<union> {(mb_mailboxKey b, mb_throughRowId b) | b. BacklogDisclosure b \<in> set ds}"

lemma owed_le_iff:
  assumes plan: "planMailboxDisclosures es cs = Inr p" and ok: "\<forall>e \<in> set es. event_ok e"
  shows "(\<forall>r. (k, r) \<in> owed (dp_disclosures p) \<longrightarrow> r \<le> a) \<longleftrightarrow> (\<forall>r \<in> set (rows_in k (admitted (cursor_of cs) es)). r \<le> a)"
proof -
  let ?ad = "admitted (cursor_of cs) es"
  have ev: "set (disclosed_events (dp_disclosures p)) = set ?ad"
    using planMailboxDisclosures_inv [OF plan] unfolding plan_inv_def by (metis set_mset_mset)
  have batch: "MailboxDisclosure k' ms \<in> set (dp_disclosures p) \<Longrightarrow> batch_ok (k', ms) \<and> ms = messages_of k' ?ad" for k' ms
    by (rule plan_disclosure_ok(1) [OF plan ok])
  have sub: "r \<in> set (rows_in k ?ad)" if "(k, r) \<in> owed (dp_disclosures p)" for r
    using that unfolding owed_def
  proof (elim UnE CollectE exE conjE)
    fix k' ms assume e: "(k, r) = (k', messageRowId (last ms))" and d: "MailboxDisclosure k' ms \<in> set (dp_disclosures p)"
    have "last ms \<in> set (messages_of k ?ad)" using batch [OF d] e by (auto simp: batch_ok_def)
    then have "MessageEvent (last ms) \<in> set ?ad" "mailbox_of (MessageEvent (last ms)) = Some k"
      unfolding messages_of_mem by blast+
    then show ?thesis using e by (force simp: rows_in_def)
  next
    fix b assume e: "(k, r) = (mb_mailboxKey b, mb_throughRowId b)" and d: "BacklogDisclosure b \<in> set (dp_disclosures p)"
    have "MailboxBacklog b \<in> set ?ad" using plan_disclosure_ok(2) [OF plan ok d] by blast
    then show ?thesis using e by (force simp: rows_in_def mailbox_of_def)
  qed
  have cover: "\<exists>r'. (k, r') \<in> owed (dp_disclosures p) \<and> r \<le> r'" if r: "r \<in> set (rows_in k ?ad)" for r
  proof -
    obtain e where e: "e \<in> set ?ad" "mailbox_of e = Some k" "r = row_of e" using r by (auto simp: rows_in_def)
    then have "e \<in> set (disclosed_events (dp_disclosures p))" unfolding ev by blast
    then obtain d where d: "d \<in> set (dp_disclosures p)" "e \<in> set (events_of d)" by (auto simp: disclosed_events_def)
    show ?thesis
    proof (cases d)
      case (MailboxDisclosure k' ms)
      then obtain m where m: "e = MessageEvent m" "m \<in> set ms" using d(2) by auto
      have ms: "ms = messages_of k' ?ad" using batch d(1) MailboxDisclosure by blast
      have "mailbox_of (MessageEvent m) = Some k'" using m(2) unfolding ms messages_of_mem by blast
      then have k: "k' = k" using e(2) m(1) by simp
      have "sorted_wrt (<) (map messageRowId ms)" unfolding ms by (rule message_rows_sorted)
      then have "messageRowId m \<le> last (map messageRowId ms)" using m(2) by (intro sorted_last_le) auto
      then have "r \<le> messageRowId (last ms)" using e(3) m by (cases "ms = []") (auto simp: last_map)
      moreover have "(k, messageRowId (last ms)) \<in> owed (dp_disclosures p)"
        using d(1) MailboxDisclosure k unfolding owed_def by blast
      ultimately show ?thesis by blast
    next
      case (BacklogDisclosure b)
      then have "e = MailboxBacklog b" using d(2) by simp
      then have "k = mb_mailboxKey b" "r = mb_throughRowId b" using e(2,3) by (simp_all add: mailbox_of_def)
      then have "(k, r) \<in> owed (dp_disclosures p)" using d(1) BacklogDisclosure unfolding owed_def by blast
      then show ?thesis by blast
    next
      case (DirectDisclosure x)
      then have "e = x" using d(2) by simp
      with e(2) d(1) DirectDisclosure plan_direct [OF plan] show ?thesis by auto
    qed
  qed
  show ?thesis using sub cover by (meson order_trans)
qed

section \<open>The history after the texts\<close>

definition rows_at :: "jstr \<Rightarrow> (jstr \<times> int) list \<Rightarrow> nat set" where
  "rows_at k rs = {nat r | r. (k, r) \<in> set rs}"

lemma single_disclosed: "att_disclosed (single_attention (k, c) x) = (if x = k then nat (disclosed c) else 0)"
  by (simp add: single_attention_def abs_cursor_def bot_attn_def)

lemma sup_disclosed: "att_disclosed (sup f g) = max (att_disclosed f) (att_disclosed g)"
  by (simp add: sup_attn_def)

lemma bot_disclosed: "att_disclosed bot = 0"
  by (simp add: bot_attn_def)

lemma attention_sum_le:
  "att_disclosed (attention_sum st k) \<le> a \<longleftrightarrow> (\<forall>(m, c) \<in> set st. m = k \<longrightarrow> nat (disclosed c) \<le> a)"
proof (induction st)
  case Nil
  then show ?case by (simp add: attention_sum_def bot_disclosed)
next
  case (Cons p st)
  then show ?case by (cases p) (auto simp: attention_sum_Cons sup_disclosed single_disclosed)
qed

lemma messages_attention_disclosed_le:
  "att_disclosed (messages_attention ms k) \<le> a \<longleftrightarrow>
   (\<forall>m \<in> set ms. \<forall>(k', c) \<in> set (message_cursors m). k' = k \<longrightarrow> nat (disclosed c) \<le> a)"
proof (induction ms)
  case Nil
  then show ?case by (simp add: messages_attention_def bot_disclosed)
next
  case (Cons m ms)
  have "messages_attention (m # ms) = sup (attention_sum (message_cursors m)) (messages_attention ms)"
    by (simp add: messages_attention_def)
  with Cons show ?case by (simp add: sup_disclosed attention_sum_le)
qed

definition marks :: "attention_state \<Rightarrow> (jstr \<times> int) list \<Rightarrow> bool" where
  "marks st rs \<longleftrightarrow> map (\<lambda>(k, c). (k, disclosed c)) st = rs"

lemma marks_le: "marks st rs \<Longrightarrow>
   (\<forall>(k', c) \<in> set st. k' = k \<longrightarrow> nat (disclosed c) \<le> a) \<longleftrightarrow> (\<forall>(k', r) \<in> set rs. k' = k \<longrightarrow> nat r \<le> a)"
  by (auto simp: marks_def)

lemma shown_marks:
  assumes plan: "planMailboxDisclosures es cs = Inr p" and ok: "\<forall>e \<in> set es. event_ok e"
    and shown: "shown_text (dp_disclosures p) t rs"
  shows "marks (message_cursors (UserMsg t)) rs" "set rs \<subseteq> owed (dp_disclosures p)"
proof -
  have batch: "MailboxDisclosure k' ms \<in> set (dp_disclosures p) \<Longrightarrow> batch_ok (k', ms)" for k' ms
    using plan_disclosure_ok(1) [OF plan ok] by blast
  have row: "(\<lambda>(k, c). (k, disclosed c)) (row_marker k r h) = (k, r)" for k r h by (simp add: row_marker_def)
  from shown have "marks (message_cursors (UserMsg t)) rs \<and> set rs \<subseteq> owed (dp_disclosures p)"
  proof cases
    case (shown_delta bs)
    have b: "\<forall>d \<in> set bs. batch_ok d" using shown_delta(2) batch by fastforce
    have "set rs \<subseteq> owed (dp_disclosures p)" using shown_delta(1,2) unfolding owed_def by fastforce
    moreover have "marks (message_cursors (UserMsg t)) rs"
      unfolding marks_def delta_read_back [OF shown_delta(3) b] shown_delta(1)
      by (induction bs) (auto simp: row_marker_def)
    ultimately show ?thesis by blast
  next
    case (shown_notification k ms cb part)
    have "set rs \<subseteq> owed (dp_disclosures p)" using shown_notification(1,2) unfolding owed_def by auto
    moreover have "message_cursors (UserMsg t) = [row_marker k (messageRowId (last ms)) (list_ex isHighPriorityMailboxEvent ms)]"
      by (rule notification_read_back [OF shown_notification(4) batch [OF shown_notification(2)]]) (use shown_notification(3) in blast)
    ultimately show ?thesis by (simp add: marks_def shown_notification(1) row_marker_def)
  next
    case (shown_backlog b part)
    have "set rs \<subseteq> owed (dp_disclosures p)" using shown_backlog(1,2) unfolding owed_def by auto
    moreover have "backlog_ok b" using plan_disclosure_ok(2) [OF plan ok shown_backlog(2)] by blast
    ultimately show ?thesis using backlog_read_back [OF shown_backlog(3)] by (simp add: marks_def shown_backlog(1) row_marker_def)
  qed
  then show "marks (message_cursors (UserMsg t)) rs" "set rs \<subseteq> owed (dp_disclosures p)" by blast+
qed

lemma plan_texts_disclosed:
  assumes plan: "planMailboxDisclosures es cs = Inr p" and ok: "\<forall>e \<in> set es. event_ok e"
    and shown: "list_all2 (shown_text (dp_disclosures p)) ts rss" and all: "owed (dp_disclosures p) \<subseteq> set (concat rss)"
  shows "att_disclosed (messages_attention (map UserMsg ts) k) =
    (if rows_in k (admitted (cursor_of cs) es) = [] then 0 else nat (cursor_of (dp_cursors p) k))"
proof -
  let ?rows = "rows_in k (admitted (cursor_of cs) es)"
  have texts: "(\<forall>m \<in> set (map UserMsg ts). \<forall>(k', c) \<in> set (message_cursors m). k' = k \<longrightarrow> nat (disclosed c) \<le> a) \<longleftrightarrow>
      (\<forall>(k', r) \<in> set (concat rss). k' = k \<longrightarrow> nat r \<le> a)" for a
    using shown
  proof (induction ts rss rule: list_all2_induct)
    case (Cons t ts rs rss)
    from Cons.IH marks_le [OF shown_marks(1) [OF plan ok Cons.hyps(1)], of k a] show ?case
      by (simp add: ball_Un del: message_cursors.simps)
  qed simp
  have owed: "set (concat rss) = owed (dp_disclosures p)"
  proof
    show "set (concat rss) \<subseteq> owed (dp_disclosures p)"
      using shown by (induction ts rss rule: list_all2_induct) (use shown_marks(2) [OF plan ok] in auto)
  qed (rule all)
  have le: "att_disclosed (messages_attention (map UserMsg ts) k) \<le> a \<longleftrightarrow> (\<forall>r \<in> set ?rows. r \<le> int a)" for a
  proof -
    have "att_disclosed (messages_attention (map UserMsg ts) k) \<le> a \<longleftrightarrow> (\<forall>r. (k, r) \<in> owed (dp_disclosures p) \<longrightarrow> r \<le> int a)"
      unfolding messages_attention_disclosed_le texts owed by (auto simp: nat_le_iff)
    then show ?thesis unfolding owed_le_iff [OF plan ok] .
  qed
  have sorted: "sorted_wrt (<) ?rows" "highest (cursor_of cs k) (rows_in k es) = last (cursor_of cs k # ?rows)"
    using admitted_rows_sorted [of k "cursor_of cs" es] by blast+
  have cur: "cursor_of (dp_cursors p) k = last (cursor_of cs k # ?rows)"
    using planMailboxDisclosures_inv [OF plan] sorted(2) by (simp add: plan_inv_def)
  show ?thesis
  proof (cases "?rows = []")
    case True
    then show ?thesis using le [of 0] by simp
  next
    case False
    let ?l = "last ?rows"
    have "(\<forall>r \<in> set ?rows. r \<le> int a) \<longleftrightarrow> nat ?l \<le> a" for a
      using sorted_last_le [OF sorted(1)] False by (meson last_in_set nat_le_iff order_trans)
    then have "att_disclosed (messages_attention (map UserMsg ts) k) \<le> a \<longleftrightarrow> nat ?l \<le> a" for a using le by simp
    then have "att_disclosed (messages_attention (map UserMsg ts) k) = nat ?l" by (meson order_antisym order_refl)
    with False cur show ?thesis by simp
  qed
qed

text \<open>
  The properties of the path of an event: its urgency, the queue, the plan that decides what is shown, and the
  record that the texts leave in the history.
\<close>

section \<open>Urgency\<close>

fun silent_correction :: "mailbox_message \<Rightarrow> bool" where
  "silent_correction (ChatMessage m) \<longleftrightarrow>
     cm_eventKind m \<noteq> MessageFact \<and> ckind (cm_conversation m) = GroupChat \<and> \<not> cm_mentionedSelf m"
| "silent_correction _ \<longleftrightarrow> False"

text \<open>The three functions that say how urgent a message is disagree on exactly one kind of message: an edit
  or a recall in a group that does not mention the agent is queued as attention and shown with high priority,
  but \<open>isAttentionEvent\<close> does not count it, so it does not wake a waiting loop.\<close>

theorem corrections_do_not_wake:
  "isHighPriorityMailboxEvent m = isChatAttentionEvent m
   \<and> isAttentionEvent (MessageEvent m) = (isChatAttentionEvent m \<and> \<not> silent_correction m)
   \<and> (silent_correction m = (isChatAttentionEvent m \<and> notificationRoutingForEvent (MessageEvent m) = Some (NormalPriority, PassiveDelivery)))"
proof (cases m)
  case (ChatMessage c)
  then show ?thesis by (cases "ckind (cm_conversation c)") (auto simp: isAttentionEvent_def)
qed (auto simp: isAttentionEvent_def)

section \<open>The queue\<close>

text \<open>The events a sequence of actions takes out and puts in.\<close>

fun taken :: "'e event_queue \<Rightarrow> 'e queue_action list \<Rightarrow> 'e list" where
  "taken q [] = []"
| "taken q (a # ops) =
     (case a of Dequeue \<Rightarrow> (case fst (dequeue q) of None \<Rightarrow> [] | Some e \<Rightarrow> [e]) | _ \<Rightarrow> []) @ taken (queue_step a q) ops"

definition offered :: "'e queue_action list \<Rightarrow> 'e list" where
  "offered ops = concat (map (\<lambda>a. case a of Enqueue e \<Rightarrow> [e] | _ \<Rightarrow> []) ops)"

lemma queue_fifo:
  "Clear \<notin> set ops \<Longrightarrow> taken q ops @ eq_events (foldl (\<lambda>q a. queue_step a q) q ops) = eq_events q @ offered ops"
proof (induction ops arbitrary: q)
  case (Cons a ops)
  have "(case a of Dequeue \<Rightarrow> (case fst (dequeue q) of None \<Rightarrow> [] | Some e \<Rightarrow> [e]) | _ \<Rightarrow> []) @ eq_events (queue_step a q) =
      eq_events q @ (case a of Enqueue e \<Rightarrow> [e] | _ \<Rightarrow> [])"
    using Cons.prems
    by (cases a) (auto simp: enqueue_def dequeue_def waitForEvents_def onAbort_def Let_def split: list.splits)
  with Cons show ?case by (simp add: offered_def)
qed (simp add: offered_def)

text \<open>C26. Whatever is done to the queue, a wait that is still pending has no event that would end it (no wake-up
  is lost), every wait is pending or has returned exactly once, and unless the queue is cleared events come out
  in the order they went in, none lost or invented.\<close>

theorem queue_loses_nothing:
  "(\<forall>(n, w) \<in> set (eq_waiters (run_queue ops)). \<not> wait_predicate w (eq_events (run_queue ops)))
   \<and> distinct (map fst (eq_waiters (run_queue ops)) @ eq_resolved (run_queue ops))
   \<and> set (map fst (eq_waiters (run_queue ops)) @ eq_resolved (run_queue ops)) = {..< eq_nextWait (run_queue ops)}
   \<and> (Clear \<notin> set ops \<longrightarrow> taken empty_queue ops @ eq_events (run_queue ops) = offered ops)"
  using queue_inv_run [of ops] queue_fifo [of ops empty_queue]
  unfolding queue_inv_def run_queue_def by (simp add: empty_queue_def)

definition sample_ops :: "nat queue_action list" where
  "sample_ops = [WaitFor (EventWhere (\<lambda>e. e = 2)) False, WaitFor AnyEvent False, Enqueue 1, Dequeue, Enqueue 2, Enqueue 3]"

theorem queue_loses_nothing_witness:
  "eq_resolved (run_queue sample_ops) = [1, 0] \<and> taken empty_queue sample_ops @ eq_events (run_queue sample_ops) = [1, 2, 3]"
proof -
  have "Clear \<notin> set sample_ops" by (simp add: sample_ops_def)
  moreover have "offered sample_ops = [1, 2, 3]" "eq_resolved (run_queue sample_ops) = [1, 0]" by code_simp+
  ultimately show ?thesis using queue_loses_nothing [of sample_ops] by simp
qed

section \<open>The plan\<close>

lemma admitted_nothing:
  "(\<And>k r. r \<in> set (rows_in k es) \<Longrightarrow> r \<le> c k) \<Longrightarrow> e \<in> set (admitted c es) \<Longrightarrow> mailbox_of e = None"
proof (induction es)
  case (Cons x es)
  have sub: "r \<in> set (rows_in k es) \<Longrightarrow> r \<in> set (rows_in k (x # es))" for k r by (auto simp: rows_in_def)
  have x: "row_of x \<le> c k" if "mailbox_of x = Some k" for k using Cons.prems(1) [of "row_of x" k] that by (simp add: rows_in_def)
  from Cons.IH Cons.prems sub x show ?case by (auto split: option.splits if_splits)
qed simp

text \<open>C9. A plan shows, of each mailbox, exactly the events whose row is beyond everything of that mailbox before
  them, messages of a mailbox together and in order, and everything else directly; its cursors are the greatest
  rows seen, so planning the same batch again shows nothing of any mailbox.\<close>

theorem plan_shows_new_rows:
  assumes "planMailboxDisclosures es cs = Inr p"
  shows "mset (disclosed_events (dp_disclosures p)) = mset (admitted (cursor_of cs) es)
    \<and> (\<forall>k ms. MailboxDisclosure k ms \<in> set (dp_disclosures p) \<longrightarrow> ms \<noteq> [] \<and> ms = messages_of k (admitted (cursor_of cs) es))
    \<and> distinct (batch_keys (dp_disclosures p))
    \<and> (\<forall>k. cursor_of (dp_cursors p) k = Max (insert (cursor_of cs k) (set (rows_in k es))))
    \<and> (\<forall>e \<in> set (admitted (cursor_of (dp_cursors p)) es). mailbox_of e = None)"
proof -
  note inv = planMailboxDisclosures_inv [OF assms, unfolded plan_inv_def]
  have ok: "batches_ok (dp_disclosures p)" using inv by blast
  have cur: "cursor_of (dp_cursors p) k = Max (insert (cursor_of cs k) (set (rows_in k es)))" for k
    using inv highest_Max by metis
  have again: "\<forall>e \<in> set (admitted (cursor_of (dp_cursors p)) es). mailbox_of e = None"
    using admitted_nothing [of es "cursor_of (dp_cursors p)"] cur by simp
  have "ms \<noteq> [] \<and> ms = messages_of k (admitted (cursor_of cs) es)"
    if "MailboxDisclosure k ms \<in> set (dp_disclosures p)" for k ms
    using batch_of_mem [OF _ that] ok inv that unfolding batches_ok_def by metis
  then show ?thesis using inv ok cur again unfolding batches_ok_def by blast
qed

definition sample_message :: "int \<Rightarrow> bool \<Rightarrow> mailbox_message" where
  "sample_message row mentioned = NapcatMessage \<lparr>gm_messageRowId = row, gm_groupId = 20002, gm_groupName = None, gm_messageId = 1,
     gm_senderId = 7, gm_senderNickname = js ''ann'', gm_mentionedSelf = mentioned, gm_sentAt = 1700000000000,
     gm_renderedText = js ''hello''\<rparr>"

definition sample_events :: "bot_event list" where
  "sample_events = [MessageEvent (sample_message 5 False), Wake, MessageEvent (sample_message 4 False), MessageEvent (sample_message 6 True)]"

definition sample_plan :: disclosure_plan where
  "sample_plan = \<lparr>dp_disclosures = [MailboxDisclosure (js ''qq_group:20002'') [sample_message 5 False, sample_message 6 True],
       DirectDisclosure Wake], dp_cursors = [(js ''qq_group:20002'', 6)]\<rparr>"

lemma sample_plan_ok: "planMailboxDisclosures sample_events [(js ''qq_group:20002'', 3)] = Inr sample_plan"
proof -
  have "mailbox_of_message (sample_message r b) = Inr (js ''qq_group:20002'')" for r b
    by (simp add: sample_message_def dec_of_int_def dec_of_nat.simps js_def)
  then show ?thesis
    by (simp add: planMailboxDisclosures_def sample_events_def sample_plan_def cursor_of_def obj_put_def sample_message_def)
qed

theorem plan_shows_new_rows_witness:
  "planMailboxDisclosures sample_events [(js ''qq_group:20002'', 3)] = Inr sample_plan
   \<and> cursor_of (dp_cursors sample_plan) (js ''qq_group:20002'') = 6 \<and> distinct (batch_keys (dp_disclosures sample_plan))"
  using plan_shows_new_rows [OF sample_plan_ok] sample_plan_ok by (simp add: sample_plan_def cursor_of_def)

text \<open>What the plan shows is what the history records.  When every batch and backlog of a plan is written into
  the history, as deltas or notifications in any grouping, the attention state captured from the history has each
  mailbox disclosed up to the plan's cursor if the plan showed anything of it, and as before otherwise.\<close>

theorem history_records_plan:
  assumes "planMailboxDisclosures es cs = Inr p" "\<forall>e \<in> set es. event_ok e"
    and "list_all2 (shown_text (dp_disclosures p)) ts rss" "owed (dp_disclosures p) \<subseteq> set (concat rss)"
  shows "att_disclosed (attention_at (captureMailboxAttentionState (ms @ map UserMsg ts)) k) =
    max (att_disclosed (attention_at (captureMailboxAttentionState ms) k))
      (if rows_in k (admitted (cursor_of cs) es) = [] then 0 else nat (cursor_of (dp_cursors p) k))"
  using plan_texts_disclosed [OF assms] by (simp add: capture_attention messages_attention_append sup_disclosed)

lemma sample_notification: "\<exists>t. renderMailboxNotification (js ''qq_group:20002'') [sample_message 5 False, sample_message 6 True] None None = Inr t"
  by (simp add: renderMailboxNotification_def Let_def renderNotificationEnvelope_def safe_int_def max_safe_def del: stringify.simps)

theorem history_records_plan_witness:
  "\<exists>t. renderMailboxNotification (js ''qq_group:20002'') [sample_message 5 False, sample_message 6 True] None None = Inr t
     \<and> att_disclosed (attention_at (captureMailboxAttentionState ([] @ map UserMsg [t])) (js ''qq_group:20002'')) = 6"
proof -
  let ?k = "js ''qq_group:20002''"
  let ?ms = "[sample_message 5 False, sample_message 6 True]"
  obtain t where t: "renderMailboxNotification ?k ?ms None None = Inr t" using sample_notification by blast
  have rows: "messageRowId (sample_message r b) = r" for r b by (simp add: sample_message_def)
  have key: "mailbox_of_message (sample_message r b) = Inr ?k" for r b
    by (simp add: sample_message_def dec_of_int_def dec_of_nat.simps js_def)
  have "is_mailbox_key ?k" by code_simp
  moreover have "message_ok (sample_message r b)" if "0 < r" "r < 10" for r b
    using that by (simp add: sample_message_def max_safe_def safe_int_def)
  ultimately have ok: "\<forall>e \<in> set sample_events. event_ok e" by (simp add: sample_events_def event_ok_def key)
  have "shown_text (dp_disclosures sample_plan) t [(?k, messageRowId (last ?ms))]"
    by (rule shown_notification [OF _ _ t]) (simp_all add: sample_plan_def)
  then have shown: "list_all2 (shown_text (dp_disclosures sample_plan)) [t] [ [(?k, 6)] ]" by (simp add: rows)
  have owed: "owed (dp_disclosures sample_plan) \<subseteq> set (concat [ [(?k, 6)] ])"
    by (auto simp: owed_def sample_plan_def rows)
  have "mailbox_of (MessageEvent (sample_message 5 False)) = Some ?k" by (simp add: mailbox_of_def key)
  then have ne: "rows_in ?k (admitted (cursor_of [(?k, 3)]) sample_events) \<noteq> []"
    by (simp add: sample_events_def rows_in_def cursor_of_def rows)
  have cur: "nat (cursor_of (dp_cursors sample_plan) ?k) = 6" by (simp add: sample_plan_def cursor_of_def)
  have old: "att_disclosed (attention_at (captureMailboxAttentionState []) ?k) = 0"
    by (simp add: capture_attention messages_attention_def bot_disclosed)
  have "att_disclosed (attention_at (captureMailboxAttentionState ([] @ map UserMsg [t])) ?k) = 6"
    unfolding history_records_plan [OF sample_plan_ok ok shown owed, of "[]" ?k] using ne cur old by simp
  with t show ?thesis by blast
qed

end
