(* ===== verification/Iso_Date.thy ===== *)
theory Iso_Date
  imports Js_Date
begin

text \<open>
  Reading ISO timestamps: the pattern of \<open>src/agent/schedule-model.ts\<close>, \<open>Date.parse\<close> on the texts it admits,
  and \<open>formatBeijingIso\<close> of \<open>src/utils/beijing-time.ts\<close>.  What the two renderings print is read back as the
  same instant.
\<close>

section \<open>Days\<close>

definition day_of_civil :: "int \<Rightarrow> int \<Rightarrow> int \<Rightarrow> int" where
  "day_of_civil y m d =
     (let y' = (if m \<le> 2 then y - 1 else y);
          era = y' div 400;
          yoe = y' mod 400;
          mp = (if 2 < m then m - 3 else m + 9);
          doy = (153 * mp + 2) div 5 + d - 1
      in era * 146097 + (yoe * 365 + yoe div 4 - yoe div 100 + doy) - 719468)"

lemma civil_fields:
  fixes day :: int
  obtains era yoe doy mp where "civil_of_day day = (yoe + era * 400 + (if (if mp < 10 then mp + 3 else mp - 9) \<le> 2 then 1 else 0),
      (if mp < 10 then mp + 3 else mp - 9), doy - (153 * mp + 2) div 5 + 1)"
    and "0 \<le> yoe" "yoe < 400" "0 \<le> doy" "doy \<le> 365" "mp = (5 * doy + 2) div 153"
    and "day = era * 146097 + (yoe * 365 + yoe div 4 - yoe div 100 + doy) - 719468"
proof -
  let ?z = "day + 719468"
  define era doe where "era = ?z div 146097" and "doe = ?z mod 146097"
  have doe: "0 \<le> doe" "doe < 146097" "?z = era * 146097 + doe" by (simp_all add: era_def doe_def)
  define century where "century = min 3 (doe div 36524)"
  define doc where "doc = doe - 36524 * century"
  have c: "0 \<le> century" "century \<le> 3" using doe by (auto simp: century_def)
  have doc: "0 \<le> doc" "doc \<le> 36524"
    using doe by (auto simp: doc_def century_def min_def)
  define cycle doq where "cycle = doc div 1461" and "doq = doc mod 1461"
  have q: "0 \<le> cycle" "cycle \<le> 24" "0 \<le> doq" "doq \<le> 1460" "doc = 1461 * cycle + doq"
    using doc by (simp_all add: cycle_def doq_def)
  define yoq doy where "yoq = min 3 (doq div 365)" and "doy = doq - 365 * yoq"
  have y: "0 \<le> yoq" "yoq \<le> 3" "0 \<le> doy" "doy \<le> 365" using q(3,4) by (auto simp: yoq_def doy_def min_def)
  define yoe where "yoe = 100 * century + 4 * cycle + yoq"
  have yoe: "0 \<le> yoe" "yoe < 400" using c q y by (simp_all add: yoe_def)
  have quot: "yoe div 4 = 25 * century + cycle" "yoe div 100 = century"
  proof -
    show "yoe div 4 = 25 * century + cycle"
      using int_div_pos_eq [of yoe 4 "25 * century + cycle" yoq] y by (simp add: yoe_def)
    show "yoe div 100 = century"
      using int_div_pos_eq [of yoe 100 century "4 * cycle + yoq"] q y by (simp add: yoe_def)
  qed
  define mp where "mp = (5 * doy + 2) div 153"
  have "doe = 36524 * century + 1461 * cycle + 365 * yoq + doy" using q(5) by (simp add: doy_def doc_def)
  then have day: "day = era * 146097 + (yoe * 365 + yoe div 4 - yoe div 100 + doy) - 719468"
    using doe(3) by (simp add: quot) (simp add: yoe_def)
  have "civil_of_day day = (yoe + era * 400 + (if (if mp < 10 then mp + 3 else mp - 9) \<le> 2 then 1 else 0),
      (if mp < 10 then mp + 3 else mp - 9), doy - (153 * mp + 2) div 5 + 1)"
    by (simp only: civil_of_day_def Let_def era_def doe_def century_def doc_def cycle_def doq_def yoq_def doy_def yoe_def mp_def)
  then show thesis by (rule that) (use yoe y mp_def day in simp_all)
qed

lemma day_of_civil_of_day: "civil_of_day n = (y, m, d) \<Longrightarrow> day_of_civil y m d = n"
proof -
  assume c: "civil_of_day n = (y, m, d)"
  obtain era yoe doy mp where f: "civil_of_day n = (yoe + era * 400 + (if (if mp < 10 then mp + 3 else mp - 9) \<le> 2 then 1 else 0),
      (if mp < 10 then mp + 3 else mp - 9), doy - (153 * mp + 2) div 5 + 1)"
    "0 \<le> yoe" "yoe < 400" "0 \<le> doy" "doy \<le> 365" "mp = (5 * doy + 2) div 153"
    "n = era * 146097 + (yoe * 365 + yoe div 4 - yoe div 100 + doy) - 719468"
    by (rule civil_fields [of n])
  have mp: "0 \<le> mp" "mp \<le> 11" using f(4,5,6) by auto
  have e: "m = (if mp < 10 then mp + 3 else mp - 9)" "y = yoe + era * 400 + (if m \<le> 2 then 1 else 0)"
    "d = doy - (153 * mp + 2) div 5 + 1" using c f(1) by auto
  have m: "(if 2 < m then m - 3 else m + 9) = mp" using mp by (auto simp: e(1))
  have y: "(if m \<le> 2 then y - 1 else y) = yoe + era * 400" by (simp add: e(2))
  show ?thesis unfolding day_of_civil_def Let_def m y using f(2,3,7) by (simp add: e(3))
qed

lemma civil_ranges:
  assumes "civil_of_day n = (y, m, d)"
  shows "1 \<le> m" "m \<le> 12" "1 \<le> d" "d \<le> 31"
proof -
  obtain era yoe doy mp where f: "civil_of_day n = (yoe + era * 400 + (if (if mp < 10 then mp + 3 else mp - 9) \<le> 2 then 1 else 0),
      (if mp < 10 then mp + 3 else mp - 9), doy - (153 * mp + 2) div 5 + 1)"
    "0 \<le> yoe" "yoe < 400" "0 \<le> doy" "doy \<le> 365" "mp = (5 * doy + 2) div 153"
    by (rule civil_fields [of n])
  have mp: "0 \<le> mp" "mp \<le> 11" using f(4,5,6) by auto
  have e: "m = (if mp < 10 then mp + 3 else mp - 9)" "d = doy - (153 * mp + 2) div 5 + 1" using assms f(1) by auto
  show "1 \<le> m" "m \<le> 12" using mp by (auto simp: e(1))
  have "mp \<in> {0,1,2,3,4,5,6,7,8,9,10,11}" using mp by (simp only: insert_iff empty_iff) presburger
  then show "1 \<le> d" "d \<le> 31" using f(6) by (auto simp: e(2))
qed

section \<open>Fields\<close>

fun take_digits :: "nat \<Rightarrow> jstr \<Rightarrow> (int \<times> jstr) option" where
  "take_digits n s = (if n \<le> length s \<and> (\<forall>c \<in> set (take n s). is_digit c) then Some (int (nat_of_dec (take n s)), drop n s) else None)"

declare take_digits.simps [simp del]

definition take_one :: "nat list \<Rightarrow> jstr \<Rightarrow> jstr option" where
  "take_one cs s = (case s of [] \<Rightarrow> None | c # r \<Rightarrow> if c \<in> set cs then Some r else None)"

record iso_fields =
  if_year :: int
  if_month :: int
  if_day :: int
  if_hour :: int
  if_minute :: int
  if_second :: int
  if_millis :: int
  if_offset :: int

text \<open>The fraction: of its one to nine digits a date keeps the first three.\<close>

definition millis_of :: "jstr \<Rightarrow> int" where
  "millis_of ds = int (nat_of_dec (take 3 (ds @ [48, 48])))"

definition take_fraction :: "jstr \<Rightarrow> (int \<times> jstr) option" where
  "take_fraction s =
     (case take_one [46] s of
        None \<Rightarrow> Some (0, s)
      | Some r \<Rightarrow> (let ds = takeWhile is_digit r in
          if ds = [] \<or> 9 < length ds then None else Some (millis_of ds, dropWhile is_digit r)))"

text \<open>The zone, as minutes to subtract.\<close>

definition take_zone :: "jstr \<Rightarrow> int option" where
  "take_zone s =
     (if s = [90] \<or> s = [122] then Some 0
      else (case s of
          sign # r \<Rightarrow>
            (if sign \<noteq> 43 \<and> sign \<noteq> 45 then None
             else Option.bind (take_digits 2 r) (\<lambda>(h, r). Option.bind (take_one [58] r) (\<lambda>r.
               Option.bind (take_digits 2 r) (\<lambda>(m, r). if r = [] then Some ((if sign = 43 then 1 else -1) * (60 * h + m)) else None))))
        | [] \<Rightarrow> None))"

text \<open>\<open>ISO_TIMESTAMP_PATTERN\<close>.\<close>

definition match_iso :: "jstr \<Rightarrow> iso_fields option" where
  "match_iso s =
     Option.bind (take_digits 4 s) (\<lambda>(y, s). Option.bind (take_one [45] s) (\<lambda>s.
     Option.bind (take_digits 2 s) (\<lambda>(mo, s). Option.bind (take_one [45] s) (\<lambda>s.
     Option.bind (take_digits 2 s) (\<lambda>(d, s). Option.bind (take_one [84, 116] s) (\<lambda>s.
     Option.bind (take_digits 2 s) (\<lambda>(h, s). Option.bind (take_one [58] s) (\<lambda>s.
     Option.bind (take_digits 2 s) (\<lambda>(mi, s). Option.bind (take_one [58] s) (\<lambda>s.
     Option.bind (take_digits 2 s) (\<lambda>(sec, s).
     Option.bind (take_fraction s) (\<lambda>(ms, s). Option.bind (take_zone s) (\<lambda>off.
       Some \<lparr>if_year = y, if_month = mo, if_day = d, if_hour = h, if_minute = mi, if_second = sec,
             if_millis = ms, if_offset = off\<rparr>)))))))))))))"

text \<open>The last day of a month: \<open>new Date(Date.UTC(year, month, 0)).getUTCDate()\<close>.\<close>

definition days_in_month :: "int \<Rightarrow> int \<Rightarrow> int" where
  "days_in_month y m = (let next = (if m = 12 then day_of_civil (y + 1) 1 1 else day_of_civil y (m + 1) 1)
     in next - day_of_civil y m 1)"

definition fields_ms :: "iso_fields \<Rightarrow> int" where
  "fields_ms f = day_of_civil (if_year f) (if_month f) (if_day f) * day_ms
     + if_hour f * 3600000 + if_minute f * 60000 + if_second f * 1000 + if_millis f - if_offset f * 60000"

text \<open>\<open>Date.parse\<close> on a text of the pattern: \<open>None\<close> is an invalid date.\<close>

definition fields_valid :: "iso_fields \<Rightarrow> bool" where
  "fields_valid f \<longleftrightarrow> 1 \<le> if_month f \<and> if_month f \<le> 12 \<and> 1 \<le> if_day f \<and> if_day f \<le> 31
     \<and> (if_hour f \<le> 23 \<or> if_hour f = 24 \<and> if_minute f = 0 \<and> if_second f = 0 \<and> if_millis f = 0)
     \<and> if_minute f \<le> 59 \<and> if_second f \<le> 59 \<and> \<bar>if_offset f\<bar> < 1440"

definition date_parse :: "jstr \<Rightarrow> int option" where
  "date_parse s = (case match_iso s of None \<Rightarrow> None | Some f \<Rightarrow> if fields_valid f then Some (fields_ms f) else None)"

text \<open>The source formats in the zone Asia/Shanghai and writes the offset +08:00, which is the zone's but for the daylight saving
  time of 1986 to 1991 (and the years before 1949): instants in those months are outside the model.\<close>

definition formatBeijingIso :: "int \<Rightarrow> jstr" where
  "formatBeijingIso ms = iso_date (ms + beijing_shift) @ [84] @ iso_minutes (ms + beijing_shift) @ [58]
     @ iso_seconds (ms + beijing_shift) @ js ''+08:00''"

section \<open>Round trips\<close>

lemma nat_of_dec_zeros: "nat_of_dec (replicate k 48 @ s) = nat_of_dec s"
  by (induction k) (simp_all add: nat_of_dec_def)

lemma dec_length: "n < 10 ^ w \<Longrightarrow> 0 < w \<Longrightarrow> length (dec_of_nat n) \<le> w"
proof (induction w arbitrary: n)
  case (Suc w)
  show ?case
  proof (cases "n < 10")
    case True
    then show ?thesis by (simp add: dec_of_nat.simps [of n])
  next
    case False
    then have "0 < w" using Suc.prems by (cases w) auto
    moreover have "n div 10 < 10 ^ w" using Suc.prems by (simp add: less_mult_imp_div_less mult.commute)
    ultimately have "length (dec_of_nat (n div 10)) \<le> w" by (rule Suc.IH [rotated])
    with False show ?thesis by (simp add: dec_of_nat.simps [of n])
  qed
qed simp

lemma pad_left_digits:
  assumes "0 \<le> i" "i < 10 ^ w" "0 < w"
  shows "length (pad_left w (dec_of_int i)) = w" "\<forall>c \<in> set (pad_left w (dec_of_int i)). is_digit c"
    "nat_of_dec (pad_left w (dec_of_int i)) = nat i"
proof -
  have d: "dec_of_int i = dec_of_nat (nat i)" using assms(1) by (simp add: dec_of_int_def)
  have "nat i < 10 ^ w" using assms(1,2) by (simp add: nat_less_iff)
  then have "length (dec_of_nat (nat i)) \<le> w" using assms(3) by (rule dec_length)
  then show "length (pad_left w (dec_of_int i)) = w" by (simp add: pad_left_def d)
  show "\<forall>c \<in> set (pad_left w (dec_of_int i)). is_digit c"
    using dec_of_nat_digits by (auto simp: pad_left_def d is_digit_def)
  show "nat_of_dec (pad_left w (dec_of_int i)) = nat i" by (simp add: pad_left_def d nat_of_dec_zeros)
qed

lemma take_digits_pad:
  assumes "0 \<le> i" "i < 10 ^ w" "0 < w"
  shows "take_digits w (pad_left w (dec_of_int i) @ s) = Some (i, s)"
  using pad_left_digits [OF assms] assms(1) by (simp add: take_digits.simps)

lemma take_two: "0 \<le> i \<Longrightarrow> i < 100 \<Longrightarrow> take_digits 2 (two_digits i @ s) = Some (i, s)"
  unfolding two_digits_def by (rule take_digits_pad) simp_all

lemma take_one_Cons [simp]: "c \<in> set cs \<Longrightarrow> take_one cs (c # s) = Some s"
  by (simp add: take_one_def)

lemma take_fraction_millis:
  assumes "0 \<le> i" "i < 1000" "\<And>c r. s = c # r \<Longrightarrow> \<not> is_digit c"
  shows "take_fraction (46 # pad_left 3 (dec_of_int i) @ s) = Some (i, s)"
proof -
  let ?p = "pad_left 3 (dec_of_int i)"
  have p: "length ?p = 3" "\<forall>c \<in> set ?p. is_digit c" "nat_of_dec ?p = nat i" using pad_left_digits [of i 3] assms by simp_all
  have s: "takeWhile is_digit s = []" "dropWhile is_digit s = s" using assms(3) by (cases s; simp)+
  have "takeWhile is_digit (?p @ s) = ?p" "dropWhile is_digit (?p @ s) = s"
    using p(2) s by (simp_all add: takeWhile_append2 dropWhile_append2)
  moreover have "millis_of ?p = i" using p(1,3) assms(1) by (simp add: millis_of_def)
  moreover have "?p \<noteq> []" using p(1) by auto
  ultimately show ?thesis using p(1) by (simp add: take_fraction_def Let_def)
qed

text \<open>Any text put together from the three pieces of a rendered time and a zone.\<close>

lemma match_rendered:
  assumes y: "civil_of_day (t div day_ms) = (y, m, d)" "0 \<le> y" "y \<le> 9999"
    and z: "take_zone z = Some off" "\<And>c r. z = c # r \<Longrightarrow> \<not> is_digit c"
  shows "match_iso (iso_date t @ [84] @ iso_minutes t @ [58] @ iso_seconds t @ z) =
    Some \<lparr>if_year = y, if_month = m, if_day = d, if_hour = t mod day_ms div 3600000, if_minute = t mod day_ms div 60000 mod 60,
      if_second = t mod day_ms div 1000 mod 60, if_millis = t mod day_ms mod 1000, if_offset = off\<rparr>"
proof -
  note r = civil_ranges [OF y(1)]
  have "0 \<le> t mod day_ms" "t mod day_ms < 86400000" by (simp_all add: day_ms_def)
  then have h: "0 \<le> t mod day_ms div 3600000" "t mod day_ms div 3600000 < 100" by auto
  have yr: "take_digits 4 (year_str y @ s) = Some (y, s)" for s
    using take_digits_pad [of y 4 s] y(2,3) by (simp add: year_str_def)
  show ?thesis
    using r h by (simp add: match_iso_def iso_date_def y(1) iso_minutes_def iso_seconds_def Let_def yr take_two
        take_fraction_millis z)
qed

lemma fields_time: "t mod day_ms div 3600000 * 3600000 + t mod day_ms div 60000 mod 60 * 60000
    + t mod day_ms div 1000 mod 60 * 1000 + t mod day_ms mod 1000 = t mod day_ms"
proof -
  let ?t = "t mod day_ms"
  have a: "?t div 1000 * 1000 + ?t mod 1000 = ?t" by simp
  have b: "?t div 1000 div 60 * 60 + ?t div 1000 mod 60 = ?t div 1000" by simp
  have c: "?t div 60000 div 60 * 60 + ?t div 60000 mod 60 = ?t div 60000" by simp
  have "?t div 1000 div 60 = ?t div 60000" "?t div 60000 div 60 = ?t div 3600000"
    by (simp_all flip: zdiv_zmult2_eq)
  with a b c show ?thesis by linarith
qed

lemma rendered_valid:
  assumes "civil_of_day (t div day_ms) = (y, m, d)" "\<bar>off\<bar> < 1440"
  defines "f \<equiv> \<lparr>if_year = y, if_month = m, if_day = d, if_hour = t mod day_ms div 3600000,
      if_minute = t mod day_ms div 60000 mod 60, if_second = t mod day_ms div 1000 mod 60, if_millis = t mod day_ms mod 1000,
      if_offset = off\<rparr>"
  shows "fields_valid f" "fields_ms f = t - off * 60000"
proof -
  have "0 \<le> t mod day_ms" "t mod day_ms < 86400000" by (simp_all add: day_ms_def)
  then have h: "t mod day_ms div 3600000 \<le> 23" by auto
  moreover have "x mod 60 \<le> 59" for x :: int using pos_mod_bound [of 60 x] by linarith
  ultimately show "fields_valid f" using civil_ranges [OF assms(1)] assms(2) by (simp add: fields_valid_def f_def)
  have "t div day_ms * day_ms + t mod day_ms = t" by (rule div_mult_mod_eq)
  moreover have "fields_ms f = t div day_ms * day_ms + t mod day_ms div 3600000 * 3600000 + t mod day_ms div 60000 mod 60 * 60000
      + t mod day_ms div 1000 mod 60 * 1000 + t mod day_ms mod 1000 - off * 60000"
    by (simp only: fields_ms_def f_def iso_fields.simps day_of_civil_of_day [OF assms(1)])
  ultimately show "fields_ms f = t - off * 60000" using fields_time [of t] by linarith
qed

definition printable_time :: "int \<Rightarrow> bool" where
  "printable_time t \<longleftrightarrow> (case civil_of_day (t div day_ms) of (y, m, d) \<Rightarrow> 0 \<le> y \<and> y \<le> 9999)"

lemma date_parse_rendered:
  assumes "printable_time t" "take_zone z = Some off" "\<And>c r. z = c # r \<Longrightarrow> \<not> is_digit c" "\<bar>off\<bar> < 1440"
  shows "date_parse (iso_date t @ [84] @ iso_minutes t @ [58] @ iso_seconds t @ z) = Some (t - off * 60000)"
proof -
  obtain y m d where c: "civil_of_day (t div day_ms) = (y, m, d)" by (metis prod_cases3)
  then have "0 \<le> y" "y \<le> 9999" using assms(1) by (simp_all add: printable_time_def)
  note y = this
  let ?f = "\<lparr>if_year = y, if_month = m, if_day = d, if_hour = t mod day_ms div 3600000, if_minute = t mod day_ms div 60000 mod 60,
      if_second = t mod day_ms div 1000 mod 60, if_millis = t mod day_ms mod 1000, if_offset = off\<rparr>"
  have "match_iso (iso_date t @ [84] @ iso_minutes t @ [58] @ iso_seconds t @ z) = Some ?f"
    by (rule match_rendered [OF c y assms(2)]) (erule assms(3))
  then show ?thesis using rendered_valid [OF c assms(4)] by (simp only: date_parse_def option.case if_True)
qed

lemma date_parse_iso_string:
  assumes "printable_time t"
  shows "date_parse (to_iso_string t) = Some t"
proof -
  have z: "take_zone [90] = Some 0" by (simp add: take_zone_def)
  have nd: "[90] = c # r \<Longrightarrow> \<not> is_digit c" for c r by (auto simp: is_digit_def)
  have "date_parse (iso_date t @ [84] @ iso_minutes t @ [58] @ iso_seconds t @ [90]) = Some (t - 0 * 60000)"
    by (rule date_parse_rendered [OF assms z]) (erule nd, simp)
  then show ?thesis unfolding to_iso_string_def by (simp only: mult_zero_left diff_zero)
qed

lemma date_parse_beijing: "printable_time (t + beijing_shift) \<Longrightarrow> date_parse (formatBeijingIso t) = Some t"
proof -
  have z: "take_zone (js ''+08:00'') = Some 480" by code_simp
  have nd: "js ''+08:00'' = c # r \<Longrightarrow> \<not> is_digit c" for c r by (auto simp: js_def is_digit_def)
  assume p: "printable_time (t + beijing_shift)"
  have "date_parse (iso_date (t + beijing_shift) @ [84] @ iso_minutes (t + beijing_shift) @ [58] @ iso_seconds (t + beijing_shift)
      @ js ''+08:00'') = Some (t + beijing_shift - 480 * 60000)"
    by (rule date_parse_rendered [OF p z]) (erule nd, simp)
  moreover have "t + beijing_shift - 480 * 60000 = t" by (simp add: beijing_shift_def)
  ultimately show ?thesis unfolding formatBeijingIso_def by (simp only:)
qed

end
