(* ===== verification/Background_Tasks.thy ===== *)
theory Background_Tasks
  imports Iso_Date Js_Json
begin

text \<open>
  \<open>src/agent/background-task-registry.ts\<close>: the tasks the agent has started and not awaited, and the file they
  survive a restart in.  The file is written to a temporary name and renamed, so a write replaces it or leaves
  it alone; whether a write succeeds is an argument of the operations (\<open>written\<close>).  What the file holds is the
  stored tasks; printing and parsing that JSON is not modelled again.
\<close>

section \<open>Tasks\<close>

datatype task_status = Running | Completed | Failed | Interrupted | Cancelled

record bg_task =
  bt_id :: jstr
  bt_toolName :: jstr
  bt_description :: jstr
  bt_startedAt :: int
  bt_updatedAt :: int
  bt_completedAt :: "int option"
  bt_status :: task_status
  bt_attempt :: int
  bt_resultSummary :: "jstr option"
  bt_resultData :: "jv option"
  bt_error :: "jstr option"
  bt_recovery :: "(jstr \<times> jv) option"
  bt_restoredFromDisk :: bool

record stored_task =
  st_id :: jstr
  st_toolName :: jstr
  st_description :: jstr
  st_startedAt :: jstr
  st_updatedAt :: jstr
  st_completedAt :: "jstr option"
  st_status :: task_status
  st_attempt :: int
  st_resultSummary :: "jstr option"
  st_resultData :: "jv option"
  st_error :: "jstr option"
  st_recovery :: "(jstr \<times> jv) option"

record registry_options =
  ro_completedTtlMs :: int
  ro_recentLimit :: int
  ro_maxActiveTasks :: int

definition default_options :: registry_options where
  "default_options = \<lparr>ro_completedTtlMs = 7 * 24 * 60 * 60 * 1000, ro_recentLimit = 20, ro_maxActiveTasks = 8\<rparr>"

record task_registry =
  tr_tasks :: "bg_task list"
  tr_disk :: "stored_task list option"

text \<open>\<open>IdsExhausted\<close> stands for the loop that asks the factory for another id going on; \<open>LostTask\<close> is the
  property access on a task that is no longer there.\<close>

datatype task_error =
    AdmissionLimit int nat
  | PersistFailed
  | InvalidMaxActive int
  | InvalidTimestamp jstr
  | IdsExhausted
  | LostTask

section \<open>The file\<close>

definition store_task :: "bg_task \<Rightarrow> stored_task" where
  "store_task t = \<lparr>st_id = bt_id t, st_toolName = bt_toolName t, st_description = bt_description t,
     st_startedAt = formatBeijingIso (bt_startedAt t), st_updatedAt = formatBeijingIso (bt_updatedAt t),
     st_completedAt = map_option formatBeijingIso (bt_completedAt t), st_status = bt_status t, st_attempt = bt_attempt t,
     st_resultSummary = bt_resultSummary t, st_resultData = bt_resultData t, st_error = bt_error t,
     st_recovery = bt_recovery t\<rparr>"

definition persistTasks :: "bool \<Rightarrow> task_registry \<Rightarrow> (task_error + unit) \<times> task_registry" where
  "persistTasks written r =
     (if written then (Inr (), r\<lparr>tr_disk := Some (map store_task (tr_tasks r))\<rparr>) else (Inl PersistFailed, r))"

definition parseStoredDate :: "jstr \<Rightarrow> task_error + int" where
  "parseStoredDate s = (case date_parse s of None \<Rightarrow> Inl (InvalidTimestamp s) | Some t \<Rightarrow> Inr t)"

definition load_task :: "stored_task \<Rightarrow> task_error + bg_task" where
  "load_task s =
     bindE (parseStoredDate (st_startedAt s)) (\<lambda>started.
     bindE (parseStoredDate (st_updatedAt s)) (\<lambda>updated.
     bindE (case st_completedAt s of None \<Rightarrow> Inr None | Some c \<Rightarrow>
              if c = [] then Inr None else bindE (parseStoredDate c) (\<lambda>t. Inr (Some t))) (\<lambda>completed.
       Inr \<lparr>bt_id = st_id s, bt_toolName = st_toolName s, bt_description = st_description s, bt_startedAt = started,
            bt_updatedAt = updated, bt_completedAt = completed, bt_status = st_status s, bt_attempt = st_attempt s,
            bt_resultSummary = st_resultSummary s, bt_resultData = st_resultData s, bt_error = st_error s,
            bt_recovery = st_recovery s, bt_restoredFromDisk = True\<rparr>)))"

definition loadTasks :: "stored_task list option \<Rightarrow> task_error + bg_task list" where
  "loadTasks file = (case file of None \<Rightarrow> Inr [] | Some ts \<Rightarrow> mapE load_task ts)"

section \<open>The registry\<close>

text \<open>\<open>Map.prototype.set\<close>: the task of an id keeps its place.\<close>

fun task_put :: "bg_task \<Rightarrow> bg_task list \<Rightarrow> bg_task list" where
  "task_put t [] = [t]"
| "task_put t (u # us) = (if bt_id u = bt_id t then t # us else u # task_put t us)"

definition task_get :: "jstr \<Rightarrow> bg_task list \<Rightarrow> bg_task option" where
  "task_get i ts = find (\<lambda>t. bt_id t = i) ts"

definition createTaskRegistry :: "registry_options \<Rightarrow> bg_task list \<Rightarrow> stored_task list option \<Rightarrow> task_error + task_registry" where
  "createTaskRegistry opts initial disk =
     (if \<not> safe_int (ro_maxActiveTasks opts) \<or> ro_maxActiveTasks opts \<le> 0 then Inl (InvalidMaxActive (ro_maxActiveTasks opts))
      else Inr \<lparr>tr_tasks = foldl (\<lambda>ts t. task_put t ts) [] initial, tr_disk = disk\<rparr>)"

definition expired :: "registry_options \<Rightarrow> int \<Rightarrow> bg_task \<Rightarrow> bool" where
  "expired opts now t \<longleftrightarrow> bt_status t \<noteq> Running
     \<and> (case bt_completedAt t of None \<Rightarrow> False | Some c \<Rightarrow> ro_completedTtlMs opts < now - c)"

definition cleanup :: "registry_options \<Rightarrow> int \<Rightarrow> bg_task list \<Rightarrow> bg_task list" where
  "cleanup opts now ts = filter (\<lambda>t. \<not> expired opts now t) ts"

definition running_tasks :: "bg_task list \<Rightarrow> bg_task list" where
  "running_tasks ts = filter (\<lambda>t. bt_status t = Running) ts"

definition register ::
  "registry_options \<Rightarrow> int \<Rightarrow> bool \<Rightarrow> jstr list \<Rightarrow> jstr \<Rightarrow> jstr \<Rightarrow> task_registry \<Rightarrow> (task_error + bg_task) \<times> task_registry" where
  "register opts now written ids toolName description r =
     (let r = r\<lparr>tr_tasks := cleanup opts now (tr_tasks r)\<rparr>;
          active = length (running_tasks (tr_tasks r))
      in if ro_maxActiveTasks opts \<le> int active then (Inl (AdmissionLimit (ro_maxActiveTasks opts) active), r)
         else (case find (\<lambda>i. task_get i (tr_tasks r) = None) ids of
                 None \<Rightarrow> (Inl IdsExhausted, r)
               | Some i \<Rightarrow>
                   (let t = \<lparr>bt_id = i, bt_toolName = toolName, bt_description = description, bt_startedAt = now,
                             bt_updatedAt = now, bt_completedAt = None, bt_status = Running, bt_attempt = 1,
                             bt_resultSummary = None, bt_resultData = None, bt_error = None, bt_recovery = None,
                             bt_restoredFromDisk = False\<rparr>;
                        (res, r') = persistTasks written (r\<lparr>tr_tasks := task_put t (tr_tasks r)\<rparr>)
                    in (bindE res (\<lambda>_. Inr t), r'))))"

definition transitionTerminal ::
  "registry_options \<Rightarrow> int \<Rightarrow> bool \<Rightarrow> jstr \<Rightarrow> task_status \<Rightarrow> (bg_task \<Rightarrow> bg_task) \<Rightarrow> task_registry
    \<Rightarrow> (task_error + bool) \<times> task_registry" where
  "transitionTerminal opts now written i status update r =
     (case task_get i (tr_tasks r) of
        None \<Rightarrow> (Inr False, r)
      | Some t \<Rightarrow>
          if bt_status t \<noteq> Running then (Inr False, r)
          else let t' = update (t\<lparr>bt_status := status, bt_updatedAt := now, bt_completedAt := Some now\<rparr>);
                   (res, r') = persistTasks written (r\<lparr>tr_tasks := cleanup opts now (task_put t' (tr_tasks r))\<rparr>)
               in (bindE res (\<lambda>_. Inr True), r'))"

text \<open>The log line of a finished task reads it back from the map.\<close>

definition log_finished :: "jstr \<Rightarrow> (task_error + bool) \<times> task_registry \<Rightarrow> (task_error + unit) \<times> task_registry" where
  "log_finished i = (\<lambda>(res, r). (bindE res (\<lambda>changed.
     if changed \<and> task_get i (tr_tasks r) = None then Inl LostTask else Inr ()), r))"

definition complete ::
  "registry_options \<Rightarrow> int \<Rightarrow> bool \<Rightarrow> jstr \<Rightarrow> jstr \<Rightarrow> jv option \<Rightarrow> task_registry \<Rightarrow> (task_error + unit) \<times> task_registry" where
  "complete opts now written i summary data r =
     log_finished i (transitionTerminal opts now written i Completed
       (\<lambda>t. t\<lparr>bt_resultSummary := Some summary, bt_resultData := data\<rparr>) r)"

definition fail :: "registry_options \<Rightarrow> int \<Rightarrow> bool \<Rightarrow> jstr \<Rightarrow> jstr \<Rightarrow> task_registry \<Rightarrow> (task_error + unit) \<times> task_registry" where
  "fail opts now written i err r =
     log_finished i (transitionTerminal opts now written i Failed (\<lambda>t. t\<lparr>bt_error := Some err\<rparr>) r)"

definition cancel :: "registry_options \<Rightarrow> int \<Rightarrow> bool \<Rightarrow> jstr \<Rightarrow> jstr option \<Rightarrow> task_registry \<Rightarrow> (task_error + bool) \<times> task_registry" where
  "cancel opts now written i reason r =
     transitionTerminal opts now written i Cancelled
       (\<lambda>t. t\<lparr>bt_error := Some (case reason of None \<Rightarrow> js ''cancelled_by_user'' | Some x \<Rightarrow> x)\<rparr>) r"

definition listRunning :: "task_registry \<Rightarrow> bg_task list" where
  "listRunning r = sort_key bt_startedAt (running_tasks (tr_tasks r))"

text \<open>\<open>slice(0, n)\<close>: a negative end counts from the end of the list.\<close>

definition slice_to :: "int \<Rightarrow> 'a list \<Rightarrow> 'a list" where
  "slice_to n xs = take (nat (if n < 0 then int (length xs) + n else n)) xs"

definition listRecent :: "registry_options \<Rightarrow> int \<Rightarrow> bool \<Rightarrow> task_registry \<Rightarrow> (task_error + bg_task list) \<times> task_registry" where
  "listRecent opts now written r =
     (let kept = cleanup opts now (tr_tasks r);
          r' = r\<lparr>tr_tasks := kept\<rparr>;
          (res, r'') = (if length kept = length (tr_tasks r) then (Inr (), r') else persistTasks written r')
      in (bindE res (\<lambda>_. Inr (slice_to (ro_recentLimit opts)
            (sort_key (\<lambda>t. - (case bt_completedAt t of None \<Rightarrow> 0 | Some c \<Rightarrow> c))
              (filter (\<lambda>t. bt_status t \<noteq> Running) (tr_tasks r''))))), r''))"

section \<open>Restart\<close>

definition interrupt_task :: "int \<Rightarrow> bg_task \<Rightarrow> bg_task" where
  "interrupt_task now t =
     (if bt_status t = Running
      then t\<lparr>bt_status := Interrupted, bt_updatedAt := now, bt_completedAt := Some now,
             bt_error := Some (js ''process_restarted_before_completion'')\<rparr>
      else t)"

text \<open>The registry after a restart and the tasks that were interrupted.\<close>

definition createPersistentTaskRegistry ::
  "registry_options \<Rightarrow> int \<Rightarrow> bool \<Rightarrow> stored_task list option \<Rightarrow> task_error + task_registry \<times> bg_task list" where
  "createPersistentTaskRegistry opts now written file =
     bindE (loadTasks file) (\<lambda>tasks.
       let initial = map (interrupt_task now) tasks;
           interrupted = map (interrupt_task now) (running_tasks tasks)
       in bindE (createTaskRegistry opts initial file) (\<lambda>r.
            if interrupted = [] then Inr (r, [])
            else (case persistTasks written r of
                    (Inl e, _) \<Rightarrow> Inl e
                  | (Inr _, r') \<Rightarrow> Inr (r', interrupted))))"

definition createInMemoryTaskRegistry :: "registry_options \<Rightarrow> task_error + task_registry" where
  "createInMemoryTaskRegistry opts = createTaskRegistry opts [] None"

section \<open>Steps\<close>

inductive task_step :: "registry_options \<Rightarrow> int \<Rightarrow> task_registry \<Rightarrow> task_registry \<Rightarrow> bool" for opts now where
  step_register: "task_step opts now r (snd (register opts now written ids toolName description r))"
| step_complete: "task_step opts now r (snd (complete opts now written i summary data r))"
| step_fail: "task_step opts now r (snd (fail opts now written i err r))"
| step_cancel: "task_step opts now r (snd (cancel opts now written i reason r))"
| step_list: "task_step opts now r (snd (listRecent opts now written r))"

text \<open>States a registry can be in, with the times of the operations; a restart reads the file.\<close>

inductive task_reachable :: "registry_options \<Rightarrow> task_registry \<Rightarrow> bool" for opts where
  task_start: "createPersistentTaskRegistry opts now written None = Inr (r, interrupted) \<Longrightarrow> task_reachable opts r"
| task_operation: "task_reachable opts r \<Longrightarrow> printable_time (now + beijing_shift) \<Longrightarrow> task_step opts now r r' \<Longrightarrow> task_reachable opts r'"
| task_restart: "task_reachable opts r \<Longrightarrow> printable_time (now + beijing_shift) \<Longrightarrow>
    createPersistentTaskRegistry opts now written (tr_disk r) = Inr (r', interrupted) \<Longrightarrow> task_reachable opts r'"

text \<open>
  What the registry of background tasks guarantees: unique ids, the limit on running tasks, final states that
  never change, and what a restart restores; and what it does not: a registration whose write fails.
\<close>

section \<open>The invariant\<close>

definition task_ok :: "bg_task \<Rightarrow> bool" where
  "task_ok t \<longleftrightarrow> printable_time (bt_startedAt t + beijing_shift) \<and> printable_time (bt_updatedAt t + beijing_shift)
     \<and> (\<forall>c. bt_completedAt t = Some c \<longrightarrow> printable_time (c + beijing_shift))
     \<and> (bt_status t \<noteq> Running \<longleftrightarrow> bt_completedAt t \<noteq> None)"

definition tasks_ok :: "registry_options \<Rightarrow> bg_task list \<Rightarrow> bool" where
  "tasks_ok opts ts \<longleftrightarrow> distinct (map bt_id ts) \<and> (\<forall>t \<in> set ts. task_ok t)
     \<and> int (length (running_tasks ts)) \<le> ro_maxActiveTasks opts"

definition registry_inv :: "registry_options \<Rightarrow> task_registry \<Rightarrow> bool" where
  "registry_inv opts r \<longleftrightarrow> tasks_ok opts (tr_tasks r)
     \<and> (\<forall>ts. tr_disk r = Some ts \<longrightarrow> (\<exists>us. ts = map store_task us \<and> tasks_ok opts us))"

lemma task_get_Some: "task_get i ts = Some t \<Longrightarrow> t \<in> set ts \<and> bt_id t = i"
  by (auto simp: task_get_def find_Some_iff)

lemma task_get_None: "task_get i ts = None \<longleftrightarrow> i \<notin> bt_id ` set ts"
  by (auto simp: task_get_def find_None_iff)

lemma task_put_new: "bt_id t \<notin> bt_id ` set ts \<Longrightarrow> task_put t ts = ts @ [t]"
  by (induction ts) auto

lemma task_put_ids: "bt_id t \<in> bt_id ` set ts \<Longrightarrow> map bt_id (task_put t ts) = map bt_id ts"
  by (induction ts) auto

lemma task_put_mem: "u \<in> set (task_put t ts) \<Longrightarrow> u = t \<or> u \<in> set ts"
  by (induction ts) (auto split: if_splits)

lemma task_put_keeps: "u \<in> set ts \<Longrightarrow> bt_id u \<noteq> bt_id t \<Longrightarrow> u \<in> set (task_put t ts)"
  by (induction ts) auto

lemma running_cleanup [simp]: "running_tasks (cleanup opts now ts) = running_tasks ts"
  by (auto simp: running_tasks_def cleanup_def expired_def intro!: filter_cong)

lemma tasks_ok_cleanup: "tasks_ok opts ts \<Longrightarrow> tasks_ok opts (cleanup opts now ts)"
  by (auto simp: tasks_ok_def) (auto simp: cleanup_def distinct_map_filter)

lemma running_task_put_finished:
  "distinct (map bt_id ts) \<Longrightarrow> bt_status t \<noteq> Running \<Longrightarrow> length (running_tasks (task_put t ts)) \<le> length (running_tasks ts)"
  by (induction ts) (auto simp: running_tasks_def)

lemma tasks_ok_finish:
  assumes ok: "tasks_ok opts ts" and t: "bt_id t \<in> bt_id ` set ts" "bt_status t \<noteq> Running" "task_ok t"
  shows "tasks_ok opts (task_put t ts)"
proof -
  have "distinct (map bt_id (task_put t ts))" using ok task_put_ids [OF t(1)] by (simp add: tasks_ok_def)
  moreover have "length (running_tasks (task_put t ts)) \<le> length (running_tasks ts)"
    using ok t(2) by (intro running_task_put_finished) (simp_all add: tasks_ok_def)
  ultimately show ?thesis using ok t(3) task_put_mem unfolding tasks_ok_def by fastforce
qed

lemma persist_inv:
  assumes "tasks_ok opts (tr_tasks r)" "registry_inv opts r0" "tr_disk r = tr_disk r0"
  shows "registry_inv opts (snd (persistTasks written r))"
  using assms by (auto simp: persistTasks_def registry_inv_def)

lemma register_inv:
  assumes inv: "registry_inv opts r" and now: "printable_time (now + beijing_shift)"
  shows "registry_inv opts (snd (register opts now written ids n d r))"
proof -
  let ?r = "r\<lparr>tr_tasks := cleanup opts now (tr_tasks r)\<rparr>"
  have ok: "tasks_ok opts (tr_tasks ?r)" using inv tasks_ok_cleanup by (simp add: registry_inv_def)
  have inv': "registry_inv opts ?r" using inv ok by (simp add: registry_inv_def)
  show ?thesis
  proof (cases "ro_maxActiveTasks opts \<le> int (length (running_tasks (tr_tasks ?r)))
      \<or> find (\<lambda>i. task_get i (tr_tasks ?r) = None) ids = None")
    case True
    then show ?thesis using inv' by (auto simp: register_def Let_def)
  next
    case False
    then obtain i where i: "find (\<lambda>i. task_get i (tr_tasks ?r) = None) ids = Some i" by auto
    then have fresh: "i \<notin> bt_id ` set (tr_tasks ?r)" by (auto simp: find_Some_iff task_get_None)
    let ?t = "\<lparr>bt_id = i, bt_toolName = n, bt_description = d, bt_startedAt = now, bt_updatedAt = now, bt_completedAt = None,
        bt_status = Running, bt_attempt = 1, bt_resultSummary = None, bt_resultData = None, bt_error = None, bt_recovery = None,
        bt_restoredFromDisk = False\<rparr>"
    have put: "task_put ?t (tr_tasks ?r) = tr_tasks ?r @ [?t]" by (rule task_put_new) (use fresh in simp)
    have "tasks_ok opts (tr_tasks ?r @ [?t])"
      using ok False fresh now by (auto simp: tasks_ok_def task_ok_def running_tasks_def)
    then have "registry_inv opts (snd (persistTasks written (?r\<lparr>tr_tasks := task_put ?t (tr_tasks ?r)\<rparr>)))"
      unfolding put by (intro persist_inv [OF _ inv]) simp_all
    moreover have "snd (register opts now written ids n d r) = snd (persistTasks written (?r\<lparr>tr_tasks := task_put ?t (tr_tasks ?r)\<rparr>))"
      using False i by (simp add: register_def Let_def split: prod.splits)
    ultimately show ?thesis by simp
  qed
qed

lemma transition_cases:
  obtains (ignored) "transitionTerminal opts now written i s f r = (Inr False, r)"
  | (changed) t where "task_get i (tr_tasks r) = Some t" "bt_status t = Running"
      "snd (transitionTerminal opts now written i s f r) = snd (persistTasks written
        (r\<lparr>tr_tasks := cleanup opts now (task_put (f (t\<lparr>bt_status := s, bt_updatedAt := now, bt_completedAt := Some now\<rparr>)) (tr_tasks r))\<rparr>))"
proof (cases "task_get i (tr_tasks r)")
  case None
  then show ?thesis using ignored by (simp add: transitionTerminal_def)
next
  case (Some t)
  then show ?thesis using ignored changed
    by (cases "bt_status t = Running") (simp_all add: transitionTerminal_def Let_def split: prod.splits)
qed

lemma transition_inv:
  assumes inv: "registry_inv opts r" and now: "printable_time (now + beijing_shift)" and s: "s \<noteq> Running"
    and f: "\<And>t. task_ok (f t) = task_ok t" "\<And>t. bt_id (f t) = bt_id t" "\<And>t. bt_status (f t) = bt_status t"
  shows "registry_inv opts (snd (transitionTerminal opts now written i s f r))"
proof (cases rule: transition_cases [of opts now written i s f r])
  case ignored
  then show ?thesis using inv by simp
next
  case (changed t)
  let ?t = "f (t\<lparr>bt_status := s, bt_updatedAt := now, bt_completedAt := Some now\<rparr>)"
  have t: "t \<in> set (tr_tasks r)" using task_get_Some [OF changed(1)] by simp
  have ok: "tasks_ok opts (tr_tasks r)" using inv by (simp add: registry_inv_def)
  then have "task_ok t" using t by (simp add: tasks_ok_def)
  then have "task_ok ?t" using now s unfolding f(1) by (simp add: task_ok_def)
  moreover have "bt_id ?t \<in> bt_id ` set (tr_tasks r)" using t by (simp add: f(2))
  ultimately have "tasks_ok opts (task_put ?t (tr_tasks r))" using s by (intro tasks_ok_finish [OF ok]) (simp_all add: f(3))
  then have "tasks_ok opts (cleanup opts now (task_put ?t (tr_tasks r)))" by (rule tasks_ok_cleanup)
  then show ?thesis unfolding changed(3) by (intro persist_inv [OF _ inv]) simp_all
qed

lemma log_finished_snd [simp]: "snd (log_finished i p) = snd p"
  by (simp add: log_finished_def split: prod.splits)

lemma list_inv:
  assumes "registry_inv opts r"
  shows "registry_inv opts (snd (listRecent opts now written r))"
proof -
  have ok: "tasks_ok opts (cleanup opts now (tr_tasks r))" using assms tasks_ok_cleanup by (simp add: registry_inv_def)
  have "registry_inv opts (snd (persistTasks written (r\<lparr>tr_tasks := cleanup opts now (tr_tasks r)\<rparr>)))"
    using ok by (intro persist_inv [OF _ assms]) simp_all
  moreover have "registry_inv opts (r\<lparr>tr_tasks := cleanup opts now (tr_tasks r)\<rparr>)" using ok assms by (simp add: registry_inv_def)
  ultimately show ?thesis by (auto simp: listRecent_def Let_def split: prod.splits if_splits)
qed

lemma task_step_inv:
  assumes "task_step opts now r r'" "registry_inv opts r" "printable_time (now + beijing_shift)"
  shows "registry_inv opts r'"
  using assms
proof (induction rule: task_step.induct)
  case (step_complete r written i summary data)
  then show ?case unfolding complete_def log_finished_snd by (intro transition_inv) (simp_all add: task_ok_def)
next
  case (step_fail r written i err)
  then show ?case unfolding fail_def log_finished_snd by (intro transition_inv) (simp_all add: task_ok_def)
next
  case (step_cancel r written i reason)
  then show ?case unfolding cancel_def by (intro transition_inv) (simp_all add: task_ok_def)
qed (auto intro: register_inv list_inv)

section \<open>Restart\<close>

definition restored :: "bg_task \<Rightarrow> bg_task" where
  "restored t = t\<lparr>bt_restoredFromDisk := True\<rparr>"

lemma load_store: "task_ok t \<Longrightarrow> load_task (store_task t) = Inr (restored t)"
proof -
  assume ok: "task_ok t"
  have ne: "formatBeijingIso x \<noteq> []" for x by (simp add: formatBeijingIso_def js_def)
  have "parseStoredDate (formatBeijingIso (bt_startedAt t)) = Inr (bt_startedAt t)"
    "parseStoredDate (formatBeijingIso (bt_updatedAt t)) = Inr (bt_updatedAt t)"
    "\<And>c. bt_completedAt t = Some c \<Longrightarrow> parseStoredDate (formatBeijingIso c) = Inr c"
    using ok by (simp_all add: task_ok_def parseStoredDate_def date_parse_beijing)
  then show ?thesis using ne by (cases "bt_completedAt t") (simp_all add: load_task_def store_task_def restored_def)
qed

lemma put_all: "distinct (map bt_id (ts @ us)) \<Longrightarrow> foldl (\<lambda>ts t. task_put t ts) ts us = ts @ us"
  by (induction us arbitrary: ts) (auto simp: task_put_new)

lemma interrupt_ok: "task_ok t \<Longrightarrow> printable_time (now + beijing_shift) \<Longrightarrow> task_ok (interrupt_task now t)"
  by (auto simp: interrupt_task_def task_ok_def)

lemma interrupt_not_running: "bt_status (interrupt_task now t) \<noteq> Running"
  by (auto simp: interrupt_task_def)

lemma restored_simps [simp]:
  "bt_id (restored t) = bt_id t" "bt_status (restored t) = bt_status t" "task_ok (restored t) = task_ok t"
  "bt_id (interrupt_task now t) = bt_id t"
  by (simp_all add: restored_def interrupt_task_def task_ok_def)

lemma running_restored: "running_tasks (map restored ts) = map restored (running_tasks ts)"
  by (induction ts) (simp_all add: running_tasks_def)

lemma restart_from:
  assumes ok: "tasks_ok opts ts" and now: "printable_time (now + beijing_shift)"
    and max: "safe_int (ro_maxActiveTasks opts)" "0 < ro_maxActiveTasks opts"
  defines "us \<equiv> map (\<lambda>t. interrupt_task now (restored t)) ts"
  shows "createPersistentTaskRegistry opts now written (Some (map store_task ts)) =
    (if running_tasks ts = [] then Inr (\<lparr>tr_tasks = us, tr_disk = Some (map store_task ts)\<rparr>, [])
     else if written then Inr (\<lparr>tr_tasks = us, tr_disk = Some (map store_task us)\<rparr>,
       map (\<lambda>t. interrupt_task now (restored t)) (running_tasks ts))
     else Inl PersistFailed)"
proof -
  have "mapE load_task (map store_task ts) = Inr (map restored ts)"
    using ok load_store by (auto simp: mapE_Inr_iff tasks_ok_def list_all2_conv_all_nth)
  then have load: "loadTasks (Some (map store_task ts)) = Inr (map restored ts)" by (simp add: loadTasks_def)
  have "distinct (map bt_id us)" using ok by (simp add: us_def tasks_ok_def comp_def)
  then have "foldl (\<lambda>ts t. task_put t ts) [] us = us" using put_all [of "[]" us] by simp
  then have create: "createTaskRegistry opts us stored = Inr \<lparr>tr_tasks = us, tr_disk = stored\<rparr>" for stored
    using max by (simp add: createTaskRegistry_def)
  have m: "map (interrupt_task now) (map restored ts) = us" by (simp add: us_def)
  show ?thesis
    unfolding createPersistentTaskRegistry_def load bindE_simps Let_def m create running_restored
    by (simp add: persistTasks_def)
qed

lemma interrupted_tasks_ok:
  assumes "tasks_ok opts ts" "printable_time (now + beijing_shift)" "0 < ro_maxActiveTasks opts"
  shows "tasks_ok opts (map (\<lambda>t. interrupt_task now (restored t)) ts)"
proof -
  have "running_tasks (map (\<lambda>t. interrupt_task now (restored t)) ts) = []"
    using interrupt_not_running by (auto simp: running_tasks_def filter_empty_conv)
  then show ?thesis using assms interrupt_ok by (auto simp: tasks_ok_def comp_def)
qed

lemma create_max: "createPersistentTaskRegistry opts now written stored = Inr p \<Longrightarrow>
   safe_int (ro_maxActiveTasks opts) \<and> 0 < ro_maxActiveTasks opts"
  by (auto simp: createPersistentTaskRegistry_def createTaskRegistry_def bindE_Inr_iff Let_def split: if_splits)

lemma task_reachable_inv: "task_reachable opts r \<Longrightarrow> registry_inv opts r \<and> safe_int (ro_maxActiveTasks opts) \<and> 0 < ro_maxActiveTasks opts"
proof (induction rule: task_reachable.induct)
  case (task_start now written r interrupted)
  note m = create_max [OF task_start]
  from task_start have "r = \<lparr>tr_tasks = [], tr_disk = None\<rparr>"
    using m by (simp add: createPersistentTaskRegistry_def createTaskRegistry_def loadTasks_def running_tasks_def)
  then show ?case using m by (simp add: registry_inv_def tasks_ok_def running_tasks_def)
next
  case (task_operation r now r')
  then show ?case using task_step_inv by blast
next
  case (task_restart r now written r' interrupted)
  then have m: "safe_int (ro_maxActiveTasks opts)" "0 < ro_maxActiveTasks opts" by simp_all
  show ?case
  proof (cases "tr_disk r")
    case None
    then have "r' = \<lparr>tr_tasks = [], tr_disk = None\<rparr>"
      using task_restart.hyps(3) m by (simp add: createPersistentTaskRegistry_def createTaskRegistry_def loadTasks_def running_tasks_def)
    then show ?thesis using m by (simp add: registry_inv_def tasks_ok_def running_tasks_def)
  next
    case (Some stored)
    then obtain ts where ts: "stored = map store_task ts" "tasks_ok opts ts" using task_restart.IH by (auto simp: registry_inv_def)
    note ok = interrupted_tasks_ok [OF ts(2) task_restart.hyps(2) m(2)]
    let ?us = "map (\<lambda>t. interrupt_task now (restored t)) ts"
    have "r' = \<lparr>tr_tasks = ?us, tr_disk = Some (map store_task ts)\<rparr> \<or> r' = \<lparr>tr_tasks = ?us, tr_disk = Some (map store_task ?us)\<rparr>"
      using task_restart.hyps(3) unfolding Some ts(1) restart_from [OF ts(2) task_restart.hyps(2) m]
      by (auto simp del: map_map split: if_splits)
    then show ?thesis using ok ts(2) m unfolding registry_inv_def
      by (elim disjE) (auto simp del: map_map)
  qed
qed

section \<open>Properties\<close>

text \<open>C27. In every state the registry can reach, over any operations with failing or working writes and any
  restarts, ids are unique, at most the configured number of tasks runs, and a task has a completion time exactly
  when it no longer runs.\<close>

theorem task_registry_invariant:
  assumes "task_reachable opts r"
  shows "distinct (map bt_id (tr_tasks r)) \<and> int (length (listRunning r)) \<le> ro_maxActiveTasks opts
    \<and> (\<forall>t \<in> set (tr_tasks r). (bt_status t = Running) = (bt_completedAt t = None))"
  using task_reachable_inv [OF assms] by (auto simp: registry_inv_def tasks_ok_def task_ok_def listRunning_def)

definition first_registry :: task_registry where
  "first_registry = \<lparr>tr_tasks = [], tr_disk = None\<rparr>"

lemma first_reachable: "task_reachable default_options first_registry"
  by (rule task_start [where now = 0 and written = True and interrupted = "[]"])
    (simp add: createPersistentTaskRegistry_def createTaskRegistry_def loadTasks_def running_tasks_def first_registry_def
      default_options_def safe_int_def max_safe_def)

definition one_task :: task_registry where
  "one_task = snd (register default_options 1700000000000 True [js ''a''] (js ''web'') (js ''read'') first_registry)"

lemma sample_time: "printable_time (1700000000000 + beijing_shift)" "printable_time (1700000000500 + beijing_shift)"
  by code_simp+

lemma one_task_tasks: "tr_tasks one_task = [\<lparr>bt_id = js ''a'', bt_toolName = js ''web'', bt_description = js ''read'',
    bt_startedAt = 1700000000000, bt_updatedAt = 1700000000000, bt_completedAt = None, bt_status = Running, bt_attempt = 1,
    bt_resultSummary = None, bt_resultData = None, bt_error = None, bt_recovery = None, bt_restoredFromDisk = False\<rparr>]"
  by (simp add: one_task_def register_def first_registry_def cleanup_def running_tasks_def default_options_def task_get_def
      persistTasks_def Let_def)

lemma one_task_reachable: "task_reachable default_options one_task"
  unfolding one_task_def by (rule task_operation [OF first_reachable sample_time(1) step_register])

theorem task_registry_invariant_witness:
  "map bt_id (listRunning one_task) = [js ''a''] \<and> int (length (listRunning one_task)) \<le> 8"
proof -
  have "map bt_id (listRunning one_task) = [js ''a'']" by (simp add: listRunning_def running_tasks_def one_task_tasks)
  then show ?thesis using task_registry_invariant [OF one_task_reachable] by (simp add: default_options_def)
qed

text \<open>A finished task is final: no operation changes it, and it disappears only when its retention time is
  over.\<close>

theorem finished_tasks_are_final:
  assumes "task_reachable opts r" "task_step opts now r r'" "t \<in> set (tr_tasks r)" "bt_status t \<noteq> Running"
  shows "t \<in> set (tr_tasks r') \<or> expired opts now t"
proof -
  have kept: "t \<in> set (cleanup opts now ts) \<or> expired opts now t" if "t \<in> set ts" for ts
    using that by (simp add: cleanup_def)
  have disk: "tr_tasks (snd (persistTasks written x)) = tr_tasks x" for written x by (simp add: persistTasks_def)
  have d: "distinct (map bt_id (tr_tasks r))"
    using task_reachable_inv [OF assms(1)] by (simp add: registry_inv_def tasks_ok_def)
  have transition: "t \<in> set (tr_tasks (snd (transitionTerminal opts now written i s f r))) \<or> expired opts now t"
    if f: "\<And>t. bt_id (f t) = bt_id t" for written i s f
  proof (cases rule: transition_cases [of opts now written i s f r])
    case ignored
    then show ?thesis using assms(3) by simp
  next
    case (changed u)
    have u: "u \<in> set (tr_tasks r)" "u \<noteq> t" using task_get_Some [OF changed(1)] changed(2) assms(4) by auto
    then have "bt_id t \<noteq> bt_id u" using d assms(3) by (auto simp: distinct_map inj_on_def)
    then have "t \<in> set (task_put (f (u\<lparr>bt_status := s, bt_updatedAt := now, bt_completedAt := Some now\<rparr>)) (tr_tasks r))"
      by (intro task_put_keeps [OF assms(3)]) (simp add: f)
    from kept [OF this] show ?thesis unfolding changed(3) disk by simp
  qed
  from assms(2) show ?thesis
  proof cases
    case (step_register written ids n d)
    let ?r = "r\<lparr>tr_tasks := cleanup opts now (tr_tasks r)\<rparr>"
    have "t \<in> set (task_put v (tr_tasks ?r)) \<or> expired opts now t"
      if v: "bt_id v \<notin> bt_id ` set (tr_tasks ?r)" for v
      using kept [OF assms(3)] task_put_new [OF v] by auto
    then show ?thesis using kept [OF assms(3)] unfolding step_register
      by (auto simp: register_def Let_def persistTasks_def find_Some_iff task_get_None split: option.splits)
  next
    case (step_complete written i summary data)
    then show ?thesis using transition by (simp add: complete_def)
  next
    case (step_fail written i err)
    then show ?thesis using transition by (simp add: fail_def)
  next
    case (step_cancel written i reason)
    then show ?thesis using transition by (simp add: cancel_def)
  next
    case (step_list written)
    then show ?thesis using kept [OF assms(3)]
      by (auto simp: listRecent_def Let_def persistTasks_def split: if_splits)
  qed
qed

definition finished_task :: task_registry where
  "finished_task = snd (complete default_options 1700000000500 True (js ''a'') (js ''ok'') None one_task)"

theorem finished_tasks_are_final_witness:
  "map bt_status (tr_tasks finished_task) = [Completed] \<and>
   hd (tr_tasks finished_task) \<in> set (tr_tasks (snd (fail default_options 1700000000500 True (js ''a'') (js ''late'') finished_task)))"
proof -
  have r: "task_reachable default_options finished_task" unfolding finished_task_def
    by (rule task_operation [OF one_task_reachable sample_time(2) step_complete])
  have f: "tr_tasks finished_task = [hd (tr_tasks one_task)\<lparr>bt_status := Completed, bt_updatedAt := 1700000000500,
      bt_completedAt := Some 1700000000500, bt_resultSummary := Some (js ''ok''), bt_resultData := None\<rparr>]"
    by (simp add: finished_task_def complete_def transitionTerminal_def log_finished_def one_task_tasks task_get_def cleanup_def
        expired_def default_options_def persistTasks_def Let_def)
  then have s: "map bt_status (tr_tasks finished_task) = [Completed]" by simp
  then have h: "hd (tr_tasks finished_task) \<in> set (tr_tasks finished_task)" "bt_status (hd (tr_tasks finished_task)) \<noteq> Running"
    by (cases "tr_tasks finished_task"; simp)+
  have "\<not> expired default_options 1700000000500 (hd (tr_tasks finished_task))"
    by (simp add: f expired_def default_options_def)
  then show ?thesis using finished_tasks_are_final [OF r step_fail h, of 1700000000500] s by blast
qed

text \<open>C28. What was written is restored: when the file holds the tasks of a registry, a restart brings back every
  task with all its fields, the ones that were running as interrupted (and reported as such), and nothing runs.\<close>

theorem restart_restores_tasks:
  assumes "task_reachable opts r" "tr_disk r = Some (map store_task (tr_tasks r))" "printable_time (now + beijing_shift)"
  shows "\<exists>r'. createPersistentTaskRegistry opts now True (tr_disk r) =
        Inr (r', map (\<lambda>t. interrupt_task now (restored t)) (running_tasks (tr_tasks r)))
    \<and> tr_tasks r' = map (\<lambda>t. interrupt_task now (restored t)) (tr_tasks r) \<and> listRunning r' = []"
proof -
  have inv: "tasks_ok opts (tr_tasks r)" and m: "safe_int (ro_maxActiveTasks opts)" "0 < ro_maxActiveTasks opts"
    using task_reachable_inv [OF assms(1)] by (simp_all add: registry_inv_def)
  have "running_tasks (map (\<lambda>t. interrupt_task now (restored t)) ts) = []" for ts
    using interrupt_not_running by (auto simp: running_tasks_def filter_empty_conv)
  then show ?thesis unfolding assms(2) restart_from [OF inv assms(3) m] by (auto simp: listRunning_def)
qed

theorem restart_restores_tasks_witness:
  "\<exists>r'. createPersistentTaskRegistry default_options 1700000000500 True (tr_disk one_task) =
        Inr (r', map (\<lambda>t. interrupt_task 1700000000500 (restored t)) (running_tasks (tr_tasks one_task)))
    \<and> map bt_status (tr_tasks r') = [Interrupted]"
proof -
  have d: "tr_disk one_task = Some (map store_task (tr_tasks one_task))"
    by (simp add: one_task_def register_def first_registry_def cleanup_def running_tasks_def default_options_def task_get_def
        persistTasks_def Let_def)
  have s: "map bt_status (tr_tasks one_task) = [Running]" by (simp add: one_task_tasks)
  then have i: "map bt_status (map (\<lambda>t. interrupt_task 1700000000500 (restored t)) (tr_tasks one_task)) = [Interrupted]"
    by (cases "tr_tasks one_task") (auto simp: interrupt_task_def)
  obtain r' where "createPersistentTaskRegistry default_options 1700000000500 True (tr_disk one_task) =
        Inr (r', map (\<lambda>t. interrupt_task 1700000000500 (restored t)) (running_tasks (tr_tasks one_task)))"
      "tr_tasks r' = map (\<lambda>t. interrupt_task 1700000000500 (restored t)) (tr_tasks one_task)"
    using restart_restores_tasks [OF one_task_reachable d sample_time(2)] by blast
  with i show ?thesis by metis
qed

text \<open>C29. A registration whose write fails is reported as an error, but the task it made stays in memory as
  running, with an id nobody was told: each failure takes one of the slots until the process restarts.\<close>

theorem failed_registration_keeps_slot:
  assumes "fst (register opts now written ids n d r) = Inl PersistFailed"
  shows "length (listRunning (snd (register opts now written ids n d r))) = Suc (length (listRunning r))"
proof -
  let ?r = "r\<lparr>tr_tasks := cleanup opts now (tr_tasks r)\<rparr>"
  have c: "\<not> ro_maxActiveTasks opts \<le> int (length (running_tasks (tr_tasks ?r)))"
    using assms by (auto simp: register_def Let_def split: if_splits)
  obtain i where i: "find (\<lambda>i. task_get i (tr_tasks ?r) = None) ids = Some i"
    using assms c by (cases "find (\<lambda>i. task_get i (tr_tasks ?r) = None) ids") (auto simp: register_def Let_def)
  then have fresh: "i \<notin> bt_id ` set (tr_tasks ?r)" by (auto simp: find_Some_iff task_get_None)
  let ?t = "\<lparr>bt_id = i, bt_toolName = n, bt_description = d, bt_startedAt = now, bt_updatedAt = now, bt_completedAt = None,
      bt_status = Running, bt_attempt = 1, bt_resultSummary = None, bt_resultData = None, bt_error = None, bt_recovery = None,
      bt_restoredFromDisk = False\<rparr>"
  have put: "task_put ?t (tr_tasks ?r) = tr_tasks ?r @ [?t]" by (rule task_put_new) (use fresh in simp)
  have "tr_tasks (snd (register opts now written ids n d r)) = tr_tasks ?r @ [?t]"
    using c i put by (simp add: register_def Let_def persistTasks_def)
  moreover have "running_tasks (tr_tasks ?r @ [?t]) = running_tasks (tr_tasks r) @ [?t]"
    using running_cleanup [of opts now "tr_tasks r"] by (simp add: running_tasks_def)
  ultimately show ?thesis by (simp add: listRunning_def)
qed

definition two_slots :: registry_options where
  "two_slots = default_options\<lparr>ro_maxActiveTasks := 2\<rparr>"

definition failing_twice :: task_registry where
  "failing_twice = snd (register two_slots 0 False [js ''b''] (js ''web'') (js ''read'')
     (snd (register two_slots 0 False [js ''a''] (js ''web'') (js ''read'') first_registry)))"

theorem failed_registration_keeps_slot_witness:
  "length (listRunning (snd (register two_slots 0 False [js ''a''] (js ''web'') (js ''read'') first_registry))) = 1
   \<and> fst (register two_slots 0 True [js ''z''] (js ''web'') (js ''read'') failing_twice) = Inl (AdmissionLimit 2 2)"
proof -
  note defs = register_def first_registry_def cleanup_def running_tasks_def two_slots_def default_options_def task_get_def
    persistTasks_def Let_def expired_def
  have a: "fst (register two_slots 0 False [js ''a''] (js ''web'') (js ''read'') first_registry) = Inl PersistFailed"
    by (simp add: defs)
  have "length (listRunning first_registry) = 0" by (simp add: first_registry_def listRunning_def running_tasks_def)
  moreover have "fst (register two_slots 0 True [js ''z''] (js ''web'') (js ''read'') failing_twice) = Inl (AdmissionLimit 2 2)"
    by (simp add: failing_twice_def defs)
  ultimately show ?thesis using failed_registration_keeps_slot [OF a] by simp
qed

end
