(* ===== verification/Schedule_Stores.thy ===== *)
theory Schedule_Stores
  imports Iso_Date Js_Json Mailbox
begin

text \<open>
  \<open>src/agent/schedule-model.ts\<close>, \<open>schedule-store.ts\<close>, \<open>schedule-occurrence-store.ts\<close> and
  \<open>schedule-delivery-store.ts\<close>: when a plan may run, and the three files the runtime keeps.  A file is what the
  last successful write put there (temporary file and rename), so \<open>written\<close> says whether a write succeeds;
  printing and parsing the files is not modelled again.  The check of timestamps that the schema library makes
  (\<open>z.iso.datetime\<close>) is the parameter \<open>isoTime\<close>; the times themselves are read by \<open>Date.parse\<close>.
\<close>

section \<open>When a plan may run\<close>

definition min_at_delay_ms :: int where "min_at_delay_ms = 30000"
definition max_lifetime_ms :: int where "max_lifetime_ms = 3 * 24 * 60 * 60 * 1000"
definition max_active_schedules :: nat where "max_active_schedules = 20"
definition max_id_length :: nat where "max_id_length = 200"
definition max_name_length :: nat where "max_name_length = 100"
definition max_intention_length :: nat where "max_intention_length = 1000"

datatype schedule_error = InvalidSchedule | OutsideScheduleWindow

datatype schedule_at = At jstr | AfterSeconds jnum

text \<open>The strict union of the two shapes.\<close>

definition parse_at_input :: "jv \<Rightarrow> schedule_at option" where
  "parse_at_input v =
     (case v of
        JObj [(k, w)] \<Rightarrow>
          if k = js ''at'' then (case w of JStr s \<Rightarrow> if s = [] then None else Some (At s) | _ \<Rightarrow> None)
          else if k = js ''afterSeconds'' then
            (case w of
               JNum (NInt i) \<Rightarrow> if 0 < i then Some (AfterSeconds (NInt i)) else None
             | JNum (NFrac m p) \<Rightarrow> if 0 < m then Some (AfterSeconds (NFrac m p)) else None
             | _ \<Rightarrow> None)
          else None
      | _ \<Rightarrow> None)"

definition valid_time :: "int \<Rightarrow> bool" where
  "valid_time ms \<longleftrightarrow> \<bar>ms\<bar> \<le> 8640000000000000"

text \<open>The time value a date gets: the integer part, and nothing beyond the range of dates.\<close>

definition trunc_div :: "int \<Rightarrow> int \<Rightarrow> int" where
  "trunc_div a b = (if a < 0 then - ((- a) div b) else a div b)"

fun after_seconds :: "int \<Rightarrow> jnum \<Rightarrow> int option" where
  "after_seconds now (NInt i) = (if valid_time (now + i * 1000) then Some (now + i * 1000) else None)"
| "after_seconds now (NFrac m p) =
     (let t = trunc_div (now * 10 ^ p + m * 1000) (10 ^ p) in if valid_time t then Some t else None)"
| "after_seconds now _ = None"

text \<open>\<open>new Date(Date.UTC(year, month, 0)).getUTCDate()\<close>: years up to 99 count from 1900.\<close>

definition last_day :: "int \<Rightarrow> int \<Rightarrow> int" where
  "last_day y m = days_in_month (if 0 \<le> y \<and> y \<le> 99 then 1900 + y else y) m"

definition parseDate :: "jstr \<Rightarrow> schedule_error + int" where
  "parseDate s =
     (case match_iso s of
        None \<Rightarrow> Inl InvalidSchedule
      | Some f \<Rightarrow>
          if if_month f < 1 \<or> 12 < if_month f \<or> if_day f < 1 \<or> last_day (if_year f) (if_month f) < if_day f
             \<or> 23 < if_hour f \<or> 59 < if_minute f \<or> 59 < if_second f
          then Inl InvalidSchedule
          else (case date_parse s of None \<Rightarrow> Inl InvalidSchedule | Some ms \<Rightarrow> Inr ms))"

definition parseStoredScheduleAt :: "jstr \<Rightarrow> schedule_error + jstr" where
  "parseStoredScheduleAt s = bindE (parseDate s) (\<lambda>ms. Inr (to_iso_string ms))"

text \<open>\<open>now\<close> is \<open>None\<close> when the clock gives an invalid date.\<close>

definition normalizeScheduleAt :: "jv \<Rightarrow> int option \<Rightarrow> schedule_error + jstr" where
  "normalizeScheduleAt input now =
     (case now of
        None \<Rightarrow> Inl InvalidSchedule
      | Some n \<Rightarrow>
          (case parse_at_input input of
             None \<Rightarrow> Inl InvalidSchedule
           | Some a \<Rightarrow>
               bindE (case a of
                   At s \<Rightarrow> parseDate s
                 | AfterSeconds x \<Rightarrow> (case after_seconds n x of None \<Rightarrow> Inl InvalidSchedule | Some t \<Rightarrow> Inr t))
                 (\<lambda>t. if t - n < min_at_delay_ms \<or> max_lifetime_ms < t - n then Inl OutsideScheduleWindow
                      else Inr (to_iso_string t))))"

section \<open>Plans\<close>

record schedule_job =
  sj_id :: jstr
  sj_name :: jstr
  sj_intention :: jstr
  sj_at :: jstr
  sj_createdAt :: jstr

text \<open>\<open>z.string().trim().min(1).max(n)\<close>.\<close>

definition bounded_text :: "nat \<Rightarrow> jstr \<Rightarrow> jstr option" where
  "bounded_text n s = (let t = trim s in if t \<noteq> [] \<and> length t \<le> n then Some t else None)"

text \<open>The delay of a stored plan; a creation time the platform cannot read makes both comparisons false.\<close>

definition delay_ok :: "jstr \<Rightarrow> jstr \<Rightarrow> bool" where
  "delay_ok at created =
     (case parseDate at of
        Inl _ \<Rightarrow> False
      | Inr t \<Rightarrow> (case date_parse created of
            None \<Rightarrow> True
          | Some c \<Rightarrow> min_at_delay_ms \<le> t - c \<and> t - c \<le> max_lifetime_ms))"

definition parse_job :: "(jstr \<Rightarrow> bool) \<Rightarrow> schedule_job \<Rightarrow> schedule_job option" where
  "parse_job isoTime j =
     (case (bounded_text max_id_length (sj_id j), bounded_text max_name_length (sj_name j),
            bounded_text max_intention_length (sj_intention j)) of
        (Some i, Some n, Some t) \<Rightarrow>
          if isoTime (sj_at j) \<and> isoTime (sj_createdAt j) \<and> delay_ok (sj_at j) (sj_createdAt j)
          then Some (j\<lparr>sj_id := i, sj_name := n, sj_intention := t\<rparr>) else None
      | _ \<Rightarrow> None)"

definition validateScheduleJobs :: "(jstr \<Rightarrow> bool) \<Rightarrow> schedule_job list \<Rightarrow> schedule_job list option" where
  "validateScheduleJobs isoTime jobs =
     (if max_active_schedules < length jobs then None
      else (case those (map (parse_job isoTime) jobs) of
              None \<Rightarrow> None
            | Some parsed \<Rightarrow> if distinct (map sj_id parsed) \<and> distinct (map sj_name parsed) then Some parsed else None))"

datatype store_error = StoreInvalid | StoreWriteFailed | OccurrenceConflict jstr | DuplicateOccurrence jstr

text \<open>The plan file; an absent one is empty.\<close>

definition schedule_load :: "(jstr \<Rightarrow> bool) \<Rightarrow> schedule_job list option \<Rightarrow> store_error + schedule_job list" where
  "schedule_load isoTime stored = (case stored of None \<Rightarrow> Inr []
     | Some jobs \<Rightarrow> (case validateScheduleJobs isoTime jobs of None \<Rightarrow> Inl StoreInvalid | Some ks \<Rightarrow> Inr ks))"

definition schedule_replace ::
  "(jstr \<Rightarrow> bool) \<Rightarrow> bool \<Rightarrow> schedule_job list \<Rightarrow> schedule_job list option \<Rightarrow> (store_error + unit) \<times> schedule_job list option" where
  "schedule_replace isoTime written jobs stored =
     (case validateScheduleJobs isoTime jobs of
        None \<Rightarrow> (Inl StoreInvalid, stored)
      | Some ks \<Rightarrow> if written then (Inr (), Some ks) else (Inl StoreWriteFailed, stored))"

section \<open>Occurrences\<close>

record schedule_occurrence =
  oc_scheduleId :: jstr
  oc_name :: jstr
  oc_intention :: jstr
  oc_scheduledFor :: jstr

definition parse_occurrence :: "(jstr \<Rightarrow> bool) \<Rightarrow> schedule_occurrence \<Rightarrow> schedule_occurrence option" where
  "parse_occurrence isoTime o' =
     (case (bounded_text max_id_length (oc_scheduleId o'), bounded_text max_name_length (oc_name o'),
            bounded_text max_intention_length (oc_intention o')) of
        (Some i, Some n, Some t) \<Rightarrow>
          if isoTime (oc_scheduledFor o') then Some (o'\<lparr>oc_scheduleId := i, oc_name := n, oc_intention := t\<rparr>) else None
      | _ \<Rightarrow> None)"

definition max_occurrences :: nat where "max_occurrences = 200"

definition parse_occurrence_list :: "(jstr \<Rightarrow> bool) \<Rightarrow> schedule_occurrence list \<Rightarrow> store_error + schedule_occurrence list" where
  "parse_occurrence_list isoTime os =
     (if max_occurrences < length os then Inl StoreInvalid
      else (case those (map (parse_occurrence isoTime) os) of None \<Rightarrow> Inl StoreInvalid | Some ps \<Rightarrow> Inr ps))"

text \<open>The first id that repeats.\<close>

fun first_duplicate :: "jstr set \<Rightarrow> jstr list \<Rightarrow> jstr option" where
  "first_duplicate seen [] = None"
| "first_duplicate seen (i # is) = (if i \<in> seen then Some i else first_duplicate (insert i seen) is)"

definition parseOccurrences :: "(jstr \<Rightarrow> bool) \<Rightarrow> schedule_occurrence list \<Rightarrow> store_error + schedule_occurrence list" where
  "parseOccurrences isoTime os =
     bindE (parse_occurrence_list isoTime os) (\<lambda>ps.
       case first_duplicate {} (map oc_scheduleId ps) of Some i \<Rightarrow> Inl (DuplicateOccurrence i) | None \<Rightarrow> Inr ps)"

definition find_occurrence :: "jstr \<Rightarrow> schedule_occurrence list \<Rightarrow> schedule_occurrence option" where
  "find_occurrence i os = find (\<lambda>x. oc_scheduleId x = i) os"

text \<open>\<open>slice(-n)\<close>.\<close>

definition keep_last :: "nat \<Rightarrow> 'a list \<Rightarrow> 'a list" where
  "keep_last n xs = drop (length xs - n) xs"

text \<open>\<open>Inr None\<close>: recorded already, the list is returned as it is.\<close>

definition recordOccurrence ::
  "(jstr \<Rightarrow> bool) \<Rightarrow> schedule_occurrence list \<Rightarrow> schedule_occurrence \<Rightarrow> store_error + schedule_occurrence list option" where
  "recordOccurrence isoTime current raw =
     (case parse_occurrence isoTime raw of
        None \<Rightarrow> Inl StoreInvalid
      | Some x \<Rightarrow>
          (case find_occurrence (oc_scheduleId x) current of
             Some y \<Rightarrow> if y \<noteq> x then Inl (OccurrenceConflict (oc_scheduleId x)) else Inr None
           | None \<Rightarrow> bindE (parseOccurrences isoTime (keep_last max_occurrences (current @ [x]))) (\<lambda>os. Inr (Some os))))"

type_synonym occurrence_file = "schedule_occurrence list option"

definition loadOccurrences :: "(jstr \<Rightarrow> bool) \<Rightarrow> occurrence_file \<Rightarrow> store_error + schedule_occurrence list" where
  "loadOccurrences isoTime stored = (case stored of None \<Rightarrow> Inr [] | Some os \<Rightarrow> parseOccurrences isoTime os)"

definition persistOccurrences ::
  "(jstr \<Rightarrow> bool) \<Rightarrow> bool \<Rightarrow> schedule_occurrence list \<Rightarrow> occurrence_file \<Rightarrow> (store_error + unit) \<times> occurrence_file" where
  "persistOccurrences isoTime written os stored =
     (case parseOccurrences isoTime os of
        Inl e \<Rightarrow> (Inl e, stored)
      | Inr ps \<Rightarrow> if written then (Inr (), Some ps) else (Inl StoreWriteFailed, stored))"

definition occurrence_record ::
  "(jstr \<Rightarrow> bool) \<Rightarrow> bool \<Rightarrow> schedule_occurrence \<Rightarrow> occurrence_file \<Rightarrow> (store_error + unit) \<times> occurrence_file" where
  "occurrence_record isoTime written x stored =
     (case loadOccurrences isoTime stored of
        Inl e \<Rightarrow> (Inl e, stored)
      | Inr current \<Rightarrow>
          (case recordOccurrence isoTime current x of
             Inl e \<Rightarrow> (Inl e, stored)
           | Inr None \<Rightarrow> (Inr (), stored)
           | Inr (Some os) \<Rightarrow> persistOccurrences isoTime written os stored))"

definition occurrence_get :: "(jstr \<Rightarrow> bool) \<Rightarrow> jstr \<Rightarrow> occurrence_file \<Rightarrow> store_error + schedule_occurrence option" where
  "occurrence_get isoTime i stored = bindE (loadOccurrences isoTime stored) (\<lambda>os. Inr (find_occurrence i os))"

section \<open>Pending deliveries\<close>

definition loadPending :: "(jstr \<Rightarrow> bool) \<Rightarrow> occurrence_file \<Rightarrow> store_error + schedule_occurrence list" where
  "loadPending isoTime stored = (case stored of None \<Rightarrow> Inr [] | Some os \<Rightarrow> parse_occurrence_list isoTime os)"

definition persistPending ::
  "(jstr \<Rightarrow> bool) \<Rightarrow> bool \<Rightarrow> schedule_occurrence list \<Rightarrow> occurrence_file \<Rightarrow> (store_error + unit) \<times> occurrence_file" where
  "persistPending isoTime written os stored =
     (case parse_occurrence_list isoTime os of
        Inl e \<Rightarrow> (Inl e, stored)
      | Inr ps \<Rightarrow> if written then (Inr (), Some ps) else (Inl StoreWriteFailed, stored))"

definition recordPending ::
  "(jstr \<Rightarrow> bool) \<Rightarrow> bool \<Rightarrow> schedule_occurrence \<Rightarrow> occurrence_file \<Rightarrow> (store_error + unit) \<times> occurrence_file" where
  "recordPending isoTime written raw stored =
     (case parse_occurrence isoTime raw of
        None \<Rightarrow> (Inl StoreInvalid, stored)
      | Some x \<Rightarrow>
          (case loadPending isoTime stored of
             Inl e \<Rightarrow> (Inl e, stored)
           | Inr current \<Rightarrow>
               (case find_occurrence (oc_scheduleId x) current of
                  Some y \<Rightarrow> (if y \<noteq> x then (Inl (OccurrenceConflict (oc_scheduleId x)), stored) else (Inr (), stored))
                | None \<Rightarrow> persistPending isoTime written (current @ [x]) stored)))"

definition complete_delivery ::
  "(jstr \<Rightarrow> bool) \<Rightarrow> bool \<Rightarrow> jstr \<Rightarrow> occurrence_file \<Rightarrow> (store_error + unit) \<times> occurrence_file" where
  "complete_delivery isoTime written i stored =
     (case loadPending isoTime stored of
        Inl e \<Rightarrow> (Inl e, stored)
      | Inr current \<Rightarrow>
          (let kept = filter (\<lambda>x. oc_scheduleId x \<noteq> i) current in
           if length kept \<noteq> length current then persistPending isoTime written kept stored else (Inr (), stored)))"

section \<open>Facts\<close>

lemma bounded_text_trimmed: "bounded_text n s = Some t \<Longrightarrow> t = trim s \<and> t \<noteq> [] \<and> length t \<le> n"
  by (auto simp: bounded_text_def Let_def split: if_splits)

lemma bounded_text_idem: "bounded_text n s = Some t \<Longrightarrow> bounded_text n t = Some t"
  by (auto simp: bounded_text_def Let_def split: if_splits)

lemma parse_job_idem:
  assumes "parse_job isoTime j = Some k"
  shows "parse_job isoTime k = Some k"
proof -
  obtain i n t where "bounded_text max_id_length (sj_id j) = Some i" "bounded_text max_name_length (sj_name j) = Some n"
    "bounded_text max_intention_length (sj_intention j) = Some t" "k = j\<lparr>sj_id := i, sj_name := n, sj_intention := t\<rparr>"
    "isoTime (sj_at j) \<and> isoTime (sj_createdAt j) \<and> delay_ok (sj_at j) (sj_createdAt j)"
    using assms by (auto simp: parse_job_def split: option.splits if_splits)
  then show ?thesis by (simp add: parse_job_def bounded_text_idem)
qed

lemma parse_occurrence_idem:
  assumes "parse_occurrence isoTime x = Some y"
  shows "parse_occurrence isoTime y = Some y"
proof -
  obtain i n t where "bounded_text max_id_length (oc_scheduleId x) = Some i" "bounded_text max_name_length (oc_name x) = Some n"
    "bounded_text max_intention_length (oc_intention x) = Some t" "y = x\<lparr>oc_scheduleId := i, oc_name := n, oc_intention := t\<rparr>"
    "isoTime (oc_scheduledFor x)"
    using assms by (auto simp: parse_occurrence_def split: option.splits if_splits)
  then show ?thesis by (simp add: parse_occurrence_def bounded_text_idem)
qed

lemma those_Some: "those xs = Some ys \<longleftrightarrow> xs = map Some ys"
proof (induction xs arbitrary: ys)
  case (Cons x xs)
  then show ?case by (cases x; cases ys) (auto split: option.splits)
qed auto

lemma those_map: "those (map f xs) = Some ys \<longleftrightarrow> list_all2 (\<lambda>x y. f x = Some y) xs ys"
  unfolding those_Some by (auto simp: list_all2_conv_all_nth list_eq_iff_nth_eq)

lemma those_map_idem:
  assumes "those (map f xs) = Some ys" "\<And>x y. f x = Some y \<Longrightarrow> f y = Some y"
  shows "those (map f ys) = Some ys"
  using assms(1) unfolding those_map by (auto simp: list_all2_conv_all_nth intro: assms(2))

lemma those_length: "those (map f xs) = Some ys \<Longrightarrow> length ys = length xs"
  unfolding those_map by (simp add: list_all2_lengthD)

lemma validate_idem: "validateScheduleJobs isoTime jobs = Some parsed \<Longrightarrow> validateScheduleJobs isoTime parsed = Some parsed"
  using those_map_idem [of "parse_job isoTime" jobs parsed] parse_job_idem those_length [of "parse_job isoTime" jobs parsed]
  by (auto simp: validateScheduleJobs_def split: option.splits if_splits)

text \<open>A list whose elements are their own parse.\<close>

lemma those_fixed: "\<forall>x \<in> set xs. f x = Some x \<Longrightarrow> those (map f xs) = Some xs"
  unfolding those_map by (simp add: list_all2_same)

lemma those_parsed: "those (map f xs) = Some ys \<Longrightarrow> (\<And>x y. f x = Some y \<Longrightarrow> f y = Some y) \<Longrightarrow> y \<in> set ys \<Longrightarrow> f y = Some y"
  unfolding those_map by (auto simp: list_all2_conv_all_nth in_set_conv_nth)

end
