(* ===== verification/Render_Event.thy ===== *)
theory Render_Event
  imports Mailbox Mailbox_Text Iso_Date
begin

text \<open>
  \<open>src/agent/render-event.ts\<close>: the text of an event for the model.  A scheduled wake-up can be told from its text.
\<close>

definition BOOTSTRAP_TEXT :: jstr where
  "BOOTSTRAP_TEXT = [91, 20919, 21551, 21160, 93, 32, 36825, 26159, 19968, 27425, 20840, 26032, 32, 65, 103, 101, 110, 116, 67,
     111, 110, 116, 101, 120, 116, 32, 30340, 39318, 27425, 21551, 21160, 44, 32, 24403, 21069, 27809, 26377,
     24453, 22238, 22797, 30340, 21382, 21490, 28040, 24687, 46, 32, 25353, 33258, 24049, 30340, 36523, 20221,
     12289, 20852, 36259, 21644, 21487, 39564, 35777, 32447, 32034, 20915, 23450, 31532, 19968, 27493, 46]"

definition schedule_input :: "jstr \<Rightarrow> jstr \<Rightarrow> int \<Rightarrow> notification_input" where
  "schedule_input scheduleId name scheduledFor =
     \<lparr>ni_id = js ''schedule:'' @ scheduleId,
      ni_source = [(js ''type'', JStr (js ''schedule'')), (js ''scheduleId'', JStr scheduleId)],
      ni_kind = js ''schedule_due'', ni_priority = NormalPriority, ni_delivery = InterruptDelivery,
      ni_groupKey = js ''schedule:'' @ scheduleId, ni_count = 1, ni_occurredAt = None,
      ni_openTool = js ''schedule'',
      ni_openArgs = [(js ''action'', JStr (js ''get_occurrence'')), (js ''scheduleId'', JStr scheduleId)],
      ni_data = Some [(js ''name'', JStr name), (js ''scheduledFor'', JStr (formatBeijingIso scheduledFor))]\<rparr>"

definition background_input :: "jstr \<Rightarrow> jstr \<Rightarrow> bool \<Rightarrow> notification_input" where
  "background_input taskId toolName ok =
     (let status = (if ok then js ''completed'' else js ''failed'') in
      \<lparr>ni_id = js ''background_task:'' @ taskId @ js '':'' @ status,
       ni_source = [(js ''type'', JStr (js ''background_task'')), (js ''taskId'', JStr taskId), (js ''toolName'', JStr toolName)],
       ni_kind = js ''background_task_completed'', ni_priority = (if ok then NormalPriority else HighPriority),
       ni_delivery = InterruptDelivery, ni_groupKey = js ''background_task:'' @ taskId, ni_count = 1, ni_occurredAt = None,
       ni_openTool = js ''background_task'',
       ni_openArgs = [(js ''action'', JStr (js ''get'')), (js ''taskId'', JStr taskId)],
       ni_data = Some [(js ''status'', JStr status)]\<rparr>)"

fun renderBotEvent :: "bot_event \<Rightarrow> notification_error + jstr option" where
  "renderBotEvent Wake = Inr None"
| "renderBotEvent Bootstrap = Inr (Some BOOTSTRAP_TEXT)"
| "renderBotEvent (ScheduledWake i n t) = bindE (renderNotificationEnvelope (schedule_input i n t)) (\<lambda>s. Inr (Some s))"
| "renderBotEvent (MessageEvent m) = bindE (mailbox_of_message m) (\<lambda>k.
     bindE (renderMailboxNotification k [m] None None) (\<lambda>s. Inr (Some s)))"
| "renderBotEvent (BackgroundTaskCompleted i n d ms ok text) =
     bindE (renderNotificationEnvelope (background_input i n ok)) (\<lambda>s. Inr (Some s))"
| "renderBotEvent (MailboxBacklog b) = Inr None"


section \<open>Scheduled wake-ups\<close>

definition schedule_text :: "jstr \<Rightarrow> jstr \<Rightarrow> int \<Rightarrow> jstr" where
  "schedule_text i n t = stringify (JObj (envelope_jv (schedule_input i n t)))"

lemma render_schedule [simp]: "renderBotEvent (ScheduledWake i n t) = Inr (Some (schedule_text i n t))"
  by (simp add: renderNotificationEnvelope_def schedule_text_def schedule_input_def safe_int_def max_safe_def)

declare renderBotEvent.simps(3) [simp del]

lemma schedule_jwf: "jwf (JObj (envelope_jv (schedule_input i n t)))"
proof -
  have src: "jwf (JObj [(js ''type'', JStr (js ''schedule'')), (js ''scheduleId'', JStr i)])"
    by (rule jwf_objI [of _ "[js ''type'', js ''scheduleId'']"]) (simp_all add: keys_within_def is_digit_def)
  have args: "jwf (JObj [(js ''action'', JStr (js ''get_occurrence'')), (js ''scheduleId'', JStr i)])"
    by (rule jwf_objI [of _ "[js ''action'', js ''scheduleId'']"]) (simp_all add: keys_within_def is_digit_def)
  have opn: "jwf (JObj [(js ''tool'', JStr (js ''schedule'')), (js ''args'', JObj [(js ''action'', JStr (js ''get_occurrence'')), (js ''scheduleId'', JStr i)])])"
    by (rule jwf_objI [of _ "[js ''tool'', js ''args'']"]) (use args in \<open>simp_all add: keys_within_def is_digit_def del: jwf.simps(6)\<close>)
  have dat: "jwf (JObj [(js ''name'', JStr n), (js ''scheduledFor'', JStr (formatBeijingIso t))])"
    by (rule jwf_objI [of _ "[js ''name'', js ''scheduledFor'']"]) (simp_all add: keys_within_def is_digit_def)
  show ?thesis
    by (rule jwf_objI [of _ "[js ''event'', js ''id'', js ''source'', js ''kind'', js ''priority'', js ''delivery'', js ''groupKey'',
          js ''count'', js ''open'', js ''data'']"])
      (use src opn dat in \<open>simp_all add: keys_within_def is_digit_def envelope_jv_def schedule_input_def opt_prop_def safe_jwf
        safe_int_def max_safe_def del: jwf.simps(6)\<close>)
qed

lemma schedule_text_id: "schedule_text i n t = schedule_text i' n' t' \<Longrightarrow> i = i'"
proof -
  assume "schedule_text i n t = schedule_text i' n' t'"
  then have "JObj (envelope_jv (schedule_input i n t)) = JObj (envelope_jv (schedule_input i' n' t'))"
    using json_parse_stringify [OF schedule_jwf] unfolding schedule_text_def by (metis option.inject)
  then show "i = i'" by (simp add: envelope_jv_def schedule_input_def)
qed

end
