(* ===== verification/Schedule_Runtime.thy ===== *)
theory Schedule_Runtime
  imports Schedule_Stores Render_Event Event_Queue Ledger_Types "HOL-Library.List_Lexorder"
begin

text \<open>
  \<open>src/agent/schedule-runtime.ts\<close> and \<open>schedule-delivery-coordinator.ts\<close>, wired as in \<open>runtime.ts\<close>: plans, their
  timers, the firing of a plan and the delivery of its notification.  Operations run one after the other
  (\<open>enqueueMutation\<close>), so each is one function of the state; which writes succeed, whether a timer can be set
  and the clock are arguments.  A crash between two writes is a failed write followed by a restart.  A plan time that
  the ISO pattern does not admit is outside the model (\<open>UnreadTime\<close>); the runtime stores no other.
\<close>

section \<open>State\<close>

datatype run_state = NewState | StartingState | StartedState | StoppedState

record schedule_disk =
  sd_plans :: "schedule_job list option"
  sd_occurrences :: occurrence_file
  sd_pending :: occurrence_file

record schedule_runtime =
  sr_state :: run_state
  sr_jobs :: "schedule_job list"
  sr_timers :: "(jstr \<times> jstr) list"
  sr_queued :: "jstr set"
  sr_queue :: "bot_event event_queue"
  sr_disk :: schedule_disk

definition new_runtime :: "schedule_disk \<Rightarrow> schedule_runtime" where
  "new_runtime disk = \<lparr>sr_state = NewState, sr_jobs = [], sr_timers = [], sr_queued = {}, sr_queue = empty_queue, sr_disk = disk\<rparr>"

datatype runtime_error =
    NotStarted | AlreadyStarted | Stopped
  | InvalidInput | ModelError schedule_error
  | NameConflict jstr | ActiveLimitReached
  | PersistenceFailed store_error | JobsInvalid | TimerFailed
  | UnreadTime

text \<open>The writes of a firing that succeed.\<close>

record firing_writes =
  fw_occurrence :: bool
  fw_pending :: bool
  fw_plans :: bool

section \<open>Maps\<close>

fun jobs_set :: "schedule_job \<Rightarrow> schedule_job list \<Rightarrow> schedule_job list" where
  "jobs_set j [] = [j]"
| "jobs_set j (k # ks) = (if sj_id k = sj_id j then j # ks else k # jobs_set j ks)"

definition jobs_get :: "jstr \<Rightarrow> schedule_job list \<Rightarrow> schedule_job option" where
  "jobs_get i jobs = find (\<lambda>j. sj_id j = i) jobs"

definition jobs_of :: "schedule_job list \<Rightarrow> schedule_job list" where
  "jobs_of jobs = foldl (\<lambda>m j. jobs_set j m) [] jobs"

definition clearJobTimer :: "jstr \<Rightarrow> schedule_runtime \<Rightarrow> schedule_runtime" where
  "clearJobTimer i r = r\<lparr>sr_timers := filter (\<lambda>(k, _). k \<noteq> i) (sr_timers r)\<rparr>"

definition put_timer :: "jstr \<Rightarrow> jstr \<Rightarrow> schedule_runtime \<Rightarrow> schedule_runtime" where
  "put_timer i at r = (let r = clearJobTimer i r in r\<lparr>sr_timers := sr_timers r @ [(i, at)]\<rparr>)"

text \<open>The timer goes off at the time of the plan or after the longest delay a timer can have, whichever is
  earlier; when it does is not part of the state.\<close>

definition armJob :: "bool \<Rightarrow> schedule_job \<Rightarrow> schedule_runtime \<Rightarrow> (runtime_error + unit) \<times> schedule_runtime" where
  "armJob timerOk j r =
     (let r = clearJobTimer (sj_id j) r in
      if sr_state r \<noteq> StartedState then (Inr (), r)
      else if timerOk then (Inr (), put_timer (sj_id j) (sj_at j) r)
      else (Inl TimerFailed, r))"

section \<open>The event queue of the coordinator\<close>

fun coordinated_enqueue :: "bot_event \<Rightarrow> schedule_runtime \<Rightarrow> nat \<times> schedule_runtime" where
  "coordinated_enqueue (ScheduledWake i n t) r =
     (if i \<in> sr_queued r then (size_of (sr_queue r), r)
      else (let (n', q) = enqueue (ScheduledWake i n t) (sr_queue r)
            in (n', r\<lparr>sr_queue := q, sr_queued := insert i (sr_queued r)\<rparr>)))"
| "coordinated_enqueue e r = (let (n', q) = enqueue e (sr_queue r) in (n', r\<lparr>sr_queue := q\<rparr>))"

definition coordinated_clear :: "schedule_runtime \<Rightarrow> nat \<times> schedule_runtime" where
  "coordinated_clear r = (let (n, q) = clear (sr_queue r) in (n, r\<lparr>sr_queue := q, sr_queued := {}\<rparr>))"

definition wake_of :: "schedule_occurrence \<Rightarrow> bot_event option" where
  "wake_of x = (case date_parse (oc_scheduledFor x) of None \<Rightarrow> None
     | Some t \<Rightarrow> Some (ScheduledWake (oc_scheduleId x) (oc_name x) t))"

section \<open>Firing\<close>

definition occurrence_of :: "schedule_job \<Rightarrow> schedule_occurrence" where
  "occurrence_of j = \<lparr>oc_scheduleId = sj_id j, oc_name = sj_name j, oc_intention = sj_intention j, oc_scheduledFor = sj_at j\<rparr>"

text \<open>The three writes of a firing; a failure leaves what was written before.\<close>

definition persist_firing ::
  "(jstr \<Rightarrow> bool) \<Rightarrow> firing_writes \<Rightarrow> schedule_occurrence \<Rightarrow> schedule_job list \<Rightarrow> schedule_disk \<Rightarrow> (store_error + unit) \<times> schedule_disk" where
  "persist_firing isoTime w x nextJobs d =
     (case occurrence_record isoTime (fw_occurrence w) x (sd_occurrences d) of
        (Inl e, f) \<Rightarrow> (Inl e, d\<lparr>sd_occurrences := f\<rparr>)
      | (Inr _, f) \<Rightarrow>
          (let d = d\<lparr>sd_occurrences := f\<rparr> in
           case recordPending isoTime (fw_pending w) x (sd_pending d) of
             (Inl e, p) \<Rightarrow> (Inl e, d\<lparr>sd_pending := p\<rparr>)
           | (Inr _, p) \<Rightarrow>
               (let d = d\<lparr>sd_pending := p\<rparr>;
                    (res, s) = schedule_replace isoTime (fw_plans w) nextJobs (sd_plans d)
                in (res, d\<lparr>sd_plans := s\<rparr>))))"

definition processTimer ::
  "(jstr \<Rightarrow> bool) \<Rightarrow> int \<Rightarrow> firing_writes \<Rightarrow> bool \<Rightarrow> jstr \<Rightarrow> jstr \<Rightarrow> schedule_runtime
    \<Rightarrow> (runtime_error + unit) \<times> schedule_runtime" where
  "processTimer isoTime now w timerOk i expectedAt r =
     (if sr_state r \<noteq> StartedState then (Inr (), r)
      else (case jobs_get i (sr_jobs r) of
              None \<Rightarrow> (Inr (), r)
            | Some j \<Rightarrow>
                if sj_at j \<noteq> expectedAt then (Inr (), r)
                else (case wake_of (occurrence_of j) of
                        None \<Rightarrow> (Inl UnreadTime, r)
                      | Some e \<Rightarrow>
                          if now < sw_scheduledFor e then armJob timerOk j r
                          else (let nextJobs = filter (\<lambda>k. sj_id k \<noteq> i) (sr_jobs r) in
                                case persist_firing isoTime w (occurrence_of j) nextJobs (sr_disk r) of
                                  (Inl err, d) \<Rightarrow> (Inl (PersistenceFailed err), r\<lparr>sr_disk := d\<rparr>)
                                | (Inr _, d) \<Rightarrow>
                                    (Inr (), snd (coordinated_enqueue e
                                      (clearJobTimer i (r\<lparr>sr_disk := d, sr_jobs := jobs_of nextJobs\<rparr>))))))))"

text \<open>The callback of a timer: a failed firing is tried again after a delay.\<close>

definition queueTimer ::
  "(jstr \<Rightarrow> bool) \<Rightarrow> int \<Rightarrow> firing_writes \<Rightarrow> bool \<Rightarrow> bool \<Rightarrow> jstr \<Rightarrow> jstr \<Rightarrow> schedule_runtime \<Rightarrow> schedule_runtime" where
  "queueTimer isoTime now w timerOk retryOk i expectedAt r =
     (case processTimer isoTime now w timerOk i expectedAt r of
        (Inr _, r') \<Rightarrow> r'
      | (Inl _, r') \<Rightarrow>
          (case jobs_get i (sr_jobs r') of
             None \<Rightarrow> r'
           | Some j \<Rightarrow>
               if sr_state r' = StartedState \<and> sj_at j = expectedAt
               then if retryOk then put_timer i expectedAt r' else clearJobTimer i r'
               else r'))"

section \<open>The interface\<close>

fun assertStarted :: "run_state \<Rightarrow> runtime_error + unit" where
  "assertStarted NewState = Inl NotStarted"
| "assertStarted StartingState = Inl AlreadyStarted"
| "assertStarted StoppedState = Inl Stopped"
| "assertStarted StartedState = Inr ()"

fun arm_jobs :: "(jstr \<Rightarrow> bool) \<Rightarrow> schedule_job list \<Rightarrow> schedule_runtime \<Rightarrow> (runtime_error + unit) \<times> schedule_runtime" where
  "arm_jobs timerOk [] r = (Inr (), r)"
| "arm_jobs timerOk (j # rest) r =
     (case armJob (timerOk (sj_id j)) j r of
        (Inl e, r') \<Rightarrow> (Inl e, r')
      | (Inr _, r') \<Rightarrow> arm_jobs timerOk rest r')"

text \<open>\<open>start\<close> up to the read of the file, and from there on.\<close>

definition start_begin :: "schedule_runtime \<Rightarrow> (runtime_error + unit) \<times> schedule_runtime" where
  "start_begin r =
     (if sr_state r = StartingState \<or> sr_state r = StartedState then (Inl AlreadyStarted, r)
      else if sr_state r = StoppedState then (Inl Stopped, r)
      else (Inr (), r\<lparr>sr_state := StartingState\<rparr>))"

definition start_loaded :: "(jstr \<Rightarrow> bool) \<Rightarrow> (jstr \<Rightarrow> bool) \<Rightarrow> schedule_runtime \<Rightarrow> (runtime_error + unit) \<times> schedule_runtime" where
  "start_loaded isoTime timerOk r =
     (case bindE (schedule_load isoTime (sd_plans (sr_disk r))) (\<lambda>jobs.
             case validateScheduleJobs isoTime jobs of None \<Rightarrow> Inl StoreInvalid | Some jobs \<Rightarrow> Inr jobs) of
        Inl e \<Rightarrow> (Inl (PersistenceFailed e), r\<lparr>sr_state := NewState\<rparr>)
      | Inr loaded \<Rightarrow>
          (let r = r\<lparr>sr_jobs := jobs_of loaded, sr_state := StartedState\<rparr> in
           case arm_jobs timerOk (sr_jobs r) r of
             (Inl e, r') \<Rightarrow> (Inl e, r'\<lparr>sr_timers := [], sr_state := StoppedState\<rparr>)
           | (Inr _, r') \<Rightarrow> (Inr (), r')))"

definition start :: "(jstr \<Rightarrow> bool) \<Rightarrow> (jstr \<Rightarrow> bool) \<Rightarrow> schedule_runtime \<Rightarrow> (runtime_error + unit) \<times> schedule_runtime" where
  "start isoTime timerOk r =
     (case start_begin r of (Inl e, r') \<Rightarrow> (Inl e, r') | (Inr _, r') \<Rightarrow> start_loaded isoTime timerOk r')"

datatype create_result = Created schedule_job | Existing schedule_job

definition create ::
  "(jstr \<Rightarrow> bool) \<Rightarrow> int \<Rightarrow> bool \<Rightarrow> bool \<Rightarrow> jstr \<Rightarrow> jstr \<Rightarrow> jstr \<Rightarrow> jv \<Rightarrow> schedule_runtime
    \<Rightarrow> (runtime_error + create_result) \<times> schedule_runtime" where
  "create isoTime now written timerOk newId rawName rawIntention atInput r =
     (case assertStarted (sr_state r) of
        Inl e \<Rightarrow> (Inl e, r)
      | Inr _ \<Rightarrow>
     (case bounded_text max_name_length rawName of
        None \<Rightarrow> (Inl InvalidInput, r)
      | Some name \<Rightarrow>
     (case bounded_text max_intention_length rawIntention of
        None \<Rightarrow> (Inl InvalidInput, r)
      | Some intention \<Rightarrow>
     (case normalizeScheduleAt atInput (Some now) of
        Inl e \<Rightarrow> (Inl (ModelError e), r)
      | Inr at \<Rightarrow>
     (case find (\<lambda>j. sj_name j = name) (sr_jobs r) of
        Some j \<Rightarrow> (if sj_intention j = intention \<and> sj_at j = at then Inr (Existing j) else Inl (NameConflict (sj_id j)), r)
      | None \<Rightarrow>
          if max_active_schedules \<le> length (sr_jobs r) then (Inl ActiveLimitReached, r)
          else (let j = \<lparr>sj_id = newId, sj_name = name, sj_intention = intention, sj_at = at, sj_createdAt = to_iso_string now\<rparr> in
                if validateScheduleJobs isoTime (sr_jobs r @ [j]) = None then (Inl JobsInvalid, r)
                else (case schedule_replace isoTime written (sr_jobs r @ [j]) (sd_plans (sr_disk r)) of
                        (Inl e, _) \<Rightarrow> (Inl (PersistenceFailed e), r)
                      | (Inr _, s) \<Rightarrow>
                          (case armJob timerOk j (r\<lparr>sr_disk := (sr_disk r)\<lparr>sd_plans := s\<rparr>, sr_jobs := jobs_set j (sr_jobs r)\<rparr>) of
                             (Inl e, r') \<Rightarrow> (Inl e, r')
                           | (Inr _, r') \<Rightarrow> (Inr (Created j), r')))))))))"

definition list_plans :: "schedule_runtime \<Rightarrow> runtime_error + schedule_job list" where
  "list_plans r = bindE (assertStarted (sr_state r)) (\<lambda>_. Inr (sort_key sj_at (sr_jobs r)))"

definition getOccurrence :: "(jstr \<Rightarrow> bool) \<Rightarrow> jstr \<Rightarrow> schedule_runtime \<Rightarrow> runtime_error + schedule_occurrence option" where
  "getOccurrence isoTime i r = bindE (assertStarted (sr_state r)) (\<lambda>_.
     if trim i = [] \<or> max_id_length < length i then Inr None
     else (case occurrence_get isoTime i (sd_occurrences (sr_disk r)) of
             Inl e \<Rightarrow> Inl (PersistenceFailed e) | Inr x \<Rightarrow> Inr x))"

datatype cancel_result = CancelledPlan | AlreadyAbsent

definition cancel_plan :: "(jstr \<Rightarrow> bool) \<Rightarrow> bool \<Rightarrow> jstr \<Rightarrow> schedule_runtime \<Rightarrow> (runtime_error + cancel_result) \<times> schedule_runtime" where
  "cancel_plan isoTime written i r =
     (case assertStarted (sr_state r) of
        Inl e \<Rightarrow> (Inl e, r)
      | Inr _ \<Rightarrow>
          if jobs_get i (sr_jobs r) = None then (Inr AlreadyAbsent, r)
          else (case schedule_replace isoTime written (filter (\<lambda>j. sj_id j \<noteq> i) (sr_jobs r)) (sd_plans (sr_disk r)) of
                  (Inl e, _) \<Rightarrow> (Inl (PersistenceFailed e), r)
                | (Inr _, s) \<Rightarrow>
                    (Inr CancelledPlan, clearJobTimer i
                       (r\<lparr>sr_disk := (sr_disk r)\<lparr>sd_plans := s\<rparr>, sr_jobs := filter (\<lambda>j. sj_id j \<noteq> i) (sr_jobs r)\<rparr>))))"

text \<open>\<open>stop\<close> waits for the running operation before it forgets the plans.\<close>

definition stop :: "schedule_runtime \<Rightarrow> schedule_runtime" where
  "stop r = (if sr_state r = StoppedState then r else r\<lparr>sr_state := StoppedState, sr_timers := [], sr_jobs := []\<rparr>)"

section \<open>Delivery\<close>

definition complete_pending ::
  "(jstr \<Rightarrow> bool) \<Rightarrow> bool \<Rightarrow> jstr \<Rightarrow> schedule_runtime \<Rightarrow> (store_error + unit) \<times> schedule_runtime" where
  "complete_pending isoTime written i r =
     (case complete_delivery isoTime written i (sd_pending (sr_disk r)) of
        (Inl e, p) \<Rightarrow> (Inl e, r\<lparr>sr_disk := (sr_disk r)\<lparr>sd_pending := p\<rparr>\<rparr>)
      | (Inr _, p) \<Rightarrow> (Inr (), r\<lparr>sr_disk := (sr_disk r)\<lparr>sd_pending := p\<rparr>, sr_queued := sr_queued r - {i}\<rparr>))"

text \<open>\<open>written i\<close>: the write that completes the delivery \<open>i\<close> succeeds.\<close>

fun replay_loop ::
  "(jstr \<Rightarrow> bool) \<Rightarrow> (jstr \<Rightarrow> bool) \<Rightarrow> (bot_event \<Rightarrow> bool) \<Rightarrow> jstr set \<Rightarrow> schedule_occurrence list \<Rightarrow> schedule_runtime
    \<Rightarrow> (runtime_error + unit) \<times> schedule_runtime" where
  "replay_loop isoTime written committed active [] r = (Inr (), r)"
| "replay_loop isoTime written committed active (x # xs) r =
     (if oc_scheduleId x \<in> active then replay_loop isoTime written committed active xs r
      else (case wake_of x of
              None \<Rightarrow> (Inl UnreadTime, r)
            | Some e \<Rightarrow>
                if committed e
                then (case complete_pending isoTime (written (oc_scheduleId x)) (oc_scheduleId x) r of
                        (Inl err, r') \<Rightarrow> (Inl (PersistenceFailed err), r')
                      | (Inr _, r') \<Rightarrow> replay_loop isoTime written committed active xs r')
                else replay_loop isoTime written committed active xs (snd (coordinated_enqueue e r))))"

definition replayPending ::
  "(jstr \<Rightarrow> bool) \<Rightarrow> (jstr \<Rightarrow> bool) \<Rightarrow> (bot_event \<Rightarrow> bool) \<Rightarrow> jstr set \<Rightarrow> schedule_runtime
    \<Rightarrow> (runtime_error + unit) \<times> schedule_runtime" where
  "replayPending isoTime written committed active r =
     (case loadPending isoTime (sd_pending (sr_disk r)) of
        Inl e \<Rightarrow> (Inl (PersistenceFailed e), r)
      | Inr xs \<Rightarrow> replay_loop isoTime written committed active xs r)"

fun wake_id :: "bot_event \<Rightarrow> jstr option" where
  "wake_id (ScheduledWake i n t) = Some i"
| "wake_id _ = None"

text \<open>The ids of the scheduled wake-ups among the events, each once.\<close>

fun wake_ids :: "bot_event list \<Rightarrow> jstr list" where
  "wake_ids [] = []"
| "wake_ids (e # es) = (case wake_id e of None \<Rightarrow> wake_ids es | Some i \<Rightarrow> i # filter (\<lambda>k. k \<noteq> i) (wake_ids es))"

fun mark_loop :: "(jstr \<Rightarrow> bool) \<Rightarrow> (jstr \<Rightarrow> bool) \<Rightarrow> jstr list \<Rightarrow> schedule_runtime \<Rightarrow> (store_error + unit) \<times> schedule_runtime" where
  "mark_loop isoTime written [] r = (Inr (), r)"
| "mark_loop isoTime written (i # is) r =
     (case complete_pending isoTime (written i) i r of
        (Inl e, r') \<Rightarrow> (Inl e, r')
      | (Inr _, r') \<Rightarrow> mark_loop isoTime written is r')"

definition markCommitted ::
  "(jstr \<Rightarrow> bool) \<Rightarrow> (jstr \<Rightarrow> bool) \<Rightarrow> bot_event list \<Rightarrow> schedule_runtime \<Rightarrow> (store_error + unit) \<times> schedule_runtime" where
  "markCommitted isoTime written events r = mark_loop isoTime written (wake_ids events) r"

text \<open>The check of \<open>runtime.ts\<close>: the rendering of the event is the content of a user message of the ledger.\<close>

definition isCommitted :: "jstr set \<Rightarrow> bot_event \<Rightarrow> bool" where
  "isCommitted texts e = (case renderBotEvent e of Inr (Some s) \<Rightarrow> s \<in> texts | _ \<Rightarrow> False)"

text \<open>\<open>startBackgroundServices\<close>: start, list the plans, replay.\<close>

definition start_background ::
  "(jstr \<Rightarrow> bool) \<Rightarrow> (jstr \<Rightarrow> bool) \<Rightarrow> (jstr \<Rightarrow> bool) \<Rightarrow> jstr set \<Rightarrow> schedule_runtime \<Rightarrow> (runtime_error + unit) \<times> schedule_runtime" where
  "start_background isoTime timerOk written texts r =
     (case start isoTime timerOk r of
        (Inl e, r') \<Rightarrow> (Inl e, r')
      | (Inr _, r') \<Rightarrow>
          (case list_plans r' of
             Inl e \<Rightarrow> (Inl e, r')
           | Inr jobs \<Rightarrow> replayPending isoTime written (isCommitted texts) (sj_id ` set jobs) r'))"

end
