(* ===== verification/Schedule_Life.thy ===== *)
theory Schedule_Life
  imports Schedule_Runtime
begin

text \<open>
  The contract of scheduled delivery, apart from files and timers: a plan is active, then pending, its notification
  queued, and finally part of the ledger.  The steps are those a run may take; the invariant says that no plan is
  lost and none is delivered twice.
\<close>

section \<open>States and steps\<close>

record life =
  lf_created :: "schedule_job list"
  lf_cancelled :: "jstr set"
  lf_active :: "schedule_job list"
  lf_pending :: "schedule_occurrence list"
  lf_queued :: "jstr set"
  lf_events :: "bot_event list"
  lf_ledger :: "jstr list"

definition waiting_ids :: "bot_event list \<Rightarrow> jstr list" where
  "waiting_ids es = List.map_filter wake_id es"

fun wake_text :: "bot_event \<Rightarrow> jstr option" where
  "wake_text (ScheduledWake i n t) = Some (schedule_text i n t)"
| "wake_text _ = None"

definition wake_texts :: "bot_event list \<Rightarrow> jstr list" where
  "wake_texts es = List.map_filter wake_text es"

definition is_schedule_text :: "jstr \<Rightarrow> bool" where
  "is_schedule_text m \<longleftrightarrow> (\<exists>i n t. m = schedule_text i n t)"

definition valid_plans :: "(jstr \<Rightarrow> bool) \<Rightarrow> schedule_job list \<Rightarrow> bool" where
  "valid_plans isoTime jobs \<longleftrightarrow> validateScheduleJobs isoTime jobs = Some jobs"

inductive life_step :: "(jstr \<Rightarrow> bool) \<Rightarrow> life \<Rightarrow> life \<Rightarrow> bool" for isoTime where
  l_create: "parse_job isoTime j = Some j \<Longrightarrow> sj_id j \<notin> sj_id ` set (lf_created a) \<Longrightarrow> valid_plans isoTime (lf_active a @ [j]) \<Longrightarrow>
    life_step isoTime a (a\<lparr>lf_active := lf_active a @ [j], lf_created := lf_created a @ [j]\<rparr>)"
| l_cancel: "life_step isoTime a (a\<lparr>lf_active := filter (\<lambda>j. sj_id j \<noteq> i) (lf_active a), lf_cancelled := insert i (lf_cancelled a)\<rparr>)"
| l_record: "j \<in> set (lf_active a) \<Longrightarrow> sj_id j \<notin> oc_scheduleId ` set (lf_pending a) \<Longrightarrow> length (lf_pending a) < max_occurrences \<Longrightarrow>
    life_step isoTime a (a\<lparr>lf_pending := lf_pending a @ [occurrence_of j]\<rparr>)"
| l_fire: "j \<in> set (lf_active a) \<Longrightarrow> occurrence_of j \<in> set (lf_pending a) \<Longrightarrow> wake_of (occurrence_of j) = Some e \<Longrightarrow>
    life_step isoTime a (a\<lparr>lf_active := filter (\<lambda>k. sj_id k \<noteq> sj_id j) (lf_active a),
      lf_queued := insert (sj_id j) (lf_queued a), lf_events := lf_events a @ [e]\<rparr>)"
| l_replay: "x \<in> set (lf_pending a) \<Longrightarrow> oc_scheduleId x \<notin> sj_id ` set (lf_active a) \<Longrightarrow> wake_of x = Some e \<Longrightarrow>
    \<not> isCommitted (set (lf_ledger a)) e \<Longrightarrow> oc_scheduleId x \<notin> lf_queued a \<Longrightarrow>
    life_step isoTime a (a\<lparr>lf_queued := insert (oc_scheduleId x) (lf_queued a), lf_events := lf_events a @ [e]\<rparr>)"
| l_complete: "\<forall>x \<in> set (lf_pending a). oc_scheduleId x = i \<longrightarrow> (\<exists>e. wake_of x = Some e \<and> isCommitted (set (lf_ledger a)) e) \<Longrightarrow>
    i \<notin> set (waiting_ids (lf_events a)) \<Longrightarrow>
    life_step isoTime a (a\<lparr>lf_pending := filter (\<lambda>x. oc_scheduleId x \<noteq> i) (lf_pending a), lf_queued := lf_queued a - {i}\<rparr>)"
| l_event: "wake_id e = None \<Longrightarrow> life_step isoTime a (a\<lparr>lf_events := lf_events a @ [e]\<rparr>)"
| l_commit: "lf_events a = taken @ rest \<Longrightarrow> \<forall>m \<in> set others. \<not> is_schedule_text m \<Longrightarrow>
    life_step isoTime a (a\<lparr>lf_ledger := lf_ledger a @ others @ wake_texts taken, lf_events := rest\<rparr>)"
| l_requeue: "lf_events a = taken @ rest \<Longrightarrow> life_step isoTime a (a\<lparr>lf_events := rest @ taken\<rparr>)"
| l_lose: "lf_events a = taken @ rest \<Longrightarrow> life_step isoTime a (a\<lparr>lf_events := rest\<rparr>)"
| l_restart: "life_step isoTime a (a\<lparr>lf_queued := {}, lf_events := []\<rparr>)"

section \<open>Invariant\<close>

definition plan_text :: "schedule_job \<Rightarrow> jstr" where
  "plan_text j = (case date_parse (sj_at j) of None \<Rightarrow> [] | Some t \<Rightarrow> schedule_text (sj_id j) (sj_name j) t)"

definition pending_ok :: "(jstr \<Rightarrow> bool) \<Rightarrow> schedule_occurrence list \<Rightarrow> bool" where
  "pending_ok isoTime xs \<longleftrightarrow> length xs \<le> max_occurrences \<and> (\<forall>x \<in> set xs. parse_occurrence isoTime x = Some x)
     \<and> distinct (map oc_scheduleId xs)"

definition stores_inv :: "(jstr \<Rightarrow> bool) \<Rightarrow> life \<Rightarrow> bool" where
  "stores_inv isoTime a \<longleftrightarrow> distinct (map sj_id (lf_created a)) \<and> (\<forall>j \<in> set (lf_created a). parse_job isoTime j = Some j)
     \<and> valid_plans isoTime (lf_active a) \<and> set (lf_active a) \<subseteq> set (lf_created a)
     \<and> pending_ok isoTime (lf_pending a) \<and> set (lf_pending a) \<subseteq> occurrence_of ` set (lf_created a)"

definition wakes_known :: "schedule_job list \<Rightarrow> bot_event list \<Rightarrow> bool" where
  "wakes_known created es \<longleftrightarrow> (\<forall>e \<in> set es. wake_id e \<noteq> None \<longrightarrow> Some e \<in> (\<lambda>j. wake_of (occurrence_of j)) ` set created)"

definition queue_agrees :: "life \<Rightarrow> bool" where
  "queue_agrees a \<longleftrightarrow> distinct (waiting_ids (lf_events a)) \<and> set (waiting_ids (lf_events a)) \<subseteq> lf_queued a
     \<and> lf_queued a \<subseteq> sj_id ` set (lf_created a) \<and> sj_id ` set (lf_active a) \<inter> lf_queued a = {}
     \<and> wakes_known (lf_created a) (lf_events a)"

definition ledger_agrees :: "life \<Rightarrow> bool" where
  "ledger_agrees a \<longleftrightarrow> (\<forall>j \<in> set (lf_created a). count_list (lf_ledger a) (plan_text j) \<le> 1
       \<and> (sj_id j \<in> set (waiting_ids (lf_events a)) \<or> j \<in> set (lf_active a) \<longrightarrow> plan_text j \<notin> set (lf_ledger a))
       \<and> (sj_id j \<notin> lf_cancelled a \<longrightarrow>
            j \<in> set (lf_active a) \<or> occurrence_of j \<in> set (lf_pending a) \<or> plan_text j \<in> set (lf_ledger a)))
     \<and> (\<forall>i n t. schedule_text i n t \<in> set (lf_ledger a) \<longrightarrow> i \<in> sj_id ` set (lf_created a))"

definition life_inv :: "(jstr \<Rightarrow> bool) \<Rightarrow> life \<Rightarrow> bool" where
  "life_inv isoTime a \<longleftrightarrow> stores_inv isoTime a \<and> queue_agrees a \<and> ledger_agrees a"

section \<open>Plans and their notifications\<close>

lemma valid_plansD:
  assumes "valid_plans isoTime jobs"
  shows "\<forall>j \<in> set jobs. parse_job isoTime j = Some j" "distinct (map sj_id jobs)" "distinct (map sj_name jobs)"
    "length jobs \<le> max_active_schedules"
proof -
  have *: "those (map (parse_job isoTime) jobs) = Some jobs \<and> distinct (map sj_id jobs) \<and> distinct (map sj_name jobs)
      \<and> length jobs \<le> max_active_schedules"
    using assms by (auto simp: valid_plans_def validateScheduleJobs_def split: if_splits option.splits)
  show "\<forall>j \<in> set jobs. parse_job isoTime j = Some j"
    by (intro ballI, rule those_parsed [OF conjunct1 [OF *]]) (rule parse_job_idem)
  show "distinct (map sj_id jobs)" "distinct (map sj_name jobs)" "length jobs \<le> max_active_schedules" using * by simp_all
qed

lemma valid_plansI:
  "\<forall>j \<in> set jobs. parse_job isoTime j = Some j \<Longrightarrow> distinct (map sj_id jobs) \<Longrightarrow> distinct (map sj_name jobs)
    \<Longrightarrow> length jobs \<le> max_active_schedules \<Longrightarrow> valid_plans isoTime jobs"
  by (simp add: valid_plans_def validateScheduleJobs_def those_fixed)

lemma valid_plans_filter: "valid_plans isoTime jobs \<Longrightarrow> valid_plans isoTime (filter P jobs)"
  using valid_plansD [of isoTime jobs] le_trans [OF length_filter_le [of P jobs]]
  by (intro valid_plansI) (auto simp: distinct_map_filter)

lemma valid_plans_Nil [simp]: "valid_plans isoTime []"
  by (rule valid_plansI) simp_all

lemma parsed_job_time: "parse_job isoTime j = Some k \<Longrightarrow> \<exists>t. date_parse (sj_at j) = Some t"
  by (auto simp: parse_job_def delay_ok_def parseDate_def split: option.splits if_splits sum.splits)

lemma parsed_job_wake:
  assumes "parse_job isoTime j = Some k"
  obtains t where "wake_of (occurrence_of j) = Some (ScheduledWake (sj_id j) (sj_name j) t)" "plan_text j = schedule_text (sj_id j) (sj_name j) t"
  using parsed_job_time [OF assms] by (auto simp: wake_of_def occurrence_of_def plan_text_def)

lemma parsed_job_occurrence: "parse_job isoTime j = Some j \<Longrightarrow> parse_occurrence isoTime (occurrence_of j) = Some (occurrence_of j)"
proof -
  assume "parse_job isoTime j = Some j"
  then obtain i n t where b: "bounded_text max_id_length (sj_id j) = Some i" "bounded_text max_name_length (sj_name j) = Some n"
    "bounded_text max_intention_length (sj_intention j) = Some t" "isoTime (sj_at j)" "j\<lparr>sj_id := i, sj_name := n, sj_intention := t\<rparr> = j"
    by (auto simp: parse_job_def split: option.splits if_splits)
  then have "i = sj_id j" "n = sj_name j" "t = sj_intention j" by (cases j, simp)+
  then show "parse_occurrence isoTime (occurrence_of j) = Some (occurrence_of j)"
    using b by (simp add: parse_occurrence_def occurrence_of_def)
qed

lemma occurrence_id [simp]: "oc_scheduleId (occurrence_of j) = sj_id j"
  by (simp add: occurrence_of_def)

lemma plan_text_id: "parse_job isoTime j = Some j \<Longrightarrow> plan_text j = schedule_text i n t \<Longrightarrow> sj_id j = i"
  by (metis parsed_job_wake schedule_text_id)

lemma committed_text:
  "parse_job isoTime j = Some j \<Longrightarrow> wake_of (occurrence_of j) = Some e \<Longrightarrow> isCommitted texts e \<longleftrightarrow> plan_text j \<in> texts"
  by (rule parsed_job_wake [of isoTime j j]) (auto simp: isCommitted_def)

lemma waiting_ids_simps [simp]:
  "waiting_ids [] = []" "waiting_ids (es @ fs) = waiting_ids es @ waiting_ids fs"
  "waiting_ids (e # es) = (case wake_id e of None \<Rightarrow> waiting_ids es | Some i \<Rightarrow> i # waiting_ids es)"
  by (simp_all add: waiting_ids_def map_filter_simps List.map_filter_def split: option.splits)

lemma wake_texts_simps [simp]:
  "wake_texts [] = []" "wake_texts (es @ fs) = wake_texts es @ wake_texts fs"
  "wake_texts (e # es) = (case wake_text e of None \<Rightarrow> wake_texts es | Some i \<Rightarrow> i # wake_texts es)"
  by (simp_all add: wake_texts_def map_filter_simps List.map_filter_def split: option.splits)

lemma wake_text_mem: "m \<in> set (wake_texts es) \<Longrightarrow> \<exists>i n t. m = schedule_text i n t \<and> ScheduledWake i n t \<in> set es \<and> i \<in> set (waiting_ids es)"
proof (induction es)
  case (Cons e es)
  then show ?case by (cases e) auto
qed simp

lemma wake_texts_count: "distinct (waiting_ids es) \<Longrightarrow> count_list (wake_texts es) m \<le> 1"
proof (induction es)
  case (Cons e es)
  show ?case
  proof (cases "wake_text e")
    case None
    then show ?thesis using Cons by (cases e) auto
  next
    case (Some u)
    then obtain i n t where e: "e = ScheduledWake i n t" "u = schedule_text i n t" by (cases e) auto
    have "count_list (wake_texts es) u = 0" unfolding count_list_0_iff
    proof
      assume "u \<in> set (wake_texts es)"
      then obtain i' n' t' where w: "u = schedule_text i' n' t'" "i' \<in> set (waiting_ids es)" using wake_text_mem by blast
      then have "i' = i" using e(2) schedule_text_id by metis
      then show False using w(2) Cons.prems e(1) by simp
    qed
    then show ?thesis using Cons e by (cases "u = m") simp_all
  qed
qed simp

lemma count_le_1_mem: "count_list xs x = 0 \<longleftrightarrow> x \<notin> set xs"
  by (rule count_list_0_iff)

lemma created_inj:
  "stores_inv isoTime a \<Longrightarrow> j \<in> set (lf_created a) \<Longrightarrow> k \<in> set (lf_created a) \<Longrightarrow> sj_id j = sj_id k \<Longrightarrow> j = k"
  by (auto simp: stores_inv_def distinct_map inj_on_def)


section \<open>The steps keep the invariant\<close>

lemma stores_fixed: "stores_inv isoTime a \<Longrightarrow> j \<in> set (lf_created a) \<Longrightarrow> parse_job isoTime j = Some j"
  by (simp add: stores_inv_def)

lemma active_created: "stores_inv isoTime a \<Longrightarrow> j \<in> set (lf_active a) \<Longrightarrow> j \<in> set (lf_created a)"
  by (auto simp: stores_inv_def)

lemma pending_created:
  assumes "stores_inv isoTime a" "x \<in> set (lf_pending a)"
  obtains j where "j \<in> set (lf_created a)" "x = occurrence_of j"
  using assms by (auto simp: stores_inv_def)

lemma occurrence_inj: "parse_job isoTime j = Some j \<Longrightarrow> occurrence_of j = occurrence_of k \<Longrightarrow> sj_id j = sj_id k"
  by (metis occurrence_id)

lemma stores_keep:
  assumes "stores_inv isoTime a" "lf_created b = lf_created a"
    and "valid_plans isoTime (lf_active b)" "set (lf_active b) \<subseteq> set (lf_active a)"
    and "pending_ok isoTime (lf_pending b)" "set (lf_pending b) \<subseteq> occurrence_of ` set (lf_created a)"
  shows "stores_inv isoTime b"
  using assms by (auto simp: stores_inv_def)

lemma stores_create:
  assumes "stores_inv isoTime a" "parse_job isoTime j = Some j" "sj_id j \<notin> sj_id ` set (lf_created a)"
    "valid_plans isoTime (lf_active a @ [j])"
  shows "stores_inv isoTime (a\<lparr>lf_active := lf_active a @ [j], lf_created := lf_created a @ [j]\<rparr>)"
  using assms by (auto simp: stores_inv_def)

lemma pending_ok_filter: "pending_ok isoTime xs \<Longrightarrow> pending_ok isoTime (filter P xs)"
  using le_trans [OF length_filter_le [of P xs]] by (auto simp: pending_ok_def distinct_map_filter)

lemma pending_ok_snoc:
  "pending_ok isoTime xs \<Longrightarrow> parse_occurrence isoTime x = Some x \<Longrightarrow> oc_scheduleId x \<notin> oc_scheduleId ` set xs
    \<Longrightarrow> length xs < max_occurrences \<Longrightarrow> pending_ok isoTime (xs @ [x])"
  by (auto simp: pending_ok_def)

lemma stores_step:
  assumes "life_step isoTime a b" "stores_inv isoTime a"
  shows "stores_inv isoTime b"
  using assms
proof (induction rule: life_step.induct)
  case (l_create j a)
  then show ?case by (intro stores_create)
next
  case (l_cancel a i)
  then show ?case by (intro stores_keep [OF l_cancel]) (auto simp: stores_inv_def valid_plans_filter)
next
  case (l_record j a)
  have j: "j \<in> set (lf_created a)" using active_created l_record by blast
  then have "parse_occurrence isoTime (occurrence_of j) = Some (occurrence_of j)"
    using parsed_job_occurrence stores_fixed l_record.prems by blast
  then have "pending_ok isoTime (lf_pending a @ [occurrence_of j])"
    using l_record by (intro pending_ok_snoc) (simp_all add: stores_inv_def)
  then show ?case using j l_record.prems by (intro stores_keep [OF l_record.prems]) (auto simp: stores_inv_def)
next
  case (l_fire j a e)
  then show ?case by (intro stores_keep [OF l_fire.prems]) (auto simp: stores_inv_def valid_plans_filter)
next
  case (l_complete a i)
  then show ?case by (intro stores_keep [OF l_complete.prems]) (auto simp: stores_inv_def pending_ok_filter)
qed (auto simp: stores_inv_def)

lemma wake_of_id: "wake_of x = Some e \<Longrightarrow> wake_id e = Some (oc_scheduleId x)"
  by (auto simp: wake_of_def split: option.splits)

lemma waiting_mem: "i \<in> set (waiting_ids es) \<longleftrightarrow> (\<exists>e \<in> set es. wake_id e = Some i)"
  by (induction es) (auto split: option.splits)

lemma wakes_known_simps [simp]:
  "wakes_known created []" "wakes_known created (es @ fs) \<longleftrightarrow> wakes_known created es \<and> wakes_known created fs"
  "wakes_known created [e] \<longleftrightarrow> wake_id e = None \<or> Some e \<in> (\<lambda>j. wake_of (occurrence_of j)) ` set created"
  by (auto simp: wakes_known_def)

lemma wakes_known_mono: "wakes_known created es \<Longrightarrow> set created \<subseteq> set created' \<Longrightarrow> wakes_known created' es"
  unfolding wakes_known_def by (meson image_mono subsetD)

lemma queue_put:
  assumes q: "queue_agrees a" and j: "j \<in> set (lf_created a)" "wake_of (occurrence_of j) = Some e" "sj_id j \<notin> lf_queued a"
    and A: "sj_id ` set act \<subseteq> sj_id ` set (lf_active a) - {sj_id j}"
  shows "queue_agrees (a\<lparr>lf_active := act, lf_queued := insert (sj_id j) (lf_queued a), lf_events := lf_events a @ [e]\<rparr>)"
proof -
  have w: "waiting_ids (lf_events a @ [e]) = waiting_ids (lf_events a) @ [sj_id j]" using wake_of_id [OF j(2)] by simp
  have n: "sj_id j \<notin> set (waiting_ids (lf_events a))" using q j(3) by (auto simp: queue_agrees_def)
  have a: "sj_id ` set act \<inter> insert (sj_id j) (lf_queued a) = {}"
    using q A unfolding queue_agrees_def by blast
  have "Some e \<in> (\<lambda>j. wake_of (occurrence_of j)) ` set (lf_created a)"
    using j(1) unfolding j(2) [symmetric] by (rule imageI)
  then have k: "wakes_known (lf_created a) (lf_events a @ [e])" using q by (simp add: queue_agrees_def)
  have s: "set (waiting_ids (lf_events a)) \<subseteq> lf_queued a" "distinct (waiting_ids (lf_events a))"
    "insert (sj_id j) (lf_queued a) \<subseteq> sj_id ` set (lf_created a)"
    using q j(1) unfolding queue_agrees_def by blast+
  show ?thesis unfolding queue_agrees_def
    using n a k s by (simp add: w del: waiting_ids_simps wakes_known_simps) blast
qed

lemma queue_step_agrees:
  assumes "life_step isoTime a b" "stores_inv isoTime a" "queue_agrees a"
  shows "queue_agrees b"
  using assms
proof (induction rule: life_step.induct)
  case (l_create j a)
  have "sj_id j \<notin> lf_queued a" using l_create.prems(2) l_create.hyps(2) by (auto simp: queue_agrees_def)
  then show ?case using l_create.prems(2) wakes_known_mono [of "lf_created a" _ "lf_created a @ [j]"]
    unfolding queue_agrees_def by (simp del: wakes_known_simps) blast
next
  case (l_fire j a e)
  have j: "j \<in> set (lf_created a)" using active_created l_fire by blast
  have "sj_id j \<notin> lf_queued a" using l_fire by (auto simp: queue_agrees_def)
  then show ?case by (rule queue_put [OF l_fire.prems(2) j l_fire.hyps(3)]) auto
next
  case (l_replay x a e)
  obtain j where j: "j \<in> set (lf_created a)" "x = occurrence_of j" using pending_created l_replay by metis
  have A: "sj_id ` set (lf_active a) \<subseteq> sj_id ` set (lf_active a) - {sj_id j}" using l_replay.hyps(2) j(2) by auto
  have "wake_of (occurrence_of j) = Some e" "sj_id j \<notin> lf_queued a" using l_replay.hyps j(2) by simp_all
  from queue_put [OF l_replay.prems(2) j(1) this A] show ?case using j(2) by simp
next
  case (l_event e a)
  then show ?case by (auto simp: queue_agrees_def)
next
  case (l_commit a taken rest others)
  then show ?case by (auto simp: queue_agrees_def)
next
  case (l_requeue a taken rest)
  then show ?case by (auto simp: queue_agrees_def)
next
  case (l_lose a taken rest)
  then show ?case by (auto simp: queue_agrees_def)
qed (auto simp: queue_agrees_def)

lemma ledger_create:
  assumes st: "stores_inv isoTime a" and q: "queue_agrees a" and l: "ledger_agrees a"
    and j: "parse_job isoTime j = Some j" "sj_id j \<notin> sj_id ` set (lf_created a)"
  shows "ledger_agrees (a\<lparr>lf_active := lf_active a @ [j], lf_created := lf_created a @ [j]\<rparr>)"
proof -
  obtain t where "plan_text j = schedule_text (sj_id j) (sj_name j) t" using j(1) by (rule parsed_job_wake)
  then have "plan_text j \<notin> set (lf_ledger a)" using l j(2) unfolding ledger_agrees_def by metis
  moreover have "sj_id j \<notin> set (waiting_ids (lf_events a))" using q j(2) by (auto simp: queue_agrees_def)
  moreover have "k \<noteq> j" if "k \<in> set (lf_created a)" for k using that j(2) by auto
  ultimately show ?thesis using l by (auto simp: ledger_agrees_def count_list_0_iff)
qed

lemma ledger_fire:
  assumes st: "stores_inv isoTime a" and l: "ledger_agrees a"
    and j: "j \<in> set (lf_active a)" "occurrence_of j \<in> set (lf_pending a)" "wake_of (occurrence_of j) = Some e"
  shows "ledger_agrees (a\<lparr>lf_active := filter (\<lambda>k. sj_id k \<noteq> sj_id j) (lf_active a),
      lf_queued := insert (sj_id j) (lf_queued a), lf_events := lf_events a @ [e]\<rparr>)"
proof -
  have c: "j \<in> set (lf_created a)" using active_created st j(1) by blast
  have same: "k = j" if "k \<in> set (lf_created a)" "sj_id k = sj_id j" for k using created_inj [OF st that(1) c that(2)] .
  have w: "set (waiting_ids (lf_events a @ [e])) = insert (sj_id j) (set (waiting_ids (lf_events a)))"
    using wake_of_id [OF j(3)] by auto
  show ?thesis using l j same unfolding ledger_agrees_def by (simp add: w del: waiting_ids_simps) blast
qed

lemma ledger_replay:
  assumes st: "stores_inv isoTime a" and l: "ledger_agrees a"
    and x: "x \<in> set (lf_pending a)" "wake_of x = Some e" "\<not> isCommitted (set (lf_ledger a)) e"
  shows "ledger_agrees (a\<lparr>lf_queued := insert (oc_scheduleId x) (lf_queued a), lf_events := lf_events a @ [e]\<rparr>)"
proof -
  obtain j where j: "j \<in> set (lf_created a)" "x = occurrence_of j" using pending_created st x(1) by metis
  have n: "plan_text j \<notin> set (lf_ledger a)" using committed_text [OF stores_fixed [OF st j(1)]] x(2,3) j(2) by blast
  have same: "k = j" if "k \<in> set (lf_created a)" "sj_id k = oc_scheduleId x" for k
    using created_inj [OF st that(1) j(1)] that(2) j(2) by simp
  have w: "set (waiting_ids (lf_events a @ [e])) = insert (oc_scheduleId x) (set (waiting_ids (lf_events a)))"
    using wake_of_id [OF x(2)] by auto
  show ?thesis using l same n unfolding ledger_agrees_def by (simp add: w del: waiting_ids_simps) blast
qed

lemma ledger_complete:
  assumes st: "stores_inv isoTime a" and l: "ledger_agrees a"
    and c: "\<forall>x \<in> set (lf_pending a). oc_scheduleId x = i \<longrightarrow> (\<exists>e. wake_of x = Some e \<and> isCommitted (set (lf_ledger a)) e)"
  shows "ledger_agrees (a\<lparr>lf_pending := filter (\<lambda>x. oc_scheduleId x \<noteq> i) (lf_pending a), lf_queued := lf_queued a - {i}\<rparr>)"
proof -
  have "plan_text j \<in> set (lf_ledger a)" if "j \<in> set (lf_created a)" "occurrence_of j \<in> set (lf_pending a)" "sj_id j = i" for j
    using c that committed_text [OF stores_fixed [OF st that(1)]] by fastforce
  then show ?thesis using l by (auto simp: ledger_agrees_def)
qed

lemma ledger_commit:
  assumes st: "stores_inv isoTime a" and q: "queue_agrees a" and l: "ledger_agrees a"
    and e: "lf_events a = taken @ rest" and o': "\<forall>m \<in> set others. \<not> is_schedule_text m"
  shows "ledger_agrees (a\<lparr>lf_ledger := lf_ledger a @ others @ wake_texts taken, lf_events := rest\<rparr>)"
proof -
  have d: "distinct (waiting_ids taken)" "set (waiting_ids taken) \<inter> set (waiting_ids rest) = {}"
    using q by (auto simp: queue_agrees_def e)
  have texts: "sj_id j \<in> set (waiting_ids taken)" if "plan_text j \<in> set (wake_texts taken)" "j \<in> set (lf_created a)" for j
    using wake_text_mem [OF that(1)] plan_text_id [OF stores_fixed [OF st that(2)]] by metis
  have nothers: "plan_text j \<notin> set others" if "j \<in> set (lf_created a)" for j
  proof -
    have "parse_job isoTime j = Some j" using stores_fixed [OF st that] .
    then obtain t where "plan_text j = schedule_text (sj_id j) (sj_name j) t" by (rule parsed_job_wake)
    then show ?thesis using o' by (auto simp: is_schedule_text_def)
  qed
  have created: "i \<in> sj_id ` set (lf_created a)" if "schedule_text i n t \<in> set (wake_texts taken)" for i n t
  proof -
    have "i \<in> set (waiting_ids taken)" using wake_text_mem [OF that] schedule_text_id by metis
    then show ?thesis using q by (auto simp: queue_agrees_def e)
  qed
  have notother: "schedule_text i n t \<notin> set others" for i n t using o' by (auto simp: is_schedule_text_def)
  have cnt: "count_list (lf_ledger a @ others @ wake_texts taken) (plan_text j) \<le> 1" if j: "j \<in> set (lf_created a)" for j
  proof (cases "plan_text j \<in> set (wake_texts taken)")
    case True
    then have "sj_id j \<in> set (waiting_ids taken)" using texts j by blast
    then have "plan_text j \<notin> set (lf_ledger a)" using l j by (auto simp: ledger_agrees_def e)
    then have z: "count_list (lf_ledger a) (plan_text j) = 0" "count_list others (plan_text j) = 0"
      using nothers [OF j] by (simp_all add: count_list_0_iff)
    then show ?thesis using wake_texts_count [OF d(1), of "plan_text j"] by simp
  next
    case False
    then have "count_list others (plan_text j) = 0" "count_list (wake_texts taken) (plan_text j) = 0"
      using nothers [OF j] by (simp_all add: count_list_0_iff)
    then show ?thesis using l j by (simp add: ledger_agrees_def)
  qed
  have fresh: "plan_text j \<notin> set (lf_ledger a @ others @ wake_texts taken)"
    if j: "j \<in> set (lf_created a)" and w: "sj_id j \<in> set (waiting_ids rest) \<or> j \<in> set (lf_active a)" for j
  proof -
    have "sj_id j \<notin> set (waiting_ids taken)"
      using w
    proof
      assume "sj_id j \<in> set (waiting_ids rest)"
      then show ?thesis using d(2) by auto
    next
      assume "j \<in> set (lf_active a)"
      then show ?thesis using q by (auto simp: queue_agrees_def e)
    qed
    then have "plan_text j \<notin> set (wake_texts taken)" using texts j by blast
    moreover have "plan_text j \<notin> set (lf_ledger a)" using l j w by (auto simp: ledger_agrees_def e)
    ultimately show ?thesis using nothers [OF j] by simp
  qed
  show ?thesis unfolding ledger_agrees_def
    using l cnt fresh created notother unfolding ledger_agrees_def by (simp del: count_list_append) blast
qed

lemma ledger_step_agrees:
  assumes "life_step isoTime a b" "stores_inv isoTime a" "queue_agrees a" "ledger_agrees a"
  shows "ledger_agrees b"
  using assms
proof (induction rule: life_step.induct)
  case (l_create j a)
  then show ?case by (intro ledger_create)
next
  case (l_cancel a i)
  then show ?case by (auto simp: ledger_agrees_def)
next
  case (l_record j a)
  then show ?case by (auto simp: ledger_agrees_def)
next
  case (l_fire j a e)
  then show ?case by (intro ledger_fire)
next
  case (l_replay x a e)
  then show ?case by (intro ledger_replay)
next
  case (l_complete a i)
  then show ?case by (intro ledger_complete)
next
  case (l_commit a taken rest others)
  then show ?case by (intro ledger_commit)
qed (auto simp: ledger_agrees_def)

lemma life_step_inv: "life_step isoTime a b \<Longrightarrow> life_inv isoTime a \<Longrightarrow> life_inv isoTime b"
  using stores_step queue_step_agrees ledger_step_agrees by (simp add: life_inv_def)

definition first_life :: life where
  "first_life = \<lparr>lf_created = [], lf_cancelled = {}, lf_active = [], lf_pending = [], lf_queued = {}, lf_events = [], lf_ledger = []\<rparr>"

lemma first_life_inv: "life_inv isoTime first_life"
  by (simp add: life_inv_def stores_inv_def queue_agrees_def ledger_agrees_def first_life_def pending_ok_def)

end
