(* ===== verification/Schedule_Delivery.thy ===== *)
theory Schedule_Delivery
  imports Schedule_Life
begin

text \<open>
  The schedule runtime with its files, the loop that takes the events and the ledger, over failing writes, crashes and
  restarts; every step of the system is a number of steps of the delivery contract.
\<close>

section \<open>The system\<close>

record delivery_system =
  ds_runtime :: schedule_runtime
  ds_flight :: "bot_event list"
  ds_ledger :: "jstr list"
  ds_created :: "schedule_job list"
  ds_cancelled :: "jstr set"

text \<open>The loop takes all events; when the commit fails it puts them back (\<open>bot-loop-agent.ts\<close>).\<close>

definition take_events :: "delivery_system \<Rightarrow> delivery_system" where
  "take_events s = s\<lparr>ds_flight := eq_events (sr_queue (ds_runtime s)),
     ds_runtime := (ds_runtime s)\<lparr>sr_queue := (sr_queue (ds_runtime s))\<lparr>eq_events := []\<rparr>\<rparr>\<rparr>"

definition put_back :: "delivery_system \<Rightarrow> delivery_system" where
  "put_back s = s\<lparr>ds_flight := [],
     ds_runtime := (ds_runtime s)\<lparr>sr_queue := foldl (\<lambda>q e. snd (enqueue e q)) (sr_queue (ds_runtime s)) (ds_flight s)\<rparr>\<rparr>"

text \<open>A commit appends the notifications and other messages, then the deliveries are marked.\<close>

definition commit_events :: "(jstr \<Rightarrow> bool) \<Rightarrow> (jstr \<Rightarrow> bool) \<Rightarrow> jstr list \<Rightarrow> delivery_system \<Rightarrow> delivery_system" where
  "commit_events isoTime written others s = s\<lparr>ds_ledger := ds_ledger s @ others @ wake_texts (ds_flight s), ds_flight := [],
     ds_runtime := snd (markCommitted isoTime written (ds_flight s) (ds_runtime s))\<rparr>"

text \<open>What survives the end of the process.\<close>

definition restart_system :: "delivery_system \<Rightarrow> delivery_system" where
  "restart_system s = s\<lparr>ds_flight := [], ds_runtime := new_runtime (sr_disk (ds_runtime s))\<rparr>"

text \<open>Ids come from \<open>randomUUID\<close>: never the same twice, and without white space.\<close>

definition create_system ::
  "(jstr \<Rightarrow> bool) \<Rightarrow> int \<Rightarrow> bool \<Rightarrow> bool \<Rightarrow> jstr \<Rightarrow> jstr \<Rightarrow> jstr \<Rightarrow> jv \<Rightarrow> delivery_system \<Rightarrow> delivery_system" where
  "create_system isoTime now written timerOk i n t input s =
     (let r = ds_runtime s; r' = snd (create isoTime now written timerOk i n t input r)
      in s\<lparr>ds_runtime := r', ds_created := ds_created s @ filter (\<lambda>j. j \<notin> set (sr_jobs r)) (sr_jobs r')\<rparr>)"

definition cancel_system :: "(jstr \<Rightarrow> bool) \<Rightarrow> bool \<Rightarrow> jstr \<Rightarrow> delivery_system \<Rightarrow> delivery_system" where
  "cancel_system isoTime written i s =
     (let (res, r') = cancel_plan isoTime written i (ds_runtime s)
      in s\<lparr>ds_runtime := r', ds_cancelled := (if res = Inr CancelledPlan then insert i (ds_cancelled s) else ds_cancelled s)\<rparr>)"

inductive delivery_step :: "(jstr \<Rightarrow> bool) \<Rightarrow> delivery_system \<Rightarrow> delivery_system \<Rightarrow> bool" for isoTime where
  d_start: "delivery_step isoTime s
    (s\<lparr>ds_runtime := snd (start_background isoTime timerOk written (set (ds_ledger s)) (ds_runtime s))\<rparr>)"
| d_create: "bounded_text max_id_length i = Some i \<Longrightarrow> i \<notin> sj_id ` set (ds_created s) \<Longrightarrow>
    delivery_step isoTime s (create_system isoTime now written timerOk i n t input s)"
| d_cancel: "delivery_step isoTime s (cancel_system isoTime written i s)"
| d_timer: "delivery_step isoTime s (s\<lparr>ds_runtime := queueTimer isoTime now w timerOk retryOk i expectedAt (ds_runtime s)\<rparr>)"
| d_event: "wake_id e = None \<Longrightarrow> delivery_step isoTime s (s\<lparr>ds_runtime := snd (coordinated_enqueue e (ds_runtime s))\<rparr>)"
| d_take: "ds_flight s = [] \<Longrightarrow> delivery_step isoTime s (take_events s)"
| d_commit: "\<forall>m \<in> set others. \<not> is_schedule_text m \<Longrightarrow> delivery_step isoTime s (commit_events isoTime written others s)"
| d_put_back: "delivery_step isoTime s (put_back s)"
| d_lose: "delivery_step isoTime s (s\<lparr>ds_flight := []\<rparr>)"
| d_stop: "delivery_step isoTime s (s\<lparr>ds_runtime := stop (ds_runtime s)\<rparr>)"
| d_restart: "delivery_step isoTime s (restart_system s)"

definition first_system :: delivery_system where
  "first_system = \<lparr>ds_runtime = new_runtime \<lparr>sd_plans = None, sd_occurrences = None, sd_pending = None\<rparr>, ds_flight = [],
     ds_ledger = [], ds_created = [], ds_cancelled = {}\<rparr>"

inductive delivery_reachable :: "(jstr \<Rightarrow> bool) \<Rightarrow> delivery_system \<Rightarrow> bool" for isoTime where
  d_first: "delivery_reachable isoTime first_system"
| d_next: "delivery_reachable isoTime s \<Longrightarrow> delivery_step isoTime s s' \<Longrightarrow> delivery_reachable isoTime s'"

section \<open>The files\<close>

definition plans_of :: "schedule_disk \<Rightarrow> schedule_job list" where
  "plans_of d = (case sd_plans d of None \<Rightarrow> [] | Some p \<Rightarrow> p)"

definition pending_in :: "occurrence_file \<Rightarrow> schedule_occurrence list" where
  "pending_in f = (case f of None \<Rightarrow> [] | Some p \<Rightarrow> p)"

lemma parse_list_fixed: "pending_ok isoTime xs \<Longrightarrow> parse_occurrence_list isoTime xs = Inr xs"
  by (simp add: pending_ok_def parse_occurrence_list_def those_fixed)

lemma loadPending_ok: "pending_ok isoTime (pending_in f) \<Longrightarrow> loadPending isoTime f = Inr (pending_in f)"
  by (auto simp: loadPending_def pending_in_def parse_list_fixed split: option.splits)

lemma persistPending_cases:
  assumes "pending_ok isoTime xs"
  shows "persistPending isoTime written xs f = (if written then (Inr (), Some xs) else (Inl StoreWriteFailed, f))"
  using parse_list_fixed [OF assms] by (simp add: persistPending_def)

lemma complete_delivery_cases:
  assumes ok: "pending_ok isoTime (pending_in f)"
  obtains (failed) e where "complete_delivery isoTime written i f = (Inl e, f)" "\<not> written"
  | (completed) f' where "complete_delivery isoTime written i f = (Inr (), f')"
      "pending_in f' = filter (\<lambda>x. oc_scheduleId x \<noteq> i) (pending_in f)"
proof -
  let ?k = "filter (\<lambda>x. oc_scheduleId x \<noteq> i) (pending_in f)"
  show ?thesis
  proof (cases "length ?k = length (pending_in f)")
    case True
    then have "?k = pending_in f" by (metis filter_True length_filter_less less_irrefl)
    then show ?thesis using True completed [of f] by (simp add: complete_delivery_def loadPending_ok [OF ok] Let_def)
  next
    case False
    then show ?thesis using failed completed [of "Some ?k"] persistPending_cases [OF pending_ok_filter [OF ok]]
      by (cases written) (simp_all add: complete_delivery_def loadPending_ok [OF ok] Let_def pending_in_def)
  qed
qed

lemma find_occurrence_None: "find_occurrence i xs = None \<longleftrightarrow> i \<notin> oc_scheduleId ` set xs"
  by (auto simp: find_occurrence_def find_None_iff)

lemma find_occurrence_Some: "find_occurrence i xs = Some x \<Longrightarrow> x \<in> set xs \<and> oc_scheduleId x = i"
  by (auto simp: find_occurrence_def find_Some_iff)

lemma recordPending_cases:
  assumes ok: "pending_ok isoTime (pending_in f)" and x: "parse_occurrence isoTime x = Some x"
  obtains (failed) e where "recordPending isoTime written x f = (Inl e, f)"
  | (present) "recordPending isoTime written x f = (Inr (), f)" "x \<in> set (pending_in f)"
  | (recorded) "recordPending isoTime written x f = (Inr (), Some (pending_in f @ [x]))"
      "oc_scheduleId x \<notin> oc_scheduleId ` set (pending_in f)" "length (pending_in f) < max_occurrences"
proof (cases "find_occurrence (oc_scheduleId x) (pending_in f)")
  case (Some y)
  then show ?thesis using find_occurrence_Some [OF Some] failed present
    by (cases "y = x") (auto simp: recordPending_def x loadPending_ok [OF ok])
next
  case None
  then have n: "oc_scheduleId x \<notin> oc_scheduleId ` set (pending_in f)" by (simp add: find_occurrence_None)
  show ?thesis
  proof (cases "length (pending_in f) < max_occurrences")
    case True
    then have "pending_ok isoTime (pending_in f @ [x])" using pending_ok_snoc ok x n by blast
    then show ?thesis using persistPending_cases None n True failed recorded
      by (cases written) (simp_all add: recordPending_def x loadPending_ok [OF ok])
  next
    case False
    then have "parse_occurrence_list isoTime (pending_in f @ [x]) = Inl StoreInvalid" by (simp add: parse_occurrence_list_def)
    then show ?thesis using None failed by (simp add: recordPending_def x loadPending_ok [OF ok] persistPending_def)
  qed
qed

lemma schedule_replace_ok:
  "valid_plans isoTime jobs \<Longrightarrow>
    schedule_replace isoTime written jobs stored = (if written then (Inr (), Some jobs) else (Inl StoreWriteFailed, stored))"
  by (simp add: schedule_replace_def valid_plans_def)

lemma schedule_load_ok: "valid_plans isoTime (plans_of d) \<Longrightarrow> schedule_load isoTime (sd_plans d) = Inr (plans_of d)"
  by (auto simp: schedule_load_def plans_of_def valid_plans_def split: option.splits)

lemma jobs_set_new: "sj_id j \<notin> sj_id ` set jobs \<Longrightarrow> jobs_set j jobs = jobs @ [j]"
  by (induction jobs) auto

lemma jobs_of_distinct: "distinct (map sj_id jobs) \<Longrightarrow> jobs_of jobs = jobs"
proof (induction jobs rule: rev_induct)
  case (snoc j jobs)
  then show ?case using jobs_set_new [of j jobs] by (auto simp: jobs_of_def)
qed (simp add: jobs_of_def)

lemma jobs_get_Some: "jobs_get i jobs = Some j \<Longrightarrow> j \<in> set jobs \<and> sj_id j = i"
  by (auto simp: jobs_get_def find_Some_iff)

section \<open>Refinement\<close>

definition life_view :: "schedule_job list \<Rightarrow> jstr set \<Rightarrow> bot_event list \<Rightarrow> jstr list \<Rightarrow> schedule_runtime \<Rightarrow> life" where
  "life_view created cancelled flight ledger r = \<lparr>lf_created = created, lf_cancelled = cancelled, lf_active = plans_of (sr_disk r),
     lf_pending = pending_in (sd_pending (sr_disk r)), lf_queued = sr_queued r, lf_events = flight @ eq_events (sr_queue r),
     lf_ledger = ledger\<rparr>"

definition life_of :: "delivery_system \<Rightarrow> life" where
  "life_of s = life_view (ds_created s) (ds_cancelled s) (ds_flight s) (ds_ledger s) (ds_runtime s)"

definition jobs_loaded :: "schedule_runtime \<Rightarrow> bool" where
  "jobs_loaded r \<longleftrightarrow> (sr_state r = StartedState \<longrightarrow> sr_jobs r = plans_of (sr_disk r))"

abbreviation life_steps :: "(jstr \<Rightarrow> bool) \<Rightarrow> life \<Rightarrow> life \<Rightarrow> bool" where
  "life_steps isoTime \<equiv> (life_step isoTime)\<^sup>*\<^sup>*"

lemma life_steps_inv: "life_steps isoTime a b \<Longrightarrow> life_inv isoTime a \<Longrightarrow> life_inv isoTime b"
  by (induction rule: rtranclp_induct) (auto intro: life_step_inv)

lemma life_invD:
  assumes "life_inv isoTime (life_view c x fl l r)"
  shows "valid_plans isoTime (plans_of (sr_disk r))" "pending_ok isoTime (pending_in (sd_pending (sr_disk r)))"
    "distinct (map sj_id (plans_of (sr_disk r)))"
    and "\<And>j. j \<in> set (plans_of (sr_disk r)) \<Longrightarrow> parse_job isoTime j = Some j"
  using assms valid_plansD [of isoTime "plans_of (sr_disk r)"] by (auto simp: life_inv_def stores_inv_def life_view_def)

lemma enqueue_events [simp]: "eq_events (snd (enqueue e q)) = eq_events q @ [e]"
  by (simp add: enqueue_def Let_def)

end
