(* ===== verification/Schedule_Refinement.thy ===== *)
theory Schedule_Refinement
  imports Schedule_Delivery
begin

text \<open>
  Every step of the system is a number of steps of the delivery contract, and the plans in memory are those of the file.
\<close>

section \<open>Timers do not matter\<close>

lemma life_view_timers [simp]:
  "life_view c x fl l (r\<lparr>sr_timers := ts\<rparr>) = life_view c x fl l r"
  "life_view c x fl l (r\<lparr>sr_state := st\<rparr>) = life_view c x fl l r"
  "life_view c x fl l (r\<lparr>sr_jobs := jobs\<rparr>) = life_view c x fl l r"
  by (simp_all add: life_view_def)

lemma clearJobTimer_view [simp]: "life_view c x fl l (clearJobTimer i r) = life_view c x fl l r"
  by (simp add: clearJobTimer_def)

lemma put_timer_view [simp]: "life_view c x fl l (put_timer i at r) = life_view c x fl l r"
  by (simp add: put_timer_def Let_def)

lemma timer_fields [simp]:
  "sr_state (clearJobTimer i r) = sr_state r" "sr_jobs (clearJobTimer i r) = sr_jobs r" "sr_disk (clearJobTimer i r) = sr_disk r"
  "sr_queued (clearJobTimer i r) = sr_queued r" "sr_queue (clearJobTimer i r) = sr_queue r"
  "sr_state (put_timer i at r) = sr_state r" "sr_jobs (put_timer i at r) = sr_jobs r" "sr_disk (put_timer i at r) = sr_disk r"
  by (simp_all add: clearJobTimer_def put_timer_def Let_def)

lemma armJob_view [simp]:
  "life_view c x fl l (snd (armJob ok j r)) = life_view c x fl l r" "sr_state (snd (armJob ok j r)) = sr_state r"
  "sr_jobs (snd (armJob ok j r)) = sr_jobs r" "sr_disk (snd (armJob ok j r)) = sr_disk r"
  by (simp_all add: armJob_def Let_def)

lemma armJob_timers: "\<exists>ts. snd (armJob ok j r) = r\<lparr>sr_timers := ts\<rparr>"
  by (auto simp: armJob_def Let_def clearJobTimer_def put_timer_def)

lemma arm_jobs_timers: "\<exists>ts. snd (arm_jobs ok jobs r) = r\<lparr>sr_timers := ts\<rparr>"
proof (induction jobs arbitrary: r)
  case Nil
  show ?case by (rule exI [of _ "sr_timers r"]) simp
next
  case (Cons j jobs)
  obtain ts where ts: "snd (armJob (ok (sj_id j)) j r) = r\<lparr>sr_timers := ts\<rparr>" using armJob_timers by blast
  obtain us where us: "snd (arm_jobs ok jobs (r\<lparr>sr_timers := ts\<rparr>)) = r\<lparr>sr_timers := us\<rparr>"
    using Cons.IH [of "r\<lparr>sr_timers := ts\<rparr>"] by auto
  show ?case using ts us by (cases "armJob (ok (sj_id j)) j r"; cases "fst (armJob (ok (sj_id j)) j r)") auto
qed

lemma arm_jobs_view [simp]:
  "life_view c x fl l (snd (arm_jobs ok jobs r)) = life_view c x fl l r" "sr_state (snd (arm_jobs ok jobs r)) = sr_state r"
  "sr_jobs (snd (arm_jobs ok jobs r)) = sr_jobs r" "sr_disk (snd (arm_jobs ok jobs r)) = sr_disk r"
  using arm_jobs_timers [of ok jobs r] by auto

section \<open>Delivery\<close>

lemma complete_step:
  assumes ok: "pending_ok isoTime (pending_in (sd_pending (sr_disk r)))"
    and committed: "\<forall>y \<in> set (pending_in (sd_pending (sr_disk r))). oc_scheduleId y = i \<longrightarrow>
        (\<exists>e. wake_of y = Some e \<and> isCommitted (set l) e)"
    and n: "i \<notin> set (waiting_ids (fl @ eq_events (sr_queue r)))"
    and jl: "jobs_loaded r"
  shows "life_steps isoTime (life_view c x fl l r) (life_view c x fl l (snd (complete_pending isoTime written i r)))
    \<and> jobs_loaded (snd (complete_pending isoTime written i r))
    \<and> sr_queue (snd (complete_pending isoTime written i r)) = sr_queue r
    \<and> plans_of (sr_disk (snd (complete_pending isoTime written i r))) = plans_of (sr_disk r)
    \<and> (fst (complete_pending isoTime written i r) = Inr () \<longrightarrow>
         pending_in (sd_pending (sr_disk (snd (complete_pending isoTime written i r)))) =
           filter (\<lambda>y. oc_scheduleId y \<noteq> i) (pending_in (sd_pending (sr_disk r))))"
  using ok
proof (cases rule: complete_delivery_cases [of isoTime "sd_pending (sr_disk r)" written i])
  case (failed e)
  then show ?thesis using jl by (simp add: complete_pending_def)
next
  case (completed f')
  let ?r = "r\<lparr>sr_disk := (sr_disk r)\<lparr>sd_pending := f'\<rparr>, sr_queued := sr_queued r - {i}\<rparr>"
  have r: "complete_pending isoTime written i r = (Inr (), ?r)" using completed by (simp add: complete_pending_def)
  have "life_step isoTime (life_view c x fl l r) ((life_view c x fl l r)\<lparr>lf_pending := filter (\<lambda>y. oc_scheduleId y \<noteq> i)
      (lf_pending (life_view c x fl l r)), lf_queued := lf_queued (life_view c x fl l r) - {i}\<rparr>)"
    by (rule l_complete) (use committed n in \<open>simp_all add: life_view_def\<close>)
  moreover have "(life_view c x fl l r)\<lparr>lf_pending := filter (\<lambda>y. oc_scheduleId y \<noteq> i)
      (lf_pending (life_view c x fl l r)), lf_queued := lf_queued (life_view c x fl l r) - {i}\<rparr> = life_view c x fl l ?r"
    using completed(2) by (simp add: life_view_def plans_of_def)
  ultimately have "life_step isoTime (life_view c x fl l r) (life_view c x fl l ?r)" by simp
  then show ?thesis unfolding r using jl completed(2) by (auto simp: jobs_loaded_def plans_of_def)
qed

lemma enqueue_step:
  assumes y: "y \<in> set (pending_in (sd_pending (sr_disk r)))" "oc_scheduleId y \<notin> sj_id ` set (plans_of (sr_disk r))"
    and e: "wake_of y = Some e" "\<not> isCommitted (set l) e" and jl: "jobs_loaded r"
  shows "life_steps isoTime (life_view c x fl l r) (life_view c x fl l (snd (coordinated_enqueue e r)))
    \<and> jobs_loaded (snd (coordinated_enqueue e r)) \<and> sr_disk (snd (coordinated_enqueue e r)) = sr_disk r"
proof -
  obtain n t where w: "e = ScheduledWake (oc_scheduleId y) n t" using e(1) by (auto simp: wake_of_def split: option.splits)
  show ?thesis
  proof (cases "oc_scheduleId y \<in> sr_queued r")
    case True
    then show ?thesis using jl by (simp add: w)
  next
    case False
    have "life_step isoTime (life_view c x fl l r) ((life_view c x fl l r)\<lparr>lf_queued := insert (oc_scheduleId y) (lf_queued (life_view c x fl l r)),
        lf_events := lf_events (life_view c x fl l r) @ [e]\<rparr>)"
      by (rule l_replay) (use y e False in \<open>simp_all add: life_view_def\<close>)
    moreover have "(life_view c x fl l r)\<lparr>lf_queued := insert (oc_scheduleId y) (lf_queued (life_view c x fl l r)),
        lf_events := lf_events (life_view c x fl l r) @ [e]\<rparr> = life_view c x fl l (snd (coordinated_enqueue e r))"
      using False by (simp add: w life_view_def split: prod.splits) (simp add: enqueue_def Let_def)
    ultimately have "life_step isoTime (life_view c x fl l r) (life_view c x fl l (snd (coordinated_enqueue e r)))" by simp
    then show ?thesis using jl False by (auto simp: w jobs_loaded_def split: prod.splits)
  qed
qed

lemma replay_steps:
  assumes "life_inv isoTime (life_view c x fl l r)" "jobs_loaded r"
    and "set xs \<subseteq> set (pending_in (sd_pending (sr_disk r)))" "distinct (map oc_scheduleId xs)"
    and "active = sj_id ` set (plans_of (sr_disk r))"
  shows "life_steps isoTime (life_view c x fl l r) (life_view c x fl l (snd (replay_loop isoTime written (isCommitted (set l)) active xs r)))
    \<and> jobs_loaded (snd (replay_loop isoTime written (isCommitted (set l)) active xs r))"
  using assms
proof (induction xs arbitrary: r)
  case (Cons y xs)
  note inv = Cons.prems(1)
  have y: "y \<in> set (pending_in (sd_pending (sr_disk r)))" using Cons.prems(3) by simp
  have stores: "stores_inv isoTime (life_view c x fl l r)" using inv by (simp add: life_inv_def)
  show ?case
  proof (cases "oc_scheduleId y \<in> active \<or> wake_of y = None")
    case True
    then show ?thesis using Cons.IH [OF inv] Cons.prems by auto
  next
    case False
    then obtain e where e: "wake_of y = Some e" and na: "oc_scheduleId y \<notin> active" by auto
    show ?thesis
    proof (cases "isCommitted (set l) e")
      case True
      have same: "z = y" if "z \<in> set (pending_in (sd_pending (sr_disk r)))" "oc_scheduleId z = oc_scheduleId y" for z
        using life_invD(2) [OF inv] that y by (auto simp: pending_ok_def distinct_map inj_on_def)
      obtain j where j: "j \<in> set c" "y = occurrence_of j"
        using y stores by (auto simp: stores_inv_def life_view_def)
      have fixed: "parse_job isoTime j = Some j" using stores j(1) by (simp add: stores_inv_def life_view_def)
      have "plan_text j \<in> set l" using committed_text [OF fixed] e True j(2) by blast
      then have nw: "sj_id j \<notin> set (waiting_ids (fl @ eq_events (sr_queue r)))"
        using inv j(1) unfolding life_inv_def ledger_agrees_def by (auto simp: life_view_def simp del: waiting_ids_simps)
      let ?p = "complete_pending isoTime (written (oc_scheduleId y)) (oc_scheduleId y) r"
      have cp: "life_steps isoTime (life_view c x fl l r) (life_view c x fl l (snd ?p)) \<and> jobs_loaded (snd ?p)
          \<and> sr_queue (snd ?p) = sr_queue r \<and> plans_of (sr_disk (snd ?p)) = plans_of (sr_disk r)
          \<and> (fst ?p = Inr () \<longrightarrow> pending_in (sd_pending (sr_disk (snd ?p))) =
              filter (\<lambda>z. oc_scheduleId z \<noteq> oc_scheduleId y) (pending_in (sd_pending (sr_disk r))))"
        by (rule complete_step [OF life_invD(2) [OF inv] _ _ Cons.prems(2)]) (use same e True nw j in auto)
      show ?thesis
      proof (cases "fst ?p")
        case (Inl err)
        then show ?thesis using cp na e True by (cases ?p) simp
      next
        case (Inr u)
        have inv': "life_inv isoTime (life_view c x fl l (snd ?p))" using life_steps_inv cp inv by blast
        have sub: "set xs \<subseteq> set (pending_in (sd_pending (sr_disk (snd ?p))))"
        proof
          fix z assume z: "z \<in> set xs"
          then have "oc_scheduleId z \<noteq> oc_scheduleId y" using Cons.prems(4) by (metis distinct.simps(2) image_eqI list.set_map list.simps(9))
          moreover have zp: "z \<in> set (pending_in (sd_pending (sr_disk r)))" using z Cons.prems(3) by auto
          ultimately show "z \<in> set (pending_in (sd_pending (sr_disk (snd ?p))))" using cp Inr zp by simp
        qed
        have "active = sj_id ` set (plans_of (sr_disk (snd ?p)))" "distinct (map oc_scheduleId xs)" using cp Cons.prems(4,5) by simp_all
        with Cons.IH [OF inv' _ sub] cp
        have "life_steps isoTime (life_view c x fl l (snd ?p)) (life_view c x fl l (snd (replay_loop isoTime written (isCommitted (set l)) active xs (snd ?p))))
            \<and> jobs_loaded (snd (replay_loop isoTime written (isCommitted (set l)) active xs (snd ?p)))" by blast
        moreover have "replay_loop isoTime written (isCommitted (set l)) active (y # xs) r = replay_loop isoTime written (isCommitted (set l)) active xs (snd ?p)"
          using na e True Inr by (cases ?p) simp
        ultimately show ?thesis using cp by (metis rtranclp_trans)
      qed
    next
      case False
      let ?r = "snd (coordinated_enqueue e r)"
      have es: "life_steps isoTime (life_view c x fl l r) (life_view c x fl l ?r) \<and> jobs_loaded ?r \<and> sr_disk ?r = sr_disk r"
        by (rule enqueue_step [OF y _ e False Cons.prems(2)]) (use na Cons.prems(5) in simp)
      have inv': "life_inv isoTime (life_view c x fl l ?r)" using life_steps_inv es inv by blast
      have "life_steps isoTime (life_view c x fl l ?r) (life_view c x fl l (snd (replay_loop isoTime written (isCommitted (set l)) active xs ?r)))
          \<and> jobs_loaded (snd (replay_loop isoTime written (isCommitted (set l)) active xs ?r))"
        by (rule Cons.IH [OF inv']) (use es Cons.prems in auto)
      moreover have "replay_loop isoTime written (isCommitted (set l)) active (y # xs) r = replay_loop isoTime written (isCommitted (set l)) active xs ?r"
        using na e False by simp
      ultimately show ?thesis using es by (metis rtranclp_trans)
    qed
  qed
qed simp


lemma mark_steps:
  assumes "life_inv isoTime (life_view c x [] l r)" "jobs_loaded r"
    and "\<forall>i \<in> set is. i \<notin> set (waiting_ids (eq_events (sr_queue r)))
        \<and> (\<exists>j \<in> set c. sj_id j = i \<and> plan_text j \<in> set l)"
  shows "life_steps isoTime (life_view c x [] l r) (life_view c x [] l (snd (mark_loop isoTime written is r)))
    \<and> jobs_loaded (snd (mark_loop isoTime written is r))"
  using assms
proof (induction "is" arbitrary: r)
  case (Cons i "is")
  note inv = Cons.prems(1)
  have stores: "stores_inv isoTime (life_view c x [] l r)" using inv by (simp add: life_inv_def)
  obtain j where j: "j \<in> set c" "sj_id j = i" "plan_text j \<in> set l" using Cons.prems(3) by auto
  have committed: "\<exists>e. wake_of y = Some e \<and> isCommitted (set l) e"
    if y: "y \<in> set (pending_in (sd_pending (sr_disk r)))" "oc_scheduleId y = i" for y
  proof -
    obtain k where k: "k \<in> set c" "y = occurrence_of k" using y(1) stores by (auto simp: stores_inv_def life_view_def)
    then have "k = j" using created_inj [OF stores, of k j] j y(2) by (simp add: life_view_def)
    moreover have fixed: "parse_job isoTime j = Some j" using stores j(1) by (simp add: stores_inv_def life_view_def)
    moreover obtain t where "wake_of (occurrence_of j) = Some (ScheduledWake (sj_id j) (sj_name j) t)"
      using fixed by (rule parsed_job_wake)
    ultimately show ?thesis using committed_text [OF fixed] j(3) k(2) by blast
  qed
  let ?p = "complete_pending isoTime (written i) i r"
  have cp: "life_steps isoTime (life_view c x [] l r) (life_view c x [] l (snd ?p)) \<and> jobs_loaded (snd ?p)
      \<and> sr_queue (snd ?p) = sr_queue r"
    using complete_step [OF life_invD(2) [OF inv] _ _ Cons.prems(2), of i l "[]" c x "written i"] committed Cons.prems(3) by auto
  show ?case
  proof (cases "fst ?p")
    case (Inl e)
    then show ?thesis using cp by (cases ?p) simp
  next
    case (Inr u)
    have inv': "life_inv isoTime (life_view c x [] l (snd ?p))" using life_steps_inv cp inv by blast
    have "life_steps isoTime (life_view c x [] l (snd ?p)) (life_view c x [] l (snd (mark_loop isoTime written is (snd ?p))))
        \<and> jobs_loaded (snd (mark_loop isoTime written is (snd ?p)))"
      by (rule Cons.IH [OF inv']) (use cp Cons.prems(3) in auto)
    moreover have "mark_loop isoTime written (i # is) r = mark_loop isoTime written is (snd ?p)" using Inr by (cases ?p) simp
    ultimately show ?thesis using cp by (metis rtranclp_trans)
  qed
qed simp

lemma wake_ids_set: "set (wake_ids es) = set (waiting_ids es)"
  by (induction es) (auto split: option.splits)

section \<open>Firing\<close>

lemma persist_firing_cases:
  assumes inv: "life_inv isoTime (life_view c x fl l r)" and j: "j \<in> set (plans_of (sr_disk r))"
    and next_ok: "valid_plans isoTime nextJobs"
  shows "(\<exists>f p. snd (persist_firing isoTime w (occurrence_of j) nextJobs (sr_disk r)) =
      (sr_disk r)\<lparr>sd_occurrences := f, sd_pending := p,
         sd_plans := (if fst (persist_firing isoTime w (occurrence_of j) nextJobs (sr_disk r)) = Inr () then Some nextJobs else sd_plans (sr_disk r))\<rparr>
      \<and> (p = sd_pending (sr_disk r) \<or>
          p = Some (pending_in (sd_pending (sr_disk r)) @ [occurrence_of j]) \<and> sj_id j \<notin> oc_scheduleId ` set (pending_in (sd_pending (sr_disk r)))
            \<and> length (pending_in (sd_pending (sr_disk r))) < max_occurrences)
      \<and> (fst (persist_firing isoTime w (occurrence_of j) nextJobs (sr_disk r)) = Inr () \<longrightarrow> occurrence_of j \<in> set (pending_in p)))"
proof -
  obtain res f where rec: "occurrence_record isoTime (fw_occurrence w) (occurrence_of j) (sd_occurrences (sr_disk r)) = (res, f)"
    by fastforce
  show ?thesis
  proof (cases res)
    case (Inl e)
    show ?thesis
      by (rule exI [of _ f], rule exI [of _ "sd_pending (sr_disk r)"]) (use rec Inl in \<open>simp add: persist_firing_def\<close>)
  next
    case (Inr u)
    have x: "parse_occurrence isoTime (occurrence_of j) = Some (occurrence_of j)"
      using parsed_job_occurrence life_invD(4) [OF inv j] by blast
    show ?thesis
      using life_invD(2) [OF inv] x
    proof (cases rule: recordPending_cases [where written = "fw_pending w"])
      case (failed e)
      show ?thesis
        by (rule exI [of _ f], rule exI [of _ "sd_pending (sr_disk r)"])
          (use rec Inr failed in \<open>simp add: persist_firing_def Let_def\<close>)
    next
      case present
      show ?thesis
        by (rule exI [of _ f], rule exI [of _ "sd_pending (sr_disk r)"])
          (use rec Inr present in \<open>simp add: persist_firing_def Let_def schedule_replace_ok [OF next_ok]\<close>)
    next
      case recorded
      show ?thesis
        by (rule exI [of _ f], rule exI [of _ "Some (pending_in (sd_pending (sr_disk r)) @ [occurrence_of j])"])
          (use rec Inr recorded in \<open>simp add: persist_firing_def Let_def schedule_replace_ok [OF next_ok]
            pending_in_def [of "Some xs" for xs]\<close>)
    qed
  qed
qed


lemma plans_of_simps [simp]:
  "plans_of (d\<lparr>sd_occurrences := f\<rparr>) = plans_of d" "plans_of (d\<lparr>sd_pending := p\<rparr>) = plans_of d"
  "plans_of (d\<lparr>sd_plans := Some jobs\<rparr>) = jobs" "pending_in (Some xs) = xs"
  by (simp_all add: plans_of_def pending_in_def)

lemma fired_step:
  assumes inv: "life_inv isoTime (life_view c x fl l r)" and j: "j \<in> set (plans_of (sr_disk r))"
    and e: "wake_of (occurrence_of j) = Some e" and p: "occurrence_of j \<in> set (pending_in (sd_pending d))"
    and d: "sr_disk r = d"
  shows "life_step isoTime (life_view c x fl l r) (life_view c x fl l (snd (coordinated_enqueue e
      (clearJobTimer i (r\<lparr>sr_disk := d\<lparr>sd_plans := Some (filter (\<lambda>k. sj_id k \<noteq> sj_id j) (plans_of d))\<rparr>, sr_jobs := jobs\<rparr>)))))"
proof -
  obtain n t where w: "e = ScheduledWake (sj_id j) n t" using e by (auto simp: wake_of_def split: option.splits)
  have nq: "sj_id j \<notin> sr_queued r"
    using inv j by (auto simp: life_inv_def queue_agrees_def life_view_def)
  have "life_step isoTime (life_view c x fl l r) ((life_view c x fl l r)\<lparr>lf_active := filter (\<lambda>k. sj_id k \<noteq> sj_id j) (lf_active (life_view c x fl l r)),
      lf_queued := insert (sj_id j) (lf_queued (life_view c x fl l r)), lf_events := lf_events (life_view c x fl l r) @ [e]\<rparr>)"
    by (rule l_fire) (use j p e d in \<open>simp_all add: life_view_def\<close>)
  moreover have "(life_view c x fl l r)\<lparr>lf_active := filter (\<lambda>k. sj_id k \<noteq> sj_id j) (lf_active (life_view c x fl l r)),
      lf_queued := insert (sj_id j) (lf_queued (life_view c x fl l r)), lf_events := lf_events (life_view c x fl l r) @ [e]\<rparr>
    = life_view c x fl l (snd (coordinated_enqueue e
      (clearJobTimer i (r\<lparr>sr_disk := d\<lparr>sd_plans := Some (filter (\<lambda>k. sj_id k \<noteq> sj_id j) (plans_of d))\<rparr>, sr_jobs := jobs\<rparr>))))"
    using nq d by (simp add: w life_view_def split: prod.splits) (simp add: enqueue_def Let_def)
  ultimately show ?thesis by simp
qed

lemma enqueue_fields [simp]:
  "sr_state (snd (coordinated_enqueue e r)) = sr_state r" "sr_jobs (snd (coordinated_enqueue e r)) = sr_jobs r"
  "sr_disk (snd (coordinated_enqueue e r)) = sr_disk r"
  by (cases e; simp split: prod.splits)+

lemma firing_steps:
  fixes j
  defines "nextJobs r \<equiv> filter (\<lambda>k. sj_id k \<noteq> sj_id j) (plans_of (sr_disk r))"
  assumes inv: "life_inv isoTime (life_view c x fl l r)" and j: "j \<in> set (plans_of (sr_disk r))"
    and e: "wake_of (occurrence_of j) = Some e"
  shows "case persist_firing isoTime w (occurrence_of j) (nextJobs r) (sr_disk r) of
      (Inl err, d) \<Rightarrow> life_steps isoTime (life_view c x fl l r) (life_view c x fl l (r\<lparr>sr_disk := d\<rparr>)) \<and> plans_of d = plans_of (sr_disk r)
    | (Inr _, d) \<Rightarrow> life_steps isoTime (life_view c x fl l r) (life_view c x fl l (snd (coordinated_enqueue e
        (clearJobTimer i (r\<lparr>sr_disk := d, sr_jobs := jobs\<rparr>))))) \<and> plans_of d = nextJobs r"
proof -
  let ?pf = "persist_firing isoTime w (occurrence_of j) (nextJobs r) (sr_disk r)"
  let ?d = "sr_disk r" and ?ps = "pending_in (sd_pending (sr_disk r))"
  have next_ok: "valid_plans isoTime (nextJobs r)" unfolding nextJobs_def by (rule valid_plans_filter [OF life_invD(1) [OF inv]])
  obtain f p where d: "snd ?pf = ?d\<lparr>sd_occurrences := f, sd_pending := p,
      sd_plans := (if fst ?pf = Inr () then Some (nextJobs r) else sd_plans ?d)\<rparr>"
    and p: "p = sd_pending ?d \<or> p = Some (?ps @ [occurrence_of j]) \<and> sj_id j \<notin> oc_scheduleId ` set ?ps \<and> length ?ps < max_occurrences"
    and m: "fst ?pf = Inr () \<longrightarrow> occurrence_of j \<in> set (pending_in p)"
    using persist_firing_cases [OF inv j next_ok, of w] by blast
  let ?d1 = "?d\<lparr>sd_occurrences := f, sd_pending := p\<rparr>"
  let ?r1 = "r\<lparr>sr_disk := ?d1\<rparr>"
  have s1: "life_steps isoTime (life_view c x fl l r) (life_view c x fl l ?r1)"
    using p
  proof
    assume "p = sd_pending ?d"
    then have "life_view c x fl l ?r1 = life_view c x fl l r" by (simp add: life_view_def plans_of_def)
    then show ?thesis by simp
  next
    assume q: "p = Some (?ps @ [occurrence_of j]) \<and> sj_id j \<notin> oc_scheduleId ` set ?ps \<and> length ?ps < max_occurrences"
    have "life_step isoTime (life_view c x fl l r) ((life_view c x fl l r)\<lparr>lf_pending := lf_pending (life_view c x fl l r) @ [occurrence_of j]\<rparr>)"
      by (rule l_record) (use j q in \<open>simp_all add: life_view_def\<close>)
    moreover have "(life_view c x fl l r)\<lparr>lf_pending := lf_pending (life_view c x fl l r) @ [occurrence_of j]\<rparr> = life_view c x fl l ?r1"
      using q by (simp add: life_view_def plans_of_def)
    ultimately have "life_step isoTime (life_view c x fl l r) (life_view c x fl l ?r1)" by simp
    then show ?thesis by blast
  qed
  show ?thesis
  proof (cases "fst ?pf")
    case (Inl err)
    then have "snd ?pf = ?d1" using d by simp
    then show ?thesis using Inl s1 by (cases ?pf) (simp add: plans_of_def)
  next
    case (Inr u)
    then have d2: "snd ?pf = ?d1\<lparr>sd_plans := Some (nextJobs r)\<rparr>" using d by simp
    have inv1: "life_inv isoTime (life_view c x fl l ?r1)" using life_steps_inv [OF s1 inv] .
    have "life_step isoTime (life_view c x fl l ?r1) (life_view c x fl l (snd (coordinated_enqueue e
        (clearJobTimer i (?r1\<lparr>sr_disk := ?d1\<lparr>sd_plans := Some (filter (\<lambda>k. sj_id k \<noteq> sj_id j) (plans_of ?d1))\<rparr>, sr_jobs := jobs\<rparr>)))))"
      by (rule fired_step [OF inv1 _ e]) (use j m Inr in simp_all)
    moreover have eq: "?d1\<lparr>sd_plans := Some (filter (\<lambda>k. sj_id k \<noteq> sj_id j) (plans_of ?d))\<rparr> = snd ?pf"
      unfolding d2 by (simp add: nextJobs_def)
    ultimately have "life_step isoTime (life_view c x fl l ?r1) (life_view c x fl l (snd (coordinated_enqueue e
        (clearJobTimer i (r\<lparr>sr_disk := snd ?pf, sr_jobs := jobs\<rparr>)))))"
      by (simp add: eq)
    with s1 have "life_steps isoTime (life_view c x fl l r) (life_view c x fl l (snd (coordinated_enqueue e
        (clearJobTimer i (r\<lparr>sr_disk := snd ?pf, sr_jobs := jobs\<rparr>)))))" by (rule rtranclp.rtrancl_into_rtrancl)
    moreover have "plans_of (snd ?pf) = nextJobs r" using d2 by simp
    ultimately show ?thesis using Inr by (cases ?pf) simp
  qed
qed

lemma process_steps:
  assumes inv: "life_inv isoTime (life_view c x fl l r)" and jl: "jobs_loaded r"
  shows "life_steps isoTime (life_view c x fl l r) (life_view c x fl l (snd (processTimer isoTime now w timerOk i at r)))
    \<and> jobs_loaded (snd (processTimer isoTime now w timerOk i at r))"
proof (cases "sr_state r = StartedState \<and> jobs_get i (sr_jobs r) \<noteq> None \<and> sj_at (the (jobs_get i (sr_jobs r))) = at
    \<and> wake_of (occurrence_of (the (jobs_get i (sr_jobs r)))) \<noteq> None")
  case False
  then show ?thesis using jl by (auto simp: processTimer_def split: option.splits)
next
  case True
  then obtain j e where j: "jobs_get i (sr_jobs r) = Some j" "sj_at j = at" and e: "wake_of (occurrence_of j) = Some e" by auto
  have jobs: "sr_jobs r = plans_of (sr_disk r)" using True jl by (simp add: jobs_loaded_def)
  have jm: "j \<in> set (plans_of (sr_disk r))" "sj_id j = i" using jobs_get_Some [OF j(1)] jobs by auto
  show ?thesis
  proof (cases "now < sw_scheduledFor e")
    case early: True
    then have "processTimer isoTime now w timerOk i at r = armJob timerOk j r" using True j e by (simp add: processTimer_def)
    then show ?thesis using jl by (simp add: jobs_loaded_def)
  next
    case late: False
    let ?next = "filter (\<lambda>k. sj_id k \<noteq> sj_id j) (plans_of (sr_disk r))"
    let ?pf = "persist_firing isoTime w (occurrence_of j) ?next (sr_disk r)"
    have jo: "jobs_of ?next = ?next" using life_invD(3) [OF inv] by (intro jobs_of_distinct) (simp add: distinct_map_filter)
    have pt: "processTimer isoTime now w timerOk i at r = (case ?pf of
        (Inl err, d) \<Rightarrow> (Inl (PersistenceFailed err), r\<lparr>sr_disk := d\<rparr>)
      | (Inr _, d) \<Rightarrow> (Inr (), snd (coordinated_enqueue e (clearJobTimer (sj_id j) (r\<lparr>sr_disk := d, sr_jobs := ?next\<rparr>)))))"
      using True j e late jobs jo by (simp add: processTimer_def Let_def jm(2) [symmetric] split: prod.split sum.split)
    from firing_steps [OF inv jm(1) e, where w = w and i = "sj_id j" and jobs = "?next"] show ?thesis
      unfolding pt using jl by (auto simp: jobs_loaded_def jobs split: prod.splits sum.splits)
  qed
qed

lemma queueTimer_steps:
  assumes inv: "life_inv isoTime (life_view c x fl l r)" and jl: "jobs_loaded r"
  shows "life_steps isoTime (life_view c x fl l r) (life_view c x fl l (queueTimer isoTime now w timerOk retryOk i at r))
    \<and> jobs_loaded (queueTimer isoTime now w timerOk retryOk i at r)"
  using process_steps [OF assms, of now w timerOk i at]
  by (auto simp: queueTimer_def jobs_loaded_def split: prod.splits sum.splits option.splits)

end
