(* ===== verification/Schedule_Properties.thy ===== *)
theory Schedule_Properties
  imports Schedule_Refinement
begin

text \<open>
  What scheduled plans can rely on: nothing that was planned is lost, nothing is delivered twice, and a restart
  delivers what was due; and the cancellation that does not hold.
\<close>

section \<open>Operations on plans\<close>

lemma start_steps:
  assumes inv: "life_inv isoTime (life_view c x fl l r)" and jl: "jobs_loaded r"
  shows "life_steps isoTime (life_view c x fl l r) (life_view c x fl l (snd (start_background isoTime timerOk written (set l) r)))
    \<and> jobs_loaded (snd (start_background isoTime timerOk written (set l) r))"
proof (cases "sr_state r = NewState")
  case False
  then show ?thesis using jl by (cases "sr_state r") (simp_all add: start_background_def start_def start_begin_def)
next
  case True
  let ?plans = "plans_of (sr_disk r)"
  let ?r = "r\<lparr>sr_jobs := ?plans, sr_state := StartedState\<rparr>"
  obtain res r' where arm: "arm_jobs timerOk ?plans ?r = (res, r')" by fastforce
  have same: "life_view c x fl l r' = life_view c x fl l r" "sr_state r' = StartedState" "sr_jobs r' = ?plans" "sr_disk r' = sr_disk r"
    using arm_jobs_view [where ok = timerOk and jobs = ?plans and r = ?r] by (simp_all add: arm)
  have "validateScheduleJobs isoTime ?plans = Some ?plans" using life_invD(1) [OF inv] by (simp add: valid_plans_def)
  then have sl: "start isoTime timerOk r = (case res of
      Inl e \<Rightarrow> (Inl e, r'\<lparr>sr_timers := [], sr_state := StoppedState\<rparr>) | Inr _ \<Rightarrow> (Inr (), r'))"
    using True arm schedule_load_ok [OF life_invD(1) [OF inv]] jobs_of_distinct [OF life_invD(3) [OF inv]]
    by (simp add: start_def start_begin_def start_loaded_def Let_def split: sum.split)
  show ?thesis
  proof (cases res)
    case (Inl e)
    then show ?thesis using sl same by (simp add: start_background_def jobs_loaded_def)
  next
    case (Inr u)
    have inv': "life_inv isoTime (life_view c x fl l r')" using inv same by simp
    have jl': "jobs_loaded r'" using same by (simp add: jobs_loaded_def)
    have active: "sj_id ` set (sort_key sj_at ?plans) = sj_id ` set (plans_of (sr_disk r'))" using same by simp
    have pd: "distinct (map oc_scheduleId (pending_in (sd_pending (sr_disk r'))))"
      using life_invD(2) [OF inv'] by (simp add: pending_ok_def)
    have "start_background isoTime timerOk written (set l) r =
        replay_loop isoTime written (isCommitted (set l)) (sj_id ` set ?plans) (pending_in (sd_pending (sr_disk r'))) r'"
      using sl Inr same loadPending_ok [OF life_invD(2) [OF inv']]
      by (simp add: start_background_def list_plans_def replayPending_def)
    then show ?thesis using replay_steps [OF inv' jl' subset_refl pd, of "sj_id ` set ?plans" written] same by simp
  qed
qed

lemma validated_new:
  assumes v: "validateScheduleJobs isoTime (jobs @ [j]) \<noteq> None" and ok: "valid_plans isoTime jobs"
    and b: "bounded_text max_id_length (sj_id j) = Some (sj_id j)" "bounded_text max_name_length (sj_name j) = Some (sj_name j)"
      "bounded_text max_intention_length (sj_intention j) = Some (sj_intention j)"
  shows "parse_job isoTime j = Some j \<and> valid_plans isoTime (jobs @ [j])"
proof -
  obtain parsed where p: "those (map (parse_job isoTime) (jobs @ [j])) = Some parsed" "length (jobs @ [j]) \<le> max_active_schedules"
      "distinct (map sj_id parsed)" "distinct (map sj_name parsed)"
    using v by (auto simp: validateScheduleJobs_def split: if_splits option.splits)
  have "parse_job isoTime j \<in> set (map (parse_job isoTime) (jobs @ [j]))" by simp
  then have "parse_job isoTime j \<in> Some ` set parsed" using p(1) unfolding those_Some by (metis list.set_map)
  then have "parse_job isoTime j \<noteq> None" by auto
  then have j: "parse_job isoTime j = Some j" using b by (auto simp: parse_job_def split: if_splits)
  then have "\<forall>k \<in> set (jobs @ [j]). parse_job isoTime k = Some k" using valid_plansD(1) [OF ok] by auto
  then have "parsed = jobs @ [j]" using p(1) those_fixed by (metis option.inject)
  then show ?thesis using p j valid_plansD(1) [OF ok] by (auto intro!: valid_plansI)
qed

lemma create_steps:
  assumes inv: "life_inv isoTime (life_view c x fl l r)" and jl: "jobs_loaded r"
    and i: "bounded_text max_id_length i = Some i" "i \<notin> sj_id ` set c"
  shows "life_steps isoTime (life_view c x fl l r)
      (life_view (c @ filter (\<lambda>j. j \<notin> set (sr_jobs r)) (sr_jobs (snd (create isoTime now written timerOk i n t input r)))) x fl l
        (snd (create isoTime now written timerOk i n t input r)))
    \<and> jobs_loaded (snd (create isoTime now written timerOk i n t input r))"
    (is "life_steps isoTime _ (life_view (?c (snd ?p)) x fl l (snd ?p)) \<and> _")
proof (cases "snd ?p = r")
  case True
  then show ?thesis using jl by simp
next
  case False
  then have st: "sr_state r = StartedState" by (cases "sr_state r") (auto simp: create_def)
  then have jobs: "sr_jobs r = plans_of (sr_disk r)" using jl by (simp add: jobs_loaded_def)
  obtain name where name: "bounded_text max_name_length n = Some name" using False st by (auto simp: create_def split: option.splits)
  obtain intention where intention: "bounded_text max_intention_length t = Some intention"
    using False st name by (auto simp: create_def split: option.splits)
  obtain at where at: "normalizeScheduleAt input (Some now) = Inr at"
    using False st name intention by (auto simp: create_def split: sum.splits)
  define j where "j = \<lparr>sj_id = i, sj_name = name, sj_intention = intention, sj_at = at, sj_createdAt = to_iso_string now\<rparr>"
  have nf: "find (\<lambda>j. sj_name j = name) (sr_jobs r) = None" "\<not> max_active_schedules \<le> length (sr_jobs r)"
    using False st name intention at by (auto simp: create_def split: option.splits if_splits)
  have v: "\<exists>vs. validateScheduleJobs isoTime (sr_jobs r @ [j]) = Some vs"
    using False st name intention at nf by (auto simp: create_def j_def Let_def split: if_splits)
  have valid: "parse_job isoTime j = Some j \<and> valid_plans isoTime (sr_jobs r @ [j])"
    by (rule validated_new) (use v life_invD(1) [OF inv] i(1) bounded_text_idem [OF name] bounded_text_idem [OF intention] jobs in
      \<open>simp_all add: j_def\<close>)
  have p: "?p = (case schedule_replace isoTime written (sr_jobs r @ [j]) (sd_plans (sr_disk r)) of
      (Inl e, _) \<Rightarrow> (Inl (PersistenceFailed e), r)
    | (Inr _, s) \<Rightarrow>
        (case armJob timerOk j (r\<lparr>sr_disk := (sr_disk r)\<lparr>sd_plans := s\<rparr>, sr_jobs := jobs_set j (sr_jobs r)\<rparr>) of
           (Inl e, r') \<Rightarrow> (Inl e, r')
         | (Inr _, r') \<Rightarrow> (Inr (Created j), r')))"
    using st name intention at nf v unfolding j_def by (elim exE) (simp add: create_def Let_def)
  have w: written using False p valid by (cases written) (auto simp: schedule_replace_ok)
  have ni: "sj_id j \<notin> sj_id ` set (sr_jobs r)"
    using inv i(2) jobs by (auto simp: life_inv_def stores_inv_def life_view_def j_def)
  let ?r = "r\<lparr>sr_disk := (sr_disk r)\<lparr>sd_plans := Some (sr_jobs r @ [j])\<rparr>, sr_jobs := sr_jobs r @ [j]\<rparr>"
  have "snd ?p = snd (armJob timerOk j ?r)"
    unfolding p using w valid jobs_set_new [OF ni] by (simp add: schedule_replace_ok split: prod.split sum.split)
  then have same: "\<And>c. life_view c x fl l (snd ?p) = life_view c x fl l ?r" "sr_jobs (snd ?p) = sr_jobs r @ [j]"
      "sr_disk (snd ?p) = sr_disk ?r"
    by simp_all
  have c': "?c (snd ?p) = c @ [j]" using ni by (auto simp: same(2))
  have "life_step isoTime (life_view c x fl l r) ((life_view c x fl l r)\<lparr>lf_active := lf_active (life_view c x fl l r) @ [j],
      lf_created := lf_created (life_view c x fl l r) @ [j]\<rparr>)"
    by (rule l_create) (use valid i(2) jobs in \<open>simp_all add: life_view_def j_def\<close>)
  moreover have "(life_view c x fl l r)\<lparr>lf_active := lf_active (life_view c x fl l r) @ [j],
      lf_created := lf_created (life_view c x fl l r) @ [j]\<rparr> = life_view (c @ [j]) x fl l ?r"
    using jobs by (simp add: life_view_def)
  ultimately have "life_step isoTime (life_view c x fl l r) (life_view (c @ [j]) x fl l ?r)" by simp
  then show ?thesis unfolding c' same(1) using same(2,3) by (auto simp: jobs_loaded_def)
qed

lemma cancel_steps:
  assumes inv: "life_inv isoTime (life_view c x fl l r)" and jl: "jobs_loaded r"
  shows "life_steps isoTime (life_view c x fl l r) (life_view c
      (if fst (cancel_plan isoTime written i r) = Inr CancelledPlan then insert i x else x) fl l (snd (cancel_plan isoTime written i r)))
    \<and> jobs_loaded (snd (cancel_plan isoTime written i r))"
proof (cases "sr_state r = StartedState \<and> jobs_get i (sr_jobs r) \<noteq> None \<and> written")
  case False
  then show ?thesis using jl life_invD(1) [OF inv]
    by (cases "sr_state r") (auto simp: cancel_plan_def jobs_loaded_def schedule_replace_ok valid_plans_filter)
next
  case True
  then have jobs: "sr_jobs r = plans_of (sr_disk r)" using jl by (simp add: jobs_loaded_def)
  let ?k = "filter (\<lambda>j. sj_id j \<noteq> i) (plans_of (sr_disk r))"
  let ?r = "clearJobTimer i (r\<lparr>sr_disk := (sr_disk r)\<lparr>sd_plans := Some ?k\<rparr>, sr_jobs := ?k\<rparr>)"
  have cp: "cancel_plan isoTime written i r = (Inr CancelledPlan, ?r)"
    using True jobs schedule_replace_ok [OF valid_plans_filter [OF life_invD(1) [OF inv]]] by (simp add: cancel_plan_def)
  have "life_step isoTime (life_view c x fl l r) ((life_view c x fl l r)\<lparr>lf_active := filter (\<lambda>j. sj_id j \<noteq> i) (lf_active (life_view c x fl l r)),
      lf_cancelled := insert i (lf_cancelled (life_view c x fl l r))\<rparr>)"
    by (rule l_cancel)
  moreover have "(life_view c x fl l r)\<lparr>lf_active := filter (\<lambda>j. sj_id j \<noteq> i) (lf_active (life_view c x fl l r)),
      lf_cancelled := insert i (lf_cancelled (life_view c x fl l r))\<rparr> = life_view c (insert i x) fl l ?r"
    by (simp add: life_view_def)
  ultimately have "life_step isoTime (life_view c x fl l r) (life_view c (insert i x) fl l ?r)" by simp
  then show ?thesis unfolding cp by (auto simp: jobs_loaded_def)
qed

section \<open>The system\<close>

definition system_inv :: "(jstr \<Rightarrow> bool) \<Rightarrow> delivery_system \<Rightarrow> bool" where
  "system_inv isoTime s \<longleftrightarrow> life_inv isoTime (life_of s) \<and> jobs_loaded (ds_runtime s)"

lemma event_steps:
  assumes "wake_id e = None"
  shows "life_steps isoTime (life_view c x fl l r) (life_view c x fl l (snd (coordinated_enqueue e r)))"
proof -
  have "life_step isoTime (life_view c x fl l r) ((life_view c x fl l r)\<lparr>lf_events := lf_events (life_view c x fl l r) @ [e]\<rparr>)"
    using assms by (rule l_event)
  moreover have "(life_view c x fl l r)\<lparr>lf_events := lf_events (life_view c x fl l r) @ [e]\<rparr> = life_view c x fl l (snd (coordinated_enqueue e r))"
    using assms by (cases e) (simp_all add: life_view_def enqueue_def Let_def)
  ultimately show ?thesis by (metis r_into_rtranclp)
qed

lemma foldl_enqueue: "eq_events (foldl (\<lambda>q e. snd (enqueue e q)) q es) = eq_events q @ es"
  by (induction es arbitrary: q) simp_all

lemma put_back_steps: "life_steps isoTime (life_of s) (life_of (put_back s))"
proof -
  have "life_step isoTime (life_of s) ((life_of s)\<lparr>lf_events := eq_events (sr_queue (ds_runtime s)) @ ds_flight s\<rparr>)"
    by (rule l_requeue) (simp add: life_of_def life_view_def)
  moreover have "(life_of s)\<lparr>lf_events := eq_events (sr_queue (ds_runtime s)) @ ds_flight s\<rparr> = life_of (put_back s)"
    by (simp add: life_of_def life_view_def put_back_def foldl_enqueue)
  ultimately show ?thesis by (metis r_into_rtranclp)
qed

lemma commit_steps:
  assumes inv: "system_inv isoTime s" and o': "\<forall>m \<in> set others. \<not> is_schedule_text m"
  shows "life_steps isoTime (life_of s) (life_of (commit_events isoTime written others s))
    \<and> jobs_loaded (ds_runtime (commit_events isoTime written others s))"
proof -
  let ?s = "s\<lparr>ds_ledger := ds_ledger s @ others @ wake_texts (ds_flight s), ds_flight := []\<rparr>"
  have "life_step isoTime (life_of s) ((life_of s)\<lparr>lf_ledger := lf_ledger (life_of s) @ others @ wake_texts (ds_flight s),
      lf_events := eq_events (sr_queue (ds_runtime s))\<rparr>)"
    by (rule l_commit) (use o' in \<open>simp_all add: life_of_def life_view_def\<close>)
  moreover have "(life_of s)\<lparr>lf_ledger := lf_ledger (life_of s) @ others @ wake_texts (ds_flight s),
      lf_events := eq_events (sr_queue (ds_runtime s))\<rparr> = life_of ?s"
    by (simp add: life_of_def life_view_def)
  ultimately have s1: "life_steps isoTime (life_of s) (life_of ?s)" by (metis r_into_rtranclp)
  have inv1: "life_inv isoTime (life_of ?s)" using life_steps_inv [OF s1] inv by (simp add: system_inv_def)
  have q: "distinct (waiting_ids (ds_flight s @ eq_events (sr_queue (ds_runtime s))))"
      "wakes_known (ds_created s) (ds_flight s)"
    using inv unfolding system_inv_def life_inv_def queue_agrees_def by (auto simp: life_of_def life_view_def)
  have "i \<notin> set (waiting_ids (eq_events (sr_queue (ds_runtime s)))) \<and> (\<exists>j \<in> set (ds_created s). sj_id j = i
      \<and> plan_text j \<in> set (ds_ledger s @ others @ wake_texts (ds_flight s)))" if i: "i \<in> set (wake_ids (ds_flight s))" for i
  proof
    show "i \<notin> set (waiting_ids (eq_events (sr_queue (ds_runtime s))))" using q(1) i unfolding wake_ids_set by auto
    obtain e where e: "e \<in> set (ds_flight s)" "wake_id e = Some i" using i unfolding wake_ids_set waiting_mem by auto
    obtain j where j: "j \<in> set (ds_created s)" "wake_of (occurrence_of j) = Some e"
      using q(2) e by (auto simp: wakes_known_def)
    have "sj_id j = i" using wake_of_id [OF j(2)] e(2) by simp
    moreover have "plan_text j \<in> set (wake_texts (ds_flight s))"
    proof -
      obtain t where t: "date_parse (sj_at j) = Some t" "e = ScheduledWake (sj_id j) (sj_name j) t"
        using j(2) by (auto simp: wake_of_def occurrence_of_def split: option.splits)
      then have "wake_text e = Some (plan_text j)" by (simp add: plan_text_def)
      then show ?thesis using e(1) by (induction "ds_flight s") (auto simp: wake_texts_def List.map_filter_def image_iff)
    qed
    ultimately show "\<exists>j \<in> set (ds_created s). sj_id j = i \<and> plan_text j \<in> set (ds_ledger s @ others @ wake_texts (ds_flight s))"
      using j(1) by auto
  qed
  then have "life_steps isoTime (life_of ?s) (life_view (ds_created s) (ds_cancelled s) [] (ds_ledger s @ others @ wake_texts (ds_flight s))
        (snd (mark_loop isoTime written (wake_ids (ds_flight s)) (ds_runtime s))))
    \<and> jobs_loaded (snd (mark_loop isoTime written (wake_ids (ds_flight s)) (ds_runtime s)))"
    using mark_steps [of isoTime "ds_created s" "ds_cancelled s" "ds_ledger s @ others @ wake_texts (ds_flight s)" "ds_runtime s"
        "wake_ids (ds_flight s)" written] inv1 inv by (simp add: life_of_def system_inv_def)
  with s1 show ?thesis by (auto simp: commit_events_def life_of_def markCommitted_def intro: rtranclp_trans)
qed

lemma system_step:
  assumes "delivery_step isoTime s s'" "system_inv isoTime s"
  shows "life_steps isoTime (life_of s) (life_of s') \<and> system_inv isoTime s'"
proof -
  have inv: "life_inv isoTime (life_of s)" "jobs_loaded (ds_runtime s)" using assms(2) by (simp_all add: system_inv_def)
  have "life_steps isoTime (life_of s) (life_of s') \<and> jobs_loaded (ds_runtime s')"
    using assms(1)
  proof cases
    case (d_start timerOk written)
    then show ?thesis using start_steps inv by (simp add: life_of_def)
  next
    case (d_create i now written timerOk n t input)
    then show ?thesis using create_steps [OF _ inv(2)] inv(1) by (simp add: life_of_def create_system_def Let_def)
  next
    case (d_cancel written i)
    then show ?thesis using cancel_steps [OF _ inv(2), of isoTime "ds_created s" "ds_cancelled s" "ds_flight s" "ds_ledger s" written i] inv(1)
      by (auto simp: life_of_def cancel_system_def Let_def case_prod_beta)
  next
    case (d_timer now w timerOk retryOk i at)
    then show ?thesis using queueTimer_steps inv by (simp add: life_of_def)
  next
    case (d_event e)
    then show ?thesis using event_steps inv(2) by (simp add: life_of_def jobs_loaded_def)
  next
    case d_take
    then show ?thesis using inv(2) by (simp add: take_events_def life_of_def life_view_def jobs_loaded_def)
  next
    case (d_commit others written)
    then show ?thesis using commit_steps assms(2) by blast
  next
    case d_put_back
    then show ?thesis using put_back_steps inv(2) by (simp add: put_back_def jobs_loaded_def)
  next
    case d_lose
    have "life_step isoTime (life_of s) ((life_of s)\<lparr>lf_events := eq_events (sr_queue (ds_runtime s))\<rparr>)"
      by (rule l_lose) (simp add: life_of_def life_view_def)
    then show ?thesis using inv(2) d_lose by (auto simp: life_of_def life_view_def)
  next
    case d_stop
    then show ?thesis using inv(2) by (simp add: life_of_def life_view_def stop_def jobs_loaded_def)
  next
    case d_restart
    have "life_step isoTime (life_of s) ((life_of s)\<lparr>lf_queued := {}, lf_events := []\<rparr>)" by (rule l_restart)
    then show ?thesis using d_restart by (auto simp: life_of_def life_view_def restart_system_def new_runtime_def empty_queue_def jobs_loaded_def)
  qed
  then show ?thesis using life_steps_inv inv(1) by (auto simp: system_inv_def)
qed


lemma first_system_inv: "system_inv isoTime first_system"
  using first_life_inv [of isoTime]
  by (simp add: system_inv_def life_of_def life_view_def first_system_def first_life_def new_runtime_def plans_of_def pending_in_def
      empty_queue_def jobs_loaded_def)

lemma reachable_inv: "delivery_reachable isoTime s \<Longrightarrow> system_inv isoTime s"
  by (induction rule: delivery_reachable.induct) (use first_system_inv system_step in blast)+

abbreviation disk_of :: "delivery_system \<Rightarrow> schedule_disk" where
  "disk_of s \<equiv> sr_disk (ds_runtime s)"

lemma life_of_fields [simp]:
  "lf_created (life_of s) = ds_created s" "lf_cancelled (life_of s) = ds_cancelled s" "lf_active (life_of s) = plans_of (disk_of s)"
  "lf_pending (life_of s) = pending_in (sd_pending (disk_of s))" "lf_queued (life_of s) = sr_queued (ds_runtime s)"
  "lf_events (life_of s) = ds_flight s @ eq_events (sr_queue (ds_runtime s))" "lf_ledger (life_of s) = ds_ledger s"
  by (simp_all add: life_of_def life_view_def)

section \<open>A run\<close>

definition any_time :: "jstr \<Rightarrow> bool" where "any_time s = True"

definition tea_job :: schedule_job where
  "tea_job = \<lparr>sj_id = js ''u1'', sj_name = js ''tea'', sj_intention = js ''drink'', sj_at = to_iso_string 60000,
     sj_createdAt = to_iso_string 0\<rparr>"

definition started_system :: delivery_system where
  "started_system = first_system\<lparr>ds_runtime := snd (start_background any_time (\<lambda>_. True) (\<lambda>_. True) {} (ds_runtime first_system))\<rparr>"

definition planned_system :: delivery_system where
  "planned_system = create_system any_time 0 True True (js ''u1'') (js ''tea'') (js ''drink'')
     (JObj [(js ''afterSeconds'', jint 60)]) started_system"

text \<open>The plan is due, but the write of the plan file fails.\<close>

definition half_fired_system :: delivery_system where
  "half_fired_system = planned_system\<lparr>ds_runtime := queueTimer any_time 60000
     \<lparr>fw_occurrence = True, fw_pending = True, fw_plans = False\<rparr> True True (js ''u1'') (to_iso_string 60000) (ds_runtime planned_system)\<rparr>"

lemma tea_time: "date_parse (to_iso_string 60000) = Some 60000" "parseDate (to_iso_string 60000) = Inr 60000"
  "date_parse (to_iso_string 0) = Some 0"
proof -
  have c: "civil_of_day 0 = (1970, 1, 1)" by code_simp
  have c': "civil_of_day (60000 div day_ms) = (1970, 1, 1)" "civil_of_day (0 div day_ms) = (1970, 1, 1)" using c by (simp_all add: day_ms_def)
  then have "printable_time 60000" "printable_time 0" by (simp_all add: printable_time_def)
  then show d: "date_parse (to_iso_string 60000) = Some 60000" "date_parse (to_iso_string 0) = Some 0"
    by (simp_all add: date_parse_iso_string)
  have z: "take_zone [90] = Some 0" by (simp add: take_zone_def)
  have nd: "[90] = c # r \<Longrightarrow> \<not> is_digit c" for c r by (auto simp: is_digit_def)
  have m: "match_iso (to_iso_string 60000) = Some \<lparr>if_year = 1970, if_month = 1, if_day = 1,
      if_hour = 60000 mod day_ms div 3600000, if_minute = 60000 mod day_ms div 60000 mod 60, if_second = 60000 mod day_ms div 1000 mod 60,
      if_millis = 60000 mod day_ms mod 1000, if_offset = 0\<rparr>"
    unfolding to_iso_string_def by (rule match_rendered [OF c'(1) _ _ z]) (simp, simp, erule nd)
  have l: "last_day 1970 1 = 31" by code_simp
  show "parseDate (to_iso_string 60000) = Inr 60000"
    by (simp add: parseDate_def m l d day_ms_def)
qed

lemma tea_texts: "bounded_text max_id_length (js ''u1'') = Some (js ''u1'')" "bounded_text max_name_length (js ''tea'') = Some (js ''tea'')"
  "bounded_text max_intention_length (js ''drink'') = Some (js ''drink'')"
  by (simp_all add: bounded_text_def trim_def trim_end_def is_space_def js_def max_id_length_def max_name_length_def
      max_intention_length_def)

lemma tea_parsed: "parse_job any_time tea_job = Some tea_job"
  by (simp add: parse_job_def tea_job_def tea_texts any_time_def delay_ok_def tea_time min_at_delay_ms_def max_lifetime_ms_def)

lemma tea_valid: "valid_plans any_time [tea_job]"
  by (rule valid_plansI) (simp_all add: tea_parsed max_active_schedules_def)

lemma tea_at: "normalizeScheduleAt (JObj [(js ''afterSeconds'', jint 60)]) (Some 0) = Inr (to_iso_string 60000)"
  by (simp add: normalizeScheduleAt_def parse_at_input_def js_def valid_time_def min_at_delay_ms_def max_lifetime_ms_def)

lemma started_runtime: "ds_runtime started_system = (new_runtime \<lparr>sd_plans = None, sd_occurrences = None, sd_pending = None\<rparr>)\<lparr>sr_state := StartedState\<rparr>"
  by (simp add: started_system_def first_system_def start_background_def start_def start_begin_def start_loaded_def new_runtime_def
      schedule_load_def validateScheduleJobs_def jobs_of_def list_plans_def replayPending_def loadPending_def)

lemma planned_runtime: "planned_system = started_system\<lparr>ds_created := [tea_job], ds_runtime := (ds_runtime started_system)
    \<lparr>sr_disk := \<lparr>sd_plans = Some [tea_job], sd_occurrences = None, sd_pending = None\<rparr>, sr_jobs := [tea_job],
      sr_timers := [(js ''u1'', to_iso_string 60000)]\<rparr>\<rparr>"
proof -
  have v: "validateScheduleJobs any_time [\<lparr>sj_id = js ''u1'', sj_name = js ''tea'', sj_intention = js ''drink'', sj_at = to_iso_string 60000,
     sj_createdAt = to_iso_string 0\<rparr>] = Some [tea_job]" using tea_valid by (simp add: valid_plans_def tea_job_def)
  show ?thesis
    by (simp add: planned_system_def create_system_def Let_def started_runtime create_def new_runtime_def tea_texts tea_at v
        schedule_replace_def armJob_def clearJobTimer_def put_timer_def max_active_schedules_def)
      (simp add: started_system_def first_system_def tea_job_def)
qed


lemma half_fired: "sr_state (ds_runtime half_fired_system) = StartedState" "plans_of (disk_of half_fired_system) = [tea_job]"
  "pending_in (sd_pending (disk_of half_fired_system)) = [occurrence_of tea_job]" "ds_created half_fired_system = [tea_job]"
proof -
  have x: "parse_occurrence any_time (occurrence_of tea_job) = Some (occurrence_of tea_job)" by (rule parsed_job_occurrence [OF tea_parsed])
  then have l: "parse_occurrence_list any_time [occurrence_of tea_job] = Inr [occurrence_of tea_job]"
    by (simp add: parse_occurrence_list_def max_occurrences_def)
  have w: "wake_of (occurrence_of tea_job) = Some (ScheduledWake (js ''u1'') (js ''tea'') 60000)"
    by (simp add: wake_of_def occurrence_of_def tea_job_def tea_time)
  have t: "sj_id tea_job = js ''u1''" "sj_at tea_job = to_iso_string 60000" by (simp_all add: tea_job_def)
  have v: "validateScheduleJobs any_time [] = Some []" using valid_plans_Nil by (simp add: valid_plans_def)
  have f: "persist_firing any_time \<lparr>fw_occurrence = True, fw_pending = True, fw_plans = False\<rparr> (occurrence_of tea_job) []
      \<lparr>sd_plans = Some [tea_job], sd_occurrences = None, sd_pending = None\<rparr> =
      (Inl StoreWriteFailed, \<lparr>sd_plans = Some [tea_job], sd_occurrences = Some [occurrence_of tea_job], sd_pending = Some [occurrence_of tea_job]\<rparr>)"
    by (simp add: persist_firing_def occurrence_record_def loadOccurrences_def recordOccurrence_def x find_occurrence_def keep_last_def
        max_occurrences_def parseOccurrences_def l persistOccurrences_def recordPending_def loadPending_def persistPending_def
        schedule_replace_def v Let_def)
  have "ds_runtime half_fired_system = (ds_runtime planned_system)\<lparr>sr_disk := \<lparr>sd_plans = Some [tea_job],
      sd_occurrences = Some [occurrence_of tea_job], sd_pending = Some [occurrence_of tea_job]\<rparr>\<rparr>"
    by (simp add: half_fired_system_def planned_runtime started_runtime new_runtime_def queueTimer_def processTimer_def jobs_get_def w t f
        put_timer_def clearJobTimer_def Let_def)
  then show "sr_state (ds_runtime half_fired_system) = StartedState" "plans_of (disk_of half_fired_system) = [tea_job]"
    "pending_in (sd_pending (disk_of half_fired_system)) = [occurrence_of tea_job]"
    by (simp_all add: planned_runtime started_runtime plans_of_def)
  show "ds_created half_fired_system = [tea_job]" by (simp add: half_fired_system_def planned_runtime)
qed

lemma planned_reachable: "delivery_reachable any_time planned_system"
proof -
  have "delivery_step any_time first_system started_system"
    using d_start [of any_time first_system "\<lambda>_. True" "\<lambda>_. True"] by (simp add: started_system_def first_system_def)
  then have "delivery_reachable any_time started_system" by (rule d_next [OF d_first])
  moreover have "delivery_step any_time started_system planned_system"
    unfolding planned_system_def by (rule d_create [OF tea_texts(1)]) (simp add: started_system_def first_system_def)
  ultimately show ?thesis by (rule d_next)
qed

lemma half_fired_step: "delivery_step any_time planned_system half_fired_system"
  unfolding half_fired_system_def by (rule d_timer)

lemma half_fired_reachable: "delivery_reachable any_time half_fired_system"
  by (rule d_next [OF planned_reachable half_fired_step])

section \<open>The properties\<close>

text \<open>C4. The system implements the delivery contract: whatever writes, timers and commits fail, and wherever it
  crashes, each step of the system is a number of steps of the contract.\<close>

theorem delivery_refines:
  assumes "delivery_reachable isoTime s" "delivery_step isoTime s s'"
  shows "life_steps isoTime (life_of s) (life_of s')"
  using system_step [OF assms(2) reachable_inv [OF assms(1)]] by blast

theorem delivery_refines_witness:
  "life_steps any_time (life_of planned_system) (life_of half_fired_system) \<and> lf_active (life_of planned_system) = [tea_job]"
  using delivery_refines [OF planned_reachable half_fired_step] by (simp add: planned_runtime plans_of_def)

text \<open>C5. No plan is lost and none is delivered twice: a plan that was created and not cancelled is in the plan file,
  or its occurrence is in the delivery file, or its notification is in the ledger, and the notification of any plan is
  there at most once.\<close>

theorem plans_delivered_once:
  assumes "delivery_reachable isoTime s" "j \<in> set (ds_created s)"
  shows "count_list (ds_ledger s) (plan_text j) \<le> 1 \<and>
    (sj_id j \<in> ds_cancelled s \<or> j \<in> set (plans_of (disk_of s)) \<or> occurrence_of j \<in> set (pending_in (sd_pending (disk_of s)))
      \<or> plan_text j \<in> set (ds_ledger s))"
  using reachable_inv [OF assms(1)] assms(2) unfolding system_inv_def life_inv_def ledger_agrees_def by auto

theorem plans_delivered_once_witness:
  "delivery_reachable any_time half_fired_system \<and> count_list (ds_ledger half_fired_system) (plan_text tea_job) \<le> 1"
  using plans_delivered_once [OF half_fired_reachable, of tea_job] half_fired(4) half_fired_reachable by simp

text \<open>At most twenty plans are active, their ids and names are different, and while the runtime is started the
  plans in memory are exactly those of the file.\<close>

theorem active_plans_limited:
  assumes "delivery_reachable isoTime s"
  shows "length (plans_of (disk_of s)) \<le> 20 \<and> distinct (map sj_id (plans_of (disk_of s))) \<and> distinct (map sj_name (plans_of (disk_of s)))
    \<and> (sr_state (ds_runtime s) = StartedState \<longrightarrow> sr_jobs (ds_runtime s) = plans_of (disk_of s))"
proof -
  have "valid_plans isoTime (plans_of (disk_of s))" "jobs_loaded (ds_runtime s)"
    using reachable_inv [OF assms] by (simp_all add: system_inv_def life_inv_def stores_inv_def)
  then show ?thesis using valid_plansD by (auto simp: jobs_loaded_def max_active_schedules_def)
qed

theorem active_plans_limited_witness: "length (plans_of (disk_of planned_system)) \<le> 20 \<and> sr_jobs (ds_runtime planned_system) = [tea_job]"
  using active_plans_limited [OF planned_reachable] by (simp add: planned_runtime)

section \<open>Restart\<close>

lemma arm_jobs_ok: "fst (arm_jobs (\<lambda>_. True) jobs r) = Inr ()"
proof (induction jobs arbitrary: r)
  case (Cons j jobs)
  have "fst (armJob True j r) = Inr ()" by (simp add: armJob_def Let_def)
  then show ?case using Cons by (cases "armJob True j r") simp
qed simp

lemma start_replays:
  assumes inv: "life_inv isoTime (life_view c x fl l r)" and new: "sr_state r = NewState"
  shows "\<exists>ts. start_background isoTime (\<lambda>_. True) written texts r = replay_loop isoTime written (isCommitted texts)
    (sj_id ` set (plans_of (sr_disk r))) (pending_in (sd_pending (sr_disk r)))
    (r\<lparr>sr_jobs := plans_of (sr_disk r), sr_state := StartedState, sr_timers := ts\<rparr>)"
proof -
  let ?plans = "plans_of (sr_disk r)"
  let ?r = "r\<lparr>sr_jobs := ?plans, sr_state := StartedState\<rparr>"
  obtain ts where ts: "snd (arm_jobs (\<lambda>_. True) ?plans ?r) = ?r\<lparr>sr_timers := ts\<rparr>" using arm_jobs_timers by blast
  then have arm: "arm_jobs (\<lambda>_. True) ?plans ?r = (Inr (), ?r\<lparr>sr_timers := ts\<rparr>)"
    using arm_jobs_ok [of ?plans ?r] by (cases "arm_jobs (\<lambda>_. True) ?plans ?r") simp
  have "validateScheduleJobs isoTime ?plans = Some ?plans" using life_invD(1) [OF inv] by (simp add: valid_plans_def)
  then have "start isoTime (\<lambda>_. True) r = (Inr (), ?r\<lparr>sr_timers := ts\<rparr>)"
    using new arm schedule_load_ok [OF life_invD(1) [OF inv]] jobs_of_distinct [OF life_invD(3) [OF inv]]
    by (simp add: start_def start_begin_def start_loaded_def Let_def)
  then show ?thesis using loadPending_ok [OF life_invD(2) [OF inv]]
    by (intro exI [of _ ts]) (simp add: start_background_def list_plans_def replayPending_def)
qed

lemma complete_pending_ok:
  assumes "pending_ok isoTime (pending_in (sd_pending (sr_disk r)))"
  obtains r' where "complete_pending isoTime True i r = (Inr (), r')" "sr_queue r' = sr_queue r" "sr_queued r' = sr_queued r - {i}"
    "pending_ok isoTime (pending_in (sd_pending (sr_disk r')))"
  using assms
proof (cases rule: complete_delivery_cases [of isoTime "sd_pending (sr_disk r)" True i])
  case (completed f')
  then show ?thesis using that [of "r\<lparr>sr_disk := (sr_disk r)\<lparr>sd_pending := f'\<rparr>, sr_queued := sr_queued r - {i}\<rparr>"]
    pending_ok_filter [OF assms] by (simp add: complete_pending_def)
qed simp

lemma replay_enqueues:
  assumes "pending_ok isoTime (pending_in (sd_pending (sr_disk r)))" "distinct (map oc_scheduleId xs)" "\<forall>y \<in> set xs. wake_of y \<noteq> None"
  shows "set (eq_events (sr_queue r)) \<subseteq> set (eq_events (sr_queue (snd (replay_loop isoTime (\<lambda>_. True) committed active xs r))))
    \<and> (\<forall>y \<in> set xs. \<forall>e. wake_of y = Some e \<and> oc_scheduleId y \<notin> active \<and> \<not> committed e \<and> oc_scheduleId y \<notin> sr_queued r \<longrightarrow>
        e \<in> set (eq_events (sr_queue (snd (replay_loop isoTime (\<lambda>_. True) committed active xs r)))))"
  using assms
proof (induction xs arbitrary: r)
  case (Cons y xs)
  let ?loop = "\<lambda>ys r. snd (replay_loop isoTime (\<lambda>_. True) committed active ys r)"
  obtain e where e: "wake_of y = Some e" using Cons.prems(3) by auto
  then obtain n t where w: "e = ScheduledWake (oc_scheduleId y) n t" by (auto simp: wake_of_def split: option.splits)
  have other: "\<forall>z \<in> set xs. oc_scheduleId z \<noteq> oc_scheduleId y" using Cons.prems(2) by (metis distinct.simps(2) image_eqI list.set_map list.simps(9))
  consider (active) "oc_scheduleId y \<in> active" | (done') "oc_scheduleId y \<notin> active" "committed e"
    | (open') "oc_scheduleId y \<notin> active" "\<not> committed e" by blast
  then show ?case
  proof cases
    case active
    then show ?thesis using Cons.IH [OF Cons.prems(1)] Cons.prems by simp
  next
    case done'
    obtain r' where r': "complete_pending isoTime True (oc_scheduleId y) r = (Inr (), r')" "sr_queue r' = sr_queue r"
      "sr_queued r' = sr_queued r - {oc_scheduleId y}" "pending_ok isoTime (pending_in (sd_pending (sr_disk r')))"
      using Cons.prems(1) by (rule complete_pending_ok)
    have "?loop (y # xs) r = ?loop xs r'" using done' e r' by simp
    then show ?thesis using Cons.IH [OF r'(4)] Cons.prems r'(2,3) done' e by simp
  next
    case open'
    let ?r = "snd (coordinated_enqueue e r)"
    have l: "?loop (y # xs) r = ?loop xs ?r" using open' e by simp
    have p: "pending_ok isoTime (pending_in (sd_pending (sr_disk ?r)))" using Cons.prems(1) by simp
    have ev: "set (eq_events (sr_queue r)) \<subseteq> set (eq_events (sr_queue ?r))" "oc_scheduleId y \<notin> sr_queued r \<Longrightarrow> e \<in> set (eq_events (sr_queue ?r))"
      "sr_queued ?r = insert (oc_scheduleId y) (sr_queued r)"
      by (auto simp: w enqueue_def Let_def)
    have ih: "set (eq_events (sr_queue ?r)) \<subseteq> set (eq_events (sr_queue (?loop xs ?r)))"
      "\<forall>z \<in> set xs. \<forall>f. wake_of z = Some f \<and> oc_scheduleId z \<notin> active \<and> \<not> committed f \<and> oc_scheduleId z \<notin> sr_queued ?r
         \<longrightarrow> f \<in> set (eq_events (sr_queue (?loop xs ?r)))"
      using Cons.IH [OF p] Cons.prems(2,3) by simp_all
    have "f \<in> set (eq_events (sr_queue (?loop xs ?r)))"
      if z: "z \<in> set (y # xs)" "wake_of z = Some f \<and> oc_scheduleId z \<notin> active \<and> \<not> committed f \<and> oc_scheduleId z \<notin> sr_queued r" for z f
    proof (cases "z = y")
      case True
      then have "f = e" "oc_scheduleId y \<notin> sr_queued r" using z(2) e by auto
      then show ?thesis using ev(2) ih(1) by blast
    next
      case False
      then have "z \<in> set xs" using z(1) by simp
      moreover from this have "oc_scheduleId z \<notin> sr_queued ?r" using other z(2) unfolding ev(3) by blast
      ultimately show ?thesis using ih(2) z(2) by blast
    qed
    moreover have "set (eq_events (sr_queue r)) \<subseteq> set (eq_events (sr_queue (?loop xs ?r)))" using ev(1) ih(1) by (rule subset_trans)
    ultimately show ?thesis unfolding l by blast
  qed
qed simp

text \<open>The loop after a restart: start, take the events, commit them.\<close>

definition recover :: "(jstr \<Rightarrow> bool) \<Rightarrow> delivery_system \<Rightarrow> delivery_system" where
  "recover isoTime s =
     (let s1 = restart_system s;
          s2 = s1\<lparr>ds_runtime := snd (start_background isoTime (\<lambda>_. True) (\<lambda>_. True) (set (ds_ledger s1)) (ds_runtime s1))\<rparr>
      in commit_events isoTime (\<lambda>_. True) [] (take_events s2))"

lemma recover_delivers:
  assumes inv: "system_inv isoTime s" and j: "j \<in> set (ds_created s)" "occurrence_of j \<in> set (pending_in (sd_pending (disk_of s)))"
    "j \<notin> set (plans_of (disk_of s))"
  shows "plan_text j \<in> set (ds_ledger (recover isoTime s))"
proof (cases "plan_text j \<in> set (ds_ledger s)")
  case True
  then show ?thesis by (simp add: recover_def Let_def commit_events_def take_events_def restart_system_def)
next
  case False
  let ?s = "restart_system s"
  have inv': "life_inv isoTime (life_of ?s)" using system_step [OF d_restart inv] by (simp add: system_inv_def)
  have st: "stores_inv isoTime (life_of s)" using inv by (simp add: system_inv_def life_inv_def)
  have fixed: "parse_job isoTime j = Some j" using stores_fixed [OF st] j(1) by simp
  obtain t where t: "wake_of (occurrence_of j) = Some (ScheduledWake (sj_id j) (sj_name j) t)" "plan_text j = schedule_text (sj_id j) (sj_name j) t"
    using fixed by (rule parsed_job_wake)
  let ?e = "ScheduledWake (sj_id j) (sj_name j) t"
  have same: "ds_created ?s = ds_created s" "ds_ledger ?s = ds_ledger s" "disk_of ?s = disk_of s" "sr_queued (ds_runtime ?s) = {}"
    "sr_state (ds_runtime ?s) = NewState"
    by (simp_all add: restart_system_def new_runtime_def)
  obtain ts where start: "start_background isoTime (\<lambda>_. True) (\<lambda>_. True) (set (ds_ledger ?s)) (ds_runtime ?s) =
      replay_loop isoTime (\<lambda>_. True) (isCommitted (set (ds_ledger ?s))) (sj_id ` set (plans_of (disk_of ?s))) (pending_in (sd_pending (disk_of ?s)))
        ((ds_runtime ?s)\<lparr>sr_jobs := plans_of (disk_of ?s), sr_state := StartedState, sr_timers := ts\<rparr>)"
    using start_replays [OF inv' [unfolded life_of_def] same(5)] by blast
  note start' = start [unfolded same]
  have po: "pending_ok isoTime (pending_in (sd_pending (disk_of s)))" using st by (simp add: stores_inv_def)
  have wk: "\<forall>y \<in> set (pending_in (sd_pending (disk_of s))). wake_of y \<noteq> None"
  proof
    fix y assume "y \<in> set (pending_in (sd_pending (disk_of s)))"
    then obtain k where "k \<in> set (ds_created s)" "y = occurrence_of k" using pending_created [OF st] by auto
    moreover from this have "parse_job isoTime k = Some k" using stores_fixed [OF st] by simp
    then obtain u where "wake_of (occurrence_of k) = Some (ScheduledWake (sj_id k) (sj_name k) u)" by (rule parsed_job_wake)
    ultimately show "wake_of y \<noteq> None" by simp
  qed
  have na: "sj_id j \<notin> sj_id ` set (plans_of (disk_of s))"
    using created_inj [OF st, of j] active_created [OF st] j(1,3) by (metis imageE life_of_fields(1,3))
  have "\<not> isCommitted (set (ds_ledger s)) ?e" using committed_text [OF fixed t(1)] False by simp
  then have "?e \<in> set (eq_events (sr_queue (snd (start_background isoTime (\<lambda>_. True) (\<lambda>_. True) (set (ds_ledger ?s)) (ds_runtime ?s)))))"
    unfolding same start' using replay_enqueues [OF _ _ wk, of isoTime "(ds_runtime ?s)\<lparr>sr_jobs := plans_of (disk_of s),
        sr_state := StartedState, sr_timers := ts\<rparr>" "isCommitted (set (ds_ledger s))" "sj_id ` set (plans_of (disk_of s))"]
      po j(2) t(1) na same by (simp add: pending_ok_def)
  then have "schedule_text (sj_id j) (sj_name j) t \<in> set (wake_texts (eq_events (sr_queue (snd (start_background isoTime (\<lambda>_. True) (\<lambda>_. True)
      (set (ds_ledger ?s)) (ds_runtime ?s))))))"
    by (force simp: wake_texts_def List.map_filter_def image_iff)
  then show ?thesis by (simp add: recover_def Let_def commit_events_def take_events_def t(2) same)
qed


text \<open>C31. A cancellation that does not hold: the firing of a plan has recorded its delivery but could not write the
  plan file; the plan is still active, and cancelling it succeeds, yet after the next restart it is delivered.\<close>

theorem cancelled_plan_is_delivered:
  assumes "delivery_reachable isoTime s" "sr_state (ds_runtime s) = StartedState" "j \<in> set (plans_of (disk_of s))"
    "occurrence_of j \<in> set (pending_in (sd_pending (disk_of s)))"
  shows "fst (cancel_plan isoTime True (sj_id j) (ds_runtime s)) = Inr CancelledPlan \<and>
    plan_text j \<in> set (ds_ledger (recover isoTime (cancel_system isoTime True (sj_id j) s)))"
proof -
  have inv: "system_inv isoTime s" by (rule reachable_inv [OF assms(1)])
  have st: "stores_inv isoTime (life_of s)" using inv by (simp add: system_inv_def life_inv_def)
  then have valid: "valid_plans isoTime (plans_of (disk_of s))" by (simp add: stores_inv_def)
  have jobs: "sr_jobs (ds_runtime s) = plans_of (disk_of s)" using inv assms(2) by (simp add: system_inv_def jobs_loaded_def)
  have "jobs_get (sj_id j) (sr_jobs (ds_runtime s)) \<noteq> None" using assms(3) jobs by (auto simp: jobs_get_def find_None_iff)
  then have c: "cancel_plan isoTime True (sj_id j) (ds_runtime s) = (Inr CancelledPlan, clearJobTimer (sj_id j) ((ds_runtime s)
      \<lparr>sr_disk := (disk_of s)\<lparr>sd_plans := Some (filter (\<lambda>k. sj_id k \<noteq> sj_id j) (plans_of (disk_of s)))\<rparr>,
        sr_jobs := filter (\<lambda>k. sj_id k \<noteq> sj_id j) (plans_of (disk_of s))\<rparr>))"
    using assms(2) jobs schedule_replace_ok [OF valid_plans_filter [OF valid]] by (auto simp: cancel_plan_def)
  let ?s = "cancel_system isoTime True (sj_id j) s"
  have s: "ds_created ?s = ds_created s" "pending_in (sd_pending (disk_of ?s)) = pending_in (sd_pending (disk_of s))"
    "plans_of (disk_of ?s) = filter (\<lambda>k. sj_id k \<noteq> sj_id j) (plans_of (disk_of s))"
    by (simp_all add: cancel_system_def c)
  have "system_inv isoTime ?s" using system_step [OF d_cancel inv] by blast
  then have "plan_text j \<in> set (ds_ledger (recover isoTime ?s))"
    by (rule recover_delivers) (use assms(3,4) active_created [OF st] s in auto)
  then show ?thesis by (simp add: c)
qed

theorem cancelled_plan_is_delivered_witness:
  "fst (cancel_plan any_time True (js ''u1'') (ds_runtime half_fired_system)) = Inr CancelledPlan \<and>
    plan_text tea_job \<in> set (ds_ledger (recover any_time (cancel_system any_time True (js ''u1'') half_fired_system)))"
proof -
  have "sj_id tea_job = js ''u1''" by (simp add: tea_job_def)
  then show ?thesis using cancelled_plan_is_delivered [OF half_fired_reachable half_fired(1), of tea_job] half_fired by simp
qed


end
