(* ===== verification/Tool_Effects.thy ===== *)
theory Tool_Effects
  imports Mailbox_Handled Loop_Policy "HOL-Library.AList"
begin

text \<open>
  What a tool call gives back (the result types of \<open>src/agent/tool.ts\<close>), how its content becomes a durable message
  (\<open>src/agent/durable-agent-message.ts\<close>) and which of its effects the loop believes
  (\<open>src/agent/effect-interpreter.ts\<close>).
\<close>

section \<open>Results\<close>

text \<open>What the interpreter checks at run time (the target of a sent message, a mailbox and its row) is a value of
  any type here.\<close>

datatype tool_effect =
    MessageSent (ef_target: jv) (ef_continueWork: bool)
  | InboxRead (ef_mailbox: jv) (ef_throughRowId: jv)

record tool_outcome =
  to_ok :: bool
  to_code :: "jstr option"
  to_error :: "jstr option"
  to_progress :: "bool option"
  to_continuation :: "continuation_policy option"
  to_continuationDetail :: "jstr option"
  to_noveltyKey :: "jstr option"

record tool_result =
  tr_content :: tool_content
  tr_outcome :: "tool_outcome option"
  tr_effects :: "tool_effect list"

record react_effect =
  re_toolCallId :: jstr
  re_toolName :: jstr
  re_effect :: tool_effect

section \<open>Durable messages\<close>

definition description_cap :: nat where
  "description_cap = 2000"

definition text_description :: "jstr \<Rightarrow> jstr" where
  "text_description text =
     (case json_parse text of
        Some (JObj ps) \<Rightarrow>
          (case obj_get ps (js ''description'') of
             JStr d \<Rightarrow> if trim d \<noteq> [] then take description_cap (trim d) else take description_cap text
           | _ \<Rightarrow> take description_cap text)
      | _ \<Rightarrow> take description_cap text)"

fun findPersistedDescription :: "content_block list \<Rightarrow> jstr option" where
  "findPersistedDescription [] = None"
| "findPersistedDescription (b # bs) =
     (case b of
        TextBlock t \<Rightarrow> if trim t = [] then findPersistedDescription bs else Some (text_description (trim t))
      | _ \<Rightarrow> findPersistedDescription bs)"

text \<open>The store of image references: it takes an image with the description found and gives its reference, or throws.\<close>

type_synonym 'x persist = "content_block \<Rightarrow> jstr option \<Rightarrow> 'x + content_block"

fun persist_blocks :: "'x persist \<Rightarrow> jstr option \<Rightarrow> content_block list \<Rightarrow> 'x + content_block list" where
  "persist_blocks persist d [] = Inr []"
| "persist_blocks persist d (b # bs) =
     bindE (case b of ImageBlock mt dat \<Rightarrow> persist b d | _ \<Rightarrow> Inr b)
       (\<lambda>b'. bindE (persist_blocks persist d bs) (\<lambda>bs'. Inr (b' # bs')))"

fun toDurableAgentMessage :: "'x persist \<Rightarrow> agent_message \<Rightarrow> 'x + agent_message" where
  "toDurableAgentMessage persist (ToolMsg i (BlockContent bs)) =
     bindE (persist_blocks persist (findPersistedDescription bs) bs) (\<lambda>bs'. Inr (ToolMsg i (BlockContent bs')))"
| "toDurableAgentMessage persist m = Inr m"

section \<open>Effects\<close>

definition target_keys :: "jstr list" where
  "target_keys = [js ''platform'', js ''accountId'', js ''kind'', js ''externalId'']"

definition has_target_keys :: "jobj \<Rightarrow> jstr list \<Rightarrow> bool" where
  "has_target_keys value expected \<longleftrightarrow> length (obj_keys value) = length expected \<and> list_all (obj_has value) expected"

definition parseMessageSentTarget :: "jv \<Rightarrow> conversation_ref option" where
  "parseMessageSentTarget value =
     (case as_record value of
        None \<Rightarrow> None
      | Some t \<Rightarrow>
          if \<not> has_target_keys t target_keys then None
          else (case (obj_get t (js ''accountId''), obj_get t (js ''externalId'')) of
              (JStr a, JStr x) \<Rightarrow>
                let p = obj_get t (js ''platform''); k = obj_get t (js ''kind'') in
                if (p = JStr (js ''qq'') \<or> p = JStr (js ''feishu'')) \<and> (k = JStr (js ''group'') \<or> k = JStr (js ''private''))
                   \<and> a \<noteq> [] \<and> x \<noteq> []
                then Some \<lparr>platform = (if p = JStr (js ''qq'') then Qq else Feishu), accountId = a,
                  ckind = (if k = JStr (js ''group'') then GroupChat else PrivateChat), externalId = x\<rparr>
                else None
            | _ \<Rightarrow> None))"

record effect_reading =
  in_sentTargets :: "conversation_ref list"
  in_seen :: "jstr list"
  in_inboxReads :: "(jstr \<times> int) list"
  in_workContinuation :: bool

definition interpret_sent :: "react_effect \<Rightarrow> jv \<Rightarrow> bool \<Rightarrow> effect_reading \<Rightarrow> effect_reading option" where
  "interpret_sent item tgt continueWork s =
     (if re_toolName item \<noteq> js ''send_message'' then Some s
      else (case parseMessageSentTarget tgt of
              None \<Rightarrow> Some s
            | Some c \<Rightarrow>
                (let s' = (if continueWork then s\<lparr>in_workContinuation := True\<rparr> else s) in
                 case conversationKey c of
                   None \<Rightarrow> None
                 | Some k \<Rightarrow> Some (if k \<in> set (in_seen s') then s'
                                 else s'\<lparr>in_seen := in_seen s' @ [k], in_sentTargets := in_sentTargets s' @ [c]\<rparr>))))"

definition interpret_read :: "react_effect \<Rightarrow> jv \<Rightarrow> jv \<Rightarrow> effect_reading \<Rightarrow> effect_reading" where
  "interpret_read item mailbox through s =
     (if re_toolName item \<noteq> js ''inbox'' then s
      else if \<not> isMailboxKey mailbox \<or> \<not> isPositiveSafeInteger through then s
      else let k = str_of mailbox; n = num_of through in
        if (case map_of (in_inboxReads s) k of None \<Rightarrow> True | Some c \<Rightarrow> c < n)
        then s\<lparr>in_inboxReads := AList.update k n (in_inboxReads s)\<rparr> else s)"

fun interpret_effects :: "react_effect list \<Rightarrow> effect_reading \<Rightarrow> effect_reading option" where
  "interpret_effects [] s = Some s"
| "interpret_effects (item # items) s =
     (case re_effect item of
        MessageSent tgt w \<Rightarrow> Option.bind (interpret_sent item tgt w s) (interpret_effects items)
      | InboxRead m n \<Rightarrow> interpret_effects items (interpret_read item m n s))"

text \<open>\<open>None\<close>: the key of a target could not be made (a lone surrogate in its identifiers).\<close>

definition interpretToolEffects :: "react_effect list \<Rightarrow> effect_reading option" where
  "interpretToolEffects items =
     interpret_effects items \<lparr>in_sentTargets = [], in_seen = [], in_inboxReads = [], in_workContinuation = False\<rparr>"

section \<open>What is believed\<close>

text \<open>A target is believed only from \<open>send_message\<close>, a read only from \<open>inbox\<close>.\<close>

definition sent_by :: "react_effect list \<Rightarrow> conversation_ref list" where
  "sent_by items = List.map_filter (\<lambda>i. case re_effect i of
       MessageSent t w \<Rightarrow> if re_toolName i = js ''send_message'' then parseMessageSentTarget t else None
     | InboxRead m n \<Rightarrow> None) items"

definition reads_of :: "jstr \<Rightarrow> react_effect list \<Rightarrow> int list" where
  "reads_of k items = List.map_filter (\<lambda>i. case re_effect i of
       InboxRead m n \<Rightarrow> if re_toolName i = js ''inbox'' \<and> m = JStr k \<and> is_mailbox_key k \<and> isPositiveSafeInteger n
         then Some (num_of n) else None
     | MessageSent t w \<Rightarrow> None) items"

lemma map_filter_simps' [simp]:
  "List.map_filter f [] = []"
  "List.map_filter f (x # xs) = (case f x of None \<Rightarrow> List.map_filter f xs | Some y \<Rightarrow> y # List.map_filter f xs)"
  by (simp_all add: List.map_filter_def split: option.splits)

definition key_of :: "conversation_ref \<Rightarrow> jstr" where
  "key_of c = the (conversationKey c)"

text \<open>The first target of each conversation.\<close>

fun first_targets :: "jstr list \<Rightarrow> conversation_ref list \<Rightarrow> conversation_ref list" where
  "first_targets seen [] = []"
| "first_targets seen (c # cs) =
     (if key_of c \<in> set seen then first_targets seen cs else c # first_targets (seen @ [key_of c]) cs)"

definition best_read :: "int option \<Rightarrow> int list \<Rightarrow> int option" where
  "best_read r ns = foldl (\<lambda>a n. Some (case a of None \<Rightarrow> n | Some m \<Rightarrow> max m n)) r ns"

lemma best_read_simps [simp]:
  "best_read r [] = r"
  "best_read r (n # ns) = best_read (Some (case r of None \<Rightarrow> n | Some m \<Rightarrow> max m n)) ns"
  by (simp_all add: best_read_def)

lemma best_read_ge: "best_read (Some a) ns = Some (Max (insert a (set ns)))"
proof (induction ns arbitrary: a)
  case (Cons n ns)
  then show ?case by (cases "ns = []") (simp_all add: insert_commute)
qed simp

lemma best_read_Max: "best_read None ns = (if ns = [] then None else Some (Max (set ns)))"
  by (cases ns) (simp_all add: best_read_ge)

lemma interpret_effects_run:
  assumes "interpret_effects items s = Some s'"
  shows "in_sentTargets s' = in_sentTargets s @ first_targets (in_seen s) (sent_by items)
    \<and> (\<forall>k. map_of (in_inboxReads s') k = best_read (map_of (in_inboxReads s) k) (reads_of k items))"
  using assms
proof (induction items arbitrary: s)
  case (Cons i items)
  show ?case
  proof (cases "re_effect i")
    case (MessageSent t w)
    then obtain s1 where s1: "interpret_sent i t w s = Some s1" "interpret_effects items s1 = Some s'"
      using Cons.prems by (auto simp: Option.bind_eq_Some_conv)
    have reads: "in_inboxReads s1 = in_inboxReads s"
      using s1(1) by (auto simp: interpret_sent_def Let_def split: if_splits option.splits)
    have "in_sentTargets s1 @ first_targets (in_seen s1) (sent_by items)
        = in_sentTargets s @ first_targets (in_seen s) (sent_by (i # items))"
      using s1(1) MessageSent
      by (auto simp: interpret_sent_def Let_def sent_by_def key_of_def split: if_splits option.splits)
    moreover have "reads_of k (i # items) = reads_of k items" for k using MessageSent by (simp add: reads_of_def)
    ultimately show ?thesis using Cons.IH [OF s1(2)] reads by simp
  next
    case (InboxRead m n)
    let ?s = "interpret_read i m n s"
    have run: "interpret_effects items ?s = Some s'" using Cons.prems InboxRead by simp
    have sent: "sent_by (i # items) = sent_by items" "in_sentTargets ?s = in_sentTargets s" "in_seen ?s = in_seen s"
      using InboxRead by (auto simp: sent_by_def interpret_read_def Let_def)
    have "best_read (map_of (in_inboxReads ?s) k) (reads_of k items) = best_read (map_of (in_inboxReads s) k) (reads_of k (i # items))"
      for k
      using InboxRead
      by (cases m) (auto simp: interpret_read_def Let_def reads_of_def isMailboxKey_def update_conv' max_def split: option.splits if_splits)
    then show ?thesis using Cons.IH [OF run] sent by simp
  qed
qed (simp_all add: sent_by_def reads_of_def)

end
