(* ===== verification/React_Kernel.thy ===== *)
theory React_Kernel
  imports Tool_Effects Working_Context Compaction Ledger_Repo
begin

text \<open>
  \<open>src/agent/react-kernel.ts\<close> with \<open>src/agent/tool-concurrency.ts\<close>: one round of the agent, from the request to the
  provider to the messages it wants appended.  \<open>'w\<close> is the world the provider and the tools act on, \<open>'x\<close> what
  the provider and the image store throw, \<open>'t\<close> a tool as the provider sees it.
\<close>

section \<open>The tools\<close>

record policy_decision =
  po_sideEffect :: bool
  po_parallel :: bool

text \<open>\<open>ex_batch\<close> is \<open>Promise.all\<close> over the calls of a batch: every call ends with its result or what it threw, in the
  order of the calls, whatever order they ran in.\<close>

record ('t, 'w) tool_executor =
  ex_list :: "'t list"
  ex_classify :: "tool_call \<Rightarrow> policy_decision"
  ex_batch :: "tool_call list \<Rightarrow> nat \<Rightarrow> 'w \<Rightarrow> (jstr + tool_result) list \<times> 'w"

definition isParallelSafeToolCall :: "('t, 'w) tool_executor \<Rightarrow> tool_call \<Rightarrow> bool" where
  "isParallelSafeToolCall tools c = po_parallel (ex_classify tools c)"

definition takeParallelSafeBatch :: "('t, 'w) tool_executor \<Rightarrow> tool_call list \<Rightarrow> tool_call list" where
  "takeParallelSafeBatch tools calls = takeWhile (isParallelSafeToolCall tools) calls"

text \<open>The batch at the cursor; the calls are those from the cursor on.\<close>

fun next_batch :: "('t, 'w) tool_executor \<Rightarrow> tool_call list \<Rightarrow> tool_call list" where
  "next_batch tools [] = []"
| "next_batch tools (c # cs) = (if isParallelSafeToolCall tools c then takeParallelSafeBatch tools (c # cs) else [c])"

definition resolveEffectiveToolName :: "tool_call \<Rightarrow> jstr" where
  "resolveEffectiveToolName c =
     (if tc_name c \<noteq> js ''invoke'' then tc_name c
      else (case obj_get (tc_args c) (js ''tool'') of
              JStr t \<Rightarrow> if trim t \<noteq> [] then t else tc_name c
            | _ \<Rightarrow> tc_name c))"

definition failed_content :: "jstr \<Rightarrow> jstr" where
  "failed_content msg = stringify (JObj [(js ''ok'', JBool False), (js ''code'', JStr (js ''execution_failed'')),
     (js ''error'', JStr (js ''Tool execution failed: '' @ msg))])"

definition executeToolCall :: "jstr + tool_result \<Rightarrow> tool_result" where
  "executeToolCall r = (case r of
     Inl msg \<Rightarrow> \<lparr>tr_content = TextContent (failed_content msg), tr_outcome = None, tr_effects = []\<rparr>
   | Inr res \<Rightarrow> res)"

section \<open>The provider\<close>

record completion =
  cl_content :: jstr
  cl_toolCalls :: "tool_call list"
  cl_nativeBlocks :: "jobj list option"
  cl_inputTokens :: "int option"
  cl_cachedTokens :: "int option"
  cl_outputTokens :: "int option"
  cl_contextWindowTokens :: int
  cl_stopReason :: "jstr option"

record 't chat_request =
  qr_systemPrompt :: jstr
  qr_messages :: "agent_message list"
  qr_tools :: "'t list"
  qr_cacheBreakpoint :: "nat option"
  qr_maxOutputTokens :: "int option"

record ('x, 't, 'w) round_deps =
  rn_systemPrompt :: jstr
  rn_chat :: "'t chat_request \<Rightarrow> 'w \<Rightarrow> ('x + completion) \<times> 'w"
  rn_nativeImages :: bool
  rn_images :: "'x image_store"
  rn_persist :: "'x persist"
  rn_tools :: "('t, 'w) tool_executor"
  rn_keepRecentTokens :: "int option"

datatype 'x round_error =
    LlmThrew 'x
  | LlmContextWindowStop int
  | LlmOutputTruncated completion int
  | BreakpointFailed preparation_error
  | ImageStoreThrew 'x

definition default_escalated_output_tokens :: int where
  "default_escalated_output_tokens = 8192"

definition max_escalated_output_tokens :: int where
  "max_escalated_output_tokens = 65536"

definition resolveEscalatedOutputTokens :: "int option \<Rightarrow> int option \<Rightarrow> int" where
  "resolveEscalatedOutputTokens current observed =
     (let candidate = max default_escalated_output_tokens (max (or_else current 0 * 2) (or_else observed 0 * 2))
      in min max_escalated_output_tokens (max 1 candidate))"

definition tokens_used :: "completion \<Rightarrow> int" where
  "tokens_used c = max 0 (or_else (cl_inputTokens c) 0 - or_else (cl_cachedTokens c) 0) + or_else (cl_outputTokens c) 0"

definition sumTokensUsed :: "completion list \<Rightarrow> int" where
  "sumTokensUsed cs = foldl (\<lambda>s c. s + tokens_used c) 0 cs"

text \<open>The calls of the provider: an output that ran into its limit is asked for once more, with a larger limit.\<close>

function chat_loop :: "('x, 't, 'w) round_deps \<Rightarrow> agent_message list \<Rightarrow> nat option \<Rightarrow> bool \<Rightarrow> int option \<Rightarrow> completion list \<Rightarrow> 'w
    \<Rightarrow> ('x round_error + completion \<times> completion list) \<times> 'w" where
  "chat_loop d messages breakpoint didEscalate maxOutputTokens completions w =
     (case rn_chat d \<lparr>qr_systemPrompt = rn_systemPrompt d, qr_messages = messages, qr_tools = ex_list (rn_tools d),
             qr_cacheBreakpoint = breakpoint, qr_maxOutputTokens = maxOutputTokens\<rparr> w of
        (Inl e, w') \<Rightarrow> (Inl (LlmThrew e), w')
      | (Inr c, w') \<Rightarrow>
          if cl_stopReason c = Some (js ''model_context_window_exceeded'')
          then (Inl (LlmContextWindowStop (cl_contextWindowTokens c)), w')
          else if cl_stopReason c \<noteq> Some (js ''max_tokens'') then (Inr (c, completions @ [c]), w')
          else if didEscalate then (Inl (LlmOutputTruncated c (sumTokensUsed (completions @ [c]))), w')
          else chat_loop d messages breakpoint True (Some (resolveEscalatedOutputTokens maxOutputTokens (cl_outputTokens c)))
                 (completions @ [c]) w')"
  by pat_completeness auto
termination by (relation "measure (\<lambda>(d, ms, b, e, m, cs, w). if e then 0 else 1)") auto

declare chat_loop.simps [simp del]

section \<open>The calls\<close>

record react_outcome =
  rt_toolCallId :: jstr
  rt_requestedToolName :: jstr
  rt_toolName :: jstr
  rt_ok :: bool
  rt_code :: "jstr option"
  rt_progress :: bool
  rt_continuation :: "continuation_policy option"
  rt_continuationDetail :: "jstr option"
  rt_noveltyKey :: "jstr option"

definition detail_cap :: nat where
  "detail_cap = 1000"

text \<open>An empty text counts as absent.\<close>

definition truthy_str :: "jstr option \<Rightarrow> jstr option" where
  "truthy_str x = (if x = Some [] then None else x)"

definition outcome_of :: "tool_call \<Rightarrow> tool_result \<Rightarrow> react_outcome" where
  "outcome_of c res =
     (let o' = tr_outcome res; ok = (case o' of None \<Rightarrow> True | Some out \<Rightarrow> to_ok out);
          continuation = Option.bind o' to_continuation in
      \<lparr>rt_toolCallId = tc_id c, rt_requestedToolName = tc_name c, rt_toolName = resolveEffectiveToolName c, rt_ok = ok,
       rt_code = truthy_str (Option.bind o' to_code), rt_progress = or_else (Option.bind o' to_progress) ok,
       rt_continuation = continuation,
       rt_continuationDetail = (if continuation = None then None
         else map_option (take detail_cap) (truthy_str (Option.bind o' to_continuationDetail))),
       rt_noveltyKey = truthy_str (Option.bind o' to_noveltyKey)\<rparr>)"

definition effects_of :: "tool_call \<Rightarrow> tool_result \<Rightarrow> react_effect list" where
  "effects_of c res = map (\<lambda>e. \<lparr>re_toolCallId = tc_id c, re_toolName = resolveEffectiveToolName c, re_effect = e\<rparr>) (tr_effects res)"

record call_results =
  cr_effects :: "react_effect list"
  cr_outcomes :: "react_outcome list"
  cr_messages :: "agent_message list"

definition add_results :: "call_results \<Rightarrow> call_results \<Rightarrow> call_results" where
  "add_results a b = \<lparr>cr_effects = cr_effects a @ cr_effects b, cr_outcomes = cr_outcomes a @ cr_outcomes b,
     cr_messages = cr_messages a @ cr_messages b\<rparr>"

definition no_results :: call_results where
  "no_results = \<lparr>cr_effects = [], cr_outcomes = [], cr_messages = []\<rparr>"

definition call_result :: "'x persist \<Rightarrow> tool_call \<Rightarrow> tool_result \<Rightarrow> 'x + call_results" where
  "call_result persist c res =
     bindE (toDurableAgentMessage persist (ToolMsg (tc_id c) (tr_content res))) (\<lambda>m.
       Inr \<lparr>cr_effects = effects_of c res, cr_outcomes = [outcome_of c res], cr_messages = [m]\<rparr>)"

fun batch_results :: "'x persist \<Rightarrow> (tool_call \<times> tool_result) list \<Rightarrow> 'x + call_results" where
  "batch_results persist [] = Inr no_results"
| "batch_results persist ((c, res) # ps) =
     bindE (call_result persist c res) (\<lambda>a. bindE (batch_results persist ps) (\<lambda>b. Inr (add_results a b)))"

lemma next_batch_length: "calls \<noteq> [] \<Longrightarrow> 0 < length (next_batch tools calls)"
  by (cases calls) (simp_all add: takeParallelSafeBatch_def)

function run_calls :: "('x, 't, 'w) round_deps \<Rightarrow> nat \<Rightarrow> tool_call list \<Rightarrow> 'w \<Rightarrow> ('x round_error + call_results) \<times> 'w" where
  "run_calls d roundIndex calls w =
     (if calls = [] then (Inr no_results, w)
      else let batch = next_batch (rn_tools d) calls;
               (results, w') = ex_batch (rn_tools d) batch roundIndex w
           in (case batch_results (rn_persist d) (zip batch (map executeToolCall results)) of
                 Inl e \<Rightarrow> (Inl (ImageStoreThrew e), w')
               | Inr a \<Rightarrow> (case run_calls d roundIndex (drop (length batch) calls) w' of
                     (Inl e, w'') \<Rightarrow> (Inl e, w'')
                   | (Inr b, w'') \<Rightarrow> (Inr (add_results a b), w''))))"
  by pat_completeness auto
termination
proof (relation "measure (\<lambda>(d, r, calls, w). length calls)")
  fix d :: "('x, 't, 'w) round_deps" and r :: nat and calls :: "tool_call list" and w :: 'w
    and batch x results w' a
  assume "calls \<noteq> []" "batch = next_batch (rn_tools d) calls"
  then have "0 < length calls" "0 < length batch" using next_batch_length by auto
  then show "((d, r, drop (length batch) calls, w'), d, r, calls, w) \<in> measure (\<lambda>(d, r, calls, w). length calls)"
    by simp
qed simp

declare run_calls.simps [simp del]

section \<open>The round\<close>

record round_result =
  rr_inputTokens :: "int option"
  rr_contextWindowTokens :: int
  rr_tokensUsed :: int
  rr_toolCallCount :: int
  rr_effects :: "react_effect list"
  rr_messagesToAppend :: "agent_message list"
  rr_completions :: "completion list"
  rr_assistantTextOnly :: bool
  rr_toolOutcomes :: "react_outcome list"

definition assistant_message :: "completion \<Rightarrow> agent_message list" where
  "assistant_message c = (if cl_toolCalls c = [] then [] else [AssistantMsg [] (cl_toolCalls c) (cl_nativeBlocks c)])"

definition round_result_of :: "completion \<Rightarrow> completion list \<Rightarrow> call_results \<Rightarrow> round_result" where
  "round_result_of c completions a =
     \<lparr>rr_inputTokens = cl_inputTokens c, rr_contextWindowTokens = cl_contextWindowTokens c,
      rr_tokensUsed = sumTokensUsed completions, rr_toolCallCount = int (length (cl_toolCalls c)),
      rr_effects = cr_effects a, rr_messagesToAppend = assistant_message c @ cr_messages a, rr_completions = completions,
      rr_assistantTextOnly = (cl_toolCalls c = [] \<and> trim (cl_content c) \<noteq> []), rr_toolOutcomes = cr_outcomes a\<rparr>"

definition breakpoint_of :: "int option \<Rightarrow> agent_message list \<Rightarrow> preparation_error + nat option" where
  "breakpoint_of keep messages =
     (case keep of None \<Rightarrow> Inr None | Some k \<Rightarrow> selectCompactionCacheBreakpointMessageIndex messages k)"

definition runReactRound :: "('x, 't, 'w) round_deps \<Rightarrow> nat \<Rightarrow> agent_message list \<Rightarrow> agent_message list \<Rightarrow> 'w
    \<Rightarrow> ('x round_error + round_result) \<times> 'w" where
  "runReactRound d roundIndex messages staged w =
     (let source = messages @ staged;
          working = fst (buildWorkingContextProjection (rn_nativeImages d) (rn_images d) source)
      in case breakpoint_of (rn_keepRecentTokens d) working of
           Inl e \<Rightarrow> (Inl (BreakpointFailed e), w)
         | Inr breakpoint \<Rightarrow>
             (case chat_loop d working breakpoint False None [] w of
                (Inl e, w') \<Rightarrow> (Inl e, w')
              | (Inr (c, completions), w') \<Rightarrow>
                  (case run_calls d roundIndex (cl_toolCalls c) w' of
                     (Inl e, w'') \<Rightarrow> (Inl e, w'')
                   | (Inr a, w'') \<Rightarrow> (Inr (round_result_of c completions a), w''))))"

end
