(* ===== verification/React_Properties.thy ===== *)
theory React_Properties
  imports React_Kernel Snapshot_Scan
begin

text \<open>
  What a round guarantees: the calls run in batches that cover them in order, every call has exactly one result, the
  messages form one legal unit, and the provider is asked at most twice.
\<close>

section \<open>Batches\<close>

text \<open>The tools settle every call of a batch.\<close>

definition settles :: "('t, 'w) tool_executor \<Rightarrow> bool" where
  "settles tools \<longleftrightarrow> (\<forall>calls r w. length (fst (ex_batch tools calls r w)) = length calls)"

text \<open>A world that also keeps the batches run, and one that keeps the requests made.\<close>

definition logging_tools :: "('t, 'w) tool_executor \<Rightarrow> ('t, 'w \<times> tool_call list list) tool_executor" where
  "logging_tools tools = \<lparr>ex_list = ex_list tools, ex_classify = ex_classify tools,
     ex_batch = (\<lambda>calls r (w, bs). let (results, w') = ex_batch tools calls r w in (results, w', bs @ [calls]))\<rparr>"

definition logging_chat :: "('t chat_request \<Rightarrow> 'w \<Rightarrow> ('x + completion) \<times> 'w)
    \<Rightarrow> 't chat_request \<Rightarrow> 'w \<times> 't chat_request list \<Rightarrow> ('x + completion) \<times> 'w \<times> 't chat_request list" where
  "logging_chat chat q = (\<lambda>(w, qs). let (r, w') = chat q w in (r, w', qs @ [q]))"

definition safe_batch :: "('t, 'w) tool_executor \<Rightarrow> tool_call list \<Rightarrow> bool" where
  "safe_batch tools b \<longleftrightarrow> b \<noteq> [] \<and> (1 < length b \<longrightarrow> list_all (isParallelSafeToolCall tools) b)"

lemma next_batch_prefix: "next_batch tools calls @ drop (length (next_batch tools calls)) calls = calls"
  by (cases calls) (simp_all add: takeParallelSafeBatch_def flip: dropWhile_eq_drop)

lemma next_batch_safe: "calls \<noteq> [] \<Longrightarrow> safe_batch tools (next_batch tools calls)"
  by (cases calls) (auto simp: takeParallelSafeBatch_def safe_batch_def list_all_iff dest: set_takeWhileD)

text \<open>A batch ends only at a call that must run alone, or at the end.\<close>

lemma next_batch_maximal:
  "drop (length (next_batch tools calls)) calls = c # cs \<Longrightarrow> isParallelSafeToolCall tools c
   \<Longrightarrow> \<not> isParallelSafeToolCall tools (hd calls)"
proof (cases calls)
  case (Cons x xs)
  assume "drop (length (next_batch tools calls)) calls = c # cs" "isParallelSafeToolCall tools c"
  then show ?thesis using Cons
    by (auto simp: takeParallelSafeBatch_def simp flip: dropWhile_eq_drop split: if_splits dest: dropWhile_eq_Cons_conv [THEN iffD1])
qed simp

lemma batch_results_append:
  "batch_results persist (ps @ qs) =
     bindE (batch_results persist ps) (\<lambda>a. bindE (batch_results persist qs) (\<lambda>b. Inr (add_results a b)))"
proof (induction ps)
  case Nil
  have "add_results no_results b = b" for b by (simp add: add_results_def no_results_def)
  then show ?case by (cases "batch_results persist qs") simp_all
next
  case (Cons p ps)
  have assoc: "add_results (add_results a b) c = add_results a (add_results b c)" for a b c
    by (simp add: add_results_def)
  show ?case
    by (cases p; cases "call_result persist (fst p) (snd p)"; cases "batch_results persist ps"; cases "batch_results persist qs")
      (simp_all add: Cons assoc)
qed

lemma batch_results_messages:
  assumes "batch_results persist (zip calls results) = Inr a" "length results = length calls"
  shows "\<exists>contents. cr_messages a = map2 ToolMsg (map tc_id calls) contents \<and> length contents = length calls
    \<and> map rt_toolCallId (cr_outcomes a) = map tc_id calls \<and> map rt_requestedToolName (cr_outcomes a) = map tc_name calls"
  using assms
proof (induction calls arbitrary: results a)
  case (Cons c calls)
  then obtain r rs where rs: "results = r # rs" "length rs = length calls" by (cases results) auto
  then obtain x b where x: "call_result persist c r = Inr x" "batch_results persist (zip calls rs) = Inr b" "a = add_results x b"
    using Cons.prems(1) by (auto simp: bindE_Inr_iff)
  then obtain m where m: "toDurableAgentMessage persist (ToolMsg (tc_id c) (tr_content r)) = Inr m" "cr_messages x = [m]"
      "cr_outcomes x = [outcome_of c r]"
    by (auto simp: call_result_def bindE_Inr_iff)
  obtain content where content: "m = ToolMsg (tc_id c) content"
    using m(1) by (cases "tr_content r") (auto simp: bindE_Inr_iff)
  obtain contents where "cr_messages b = map2 ToolMsg (map tc_id calls) contents" "length contents = length calls"
      "map rt_toolCallId (cr_outcomes b) = map tc_id calls" "map rt_requestedToolName (cr_outcomes b) = map tc_name calls"
    using Cons.IH [OF x(2) rs(2)] by auto
  then show ?case using x(3) m content
    by (intro exI [of _ "content # contents"]) (simp add: add_results_def outcome_of_def Let_def)
qed (simp add: no_results_def)

lemma run_calls_results:
  assumes "settles (rn_tools d)" "run_calls d r calls w = (Inr a, w')"
  shows "\<exists>results. length results = length calls \<and> batch_results (rn_persist d) (zip calls results) = Inr a"
  using assms
proof (induction d r calls w arbitrary: a w' rule: run_calls.induct)
  case (1 d r calls w)
  show ?case
  proof (cases "calls = []")
    case True
    then show ?thesis using 1(3) by (simp add: run_calls.simps [of d r "[]" w])
  next
    case False
    let ?b = "next_batch (rn_tools d) calls" and ?rest = "drop (length (next_batch (rn_tools d) calls)) calls"
    obtain rs w1 where run: "ex_batch (rn_tools d) ?b r w = (rs, w1)" by fastforce
    then have len: "length (map executeToolCall rs) = length ?b" using 1(2) unfolding settles_def by (metis fst_conv length_map)
    obtain x y w2 where x: "batch_results (rn_persist d) (zip ?b (map executeToolCall rs)) = Inr x"
        and y: "run_calls d r ?rest w1 = (Inr y, w2)" "a = add_results x y"
      using 1(3) False by (auto simp: run_calls.simps [of d r calls w] run Let_def split: sum.splits prod.splits)
    obtain rs' where rs': "length rs' = length ?rest" "batch_results (rn_persist d) (zip ?rest rs') = Inr y"
      using 1(1) [OF False refl run [symmetric] refl x 1(2) y(1)] by auto
    have "zip calls (map executeToolCall rs @ rs') = zip ?b (map executeToolCall rs) @ zip ?rest rs'"
      using next_batch_prefix [of "rn_tools d" calls] len by (metis zip_append)
    then have "batch_results (rn_persist d) (zip calls (map executeToolCall rs @ rs')) = Inr a"
      using x y(2) rs' by (simp add: batch_results_append)
    moreover have "length (map executeToolCall rs @ rs') = length calls"
      using len rs'(1) next_batch_prefix [of "rn_tools d" calls] by (metis length_append)
    ultimately show ?thesis by blast
  qed
qed

lemma run_calls_batches:
  assumes "rn_tools d = logging_tools tools" "run_calls d r calls (w, bs) = (Inr a, w', bs')"
  shows "\<exists>new. bs' = bs @ new \<and> concat new = calls \<and> list_all (safe_batch tools) new"
  using assms
proof (induction "length calls" arbitrary: calls w bs a rule: less_induct)
  case less
  show ?case
  proof (cases "calls = []")
    case True
    then show ?thesis using less(3) by (simp add: run_calls.simps [of d r "[]"])
  next
    case False
    let ?b = "next_batch (rn_tools d) calls" and ?rest = "drop (length (next_batch (rn_tools d) calls)) calls"
    obtain rs w1 where run: "ex_batch tools ?b r w = (rs, w1)" by fastforce
    then have log: "ex_batch (rn_tools d) ?b r (w, bs) = (rs, w1, bs @ [?b])"
      by (simp add: less(2) logging_tools_def)
    obtain y where y: "run_calls d r ?rest (w1, bs @ [?b]) = (Inr y, w', bs')"
      using less(3) False by (auto simp: run_calls.simps [of d r calls] log Let_def split: sum.splits prod.splits)
    have "length ?rest < length calls" using False next_batch_length [OF False, of "rn_tools d"] by simp
    from less(1) [OF this less(2) y] obtain new where new: "bs' = bs @ [?b] @ new" "concat new = ?rest" "list_all (safe_batch tools) new"
      by auto
    have "isParallelSafeToolCall (rn_tools d) = isParallelSafeToolCall tools"
      by (rule ext) (simp add: less(2) logging_tools_def isParallelSafeToolCall_def)
    then have "safe_batch tools ?b" using next_batch_safe [OF False, of "rn_tools d"] by (simp add: safe_batch_def)
    then show ?thesis using new next_batch_prefix [of "rn_tools d" calls] by (intro exI [of _ "?b # new"]) simp
  qed
qed

section \<open>The unit\<close>

definition used_ids :: "agent_message list \<Rightarrow> jstr set" where
  "used_ids ms = (case scan ([], []) ms of None \<Rightarrow> {} | Some (seen, pending) \<Rightarrow> set seen)"

definition new_calls_ok :: "agent_message list \<Rightarrow> tool_call list \<Rightarrow> bool" where
  "new_calls_ok ms calls \<longleftrightarrow> list_all call_ok calls \<and> distinct (map tc_id calls) \<and> set (map tc_id calls) \<inter> used_ids ms = {}"

lemma scan_unit_results:
  assumes "length contents = length ids"
  shows "scan (seen, ids) (map2 ToolMsg ids contents) = (if list_all tool_content_ok contents then Some (seen, []) else None)"
  using assms
proof (induction ids arbitrary: contents)
  case (Cons i ids)
  then show ?case by (cases contents) auto
qed simp

lemma legal_unit:
  assumes "legal_history ms" "length contents = length calls"
  shows "legal_history (ms @ AssistantMsg text calls nb # map2 ToolMsg (map tc_id calls) contents) \<longleftrightarrow>
    new_calls_ok ms calls \<and> list_all tool_content_ok contents"
proof -
  obtain seen where "scan ([], []) ms = Some (seen, [])"
    using assms(1) by (auto simp: legal_history_def split: option.splits prod.splits list.splits)
  then show ?thesis using scan_unit_results [of contents "map tc_id calls"] assms(2)
    by (auto simp: legal_history_def scan_append new_calls_ok_def used_ids_def)
qed

section \<open>The requests\<close>

definition with_logged_chat :: "('x, 't, 'w) round_deps \<Rightarrow> ('t, 'w \<times> 't chat_request list) tool_executor
    \<Rightarrow> ('x, 't, 'w \<times> 't chat_request list) round_deps" where
  "with_logged_chat d tools = \<lparr>rn_systemPrompt = rn_systemPrompt d, rn_chat = logging_chat (rn_chat d),
     rn_nativeImages = rn_nativeImages d, rn_images = rn_images d, rn_persist = rn_persist d, rn_tools = tools,
     rn_keepRecentTokens = rn_keepRecentTokens d\<rparr>"

lemma escalated_first: "resolveEscalatedOutputTokens None n = min 65536 (max 8192 (2 * or_else n 0))"
  by (cases n) (simp_all add: resolveEscalatedOutputTokens_def or_else_def Let_def default_escalated_output_tokens_def max_escalated_output_tokens_def)

definition first_request :: "('x, 't, 'w) round_deps \<Rightarrow> 't list \<Rightarrow> agent_message list \<Rightarrow> nat option \<Rightarrow> int option \<Rightarrow> 't chat_request" where
  "first_request d tools messages breakpoint m = \<lparr>qr_systemPrompt = rn_systemPrompt d, qr_messages = messages, qr_tools = tools,
     qr_cacheBreakpoint = breakpoint, qr_maxOutputTokens = m\<rparr>"

lemma chat_loop_second:
  assumes "chat_loop (with_logged_chat d tools) ms b True m cs (w, qs) = (res, w', qs')"
  shows "qs' = qs @ [first_request d (ex_list tools) ms b m]"
  using assms
  by (auto simp: chat_loop.simps [of _ _ _ True] with_logged_chat_def logging_chat_def first_request_def split: sum.splits prod.splits if_splits)

text \<open>The requests of a round whose first request is \<open>q\<close>: an answer that ran into its limit is asked for once more.\<close>

definition asked :: "('t chat_request \<Rightarrow> 'w \<Rightarrow> ('x + completion) \<times> 'w) \<Rightarrow> 't chat_request \<Rightarrow> 'w \<Rightarrow> 't chat_request list" where
  "asked chat q w = (case fst (chat q w) of
     Inr c \<Rightarrow> if cl_stopReason c = Some (js ''max_tokens'')
       then [q, q\<lparr>qr_maxOutputTokens := Some (min 65536 (max 8192 (2 * or_else (cl_outputTokens c) 0)))\<rparr>] else [q]
   | Inl e \<Rightarrow> [q])"

lemma chat_loop_requests:
  assumes "chat_loop (with_logged_chat d tools) ms b False None [] (w, qs) = (res, w', qs')"
  shows "qs' = qs @ asked (rn_chat d) (first_request d (ex_list tools) ms b None) w"
proof -
  let ?d = "with_logged_chat d tools" and ?q = "first_request d (ex_list tools) ms b None"
  obtain r w1 where r: "rn_chat d ?q w = (r, w1)" by fastforce
  then have chat: "rn_chat ?d \<lparr>qr_systemPrompt = rn_systemPrompt ?d, qr_messages = ms, qr_tools = ex_list (rn_tools ?d),
      qr_cacheBreakpoint = b, qr_maxOutputTokens = None\<rparr> (w, qs) = (r, w1, qs @ [?q])"
    by (simp add: with_logged_chat_def logging_chat_def first_request_def)
  note run = assms [unfolded chat_loop.simps [of ?d ms b False None "[]" "(w, qs)"] chat]
  show ?thesis
  proof (cases r)
    case (Inl e)
    then show ?thesis using run r by (simp add: asked_def)
  next
    case (Inr c)
    let ?m = "resolveEscalatedOutputTokens None (cl_outputTokens c)"
    show ?thesis
    proof (cases "cl_stopReason c = Some (js ''max_tokens'')")
      case True
      have "js ''max_tokens'' \<noteq> js ''model_context_window_exceeded''" by (simp add: js_def)
      then have "chat_loop ?d ms b True (Some ?m) ([] @ [c]) (w1, qs @ [?q]) = (res, w', qs')" using run Inr True by simp
      from chat_loop_second [OF this] show ?thesis using r Inr True by (simp add: asked_def first_request_def escalated_first)
    next
      case False
      then show ?thesis using run Inr r by (auto simp: asked_def split: if_splits)
    qed
  qed
qed

text \<open>The guarantees of a round, of its requests and of the reading of its effects, with the samples that reach them.\<close>

section \<open>The round\<close>

lemma round_run:
  assumes "runReactRound d r ms staged w = (Inr res, w')"
  obtains b c cs w1 a where "chat_loop d (fst (buildWorkingContextProjection (rn_nativeImages d) (rn_images d) (ms @ staged))) b False None [] w
      = (Inr (c, cs), w1)" "run_calls d r (cl_toolCalls c) w1 = (Inr a, w')" "res = round_result_of c cs a"
  using assms by (auto simp: runReactRound_def Let_def split: sum.splits prod.splits)

text \<open>C8. What a round wants appended is one unit of the history or nothing: the assistant's calls followed by exactly one result
  for each call, in the order of the calls, whatever ran in parallel.  So the history stays legal exactly when the
  calls are well-formed and new and their results are.\<close>

theorem round_appends_one_unit:
  assumes "settles (rn_tools d)" "runReactRound d r ms staged w = (Inr res, w')" "legal_history old"
  shows "\<exists>calls nb contents. rr_messagesToAppend res =
      (if calls = [] then [] else AssistantMsg [] calls nb # map2 ToolMsg (map tc_id calls) contents)
    \<and> map rt_toolCallId (rr_toolOutcomes res) = map tc_id calls
    \<and> (legal_history (old @ rr_messagesToAppend res) \<longleftrightarrow> new_calls_ok old calls \<and> list_all tool_content_ok contents)"
proof -
  obtain b c cs w1 a where run: "run_calls d r (cl_toolCalls c) w1 = (Inr a, w')" "res = round_result_of c cs a"
    using round_run [OF assms(2)] .
  obtain results where "length results = length (cl_toolCalls c)" "batch_results (rn_persist d) (zip (cl_toolCalls c) results) = Inr a"
    using run_calls_results [OF assms(1) run(1)] by blast
  from batch_results_messages [OF this(2,1)] obtain contents where m: "cr_messages a = map2 ToolMsg (map tc_id (cl_toolCalls c)) contents"
      "length contents = length (cl_toolCalls c)" "map rt_toolCallId (cr_outcomes a) = map tc_id (cl_toolCalls c)" by blast
  have "rr_messagesToAppend res = (if cl_toolCalls c = [] then []
      else AssistantMsg [] (cl_toolCalls c) (cl_nativeBlocks c) # map2 ToolMsg (map tc_id (cl_toolCalls c)) contents)"
    using m(1) by (simp add: run(2) round_result_of_def assistant_message_def)
  moreover have "new_calls_ok old [] \<and> list_all tool_content_ok []" by (simp add: new_calls_ok_def)
  moreover have "cl_toolCalls c = [] \<Longrightarrow> contents = []" using m(2) by simp
  ultimately show ?thesis using m legal_unit [OF assms(3) m(2)] assms(3)
    by (intro exI [of _ "cl_toolCalls c"] exI [of _ "cl_nativeBlocks c"] exI [of _ contents]) (simp add: run(2) round_result_of_def)
qed

text \<open>The calls of a round run in batches: together they are the calls in order, and a batch of more than one call consists
  of calls the executor classified as safe to run in parallel.\<close>

theorem calls_run_in_safe_batches:
  assumes "rn_tools d = logging_tools tools" "run_calls d r calls (w, []) = (Inr a, w', batches)"
  shows "concat batches = calls \<and> list_all (safe_batch tools) batches"
  using run_calls_batches [OF assms] by auto

text \<open>C32. A round asks the provider once, and exactly when the answer ran into its output limit once more: the first request
  names no limit, and the second is the same request in every field but the limit, which is twice the tokens of the
  first answer, but at least 8192 and at most 65536.\<close>

theorem provider_asked_at_most_twice:
  assumes "runReactRound (with_logged_chat d tools) r ms staged (w, []) = (res, w', requests)"
    and "\<And>calls r w qs. snd (snd (ex_batch tools calls r (w, qs))) = qs"
  shows "let working = fst (buildWorkingContextProjection (rn_nativeImages d) (rn_images d) (ms @ staged)) in
    case breakpoint_of (rn_keepRecentTokens d) working of
      Inl e \<Rightarrow> requests = []
    | Inr b \<Rightarrow> (let q = \<lparr>qr_systemPrompt = rn_systemPrompt d, qr_messages = working, qr_tools = ex_list tools, qr_cacheBreakpoint = b,
          qr_maxOutputTokens = None\<rparr> in
        requests = (case fst (rn_chat d q w) of
           Inr c \<Rightarrow> if cl_stopReason c = Some (js ''max_tokens'')
             then [q, q\<lparr>qr_maxOutputTokens := Some (min 65536 (max 8192 (2 * or_else (cl_outputTokens c) 0)))\<rparr>] else [q]
         | Inl e \<Rightarrow> [q]))"
proof -
  let ?d = "with_logged_chat d tools"
  let ?ms = "fst (buildWorkingContextProjection (rn_nativeImages ?d) (rn_images ?d) (ms @ staged))"
  have tl: "rn_tools ?d = tools" by (simp add: with_logged_chat_def)
  have quiet: "run_calls ?d r calls (w, qs) = (x, w1, qs1) \<Longrightarrow> qs1 = qs" for calls w qs x w1 qs1
  proof (induction "length calls" arbitrary: calls w qs x rule: less_induct)
    case less
    show ?case
    proof (cases "calls = []")
      case True
      then show ?thesis using less(2) by (simp add: run_calls.simps [of ?d r "[]"])
    next
      case False
      let ?b = "next_batch tools calls"
      obtain rs w2 where run: "ex_batch tools ?b r (w, qs) = (rs, w2, qs)" using assms(2) by (metis prod.collapse)
      have "length (drop (length ?b) calls) < length calls" using False next_batch_length [OF False, of tools] by simp
      from less(1) [OF this, of w2 qs] less(2) False show ?thesis
        by (auto simp: run_calls.simps [of ?d r calls] Let_def tl run split: sum.splits prod.splits)
    qed
  qed
  have same: "rn_nativeImages ?d = rn_nativeImages d" "rn_images ?d = rn_images d" "rn_keepRecentTokens ?d = rn_keepRecentTokens d"
    by (simp_all add: with_logged_chat_def)
  show ?thesis
  proof (cases "breakpoint_of (rn_keepRecentTokens ?d) ?ms")
    case (Inl e)
    then show ?thesis using assms(1) by (simp add: runReactRound_def Let_def same)
  next
    case (Inr b)
    obtain y w1 qs where chat: "chat_loop ?d ?ms b False None [] (w, []) = (y, w1, qs)" by (metis prod.collapse)
    have "requests = qs" using assms(1) quiet Inr chat
      by (auto simp: runReactRound_def Let_def split: sum.splits prod.splits)
    then have "requests = asked (rn_chat d) (first_request d (ex_list tools) ?ms b None) w" using chat_loop_requests [OF chat] by simp
    then show ?thesis using Inr by (simp add: asked_def first_request_def Let_def same)
  qed
qed

section \<open>Effects\<close>

text \<open>What the loop believes of the effects of a round: the targets of \<open>send_message\<close>, the first one of each conversation,
  and for each mailbox the highest row that \<open>inbox\<close> reports; nothing another tool claims counts.\<close>

theorem effects_believed:
  assumes "interpretToolEffects items = Some r"
  shows "in_sentTargets r = first_targets [] (sent_by items)
    \<and> (\<forall>k. map_of (in_inboxReads r) k = (if reads_of k items = [] then None else Some (Max (set (reads_of k items)))))"
  using interpret_effects_run [of items _ r] assms by (simp add: interpretToolEffects_def best_read_Max)

section \<open>Samples\<close>

definition sample_tools :: "(unit, unit) tool_executor" where
  "sample_tools = \<lparr>ex_list = [], ex_classify = (\<lambda>c. \<lparr>po_sideEffect = False, po_parallel = tc_name c = js ''inbox''\<rparr>),
     ex_batch = (\<lambda>calls r w. (map (\<lambda>c. Inl (tc_id c)) calls, w))\<rparr>"

definition plain_call :: "string \<Rightarrow> string \<Rightarrow> tool_call" where
  "plain_call i n = \<lparr>tc_id = js i, tc_name = js n, tc_args = []\<rparr>"

definition sample_completion :: completion where
  "sample_completion = \<lparr>cl_content = [], cl_toolCalls = [plain_call ''1'' ''inbox'', plain_call ''2'' ''inbox'', plain_call ''3'' ''rest''],
     cl_nativeBlocks = None, cl_inputTokens = Some 10, cl_cachedTokens = None, cl_outputTokens = Some 5,
     cl_contextWindowTokens = 1000, cl_stopReason = None\<rparr>"

definition round_deps_sample :: "('t, 'w) tool_executor \<Rightarrow> (unit, 't, 'w) round_deps" where
  "round_deps_sample tools = \<lparr>rn_systemPrompt = [], rn_chat = (\<lambda>q w. (Inr sample_completion, w)), rn_nativeImages = False,
     rn_images = (\<lambda>_. Inr None), rn_persist = (\<lambda>b d. Inr b), rn_tools = tools, rn_keepRecentTokens = None\<rparr>"

lemma sample_batches:
  "next_batch sample_tools (cl_toolCalls sample_completion) = take 2 (cl_toolCalls sample_completion)"
  "next_batch sample_tools [plain_call ''3'' ''rest''] = [plain_call ''3'' ''rest'']"
  by (simp_all add: sample_completion_def plain_call_def sample_tools_def takeParallelSafeBatch_def isParallelSafeToolCall_def)

lemma sample_run:
  assumes "ex_classify tools = ex_classify sample_tools" "\<And>calls r w. \<exists>w'. ex_batch tools calls r w = (map (\<lambda>c. Inl (tc_id c)) calls, w')"
  shows "\<exists>a w'. run_calls (round_deps_sample tools) r (cl_toolCalls sample_completion) w = (Inr a, w')"
proof -
  let ?d = "round_deps_sample tools"
  have nb: "next_batch tools = next_batch sample_tools"
  proof (rule ext)
    fix calls show "next_batch tools calls = next_batch sample_tools calls"
      by (cases calls) (simp_all add: takeParallelSafeBatch_def isParallelSafeToolCall_def [abs_def] assms(1))
  qed
  have res: "\<exists>a. batch_results (rn_persist ?d) (zip calls (map executeToolCall (map (\<lambda>c. Inl (tc_id c)) calls))) = Inr a" for calls
    by (induction calls) (auto simp: round_deps_sample_def executeToolCall_def call_result_def)
  have step: "\<exists>a w1. run_calls ?d r calls w = (case run_calls ?d r (drop (length (next_batch sample_tools calls)) calls) w1 of
      (Inl e, w2) \<Rightarrow> (Inl e, w2) | (Inr b, w2) \<Rightarrow> (Inr (add_results a b), w2))" if "calls \<noteq> []" for calls w
  proof -
    let ?b = "next_batch sample_tools calls"
    obtain w1 where w1: "ex_batch tools ?b r w = (map (\<lambda>c. Inl (tc_id c)) ?b, w1)" using assms(2) by blast
    obtain a where "batch_results (rn_persist ?d) (zip ?b (map executeToolCall (map (\<lambda>c. Inl (tc_id c)) ?b))) = Inr a" using res by blast
    moreover have "rn_tools ?d = tools" by (simp add: round_deps_sample_def)
    ultimately show ?thesis using that w1 by (auto simp: run_calls.simps [of ?d r calls] nb Let_def)
  qed
  have last: "\<exists>a w'. run_calls ?d r [plain_call ''3'' ''rest''] w = (Inr a, w')" for w
    using step [of "[plain_call ''3'' ''rest'']" w] unfolding sample_batches by (auto simp: run_calls.simps [of ?d r "[]"])
  have "drop (length (next_batch sample_tools (cl_toolCalls sample_completion))) (cl_toolCalls sample_completion) = [plain_call ''3'' ''rest'']"
    unfolding sample_batches by (simp add: sample_completion_def)
  moreover have "cl_toolCalls sample_completion \<noteq> []" by (simp add: sample_completion_def)
  ultimately show ?thesis using step [of "cl_toolCalls sample_completion" w] last by (metis (no_types, lifting) case_prod_conv sum.simps(6))
qed

theorem calls_run_in_safe_batches_witness:
  "\<exists>a w' batches. run_calls (round_deps_sample (logging_tools sample_tools)) 1 (cl_toolCalls sample_completion) ((), []) = (Inr a, w', batches)
    \<and> concat batches = cl_toolCalls sample_completion \<and> list_all (safe_batch sample_tools) batches"
proof -
  have "\<exists>w'. ex_batch (logging_tools sample_tools) calls r w = (map (\<lambda>c. Inl (tc_id c)) calls, w')" for calls r w
    by (cases w) (simp add: logging_tools_def sample_tools_def)
  then obtain a w' batches where run: "run_calls (round_deps_sample (logging_tools sample_tools)) 1 (cl_toolCalls sample_completion) ((), [])
      = (Inr a, w', batches)"
    using sample_run [of "logging_tools sample_tools" 1 "((), [])"] by (force simp: logging_tools_def)
  have "rn_tools (round_deps_sample (logging_tools sample_tools)) = logging_tools sample_tools" by (simp add: round_deps_sample_def)
  from calls_run_in_safe_batches [OF this run] run show ?thesis by blast
qed

lemma sample_round:
  "\<exists>res w'. runReactRound (round_deps_sample sample_tools) 1 [] [] () = (Inr res, w')"
proof -
  have "\<exists>w'. ex_batch sample_tools calls r w = (map (\<lambda>c. Inl (tc_id c)) calls, w')" for calls r w by (simp add: sample_tools_def)
  then obtain a w' where a: "run_calls (round_deps_sample sample_tools) 1 (cl_toolCalls sample_completion) () = (Inr a, w')"
    using sample_run [of sample_tools 1 "()"] by blast
  have "chat_loop (round_deps_sample sample_tools) ms None False None [] () = (Inr (sample_completion, [sample_completion]), ())" for ms
    by (simp add: chat_loop.simps round_deps_sample_def sample_completion_def)
  moreover have "rn_keepRecentTokens (round_deps_sample sample_tools) = None" by (simp add: round_deps_sample_def)
  ultimately show ?thesis using a by (simp add: runReactRound_def Let_def breakpoint_of_def)
qed

theorem round_appends_one_unit_witness:
  "\<exists>res w'. runReactRound (round_deps_sample sample_tools) 1 [] [] () = (Inr res, w')
    \<and> (\<exists>calls nb contents. rr_messagesToAppend res =
        (if calls = [] then [] else AssistantMsg [] calls nb # map2 ToolMsg (map tc_id calls) contents)
      \<and> (legal_history ([] @ rr_messagesToAppend res) \<longleftrightarrow> new_calls_ok [] calls \<and> list_all tool_content_ok contents))"
proof -
  obtain res w' where run: "runReactRound (round_deps_sample sample_tools) 1 [] [] () = (Inr res, w')" using sample_round by blast
  have "settles (rn_tools (round_deps_sample sample_tools))" by (simp add: settles_def round_deps_sample_def sample_tools_def)
  moreover have "legal_history []" by (simp add: legal_history_def)
  ultimately show ?thesis using round_appends_one_unit [OF _ run] run by blast
qed

definition quiet_tools :: "(unit, unit \<times> unit chat_request list) tool_executor" where
  "quiet_tools = \<lparr>ex_list = [], ex_classify = ex_classify sample_tools, ex_batch = (\<lambda>calls r w. (map (\<lambda>c. Inl (tc_id c)) calls, w))\<rparr>"

text \<open>A provider whose answers always run into their limit, after 10000 tokens.\<close>

definition limited_deps :: "(unit, unit, unit) round_deps" where
  "limited_deps = (round_deps_sample sample_tools)\<lparr>rn_chat := (\<lambda>q w. (Inr (sample_completion
     \<lparr>cl_stopReason := Some (js ''max_tokens''), cl_outputTokens := Some 10000\<rparr>), w))\<rparr>"

theorem provider_asked_at_most_twice_witness:
  "map qr_maxOutputTokens (snd (snd (runReactRound (with_logged_chat limited_deps quiet_tools) 1 [] [] ((), [])))) = [None, Some 20000]"
proof -
  obtain res w' requests where run: "runReactRound (with_logged_chat limited_deps quiet_tools) 1 [] [] ((), []) = (res, w', requests)"
    by (metis prod_cases3)
  have quiet: "snd (snd (ex_batch quiet_tools calls r (w, qs))) = qs" for calls r w qs by (simp add: quiet_tools_def)
  have "breakpoint_of (rn_keepRecentTokens limited_deps) xs = Inr None" for xs
    by (simp add: breakpoint_of_def limited_deps_def round_deps_sample_def)
  moreover have "fst (rn_chat limited_deps q ()) = Inr (sample_completion\<lparr>cl_stopReason := Some (js ''max_tokens''), cl_outputTokens := Some 10000\<rparr>)" for q
    by (simp add: limited_deps_def)
  ultimately show ?thesis using provider_asked_at_most_twice [OF run quiet] run by (simp add: Let_def or_else_def)
qed

definition sample_effect :: react_effect where
  "sample_effect = \<lparr>re_toolCallId = js ''1'', re_toolName = js ''inbox'', re_effect = InboxRead (JStr (js ''qq_group:7'')) (jint 5)\<rparr>"

theorem effects_believed_witness:
  "\<exists>r. interpretToolEffects [sample_effect] = Some r \<and> in_sentTargets r = first_targets [] (sent_by [sample_effect])"
proof -
  obtain r where "interpretToolEffects [sample_effect] = Some r" by (simp add: interpretToolEffects_def sample_effect_def)
  then show ?thesis using effects_believed [of "[sample_effect]" r] by blast
qed

end
