(* ===== verification/Tool_Schema.thy ===== *)
theory Tool_Schema
  imports Snapshot_Integrity Ledger_Types Inbox_Read_Cursors
begin

text \<open>
  \<open>src/agent/tool-schema.ts\<close>: the JSON schema of a tool as the providers want it, and the removal of the nulls a strict
  provider has to send for optional obj_fields.  The schema that zod writes (\<open>z.toJSONSchema\<close>) is a parameter: a JSON
  object whose \<open>properties\<close> are objects and whose \<open>required\<close> are lists of strings.
\<close>

section \<open>Parts of a schema\<close>

abbreviation sprop :: "jobj \<Rightarrow> string \<Rightarrow> jv" where
  "sprop s k \<equiv> obj_get s (js k)"

text \<open>Schemas and arguments are JSON, which has no other objects.\<close>

definition isRecord :: "jv \<Rightarrow> bool" where
  "isRecord v \<longleftrightarrow> (case v of JObj _ \<Rightarrow> True | _ \<Rightarrow> False)"

definition obj_fields :: "jv \<Rightarrow> jobj" where
  "obj_fields v = (case v of JObj ps \<Rightarrow> ps | _ \<Rightarrow> [])"

definition elements :: "jv \<Rightarrow> jv list" where
  "elements v = (case v of JArr vs \<Rightarrow> vs | _ \<Rightarrow> [])"

definition obj_del :: "(jstr \<times> 'v) list \<Rightarrow> jstr \<Rightarrow> (jstr \<times> 'v) list" where
  "obj_del ps k = filter (\<lambda>p. fst p \<noteq> k) ps"

definition properties_of :: "jobj \<Rightarrow> jobj" where
  "properties_of s = obj_fields (sprop s ''properties'')"

text \<open>The strings of a list, the first of equal ones.\<close>

definition string_set :: "jv \<Rightarrow> jstr list" where
  "string_set v = rev (remdups (rev (List.map_filter (\<lambda>x. case x of JStr t \<Rightarrow> Some t | _ \<Rightarrow> None) (elements v))))"

definition required_of :: "jobj \<Rightarrow> jstr list" where
  "required_of s = string_set (sprop s ''required'')"

definition getVariantArray :: "jobj \<Rightarrow> jv list option" where
  "getVariantArray s =
     (case sprop s ''anyOf'' of JArr vs \<Rightarrow> Some vs
      | _ \<Rightarrow> (case sprop s ''oneOf'' of JArr vs \<Rightarrow> Some vs
              | _ \<Rightarrow> (case sprop s ''allOf'' of JArr vs \<Rightarrow> Some vs | _ \<Rightarrow> None)))"

definition getSchemaVariants :: "jobj \<Rightarrow> jobj list" where
  "getSchemaVariants s = (case getVariantArray s of
     Some vs \<Rightarrow> if list_all isRecord vs then map obj_fields vs else [] | None \<Rightarrow> [])"

section \<open>Sizes\<close>

lemma jv_list_size: "v \<in> set vs \<Longrightarrow> size v < size (JArr vs)"
  by (induction vs) auto

lemma jv_member_size: "(k, v) \<in> set ps \<Longrightarrow> size v < size (JObj ps)"
  by (induction ps) auto

lemma obj_get_member: "obj_get ps k = v \<Longrightarrow> v \<noteq> JUndef \<Longrightarrow> (k, v) \<in> set ps"
  by (induction ps) (auto split: if_splits)

lemma obj_get_size: "obj_get ps k \<noteq> JUndef \<Longrightarrow> size (obj_get ps k) < size (JObj ps)"
  using obj_get_member jv_member_size by blast

lemma obj_get_arr_size: "obj_get ps k = JArr vs \<Longrightarrow> v \<in> set vs \<Longrightarrow> size v < size (JObj ps)"
  using obj_get_size [of ps k] jv_list_size [of v vs] by simp

lemma obj_get_obj_size: "obj_get ps k = JObj qs \<Longrightarrow> (x, v) \<in> set qs \<Longrightarrow> size v < size (JObj ps)"
  using obj_get_size [of ps k] jv_member_size [of x v qs] by simp

lemma variant_array_size: "getVariantArray s = Some vs \<Longrightarrow> v \<in> set vs \<Longrightarrow> size v < size (JObj s)"
  unfolding getVariantArray_def using obj_get_arr_size by (auto split: jv.splits)

lemma variant_size: "v \<in> set (getSchemaVariants s) \<Longrightarrow> size (JObj v) < size (JObj s)"
proof -
  assume "v \<in> set (getSchemaVariants s)"
  then obtain vs where "getVariantArray s = Some vs" "list_all isRecord vs" "v \<in> obj_fields ` set vs"
    by (cases "getVariantArray s") (auto simp: getSchemaVariants_def split: if_splits)
  then obtain w where w: "getVariantArray s = Some vs" "w \<in> set vs" "isRecord w" "v = obj_fields w"
    by (auto simp: list_all_iff)
  then have "size (JObj v) \<le> size w" by (cases w) (auto simp: isRecord_def obj_fields_def)
  then show ?thesis using variant_array_size [OF w(1,2)] by simp
qed

section \<open>Removing nulls\<close>

text \<open>\<open>===\<close> of a value of the call with a constant of the schema: objects and arrays are never the same.\<close>

definition js_same :: "jv \<Rightarrow> jv \<Rightarrow> bool" where
  "js_same a b \<longleftrightarrow> a = b \<and> (case a of JArr _ \<Rightarrow> False | JObj _ \<Rightarrow> False | JDate _ \<Rightarrow> False | JNum n \<Rightarrow> n \<noteq> NNaN | _ \<Rightarrow> True)"

fun match_score :: "jobj \<Rightarrow> jobj \<Rightarrow> int \<Rightarrow> int option" where
  "match_score [] value score = Some score"
| "match_score ((k, p) # ps) value score =
     (if sprop (obj_fields p) ''const'' \<noteq> JUndef
      then (if js_same (obj_get value k) (sprop (obj_fields p) ''const'') then match_score ps value (score + 10) else None)
      else match_score ps value (if obj_has value k then score + 1 else score))"

text \<open>\<open>None\<close> is minus infinity.\<close>

definition variantMatchScore :: "jobj \<Rightarrow> jobj \<Rightarrow> int option" where
  "variantMatchScore s value = match_score (properties_of s) value 0"

definition better :: "int option \<Rightarrow> int option \<Rightarrow> bool" where
  "better a b \<longleftrightarrow> (case a of None \<Rightarrow> False | Some x \<Rightarrow> (case b of None \<Rightarrow> True | Some y \<Rightarrow> y < x))"

fun select_best :: "jobj \<Rightarrow> int option \<Rightarrow> jobj \<Rightarrow> jobj list \<Rightarrow> jobj" where
  "select_best value bestScore best [] = best"
| "select_best value bestScore best (v # vs) =
     (let score = variantMatchScore v value in
      if better score bestScore then select_best value score v vs else select_best value bestScore best vs)"

definition selectVariant :: "jobj list \<Rightarrow> jobj \<Rightarrow> jobj" where
  "selectVariant variants value = select_best value None (case variants of [] \<Rightarrow> [] | v # _ \<Rightarrow> v) variants"

lemma select_best_in: "select_best value sc best vs \<in> insert best (set vs)"
  by (induction vs arbitrary: sc best) (auto simp: Let_def)

lemma selectVariant_in: "vs \<noteq> [] \<Longrightarrow> selectVariant vs value \<in> set vs"
  using select_best_in [of _ None "hd vs" vs] by (cases vs) (auto simp: selectVariant_def)

text \<open>The fields of an object are distinct, so the walk over the properties changes each field of the value at most
  once: what becomes of a field depends on that field alone.  The value is JSON, as parsed.\<close>

function (sequential) stripNullOptionals :: "jv \<Rightarrow> jv \<Rightarrow> jv" where
  "stripNullOptionals schema (JArr vs) =
     JArr (map (stripNullOptionals (if isRecord schema then sprop (obj_fields schema) ''items'' else JUndef)) vs)"
| "stripNullOptionals (JObj s) (JObj value) =
     (let variants = getSchemaVariants s in
      if variants \<noteq> [] then stripNullOptionals (JObj (selectVariant variants value)) (JObj value)
      else (case sprop s ''properties'' of
              JObj props \<Rightarrow>
                JObj (concat (map (\<lambda>(k, v). case map_of props k of
                       None \<Rightarrow> [(k, v)]
                     | Some p \<Rightarrow> if v = JNull \<and> k \<notin> set (required_of s) then [] else [(k, stripNullOptionals p v)]) value))
            | _ \<Rightarrow> JObj value))"
| "stripNullOptionals schema value = value"
  by pat_completeness auto
termination
proof (relation "measure (\<lambda>(s, v). size s + size v)")
  fix schema v and vs :: "jv list"
  assume v: "v \<in> set vs"
  have "size (if isRecord schema then sprop (obj_fields schema) ''items'' else JUndef) \<le> size schema"
  proof (cases "schema")
    case (JObj ps)
    then show ?thesis using obj_get_size [of ps "js ''items''"]
      by (cases "sprop ps ''items'' = JUndef") (auto simp: isRecord_def obj_fields_def)
  qed (auto simp: isRecord_def obj_fields_def)
  then show "((if isRecord schema then sprop (obj_fields schema) ''items'' else JUndef, v), schema, JArr vs)
      \<in> measure (\<lambda>(s, v). size s + size v)"
    using jv_list_size [OF v] by simp
next
  fix s :: jobj and vl :: jobj and variants
  assume "variants = getSchemaVariants s" "variants \<noteq> []"
  then show "((JObj (selectVariant variants vl), JObj vl), JObj s, JObj vl) \<in> measure (\<lambda>(s, v). size s + size v)"
    using variant_size [OF selectVariant_in, of s vl] by simp
next
  fix s :: jobj and vl :: jobj and variants props x k v p
  assume "sprop s ''properties'' = JObj props" "x \<in> set vl" "(k, v) = x" "map_of props k = Some p"
  then show "((p, v), JObj s, JObj vl) \<in> measure (\<lambda>(s, v). size s + size v)"
    using obj_get_obj_size [of s "js ''properties''" props k p] jv_member_size [of k v vl] map_of_SomeD by fastforce
qed simp_all

text \<open>\<open>stripNullsFromOptionalFields\<close>; \<open>json\<close> is the schema as zod writes it.\<close>

definition stripNullsFromOptionalFields :: "jobj \<Rightarrow> jv \<Rightarrow> jv" where
  "stripNullsFromOptionalFields json value = stripNullOptionals (JObj (obj_del json (js ''$schema''))) value"

section \<open>The schema for a provider\<close>

function (sequential) expandObjectVariant :: "jv \<Rightarrow> jobj list option" where
  "expandObjectVariant (JObj o') =
     (if sprop o' ''type'' = JStr (js ''object'') then Some [o']
      else (case getVariantArray o' of
              None \<Rightarrow> None
            | Some vs \<Rightarrow> (case those (map expandObjectVariant vs) of
                  None \<Rightarrow> None
                | Some outs \<Rightarrow> if concat outs = [] then None else Some (concat outs))))"
| "expandObjectVariant v = None"
  by pat_completeness auto
termination by (relation "measure size") (use variant_array_size in auto)

definition collectObjectVariants :: "jv list \<Rightarrow> jobj list option" where
  "collectObjectVariants vs =
     (case those (map expandObjectVariant vs) of
        None \<Rightarrow> None
      | Some outs \<Rightarrow> if concat outs = [] then None else Some (concat outs))"

definition getFlattenableObjectVariants :: "jobj \<Rightarrow> jobj list option" where
  "getFlattenableObjectVariants json = Option.bind (getVariantArray json) collectObjectVariants"

text \<open>The schemas of each property, over all variants.\<close>

definition push_prop :: "(jstr \<times> jv list) list \<Rightarrow> jstr \<times> jv \<Rightarrow> (jstr \<times> jv list) list" where
  "push_prop merged = (\<lambda>(k, v). obj_put merged k ((case map_of merged k of None \<Rightarrow> [] | Some vs \<Rightarrow> vs) @ [v]))"

definition merge_props :: "jobj list \<Rightarrow> (jstr \<times> jv list) list" where
  "merge_props variants = foldl push_prop [] (concat (map properties_of variants))"

fun join_with :: "jstr \<Rightarrow> jstr list \<Rightarrow> jstr" where
  "join_with sep [] = []"
| "join_with sep [l] = l"
| "join_with sep (l # ls) = l @ sep @ join_with sep ls"

definition description_of :: "jv \<Rightarrow> jstr option" where
  "description_of v = (case sprop (obj_fields v) ''description'' of JStr d \<Rightarrow> if d = [] then None else Some d | _ \<Rightarrow> None)"

definition merged_prop :: "jv list \<Rightarrow> jv" where
  "merged_prop schemas =
     (if length schemas = 1 then hd schemas
      else let consts = filter (\<lambda>c. c \<noteq> JUndef) (map (\<lambda>s. sprop (obj_fields s) ''const'') schemas) in
        if length consts = length schemas
        then (let descriptions = List.map_filter description_of schemas; t = sprop (obj_fields (hd schemas)) ''type'' in
          JObj ([(js ''type'', if t = JUndef \<or> t = JNull then JStr (js ''string'') else t), (js ''enum'', JArr consts)]
            @ (if descriptions = [] then [] else [(js ''description'', JStr (join_with (js '' | '') descriptions))])))
        else hd schemas)"

definition intersect_required :: "jstr list list \<Rightarrow> jstr list" where
  "intersect_required sets = (case sets of [] \<Rightarrow> [] | r # rs \<Rightarrow> foldl (\<lambda>acc s. filter (\<lambda>k. k \<in> set s) acc) r rs)"

section \<open>The conditional requirements\<close>

definition prop_const :: "jobj \<Rightarrow> jstr \<Rightarrow> jv" where
  "prop_const variant k = sprop (obj_fields (obj_get (properties_of variant) k)) ''const''"

definition is_discriminator :: "jobj list \<Rightarrow> jstr \<Rightarrow> bool" where
  "is_discriminator variants k \<longleftrightarrow>
     list_all (\<lambda>v. prop_const v k \<noteq> JUndef) variants
     \<and> distinct (map (\<lambda>v. stringify (prop_const v k)) variants)"

definition findDiscriminator :: "jobj list \<Rightarrow> jstr option" where
  "findDiscriminator variants =
     (case variants of [] \<Rightarrow> None | v # _ \<Rightarrow> find (is_discriminator variants) (obj_keys (properties_of v)))"

definition formatSchemaValue :: "jv \<Rightarrow> jstr" where
  "formatSchemaValue v = (case v of JStr s \<Rightarrow> s | _ \<Rightarrow> stringify v)"

definition appendSchemaDescription :: "jv \<Rightarrow> jstr \<Rightarrow> jv" where
  "appendSchemaDescription schema addition =
     (case schema of
        JObj s \<Rightarrow> let d = (case sprop s ''description'' of JStr d \<Rightarrow> trim d | _ \<Rightarrow> []) in
          JObj (obj_put s (js ''description'') (JStr (if d = [] then addition else d @ [32] @ addition)))
      | _ \<Rightarrow> schema)"

definition must_give :: jstr where
  "must_give = [32, 26102, 24517, 39035, 25552, 20379, 32]"

definition nothing_more :: jstr where
  "nothing_more = [32, 26102, 26080, 39069, 22806, 24517, 22635, 23383, 27573]"

definition contract_prefix :: jstr where
  "contract_prefix = [26465, 20214, 21442, 25968, 22865, 32422, 58, 32]"

definition or_sep :: jstr where
  "or_sep = [32, 25110, 32]"

definition required_suffix :: jstr where
  "required_suffix = [32, 26102, 24517, 22635, 46]"

definition branch_label :: "jstr \<Rightarrow> jobj \<Rightarrow> jstr" where
  "branch_label d variant = d @ js ''='' @ formatSchemaValue (prop_const variant d)"

definition branch_required :: "jstr list \<Rightarrow> jobj \<Rightarrow> jstr list" where
  "branch_required globally variant = filter (\<lambda>k. k \<notin> set globally) (required_of variant)"

definition branch_contract :: "jstr \<Rightarrow> jstr list \<Rightarrow> jobj \<Rightarrow> jstr" where
  "branch_contract d globally variant =
     (let required = branch_required globally variant in
      branch_label d variant @ (if required \<noteq> [] then must_give @ join_with (js '', '') required else nothing_more))"

definition annotate_prop :: "jstr \<Rightarrow> jstr list \<Rightarrow> jobj list \<Rightarrow> jstr \<times> jv \<Rightarrow> jstr \<times> jv" where
  "annotate_prop d globally variants = (\<lambda>(k, v).
     (k, if k = d
         then appendSchemaDescription v (contract_prefix @ join_with (js ''; '') (map (branch_contract d globally) variants) @ js ''.'')
         else if k \<in> set globally then v
         else let by = map (branch_label d) (filter (\<lambda>x. k \<in> set (branch_required globally x)) variants) in
           if by = [] then v else appendSchemaDescription v (join_with or_sep by @ required_suffix)))"

definition annotateConditionalRequirements :: "jobj \<Rightarrow> jobj list \<Rightarrow> jstr list \<Rightarrow> jobj" where
  "annotateConditionalRequirements properties variants globally =
     (case findDiscriminator variants of
        None \<Rightarrow> properties
      | Some d \<Rightarrow> map (annotate_prop d globally variants) properties)"

definition flatten_variants :: "jobj \<Rightarrow> jobj list \<Rightarrow> jobj" where
  "flatten_variants json variants =
     (let finalProps = map (\<lambda>(k, schemas). (k, merged_prop schemas)) (merge_props variants);
          required = intersect_required (map required_of variants);
          base = obj_del (obj_del json (js ''oneOf'')) (js ''anyOf'');
          typed = obj_put base (js ''type'') (JStr (js ''object''));
          withProps = obj_put typed (js ''properties'') (JObj (annotateConditionalRequirements finalProps variants required))
      in if required = [] then obj_del withProps (js ''required'')
         else obj_put withProps (js ''required'') (JArr (map JStr required)))"

definition zodToToolJsonSchema :: "jobj \<Rightarrow> jobj" where
  "zodToToolJsonSchema zod =
     (let json = obj_del zod (js ''$schema'') in
      case getFlattenableObjectVariants json of
        Some variants \<Rightarrow> flatten_variants json variants
      | None \<Rightarrow> if sprop json ''type'' = JStr (js ''object'') \<and> \<not> obj_has json (js ''properties'')
               then obj_put json (js ''properties'') (JObj []) else json)"

section \<open>The strict schema\<close>

definition isNullableSchema :: "jv \<Rightarrow> bool" where
  "isNullableSchema input =
     (case input of
        JObj s \<Rightarrow>
          sprop s ''type'' = JStr (js ''null'')
          \<or> JStr (js ''null'') \<in> set (elements (sprop s ''type''))
          \<or> list_ex (\<lambda>v. isRecord v \<and> sprop (obj_fields v) ''type'' = JStr (js ''null''))
               (case sprop s ''anyOf'' of JArr vs \<Rightarrow> vs | _ \<Rightarrow> elements (sprop s ''oneOf''))
      | _ \<Rightarrow> False)"

definition makeNullableSchema :: "jv \<Rightarrow> jv" where
  "makeNullableSchema input = (if isNullableSchema input then input
     else JObj [(js ''anyOf'', JArr [input, JObj [(js ''type'', JStr (js ''null''))] ])])"

definition variant_keys :: "jstr list" where
  "variant_keys = [js ''anyOf'', js ''oneOf'', js ''allOf'']"

function (sequential) makeOpenAIStrictSchema :: "jv \<Rightarrow> jv" where
  "makeOpenAIStrictSchema (JArr vs) = JArr (map makeOpenAIStrictSchema vs)"
| "makeOpenAIStrictSchema (JObj input) =
     (let next = map (\<lambda>(k, v). (k, case v of
              JArr vs \<Rightarrow> if k \<in> set variant_keys then JArr (map makeOpenAIStrictSchema vs) else v
            | _ \<Rightarrow> v)) (obj_del input (js ''format''))
      in case sprop input ''properties'' of
           JObj properties \<Rightarrow>
             (let required = required_of input;
                  finalProps = map (\<lambda>(k, p). let strict = makeOpenAIStrictSchema p in
                    (k, if k \<in> set required then strict else makeNullableSchema strict)) properties
              in JObj (obj_put (obj_put (obj_put (obj_put next (js ''type'') (JStr (js ''object'')))
                   (js ''properties'') (JObj finalProps)) (js ''required'') (JArr (map JStr (obj_keys finalProps))))
                   (js ''additionalProperties'') (JBool False)))
         | _ \<Rightarrow> JObj next)"
| "makeOpenAIStrictSchema v = v"
  by pat_completeness auto
termination
proof (relation "measure size")
  fix vs :: "jv list" and v assume "v \<in> set vs"
  then show "(v, JArr vs) \<in> measure size" using jv_list_size by simp
next
  fix input p k v vs w assume "p \<in> set (obj_del input (js ''format''))" "(k, v) = p" "v = JArr vs" "w \<in> set vs"
  then show "(w, JObj input) \<in> measure size"
    using jv_member_size [of k v input] jv_list_size [of w vs] by (auto simp: obj_del_def)
next
  fix input xa properties x and p and k
  assume "sprop input ''properties'' = JObj properties" "x \<in> set properties" "(k, p) = x"
  then show "(p, JObj input) \<in> measure size" using obj_get_obj_size [of input "js ''properties''" properties k p] by auto
qed simp_all

definition zodToOpenAIStrictToolJsonSchema :: "jobj \<Rightarrow> jv" where
  "zodToOpenAIStrictToolJsonSchema zod = makeOpenAIStrictSchema (JObj (zodToToolJsonSchema zod))"

text \<open>
  What the schemas of \<open>Tool_Schema\<close> promise: a flattened union asks for no more than each of its variants, and the
  nulls a strict provider sends for missing optional fields are removed again - where the schema is no union.
\<close>

section \<open>Objects\<close>

lemma obj_get_map_of: "obj_get ps k = (case map_of ps k of None \<Rightarrow> JUndef | Some v \<Rightarrow> v)"
  by (induction ps) auto

lemma obj_get_obj_put: "\<not> is_index_key k \<Longrightarrow> obj_get (obj_put ps k v) k' = (if k' = k then v else obj_get ps k')"
  by (simp add: obj_get_map_of map_of_obj_put)

lemma obj_get_obj_del: "obj_get (obj_del ps k) k' = (if k' = k then JUndef else obj_get ps k')"
  by (induction ps) (auto simp: obj_del_def)

lemma literal_keys [simp]: "\<not> is_index_key (js ''type'')" "\<not> is_index_key (js ''properties'')" "\<not> is_index_key (js ''required'')"
  "\<not> is_index_key (js ''additionalProperties'')"
  by (simp_all add: is_index_key_def is_digit_def js_def)

section \<open>The flattened union\<close>

lemma push_prop_keys: "set (obj_keys (push_prop m p)) = insert (fst p) (set (obj_keys m))"
  by (cases p) (simp add: push_prop_def obj_put_keys_set [simplified])

lemma foldl_push_keys: "set (obj_keys (foldl push_prop m ps)) = set (obj_keys m) \<union> set (obj_keys ps)"
  by (induction ps arbitrary: m) (simp_all add: push_prop_keys [simplified])

lemma merge_props_keys: "set (obj_keys (merge_props vs)) = (\<Union>v \<in> set vs. set (obj_keys (properties_of v)))"
  by (force simp: merge_props_def foldl_push_keys [simplified])

lemma foldl_filter_set: "set (foldl (\<lambda>acc s. filter (\<lambda>k. k \<in> set s) acc) r rs) = set r \<inter> (\<Inter>s \<in> set rs. set s)"
  by (induction rs arbitrary: r) auto

lemma intersect_required_set: "rs \<noteq> [] \<Longrightarrow> set (intersect_required rs) = (\<Inter>r \<in> set rs. set r)"
  by (cases rs) (simp_all add: intersect_required_def foldl_filter_set)

lemma annotated_keys: "obj_keys (annotateConditionalRequirements ps vs g) = obj_keys ps"
  by (simp add: annotateConditionalRequirements_def annotate_prop_def comp_def case_prod_unfold split: option.split)

lemma string_set_of_strings: "distinct ks \<Longrightarrow> string_set (JArr (map JStr ks)) = ks"
proof -
  assume "distinct ks"
  then have "distinct (rev ks)" by simp
  moreover have "List.map_filter (\<lambda>x. case x of JStr t \<Rightarrow> Some t | _ \<Rightarrow> None) (map JStr ks) = ks"
    by (simp add: List.map_filter_def comp_def)
  ultimately show ?thesis by (simp add: string_set_def elements_def distinct_remdups_id)
qed

lemma string_set_distinct: "distinct (string_set v)"
  by (simp add: string_set_def)

lemma foldl_filter_distinct: "distinct r \<Longrightarrow> distinct (foldl (\<lambda>acc s. filter (\<lambda>k. k \<in> set s) acc) r rs)"
  by (induction rs arbitrary: r) auto

lemma flatten_parts:
  assumes "vs \<noteq> []"
  shows "obj_keys (properties_of (flatten_variants json vs)) = obj_keys (merge_props vs)"
    and "set (required_of (flatten_variants json vs)) = (\<Inter>v \<in> set vs. set (required_of v))"
proof -
  let ?r = "intersect_required (map required_of vs)"
  show "obj_keys (properties_of (flatten_variants json vs)) = obj_keys (merge_props vs)"
    by (simp add: flatten_variants_def Let_def properties_of_def obj_get_obj_put obj_get_obj_del obj_fields_def annotated_keys
        comp_def case_prod_unfold)
  have d: "distinct ?r"
    using assms by (cases vs) (simp_all add: intersect_required_def foldl_filter_distinct required_of_def string_set_distinct)
  have "required_of (flatten_variants json vs) = ?r"
  proof (cases "?r = []")
    case True
    then show ?thesis
      by (simp add: flatten_variants_def Let_def required_of_def obj_get_obj_del string_set_def elements_def List.map_filter_def)
  next
    case False
    then show ?thesis
      by (simp add: flatten_variants_def Let_def required_of_def obj_get_obj_put string_set_of_strings [OF d])
  qed
  then show "set (required_of (flatten_variants json vs)) = (\<Inter>v \<in> set vs. set (required_of v))"
    using assms by (simp add: intersect_required_set)
qed

text \<open>The schema that providers get for a union of object variants asks for exactly the fields every variant requires
  and knows exactly the fields some variant has, so a call that one variant accepts is never missing a field and
  never has an unknown one.\<close>

theorem flattened_union_admits_every_variant:
  assumes "getFlattenableObjectVariants (obj_del zod (js ''$schema'')) = Some vs"
  shows "set (required_of (zodToToolJsonSchema zod)) = (\<Inter>v \<in> set vs. set (required_of v))
    \<and> set (obj_keys (properties_of (zodToToolJsonSchema zod))) = (\<Union>v \<in> set vs. set (obj_keys (properties_of v)))"
proof -
  have "vs \<noteq> []" using assms
    by (auto simp: getFlattenableObjectVariants_def collectObjectVariants_def Option.bind_eq_Some_conv split: option.splits if_splits)
  then show ?thesis using assms flatten_parts [of vs] by (simp add: zodToToolJsonSchema_def Let_def merge_props_keys [simplified])
qed

section \<open>Nulls\<close>

text \<open>What a strict provider sends for a value \<open>v\<close> of a schema without unions: the missing optional fields are there
  with null, anywhere among the others.\<close>

inductive sends :: "jv \<Rightarrow> jv \<Rightarrow> jv \<Rightarrow> bool" where
  sends_other: "(\<forall>vs. v \<noteq> JArr vs) \<Longrightarrow> (\<forall>ps. v \<noteq> JObj ps) \<Longrightarrow> sends s v v"
| sends_list: "list_all2 (sends (if isRecord s then sprop (obj_fields s) ''items'' else JUndef)) vs vs'
    \<Longrightarrow> sends s (JArr vs) (JArr vs')"
| sends_free: "getSchemaVariants s = [] \<Longrightarrow> \<forall>ps. sprop s ''properties'' \<noteq> JObj ps \<Longrightarrow> sends (JObj s) (JObj ob) (JObj ob)"
| sends_object: "getSchemaVariants s = [] \<Longrightarrow> sprop s ''properties'' = JObj props
    \<Longrightarrow> \<forall>(k, v) \<in> set ob'. k \<in> nulls \<longrightarrow> v = JNull \<and> k \<in> fst ` set props \<and> k \<notin> set (required_of s)
    \<Longrightarrow> list_all2 (\<lambda>p p'. fst p' = fst p \<and> (map_of props (fst p) = None \<longrightarrow> snd p' = snd p)
          \<and> (\<forall>q. map_of props (fst p) = Some q \<longrightarrow> (snd p' = JNull \<longrightarrow> fst p \<in> set (required_of s)) \<and> sends q (snd p) (snd p')))
        ob (filter (\<lambda>p. fst p \<notin> nulls) ob')
    \<Longrightarrow> sends (JObj s) (JObj ob) (JObj ob')"

lemma strip_sends: "sends s v v' \<Longrightarrow> stripNullOptionals s v' = v"
proof (induction rule: sends.induct)
  case (sends_other v s)
  then show ?case by (cases v; cases s) simp_all
next
  case (sends_list s vs vs')
  have "map (stripNullOptionals (if isRecord s then sprop (obj_fields s) ''items'' else JUndef)) vs' = vs"
    using sends_list by (induction rule: list_all2_induct) auto
  then show ?case by simp
next
  case (sends_free s ob)
  then show ?case by (simp split: jv.split)
next
  case (sends_object s props ob' nulls ob)
  let ?f = "\<lambda>(k, v). case map_of props k of None \<Rightarrow> [(k, v)]
    | Some p \<Rightarrow> if v = JNull \<and> k \<notin> set (required_of s) then [] else [(k, stripNullOptionals p v)]"
  have "concat (map ?f ob') = ob"
    using sends_object(3,4)
  proof (induction ob' arbitrary: ob)
    case (Cons p ob')
    obtain k v where p: "p = (k, v)" by fastforce
    show ?case
    proof (cases "k \<in> nulls")
      case True
      then have "v = JNull" "map_of props k \<noteq> None" "k \<notin> set (required_of s)"
        using Cons.prems(1) p by (auto simp: map_of_eq_None_iff)
      then have "?f p = []" using p by auto
      moreover have "concat (map ?f ob') = ob" using Cons.IH [of ob] Cons.prems p True by simp
      ultimately show ?thesis by (simp only: list.map concat.simps append_Nil)
    next
      case False
      then obtain q ob2 where ob: "ob = q # ob2" "fst q = k" "map_of props k = None \<Longrightarrow> v = snd q"
          "\<And>s'. map_of props k = Some s' \<Longrightarrow> (v = JNull \<longrightarrow> k \<in> set (required_of s)) \<and> stripNullOptionals s' v = snd q"
        using Cons.prems(2) p by (auto simp: list_all2_Cons2 split: option.splits)
      then have "?f p = [q]" using p by (cases q; cases "map_of props k") auto
      moreover have "concat (map ?f ob') = ob2"
        using Cons.IH [of ob2] Cons.prems p False ob(1) by simp
      ultimately show ?thesis using ob(1) by (simp only: list.map concat.simps append_Cons append_Nil)
    qed
  qed simp
  then show ?case using sends_object(1,2) by simp
qed

text \<open>C36. The nulls a strict provider sends for the missing optional fields of a schema without unions are removed again, in
  nested objects and lists too, wherever they stand among the other fields: what is left is the call that was meant.\<close>

theorem strict_nulls_removed:
  assumes "sends (JObj (obj_del zod (js ''$schema''))) v sent"
  shows "stripNullsFromOptionalFields zod sent = v"
  using strip_sends [OF assms] by (simp add: stripNullsFromOptionalFields_def)

definition file_schema :: jobj where
  "file_schema = [(js ''type'', JStr (js ''object'')),
     (js ''properties'', JObj [(js ''file'', JObj [(js ''type'', JStr (js ''string''))]), (js ''limit'', JObj [(js ''type'', JStr (js ''integer''))])]),
     (js ''required'', JArr [JStr (js ''file'')])]"

lemma file_schema_parts:
  "getSchemaVariants file_schema = []" "set (required_of file_schema) = {js ''file''}" "obj_del file_schema (js ''$schema'') = file_schema"
  "sprop file_schema ''properties'' = JObj [(js ''file'', JObj [(js ''type'', JStr (js ''string''))]), (js ''limit'', JObj [(js ''type'', JStr (js ''integer''))])]"
  by (simp_all add: file_schema_def getSchemaVariants_def getVariantArray_def required_of_def string_set_def elements_def
      List.map_filter_def obj_del_def)

theorem strict_nulls_removed_witness:
  "stripNullsFromOptionalFields file_schema (JObj [(js ''limit'', JNull), (js ''file'', JStr (js ''a''))])
    = JObj [(js ''file'', JStr (js ''a''))]"
proof (rule strict_nulls_removed)
  have "sends (JObj [(js ''type'', JStr (js ''string''))]) (JStr (js ''a'')) (JStr (js ''a''))" by (rule sends_other) simp_all
  then show "sends (JObj (obj_del file_schema (js ''$schema''))) (JObj [(js ''file'', JStr (js ''a''))])
      (JObj [(js ''limit'', JNull), (js ''file'', JStr (js ''a''))])"
    unfolding file_schema_parts(3)
    by (intro sends_object [OF file_schema_parts(1) file_schema_parts(4), of _ "{js ''limit''}"])
      (simp_all add: file_schema_parts(2))
qed

section \<open>Nulls of other variants\<close>

lemma strict_required:
  assumes "sprop s ''properties'' = JObj props"
  shows "JStr ` set (obj_keys props) = set (elements (sprop (obj_fields (makeOpenAIStrictSchema (JObj s))) ''required''))"
  using assms by (simp add: Let_def obj_fields_def obj_get_obj_put elements_def image_image case_prod_unfold comp_def)

lemma strip_keeps_unknown:
  assumes "getSchemaVariants s = []" "sprop s ''properties'' = JObj props" "(k, v) \<in> set ob" "k \<notin> set (obj_keys props)"
  shows "(k, v) \<in> set (obj_fields (stripNullOptionals (JObj s) (JObj ob)))"
proof -
  have "map_of props k = None" using assms(4) by (simp add: map_of_eq_None_iff)
  then show ?thesis using assms(1,2,3) by (force simp: obj_fields_def)
qed

text \<open>C37. A union of object variants goes to a strict provider as one object that requires the fields of all variants; but when
  the call comes back, a null in a field that only another variant has is not removed, because only the fields of
  the selected variant are looked at.  A schema whose variants refuse unknown fields then refuses the call.\<close>

theorem nulls_of_other_variants_stay:
  assumes "obj_del zod (js ''$schema'') = json" "getFlattenableObjectVariants json = Some vs" "getSchemaVariants json = vs"
    and "other \<in> set vs" "k \<in> set (obj_keys (properties_of other))"
    and "selectVariant vs ob = chosen" "getSchemaVariants chosen = []" "sprop chosen ''properties'' = JObj props"
    and "k \<notin> set (obj_keys props)" "(k, JNull) \<in> set ob"
  shows "JStr k \<in> set (elements (sprop (obj_fields (zodToOpenAIStrictToolJsonSchema zod)) ''required''))
    \<and> (k, JNull) \<in> set (obj_fields (stripNullsFromOptionalFields zod (JObj ob)))"
proof
  have ne: "vs \<noteq> []" using assms(4) by auto
  have flat: "zodToToolJsonSchema zod = flatten_variants json vs" using assms(1,2) by (simp add: zodToToolJsonSchema_def Let_def)
  obtain ps where ps: "sprop (flatten_variants json vs) ''properties'' = JObj ps"
    by (cases "intersect_required (map required_of vs) = []") (simp_all add: flatten_variants_def Let_def obj_get_obj_put obj_get_obj_del)
  have "k \<in> set (obj_keys (merge_props vs))" using assms(4,5) merge_props_keys [of vs] by blast
  then have "k \<in> set (obj_keys ps)"
    using flatten_parts(1) [OF ne, of json] ps by (simp add: properties_of_def obj_fields_def)
  then show "JStr k \<in> set (elements (sprop (obj_fields (zodToOpenAIStrictToolJsonSchema zod)) ''required''))"
    using strict_required [OF ps] by (auto simp: zodToOpenAIStrictToolJsonSchema_def flat)
  have "stripNullOptionals (JObj json) (JObj ob) = stripNullOptionals (JObj chosen) (JObj ob)"
    using ne assms(3,6) by (simp add: Let_def)
  then show "(k, JNull) \<in> set (obj_fields (stripNullsFromOptionalFields zod (JObj ob)))"
    using strip_keeps_unknown [OF assms(7,8,10,9)] assms(1) by (simp add: stripNullsFromOptionalFields_def)
qed

definition read_variant :: jobj where
  "read_variant = [(js ''type'', JStr (js ''object'')),
     (js ''properties'', JObj [(js ''action'', JObj [(js ''const'', JStr (js ''recall''))]), (js ''query'', JObj [(js ''type'', JStr (js ''string''))])]),
     (js ''required'', JArr [JStr (js ''action''), JStr (js ''query'')])]"

definition write_variant :: jobj where
  "write_variant = [(js ''type'', JStr (js ''object'')),
     (js ''properties'', JObj [(js ''action'', JObj [(js ''const'', JStr (js ''remember''))]), (js ''content'', JObj [(js ''type'', JStr (js ''string''))])]),
     (js ''required'', JArr [JStr (js ''action''), JStr (js ''content'')])]"

definition memory_schema :: jobj where
  "memory_schema = [(js ''oneOf'', JArr [JObj read_variant, JObj write_variant])]"

definition recall_call :: jobj where
  "recall_call = [(js ''action'', JStr (js ''recall'')), (js ''query'', JStr (js ''q'')), (js ''content'', JNull)]"

theorem nulls_of_other_variants_stay_witness:
  "JStr (js ''content'') \<in> set (elements (sprop (obj_fields (zodToOpenAIStrictToolJsonSchema memory_schema)) ''required''))
    \<and> (js ''content'', JNull) \<in> set (obj_fields (stripNullsFromOptionalFields memory_schema (JObj recall_call)))"
proof (rule nulls_of_other_variants_stay [of _ memory_schema "[read_variant, write_variant]" write_variant _ _ read_variant
      "properties_of read_variant"])
  show "getFlattenableObjectVariants memory_schema = Some [read_variant, write_variant]"
    by (simp add: getFlattenableObjectVariants_def collectObjectVariants_def memory_schema_def getVariantArray_def
        read_variant_def write_variant_def)
  show "selectVariant [read_variant, write_variant] recall_call = read_variant"
    by (simp add: selectVariant_def variantMatchScore_def properties_of_def obj_fields_def better_def js_same_def recall_call_def
        read_variant_def write_variant_def)
qed (simp_all add: memory_schema_def getSchemaVariants_def getVariantArray_def isRecord_def obj_fields_def obj_del_def
    properties_of_def read_variant_def write_variant_def recall_call_def)

theorem flattened_union_admits_every_variant_witness:
  "set (required_of (zodToToolJsonSchema memory_schema)) = {js ''action''}
    \<and> set (obj_keys (properties_of (zodToToolJsonSchema memory_schema))) = {js ''action'', js ''query'', js ''content''}"
proof -
  have "getFlattenableObjectVariants (obj_del memory_schema (js ''$schema'')) = Some [read_variant, write_variant]"
    by (simp add: getFlattenableObjectVariants_def collectObjectVariants_def memory_schema_def getVariantArray_def obj_del_def
        read_variant_def write_variant_def)
  moreover have "required_of read_variant = [js ''action'', js ''query'']" "required_of write_variant = [js ''action'', js ''content'']"
    by (simp_all add: required_of_def string_set_def elements_def List.map_filter_def read_variant_def write_variant_def)
  moreover have "set (obj_keys (properties_of read_variant)) = {js ''action'', js ''query''}"
      "set (obj_keys (properties_of write_variant)) = {js ''action'', js ''content''}"
    by (simp_all add: properties_of_def obj_fields_def read_variant_def write_variant_def)
  ultimately show ?thesis using flattened_union_admits_every_variant by force
qed

end
