(* ===== verification/Tool_Call_Log.thy ===== *)
theory Tool_Call_Log
  imports Tool_Schema Iso_Date
begin

text \<open>
  \<open>src/ops/tool-call-log.ts\<close>: the summary of a call's arguments in the audit log, bounded in size and with the values of
  sensitive keys taken out.
\<close>

definition max_string_length :: nat where
  "max_string_length = 240"

definition max_array_items :: nat where
  "max_array_items = 12"

definition max_object_keys :: nat where
  "max_object_keys = 24"

definition max_depth :: nat where
  "max_depth = 4"

definition sensitive_words :: "jstr list" where
  "sensitive_words = map js [''apikey'', ''api_key'', ''api-key'', ''token'', ''secret'', ''password'', ''passwd'', ''authorization'',
     ''cookie'', ''accesstoken'', ''access_token'', ''access-token'']"

definition sensitive_id_keys :: "jstr list" where
  "sensitive_id_keys = map js [''groupId'', ''userId'', ''peerId'', ''qq'', ''mentionUserId'', ''selfNumber'']"

text \<open>The words are looked for without regard to case; only ASCII letters have a case the pattern knows.\<close>

definition ascii_lower :: "jstr \<Rightarrow> jstr" where
  "ascii_lower s = map (\<lambda>c. if 65 \<le> c \<and> c \<le> 90 then c + 32 else c) s"

definition shouldRedactKey :: "jstr \<Rightarrow> bool" where
  "shouldRedactKey k \<longleftrightarrow> list_ex (\<lambda>w. includes_str w (ascii_lower k)) sensitive_words \<or> k \<in> set sensitive_id_keys"

definition summarizeString :: "jstr \<Rightarrow> jstr" where
  "summarizeString s =
     (if length s \<le> max_string_length then s
      else take max_string_length s @ js ''...[truncated '' @ dec_of_nat (length s - max_string_length) @ js '' chars]'')"

definition redacted :: jv where
  "redacted = JStr (js ''[REDACTED]'')"

text \<open>The empty key is falsy, so it is never redacted.\<close>

fun redacts :: "jstr option \<Rightarrow> bool" where
  "redacts None \<longleftrightarrow> False"
| "redacts (Some k) \<longleftrightarrow> k \<noteq> [] \<and> shouldRedactKey k"

function (sequential) summarizeValue :: "jv \<Rightarrow> nat \<Rightarrow> jstr option \<Rightarrow> jv" where
  "summarizeValue v depth key =
     (if redacts key then redacted
      else (case v of
          JStr s \<Rightarrow> JStr (summarizeString s)
        | JBig i \<Rightarrow> JStr (dec_of_int i)
        | JArr vs \<Rightarrow>
            if max_depth \<le> depth then JStr (js ''[MAX_DEPTH]'')
            else JArr (map (\<lambda>x. summarizeValue x (depth + 1) None) (take max_array_items vs)
              @ (if max_array_items < length vs
                 then [JStr (js ''['' @ dec_of_nat (length vs - max_array_items) @ js '' more]'')] else []))
        | JObj ps \<Rightarrow>
            if max_depth \<le> depth then JStr (js ''[MAX_DEPTH]'')
            else (let out = map (\<lambda>(k, x). (k, summarizeValue x (depth + 1) (Some k))) (take max_object_keys ps) in
                  JObj (if max_object_keys < length ps
                        then obj_put out (js ''__truncatedKeys'') (jint (int (length ps - max_object_keys))) else out))
        | JDate d \<Rightarrow> if max_depth \<le> depth then JStr (js ''[MAX_DEPTH]'') else JObj []
        | _ \<Rightarrow> v))"
  by pat_completeness auto
termination by (relation "measure (\<lambda>(v, d, k). size v)")
  (auto dest!: in_set_takeD dest: jv_list_size jv_member_size)

declare summarizeValue.simps [simp del]

definition summarizeToolArgs :: "jobj \<Rightarrow> jv" where
  "summarizeToolArgs args = summarizeValue (JObj args) 0 None"

section \<open>What a summary shows\<close>

text \<open>The values an object at any depth has under its keys.\<close>

inductive under :: "jstr \<Rightarrow> jv \<Rightarrow> jv \<Rightarrow> bool" where
  under_here: "(k, v) \<in> set ps \<Longrightarrow> under k v (JObj ps)"
| under_obj: "(k', x) \<in> set ps \<Longrightarrow> under k v x \<Longrightarrow> under k v (JObj ps)"
| under_list: "x \<in> set vs \<Longrightarrow> under k v x \<Longrightarrow> under k v (JArr vs)"

inductive_cases under_cases [elim!]: "under k v (JObj ps)" "under k v (JArr vs)" "under k v (JStr s)"
  "under k v JUndef" "under k v JNull" "under k v (JBool b)" "under k v (JNum n)"

lemma obj_put_members: "(k, v) \<in> set (obj_put ob k' v') \<Longrightarrow> (k, v) \<in> set ob \<or> k = k' \<and> v = v'"
proof -
  have "(k, v) \<in> set (put_index ob k' v') \<Longrightarrow> (k, v) \<in> set ob \<or> k = k' \<and> v = v'"
    by (induction ob k' v' rule: put_index.induct) (auto split: if_splits)
  then show "(k, v) \<in> set (obj_put ob k' v') \<Longrightarrow> ?thesis" by (auto simp: obj_put_def split: if_splits)
qed

lemma sensitive_not_truncated: "\<not> shouldRedactKey (js ''__truncatedKeys'')"
  by (simp add: shouldRedactKey_def sensitive_words_def sensitive_id_keys_def ascii_lower_def js_def starts_with_def)

lemma summarize_leaf:
  assumes "\<not> redacts key"
  shows "summarizeValue JUndef d key = JUndef" "summarizeValue JNull d key = JNull" "summarizeValue (JBool b) d key = JBool b"
    "summarizeValue (JNum n) d key = JNum n" "summarizeValue (JStr s) d key = JStr (summarizeString s)"
    "summarizeValue (JBig i) d key = JStr (dec_of_int i)"
    "summarizeValue (JDate t) d key = (if max_depth \<le> d then JStr (js ''[MAX_DEPTH]'') else JObj [])"
  using assms by (simp_all add: summarizeValue.simps)

lemma summary_hides:
  "under k v (summarizeValue x depth key) \<Longrightarrow> k \<noteq> [] \<Longrightarrow> shouldRedactKey k \<Longrightarrow> v = redacted"
proof (induction x depth key rule: summarizeValue.induct)
  case (1 x depth key)
  show ?case
  proof (cases "redacts key")
    case True
    then show ?thesis using 1(3) by (auto simp: summarizeValue.simps [of x] redacted_def)
  next
    case key: False
    show ?thesis
    proof (cases x)
      case (JArr vs)
      then show ?thesis using 1(3) 1(1) [OF key JArr] 1(4,5) key
        by (auto simp: summarizeValue.simps [of "JArr vs"] split: if_splits)
    next
      case (JObj ps)
      show ?thesis
      proof (cases "max_depth \<le> depth")
        case True
        then show ?thesis using 1(3) JObj key by (auto simp: summarizeValue.simps [of "JObj ps"])
      next
        case False
        let ?out = "map (\<lambda>(k, x). (k, summarizeValue x (depth + 1) (Some k))) (take max_object_keys ps)"
        have mem: "\<exists>qs. summarizeValue x depth key = JObj qs \<and> (\<forall>p \<in> set qs. p \<in> set ?out \<or> p = (js ''__truncatedKeys'', snd p) \<and> (\<exists>n. snd p = jint n))"
          using JObj key False by (auto simp: summarizeValue.simps [of "JObj ps"] Let_def dest!: obj_put_members)
        then obtain qs where qs: "summarizeValue x depth key = JObj qs"
            "\<And>p. p \<in> set qs \<Longrightarrow> p \<in> set ?out \<or> p = (js ''__truncatedKeys'', snd p) \<and> (\<exists>n. snd p = jint n)" by blast
        from 1(3) [unfolded qs(1)] show ?thesis
        proof (cases rule: under.cases)
          case under_here
          from qs(2) [OF under_here(1)] show ?thesis
          proof
            assume "(k, v) \<in> set ?out"
            then obtain y where "v = summarizeValue y (depth + 1) (Some k)" by auto
            then show ?thesis using 1(4,5) by (simp add: summarizeValue.simps [of y])
          next
            assume "(k, v) = (js ''__truncatedKeys'', snd (k, v)) \<and> (\<exists>n. snd (k, v) = jint n)"
            then show ?thesis using 1(5) sensitive_not_truncated by simp
          qed
        next
          case (under_obj k' y)
          from qs(2) [OF under_obj(1)] show ?thesis
          proof
            assume "(k', y) \<in> set ?out"
            then obtain z where z: "(k', z) \<in> set (take max_object_keys ps)" "y = summarizeValue z (depth + 1) (Some k')" by auto
            show ?thesis using 1(2) [OF key JObj False z(1) refl] under_obj(2) z(2) 1(4,5) by simp
          next
            assume "(k', y) = (js ''__truncatedKeys'', snd (k', y)) \<and> (\<exists>n. snd (k', y) = jint n)"
            then show ?thesis using under_obj(2) by auto
          qed
        qed
      qed
    qed (use 1(3) key in \<open>auto simp: summarize_leaf split: if_splits\<close>)
  qed
qed

text \<open>C35. No value under a sensitive key reaches the audit log: whatever the arguments, at whatever depth of the summary, what
  stands under a key that names a token, a password or a person is the text [REDACTED].\<close>

theorem sensitive_arguments_redacted:
  assumes "under k v (summarizeToolArgs args)" "k \<noteq> []" "shouldRedactKey k"
  shows "v = redacted"
  using summary_hides assms unfolding summarizeToolArgs_def by blast

definition login_args :: jobj where
  "login_args = [(js ''auth'', JObj [(js ''API_KEY'', JStr (js ''k''))])]"

theorem sensitive_arguments_redacted_witness:
  "\<exists>v. under (js ''API_KEY'') v (summarizeToolArgs login_args) \<and> v = redacted"
proof (rule exI [of _ redacted])
  have key: "shouldRedactKey (js ''API_KEY'')"
    by (simp add: shouldRedactKey_def sensitive_words_def ascii_lower_def js_def starts_with_def)
  have "\<not> shouldRedactKey (js ''auth'')"
    by (simp add: shouldRedactKey_def sensitive_words_def sensitive_id_keys_def ascii_lower_def js_def starts_with_def)
  then have "summarizeToolArgs login_args = JObj [(js ''auth'', JObj [(js ''API_KEY'', redacted)])]"
    using key by (simp add: summarizeToolArgs_def login_args_def summarizeValue.simps max_depth_def max_object_keys_def)
  then have "under (js ''API_KEY'') redacted (summarizeToolArgs login_args)"
    using under_obj [OF _ under_here] by simp
  then show "under (js ''API_KEY'') redacted (summarizeToolArgs login_args) \<and> redacted = redacted"
    using sensitive_arguments_redacted [of "js ''API_KEY''" redacted login_args] key by simp
qed

end
