(* ===== verification/Tool_Executor.thy ===== *)
theory Tool_Executor
  imports Js_Prelude React_Kernel Tool_Call_Log
begin

text \<open>The hints and descriptions of \<open>src/agent/tool.ts\<close> (the hint builders, \<open>createHelpTool\<close> and \<open>createInvokeTool\<close>).\<close>

definition send_image_hint :: jstr where
  "send_image_hint =
     [19981, 23384, 22312] @ js '' send_image'' @ [65307, 21457, 36865, 24050, 26377, 22270, 29255, 26102, 25913, 29992] @
     js '' send_message'' @ [65292, 24182, 25226] @ js '' media:<id> '' @ [25110] @ js '' ephemeral:<hash> '' @ [20256,
     32473] @ js '' imageRef'' @ [12290]"

definition workspace_command_hint :: jstr where
  "workspace_command_hint =
     [19981, 23384, 22312] @ js '' workspace_command'' @ [65307, 21482, 35835, 24037, 20316, 21306, 25110, 20179, 24211,
     26102, 25913, 29992] @ js '' workspace_bash'' @ [65292, 24182, 25552, 20379] @ js '' cwd '' @ [21644] @ js '' command''
     @ [12290]"

definition choose_tool_hint :: jstr where
  "choose_tool_hint =
     [20174] @ js '' availableTools '' @ [36873, 25321, 31934, 30830, 24037, 20855, 21517, 65307, 38656, 35201] @
     js '' deferred '' @ [33021, 21147, 26102, 20808, 29992] @ js '' help describe '' @ [26597, 30475] @ js '' schema'' @
     [65292, 20877, 36890, 36807] @ js '' invoke '' @ [30452, 25509, 35843, 29992, 12290]"

definition no_tools_hint :: jstr where
  "no_tools_hint =
     [24403, 21069, 25191, 34892, 22120, 27809, 26377, 21487, 29992, 24037, 20855, 65307, 19981, 35201, 32487, 32493, 29468,
     27979, 30456, 20284, 24037, 20855, 21517, 12290]"

definition invoke_args_hint :: jstr where
  "invoke_args_hint =
     js ''invoke.args '' @ [24517, 39035, 26159, 21442, 25968, 23545, 35937, 65292, 19981, 35201, 25226, 23427, 25918, 21040,
     39030, 23618, 65292, 20063, 19981, 35201, 20256, 31354, 21442, 25968, 65307, 20363, 22914] @ [32, 123, 34, 116, 111,
     111, 108, 34, 58, 34, 119, 111, 114, 107, 115, 112, 97, 99, 101, 95, 102, 105, 108, 101, 34, 44, 34, 97, 114, 103, 115,
     34, 58, 123, 34, 97, 99, 116, 105, 111, 110, 34, 58, 34, 114, 101, 97, 100, 34, 44, 34, 102, 105, 108, 101, 34, 58, 34,
     110, 111, 116, 101, 115, 47, 101, 120, 97, 109, 112, 108, 101, 46, 109, 100, 34, 125, 125] @ [12290]"

definition workspace_file_hint :: jstr where
  "workspace_file_hint =
     [20808, 29992] @ js '' invoke '' @ [35843, 29992] @ js '' workspace_file read'' @ [65306] @ [123, 34, 116, 111, 111,
     108, 34, 58, 34, 119, 111, 114, 107, 115, 112, 97, 99, 101, 95, 102, 105, 108, 101, 34, 44, 34, 97, 114, 103, 115, 34,
     58, 123, 34, 97, 99, 116, 105, 111, 110, 34, 58, 34, 114, 101, 97, 100, 34, 44, 34, 102, 105, 108, 101, 34, 58, 34, 110,
     111, 116, 101, 115, 47, 101, 120, 97, 109, 112, 108, 101, 46, 109, 100, 34, 125, 125] @ [65307, 20174, 32467, 26524,
     22797, 21046] @ js '' revision'' @ [65292, 20877, 35843, 29992] @ js '' replace'' @ [65306] @ [123, 34, 116, 111, 111,
     108, 34, 58, 34, 119, 111, 114, 107, 115, 112, 97, 99, 101, 95, 102, 105, 108, 101, 34, 44, 34, 97, 114, 103, 115, 34,
     58, 123, 34, 97, 99, 116, 105, 111, 110, 34, 58, 34, 114, 101, 112, 108, 97, 99, 101, 34, 44, 34, 102, 105, 108, 101,
     34, 58, 34, 110, 111, 116, 101, 115, 47, 101, 120, 97, 109, 112, 108, 101, 46, 109, 100, 34, 44, 34, 101, 120, 112, 101,
     99, 116, 101, 100, 82, 101, 118, 105, 115, 105, 111, 110, 34, 58, 34, 60, 114, 101, 97, 100, 32] @ [36820, 22238, 30340]
     @ [32, 114, 101, 118, 105, 115, 105, 111, 110, 62, 34, 44, 34, 111, 108, 100, 84, 101, 120, 116, 34, 58, 34, 60] @
     [21407, 25991, 20013, 21807, 19968, 21305, 37197, 30340, 25991, 26412] @ [62, 34, 44, 34, 110, 101, 119, 84, 101, 120,
     116, 34, 58, 34, 60] @ [26032, 25991, 26412] @ [62, 34, 125, 125] @ [12290] @ js ''args '' @ [24517, 39035, 26159,
     23545, 35937, 12290]"

definition fix_args_hint_1 :: jstr where
  "fix_args_hint_1 =
     [26681, 25454] @ js '' issues '' @ [21644] @ [32]"

definition fix_args_hint_2 :: jstr where
  "fix_args_hint_2 =
     [32] @ [30340, 24403, 21069] @ js '' schema '' @ [20462, 27491, 21442, 25968, 65292, 28982, 21518, 31435, 21363, 37325,
     35797, 21516, 19968, 24037, 20855, 65307, 23383, 27573, 21517, 21644, 21442, 25968, 31867, 22411, 24517, 39035, 31934,
     30830, 21305, 37197, 65292, 19981, 35201, 25913, 29992, 30456, 20284, 20294, 19981, 23384, 22312, 30340, 24037, 20855,
     12290]"

definition list_next :: jstr where
  "list_next =
     [38656, 35201, 26576, 20010, 24037, 20855, 30340, 21442, 25968, 26102, 35843, 29992] @
     js '' help action=describe tool=<tool>; '' @ [28982, 21518] @ js '' invoke tool=<tool> args=<object>.''"

definition describe_next :: jstr where
  "describe_next =
     [38656, 35201, 21442, 25968] @ js '' schema '' @ [26102, 35843, 29992] @ js '' help action=describe tool=<tool>.''"

definition help_description_1 :: jstr where
  "help_description_1 =
     [31283, 23450, 24037, 20855, 24110, 21161, 20837, 21475] @ [46, 32] @ [29992] @ js '' list '' @ [26597, 30475] @
     js '' capability; '' @ [29992] @ js '' describe '' @ [25353, 38656, 26597, 30475, 20869, 37096, 24037, 20855] @
     js '' schema; '' @ [28982, 21518, 36890, 36807] @ js '' invoke '' @ [35843, 29992, 20869, 37096, 24037, 20855] @ [46]"

definition help_description_2 :: jstr where
  "help_description_2 =
     [21487, 29992] @ js '' capability: ''"

definition help_description_3 :: jstr where
  "help_description_3 =
     [39030, 23618] @ js '' tools '' @ [20445, 25345, 31283, 23450, 65292] @ js ''deferred '' @ [24037, 20855, 32487, 32493,
     30001, 21508, 33258] @ js '' schema '' @ [21644] @ js '' policy '' @ [20445, 25252] @ [46]"

definition invoke_description :: jstr where
  "invoke_description =
     [31283, 23450, 20869, 37096, 24037, 20855, 35843, 29992, 20837, 21475] @ [46, 32] @ [20808, 29992] @
     js '' help list/describe '' @ [21457, 29616, 33021, 21147, 21644, 21442, 25968, 65307, 35843, 29992, 20173, 21463,
     30446, 26631, 24037, 20855, 30340] @ js '' schema '' @ [21644] @ js '' policy '' @ [20445, 25252] @ [46]"

definition buildUnknownToolHint :: "jstr \<Rightarrow> jstr list \<Rightarrow> jstr" where
  "buildUnknownToolHint toolName availableTools =
     (if toolName = js ''send_image'' then send_image_hint
      else if toolName = js ''workspace_command'' then workspace_command_hint
      else if availableTools \<noteq> [] then choose_tool_hint else no_tools_hint)"

definition buildInvalidToolArgumentsHint :: "jstr \<Rightarrow> jstr" where
  "buildInvalidToolArgumentsHint toolName =
     (if toolName = js ''invoke'' then invoke_args_hint
      else if toolName = js ''workspace_file'' then workspace_file_hint
      else fix_args_hint_1 @ toolName @ fix_args_hint_2)"

text \<open>
  \<open>src/agent/tool.ts\<close>: the executor of tool calls with its hooks and its audit trail, and the deferred executor, which
  shows a small list of tools and runs the others through \<open>invoke\<close>.  \<open>'w\<close> is the world the tools act on.  What
  zod does with a schema is a parameter of each tool: the JSON schema and the parse of the arguments.
\<close>

section \<open>Tools\<close>

text \<open>An issue of a failed parse is its path and its message.\<close>

type_synonym issues = "(jv \<times> jstr) list"

record 'w tool =
  tl_name :: jstr
  tl_description :: jstr
  tl_schema :: jobj
  tl_safeParse :: "jobj \<Rightarrow> issues + jobj"
  tl_policy :: "(jobj \<Rightarrow> policy_decision) option"
  tl_execute :: "jobj \<Rightarrow> nat \<Rightarrow> 'w \<Rightarrow> (jstr + tool_result) \<times> 'w"

definition conservative_tool_policy :: policy_decision where
  "conservative_tool_policy = \<lparr>po_sideEffect = True, po_parallel = False\<rparr>"

definition classifyToolExecution :: "'w tool option \<Rightarrow> jobj \<Rightarrow> policy_decision" where
  "classifyToolExecution t args =
     (case t of None \<Rightarrow> conservative_tool_policy
      | Some tool \<Rightarrow> (case tl_policy tool of None \<Rightarrow> conservative_tool_policy | Some p \<Rightarrow> p args))"

definition find_tool :: "'w tool list \<Rightarrow> jstr \<Rightarrow> 'w tool option" where
  "find_tool tools name = find (\<lambda>t. tl_name t = name) tools"

section \<open>The audit trail\<close>

datatype trace_mode = TraceAll | TraceSideEffects | TraceOff

record trace_entry =
  te_ts :: jstr
  te_toolCallId :: jstr
  te_toolName :: jstr
  te_roundIndex :: nat
  te_argsSummary :: jv
  te_durationMs :: int
  te_ok :: bool
  te_sideEffect :: bool
  te_error :: "jstr option"

text \<open>The clocks are read from the world, and an entry is appended to it; a failed append is only logged.\<close>

record 'w trace_options =
  tp_mode :: trace_mode
  tp_clockMs :: "'w \<Rightarrow> int"
  tp_now :: "'w \<Rightarrow> int"
  tp_append :: "trace_entry \<Rightarrow> 'w \<Rightarrow> 'w"

definition no_ok :: jstr where
  "no_ok = js ''Tool returned ok=false''"

fun first_some :: "'a option list \<Rightarrow> 'a option" where
  "first_some [] = None"
| "first_some (None # xs) = first_some xs"
| "first_some (Some x # xs) = Some x"

definition classify_object :: "jobj \<Rightarrow> bool \<times> jstr option" where
  "classify_object ps =
     (case obj_get ps (js ''ok'') of
        JBool True \<Rightarrow> (True, None)
      | JBool False \<Rightarrow> (False, Some (case obj_get ps (js ''error'') of JStr e \<Rightarrow> e | _ \<Rightarrow> no_ok))
      | _ \<Rightarrow> (case obj_get ps (js ''error'') of JStr e \<Rightarrow> (False, Some e) | _ \<Rightarrow> (True, None)))"

definition classifyToolResult :: "tool_result \<Rightarrow> jstr option \<Rightarrow> bool \<times> jstr option" where
  "classifyToolResult res forcedError =
     (case truthy_str forcedError of
        Some e \<Rightarrow> (False, Some e)
      | None \<Rightarrow>
          (case tr_outcome res of
             Some out \<Rightarrow> (to_ok out, if to_ok out then None else first_some [to_error out, to_code out, Some no_ok])
           | None \<Rightarrow>
               (case tr_content res of
                  BlockContent _ \<Rightarrow> (True, None)
                | TextContent t \<Rightarrow> (case json_parse t of Some (JObj ps) \<Rightarrow> classify_object ps | _ \<Rightarrow> (True, None)))))"

definition traceToolCall :: "'w trace_options option \<Rightarrow> tool_call \<Rightarrow> nat \<Rightarrow> int \<Rightarrow> tool_result \<Rightarrow> 'w tool option \<Rightarrow> jstr option
    \<Rightarrow> 'w \<Rightarrow> 'w" where
  "traceToolCall trace c roundIndex startedAt res tool forcedError w =
     (case trace of
        None \<Rightarrow> w
      | Some tp \<Rightarrow>
          (let sideEffect = po_sideEffect (classifyToolExecution tool (tc_args c)) in
           if tp_mode tp = TraceOff \<or> tp_mode tp = TraceSideEffects \<and> \<not> sideEffect then w
           else (let (ok, err) = classifyToolResult res forcedError in
             tp_append tp \<lparr>te_ts = formatBeijingIso (tp_now tp w), te_toolCallId = tc_id c, te_toolName = tc_name c,
               te_roundIndex = roundIndex, te_argsSummary = summarizeToolArgs (tc_args c),
               te_durationMs = max 0 (tp_clockMs tp w - startedAt), te_ok = ok, te_sideEffect = sideEffect,
               te_error = truthy_str err\<rparr> w)))"

section \<open>The executor\<close>

type_synonym 'w before_hook = "'w tool \<Rightarrow> tool_call \<Rightarrow> nat \<Rightarrow> 'w \<Rightarrow> (jstr + tool_result option) \<times> 'w"

text \<open>What an after hook throws is only logged, so only its effect on the world counts.\<close>

type_synonym 'w after_hook = "'w tool \<Rightarrow> tool_call \<Rightarrow> nat \<Rightarrow> tool_result \<Rightarrow> 'w \<Rightarrow> 'w"

record 'w executor_options =
  eo_trace :: "'w trace_options option"
  eo_beforeTool :: "'w before_hook list"
  eo_afterTool :: "'w after_hook list"

definition no_options :: "'w executor_options" where
  "no_options = \<lparr>eo_trace = None, eo_beforeTool = [], eo_afterTool = []\<rparr>"

definition failure :: "string \<Rightarrow> jstr \<Rightarrow> bool option \<Rightarrow> jobj \<Rightarrow> tool_result" where
  "failure code err progress extra =
     \<lparr>tr_content = TextContent (stringify (JObj ([(js ''ok'', JBool False), (js ''code'', JStr (js code)), (js ''error'', JStr err)] @ extra))),
      tr_outcome = Some \<lparr>to_ok = False, to_code = Some (js code), to_error = Some err, to_progress = progress,
        to_continuation = None, to_continuationDetail = None, to_noveltyKey = None\<rparr>,
      tr_effects = []\<rparr>"

definition unknown_tool :: "jstr \<Rightarrow> jstr list \<Rightarrow> tool_result" where
  "unknown_tool name available = failure ''unknown_tool'' (js ''Unknown tool: '' @ name) (Some False)
     [(js ''availableTools'', JArr (map JStr available)), (js ''retryable'', JBool (available \<noteq> [])),
      (js ''hint'', JStr (buildUnknownToolHint name available))]"

definition invalid_arguments :: "jstr \<Rightarrow> issues \<Rightarrow> tool_result" where
  "invalid_arguments name found = failure ''invalid_arguments'' (js ''Invalid tool arguments'') (Some False)
     [(js ''issues'', JArr (map (\<lambda>(p, m). JObj [(js ''path'', p), (js ''message'', JStr m)]) found)), (js ''retryable'', JBool True),
      (js ''hint'', JStr (buildInvalidToolArgumentsHint name))]"

fun runBeforeToolHooks :: "'w before_hook list \<Rightarrow> 'w tool \<Rightarrow> tool_call \<Rightarrow> nat \<Rightarrow> 'w \<Rightarrow> tool_result option \<times> 'w" where
  "runBeforeToolHooks [] t c r w = (None, w)"
| "runBeforeToolHooks (h # hs) t c r w =
     (case h t c r w of
        (Inl msg, w') \<Rightarrow> (Some (failure ''hook_failed'' (js ''Tool hook failed: '' @ msg) None []), w')
      | (Inr (Some blocked), w') \<Rightarrow> (Some blocked, w')
      | (Inr None, w') \<Rightarrow> runBeforeToolHooks hs t c r w')"

definition runAfterToolHooks :: "'w after_hook list \<Rightarrow> 'w tool \<Rightarrow> tool_call \<Rightarrow> nat \<Rightarrow> tool_result \<Rightarrow> 'w \<Rightarrow> 'w" where
  "runAfterToolHooks hooks t c r res w = foldl (\<lambda>w h. h t c r res w) w hooks"

definition started_at :: "'w trace_options option \<Rightarrow> 'w \<Rightarrow> int" where
  "started_at trace w = (case trace of None \<Rightarrow> 0 | Some tp \<Rightarrow> tp_clockMs tp w)"

definition normalized_call :: "'w tool \<Rightarrow> tool_call \<Rightarrow> tool_call" where
  "normalized_call t c = c\<lparr>tc_args := obj_fields (stripNullsFromOptionalFields (tl_schema t) (JObj (tc_args c)))\<rparr>"

text \<open>The call of a tool whose arguments are parsed.\<close>

definition run_tool :: "'w executor_options \<Rightarrow> 'w tool \<Rightarrow> tool_call \<Rightarrow> jobj \<Rightarrow> nat \<Rightarrow> int \<Rightarrow> 'w \<Rightarrow> tool_result \<times> 'w" where
  "run_tool opts t c args roundIndex startedAt w =
     (case runBeforeToolHooks (eo_beforeTool opts) t c roundIndex w of
        (Some blocked, w1) \<Rightarrow> (blocked, traceToolCall (eo_trace opts) c roundIndex startedAt blocked (Some t) None w1)
      | (None, w1) \<Rightarrow>
          (case tl_execute t args roundIndex w1 of
             (Inr res, w2) \<Rightarrow>
               (res, traceToolCall (eo_trace opts) c roundIndex startedAt res (Some t) None
                  (runAfterToolHooks (eo_afterTool opts) t c roundIndex res w2))
           | (Inl msg, w2) \<Rightarrow>
               (let err = js ''Tool execution failed: '' @ msg; res = failure ''execution_failed'' err (Some False) [] in
                (res, traceToolCall (eo_trace opts) c roundIndex startedAt res (Some t) (Some err) w2))))"

definition execute_tool :: "'w executor_options \<Rightarrow> 'w tool list \<Rightarrow> tool_call \<Rightarrow> nat \<Rightarrow> 'w \<Rightarrow> tool_result \<times> 'w" where
  "execute_tool opts tools c roundIndex w =
     (let startedAt = started_at (eo_trace opts) w in
      case find_tool tools (tc_name c) of
        None \<Rightarrow>
          (let res = unknown_tool (tc_name c) (map tl_name tools) in
           (res, traceToolCall (eo_trace opts) c roundIndex startedAt res None (Some (js ''Unknown tool: '' @ tc_name c)) w))
      | Some t \<Rightarrow>
          (let nc = normalized_call t c in
           case tl_safeParse t (tc_args nc) of
             Inl found \<Rightarrow>
               (let res = invalid_arguments (tc_name c) found in
                (res, traceToolCall (eo_trace opts) nc roundIndex startedAt res (Some t) (Some (js ''Invalid tool arguments'')) w))
           | Inr args \<Rightarrow> run_tool opts t nc args roundIndex startedAt w))"

fun repeated_name :: "jstr list \<Rightarrow> jstr list \<Rightarrow> jstr option" where
  "repeated_name seen [] = None"
| "repeated_name seen (n # ns) = (if n \<in> set seen then Some n else repeated_name (n # seen) ns)"

record 'w executor =
  xe_list :: "'w tool list"
  xe_classify :: "tool_call \<Rightarrow> policy_decision"
  xe_execute :: "tool_call \<Rightarrow> nat \<Rightarrow> 'w \<Rightarrow> tool_result \<times> 'w"

datatype executor_error = DuplicateToolName jstr | DuplicateCapability jstr

definition createToolExecutor :: "'w executor_options \<Rightarrow> 'w tool list \<Rightarrow> executor_error + 'w executor" where
  "createToolExecutor opts tools =
     (case repeated_name [] (map tl_name tools) of
        Some n \<Rightarrow> Inl (DuplicateToolName n)
      | None \<Rightarrow> Inr \<lparr>xe_list = tools, xe_classify = (\<lambda>c. classifyToolExecution (find_tool tools (tc_name c)) (tc_args c)),
          xe_execute = execute_tool opts tools\<rparr>)"

end
