(* ===== verification/Deferred_Tools.thy ===== *)
theory Deferred_Tools
  imports Tool_Executor
begin

text \<open>
  The deferred executor of \<open>src/agent/tool.ts\<close>: the provider sees the tools that are always on, \<open>help\<close> and
  \<open>invoke\<close>; the tools of the capabilities are run through \<open>invoke\<close>.  The JSON schemas zod writes for the two
  tools and the issues it reports are parameters; what their schemas accept is written out.
\<close>

section \<open>Capabilities\<close>

record 'w capability =
  cb_name :: jstr
  cb_description :: jstr
  cb_tools :: "'w tool list"
  cb_acceptsToolCall :: "(jstr \<Rightarrow> jobj \<Rightarrow> bool) option"

record 'w deferred_options =
  df_options :: "'w executor_options"
  df_alwaysOn :: "'w tool list"
  df_capabilities :: "'w capability list"
  df_helpSchema :: jobj
  df_invokeSchema :: jobj
  df_helpIssues :: "jobj \<Rightarrow> issues"
  df_invokeIssues :: "jobj \<Rightarrow> issues"

type_synonym 'w entries = "(jstr \<times> ('w capability \<times> 'w tool) list) list"

definition add_entry :: "'w capability \<Rightarrow> 'w entries \<Rightarrow> 'w tool \<Rightarrow> 'w entries" where
  "add_entry c es t = AList.update (tl_name t) ((case map_of es (tl_name t) of None \<Rightarrow> [] | Some xs \<Rightarrow> xs) @ [(c, t)]) es"

definition deferred_entries :: "'w capability list \<Rightarrow> 'w entries" where
  "deferred_entries cs = foldl (\<lambda>es c. foldl (add_entry c) es (cb_tools c)) [] cs"

definition entries_for :: "'w capability list \<Rightarrow> jstr \<Rightarrow> ('w capability \<times> 'w tool) list" where
  "entries_for cs name = (case map_of (deferred_entries cs) name of None \<Rightarrow> [] | Some xs \<Rightarrow> xs)"

definition accepts :: "jstr \<Rightarrow> jobj \<Rightarrow> 'w capability \<times> 'w tool \<Rightarrow> bool" where
  "accepts name args = (\<lambda>(c, t). case cb_acceptsToolCall c of None \<Rightarrow> True | Some f \<Rightarrow> f name args)"

section \<open>Help\<close>

text \<open>\<open>z.string().trim().min(1)\<close>, and the same made optional.\<close>

definition parse_text :: "jv \<Rightarrow> jstr option" where
  "parse_text v = (case v of JStr s \<Rightarrow> if trim s = [] then None else Some (trim s) | _ \<Rightarrow> None)"

definition parse_optional_text :: "jv \<Rightarrow> jstr option option" where
  "parse_optional_text v = (if v = JUndef then Some None else map_option Some (parse_text v))"

definition help_parse :: "jobj \<Rightarrow> jobj option" where
  "help_parse args =
     (let a = obj_get args (js ''action'') in
      if a \<noteq> JStr (js ''list'') \<and> a \<noteq> JStr (js ''describe'') then None
      else (case (parse_optional_text (obj_get args (js ''capability'')), parse_optional_text (obj_get args (js ''tool''))) of
              (Some c, Some t) \<Rightarrow>
                if a = JStr (js ''describe'') \<and> c = None \<and> t = None then None
                else Some ([(js ''action'', a)] @ opt_prop ''capability'' JStr c @ opt_prop ''tool'' JStr t)
            | _ \<Rightarrow> None))"

definition text_arg :: "jobj \<Rightarrow> string \<Rightarrow> jstr option" where
  "text_arg args k = (case obj_get args (js k) of JStr s \<Rightarrow> if s = [] then None else Some s | _ \<Rightarrow> None)"

definition plain_result :: "jobj \<Rightarrow> tool_result" where
  "plain_result ps = \<lparr>tr_content = TextContent (stringify (JObj ps)), tr_outcome = None, tr_effects = []\<rparr>"

definition help_list :: "'w capability list \<Rightarrow> tool_result" where
  "help_list cs = plain_result
     [(js ''ok'', JBool True),
      (js ''capabilities'', JArr (map (\<lambda>c. JObj [(js ''name'', JStr (cb_name c)), (js ''description'', JStr (cb_description c)),
         (js ''tools'', JArr (map (\<lambda>t. JStr (tl_name t)) (cb_tools c)))]) cs)),
      (js ''next'', JStr list_next)]"

definition help_entry :: "('w capability \<times> 'w tool) list \<Rightarrow> jstr option \<Rightarrow> 'w capability \<times> 'w tool" where
  "help_entry es cap =
     (case cap of
        None \<Rightarrow> hd es
      | Some n \<Rightarrow> (case find (\<lambda>e. cb_name (fst e) = n) es of Some e \<Rightarrow> e | None \<Rightarrow> hd es))"

definition help_tool :: "'w capability list \<Rightarrow> jstr \<Rightarrow> jstr option \<Rightarrow> tool_result" where
  "help_tool cs name cap =
     (let es = entries_for cs name in
      if es = [] then failure ''unknown_tool'' (js ''unknown deferred tool: '' @ name) None
        [(js ''tools'', JArr (map JStr (map fst (deferred_entries cs))))]
      else (let (c, t) = help_entry es cap in plain_result
        [(js ''ok'', JBool True),
         (js ''tool'', JObj [(js ''name'', JStr (tl_name t)), (js ''description'', JStr (tl_description t)),
            (js ''capability'', JStr (cb_name c)), (js ''capabilities'', JArr (map (\<lambda>e. JStr (cb_name (fst e))) es)),
            (js ''inputSchema'', JObj (zodToToolJsonSchema (tl_schema t)))]),
         (js ''next'', JObj [(js ''tool'', JStr (js ''invoke'')),
            (js ''args'', JObj [(js ''tool'', JStr (tl_name t)), (js ''args'', JObj [])])])]))"

definition help_capability :: "'w capability list \<Rightarrow> jstr option \<Rightarrow> tool_result" where
  "help_capability cs cap =
     (case Option.bind cap (\<lambda>n. find (\<lambda>c. cb_name c = n) cs) of
        None \<Rightarrow> failure ''unknown_capability'' (js ''unknown capability: '' @ (case cap of None \<Rightarrow> [] | Some n \<Rightarrow> n)) None
          [(js ''capabilities'', JArr (map (\<lambda>c. JStr (cb_name c)) cs))]
      | Some c \<Rightarrow> plain_result
          [(js ''ok'', JBool True),
           (js ''capability'', JObj [(js ''name'', JStr (cb_name c)), (js ''description'', JStr (cb_description c)),
              (js ''tools'', JArr (map (\<lambda>t. JObj [(js ''name'', JStr (tl_name t)), (js ''description'', JStr (tl_description t))]) (cb_tools c)))]),
           (js ''next'', JStr describe_next)])"

text \<open>Any other action than the two was refused by the schema.\<close>

definition help_execute :: "'w capability list \<Rightarrow> jobj \<Rightarrow> jstr + tool_result" where
  "help_execute cs args =
     (let a = obj_get args (js ''action'') in
      if a = JStr (js ''list'') then Inr (help_list cs)
      else if a = JStr (js ''describe'')
      then Inr (case text_arg args ''tool'' of
             Some name \<Rightarrow> help_tool cs name (text_arg args ''capability'')
           | None \<Rightarrow> help_capability cs (text_arg args ''capability''))
      else Inl (js ''unsupported help action: ''))"

definition read_only_parallel :: policy_decision where
  "read_only_parallel = \<lparr>po_sideEffect = False, po_parallel = True\<rparr>"

definition read_only_exclusive :: policy_decision where
  "read_only_exclusive = \<lparr>po_sideEffect = False, po_parallel = False\<rparr>"

definition createHelpTool :: "'w deferred_options \<Rightarrow> 'w tool" where
  "createHelpTool d =
     (let cs = df_capabilities d; names = join_with (js '', '') (map cb_name cs) in
      \<lparr>tl_name = js ''help'',
       tl_description = join_with [32] [help_description_1, help_description_2 @ (if names = [] then js ''none'' else names) @ [46],
         help_description_3],
       tl_schema = df_helpSchema d,
       tl_safeParse = (\<lambda>args. case help_parse args of None \<Rightarrow> Inl (df_helpIssues d args) | Some ps \<Rightarrow> Inr ps),
       tl_policy = Some (\<lambda>_. read_only_parallel),
       tl_execute = (\<lambda>args r w. (help_execute cs args, w))\<rparr>)"

section \<open>Invoke\<close>

definition invoke_parse :: "jobj \<Rightarrow> jobj option" where
  "invoke_parse args =
     (case (parse_text (obj_get args (js ''tool'')), obj_get args (js ''args'')) of
        (Some t, JUndef) \<Rightarrow> Some [(js ''tool'', JStr t)]
      | (Some t, JObj a) \<Rightarrow> Some [(js ''tool'', JStr t), (js ''args'', JObj a)]
      | _ \<Rightarrow> None)"

definition createInvokeTool :: "'w deferred_options \<Rightarrow> 'w tool" where
  "createInvokeTool d =
     \<lparr>tl_name = js ''invoke'', tl_description = invoke_description, tl_schema = df_invokeSchema d,
      tl_safeParse = (\<lambda>args. case invoke_parse args of None \<Rightarrow> Inl (df_invokeIssues d args) | Some ps \<Rightarrow> Inr ps),
      tl_policy = Some (\<lambda>_. read_only_exclusive),
      tl_execute = (\<lambda>args r w. (Inr (plain_result [(js ''ok'', JBool True), (js ''tool'', obj_get args (js ''tool''))]), w))\<rparr>"

definition normalizeInvokeToolArgs :: "jobj \<Rightarrow> jobj" where
  "normalizeInvokeToolArgs args =
     (case obj_get args (js ''args'') of
        JStr text \<Rightarrow> (case json_parse text of Some (JObj ps) \<Rightarrow> obj_put args (js ''args'') (JObj ps) | _ \<Rightarrow> args)
      | _ \<Rightarrow> args)"

definition isSuccessfulToolResult :: "tool_result \<Rightarrow> bool" where
  "isSuccessfulToolResult res =
     (case tr_outcome res of
        Some out \<Rightarrow> to_ok out
      | None \<Rightarrow> (case tr_content res of
            BlockContent _ \<Rightarrow> True
          | TextContent t \<Rightarrow> (case json_parse t of
                Some (JObj ps) \<Rightarrow> obj_get ps (js ''ok'') \<noteq> JBool False
              | _ \<Rightarrow> True)))"

definition invoke_name :: "jobj \<Rightarrow> jstr" where
  "invoke_name parsed = (case obj_get parsed (js ''tool'') of JStr t \<Rightarrow> t | _ \<Rightarrow> [])"

definition invoke_args :: "jobj \<Rightarrow> jobj" where
  "invoke_args parsed = obj_fields (obj_get parsed (js ''args''))"

definition eligible_entry :: "jstr \<Rightarrow> jobj \<Rightarrow> ('w capability \<times> 'w tool) list \<Rightarrow> 'w capability \<times> 'w tool" where
  "eligible_entry name args es = (let matching = filter (accepts name args) es in hd (if matching \<noteq> [] then matching else es))"

definition unknown_deferred :: "'w capability list \<Rightarrow> jstr \<Rightarrow> tool_result" where
  "unknown_deferred cs name = failure ''unknown_tool'' (js ''unknown deferred tool: '' @ name) None
     [(js ''tools'', JArr (map JStr (map fst (deferred_entries cs))))]"

definition invoke_target :: "'w deferred_options \<Rightarrow> tool_call \<Rightarrow> jobj \<Rightarrow> nat \<Rightarrow> int \<Rightarrow> tool_call \<Rightarrow> 'w \<Rightarrow> tool_result \<times> 'w" where
  "invoke_target d c parsed roundIndex startedAt nc w =
     (let name = invoke_name parsed; args = invoke_args parsed; es = entries_for (df_capabilities d) name in
      if es = []
      then (let res = unknown_deferred (df_capabilities d) name in
            (res, traceToolCall (eo_trace (df_options d)) nc roundIndex startedAt res (Some (createInvokeTool d)) None w))
      else (let t = snd (eligible_entry name args es) in
            execute_tool (df_options d) [t] \<lparr>tc_id = tc_id c, tc_name = tl_name t, tc_args = args\<rparr> roundIndex w))"

definition executeInvokeToolCall :: "'w deferred_options \<Rightarrow> tool_call \<Rightarrow> nat \<Rightarrow> 'w \<Rightarrow> tool_result \<times> 'w" where
  "executeInvokeToolCall d c roundIndex w =
     (let inv = createInvokeTool d; startedAt = started_at (eo_trace (df_options d)) w;
          nc = normalized_call inv (c\<lparr>tc_args := normalizeInvokeToolArgs (tc_args c)\<rparr>);
          (shell, w1) = execute_tool no_options [inv] nc roundIndex w;
          traced = traceToolCall (eo_trace (df_options d)) nc roundIndex startedAt shell (Some inv) None w1
      in if \<not> isSuccessfulToolResult shell then (shell, traced)
         else (case tl_safeParse inv (tc_args nc) of
                 Inl _ \<Rightarrow> (shell, traced)
               | Inr parsed \<Rightarrow> invoke_target d c parsed roundIndex startedAt nc w1))"

section \<open>The deferred executor\<close>

definition visibleTools :: "'w deferred_options \<Rightarrow> 'w tool list" where
  "visibleTools d = map snd (foldl (\<lambda>m t. AList.update (tl_name t) t m) []
     (df_alwaysOn d @ [createHelpTool d, createInvokeTool d]))"

definition deferred_classify :: "'w deferred_options \<Rightarrow> tool_call \<Rightarrow> policy_decision" where
  "deferred_classify d c =
     (if tc_name c \<noteq> js ''invoke'' then classifyToolExecution (find_tool (visibleTools d) (tc_name c)) (tc_args c)
      else (case tl_safeParse (createInvokeTool d) (normalizeInvokeToolArgs (tc_args c)) of
              Inl _ \<Rightarrow> classifyToolExecution (Some (createInvokeTool d)) (tc_args c)
            | Inr parsed \<Rightarrow>
                (let name = invoke_name parsed; args = invoke_args parsed; es = entries_for (df_capabilities d) name;
                     entry = (case find (accepts name args) es of Some e \<Rightarrow> Some e | None \<Rightarrow> (case es of [] \<Rightarrow> None | e # _ \<Rightarrow> Some e))
                 in classifyToolExecution (Some (case entry of None \<Rightarrow> createInvokeTool d | Some e \<Rightarrow> snd e)) args)))"

definition deferred_execute :: "'w deferred_options \<Rightarrow> tool_call \<Rightarrow> nat \<Rightarrow> 'w \<Rightarrow> tool_result \<times> 'w" where
  "deferred_execute d c roundIndex w =
     (if tc_name c = js ''invoke'' then executeInvokeToolCall d c roundIndex w
      else execute_tool (df_options d) (visibleTools d) c roundIndex w)"

definition createDeferredToolExecutor :: "'w deferred_options \<Rightarrow> executor_error + 'w executor" where
  "createDeferredToolExecutor d =
     (case repeated_name [] (map cb_name (df_capabilities d)) of
        Some n \<Rightarrow> Inl (DuplicateCapability n)
      | None \<Rightarrow> Inr \<lparr>xe_list = visibleTools d, xe_classify = deferred_classify d, xe_execute = deferred_execute d\<rparr>)"

text \<open>A batch of the round on an executor, its calls one after the other.\<close>

fun run_in_order :: "'w executor \<Rightarrow> tool_call list \<Rightarrow> nat \<Rightarrow> 'w \<Rightarrow> (jstr + tool_result) list \<times> 'w" where
  "run_in_order x [] r w = ([], w)"
| "run_in_order x (c # cs) r w = (let (res, w1) = xe_execute x c r w; (rest, w2) = run_in_order x cs r w1 in (Inr res # rest, w2))"

definition ordered_tools :: "'w executor \<Rightarrow> ('w tool, 'w) tool_executor" where
  "ordered_tools x = \<lparr>ex_list = xe_list x, ex_classify = xe_classify x, ex_batch = run_in_order x\<rparr>"

end
