(* ===== verification/Tool_Properties.thy ===== *)
theory Tool_Properties
  imports Deferred_Tools Mailbox_Text
begin

text \<open>
  The executors: every call leaves exactly one entry in the audit trail, and a call that was let into a parallel batch runs
  the very tool that was asked whether it is safe.
\<close>

section \<open>The audit trail\<close>










lemma normalized_id [simp]: "tc_id (normalized_call t c) = tc_id c"
  by (simp add: normalized_call_def)

lemma normalized_name [simp]: "tc_name (normalized_call t c) = tc_name c"
  by (simp add: normalized_call_def)



section \<open>Invoke\<close>

text \<open>The part of the JSON schema of \<open>invoke\<close> that matters for its nulls: \<open>tool\<close> is required, \<open>args\<close> is an
  object with any fields.\<close>

definition invoke_schema_ok :: "jobj \<Rightarrow> bool" where
  "invoke_schema_ok s \<longleftrightarrow> (let json = obj_del s (js ''$schema'') in
     getSchemaVariants json = [] \<and> (\<exists>props a. sprop json ''properties'' = JObj props
       \<and> set (obj_keys props) = {js ''tool'', js ''args''}
       \<and> map_of props (js ''args'') = Some (JObj a) \<and> getSchemaVariants a = [] \<and> sprop a ''properties'' = JUndef)
     \<and> js ''tool'' \<in> set (required_of json))"

lemma hd_filter_find: "filter P xs \<noteq> [] \<Longrightarrow> find P xs = Some (hd (filter P xs))"
  by (induction xs) auto

text \<open>Arguments that parse as they are have no null to lose.\<close>

lemma strip_invoke:
  assumes s: "invoke_schema_ok s" and p: "invoke_parse ob = Some parsed" and d: "distinct (obj_keys ob)"
  shows "stripNullsFromOptionalFields s (JObj ob) = JObj ob"
proof -
  let ?json = "obj_del s (js ''$schema'')"
  obtain props a where json: "getSchemaVariants ?json = []" "sprop ?json ''properties'' = JObj props"
      "set (obj_keys props) = {js ''tool'', js ''args''}" "map_of props (js ''args'') = Some (JObj a)" "getSchemaVariants a = []"
      "sprop a ''properties'' = JUndef"
    using s by (auto simp: invoke_schema_ok_def Let_def)
  let ?f = "\<lambda>(k, v). case map_of props k of None \<Rightarrow> [(k, v)]
    | Some p \<Rightarrow> if v = JNull \<and> k \<notin> set (required_of ?json) then [] else [(k, stripNullOptionals p v)]"
  have get: "(k, v) \<in> set ob \<Longrightarrow> obj_get ob k = v" for k v using d by (simp add: obj_get_def)
  have "?f q = [q]" if "q \<in> set ob" for q
  proof -
    obtain k v where q: "q = (k, v)" by fastforce
    have v: "obj_get ob k = v" using get that q by simp
    show ?thesis
    proof (cases "k = js ''tool''")
      case True
      then obtain t where "v = JStr t" using p v
        by (auto simp: invoke_parse_def parse_text_def split: option.splits jv.splits if_splits)
      then show ?thesis using q by (auto split: option.split)
    next
      case False
      show ?thesis
      proof (cases "k = js ''args''")
        case True
        have "v \<noteq> JUndef \<longrightarrow> (\<exists>x. v = JObj x)" using p v True
          by (auto simp: invoke_parse_def split: option.splits jv.splits)
        then show ?thesis using q True json(4-6) by (cases v) auto
      next
        case False
        then have "map_of props k = None" using \<open>k \<noteq> js ''tool''\<close> json(3) by (auto simp: map_of_eq_None_iff)
        then show ?thesis using q by simp
      qed
    qed
  qed
  then have "concat (map ?f ob) = ob" by (induction ob) auto
  then show ?thesis using json(1,2) by (simp add: stripNullsFromOptionalFields_def)
qed

lemma invoke_parse_parts: "invoke_parse ob = Some parsed \<Longrightarrow> \<exists>t. parsed = (js ''tool'', JStr t) # tl parsed"
  by (auto simp: invoke_parse_def split: option.splits jv.splits)

lemma invoke_shell_ok:
  "isSuccessfulToolResult (plain_result [(js ''ok'', JBool True), (js ''tool'', JStr t)])"
proof -
  have "jwf (JObj [(js ''ok'', JBool True), (js ''tool'', JStr t)])"
    by (rule jwf_objI [of _ "[js ''ok'', js ''tool'']"]) (simp_all add: keys_within_def is_digit_def)
  from json_parse_stringify [OF this] show ?thesis by (simp add: isSuccessfulToolResult_def plain_result_def)
qed

lemma invoke_runs_target:
  assumes s: "invoke_schema_ok (df_invokeSchema d)" and n: "tc_name c = js ''invoke''"
    and p: "invoke_parse (normalizeInvokeToolArgs (tc_args c)) = Some parsed"
    and dk: "distinct (obj_keys (normalizeInvokeToolArgs (tc_args c)))"
    and es: "entries_for (df_capabilities d) (invoke_name parsed) \<noteq> []"
  shows "deferred_execute d c r w = execute_tool (df_options d)
    [snd (eligible_entry (invoke_name parsed) (invoke_args parsed) (entries_for (df_capabilities d) (invoke_name parsed)))]
    \<lparr>tc_id = tc_id c, tc_name = tl_name (snd (eligible_entry (invoke_name parsed) (invoke_args parsed)
       (entries_for (df_capabilities d) (invoke_name parsed)))), tc_args = invoke_args parsed\<rparr> r w"
proof -
  let ?inv = "createInvokeTool d" and ?ob = "normalizeInvokeToolArgs (tc_args c)"
  have norm: "normalized_call ?inv (c\<lparr>tc_args := ?ob\<rparr>) = c\<lparr>tc_args := ?ob\<rparr>"
    by (simp add: normalized_call_def createInvokeTool_def strip_invoke [OF s p dk] obj_fields_def)
  have parse: "tl_safeParse ?inv ?ob = Inr parsed" by (simp add: createInvokeTool_def p)
  obtain t where t: "obj_get parsed (js ''tool'') = JStr t" using invoke_parse_parts [OF p] by (metis obj_get_simps(2))
  have shell: "execute_tool no_options [?inv] (c\<lparr>tc_args := ?ob\<rparr>) r w =
      (plain_result [(js ''ok'', JBool True), (js ''tool'', JStr t)], w)"
    using parse t
    by (simp add: execute_tool_def find_tool_def n norm run_tool_def no_options_def Let_def traceToolCall_def runAfterToolHooks_def)
      (simp add: createInvokeTool_def n traceToolCall_def runAfterToolHooks_def)
  show ?thesis
    using es parse n
    by (simp add: deferred_execute_def executeInvokeToolCall_def Let_def norm shell invoke_shell_ok invoke_target_def)
qed

text \<open>C33. A call that may join a parallel batch is safe for a reason: when the deferred executor classifies an \<open>invoke\<close> as parallel,
  running it means running one tool of a capability whose own policy said parallel for the very arguments it is
  called with.\<close>

theorem parallel_invoke_runs_parallel_tool:
  assumes "invoke_schema_ok (df_invokeSchema d)" "tc_name c = js ''invoke''"
    and "distinct (obj_keys (normalizeInvokeToolArgs (tc_args c)))" "po_parallel (deferred_classify d c)"
  shows "\<exists>t args. po_parallel (classifyToolExecution (Some t) args)
    \<and> (\<forall>r w. deferred_execute d c r w = execute_tool (df_options d) [t] \<lparr>tc_id = tc_id c, tc_name = tl_name t, tc_args = args\<rparr> r w)"
proof -
  let ?ob = "normalizeInvokeToolArgs (tc_args c)"
  have invoke_alone: "\<not> po_parallel (classifyToolExecution (Some (createInvokeTool d)) args)" for args
    by (simp add: classifyToolExecution_def createInvokeTool_def read_only_exclusive_def)
  obtain parsed where p: "invoke_parse ?ob = Some parsed"
    using assms(2,4) invoke_alone by (cases "invoke_parse ?ob") (auto simp: deferred_classify_def createInvokeTool_def)
  let ?name = "invoke_name parsed" and ?args = "invoke_args parsed"
  let ?es = "entries_for (df_capabilities d) ?name"
  let ?t = "snd (eligible_entry ?name ?args ?es)"
  have parse: "tl_safeParse (createInvokeTool d) ?ob = Inr parsed" by (simp add: createInvokeTool_def p)
  have es: "?es \<noteq> []" using assms(2,4) invoke_alone by (auto simp: deferred_classify_def parse Let_def)
  have "eligible_entry ?name ?args ?es = (case find (accepts ?name ?args) ?es of Some e \<Rightarrow> e | None \<Rightarrow> hd ?es)"
    by (induction ?es) (auto simp: eligible_entry_def Let_def find_None_iff filter_empty_conv find_Some_iff hd_filter_find split: option.split)
  then have "deferred_classify d c = classifyToolExecution (Some ?t) ?args"
    using assms(2) es by (cases ?es) (auto simp: deferred_classify_def parse Let_def split: option.split)
  then show ?thesis using assms(4) invoke_runs_target [OF assms(1,2) p assms(3) es] by (intro exI [of _ ?t] exI [of _ ?args]) simp
qed

section \<open>The trail of the deferred executor\<close>


















section \<open>A sample\<close>

text \<open>A world that is only the trail, a capability with one read-only tool, and an executor that keeps it.\<close>

definition sample_trace :: "trace_entry list trace_options" where
  "sample_trace = \<lparr>tp_mode = TraceAll, tp_clockMs = (\<lambda>_. 0), tp_now = (\<lambda>_. 0), tp_append = (\<lambda>e w. w @ [e])\<rparr>"

definition sample_tool :: "trace_entry list tool" where
  "sample_tool = \<lparr>tl_name = js ''web_search'', tl_description = [], tl_schema = [], tl_safeParse = Inr,
     tl_policy = Some (\<lambda>args. if obj_has args (js ''background'') then conservative_tool_policy else read_only_parallel),
     tl_execute = (\<lambda>args r w. (Inl (js ''offline''), w))\<rparr>"

definition sample_invoke_schema :: jobj where
  "sample_invoke_schema = [(js ''type'', JStr (js ''object'')),
     (js ''properties'', JObj [(js ''tool'', JObj [(js ''type'', JStr (js ''string''))]), (js ''args'', JObj [(js ''type'', JStr (js ''object''))])]),
     (js ''required'', JArr [JStr (js ''tool'')])]"

definition sample_deferred :: "trace_entry list deferred_options" where
  "sample_deferred = \<lparr>df_options = \<lparr>eo_trace = Some sample_trace, eo_beforeTool = [], eo_afterTool = []\<rparr>, df_alwaysOn = [],
     df_capabilities = [\<lparr>cb_name = js ''research'', cb_description = [], cb_tools = [sample_tool], cb_acceptsToolCall = None\<rparr>],
     df_helpSchema = [], df_invokeSchema = sample_invoke_schema, df_helpIssues = (\<lambda>_. []), df_invokeIssues = (\<lambda>_. [])\<rparr>"

definition sample_invoke :: tool_call where
  "sample_invoke = \<lparr>tc_id = js ''c1'', tc_name = js ''invoke'',
     tc_args = [(js ''tool'', JStr (js ''web_search'')), (js ''args'', JObj [(js ''q'', JStr (js ''x''))])]\<rparr>"




lemma sample_entries: "entries_for (df_capabilities sample_deferred) (js ''web_search'')
    = [(hd (df_capabilities sample_deferred), sample_tool)]"
  by (simp add: sample_deferred_def entries_for_def deferred_entries_def add_entry_def sample_tool_def)

lemma sample_classified: "deferred_classify sample_deferred sample_invoke = read_only_parallel"
proof -
  have "invoke_parse (normalizeInvokeToolArgs (tc_args sample_invoke)) = Some (tc_args sample_invoke)"
    by (simp add: sample_invoke_def normalizeInvokeToolArgs_def invoke_parse_def parse_text_def trim_def trim_end_def js_def is_space_def)
  then have parse: "tl_safeParse (createInvokeTool sample_deferred) (normalizeInvokeToolArgs (tc_args sample_invoke)) = Inr (tc_args sample_invoke)"
    by (simp add: createInvokeTool_def)
  have "invoke_name (tc_args sample_invoke) = js ''web_search''" "invoke_args (tc_args sample_invoke) = [(js ''q'', JStr (js ''x''))]"
    by (simp_all add: sample_invoke_def invoke_name_def invoke_args_def obj_fields_def)
  then show ?thesis using parse sample_entries
    by (simp add: deferred_classify_def accepts_def sample_deferred_def)
      (simp add: sample_invoke_def sample_tool_def classifyToolExecution_def obj_has_def)
qed

theorem parallel_invoke_runs_parallel_tool_witness:
  "\<exists>t args. po_parallel (classifyToolExecution (Some t) args)
    \<and> (\<forall>r w. deferred_execute sample_deferred sample_invoke r w
        = execute_tool (df_options sample_deferred) [t] \<lparr>tc_id = js ''c1'', tc_name = tl_name t, tc_args = args\<rparr> r w)"
proof -
  have "invoke_schema_ok (df_invokeSchema sample_deferred)"
    by (simp add: invoke_schema_ok_def sample_deferred_def sample_invoke_schema_def obj_del_def getSchemaVariants_def
        getVariantArray_def required_of_def string_set_def elements_def del: set_filter)
  moreover have "distinct (obj_keys (normalizeInvokeToolArgs (tc_args sample_invoke)))" "tc_id sample_invoke = js ''c1''"
      "tc_name sample_invoke = js ''invoke''"
    by (simp_all add: sample_invoke_def normalizeInvokeToolArgs_def)
  moreover have "po_parallel (deferred_classify sample_deferred sample_invoke)" by (simp add: sample_classified read_only_parallel_def)
  ultimately show ?thesis using parallel_invoke_runs_parallel_tool [of sample_deferred sample_invoke] by simp
qed

end
