(* ===== verification/Loop_Texts.thy ===== *)
theory Loop_Texts
  imports Js_Json
begin

text \<open>The prompts and corrections of \<open>src/agent/bot-loop-agent.ts\<close> and the labels of \<open>src/agent/activity-trigger.ts\<close>
  and \<open>src/agent/activity-surface.ts\<close>, letter by letter.\<close>

section \<open>Prompts of the loop\<close>

definition commitments_instruction :: jstr where
  "commitments_instruction =
     [26816, 26597, 26368, 36817, 19978, 19979, 25991, 37324, 24050, 32463, 25215, 35834, 12289, 24320, 22987, 20294,
     23578, 26410, 39564, 35777, 23436, 25104, 30340, 20107, 24773, 65307, 21482, 36873, 25321, 19968, 20010, 20173,
     21487, 25191, 34892, 30340, 20855, 20307, 32570, 21475, 12290]"

definition artifacts_instruction :: jstr where
  "artifacts_instruction =
     [26816, 26597, 24050, 26377] @ js '' Notebook'' @ [12289, 24037, 20316, 25991, 20214, 12289, 20316, 21697,
     25110, 21518, 21488, 32467, 26524, 65307, 20248, 20808, 25913, 36827, 19968, 20010, 24050, 26377, 23545, 35937,
     65292, 19981, 35201, 25209, 37327, 26032, 24314, 30456, 20284, 20869, 23481, 12290]"

definition curiosity_instruction :: jstr where
  "curiosity_instruction =
     [20174, 24403, 21069, 24050, 25480, 26435, 33021, 21147, 37324, 36873, 25321, 19968, 20010, 20855, 20307, 38382,
     39064, 20570, 19968, 27425, 26377, 30028, 25506, 32034, 65307, 24517, 39035, 33021, 33719, 24471, 26032, 35777,
     25454, 25110, 25913, 21464, 21487, 35266, 23519, 29366, 24577, 12290]"

definition text_only_instruction :: jstr where
  "text_only_instruction =
     [19978, 19968, 36718, 21482, 36755, 20986, 20102, 26222, 36890] @ js '' assistant '' @ [25991, 26412, 65307,
     23427, 19981, 20250, 21457, 36865, 32473, 20219, 20309, 20154, 65292, 20063, 19981, 20250, 25191, 34892, 20854,
     20013, 30340, 35745, 21010, 12290, 29616, 22312, 35843, 29992, 19968, 20010, 20855, 20307, 24037, 20855, 65306,
     26377, 26126, 30830, 29301, 24341, 21147, 23601, 25512, 36827, 12289, 20462, 25913, 25110, 21521, 19968, 20010,
     30456, 20851, 23545, 35937, 38382, 20855, 20307, 21453, 39304, 65307, 25442, 39064, 20294, 37325, 22797, 21516,
     19968, 31181, 25209, 37327, 29983, 20135, 20063, 31639, 26426, 26800, 37325, 22797, 12290, 24403, 21069, 26041,
     21521, 24050, 23436, 25104, 21518, 21482, 20570, 19968, 27425, 26377, 30028, 26041, 21521, 25628, 32034, 65292,
     27809, 26377, 30495, 27491, 24819, 20570, 30340, 20107, 26102, 30452, 25509, 35843, 29992] @ js '' rest'' @
     [65292, 24182, 36873, 25321, 19968, 27425, 36275, 22815, 19988, 35802, 23454, 30340, 20241, 24687, 26102, 38271,
     12290]"

definition attention_instruction :: jstr where
  "attention_instruction =
     [20173, 26377, 26410, 22788, 29702, 30340, 39640, 20248, 20808, 32423, 31169, 32842, 12290, 26242, 20572, 24403,
     21069, 26041, 21521, 65292, 20808, 25353] @ js '' notification.open '' @ [35835, 21462, 24182, 22238, 24212,
     65307, 22788, 29702, 21518, 20877, 22238, 21040, 21407, 26041, 21521, 12290]"

definition autonomy_instruction :: jstr where
  "autonomy_instruction =
     [29616, 22312, 24320, 22987, 33258, 20027, 29983, 27963, 12290, 26377, 26126, 30830, 29301, 24341, 21147, 26102,
     25345, 32493, 34892, 21160, 65307, 20316, 21697, 21644, 21028, 26029, 21487, 20197, 32487, 32493, 20462, 25913,
     12289, 20998, 20139, 19968, 20010, 20855, 20307, 38382, 39064, 24182, 22312, 21453, 39304, 21518, 22797, 30424,
     65292, 19981, 25226, 26032, 24314, 20135, 20986, 24403, 25104, 21807, 19968, 36827, 23637, 12290, 24403, 21069,
     26041, 21521, 23436, 25104, 21518, 21482, 20570, 19968, 27425, 26377, 30028, 26041, 21521, 25628, 32034, 65292,
     26377, 30495, 27491, 24819, 20570, 12289, 20540, 24471, 20570, 30340, 19979, 19968, 27493, 23601, 29992, 30495,
     23454, 24037, 20855, 24320, 22987, 12290, 20505, 36873, 37117, 27809, 26377, 21560, 24341, 21147, 12289, 21482,
     26159, 22312, 35777, 26126, 24537, 30860, 25110, 24050, 32463, 26426, 26800, 37325, 22797, 26102, 65292, 19981,
     35201, 24378, 34892, 21046, 36896, 24037, 20316, 65292, 30452, 25509, 35843, 29992] @ js '' rest '' @ [30495,
     27491, 38386, 19979, 26469, 12290]"

definition discovery_instruction :: jstr where
  "discovery_instruction =
     [36825, 26159] @ js '' runtime '' @ [23450, 26102, 20027, 21160, 21796, 37266, 65292, 19981, 26159, 22806,
     37096, 26032, 20219, 21153, 12290, 29616, 22312, 23436, 25104, 19968, 27425, 26377, 30028, 26041, 21521, 25628,
     32034, 65306, 20808, 25353] @ js '' direction '' @ [26816, 26597, 65292, 20877, 36873, 25321, 19968, 20010,
     33021, 20135, 29983, 26032, 35777, 25454, 25110, 25913, 21464, 21487, 35266, 23519, 29366, 24577, 30340, 20855,
     20307, 34892, 21160, 12290, 25506, 32034, 26399, 38388] @ js '' rest '' @ [19981, 21487, 29992, 65307, 19981,
     35201, 29992] @ js '' close'' @ [12289, 37325, 22797, 35835, 21462, 12289, 37325, 22797] @ js '' Schedule '' @
     [25110, 25913, 20889, 29702, 30001, 35777, 26126, 24537, 30860, 12290, 25214, 21040, 30495, 23454, 26041, 21521,
     23601, 31435, 21363, 25512, 36827, 65307, 36830, 32493, 20004, 36718, 20173, 26080, 36827, 23637, 26102] @ js
     '' runtime '' @ [20250, 37325, 26032, 31561, 24453, 19979, 19968, 27425, 21796, 37266, 12290]"

definition OUTPUT_CONTINUATION_PROMPT :: jstr where
  "OUTPUT_CONTINUATION_PROMPT =
     js ''[runtime recovery] '' @ [19978, 19968, 27573] @ js '' assistant '' @ [36755, 20986, 36798, 21040, 38271,
     24230, 19978, 38480, 12290, 35831, 20174, 20013, 26029, 22788, 32487, 32493, 65292, 19981, 35201, 37325, 22797,
     24050, 23436, 25104, 20869, 23481, 65292, 24182, 29992, 19968, 20010, 23436, 25972, 30340, 24037, 20855, 35843,
     29992, 32467, 26463, 26412, 36718, 12290]"

definition rest_instruction :: jstr where
  "rest_instruction =
     [23450, 26102, 33258, 20027, 25506, 32034, 23578, 26410, 32467, 26463, 65292, 26412, 36718, 19981, 33021, 20877,
     27425] @ js '' rest'' @ [12290, 20808, 25353] @ js '' autonomy_discovery_required '' @ [30340] @ js
     '' direction '' @ [20570, 19968, 27425, 20855, 20307, 12289, 26377, 30028, 30340, 26426, 20250, 26816, 26597,
     65307, 19981, 35201, 25913, 20889, 20241, 24687, 29702, 30001, 25110, 21019, 24314] @ js '' Schedule '' @
     [20195, 26367, 12290]"

definition runtime_event :: "string \<Rightarrow> string \<Rightarrow> jstr \<Rightarrow> jstr" where
  "runtime_event event code instruction = stringify (JObj [(js ''event'', JStr (js event)), (js ''code'', JStr (js code)),
     (js ''instruction'', JStr instruction)])"

definition ASSISTANT_TEXT_ONLY_CORRECTION :: jstr where
  "ASSISTANT_TEXT_ONLY_CORRECTION = runtime_event ''runtime_correction'' ''assistant_text_without_tool'' text_only_instruction"

definition ATTENTION_REQUIRED_CORRECTION :: jstr where
  "ATTENTION_REQUIRED_CORRECTION = runtime_event ''runtime_correction'' ''attention_pending'' attention_instruction"

definition CONTINUOUS_AUTONOMY_BOOTSTRAP :: jstr where
  "CONTINUOUS_AUTONOMY_BOOTSTRAP = runtime_event ''runtime_bootstrap'' ''continuous_autonomy_started'' autonomy_instruction"

section \<open>Activity\<close>

definition received_text :: jstr where
  "received_text =
     [25910, 21040, 32]"

definition in_private_text :: jstr where
  "in_private_text =
     [32, 30340, 31169, 32842]"

definition mentioned_in_text :: jstr where
  "mentioned_in_text =
     [32, 20013, 26377, 20154, 25552, 21040, 20102] @ js '' Agent''"

definition has_message_text :: jstr where
  "has_message_text =
     [32, 26377, 28040, 24687]"

definition edited_text :: jstr where
  "edited_text =
     [32534, 36753]"

definition recalled_text :: jstr where
  "recalled_text =
     [25764, 22238]"

definition group_word_text :: jstr where
  "group_word_text =
     [32676, 32]"

definition plan_open_text :: jstr where
  "plan_open_text =
     [35745, 21010, 8220]"

definition plan_due_text :: jstr where
  "plan_due_text =
     [8221, 24050, 21040, 26399]"

definition task_word_text :: jstr where
  "task_word_text =
     [21518, 21488, 20219, 21153, 32]"

definition already_text :: jstr where
  "already_text =
     [32, 24050]"

definition task_done_text :: jstr where
  "task_done_text =
     [23436, 25104]"

definition task_failed_text :: jstr where
  "task_failed_text =
     [22833, 36133]"

definition full_colon_text :: jstr where
  "full_colon_text =
     [65306]"

definition restored_text :: jstr where
  "restored_text =
     [24674, 22797, 20102, 32]"

definition restored_group_text :: jstr where
  "restored_group_text =
     [24674, 22797, 20102, 32676, 32]"

definition of_count_text :: jstr where
  "of_count_text =
     [32, 30340, 32]"

definition pending_notices_text :: jstr where
  "pending_notices_text =
     [32, 26465, 24453, 22788, 29702, 36890, 30693]"

definition pending_private_text :: jstr where
  "pending_private_text =
     [32, 26465, 24453, 22788, 29702, 31169, 32842]"

definition first_start_text :: jstr where
  "first_start_text =
     [39318, 27425, 21551, 21160, 65292, 24320, 22987, 24314, 31435, 33258, 24049, 30340, 21021, 22987, 26041, 21521]"

definition runtime_signal_text :: jstr where
  "runtime_signal_text =
     [25910, 21040, 36816, 34892, 26102, 21796, 37266, 20449, 21495]"

definition executing_text :: jstr where
  "executing_text =
     [27491, 22312, 25191, 34892, 32]"

definition deciding_text :: jstr where
  "deciding_text =
     [27491, 22312, 26681, 25454, 24037, 20855, 32467, 26524, 20915, 23450, 19979, 19968, 27493]"

definition saving_detail :: jstr where
  "saving_detail =
     [27491, 22312, 20445, 23384, 26412, 36718, 32467, 26524]"

definition thinking_detail :: jstr where
  "thinking_detail =
     [27491, 22312, 26681, 25454, 26368, 26032, 19978, 19979, 25991, 20915, 23450, 19979, 19968, 27493]"

definition waiting_detail :: jstr where
  "waiting_detail =
     [24403, 21069, 26041, 21521, 24050, 32467, 26463, 65292, 31561, 24453, 22806, 37096, 20107, 20214, 25110, 19979,
     19968, 27425, 33258, 20027, 25506, 32034]"

definition backoff_detail :: jstr where
  "backoff_detail =
     [22806, 37096, 33021, 21147, 35201, 27714, 30701, 26242, 36864, 36991, 65292, 31561, 24453, 21518, 37325, 35797,
     25110, 20999, 25442, 26041, 21521]"

definition starting_detail :: jstr where
  "starting_detail =
     [20027, 24490, 29615, 27491, 22312, 21551, 21160]"

definition stopped_detail :: jstr where
  "stopped_detail =
     [20027, 24490, 29615, 24050, 20572, 27490]"

definition stopping_detail :: jstr where
  "stopping_detail =
     [27491, 22312, 23433, 20840, 20572, 27490, 20027, 24490, 29615]"

end
