(* ===== verification/Activity_Surface.thy ===== *)
theory Activity_Surface
  imports Tool_Executor Mailbox Iso_Date Loop_Texts
begin

text \<open>
  \<open>src/agent/activity-surface.ts\<close> and \<open>src/agent/activity-trigger.ts\<close>: what the agent shows of what it is doing.
  The surface is checked each time it is published; the timestamp check of the schema library is the parameter
  \<open>isoTime\<close>.  What the writer does with a published surface is not looked at: its failures are only logged.
\<close>

section \<open>The surface\<close>

datatype activity_phase =
    StartingPhase | ThinkingPhase | ToolPhase | CommittingPhase | WaitingPhase | ErrorPhase | StoppingPhase | StoppedPhase

datatype trigger_kind =
    PrivateMessageTrigger | GroupMentionTrigger | ScheduledWakeTrigger | BackgroundTaskTrigger | BootstrapTrigger | ManualWakeTrigger

record activity_trigger =
  av_kind :: trigger_kind
  av_label :: jstr
  av_target :: "conversation_ref option"

record active_tool =
  an_toolCallId :: jstr
  an_toolName :: jstr
  an_roundIndex :: int
  an_startedAt :: jstr
  an_argsSummary :: jv

text \<open>A duration of a start that does not parse is not a number.\<close>

record completed_tool =
  cn_toolCallId :: jstr
  cn_toolName :: jstr
  cn_roundIndex :: int
  cn_at :: jstr
  cn_durationMs :: "int option"
  cn_ok :: bool
  cn_error :: "jstr option"

record activity_surface =
  sf_instanceId :: jstr
  sf_pid :: int
  sf_startedAt :: jstr
  sf_generatedAt :: jstr
  sf_phase :: activity_phase
  sf_phaseStartedAt :: jstr
  sf_roundIndex :: "int option"
  sf_detail :: "jstr option"
  sf_waitUntil :: "jstr option"
  sf_trigger :: "activity_trigger option"
  sf_activeTools :: "active_tool list"
  sf_lastCompleted :: "completed_tool option"

definition label_cap :: nat where
  "label_cap = 500"

definition surface_text_cap :: nat where
  "surface_text_cap = 1000"

definition active_cap :: nat where
  "active_cap = 32"

fun is_json :: "jv \<Rightarrow> bool" where
  "is_json JUndef \<longleftrightarrow> False"
| "is_json JNull \<longleftrightarrow> True"
| "is_json (JBool b) \<longleftrightarrow> True"
| "is_json (JNum n) \<longleftrightarrow> (case n of NInt i \<Rightarrow> True | NFrac i k \<Rightarrow> True | _ \<Rightarrow> False)"
| "is_json (JStr s) \<longleftrightarrow> True"
| "is_json (JArr vs) \<longleftrightarrow> (\<forall>v \<in> set vs. is_json v)"
| "is_json (JObj ps) \<longleftrightarrow> (\<forall>p \<in> set ps. is_json (snd p))"
| "is_json (JBig i) \<longleftrightarrow> False"
| "is_json (JDate d) \<longleftrightarrow> False"

definition opt_all :: "('a \<Rightarrow> bool) \<Rightarrow> 'a option \<Rightarrow> bool" where
  "opt_all p x \<longleftrightarrow> (case x of None \<Rightarrow> True | Some y \<Rightarrow> p y)"

text \<open>\<open>z.number().int().nonnegative()\<close>: safe integers only.\<close>

definition count_value :: "int \<Rightarrow> bool" where
  "count_value i \<longleftrightarrow> 0 \<le> i \<and> safe_int i"

definition target_valid :: "conversation_ref \<Rightarrow> bool" where
  "target_valid c \<longleftrightarrow> accountId c \<noteq> [] \<and> externalId c \<noteq> []"

definition trigger_valid :: "activity_trigger \<Rightarrow> bool" where
  "trigger_valid t \<longleftrightarrow> av_label t \<noteq> [] \<and> length (av_label t) \<le> label_cap \<and> opt_all target_valid (av_target t)"

definition active_valid :: "(jstr \<Rightarrow> bool) \<Rightarrow> active_tool \<Rightarrow> bool" where
  "active_valid isoTime t \<longleftrightarrow> an_toolCallId t \<noteq> [] \<and> an_toolName t \<noteq> [] \<and> count_value (an_roundIndex t)
     \<and> isoTime (an_startedAt t) \<and> is_json (an_argsSummary t)"

definition completed_valid :: "(jstr \<Rightarrow> bool) \<Rightarrow> completed_tool \<Rightarrow> bool" where
  "completed_valid isoTime t \<longleftrightarrow> cn_toolCallId t \<noteq> [] \<and> cn_toolName t \<noteq> [] \<and> count_value (cn_roundIndex t)
     \<and> isoTime (cn_at t) \<and> (case cn_durationMs t of None \<Rightarrow> False | Some d \<Rightarrow> count_value d)
     \<and> opt_all (\<lambda>e. length e \<le> surface_text_cap) (cn_error t)"

definition surface_valid :: "(jstr \<Rightarrow> bool) \<Rightarrow> activity_surface \<Rightarrow> bool" where
  "surface_valid isoTime s \<longleftrightarrow> sf_instanceId s \<noteq> [] \<and> 0 < sf_pid s \<and> safe_int (sf_pid s)
     \<and> isoTime (sf_startedAt s) \<and> isoTime (sf_generatedAt s) \<and> isoTime (sf_phaseStartedAt s)
     \<and> opt_all count_value (sf_roundIndex s) \<and> opt_all (\<lambda>d. length d \<le> surface_text_cap) (sf_detail s)
     \<and> opt_all isoTime (sf_waitUntil s) \<and> opt_all trigger_valid (sf_trigger s)
     \<and> list_all (active_valid isoTime) (sf_activeTools s) \<and> length (sf_activeTools s) \<le> active_cap
     \<and> opt_all (completed_valid isoTime) (sf_lastCompleted s)"

section \<open>The reporter\<close>

text \<open>The surface, and what has been handed to the writer.\<close>

record activity_reporter =
  ar_surface :: activity_surface
  ar_written :: "activity_surface list"

datatype surface_error = SurfaceInvalid

definition publish :: "(jstr \<Rightarrow> bool) \<Rightarrow> activity_reporter \<Rightarrow> (surface_error + unit) \<times> activity_reporter" where
  "publish isoTime r =
     (if surface_valid isoTime (ar_surface r) then (Inr (), r\<lparr>ar_written := ar_written r @ [ar_surface r]\<rparr>)
      else (Inl SurfaceInvalid, r))"

definition createAgentActivityReporter ::
  "(jstr \<Rightarrow> bool) \<Rightarrow> jstr \<Rightarrow> int \<Rightarrow> int \<Rightarrow> (surface_error + unit) \<times> activity_reporter" where
  "createAgentActivityReporter isoTime instanceId pid now =
     (let at = to_iso_string now in
      publish isoTime \<lparr>ar_surface = \<lparr>sf_instanceId = instanceId, sf_pid = pid, sf_startedAt = at, sf_generatedAt = at,
        sf_phase = StartingPhase, sf_phaseStartedAt = at, sf_roundIndex = None, sf_detail = None, sf_waitUntil = None,
        sf_trigger = None, sf_activeTools = [], sf_lastCompleted = None\<rparr>, ar_written = []\<rparr>)"

text \<open>Every operation changes the surface first and publishes it then; when the check refuses it, the change stays.\<close>

definition with_surface :: "(jstr \<Rightarrow> bool) \<Rightarrow> (activity_surface \<Rightarrow> activity_surface) \<Rightarrow> activity_reporter
    \<Rightarrow> (surface_error + unit) \<times> activity_reporter" where
  "with_surface isoTime f r = publish isoTime (r\<lparr>ar_surface := f (ar_surface r)\<rparr>)"

definition setTrigger :: "(jstr \<Rightarrow> bool) \<Rightarrow> int \<Rightarrow> activity_trigger option \<Rightarrow> activity_reporter
    \<Rightarrow> (surface_error + unit) \<times> activity_reporter" where
  "setTrigger isoTime now t = with_surface isoTime (\<lambda>s. s\<lparr>sf_trigger := t, sf_generatedAt := to_iso_string now\<rparr>)"

text \<open>\<open>pi_roundIndex\<close> is \<open>None\<close> when the caller leaves it out.\<close>

record phase_input =
  pi_phase :: activity_phase
  pi_roundIndex :: "int option option"
  pi_detail :: "jstr option"
  pi_waitUntil :: "jstr option"

definition setPhase :: "(jstr \<Rightarrow> bool) \<Rightarrow> int \<Rightarrow> phase_input \<Rightarrow> activity_reporter \<Rightarrow> (surface_error + unit) \<times> activity_reporter" where
  "setPhase isoTime now i = with_surface isoTime (\<lambda>s. let at = to_iso_string now in
     s\<lparr>sf_phase := pi_phase i, sf_phaseStartedAt := (if pi_phase i = sf_phase s then sf_phaseStartedAt s else at),
       sf_generatedAt := at, sf_roundIndex := (case pi_roundIndex i of None \<Rightarrow> sf_roundIndex s | Some r \<Rightarrow> r),
       sf_detail := pi_detail i, sf_waitUntil := pi_waitUntil i\<rparr>)"

text \<open>The check of the arguments comes before the change.\<close>

definition toolStarted :: "(jstr \<Rightarrow> bool) \<Rightarrow> int \<Rightarrow> jstr \<Rightarrow> jstr \<Rightarrow> int \<Rightarrow> jv \<Rightarrow> activity_reporter
    \<Rightarrow> (surface_error + unit) \<times> activity_reporter" where
  "toolStarted isoTime now callId toolName roundIndex argsSummary r =
     (if \<not> is_json argsSummary then (Inl SurfaceInvalid, r)
      else with_surface isoTime (\<lambda>s. let at = to_iso_string now in
        s\<lparr>sf_generatedAt := at, sf_phase := ToolPhase,
          sf_phaseStartedAt := (if sf_activeTools s = [] then at else sf_phaseStartedAt s),
          sf_roundIndex := Some roundIndex, sf_detail := Some (executing_text @ toolName), sf_waitUntil := None,
          sf_activeTools := filter (\<lambda>t. an_toolCallId t \<noteq> callId) (sf_activeTools s)
            @ [\<lparr>an_toolCallId = callId, an_toolName = toolName, an_roundIndex = roundIndex, an_startedAt = at,
                an_argsSummary = argsSummary\<rparr>]\<rparr>) r)"

definition finish_tool :: "int \<Rightarrow> jstr \<Rightarrow> bool \<Rightarrow> jstr option \<Rightarrow> activity_surface \<Rightarrow> activity_surface" where
  "finish_tool now callId ok err s =
     (let at = to_iso_string now; completed = find (\<lambda>t. an_toolCallId t = callId) (sf_activeTools s);
          active = filter (\<lambda>t. an_toolCallId t \<noteq> callId) (sf_activeTools s); busy = (active \<noteq> []) in
      s\<lparr>sf_generatedAt := at, sf_phase := (if busy then ToolPhase else ThinkingPhase),
        sf_phaseStartedAt := (if busy then sf_phaseStartedAt s else at),
        sf_detail := (if busy then sf_detail s else Some deciding_text),
        sf_waitUntil := (if busy then sf_waitUntil s else None),
        sf_activeTools := active,
        sf_lastCompleted := (case completed of
            None \<Rightarrow> sf_lastCompleted s
          | Some t \<Rightarrow> Some \<lparr>cn_toolCallId = an_toolCallId t, cn_toolName = an_toolName t, cn_roundIndex = an_roundIndex t, cn_at = at,
              cn_durationMs = map_option (\<lambda>b. max 0 (now - b)) (date_parse (an_startedAt t)), cn_ok = ok,
              cn_error = map_option (take surface_text_cap) err\<rparr>)\<rparr>)"

definition toolFinished :: "(jstr \<Rightarrow> bool) \<Rightarrow> int \<Rightarrow> jstr \<Rightarrow> bool \<Rightarrow> jstr option \<Rightarrow> activity_reporter
    \<Rightarrow> (surface_error + unit) \<times> activity_reporter" where
  "toolFinished isoTime now callId ok err = with_surface isoTime (finish_tool now callId ok err)"

text \<open>The operations of the reporter, as any part of the program may call them.\<close>

datatype report =
    ReportTrigger int "activity_trigger option"
  | ReportPhase int phase_input
  | ReportStart int jstr jstr int jv
  | ReportFinish int jstr bool "jstr option"

fun run_report :: "(jstr \<Rightarrow> bool) \<Rightarrow> report \<Rightarrow> activity_reporter \<Rightarrow> (surface_error + unit) \<times> activity_reporter" where
  "run_report isoTime (ReportTrigger now t) = setTrigger isoTime now t"
| "run_report isoTime (ReportPhase now i) = setPhase isoTime now i"
| "run_report isoTime (ReportStart now i n k args) = toolStarted isoTime now i n k args"
| "run_report isoTime (ReportFinish now i ok err) = toolFinished isoTime now i ok err"

section \<open>The tracked executor\<close>

definition effectiveToolName :: "tool_call \<Rightarrow> jstr" where
  "effectiveToolName c =
     (if tc_name c = js ''invoke'' then (case obj_get (tc_args c) (js ''tool'') of
          JStr t \<Rightarrow> if trim t \<noteq> [] then trim t else tc_name c | _ \<Rightarrow> tc_name c)
      else tc_name c)"

definition effectiveToolArgs :: "tool_call \<Rightarrow> jobj" where
  "effectiveToolArgs c =
     (if tc_name c = js ''invoke'' then (case obj_get (tc_args c) (js ''args'') of JObj ps \<Rightarrow> ps | _ \<Rightarrow> tc_args c) else tc_args c)"

definition classifyResult :: "tool_result \<Rightarrow> bool \<times> jstr option" where
  "classifyResult res =
     (case tr_outcome res of
        Some out \<Rightarrow> (if to_ok out then (True, None) else (False, truthy_str (to_error out)))
      | None \<Rightarrow> (case tr_content res of
          BlockContent _ \<Rightarrow> (True, None)
        | TextContent t \<Rightarrow> (case json_parse t of
            Some (JObj ps) \<Rightarrow>
              if obj_get ps (js ''ok'') = JBool False
              then (False, case obj_get ps (js ''error'') of JStr e \<Rightarrow> Some e | _ \<Rightarrow> None) else (True, None)
          | _ \<Rightarrow> (True, None))))"

text \<open>\<open>clk\<close> is the clock and \<open>zodText\<close> the message of what the schema library throws; a throw of \<open>toolFinished\<close> after the tool has returned is caught and reported again.\<close>

definition tracked_execute :: "(jstr \<Rightarrow> bool) \<Rightarrow> jstr \<Rightarrow> ('w \<Rightarrow> int) \<Rightarrow> (tool_call \<Rightarrow> nat \<Rightarrow> 'w \<Rightarrow> (jstr + tool_result) \<times> 'w)
    \<Rightarrow> tool_call \<Rightarrow> nat \<Rightarrow> 'w \<times> activity_reporter \<Rightarrow> (jstr + tool_result) \<times> 'w \<times> activity_reporter" where
  "tracked_execute isoTime zodText clk execute c roundIndex = (\<lambda>(w, r).
     case toolStarted isoTime (clk w) (tc_id c) (effectiveToolName c) (int roundIndex) (summarizeToolArgs (effectiveToolArgs c)) r of
       (Inl _, r1) \<Rightarrow> (Inl zodText, w, r1)
     | (Inr _, r1) \<Rightarrow>
         (let (outcome, w1) = execute c roundIndex w;
              again = (\<lambda>msg r2. (Inl msg, w1, snd (toolFinished isoTime (clk w1) (tc_id c) False (Some msg) r2))) in
          case outcome of
            Inl msg \<Rightarrow> (case toolFinished isoTime (clk w1) (tc_id c) False (Some msg) r1 of
                (Inl _, r2) \<Rightarrow> (Inl zodText, w1, r2)
              | (Inr _, r2) \<Rightarrow> (Inl msg, w1, r2))
          | Inr res \<Rightarrow> (let (ok, err) = classifyResult res in
              case toolFinished isoTime (clk w1) (tc_id c) ok err r1 of
                (Inr _, r2) \<Rightarrow> (Inr res, w1, r2)
              | (Inl _, r2) \<Rightarrow> again zodText r2)))"

section \<open>Triggers\<close>

definition name_or :: "jstr option \<Rightarrow> jstr \<Rightarrow> jstr" where
  "name_or name fallback = or_else (truthy_str name) fallback"

definition edit_text :: "message_fact_kind \<Rightarrow> jstr" where
  "edit_text k = (if k = EditFact then edited_text else recalled_text)"

fun chat_trigger :: "mailbox_message \<Rightarrow> activity_trigger option" where
  "chat_trigger (ChatMessage m) =
     (if ckind (cm_conversation m) = PrivateChat
      then Some \<lparr>av_kind = PrivateMessageTrigger,
        av_label = received_text @ name_or (Some (cm_senderName m)) (cm_senderExternalId m) @ in_private_text,
        av_target = Some (cm_conversation m)\<rparr>
      else if cm_mentionedSelf m \<or> cm_eventKind m \<noteq> MessageFact
      then Some \<lparr>av_kind = GroupMentionTrigger,
        av_label = name_or (cm_conversationName m) (externalId (cm_conversation m))
          @ (if cm_mentionedSelf m then mentioned_in_text else has_message_text @ edit_text (cm_eventKind m)),
        av_target = Some (cm_conversation m)\<rparr>
      else None)"
| "chat_trigger (NapcatPrivateMessage m) =
     Some \<lparr>av_kind = PrivateMessageTrigger,
       av_label = received_text @ name_or (Some (pm_senderNickname m)) (dec_of_int (pm_peerId m)) @ in_private_text, av_target = None\<rparr>"
| "chat_trigger (NapcatMessage m) =
     (if gm_mentionedSelf m
      then Some \<lparr>av_kind = GroupMentionTrigger,
        av_label = group_word_text @ name_or (gm_groupName m) (dec_of_int (gm_groupId m)) @ mentioned_in_text, av_target = None\<rparr>
      else None)"

fun backlog_trigger :: "backlog_source \<Rightarrow> int \<Rightarrow> activity_trigger" where
  "backlog_trigger (ConversationSource c n s) count =
     \<lparr>av_kind = (if ckind c = GroupChat then GroupMentionTrigger else PrivateMessageTrigger),
      av_label = restored_text @ name_or n (externalId c) @ of_count_text @ dec_of_int count @ pending_notices_text,
      av_target = Some c\<rparr>"
| "backlog_trigger (GroupSource g n) count =
     \<lparr>av_kind = GroupMentionTrigger,
      av_label = restored_group_text @ name_or n (dec_of_int g) @ of_count_text @ dec_of_int count @ pending_notices_text,
      av_target = None\<rparr>"
| "backlog_trigger (PrivateSource p n) count =
     \<lparr>av_kind = PrivateMessageTrigger, av_label = restored_text @ n @ of_count_text @ dec_of_int count @ pending_private_text,
      av_target = None\<rparr>"

fun event_trigger :: "bot_event \<Rightarrow> activity_trigger option" where
  "event_trigger (MessageEvent m) = chat_trigger m"
| "event_trigger (ScheduledWake i n t) =
     Some \<lparr>av_kind = ScheduledWakeTrigger, av_label = take label_cap (plan_open_text @ n @ plan_due_text), av_target = None\<rparr>"
| "event_trigger (BackgroundTaskCompleted i tool d ms ok s) =
     Some \<lparr>av_kind = BackgroundTaskTrigger,
       av_label = take label_cap (task_word_text @ tool @ already_text @ (if ok then task_done_text else task_failed_text)
         @ full_colon_text @ d),
       av_target = None\<rparr>"
| "event_trigger (MailboxBacklog b) = Some (backlog_trigger (mb_source b) (mb_count b))"
| "event_trigger Bootstrap = Some \<lparr>av_kind = BootstrapTrigger, av_label = first_start_text, av_target = None\<rparr>"
| "event_trigger Wake = Some \<lparr>av_kind = ManualWakeTrigger, av_label = runtime_signal_text, av_target = None\<rparr>"

fun describeActivityTrigger :: "bot_event list \<Rightarrow> activity_trigger option" where
  "describeActivityTrigger [] = None"
| "describeActivityTrigger (e # es) = (case event_trigger e of None \<Rightarrow> describeActivityTrigger es | Some t \<Rightarrow> Some t)"

text \<open>
  What the surface shows of a call, and what becomes of the reporter when a report is refused.
\<close>

section \<open>Calls\<close>

lemma filter_snoc_id: "filter (\<lambda>t. an_toolCallId t \<noteq> i) (filter (\<lambda>t. an_toolCallId t \<noteq> i) ts @ [t])
    = filter (\<lambda>t. an_toolCallId t \<noteq> i) ts" if "an_toolCallId t = i"
  using that by simp

lemma find_append: "find p (xs @ ys) = (case find p xs of None \<Rightarrow> find p ys | Some x \<Rightarrow> Some x)"
  by (induction xs) auto

lemma find_started: "find (\<lambda>t. an_toolCallId t = i) (filter (\<lambda>t. an_toolCallId t \<noteq> i) ts @ [t]) = Some t" if "an_toolCallId t = i"
proof -
  have "find (\<lambda>t. an_toolCallId t = i) (filter (\<lambda>t. an_toolCallId t \<noteq> i) ts) = None" by (induction ts) auto
  then show ?thesis using that by (simp add: find_append)
qed

text \<open>A start that was accepted: the tool stands last among the active ones, and the surface is valid.\<close>

lemma toolStarted_accepted:
  assumes "toolStarted isoTime now i n k args r = (Inr u, r1)"
  shows "is_json args" "surface_valid isoTime (ar_surface r1)"
    "sf_activeTools (ar_surface r1) = filter (\<lambda>t. an_toolCallId t \<noteq> i) (sf_activeTools (ar_surface r))
       @ [\<lparr>an_toolCallId = i, an_toolName = n, an_roundIndex = k, an_startedAt = to_iso_string now, an_argsSummary = args\<rparr>]"
  using assms by (auto simp: toolStarted_def with_surface_def publish_def Let_def split: if_splits)

lemma opt_all_simps [simp]: "opt_all p None" "opt_all p (Some x) \<longleftrightarrow> p x"
  by (simp_all add: opt_all_def)

lemma deciding_short: "length deciding_text \<le> surface_text_cap"
  by (simp add: deciding_text_def surface_text_cap_def)

lemma finish_valid:
  assumes valid: "surface_valid isoTime s" and act: "sf_activeTools s = ts @ [t]" "an_toolCallId t = i" "filter (\<lambda>t. an_toolCallId t \<noteq> i) ts = ts"
    and t: "an_startedAt t = to_iso_string start" "printable_time start" "start \<le> now" "now - start \<le> max_safe"
    and iso: "isoTime (to_iso_string now)"
  shows "surface_valid isoTime (finish_tool now i ok err s)"
proof -
  have f: "find (\<lambda>t. an_toolCallId t = i) (ts @ [t]) = Some t" using find_started [of t i ts] act by simp
  have d: "date_parse (an_startedAt t) = Some start" using date_parse_iso_string [OF t(2)] t(1) by simp
  have "active_valid isoTime t" using valid act(1) by (simp add: surface_valid_def)
  then have "completed_valid isoTime \<lparr>cn_toolCallId = an_toolCallId t, cn_toolName = an_toolName t, cn_roundIndex = an_roundIndex t,
      cn_at = to_iso_string now, cn_durationMs = Some (max 0 (now - start)), cn_ok = ok, cn_error = map_option (take surface_text_cap) err\<rparr>"
    using t(3,4) iso by (cases err) (auto simp: completed_valid_def active_valid_def count_value_def safe_int_def max_safe_def)
  then show ?thesis
    using valid act iso deciding_short f d by (simp add: surface_valid_def finish_tool_def Let_def)
qed

text \<open>A call whose start was accepted is reported in full: the tool runs, the caller gets what it gave or threw, it is no
  longer among the active tools, and the surface shows it as the last one completed, with the verdict on its
  result and the time it took.\<close>

theorem tracked_call_reported:
  assumes "toolStarted isoTime (clk w) (tc_id c) (effectiveToolName c) (int k) (summarizeToolArgs (effectiveToolArgs c)) r = (Inr u, r1)"
    and "execute c k w = (outcome, w1)" "printable_time (clk w)" "clk w \<le> clk w1" "clk w1 - clk w \<le> max_safe"
    and "isoTime (to_iso_string (clk w1))"
  shows "\<exists>r2 last. tracked_execute isoTime zodText clk execute c k (w, r) = (outcome, w1, r2)
    \<and> sf_activeTools (ar_surface r2) = filter (\<lambda>t. an_toolCallId t \<noteq> tc_id c) (sf_activeTools (ar_surface r))
    \<and> sf_lastCompleted (ar_surface r2) = Some last \<and> cn_toolCallId last = tc_id c \<and> cn_durationMs last = Some (clk w1 - clk w)
    \<and> (cn_ok last \<longleftrightarrow> (\<exists>res. outcome = Inr res \<and> fst (classifyResult res)))
    \<and> ar_written r2 = ar_written r1 @ [ar_surface r2]"
proof -
  note st = toolStarted_accepted [OF assms(1)]
  let ?ts = "filter (\<lambda>t. an_toolCallId t \<noteq> tc_id c) (sf_activeTools (ar_surface r))"
  obtain t where t: "sf_activeTools (ar_surface r1) = ?ts @ [t]" "an_toolCallId t = tc_id c" "an_startedAt t = to_iso_string (clk w)"
    using st(3) by auto
  have p: "date_parse (an_startedAt t) = Some (clk w)" using date_parse_iso_string [OF assms(3)] t(3) by simp
  have fin: "\<exists>r2. toolFinished isoTime (clk w1) (tc_id c) ok err r1 = (Inr (), r2)
      \<and> ar_surface r2 = finish_tool (clk w1) (tc_id c) ok err (ar_surface r1) \<and> ar_written r2 = ar_written r1 @ [ar_surface r2]" for ok err
    using finish_valid [OF st(2) t(1,2) _ t(3) assms(3-5) assms(6), of ok err]
    by (simp add: toolFinished_def with_surface_def publish_def)
  have shown: "sf_activeTools (finish_tool (clk w1) (tc_id c) ok err (ar_surface r1)) = ?ts"
      "\<exists>last. sf_lastCompleted (finish_tool (clk w1) (tc_id c) ok err (ar_surface r1)) = Some last \<and> cn_toolCallId last = tc_id c
        \<and> cn_durationMs last = Some (clk w1 - clk w) \<and> cn_ok last = ok" for ok err
    using t p find_started [of t "tc_id c" "sf_activeTools (ar_surface r)"] assms(4) by (simp_all add: finish_tool_def Let_def)
  show ?thesis
  proof (cases outcome)
    case (Inl msg)
    obtain r2 where r2: "toolFinished isoTime (clk w1) (tc_id c) False (Some msg) r1 = (Inr (), r2)"
        "ar_surface r2 = finish_tool (clk w1) (tc_id c) False (Some msg) (ar_surface r1)" "ar_written r2 = ar_written r1 @ [ar_surface r2]"
      using fin by blast
    then have "tracked_execute isoTime zodText clk execute c k (w, r) = (outcome, w1, r2)"
      using assms(1,2) Inl by (simp add: tracked_execute_def)
    then show ?thesis using r2 shown [of False "Some msg"] Inl by auto
  next
    case (Inr res)
    obtain ok err where ce: "classifyResult res = (ok, err)" by fastforce
    obtain r2 where r2: "toolFinished isoTime (clk w1) (tc_id c) ok err r1 = (Inr (), r2)"
        "ar_surface r2 = finish_tool (clk w1) (tc_id c) ok err (ar_surface r1)" "ar_written r2 = ar_written r1 @ [ar_surface r2]"
      using fin by blast
    then have "tracked_execute isoTime zodText clk execute c k (w, r) = (outcome, w1, r2)"
      using assms(1,2) Inr ce by (simp add: tracked_execute_def)
    then show ?thesis using r2 shown [of ok err] Inr ce by auto
  qed
qed

section \<open>Refused reports\<close>

fun about_call :: "jstr \<Rightarrow> report \<Rightarrow> bool" where
  "about_call i (ReportStart now j n k args) \<longleftrightarrow> j = i"
| "about_call i (ReportFinish now j ok err) \<longleftrightarrow> j = i"
| "about_call i _ \<longleftrightarrow> False"

fun run_reports :: "(jstr \<Rightarrow> bool) \<Rightarrow> report list \<Rightarrow> activity_reporter \<Rightarrow> (surface_error + unit) list \<times> activity_reporter" where
  "run_reports isoTime [] r = ([], r)"
| "run_reports isoTime (x # xs) r =
     (let (res, r1) = run_report isoTime x r; (rest, r2) = run_reports isoTime xs r1 in (res # rest, r2))"

text \<open>A nameless tool among the active ones.\<close>

definition nameless_active :: "jstr \<Rightarrow> activity_reporter \<Rightarrow> bool" where
  "nameless_active i r \<longleftrightarrow> (\<exists>t \<in> set (sf_activeTools (ar_surface r)). an_toolCallId t = i \<and> an_toolName t = [])"

lemma nameless_refused:
  assumes "nameless_active i r" "\<And>t. t \<in> set (sf_activeTools (ar_surface r)) \<Longrightarrow> an_toolCallId t = i \<Longrightarrow> t \<in> set (sf_activeTools (f (ar_surface r)))"
  shows "\<exists>r'. with_surface isoTime f r = (Inl SurfaceInvalid, r') \<and> nameless_active i r'"
proof -
  obtain t where t: "t \<in> set (sf_activeTools (f (ar_surface r)))" "an_toolCallId t = i" "an_toolName t = []"
    using assms by (auto simp: nameless_active_def)
  then have "\<not> surface_valid isoTime (f (ar_surface r))"
    by (auto simp: surface_valid_def active_valid_def list_all_iff)
  then show ?thesis using t by (auto simp: with_surface_def publish_def nameless_active_def)
qed

lemma report_refused:
  assumes "nameless_active i r" "\<not> about_call i x"
  shows "\<exists>r'. run_report isoTime x r = (Inl SurfaceInvalid, r') \<and> nameless_active i r'"
proof (cases x)
  case (ReportStart now j n k args)
  then show ?thesis using assms
    by (cases "is_json args") (auto simp: toolStarted_def Let_def intro!: nameless_refused)
qed (use assms in \<open>auto simp: setTrigger_def setPhase_def toolFinished_def finish_tool_def Let_def intro!: nameless_refused\<close>)

lemma reports_refused:
  assumes "nameless_active i r" "list_all (\<lambda>x. \<not> about_call i x) xs"
  shows "fst (run_reports isoTime xs r) = replicate (length xs) (Inl SurfaceInvalid)"
  using assms
proof (induction xs arbitrary: r)
  case (Cons x xs)
  obtain r' where "run_report isoTime x r = (Inl SurfaceInvalid, r')" "nameless_active i r'" using report_refused [of i r x] Cons.prems by auto
  then show ?case using Cons.IH [of r'] Cons.prems(2) by (simp add: split_beta)
qed simp

lemma nameless_call_stays:
  assumes "effectiveToolName c = []" "is_json (summarizeToolArgs (effectiveToolArgs c))"
  shows "\<exists>r1. tracked_execute isoTime zodText clk execute c k (w, r) = (Inl zodText, w, r1) \<and> nameless_active (tc_id c) r1"
proof -
  obtain s where s: "toolStarted isoTime (clk w) (tc_id c) (effectiveToolName c) (int k) (summarizeToolArgs (effectiveToolArgs c)) r
      = publish isoTime (r\<lparr>ar_surface := s\<rparr>)" "\<exists>t \<in> set (sf_activeTools s). an_toolCallId t = tc_id c \<and> an_toolName t = []"
    using assms(1,2) by (auto simp: toolStarted_def with_surface_def Let_def)
  then have "\<not> surface_valid isoTime s" by (auto simp: surface_valid_def active_valid_def list_all_iff)
  then have "tracked_execute isoTime zodText clk execute c k (w, r) = (Inl zodText, w, r\<lparr>ar_surface := s\<rparr>)"
    using s(1) by (simp add: tracked_execute_def publish_def)
  moreover have "nameless_active (tc_id c) (r\<lparr>ar_surface := s\<rparr>)" using s(2) by (simp add: nameless_active_def)
  ultimately show ?thesis by blast
qed

text \<open>One call without a tool name (a provider's message with an empty name) disables the reporter: the tool is not run
  and its start is refused, but it stays among the active tools, so every later report about anything else is
  refused too.\<close>

theorem nameless_call_blocks_reports:
  assumes "effectiveToolName c = []" "is_json (summarizeToolArgs (effectiveToolArgs c))"
    and "list_all (\<lambda>x. \<not> about_call (tc_id c) x) later"
  shows "\<exists>r1. tracked_execute isoTime zodText clk execute c k (w, r) = (Inl zodText, w, r1)
    \<and> fst (run_reports isoTime later r1) = replicate (length later) (Inl SurfaceInvalid)"
  using nameless_call_stays [OF assms(1,2), of isoTime zodText clk execute k w r] reports_refused [OF _ assms(3)] by fast

section \<open>Samples\<close>

definition first_reporter :: activity_reporter where
  "first_reporter = snd (createAgentActivityReporter (\<lambda>_. True) (js ''a'') 1 0)"

definition nameless_call :: tool_call where
  "nameless_call = \<lparr>tc_id = js ''c1'', tc_name = [], tc_args = []\<rparr>"

definition echo_tool :: "tool_call \<Rightarrow> nat \<Rightarrow> int \<Rightarrow> (jstr + tool_result) \<times> int" where
  "echo_tool c k w = (Inr \<lparr>tr_content = TextContent (tc_id c), tr_outcome = None, tr_effects = []\<rparr>, w + 5)"

lemma no_args_summary: "summarizeToolArgs [] = JObj []"
  by (simp add: summarizeToolArgs_def summarizeValue.simps max_depth_def)

theorem nameless_call_blocks_reports_witness:
  "\<exists>r1. tracked_execute (\<lambda>_. True) (js ''bad'') (\<lambda>w. w) echo_tool nameless_call 1 (0, first_reporter) = (Inl (js ''bad''), 0, r1)
    \<and> fst (run_reports (\<lambda>_. True) [ReportTrigger 1 None] r1) = [Inl SurfaceInvalid]"
proof -
  have "effectiveToolName nameless_call = []" "effectiveToolArgs nameless_call = []"
    by (simp_all add: effectiveToolName_def effectiveToolArgs_def nameless_call_def js_def)
  then show ?thesis
    using nameless_call_blocks_reports [of nameless_call "[ReportTrigger 1 None]" "\<lambda>_. True" "js ''bad''" "\<lambda>w. w" echo_tool 1 0 first_reporter]
    by (simp add: no_args_summary)
qed

definition named_call :: tool_call where
  "named_call = \<lparr>tc_id = js ''c1'', tc_name = js ''inbox'', tc_args = []\<rparr>"

theorem tracked_call_reported_witness:
  "\<exists>r2 last outcome. tracked_execute (\<lambda>_. True) [] (\<lambda>w. w) echo_tool named_call 1 (0, first_reporter) = (outcome, 5, r2)
    \<and> sf_lastCompleted (ar_surface r2) = Some last \<and> cn_toolCallId last = js ''c1'' \<and> cn_durationMs last = Some 5"
proof -
  have eff: "effectiveToolName named_call = js ''inbox''" "effectiveToolArgs named_call = []"
    by (simp_all add: effectiveToolName_def effectiveToolArgs_def named_call_def js_def)
  have first: "first_reporter = \<lparr>ar_surface = \<lparr>sf_instanceId = js ''a'', sf_pid = 1, sf_startedAt = to_iso_string 0, sf_generatedAt = to_iso_string 0,
        sf_phase = StartingPhase, sf_phaseStartedAt = to_iso_string 0, sf_roundIndex = None, sf_detail = None, sf_waitUntil = None,
        sf_trigger = None, sf_activeTools = [], sf_lastCompleted = None\<rparr>, ar_written = ar_written first_reporter\<rparr>"
    by (simp add: first_reporter_def createAgentActivityReporter_def publish_def Let_def)
  have "length (executing_text @ js ''inbox'') \<le> surface_text_cap" by (simp add: executing_text_def surface_text_cap_def js_def)
  then have "\<exists>r1. toolStarted (\<lambda>_. True) 0 (js ''c1'') (js ''inbox'') (int 1) (JObj []) first_reporter = (Inr (), r1)"
    by (subst first) (simp add: toolStarted_def with_surface_def publish_def surface_valid_def active_valid_def count_value_def safe_int_def max_safe_def
        active_cap_def Let_def js_def)
  then obtain r1 where r1: "toolStarted (\<lambda>_. True) 0 (tc_id named_call) (effectiveToolName named_call) (int 1)
      (summarizeToolArgs (effectiveToolArgs named_call)) first_reporter = (Inr (), r1)"
    by (auto simp: eff no_args_summary) (simp add: named_call_def)
  have p: "printable_time 0" by code_simp
  obtain outcome where o: "echo_tool named_call 1 0 = (outcome, 5)" by (simp add: echo_tool_def)
  have "(5::int) - 0 \<le> max_safe" by (simp add: max_safe_def)
  then show ?thesis
    using tracked_call_reported [of "\<lambda>_. True" "\<lambda>w. w" 0 named_call 1 first_reporter "()" r1 echo_tool outcome 5 "[]"] r1 o p
    by (auto simp: named_call_def)
qed

end
