(* ===== verification/Loop_State.thy ===== *)
theory Loop_State
  imports Activity_Surface React_Kernel Compaction_Coordinator Ledger_Reload Render_Event Event_Queue
begin

text \<open>
  The bot loop of \<open>src/agent/bot-loop-agent.ts\<close>, first part: its state, what it depends on, commits and compactions as
  the loop makes them, the taking of the events, the memory of what tools have produced, and the tools of a
  round of autonomous discovery.
\<close>

section \<open>State\<close>

datatype discovery_source = IdleTimeout | RestElapsed

record discovery_direction =
  dd_id :: jstr
  dd_instruction :: jstr

definition AUTONOMY_DISCOVERY_DIRECTIONS :: "discovery_direction list" where
  "AUTONOMY_DISCOVERY_DIRECTIONS =
     [\<lparr>dd_id = js ''unfinished_commitments'', dd_instruction = commitments_instruction\<rparr>,
      \<lparr>dd_id = js ''existing_artifacts'', dd_instruction = artifacts_instruction\<rparr>,
      \<lparr>dd_id = js ''bounded_curiosity'', dd_instruction = curiosity_instruction\<rparr>]"

text \<open>\<open>bl_world\<close> is everything outside the loop: the provider, the tools with their conversation focus, the surface.\<close>

record 'w bot_loop =
  bl_host :: bot_host
  bl_db :: ledger_db
  bl_queue :: "bot_event event_queue"
  bl_world :: 'w
  bl_nextAttemptAt :: int
  bl_stopRequested :: bool
  bl_roundIndex :: nat
  bl_consecutiveRounds :: nat
  bl_attentionCorrectionIssued :: bool
  bl_textCorrectionIssued :: bool
  bl_shortWorkPending :: bool
  bl_correctionRounds :: int
  bl_noProgressRounds :: int
  bl_discoveryActive :: bool
  bl_discoveryPromptPending :: bool
  bl_discoverySource :: discovery_source
  bl_directionIndex :: nat
  bl_failedDirections :: nat
  bl_direction :: discovery_direction
  bl_noveltyKeys :: "(jstr \<times> nat) list"
  bl_lastContextWindowTokens :: int

datatype 'x loop_error =
    CommitFailed commit_error
  | PlanFailed notification_error
  | ReportFailed surface_error
  | EngagementFailed continuity_error
  | ReadCursorFailed cursor_error
  | RoundFailed "'x round_error"
  | TargetKeyFailed
  | MarkerFailed mailbox_error
  | CompactFailed coordinator_error

text \<open>What the loop is created with.  \<open>bd_overflow\<close> and \<open>bd_overflowWindow\<close> read the kind and the window of what the
  provider throws; \<open>bd_report\<close> is the reporter, or does nothing when there is none.\<close>

record ('x, 't, 'w) loop_deps =
  bd_round :: "('x, 't, 'w) round_deps"
  bd_compaction :: "('x, 't) coordinator_deps"
  bd_column :: "jv \<Rightarrow> jv"
  bd_digest :: "jstr \<Rightarrow> jstr"
  bd_overflow :: "'x \<Rightarrow> bool"
  bd_overflowWindow :: "'x \<Rightarrow> int option"
  bd_getFocus :: "('w \<Rightarrow> conversation_ref option) option"
  bd_syncFocus :: "conversation_ref option \<Rightarrow> 'w \<Rightarrow> 'w"
  bd_syncReads :: "read_cursors \<Rightarrow> 'w \<Rightarrow> 'w"
  bd_report :: "report \<Rightarrow> 'w \<Rightarrow> (surface_error + unit) \<times> 'w"
  bd_renderEvent :: "bot_event \<Rightarrow> notification_error + jstr option"
  bd_participation :: "int \<Rightarrow> group_participation option"
  bd_onCommitted :: "bot_event list \<Rightarrow> 'w \<Rightarrow> 'w"
  bd_clock :: "'w \<Rightarrow> int"
  bd_retryWaitMs :: int
  bd_wakeIntervalMs :: int
  bd_errorBackoffMs :: int

definition recent_novelty_cap :: nat where
  "recent_novelty_cap = 256"

section \<open>Commits and compactions\<close>

text \<open>The tools learn the focus and the read cursors that are in force, after a commit and after one that failed.\<close>

definition sync_tools :: "('x, 't, 'w) loop_deps \<Rightarrow> 'w bot_loop \<Rightarrow> 'w bot_loop" where
  "sync_tools d s = s\<lparr>bl_world := bd_syncReads d (bh_inboxReadCursors (bl_host s))
     (bd_syncFocus d (snd (getSnapshot (bh_context (bl_host s)))) (bl_world s))\<rparr>"

definition commitChanges :: "('x, 't, 'w) loop_deps \<Rightarrow> agent_message list \<Rightarrow> runtime_patch option \<Rightarrow> 'w bot_loop
    \<Rightarrow> ('x loop_error + unit) \<times> 'w bot_loop" where
  "commitChanges d messages patch s =
     (if messages = [] \<and> patch = None then (Inr (), s)
      else (case commitChange (bd_column d) messages patch (bl_host s, bl_db s) of
              (Inl e, h, db) \<Rightarrow> (Inl (CommitFailed e), sync_tools d (s\<lparr>bl_host := h, bl_db := db\<rparr>))
            | (Inr _, h, db) \<Rightarrow> (Inr (), sync_tools d (s\<lparr>bl_host := h, bl_db := db\<rparr>))))"

definition compact_state_of :: "'w bot_loop \<Rightarrow> compact_state" where
  "compact_state_of s = \<lparr>cp_nextAttemptAt = bl_nextAttemptAt s, cp_host = bl_host s, cp_db = bl_db s\<rparr>"

definition runCompaction :: "('x, 't, 'w) loop_deps \<Rightarrow> compact_request \<Rightarrow> run_env \<Rightarrow> 'w bot_loop
    \<Rightarrow> ('x loop_error + bool) \<times> 'w bot_loop" where
  "runCompaction d q run s =
     (let (res, c) = compact (bd_column d) (reloadProjectionFromCanonical (bd_column d) (bd_digest d)) (bd_compaction d) q run
            (compact_state_of s);
          s1 = s\<lparr>bl_nextAttemptAt := cp_nextAttemptAt c, bl_host := cp_host c, bl_db := cp_db c\<rparr>
      in case res of
           Inl e \<Rightarrow> (Inl (CompactFailed e), s1)
         | Inr b \<Rightarrow> (Inr b, if b then sync_tools d s1 else s1))"

section \<open>Autonomous discovery\<close>

definition beginAutonomyDiscovery :: "discovery_source \<Rightarrow> 'w bot_loop \<Rightarrow> 'w bot_loop" where
  "beginAutonomyDiscovery source s =
     s\<lparr>bl_discoveryActive := True, bl_discoveryPromptPending := True, bl_discoverySource := source,
       bl_direction := AUTONOMY_DISCOVERY_DIRECTIONS ! (bl_directionIndex s mod length AUTONOMY_DISCOVERY_DIRECTIONS),
       bl_directionIndex := bl_directionIndex s + 1, bl_noProgressRounds := 0, bl_textCorrectionIssued := False\<rparr>"

definition endAutonomyDiscovery :: "'w bot_loop \<Rightarrow> 'w bot_loop" where
  "endAutonomyDiscovery s = s\<lparr>bl_discoveryActive := False, bl_discoveryPromptPending := False\<rparr>"

definition source_str :: "discovery_source \<Rightarrow> jstr" where
  "source_str x = (case x of IdleTimeout \<Rightarrow> js ''idle_timeout'' | RestElapsed \<Rightarrow> js ''rest_elapsed'')"

definition renderAutonomyDiscoveryPrompt :: "'w bot_loop \<Rightarrow> jstr" where
  "renderAutonomyDiscoveryPrompt s = stringify (JObj
     [(js ''event'', JStr (js ''runtime_autonomy_tick'')), (js ''source'', JStr (source_str (bl_discoverySource s))),
      (js ''code'', JStr (js ''autonomy_discovery_required'')),
      (js ''direction'', JObj [(js ''id'', JStr (dd_id (bl_direction s))), (js ''instruction'', JStr (dd_instruction (bl_direction s)))]),
      (js ''instruction'', JStr discovery_instruction)])"

definition AUTONOMY_MAINTENANCE_TOOL_NAMES :: "jstr list" where
  "AUTONOMY_MAINTENANCE_TOOL_NAMES = map js [''clock'', ''conversation'', ''help'', ''memory'', ''notebook'', ''psychologist'',
     ''schedule'', ''send_message'', ''skill'']"

definition no_outcome :: tool_outcome where
  "no_outcome = \<lparr>to_ok = True, to_code = None, to_error = None, to_progress = None, to_continuation = None,
     to_continuationDetail = None, to_noveltyKey = None\<rparr>"

definition without_progress :: "tool_result \<Rightarrow> tool_result" where
  "without_progress res = res\<lparr>tr_outcome := Some ((or_else (tr_outcome res) no_outcome)\<lparr>to_progress := Some False\<rparr>)\<rparr>"

definition rest_code :: jstr where
  "rest_code = js ''rest_unavailable_during_autonomy_discovery''"

definition rest_refused :: tool_result where
  "rest_refused =
     \<lparr>tr_content = TextContent (stringify (JObj [(js ''ok'', JBool False), (js ''code'', JStr rest_code),
        (js ''instruction'', JStr rest_instruction)])),
      tr_outcome = Some (no_outcome\<lparr>to_ok := False, to_code := Some rest_code, to_error := Some rest_instruction,
        to_progress := Some False\<rparr>),
      tr_effects = []\<rparr>"

text \<open>The calls that are not \<open>rest\<close> run as they would; the results come back in the order of the calls.\<close>

definition is_rest :: "tool_call \<Rightarrow> bool" where
  "is_rest c \<longleftrightarrow> resolveEffectiveToolName c = js ''rest''"

fun discovery_results :: "tool_call list \<Rightarrow> (jstr + tool_result) list \<Rightarrow> (jstr + tool_result) list" where
  "discovery_results [] rs = []"
| "discovery_results (c # cs) rs =
     (if is_rest c then Inr rest_refused # discovery_results cs rs
      else (case rs of
              [] \<Rightarrow> []
            | r # rs' \<Rightarrow> (case r of
                  Inl msg \<Rightarrow> Inl msg
                | Inr res \<Rightarrow> Inr (if resolveEffectiveToolName c \<in> set AUTONOMY_MAINTENANCE_TOOL_NAMES then without_progress res else res))
                # discovery_results cs rs'))"

definition createAutonomyDiscoveryToolExecutor :: "('t, 'w) tool_executor \<Rightarrow> ('t, 'w) tool_executor" where
  "createAutonomyDiscoveryToolExecutor tools =
     \<lparr>ex_list = ex_list tools, ex_classify = ex_classify tools,
      ex_batch = (\<lambda>calls r w. let run = filter (\<lambda>c. \<not> is_rest c) calls;
                      (results, w') = (if run = [] then ([], w) else ex_batch tools run r w)
                  in (discovery_results calls results, w'))\<rparr>"

section \<open>Taking the events\<close>

function drain_queue :: "'e event_queue \<Rightarrow> 'e list \<times> 'e event_queue" where
  "drain_queue q = (case dequeue q of (None, q') \<Rightarrow> ([], q') | (Some e, q') \<Rightarrow> (let (es, q'') = drain_queue q' in (e # es, q'')))"
  by pat_completeness auto
termination by (relation "measure (\<lambda>q. length (eq_events q))") (auto simp: dequeue_def split: list.splits)

declare drain_queue.simps [simp del]

text \<open>The cursors as numbers; a runtime state has only numbers there.\<close>

definition cursor_numbers :: "jobj \<Rightarrow> mailbox_cursors" where
  "cursor_numbers ps = map (\<lambda>(k, v). (k, num_of v)) ps"

definition cursor_values :: "mailbox_cursors \<Rightarrow> jobj" where
  "cursor_values cs = map (\<lambda>(k, i). (k, jint i)) cs"

datatype disclosure_class = HighInterrupting | NormalInterrupting | OrdinaryDisclosure

definition disclosure_class_of :: "mailbox_disclosure \<Rightarrow> disclosure_class" where
  "disclosure_class_of m =
     (if isHighPriorityMailboxDisclosure m then HighInterrupting
      else (case m of
              DirectDisclosure e \<Rightarrow> (case notificationRoutingForEvent e of
                  Some (HighPriority, InterruptDelivery) \<Rightarrow> HighInterrupting
                | Some (NormalPriority, InterruptDelivery) \<Rightarrow> NormalInterrupting
                | _ \<Rightarrow> OrdinaryDisclosure)
            | _ \<Rightarrow> OrdinaryDisclosure))"

record drained =
  dr_events :: "bot_event list"
  dr_hadAttention :: bool
  dr_interrupting :: "mailbox_disclosure list"
  dr_passive :: "mailbox_disclosure list"
  dr_cursors :: mailbox_cursors

definition drained_of :: "bot_event list \<Rightarrow> disclosure_plan \<Rightarrow> drained" where
  "drained_of events plan =
     (let pick = (\<lambda>k. filter (\<lambda>m. disclosure_class_of m = k) (dp_disclosures plan)) in
      \<lparr>dr_events = events, dr_hadAttention = list_ex isAttentionEvent events,
       dr_interrupting = pick HighInterrupting @ pick NormalInterrupting, dr_passive = pick OrdinaryDisclosure,
       dr_cursors = dp_cursors plan\<rparr>)"

definition drainEvents :: "'w bot_loop \<Rightarrow> ('x loop_error + drained) \<times> 'w bot_loop" where
  "drainEvents s =
     (let (events, q) = drain_queue (bl_queue s); s1 = s\<lparr>bl_queue := q\<rparr> in
      case planMailboxDisclosures events (cursor_numbers (bh_mailboxCursors (bl_host s))) of
        Inl e \<Rightarrow> (Inl (PlanFailed e), s1)
      | Inr plan \<Rightarrow> (Inr (drained_of events plan), s1))"

section \<open>What the tools decide\<close>

definition rememberToolNovelty :: "nat \<Rightarrow> jstr \<Rightarrow> (jstr \<times> nat) list \<Rightarrow> (jstr \<times> nat) list" where
  "rememberToolNovelty roundIndex key keys =
     (let ks = filter (\<lambda>p. fst p \<noteq> key) keys @ [(key, roundIndex)] in
      if length ks \<le> recent_novelty_cap then ks else tl ks)"

record tool_control =
  tl_madeProgress :: bool
  tl_continuations :: "(continuation_policy \<times> jstr option) list"
  tl_keys :: "(jstr \<times> nat) list"

definition control_outcome :: "nat \<Rightarrow> tool_control \<Rightarrow> react_outcome \<Rightarrow> tool_control" where
  "control_outcome roundIndex t out =
     (let duplicate = (case rt_noveltyKey out of None \<Rightarrow> False | Some k \<Rightarrow> k \<in> fst ` set (tl_keys t)) in
      \<lparr>tl_madeProgress = (tl_madeProgress t \<or> \<not> duplicate \<and> rt_progress out),
       tl_continuations = tl_continuations t @ (case rt_continuation out of
           None \<Rightarrow> []
         | Some c \<Rightarrow> [(if duplicate \<and> c = ImmediateTool then WaitAttentionTool else c,
             map_option (take detail_cap) (truthy_str (rt_continuationDetail out)))]),
       tl_keys = (case rt_noveltyKey out of None \<Rightarrow> tl_keys t | Some k \<Rightarrow> rememberToolNovelty roundIndex k (tl_keys t))\<rparr>)"

definition select_continuation :: "(continuation_policy \<times> jstr option) list \<Rightarrow> (continuation_policy \<times> jstr option) option" where
  "select_continuation cs = first_some (map (\<lambda>k. find (\<lambda>c. fst c = k) cs)
     [StopTool, ImmediateTool, BackoffTool, WaitEventTool, WaitAttentionTool])"

text \<open>Progress, the continuation with its detail, and the new memory.\<close>

definition resolveToolControl :: "nat \<Rightarrow> react_outcome list \<Rightarrow> (jstr \<times> nat) list
    \<Rightarrow> bool \<times> (continuation_policy \<times> jstr option) option \<times> (jstr \<times> nat) list" where
  "resolveToolControl roundIndex outcomes keys =
     (let t = foldl (control_outcome roundIndex) \<lparr>tl_madeProgress = False, tl_continuations = [], tl_keys = keys\<rparr> outcomes
      in (tl_madeProgress t, select_continuation (tl_continuations t), tl_keys t))"

end
