(* ===== verification/Loop_Disclosure.thy ===== *)
theory Loop_Disclosure
  imports Loop_State
begin

text \<open>
  The bot loop, second part: \<open>discloseEvents\<close>, which turns what is to be disclosed into messages for the model.
\<close>

section \<open>State\<close>

text \<open>\<open>de_nowMs\<close> is the clock at the beginning; the clock when a message is written is \<open>de_clock\<close> of the number of
  messages there are.\<close>

record disclose_env =
  de_nowMs :: int
  de_clock :: "nat \<Rightarrow> int"
  de_participation :: "int \<Rightarrow> group_participation option"
  de_renderEvent :: "bot_event \<Rightarrow> notification_error + jstr option"

record disclosing =
  dg_messages :: "agent_message list"
  dg_continuity :: continuity_state
  dg_lastWakeAt :: "int option"
  dg_disclosed :: nat
  dg_inboxReads :: "(jstr \<times> int) list"

datatype disclose_error = RenderFailed notification_error | EngageFailed continuity_error

definition push_user :: "jstr \<Rightarrow> disclosing \<Rightarrow> disclosing" where
  "push_user t g = g\<lparr>dg_messages := dg_messages g @ [UserMsg t]\<rparr>"

definition wake_now :: "disclose_env \<Rightarrow> disclosing \<Rightarrow> disclosing" where
  "wake_now env g = g\<lparr>dg_lastWakeAt := Some (de_clock env (length (dg_messages g)))\<rparr>"

definition count_disclosed :: "disclosing \<Rightarrow> disclosing" where
  "count_disclosed g = g\<lparr>dg_disclosed := dg_disclosed g + 1\<rparr>"

section \<open>Groups\<close>

text \<open>\<open>Number(s)\<close> when it is a safe integer written in decimal; the forms with a point, an exponent or a radix prefix,
  which no group number has, count as no number.\<close>

definition decimal_number :: "jstr \<Rightarrow> int option" where
  "decimal_number s =
     (let t = trim s; neg = (t \<noteq> [] \<and> hd t = 45); ds = (if t \<noteq> [] \<and> (hd t = 45 \<or> hd t = 43) then tl t else t);
          i = (if neg then - int (nat_of_dec ds) else int (nat_of_dec ds)) in
      if t = [] then Some 0
      else if ds \<noteq> [] \<and> list_all is_digit ds \<and> safe_int i then Some i else None)"

definition conversation_group :: "conversation_ref \<Rightarrow> int option" where
  "conversation_group c = (if platform c = Qq \<and> ckind c = GroupChat then decimal_number (externalId c) else None)"

fun source_group :: "backlog_source \<Rightarrow> int option" where
  "source_group (GroupSource g n) = (if safe_int g then Some g else None)"
| "source_group (ConversationSource c n s) = conversation_group c"
| "source_group (PrivateSource p n) = None"

fun message_group :: "mailbox_message \<Rightarrow> int option" where
  "message_group (NapcatMessage m) = (if safe_int (gm_groupId m) then Some (gm_groupId m) else None)"
| "message_group (ChatMessage m) = conversation_group (cm_conversation m)"
| "message_group (NapcatPrivateMessage m) = None"

fun is_group_message :: "mailbox_message \<Rightarrow> bool" where
  "is_group_message (NapcatMessage m) \<longleftrightarrow> True"
| "is_group_message (ChatMessage m) \<longleftrightarrow> ckind (cm_conversation m) = GroupChat"
| "is_group_message (NapcatPrivateMessage m) \<longleftrightarrow> False"

definition shouldDirectMailboxDisclosure :: "continuity_state \<Rightarrow> int \<Rightarrow> mailbox_disclosure \<Rightarrow> bool" where
  "shouldDirectMailboxDisclosure cont nowMs m =
     (case m of
        MailboxDisclosure k ms \<Rightarrow> is_group_message (hd ms) \<and> (isMailboxEngaged cont k nowMs \<or> isHighPriorityMailboxDisclosure m)
      | _ \<Rightarrow> False)"

section \<open>Direct batches\<close>

text \<open>The longest run of direct mailboxes that still fits into one message, with that message.\<close>

fun grow_batch :: "continuity_state \<Rightarrow> int \<Rightarrow> (jstr \<times> mailbox_message list) list \<Rightarrow> jstr option \<Rightarrow> mailbox_disclosure list
    \<Rightarrow> notification_error + (jstr \<times> mailbox_message list) list \<times> jstr option \<times> mailbox_disclosure list" where
  "grow_batch cont nowMs batch content [] = Inr (batch, content, [])"
| "grow_batch cont nowMs batch content (m # ms) =
     (if \<not> shouldDirectMailboxDisclosure cont nowMs m then Inr (batch, content, m # ms)
      else (let candidate = batch @ [(md_mailboxKey m, md_events m)] in
        case renderMailboxDeltaBatch candidate of
          Inl e \<Rightarrow> Inl e
        | Inr None \<Rightarrow> Inr (batch, content, m # ms)
        | Inr (Some c) \<Rightarrow> grow_batch cont nowMs candidate (Some c) ms))"

definition record_direct :: "int \<Rightarrow> jstr \<times> mailbox_message list \<Rightarrow> disclosing \<Rightarrow> continuity_error + disclosing" where
  "record_direct nowMs = (\<lambda>(k, ms) g.
     (let final = last ms; engaged = isMailboxEngaged (dg_continuity g) k nowMs;
          c1 = recordMailboxDisclosure (dg_continuity g) k (sentAt final) in
      bindE (if engaged then recordMailboxEngagement c1 k nowMs engagement_lease_ms else Inr c1) (\<lambda>c2.
        Inr (count_disclosed (g\<lparr>dg_continuity := c2, dg_inboxReads := dg_inboxReads g @ [(k, messageRowId final)]\<rparr>)))))"

fun record_batch :: "int \<Rightarrow> (jstr \<times> mailbox_message list) list \<Rightarrow> disclosing \<Rightarrow> continuity_error + disclosing" where
  "record_batch nowMs [] g = Inr g"
| "record_batch nowMs (p # ps) g = bindE (record_direct nowMs p g) (record_batch nowMs ps)"

lemma grow_batch_shrinks:
  "grow_batch cont nowMs batch content ms = Inr (batch', content', rest) \<Longrightarrow>
     length rest \<le> length ms \<and> (content = None \<longrightarrow> content' \<noteq> None \<longrightarrow> length rest < length ms)"
  by (induction cont nowMs batch content ms rule: grow_batch.induct)
    (force simp: Let_def split: if_splits sum.splits option.splits)+

section \<open>One disclosure\<close>

definition discloseBacklog :: "disclose_env \<Rightarrow> mailbox_backlog \<Rightarrow> disclosing \<Rightarrow> disclose_error + disclosing" where
  "discloseBacklog env b g =
     (case renderMailboxBacklogNotification b (Option.bind (source_group (mb_source b)) (de_participation env)) of
        Inl e \<Rightarrow> Inl (RenderFailed e)
      | Inr t \<Rightarrow> Inr (let g1 = push_user t g in
          wake_now env (count_disclosed (g1\<lparr>dg_continuity := recordMailboxDisclosure (dg_continuity g1) (mb_mailboxKey b) (mb_to b)\<rparr>))))"

definition discloseMailbox :: "disclose_env \<Rightarrow> jstr \<Rightarrow> mailbox_message list \<Rightarrow> disclosing \<Rightarrow> disclose_error + disclosing" where
  "discloseMailbox env k ms g =
     (let latest = sentAt (last ms); compensation = decideMailboxCompensation (dg_continuity g) k latest in
      case renderMailboxNotification k ms
          (if 0 < cd_contextBefore compensation then Some (cd_contextBefore compensation) else None)
          (Option.bind (message_group (hd ms)) (de_participation env)) of
        Inl e \<Rightarrow> Inl (RenderFailed e)
      | Inr t \<Rightarrow> Inr (let g1 = push_user t g in
          wake_now env (count_disclosed (g1\<lparr>dg_continuity := recordMailboxDisclosure (dg_continuity g1) k latest\<rparr>))))"

fun is_napcat_event :: "bot_event \<Rightarrow> bool" where
  "is_napcat_event (MessageEvent (NapcatMessage m)) \<longleftrightarrow> True"
| "is_napcat_event (MessageEvent (NapcatPrivateMessage m)) \<longleftrightarrow> True"
| "is_napcat_event _ \<longleftrightarrow> False"

definition discloseDirect :: "disclose_env \<Rightarrow> bot_event \<Rightarrow> disclosing \<Rightarrow> disclose_error + disclosing" where
  "discloseDirect env e g =
     (if e = Wake then Inr g
      else (case de_renderEvent env e of
              Inl err \<Rightarrow> Inl (RenderFailed err)
            | Inr None \<Rightarrow> Inr g
            | Inr (Some t) \<Rightarrow>
                if t = [] then Inr g
                else Inr (let g1 = count_disclosed (push_user t g) in if is_napcat_event e then wake_now env g1 else g1)))"

fun disclose_one :: "disclose_env \<Rightarrow> mailbox_disclosure \<Rightarrow> disclosing \<Rightarrow> disclose_error + disclosing" where
  "disclose_one env (BacklogDisclosure b) g = discloseBacklog env b g"
| "disclose_one env (MailboxDisclosure k ms) g = discloseMailbox env k ms g"
| "disclose_one env (DirectDisclosure e) g = discloseDirect env e g"

section \<open>All disclosures\<close>

text \<open>A direct run that does not fit even with its first mailbox falls back to the notification of that mailbox.\<close>

function discloseEvents :: "disclose_env \<Rightarrow> mailbox_disclosure list \<Rightarrow> disclosing \<Rightarrow> disclose_error + disclosing" where
  "discloseEvents env ms g =
     (case ms of
        [] \<Rightarrow> Inr g
      | m # rest \<Rightarrow>
          if shouldDirectMailboxDisclosure (dg_continuity g) (de_nowMs env) m
          then (case grow_batch (dg_continuity g) (de_nowMs env) [] None (m # rest) of
                  Inl e \<Rightarrow> Inl (RenderFailed e)
                | Inr (batch, Some content, later) \<Rightarrow>
                    (case record_batch (de_nowMs env) batch (push_user content g) of
                       Inl e \<Rightarrow> Inl (EngageFailed e)
                     | Inr g1 \<Rightarrow> discloseEvents env later (wake_now env g1))
                | Inr (_, None, _) \<Rightarrow> (case disclose_one env m g of Inl e \<Rightarrow> Inl e | Inr g1 \<Rightarrow> discloseEvents env rest g1))
          else (case disclose_one env m g of Inl e \<Rightarrow> Inl e | Inr g1 \<Rightarrow> discloseEvents env rest g1))"
  by pat_completeness auto
termination
  by (relation "measure (\<lambda>(env, ms, g). length ms)") (auto simp del: grow_batch.simps dest!: grow_batch_shrinks)

declare discloseEvents.simps [simp del]

end
