(* ===== verification/Loop_Round.thy ===== *)
theory Loop_Round
  imports Loop_Disclosure
begin

text \<open>
  The bot loop, third part: a round with its recoveries (a truncated output is continued, an overflowing context is
  compacted once), the commit of what it produced, and the markers of what was answered.
\<close>

section \<open>Recoveries\<close>

definition max_output_continuations :: nat where
  "max_output_continuations = 2"

text \<open>\<open>isLlmContextOverflowError\<close> on what a round throws, and the window it names.\<close>

fun is_context_overflow :: "('x, 't, 'w) loop_deps \<Rightarrow> 'x round_error \<Rightarrow> bool" where
  "is_context_overflow d (LlmThrew x) \<longleftrightarrow> bd_overflow d x"
| "is_context_overflow d (ImageStoreThrew x) \<longleftrightarrow> bd_overflow d x"
| "is_context_overflow d (LlmContextWindowStop n) \<longleftrightarrow> True"
| "is_context_overflow d (LlmOutputTruncated c n) \<longleftrightarrow> False"
| "is_context_overflow d (BreakpointFailed e) \<longleftrightarrow> False"

fun named_window :: "('x, 't, 'w) loop_deps \<Rightarrow> 'x round_error \<Rightarrow> int option" where
  "named_window d (LlmThrew x) = bd_overflowWindow d x"
| "named_window d (ImageStoreThrew x) = bd_overflowWindow d x"
| "named_window d (LlmContextWindowStop n) = Some n"
| "named_window d _ = None"

definition resolveOverflowContextWindowTokens :: "('x, 't, 'w) loop_deps \<Rightarrow> 'x round_error \<Rightarrow> int \<Rightarrow> int" where
  "resolveOverflowContextWindowTokens d e fallback =
     (case named_window d e of None \<Rightarrow> fallback | Some n \<Rightarrow> if safe_int n \<and> 0 < n then n else fallback)"

definition overflow_request :: "int \<Rightarrow> compact_request" where
  "overflow_request window = \<lparr>cq_reason = Overflow, cq_contextTokens = window, cq_contextWindowTokens = window,
     cq_providerPrefixHeadEntryId = None\<rparr>"

definition report_phase :: "('x, 't, 'w) loop_deps \<Rightarrow> phase_input \<Rightarrow> 'w bot_loop \<Rightarrow> ('x loop_error + unit) \<times> 'w bot_loop" where
  "report_phase d i s =
     (case bd_report d (ReportPhase (bd_clock d (bl_world s)) i) (bl_world s) of
        (Inl e, w) \<Rightarrow> (Inl (ReportFailed e), s\<lparr>bl_world := w\<rparr>)
      | (Inr _, w) \<Rightarrow> (Inr (), s\<lparr>bl_world := w\<rparr>))"

definition committing_phase :: "nat \<Rightarrow> phase_input" where
  "committing_phase roundIndex = \<lparr>pi_phase = CommittingPhase, pi_roundIndex = Some (Some (int roundIndex)),
     pi_detail = Some saving_detail, pi_waitUntil = None\<rparr>"

definition react_round :: "('x, 't, 'w) loop_deps \<Rightarrow> ('t, 'w) tool_executor \<Rightarrow> agent_message list \<Rightarrow> 'w bot_loop
    \<Rightarrow> ('x round_error + round_result) \<times> 'w bot_loop" where
  "react_round d tools staged s =
     (let (res, w) = runReactRound ((bd_round d)\<lparr>rn_tools := tools\<rparr>) (bl_roundIndex s)
            (fst (getSnapshot (bh_context (bl_host s)))) staged (bl_world s)
      in (res, s\<lparr>bl_world := w\<rparr>))"

text \<open>\<open>run\<close> is what the compaction meets.  The result has the head the provider saw and the messages staged.\<close>

function round_loop :: "('x, 't, 'w) loop_deps \<Rightarrow> run_env \<Rightarrow> ('t, 'w) tool_executor \<Rightarrow> bool \<Rightarrow> nat \<Rightarrow> agent_message list
    \<Rightarrow> 'w bot_loop \<Rightarrow> ('x loop_error + round_result \<times> int option \<times> agent_message list) \<times> 'w bot_loop" where
  "round_loop d run tools recovered continuations staged s =
     (let seen_head = bh_ledgerHeadEntryId (bl_host s); (res, s1) = react_round d tools staged s in
      case res of
        Inr r \<Rightarrow> (case report_phase d (committing_phase (bl_roundIndex s1)) s1 of
            (Inl e, s2) \<Rightarrow> (Inl e, s2)
          | (Inr _, s2) \<Rightarrow> (Inr (r, seen_head, staged), s2\<lparr>bl_lastContextWindowTokens := rr_contextWindowTokens r\<rparr>))
      | Inl e \<Rightarrow>
          (case e of
             LlmOutputTruncated partial n \<Rightarrow>
               if continuations < max_output_continuations \<and> cl_toolCalls partial = [] \<and> trim (cl_content partial) \<noteq> []
               then round_loop d run tools recovered (continuations + 1)
                      (staged @ [AssistantMsg (cl_content partial) [] (cl_nativeBlocks partial), UserMsg OUTPUT_CONTINUATION_PROMPT]) s1
               else (Inl (RoundFailed e), s1)
           | _ \<Rightarrow>
               if recovered \<or> \<not> is_context_overflow d e then (Inl (RoundFailed e), s1)
               else (case runCompaction d (overflow_request (resolveOverflowContextWindowTokens d e (bl_lastContextWindowTokens s1))) run s1 of
                       (Inl e', s2) \<Rightarrow> (Inl e', s2)
                     | (Inr b, s2) \<Rightarrow> if b then round_loop d run tools True continuations staged s2 else (Inl (RoundFailed e), s2))))"
  by pat_completeness auto
termination
  by (relation "measure (\<lambda>(d, run, tools, recovered, n, staged, s). (if recovered then 0 else 1) + (max_output_continuations - n))")
    (auto simp: max_output_continuations_def)

declare round_loop.simps [simp del]

section \<open>The round\<close>

record round_report =
  rv_inputTokens :: "int option"
  rv_contextWindowTokens :: int
  rv_prefixHead :: "int option"
  rv_toolCalls :: int
  rv_sentTargets :: "conversation_ref list"
  rv_workContinuation :: bool
  rv_recoverableFailure :: bool
  rv_onlyHelp :: bool
  rv_madeProgress :: bool
  rv_assistantTextOnly :: bool
  rv_correctionAppended :: bool
  rv_restElapsed :: bool
  rv_continuation :: "continuation_policy option"
  rv_continuationDetail :: "jstr option"

fun advance_reads :: "(jstr \<times> int) list \<Rightarrow> read_cursors \<Rightarrow> cursor_error + read_cursors" where
  "advance_reads [] cs = Inr cs"
| "advance_reads ((k, n) # rs) cs = bindE (advanceInboxReadCursor cs k n) (advance_reads rs)"

definition copied_continuity :: "bot_host \<Rightarrow> continuity_state" where
  "copied_continuity h = parseMailboxContinuityState (continuity_jv (bh_mailboxContinuity h))"

definition round_patch :: "('x, 't, 'w) loop_deps \<Rightarrow> 'w \<Rightarrow> continuity_state \<Rightarrow> (jstr \<times> int) list \<Rightarrow> read_cursors \<Rightarrow> runtime_patch" where
  "round_patch d w continuity reads cursors =
     empty_patch\<lparr>pt_mailboxContinuity := Some (continuity_props continuity),
       pt_inboxReadCursors := (if reads = [] then None else Some cursors),
       pt_conversationFocus := map_option (\<lambda>f. f w) (bd_getFocus d)\<rparr>"

definition round_report_of :: "round_result \<Rightarrow> int option \<Rightarrow> effect_reading \<Rightarrow> bool \<Rightarrow> bool \<times> (continuation_policy \<times> jstr option) option
    \<Rightarrow> round_report" where
  "round_report_of r seen_head reading correction = (\<lambda>(progress, selected).
     (let outs = rr_toolOutcomes r in
      \<lparr>rv_inputTokens = rr_inputTokens r, rv_contextWindowTokens = rr_contextWindowTokens r, rv_prefixHead = seen_head,
       rv_toolCalls = rr_toolCallCount r, rv_sentTargets = in_sentTargets reading, rv_workContinuation = in_workContinuation reading,
       rv_recoverableFailure = list_ex (\<lambda>x. \<not> rt_ok x \<and> rt_continuation x = Some ImmediateTool) outs,
       rv_onlyHelp = (outs \<noteq> [] \<and> list_all (\<lambda>x. rt_requestedToolName x = js ''help'') outs),
       rv_madeProgress = progress, rv_assistantTextOnly = rr_assistantTextOnly r, rv_correctionAppended = correction,
       rv_restElapsed = list_ex (\<lambda>x. rt_toolName x = js ''rest'' \<and> rt_code x = Some (js ''rest_elapsed'')) outs,
       rv_continuation = map_option fst selected, rv_continuationDetail = truthy_str (Option.bind selected snd)\<rparr>))"

definition round_messages :: "agent_message list \<Rightarrow> round_result \<Rightarrow> bool \<Rightarrow> agent_message list" where
  "round_messages staged r correction =
     staged @ rr_messagesToAppend r @ (if correction then [UserMsg ASSISTANT_TEXT_ONLY_CORRECTION] else [])"

definition runRound :: "('x, 't, 'w) loop_deps \<Rightarrow> run_env \<Rightarrow> ('t, 'w) tool_executor \<Rightarrow> 'w bot_loop
    \<Rightarrow> ('x loop_error + round_report) \<times> 'w bot_loop" where
  "runRound d run tools s =
     (case round_loop d run tools False 0 [] (s\<lparr>bl_roundIndex := bl_roundIndex s + 1\<rparr>) of
        (Inl e, s1) \<Rightarrow> (Inl e, s1)
      | (Inr (r, seen_head, staged), s1) \<Rightarrow>
          (case interpretToolEffects (rr_effects r) of
             None \<Rightarrow> (Inl TargetKeyFailed, s1)
           | Some reading \<Rightarrow>
               (let correction = (rr_assistantTextOnly r \<and> \<not> bl_textCorrectionIssued s1);
                    continuity = recordMailboxRound (copied_continuity (bl_host s1)) (rr_inputTokens r) in
                case advance_reads (in_inboxReads reading) (bh_inboxReadCursors (bl_host s1)) of
                  Inl e \<Rightarrow> (Inl (ReadCursorFailed e), s1)
                | Inr cursors \<Rightarrow>
                    (case commitChanges d (round_messages staged r correction)
                            (Some (round_patch d (bl_world s1) continuity (in_inboxReads reading) cursors)) s1 of
                       (Inl e, s2) \<Rightarrow> (Inl e, s2)
                     | (Inr _, s2) \<Rightarrow>
                         (let (progress, selected, keys) = resolveToolControl (bl_roundIndex s2) (rr_toolOutcomes r) (bl_noveltyKeys s2)
                          in (Inr (round_report_of r seen_head reading correction (progress, selected)), s2\<lparr>bl_noveltyKeys := keys\<rparr>))))))"

section \<open>What was answered\<close>

definition legacy_mailbox :: "conversation_ref \<Rightarrow> jstr option" where
  "legacy_mailbox c = (if platform c = Qq then Some (js ''qq_'' @ kind_str (ckind c) @ js '':'' @ externalId c) else None)"

definition pending_mailbox :: "agent_message list \<Rightarrow> jstr \<Rightarrow> jstr option \<Rightarrow> mailbox_error + jstr" where
  "pending_mailbox messages canonical legacy =
     bindE (findPendingMailboxThroughRowId messages canonical) (\<lambda>p.
       if p \<noteq> None then Inr canonical
       else (case legacy of
               None \<Rightarrow> Inr canonical
             | Some l \<Rightarrow> bindE (findPendingMailboxThroughRowId messages l) (\<lambda>q. Inr (if q \<noteq> None then l else canonical))))"

datatype marker_error = TargetKey | MarkerError mailbox_error

fun collect_markers :: "agent_message list \<Rightarrow> jstr list \<Rightarrow> conversation_ref list \<Rightarrow> marker_error + agent_message list" where
  "collect_markers messages seen [] = Inr []"
| "collect_markers messages seen (c # cs) =
     (case conversationKey c of
        None \<Rightarrow> Inl TargetKey
      | Some canonical \<Rightarrow>
          (case pending_mailbox messages canonical (legacy_mailbox c) of
             Inl e \<Rightarrow> Inl (MarkerError e)
           | Inr mailbox \<Rightarrow>
               if mailbox \<in> set seen then collect_markers messages seen cs
               else (case findPendingMailboxThroughRowId messages mailbox of
                       Inl e \<Rightarrow> Inl (MarkerError e)
                     | Inr None \<Rightarrow> collect_markers messages (mailbox # seen) cs
                     | Inr (Some n) \<Rightarrow>
                         (case renderMailboxHandledEvent mailbox n of
                            Inl e \<Rightarrow> Inl (MarkerError e)
                          | Inr t \<Rightarrow> bindE (collect_markers messages (mailbox # seen) cs) (\<lambda>ms. Inr (UserMsg t # ms))))))"

definition collectHandledMailboxMarkers :: "bot_host \<Rightarrow> conversation_ref list \<Rightarrow> marker_error + agent_message list" where
  "collectHandledMailboxMarkers h targets = collect_markers (fst (getSnapshot (bh_context h))) [] targets"

end
