(* ===== verification/Loop_Step.thy ===== *)
theory Loop_Step
  imports Loop_Round
begin

text \<open>
  The bot loop, fourth part: \<open>step\<close>, \<open>runOnce\<close> and the loop around them with its start and stop.  What other parts of the
  program do while the loop waits is in \<open>loop_env\<close>: the events that arrive, what a compaction meets, whether the
  loop is asked to stop.
\<close>

section \<open>What a step meets\<close>

text \<open>\<open>le_arrivals\<close> come in while the step writes its events, \<open>le_later\<close> during the rest of the step, and
  \<open>le_waiting\<close> while the loop waits after it, until the wait is over; \<open>le_clock\<close> is the clock of the disclosures.\<close>

record loop_env =
  le_clock :: "nat \<Rightarrow> int"
  le_run :: "compaction_reason \<Rightarrow> run_env"
  le_arrivals :: "bot_event list"
  le_later :: "bot_event list"
  le_waiting :: "bot_event list"
  le_stop :: bool

definition enqueue_all :: "bot_event list \<Rightarrow> 'w bot_loop \<Rightarrow> 'w bot_loop" where
  "enqueue_all es s = s\<lparr>bl_queue := foldl (\<lambda>q e. snd (enqueue e q)) (bl_queue s) es\<rparr>"

section \<open>The beginning of a step\<close>

record staged_events =
  sg_drained :: drained
  sg_messages :: "agent_message list"
  sg_disclosed :: nat
  sg_readCursors :: "read_cursors option"
  sg_continuity :: continuity_state
  sg_lastWakeAt :: "int option"
  sg_discoveryAppended :: bool

definition thinking_phase :: "nat \<Rightarrow> phase_input" where
  "thinking_phase roundIndex = \<lparr>pi_phase = ThinkingPhase, pi_roundIndex = Some (Some (int roundIndex)),
     pi_detail = Some thinking_detail, pi_waitUntil = None\<rparr>"

definition reset_for_events :: "drained \<Rightarrow> 'w bot_loop \<Rightarrow> 'w bot_loop" where
  "reset_for_events dr s =
     (if dr_events dr = [] then s
      else (endAutonomyDiscovery s)\<lparr>bl_failedDirections := 0, bl_noProgressRounds := 0, bl_textCorrectionIssued := False\<rparr>)"

definition report_trigger :: "('x, 't, 'w) loop_deps \<Rightarrow> activity_trigger option \<Rightarrow> 'w bot_loop \<Rightarrow> ('x loop_error + unit) \<times> 'w bot_loop" where
  "report_trigger d t s =
     (case bd_report d (ReportTrigger (bd_clock d (bl_world s)) t) (bl_world s) of
        (Inl e, w) \<Rightarrow> (Inl (ReportFailed e), s\<lparr>bl_world := w\<rparr>)
      | (Inr _, w) \<Rightarrow> (Inr (), s\<lparr>bl_world := w\<rparr>))"

fun loop_disclose_error :: "disclose_error \<Rightarrow> 'x loop_error" where
  "loop_disclose_error (RenderFailed e) = PlanFailed e"
| "loop_disclose_error (EngageFailed e) = EngagementFailed e"

text \<open>Both passes write into the same messages, continuity and wake time.\<close>

definition disclose_all :: "('x, 't, 'w) loop_deps \<Rightarrow> loop_env \<Rightarrow> drained \<Rightarrow> 'w bot_loop \<Rightarrow> 'x loop_error + disclosing" where
  "disclose_all d env dr s =
     (let de = \<lparr>de_nowMs = bd_clock d (bl_world s), de_clock = le_clock env, de_participation = bd_participation d,
            de_renderEvent = bd_renderEvent d\<rparr>;
          g0 = \<lparr>dg_messages = [], dg_continuity = copied_continuity (bl_host s), dg_lastWakeAt = bh_lastWakeAt (bl_host s),
            dg_disclosed = 0, dg_inboxReads = []\<rparr>
      in case discloseEvents de (dr_interrupting dr) g0 of
           Inl e \<Rightarrow> Inl (loop_disclose_error e)
         | Inr g1 \<Rightarrow> (case discloseEvents de (dr_passive dr) g1 of Inl e \<Rightarrow> Inl (loop_disclose_error e) | Inr g2 \<Rightarrow> Inr g2))"

text \<open>A loop that is not stopping never asks the provider with an empty history; discovery adds its prompt once.\<close>

definition bootstrap_messages :: "'w bot_loop \<Rightarrow> agent_message list \<Rightarrow> agent_message list" where
  "bootstrap_messages s ms =
     (if \<not> bl_stopRequested s \<and> fst (getSnapshot (bh_context (bl_host s))) = [] \<and> ms = []
      then [UserMsg CONTINUOUS_AUTONOMY_BOOTSTRAP] else ms)"

definition discovery_due :: "drained \<Rightarrow> 'w bot_loop \<Rightarrow> bool" where
  "discovery_due dr s \<longleftrightarrow> \<not> bl_stopRequested s \<and> bl_discoveryActive s \<and> bl_discoveryPromptPending s \<and> dr_events dr = []"

definition stage_events :: "('x, 't, 'w) loop_deps \<Rightarrow> loop_env \<Rightarrow> 'w bot_loop \<Rightarrow> ('x loop_error + staged_events) \<times> 'w bot_loop" where
  "stage_events d env s =
     (case drainEvents s of
        (Inl e, s1) \<Rightarrow> (Inl e, s1)
      | (Inr dr, s1) \<Rightarrow>
          (let s2 = reset_for_events dr s1 in
           case report_trigger d (describeActivityTrigger (dr_events dr)) s2 of
             (Inl e, s3) \<Rightarrow> (Inl e, s3)
           | (Inr _, s3) \<Rightarrow>
               (case report_phase d (thinking_phase (bl_roundIndex s3 + 1)) s3 of
                  (Inl e, s4) \<Rightarrow> (Inl e, s4)
                | (Inr _, s4) \<Rightarrow>
                    (case disclose_all d env dr s4 of
                       Inl e \<Rightarrow> (Inl e, s4)
                     | Inr g \<Rightarrow>
                         (case advance_reads (dg_inboxReads g) (bh_inboxReadCursors (bl_host s4)) of
                            Inl e \<Rightarrow> (Inl (ReadCursorFailed e), s4)
                          | Inr reads \<Rightarrow>
                              (let ms = bootstrap_messages s4 (dg_messages g); due = discovery_due dr s4 in
                               (Inr \<lparr>sg_drained = dr,
                                     sg_messages = ms @ (if due then [UserMsg (renderAutonomyDiscoveryPrompt s4)] else []),
                                     sg_disclosed = dg_disclosed g,
                                     sg_readCursors = (if dg_inboxReads g = [] then None else Some reads),
                                     sg_continuity = dg_continuity g, sg_lastWakeAt = dg_lastWakeAt g, sg_discoveryAppended = due\<rparr>,
                                s4\<lparr>bl_discoveryPromptPending := (bl_discoveryPromptPending s4 \<and> \<not> due)\<rparr>)))))))"

definition events_patch :: "staged_events \<Rightarrow> runtime_patch" where
  "events_patch g = empty_patch\<lparr>pt_mailboxCursors := Some (cursor_values (dr_cursors (sg_drained g))),
     pt_inboxReadCursors := sg_readCursors g, pt_mailboxContinuity := Some (continuity_props (sg_continuity g)),
     pt_lastWakeAt := Some (sg_lastWakeAt g)\<rparr>"

definition cursors_changed :: "staged_events \<Rightarrow> 'w bot_loop \<Rightarrow> bool" where
  "cursors_changed g s \<longleftrightarrow>
     stringify (JObj (cursor_values (dr_cursors (sg_drained g)))) \<noteq> stringify (JObj (bh_mailboxCursors (bl_host s)))"

text \<open>A commit that fails puts the events back, behind those that have arrived, and the prompt is due again.\<close>

definition commit_staged :: "('x, 't, 'w) loop_deps \<Rightarrow> loop_env \<Rightarrow> staged_events \<Rightarrow> 'w bot_loop \<Rightarrow> ('x loop_error + unit) \<times> 'w bot_loop" where
  "commit_staged d env g s =
     (if sg_messages g = [] \<and> \<not> cursors_changed g s then (Inr (), s)
      else (case commitChanges d (sg_messages g) (Some (events_patch g)) s of
              (Inl e, s1) \<Rightarrow>
                (Inl e, enqueue_all (dr_events (sg_drained g)) (enqueue_all (le_arrivals env)
                   (if sg_discoveryAppended g then s1\<lparr>bl_discoveryPromptPending := True\<rparr> else s1)))
            | (Inr _, s1) \<Rightarrow>
                (let s2 = enqueue_all (le_arrivals env) s1 in
                 (Inr (), if dr_events (sg_drained g) = [] then s2
                          else s2\<lparr>bl_world := bd_onCommitted d (dr_events (sg_drained g)) (bl_world s2)\<rparr>))))"

section \<open>The step\<close>

record step_report =
  st_ranRound :: bool
  st_toolCalls :: int
  st_demand :: loop_demand
  st_recoverableFailure :: bool
  st_onlyHelp :: bool
  st_madeProgress :: bool
  st_restElapsed :: bool
  st_discoveryRound :: bool
  st_continuation :: "continuation_policy option"
  st_continuationDetail :: "jstr option"

definition no_round :: step_report where
  "no_round = \<lparr>st_ranRound = False, st_toolCalls = 0, st_demand = NoDemand, st_recoverableFailure = False, st_onlyHelp = False,
     st_madeProgress = False, st_restElapsed = False, st_discoveryRound = False, st_continuation = None, st_continuationDetail = None\<rparr>"

text \<open>The groups a message was sent to are engaged: the conversation goes on there.\<close>

fun distinct_keys :: "jstr list \<Rightarrow> conversation_ref list \<Rightarrow> jstr list option" where
  "distinct_keys seen [] = Some []"
| "distinct_keys seen (c # cs) =
     (if ckind c \<noteq> GroupChat then distinct_keys seen cs
      else (case conversationKey c of
              None \<Rightarrow> None
            | Some k \<Rightarrow> if k \<in> set seen then distinct_keys seen cs else map_option ((#) k) (distinct_keys (k # seen) cs)))"

fun engage_all :: "int \<Rightarrow> jstr list \<Rightarrow> continuity_state \<Rightarrow> continuity_error + continuity_state" where
  "engage_all nowMs [] c = Inr c"
| "engage_all nowMs (k # ks) c = bindE (recordMailboxEngagement c k nowMs engagement_lease_ms) (engage_all nowMs ks)"

definition settle_sends :: "('x, 't, 'w) loop_deps \<Rightarrow> conversation_ref list \<Rightarrow> 'w bot_loop \<Rightarrow> ('x loop_error + unit) \<times> 'w bot_loop" where
  "settle_sends d targets s =
     (case collectHandledMailboxMarkers (bl_host s) targets of
        Inl TargetKey \<Rightarrow> (Inl TargetKeyFailed, s)
      | Inl (MarkerError e) \<Rightarrow> (Inl (MarkerFailed e), s)
      | Inr markers \<Rightarrow>
          (case distinct_keys [] targets of
             None \<Rightarrow> (Inl TargetKeyFailed, s)
           | Some groups \<Rightarrow>
               (case engage_all (bd_clock d (bl_world s)) groups (copied_continuity (bl_host s)) of
                  Inl e \<Rightarrow> (Inl (EngagementFailed e), s)
                | Inr c \<Rightarrow> commitChanges d markers
                    (if groups = [] then None else Some (empty_patch\<lparr>pt_mailboxContinuity := Some (continuity_props c)\<rparr>)) s)))"

definition maybeCompact :: "('x, 't, 'w) loop_deps \<Rightarrow> loop_env \<Rightarrow> round_report \<Rightarrow> 'w bot_loop \<Rightarrow> ('x loop_error + bool) \<times> 'w bot_loop" where
  "maybeCompact d env r s =
     (case rv_inputTokens r of
        None \<Rightarrow> (Inr False, s)
      | Some n \<Rightarrow> runCompaction d \<lparr>cq_reason = Threshold, cq_contextTokens = n, cq_contextWindowTokens = rv_contextWindowTokens r,
          cq_providerPrefixHeadEntryId = rv_prefixHead r\<rparr> (le_run env Threshold) s)"

definition demand_of :: "bool \<Rightarrow> bool \<Rightarrow> loop_demand" where
  "demand_of attention continuation = (if attention then AttentionDemand else if continuation then ContinuationDemand else NoDemand)"

definition finish_step :: "staged_events \<Rightarrow> bool \<Rightarrow> bool \<Rightarrow> round_report \<Rightarrow> 'w bot_loop \<Rightarrow> step_report \<times> 'w bot_loop" where
  "finish_step g shortWork discovery r s =
     (let attention = hasPendingMailboxAttention (fst (getSnapshot (bh_context (bl_host s)))) (bh_inboxReadCursors (bl_host s));
          continuation = (dr_hadAttention (sg_drained g) \<and> 0 < sg_disclosed g \<or> rv_correctionAppended r \<or> shortWork \<or> rv_workContinuation r)
      in (\<lparr>st_ranRound = True, st_toolCalls = rv_toolCalls r, st_demand = demand_of attention continuation,
           st_recoverableFailure = rv_recoverableFailure r, st_onlyHelp = rv_onlyHelp r, st_madeProgress = rv_madeProgress r,
           st_restElapsed = rv_restElapsed r, st_discoveryRound = discovery, st_continuation = rv_continuation r,
           st_continuationDetail = rv_continuationDetail r\<rparr>,
          s\<lparr>bl_shortWorkPending := rv_workContinuation r,
            bl_textCorrectionIssued := (rv_assistantTextOnly r \<and> (rv_correctionAppended r \<or> bl_textCorrectionIssued s))\<rparr>))"

definition round_phase :: "('x, 't, 'w) loop_deps \<Rightarrow> loop_env \<Rightarrow> staged_events \<Rightarrow> 'w bot_loop \<Rightarrow> ('x loop_error + step_report) \<times> 'w bot_loop" where
  "round_phase d env g s =
     (let shortWork = bl_shortWorkPending s; discovery = bl_discoveryActive s;
          tools = (if discovery then createAutonomyDiscoveryToolExecutor (rn_tools (bd_round d)) else rn_tools (bd_round d)) in
      case runRound d (le_run env Overflow) tools s of
        (Inl e, s1) \<Rightarrow> (Inl e, s1)
      | (Inr r, s1) \<Rightarrow>
          (case settle_sends d (rv_sentTargets r) s1 of
             (Inl e, s2) \<Rightarrow> (Inl e, s2)
           | (Inr _, s2) \<Rightarrow>
               (case maybeCompact d env r s2 of
                  (Inl e, s3) \<Rightarrow> (Inl e, s3)
                | (Inr _, s3) \<Rightarrow> apfst Inr (finish_step g shortWork discovery r s3))))"

definition step :: "('x, 't, 'w) loop_deps \<Rightarrow> loop_env \<Rightarrow> 'w bot_loop \<Rightarrow> ('x loop_error + step_report) \<times> 'w bot_loop" where
  "step d env s =
     (case stage_events d env s of
        (Inl e, s1) \<Rightarrow> (Inl e, s1)
      | (Inr g, s1) \<Rightarrow>
          (case commit_staged d env g s1 of
             (Inl e, s2) \<Rightarrow> (Inl e, s2)
           | (Inr _, s2) \<Rightarrow>
               if fst (getSnapshot (bh_context (bl_host s2))) = [] then (Inr no_round, s2)
               else apsnd (enqueue_all (le_later env)) (round_phase d env g s2)))"

section \<open>After the step\<close>

definition max_correction_rounds :: int where
  "max_correction_rounds = 3"

definition max_no_progress_rounds :: int where
  "max_no_progress_rounds = 2"

definition policy_input :: "bool \<Rightarrow> step_report \<Rightarrow> 'w bot_loop \<Rightarrow> loop_policy_input" where
  "policy_input stopping r s =
     \<lparr>li_ranRound = st_ranRound r, li_stopRequested = stopping, li_toolCallCount = st_toolCalls r, li_demand = st_demand r,
      li_recoverableToolFailure = st_recoverableFailure r, li_onlyHelpToolCalls = st_onlyHelp r,
      li_madeToolProgress = (st_madeProgress r \<or> st_restElapsed r), li_toolContinuation = st_continuation r,
      li_recoverableCorrectionRounds = bl_correctionRounds s, li_maxRecoverableCorrectionRounds = max_correction_rounds,
      li_noProgressRounds = bl_noProgressRounds s, li_maxNoProgressRounds = max_no_progress_rounds\<rparr>"

definition note_decision :: "step_report \<Rightarrow> loop_decision \<Rightarrow> 'w bot_loop \<Rightarrow> 'w bot_loop" where
  "note_decision r dec s =
     (let s1 = s\<lparr>bl_consecutiveRounds := (if st_ranRound r then bl_consecutiveRounds s + 1 else bl_consecutiveRounds s),
            bl_correctionRounds := ld_recoverableCorrectionRounds dec, bl_noProgressRounds := ld_noProgressRounds dec,
            bl_attentionCorrectionIssued := (bl_attentionCorrectionIssued s \<and> st_demand r = AttentionDemand)\<rparr>
      in if st_restElapsed r then beginAutonomyDiscovery RestElapsed s1
         else if st_discoveryRound r \<and> st_madeProgress r then endAutonomyDiscovery (s1\<lparr>bl_failedDirections := 0\<rparr>)
         else if \<not> st_discoveryRound r \<and> st_madeProgress r then s1\<lparr>bl_failedDirections := 0\<rparr>
         else s1)"

text \<open>When every direction has failed, the context is reset by a compaction.\<close>

definition behavioral_reset :: "('x, 't, 'w) loop_deps \<Rightarrow> loop_env \<Rightarrow> step_report \<Rightarrow> loop_decision \<Rightarrow> 'w bot_loop
    \<Rightarrow> ('x loop_error + unit) \<times> 'w bot_loop" where
  "behavioral_reset d env r dec s =
     (if st_discoveryRound r \<and> ld_action dec = WaitEvent NoProgressLimit
      then (let s1 = s\<lparr>bl_failedDirections := bl_failedDirections s + 1\<rparr> in
        if length AUTONOMY_DISCOVERY_DIRECTIONS \<le> bl_failedDirections s1
        then (case runCompaction d \<lparr>cq_reason = BehavioralReset, cq_contextTokens = 0,
                  cq_contextWindowTokens = bl_lastContextWindowTokens s1, cq_providerPrefixHeadEntryId = None\<rparr>
                  (le_run env BehavioralReset) s1 of
                (Inl e, s2) \<Rightarrow> (Inl e, s2)
              | (Inr b, s2) \<Rightarrow> (Inr (), if b then s2\<lparr>bl_failedDirections := 0\<rparr> else s2))
        else (Inr (), s1))
      else (Inr (), s))"

text \<open>A wait ends with an event that fits or by its timer; the waiter is then gone.\<close>

definition wait_or_timeout :: "bot_event wait_for \<Rightarrow> bot_event list \<Rightarrow> bot_event event_queue \<Rightarrow> bool \<times> bot_event event_queue" where
  "wait_or_timeout w arrivals q =
     (let (n, q1) = waitForEvents w False q; q2 = foldl (\<lambda>q e. snd (enqueue e q)) q1 arrivals
      in (n \<in> set (eq_resolved q2), onAbort n q2))"

definition waiting_phase :: "jstr \<Rightarrow> int \<Rightarrow> phase_input" where
  "waiting_phase detail until = \<lparr>pi_phase = WaitingPhase, pi_roundIndex = None, pi_detail = Some detail,
     pi_waitUntil = Some (to_iso_string until)\<rparr>"

definition waitForAttention :: "('x, 't, 'w) loop_deps \<Rightarrow> loop_env \<Rightarrow> jstr \<Rightarrow> 'w bot_loop \<Rightarrow> ('x loop_error + unit) \<times> 'w bot_loop" where
  "waitForAttention d env detail s =
     (case report_phase d (waiting_phase detail (bd_clock d (bl_world s) + bd_retryWaitMs d)) s of
        (Inl e, s1) \<Rightarrow> (Inl e, s1)
      | (Inr _, s1) \<Rightarrow> (Inr (), s1\<lparr>bl_queue := snd (wait_or_timeout (EventWhere isAttentionEvent) (le_waiting env) (bl_queue s1))\<rparr>))"

definition waitForExternalEvent :: "('x, 't, 'w) loop_deps \<Rightarrow> loop_env \<Rightarrow> 'w bot_loop \<Rightarrow> ('x loop_error + unit) \<times> 'w bot_loop" where
  "waitForExternalEvent d env s =
     (case report_phase d (waiting_phase waiting_detail (bd_clock d (bl_world s) + bd_wakeIntervalMs d)) s of
        (Inl e, s1) \<Rightarrow> (Inl e, s1)
      | (Inr _, s1) \<Rightarrow>
          (let (event, q) = wait_or_timeout AnyEvent (le_waiting env) (bl_queue s1);
               s2 = s1\<lparr>bl_consecutiveRounds := 0, bl_queue := q\<rparr>
           in (Inr (), if \<not> event \<and> \<not> bl_stopRequested s2 then beginAutonomyDiscovery IdleTimeout s2 else s2)))"

definition act_on :: "('x, 't, 'w) loop_deps \<Rightarrow> loop_env \<Rightarrow> step_report \<Rightarrow> loop_decision \<Rightarrow> 'w bot_loop \<Rightarrow> ('x loop_error + unit) \<times> 'w bot_loop" where
  "act_on d env r dec s =
     (case ld_action dec of
        StopLoop \<Rightarrow> (Inr (), s)
      | WaitEvent _ \<Rightarrow> waitForExternalEvent d env (endAutonomyDiscovery s)
      | ContinueLoop reason \<Rightarrow>
          if reason = AttentionPending \<and> \<not> bl_attentionCorrectionIssued s
          then (case commitChanges d [UserMsg ATTENTION_REQUIRED_CORRECTION] None s of
                  (Inl e, s1) \<Rightarrow> (Inl e, s1)
                | (Inr _, s1) \<Rightarrow> (Inr (), s1\<lparr>bl_attentionCorrectionIssued := True\<rparr>))
          else (Inr (), s)
      | WaitAttentionBackoff \<Rightarrow> waitForAttention d env (or_else (st_continuationDetail r) backoff_detail) s)"

definition runOnce :: "('x, 't, 'w) loop_deps \<Rightarrow> loop_env \<Rightarrow> 'w bot_loop \<Rightarrow> ('x loop_error + unit) \<times> 'w bot_loop" where
  "runOnce d env s =
     (case step d env s of
        (Inl e, s1) \<Rightarrow> (Inl e, s1)
      | (Inr r, s1) \<Rightarrow>
          (let s2 = s1\<lparr>bl_stopRequested := (bl_stopRequested s1 \<or> le_stop env)\<rparr>;
               dec = decideLoopPolicy (policy_input (bl_stopRequested s2) r s2); s3 = note_decision r dec s2 in
           case behavioral_reset d env r dec s3 of
             (Inl e, s4) \<Rightarrow> (Inl e, s4)
           | (Inr _, s4) \<Rightarrow> act_on d env r dec s4))"

section \<open>The loop\<close>

definition error_phase :: "nat \<Rightarrow> jstr \<Rightarrow> int \<Rightarrow> phase_input" where
  "error_phase roundIndex msg until = \<lparr>pi_phase = ErrorPhase, pi_roundIndex = Some (Some (int roundIndex)),
     pi_detail = Some (take surface_text_cap msg), pi_waitUntil = Some (to_iso_string until)\<rparr>"

text \<open>A turn that fails is reported and the loop goes on after a pause; what the report of the failure throws leaves the
  loop.  \<open>say\<close> gives the message of an error.\<close>

definition loop_turn :: "('x, 't, 'w) loop_deps \<Rightarrow> ('x loop_error \<Rightarrow> jstr) \<Rightarrow> loop_env \<Rightarrow> 'w bot_loop
    \<Rightarrow> ('x loop_error + unit) \<times> 'w bot_loop" where
  "loop_turn d say env s =
     (case runOnce d env s of
        (Inr _, s1) \<Rightarrow> (Inr (), s1)
      | (Inl e, s1) \<Rightarrow> report_phase d (error_phase (bl_roundIndex s1) (say e) (bd_clock d (bl_world s1) + bd_errorBackoffMs d)) s1)"

fun loop :: "('x, 't, 'w) loop_deps \<Rightarrow> ('x loop_error \<Rightarrow> jstr) \<Rightarrow> loop_env list \<Rightarrow> 'w bot_loop \<Rightarrow> ('x loop_error + unit) \<times> 'w bot_loop" where
  "loop d say [] s = (Inr (), s)"
| "loop d say (env # envs) s =
     (if bl_stopRequested s then (Inr (), s)
      else (case loop_turn d say env s of
              (Inl e, s1) \<Rightarrow> (Inl e, s1)
            | (Inr _, s1) \<Rightarrow> loop d say envs s1))"

definition plain_phase :: "activity_phase \<Rightarrow> int option option \<Rightarrow> jstr \<Rightarrow> phase_input" where
  "plain_phase p roundIndex detail = \<lparr>pi_phase = p, pi_roundIndex = roundIndex, pi_detail = Some detail, pi_waitUntil = None\<rparr>"

definition start_loop :: "('x, 't, 'w) loop_deps \<Rightarrow> ('x loop_error \<Rightarrow> jstr) \<Rightarrow> loop_env list \<Rightarrow> 'w bot_loop \<Rightarrow> ('x loop_error + unit) \<times> 'w bot_loop" where
  "start_loop d say envs s =
     (case report_phase d (plain_phase StartingPhase (Some None) starting_detail) (s\<lparr>bl_stopRequested := False\<rparr>) of
        (Inl e, s1) \<Rightarrow> (Inl e, s1)
      | (Inr _, s1) \<Rightarrow>
          (let (res, s2) = loop d say envs s1 in
           case report_phase d (plain_phase StoppedPhase None stopped_detail) s2 of
             (Inl e, s3) \<Rightarrow> (Inl e, s3)
           | (Inr _, s3) \<Rightarrow> (res, s3)))"

text \<open>The surface is told first; the compaction's abort signal is in \<open>le_run\<close>.\<close>

definition stop_loop :: "('x, 't, 'w) loop_deps \<Rightarrow> 'w bot_loop \<Rightarrow> ('x loop_error + unit) \<times> 'w bot_loop" where
  "stop_loop d s =
     (case report_phase d (plain_phase StoppingPhase None stopping_detail) (s\<lparr>bl_stopRequested := True\<rparr>) of
        (Inl e, s1) \<Rightarrow> (Inl e, s1)
      | (Inr _, s1) \<Rightarrow> (Inr (), enqueue_all [Wake] s1))"

end
