(* ===== verification/Loop_Recorded.thy ===== *)
theory Loop_Recorded
  imports Loop_Disclosure Event_Properties Loop_Step Runtime_Properties
begin

text \<open>
  What the texts of a step tell about the plan: every batch and backlog is in one of them, and the rest say nothing
  about mailboxes.
\<close>

section \<open>Owed rows\<close>

lemma owed_append: "owed (xs @ ys) = owed xs \<union> owed ys"
  by (auto simp: owed_def)

lemma owed_Cons: "owed (x # xs) = owed [x] \<union> owed xs"
  using owed_append [of "[x]" xs] by simp

lemma owed_single:
  "owed [MailboxDisclosure k ms] = {(k, messageRowId (last ms))}"
  "owed [BacklogDisclosure b] = {(mb_mailboxKey b, mb_throughRowId b)}"
  "owed [DirectDisclosure e] = {}" "owed [] = {}"
  by (auto simp: owed_def)

lemma owed_set: "set xs = set ys \<Longrightarrow> owed xs = owed ys"
  by (auto simp: owed_def)

section \<open>Direct batches\<close>

definition disclosure_of_pair :: "jstr \<times> mailbox_message list \<Rightarrow> mailbox_disclosure" where
  "disclosure_of_pair p = MailboxDisclosure (fst p) (snd p)"

lemma should_direct_mailbox: "shouldDirectMailboxDisclosure cont nowMs m \<Longrightarrow> \<exists>k ms. m = MailboxDisclosure k ms"
  by (cases m) (auto simp: shouldDirectMailboxDisclosure_def)

text \<open>A batch that has grown is the run of disclosures before the rest, and its text is the delta of the whole batch.\<close>

lemma grow_batch_covers:
  assumes "grow_batch cont nowMs batch content ms = Inr (batch', content', rest)"
    and "content = None \<or> renderMailboxDeltaBatch batch = Inr content" "content = None \<longrightarrow> batch = []"
  shows "\<exists>new. batch' = batch @ new \<and> ms = map disclosure_of_pair new @ rest
    \<and> (\<forall>t. content' = Some t \<longrightarrow> renderMailboxDeltaBatch batch' = Inr (Some t))"
  using assms
proof (induction cont nowMs batch content ms rule: grow_batch.induct)
  case (1 cont nowMs batch content)
  then show ?case by auto
next
  case (2 cont nowMs batch content m ms)
  show ?case
  proof (cases "shouldDirectMailboxDisclosure cont nowMs m")
    case True
    let ?c = "batch @ [(md_mailboxKey m, md_events m)]"
    obtain k xs where m: "m = MailboxDisclosure k xs" using should_direct_mailbox [OF True] by blast
    show ?thesis
    proof (cases "renderMailboxDeltaBatch ?c")
      case (Inr r)
      show ?thesis
      proof (cases r)
        case None
        then show ?thesis using 2 Inr True by (auto simp: Let_def)
      next
        case (Some c)
        have g: "grow_batch cont nowMs ?c (Some c) ms = Inr (batch', content', rest)"
          using 2(2) True Inr Some by (simp add: Let_def)
        obtain new where "batch' = ?c @ new" "ms = map disclosure_of_pair new @ rest"
            "\<forall>t. content' = Some t \<longrightarrow> renderMailboxDeltaBatch batch' = Inr (Some t)"
          using "2.IH" [OF _ refl Inr Some g] True Inr Some by auto
        then show ?thesis by (intro exI [of _ "(md_mailboxKey m, md_events m) # new"]) (simp add: m disclosure_of_pair_def)
      qed
    qed (use 2(2) True in \<open>simp add: Let_def\<close>)
  qed (use 2 in auto)
qed

lemma record_batch_messages: "record_batch nowMs ps g = Inr g' \<Longrightarrow> dg_messages g' = dg_messages g"
  by (induction ps arbitrary: g) (auto simp: bindE_Inr_iff record_direct_def count_disclosed_def Let_def split_beta)

section \<open>The texts\<close>

definition written :: "disclose_env \<Rightarrow> mailbox_disclosure list \<Rightarrow> jstr \<Rightarrow> (jstr \<times> int) list \<Rightarrow> bool" where
  "written env ds t rs \<longleftrightarrow> shown_text ds t rs
     \<or> rs = [] \<and> (\<exists>e. DirectDisclosure e \<in> set ds \<and> de_renderEvent env e = Inr (Some t))"

definition texts_added :: "disclose_env \<Rightarrow> mailbox_disclosure list \<Rightarrow> mailbox_disclosure list \<Rightarrow> disclosing \<Rightarrow> disclosing \<Rightarrow> bool" where
  "texts_added env ds ms g g' \<longleftrightarrow> (\<exists>ts rss. dg_messages g' = dg_messages g @ map UserMsg ts
     \<and> list_all2 (written env ds) ts rss \<and> owed ms \<subseteq> set (concat rss))"

lemma texts_added_nil: "owed ms = {} \<Longrightarrow> dg_messages g' = dg_messages g \<Longrightarrow> texts_added env ds ms g g'"
  by (force simp: texts_added_def)

lemma texts_added_one:
  "dg_messages g' = dg_messages g @ [UserMsg t] \<Longrightarrow> written env ds t rs \<Longrightarrow> owed ms \<subseteq> set rs \<Longrightarrow> texts_added env ds ms g g'"
  by (force simp: texts_added_def intro: exI [of _ "[t]"] exI [of _ "[rs]"])

lemma texts_added_trans:
  assumes "texts_added env ds xs g g1" "texts_added env ds ys g1 g2"
  shows "texts_added env ds (xs @ ys) g g2"
proof -
  obtain ts rss where a: "dg_messages g1 = dg_messages g @ map UserMsg ts" "list_all2 (written env ds) ts rss" "owed xs \<subseteq> set (concat rss)"
    using assms(1) by (auto simp: texts_added_def)
  obtain ts' rss' where b: "dg_messages g2 = dg_messages g1 @ map UserMsg ts'" "list_all2 (written env ds) ts' rss'" "owed ys \<subseteq> set (concat rss')"
    using assms(2) by (auto simp: texts_added_def)
  have "dg_messages g2 = dg_messages g @ map UserMsg (ts @ ts')" "list_all2 (written env ds) (ts @ ts') (rss @ rss')"
    "owed (xs @ ys) \<subseteq> set (concat (rss @ rss'))"
    using a b by (auto simp: owed_append list_all2_appendI)
  then show ?thesis unfolding texts_added_def by blast
qed

lemma context_before_safe: "safe_int (cd_contextBefore (decideMailboxCompensation c k t))"
  by (auto simp: decideMailboxCompensation_def Let_def safe_int_def max_safe_def full_context_before_def light_context_before_def
      split: option.splits prod.splits)

lemma disclose_one_texts:
  assumes "disclose_one env m g = Inr g'" "m \<in> set ds"
  shows "texts_added env ds [m] g g'"
proof (cases m)
  case (DirectDisclosure e)
  show ?thesis
  proof (cases "e = Wake \<or> (\<exists>t. de_renderEvent env e = Inr t \<and> (t = None \<or> t = Some []))")
    case True
    then show ?thesis using assms(1) DirectDisclosure
      by (auto simp: discloseDirect_def owed_single intro!: texts_added_nil split: if_splits)
  next
    case False
    then obtain t where t: "de_renderEvent env e = Inr (Some t)" "t \<noteq> []"
      using assms(1) DirectDisclosure by (auto simp: discloseDirect_def split: sum.splits option.splits if_splits)
    have "dg_messages g' = dg_messages g @ [UserMsg t]"
      using assms(1) DirectDisclosure False t by (auto simp: discloseDirect_def push_user_def count_disclosed_def wake_now_def Let_def split: if_splits)
    moreover have "written env ds t []" using t(1) DirectDisclosure assms(2) unfolding written_def by blast
    ultimately show ?thesis using DirectDisclosure by (auto intro!: texts_added_one simp: owed_single)
  qed
next
  case (MailboxDisclosure k ms)
  let ?cb = "cd_contextBefore (decideMailboxCompensation (dg_continuity g) k (sentAt (last ms)))"
  let ?before = "if 0 < ?cb then Some ?cb else None"
  let ?part = "Option.bind (message_group (hd ms)) (de_participation env)"
  obtain t where t: "renderMailboxNotification k ms ?before ?part = Inr t"
      "dg_messages g' = dg_messages g @ [UserMsg t]"
    using assms(1) MailboxDisclosure
    by (auto simp: discloseMailbox_def Let_def push_user_def count_disclosed_def wake_now_def split: sum.splits)
  have "MailboxDisclosure k ms \<in> set ds" using assms(2) MailboxDisclosure by simp
  moreover have "\<forall>n. ?before = Some n \<longrightarrow> safe_int n" using context_before_safe by auto
  ultimately have "shown_text ds t [(k, messageRowId (last ms))]" using t(1) by (rule shown_notification)
  then show ?thesis using t(2) MailboxDisclosure by (auto intro!: texts_added_one simp: owed_single written_def)
next
  case (BacklogDisclosure b)
  obtain t where t: "renderMailboxBacklogNotification b (Option.bind (source_group (mb_source b)) (de_participation env)) = Inr t"
      "dg_messages g' = dg_messages g @ [UserMsg t]"
    using assms(1) BacklogDisclosure
    by (auto simp: discloseBacklog_def Let_def push_user_def count_disclosed_def wake_now_def split: sum.splits)
  have "BacklogDisclosure b \<in> set ds" using assms(2) BacklogDisclosure by simp
  from shown_backlog [OF this t(1)] show ?thesis using t(2) BacklogDisclosure
    by (auto intro!: texts_added_one simp: owed_single written_def)
qed

lemma batch_owed: "owed (map disclosure_of_pair bs) = set (map (\<lambda>(k, ms). (k, messageRowId (last ms))) bs)"
  by (induction bs) (auto simp: owed_Cons [of _ "map _ _"] owed_single disclosure_of_pair_def split_beta)

lemma discloseEvents_texts:
  assumes "discloseEvents env ms g = Inr g'" "set ms \<subseteq> set ds"
  shows "texts_added env ds ms g g'"
  using assms
proof (induction env ms g rule: discloseEvents.induct)
  case (1 env ms g)
  show ?case
  proof (cases ms)
    case Nil
    then show ?thesis using 1(4) by (simp add: discloseEvents.simps texts_added_nil owed_single)
  next
    case (Cons m rest)
    have single: "texts_added env ds ms g g'" if d1: "disclose_one env m g = Inr g1" and d2: "discloseEvents env rest g1 = Inr g'"
      and ih: "texts_added env ds rest g1 g'" for g1
      using texts_added_trans [OF disclose_one_texts [OF d1] ih] 1(5) Cons by simp
    show ?thesis
    proof (cases "shouldDirectMailboxDisclosure (dg_continuity g) (de_nowMs env) m")
      case False
      then obtain g1 where g1: "disclose_one env m g = Inr g1" "discloseEvents env rest g1 = Inr g'"
        using 1(4) Cons by (auto simp: discloseEvents.simps [of env "m # rest"] split: sum.splits)
      then show ?thesis using single 1(3) [OF Cons False g1(1)] g1 1(5) Cons by simp
    next
      case True
      obtain batch content later where gb: "grow_batch (dg_continuity g) (de_nowMs env) [] None (m # rest) = Inr (batch, content, later)"
        using 1(4) Cons True by (cases "grow_batch (dg_continuity g) (de_nowMs env) [] None (m # rest)")
          (auto simp: discloseEvents.simps [of env "m # rest"])
      obtain new where new: "batch = new" "m # rest = map disclosure_of_pair new @ later"
          "\<forall>t. content = Some t \<longrightarrow> renderMailboxDeltaBatch batch = Inr (Some t)"
        using grow_batch_covers [OF gb] by auto
      show ?thesis
      proof (cases content)
        case None
        then obtain g1 where g1: "disclose_one env m g = Inr g1" "discloseEvents env rest g1 = Inr g'"
          using 1(4) Cons True gb by (auto simp: discloseEvents.simps [of env "m # rest"] split: sum.splits)
        have sub: "set rest \<subseteq> set ds" using 1(5) Cons by simp
        show ?thesis by (rule single [OF g1 1(1) [OF Cons True gb refl refl None g1 sub]])
      next
        case (Some t)
        then obtain g1 where g1: "record_batch (de_nowMs env) batch (push_user t g) = Inr g1"
            "discloseEvents env later (wake_now env g1) = Inr g'"
          using 1(4) Cons True gb by (auto simp: discloseEvents.simps [of env "m # rest"] split: sum.splits)
        have sub: "set later \<subseteq> set ds" "set (map disclosure_of_pair batch) \<subseteq> set ds" using 1(5) Cons new by auto
        have ih: "texts_added env ds later (wake_now env g1) g'"
          using 1(2) [OF Cons True gb refl refl Some g1(1) g1(2) sub(1)] by simp
        have msgs: "dg_messages (wake_now env g1) = dg_messages g @ [UserMsg t]"
          using record_batch_messages [OF g1(1)] by (simp add: wake_now_def push_user_def)
        have "\<forall>(k, xs) \<in> set batch. MailboxDisclosure k xs \<in> set ds" using sub(2) by (auto simp: disclosure_of_pair_def)
        from shown_delta [OF this] new(3) Some
        have "written env ds t (map (\<lambda>(k, ms). (k, messageRowId (last ms))) batch)" by (simp add: written_def)
        from texts_added_one [OF msgs this, of "map disclosure_of_pair batch"] batch_owed [of batch]
        have "texts_added env ds (map disclosure_of_pair batch) g (wake_now env g1)" by simp
        from texts_added_trans [OF this ih] show ?thesis using new Cons by simp
      qed
    qed
  qed
qed

text \<open>
  The history records what a step takes from the queue: the texts of the other events and the prompts of the loop
  say nothing about mailboxes, so the attention state of the history moves exactly with the cursors.
\<close>

section \<open>Texts that say nothing about mailboxes\<close>

definition quiet_text :: "jstr \<Rightarrow> bool" where
  "quiet_text t \<longleftrightarrow> message_cursors (UserMsg t) = []"

lemma array_text_quiet: "quiet_text (91 # t)"
proof -
  have s: "skip_space (91 # t) = 91 # t" by (simp add: skip_space_def json_space_def)
  have "json_parse (91 # t) = None \<or> (\<exists>vs. json_parse (91 # t) = Some (JArr vs))"
    by (auto simp: json_parse_def s split: option.splits)
  then show ?thesis by (auto simp: quiet_text_def parseJsonObject_def as_record_def)
qed

text \<open>An object whose event is none of those that mention mailboxes.\<close>

lemma event_text_quiet:
  assumes "jwf (JObj ps)" "obj_get ps (js ''event'') = JStr e"
    and "e \<notin> {js ''mailbox_attention_state'', js ''conversation_deltas'', js ''inbox_update'', js ''mailbox_handled''}"
    and "e = js ''notification'' \<longrightarrow> obj_get ps (js ''kind'') \<noteq> JStr (js ''inbox_update'')"
  shows "quiet_text (stringify (JObj ps))"
proof -
  have "parseJsonObject (stringify (JObj ps)) = Some ps"
    using json_parse_stringify [OF assms(1)] by (simp add: parseJsonObject_def as_record_def)
  moreover have "payload_cursors ps = []"
    using assms(2-4) by (auto simp: payload_cursors_def parseMailboxAttentionStatePayload_def parseMailboxDisclosures_def Let_def
        split: option.splits)
  ultimately show ?thesis by (simp add: quiet_text_def)
qed

lemma runtime_event_quiet:
  assumes "js e \<notin> {js ''mailbox_attention_state'', js ''conversation_deltas'', js ''inbox_update'', js ''mailbox_handled'', js ''notification''}"
  shows "quiet_text (runtime_event e c t)"
proof -
  have "jwf (JObj [(js ''event'', JStr (js e)), (js ''code'', JStr (js c)), (js ''instruction'', JStr t)])"
    by (rule jwf_objI [of _ "[js ''event'', js ''code'', js ''instruction'']"]) (simp_all add: keys_within_def is_digit_def)
  then show ?thesis unfolding runtime_event_def by (rule event_text_quiet [where e = "js e"]) (use assms in simp_all)
qed

lemma bootstrap_quiet: "quiet_text CONTINUOUS_AUTONOMY_BOOTSTRAP"
  unfolding CONTINUOUS_AUTONOMY_BOOTSTRAP_def by (rule runtime_event_quiet) (simp add: js_def)

lemma discovery_quiet: "quiet_text (renderAutonomyDiscoveryPrompt s)"
proof -
  have inner: "jwf (JObj [(js ''id'', JStr x), (js ''instruction'', JStr y)])" for x y
    by (rule jwf_objI [of _ "[js ''id'', js ''instruction'']"]) (simp_all add: keys_within_def is_digit_def)
  have "jwf (JObj [(js ''event'', JStr (js ''runtime_autonomy_tick'')), (js ''source'', JStr a), (js ''code'', JStr b),
      (js ''direction'', JObj [(js ''id'', JStr x), (js ''instruction'', JStr y)]), (js ''instruction'', JStr z)])" for a b x y z
    by (rule jwf_objI [of _ "[js ''event'', js ''source'', js ''code'', js ''direction'', js ''instruction'']"])
      (use inner in \<open>simp_all add: keys_within_def is_digit_def del: jwf.simps(6)\<close>)
  then show ?thesis unfolding renderAutonomyDiscoveryPrompt_def by (rule event_text_quiet [where e = "js ''runtime_autonomy_tick''"]) simp_all
qed

lemma background_quiet: "quiet_text (stringify (JObj (envelope_jv (background_input i n ok))))"
proof -
  let ?st = "if ok then js ''completed'' else js ''failed''"
  have src: "jwf (JObj [(js ''type'', JStr (js ''background_task'')), (js ''taskId'', JStr i), (js ''toolName'', JStr n)])"
    by (rule jwf_objI [of _ "[js ''type'', js ''taskId'', js ''toolName'']"]) (simp_all add: keys_within_def is_digit_def)
  have args: "jwf (JObj [(js ''action'', JStr (js ''get'')), (js ''taskId'', JStr i)])"
    by (rule jwf_objI [of _ "[js ''action'', js ''taskId'']"]) (simp_all add: keys_within_def is_digit_def)
  have opn: "jwf (JObj [(js ''tool'', JStr (js ''background_task'')), (js ''args'', JObj [(js ''action'', JStr (js ''get'')), (js ''taskId'', JStr i)])])"
    by (rule jwf_objI [of _ "[js ''tool'', js ''args'']"]) (use args in \<open>simp_all add: keys_within_def is_digit_def del: jwf.simps(6)\<close>)
  have dat: "jwf (JObj [(js ''status'', JStr ?st)])"
    by (rule jwf_objI [of _ "[js ''status'']"]) (simp_all add: keys_within_def is_digit_def)
  have "jwf (JObj (envelope_jv (background_input i n ok)))"
    by (rule jwf_objI [of _ "[js ''event'', js ''id'', js ''source'', js ''kind'', js ''priority'', js ''delivery'', js ''groupKey'',
          js ''count'', js ''open'', js ''data'']"])
      (use src opn dat in \<open>simp_all add: keys_within_def is_digit_def envelope_jv_def background_input_def opt_prop_def safe_jwf Let_def
        safe_int_def max_safe_def del: jwf.simps(6)\<close>)
  then show ?thesis by (rule event_text_quiet [where e = "js ''notification''"]) (simp_all add: envelope_jv_def background_input_def Let_def)
qed

lemma schedule_quiet: "quiet_text (schedule_text i n t)"
  unfolding schedule_text_def
  by (rule event_text_quiet [where e = "js ''notification''", OF schedule_jwf]) (simp_all add: envelope_jv_def schedule_input_def)

text \<open>What the loop renders directly is quiet.\<close>

lemma direct_text_quiet:
  assumes "renderBotEvent e = Inr (Some t)" "mailboxKeyForEvent e = Inr None"
  shows "quiet_text t"
proof (cases e)
  case Bootstrap
  then have "t = BOOTSTRAP_TEXT" using assms(1) by simp
  then show ?thesis unfolding BOOTSTRAP_TEXT_def using array_text_quiet by simp
next
  case (ScheduledWake i n s)
  then show ?thesis using assms(1) schedule_quiet [of i n s] by auto
next
  case (BackgroundTaskCompleted i n d ms ok tx)
  then have "t = stringify (JObj (envelope_jv (background_input i n ok)))"
    using assms(1) by (auto simp: renderNotificationEnvelope_def bindE_Inr_iff split: if_splits)
  then show ?thesis using background_quiet by simp
qed (use assms in \<open>auto simp: bindE_Inr_iff\<close>)

section \<open>The plan and the history\<close>

lemma plan_direct_event:
  assumes "planMailboxDisclosures es cs = Inr p" "DirectDisclosure e \<in> set (dp_disclosures p)" "\<forall>e \<in> set es. event_ok e"
  shows "mailboxKeyForEvent e = Inr None"
proof -
  have "e \<in> set (disclosed_events (dp_disclosures p))"
    using assms(2) by (auto simp: disclosed_events_def intro!: bexI [of _ "DirectDisclosure e"])
  moreover have "set (disclosed_events (dp_disclosures p)) = set (admitted (cursor_of cs) es)"
    using planMailboxDisclosures_inv [OF assms(1)] unfolding plan_inv_def by (metis set_mset_mset)
  ultimately have "event_ok e" using assms(3) admitted_subset by blast
  moreover have "mailbox_of e = None" by (rule plan_direct [OF assms(1,2)])
  ultimately show ?thesis by (cases e) (auto simp: event_ok_def mailbox_of_def)
qed

lemma quiet_texts_disclosed:
  assumes "list_all quiet_text ts"
  shows "messages_attention (map UserMsg ts) = bot"
  using assms by (induction ts) (simp_all add: messages_attention_def quiet_text_def attention_sum_def del: message_cursors.simps)

end
