(* ===== verification/Loop_Events.thy ===== *)
theory Loop_Events
  imports Loop_Step Loop_Recorded Coordinator_Facts
begin

text \<open>
  What the loop writes into the runtime state stays valid: the cursors of a plan, the read cursors, and the
  continuity after any disclosure, engagement or round.
\<close>

section \<open>Copies that are written\<close>

lemma clone_record:
  assumes "json_value (JObj ps)" "finite_numbers (JObj ps)"
  shows "cloneJsonObject (JObj ps) p = Inr (sort_props ps)"
  using clone_finite [OF assms, of p] by (simp add: cloneJsonObject_Inr)

text \<open>Cursors as the plan keeps them.\<close>

definition cursors_wf :: "mailbox_cursors \<Rightarrow> bool" where
  "cursors_wf cs \<longleftrightarrow> distinct (map fst cs) \<and> (\<forall>(k, i) \<in> set cs. is_mailbox_key k \<and> small i)"

lemma cursor_keys [simp]: "map fst (cursor_values cs) = map fst cs" "map fst (cursor_numbers ps) = map fst ps"
  by (simp_all add: cursor_values_def cursor_numbers_def comp_def case_prod_beta)

lemma cursors_copy:
  assumes "cursors_wf cs"
  shows "cloneJsonObject (JObj (cursor_values cs)) p = Inr (sort_props (cursor_values cs))"
    and "cursors_ok (JObj (sort_props (cursor_values cs)))"
    and "set (cursor_numbers (sort_props (cursor_values cs))) = set cs"
proof -
  have d: "distinct (obj_keys (cursor_values cs))" using assms by (simp add: cursors_wf_def)
  show "cloneJsonObject (JObj (cursor_values cs)) p = Inr (sort_props (cursor_values cs))"
    by (rule clone_record) (use d in \<open>auto simp: cursor_values_def\<close>)
  have s: "set (sort_props (cursor_values cs)) = (\<lambda>(k, i). (k, jint i)) ` set cs"
    by (simp add: sort_props_spec(1) [OF d]) (force simp: cursor_values_def image_iff)
  show "cursors_ok (JObj (sort_props (cursor_values cs)))"
    using assms by (auto simp: cursors_ok_def as_record_def s cursors_wf_def)
  show "set (cursor_numbers (sort_props (cursor_values cs))) = set cs"
    by (auto simp: cursor_numbers_def s image_image split_beta)
qed

lemma cursor_of_set: "distinct (map fst cs) \<Longrightarrow> distinct (map fst ds) \<Longrightarrow> set cs = set ds \<Longrightarrow> cursor_of cs k = cursor_of ds k"
  unfolding cursor_of_def by (metis map_of_inject_set map_of_eqI map_of_is_SomeI)

text \<open>The continuity: sound, and one anchor for each mailbox.\<close>

definition continuity_wf :: "continuity_state \<Rightarrow> bool" where
  "continuity_wf c \<longleftrightarrow> continuity_ok c \<and> distinct (map fst (cs_mailboxes c))"

lemma continuity_jv_props: "continuity_jv c = JObj (continuity_props c)"
  by (simp add: continuity_props_def continuity_jv_def)

lemma anchor_keys: "distinct (obj_keys ([(js ''lastMessageAtMs'', jint (ca_lastMessageAtMs a)), (js ''roundSeq'', jint (ca_roundSeq a)),
     (js ''inputTokens'', null_or jint (ca_inputTokens a)), (js ''compactionEpoch'', jint (ca_compactionEpoch a))]
     @ opt_prop ''engagedUntilMs'' jint (ca_engagedUntilMs a)))"
  by (simp add: opt_prop_def split: option.splits)

lemma anchor_value: "json_value (anchor_jv a)" "finite_numbers (anchor_jv a)"
  using anchor_keys [of a] by (auto simp: anchor_jv_def opt_prop_def null_or_def split: option.splits)

lemma null_not_bad: "\<not> bad_optional_int JNull"
  by (simp add: bad_optional_int_def)

lemma anchor_sorted: "is_mailbox_key k \<Longrightarrow> anchor_ok a \<Longrightarrow> validateAnchor k (sortJson (anchor_jv a)) = []"
  by (cases "ca_engagedUntilMs a"; cases "ca_inputTokens a")
    (simp_all add: validateAnchor_def anchor_jv_def as_record_def anchor_ok_def obj_get_sort_props [OF anchor_keys, simplified]
      obj_get_append opt_prop_def null_or_def obj_get_sort_props null_not_bad)

lemma continuity_keys: "distinct (obj_keys (continuity_props c))"
  by (simp add: continuity_props_def continuity_jv_def)

lemma continuity_copy:
  assumes "continuity_wf c"
  shows "cloneJsonObject (JObj (continuity_props c)) p = Inr (sort_props (continuity_props c))"
    and "validateMailboxContinuity (JObj (sort_props (continuity_props c))) = []"
proof -
  let ?ms = "map (\<lambda>(k, a). (k, anchor_jv a)) (cs_mailboxes c)"
  have d: "distinct (obj_keys ?ms)" using assms by (simp add: continuity_wf_def comp_def case_prod_beta)
  have v: "json_value (JObj ?ms)" "finite_numbers (JObj ?ms)" using d anchor_value by auto
  show "cloneJsonObject (JObj (continuity_props c)) p = Inr (sort_props (continuity_props c))"
    by (rule clone_record) (use v in \<open>auto simp: continuity_props_def continuity_jv_def null_or_def split: option.splits\<close>)
  note get = obj_get_sort_props [OF continuity_keys [of c]]
  have g: "obj_get (continuity_props c) (js ''roundSeq'') = jint (cs_roundSeq c)"
      "obj_get (continuity_props c) (js ''compactionEpoch'') = jint (cs_compactionEpoch c)"
      "obj_get (continuity_props c) (js ''lastInputTokens'') = null_or jint (cs_lastInputTokens c)"
      "obj_get (continuity_props c) (js ''mailboxes'') = JObj ?ms"
    by (simp_all add: continuity_props_def continuity_jv_def)
  have anchors: "validateAnchor k x = []" if "(k, x) \<in> set (sort_props ?ms)" for k x
    using that assms by (auto simp: sort_props_spec(1) [OF d] continuity_wf_def continuity_ok_def intro!: anchor_sorted)
  have tokens: "sortJson (null_or jint x) = null_or jint x" for x by (cases x) (simp_all add: null_or_def)
  show "validateMailboxContinuity (JObj (sort_props (continuity_props c))) = []"
    using assms anchors
    by (auto simp: validateMailboxContinuity_def as_record_def get g tokens continuity_wf_def continuity_ok_def simp del: sort_props_spec)
qed

section \<open>Patches\<close>

lemma patched_valid:
  assumes "parseAgentRuntimeState (runtime_state_jv (patched_state rs p head)) = Inr nx" "runtime_norm rs" "runtime_valid rs"
    and "pt_mailboxCursors p = None \<or> (\<exists>cs. pt_mailboxCursors p = Some (cursor_values cs) \<and> cursors_wf cs)"
    and "pt_mailboxContinuity p = None \<or> (\<exists>c. pt_mailboxContinuity p = Some (continuity_props c) \<and> continuity_wf c)"
  shows "runtime_valid nx"
    and "pt_mailboxCursors p = Some (cursor_values cs) \<Longrightarrow> cursors_wf cs \<Longrightarrow> rs_mailboxCursors nx = sort_props (cursor_values cs)"
proof -
  note row = assms(1) [unfolded runtime_state_row runtime_row_Inr]
  note pp = parse_patched [OF assms(1,2)]
  show cur: "rs_mailboxCursors nx = sort_props (cursor_values cs)"
    if "pt_mailboxCursors p = Some (cursor_values cs)" "cursors_wf cs" for cs
    using row that cursors_copy(1) [OF that(2)] by (simp add: row_of_state_def patched_state_def or_else_def)
  have "cursors_ok (JObj (rs_mailboxCursors nx))"
    using assms(4) pp(5) assms(3) cur cursors_copy(2) by (auto simp: runtime_valid_def)
  moreover have "validateMailboxContinuity (JObj (rs_mailboxContinuity nx)) = []"
    using assms(5)
  proof
    assume "\<exists>c. pt_mailboxContinuity p = Some (continuity_props c) \<and> continuity_wf c"
    then obtain c where c: "pt_mailboxContinuity p = Some (continuity_props c)" "continuity_wf c" by blast
    then have "rs_mailboxContinuity nx = sort_props (continuity_props c)"
      using row continuity_copy(1) [OF c(2)] by (simp add: row_of_state_def patched_state_def or_else_def)
    then show ?thesis using continuity_copy(2) [OF c(2)] by simp
  qed (use pp(6) assms(3) in \<open>simp add: runtime_valid_def\<close>)
  moreover have "focus_ok (rs_focus nx)" using pp(3) by (simp add: runtime_norm_def)
  ultimately show "runtime_valid nx" by (simp add: runtime_valid_def)
qed

section \<open>The continuity stays well-formed\<close>

lemma set_anchor_wf:
  assumes "continuity_wf c" "is_mailbox_key k" "anchor_ok a"
  shows "continuity_wf (set_anchor c k a)"
proof -
  have "p \<in> set (obj_put (cs_mailboxes c) k a) \<Longrightarrow> p \<in> set (cs_mailboxes c) \<or> p = (k, a)" for p
    by (auto simp: obj_put_def mailbox_key_not_index [OF assms(2)] split: if_splits)
  then show ?thesis
    using assms by (force simp: continuity_wf_def continuity_ok_def set_anchor_def obj_put_distinct_keys)
qed

lemma anchor_of_ok: "continuity_wf c \<Longrightarrow> anchor_of c k = Some a \<Longrightarrow> anchor_ok a"
  by (auto simp: continuity_wf_def continuity_ok_def anchor_of_def dest!: map_of_SomeD)

lemma continuity_wf_small:
  "continuity_wf c \<Longrightarrow> small (cs_roundSeq c) \<and> small_opt (cs_lastInputTokens c) \<and> small (cs_compactionEpoch c)"
  by (simp add: continuity_wf_def continuity_ok_def)

lemma disclosure_wf: "continuity_wf c \<Longrightarrow> is_mailbox_key k \<Longrightarrow> small t \<Longrightarrow> continuity_wf (recordMailboxDisclosure c k t)"
  using anchor_of_ok [of c k] unfolding recordMailboxDisclosure_def
  by (auto simp: Let_def anchor_ok_def continuity_wf_small intro!: set_anchor_wf split: option.splits)

lemma engagement_wf:
  assumes "continuity_wf c" "recordMailboxEngagement c k now lease = Inr c'"
  shows "continuity_wf c'"
proof -
  let ?cur = "anchor_of c k"
  let ?a = "\<lparr>ca_lastMessageAtMs = max (case ?cur of None \<Rightarrow> 0 | Some a \<Rightarrow> ca_lastMessageAtMs a) now, ca_roundSeq = cs_roundSeq c,
      ca_inputTokens = cs_lastInputTokens c, ca_compactionEpoch = cs_compactionEpoch c,
      ca_engagedUntilMs = Some (max (case ?cur of None \<Rightarrow> 0 | Some a \<Rightarrow> (case ca_engagedUntilMs a of None \<Rightarrow> 0 | Some e \<Rightarrow> e)) (now + lease))\<rparr>"
  have c: "small now" "0 < lease" "now + lease \<le> max_safe" "is_mailbox_key k" "c' = set_anchor c k ?a"
    using assms(2) by (auto simp: recordMailboxEngagement_def isPositiveSafeInteger_iff small_def isSafeInteger_def safe_int_def Let_def
        split: if_splits)
  have "anchor_ok ?a"
    using c(1-3) anchor_of_ok [OF assms(1), of k] continuity_wf_small [OF assms(1)]
    by (auto simp: anchor_ok_def small_def split: option.splits)
  with c(4,5) assms(1) show ?thesis by (simp add: set_anchor_wf)
qed

lemma round_wf: "continuity_wf c \<Longrightarrow> cs_roundSeq c < max_safe \<Longrightarrow> continuity_wf (recordMailboxRound c t)"
  by (auto simp: recordMailboxRound_def Let_def continuity_wf_def continuity_ok_def small_def split: option.splits)

lemma parse_anchors_keys: "distinct (map fst ps) \<Longrightarrow> distinct (map fst (parse_anchors ps)) \<and> set (map fst (parse_anchors ps)) \<subseteq> set (map fst ps)"
  by (induction ps rule: parse_anchors.induct) (auto split: option.splits)

lemma parsed_continuity_wf: "json_value v \<Longrightarrow> continuity_wf (parseMailboxContinuityState v)"
proof -
  assume v: "json_value v"
  have "distinct (map fst (cs_mailboxes (parseMailboxContinuityState v)))"
  proof (cases v)
    case (JObj ps)
    have "distinct (map fst ms)" if "obj_get ps (js ''mailboxes'') = JObj ms" for ms
    proof -
      have "(js ''mailboxes'', JObj ms) \<in> set ps"
        using that by (auto simp: obj_get_def dest: map_of_SomeD split: option.splits)
      then show ?thesis using v JObj by auto
    qed
    then show ?thesis using JObj parse_anchors_keys
      by (auto simp: parseMailboxContinuityState_def as_record_def split: jv.splits)
  qed (simp_all add: parseMailboxContinuityState_def as_record_def createEmptyMailboxContinuityState_def)
  then show ?thesis by (simp add: continuity_wf_def parse_continuity_ok)
qed

lemma copied_wf:
  assumes "host_runtime h rs" "runtime_norm rs"
  shows "continuity_wf (copied_continuity h)"
proof -
  have "bh_mailboxContinuity h = parseMailboxContinuityState (JObj (rs_mailboxContinuity rs))"
    using assms(1) by (auto simp: host_runtime_def installRuntimeState_def dest!: arg_cong [where f = bh_mailboxContinuity])
  moreover have "continuity_wf (parseMailboxContinuityState (JObj (rs_mailboxContinuity rs)))"
    using json_copy_value assms(2) by (auto simp: runtime_norm_def simp del: json_value.simps intro: parsed_continuity_wf)
  ultimately show ?thesis by (simp add: copied_continuity_def continuity_wf_def parse_continuity_jv)
qed

text \<open>
  The beginning of a step: the events taken from the queue, the texts and the patch made of them, and the commit.
\<close>

section \<open>Taking the events\<close>

lemma drain_queue_all: "drain_queue q = (eq_events q, q\<lparr>eq_events := []\<rparr>)"
proof (induction q rule: drain_queue.induct)
  case (1 q)
  show ?case
  proof (cases "eq_events q")
    case Nil
    then have "q\<lparr>eq_events := []\<rparr> = q" by (cases q) simp
    with Nil show ?thesis by (simp add: drain_queue.simps [of q] dequeue_def)
  next
    case (Cons e es)
    then have "dequeue q = (Some e, q\<lparr>eq_events := es\<rparr>)" by (simp add: dequeue_def)
    with 1 show ?thesis by (simp add: drain_queue.simps [of q] Cons)
  qed
qed

lemma enqueue_all_events: "eq_events (bl_queue (enqueue_all es s)) = eq_events (bl_queue s) @ es"
proof -
  have "eq_events (foldl (\<lambda>q e. snd (enqueue e q)) q es) = eq_events q @ es" for q :: "bot_event event_queue"
    by (induction es arbitrary: q) (simp_all add: enqueue_def Let_def)
  then show ?thesis by (simp add: enqueue_all_def)
qed

lemma enqueue_all_keeps [simp]:
  "bl_host (enqueue_all es s) = bl_host s" "bl_db (enqueue_all es s) = bl_db s"
  by (simp_all add: enqueue_all_def)

lemma drained_disclosures:
  "set (dr_interrupting (drained_of es p)) \<union> set (dr_passive (drained_of es p)) = set (dp_disclosures p)"
  by (auto simp: drained_of_def Let_def) (metis disclosure_class.exhaust)

section \<open>The texts of a step\<close>

lemma disclose_all_texts:
  assumes "disclose_all d env (drained_of es p) s = Inr g"
  obtains ts rss de where "dg_messages g = map UserMsg ts" "list_all2 (written de (dp_disclosures p)) ts rss"
    "owed (dp_disclosures p) \<subseteq> set (concat rss)" "de_renderEvent de = bd_renderEvent d"
proof -
  let ?dr = "drained_of es p"
  let ?de = "\<lparr>de_nowMs = bd_clock d (bl_world s), de_clock = le_clock env, de_participation = bd_participation d,
      de_renderEvent = bd_renderEvent d\<rparr>"
  let ?g0 = "\<lparr>dg_messages = [], dg_continuity = copied_continuity (bl_host s), dg_lastWakeAt = bh_lastWakeAt (bl_host s),
      dg_disclosed = 0, dg_inboxReads = []\<rparr>"
  obtain g1 where de: "discloseEvents ?de (dr_interrupting ?dr) ?g0 = Inr g1" "discloseEvents ?de (dr_passive ?dr) g1 = Inr g"
    using assms by (auto simp: disclose_all_def Let_def split: sum.splits)
  have sub: "set (dr_interrupting ?dr) \<subseteq> set (dp_disclosures p)" "set (dr_passive ?dr) \<subseteq> set (dp_disclosures p)"
    using drained_disclosures [of es p] by blast+
  have "texts_added ?de (dp_disclosures p) (dr_interrupting ?dr @ dr_passive ?dr) ?g0 g"
    by (rule texts_added_trans [OF discloseEvents_texts [OF de(1) sub(1)] discloseEvents_texts [OF de(2) sub(2)]])
  moreover have "owed (dr_interrupting ?dr @ dr_passive ?dr) = owed (dp_disclosures p)"
    by (rule owed_set) (use drained_disclosures [of es p] in simp)
  ultimately show ?thesis using that [of _ ?de] by (auto simp: texts_added_def)
qed

text \<open>The texts that say nothing about mailboxes can be left out.\<close>

lemma quiet_attention: "quiet_text t \<Longrightarrow> messages_attention (map UserMsg (t # ts)) = messages_attention (map UserMsg ts)"
  by (simp add: messages_attention_def quiet_text_def attention_sum_def del: message_cursors.simps)

lemma written_shown:
  assumes "list_all2 (written de ds) ts rss" "\<forall>e t. DirectDisclosure e \<in> set ds \<longrightarrow> de_renderEvent de e = Inr (Some t) \<longrightarrow> quiet_text t"
  shows "\<exists>ts' rss'. list_all2 (shown_text ds) ts' rss' \<and> set (concat rss') = set (concat rss)
    \<and> messages_attention (map UserMsg ts') = messages_attention (map UserMsg ts)"
  using assms(1)
proof (induction rule: list_all2_induct)
  case Nil
  show ?case by (intro exI [of _ "[]"]) simp
next
  case (Cons t ts rs rss)
  then obtain ts' rss' where ih: "list_all2 (shown_text ds) ts' rss'" "set (concat rss') = set (concat rss)"
      "messages_attention (map UserMsg ts') = messages_attention (map UserMsg ts)"
    by blast
  show ?case
  proof (cases "shown_text ds t rs")
    case True
    have "messages_attention (map UserMsg (t # ts')) = messages_attention (map UserMsg (t # ts))"
      using messages_attention_append [of "[UserMsg t]" "map UserMsg ts"] messages_attention_append [of "[UserMsg t]" "map UserMsg ts'"] ih(3)
      by (simp only: list.map append_Cons append_Nil)
    with True ih show ?thesis by (intro exI [of _ "t # ts'"] exI [of _ "rs # rss'"]) simp
  next
    case False
    then have "rs = []" "quiet_text t" using Cons(1) assms(2) by (auto simp: written_def)
    with ih show ?thesis using quiet_attention [of t ts] by (intro exI [of _ ts'] exI [of _ rss']) simp
  qed
qed

lemma disclosed_attention:
  assumes plan: "planMailboxDisclosures es cs = Inr p" "\<forall>e \<in> set es. event_ok e"
    and texts: "disclose_all d env (drained_of es p) s = Inr g" and renderer: "bd_renderEvent d = renderBotEvent"
  obtains ts where "dg_messages g = map UserMsg ts"
    "\<And>k. att_disclosed (messages_attention (map UserMsg ts) k) =
      (if rows_in k (admitted (cursor_of cs) es) = [] then 0 else nat (cursor_of (dp_cursors p) k))"
proof -
  obtain ts rss de where t: "dg_messages g = map UserMsg ts" "list_all2 (written de (dp_disclosures p)) ts rss"
      "owed (dp_disclosures p) \<subseteq> set (concat rss)" "de_renderEvent de = bd_renderEvent d"
    by (rule disclose_all_texts [OF texts])
  have "\<forall>e x. DirectDisclosure e \<in> set (dp_disclosures p) \<longrightarrow> de_renderEvent de e = Inr (Some x) \<longrightarrow> quiet_text x"
    using direct_text_quiet [OF _ plan_direct_event [OF plan(1) _ plan(2)]] t(4) renderer by simp
  from written_shown [OF t(2) this]
  obtain ts' rss' where s: "list_all2 (shown_text (dp_disclosures p)) ts' rss'" "set (concat rss') = set (concat rss)"
      "messages_attention (map UserMsg ts') = messages_attention (map UserMsg ts)"
    by (elim exE conjE) (rule that)
  have "owed (dp_disclosures p) \<subseteq> set (concat rss')" using t(3) s(2) by simp
  from plan_texts_disclosed [OF plan s(1) this] s(3) that [OF t(1)] show ?thesis by simp
qed

section \<open>The cursors\<close>

lemma message_small: "message_ok m \<Longrightarrow> small (messageRowId m)"
  using message_ok_row [of m] by (simp add: small_def)

lemma plan_cursors_wf:
  assumes "cursors_wf cs" "\<forall>e \<in> set es. event_ok e" "planMailboxDisclosures es cs = Inr p"
  shows "cursors_wf (dp_cursors p)"
proof -
  have put: "cursors_wf (obj_put ds k i)" if "cursors_wf ds" "is_mailbox_key k" "small i" for ds k i
  proof -
    have "q \<in> set (obj_put ds k i) \<Longrightarrow> q \<in> set ds \<or> q = (k, i)" for q
      by (auto simp: obj_put_def mailbox_key_not_index [OF that(2)] split: if_splits)
    then show ?thesis using that by (force simp: cursors_wf_def obj_put_distinct_keys)
  qed
  have "plan_events p es = Inr p' \<Longrightarrow> cursors_wf (dp_cursors p) \<Longrightarrow> cursors_wf (dp_cursors p')"
    if "\<forall>e \<in> set es. event_ok e" for p p'
    using that
  proof (induction es arbitrary: p)
    case (Cons e es)
    obtain q where q: "plan_event p e = Inr q" "plan_events q es = Inr p'" using Cons.prems(1) by (auto simp: bindE_Inr_iff)
    have "cursors_wf (dp_cursors q)"
      using q(1) Cons.prems(2,3)
      by (cases e) (auto simp: event_ok_def bindE_Inr_iff backlog_ok_def intro!: put message_small split: if_splits, simp add: small_def)
    with Cons q(2) show ?case by simp
  qed simp
  with assms show ?thesis by (auto simp: planMailboxDisclosures_def)
qed

lemma cursors_jwf:
  assumes "cursors_wf cs"
  shows "jwf (JObj (cursor_values cs))"
proof -
  have "\<forall>k \<in> set (map fst cs). \<not> is_index_key k" using assms mailbox_key_not_index by (force simp: cursors_wf_def)
  then have "key_order (cursor_values cs)" using assms by (intro key_orderI) (simp_all only: cursor_keys cursors_wf_def)
  moreover have "\<forall>p \<in> set (cursor_values cs). jwf (snd p)"
    using assms by (auto simp: cursors_wf_def cursor_values_def small_def max_safe_def)
  ultimately show ?thesis by simp
qed

lemma cursor_values_inj: "cursor_values cs = cursor_values ds \<Longrightarrow> cs = ds"
  by (drule arg_cong [where f = cursor_numbers]) (simp add: cursor_values_def cursor_numbers_def comp_def case_prod_beta)

lemma cursors_stringify:
  assumes "cursors_wf cs" "cursors_wf ds" "stringify (JObj (cursor_values cs)) = stringify (JObj (cursor_values ds))"
  shows "cs = ds"
proof (rule cursor_values_inj)
  have "Some (JObj (cursor_values cs)) = Some (JObj (cursor_values ds))"
    unfolding json_parse_stringify [OF cursors_jwf [OF assms(1)], symmetric] json_parse_stringify [OF cursors_jwf [OF assms(2)], symmetric]
      assms(3) by (rule refl)
  then show "cursor_values cs = cursor_values ds" by simp
qed

text \<open>The cursors the loop has are well-formed numbers.\<close>

lemma host_cursors:
  assumes "in_sync h db es rs"
  shows "cursors_wf (cursor_numbers (bh_mailboxCursors h))"
    and "cursor_values (cursor_numbers (bh_mailboxCursors h)) = bh_mailboxCursors h"
proof -
  have st: "stored db es rs" and host: "host_runtime h rs" and "runtime_valid rs"
    using assms stored_entry_norm by (auto simp: in_sync_def project_entries_Inr)
  let ?cs = "rs_mailboxCursors rs"
  have h: "bh_mailboxCursors h = ?cs"
    using host by (auto simp: host_runtime_def installRuntimeState_def dest!: arg_cong [where f = bh_mailboxCursors])
  have ok: "is_mailbox_key k \<and> isNonNegativeSafeInteger x" if "(k, x) \<in> set ?cs" for k x
    using \<open>runtime_valid rs\<close> that by (auto simp: runtime_valid_def cursors_ok_def as_record_def)
  have int: "x = jint (num_of x) \<and> small (num_of x)" if "isNonNegativeSafeInteger x" for x
    using that by (auto simp: isNonNegativeSafeInteger_def isSafeInteger_def small_def safe_int_def split: jv.splits jnum.splits)
  have "distinct (obj_keys ?cs)" using json_copy_value stored_runtime_norm [OF st] by (auto simp: runtime_norm_def)
  then show "cursors_wf (cursor_numbers (bh_mailboxCursors h))"
    using ok int by (auto simp: h cursors_wf_def) (auto simp: cursor_numbers_def)
  have "map (\<lambda>(k, i). (k, jint i)) (map (\<lambda>(k, v). (k, num_of v)) qs) = qs" if "set qs \<subseteq> set ?cs" for qs
    using that by (induction qs) (use ok int in auto)
  then show "cursor_values (cursor_numbers (bh_mailboxCursors h)) = bh_mailboxCursors h"
    by (simp add: h cursor_values_def cursor_numbers_def)
qed

section \<open>The continuity and the read cursors\<close>

definition dated :: "bot_event \<Rightarrow> bool" where
  "dated e \<longleftrightarrow> (case e of MessageEvent m \<Rightarrow> small (sentAt m) | MailboxBacklog b \<Rightarrow> small (mb_to b) | _ \<Rightarrow> True)"

fun disclosure_dated :: "mailbox_disclosure \<Rightarrow> bool" where
  "disclosure_dated (MailboxDisclosure k ms) \<longleftrightarrow> is_mailbox_key k \<and> small (sentAt (last ms))"
| "disclosure_dated (BacklogDisclosure b) \<longleftrightarrow> is_mailbox_key (mb_mailboxKey b) \<and> small (mb_to b)"
| "disclosure_dated (DirectDisclosure e) \<longleftrightarrow> True"

lemma plan_dated:
  assumes "planMailboxDisclosures es cs = Inr p" "\<forall>e \<in> set es. event_ok e \<and> dated e" "m \<in> set (dp_disclosures p)"
  shows "disclosure_dated m"
proof (cases m)
  case (MailboxDisclosure k ms)
  have ok: "\<forall>e \<in> set es. event_ok e" using assms(2) by simp
  have b: "batch_ok (k, ms)" "ms = messages_of k (admitted (cursor_of cs) es)"
    using plan_disclosure_ok(1) [OF assms(1) ok] assms(3) MailboxDisclosure by auto
  then have "last ms \<in> set ms" by (simp add: batch_ok_def)
  then have "MessageEvent (last ms) \<in> set es" using b(2) messages_of_mem admitted_subset by blast
  then have "dated (MessageEvent (last ms))" using assms(2) by blast
  with b(1) MailboxDisclosure show ?thesis by (simp add: batch_ok_def dated_def)
next
  case (BacklogDisclosure b)
  have ok: "\<forall>e \<in> set es. event_ok e" using assms(2) by simp
  have b: "backlog_ok b" "MailboxBacklog b \<in> set es"
    using plan_disclosure_ok(2) [OF assms(1) ok] admitted_subset assms(3) BacklogDisclosure by blast+
  then have "dated (MailboxBacklog b)" using assms(2) by blast
  with b(1) BacklogDisclosure show ?thesis by (simp add: backlog_ok_def dated_def)
qed simp

lemma record_batch_wf:
  assumes "record_batch nowMs ps g = Inr g'" "\<forall>p \<in> set ps. disclosure_dated (disclosure_of_pair p)" "continuity_wf (dg_continuity g)"
  shows "continuity_wf (dg_continuity g')"
  using assms
proof (induction ps arbitrary: g)
  case (Cons p ps)
  obtain g1 where g1: "record_direct nowMs p g = Inr g1" "record_batch nowMs ps g1 = Inr g'" using Cons.prems(1) by (auto simp: bindE_Inr_iff)
  have "continuity_wf (dg_continuity g1)"
    using g1(1) Cons.prems(2,3)
    by (auto simp: record_direct_def Let_def bindE_Inr_iff count_disclosed_def disclosure_of_pair_def split_beta
        intro: disclosure_wf engagement_wf split: if_splits)
  with Cons g1(2) show ?case by simp
qed simp

lemma disclose_one_wf:
  assumes "disclose_one env m g = Inr g'" "disclosure_dated m" "continuity_wf (dg_continuity g)"
  shows "continuity_wf (dg_continuity g')"
  using assms
  by (cases m) (auto simp: discloseBacklog_def discloseMailbox_def discloseDirect_def Let_def push_user_def count_disclosed_def wake_now_def
      intro!: disclosure_wf split: sum.splits option.splits if_splits)

lemma discloseEvents_wf:
  assumes "discloseEvents env ms g = Inr g'" "\<forall>m \<in> set ms. disclosure_dated m" "continuity_wf (dg_continuity g)"
  shows "continuity_wf (dg_continuity g')"
  using assms
proof (induction env ms g rule: discloseEvents.induct)
  case (1 env ms g)
  show ?case
  proof (cases ms)
    case Nil
    then show ?thesis using 1(4,6) by (simp add: discloseEvents.simps)
  next
    case (Cons m rest)
    note un = discloseEvents.simps [of env "m # rest"]
    have wf1: "continuity_wf (dg_continuity g1)" if "disclose_one env m g = Inr g1" for g1
      using disclose_one_wf [OF that] 1(5,6) Cons by simp
    have d: "\<forall>x \<in> set rest. disclosure_dated x" using 1(5) Cons by simp
    show ?thesis
    proof (cases "shouldDirectMailboxDisclosure (dg_continuity g) (de_nowMs env) m")
      case False
      then obtain g1 where g1: "disclose_one env m g = Inr g1" "discloseEvents env rest g1 = Inr g'"
        using 1(4) Cons by (auto simp: un split: sum.splits)
      show ?thesis by (rule 1(3) [OF Cons False g1(1,2) d wf1 [OF g1(1)]])
    next
      case True
      obtain batch content later where gb: "grow_batch (dg_continuity g) (de_nowMs env) [] None (m # rest) = Inr (batch, content, later)"
        using 1(4) Cons True by (cases "grow_batch (dg_continuity g) (de_nowMs env) [] None (m # rest)") (auto simp: un)
      have new: "m # rest = map disclosure_of_pair batch @ later" using grow_batch_covers [OF gb] by auto
      show ?thesis
      proof (cases content)
        case None
        then obtain g1 where g1: "disclose_one env m g = Inr g1" "discloseEvents env rest g1 = Inr g'"
          using 1(4) Cons True gb by (auto simp: un split: sum.splits)
        show ?thesis by (rule 1(1) [OF Cons True gb refl refl None g1(1,2) d wf1 [OF g1(1)]])
      next
        case (Some t)
        then obtain g1 where g1: "record_batch (de_nowMs env) batch (push_user t g) = Inr g1"
            "discloseEvents env later (wake_now env g1) = Inr g'"
          using 1(4) Cons True gb by (auto simp: un split: sum.splits)
        have b: "\<forall>p \<in> set batch. disclosure_dated (disclosure_of_pair p)" "\<forall>x \<in> set later. disclosure_dated x"
          using 1(5) Cons new by (metis UnCI image_eqI set_append set_map)+
        have "continuity_wf (dg_continuity (wake_now env g1))"
          using record_batch_wf [OF g1(1) b(1)] 1(6) by (simp add: push_user_def wake_now_def)
        from 1(2) [OF Cons True gb refl refl Some g1(1,2) b(2) this] show ?thesis .
      qed
    qed
  qed
qed

lemma advance_reads_distinct: "advance_reads rs cs = Inr cs' \<Longrightarrow> distinct (map fst cs) \<Longrightarrow> distinct (map fst cs')"
  by (induction rs cs rule: advance_reads.induct)
    (auto simp: bindE_Inr_iff advanceInboxReadCursor_def obj_put_distinct_keys split: if_splits)

section \<open>Staging and committing\<close>

lemma reset_keeps [simp]:
  "bl_host (reset_for_events dr s) = bl_host s" "bl_db (reset_for_events dr s) = bl_db s" "bl_queue (reset_for_events dr s) = bl_queue s"
  by (simp_all add: reset_for_events_def endAutonomyDiscovery_def)

lemma report_keeps:
  "report_trigger d t s = (r, s') \<Longrightarrow> bl_host s' = bl_host s \<and> bl_db s' = bl_db s \<and> bl_queue s' = bl_queue s"
  "report_phase d i s = (r, s') \<Longrightarrow> bl_host s' = bl_host s \<and> bl_db s' = bl_db s \<and> bl_queue s' = bl_queue s"
  by (auto simp: report_trigger_def report_phase_def split: prod.splits sum.splits)

lemma stage_events_Inr:
  assumes "stage_events d env s = (Inr g, s1)"
  obtains p dg s4 reads extra where "planMailboxDisclosures (eq_events (bl_queue s)) (cursor_numbers (bh_mailboxCursors (bl_host s))) = Inr p"
    and "sg_drained g = drained_of (eq_events (bl_queue s)) p" "disclose_all d env (sg_drained g) s4 = Inr dg"
    and "bl_host s4 = bl_host s" "bl_host s1 = bl_host s" "bl_db s1 = bl_db s" "eq_events (bl_queue s1) = []"
    and "advance_reads (dg_inboxReads dg) (bh_inboxReadCursors (bl_host s)) = Inr reads"
    and "sg_readCursors g = None \<or> sg_readCursors g = Some reads" "sg_continuity g = dg_continuity dg"
    and "sg_messages g = dg_messages dg @ map UserMsg extra" "list_all quiet_text extra"
proof -
  let ?es = "eq_events (bl_queue s)"
  obtain p where p: "planMailboxDisclosures ?es (cursor_numbers (bh_mailboxCursors (bl_host s))) = Inr p"
    using assms by (cases "planMailboxDisclosures ?es (cursor_numbers (bh_mailboxCursors (bl_host s)))")
      (auto simp: stage_events_def drainEvents_def drain_queue_all)
  let ?dr = "drained_of ?es p"
  let ?s1 = "s\<lparr>bl_queue := (bl_queue s)\<lparr>eq_events := []\<rparr>\<rparr>"
  have dr: "drainEvents s = (Inr ?dr, ?s1)" using p by (simp add: drainEvents_def drain_queue_all)
  obtain s3 where s3: "report_trigger d (describeActivityTrigger (dr_events ?dr)) (reset_for_events ?dr ?s1) = (Inr (), s3)"
    using assms by (auto simp: stage_events_def dr Let_def split: prod.splits sum.splits)
  obtain s4 where s4: "report_phase d (thinking_phase (Suc (bl_roundIndex s3))) s3 = (Inr (), s4)"
    using assms by (auto simp: stage_events_def dr Let_def s3 split: prod.splits sum.splits)
  obtain dg where dg: "disclose_all d env ?dr s4 = Inr dg"
    using assms by (auto simp: stage_events_def dr Let_def s3 s4 split: prod.splits sum.splits)
  obtain reads where reads: "advance_reads (dg_inboxReads dg) (bh_inboxReadCursors (bl_host s4)) = Inr reads"
    using assms by (auto simp: stage_events_def dr Let_def s3 s4 dg split: prod.splits sum.splits)
  have keep: "bl_host s4 = bl_host s" "bl_db s4 = bl_db s" "bl_queue s4 = (bl_queue s)\<lparr>eq_events := []\<rparr>"
    using report_keeps(1) [OF s3] report_keeps(2) [OF s4] by simp_all
  let ?boot = "if \<not> bl_stopRequested s4 \<and> fst (getSnapshot (bh_context (bl_host s4))) = [] \<and> dg_messages dg = [] then [CONTINUOUS_AUTONOMY_BOOTSTRAP] else []"
  let ?disc = "if discovery_due ?dr s4 then [renderAutonomyDiscoveryPrompt s4] else []"
  have "sg_messages g = dg_messages dg @ map UserMsg (?boot @ ?disc)"
    using assms by (auto simp: stage_events_def dr Let_def s3 s4 dg reads bootstrap_messages_def)
  moreover have "list_all quiet_text (?boot @ ?disc)" by (simp add: bootstrap_quiet discovery_quiet)
  ultimately show ?thesis
    using assms dg reads keep by (intro that [OF p, of s4 dg reads "?boot @ ?disc"]) (auto simp: stage_events_def dr Let_def s3 s4 split: if_splits)
qed

lemma legal_batch_user: "legal_history ms \<Longrightarrow> legal_history (ms @ map UserMsg ts)"
proof -
  have "scan (seen, []) (map UserMsg ts) = Some (seen, [])" for seen by (induction ts) auto
  then show "legal_history ms \<Longrightarrow> ?thesis" by (auto simp: legal_history_iff scan_append split: option.splits)
qed

lemma user_messages: "mapE normalizeDurableMessage (map UserMsg ts) = Inr (map UserMsg ts)"
  by (induction ts) (simp_all add: normalize_user)

lemma events_patch_fields:
  "pt_mailboxCursors (events_patch g) = Some (cursor_values (dr_cursors (sg_drained g)))"
  "pt_mailboxContinuity (events_patch g) = Some (continuity_props (sg_continuity g))"
  "pt_inboxReadCursors (events_patch g) = sg_readCursors g"
  by (simp_all add: events_patch_def)

lemma commitChanges_Inl:
  assumes "commitChange (bd_column d) ms (Some p) (bl_host s, bl_db s) = (Inl e, h, db)"
  shows "\<exists>s'. commitChanges d ms (Some p) s = (Inl (CommitFailed e), s') \<and> bl_host s' = h \<and> bl_db s' = db \<and> bl_queue s' = bl_queue s"
  using assms by (simp add: commitChanges_def sync_tools_def)

lemma commitChanges_Inr:
  assumes "commitChange (bd_column d) ms (Some p) (bl_host s, bl_db s) = (Inr x, h, db)"
  shows "\<exists>s'. commitChanges d ms (Some p) s = (Inr (), s') \<and> bl_host s' = h \<and> bl_db s' = db"
  using assms by (simp add: commitChanges_def sync_tools_def)

text \<open>The commit of the events, from a memory in step.\<close>

lemma events_commit:
  assumes sync: "in_sync (bl_host s) (bl_db s) es rs" and col: "json_column (bd_column d)"
    and msgs: "sg_messages g = map UserMsg ts" and cursors: "cursors_wf (dr_cursors (sg_drained g))"
    and cont: "continuity_wf (sg_continuity g)" and reads: "\<forall>cs. sg_readCursors g = Some cs \<longrightarrow> distinct (map fst cs)"
  shows "case commitChange (bd_column d) (sg_messages g) (Some (events_patch g)) (bl_host s, bl_db s) of
     (Inl e, h, db) \<Rightarrow> h = bl_host s \<and> in_sync h db es rs
   | (Inr _, h, db) \<Rightarrow> \<exists>ns rs'. in_sync h db (es @ ns) rs' \<and> entry_messages ns = map UserMsg ts
       \<and> set (cursor_numbers (bh_mailboxCursors h)) = set (dr_cursors (sg_drained g))"
proof -
  have st: "stored (bl_db s) es rs" and "runtime_valid rs" and legal: "legal_history (entry_messages es)"
    using sync stored_entry_norm by (auto simp: in_sync_def project_entries_Inr)
  note norm = stored_runtime_norm [OF st]
  have pk: "patch_ok (or_else (Some (events_patch g)) empty_patch)"
    using reads by (auto simp: patch_ok_def or_else_def events_patch_fields split: option.splits)
  have patched: "runtime_valid nx \<and> rs_mailboxCursors nx = sort_props (cursor_values (dr_cursors (sg_drained g)))"
    if "parseAgentRuntimeState (runtime_state_jv (patched_state rs (or_else (Some (events_patch g)) empty_patch) head)) = Inr nx" for head nx
  proof
    have c: "pt_mailboxCursors (events_patch g) = None \<or> (\<exists>cs. pt_mailboxCursors (events_patch g) = Some (cursor_values cs) \<and> cursors_wf cs)"
        "pt_mailboxContinuity (events_patch g) = None \<or> (\<exists>c. pt_mailboxContinuity (events_patch g) = Some (continuity_props c) \<and> continuity_wf c)"
      using cursors cont by (auto simp: events_patch_fields)
    have p: "parseAgentRuntimeState (runtime_state_jv (patched_state rs (events_patch g) head)) = Inr nx"
      using that by (simp add: or_else_def)
    show "runtime_valid nx" by (rule patched_valid(1) [OF p norm \<open>runtime_valid rs\<close> c])
    show "rs_mailboxCursors nx = sort_props (cursor_values (dr_cursors (sg_drained g)))"
      by (rule patched_valid(2) [OF p norm \<open>runtime_valid rs\<close> c events_patch_fields(1) cursors])
  qed
  obtain r h db where run: "commitChange (bd_column d) (sg_messages g) (Some (events_patch g)) (bl_host s, bl_db s) = (r, h, db)"
    by (metis prod_cases3)
  have "case r of Inl e \<Rightarrow> (\<exists>f. e = RepoFailed f) \<and> h = bl_host s \<and> in_sync (bl_host s) db es rs
     | Inr _ \<Rightarrow> \<exists>ns rs'. in_sync h db (es @ ns) rs' \<and> mapE normalizeDurableMessage (sg_messages g) = Inr (entry_messages ns)
         \<and> (sg_messages g = [] \<and> Some (events_patch g) = None \<or> (\<exists>head nx. runtime_same nx rs' \<and>
               parseAgentRuntimeState (runtime_state_jv (patched_state rs (or_else (Some (events_patch g)) empty_patch) head)) = Inr nx))"
  proof (rule commit_state [OF col sync pk, of "sg_messages g", THEN exE])
    show "legal_history (entry_messages es @ ms)" if "mapE normalizeDurableMessage (sg_messages g) = Inr ms" for ms
      using that legal_batch_user [OF legal, of ts] by (simp add: msgs user_messages)
    show "runtime_valid nx" if "parseAgentRuntimeState (runtime_state_jv (patched_state rs (or_else (Some (events_patch g)) empty_patch) head)) = Inr nx" for head nx
      using patched [OF that] by blast
  qed (use run in auto)
  note result = this
  show ?thesis
  proof (cases r)
    case (Inr x)
    with result obtain ns rs' head nx where c: "in_sync h db (es @ ns) rs'"
        "mapE normalizeDurableMessage (sg_messages g) = Inr (entry_messages ns)" "runtime_same nx rs'"
        "parseAgentRuntimeState (runtime_state_jv (patched_state rs (or_else (Some (events_patch g)) empty_patch) head)) = Inr nx"
      by auto
    have "bh_mailboxCursors h = rs_mailboxCursors rs'"
      using c(1) by (auto simp: in_sync_def host_runtime_def installRuntimeState_def dest!: arg_cong [where f = bh_mailboxCursors])
    moreover have "rs_mailboxCursors rs' = rs_mailboxCursors nx"
      using c(3) unfolding runtime_same_def by (metis runtime_state.select_convs(1) runtime_state.surjective runtime_state.update_convs(2))
    ultimately have "set (cursor_numbers (bh_mailboxCursors h)) = set (dr_cursors (sg_drained g))"
      using patched [OF c(4)] cursors_copy(3) [OF cursors] by simp
    moreover have "entry_messages ns = map UserMsg ts" using c(2) by (simp add: msgs user_messages)
    ultimately show ?thesis using c(1) run Inr by auto
  qed (use run result in auto)
qed

lemma disclose_all_wf:
  assumes "disclose_all d env (drained_of es p) s = Inr g" "\<forall>m \<in> set (dp_disclosures p). disclosure_dated m"
    and "continuity_wf (copied_continuity (bl_host s))"
  shows "continuity_wf (dg_continuity g)"
proof -
  let ?dr = "drained_of es p"
  have dated: "\<forall>m \<in> set (dr_interrupting ?dr). disclosure_dated m" "\<forall>m \<in> set (dr_passive ?dr). disclosure_dated m"
    using assms(2) drained_disclosures [of es p] by blast+
  obtain de g0 g1 where "discloseEvents de (dr_interrupting ?dr) g0 = Inr g1" "discloseEvents de (dr_passive ?dr) g1 = Inr g"
      "dg_continuity g0 = copied_continuity (bl_host s)"
    using assms(1) by (cases "disclose_all d env ?dr s") (auto simp: disclose_all_def Let_def split: sum.splits intro: that [rotated 2])
  then show ?thesis using assms(3) dated by (metis discloseEvents_wf)
qed

text \<open>What a step puts into the history, and the cursors it moves to.\<close>

definition step_disclosed :: "bot_event list \<Rightarrow> mailbox_cursors \<Rightarrow> jstr \<Rightarrow> nat" where
  "step_disclosed events cs k = (if rows_in k (admitted (cursor_of cs) events) = [] then 0 else nat (Max (insert (cursor_of cs k) (set (rows_in k events)))))"

lemma highest_cursor:
  "planMailboxDisclosures es cs = Inr p \<Longrightarrow> cursor_of (dp_cursors p) k = Max (insert (cursor_of cs k) (set (rows_in k es)))"
  using planMailboxDisclosures_inv [of es cs p] by (metis plan_inv_def highest_Max)

lemma staged_facts:
  assumes sync: "in_sync (bl_host s) (bl_db s) es rs" and renderer: "bd_renderEvent d = renderBotEvent"
    and events: "\<forall>e \<in> set (eq_events (bl_queue s)). event_ok e \<and> dated e" and stage: "stage_events d env s = (Inr g, s1)"
  obtains p ts where "planMailboxDisclosures (eq_events (bl_queue s)) (cursor_numbers (bh_mailboxCursors (bl_host s))) = Inr p"
    and "sg_drained g = drained_of (eq_events (bl_queue s)) p" "cursors_wf (dp_cursors p)" "continuity_wf (sg_continuity g)"
    and "\<forall>cs. sg_readCursors g = Some cs \<longrightarrow> distinct (map fst cs)" "sg_messages g = map UserMsg ts"
    and "\<And>k. att_disclosed (messages_attention (map UserMsg ts) k) =
      step_disclosed (eq_events (bl_queue s)) (cursor_numbers (bh_mailboxCursors (bl_host s))) k"
    and "bl_host s1 = bl_host s" "bl_db s1 = bl_db s" "eq_events (bl_queue s1) = []"
  using stage
proof (rule stage_events_Inr)
  fix p dg s4 reads extra
  let ?es = "eq_events (bl_queue s)" and ?cs = "cursor_numbers (bh_mailboxCursors (bl_host s))"
  assume plan: "planMailboxDisclosures ?es ?cs = Inr p" and dr: "sg_drained g = drained_of ?es p"
    and dg: "disclose_all d env (sg_drained g) s4 = Inr dg" and host: "bl_host s4 = bl_host s"
    and rest: "bl_host s1 = bl_host s" "bl_db s1 = bl_db s" "eq_events (bl_queue s1) = []"
    and reads: "advance_reads (dg_inboxReads dg) (bh_inboxReadCursors (bl_host s)) = Inr reads"
      "sg_readCursors g = None \<or> sg_readCursors g = Some reads"
    and cont: "sg_continuity g = dg_continuity dg" and msgs: "sg_messages g = dg_messages dg @ map UserMsg extra"
    and quiet: "list_all quiet_text extra"
  have ok: "\<forall>e \<in> set ?es. event_ok e" using events by blast
  have st: "stored (bl_db s) es rs" and hr: "host_runtime (bl_host s) rs" using sync by (auto simp: in_sync_def)
  obtain ts where ts: "dg_messages dg = map UserMsg ts"
      "\<And>k. att_disclosed (messages_attention (map UserMsg ts) k) =
        (if rows_in k (admitted (cursor_of ?cs) ?es) = [] then 0 else nat (cursor_of (dp_cursors p) k))"
    by (rule disclosed_attention [OF plan ok dg [unfolded dr] renderer]) (rule that)
  have "bh_inboxReadCursors (bl_host s) = rs_inboxReadCursors rs"
    using hr by (auto simp: host_runtime_def installRuntimeState_def dest!: arg_cong [where f = bh_inboxReadCursors])
  then have "distinct (map fst (bh_inboxReadCursors (bl_host s)))" using st by (simp add: stored_def cursor_keys_distinct_def)
  then have read_ok: "\<forall>cs. sg_readCursors g = Some cs \<longrightarrow> distinct (map fst cs)" using advance_reads_distinct [OF reads(1)] reads(2) by auto
  have wf: "continuity_wf (sg_continuity g)"
    unfolding cont
    by (rule disclose_all_wf [OF dg [unfolded dr]])
      (use plan_dated [OF plan events] copied_wf [OF hr stored_runtime_norm [OF st]] host in auto)
  have "messages_attention (map UserMsg (ts @ extra)) = messages_attention (map UserMsg ts)"
    using messages_attention_append [of "map UserMsg ts" "map UserMsg extra"] quiet_texts_disclosed [OF quiet] by simp
  then have att: "att_disclosed (messages_attention (map UserMsg (ts @ extra)) k) = step_disclosed ?es ?cs k" for k
    using ts(2) [of k] highest_cursor [OF plan, of k] by (simp add: step_disclosed_def)
  show ?thesis
    by (rule that [OF plan dr plan_cursors_wf [OF host_cursors(1) [OF sync] ok plan] wf read_ok _ att rest])
      (simp add: msgs ts(1))
qed

lemma cursors_unchanged:
  assumes sync: "in_sync (bl_host s) (bl_db s) es rs" and "cursors_wf (dr_cursors (sg_drained g))" "\<not> cursors_changed g s"
  shows "dr_cursors (sg_drained g) = cursor_numbers (bh_mailboxCursors (bl_host s))"
  by (rule cursors_stringify [OF assms(2) host_cursors(1) [OF sync]])
    (use assms(3) in \<open>simp add: cursors_changed_def host_cursors(2) [OF sync]\<close>)

end
