(* ===== verification/Loop_Staging.thy ===== *)
theory Loop_Staging
  imports Loop_Events "HOL-Library.Multiset"
begin

text \<open>
  Taking the events of the queue succeeds when the reports do: planning, rendering, the engagement of mailboxes and the read
  cursors have no way to fail on the events the rest of the program queues; and every text of an event that belongs
  to no mailbox is among the messages.
\<close>

section \<open>What can be disclosed\<close>

text \<open>The count of a backlog is a positive safe integer, as the replay that builds backlogs counts its rows.\<close>

definition counted :: "bot_event \<Rightarrow> bool" where
  "counted e \<longleftrightarrow> (case e of MailboxBacklog b \<Rightarrow> 0 < mb_count b \<and> mb_count b \<le> max_safe | _ \<Rightarrow> True)"

fun can_disclose :: "mailbox_disclosure \<Rightarrow> bool" where
  "can_disclose (MailboxDisclosure k ms) \<longleftrightarrow> batch_ok (k, ms) \<and> int (length ms) \<le> max_safe"
| "can_disclose (BacklogDisclosure b) \<longleftrightarrow> 0 < mb_count b \<and> mb_count b \<le> max_safe"
| "can_disclose (DirectDisclosure e) \<longleftrightarrow> mailboxKeyForEvent e = Inr None"

lemma admitted_length: "length (admitted c es) \<le> length es"
  by (induction es arbitrary: c) (auto split: option.splits intro: le_SucI)

lemma messages_of_length: "length (messages_of k es) \<le> length es"
  by (induction es) (auto simp: messages_of_def split: bot_event.splits)

lemma event_key: "event_ok e \<Longrightarrow> mailboxKeyForEvent e \<noteq> Inl x"
  by (cases e) (auto simp: event_ok_def)

lemma plan_exists:
  assumes "\<forall>e \<in> set es. event_ok e"
  obtains p where "planMailboxDisclosures es cs = Inr p"
  using assms event_key plan_events_total [of "\<lparr>dp_disclosures = [], dp_cursors = cs\<rparr>" es] that
  unfolding planMailboxDisclosures_def by (metis sum.exhaust)

lemma plan_can_disclose:
  assumes plan: "planMailboxDisclosures es cs = Inr p" and ok: "\<forall>e \<in> set es. event_ok e" "\<forall>e \<in> set es. counted e"
    and len: "int (length es) \<le> max_safe"
  shows "\<forall>m \<in> set (dp_disclosures p). can_disclose m"
proof
  fix m assume m: "m \<in> set (dp_disclosures p)"
  show "can_disclose m"
  proof (cases m)
    case (MailboxDisclosure k ms)
    then have "batch_ok (k, ms)" "ms = messages_of k (admitted (cursor_of cs) es)"
      using plan_disclosure_ok(1) [OF plan ok(1)] m by auto
    then show ?thesis
      using len messages_of_length [of k "admitted (cursor_of cs) es"] admitted_length [of "cursor_of cs" es] MailboxDisclosure by simp
  next
    case (BacklogDisclosure b)
    then have "MailboxBacklog b \<in> set es" using plan_disclosure_ok(2) [OF plan ok(1)] admitted_subset m by blast
    then show ?thesis using ok(2) BacklogDisclosure by (auto simp: counted_def)
  next
    case (DirectDisclosure e)
    then show ?thesis using plan_direct_event [OF plan _ ok(1)] m by simp
  qed
qed

section \<open>The texts of the other events\<close>

definition direct_text :: "bot_event \<Rightarrow> agent_message list" where
  "direct_text e = (case renderBotEvent e of Inr (Some t) \<Rightarrow> if t = [] then [] else [UserMsg t] | _ \<Rightarrow> [])"

definition unboxed_events :: "mailbox_disclosure list \<Rightarrow> bot_event list" where
  "unboxed_events ms = concat (map (\<lambda>m. case m of DirectDisclosure e \<Rightarrow> [e] | _ \<Rightarrow> []) ms)"

definition direct_texts :: "bot_event list \<Rightarrow> agent_message list" where
  "direct_texts es = concat (map direct_text es)"

lemma unboxed_events_simps [simp]:
  "unboxed_events [] = []" "unboxed_events (DirectDisclosure e # ms) = e # unboxed_events ms"
  "unboxed_events (MailboxDisclosure k xs # ms) = unboxed_events ms" "unboxed_events (BacklogDisclosure b # ms) = unboxed_events ms"
  "unboxed_events (as @ bs) = unboxed_events as @ unboxed_events bs"
  by (simp_all add: unboxed_events_def)

lemma direct_texts_simps [simp]:
  "direct_texts [] = []" "direct_texts (e # es) = direct_text e @ direct_texts es" "direct_texts (es @ fs) = direct_texts es @ direct_texts fs"
  by (simp_all add: direct_texts_def)

lemma push_batch_unboxed: "unboxed_events (push_batch k m ds) = unboxed_events ds"
  by (induction ds) (auto simp: unboxed_events_def split: mailbox_disclosure.splits)

text \<open>The plan keeps the events without a mailbox, in the order of the queue.\<close>

lemma plan_events_unboxed:
  "plan_events p es = Inr p' \<Longrightarrow> unboxed_events (dp_disclosures p') = unboxed_events (dp_disclosures p) @ filter (\<lambda>e. mailbox_of e = None) es"
proof (induction es arbitrary: p)
  case (Cons e es)
  obtain q where q: "plan_event p e = Inr q" "plan_events q es = Inr p'" using Cons.prems by (auto simp: bindE_Inr_iff)
  have "unboxed_events (dp_disclosures q) = unboxed_events (dp_disclosures p) @ filter (\<lambda>e. mailbox_of e = None) [e]"
    using q(1)
  proof (cases rule: plan_event_cases)
    case (message m k)
    then show ?thesis by (simp add: push_batch_unboxed mailbox_of_def)
  qed (simp_all add: mailbox_of_def)
  with Cons.IH [OF q(2)] show ?case by simp
qed simp

lemma plan_unboxed_events:
  "planMailboxDisclosures es cs = Inr p \<Longrightarrow> unboxed_events (dp_disclosures p) = filter (\<lambda>e. mailbox_of e = None) es"
  unfolding planMailboxDisclosures_def by (drule plan_events_unboxed) simp

lemma mset_direct_cong: "mset xs = mset ys \<Longrightarrow> mset (direct_texts (unboxed_events xs)) = mset (direct_texts (unboxed_events ys))"
proof -
  have "mset (direct_texts (unboxed_events xs)) =
      (\<Sum>m \<in># mset xs. mset (case m of DirectDisclosure e \<Rightarrow> direct_text e | _ \<Rightarrow> []))" for xs
    by (induction xs) (auto split: mailbox_disclosure.splits)
  then show "mset xs = mset ys \<Longrightarrow> ?thesis" by simp
qed

lemma drained_direct:
  "mset (direct_texts (unboxed_events (dr_interrupting (drained_of es p) @ dr_passive (drained_of es p)))) =
     mset (direct_texts (unboxed_events (dp_disclosures p)))"
proof (rule mset_direct_cong)
  have "mset (filter (\<lambda>m. disclosure_class_of m = HighInterrupting) ds @ filter (\<lambda>m. disclosure_class_of m = NormalInterrupting) ds
      @ filter (\<lambda>m. disclosure_class_of m = OrdinaryDisclosure) ds) = mset ds" for ds
    by (induction ds) (auto, metis disclosure_class.exhaust)
  then show "mset (dr_interrupting (drained_of es p) @ dr_passive (drained_of es p)) = mset (dp_disclosures p)"
    by (simp add: drained_of_def Let_def)
qed

section \<open>Disclosing cannot fail\<close>

definition reads_ok :: "(jstr \<times> int) list \<Rightarrow> bool" where
  "reads_ok rs \<longleftrightarrow> (\<forall>(k, i) \<in> set rs. is_mailbox_key k \<and> 0 < i \<and> i \<le> max_safe)"

lemma advance_reads_total: "reads_ok rs \<Longrightarrow> \<exists>cs'. advance_reads rs cs = Inr cs'"
  by (induction rs cs rule: advance_reads.induct)
    (auto simp: reads_ok_def advanceInboxReadCursor_def isPositiveSafeInteger_iff)

text \<open>What has to hold of the clock: it is not negative, and the lease added to it is still a safe integer.\<close>

definition clock_ok :: "int \<Rightarrow> bool" where
  "clock_ok t \<longleftrightarrow> 0 \<le> t \<and> t + engagement_lease_ms \<le> max_safe"

lemma engagement_total: "is_mailbox_key k \<Longrightarrow> clock_ok t \<Longrightarrow> \<exists>c'. recordMailboxEngagement c k t engagement_lease_ms = Inr c'"
  by (simp add: recordMailboxEngagement_def clock_ok_def isPositiveSafeInteger_iff isNonNegativeSafeInteger_iff isSafeInteger_def safe_int_def
      engagement_lease_ms_def max_safe_def Let_def)

lemma record_batch_total:
  assumes "\<forall>p \<in> set ps. batch_ok p" "clock_ok t" "reads_ok (dg_inboxReads g)"
  shows "\<exists>g'. record_batch t ps g = Inr g' \<and> reads_ok (dg_inboxReads g') \<and> dg_messages g' = dg_messages g"
  using assms
proof (induction ps arbitrary: g)
  case (Cons p ps)
  obtain k ms where p: "p = (k, ms)" by fastforce
  have b: "is_mailbox_key k" "0 < messageRowId (last ms)" "messageRowId (last ms) \<le> max_safe"
    using Cons.prems(1) batch_last [of k ms] by (auto simp: p batch_ok_def)
  obtain g1 where g1: "record_direct t p g = Inr g1" "dg_inboxReads g1 = dg_inboxReads g @ [(k, messageRowId (last ms))]" "dg_messages g1 = dg_messages g"
    using engagement_total [OF b(1) Cons.prems(2), of "recordMailboxDisclosure (dg_continuity g) k (sentAt (last ms))"]
    by (cases "isMailboxEngaged (dg_continuity g) k t") (auto simp: p record_direct_def Let_def count_disclosed_def intro: that)
  have r: "reads_ok (dg_inboxReads g1)" using Cons.prems(3) b by (auto simp: g1(2) reads_ok_def)
  have ps: "\<forall>p \<in> set ps. batch_ok p" using Cons.prems(1) by simp
  show ?case using Cons.IH [OF ps Cons.prems(2) r] g1(1,3) by simp
qed simp

lemma grow_batch_total: "\<exists>r. grow_batch cont t batch content ms = Inr r"
  by (induction cont t batch content ms rule: grow_batch.induct)
    (auto simp: Let_def renderMailboxDeltaBatch_def)

lemma envelope_total: "0 < ni_count i \<Longrightarrow> ni_count i \<le> max_safe \<Longrightarrow> \<exists>t. renderNotificationEnvelope i = Inr t"
  by (simp add: renderNotificationEnvelope_def safe_int_def)

lemma direct_renders: "mailboxKeyForEvent e = Inr None \<Longrightarrow> \<exists>t. renderBotEvent e = Inr t"
  using envelope_total [of "background_input (tk_taskId e) (tk_toolName e) (tk_ok e)"]
  by (cases e) (auto simp: bindE_Inr_iff background_input_def Let_def max_safe_def)

lemma disclose_one_total:
  assumes "can_disclose m" "de_renderEvent env = renderBotEvent"
  shows "\<exists>g'. disclose_one env m g = Inr g' \<and> dg_inboxReads g' = dg_inboxReads g
    \<and> mset (direct_texts (unboxed_events [m])) + mset (dg_messages g) \<subseteq># mset (dg_messages g')"
proof (cases m)
  case (MailboxDisclosure k ms)
  have "\<exists>t. renderMailboxNotification k ms before part = Inr t" for before part
    using assms(1) MailboxDisclosure unfolding renderMailboxNotification_def
    by (auto simp: batch_ok_def Let_def intro!: envelope_total)
  then show ?thesis using MailboxDisclosure
    by (auto simp: discloseMailbox_def Let_def push_user_def count_disclosed_def wake_now_def split: sum.splits) (metis sum.distinct(1))+
next
  case (BacklogDisclosure b)
  have "\<exists>t. renderMailboxBacklogNotification b part = Inr t" for part
    using assms(1) BacklogDisclosure unfolding renderMailboxBacklogNotification_def by (auto simp: Let_def intro!: envelope_total)
  then show ?thesis using BacklogDisclosure
    by (auto simp: discloseBacklog_def Let_def push_user_def count_disclosed_def wake_now_def split: sum.splits) (metis sum.distinct(1))+
next
  case (DirectDisclosure e)
  obtain t where "renderBotEvent e = Inr t" using assms(1) direct_renders DirectDisclosure by auto
  then show ?thesis using DirectDisclosure assms(2)
    by (cases t; cases "e = Wake") (auto simp: discloseDirect_def direct_text_def Let_def push_user_def count_disclosed_def wake_now_def)
qed

lemma batch_none: "unboxed_events (map disclosure_of_pair ps) = []"
  by (induction ps) (auto simp: disclosure_of_pair_def)

lemma discloseEvents_total:
  assumes "\<forall>m \<in> set ms. can_disclose m" "de_renderEvent env = renderBotEvent" "clock_ok (de_nowMs env)" "reads_ok (dg_inboxReads g)"
  shows "\<exists>g'. discloseEvents env ms g = Inr g' \<and> reads_ok (dg_inboxReads g')
    \<and> mset (direct_texts (unboxed_events ms)) + mset (dg_messages g) \<subseteq># mset (dg_messages g')"
  using assms
proof (induction env ms g rule: discloseEvents.induct)
  case (1 env ms g)
  show ?case
  proof (cases ms)
    case Nil
    then show ?thesis using 1(7) by (simp add: discloseEvents.simps)
  next
    case (Cons m rest)
    note un = discloseEvents.simps [of env "m # rest" g]
    have can: "can_disclose m" "\<forall>x \<in> set rest. can_disclose x" using 1(4) Cons by auto
    obtain g1 where g1: "disclose_one env m g = Inr g1" "dg_inboxReads g1 = dg_inboxReads g"
        "mset (direct_texts (unboxed_events [m])) + mset (dg_messages g) \<subseteq># mset (dg_messages g1)"
      using disclose_one_total [OF can(1) 1(5)] by blast
    have r1: "reads_ok (dg_inboxReads g1)" using g1(2) 1(7) by simp
    have single: ?thesis if "discloseEvents env ms g = discloseEvents env rest g1"
      and ih: "\<exists>g'. discloseEvents env rest g1 = Inr g' \<and> reads_ok (dg_inboxReads g')
        \<and> mset (direct_texts (unboxed_events rest)) + mset (dg_messages g1) \<subseteq># mset (dg_messages g')"
    proof -
      obtain g' where g': "discloseEvents env rest g1 = Inr g'" "reads_ok (dg_inboxReads g')"
        "mset (direct_texts (unboxed_events rest)) + mset (dg_messages g1) \<subseteq># mset (dg_messages g')" using ih by blast
      have "mset (direct_texts (unboxed_events ms)) = mset (direct_texts (unboxed_events [m])) + mset (direct_texts (unboxed_events rest))"
        using unboxed_events_simps(5) [of "[m]" rest] Cons by simp
      then have "mset (direct_texts (unboxed_events ms)) + mset (dg_messages g) \<subseteq># mset (dg_messages g')"
        using subset_mset.order_trans [OF subset_mset.add_left_mono [OF g1(3)] g'(3)] by (simp add: add.assoc add.left_commute)
      then show ?thesis using that(1) g'(1,2) by auto
    qed
    show ?thesis
    proof (cases "shouldDirectMailboxDisclosure (dg_continuity g) (de_nowMs env) m")
      case False
      then show ?thesis using single 1(3) [OF Cons False g1(1) can(2) 1(5,6) r1] g1(1) Cons by (simp add: un)
    next
      case True
      obtain batch content later where gb: "grow_batch (dg_continuity g) (de_nowMs env) [] None (m # rest) = Inr (batch, content, later)"
        using grow_batch_total by (metis prod_cases3)
      have new: "m # rest = map disclosure_of_pair batch @ later" using grow_batch_covers [OF gb] by auto
      show ?thesis
      proof (cases content)
        case None
        then show ?thesis using single 1(1) [OF Cons True gb refl refl None g1(1) can(2) 1(5,6) r1] g1(1) Cons True gb by (simp add: un)
      next
        case (Some t)
        have "can_disclose (disclosure_of_pair p)" if "p \<in> set batch" for p using that new can by (metis UnCI image_eqI list.set_intros(1) set_ConsD set_append set_map)
        then have "\<forall>p \<in> set batch. batch_ok p" by (auto simp: disclosure_of_pair_def)
        then obtain g2 where g2: "record_batch (de_nowMs env) batch (push_user t g) = Inr g2" "reads_ok (dg_inboxReads g2)"
            "dg_messages g2 = dg_messages g @ [UserMsg t]"
          using record_batch_total [OF _ 1(6), of batch "push_user t g"] 1(7) by (auto simp: push_user_def)
        have later: "\<forall>x \<in> set later. can_disclose x" using can new by (metis UnCI set_ConsD set_append)
        have "reads_ok (dg_inboxReads (wake_now env g2))" using g2(2) by (simp add: wake_now_def)
        from 1(2) [OF Cons True gb refl refl Some g2(1) later 1(5,6) this]
        obtain g' where g': "discloseEvents env later (wake_now env g2) = Inr g'" "reads_ok (dg_inboxReads g')"
            "mset (direct_texts (unboxed_events later)) + mset (dg_messages (wake_now env g2)) \<subseteq># mset (dg_messages g')"
          by blast
        have "unboxed_events ms = unboxed_events later" using new Cons batch_none [of batch] by simp
        moreover have "mset (dg_messages g) \<subseteq># mset (dg_messages (wake_now env g2))" using g2(3) by (simp add: wake_now_def)
        ultimately have "mset (direct_texts (unboxed_events ms)) + mset (dg_messages g) \<subseteq># mset (dg_messages g')"
          using g'(3) by (metis subset_mset.add_left_mono subset_mset.order_trans)
        moreover have "discloseEvents env ms g = Inr g'" using Cons True gb Some g2(1) g'(1) by (simp add: un)
        ultimately show ?thesis using g'(2) by blast
      qed
    qed
  qed
qed

section \<open>Staging\<close>

lemma disclose_all_total:
  assumes "\<forall>m \<in> set (dp_disclosures p). can_disclose m" "bd_renderEvent d = renderBotEvent" "clock_ok (bd_clock d (bl_world s))"
  shows "\<exists>g. disclose_all d env (drained_of es p) s = Inr g \<and> reads_ok (dg_inboxReads g)
    \<and> mset (direct_texts (unboxed_events (dp_disclosures p))) \<subseteq># mset (dg_messages g)"
proof -
  let ?dr = "drained_of es p"
  let ?de = "\<lparr>de_nowMs = bd_clock d (bl_world s), de_clock = le_clock env, de_participation = bd_participation d,
      de_renderEvent = bd_renderEvent d\<rparr>"
  let ?g0 = "\<lparr>dg_messages = [], dg_continuity = copied_continuity (bl_host s), dg_lastWakeAt = bh_lastWakeAt (bl_host s),
      dg_disclosed = 0, dg_inboxReads = []\<rparr>"
  have can: "\<forall>m \<in> set (dr_interrupting ?dr). can_disclose m" "\<forall>m \<in> set (dr_passive ?dr). can_disclose m"
    using assms(1) drained_disclosures [of es p] by blast+
  obtain g1 where g1: "discloseEvents ?de (dr_interrupting ?dr) ?g0 = Inr g1" "reads_ok (dg_inboxReads g1)"
      "mset (direct_texts (unboxed_events (dr_interrupting ?dr))) \<subseteq># mset (dg_messages g1)"
    using discloseEvents_total [of "dr_interrupting ?dr" ?de ?g0] can(1) assms(2,3) by (auto simp: reads_ok_def)
  obtain g2 where g2: "discloseEvents ?de (dr_passive ?dr) g1 = Inr g2" "reads_ok (dg_inboxReads g2)"
      "mset (direct_texts (unboxed_events (dr_passive ?dr))) + mset (dg_messages g1) \<subseteq># mset (dg_messages g2)"
    using discloseEvents_total [of "dr_passive ?dr" ?de g1] can(2) assms(2,3) g1(2) by auto
  have "mset (direct_texts (unboxed_events (dr_interrupting ?dr @ dr_passive ?dr))) \<subseteq># mset (dg_messages g2)"
    using subset_mset.order_trans [OF subset_mset.add_left_mono [OF g1(3)] g2(3)] by (simp add: add.commute)
  then show ?thesis using g1(1) g2(1,2) drained_direct [of es p] by (auto simp: disclose_all_def Let_def)
qed

lemma staging_succeeds:
  assumes reports: "\<And>x w. \<exists>w'. bd_report d x w = (Inr (), w')" and clock: "\<And>w. clock_ok (bd_clock d w)"
    and renderer: "bd_renderEvent d = renderBotEvent"
    and ok: "\<forall>e \<in> set (eq_events (bl_queue s)). event_ok e \<and> counted e" "int (length (eq_events (bl_queue s))) \<le> max_safe"
  obtains g s1 where "stage_events d env s = (Inr g, s1)"
    "mset (direct_texts (filter (\<lambda>e. mailbox_of e = None) (eq_events (bl_queue s)))) \<subseteq># mset (sg_messages g)"
proof -
  let ?es = "eq_events (bl_queue s)"
  obtain p where p: "planMailboxDisclosures ?es (cursor_numbers (bh_mailboxCursors (bl_host s))) = Inr p"
    by (rule plan_exists [of ?es]) (use ok in blast)+
  let ?dr = "drained_of ?es p" and ?s1 = "s\<lparr>bl_queue := (bl_queue s)\<lparr>eq_events := []\<rparr>\<rparr>"
  have dr: "drainEvents s = (Inr ?dr, ?s1)" using p by (simp add: drainEvents_def drain_queue_all)
  have passes: "\<exists>s'. report_trigger d t s = (Inr (), s')" "\<exists>s'. report_phase d i s = (Inr (), s')" for t i s
    using reports [of "ReportTrigger (bd_clock d (bl_world s)) t" "bl_world s"] reports [of "ReportPhase (bd_clock d (bl_world s)) i" "bl_world s"]
    by (auto simp: report_trigger_def report_phase_def)
  obtain s3 where s3: "report_trigger d (describeActivityTrigger (dr_events ?dr)) (reset_for_events ?dr ?s1) = (Inr (), s3)" using passes(1) by blast
  obtain s4 where s4: "report_phase d (thinking_phase (Suc (bl_roundIndex s3))) s3 = (Inr (), s4)" using passes(2) by blast
  have can: "\<forall>m \<in> set (dp_disclosures p). can_disclose m" by (rule plan_can_disclose [OF p]) (use ok in auto)
  obtain dg where dg: "disclose_all d env ?dr s4 = Inr dg" "reads_ok (dg_inboxReads dg)"
      "mset (direct_texts (unboxed_events (dp_disclosures p))) \<subseteq># mset (dg_messages dg)"
    using disclose_all_total [OF can renderer clock [of "bl_world s4"], of env ?es] by blast
  obtain reads where reads: "advance_reads (dg_inboxReads dg) (bh_inboxReadCursors (bl_host s4)) = Inr reads"
    using advance_reads_total [OF dg(2)] by blast
  obtain g s1 where g: "stage_events d env s = (Inr g, s1)" "mset (dg_messages dg) \<subseteq># mset (sg_messages g)"
    by (auto simp: stage_events_def dr Let_def s3 s4 dg reads bootstrap_messages_def intro: that)
  show ?thesis
    using that [OF g(1)] subset_mset.order_trans [OF dg(3) g(2)] plan_unboxed_events [OF p] by simp
qed

text \<open>The commit of what was staged: either everything is as before and the events are back, or the messages are in the
  ledger, and they show what the cursors claim.\<close>

lemma staged_commit:
  assumes "in_sync (bl_host s) (bl_db s) es rs" "json_column (bd_column d)" "bd_renderEvent d = renderBotEvent"
    and "\<forall>e \<in> set (eq_events (bl_queue s)). event_ok e \<and> dated e" "stage_events d env s = (Inr g, s1)"
    and shown: "shown (sg_messages g)"
  shows "case commit_staged d env g s1 of
     (Inl e, s2) \<Rightarrow> bl_host s2 = bl_host s \<and> in_sync (bl_host s2) (bl_db s2) es rs
        \<and> eq_events (bl_queue s2) = le_arrivals env @ eq_events (bl_queue s)
   | (Inr _, s2) \<Rightarrow> \<exists>ns rs'. in_sync (bl_host s2) (bl_db s2) (es @ ns) rs' \<and> shown (entry_messages ns) \<and> (\<forall>k.
        cursor_of (cursor_numbers (bh_mailboxCursors (bl_host s2))) k =
          Max (insert (cursor_of (cursor_numbers (bh_mailboxCursors (bl_host s))) k) (set (rows_in k (eq_events (bl_queue s)))))
        \<and> att_disclosed (attention_at (captureMailboxAttentionState (entry_messages ns)) k) =
          step_disclosed (eq_events (bl_queue s)) (cursor_numbers (bh_mailboxCursors (bl_host s))) k)"
  using assms(1,3,4,5)
proof (rule staged_facts)
  fix p ts
  let ?es = "eq_events (bl_queue s)" and ?cs = "cursor_numbers (bh_mailboxCursors (bl_host s))"
  assume plan: "planMailboxDisclosures ?es ?cs = Inr p" and dr: "sg_drained g = drained_of ?es p"
    and cursors: "cursors_wf (dp_cursors p)" and cont: "continuity_wf (sg_continuity g)"
    and reads: "\<forall>cs. sg_readCursors g = Some cs \<longrightarrow> distinct (map fst cs)" and msgs: "sg_messages g = map UserMsg ts"
    and att: "\<And>k. att_disclosed (messages_attention (map UserMsg ts) k) = step_disclosed ?es ?cs k"
    and s1: "bl_host s1 = bl_host s" "bl_db s1 = bl_db s" "eq_events (bl_queue s1) = []"
  have drc: "dr_cursors (sg_drained g) = dp_cursors p" "dr_events (sg_drained g) = ?es" by (simp_all add: dr drained_of_def Let_def)
  have sync: "in_sync (bl_host s1) (bl_db s1) es rs" using assms(1) s1 by simp
  have wf: "cursors_wf (dr_cursors (sg_drained g))" using cursors by (simp add: drc)
  have att': "att_disclosed (attention_at (captureMailboxAttentionState (map UserMsg ts)) k) = step_disclosed ?es ?cs k" for k
    using att by (simp add: capture_attention)
  show ?thesis
  proof (cases "sg_messages g = [] \<and> \<not> cursors_changed g s1")
    case True
    have "dp_cursors p = ?cs" using cursors_unchanged [OF sync wf] True s1(1) by (simp add: drc)
    then have "cursor_of ?cs k = Max (insert (cursor_of ?cs k) (set (rows_in k ?es)))" for k
      using highest_cursor [OF plan, of k] by simp
    moreover have "in_sync (bl_host s1) (bl_db s1) (es @ []) rs" using sync by simp
    moreover have "entry_messages [] = map UserMsg ts" using True msgs by simp
    ultimately show ?thesis using True s1 att' msgs shown by (auto simp: commit_staged_def intro!: exI [of _ "[]"] exI [of _ rs])
  next
    case False
    note commit = events_commit [OF sync assms(2) msgs wf cont reads]
    obtain r h db where run: "commitChange (bd_column d) (sg_messages g) (Some (events_patch g)) (bl_host s1, bl_db s1) = (r, h, db)"
      by (metis prod_cases3)
    show ?thesis
    proof (cases r)
      case (Inl e)
      obtain s' where "commitChanges d (sg_messages g) (Some (events_patch g)) s1 = (Inl (CommitFailed e), s')"
          "bl_host s' = h" "bl_db s' = db" "bl_queue s' = bl_queue s1"
        using commitChanges_Inl [OF run [unfolded Inl]] by blast
      then show ?thesis using commit run Inl False s1 by (auto simp: commit_staged_def drc enqueue_all_events)
    next
      case (Inr x)
      obtain s' where s': "commitChanges d (sg_messages g) (Some (events_patch g)) s1 = (Inr (), s')" "bl_host s' = h" "bl_db s' = db"
        using commitChanges_Inr [OF run [unfolded Inr]] by blast
      obtain ns rs' where ns: "in_sync h db (es @ ns) rs'" "entry_messages ns = map UserMsg ts"
          "set (cursor_numbers (bh_mailboxCursors h)) = set (dr_cursors (sg_drained g))"
        using commit run Inr by auto
      have "cursor_of (cursor_numbers (bh_mailboxCursors h)) k = cursor_of (dp_cursors p) k" for k
        using cursor_of_set [OF _ _ ns(3)] host_cursors(1) [OF ns(1)] cursors by (simp add: cursors_wf_def drc)
      then have "cursor_of (cursor_numbers (bh_mailboxCursors h)) k = Max (insert (cursor_of ?cs k) (set (rows_in k ?es)))" for k
        using highest_cursor [OF plan, of k] by simp
      with ns s' att' False msgs shown show ?thesis by (auto simp: commit_staged_def Let_def intro!: exI [of _ ns] exI [of _ rs'])
    qed
  qed
qed

end
