(* ===== verification/Loop_Properties.thy ===== *)
theory Loop_Properties
  imports Loop_Staging React_Properties Activity_Surface Coordinator_Properties Event_Properties
begin

text \<open>
  The tools of autonomous discovery, the memory of novelty keys, and what happens when a report is refused.
\<close>

section \<open>Discovery\<close>

lemma discovery_results_nth:
  "length rs = length (filter (\<lambda>c. \<not> is_rest c) calls) \<Longrightarrow>
     length (discovery_results calls rs) = length calls \<and> (\<forall>i < length calls.
       (is_rest (calls ! i) \<longrightarrow> discovery_results calls rs ! i = Inr rest_refused)
       \<and> (\<not> is_rest (calls ! i) \<longrightarrow> discovery_results calls rs ! i =
           map_sum id (\<lambda>res. if resolveEffectiveToolName (calls ! i) \<in> set AUTONOMY_MAINTENANCE_TOOL_NAMES then without_progress res else res)
             (rs ! length (filter (\<lambda>c. \<not> is_rest c) (take i calls)))))"
proof (induction calls rs rule: discovery_results.induct)
  case (2 c cs rs)
  show ?case
  proof (cases "is_rest c")
    case True
    then show ?thesis using 2 by (auto simp: nth_Cons split: nat.splits)
  next
    case False
    then obtain r rs' where rs: "rs = r # rs'" using 2(3) by (cases rs) auto
    have ih: "length rs' = length (filter (\<lambda>c. \<not> is_rest c) cs)" using 2(3) False rs by simp
    show ?thesis using 2(2) [OF False rs ih] False rs
      by (cases r) (auto simp: nth_Cons split: nat.splits)
  qed
qed simp

section \<open>The memory of novelty keys\<close>

text \<open>The reference: the 256 most recent different keys, oldest first.\<close>

definition recent_keys :: "jstr list \<Rightarrow> jstr list" where
  "recent_keys ks = drop (length (remdups ks) - recent_novelty_cap) (remdups ks)"

definition novelty_keys :: "react_outcome list \<Rightarrow> jstr list" where
  "novelty_keys outs = concat (map (\<lambda>x. case rt_noveltyKey x of None \<Rightarrow> [] | Some k \<Rightarrow> [k]) outs)"

lemma remdups_snoc: "remdups (xs @ [x]) = filter (\<lambda>y. y \<noteq> x) (remdups xs) @ [x]"
  by (induction xs) auto

lemma filter_drop_distinct:
  "distinct xs \<Longrightarrow> filter (\<lambda>y. y \<noteq> x) (drop n xs) = (if x \<in> set (take n xs) then drop (n - 1) else drop n) (filter (\<lambda>y. y \<noteq> x) xs)"
proof (induction xs arbitrary: n)
  case (Cons a xs)
  show ?case
  proof (cases n)
    case (Suc m)
    with Cons show ?thesis
      by (cases m) (auto simp: filter_id_conv dest: in_set_takeD split: if_splits)
  qed simp
qed simp

lemma tl_drop_snoc: "m < length xs \<Longrightarrow> tl (drop m xs @ [k]) = drop (Suc m) xs @ [k]"
  by (cases "drop m xs") (auto simp: drop_Suc tl_drop dest: arg_cong [where f = tl])

lemma remember_recent:
  assumes "map fst keys = recent_keys ks"
  shows "map fst (rememberToolNovelty r k keys) = recent_keys (ks @ [k])"
proof -
  let ?R = "remdups ks" and ?F = "filter (\<lambda>y. y \<noteq> k) (remdups ks)"
  let ?d = "length ?R - recent_novelty_cap"
  have cap: "recent_novelty_cap = 256" by (simp add: recent_novelty_cap_def)
  let ?K = "filter (\<lambda>p. fst p \<noteq> k) keys @ [(k, r)]"
  have "map fst (filter (\<lambda>p. fst p \<noteq> k) keys) = filter (\<lambda>y. y \<noteq> k) (map fst keys)" by (simp add: filter_map comp_def)
  then have K: "map fst ?K = filter (\<lambda>y. y \<noteq> k) (drop ?d ?R) @ [k]" by (simp add: assms recent_keys_def)
  then have len: "length ?K = length (filter (\<lambda>y. y \<noteq> k) (drop ?d ?R)) + 1" by (metis length_append_singleton length_map Suc_eq_plus1)
  have rem: "map fst (rememberToolNovelty r k keys) = (if length ?K \<le> 256 then map fst ?K else tl (map fst ?K))"
    by (simp add: rememberToolNovelty_def Let_def cap map_tl)
  have target: "recent_keys (ks @ [k]) = drop (length ?F + 1 - 256) (?F @ [k])" by (simp add: recent_keys_def remdups_snoc cap)
  have fd: "filter (\<lambda>y. y \<noteq> k) (drop ?d ?R) = (if k \<in> set (take ?d ?R) then drop (?d - 1) ?F else drop ?d ?F)"
    using filter_drop_distinct [of ?R k ?d] by simp
  have count: "length ?F = (if k \<in> set ?R then length ?R - 1 else length ?R)"
  proof (cases "k \<in> set ?R")
    case True
    then show ?thesis using remove1_filter_not [of "\<lambda>y. y \<noteq> k" k ?R] distinct_remove1_removeAll [of ?R k] length_remove1 [of k ?R]
      by (simp add: removeAll_filter_not_eq eq_commute [of k])
  qed (auto intro!: arg_cong [where f = length] simp: filter_id_conv)
  have sub: "k \<in> set (take ?d ?R) \<Longrightarrow> k \<in> set ?R \<and> 256 < length ?R" by (cases "256 < length ?R") (auto dest: in_set_takeD simp: cap)
  have ne: "k \<in> set ?R \<Longrightarrow> 0 < length ?R" by (cases ?R) auto
  show ?thesis
  proof (cases "k \<in> set (take ?d ?R)")
    case True
    with sub count have n: "256 < length ?R" "length ?R - 257 < length ?F" "Suc (length ?R - 257) = length ?R - 256" by auto
    from True show ?thesis using rem target fd count sub len K tl_drop_snoc [OF n(2), of k] by (simp add: cap n(3))
  next
    case False
    have "256 \<le> length ?R \<Longrightarrow> Suc (length ?R - 256) = length ?R - 255" by simp
    then show ?thesis using False rem target fd count ne len K by (auto simp: cap tl_drop drop_Suc [symmetric] Suc_diff_le split: if_splits)
  qed
qed

text \<open>Whether an outcome counts: it made progress, and its key is not in the memory.\<close>

definition counts_after :: "jstr list \<Rightarrow> react_outcome \<Rightarrow> bool" where
  "counts_after seen x \<longleftrightarrow> rt_progress x \<and> (case rt_noveltyKey x of None \<Rightarrow> True | Some k \<Rightarrow> k \<notin> set (recent_keys seen))"

lemma novelty_snoc: "novelty_keys (xs @ [x]) = novelty_keys xs @ (case rt_noveltyKey x of None \<Rightarrow> [] | Some k \<Rightarrow> [k])"
  by (simp add: novelty_keys_def)

lemma control_memory:
  fixes r :: nat
  assumes "map fst keys = recent_keys seen"
  defines "final \<equiv> \<lambda>outs. foldl (control_outcome r) \<lparr>tl_madeProgress = False, tl_continuations = [], tl_keys = keys\<rparr> outs"
  shows "map fst (tl_keys (final outs)) = recent_keys (seen @ novelty_keys outs)
    \<and> (tl_madeProgress (final outs) \<longleftrightarrow> (\<exists>i < length outs. counts_after (seen @ novelty_keys (take i outs)) (outs ! i)))"
proof (induction outs rule: rev_induct)
  case Nil
  then show ?case by (simp add: final_def novelty_keys_def assms(1))
next
  case (snoc x outs)
  let ?t = "final outs"
  have t: "final (outs @ [x]) = control_outcome r ?t x" by (simp add: final_def)
  have mem: "k \<in> fst ` set (tl_keys ?t) \<longleftrightarrow> k \<in> set (recent_keys (seen @ novelty_keys outs))" for k
    using snoc by (metis set_map)
  have "tl_madeProgress (final (outs @ [x])) \<longleftrightarrow> tl_madeProgress ?t \<or> counts_after (seen @ novelty_keys outs) x"
    by (auto simp: t control_outcome_def Let_def counts_after_def mem split: option.splits)
  then have "tl_madeProgress (final (outs @ [x])) \<longleftrightarrow>
      (\<exists>i < length (outs @ [x]). counts_after (seen @ novelty_keys (take i (outs @ [x]))) ((outs @ [x]) ! i))"
    using snoc by (auto simp: less_Suc_eq nth_append)
  moreover have "map fst (tl_keys (final (outs @ [x]))) = recent_keys (seen @ novelty_keys (outs @ [x]))"
  proof (cases "rt_noveltyKey x")
    case (Some k)
    have "map fst (tl_keys ?t) = recent_keys (seen @ novelty_keys outs)" using snoc by simp
    from remember_recent [OF this, of r k] show ?thesis by (simp add: t control_outcome_def Let_def Some novelty_snoc)
  qed (use snoc in \<open>simp add: t control_outcome_def Let_def novelty_snoc\<close>)
  ultimately show ?case by blast
qed

section \<open>Refused reports\<close>

lemma staging_failed:
  assumes "stage_events d env s = (Inl e, s1)"
  shows "eq_events (bl_queue s1) = [] \<and> bl_host s1 = bl_host s \<and> bl_db s1 = bl_db s"
proof -
  let ?es = "eq_events (bl_queue s)"
  let ?s0 = "s\<lparr>bl_queue := (bl_queue s)\<lparr>eq_events := []\<rparr>\<rparr>"
  show ?thesis
  proof (cases "planMailboxDisclosures ?es (cursor_numbers (bh_mailboxCursors (bl_host s)))")
    case (Inl x)
    then show ?thesis using assms by (auto simp: stage_events_def drainEvents_def drain_queue_all)
  next
    case (Inr p)
    let ?dr = "drained_of ?es p"
    have dr: "drainEvents s = (Inr ?dr, ?s0)" using Inr by (simp add: drainEvents_def drain_queue_all)
    let ?s2 = "reset_for_events ?dr ?s0"
    obtain r3 s3 where s3: "report_trigger d (describeActivityTrigger (dr_events ?dr)) ?s2 = (r3, s3)" by fastforce
    obtain r4 s4 where s4: "report_phase d (thinking_phase (Suc (bl_roundIndex s3))) s3 = (r4, s4)" by fastforce
    have k: "bl_queue s3 = (bl_queue s)\<lparr>eq_events := []\<rparr>" "bl_host s3 = bl_host s" "bl_db s3 = bl_db s"
        "bl_queue s4 = (bl_queue s)\<lparr>eq_events := []\<rparr>" "bl_host s4 = bl_host s" "bl_db s4 = bl_db s"
      using report_keeps(1) [OF s3] report_keeps(2) [OF s4] by simp_all
    have "s1 = s3 \<or> s1 = s4"
      using assms by (auto simp: stage_events_def dr Let_def s3 s4 split: sum.splits)
    with k show ?thesis by auto
  qed
qed

text \<open>A call that must not run beside others is alone in its batch; as the last call of a round it is the last thing run.\<close>

lemma last_call_alone:
  assumes "run_calls d k (pre @ [c]) w = (Inr a, w')" "\<not> isParallelSafeToolCall (rn_tools d) c"
  shows "\<exists>w0. w' = snd (ex_batch (rn_tools d) [c] k w0)"
  using assms(1)
proof (induction "length pre" arbitrary: pre w a rule: less_induct)
  case less
  let ?calls = "pre @ [c]" and ?b = "next_batch (rn_tools d) (pre @ [c])"
  obtain rs w1 where run: "ex_batch (rn_tools d) ?b k w = (rs, w1)" by fastforce
  obtain b where rest: "run_calls d k (drop (length ?b) ?calls) w1 = (Inr b, w')"
    using less(2) by (auto simp: run_calls.simps [of d k ?calls] Let_def run split: sum.splits prod.splits)
  show ?case
  proof (cases "length ?b \<le> length pre")
    case True
    have "0 < length ?b" by (rule next_batch_length) simp
    then have "length (drop (length ?b) pre) < length pre" using True unfolding length_drop by linarith
    from less(1) [OF this, of w1 b] rest True show ?thesis by simp
  next
    case False
    then have "?b = ?calls" using next_batch_prefix [of "rn_tools d" ?calls] by (metis append.right_neutral append_eq_append_conv2
          diff_is_0_eq drop_all length_append_singleton not_less_eq_eq)
    then have "?b = [c]" using assms(2)
      by (cases pre) (auto simp: takeParallelSafeBatch_def takeWhile_eq_all_conv split: if_splits)
    then show ?thesis using run rest False by (auto simp: run_calls.simps [of d k "[]"] intro!: exI [of _ w])
  qed
qed

lemma chat_loop_last: "chat_loop d ms b e m cs w = (Inr (c, completions), w') \<Longrightarrow> last completions = c"
  by (induction d ms b e m cs w rule: chat_loop.induct)
    (subst (asm) (2) chat_loop.simps, auto split: sum.splits prod.splits if_splits)

lemma round_last_call:
  assumes "runReactRound d k ms staged w = (Inr r, w')" "cl_toolCalls (last (rr_completions r)) = pre @ [c]"
    and "\<not> isParallelSafeToolCall (rn_tools d) c"
  shows "\<exists>w0. w' = snd (ex_batch (rn_tools d) [c] k w0)"
proof -
  obtain b cp cps w1 a where r: "chat_loop d (fst (buildWorkingContextProjection (rn_nativeImages d) (rn_images d) (ms @ staged))) b False None [] w
      = (Inr (cp, cps), w1)" "run_calls d k (cl_toolCalls cp) w1 = (Inr a, w')" "r = round_result_of cp cps a"
    using assms(1) by (auto simp: runReactRound_def Let_def split: sum.splits prod.splits)
  have "cl_toolCalls cp = pre @ [c]" using chat_loop_last [OF r(1)] assms(2) by (simp add: r(3) round_result_of_def)
  with r(2) show ?thesis using last_call_alone [OF _ assms(3)] by simp
qed

text \<open>The reporter is part of the world the tools act on: \<open>reporting\<close> says that the loop reports to it, \<open>tracking\<close> that a call
  that runs alone goes through \<open>tracked_execute\<close>.\<close>

definition reporting :: "('x, 't, 'w \<times> activity_reporter) loop_deps \<Rightarrow> (jstr \<Rightarrow> bool) \<Rightarrow> bool" where
  "reporting d isoTime \<longleftrightarrow> bd_report d = (\<lambda>x (w, r). apsnd (Pair w) (run_report isoTime x r))"

definition tracking :: "('t, 'w \<times> activity_reporter) tool_executor \<Rightarrow> (jstr \<Rightarrow> bool) \<Rightarrow> jstr \<Rightarrow> ('w \<Rightarrow> int)
    \<Rightarrow> (tool_call \<Rightarrow> nat \<Rightarrow> 'w \<Rightarrow> (jstr + tool_result) \<times> 'w) \<Rightarrow> bool" where
  "tracking tools isoTime zodText clk execute \<longleftrightarrow>
     (\<forall>c k w. ex_batch tools [c] k w = apfst (\<lambda>res. [res]) (tracked_execute isoTime zodText clk execute c k w))"

definition step_tools :: "('x, 't, 'w) loop_deps \<Rightarrow> 'w bot_loop \<Rightarrow> ('t, 'w) tool_executor" where
  "step_tools d s = (if bl_discoveryActive s then createAutonomyDiscoveryToolExecutor (rn_tools (bd_round d)) else rn_tools (bd_round d))"

lemma nameless_names:
  assumes "tc_name c = []"
  shows "effectiveToolName c = []" "\<not> is_rest c"
  using assms by (simp_all add: effectiveToolName_def is_rest_def resolveEffectiveToolName_def js_def)

text \<open>The round leaves the nameless tool among the active ones.\<close>

lemma nameless_round:
  assumes "react_round d (step_tools d s) staged s' = (Inr r, s3)" "cl_toolCalls (last (rr_completions r)) = pre @ [c]" "tc_name c = []"
    and "is_json (summarizeToolArgs (effectiveToolArgs c))" "\<not> isParallelSafeToolCall (rn_tools (bd_round d)) c"
    and "tracking (rn_tools (bd_round d)) isoTime zodText clk execute"
  shows "nameless_active (tc_id c) (snd (bl_world s3))" "bl_host s3 = bl_host s'" "bl_db s3 = bl_db s'"
proof -
  let ?T = "step_tools d s" and ?R = "rn_tools (bd_round d)"
  have batch: "snd (ex_batch ?T [c] k w) = snd (ex_batch ?R [c] k w)" for k w
    using nameless_names(2) [OF assms(3)] by (simp add: step_tools_def createAutonomyDiscoveryToolExecutor_def Let_def split_beta)
  have safe: "\<not> isParallelSafeToolCall ?T c"
    using assms(5) by (simp add: step_tools_def createAutonomyDiscoveryToolExecutor_def isParallelSafeToolCall_def)
  obtain w' where w': "runReactRound ((bd_round d)\<lparr>rn_tools := ?T\<rparr>) (bl_roundIndex s') (fst (getSnapshot (bh_context (bl_host s')))) staged
      (bl_world s') = (Inr r, w')" "s3 = s'\<lparr>bl_world := w'\<rparr>"
    using assms(1) by (auto simp: react_round_def split: prod.splits)
  then obtain w0 where "w' = snd (ex_batch ?T [c] (bl_roundIndex s') w0)"
    using round_last_call [OF w'(1) assms(2)] safe by auto
  moreover obtain w1 r1 where "w0 = (w1, r1)" by fastforce
  ultimately have "w' = snd (tracked_execute isoTime zodText clk execute c (bl_roundIndex s') (w1, r1))"
    using assms(6) by (simp add: batch tracking_def)
  then show "nameless_active (tc_id c) (snd (bl_world s3))"
    using nameless_call_stays [OF nameless_names(1) [OF assms(3)] assms(4), of isoTime zodText clk execute "bl_roundIndex s'" w1 r1] w'(2) by auto
  show "bl_host s3 = bl_host s'" "bl_db s3 = bl_db s'" using w'(2) by simp_all
qed

lemma phase_refused:
  assumes "reporting d isoTime" "nameless_active i (snd (bl_world s))"
  shows "\<exists>w. report_phase d p s = (Inl (ReportFailed SurfaceInvalid), s\<lparr>bl_world := w\<rparr>) \<and> nameless_active i (snd w)"
proof -
  obtain w r where w: "bl_world s = (w, r)" by fastforce
  let ?x = "ReportPhase (bd_clock d (bl_world s)) p"
  have a: "nameless_active i r" "\<not> about_call i ?x" using assms(2) w by simp_all
  obtain r' where r': "run_report isoTime ?x r = (Inl SurfaceInvalid, r')" "nameless_active i r'"
    using report_refused [OF a, of isoTime] by blast
  have "bd_report d ?x (bl_world s) = (Inl SurfaceInvalid, w, r')"
    using assms(1) r'(1) by (simp add: reporting_def w)
  then show ?thesis using r'(2) by (auto simp: report_phase_def)
qed

text \<open>
  The properties of the bot loop, with their witnesses.
\<close>

section \<open>The events of a step\<close>

text \<open>C1. A turn loses no event as long as its reports are accepted, and the history records what the cursors claim.  From a
  memory in step with the ledger, and a queue of at most \<open>max_safe\<close> events as the rest of the program queues them, planning,
  rendering and staging succeed, with all events of the queue taken.  If the commit fails, the memory is as before,
  the ledger still loads to it, and the events are back in the queue behind those that arrived.  If it succeeds,
  memory and ledger are in step again, the cursor of every mailbox is the greatest row seen, the messages the commit
  appended show exactly the mailboxes with new rows, up to their cursors, and the text of every event that belongs to
  no mailbox (plans, background tasks, the first start) is among them, as often as it was queued.\<close>

theorem taken_events_are_recorded:
  assumes "in_sync (bl_host s) (bl_db s) es rs" "json_column (bd_column d)" "bd_renderEvent d = renderBotEvent"
    and "\<And>x w. \<exists>w'. bd_report d x w = (Inr (), w')" "\<And>w. clock_ok (bd_clock d w)"
    and "\<forall>e \<in> set (eq_events (bl_queue s)). event_ok e \<and> dated e \<and> counted e" "int (length (eq_events (bl_queue s))) \<le> max_safe"
  shows "\<exists>g s1. stage_events d env s = (Inr g, s1) \<and> (case commit_staged d env g s1 of
     (Inl e, s2) \<Rightarrow> bl_host s2 = bl_host s \<and> in_sync (bl_host s2) (bl_db s2) es rs
        \<and> eq_events (bl_queue s2) = le_arrivals env @ eq_events (bl_queue s)
   | (Inr _, s2) \<Rightarrow> \<exists>ns rs'. in_sync (bl_host s2) (bl_db s2) (es @ ns) rs'
        \<and> mset (direct_texts (filter (\<lambda>e. mailbox_of e = None) (eq_events (bl_queue s)))) \<subseteq># mset (entry_messages ns) \<and> (\<forall>k.
        cursor_of (cursor_numbers (bh_mailboxCursors (bl_host s2))) k =
          Max (insert (cursor_of (cursor_numbers (bh_mailboxCursors (bl_host s))) k) (set (rows_in k (eq_events (bl_queue s)))))
        \<and> att_disclosed (attention_at (captureMailboxAttentionState (entry_messages ns)) k) =
          step_disclosed (eq_events (bl_queue s)) (cursor_numbers (bh_mailboxCursors (bl_host s))) k))"
proof -
  have ok: "\<forall>e \<in> set (eq_events (bl_queue s)). event_ok e \<and> counted e" "\<forall>e \<in> set (eq_events (bl_queue s)). event_ok e \<and> dated e"
    using assms(6) by blast+
  obtain g s1 where g: "stage_events d env s = (Inr g, s1)"
    "mset (direct_texts (filter (\<lambda>e. mailbox_of e = None) (eq_events (bl_queue s)))) \<subseteq># mset (sg_messages g)"
    by (rule staging_succeeds [OF assms(4,5,3) ok(1) assms(7)])
  note commit = staged_commit [OF assms(1-3) ok(2) g(1), where shown = "\<lambda>ms. mset (direct_texts (filter (\<lambda>e. mailbox_of e = None) (eq_events (bl_queue s)))) \<subseteq># mset ms", OF g(2)]
  show ?thesis by (rule exI [of _ g], rule exI [of _ s1], rule conjI [OF g(1) commit])
qed

text \<open>A loop on an empty ledger, whose provider and tools do nothing.\<close>

definition sample_loop_deps :: "(unit, unit, unit) loop_deps" where
  "sample_loop_deps = \<lparr>bd_round = round_deps_sample sample_tools, bd_compaction = sample_deps, bd_column = (\<lambda>v. v), bd_digest = (\<lambda>t. t),
     bd_overflow = (\<lambda>_. False), bd_overflowWindow = (\<lambda>_. None), bd_getFocus = None, bd_syncFocus = (\<lambda>_ w. w), bd_syncReads = (\<lambda>_ w. w),
     bd_report = (\<lambda>_ w. (Inr (), w)), bd_renderEvent = renderBotEvent, bd_participation = (\<lambda>_. None), bd_onCommitted = (\<lambda>_ w. w),
     bd_clock = (\<lambda>_. 1700000000000), bd_retryWaitMs = 60000, bd_wakeIntervalMs = 1800000, bd_errorBackoffMs = 5000\<rparr>"

definition sample_queue :: "bot_event list \<Rightarrow> bot_event event_queue" where
  "sample_queue es = empty_queue\<lparr>eq_events := es\<rparr>"

definition sample_loop :: "'w \<Rightarrow> bot_event list \<Rightarrow> 'w bot_loop" where
  "sample_loop w es = \<lparr>bl_host = fresh_host, bl_db = sample_db, bl_queue = sample_queue es, bl_world = w, bl_nextAttemptAt = 0,
     bl_stopRequested = False, bl_roundIndex = 0, bl_consecutiveRounds = 0, bl_attentionCorrectionIssued = False,
     bl_textCorrectionIssued = False, bl_shortWorkPending = False, bl_correctionRounds = 0, bl_noProgressRounds = 0,
     bl_discoveryActive = False, bl_discoveryPromptPending = False, bl_discoverySource = IdleTimeout, bl_directionIndex = 0,
     bl_failedDirections = 0, bl_direction = hd AUTONOMY_DISCOVERY_DIRECTIONS, bl_noveltyKeys = [], bl_lastContextWindowTokens = 200000\<rparr>"

definition sample_loop_env :: loop_env where
  "sample_loop_env = \<lparr>le_clock = (\<lambda>_. 1700000000000), le_run = (\<lambda>_. idle_run), le_arrivals = [], le_later = [], le_waiting = [], le_stop = False\<rparr>"

abbreviation sample_news :: "bot_event list" where
  "sample_news \<equiv> [MessageEvent (sample_message 5 False), Wake, Bootstrap]"

lemma sample_key: "mailbox_of_message (sample_message r b) = Inr (js ''qq_group:20002'')"
  by (simp add: sample_message_def dec_of_int_def dec_of_nat.simps js_def)

lemma sample_rows: "messageRowId (sample_message 5 False) = 5" "sentAt (sample_message r b) = 1700000000000" "\<not> isHighPriorityMailboxEvent (sample_message r False)"
    "message_group (sample_message r b) = Some 20002" "is_group_message (sample_message r b)"
  by (simp_all add: sample_message_def safe_int_def max_safe_def)

lemma sample_news_ok: "\<forall>e \<in> set sample_news. event_ok e \<and> dated e \<and> counted e"
proof -
  have "is_mailbox_key (js ''qq_group:20002'')" by code_simp
  moreover have "message_ok (sample_message 5 False)" by (simp add: sample_message_def max_safe_def safe_int_def)
  moreover have "small (sentAt (sample_message 5 False))" by (simp add: sample_rows small_def max_safe_def)
  ultimately show ?thesis using sample_key [of 5 False] by (simp add: event_ok_def dated_def counted_def)
qed

theorem taken_events_are_recorded_witness:
  "\<exists>g s1. stage_events sample_loop_deps sample_loop_env (sample_loop () sample_news) = (Inr g, s1) \<and>
    (case commit_staged sample_loop_deps sample_loop_env g s1 of
       (Inl e, s2) \<Rightarrow> eq_events (bl_queue s2) = sample_news
     | (Inr _, s2) \<Rightarrow> \<exists>ns rs'. in_sync (bl_host s2) (bl_db s2) ns rs' \<and> UserMsg BOOTSTRAP_TEXT \<in> set (entry_messages ns)
         \<and> cursor_of (cursor_numbers (bh_mailboxCursors (bl_host s2))) (js ''qq_group:20002'') = 5
         \<and> att_disclosed (attention_at (captureMailboxAttentionState (entry_messages ns)) (js ''qq_group:20002'')) = 5)"
proof -
  let ?s = "sample_loop () sample_news" and ?k = "js ''qq_group:20002''" and ?d = sample_loop_deps
  have q: "eq_events (bl_queue ?s) = sample_news" by (simp add: sample_loop_def sample_queue_def)
  have sync: "in_sync (bl_host ?s) (bl_db ?s) [] empty_runtime" using fresh_in_sync by (simp add: sample_loop_def)
  have col: "json_column (bd_column ?d)" using json_column_id by (simp add: sample_loop_deps_def)
  have cs: "cursor_numbers (bh_mailboxCursors (bl_host ?s)) = []"
    by (simp add: sample_loop_def fresh_host_def installRuntimeState_def empty_runtime_def cursor_numbers_def)
  have mb: "mailbox_of (MessageEvent (sample_message 5 False)) = Some ?k" "mailbox_of Wake = None" "mailbox_of Bootstrap = None"
    using sample_key [of 5 False] by (simp_all add: mailbox_of_def)
  then have rows: "rows_in ?k sample_news = [5]" "rows_in ?k (admitted (cursor_of []) sample_news) = [5]"
    using sample_rows(1) by (simp_all add: rows_in_def cursor_of_def)
  have texts: "mset (direct_texts (filter (\<lambda>e. mailbox_of e = None) sample_news)) = {#UserMsg BOOTSTRAP_TEXT#}"
    using mb by (simp add: direct_text_def) (simp add: BOOTSTRAP_TEXT_def)
  have d: "bd_renderEvent ?d = renderBotEvent" "\<exists>w'. bd_report ?d x w = (Inr (), w')" "clock_ok (bd_clock ?d w)" for x w
    by (simp_all add: sample_loop_deps_def clock_ok_def engagement_lease_ms_def max_safe_def)
  have len: "int (length (eq_events (bl_queue ?s))) \<le> max_safe" by (simp add: q max_safe_def)
  have "le_arrivals sample_loop_env = []" by (simp add: sample_loop_env_def)
  with taken_events_are_recorded [OF sync col d _ len, unfolded q cs texts] sample_news_ok rows show ?thesis
    by (fastforce simp: step_disclosed_def cursor_of_def split: prod.splits sum.splits)
qed

section \<open>Autonomous discovery\<close>

text \<open>C38. A round of autonomous discovery cannot rest and cannot count upkeep as progress.  Whatever the tools answer (once per
  call), none of the calls that reach them is \<open>rest\<close>, directly or through \<open>invoke\<close>; every call of \<open>rest\<close> is answered, in its place, by the
  refusal; and the result of a maintenance tool says that it made no progress.\<close>

theorem discovery_cannot_rest:
  assumes "\<And>calls r w. length (fst (ex_batch tools calls r w)) = length calls"
    and "ex_batch (createAutonomyDiscoveryToolExecutor (logging_tools tools)) calls r (w, []) = (results, w', batches)"
  shows "length results = length calls \<and> list_all (list_all (\<lambda>c. resolveEffectiveToolName c \<noteq> js ''rest'')) batches
    \<and> list_all2 (\<lambda>c res. (resolveEffectiveToolName c = js ''rest'' \<longrightarrow> res = Inr rest_refused)
        \<and> (\<forall>x. res = Inr x \<longrightarrow> resolveEffectiveToolName c \<in> set (js ''rest'' # AUTONOMY_MAINTENANCE_TOOL_NAMES) \<longrightarrow>
             (\<exists>out. tr_outcome x = Some out \<and> to_progress out = Some False))) calls results"
proof -
  let ?run = "filter (\<lambda>c. \<not> is_rest c) calls"
  obtain rs where rs: "length rs = length ?run" "results = discovery_results calls rs" "batches = [] \<or> batches = [?run]"
  proof (cases "?run = []")
    case True
    then show ?thesis using assms(2) that [of "[]"] by (simp add: createAutonomyDiscoveryToolExecutor_def Let_def)
  next
    case False
    obtain xs w1 where x: "ex_batch tools ?run r w = (xs, w1)" by fastforce
    then have "length xs = length ?run" using assms(1) [of ?run r w] by simp
    then show ?thesis using assms(2) False that [of xs] by (simp add: createAutonomyDiscoveryToolExecutor_def Let_def logging_tools_def x)
  qed
  note nth = discovery_results_nth [OF rs(1)]
  have rest: "\<exists>out. tr_outcome rest_refused = Some out \<and> to_progress out = Some False" by (simp add: rest_refused_def)
  have upkeep: "\<exists>out. tr_outcome (without_progress x) = Some out \<and> to_progress out = Some False" for x by (simp add: without_progress_def)
  have "list_all (\<lambda>c. resolveEffectiveToolName c \<noteq> js ''rest'') ?run" by (simp add: list_all_iff is_rest_def)
  then have "list_all (list_all (\<lambda>c. resolveEffectiveToolName c \<noteq> js ''rest'')) batches" using rs(3) by auto
  moreover have "list_all2 (\<lambda>c res. (resolveEffectiveToolName c = js ''rest'' \<longrightarrow> res = Inr rest_refused)
        \<and> (\<forall>x. res = Inr x \<longrightarrow> resolveEffectiveToolName c \<in> set (js ''rest'' # AUTONOMY_MAINTENANCE_TOOL_NAMES) \<longrightarrow>
             (\<exists>out. tr_outcome x = Some out \<and> to_progress out = Some False))) calls results"
    unfolding list_all2_conv_all_nth rs(2)
  proof (intro conjI allI impI)
    fix i x
    assume i: "i < length calls" and x: "discovery_results calls rs ! i = Inr x"
      and up: "resolveEffectiveToolName (calls ! i) \<in> set (js ''rest'' # AUTONOMY_MAINTENANCE_TOOL_NAMES)"
    show "\<exists>out. tr_outcome x = Some out \<and> to_progress out = Some False"
    proof (cases "is_rest (calls ! i)")
      case True
      then show ?thesis using nth i x rest by auto
    next
      case False
      then have "resolveEffectiveToolName (calls ! i) \<in> set AUTONOMY_MAINTENANCE_TOOL_NAMES" using up by (auto simp: is_rest_def)
      then have "Inr x = map_sum id without_progress (rs ! length (filter (\<lambda>c. \<not> is_rest c) (take i calls)))"
        using nth i x False by auto
      then obtain y where "x = without_progress y"
        by (cases "rs ! length (filter (\<lambda>c. \<not> is_rest c) (take i calls))") auto
      then show ?thesis using upkeep by simp
    qed
  qed (use nth in \<open>auto simp: is_rest_def\<close>)
  ultimately show ?thesis using nth rs(2) by simp
qed

theorem discovery_cannot_rest_witness:
  "let (results, w', batches) = ex_batch (createAutonomyDiscoveryToolExecutor (logging_tools sample_tools)) [plain_call ''1'' ''rest'', plain_call ''2'' ''inbox''] 1 ((), [])
   in hd results = Inr rest_refused \<and> list_all (list_all (\<lambda>c. resolveEffectiveToolName c \<noteq> js ''rest'')) batches"
proof -
  let ?calls = "[plain_call ''1'' ''rest'', plain_call ''2'' ''inbox'']"
  have answers: "length (fst (ex_batch sample_tools calls r w)) = length calls" for calls r w by (simp add: sample_tools_def)
  obtain results w' batches where run: "ex_batch (createAutonomyDiscoveryToolExecutor (logging_tools sample_tools)) ?calls 1 ((), []) = (results, w', batches)"
    by (metis prod_cases3)
  have "resolveEffectiveToolName (plain_call ''1'' ''rest'') = js ''rest''" by (simp add: resolveEffectiveToolName_def plain_call_def js_def)
  with discovery_cannot_rest [OF answers run] show ?thesis unfolding run Let_def prod.case by (cases results) auto
qed

section \<open>Novelty\<close>

text \<open>C39. The memory of what the tools have produced is the list of the 256 most recent different novelty keys, whatever the
  outcomes of a round are; a round makes progress exactly when one of its outcomes does and brings no novelty key that was
  in the memory at that moment.\<close>

theorem progress_is_new:
  assumes "map fst keys = recent_keys seen" "resolveToolControl r outs keys = (progress, selected, keys')"
  shows "map fst keys' = recent_keys (seen @ novelty_keys outs) \<and> length keys' \<le> recent_novelty_cap \<and> distinct (map fst keys')
    \<and> (progress \<longleftrightarrow> (\<exists>i < length outs. rt_progress (outs ! i) \<and> (\<forall>k. rt_noveltyKey (outs ! i) = Some k \<longrightarrow>
         k \<notin> set (recent_keys (seen @ novelty_keys (take i outs))))))"
proof -
  note mem = control_memory [OF assms(1), of r outs]
  have keys: "map fst keys' = recent_keys (seen @ novelty_keys outs)" using mem assms(2) by (simp add: resolveToolControl_def Let_def)
  then have "length keys' = length (recent_keys (seen @ novelty_keys outs))" by (metis length_map)
  then have "length keys' \<le> recent_novelty_cap" by (simp add: recent_keys_def)
  moreover have "distinct (map fst keys')" by (simp add: keys recent_keys_def)
  moreover have "progress \<longleftrightarrow> (\<exists>i < length outs. counts_after (seen @ novelty_keys (take i outs)) (outs ! i))"
    using mem assms(2) by (simp add: resolveToolControl_def Let_def)
  ultimately show ?thesis using keys by (auto simp: counts_after_def split: option.splits)
qed

definition novel_outcome :: "string \<Rightarrow> react_outcome" where
  "novel_outcome k = \<lparr>rt_toolCallId = js ''1'', rt_requestedToolName = js ''website'', rt_toolName = js ''website'', rt_ok = True, rt_code = None,
     rt_progress = True, rt_continuation = None, rt_continuationDetail = None, rt_noveltyKey = Some (js k)\<rparr>"

theorem progress_is_new_witness:
  "\<exists>selected keys'. resolveToolControl 2 [novel_outcome ''a''] [(js ''a'', 1)] = (False, selected, keys') \<and> map fst keys' = [js ''a'']"
proof -
  have mem: "map fst [(js ''a'', 1)] = recent_keys [js ''a'']" by (simp add: recent_keys_def recent_novelty_cap_def)
  obtain progress selected keys' where r: "resolveToolControl 2 [novel_outcome ''a''] [(js ''a'', 1)] = (progress, selected, keys')"
    by (metis prod_cases3)
  have "recent_keys ([js ''a''] @ novelty_keys [novel_outcome ''a'']) = [js ''a'']" "recent_keys ([js ''a''] @ novelty_keys []) = [js ''a'']"
    by (simp_all add: recent_keys_def recent_novelty_cap_def novelty_keys_def novel_outcome_def)
  with progress_is_new [OF mem r] r show ?thesis by (auto simp: novel_outcome_def)
qed

section \<open>A call without a name\<close>

text \<open>C40. One call without a tool name (an OpenAI-compatible provider may send one) ends the loop and loses its round.  The step has
  committed its events and the provider and the tools have done their part; the last call of the round is the nameless one and runs
  through the activity surface, which refuses it but keeps it.  The report that the round is about to be saved is then
  refused, so nothing of the round is saved, although its other calls have run; the report of this failure is refused
  too, and what it throws leaves the loop.\<close>

theorem nameless_call_ends_loop:
  assumes "\<not> bl_stopRequested s" "stage_events d env s = (Inr g, s1)" "commit_staged d env g s1 = (Inr (), s2)"
    and "fst (getSnapshot (bh_context (bl_host s2))) \<noteq> []"
    and "react_round d (step_tools d s2) [] (s2\<lparr>bl_roundIndex := bl_roundIndex s2 + 1\<rparr>) = (Inr r, s3)"
    and "cl_toolCalls (last (rr_completions r)) = pre @ [c]" "tc_name c = []" "is_json (summarizeToolArgs (effectiveToolArgs c))"
    and "\<not> isParallelSafeToolCall (rn_tools (bd_round d)) c" "tracking (rn_tools (bd_round d)) isoTime zodText clk execute" "reporting d isoTime"
  shows "\<exists>s4. loop d say (env # envs) s = (Inl (ReportFailed SurfaceInvalid), s4) \<and> bl_host s4 = bl_host s2 \<and> bl_db s4 = bl_db s2"
proof -
  let ?s = "s2\<lparr>bl_roundIndex := bl_roundIndex s2 + 1\<rparr>"
  note n = nameless_round [OF assms(5-10)]
  obtain w where w: "report_phase d (committing_phase (bl_roundIndex s3)) s3 = (Inl (ReportFailed SurfaceInvalid), s3\<lparr>bl_world := w\<rparr>)"
      "nameless_active (tc_id c) (snd w)"
    using phase_refused [OF assms(11) n(1)] by blast
  have "round_loop d (le_run env Overflow) (step_tools d s2) False 0 [] ?s = (Inl (ReportFailed SurfaceInvalid), s3\<lparr>bl_world := w\<rparr>)"
    by (subst round_loop.simps) (use assms(5) w(1) in \<open>simp add: Let_def\<close>)
  then have "round_phase d env g s2 = (Inl (ReportFailed SurfaceInvalid), s3\<lparr>bl_world := w\<rparr>)"
    by (simp add: round_phase_def runRound_def step_tools_def Let_def)
  then have turn: "runOnce d env s = (Inl (ReportFailed SurfaceInvalid), enqueue_all (le_later env) (s3\<lparr>bl_world := w\<rparr>))"
    using assms(2-4) by (simp add: runOnce_def step_def)
  have w': "nameless_active (tc_id c) (snd (bl_world (enqueue_all (le_later env) (s3\<lparr>bl_world := w\<rparr>))))"
    using w(2) by (simp add: enqueue_all_def)
  then obtain w2 where "loop_turn d say env s = (Inl (ReportFailed SurfaceInvalid), (enqueue_all (le_later env) (s3\<lparr>bl_world := w\<rparr>))\<lparr>bl_world := w2\<rparr>)"
    using phase_refused [OF assms(11)] turn by (fastforce simp: loop_turn_def)
  then show ?thesis using n(2,3) assms(1) by simp
qed

definition nameless_completion :: completion where
  "nameless_completion = sample_completion\<lparr>cl_toolCalls := [nameless_call]\<rparr>"

definition tracked_tools :: "(unit, int \<times> activity_reporter) tool_executor" where
  "tracked_tools = \<lparr>ex_list = [], ex_classify = (\<lambda>c. \<lparr>po_sideEffect = False, po_parallel = False\<rparr>),
     ex_batch = (\<lambda>calls k w. case calls of
         [c] \<Rightarrow> apfst (\<lambda>res. [res]) (tracked_execute (\<lambda>_. True) (js ''bad'') (\<lambda>w. w) echo_tool c k w)
       | _ \<Rightarrow> (map (\<lambda>c. Inl (tc_id c)) calls, w))\<rparr>"

definition reporting_deps :: "(unit, unit, int \<times> activity_reporter) loop_deps" where
  "reporting_deps = \<lparr>bd_round = (round_deps_sample tracked_tools)\<lparr>rn_chat := (\<lambda>q w. (Inr nameless_completion, w))\<rparr>,
     bd_compaction = sample_deps, bd_column = (\<lambda>v. v), bd_digest = (\<lambda>t. t),
     bd_overflow = (\<lambda>_. False), bd_overflowWindow = (\<lambda>_. None), bd_getFocus = None, bd_syncFocus = (\<lambda>_ w. w), bd_syncReads = (\<lambda>_ w. w),
     bd_report = (\<lambda>x (w, r). apsnd (Pair w) (run_report (\<lambda>_. True) x r)), bd_renderEvent = renderBotEvent, bd_participation = (\<lambda>_. None),
     bd_onCommitted = (\<lambda>_ w. w), bd_clock = (\<lambda>_. 1700000000000), bd_retryWaitMs = 60000, bd_wakeIntervalMs = 1800000,
     bd_errorBackoffMs = 5000\<rparr>"

text \<open>A loop with one message in its history and nothing to take.\<close>

definition reporting_loop :: "(int \<times> activity_reporter) bot_loop" where
  "reporting_loop = (sample_loop (0, first_reporter) [])\<lparr>bl_host := fresh_host\<lparr>bh_context := createAgentContext (Some [UserMsg (js ''hi'')])\<rparr>\<rparr>"

lemma first_reporter_surface: "ar_surface first_reporter = \<lparr>sf_instanceId = js ''a'', sf_pid = 1, sf_startedAt = to_iso_string 0, sf_generatedAt = to_iso_string 0,
    sf_phase = StartingPhase, sf_phaseStartedAt = to_iso_string 0, sf_roundIndex = None, sf_detail = None, sf_waitUntil = None,
    sf_trigger = None, sf_activeTools = [], sf_lastCompleted = None\<rparr>"
  by (simp add: first_reporter_def createAgentActivityReporter_def publish_def Let_def)

lemma reporting_stage:
  obtains g s1 where "stage_events reporting_deps sample_loop_env reporting_loop = (Inr g, s1)"
    "commit_staged reporting_deps sample_loop_env g s1 = (Inr (), s1)"
    "bl_host s1 = bl_host reporting_loop" "bl_db s1 = bl_db reporting_loop" "\<not> bl_discoveryActive s1"
proof -
  let ?s = "reporting_loop" and ?p = "\<lparr>dp_disclosures = [], dp_cursors = []\<rparr>" and ?d = "reporting_deps"
  have h: "bh_mailboxCursors (bl_host ?s) = []" "eq_events (bl_queue ?s) = []" "fst (getSnapshot (bh_context (bl_host ?s))) = [UserMsg (js ''hi'')]"
      "\<not> bl_discoveryActive ?s" "snd (bl_world ?s) = first_reporter" "bl_roundIndex ?s = 0"
    by (simp_all add: reporting_loop_def sample_loop_def sample_queue_def fresh_host_def installRuntimeState_def empty_runtime_def getSnapshot_def
        createAgentContext_def cloneMessages_def)
  have q: "bl_queue ?s\<lparr>eq_events := []\<rparr> = bl_queue ?s" using h(2) by (cases "bl_queue ?s") simp
  have dr: "drainEvents ?s = (Inr (drained_of [] ?p), ?s)"
    using h by (simp add: drainEvents_def drain_queue_all q planMailboxDisclosures_def cursor_numbers_def)
  have dr': "drained_of [] ?p = \<lparr>dr_events = [], dr_hadAttention = False, dr_interrupting = [], dr_passive = [], dr_cursors = []\<rparr>"
    by (simp add: drained_of_def)
  obtain w where t: "report_trigger ?d None ?s = (Inr (), ?s\<lparr>bl_world := w\<rparr>)" "ar_surface (snd w) = ar_surface first_reporter\<lparr>sf_trigger := None,
      sf_generatedAt := to_iso_string 1700000000000\<rparr>"
    using h(5) by (cases "bl_world ?s") (simp add: report_trigger_def reporting_deps_def setTrigger_def with_surface_def publish_def first_reporter_surface
        surface_valid_def js_def safe_int_def max_safe_def active_cap_def)
  obtain w' where ph: "report_phase ?d (thinking_phase 1) (?s\<lparr>bl_world := w\<rparr>) = (Inr (), ?s\<lparr>bl_world := w'\<rparr>)"
    using t(2) by (cases w) (simp add: report_phase_def reporting_deps_def setPhase_def with_surface_def publish_def first_reporter_surface Let_def
        thinking_phase_def surface_valid_def js_def safe_int_def max_safe_def active_cap_def count_value_def thinking_detail_def surface_text_cap_def)
  let ?g = "\<lparr>sg_drained = drained_of [] ?p, sg_messages = [], sg_disclosed = 0, sg_readCursors = None,
      sg_continuity = copied_continuity (bl_host ?s), sg_lastWakeAt = bh_lastWakeAt (bl_host ?s), sg_discoveryAppended = False\<rparr>"
  show ?thesis
  proof (rule that [of ?g "?s\<lparr>bl_world := w', bl_discoveryPromptPending := bl_discoveryPromptPending ?s\<rparr>"])
    show "stage_events ?d sample_loop_env ?s = (Inr ?g, ?s\<lparr>bl_world := w', bl_discoveryPromptPending := bl_discoveryPromptPending ?s\<rparr>)"
      using h t(1) ph
      by (simp add: stage_events_def dr dr' reset_for_events_def Let_def disclose_all_def discloseEvents.simps discovery_due_def bootstrap_messages_def)
    show "commit_staged ?d sample_loop_env ?g (?s\<lparr>bl_world := w', bl_discoveryPromptPending := bl_discoveryPromptPending ?s\<rparr>)
        = (Inr (), ?s\<lparr>bl_world := w', bl_discoveryPromptPending := bl_discoveryPromptPending ?s\<rparr>)"
      using h(1) by (simp add: commit_staged_def cursors_changed_def dr' cursor_values_def)
  qed (use h in simp_all)
qed

lemma nameless_batch: "\<exists>a w'. run_calls ((bd_round reporting_deps)\<lparr>rn_tools := tracked_tools\<rparr>) k [nameless_call] w = (Inr a, w')"
proof -
  have safe: "\<not> isParallelSafeToolCall tracked_tools nameless_call" by (simp add: tracked_tools_def isParallelSafeToolCall_def)
  have n: "effectiveToolName nameless_call = []" "is_json (summarizeToolArgs (effectiveToolArgs nameless_call))"
    by (simp_all add: effectiveToolName_def effectiveToolArgs_def nameless_call_def js_def no_args_summary)
  obtain w1 where "ex_batch tracked_tools [nameless_call] k w = ([Inl (js ''bad'')], w1)"
    using nameless_call_stays [OF n, of "\<lambda>_. True" "js ''bad''" "\<lambda>w. w" echo_tool k "fst w" "snd w"] by (auto simp: tracked_tools_def)
  then show ?thesis
    using safe by (simp add: run_calls.simps [of _ _ "[nameless_call]"] run_calls.simps [of _ _ "[]"] Let_def reporting_deps_def round_deps_sample_def
        call_result_def executeToolCall_def)
qed

theorem nameless_call_ends_loop_witness:
  "\<exists>s4. loop reporting_deps (\<lambda>_. js ''failed'') [sample_loop_env, sample_loop_env] reporting_loop = (Inl (ReportFailed SurfaceInvalid), s4)
    \<and> bl_host s4 = bl_host reporting_loop \<and> bl_db s4 = sample_db"
proof -
  let ?d = reporting_deps and ?s = reporting_loop
  obtain g s1 where s1: "stage_events ?d sample_loop_env ?s = (Inr g, s1)" "commit_staged ?d sample_loop_env g s1 = (Inr (), s1)"
      "bl_host s1 = bl_host ?s" "bl_db s1 = bl_db ?s" "\<not> bl_discoveryActive s1"
    by (rule reporting_stage)
  have host: "fst (getSnapshot (bh_context (bl_host s1))) = [UserMsg (js ''hi'')]"
    by (simp add: s1(3) reporting_loop_def getSnapshot_def createAgentContext_def cloneMessages_def)
  have tools: "step_tools ?d s1 = tracked_tools" "rn_tools (bd_round ?d) = tracked_tools"
    using s1(5) by (simp_all add: step_tools_def reporting_deps_def round_deps_sample_def)
  obtain r s3 where r: "react_round ?d (step_tools ?d s1) [] (s1\<lparr>bl_roundIndex := bl_roundIndex s1 + 1\<rparr>) = (Inr r, s3)"
      "cl_toolCalls (last (rr_completions r)) = [] @ [nameless_call]"
  proof -
    let ?rd = "(bd_round ?d)\<lparr>rn_tools := tracked_tools\<rparr>" and ?k = "bl_roundIndex s1 + 1"
    obtain a w1 where run: "run_calls ?rd ?k [nameless_call] (bl_world s1) = (Inr a, w1)" using nameless_batch by blast
    have c: "cl_toolCalls nameless_completion = [nameless_call]" "cl_stopReason nameless_completion = None"
      by (simp_all add: nameless_completion_def sample_completion_def)
    have "chat_loop ?rd ms b False None [] w = (Inr (nameless_completion, [nameless_completion]), w)" for ms b w
      by (subst chat_loop.simps) (simp add: c reporting_deps_def round_deps_sample_def)
    moreover have "breakpoint_of (rn_keepRecentTokens ?rd) ms = Inr None" for ms by (simp add: breakpoint_of_def reporting_deps_def round_deps_sample_def)
    ultimately have "runReactRound ?rd ?k ms [] (bl_world s1) = (Inr (round_result_of nameless_completion [nameless_completion] a), w1)" for ms
      using run by (simp add: runReactRound_def Let_def c)
    then show ?thesis using that c by (simp add: react_round_def tools(1) round_result_of_def)
  qed
  have eff: "effectiveToolArgs nameless_call = []" "tc_name nameless_call = []"
    by (simp_all add: effectiveToolArgs_def nameless_call_def js_def)
  have stop: "\<not> bl_stopRequested ?s" by (simp add: reporting_loop_def sample_loop_def)
  have json: "is_json (summarizeToolArgs (effectiveToolArgs nameless_call))" by (simp add: eff no_args_summary)
  have safe: "\<not> isParallelSafeToolCall (rn_tools (bd_round ?d)) nameless_call" by (simp add: tools isParallelSafeToolCall_def tracked_tools_def)
  have track: "tracking (rn_tools (bd_round ?d)) (\<lambda>_. True) (js ''bad'') (\<lambda>w. w) echo_tool" unfolding tools by (simp add: tracking_def tracked_tools_def)
  have rep: "reporting ?d (\<lambda>_. True)" by (simp add: reporting_def reporting_deps_def)
  have nonempty: "fst (getSnapshot (bh_context (bl_host s1))) \<noteq> []" by (simp add: host)
  from nameless_call_ends_loop [OF stop s1(1,2) nonempty r eff(2) json safe track rep, of "\<lambda>_. js ''failed''" "[sample_loop_env]"] s1(3,4)
  show ?thesis by (simp add: reporting_loop_def sample_loop_def)
qed

end
