(* ===== verification/Spec2Isabelle.thy ===== *)
theory Spec2Isabelle
  imports Js_Json_Roundtrip Ledger_Properties Mailbox_Properties Ledger_Repo_Log Compaction_Properties Runtime_Properties Coordinator_Properties Loop_Policy Task_Scheduler_Properties Event_Properties Background_Tasks Schedule_Properties React_Properties Tool_Properties Tool_Schema Activity_Surface Loop_Properties
begin

text \<open>
  A verification development for the core of a chat agent (\<open>src/\<close>): the permanent ledger of its messages, the projection of
  it that the model sees, the mailboxes through which the world reaches it, the compaction of its history, its tools, its
  schedules and background tasks, and the loop that drives them.

  \<^bold>\<open>How the program works.\<close>  Adapters put events into a queue.  The loop (\<open>agent/bot-loop-agent.ts\<close>) takes all of them,
  plans what is new in each mailbox, writes texts about it into the ledger together with the cursors that say how far each
  mailbox was shown, asks the provider for the next action, runs the tools it calls, writes calls and results into the
  ledger, and decides whether to go on, wait or stop.  The ledger is an append-only table with one row of runtime state; a
  commit names the head it was computed from.  What the model sees is a projection of the ledger: the last compaction's
  summary and attention state, then the messages it kept and all later ones.  After a failed round, a crash or a restart
  everything is computed again from the ledger, so memory must always be that projection.

  \<^bold>\<open>The theories and the files they model.\<close>
  \<^item> Strings, JSON and dates of the language: \<open>Js_Prelude\<close>, \<open>Text_Encoding\<close>, \<open>Js_Text\<close>, \<open>Js_Json\<close> (\<open>JSON.stringify\<close>, \<open>JSON.parse\<close>, the
    key order of objects), \<open>Js_Json_Roundtrip\<close>, \<open>Js_Objects\<close>, \<open>Json_Order\<close>, \<open>Js_Date\<close>, \<open>Iso_Date\<close>.  A string is its list of UTF-16
    code units; an object is its list of properties in enumeration order; every \<open>throw\<close> is an \<open>Inl\<close>.
  \<^item> Data: \<open>Conversation\<close> (\<open>chat/conversation.ts\<close>), \<open>Ledger_Types\<close> (\<open>agent-context.types.ts\<close>, \<open>agent-ledger.types.ts\<close>), \<open>Bot_Event\<close> (\<open>event.ts\<close>,
    \<open>notification.ts\<close>).
  \<^item> The ledger: \<open>Snapshot_Integrity\<close> (\<open>snapshot-integrity.ts\<close>), \<open>Ledger_Projection\<close> (\<open>agent-ledger-projection.ts\<close>), \<open>Ledger_Repo\<close>
    (\<open>agent-ledger-repo.ts\<close>: the rows and the runtime row are the record \<open>ledger_db\<close>), \<open>Agent_Context\<close> (\<open>agent-context.ts\<close>), \<open>Ledger_Commit\<close>
    (\<open>ledger-commit-coordinator.ts\<close>; \<open>bot_host\<close> is the loop's copy of the runtime state), \<open>Ledger_Loader\<close> and \<open>Ledger_Reload\<close>
    (\<open>agent-ledger-loader.ts\<close>).  Facts: \<open>Snapshot_Scan\<close>, \<open>Ledger_Normal\<close>, \<open>Projection_Facts\<close>, \<open>Ledger_Repo_Facts\<close>, \<open>Ledger_Repo_Log\<close>,
    \<open>Ledger_Properties\<close>, \<open>Runtime_Properties\<close>.
  \<^item> Mailboxes: \<open>Mailbox\<close> (\<open>mailbox.ts\<close>), \<open>Render_Event\<close> (\<open>render-event.ts\<close>), \<open>Mailbox_Handled\<close> (\<open>mailbox-handled.ts\<close>), \<open>Inbox_Read_Cursors\<close>,
    \<open>Mailbox_Continuity\<close>, \<open>Event_Queue\<close> (\<open>event-queue.ts\<close>, \<open>dedup-enqueue.ts\<close>).  Facts: \<open>Mailbox_Attention\<close>, \<open>Mailbox_Facts\<close>, \<open>Mailbox_Text\<close>,
    \<open>Event_Properties\<close>, \<open>Mailbox_Properties\<close>.
  \<^item> Compaction: \<open>Token_Estimator\<close>, \<open>Untrusted_Transcript\<close>, \<open>Compaction_Text\<close> (\<open>compaction-serialization.ts\<close>), \<open>Compaction\<close> (\<open>compaction.ts\<close>,
    \<open>compaction-hooks.ts\<close>), \<open>Compaction_Coordinator\<close>, \<open>Working_Context\<close>.  Facts: \<open>Atomic_Units\<close>, \<open>Compaction_Facts\<close>, \<open>Compaction_Properties\<close>,
    \<open>Coordinator_Facts\<close>, \<open>Coordinator_Properties\<close>.
  \<^item> Schedules, tasks and the scheduler of jobs: \<open>Schedule_Stores\<close>, \<open>Schedule_Runtime\<close> (\<open>schedule-*.ts\<close>, \<open>runtime.ts\<close>), \<open>Schedule_Delivery\<close>
    (with the loop and the ledger around them), \<open>Background_Tasks\<close> (\<open>background-task-registry.ts\<close>), \<open>Task_Scheduler\<close> (\<open>task-scheduler.ts\<close>).
    Facts: \<open>Schedule_Life\<close> (the abstract contract), \<open>Schedule_Refinement\<close>, \<open>Schedule_Properties\<close>, \<open>Task_Scheduler_Properties\<close>.
  \<^item> Tools: \<open>Tool_Effects\<close> (\<open>effect-interpreter.ts\<close>, \<open>durable-agent-message.ts\<close>), \<open>Tool_Schema\<close> (\<open>tool-schema.ts\<close>), \<open>Tool_Executor\<close> and
    \<open>Deferred_Tools\<close> (\<open>tool.ts\<close>), \<open>Tool_Call_Log\<close> (\<open>ops/tool-call-log.ts\<close>), \<open>Activity_Surface\<close> (\<open>activity-surface.ts\<close>,
    \<open>activity-trigger.ts\<close>).  Facts: \<open>Tool_Properties\<close>.
  \<^item> The round and the loop: \<open>React_Kernel\<close> (\<open>react-kernel.ts\<close>, \<open>tool-concurrency.ts\<close>), \<open>Loop_Policy\<close> (\<open>loop-policy.ts\<close>), and
    \<open>bot-loop-agent.ts\<close> in \<open>Loop_Texts\<close>, \<open>Loop_State\<close> (state, commits, \<open>drainEvents\<close>, discovery tools, novelty), \<open>Loop_Disclosure\<close>
    (\<open>discloseEvents\<close>), \<open>Loop_Round\<close> (\<open>runRound\<close>, handled markers), \<open>Loop_Step\<close> (\<open>step\<close>, \<open>runOnce\<close>, the waits, \<open>loop\<close>, \<open>start\<close>, \<open>stop\<close>).
    Facts: \<open>React_Properties\<close>, \<open>Loop_Recorded\<close> (what a disclosure owes and writes), \<open>Loop_Events\<close>, \<open>Loop_Staging\<close> (that
    staging succeeds), \<open>Loop_Properties\<close>.

  \<^bold>\<open>Interfaces.\<close>  The laws one part relies on are locales: a store of cursors that only move forward (\<open>Cursor_Store\<close>), an
  append-only log under optimistic concurrency (\<open>Ledger_Repo_Log\<close>), the reload a compaction is given (\<open>Coordinator_Facts\<close>), and the
  delivery contract of plans (\<open>Schedule_Life\<close>); each is interpreted on the model's own definitions where they are.

  \<^bold>\<open>What is shown.\<close>
  \<^item> The ledger: exactly the legal tool-call histories are accepted; appending is incremental projection; every reachable
    state of the repository loads; a commit or a compaction keeps the loop's memory the projection of the stored ledger, or
    fails and changes neither.
  \<^item> Mailboxes: a plan shows exactly the events beyond the cursors, in order, once; what the texts of a plan say is what the
    attention state captured from the history says.  The two meet in \<open>taken_events_are_recorded\<close>, for a whole step of the loop.
  \<^item> Compaction: the split of the history, the validity of the candidate, the sealing of the transcript, the round trip of the
    summary.
  \<^item> Schedules and tasks: no plan is lost or delivered twice, over failing writes, crashes and restarts (a refinement of the
    delivery contract); a restart restores every task; every accepted job is run.
  \<^item> Rounds and tools: one unit per round, at most two requests, parallel calls only of tools that say so, one audit entry per
    call, redaction, the round trip of strict schemas, no rest during discovery, progress only by new keys, and a bound on
    unproductive rounds.

  \<^bold>\<open>What modelling found.\<close>  A checkpoint in a \<open>jsonb\<close> column never hits when the column
  reorders the snapshot's keys (\<open>jsonb_checkpoint_never_hits\<close>); a commit may reuse a
  compacted tool-call id and leave a ledger that never loads (\<open>accepted_commit_cannot_be_loaded\<close>); the next compaction drops the
  attention of the last (\<open>attention_not_carried_over\<close>); a failed registration keeps a slot (\<open>failed_registration_keeps_slot\<close>); a
  cancelled plan can be delivered (\<open>cancelled_plan_is_delivered\<close>); nulls of other variants stay (\<open>nulls_of_other_variants_stay\<close>); a call
  without a name blocks all reports, so that its round is not saved and the loop ends (\<open>nameless_call_ends_loop\<close>); a step in which
  something throws before the commit does not put the events back it has taken, which is why \<open>taken_events_are_recorded\<close> asks for
  accepted reports; and a comment on what interrupts the loop is wrong about edits and recalls.

  \<^bold>\<open>Bounds and fuel.\<close>  \<open>JSON.parse\<close> has as fuel the length of its text, enough since every value consumes a character; the repair of
  a summary stops after 256 sections as the code does; everything else terminates by itself.  The bounds of the code are kept: 200
  occurrences per plan, 20 plans, two requests per round (8192 to 65536 tokens), two output continuations and one overflow
  compaction, 256 novelty keys, 32 active tools.

  \<^bold>\<open>Parameters.\<close>  Code that is not under \<open>src/\<close> is an argument: the provider, the summarizer and the hooks, the tools (a batch answers
  each call, in any interleaving), the schema library's checks and messages (for timestamps, \<open>isoTime\<close>), the digest, the image
  store, clocks, timers, identifiers, the JSON column of the database (law: what comes back is equal up to the order of
  keys; \<open>jsonb_column\<close> is one that gives a snapshot's keys in another order than
  written), whether a write of a file succeeds, other writers of the ledger, and what arrives while the loop is busy or waits (\<open>loop_env\<close>).

  \<^bold>\<open>Not modelled.\<close>  The daylight saving time of Asia/Shanghai in 1986 to 1991 (\<open>formatBeijingIso\<close> adds eight hours); a job that
  throws before it returns a promise (\<open>pumpLane\<close> would keep its slot).  Objects with an own key
  \<open>__proto__\<close> and the inherited names of \<open>Object.prototype\<close>; the rounding of doubles beyond
  fractions with a finite binary form; years outside 0 to 9999; numbers of groups not written in decimal.  The debounce of a step only lets
  events arrive before they are taken.  A commit whose installation in memory fails after the write is outside the delivery system.
  Of the program: the admin web application, the browser, the individual tools and the services behind them (shell, web, media,
  images), the network clients of the providers, the messaging gateways, the jobs, the SQL of the database layer, the stores of
  memory and notebooks, logging and metrics: input and output, presentation or glue without a contract the core relies on.
\<close>

end
